(* ===== verification/Prelude.thy ===== *)
theory Prelude
  imports Main "HOL-Library.Word" "HOL-Library.AList" "HOL-Library.Char_ord"
    "HOL-Library.List_Lexorder" "HOL-Library.Monad_Syntax"
begin

unbundle bit_operations_syntax

text \<open>
  The shared ground of the development: the machine integers of the code as words of their
  width, byte strings, the rule collections every component extends, and the generic facts on
  association lists (the model of \<open>std::unordered_map\<close>: the list order stands for the
  unspecified iteration order, so a fact about every list is a fact about every order).
\<close>

type_synonym u8 = "8 word"
type_synonym u16 = "16 word"
type_synonym u32 = "32 word"
type_synonym u64 = "64 word"
type_synonym bytes = "u8 list"

type_synonym ('k, 'v) umap = "('k \<times> 'v) list"

named_theorems wire_rt \<open>decoding what was encoded, field by field\<close>
named_theorems wire_len \<open>lengths of encoded fields\<close>
named_theorems guard_defs \<open>definitions of the boolean guards of the code\<close>

section \<open>Association lists\<close>

abbreviation lookup :: "('k, 'v) umap \<Rightarrow> 'k \<Rightarrow> 'v option" where
  "lookup m k \<equiv> map_of m k"

abbreviation keys :: "('k, 'v) umap \<Rightarrow> 'k list" where
  "keys m \<equiv> map fst m"

definition map_vals :: "('k \<Rightarrow> 'v \<Rightarrow> 'w) \<Rightarrow> ('k, 'v) umap \<Rightarrow> ('k, 'w) umap" where
  "map_vals f m = map (\<lambda>(k, v). (k, f k v)) m"

lemma map_vals_simps [simp]:
  "map_vals f [] = []"
  "map_vals f ((k, v) # m) = (k, f k v) # map_vals f m"
  by (simp_all add: map_vals_def)

lemma keys_map_vals [simp]: "map fst (map_vals f m) = map fst m"
  by (induction m) auto

lemma lookup_map_vals [simp]: "map_of (map_vals f m) k = map_option (f k) (map_of m k)"
  by (induction m) auto

lemma lookup_update [simp]: "map_of (AList.update k v m) = (map_of m)(k \<mapsto> v)"
  by (rule AList.update_conv')

lemma lookup_delete [simp]: "map_of (AList.delete k m) = (map_of m)(k := None)"
  by (rule AList.delete_conv')

lemma distinct_keys_update [simp]:
  "distinct (map fst m) \<Longrightarrow> distinct (map fst (AList.update k v m))"
  by (rule AList.distinct_update)

lemma distinct_keys_delete [simp]:
  "distinct (map fst m) \<Longrightarrow> distinct (map fst (AList.delete k m))"
  by (rule AList.distinct_delete)

lemma in_keys_iff_lookup: "k \<in> fst ` set m \<longleftrightarrow> (\<exists>v. map_of m k = Some v)"
  by (metis map_of_eq_None_iff option.exhaust option.distinct(1))

lemma lookup_in_set: "map_of m k = Some v \<Longrightarrow> (k, v) \<in> set m"
  by (rule map_of_SomeD)

lemma in_set_lookup: "distinct (map fst m) \<Longrightarrow> (k, v) \<in> set m \<Longrightarrow> map_of m k = Some v"
  by (rule map_of_is_SomeI)

text \<open>An update that adds no key keeps the number of entries.\<close>

lemma length_update_present:
  "map_of m k = Some w \<Longrightarrow> length (AList.update k v m) = length m"
  by (induction m) (auto split: if_splits)

lemma length_update_absent:
  "map_of m k = None \<Longrightarrow> length (AList.update k v m) = Suc (length m)"
  by (induction m) (auto split: if_splits)

lemma update_same: "map_of m k = Some v \<Longrightarrow> AList.update k v m = m"
  by (induction m) (auto split: if_splits)

lemma filter_update_absent:
  "map_of m k = None \<Longrightarrow> filter P (AList.update k v m) = filter P m @ filter P [(k, v)]"
  by (induction m) (auto split: if_splits)

section \<open>Numerals as decimal strings\<close>

text \<open>\<open>std::to_string\<close> on unsigned values.\<close>

fun to_string_nat :: "nat \<Rightarrow> string" where
  "to_string_nat n =
     (if n < 10 then [char_of (48 + n)] else to_string_nat (n div 10) @ [char_of (48 + n mod 10)])"

declare to_string_nat.simps [simp del]

definition to_string :: "'a::len word \<Rightarrow> string" where
  "to_string w = to_string_nat (unat w)"

section \<open>Words\<close>

lemma unat_bound: "unat (w :: 'a::len word) < 2 ^ LENGTH('a)"
  by (rule unsigned_less)

lemma word_le_antisym_plus: "(a::'a::len word) \<le> b \<Longrightarrow> a + (b - a) = b"
  by simp

lemma unat_sub_le: "(b::'a::len word) \<le> a \<Longrightarrow> unat (a - b) = unat a - unat b"
  by (rule unat_sub)

lemma word_gt_imp_nonzero: "(a::'a::len word) < b \<Longrightarrow> b \<noteq> 0"
  by (metis word_not_simps(1))

lemma unat_ucast_up:
  "LENGTH('a) \<le> LENGTH('b) \<Longrightarrow> unat (ucast (w :: 'a::len word) :: 'b::len word) = unat w"
  by transfer (simp add: take_bit_take_bit min_def)

end
