(* ===== verification/Wire.thy ===== *)
theory Wire
  imports Prelude
begin

unbundle bit_operations_syntax

text \<open>
  The little-endian field codec of \<open>LiNeP/src/v0_2/envelopes.cpp\<close>: the \<open>write_*\<close>
  functions append a field to a buffer, the methods of \<open>buffer_reader\<close> take one off the
  front. A reader is the list of the bytes from \<open>offset_\<close> on (so \<open>remaining()\<close> is its
  length); a read that would pass the end returns \<open>None\<close>, as the code returns false.
  The locale \<open>codec\<close> is the contract between a writer and its reader, \<open>exact_codec\<close> adds
  that the reader accepts nothing but what the writer produces.
\<close>

section \<open>Little-endian words\<close>

definition byte_of :: "nat \<Rightarrow> 'a::len word \<Rightarrow> u8" where
  "byte_of i v = ucast (drop_bit (8 * i) v AND 0xFF)"

definition le_bytes :: "nat \<Rightarrow> 'a::len word \<Rightarrow> bytes" where
  "le_bytes k v = map (\<lambda>i. byte_of i v) [0..<k]"

fun le_word_from :: "nat \<Rightarrow> bytes \<Rightarrow> 'a::len word" where
  "le_word_from i [] = 0"
| "le_word_from i (b # bs) = push_bit (8 * i) (ucast b) OR le_word_from (Suc i) bs"

definition le_word :: "bytes \<Rightarrow> 'a::len word" where
  "le_word bs = le_word_from 0 bs"

lemma bit_0xFF: "bit (0xFF :: 'a::len word) n \<longleftrightarrow> n < 8 \<and> n < LENGTH('a)"
proof -
  have m: "(0xFF :: 'a word) = mask 8" by (simp add: mask_eq_exp_minus_1)
  show ?thesis unfolding m by (auto simp: bit_mask_iff)
qed

lemma bit_byte_of: "bit (byte_of i v) n \<longleftrightarrow> n < 8 \<and> bit v (8 * i + n)"
  by (auto simp: byte_of_def bit_simps bit_0xFF simp del: bit_numeral_word_iff dest: bit_imp_le_length)

lemma bit_le_word_from:
  "bit (le_word_from i bs :: 'a::len word) n \<longleftrightarrow>
     n < LENGTH('a) \<and> 8 * i \<le> n \<and> n div 8 - i < length bs \<and> bit (bs ! (n div 8 - i)) (n mod 8)"
proof (induction bs arbitrary: i)
  case Nil
  then show ?case by simp
next
  case (Cons b bs)
  show ?case
  proof (cases "8 * i \<le> n \<and> n < 8 * Suc i")
    case True
    then have d: "n div 8 = i" by (intro div_nat_eqI) simp_all
    then have "n mod 8 = n - 8 * i" by (simp add: minus_mult_div_eq_mod [symmetric])
    with d True show ?thesis by (auto simp: Cons.IH bit_simps)
  next
    case False
    then consider "n < 8 * i" | "8 * Suc i \<le> n" by linarith
    then show ?thesis
    proof cases
      case 1
      then show ?thesis by (auto simp: Cons.IH bit_simps)
    next
      case 2
      then have "\<not> n - 8 * i < 8" by simp
      then have b: "\<not> bit b (n - 8 * i)" by (auto dest: bit_imp_le_length)
      from div_le_mono[OF 2, of 8] have "Suc i \<le> n div 8" by simp
      then have "n div 8 - i = Suc (n div 8 - Suc i)" by simp
      with 2 b show ?thesis by (auto simp: Cons.IH bit_simps)
    qed
  qed
qed

lemma bit_le_word:
  "bit (le_word bs :: 'a::len word) n \<longleftrightarrow>
     n < LENGTH('a) \<and> n div 8 < length bs \<and> bit (bs ! (n div 8)) (n mod 8)"
  by (simp add: le_word_def bit_le_word_from)

lemma length_le_bytes [simp, wire_len]: "length (le_bytes k v) = k"
  by (simp add: le_bytes_def)

lemma le_word_le_bytes: "8 * k = LENGTH('a) \<Longrightarrow> le_word (le_bytes k v) = (v :: 'a::len word)"
  by (rule bit_word_eqI) (auto simp: bit_le_word le_bytes_def bit_byte_of)

lemma le_bytes_le_word:
  assumes "8 * length bs = LENGTH('a)"
  shows "le_bytes (length bs) (le_word bs :: 'a::len word) = bs"
proof (rule nth_equalityI)
  fix i assume "i < length (le_bytes (length bs) (le_word bs :: 'a word))"
  then have i: "i < length bs" by simp
  show "le_bytes (length bs) (le_word bs :: 'a word) ! i = bs ! i"
  proof (rule bit_word_eqI)
    fix n assume "n < LENGTH(8)"
    then have "n < 8" by simp
    with i assms show "bit (le_bytes (length bs) (le_word bs :: 'a word) ! i) n \<longleftrightarrow> bit (bs ! i) n"
      by (simp add: le_bytes_def bit_byte_of bit_le_word)
  qed
qed simp

section \<open>Readers\<close>

type_synonym 'a reader = "bytes \<Rightarrow> ('a \<times> bytes) option"

definition has_remaining :: "nat \<Rightarrow> bytes \<Rightarrow> bool" where
  "has_remaining n r \<longleftrightarrow> n \<le> length r"

definition read_le :: "nat \<Rightarrow> 'a::len word reader" where
  "read_le k r = (if \<not> has_remaining k r then None else Some (le_word (take k r), drop k r))"

definition write_u8 :: "u8 \<Rightarrow> bytes" where "write_u8 v = [v]"
definition write_u16 :: "u16 \<Rightarrow> bytes" where "write_u16 v = le_bytes 2 v"
definition write_u32 :: "u32 \<Rightarrow> bytes" where "write_u32 v = le_bytes 4 v"
definition write_u64 :: "u64 \<Rightarrow> bytes" where "write_u64 v = le_bytes 8 v"

definition read_u8 :: "u8 reader" where
  "read_u8 r = (if \<not> has_remaining 1 r then None else Some (hd r, tl r))"
definition read_u16 :: "u16 reader" where "read_u16 r = read_le 2 r"
definition read_u32 :: "u32 reader" where "read_u32 r = read_le 4 r"
definition read_u64 :: "u64 reader" where "read_u64 r = read_le 8 r"

text \<open>Characters of \<open>std::string\<close> are bytes.\<close>

definition byte_of_char :: "char \<Rightarrow> u8" where
  "byte_of_char c = of_nat (of_char c)"

definition char_of_byte :: "u8 \<Rightarrow> char" where
  "char_of_byte b = char_of (unat b)"

definition bytes_of_string :: "string \<Rightarrow> bytes" where
  "bytes_of_string s = map byte_of_char s"

definition string_of_bytes :: "bytes \<Rightarrow> string" where
  "string_of_bytes bs = map char_of_byte bs"

lemma char_of_byte_of_char [simp]: "char_of_byte (byte_of_char c) = c"
  by (simp add: char_of_byte_def byte_of_char_def unat_of_nat)

lemma byte_of_char_of_byte [simp]: "byte_of_char (char_of_byte b) = b"
proof -
  have "unat b mod 256 = unat b" using unat_bound[of b] by simp
  then show ?thesis by (simp add: char_of_byte_def byte_of_char_def)
qed

lemma string_bytes_rt [simp]:
  "string_of_bytes (bytes_of_string s) = s" "bytes_of_string (string_of_bytes b) = b"
  "length (bytes_of_string s) = length s" "length (string_of_bytes b) = length b"
  by (simp_all add: string_of_bytes_def bytes_of_string_def comp_def)

text \<open>
  \<open>write_string_u16\<close> casts the size to 16 bits and writes that many characters: a string of
  65536 or more bytes is cut to its size modulo 65536. \<open>write_string_u32\<close> likewise.
\<close>

definition write_string_u16 :: "string \<Rightarrow> bytes" where
  "write_string_u16 s =
     (let len = (of_nat (length s) :: u16) in write_u16 len @ take (unat len) (bytes_of_string s))"

definition write_string_u32 :: "string \<Rightarrow> bytes" where
  "write_string_u32 s =
     (let len = (of_nat (length s) :: u32) in write_u32 len @ take (unat len) (bytes_of_string s))"

definition read_string_u16 :: "string reader" where
  "read_string_u16 r =
     do { (len, r) \<leftarrow> read_u16 r;
          if \<not> has_remaining (unat len) r then None
          else Some (string_of_bytes (take (unat len) r), drop (unat len) r) }"

definition read_string_u32 :: "string reader" where
  "read_string_u32 r =
     do { (len, r) \<leftarrow> read_u32 r;
          if \<not> has_remaining (unat len) r then None
          else Some (string_of_bytes (take (unat len) r), drop (unat len) r) }"

text \<open>A loop that reads \<open>n\<close> items of one kind and stops at the first failure.\<close>

fun read_many :: "'a reader \<Rightarrow> nat \<Rightarrow> 'a list reader" where
  "read_many dec 0 r = Some ([], r)"
| "read_many dec (Suc n) r =
     do { (x, r) \<leftarrow> dec r; (xs, r) \<leftarrow> read_many dec n r; Some (x # xs, r) }"

section \<open>The contract between a writer and its reader\<close>

locale codec =
  fixes enc :: "'a \<Rightarrow> bytes"
    and dec :: "'a reader"
    and ok :: "'a \<Rightarrow> bool"
  assumes dec_enc: "ok v \<Longrightarrow> dec (enc v @ r) = Some (v, r)"
begin

lemma enc_prefix_free:
  assumes "ok v" and "ok w" and "enc v @ r = enc w @ s"
  shows "v = w \<and> r = s"
proof -
  have "Some (v, r) = dec (enc w @ s)"
    using dec_enc[OF assms(1), of r] by (simp only: assms(3))
  then show ?thesis by (simp only: dec_enc[OF assms(2)]) simp
qed

lemma enc_inj: "ok v \<Longrightarrow> ok w \<Longrightarrow> enc v = enc w \<Longrightarrow> v = w"
  using enc_prefix_free[of v w "[]" "[]"] by simp

lemma many_dec_enc:
  "\<forall>v \<in> set vs. ok v \<Longrightarrow> read_many dec (length vs) (concat (map enc vs) @ r) = Some (vs, r)"
  by (induction vs) (simp_all add: dec_enc)

end

locale exact_codec = codec +
  assumes enc_dec: "dec b = Some (v, r) \<Longrightarrow> ok v \<and> b = enc v @ r"
begin

lemma dec_iff: "dec b = Some (v, r) \<longleftrightarrow> ok v \<and> b = enc v @ r"
  by (auto dest: enc_dec simp: dec_enc)

lemma dec_consumes: "dec b = Some (v, r) \<Longrightarrow> length r + length (enc v) = length b"
  by (drule enc_dec) simp

lemma many_enc_dec:
  "read_many dec n b = Some (vs, r) \<Longrightarrow>
     length vs = n \<and> (\<forall>v \<in> set vs. ok v) \<and> b = concat (map enc vs) @ r"
proof (induction n arbitrary: b vs r)
  case 0
  then show ?case by simp
next
  case (Suc n)
  then obtain x r1 xs where x: "dec b = Some (x, r1)"
    and xs: "read_many dec n r1 = Some (xs, r)" and vs: "vs = x # xs"
    by (auto simp: bind_eq_Some_conv)
  from enc_dec[OF x] Suc.IH[OF xs] vs show ?case by simp
qed

end

text \<open>The fields of the wire format satisfy the contract.\<close>

lemma read_le_write: "8 * k = LENGTH('a) \<Longrightarrow> read_le k (le_bytes k v @ r) = Some (v :: 'a::len word, r)"
  by (simp add: read_le_def has_remaining_def le_word_le_bytes)

lemma read_le_exact:
  assumes "8 * k = LENGTH('a)" and "read_le k b = Some (v :: 'a::len word, r)"
  shows "b = le_bytes k v @ r"
proof -
  from assms(2) have k: "k \<le> length b" and v: "v = le_word (take k b)" and r: "r = drop k b"
    by (auto simp: read_le_def has_remaining_def split: if_splits)
  from le_bytes_le_word[of "take k b", where 'a = 'a] k assms(1) have "le_bytes k v = take k b"
    by (simp add: v)
  then show ?thesis by (simp add: r)
qed

interpretation u8: exact_codec write_u8 read_u8 "\<lambda>_. True"
proof
  show "read_u8 (write_u8 v @ r) = Some (v, r)" for v r
    by (simp add: write_u8_def read_u8_def has_remaining_def)
  show "read_u8 b = Some (v, r) \<Longrightarrow> True \<and> b = write_u8 v @ r" for b v r
    by (cases b) (auto simp: write_u8_def read_u8_def has_remaining_def split: if_splits)
qed

interpretation u16: exact_codec write_u16 read_u16 "\<lambda>_. True"
  by unfold_locales (auto simp: write_u16_def read_u16_def read_le_write dest: read_le_exact[rotated])

interpretation u32: exact_codec write_u32 read_u32 "\<lambda>_. True"
  by unfold_locales (auto simp: write_u32_def read_u32_def read_le_write dest: read_le_exact[rotated])

interpretation u64: exact_codec write_u64 read_u64 "\<lambda>_. True"
  by unfold_locales (auto simp: write_u64_def read_u64_def read_le_write dest: read_le_exact[rotated])

definition fits_u16 :: "string \<Rightarrow> bool" where "fits_u16 s \<longleftrightarrow> length s < 2 ^ 16"
definition fits_u32 :: "string \<Rightarrow> bool" where "fits_u32 s \<longleftrightarrow> length s < 2 ^ 32"

lemma unat_of_nat_fits:
  "n < 2 ^ LENGTH('a) \<Longrightarrow> unat (of_nat n :: 'a::len word) = n"
  by (simp add: unat_of_nat)

interpretation str16: exact_codec write_string_u16 read_string_u16 fits_u16
proof
  show "read_string_u16 (write_string_u16 s @ r) = Some (s, r)" if "fits_u16 s" for s r
    using that by (simp add: fits_u16_def read_string_u16_def write_string_u16_def Let_def
        u16.dec_enc has_remaining_def unat_of_nat)
next
  fix b s r assume "read_string_u16 b = Some (s, r)"
  then obtain len r1 where l: "read_u16 b = Some (len, r1)" and le: "unat len \<le> length r1"
    and s: "s = string_of_bytes (take (unat len) r1)" and r: "r = drop (unat len) r1"
    by (auto simp: read_string_u16_def has_remaining_def bind_eq_Some_conv split: if_splits)
  from le s have len: "length s = unat len" by simp
  moreover have "unat len < 2 ^ 16" using unat_bound[of len] by simp
  ultimately show "fits_u16 s \<and> b = write_string_u16 s @ r"
    using u16.enc_dec[OF l] by (simp add: fits_u16_def write_string_u16_def Let_def s r)
qed

interpretation str32: exact_codec write_string_u32 read_string_u32 fits_u32
proof
  show "read_string_u32 (write_string_u32 s @ r) = Some (s, r)" if "fits_u32 s" for s r
    using that by (simp add: fits_u32_def read_string_u32_def write_string_u32_def Let_def
        u32.dec_enc has_remaining_def unat_of_nat)
next
  fix b s r assume "read_string_u32 b = Some (s, r)"
  then obtain len r1 where l: "read_u32 b = Some (len, r1)" and le: "unat len \<le> length r1"
    and s: "s = string_of_bytes (take (unat len) r1)" and r: "r = drop (unat len) r1"
    by (auto simp: read_string_u32_def has_remaining_def bind_eq_Some_conv split: if_splits)
  from le s have len: "length s = unat len" by simp
  moreover have "unat len < 2 ^ 32" using unat_bound[of len] by simp
  ultimately show "fits_u32 s \<and> b = write_string_u32 s @ r"
    using u32.enc_dec[OF l] by (simp add: fits_u32_def write_string_u32_def Let_def s r)
qed

lemmas [simp, wire_rt] = u8.dec_enc[OF TrueI] u16.dec_enc[OF TrueI] u32.dec_enc[OF TrueI]
  u64.dec_enc[OF TrueI] str16.dec_enc str32.dec_enc

lemma write_inj [simp]:
  "write_u8 a = write_u8 a' \<longleftrightarrow> a = a'" "write_u16 b = write_u16 b' \<longleftrightarrow> b = b'"
  "write_u32 c = write_u32 c' \<longleftrightarrow> c = c'" "write_u64 d = write_u64 d' \<longleftrightarrow> d = d'"
  using u8.enc_inj u16.enc_inj u32.enc_inj u64.enc_inj by blast+

text \<open>A field at the very end of the buffer.\<close>

lemmas [simp, wire_rt] =
  u8.dec_enc[OF TrueI, of _ "[]", unfolded append_Nil2]
  u16.dec_enc[OF TrueI, of _ "[]", unfolded append_Nil2]
  u32.dec_enc[OF TrueI, of _ "[]", unfolded append_Nil2]
  u64.dec_enc[OF TrueI, of _ "[]", unfolded append_Nil2]
  str16.dec_enc[of _ "[]", unfolded append_Nil2] str32.dec_enc[of _ "[]", unfolded append_Nil2]

lemma length_write [simp, wire_len]:
  "length (write_u8 a) = 1" "length (write_u16 b) = 2" "length (write_u32 c) = 4"
  "length (write_u64 d) = 8"
  by (simp_all add: write_u8_def write_u16_def write_u32_def write_u64_def)

lemma length_write_string [wire_len]:
  "fits_u16 s \<Longrightarrow> length (write_string_u16 s) = 2 + length s"
  "fits_u32 t \<Longrightarrow> length (write_string_u32 t) = 4 + length t"
  by (simp_all add: fits_u16_def fits_u32_def write_string_u16_def write_string_u32_def
      Let_def unat_of_nat)

lemma write_nonempty [simp]:
  "write_u8 a \<noteq> []" "write_u16 b \<noteq> []" "write_u32 c \<noteq> []" "write_u64 d \<noteq> []"
  using length_write by (metis list.size(3) zero_neq_numeral zero_neq_one)+

end
