(* ===== verification/Control_Datagram.thy ===== *)
theory Control_Datagram
  imports Wire
begin

unbundle bit_operations_syntax

text \<open>
  The 80-byte UDP control datagram of \<open>LiNeP/src/v0_2/control_plane.cpp\<close>: its CRC-32, its
  encoder and its fail-closed decoder. The encoder writes consecutive little-endian fields,
  the decoder reads each field at its offset after the size and checksum checks.
\<close>

section \<open>CRC-32\<close>

definition crc_bit :: "u32 \<Rightarrow> u32" where
  "crc_bit crc = drop_bit 1 crc XOR (0xEDB88320 AND (0 - (crc AND 1)))"

definition crc_byte :: "u32 \<Rightarrow> u8 \<Rightarrow> u32" where
  "crc_byte crc b = (crc_bit ^^ 8) (crc XOR ucast b)"

definition calc_crc32 :: "bytes \<Rightarrow> u32" where
  "calc_crc32 data = NOT (foldl crc_byte 0xFFFFFFFF data)"

lemma xor_right_cancel: "(a :: 'a::len word) XOR c = b XOR c \<Longrightarrow> a = b"
  by (metis bit.xor_self xor.assoc xor.right_neutral)

lemma crc_bit_alt: "crc_bit x = drop_bit 1 x XOR (if bit x 0 then 0xEDB88320 else 0)"
proof -
  have "x AND 1 = (if bit x 0 then 1 else 0)"
    by (simp add: and_one_eq odd_iff_mod_2_eq_one bit_0)
  then show ?thesis by (simp add: crc_bit_def)
qed

lemma crc_bit_top: "bit (crc_bit x) 31 \<longleftrightarrow> bit x 0"
  by (simp add: crc_bit_alt bit_xor_iff bit_drop_bit_eq not_bit_length[where 'a = 32, simplified])

lemma crc_bit_inj: "crc_bit x = crc_bit y \<Longrightarrow> x = y"
proof -
  assume eq: "crc_bit x = crc_bit y"
  then have b0: "bit x 0 \<longleftrightarrow> bit y 0" using crc_bit_top by metis
  with eq have d: "drop_bit 1 x = drop_bit 1 y"
    by (auto simp: crc_bit_alt split: if_splits dest: xor_right_cancel)
  show "x = y"
  proof (rule bit_word_eqI)
    fix n
    show "bit x n \<longleftrightarrow> bit y n"
    proof (cases n)
      case 0
      with b0 show ?thesis by simp
    next
      case (Suc m)
      with d have "bit (drop_bit 1 x) m \<longleftrightarrow> bit (drop_bit 1 y) m" by simp
      with Suc show ?thesis by (simp add: bit_drop_bit_eq)
    qed
  qed
qed

lemma crc_bit_pow_inj: "(crc_bit ^^ n) x = (crc_bit ^^ n) y \<Longrightarrow> x = y"
  by (induction n) (auto dest: crc_bit_inj)

lemma crc_byte_inj_state: "crc_byte s b = crc_byte t b \<Longrightarrow> s = t"
  unfolding crc_byte_def by (drule crc_bit_pow_inj) (rule xor_right_cancel)

lemma crc_byte_inj_byte:
  assumes "crc_byte s b = crc_byte s c" shows "b = c"
proof -
  from assms have "s XOR ucast b = s XOR ucast c"
    unfolding crc_byte_def by (rule crc_bit_pow_inj)
  then have "(ucast b :: u32) XOR s = ucast c XOR s" by (simp add: xor.commute)
  then have "(ucast b :: u32) = ucast c" by (rule xor_right_cancel)
  then have "(ucast (ucast b :: u32) :: u8) = ucast (ucast c :: u32)" by simp
  then show ?thesis by (simp add: ucast_up_ucast_id is_up)
qed

lemma crc_fold_inj_state: "foldl crc_byte s bs = foldl crc_byte t bs \<Longrightarrow> s = t"
  by (induction bs arbitrary: s t) (auto dest: crc_byte_inj_state)

text \<open>Changing one byte always changes the checksum.\<close>

lemma crc_detects_byte:
  assumes "i < length bs" and "v \<noteq> bs ! i"
  shows "calc_crc32 (bs[i := v]) \<noteq> calc_crc32 bs"
proof
  assume eq: "calc_crc32 (bs[i := v]) = calc_crc32 bs"
  let ?s = "foldl crc_byte 0xFFFFFFFF (take i bs)"
  have "foldl crc_byte 0xFFFFFFFF (bs[i := v]) = foldl crc_byte 0xFFFFFFFF bs"
  proof -
    from eq have "NOT (NOT (foldl crc_byte 0xFFFFFFFF (bs[i := v])))
        = NOT (NOT (foldl crc_byte 0xFFFFFFFF bs))"
      by (simp only: calc_crc32_def)
    then show ?thesis by (simp only: bit.double_compl)
  qed
  moreover have "foldl crc_byte 0xFFFFFFFF (bs[i := v])
      = foldl crc_byte (crc_byte ?s v) (drop (Suc i) bs)"
    using assms(1) by (simp add: upd_conv_take_nth_drop)
  moreover have "foldl crc_byte 0xFFFFFFFF bs
      = foldl crc_byte (crc_byte ?s (bs ! i)) (drop (Suc i) bs)"
    by (subst id_take_nth_drop [OF assms(1)]) simp
  ultimately have "foldl crc_byte (crc_byte ?s v) (drop (Suc i) bs)
      = foldl crc_byte (crc_byte ?s (bs ! i)) (drop (Suc i) bs)" by simp
  then have "crc_byte ?s v = crc_byte ?s (bs ! i)" by (rule crc_fold_inj_state)
  then have "v = bs ! i" by (rule crc_byte_inj_byte)
  with assms(2) show False by simp
qed

section \<open>The datagram\<close>

abbreviation (input) UDP_MAGIC :: u32 where "UDP_MAGIC \<equiv> 0x504E4C55"
abbreviation (input) UDP_DATAGRAM_SIZE :: nat where "UDP_DATAGRAM_SIZE \<equiv> 80"

type_synonym control_message_type = u8
abbreviation (input) cm_unknown :: control_message_type where "cm_unknown \<equiv> 0"
abbreviation (input) cm_node_hello :: control_message_type where "cm_node_hello \<equiv> 1"
abbreviation (input) cm_heartbeat :: control_message_type where "cm_heartbeat \<equiv> 2"
abbreviation (input) cm_status :: control_message_type where "cm_status \<equiv> 3"
abbreviation (input) cm_invite :: control_message_type where "cm_invite \<equiv> 4"
abbreviation (input) cm_lease_ack :: control_message_type where "cm_lease_ack \<equiv> 5"
abbreviation (input) cm_ping :: control_message_type where "cm_ping \<equiv> 6"
abbreviation (input) cm_pong :: control_message_type where "cm_pong \<equiv> 7"

type_synonym node_availability = u8
abbreviation (input) av_unknown :: node_availability where "av_unknown \<equiv> 0"
abbreviation (input) av_unavailable :: node_availability where "av_unavailable \<equiv> 1"
abbreviation (input) av_available :: node_availability where "av_available \<equiv> 2"
abbreviation (input) av_degraded :: node_availability where "av_degraded \<equiv> 3"

type_synonym node_health = u8
abbreviation (input) nh_unknown :: node_health where "nh_unknown \<equiv> 0"
abbreviation (input) nh_healthy :: node_health where "nh_healthy \<equiv> 1"
abbreviation (input) nh_degraded :: node_health where "nh_degraded \<equiv> 2"
abbreviation (input) nh_unhealthy :: node_health where "nh_unhealthy \<equiv> 3"

record udp_control_datagram =
  dg_magic :: u32
  dg_version_major :: u8
  dg_version_minor :: u8
  dg_message_type :: u8
  dg_flags :: u8
  dg_node_id :: u64
  dg_runtime_id :: u64
  dg_endpoint_id :: u32
  dg_control_seq :: u64
  dg_control_epoch :: u64
  dg_availability :: u8
  dg_health :: u8
  dg_load_pct :: u8
  dg_reserved :: u8
  dg_queue_depth :: u32
  dg_capability_revision :: u32
  dg_capability_digest :: u64
  dg_tcp_port :: u16
  dg_reserved2 :: u16
  dg_lease_token :: u64
  dg_crc32 :: u32

definition empty_datagram :: udp_control_datagram where
  "empty_datagram = \<lparr>dg_magic = UDP_MAGIC, dg_version_major = 0, dg_version_minor = 2,
     dg_message_type = 0, dg_flags = 0, dg_node_id = 0, dg_runtime_id = 0, dg_endpoint_id = 0,
     dg_control_seq = 0, dg_control_epoch = 0, dg_availability = 0, dg_health = 0,
     dg_load_pct = 0, dg_reserved = 0, dg_queue_depth = 0, dg_capability_revision = 0,
     dg_capability_digest = 0, dg_tcp_port = 0, dg_reserved2 = 0, dg_lease_token = 0,
     dg_crc32 = 0\<rparr>"

definition is_trunk_ready :: "udp_control_datagram \<Rightarrow> bool" where
  "is_trunk_ready d \<longleftrightarrow> dg_flags d AND 0x01 \<noteq> 0"

definition set_trunk_ready :: "bool \<Rightarrow> udp_control_datagram \<Rightarrow> udp_control_datagram" where
  "set_trunk_ready ready d =
     (if ready then d\<lparr>dg_flags := dg_flags d OR 0x01\<rparr>
      else d\<lparr>dg_flags := dg_flags d AND NOT 0x01\<rparr>)"

text \<open>The first 76 bytes, over which the checksum is taken, then the checksum.\<close>

definition datagram_body :: "udp_control_datagram \<Rightarrow> bytes" where
  "datagram_body d =
     write_u32 (dg_magic d) @ write_u8 (dg_version_major d) @ write_u8 (dg_version_minor d)
     @ write_u8 (dg_message_type d) @ write_u8 (dg_flags d)
     @ write_u64 (dg_node_id d) @ write_u64 (dg_runtime_id d) @ write_u32 (dg_endpoint_id d)
     @ write_u64 (dg_control_seq d) @ write_u64 (dg_control_epoch d)
     @ write_u8 (dg_availability d) @ write_u8 (dg_health d) @ write_u8 (dg_load_pct d)
     @ write_u8 (dg_reserved d) @ write_u32 (dg_queue_depth d)
     @ write_u32 (dg_capability_revision d) @ write_u64 (dg_capability_digest d)
     @ write_u16 (dg_tcp_port d) @ write_u16 (dg_reserved2 d) @ write_u64 (dg_lease_token d)"

definition encode_control_datagram :: "udp_control_datagram \<Rightarrow> bytes" where
  "encode_control_datagram d =
     (let p = datagram_body d; crc = calc_crc32 p in p @ write_u32 crc)"

definition u8_at :: "bytes \<Rightarrow> nat \<Rightarrow> u8" where "u8_at data i = data ! i"
definition u16_at :: "bytes \<Rightarrow> nat \<Rightarrow> u16" where "u16_at data i = le_word (take 2 (drop i data))"
definition u32_at :: "bytes \<Rightarrow> nat \<Rightarrow> u32" where "u32_at data i = le_word (take 4 (drop i data))"
definition u64_at :: "bytes \<Rightarrow> nat \<Rightarrow> u64" where "u64_at data i = le_word (take 8 (drop i data))"

definition datagram_fields :: "bytes \<Rightarrow> udp_control_datagram" where
  "datagram_fields data = \<lparr>dg_magic = u32_at data 0, dg_version_major = u8_at data 4,
     dg_version_minor = u8_at data 5, dg_message_type = u8_at data 6, dg_flags = u8_at data 7,
     dg_node_id = u64_at data 8, dg_runtime_id = u64_at data 16, dg_endpoint_id = u32_at data 24,
     dg_control_seq = u64_at data 28, dg_control_epoch = u64_at data 36,
     dg_availability = u8_at data 44, dg_health = u8_at data 45, dg_load_pct = u8_at data 46,
     dg_reserved = u8_at data 47, dg_queue_depth = u32_at data 48,
     dg_capability_revision = u32_at data 52, dg_capability_digest = u64_at data 56,
     dg_tcp_port = u16_at data 64, dg_reserved2 = u16_at data 66, dg_lease_token = u64_at data 68,
     dg_crc32 = u32_at data 76\<rparr>"

definition datagram_acceptable :: "udp_control_datagram \<Rightarrow> bool" where
  "datagram_acceptable d \<longleftrightarrow>
     dg_magic d = UDP_MAGIC \<and> dg_version_major d = 0 \<and> dg_version_minor d = 2 \<and>
     cm_node_hello \<le> dg_message_type d \<and> dg_message_type d \<le> cm_pong \<and>
     dg_flags d AND NOT 0x01 = 0 \<and>
     dg_availability d \<le> av_degraded \<and> dg_health d \<le> nh_unhealthy \<and> dg_load_pct d \<le> 100 \<and>
     dg_reserved d = 0 \<and> dg_reserved2 d = 0"

definition decode_control_datagram :: "bytes \<Rightarrow> udp_control_datagram option" where
  "decode_control_datagram data =
     (if length data \<noteq> UDP_DATAGRAM_SIZE then None
      else if u32_at data 76 \<noteq> calc_crc32 (take 76 data) then None
      else let d = datagram_fields data in if datagram_acceptable d then Some d else None)"

section \<open>Field access in a concatenation\<close>

lemma at_here [simp]:
  "u8_at (write_u8 a @ r) 0 = a" "u16_at (write_u16 b @ r) 0 = b"
  "u32_at (write_u32 c @ r) 0 = c" "u64_at (write_u64 d @ r) 0 = d"
  "u32_at (write_u32 c) 0 = c"
  by (simp_all add: u8_at_def u16_at_def u32_at_def u64_at_def write_u8_def write_u16_def
      write_u32_def write_u64_def le_word_le_bytes)

lemma at_skip:
  "length p \<le> i \<Longrightarrow> u8_at (p @ r) i = u8_at r (i - length p)"
  "length p \<le> i \<Longrightarrow> u16_at (p @ r) i = u16_at r (i - length p)"
  "length p \<le> i \<Longrightarrow> u32_at (p @ r) i = u32_at r (i - length p)"
  "length p \<le> i \<Longrightarrow> u64_at (p @ r) i = u64_at r (i - length p)"
  by (simp_all add: u8_at_def u16_at_def u32_at_def u64_at_def nth_append)

lemma length_datagram_body [simp, wire_len]: "length (datagram_body d) = 76"
  by (simp add: datagram_body_def)

lemma length_encode_control_datagram [simp, wire_len]:
  "length (encode_control_datagram d) = UDP_DATAGRAM_SIZE"
  by (simp add: encode_control_datagram_def Let_def)

lemma datagram_fields_encode:
  "datagram_fields (encode_control_datagram d) = d\<lparr>dg_crc32 := calc_crc32 (datagram_body d)\<rparr>"
  by (simp add: datagram_fields_def encode_control_datagram_def datagram_body_def Let_def at_skip)

text \<open>Conversely, 80 bytes are the concatenation of the fields read from them.\<close>

lemma split_field:
  assumes "length b = k + m"
  obtains p q where "b = p @ q" "length p = k" "length q = m"
  using assms by (metis append_take_drop_id length_append length_drop length_take
      add_diff_cancel_left' min.absorb2 le_add1)

lemma take_split: "take (i + j) b = take i b @ take j (drop i b)"
  by (simp add: take_add)

lemma write_at:
  "i < length b \<Longrightarrow> write_u8 (u8_at b i) = take 1 (drop i b)"
  "i + 2 \<le> length b \<Longrightarrow> write_u16 (u16_at b i) = take 2 (drop i b)"
  "i + 4 \<le> length b \<Longrightarrow> write_u32 (u32_at b i) = take 4 (drop i b)"
  "i + 8 \<le> length b \<Longrightarrow> write_u64 (u64_at b i) = take 8 (drop i b)"
proof -
  show "i < length b \<Longrightarrow> write_u8 (u8_at b i) = take 1 (drop i b)"
    by (simp add: write_u8_def u8_at_def take_Suc_conv_app_nth)
  show "i + 2 \<le> length b \<Longrightarrow> write_u16 (u16_at b i) = take 2 (drop i b)"
    using le_bytes_le_word[of "take 2 (drop i b)", where 'a = 16]
    by (simp add: write_u16_def u16_at_def)
  show "i + 4 \<le> length b \<Longrightarrow> write_u32 (u32_at b i) = take 4 (drop i b)"
    using le_bytes_le_word[of "take 4 (drop i b)", where 'a = 32]
    by (simp add: write_u32_def u32_at_def)
  show "i + 8 \<le> length b \<Longrightarrow> write_u64 (u64_at b i) = take 8 (drop i b)"
    using le_bytes_le_word[of "take 8 (drop i b)", where 'a = 64]
    by (simp add: write_u64_def u64_at_def)
qed

lemma body_of_fields:
  assumes "length b = 80"
  shows "datagram_body (datagram_fields b) = take 76 b"
proof -
  have t: "take i b @ take j (drop i b) @ r = take (i + j) b @ r" for i j r
    by (simp add: take_add)
  have "datagram_body (datagram_fields b) = take 0 b @ datagram_body (datagram_fields b)" by simp
  also have "\<dots> = take 76 b"
    using assms by (simp add: datagram_body_def datagram_fields_def write_at t del: append_assoc take_0
        add: append_assoc)
      (simp add: take_add [symmetric])
  finally show ?thesis .
qed

lemma encode_of_fields:
  assumes "length b = 80" and "u32_at b 76 = calc_crc32 (take 76 b)"
  shows "encode_control_datagram (datagram_fields b) = b"
proof -
  have "write_u32 (u32_at b 76) = drop 76 b"
    using assms(1) by (simp add: write_at)
  then show ?thesis
    by (simp add: encode_control_datagram_def Let_def body_of_fields [OF assms(1)]
        assms(2) [symmetric])
qed

section \<open>Properties of the datagram codec\<close>

lemma decode_encode_datagram:
  assumes "datagram_acceptable d" and "dg_crc32 d = calc_crc32 (datagram_body d)"
  shows "decode_control_datagram (encode_control_datagram d) = Some d"
proof -
  have "datagram_fields (encode_control_datagram d) = d"
    using assms by (simp add: datagram_fields_encode)
  moreover have "u32_at (encode_control_datagram d) 76 = calc_crc32 (take 76 (encode_control_datagram d))"
    by (simp add: encode_control_datagram_def Let_def at_skip)
  ultimately show ?thesis using assms(1) by (simp add: decode_control_datagram_def encode_control_datagram_def Let_def)
qed

text \<open>
  C35: decoding is exact. A byte string decodes to a datagram exactly when it is the encoding
  of that datagram, the datagram carries its own checksum, and every field is within the
  bounds the decoder enforces: no other byte string is accepted, none of these is refused.
\<close>

theorem control_datagram_codec_exact:
  "decode_control_datagram b = Some d \<longleftrightarrow>
     datagram_acceptable d \<and> dg_crc32 d = calc_crc32 (datagram_body d) \<and>
     b = encode_control_datagram d"
proof
  assume dec: "decode_control_datagram b = Some d"
  then have l: "length b = 80" and c: "u32_at b 76 = calc_crc32 (take 76 b)"
    and d: "d = datagram_fields b" and a: "datagram_acceptable d"
    by (auto simp: decode_control_datagram_def Let_def split: if_splits)
  have "dg_crc32 d = calc_crc32 (datagram_body d)"
    using body_of_fields [OF l] c by (simp add: d, simp add: datagram_fields_def)
  with a encode_of_fields [OF l c] d
  show "datagram_acceptable d \<and> dg_crc32 d = calc_crc32 (datagram_body d) \<and>
      b = encode_control_datagram d" by simp
next
  assume "datagram_acceptable d \<and> dg_crc32 d = calc_crc32 (datagram_body d) \<and>
      b = encode_control_datagram d"
  then show "decode_control_datagram b = Some d" by (simp add: decode_encode_datagram)
qed

text \<open>
  A datagram damaged in one byte, wherever that byte is and whatever it becomes, is
  refused: the checksum detects the change.
\<close>

theorem corrupted_byte_refused:
  assumes "decode_control_datagram b = Some d" and "i < length b" and "v \<noteq> b ! i"
  shows "decode_control_datagram (b[i := v]) = None"
proof -
  from assms(1) have l: "length b = 80" and c: "u32_at b 76 = calc_crc32 (take 76 b)"
    by (auto simp: decode_control_datagram_def Let_def split: if_splits)
  have "u32_at (b[i := v]) 76 \<noteq> calc_crc32 (take 76 (b[i := v]))"
  proof (cases "i < 76")
    case True
    then have "u32_at (b[i := v]) 76 = u32_at b 76" by (simp add: u32_at_def drop_update_cancel)
    moreover have "calc_crc32 ((take 76 b)[i := v]) \<noteq> calc_crc32 (take 76 b)"
      using crc_detects_byte [of i "take 76 b" v] True l assms(3) by simp
    ultimately show ?thesis using c by (simp add: take_update_swap)
  next
    case False
    then have "take 76 (b[i := v]) = take 76 b" by simp
    moreover have "u32_at (b[i := v]) 76 \<noteq> u32_at b 76"
    proof
      assume "u32_at (b[i := v]) 76 = u32_at b 76"
      then have "take 4 (drop 76 (b[i := v])) = take 4 (drop 76 b)"
        using write_at(3) [of 76 b] write_at(3) [of 76 "b[i := v]"] l by simp
      then have "drop 76 (b[i := v]) ! (i - 76) = drop 76 b ! (i - 76)" using l by simp
      with False assms(2,3) l show False by simp
    qed
    ultimately show ?thesis using c by simp
  qed
  then show ?thesis by (simp add: decode_control_datagram_def)
qed

end
