(* ===== verification/Runtime_Types.thy ===== *)
theory Runtime_Types
  imports Prelude
begin

text \<open>
  \<open>LiNeP/include/linep/v0_2/runtime_types.hpp\<close> and \<open>lifecycle.hpp\<close>: stream and endpoint
  identities, runtime errors, and the lifecycle state machine of one execution attempt.

  The C++ \<open>enum class : uint8_t\<close> types that travel on the wire are filled by
  \<open>static_cast\<close> from an unchecked byte, so they can hold any value; they are modelled as
  \<open>u8\<close> with the enumerators as abbreviations. Enumerations the code only ever assigns
  its own enumerators to are datatypes.
\<close>

section \<open>Wire enumerations\<close>

type_synonym runtime_profile = u8
abbreviation (input) rp_unspecified :: runtime_profile where "rp_unspecified \<equiv> 0"
abbreviation (input) rp_generate :: runtime_profile where "rp_generate \<equiv> 1"
abbreviation (input) rp_chat :: runtime_profile where "rp_chat \<equiv> 2"
abbreviation (input) rp_embed :: runtime_profile where "rp_embed \<equiv> 3"
abbreviation (input) rp_vision :: runtime_profile where "rp_vision \<equiv> 4"
abbreviation (input) rp_decision :: runtime_profile where "rp_decision \<equiv> 5"

type_synonym terminal_outcome = u8
abbreviation (input) to_unknown :: terminal_outcome where "to_unknown \<equiv> 0"
abbreviation (input) to_completed :: terminal_outcome where "to_completed \<equiv> 1"
abbreviation (input) to_cancelled :: terminal_outcome where "to_cancelled \<equiv> 2"
abbreviation (input) to_failed :: terminal_outcome where "to_failed \<equiv> 3"

type_synonym error_category = u8
abbreviation (input) ec_none :: error_category where "ec_none \<equiv> 0"
abbreviation (input) ec_transient :: error_category where "ec_transient \<equiv> 1"
abbreviation (input) ec_bad_request :: error_category where "ec_bad_request \<equiv> 2"
abbreviation (input) ec_unauthorized :: error_category where "ec_unauthorized \<equiv> 3"
abbreviation (input) ec_resource_exhausted :: error_category where "ec_resource_exhausted \<equiv> 4"
abbreviation (input) ec_model_error :: error_category where "ec_model_error \<equiv> 5"
abbreviation (input) ec_unsupported :: error_category where "ec_unsupported \<equiv> 6"
abbreviation (input) ec_internal :: error_category where "ec_internal \<equiv> 7"

record runtime_error =
  err_category :: error_category
  err_code :: u32
  err_message :: string
  err_backend_diagnostic :: string

definition no_error :: runtime_error where
  "no_error = \<lparr>err_category = ec_none, err_code = 0, err_message = [], err_backend_diagnostic = []\<rparr>"

text \<open>
  The code fills \<open>category\<close>, \<open>code\<close> and \<open>message\<close> of an out-parameter that its callers
  start from the default value.
\<close>

definition mk_error :: "error_category \<Rightarrow> u32 \<Rightarrow> string \<Rightarrow> runtime_error" where
  "mk_error cat code msg =
     no_error\<lparr>err_category := cat, err_code := code, err_message := msg\<rparr>"

lemma mk_error_sel [simp]:
  "err_category (mk_error c n m) = c" "err_code (mk_error c n m) = n"
  "err_message (mk_error c n m) = m" "err_backend_diagnostic (mk_error c n m) = []"
  by (simp_all add: mk_error_def no_error_def)

lemma runtime_error_eta [simp]:
  "\<lparr>err_category = err_category e, err_code = err_code e, err_message = err_message e,
     err_backend_diagnostic = err_backend_diagnostic e\<rparr> = e"
  by (cases e) simp

section \<open>Identities\<close>

record stream_identity =
  request_id :: u64
  execution_id :: u64
  output_id :: u32

definition stream_is_valid :: "stream_identity \<Rightarrow> bool" where
  [guard_defs]: "stream_is_valid s \<longleftrightarrow> request_id s \<noteq> 0 \<and> execution_id s \<noteq> 0"

definition stream_is_connection_level :: "stream_identity \<Rightarrow> bool" where
  [guard_defs]: "stream_is_connection_level s \<longleftrightarrow>
     request_id s = 0 \<and> execution_id s = 0 \<and> output_id s = 0"

record node_endpoint_identity =
  node_id :: u64
  runtime_id :: u64
  endpoint_id :: u32

definition no_endpoint :: node_endpoint_identity where
  "no_endpoint = \<lparr>node_id = 0, runtime_id = 0, endpoint_id = 0\<rparr>"

definition endpoint_is_valid :: "node_endpoint_identity \<Rightarrow> bool" where
  [guard_defs]: "endpoint_is_valid i \<longleftrightarrow> node_id i \<noteq> 0 \<and> runtime_id i \<noteq> 0"

section \<open>Lifecycle of an execution attempt\<close>

datatype lifecycle_state = Received | Accepted | Started | Cancel_Requested | Terminal

text \<open>The numbering of the enumerators orders the states.\<close>

fun lifecycle_code :: "lifecycle_state \<Rightarrow> nat" where
  "lifecycle_code Received = 1"
| "lifecycle_code Accepted = 2"
| "lifecycle_code Started = 3"
| "lifecycle_code Cancel_Requested = 4"
| "lifecycle_code Terminal = 5"

lemma lifecycle_code_inj: "lifecycle_code a = lifecycle_code b \<Longrightarrow> a = b"
  by (cases a; cases b) simp_all

instantiation lifecycle_state :: linorder
begin

definition less_eq_lifecycle_state :: "lifecycle_state \<Rightarrow> lifecycle_state \<Rightarrow> bool" where
  "a \<le> b \<longleftrightarrow> lifecycle_code a \<le> lifecycle_code b"

definition less_lifecycle_state :: "lifecycle_state \<Rightarrow> lifecycle_state \<Rightarrow> bool" where
  "a < b \<longleftrightarrow> lifecycle_code a < lifecycle_code b"

instance
  by standard (auto simp: less_eq_lifecycle_state_def less_lifecycle_state_def
      dest: lifecycle_code_inj)

end

record lifecycle_status =
  lc_state :: lifecycle_state
  lc_outcome :: terminal_outcome
  lc_has_outcome :: bool

definition new_lifecycle :: lifecycle_status where
  "new_lifecycle = \<lparr>lc_state = Received, lc_outcome = to_unknown, lc_has_outcome = False\<rparr>"

definition can_transition_to :: "lifecycle_status \<Rightarrow> lifecycle_state \<Rightarrow> bool" where
  "can_transition_to s next =
     (if lc_state s = Terminal then False
      else case lc_state s of
        Received \<Rightarrow> next = Accepted \<or> next = Cancel_Requested \<or> next = Terminal
      | Accepted \<Rightarrow> next = Started \<or> next = Cancel_Requested \<or> next = Terminal
      | Started \<Rightarrow> next = Cancel_Requested \<or> next = Terminal
      | Cancel_Requested \<Rightarrow> next = Terminal
      | Terminal \<Rightarrow> False)"

definition transition_to ::
  "lifecycle_status \<Rightarrow> lifecycle_state \<Rightarrow> terminal_outcome \<Rightarrow> lifecycle_status \<times> bool" where
  "transition_to s next out =
     (if \<not> can_transition_to s next then (s, False)
      else if next = Terminal then
        (s\<lparr>lc_state := Terminal, lc_outcome := out, lc_has_outcome := True\<rparr>, True)
      else (s\<lparr>lc_state := next\<rparr>, True))"

lemma can_transition_increases: "can_transition_to s n \<Longrightarrow> lc_state s < n"
  by (auto simp: can_transition_to_def less_lifecycle_state_def split: lifecycle_state.splits if_splits)

lemma transition_fails_iff: "snd (transition_to s n out) \<longleftrightarrow> can_transition_to s n"
  by (simp add: transition_to_def)

lemma transition_state:
  "lc_state (fst (transition_to s n out)) = (if can_transition_to s n then n else lc_state s)"
  by (simp add: transition_to_def)

lemma can_transition_terminal [simp]:
  "can_transition_to s Terminal \<longleftrightarrow> lc_state s \<noteq> Terminal"
  by (cases "lc_state s") (simp_all add: can_transition_to_def)

lemma can_transition_from_terminal [simp]: "lc_state s = Terminal \<Longrightarrow> \<not> can_transition_to s n"
  by (simp add: can_transition_to_def)

definition outcome_inv :: "lifecycle_status \<Rightarrow> bool" where
  "outcome_inv s \<longleftrightarrow> (lc_has_outcome s \<longleftrightarrow> lc_state s = Terminal) \<and>
     (lc_state s \<noteq> Terminal \<longrightarrow> lc_outcome s = to_unknown)"

lemma outcome_inv_new [simp]: "outcome_inv new_lifecycle"
  by (simp add: outcome_inv_def new_lifecycle_def)

lemma outcome_inv_transition [simp]: "outcome_inv s \<Longrightarrow> outcome_inv (fst (transition_to s n out))"
  by (auto simp: outcome_inv_def transition_to_def dest: can_transition_increases)

text \<open>
  A run of attempted transitions: the list of requests a status receives, with the number of
  those that took effect.
\<close>

fun lifecycle_run ::
  "lifecycle_status \<Rightarrow> (lifecycle_state \<times> terminal_outcome) list \<Rightarrow> lifecycle_status \<times> nat" where
  "lifecycle_run s [] = (s, 0)"
| "lifecycle_run s ((n, out) # rs) =
     (let (s', ok) = transition_to s n out; (t, k) = lifecycle_run s' rs
      in (t, (if ok then Suc k else k)))"

lemma lifecycle_run_terminal:
  "lc_state s = Terminal \<Longrightarrow> lifecycle_run s rs = (s, 0)"
  by (induction rs) (auto simp: transition_to_def)

lemma lifecycle_run_count:
  "snd (lifecycle_run s rs) + lifecycle_code (lc_state s)
     \<le> lifecycle_code (lc_state (fst (lifecycle_run s rs)))"
proof (induction s rs rule: lifecycle_run.induct)
  case (1 s)
  then show ?case by simp
next
  case (2 s n out rs)
  let ?s = "fst (transition_to s n out)"
  from 2 have IH: "snd (lifecycle_run ?s rs) + lifecycle_code (lc_state ?s)
      \<le> lifecycle_code (lc_state (fst (lifecycle_run ?s rs)))"
    by (metis prod.collapse)
  have "can_transition_to s n \<Longrightarrow> lifecycle_code (lc_state s) < lifecycle_code n"
    by (drule can_transition_increases) (simp add: less_lifecycle_state_def)
  with IH show ?case
    by (auto simp: Let_def split_def transition_fails_iff transition_state split: if_splits)
qed

lemma lifecycle_code_le: "lifecycle_code a \<le> 5"
  by (cases a) simp_all

lemma lifecycle_run_inv: "outcome_inv s \<Longrightarrow> outcome_inv (fst (lifecycle_run s rs))"
  by (induction s rs rule: lifecycle_run.induct)
    (auto simp: Let_def split_def, metis fst_conv outcome_inv_transition prod.collapse)

text \<open>
  An execution attempt ends at most once. Whatever transitions are attempted on a fresh
  lifecycle, at most four take effect, it carries an outcome exactly when it is terminal, and
  once terminal no further attempt changes it.
\<close>

theorem lifecycle_ends_once:
  assumes "lifecycle_run new_lifecycle rs = (s, k)"
  shows "k \<le> 4 \<and> (lc_has_outcome s \<longleftrightarrow> lc_state s = Terminal) \<and>
    (lc_state s = Terminal \<longrightarrow> lifecycle_run s rs' = (s, 0))"
proof -
  have "k + 1 \<le> lifecycle_code (lc_state s)"
    using lifecycle_run_count [of new_lifecycle rs] assms by (simp add: new_lifecycle_def)
  moreover have "outcome_inv s"
    using lifecycle_run_inv [of new_lifecycle rs] assms by simp
  ultimately show ?thesis
    using lifecycle_code_le [of "lc_state s"] lifecycle_run_terminal by (auto simp: outcome_inv_def)
qed

lemma lifecycle_ends_once_witness:
  "lifecycle_run new_lifecycle [(Accepted, to_unknown), (Received, to_unknown), (Started, to_unknown),
       (Terminal, to_completed), (Terminal, to_failed)]
     = (\<lparr>lc_state = Terminal, lc_outcome = to_completed, lc_has_outcome = True\<rparr>, 3) \<and>
   lifecycle_run \<lparr>lc_state = Terminal, lc_outcome = to_completed, lc_has_outcome = True\<rparr>
     [(Cancel_Requested, to_unknown)]
     = (\<lparr>lc_state = Terminal, lc_outcome = to_completed, lc_has_outcome = True\<rparr>, 0)"
proof -
  have "lifecycle_run new_lifecycle [(Accepted, to_unknown), (Received, to_unknown), (Started, to_unknown),
       (Terminal, to_completed), (Terminal, to_failed)]
     = (\<lparr>lc_state = Terminal, lc_outcome = to_completed, lc_has_outcome = True\<rparr>, 3)"
    by (simp add: new_lifecycle_def transition_to_def can_transition_to_def)
  from lifecycle_ends_once [OF this, of "[(Cancel_Requested, to_unknown)]"] this show ?thesis by simp
qed

end
