(* ===== verification/Control_Plane.thy ===== *)
theory Control_Plane
  imports Control_Datagram Runtime_Types
begin

unbundle bit_operations_syntax

text \<open>
  \<open>control_plane_router\<close> of \<open>LiNeP/src/v0_2/control_plane.cpp\<close>: the scheduler's view of the
  nodes it hears on UDP. Every public method takes the router's mutex, so each is one atomic
  step. The node table and the capability cache are association lists. The handlers of one
  message type work on one node and say whether they refuse it (\<open>None\<close>), and else the new node
  and whether the node's cached capabilities are dropped.
\<close>

section \<open>State\<close>

datatype control_node_lifecycle = Unknown | Seen | Invited | Active | Degraded | Cooling | Offline

record control_plane_node_state =
  nd_identity :: node_endpoint_identity
  nd_state :: control_node_lifecycle
  nd_last_control_epoch :: u64
  nd_last_inbound_seq :: u64
  nd_last_outbound_seq :: u64
  nd_active_lease_token :: u64
  nd_availability :: node_availability
  nd_health :: node_health
  nd_load_pct :: u8
  nd_queue_depth :: u32
  nd_capability_revision :: u32
  nd_capability_digest :: u64
  nd_tcp_port :: u16
  nd_tcp_trunk_ready :: bool
  nd_last_seen_us :: u64

definition has_active_lease :: "control_plane_node_state \<Rightarrow> bool" where
  [guard_defs]: "has_active_lease n \<longleftrightarrow> nd_active_lease_token n \<noteq> 0"

definition is_routable :: "control_plane_node_state \<Rightarrow> bool" where
  "is_routable n \<longleftrightarrow>
     (nd_state n = Active \<or> nd_state n = Degraded) \<and>
     (nd_availability n = av_available \<or> nd_availability n = av_degraded) \<and>
     (nd_health n = nh_healthy \<or> nd_health n = nh_degraded) \<and>
     nd_tcp_trunk_ready n \<and> nd_tcp_port n > 0 \<and> has_active_lease n"

record control_plane_router =
  nodes :: "(node_endpoint_identity, control_plane_node_state) umap"
  capability_cache :: "(node_endpoint_identity, u32 \<times> u64) umap"

definition new_router :: control_plane_router where
  "new_router = \<lparr>nodes = [], capability_cache = []\<rparr>"

definition set_node ::
  "node_endpoint_identity \<Rightarrow> control_plane_node_state \<Rightarrow> control_plane_router \<Rightarrow> control_plane_router" where
  "set_node i n r = r\<lparr>nodes := AList.update i n (nodes r)\<rparr>"

definition erase_cached :: "node_endpoint_identity \<Rightarrow> control_plane_router \<Rightarrow> control_plane_router" where
  "erase_cached i r = r\<lparr>capability_cache := AList.delete i (capability_cache r)\<rparr>"

lemma set_node_sel [simp]:
  "nodes (set_node i n r) = AList.update i n (nodes r)"
  "capability_cache (set_node i n r) = capability_cache r"
  "nodes (erase_cached i r) = nodes r"
  "capability_cache (erase_cached i r) = AList.delete i (capability_cache r)"
  by (simp_all add: set_node_def erase_cached_def)

section \<open>Invitations\<close>

definition invite_datagram ::
  "node_endpoint_identity \<Rightarrow> control_plane_node_state \<Rightarrow> u64 \<Rightarrow> udp_control_datagram" where
  "invite_datagram i node token = empty_datagram\<lparr>dg_node_id := node_id i, dg_runtime_id := runtime_id i,
     dg_endpoint_id := endpoint_id i, dg_control_epoch := nd_last_control_epoch node,
     dg_control_seq := nd_last_outbound_seq node, dg_message_type := cm_invite,
     dg_lease_token := token\<rparr>"

definition issue_invite ::
  "control_plane_router \<Rightarrow> node_endpoint_identity \<Rightarrow> u64
     \<Rightarrow> control_plane_router \<times> udp_control_datagram option" where
  "issue_invite r i lease_token =
     (if node_id i = 0 \<or> lease_token = 0 then (r, None)
      else case lookup (nodes r) i of
        None \<Rightarrow> (r, None)
      | Some node \<Rightarrow>
          if nd_state node \<noteq> Seen then (r, None)
          else let node' = node\<lparr>nd_state := Invited, nd_active_lease_token := lease_token,
                 nd_last_outbound_seq := nd_last_outbound_seq node + 1\<rparr>
               in (set_node i node' r, Some (invite_datagram i node' lease_token)))"

definition reissue_invite ::
  "control_plane_router \<Rightarrow> node_endpoint_identity \<Rightarrow> u64
     \<Rightarrow> control_plane_router \<times> udp_control_datagram option" where
  "reissue_invite r i control_epoch =
     (case lookup (nodes r) i of
        None \<Rightarrow> (r, None)
      | Some node \<Rightarrow>
          if nd_state node \<noteq> Invited \<or> nd_active_lease_token node = 0 \<or>
             nd_last_control_epoch node \<noteq> control_epoch then (r, None)
          else let node' = node\<lparr>nd_last_outbound_seq := nd_last_outbound_seq node + 1\<rparr>
               in (set_node i node' r,
                   Some (invite_datagram i node' (nd_active_lease_token node))))"

section \<open>Ingestion of node datagrams\<close>

definition datagram_identity :: "udp_control_datagram \<Rightarrow> node_endpoint_identity" where
  "datagram_identity d =
     \<lparr>node_id = dg_node_id d, runtime_id = dg_runtime_id d, endpoint_id = dg_endpoint_id d\<rparr>"

definition node_from_hello ::
  "node_endpoint_identity \<Rightarrow> udp_control_datagram \<Rightarrow> u64 \<Rightarrow> control_plane_node_state" where
  "node_from_hello i d now = \<lparr>nd_identity = i, nd_state = Seen,
     nd_last_control_epoch = dg_control_epoch d, nd_last_inbound_seq = dg_control_seq d,
     nd_last_outbound_seq = 0, nd_active_lease_token = 0,
     nd_availability = dg_availability d, nd_health = dg_health d, nd_load_pct = dg_load_pct d,
     nd_queue_depth = dg_queue_depth d, nd_capability_revision = dg_capability_revision d,
     nd_capability_digest = dg_capability_digest d, nd_tcp_port = dg_tcp_port d,
     nd_tcp_trunk_ready = is_trunk_ready d, nd_last_seen_us = now\<rparr>"

definition commit_seen ::
  "udp_control_datagram \<Rightarrow> u64 \<Rightarrow> control_plane_node_state \<Rightarrow> control_plane_node_state" where
  "commit_seen d now n = n\<lparr>nd_last_inbound_seq := dg_control_seq d, nd_last_seen_us := now\<rparr>"

definition on_node_hello ::
  "control_plane_node_state \<Rightarrow> udp_control_datagram \<Rightarrow> u64 \<Rightarrow> (control_plane_node_state \<times> bool) option" where
  "on_node_hello node d now =
     (let newer = dg_control_epoch d > nd_last_control_epoch node in
      if \<not> newer \<and> (nd_state node = Invited \<or> nd_state node = Active \<or> nd_state node = Degraded)
      then None
      else
        let node = (if newer
              then node\<lparr>nd_last_control_epoch := dg_control_epoch d, nd_state := Seen,
                        nd_active_lease_token := 0\<rparr>
              else node\<lparr>nd_state := Seen\<rparr>);
            node = node\<lparr>nd_tcp_port := dg_tcp_port d, nd_tcp_trunk_ready := is_trunk_ready d,
              nd_capability_revision := dg_capability_revision d,
              nd_capability_digest := dg_capability_digest d,
              nd_availability := dg_availability d, nd_health := dg_health d\<rparr>
        in Some (commit_seen d now node, newer))"

definition on_lease_ack ::
  "control_plane_node_state \<Rightarrow> udp_control_datagram \<Rightarrow> u64 \<Rightarrow> (control_plane_node_state \<times> bool) option" where
  "on_lease_ack node d now =
     (if nd_state node \<noteq> Invited \<or> nd_active_lease_token node = 0 \<or>
         dg_lease_token d \<noteq> nd_active_lease_token node then None
      else if \<not> is_trunk_ready d \<or> dg_tcp_port d = 0 then None
      else
        let node = node\<lparr>nd_tcp_port := dg_tcp_port d, nd_tcp_trunk_ready := True,
              nd_availability := dg_availability d, nd_health := dg_health d\<rparr>;
            node = node\<lparr>nd_state :=
              (if nd_health node = nh_degraded \<or> nd_availability node = av_degraded
               then Degraded else Active)\<rparr>
        in Some (commit_seen d now node, False))"

text \<open>The state a heartbeat or a status report leaves, from the telemetry just stored.\<close>

definition reported_state :: "control_plane_node_state \<Rightarrow> control_node_lifecycle" where
  "reported_state n =
     (if nd_availability n = av_unavailable \<or> nd_health n = nh_unhealthy then Cooling
      else if nd_health n = nh_degraded \<or> nd_availability n = av_degraded then Degraded
      else if has_active_lease n \<and> nd_tcp_trunk_ready n \<and> nd_tcp_port n > 0 then Active
      else nd_state n)"

definition reports_telemetry :: "control_plane_node_state \<Rightarrow> bool" where
  [guard_defs]: "reports_telemetry n \<longleftrightarrow>
     nd_state n = Active \<or> nd_state n = Degraded \<or> nd_state n = Cooling"

definition on_heartbeat ::
  "control_plane_node_state \<Rightarrow> udp_control_datagram \<Rightarrow> u64 \<Rightarrow> (control_plane_node_state \<times> bool) option" where
  "on_heartbeat node d now =
     (if \<not> reports_telemetry node then None
      else
        let node = node\<lparr>nd_load_pct := dg_load_pct d, nd_queue_depth := dg_queue_depth d,
              nd_availability := dg_availability d, nd_health := dg_health d\<rparr>;
            node = node\<lparr>nd_state := reported_state node\<rparr>
        in Some (commit_seen d now node, False))"

definition on_status ::
  "control_plane_node_state \<Rightarrow> udp_control_datagram \<Rightarrow> u64 \<Rightarrow> (control_plane_node_state \<times> bool) option" where
  "on_status node d now =
     (if \<not> reports_telemetry node then None
      else
        let changed = nd_capability_revision node \<noteq> dg_capability_revision d \<or>
              nd_capability_digest node \<noteq> dg_capability_digest d;
            node = node\<lparr>nd_load_pct := dg_load_pct d, nd_queue_depth := dg_queue_depth d,
              nd_availability := dg_availability d, nd_health := dg_health d,
              nd_tcp_port := dg_tcp_port d, nd_tcp_trunk_ready := is_trunk_ready d\<rparr>;
            node = (if changed
              then node\<lparr>nd_capability_revision := dg_capability_revision d,
                        nd_capability_digest := dg_capability_digest d\<rparr>
              else node);
            node = node\<lparr>nd_state := reported_state node\<rparr>
        in Some (commit_seen d now node, changed))"

definition on_pong ::
  "control_plane_node_state \<Rightarrow> udp_control_datagram \<Rightarrow> u64 \<Rightarrow> (control_plane_node_state \<times> bool) option" where
  "on_pong node d now =
     (if nd_state node = Unknown then None else Some (commit_seen d now node, False))"

definition dispatch_message ::
  "control_plane_node_state \<Rightarrow> udp_control_datagram \<Rightarrow> u64 \<Rightarrow> (control_plane_node_state \<times> bool) option" where
  "dispatch_message node d now =
     (let msg_type = dg_message_type d in
      if msg_type = cm_node_hello then on_node_hello node d now
      else if msg_type = cm_lease_ack then on_lease_ack node d now
      else if msg_type = cm_heartbeat then on_heartbeat node d now
      else if msg_type = cm_status then on_status node d now
      else if msg_type = cm_pong then on_pong node d now
      else None)"

definition ingest_datagram ::
  "control_plane_router \<Rightarrow> udp_control_datagram \<Rightarrow> u64 \<Rightarrow> control_plane_router \<times> bool" where
  "ingest_datagram r d now =
     (if dg_node_id d = 0 then (r, False)
      else
        let i = datagram_identity d; msg_type = dg_message_type d in
        if msg_type = cm_invite \<or> msg_type = cm_ping then (r, False)
        else case lookup (nodes r) i of
          None \<Rightarrow>
            if msg_type \<noteq> cm_node_hello then (r, False)
            else (set_node i (node_from_hello i d now) r, True)
        | Some node \<Rightarrow>
            if dg_control_epoch d < nd_last_control_epoch node then (r, False)
            else if dg_control_epoch d > nd_last_control_epoch node \<and> msg_type \<noteq> cm_node_hello
              then (r, False)
            else if \<not> dg_control_epoch d > nd_last_control_epoch node \<and>
                dg_control_seq d \<le> nd_last_inbound_seq node then (r, True)
            else case dispatch_message node d now of
                None \<Rightarrow> (r, False)
              | Some (node', erase) \<Rightarrow>
                  (set_node i node' (if erase then erase_cached i r else r), True))"

section \<open>Queries, sweeping, capability cache\<close>

definition routing_score :: "control_plane_node_state \<Rightarrow> u64" where
  "routing_score n =
     ucast (nd_load_pct n) * 10 + ucast (nd_queue_depth n) * 50
     + (if nd_health n = nh_degraded then 5000 else 0)
     + (if nd_availability n = av_degraded then 5000 else 0)"

fun best_candidate ::
  "(node_endpoint_identity, control_plane_node_state) umap \<Rightarrow> control_plane_node_state option \<Rightarrow> u64
     \<Rightarrow> control_plane_node_state option" where
  "best_candidate [] best lowest = best"
| "best_candidate ((i, n) # m) best lowest =
     (if \<not> is_routable n then best_candidate m best lowest
      else if routing_score n < lowest then best_candidate m (Some n) (routing_score n)
      else best_candidate m best lowest)"

definition select_best_candidate ::
  "control_plane_router \<Rightarrow> (node_endpoint_identity \<times> u16 \<times> u64) option" where
  "select_best_candidate r =
     map_option (\<lambda>n. (nd_identity n, nd_tcp_port n, nd_active_lease_token n))
       (best_candidate (nodes r) None (- 1))"

definition validate_tcp_session_binding ::
  "control_plane_router \<Rightarrow> node_endpoint_identity \<Rightarrow> u64 \<Rightarrow> u64 \<Rightarrow> bool" where
  "validate_tcp_session_binding r i control_epoch lease_token =
     (case lookup (nodes r) i of
        None \<Rightarrow> False
      | Some node \<Rightarrow>
          (nd_state node = Active \<or> nd_state node = Degraded) \<and>
          nd_last_control_epoch node = control_epoch \<and>
          nd_active_lease_token node = lease_token \<and> lease_token \<noteq> 0 \<and>
          nd_tcp_trunk_ready node \<and> nd_tcp_port node > 0)"

definition sweep_node ::
  "u64 \<Rightarrow> u64 \<Rightarrow> u64 \<Rightarrow> control_plane_node_state \<Rightarrow> control_plane_node_state \<times> bool" where
  "sweep_node now stale_timeout offline_timeout node =
     (if now < nd_last_seen_us node then (node, False)
      else let elapsed = now - nd_last_seen_us node in
        if elapsed > offline_timeout then
          (if nd_state node \<noteq> Offline
           then (node\<lparr>nd_state := Offline, nd_active_lease_token := 0\<rparr>, True) else (node, False))
        else if elapsed > stale_timeout then
          (if nd_state node = Active \<or> nd_state node = Degraded
           then (node\<lparr>nd_state := Cooling\<rparr>, True) else (node, False))
        else (node, False))"

definition sweep_stale_nodes ::
  "control_plane_router \<Rightarrow> u64 \<Rightarrow> u64 \<Rightarrow> u64 \<Rightarrow> control_plane_router \<times> nat" where
  "sweep_stale_nodes r now stale_timeout offline_timeout =
     (r\<lparr>nodes := map_vals (\<lambda>_ n. fst (sweep_node now stale_timeout offline_timeout n)) (nodes r)\<rparr>,
      length (filter (\<lambda>(_, n). snd (sweep_node now stale_timeout offline_timeout n)) (nodes r)))"

definition is_capability_cache_valid :: "control_plane_router \<Rightarrow> node_endpoint_identity \<Rightarrow> bool" where
  "is_capability_cache_valid r i =
     (case lookup (nodes r) i of
        None \<Rightarrow> False
      | Some n \<Rightarrow> (case lookup (capability_cache r) i of
          None \<Rightarrow> False
        | Some (crev, dig) \<Rightarrow> crev = nd_capability_revision n \<and> dig = nd_capability_digest n))"

definition set_cached_capability_valid ::
  "control_plane_router \<Rightarrow> node_endpoint_identity \<Rightarrow> u32 \<Rightarrow> u64 \<Rightarrow> control_plane_router" where
  "set_cached_capability_valid r i crev dig =
     r\<lparr>capability_cache := AList.update i (crev, dig) (capability_cache r)\<rparr>"

definition invalidate_capability_cache ::
  "control_plane_router \<Rightarrow> node_endpoint_identity \<Rightarrow> control_plane_router" where
  "invalidate_capability_cache r i = erase_cached i r"

definition get_node_count :: "control_plane_router \<Rightarrow> nat" where
  "get_node_count r = length (nodes r)"

definition get_routable_node_count :: "control_plane_router \<Rightarrow> nat" where
  "get_routable_node_count r = length (filter (\<lambda>(_, n). is_routable n) (nodes r))"

definition get_node_state ::
  "control_plane_router \<Rightarrow> node_endpoint_identity \<Rightarrow> control_plane_node_state option" where
  "get_node_state r i = lookup (nodes r) i"

end
