(* ===== verification/Control_Plane_Props.thy ===== *)
theory Control_Plane_Props
  imports Control_Plane
begin

text \<open>
  What the control-plane router guarantees: refused datagrams change nothing, replays are
  no-ops, leases are granted by acknowledgement only and die with their epoch, and the
  invariant of the reachable states of the router.
\<close>

section \<open>The message handlers\<close>

lemmas handler_defs = on_node_hello_def on_lease_ack_def on_heartbeat_def on_status_def on_pong_def

lemma dispatch_cases [consumes 1, case_names hello lease_ack heartbeat status pong]:
  assumes "dispatch_message n d now = Some x"
  obtains "dg_message_type d = cm_node_hello" "on_node_hello n d now = Some x"
    | "dg_message_type d = cm_lease_ack" "on_lease_ack n d now = Some x"
    | "dg_message_type d = cm_heartbeat" "on_heartbeat n d now = Some x"
    | "dg_message_type d = cm_status" "on_status n d now = Some x"
    | "dg_message_type d = cm_pong" "on_pong n d now = Some x"
  using assms by (auto simp: dispatch_message_def Let_def split: if_splits)

lemma commit_seen_sel [simp]:
  "nd_identity (commit_seen d now n) = nd_identity n"
  "nd_state (commit_seen d now n) = nd_state n"
  "nd_last_control_epoch (commit_seen d now n) = nd_last_control_epoch n"
  "nd_last_inbound_seq (commit_seen d now n) = dg_control_seq d"
  "nd_last_outbound_seq (commit_seen d now n) = nd_last_outbound_seq n"
  "nd_active_lease_token (commit_seen d now n) = nd_active_lease_token n"
  "nd_tcp_port (commit_seen d now n) = nd_tcp_port n"
  "nd_tcp_trunk_ready (commit_seen d now n) = nd_tcp_trunk_ready n"
  "nd_last_seen_us (commit_seen d now n) = now"
  by (simp_all add: commit_seen_def)

lemma dispatch_commits:
  assumes "dispatch_message n d now = Some (n', e)"
  shows "nd_last_inbound_seq n' = dg_control_seq d \<and> nd_last_seen_us n' = now \<and>
    nd_identity n' = nd_identity n"
  using assms by (cases rule: dispatch_cases, auto simp: handler_defs Let_def split: if_splits)

lemma dispatch_epoch:
  assumes "dispatch_message n d now = Some (n', e)"
    and "nd_last_control_epoch n \<le> dg_control_epoch d"
    and "nd_last_control_epoch n < dg_control_epoch d \<longrightarrow> dg_message_type d = cm_node_hello"
  shows "nd_last_control_epoch n' = dg_control_epoch d"
  using assms by (cases rule: dispatch_cases, auto simp: handler_defs Let_def split: if_splits)

lemma dispatch_same_epoch_keeps_lease:
  assumes "dispatch_message n d now = Some (n', e)"
    and "\<not> nd_last_control_epoch n < dg_control_epoch d"
  shows "nd_active_lease_token n' = nd_active_lease_token n"
  using assms by (cases rule: dispatch_cases, auto simp: handler_defs Let_def split: if_splits)

section \<open>Ingestion\<close>

text \<open>What one ingestion does, as four mutually exclusive outcomes.\<close>

lemma ingest_cases:
  obtains (refused) "ingest_datagram r d now = (r, False)"
    | (new_node) "lookup (nodes r) (datagram_identity d) = None"
        "dg_message_type d = cm_node_hello" "dg_node_id d \<noteq> 0"
        "ingest_datagram r d now =
           (set_node (datagram_identity d) (node_from_hello (datagram_identity d) d now) r, True)"
    | (replay) n where "lookup (nodes r) (datagram_identity d) = Some n"
        "dg_control_epoch d = nd_last_control_epoch n" "dg_control_seq d \<le> nd_last_inbound_seq n"
        "ingest_datagram r d now = (r, True)"
    | (processed) n n' e where "lookup (nodes r) (datagram_identity d) = Some n"
        "dispatch_message n d now = Some (n', e)" "dg_node_id d \<noteq> 0"
        "nd_last_control_epoch n \<le> dg_control_epoch d"
        "nd_last_control_epoch n < dg_control_epoch d \<longrightarrow> dg_message_type d = cm_node_hello"
        "dg_control_epoch d = nd_last_control_epoch n \<longrightarrow> nd_last_inbound_seq n < dg_control_seq d"
        "ingest_datagram r d now =
           (set_node (datagram_identity d) n' (if e then erase_cached (datagram_identity d) r else r),
            True)"
proof (cases "snd (ingest_datagram r d now)")
  case False
  then have "ingest_datagram r d now = (r, False)"
    by (auto simp: ingest_datagram_def Let_def split: if_splits option.splits)
  then show thesis by (rule refused)
next
  case True
  show thesis
  proof (cases "lookup (nodes r) (datagram_identity d)")
    case None
    with True show thesis
      by (intro new_node) (auto simp: ingest_datagram_def Let_def split: if_splits)
  next
    case (Some n)
    show thesis
    proof (cases "dg_control_epoch d = nd_last_control_epoch n \<and> dg_control_seq d \<le> nd_last_inbound_seq n")
      case True
      with \<open>snd (ingest_datagram r d now)\<close> Some show thesis
        by (intro replay [of n]) (auto simp: ingest_datagram_def Let_def split: if_splits)
    next
      case fresh: False
      have nz: "dg_node_id d \<noteq> 0"
        by (rule ccontr) (use True in \<open>simp add: ingest_datagram_def\<close>)
      have ib: "dg_message_type d \<noteq> cm_invite" "dg_message_type d \<noteq> cm_ping"
        using True by (simp_all add: ingest_datagram_def Let_def split: if_splits)
      have ge: "\<not> dg_control_epoch d < nd_last_control_epoch n"
        by (rule ccontr) (use True Some nz ib in \<open>simp add: ingest_datagram_def Let_def\<close>)
      have hello: "nd_last_control_epoch n < dg_control_epoch d \<longrightarrow> dg_message_type d = cm_node_hello"
        by (rule ccontr) (use True Some nz ib ge in \<open>simp add: ingest_datagram_def Let_def\<close>)
      have seq: "dg_control_epoch d = nd_last_control_epoch n \<longrightarrow> nd_last_inbound_seq n < dg_control_seq d"
        using fresh by auto
      have eq: "ingest_datagram r d now = (case dispatch_message n d now of None \<Rightarrow> (r, False)
          | Some (n', e) \<Rightarrow> (set_node (datagram_identity d) n'
              (if e then erase_cached (datagram_identity d) r else r), True))"
        using Some nz ib ge hello seq by (auto simp: ingest_datagram_def Let_def)
      then obtain n' e where disp: "dispatch_message n d now = Some (n', e)"
        using True by (cases "dispatch_message n d now") auto
      show thesis
        by (rule processed [OF Some disp nz _ hello seq]) (use ge eq disp in auto)
    qed
  qed
qed

lemma refused_changes_nothing: "snd (ingest_datagram r d now) = False \<Longrightarrow> fst (ingest_datagram r d now) = r"
  by (rule ingest_cases [of r d now]) auto

text \<open>
  A datagram the router refuses changes nothing: no state, sequence number, lease,
  liveness time or cached capability of any node.
\<close>

theorem refused_datagram_changes_nothing:
  assumes "snd (ingest_datagram r d now) = False"
  shows "fst (ingest_datagram r d now) = r"
  using assms by (rule refused_changes_nothing)

lemma ingest_replay_noop:
  assumes "lookup (nodes r) (datagram_identity d) = Some n" and "dg_node_id d \<noteq> 0"
    and "dg_control_epoch d = nd_last_control_epoch n" and "dg_control_seq d = nd_last_inbound_seq n"
    and "dg_message_type d \<noteq> cm_invite" and "dg_message_type d \<noteq> cm_ping"
  shows "ingest_datagram r d now = (r, True)"
  using assms by (simp add: ingest_datagram_def Let_def)

lemma dispatch_time_independent:
  "dispatch_message n d t = None \<longleftrightarrow> dispatch_message n d t' = None"
  by (simp add: dispatch_message_def handler_defs Let_def)

lemma ingest_verdict_time_independent:
  "snd (ingest_datagram r d t) = snd (ingest_datagram r d t')"
proof (cases "lookup (nodes r) (datagram_identity d)")
  case None
  then show ?thesis by (simp add: ingest_datagram_def Let_def)
next
  case (Some n)
  with dispatch_time_independent [of n d t t'] show ?thesis
    by (auto simp: ingest_datagram_def Let_def split: option.splits)
qed

text \<open>
  Replaying a datagram is harmless. Whatever the router did with a datagram, receiving the
  same one again, at any time, gives the same verdict and leaves the router as it was.
\<close>

theorem replayed_datagram_is_noop:
  "ingest_datagram (fst (ingest_datagram r d t)) d t' = ingest_datagram r d t"
proof (rule ingest_cases [of r d t])
  assume ref: "ingest_datagram r d t = (r, False)"
  then have v: "snd (ingest_datagram r d t') = False"
    using ingest_verdict_time_independent [of r d t t'] by simp
  then have "fst (ingest_datagram r d t') = r"
    by (rule refused_changes_nothing)
  with v ref show ?thesis by (simp add: prod_eq_iff)
next
  assume "lookup (nodes r) (datagram_identity d) = None" "dg_message_type d = cm_node_hello"
    "dg_node_id d \<noteq> 0" and eq: "ingest_datagram r d t =
      (set_node (datagram_identity d) (node_from_hello (datagram_identity d) d t) r, True)"
  then show ?thesis
    by (simp add: eq ingest_replay_noop [where n = "node_from_hello (datagram_identity d) d t"]
        node_from_hello_def)
next
  fix n assume n: "lookup (nodes r) (datagram_identity d) = Some n"
    "dg_control_epoch d = nd_last_control_epoch n" "dg_control_seq d \<le> nd_last_inbound_seq n"
    and eq: "ingest_datagram r d t = (r, True)"
  then have v: "snd (ingest_datagram r d t')"
    using ingest_verdict_time_independent [of r d t t'] by simp
  have "ingest_datagram r d t' = (r, True)"
    by (rule ingest_cases [of r d t']) (use v n in auto)
  with eq show ?thesis by simp
next
  fix n n' e assume h: "lookup (nodes r) (datagram_identity d) = Some n"
    "dispatch_message n d t = Some (n', e)" "dg_node_id d \<noteq> 0"
    "nd_last_control_epoch n \<le> dg_control_epoch d"
    "nd_last_control_epoch n < dg_control_epoch d \<longrightarrow> dg_message_type d = cm_node_hello"
    and eq: "ingest_datagram r d t = (set_node (datagram_identity d) n'
        (if e then erase_cached (datagram_identity d) r else r), True)"
  have "dg_message_type d \<noteq> cm_invite" "dg_message_type d \<noteq> cm_ping"
    using h(2) by (cases rule: dispatch_cases, simp_all)+
  with h dispatch_commits [OF h(2)] dispatch_epoch [OF h(2) h(4) h(5)] show ?thesis
    by (simp add: eq ingest_replay_noop [where n = n'])
qed

section \<open>Leases\<close>

lemma validate_iff:
  "validate_tcp_session_binding r i ep tok \<longleftrightarrow>
     (\<exists>n. lookup (nodes r) i = Some n \<and> (nd_state n = Active \<or> nd_state n = Degraded) \<and>
        nd_last_control_epoch n = ep \<and> nd_active_lease_token n = tok \<and> tok \<noteq> 0 \<and>
        nd_tcp_trunk_ready n \<and> nd_tcp_port n > 0)"
  by (auto simp: validate_tcp_session_binding_def split: option.splits)

lemma hello_seen: "on_node_hello n d now = Some (n', e) \<Longrightarrow> nd_state n' = Seen"
  by (auto simp: on_node_hello_def Let_def split: if_splits)

lemma ack_needs_offer:
  "on_lease_ack n d now = Some (n', e) \<Longrightarrow>
     nd_state n = Invited \<and> nd_active_lease_token n = dg_lease_token d \<and>
     nd_active_lease_token n \<noteq> 0 \<and> is_trunk_ready d \<and> dg_tcp_port d \<noteq> 0 \<and>
     nd_active_lease_token n' = nd_active_lease_token n \<and>
     nd_last_control_epoch n' = nd_last_control_epoch n \<and>
     (nd_state n' = Active \<or> nd_state n' = Degraded)"
  by (auto simp: on_lease_ack_def Let_def split: if_splits)

lemma telemetry_frame:
  "on_heartbeat n d now = Some (n', e) \<Longrightarrow> reports_telemetry n \<and>
     nd_active_lease_token n' = nd_active_lease_token n \<and>
     nd_last_control_epoch n' = nd_last_control_epoch n \<and> nd_tcp_port n' = nd_tcp_port n \<and>
     nd_tcp_trunk_ready n' = nd_tcp_trunk_ready n \<and>
     nd_capability_revision n' = nd_capability_revision n \<and>
     nd_capability_digest n' = nd_capability_digest n \<and> \<not> e"
  "on_status n d now = Some (n', e) \<Longrightarrow> reports_telemetry n \<and>
     nd_active_lease_token n' = nd_active_lease_token n \<and>
     nd_last_control_epoch n' = nd_last_control_epoch n"
  by (auto simp: on_heartbeat_def on_status_def commit_seen_def Let_def split: if_splits)

lemma pong_frame:
  "on_pong n d now = Some (n', e) \<Longrightarrow> n' = commit_seen d now n \<and> \<not> e"
  by (auto simp: on_pong_def split: if_splits)

text \<open>
  C30: a lease binds a TCP trunk only after the node has accepted it. If a datagram makes a
  binding valid that was not, it is from that node, the router had already handed out exactly
  that token in that epoch, and the datagram is either the LEASE_ACK quoting the token with
  the trunk ready, from a node in INVITED, or telemetry of a node whose lease was acknowledged
  before.
\<close>

theorem binding_gained_only_by_acknowledged_lease:
  assumes "\<not> validate_tcp_session_binding r i ep tok"
    and "validate_tcp_session_binding (fst (ingest_datagram r d now)) i ep tok"
  shows "\<exists>n. datagram_identity d = i \<and> lookup (nodes r) i = Some n \<and>
     nd_active_lease_token n = tok \<and> nd_last_control_epoch n = ep \<and> tok \<noteq> 0 \<and>
     (dg_message_type d = cm_lease_ack \<and> nd_state n = Invited \<and> dg_lease_token d = tok \<and>
        is_trunk_ready d
      \<or> (dg_message_type d = cm_heartbeat \<or> dg_message_type d = cm_status) \<and> reports_telemetry n)"
proof (rule ingest_cases [of r d now])
  assume "ingest_datagram r d now = (r, False)"
  with assms show ?thesis by simp
next
  assume "ingest_datagram r d now =
      (set_node (datagram_identity d) (node_from_hello (datagram_identity d) d now) r, True)"
  with assms show ?thesis by (auto simp: validate_iff node_from_hello_def split: if_splits)
next
  fix n assume "ingest_datagram r d now = (r, True)"
  with assms show ?thesis by simp
next
  fix n n' e assume n: "lookup (nodes r) (datagram_identity d) = Some n"
    and disp: "dispatch_message n d now = Some (n', e)"
    and "ingest_datagram r d now = (set_node (datagram_identity d) n'
        (if e then erase_cached (datagram_identity d) r else r), True)"
  with assms have v: "validate_tcp_session_binding (set_node (datagram_identity d) n' r) i ep tok"
    by (auto simp: validate_iff split: if_splits)
  have same: "datagram_identity d = i"
    by (rule ccontr) (use v assms(1) in \<open>auto simp: validate_iff\<close>)
  with v have n': "nd_state n' = Active \<or> nd_state n' = Degraded"
    "nd_last_control_epoch n' = ep" "nd_active_lease_token n' = tok" "tok \<noteq> 0"
    by (auto simp: validate_iff)
  from disp show ?thesis
  proof (cases rule: dispatch_cases)
    case hello
    with n' hello_seen show ?thesis by fastforce
  next
    case lease_ack
    from ack_needs_offer [OF lease_ack(2)] lease_ack n' n same show ?thesis by auto
  next
    case heartbeat
    from telemetry_frame(1) [OF heartbeat(2)] heartbeat n' n same show ?thesis by auto
  next
    case status
    from telemetry_frame(2) [OF status(2)] status n' n same show ?thesis by auto
  next
    case pong
    from pong_frame [OF pong(2)] have "n' = commit_seen d now n" by simp
    with v assms(1) n same show ?thesis by (auto simp: validate_iff)
  qed
qed

text \<open>
  A new incarnation ends every lease of the old one. After the router accepts a NODE_HELLO
  with a higher control epoch, no token of that identity is valid, in any epoch, until the
  handshake is done again.
\<close>

theorem new_epoch_revokes_bindings:
  assumes "lookup (nodes r) (datagram_identity d) = Some n" and "dg_node_id d \<noteq> 0"
    and "dg_message_type d = cm_node_hello" and "nd_last_control_epoch n < dg_control_epoch d"
  shows "snd (ingest_datagram r d now) \<and>
    \<not> validate_tcp_session_binding (fst (ingest_datagram r d now)) (datagram_identity d) ep tok \<and>
    \<not> is_capability_cache_valid (fst (ingest_datagram r d now)) (datagram_identity d)"
  using assms
  by (auto simp: ingest_datagram_def Let_def dispatch_message_def on_node_hello_def validate_iff
      is_capability_cache_valid_def)

end
