(* ===== verification/Lease_Authority.thy ===== *)
theory Lease_Authority
  imports Runtime_Types
begin

text \<open>
  The interface between the TCP session side and the UDP control plane: what a session manager
  relies on when it asks whether a SESSION_BIND names a live lease
  (\<open>session_manager::process_session_bind\<close> calling
  \<open>control_plane_router::validate_tcp_session_binding\<close>). The provider is the router of
  \<open>Control_Plane\<close>; \<open>lease_steps\<close> adds how the provider's own steps may move validity.
\<close>

locale lease_authority =
  fixes valid :: "'r \<Rightarrow> node_endpoint_identity \<Rightarrow> u64 \<Rightarrow> u64 \<Rightarrow> bool"
  assumes valid_token: "valid r i ep tok \<Longrightarrow> tok \<noteq> 0"
    and valid_unique: "valid r i ep tok \<Longrightarrow> valid r i ep' tok' \<Longrightarrow> ep = ep' \<and> tok = tok'"
begin

lemma other_token_invalid: "valid r i ep tok \<Longrightarrow> tok' \<noteq> tok \<Longrightarrow> \<not> valid r i ep' tok'"
  using valid_unique by blast

lemma other_epoch_invalid: "valid r i ep tok \<Longrightarrow> ep' \<noteq> ep \<Longrightarrow> \<not> valid r i ep' tok'"
  using valid_unique by blast

end

locale lease_steps = lease_authority valid
  for valid :: "'r \<Rightarrow> node_endpoint_identity \<Rightarrow> u64 \<Rightarrow> u64 \<Rightarrow> bool" +
  fixes step :: "'r \<Rightarrow> 'r \<Rightarrow> bool"
    and inv :: "'r \<Rightarrow> bool"
    and epoch :: "'r \<Rightarrow> node_endpoint_identity \<Rightarrow> u64 option"
  assumes inv_step: "inv r \<Longrightarrow> step r s \<Longrightarrow> inv s"
    and epoch_mono: "inv r \<Longrightarrow> step r s \<Longrightarrow> epoch r i = Some a \<Longrightarrow> \<exists>b. epoch s i = Some b \<and> a \<le> b"
    and valid_epoch: "valid r i ep tok \<Longrightarrow> epoch r i = Some ep"
begin

lemma inv_steps: "step\<^sup>*\<^sup>* r s \<Longrightarrow> inv r \<Longrightarrow> inv s"
  by (induction rule: rtranclp_induct) (auto intro: inv_step)

lemma epoch_steps_mono:
  "step\<^sup>*\<^sup>* r s \<Longrightarrow> inv r \<Longrightarrow> epoch r i = Some a \<Longrightarrow> \<exists>b. epoch s i = Some b \<and> a \<le> b"
proof (induction rule: rtranclp_induct)
  case base
  then show ?case by simp
next
  case (step s t)
  then obtain b where "epoch s i = Some b" "a \<le> b" by auto
  moreover have "inv s" using step.hyps(1) step.prems(1) by (rule inv_steps)
  ultimately show ?case using epoch_mono [of s t i b] step.hyps(2) by fastforce
qed

text \<open>A binding of an epoch that has been left never becomes valid again.\<close>

lemma left_epoch_never_valid:
  assumes "inv r" and "epoch r i = Some a" and "ep < a" and "step\<^sup>*\<^sup>* r s"
  shows "\<not> valid s i ep tok"
proof
  assume "valid s i ep tok"
  then have "epoch s i = Some ep" by (rule valid_epoch)
  with epoch_steps_mono [OF assms(4,1,2)] have "a \<le> ep" by simp
  with assms(3) show False by simp
qed

end

end
