(* ===== verification/Control_Plane_Invariants.thy ===== *)
theory Control_Plane_Invariants
  imports Control_Plane_Props Lease_Authority
begin

text \<open>
  The router as a state machine: its atomic steps, the invariant of its reachable states, the
  guarantees of candidate selection and of the staleness sweep, and the interpretation of the
  lease interface.
\<close>

section \<open>Steps and the invariant\<close>

inductive router_step :: "control_plane_router \<Rightarrow> control_plane_router \<Rightarrow> bool" where
  step_ingest: "router_step r (fst (ingest_datagram r d now))"
| step_invite: "router_step r (fst (issue_invite r i tok))"
| step_reinvite: "router_step r (fst (reissue_invite r i ep))"
| step_sweep: "router_step r (fst (sweep_stale_nodes r now st off))"
| step_cache: "router_step r (set_cached_capability_valid r i crev dig)"
| step_uncache: "router_step r (invalidate_capability_cache r i)"

inductive_cases router_stepE: "router_step r s"

definition leased :: "control_node_lifecycle \<Rightarrow> bool" where
  "leased s \<longleftrightarrow> s = Invited \<or> s = Active \<or> s = Degraded \<or> s = Cooling"

definition node_inv :: "node_endpoint_identity \<Rightarrow> control_plane_node_state \<Rightarrow> bool" where
  "node_inv i n \<longleftrightarrow> nd_identity n = i \<and> node_id i \<noteq> 0 \<and> nd_state n \<noteq> Unknown \<and>
     (leased (nd_state n) \<longrightarrow> nd_active_lease_token n \<noteq> 0) \<and>
     (nd_state n = Offline \<longrightarrow> nd_active_lease_token n = 0)"

definition router_inv :: "control_plane_router \<Rightarrow> bool" where
  "router_inv r \<longleftrightarrow> distinct (keys (nodes r)) \<and>
     (\<forall>i n. lookup (nodes r) i = Some n \<longrightarrow> node_inv i n)"

lemma router_inv_new: "router_inv new_router"
  by (simp add: router_inv_def new_router_def)

lemma leased_cases: "leased s \<Longrightarrow> s \<noteq> Unknown \<and> s \<noteq> Seen \<and> s \<noteq> Offline"
  by (auto simp: leased_def)

lemma reported_leased: "leased (nd_state n) \<Longrightarrow> leased (reported_state n)"
  by (simp add: reported_state_def leased_def)

lemma reports_leased: "reports_telemetry n \<Longrightarrow> leased (nd_state n)"
  by (auto simp: reports_telemetry_def leased_def)

lemma heartbeat_leased: "on_heartbeat n d now = Some (n', e) \<Longrightarrow> leased (nd_state n')"
  by (auto simp: on_heartbeat_def Let_def reports_leased reported_leased split: if_splits)

lemma status_leased: "on_status n d now = Some (n', e) \<Longrightarrow> leased (nd_state n')"
  by (auto simp: on_status_def Let_def reports_leased reported_leased split: if_splits)

lemma telemetry_node_inv:
  assumes "node_inv i n" and "leased (nd_state n)" and "leased (nd_state n')"
    and "nd_identity n' = nd_identity n" and "nd_active_lease_token n' = nd_active_lease_token n"
  shows "node_inv i n'"
  using assms leased_cases [of "nd_state n'"] by (simp add: node_inv_def)

lemma dispatch_node_inv:
  assumes "node_inv i n" and "dispatch_message n d now = Some (n', e)"
  shows "node_inv i n'"
  using assms(2)
proof (cases rule: dispatch_cases)
  case hello
  with assms(1) show ?thesis
    by (auto simp: node_inv_def leased_def on_node_hello_def Let_def split: if_splits)
next
  case lease_ack
  with assms(1) show ?thesis
    by (auto simp: node_inv_def leased_def on_lease_ack_def Let_def split: if_splits)
next
  case heartbeat
  from telemetry_frame(1) [OF heartbeat(2)] dispatch_commits [OF assms(2)] assms(1)
  show ?thesis
    by (intro telemetry_node_inv [of i n n'])
      (auto simp: reports_leased heartbeat_leased [OF heartbeat(2)])
next
  case status
  from telemetry_frame(2) [OF status(2)] dispatch_commits [OF assms(2)] assms(1)
  show ?thesis
    by (intro telemetry_node_inv [of i n n'])
      (auto simp: reports_leased status_leased [OF status(2)])
next
  case pong
  with assms(1) show ?thesis
    by (auto simp: node_inv_def leased_def on_pong_def split: if_splits)
qed

lemma router_inv_update:
  assumes "router_inv r" and "node_inv i n"
  shows "router_inv (set_node i n r)"
  using assms by (auto simp: router_inv_def)

lemma router_inv_cache [simp]:
  "router_inv (r\<lparr>capability_cache := c\<rparr>) = router_inv r"
  "router_inv (erase_cached i r) = router_inv r"
  by (simp_all add: router_inv_def)

lemma router_inv_ingest: "router_inv r \<Longrightarrow> router_inv (fst (ingest_datagram r d now))"
proof (rule ingest_cases [of r d now])
  assume "router_inv r" and "dg_node_id d \<noteq> 0" and eq: "ingest_datagram r d now =
      (set_node (datagram_identity d) (node_from_hello (datagram_identity d) d now) r, True)"
  moreover have "node_inv (datagram_identity d) (node_from_hello (datagram_identity d) d now)"
    using \<open>dg_node_id d \<noteq> 0\<close>
    by (simp add: node_inv_def leased_def node_from_hello_def datagram_identity_def)
  ultimately show ?thesis by (simp add: router_inv_update)
next
  fix n n' e assume inv: "router_inv r" and n: "lookup (nodes r) (datagram_identity d) = Some n"
    and disp: "dispatch_message n d now = Some (n', e)" and eq: "ingest_datagram r d now =
      (set_node (datagram_identity d) n' (if e then erase_cached (datagram_identity d) r else r), True)"
  from inv n have "node_inv (datagram_identity d) n" by (simp add: router_inv_def)
  then have "node_inv (datagram_identity d) n'" using disp by (rule dispatch_node_inv)
  with inv show ?thesis by (simp add: eq router_inv_update)
qed simp_all

lemma router_inv_step: "router_inv r \<Longrightarrow> router_step r s \<Longrightarrow> router_inv s"
proof (erule router_stepE)
  fix i tok assume inv: "router_inv r" and s: "s = fst (issue_invite r i tok)"
  show ?thesis
  proof (cases "lookup (nodes r) i")
    case None
    with inv show ?thesis by (simp add: s issue_invite_def)
  next
    case (Some n)
    with inv have "node_inv i n" by (simp add: router_inv_def)
    then have "tok \<noteq> 0 \<Longrightarrow> node_inv i (n\<lparr>nd_state := Invited, nd_active_lease_token := tok,
        nd_last_outbound_seq := nd_last_outbound_seq n + 1\<rparr>)"
      by (simp add: node_inv_def leased_def)
    with inv Some show ?thesis
      by (auto simp: s issue_invite_def Let_def router_inv_update)
  qed
next
  fix i ep assume inv: "router_inv r" and s: "s = fst (reissue_invite r i ep)"
  show ?thesis
  proof (cases "lookup (nodes r) i")
    case None
    with inv show ?thesis by (simp add: s reissue_invite_def)
  next
    case (Some n)
    with inv have "node_inv i n" by (simp add: router_inv_def)
    then have "node_inv i (n\<lparr>nd_last_outbound_seq := nd_last_outbound_seq n + 1\<rparr>)"
      by (simp add: node_inv_def)
    with inv Some show ?thesis
      by (auto simp: s reissue_invite_def Let_def router_inv_update)
  qed
next
  fix now st off assume inv: "router_inv r" and s: "s = fst (sweep_stale_nodes r now st off)"
  have "node_inv i n \<Longrightarrow> node_inv i (fst (sweep_node now st off n))" for i n
    by (auto simp: sweep_node_def node_inv_def leased_def Let_def)
  with inv show ?thesis by (auto simp: s router_inv_def sweep_stale_nodes_def)
qed (auto simp: router_inv_ingest set_cached_capability_valid_def invalidate_capability_cache_def)

inductive router_reachable :: "control_plane_router \<Rightarrow> bool" where
  reach_new: "router_reachable new_router"
| reach_step: "router_reachable r \<Longrightarrow> router_step r s \<Longrightarrow> router_reachable s"

lemma reachable_router_inv: "router_reachable r \<Longrightarrow> router_inv r"
  by (induction rule: router_reachable.induct) (auto intro: router_inv_new router_inv_step)


section \<open>The lease interface\<close>

definition node_epoch :: "control_plane_router \<Rightarrow> node_endpoint_identity \<Rightarrow> u64 option" where
  "node_epoch r i = map_option nd_last_control_epoch (lookup (nodes r) i)"

lemma node_epoch_ingest:
  assumes "node_epoch r i = Some a"
  shows "\<exists>b. node_epoch (fst (ingest_datagram r d now)) i = Some b \<and> a \<le> b"
proof (rule ingest_cases [of r d now])
  fix n n' e assume "lookup (nodes r) (datagram_identity d) = Some n"
    and disp: "dispatch_message n d now = Some (n', e)"
    and le: "nd_last_control_epoch n \<le> dg_control_epoch d"
    and h: "nd_last_control_epoch n < dg_control_epoch d \<longrightarrow> dg_message_type d = cm_node_hello"
    and "ingest_datagram r d now = (set_node (datagram_identity d) n'
        (if e then erase_cached (datagram_identity d) r else r), True)"
  with dispatch_epoch [OF disp le h] assms show ?thesis by (auto simp: node_epoch_def)
qed (use assms in \<open>auto simp: node_epoch_def\<close>)

lemma node_epoch_step:
  assumes "router_step r s" and "node_epoch r i = Some a"
  shows "\<exists>b. node_epoch s i = Some b \<and> a \<le> b"
  using assms(1)
proof cases
  case (step_ingest d now)
  with node_epoch_ingest [OF assms(2)] show ?thesis by simp
next
  case (step_invite j tok)
  with assms(2) show ?thesis
    by (auto simp: issue_invite_def Let_def node_epoch_def split: option.splits)
next
  case (step_reinvite j ep)
  with assms(2) show ?thesis
    by (auto simp: reissue_invite_def Let_def node_epoch_def split: option.splits)
next
  case (step_sweep now st off)
  have "nd_last_control_epoch (fst (sweep_node now st off n)) = nd_last_control_epoch n" for n
    by (simp add: sweep_node_def Let_def)
  with step_sweep assms(2) show ?thesis by (auto simp: sweep_stale_nodes_def node_epoch_def)
qed (use assms(2) in \<open>auto simp: set_cached_capability_valid_def invalidate_capability_cache_def node_epoch_def\<close>)

interpretation router_leases: lease_steps validate_tcp_session_binding router_step router_inv node_epoch
proof
  show "validate_tcp_session_binding r i ep tok \<Longrightarrow> tok \<noteq> 0" for r i ep tok
    by (auto simp: validate_iff)
  show "validate_tcp_session_binding r i ep tok \<Longrightarrow> validate_tcp_session_binding r i ep' tok' \<Longrightarrow>
      ep = ep' \<and> tok = tok'" for r i ep tok ep' tok'
    by (auto simp: validate_iff)
  show "router_inv r \<Longrightarrow> router_step r s \<Longrightarrow> router_inv s" for r s by (rule router_inv_step)
  show "router_step r s \<Longrightarrow> node_epoch r i = Some a \<Longrightarrow> \<exists>b. node_epoch s i = Some b \<and> a \<le> b"
    for r s i a by (rule node_epoch_step)
  show "validate_tcp_session_binding r i ep tok \<Longrightarrow> node_epoch r i = Some ep" for r i ep tok
    by (auto simp: validate_iff node_epoch_def)
qed

text \<open>
  A binding of an incarnation the router has left is dead for good: no sequence of router
  steps (datagrams, invitations, sweeps, cache updates) makes any token of an older control
  epoch valid again.
\<close>

theorem left_epoch_never_rebinds:
  assumes "router_reachable r" and "lookup (nodes r) i = Some n"
    and "ep < nd_last_control_epoch n" and "router_step\<^sup>*\<^sup>* r s"
  shows "\<not> validate_tcp_session_binding s i ep tok"
  using router_leases.left_epoch_never_valid [OF reachable_router_inv [OF assms(1)] _ assms(3,4)]
    assms(2) by (simp add: node_epoch_def)

section \<open>Candidate selection\<close>

lemma unat_routing_score:
  "unat (routing_score n) = unat (nd_load_pct n) * 10 + unat (nd_queue_depth n) * 50
     + (if nd_health n = nh_degraded then 5000 else 0)
     + (if nd_availability n = av_degraded then 5000 else 0)"
proof -
  have l: "unat (nd_load_pct n) < 256" using unat_bound [of "nd_load_pct n"] by simp
  have q: "unat (nd_queue_depth n) < 4294967296" using unat_bound [of "nd_queue_depth n"] by simp
  have ul: "unat (ucast (nd_load_pct n) :: u64) = unat (nd_load_pct n)"
    by (simp add: unat_ucast_up)
  have uq: "unat (ucast (nd_queue_depth n) :: u64) = unat (nd_queue_depth n)"
    by (simp add: unat_ucast_up)
  show ?thesis
    using l q by (simp add: routing_score_def unat_word_ariths ul uq)
qed

lemma routing_score_below_max: "routing_score n < - 1"
proof -
  have l: "unat (nd_load_pct n) < 256" using unat_bound [of "nd_load_pct n"] by simp
  have q: "unat (nd_queue_depth n) < 4294967296" using unat_bound [of "nd_queue_depth n"] by simp
  have "unat (routing_score n) < 18446744073709551615"
    unfolding unat_routing_score using l q by simp
  moreover have "unat (- 1 :: u64) = 18446744073709551615"
    by (simp add: unsigned_minus_1_eq_mask mask_eq_exp_minus_1)
  ultimately show ?thesis by (simp add: word_less_nat_alt)
qed

lemma best_candidate_None:
  "best_candidate m best (- 1) = None \<longleftrightarrow> best = None \<and> (\<forall>(i, n) \<in> set m. \<not> is_routable n)"
proof (induction m best "- 1 :: u64" rule: best_candidate.induct)
  case (1 best)
  then show ?case by simp
next
  case (2 i n m best)
  have "best_candidate m (Some x) l \<noteq> None" for x l
    by (induction m "Some x" l arbitrary: x rule: best_candidate.induct) auto
  with 2 routing_score_below_max [of n] show ?case by auto
qed

lemma best_candidate_Some:
  assumes "best_candidate m best lowest = Some b"
    and "\<forall>x. best = Some x \<longrightarrow> routing_score x = lowest"
  shows "(best = Some b \<or> (\<exists>i. (i, b) \<in> set m \<and> is_routable b)) \<and> routing_score b \<le> lowest \<and>
    (\<forall>(i, n) \<in> set m. is_routable n \<longrightarrow> routing_score b \<le> routing_score n)"
  using assms
proof (induction m arbitrary: best lowest)
  case Nil
  then show ?case by simp
next
  case (Cons p m)
  obtain i n where p: "p = (i, n)" by (cases p)
  show ?case
  proof (cases "is_routable n \<and> routing_score n < lowest")
    case True
    with Cons.prems(1) p have "best_candidate m (Some n) (routing_score n) = Some b" by simp
    then have "(Some n = Some b \<or> (\<exists>i. (i, b) \<in> set m \<and> is_routable b)) \<and>
        routing_score b \<le> routing_score n \<and>
        (\<forall>(i, n) \<in> set m. is_routable n \<longrightarrow> routing_score b \<le> routing_score n)"
      by (rule Cons.IH) simp
    with True p show ?thesis by auto
  next
    case False
    with Cons.prems(1) p have "best_candidate m best lowest = Some b" by (auto split: if_splits)
    then have "(best = Some b \<or> (\<exists>i. (i, b) \<in> set m \<and> is_routable b)) \<and>
        routing_score b \<le> lowest \<and>
        (\<forall>(i, n) \<in> set m. is_routable n \<longrightarrow> routing_score b \<le> routing_score n)"
      using Cons.prems(2) by (rule Cons.IH)
    with False p show ?thesis by auto
  qed
qed

text \<open>
  Placement is correct and complete. In a reachable router a candidate is found exactly
  when some node is routable; the node found is routable, no routable node has a lower score,
  and the lease token returned with it passes the TCP session-binding check in the node's
  current epoch.
\<close>

theorem best_candidate_is_routable_minimum:
  assumes "router_reachable r"
  shows "(select_best_candidate r = None \<longleftrightarrow> get_routable_node_count r = 0) \<and>
    (\<forall>i port tok. select_best_candidate r = Some (i, port, tok) \<longrightarrow>
      (\<exists>n. lookup (nodes r) i = Some n \<and> is_routable n \<and> nd_tcp_port n = port \<and>
         validate_tcp_session_binding r i (nd_last_control_epoch n) tok \<and>
         (\<forall>j m. lookup (nodes r) j = Some m \<longrightarrow> is_routable m \<longrightarrow>
            routing_score n \<le> routing_score m)))"
proof (intro conjI allI impI)
  show "select_best_candidate r = None \<longleftrightarrow> get_routable_node_count r = 0"
    by (auto simp: select_best_candidate_def best_candidate_None get_routable_node_count_def
        filter_empty_conv)
next
  fix i port tok assume "select_best_candidate r = Some (i, port, tok)"
  then obtain n where b: "best_candidate (nodes r) None (- 1) = Some n"
    and n: "nd_identity n = i" "nd_tcp_port n = port" "nd_active_lease_token n = tok"
    by (auto simp: select_best_candidate_def)
  have inv: "router_inv r" using assms by (rule reachable_router_inv)
  from best_candidate_Some [OF b] obtain j where j: "(j, n) \<in> set (nodes r)" "is_routable n"
    and le: "\<forall>(j, m) \<in> set (nodes r). is_routable m \<longrightarrow> routing_score n \<le> routing_score m"
    by auto
  from inv j have look: "lookup (nodes r) j = Some n" by (simp add: router_inv_def in_set_lookup)
  with inv n have "j = i" by (auto simp: router_inv_def node_inv_def)
  with look j le n show "\<exists>n. lookup (nodes r) i = Some n \<and> is_routable n \<and> nd_tcp_port n = port \<and>
      validate_tcp_session_binding r i (nd_last_control_epoch n) tok \<and>
      (\<forall>j m. lookup (nodes r) j = Some m \<longrightarrow> is_routable m \<longrightarrow> routing_score n \<le> routing_score m)"
    by (intro exI [of _ n]) (auto simp: validate_iff is_routable_def has_active_lease_def
        dest: lookup_in_set)
qed

section \<open>Staleness\<close>

text \<open>
  After a sweep no node is routable on old news. Every routable node was heard from within
  the staleness limit (when the limits are ordered and its clock is not ahead), and the count
  the sweep returns is the number of nodes it changed.
\<close>

theorem sweep_leaves_no_stale_routable_node:
  assumes "st \<le> off"
  shows "(\<forall>i n. lookup (nodes (fst (sweep_stale_nodes r now st off))) i = Some n \<longrightarrow> is_routable n
      \<longrightarrow> nd_last_seen_us n \<le> now \<longrightarrow> now - nd_last_seen_us n \<le> st) \<and>
    snd (sweep_stale_nodes r now st off) =
      length (filter (\<lambda>(n, n'). n \<noteq> n')
        (zip (map snd (nodes r)) (map snd (nodes (fst (sweep_stale_nodes r now st off))))))"
proof
  have keep: "nd_last_seen_us (fst (sweep_node now st off n)) = nd_last_seen_us n" for n
    by (simp add: sweep_node_def Let_def)
  have "is_routable (fst (sweep_node now st off n)) \<Longrightarrow> nd_last_seen_us n \<le> now \<Longrightarrow>
      now - nd_last_seen_us n \<le> st" for n
    using assms by (auto simp: sweep_node_def Let_def is_routable_def split: if_splits)
  with keep show "\<forall>i n. lookup (nodes (fst (sweep_stale_nodes r now st off))) i = Some n \<longrightarrow>
      is_routable n \<longrightarrow> nd_last_seen_us n \<le> now \<longrightarrow> now - nd_last_seen_us n \<le> st"
    by (auto simp: sweep_stale_nodes_def)
next
  have ch: "snd (sweep_node now st off n) \<longleftrightarrow> n \<noteq> fst (sweep_node now st off n)" for n
  proof -
    have "nd_state n \<noteq> s \<Longrightarrow> n \<noteq> n\<lparr>nd_state := s\<rparr>" for s
      by (metis control_plane_node_state.select_convs(2) control_plane_node_state.surjective
          control_plane_node_state.update_convs(2))
    moreover have "nd_state n \<noteq> s \<Longrightarrow> n \<noteq> n\<lparr>nd_state := s, nd_active_lease_token := t\<rparr>" for s t
      by (cases n) auto
    ultimately show ?thesis by (auto simp: sweep_node_def Let_def)
  qed
  have "length (filter (\<lambda>(_, n). snd (sweep_node now st off n)) m) =
      length (filter (\<lambda>(n, n'). n \<noteq> n')
        (zip (map snd m) (map snd (map_vals (\<lambda>_ n. fst (sweep_node now st off n)) m))))" for m :: "(node_endpoint_identity, control_plane_node_state) umap"
    by (induction m) (auto simp: ch)
  then show "snd (sweep_stale_nodes r now st off) =
      length (filter (\<lambda>(n, n'). n \<noteq> n')
        (zip (map snd (nodes r)) (map snd (nodes (fst (sweep_stale_nodes r now st off))))))"
    by (simp add: sweep_stale_nodes_def)
qed

end
