(* ===== verification/Control_Plane_Examples.thy ===== *)
theory Control_Plane_Examples
  imports Control_Plane_Invariants
begin
section \<open>A concrete handshake\<close>

text \<open>
  One node joins: HELLO, INVITE with token 7, LEASE_ACK. The witnesses of the properties run on
  the states of this handshake.
\<close>

definition ex_hello :: udp_control_datagram where
  "ex_hello = empty_datagram\<lparr>dg_message_type := cm_node_hello, dg_node_id := 1, dg_runtime_id := 2,
     dg_control_seq := 10, dg_control_epoch := 5, dg_availability := av_available,
     dg_health := nh_healthy, dg_tcp_port := 9000, dg_flags := 1\<rparr>"

definition ex_id :: node_endpoint_identity where
  "ex_id = \<lparr>node_id = 1, runtime_id = 2, endpoint_id = 0\<rparr>"

definition ex_ack :: udp_control_datagram where
  "ex_ack = ex_hello\<lparr>dg_message_type := cm_lease_ack, dg_control_seq := 11, dg_lease_token := 7\<rparr>"

definition ex_seen :: control_plane_router where
  "ex_seen = fst (ingest_datagram new_router ex_hello 100)"

definition ex_invited :: control_plane_router where
  "ex_invited = fst (issue_invite ex_seen ex_id 7)"

definition ex_active :: control_plane_router where
  "ex_active = fst (ingest_datagram ex_invited ex_ack 200)"

lemmas ex_defs = ex_hello_def ex_id_def ex_ack_def empty_datagram_def new_router_def
  datagram_identity_def

lemma ex_seen_eval: "nodes ex_seen = [(ex_id, node_from_hello ex_id ex_hello 100)]"
  by (simp add: ex_seen_def ingest_datagram_def ex_defs Let_def)

lemma ex_invited_eval: "nodes ex_invited = [(ex_id, (node_from_hello ex_id ex_hello 100)
    \<lparr>nd_state := Invited, nd_active_lease_token := 7, nd_last_outbound_seq := 1\<rparr>)]"
  by (simp add: ex_invited_def issue_invite_def ex_seen_eval node_from_hello_def Let_def)
   (simp add: ex_id_def)

lemma ex_ack_identity [simp]: "datagram_identity ex_ack = ex_id" "datagram_identity ex_hello = ex_id"
  by (simp_all add: ex_defs)

lemma ex_active_eval: "nodes ex_active = [(ex_id, (node_from_hello ex_id ex_hello 200)
    \<lparr>nd_state := Active, nd_active_lease_token := 7, nd_last_outbound_seq := 1,
     nd_last_inbound_seq := 11\<rparr>)]"
  by (simp add: ex_active_def ingest_datagram_def ex_invited_eval node_from_hello_def Let_def
    dispatch_message_def on_lease_ack_def commit_seen_def is_trunk_ready_def)
   (simp add: ex_defs is_trunk_ready_def)

lemma ex_reachable: "router_reachable ex_seen" "router_reachable ex_invited" "router_reachable ex_active"
proof -
  show s: "router_reachable ex_seen"
    unfolding ex_seen_def by (rule reach_step [OF reach_new step_ingest])
  show i: "router_reachable ex_invited"
    unfolding ex_invited_def by (rule reach_step [OF s step_invite])
  show "router_reachable ex_active"
    unfolding ex_active_def by (rule reach_step [OF i step_ingest])
qed

lemma ex_active_valid: "validate_tcp_session_binding ex_active ex_id 5 7"
  by (simp add: validate_iff ex_active_eval) (simp add: node_from_hello_def ex_defs is_trunk_ready_def)

theorem refused_datagram_changes_nothing_witness:
  "snd (ingest_datagram ex_seen ex_ack 150) = False \<and> fst (ingest_datagram ex_seen ex_ack 150) = ex_seen"
proof -
  have h: "snd (ingest_datagram ex_seen ex_ack 150) = False"
    by (simp add: ingest_datagram_def ex_seen_eval dispatch_message_def on_lease_ack_def Let_def
        node_from_hello_def) (simp add: ex_defs)
  from h refused_datagram_changes_nothing [OF h] show ?thesis by simp
qed

theorem binding_gained_witness:
  "\<exists>n. lookup (nodes ex_invited) ex_id = Some n \<and> nd_state n = Invited \<and> nd_active_lease_token n = 7"
proof -
  have no: "\<not> validate_tcp_session_binding ex_invited ex_id 5 7"
    by (simp add: validate_iff ex_invited_eval)
  have yes: "validate_tcp_session_binding (fst (ingest_datagram ex_invited ex_ack 200)) ex_id 5 7"
    using ex_active_valid by (simp add: ex_active_def)
  from binding_gained_only_by_acknowledged_lease [OF no yes]
  show ?thesis by (auto simp: ex_ack_def ex_hello_def)
qed

theorem new_epoch_revokes_witness:
  "\<not> validate_tcp_session_binding
     (fst (ingest_datagram ex_active (ex_hello\<lparr>dg_control_epoch := 6\<rparr>) 300)) ex_id 5 7"
proof -
  let ?d = "ex_hello\<lparr>dg_control_epoch := 6\<rparr>"
  have i: "datagram_identity ?d = ex_id" by (simp add: ex_defs)
  have l: "lookup (nodes ex_active) (datagram_identity ?d) = Some ((node_from_hello ex_id ex_hello 200)
    \<lparr>nd_state := Active, nd_active_lease_token := 7, nd_last_outbound_seq := 1,
     nd_last_inbound_seq := 11\<rparr>)"
    by (simp add: i ex_active_eval)
  from new_epoch_revokes_bindings [OF l, of 300 5 7] show ?thesis
    by (simp add: i) (simp add: ex_hello_def node_from_hello_def)
qed


theorem left_epoch_never_rebinds_witness: "\<not> validate_tcp_session_binding ex_active ex_id 4 7"
proof -
  have l: "lookup (nodes ex_active) ex_id = Some ((node_from_hello ex_id ex_hello 200)
    \<lparr>nd_state := Active, nd_active_lease_token := 7, nd_last_outbound_seq := 1,
     nd_last_inbound_seq := 11\<rparr>)"
    by (simp add: ex_active_eval)
  show ?thesis
    by (rule left_epoch_never_rebinds [OF ex_reachable(3) l])
      (simp_all add: node_from_hello_def ex_hello_def)
qed

theorem best_candidate_witness:
  "\<exists>n. lookup (nodes ex_active) ex_id = Some n \<and> is_routable n \<and>
     select_best_candidate ex_active = Some (ex_id, 9000, 7)"
proof -
  have s: "select_best_candidate ex_active = Some (ex_id, 9000, 7)"
    by (simp add: select_best_candidate_def ex_active_eval is_routable_def has_active_lease_def
        routing_score_below_max node_from_hello_def) (simp add: ex_defs is_trunk_ready_def)
  with best_candidate_is_routable_minimum [OF ex_reachable(3)] show ?thesis by blast
qed

theorem sweep_witness:
  "(10 :: u64) \<le> 20 \<and> snd (sweep_stale_nodes ex_active 500 10 20) = 1"
proof -
  have "(10 :: u64) \<le> 20" by simp
  from sweep_leaves_no_stale_routable_node [OF this, of ex_active 500] this show ?thesis
    by (simp add: sweep_stale_nodes_def ex_active_eval sweep_node_def node_from_hello_def Let_def)
qed

text \<open>A datagram with its checksum, and one changed byte.\<close>

definition ex_wire_hello :: udp_control_datagram where
  "ex_wire_hello = ex_hello\<lparr>dg_crc32 := calc_crc32 (datagram_body ex_hello)\<rparr>"

lemma ex_wire_hello: "decode_control_datagram (encode_control_datagram ex_wire_hello) = Some ex_wire_hello"
  by (rule decode_encode_datagram)
    (simp_all add: ex_wire_hello_def datagram_acceptable_def datagram_body_def,
      simp_all add: ex_hello_def empty_datagram_def)

lemma corrupted_byte_refused_witness:
  "decode_control_datagram (encode_control_datagram ex_wire_hello) = Some ex_wire_hello \<and>
   encode_control_datagram ex_wire_hello ! 6 = cm_node_hello \<and>
   decode_control_datagram ((encode_control_datagram ex_wire_hello)[6 := cm_lease_ack]) = None"
proof -
  have b: "encode_control_datagram ex_wire_hello ! 6 = cm_node_hello"
    by (simp add: encode_control_datagram_def datagram_body_def ex_wire_hello_def Let_def nth_append
        write_u8_def) (simp add: ex_hello_def)
  have "6 < length (encode_control_datagram ex_wire_hello)"
    by (simp add: encode_control_datagram_def datagram_body_def Let_def)
  from corrupted_byte_refused [OF ex_wire_hello this, of cm_lease_ack] b ex_wire_hello show ?thesis by simp
qed

end
