(* ===== verification/Sha256.thy ===== *)
theory Sha256
  imports Wire
begin

unbundle bit_operations_syntax

text \<open>
  \<open>LiNeP/src/core/sha256.cpp\<close> (SHA-256, HMAC-SHA-256) and the comparison of
  \<open>LiNeP/src/core/security.cpp\<close>, on 32-bit words as the code has them. The streaming
  context keeps its 64-byte buffer; \<open>sha256_init\<close> leaves the buffer's bytes alone, as the
  code leaves them uninitialised. \<open>sha256_spec\<close> is the reference: pad the whole message, cut
  it into blocks, compress them one by one.
\<close>

section \<open>The compression function\<close>

definition ROTRIGHT :: "u32 \<Rightarrow> nat \<Rightarrow> u32" where
  "ROTRIGHT a b = drop_bit b a OR push_bit (32 - b) a"

definition CH :: "u32 \<Rightarrow> u32 \<Rightarrow> u32 \<Rightarrow> u32" where
  "CH x y z = (x AND y) XOR (NOT x AND z)"
definition MAJ :: "u32 \<Rightarrow> u32 \<Rightarrow> u32 \<Rightarrow> u32" where
  "MAJ x y z = (x AND y) XOR (x AND z) XOR (y AND z)"
definition EP0 :: "u32 \<Rightarrow> u32" where
  "EP0 x = ROTRIGHT x 2 XOR ROTRIGHT x 13 XOR ROTRIGHT x 22"
definition EP1 :: "u32 \<Rightarrow> u32" where
  "EP1 x = ROTRIGHT x 6 XOR ROTRIGHT x 11 XOR ROTRIGHT x 25"
definition SIG0 :: "u32 \<Rightarrow> u32" where
  "SIG0 x = ROTRIGHT x 7 XOR ROTRIGHT x 18 XOR drop_bit 3 x"
definition SIG1 :: "u32 \<Rightarrow> u32" where
  "SIG1 x = ROTRIGHT x 17 XOR ROTRIGHT x 19 XOR drop_bit 10 x"

text \<open>The round constants, one row of the source per list.\<close>

definition sha_k :: "u32 list" where
  "sha_k = concat [
    [0x428a2f98, 0x71374491, 0xb5c0fbcf, 0xe9b5dba5, 0x3956c25b, 0x59f111f1, 0x923f82a4, 0xab1c5ed5],
    [0xd807aa98, 0x12835b01, 0x243185be, 0x550c7dc3, 0x72be5d74, 0x80deb1fe, 0x9bdc06a7, 0xc19bf174],
    [0xe49b69c1, 0xefbe4786, 0x0fc19dc6, 0x240ca1cc, 0x2de92c6f, 0x4a7484aa, 0x5cb0a9dc, 0x76f988da],
    [0x983e5152, 0xa831c66d, 0xb00327c8, 0xbf597fc7, 0xc6e00bf3, 0xd5a79147, 0x06ca6351, 0x14292967],
    [0x27b70a85, 0x2e1b2138, 0x4d2c6dfc, 0x53380d13, 0x650a7354, 0x766a0abb, 0x81c2c92e, 0x92722c85],
    [0xa2bfe8a1, 0xa81a664b, 0xc24b8b70, 0xc76c51a3, 0xd192e819, 0xd6990624, 0xf40e3585, 0x106aa070],
    [0x19a4c116, 0x1e376c08, 0x2748774c, 0x34b0bcb5, 0x391c0cb3, 0x4ed8aa4a, 0x5b9cca4f, 0x682e6ff3],
    [0x748f82ee, 0x78a5636f, 0x84c87814, 0x8cc70208, 0x90befffa, 0xa4506ceb, 0xbef9a3f7, 0xc67178f2]]"

definition be_word32 :: "bytes \<Rightarrow> nat \<Rightarrow> u32" where
  "be_word32 data j = push_bit 24 (ucast (data ! j)) OR push_bit 16 (ucast (data ! (j + 1)))
     OR push_bit 8 (ucast (data ! (j + 2))) OR ucast (data ! (j + 3))"

definition extend_schedule :: "u32 list \<Rightarrow> u32 list" where
  "extend_schedule m = (let i = length m in
     m @ [SIG1 (m ! (i - 2)) + m ! (i - 7) + SIG0 (m ! (i - 15)) + m ! (i - 16)])"

definition message_schedule :: "bytes \<Rightarrow> u32 list" where
  "message_schedule data = (extend_schedule ^^ 48) (map (\<lambda>i. be_word32 data (4 * i)) [0..<16])"

fun sha_round :: "u32 \<Rightarrow> u32 \<Rightarrow> u32 list \<Rightarrow> u32 list" where
  "sha_round ki mi [a, b, c, d, e, f, g, h] =
     (let t1 = h + EP1 e + CH e f g + ki + mi; t2 = EP0 a + MAJ a b c
      in [t1 + t2, a, b, c, d + t1, e, f, g])"
| "sha_round ki mi s = s"

definition sha256_transform :: "u32 list \<Rightarrow> bytes \<Rightarrow> u32 list" where
  "sha256_transform state data =
     map2 (+) state (fold (\<lambda>(ki, mi). sha_round ki mi) (zip sha_k (message_schedule data)) state)"

section \<open>The streaming interface\<close>

record sha256_ctx =
  ctx_data :: bytes
  ctx_datalen :: nat
  ctx_bitlen :: u64
  ctx_state :: "u32 list"

definition sha_iv :: "u32 list" where
  "sha_iv = [0x6a09e667, 0xbb67ae85, 0x3c6ef372, 0xa54ff53a, 0x510e527f, 0x9b05688c, 0x1f83d9ab,
     0x5be0cd19]"

definition sha256_init :: "sha256_ctx \<Rightarrow> sha256_ctx" where
  "sha256_init ctx = ctx\<lparr>ctx_datalen := 0, ctx_bitlen := 0, ctx_state := sha_iv\<rparr>"

definition sha256_update_byte :: "u8 \<Rightarrow> sha256_ctx \<Rightarrow> sha256_ctx" where
  "sha256_update_byte b ctx =
     (let ctx = ctx\<lparr>ctx_data := (ctx_data ctx)[ctx_datalen ctx := b],
            ctx_datalen := ctx_datalen ctx + 1\<rparr>
      in if ctx_datalen ctx = 64
         then ctx\<lparr>ctx_state := sha256_transform (ctx_state ctx) (ctx_data ctx),
                  ctx_bitlen := ctx_bitlen ctx + 512, ctx_datalen := 0\<rparr>
         else ctx)"

definition sha256_update :: "bytes \<Rightarrow> sha256_ctx \<Rightarrow> sha256_ctx" where
  "sha256_update data ctx = fold sha256_update_byte data ctx"

definition be_bytes64 :: "u64 \<Rightarrow> bytes" where
  "be_bytes64 v = rev (le_bytes 8 v)"

definition digest_bytes :: "u32 list \<Rightarrow> bytes" where
  "digest_bytes state = concat (map (\<lambda>w. rev (le_bytes 4 w)) state)"

definition sha256_final :: "sha256_ctx \<Rightarrow> bytes" where
  "sha256_final ctx =
     (let n = ctx_datalen ctx;
          ctx = (if n < 56
            then ctx\<lparr>ctx_data := take n (ctx_data ctx) @ [0x80] @ replicate (55 - n) 0
                                   @ drop 56 (ctx_data ctx)\<rparr>
            else let full = take n (ctx_data ctx) @ [0x80] @ replicate (63 - n) 0 in
              ctx\<lparr>ctx_state := sha256_transform (ctx_state ctx) full,
                  ctx_data := replicate 56 0 @ drop 56 full\<rparr>);
          bitlen = ctx_bitlen ctx + of_nat (n * 8);
          data = take 56 (ctx_data ctx) @ be_bytes64 bitlen
      in digest_bytes (sha256_transform (ctx_state ctx) data))"

definition fresh_ctx :: sha256_ctx where
  "fresh_ctx = \<lparr>ctx_data = replicate 64 0, ctx_datalen = 0, ctx_bitlen = 0, ctx_state = []\<rparr>"

definition sha256 :: "bytes \<Rightarrow> bytes" where
  "sha256 m = sha256_final (sha256_update m (sha256_init fresh_ctx))"

section \<open>HMAC and comparison\<close>

definition hmac_key_block :: "bytes \<Rightarrow> bytes" where
  "hmac_key_block key = (let k = (if length key > 64 then sha256 key else key)
     in k @ replicate (64 - length k) 0)"

definition hmac_sha256 :: "bytes \<Rightarrow> bytes \<Rightarrow> bytes" where
  "hmac_sha256 key data =
     (let k = hmac_key_block key;
          ipad = map (\<lambda>b. b XOR 0x36) k; opad = map (\<lambda>b. b XOR 0x5c) k;
          inner_hash = sha256_final (sha256_update data (sha256_update ipad (sha256_init fresh_ctx)))
      in sha256_final (sha256_update inner_hash (sha256_update opad (sha256_init fresh_ctx))))"

definition constant_time_memcmp16 :: "bytes \<Rightarrow> bytes \<Rightarrow> bool" where
  "constant_time_memcmp16 a b =
     (fold (\<lambda>i result. result OR (a ! i XOR b ! i)) [0..<16] (0 :: u8) = 0)"

section \<open>Reference\<close>

text \<open>Compress a byte string block by block; what is left is shorter than a block.\<close>

function sha_blocks :: "u32 list \<Rightarrow> bytes \<Rightarrow> u32 list \<times> bytes" where
  "sha_blocks s m = (if length m < 64 then (s, m)
     else sha_blocks (sha256_transform s (take 64 m)) (drop 64 m))"
  by pat_completeness auto
termination
  by (relation "measure (\<lambda>(s, m). length m)") auto

declare sha_blocks.simps [simp del]

definition sha_pad :: "bytes \<Rightarrow> bytes" where
  "sha_pad m = (let r = length m mod 64; z = (if r < 56 then 55 - r else 119 - r)
     in m @ [0x80] @ replicate z 0 @ be_bytes64 (of_nat (8 * length m)))"

definition sha256_spec :: "bytes \<Rightarrow> bytes" where
  "sha256_spec m = digest_bytes (fst (sha_blocks sha_iv (sha_pad m)))"

section \<open>The streaming context represents the message so far\<close>

lemma sha_blocks_small: "length m < 64 \<Longrightarrow> sha_blocks s m = (s, m)"
  by (subst sha_blocks.simps) simp

lemma sha_blocks_block:
  "64 \<le> length m \<Longrightarrow> sha_blocks s m = sha_blocks (sha256_transform s (take 64 m)) (drop 64 m)"
  by (subst sha_blocks.simps) simp

lemma sha_blocks_full:
  "length b = 64 \<Longrightarrow> sha_blocks s (b @ t) = sha_blocks (sha256_transform s b) t"
  by (simp add: sha_blocks_block)

lemma sha_blocks_append:
  "sha_blocks s (m @ t) = sha_blocks (fst (sha_blocks s m)) (snd (sha_blocks s m) @ t)"
proof (induction s m rule: sha_blocks.induct)
  case (1 s m)
  show ?case
  proof (cases "length m < 64")
    case True
    then show ?thesis by (simp add: sha_blocks_small)
  next
    case False
    with 1 show ?thesis by (simp add: sha_blocks_block [of m] sha_blocks_block [of "m @ t"])
  qed
qed

lemma sha_blocks_rest:
  "length (snd (sha_blocks s m)) = length m mod 64 \<and> length (snd (sha_blocks s m)) < 64"
proof (induction s m rule: sha_blocks.induct)
  case (1 s m)
  show ?case
  proof (cases "length m < 64")
    case True
    then show ?thesis by (simp add: sha_blocks_small)
  next
    case False
    with 1 show ?thesis by (simp add: sha_blocks_block le_mod_geq)
  qed
qed

definition ctx_rep :: "sha256_ctx \<Rightarrow> bytes \<Rightarrow> bool" where
  "ctx_rep c m \<longleftrightarrow> length (ctx_data c) = 64 \<and> ctx_state c = fst (sha_blocks sha_iv m) \<and>
     ctx_datalen c = length m mod 64 \<and>
     take (ctx_datalen c) (ctx_data c) = snd (sha_blocks sha_iv m) \<and>
     ctx_bitlen c = of_nat (8 * (length m - length m mod 64))"

lemma ctx_rep_init: "length (ctx_data c) = 64 \<Longrightarrow> ctx_rep (sha256_init c) []"
  by (simp add: ctx_rep_def sha256_init_def sha_blocks_small)

lemma full_block_bits: "n = 63 \<Longrightarrow> n \<le> l \<Longrightarrow> 8 * (l - n) + 512 = 8 * Suc (l :: nat)"
  by simp

lemma ctx_rep_byte:
  assumes "ctx_rep c m"
  shows "ctx_rep (sha256_update_byte b c) (m @ [b])"
proof -
  let ?r = "snd (sha_blocks sha_iv m)"
  let ?n = "length m mod 64"
  let ?s = "fst (sha_blocks sha_iv m)"
  from assms have c: "length (ctx_data c) = 64" "ctx_state c = ?s" "ctx_datalen c = ?n"
    "take ?n (ctx_data c) = ?r" "ctx_bitlen c = of_nat (8 * (length m - ?n))"
    by (auto simp: ctx_rep_def)
  have n: "?n < 64" "length ?r = ?n" using sha_blocks_rest [of sha_iv m] by simp_all
  have app: "sha_blocks sha_iv (m @ [b]) = sha_blocks ?s (?r @ [b])" by (rule sha_blocks_append)
  have data: "take (Suc ?n) ((ctx_data c)[?n := b]) = ?r @ [b]"
    using c n by (simp add: take_Suc_conv_app_nth take_update_cancel)
  show ?thesis
  proof (cases "Suc ?n = 64")
    case True
    then have m64: "Suc (length m) mod 64 = 0" by (simp add: mod_Suc)
    have full: "(ctx_data c)[?n := b] = ?r @ [b]"
      using data True c(1) by (metis length_list_update take_all order_refl)
    have n63: "?n = 63" using True by simp
    have "sha_blocks ?s (?r @ [b]) = (sha256_transform ?s (?r @ [b]), [])"
      using n True by (simp add: sha_blocks_block sha_blocks_small)
    moreover have "(of_nat (8 * (length m - ?n)) :: u64) + 512 = of_nat (8 * Suc (length m))"
    proof -
      have "?n = 63" using True by simp
      moreover have "?n \<le> length m" by simp
      ultimately have "8 * (length m - ?n) + 512 = 8 * Suc (length m)"
        by (rule full_block_bits)
      then show ?thesis by (metis of_nat_add of_nat_numeral)
    qed
    ultimately show ?thesis
      using c n(2) True m64 full [unfolded n63]
      by (simp add: ctx_rep_def sha256_update_byte_def Let_def app)
  next
    case False
    then have m64: "Suc (length m) mod 64 = Suc ?n" by (simp add: mod_Suc)
    have "Suc ?n < 64" using False n by linarith
    then have "sha_blocks ?s (?r @ [b]) = (?s, ?r @ [b])" using n by (simp add: sha_blocks_small)
    then show ?thesis
      using c False data m64 by (simp add: ctx_rep_def sha256_update_byte_def Let_def app)
  qed
qed

lemma ctx_rep_update: "ctx_rep c m \<Longrightarrow> ctx_rep (sha256_update t c) (m @ t)"
proof (induction t arbitrary: c m)
  case Nil
  then show ?case by (simp add: sha256_update_def)
next
  case (Cons b t)
  have "ctx_rep (sha256_update t (sha256_update_byte b c)) ((m @ [b]) @ t)"
    by (rule Cons.IH) (rule ctx_rep_byte [OF Cons.prems])
  then show ?case by (simp add: sha256_update_def)
qed

lemma length_be_bytes64 [simp]: "length (be_bytes64 v) = 8"
  by (simp add: be_bytes64_def)

lemma ctx_rep_final:
  assumes "ctx_rep c m"
  shows "sha256_final c = sha256_spec m"
proof -
  let ?r = "snd (sha_blocks sha_iv m)"
  let ?n = "length m mod 64"
  let ?s = "fst (sha_blocks sha_iv m)"
  from assms have c: "length (ctx_data c) = 64" "ctx_state c = ?s" "ctx_datalen c = ?n"
    "take ?n (ctx_data c) = ?r" "ctx_bitlen c = of_nat (8 * (length m - ?n))"
    by (auto simp: ctx_rep_def)
  have n: "?n < 64" "length ?r = ?n" using sha_blocks_rest [of sha_iv m] by simp_all
  let ?len = "be_bytes64 (of_nat (8 * length m))"
  have bits: "ctx_bitlen c + of_nat (?n * 8) = of_nat (8 * length m)"
  proof -
    have "8 * (length m - ?n) + ?n * 8 = 8 * length m"
      by (simp add: diff_mult_distrib2)
    then show ?thesis unfolding c(5) by (metis of_nat_add)
  qed
  show ?thesis
  proof (cases "?n < 56")
    case True
    let ?p = "[0x80] @ replicate (55 - ?n) 0 @ ?len"
    have "sha_blocks sha_iv (sha_pad m) = sha_blocks ?s (?r @ ?p)"
      using True by (simp add: sha_pad_def Let_def sha_blocks_append [of sha_iv m])
    also have "\<dots> = (sha256_transform ?s (?r @ ?p), [])"
      using True n by (simp add: sha_blocks_block sha_blocks_small)
    moreover have "56 - ?n = Suc (55 - ?n)" using True by simp
    ultimately show ?thesis
      using True n c bits by (simp add: sha256_spec_def sha256_final_def Let_def)
  next
    case False
    let ?f = "?r @ [0x80] @ replicate (63 - ?n) 0"
    have z: "replicate (119 - ?n) (0 :: u8) = replicate (63 - ?n) 0 @ replicate 56 0"
      using n(1) by (subst replicate_add [symmetric]) (simp add: add.commute)
    have "sha_blocks sha_iv (sha_pad m) = sha_blocks ?s (?f @ replicate 56 0 @ ?len)"
      using False z by (simp add: sha_pad_def Let_def sha_blocks_append [of sha_iv m])
    also have "\<dots> = (sha256_transform (sha256_transform ?s ?f) (replicate 56 0 @ ?len), [])"
    proof -
      have "length ?f = 64" using False n by simp
      then have "sha_blocks ?s (?f @ replicate 56 0 @ ?len)
          = sha_blocks (sha256_transform ?s ?f) (replicate 56 0 @ ?len)"
        by (rule sha_blocks_full)
      also have "\<dots> = (sha256_transform (sha256_transform ?s ?f) (replicate 56 0 @ ?len), [])"
        using sha_blocks_full [of "replicate 56 0 @ ?len" _ "[]"] by (simp add: sha_blocks_small)
      finally show ?thesis .
    qed
    finally show ?thesis
      using False n c bits by (simp add: sha256_spec_def sha256_final_def Let_def)
  qed
qed

text \<open>
  C40: the streaming digest is SHA-256 of the whole message. Feeding any pieces one after the
  other into an initialised context and finishing gives the digest of their concatenation under
  the reference definition, whatever the uninitialised buffer held.
\<close>

theorem streaming_digest_correct:
  assumes "length (ctx_data c) = 64"
  shows "sha256_final (fold sha256_update pieces (sha256_init c)) = sha256_spec (concat pieces)"
proof -
  have "ctx_rep c' m \<Longrightarrow> ctx_rep (fold sha256_update pieces c') (m @ concat pieces)" for c' m
  proof (induction pieces arbitrary: c' m)
    case (Cons p ps)
    from Cons.IH [OF ctx_rep_update [OF Cons.prems]] show ?case by simp
  qed simp
  from this [OF ctx_rep_init [OF assms]] show ?thesis by (simp add: ctx_rep_final)
qed

lemma streaming_digest_witness:
  "length (ctx_data fresh_ctx) = 64 \<and>
   sha256_final (fold sha256_update [[0x61], [0x62, 0x63]] (sha256_init fresh_ctx))
     = sha256_spec [0x61, 0x62, 0x63]"
proof -
  have l: "length (ctx_data fresh_ctx) = 64" by (simp add: fresh_ctx_def)
  from l streaming_digest_correct [OF l, of "[[0x61], [0x62, 0x63]]"] show ?thesis by simp
qed

lemma sha256_eq_spec: "sha256 m = sha256_spec m"
  using ctx_rep_final [OF ctx_rep_update [OF ctx_rep_init [of fresh_ctx]]]
  by (simp add: sha256_def fresh_ctx_def)

lemma length_sha_round: "length s = 8 \<Longrightarrow> length (sha_round ki mi s) = 8"
  by (cases "(ki, mi, s)" rule: sha_round.cases) (simp_all add: Let_def)

lemma length_sha_rounds: "length s = 8 \<Longrightarrow> length (fold (\<lambda>(ki, mi). sha_round ki mi) ps s) = 8"
  by (induction ps arbitrary: s) (auto simp: length_sha_round)

lemma length_transform: "length s = 8 \<Longrightarrow> length (sha256_transform s d) = 8"
  by (simp add: sha256_transform_def length_sha_rounds)

lemma length_sha_blocks: "length s = 8 \<Longrightarrow> length (fst (sha_blocks s m)) = 8"
proof (induction s m rule: sha_blocks.induct)
  case (1 s m)
  then show ?case
    by (cases "length m < 64") (simp_all add: sha_blocks_small sha_blocks_block length_transform)
qed

lemma length_digest_bytes: "length (digest_bytes s) = 4 * length s"
  by (induction s) (simp_all add: digest_bytes_def)

lemma length_sha256_spec [simp]: "length (sha256_spec m) = 32"
  by (simp add: sha256_spec_def length_digest_bytes length_sha_blocks sha_iv_def)

text \<open>
  The code's HMAC is the RFC 2104 construction over SHA-256: the outer hash of the key
  block under opad followed by the inner hash of the key block under ipad followed by the
  data, and its tag has 32 bytes.
\<close>

theorem hmac_is_rfc2104:
  "hmac_sha256 key data =
     sha256_spec (map (\<lambda>b. b XOR 0x5c) (hmac_key_block key)
       @ sha256_spec (map (\<lambda>b. b XOR 0x36) (hmac_key_block key) @ data)) \<and>
   length (hmac_sha256 key data) = 32 \<and> length (hmac_key_block key) = 64"
proof -
  have two: "sha256_final (sha256_update b (sha256_update a (sha256_init fresh_ctx)))
      = sha256_spec (a @ b)" for a b
    using ctx_rep_final [OF ctx_rep_update [OF ctx_rep_update [OF ctx_rep_init [of fresh_ctx]]]]
    by (simp add: fresh_ctx_def)
  have "length (hmac_key_block key) = 64"
    by (simp add: hmac_key_block_def Let_def sha256_eq_spec)
  then show ?thesis by (simp add: hmac_sha256_def Let_def two)
qed

lemma length_hmac [simp, wire_len]: "length (hmac_sha256 key data) = 32"
proof -
  have "hmac_sha256 key data = sha256_final (sha256_update
      (sha256_final (sha256_update data (sha256_update (map (\<lambda>b. b XOR 0x36) (hmac_key_block key))
        (sha256_init fresh_ctx))))
      (sha256_update (map (\<lambda>b. b XOR 0x5c) (hmac_key_block key)) (sha256_init fresh_ctx)))"
    by (simp add: hmac_sha256_def Let_def)
  then show ?thesis
    using ctx_rep_final [OF ctx_rep_update [OF ctx_rep_update [OF ctx_rep_init [of fresh_ctx]]]]
    by (simp add: fresh_ctx_def)
qed

section \<open>Comparison\<close>

lemma or_zero_iff: "(a :: 'a::len word) OR b = 0 \<longleftrightarrow> a = 0 \<and> b = 0"
  by (auto simp: bit_eq_iff bit_simps)

lemma xor_zero_iff: "(a :: 'a::len word) XOR b = 0 \<longleftrightarrow> a = b"
  by (auto simp: bit_eq_iff bit_simps)

lemma fold_or_zero: "fold (\<lambda>i r. r OR f i) xs (r :: u8) = 0 \<longleftrightarrow> r = 0 \<and> (\<forall>i \<in> set xs. f i = 0)"
  by (induction xs arbitrary: r) (auto simp: or_zero_iff)

lemma memcmp16_iff:
  "length a = 16 \<Longrightarrow> length b = 16 \<Longrightarrow> constant_time_memcmp16 a b \<longleftrightarrow> a = b"
  by (auto simp: constant_time_memcmp16_def fold_or_zero xor_zero_iff intro: nth_equalityI)

end
