(* ===== verification/Envelope_Frame.thy ===== *)
theory Envelope_Frame
  imports Runtime_Types Sha256
begin

unbundle bit_operations_syntax

text \<open>
  The frame layer of \<open>LiNeP/src/v0_2/envelopes.cpp\<close>: the 32-byte header, the 24-byte SL1
  authentication extension, the SL1 tag over header, extension prefix, bound identity and
  lease, direction and payload, and the signing and verification of whole frames. A buffer is
  the list of its bytes (a null pointer is refused like an empty buffer); a key of length 0
  stands for a null or empty key. An out-parameter a function only fills on success is its
  result; one that keeps fields the function does not write is an argument.
\<close>

section \<open>Constants and records\<close>

abbreviation (input) LINEP_V02_MAGIC :: u32 where "LINEP_V02_MAGIC \<equiv> 0x504E4C32"
abbreviation (input) LINEP_V02_VERSION_MAJOR :: u8 where "LINEP_V02_VERSION_MAJOR \<equiv> 0"
abbreviation (input) LINEP_V02_VERSION_MINOR :: u8 where "LINEP_V02_VERSION_MINOR \<equiv> 2"
abbreviation (input) LINEP_V02_HEADER_SIZE :: nat where "LINEP_V02_HEADER_SIZE \<equiv> 32"
abbreviation (input) LINEP_V02_AUTH_EXTENSION_SIZE :: nat where
  "LINEP_V02_AUTH_EXTENSION_SIZE \<equiv> 24"
abbreviation (input) LINEP_V02_SESSION_BIND_PAYLOAD_SIZE :: u32 where
  "LINEP_V02_SESSION_BIND_PAYLOAD_SIZE \<equiv> 36"
abbreviation (input) LINEP_V02_MAX_PAYLOAD_BYTES :: u32 where
  "LINEP_V02_MAX_PAYLOAD_BYTES \<equiv> 16777216"
abbreviation (input) LINEP_V02_FLAG_AUTHENTICATED :: u8 where
  "LINEP_V02_FLAG_AUTHENTICATED \<equiv> 1"

type_synonym runtime_envelope_type = u8
abbreviation (input) et_unknown :: runtime_envelope_type where "et_unknown \<equiv> 0"
abbreviation (input) et_request :: runtime_envelope_type where "et_request \<equiv> 1"
abbreviation (input) et_event :: runtime_envelope_type where "et_event \<equiv> 2"
abbreviation (input) et_control :: runtime_envelope_type where "et_control \<equiv> 3"
abbreviation (input) et_capabilities :: runtime_envelope_type where "et_capabilities \<equiv> 4"
abbreviation (input) et_session_bind :: runtime_envelope_type where "et_session_bind \<equiv> 5"
abbreviation (input) et_runtime_register :: runtime_envelope_type where "et_runtime_register \<equiv> 6"
abbreviation (input) et_sl2_handshake :: runtime_envelope_type where "et_sl2_handshake \<equiv> 7"

datatype message_direction = Initiator_To_Responder | Responder_To_Initiator

fun direction_code :: "message_direction \<Rightarrow> u8" where
  "direction_code Initiator_To_Responder = 1"
| "direction_code Responder_To_Initiator = 2"

lemma direction_code_inj: "direction_code a = direction_code b \<longleftrightarrow> a = b"
  by (cases a; cases b) simp_all

record wire_envelope_header =
  hdr_magic :: u32
  hdr_version_major :: u8
  hdr_version_minor :: u8
  hdr_envelope_type :: u8
  hdr_flags :: u8
  hdr_request_id :: u64
  hdr_execution_id :: u64
  hdr_output_id :: u32
  hdr_payload_len :: u32

record wire_auth_extension =
  auth_seq :: u32
  auth_key_id :: u16
  auth_reserved :: u16
  auth_mac :: bytes

definition no_auth_extension :: wire_auth_extension where
  "no_auth_extension = \<lparr>auth_seq = 0, auth_key_id = 0, auth_reserved = 0, auth_mac = replicate 16 0\<rparr>"

record session_bind_envelope =
  bind_identity :: node_endpoint_identity
  bind_control_epoch :: u64
  bind_lease_token :: u64
  bind_sl1_requested :: bool
  bind_key_id :: u16
  bind_auth_ext :: wire_auth_extension

definition new_session_bind :: session_bind_envelope where
  "new_session_bind = \<lparr>bind_identity = no_endpoint, bind_control_epoch = 0, bind_lease_token = 0,
     bind_sl1_requested = False, bind_key_id = 1, bind_auth_ext = no_auth_extension\<rparr>"

definition session_bind_is_valid :: "session_bind_envelope \<Rightarrow> bool" where
  [guard_defs]: "session_bind_is_valid b \<longleftrightarrow>
     node_id (bind_identity b) \<noteq> 0 \<and> runtime_id (bind_identity b) \<noteq> 0 \<and> bind_lease_token b \<noteq> 0"

section \<open>Header and extension codecs\<close>

definition encode_header :: "wire_envelope_header \<Rightarrow> bytes" where
  "encode_header hdr =
     write_u32 (hdr_magic hdr) @ write_u8 (hdr_version_major hdr) @
     write_u8 (hdr_version_minor hdr) @ write_u8 (hdr_envelope_type hdr) @
     write_u8 (hdr_flags hdr) @ write_u64 (hdr_request_id hdr) @
     write_u64 (hdr_execution_id hdr) @ write_u32 (hdr_output_id hdr) @
     write_u32 (hdr_payload_len hdr)"

definition decode_header :: "bytes \<Rightarrow> wire_envelope_header option" where
  "decode_header data =
     (if length data < LINEP_V02_HEADER_SIZE then None
      else do {
        let r = take LINEP_V02_HEADER_SIZE data;
        (magic, r) \<leftarrow> read_u32 r;
        (major, r) \<leftarrow> read_u8 r;
        (minor, r) \<leftarrow> read_u8 r;
        (ty, r) \<leftarrow> read_u8 r;
        (flags, r) \<leftarrow> read_u8 r;
        (rid, r) \<leftarrow> read_u64 r;
        (eid, r) \<leftarrow> read_u64 r;
        (oid, r) \<leftarrow> read_u32 r;
        (len, r) \<leftarrow> read_u32 r;
        Some \<lparr>hdr_magic = magic, hdr_version_major = major, hdr_version_minor = minor,
              hdr_envelope_type = ty, hdr_flags = flags, hdr_request_id = rid,
              hdr_execution_id = eid, hdr_output_id = oid, hdr_payload_len = len\<rparr> })"

definition encode_auth_extension :: "wire_auth_extension \<Rightarrow> bytes" where
  "encode_auth_extension ext =
     write_u32 (auth_seq ext) @ write_u16 (auth_key_id ext) @ write_u16 (auth_reserved ext) @
     auth_mac ext"

definition decode_auth_extension :: "bytes \<Rightarrow> wire_auth_extension option" where
  "decode_auth_extension data =
     (if length data < LINEP_V02_AUTH_EXTENSION_SIZE then None
      else do {
        let r = take LINEP_V02_AUTH_EXTENSION_SIZE data;
        (seq, r) \<leftarrow> read_u32 r;
        (kid, r) \<leftarrow> read_u16 r;
        (res, r) \<leftarrow> read_u16 r;
        if res \<noteq> 0 then None
        else Some \<lparr>auth_seq = seq, auth_key_id = kid, auth_reserved = res,
                   auth_mac = take 16 (drop 8 data)\<rparr> })"

text \<open>The extension's tag is a 16-byte array.\<close>

definition auth_wf :: "wire_auth_extension \<Rightarrow> bool" where
  "auth_wf ext \<longleftrightarrow> length (auth_mac ext) = 16 \<and> auth_reserved ext = 0"

lemma length_encode_header [simp, wire_len]: "length (encode_header h) = 32"
  by (simp add: encode_header_def)

lemma length_encode_auth: "length (encode_auth_extension e) = 8 + length (auth_mac e)"
  by (simp add: encode_auth_extension_def)

lemma decode_header_encode [simp, wire_rt]: "decode_header (encode_header h @ r) = Some h"
proof -
  have "take 32 (encode_header h @ r) = encode_header h @ []" by simp
  then show ?thesis
    unfolding decode_header_def Let_def by (simp add: encode_header_def)
qed

lemma decode_header_encode_nil [simp]: "decode_header (encode_header h) = Some h"
  using decode_header_encode [of h "[]"] by simp

lemma decode_header_exact:
  assumes "decode_header data = Some h"
  shows "data = encode_header h @ drop 32 data"
proof -
  have l: "32 \<le> length data" using assms by (auto simp: decode_header_def split: if_splits)
  have "\<exists>r. take 32 data = encode_header h @ r"
    using assms l unfolding decode_header_def Let_def
    by (auto simp: bind_eq_Some_conv encode_header_def dest!: u8.enc_dec u32.enc_dec u64.enc_dec)
  then obtain r where r: "take 32 data = encode_header h @ r" by blast
  then have "length (take 32 data) = 32 + length r" by simp
  with l have "r = []" by simp
  with r show ?thesis by (metis append_Nil2 append_take_drop_id)
qed

lemma decode_header_iff: "decode_header data = Some h \<longleftrightarrow> (\<exists>r. data = encode_header h @ r)"
  using decode_header_exact by auto

lemma decode_auth_encode [simp, wire_rt]:
  "auth_wf e \<Longrightarrow> decode_auth_extension (encode_auth_extension e @ r) = Some e"
proof -
  assume wf: "auth_wf e"
  then have t: "take 24 (encode_auth_extension e @ r) = encode_auth_extension e"
    by (simp add: length_encode_auth auth_wf_def)
  have d: "drop 8 (encode_auth_extension e @ r) = auth_mac e @ r"
    by (simp add: encode_auth_extension_def)
  show ?thesis
    using wf unfolding decode_auth_extension_def Let_def t d
    by (simp add: encode_auth_extension_def auth_wf_def)
qed

lemma decode_auth_exact:
  assumes "decode_auth_extension data = Some e"
  shows "auth_wf e \<and> data = encode_auth_extension e @ drop 24 data"
proof -
  have l: "24 \<le> length data" using assms by (auto simp: decode_auth_extension_def split: if_splits)
  let ?h = "write_u32 (auth_seq e) @ write_u16 (auth_key_id e) @ write_u16 (auth_reserved e)"
  have e: "auth_mac e = take 16 (drop 8 data)" "auth_reserved e = 0"
    and "\<exists>r. take 24 data = ?h @ r"
    using assms l unfolding decode_auth_extension_def Let_def
    by (auto simp: bind_eq_Some_conv split: if_splits dest!: u16.enc_dec u32.enc_dec)
  then obtain r where r: "take 24 data = ?h @ r" by blast
  from r have "take 8 (take 24 data) = ?h" by simp
  then have h: "take 8 data = ?h" by (simp add: min_def)
  have "take 24 data = take 8 data @ take 16 (drop 8 data)"
    using take_add [of 8 16 data] by simp
  then have "data = take 8 data @ take 16 (drop 8 data) @ drop 24 data"
    using append_take_drop_id [of 24 data] by simp
  moreover have "length (auth_mac e) = 16" using l e by simp
  ultimately show ?thesis using h e by (simp add: auth_wf_def encode_auth_extension_def)
qed

section \<open>SL1 tags\<close>

definition sl1_mac_input :: "wire_envelope_header \<Rightarrow> wire_auth_extension \<Rightarrow> session_bind_envelope
    \<Rightarrow> message_direction \<Rightarrow> bytes \<Rightarrow> bytes" where
  "sl1_mac_input header ext binding dir payload =
     encode_header header @
     write_u32 (auth_seq ext) @ write_u16 (auth_key_id ext) @ write_u16 (auth_reserved ext) @
     write_u64 (node_id (bind_identity binding)) @ write_u64 (runtime_id (bind_identity binding)) @
     write_u32 (endpoint_id (bind_identity binding)) @
     write_u64 (bind_control_epoch binding) @ write_u64 (bind_lease_token binding) @
     write_u8 (direction_code dir) @ write_u8 0 @ write_u8 0 @ write_u8 0 @
     payload"

definition compute_sl1_mac :: "bytes \<Rightarrow> wire_envelope_header \<Rightarrow> wire_auth_extension
    \<Rightarrow> session_bind_envelope \<Rightarrow> message_direction \<Rightarrow> bytes \<Rightarrow> bytes" where
  "compute_sl1_mac key header ext binding dir payload =
     (if key = [] then replicate 16 0
      else take 16 (hmac_sha256 key (sl1_mac_input header ext binding dir payload)))"

definition verify_sl1_mac :: "bytes \<Rightarrow> wire_envelope_header \<Rightarrow> wire_auth_extension
    \<Rightarrow> session_bind_envelope \<Rightarrow> message_direction \<Rightarrow> bytes \<Rightarrow> bool" where
  "verify_sl1_mac key header ext binding dir payload =
     constant_time_memcmp16 (auth_mac ext) (compute_sl1_mac key header ext binding dir payload)"

definition sign_envelope_buffer :: "bytes \<Rightarrow> session_bind_envelope \<Rightarrow> message_direction
    \<Rightarrow> u32 \<Rightarrow> u16 \<Rightarrow> bytes \<Rightarrow> bytes option" where
  "sign_envelope_buffer buf binding dir seq kid key =
     (if length buf < LINEP_V02_HEADER_SIZE \<or> key = [] \<or> seq = 0 then None
      else case decode_header (take LINEP_V02_HEADER_SIZE buf) of None \<Rightarrow> None
      | Some hdr \<Rightarrow>
          if length buf \<noteq> LINEP_V02_HEADER_SIZE + unat (hdr_payload_len hdr) then None
          else let hdr = hdr\<lparr>hdr_flags := hdr_flags hdr OR LINEP_V02_FLAG_AUTHENTICATED\<rparr>;
                   ext = no_auth_extension\<lparr>auth_seq := seq, auth_key_id := kid, auth_reserved := 0\<rparr>;
                   payload = drop LINEP_V02_HEADER_SIZE buf;
                   ext = ext\<lparr>auth_mac := compute_sl1_mac key hdr ext binding dir payload\<rparr>
               in Some (encode_header hdr @ encode_auth_extension ext @ payload))"

text \<open>Verification returns the extension it read, or the message the code reports.\<close>

definition verify_envelope_buffer :: "bytes \<Rightarrow> session_bind_envelope \<Rightarrow> message_direction
    \<Rightarrow> bytes \<Rightarrow> string + wire_auth_extension" where
  "verify_envelope_buffer data binding dir key =
     (if length data < LINEP_V02_HEADER_SIZE + LINEP_V02_AUTH_EXTENSION_SIZE
      then Inl ''buffer too small for authenticated envelope''
      else case decode_header (take LINEP_V02_HEADER_SIZE data) of
        None \<Rightarrow> Inl ''header decode failed''
      | Some hdr \<Rightarrow>
          if hdr_flags hdr AND LINEP_V02_FLAG_AUTHENTICATED = 0
          then Inl ''auth_required: missing authentication flag''
          else if length data \<noteq> LINEP_V02_HEADER_SIZE + LINEP_V02_AUTH_EXTENSION_SIZE
                                 + unat (hdr_payload_len hdr)
          then Inl ''envelope size mismatch''
          else case decode_auth_extension (take LINEP_V02_AUTH_EXTENSION_SIZE
                      (drop LINEP_V02_HEADER_SIZE data)) of
            None \<Rightarrow> Inl ''auth extension decode failed''
          | Some ext \<Rightarrow>
              let payload = drop (LINEP_V02_HEADER_SIZE + LINEP_V02_AUTH_EXTENSION_SIZE) data in
              if \<not> verify_sl1_mac key hdr ext binding dir payload
              then Inl ''auth_invalid: MAC verification failed''
              else Inr ext)"

definition peek_envelope_type :: "bytes \<Rightarrow> runtime_envelope_type" where
  "peek_envelope_type data =
     (case decode_header data of None \<Rightarrow> et_unknown
      | Some hdr \<Rightarrow>
          if hdr_magic hdr \<noteq> LINEP_V02_MAGIC \<or> hdr_version_major hdr \<noteq> LINEP_V02_VERSION_MAJOR
          then et_unknown
          else if hdr_envelope_type hdr < 1 \<or> 7 < hdr_envelope_type hdr then et_unknown
          else hdr_envelope_type hdr)"

lemma length_compute_sl1_mac [simp, wire_len]: "length (compute_sl1_mac k h e b d p) = 16"
  by (simp add: compute_sl1_mac_def)

lemma compute_sl1_mac_ignores_tag [simp]:
  "compute_sl1_mac k h (e\<lparr>auth_mac := m\<rparr>) b d p = compute_sl1_mac k h e b d p"
  by (simp add: compute_sl1_mac_def sl1_mac_input_def)

lemma verify_sl1_mac_iff:
  "length (auth_mac e) = 16 \<Longrightarrow>
     verify_sl1_mac k h e b d p \<longleftrightarrow> auth_mac e = compute_sl1_mac k h e b d p"
  by (simp add: verify_sl1_mac_def memcmp16_iff)

lemma auth_flag_set: "((f :: u8) OR 1) AND 1 = 1"
  by (rule bit_word_eqI) (auto simp: bit_simps simp del: bit_numeral_word_iff)

lemma verify_accepts_iff:
  "verify_envelope_buffer data binding dir key = Inr ext \<longleftrightarrow>
     (\<exists>hdr payload. data = encode_header hdr @ encode_auth_extension ext @ payload \<and>
        hdr_flags hdr AND 1 \<noteq> 0 \<and> unat (hdr_payload_len hdr) = length payload \<and> auth_wf ext \<and>
        auth_mac ext = compute_sl1_mac key hdr ext binding dir payload)"
  (is "?acc \<longleftrightarrow> ?shape")
proof
  assume acc: ?acc
  then have l: "56 \<le> length data" by (auto simp: verify_envelope_buffer_def split: if_splits)
  from acc l obtain hdr where h: "decode_header (take 32 data) = Some hdr"
    by (auto simp: verify_envelope_buffer_def split: option.splits if_splits)
  from acc l h obtain ext' where e: "decode_auth_extension (take 24 (drop 32 data)) = Some ext'"
    and r: "hdr_flags hdr AND 1 \<noteq> 0" "length data = 56 + unat (hdr_payload_len hdr)"
      "verify_sl1_mac key hdr ext' binding dir (drop 56 data)" "ext' = ext"
    by (auto simp: verify_envelope_buffer_def Let_def split: option.splits if_splits)
  from decode_header_exact [OF h] have hd: "take 32 data = encode_header hdr" by simp
  from decode_auth_exact [OF e] have ed: "take 24 (drop 32 data) = encode_auth_extension ext" "auth_wf ext"
    using r(4) by simp_all
  have "take 24 (drop 32 data) @ drop 56 data = drop 32 data"
    using append_take_drop_id [of 24 "drop 32 data"] by simp
  then have "take 32 data @ take 24 (drop 32 data) @ drop 56 data = data" by simp
  then have "data = encode_header hdr @ encode_auth_extension ext @ drop 56 data"
    unfolding hd ed(1) by (rule sym)
  moreover have "auth_mac ext = compute_sl1_mac key hdr ext binding dir (drop 56 data)"
    using r(3,4) ed(2) verify_sl1_mac_iff by (simp add: auth_wf_def)
  ultimately show ?shape using r ed(2) by (intro exI [of _ hdr] exI [of _ "drop 56 data"]) simp
next
  assume ?shape
  then obtain hdr payload where d: "data = encode_header hdr @ encode_auth_extension ext @ payload"
    and r: "hdr_flags hdr AND 1 \<noteq> 0" "unat (hdr_payload_len hdr) = length payload" "auth_wf ext"
      "auth_mac ext = compute_sl1_mac key hdr ext binding dir payload" by blast
  have le: "length (encode_auth_extension ext) = 24"
    using r(3) by (simp add: length_encode_auth auth_wf_def)
  have "decode_auth_extension (encode_auth_extension ext) = Some ext"
    using decode_auth_encode [OF r(3), of "[]"] by simp
  moreover have "verify_sl1_mac key hdr ext binding dir payload"
    using r(3,4) verify_sl1_mac_iff by (simp add: auth_wf_def)
  ultimately show ?acc using r le by (simp add: verify_envelope_buffer_def d Let_def)
qed

text \<open>
  What verification accepts. A buffer is accepted exactly when it is a header with the
  authentication flag, a well-formed extension and a payload of the announced length, and the
  tag is the one of that very header, extension, binding, direction and payload; the extension
  is what the buffer carries.
\<close>

theorem verified_frame_exact:
  "verify_envelope_buffer data binding dir key = Inr ext \<longleftrightarrow>
     (\<exists>hdr payload. data = encode_header hdr @ encode_auth_extension ext @ payload \<and>
        hdr_flags hdr AND 1 \<noteq> 0 \<and> unat (hdr_payload_len hdr) = length payload \<and> auth_wf ext \<and>
        auth_mac ext = compute_sl1_mac key hdr ext binding dir payload)"
  by (rule verify_accepts_iff)

lemma sign_then_verify:
  assumes "sign_envelope_buffer buf binding dir seq kid key = Some out"
  shows "\<exists>hdr ext. decode_header buf = Some hdr \<and>
     out = encode_header (hdr\<lparr>hdr_flags := hdr_flags hdr OR 1\<rparr>) @ encode_auth_extension ext
             @ drop 32 buf \<and>
     length buf = 32 + unat (hdr_payload_len hdr) \<and>
     verify_envelope_buffer out binding dir key = Inr ext \<and>
     auth_seq ext = seq \<and> seq \<noteq> 0 \<and> auth_key_id ext = kid"
proof -
  from assms obtain hdr where g: "32 \<le> length buf" "seq \<noteq> 0"
    and h: "decode_header (take 32 buf) = Some hdr" "length buf = 32 + unat (hdr_payload_len hdr)"
    by (auto simp: sign_envelope_buffer_def split: option.splits if_splits)
  let ?hdr = "hdr\<lparr>hdr_flags := hdr_flags hdr OR 1\<rparr>"
  let ?e = "no_auth_extension\<lparr>auth_seq := seq, auth_key_id := kid, auth_reserved := 0\<rparr>"
  let ?ext = "?e\<lparr>auth_mac := compute_sl1_mac key ?hdr ?e binding dir (drop 32 buf)\<rparr>"
  have out: "out = encode_header ?hdr @ encode_auth_extension ?ext @ drop 32 buf"
    using assms h by (auto simp: sign_envelope_buffer_def Let_def split: if_splits)
  have "verify_envelope_buffer out binding dir key = Inr ?ext"
    unfolding verify_accepts_iff
    by (rule exI [of _ ?hdr], rule exI [of _ "drop 32 buf"])
      (simp only: out compute_sl1_mac_ignores_tag, simp add: auth_flag_set auth_wf_def h)
  moreover have "decode_header buf = Some hdr"
    using h(1) by (simp add: decode_header_def split: if_splits)
  ultimately show ?thesis using out g h by (intro exI [of _ hdr] exI [of _ ?ext]) simp
qed

text \<open>
  Signing and verification agree. A signed buffer had exactly the announced length and a
  sequence number other than 0; it keeps the header (with the authentication
  flag added) and the payload, and verifies under the same binding, direction and key, giving
  the sequence number and key id it was signed with.
\<close>

theorem signed_buffer_verifies:
  assumes "sign_envelope_buffer buf binding dir seq kid key = Some out"
  shows "\<exists>hdr ext. decode_header buf = Some hdr \<and>
     out = encode_header (hdr\<lparr>hdr_flags := hdr_flags hdr OR 1\<rparr>) @ encode_auth_extension ext
             @ drop 32 buf \<and>
     length buf = 32 + unat (hdr_payload_len hdr) \<and>
     verify_envelope_buffer out binding dir key = Inr ext \<and>
     auth_seq ext = seq \<and> seq \<noteq> 0 \<and> auth_key_id ext = kid"
  using assms by (rule sign_then_verify)

section \<open>What a tag binds\<close>

interpretation header: exact_codec encode_header
  "\<lambda>b. map_option (\<lambda>h. (h, drop 32 b)) (decode_header b)" "\<lambda>_. True"
proof
  show "map_option (\<lambda>h. (h, drop 32 (encode_header v @ r))) (decode_header (encode_header v @ r))
      = Some (v, r)" for v r by simp
  show "map_option (\<lambda>h. (h, drop 32 b)) (decode_header b) = Some (v, r) \<Longrightarrow>
      True \<and> b = encode_header v @ r" for b v r
    using decode_header_exact by auto
qed

interpretation auth: exact_codec encode_auth_extension
  "\<lambda>b. map_option (\<lambda>e. (e, drop 24 b)) (decode_auth_extension b)" auth_wf
proof
  show "map_option (\<lambda>e. (e, drop 24 (encode_auth_extension v @ r)))
      (decode_auth_extension (encode_auth_extension v @ r)) = Some (v, r)" if "auth_wf v" for v r
    using that by (simp add: length_encode_auth auth_wf_def)
  show "map_option (\<lambda>e. (e, drop 24 b)) (decode_auth_extension b) = Some (v, r) \<Longrightarrow>
      auth_wf v \<and> b = encode_auth_extension v @ r" for b v r
    using decode_auth_exact by auto
qed

text \<open>A context is everything the tag covers.\<close>

definition same_lease :: "session_bind_envelope \<Rightarrow> session_bind_envelope \<Rightarrow> bool" where
  "same_lease a b \<longleftrightarrow> bind_identity a = bind_identity b \<and>
     bind_control_epoch a = bind_control_epoch b \<and> bind_lease_token a = bind_lease_token b"

lemma sl1_mac_input_inj:
  assumes "sl1_mac_input h e b d p = sl1_mac_input h' e' b' d' p'"
  shows "h = h' \<and> auth_seq e = auth_seq e' \<and> auth_key_id e = auth_key_id e' \<and>
    auth_reserved e = auth_reserved e' \<and> same_lease b b' \<and> d = d' \<and> p = p'"
proof -
  note pf = u8.enc_prefix_free [OF TrueI TrueI] u16.enc_prefix_free [OF TrueI TrueI]
    u32.enc_prefix_free [OF TrueI TrueI] u64.enc_prefix_free [OF TrueI TrueI]
  from assms header.enc_prefix_free [OF TrueI TrueI] have "h = h'"
    unfolding sl1_mac_input_def by blast
  with assms show ?thesis
    unfolding sl1_mac_input_def same_lease_def
    by (auto dest!: pf simp: direction_code_inj intro: node_endpoint_identity.equality)
qed

definition frame_mac_input ::
  "bytes \<Rightarrow> session_bind_envelope \<Rightarrow> message_direction \<Rightarrow> bytes" where
  "frame_mac_input data binding dir =
     (case (decode_header data, decode_auth_extension (drop 32 data)) of
        (Some h, Some e) \<Rightarrow> sl1_mac_input h e binding dir (drop 56 data)
      | _ \<Rightarrow> [])"

lemma frame_mac_input_frame:
  "auth_wf e \<Longrightarrow> frame_mac_input (encode_header h @ encode_auth_extension e @ p) b d
     = sl1_mac_input h e b d p"
  by (simp add: frame_mac_input_def length_encode_auth auth_wf_def)

text \<open>
  An accepted tag binds the frame to its session. Two frames accepted under one key with
  the same tag are the same bytes, received in the same direction on sessions bound to the same
  identity, epoch and lease token; otherwise their two MAC inputs are a collision of the
  truncated HMAC. So a frame replayed on another session, in the other direction, with another
  sequence number or with a changed header or payload is refused, short of a forgery.
\<close>

theorem accepted_tag_binds_session:
  assumes "key \<noteq> []"
    and "verify_envelope_buffer data b d key = Inr ext"
    and "verify_envelope_buffer data' b' d' key = Inr ext'"
    and "auth_mac ext = auth_mac ext'"
  shows "(data = data' \<and> same_lease b b' \<and> d = d') \<or>
    (frame_mac_input data b d \<noteq> frame_mac_input data' b' d' \<and>
     take 16 (hmac_sha256 key (frame_mac_input data b d))
       = take 16 (hmac_sha256 key (frame_mac_input data' b' d')))"
proof -
  from assms(2) obtain h p where 1: "data = encode_header h @ encode_auth_extension ext @ p"
    "auth_wf ext" "auth_mac ext = compute_sl1_mac key h ext b d p"
    unfolding verify_accepts_iff by blast
  from assms(3) obtain h' p' where 2: "data' = encode_header h' @ encode_auth_extension ext' @ p'"
    "auth_wf ext'" "auth_mac ext' = compute_sl1_mac key h' ext' b' d' p'"
    unfolding verify_accepts_iff by blast
  have i: "frame_mac_input data b d = sl1_mac_input h ext b d p"
    "frame_mac_input data' b' d' = sl1_mac_input h' ext' b' d' p'"
    using 1 2 by (simp_all add: frame_mac_input_frame)
  show ?thesis
  proof (cases "sl1_mac_input h ext b d p = sl1_mac_input h' ext' b' d' p'")
    case True
    from sl1_mac_input_inj [OF this] assms(4) have "h = h' \<and> ext = ext' \<and> same_lease b b' \<and> d = d' \<and> p = p'"
      by (cases ext; cases ext') simp
    with 1 2 show ?thesis by simp
  next
    case False
    with i 1(3) 2(3) assms(1,4) show ?thesis by (simp add: compute_sl1_mac_def)
  qed
qed

section \<open>SESSION_BIND\<close>

definition session_bind_payload :: "session_bind_envelope \<Rightarrow> bytes" where
  "session_bind_payload b =
     write_u64 (node_id (bind_identity b)) @ write_u64 (runtime_id (bind_identity b)) @
     write_u32 (endpoint_id (bind_identity b)) @ write_u64 (bind_control_epoch b) @
     write_u64 (bind_lease_token b)"

definition session_bind_header :: "session_bind_envelope \<Rightarrow> wire_envelope_header" where
  "session_bind_header b =
     \<lparr>hdr_magic = LINEP_V02_MAGIC, hdr_version_major = LINEP_V02_VERSION_MAJOR,
      hdr_version_minor = LINEP_V02_VERSION_MINOR, hdr_envelope_type = et_session_bind,
      hdr_flags = (if bind_sl1_requested b then LINEP_V02_FLAG_AUTHENTICATED else 0),
      hdr_request_id = 0, hdr_execution_id = 0, hdr_output_id = 0,
      hdr_payload_len = of_nat (length (session_bind_payload b))\<rparr>"

definition encode_session_bind :: "session_bind_envelope \<Rightarrow> bytes option" where
  "encode_session_bind b =
     (if \<not> session_bind_is_valid b then None
      else if bind_sl1_requested b
      then Some (encode_header (session_bind_header b) @ encode_auth_extension (bind_auth_ext b)
                 @ session_bind_payload b)
      else Some (encode_header (session_bind_header b) @ session_bind_payload b))"

text \<open>The argument \<open>out\<close> is the caller's envelope: without the flag its key id is kept.\<close>

definition decode_session_bind ::
  "session_bind_envelope \<Rightarrow> bytes \<Rightarrow> session_bind_envelope option" where
  "decode_session_bind out data =
     (case decode_header data of None \<Rightarrow> None
      | Some hdr \<Rightarrow>
        if hdr_magic hdr \<noteq> LINEP_V02_MAGIC \<or> hdr_version_major hdr \<noteq> LINEP_V02_VERSION_MAJOR \<or>
           hdr_envelope_type hdr \<noteq> et_session_bind \<or>
           hdr_flags hdr AND NOT LINEP_V02_FLAG_AUTHENTICATED \<noteq> 0 then None
        else if hdr_request_id hdr \<noteq> 0 \<or> hdr_execution_id hdr \<noteq> 0 \<or> hdr_output_id hdr \<noteq> 0 then None
        else if hdr_payload_len hdr \<noteq> LINEP_V02_SESSION_BIND_PAYLOAD_SIZE then None
        else let has_auth = hdr_flags hdr AND LINEP_V02_FLAG_AUTHENTICATED \<noteq> 0;
                 ext_len = (if has_auth then LINEP_V02_AUTH_EXTENSION_SIZE else 0) in
        if length data \<noteq> LINEP_V02_HEADER_SIZE + ext_len + unat (hdr_payload_len hdr) then None
        else do {
          out \<leftarrow> (if has_auth then
                   do { ext \<leftarrow> decode_auth_extension
                          (take LINEP_V02_AUTH_EXTENSION_SIZE (drop LINEP_V02_HEADER_SIZE data));
                        Some (out\<lparr>bind_auth_ext := ext, bind_sl1_requested := True,
                                  bind_key_id := auth_key_id ext\<rparr>) }
                 else Some (out\<lparr>bind_sl1_requested := False, bind_auth_ext := no_auth_extension\<rparr>));
          let r = take (unat (hdr_payload_len hdr)) (drop (LINEP_V02_HEADER_SIZE + ext_len) data);
          (nid, r) \<leftarrow> read_u64 r;
          (rid, r) \<leftarrow> read_u64 r;
          (eid, r) \<leftarrow> read_u32 r;
          (ep, r) \<leftarrow> read_u64 r;
          (tok, r) \<leftarrow> read_u64 r;
          let out = out\<lparr>bind_identity := \<lparr>node_id = nid, runtime_id = rid, endpoint_id = eid\<rparr>,
                       bind_control_epoch := ep, bind_lease_token := tok\<rparr>;
          if r \<noteq> [] then None
          else if session_bind_is_valid out then Some out else None })"

lemma length_session_bind_payload [simp]: "length (session_bind_payload b) = 36"
  by (simp add: session_bind_payload_def)

definition session_bind_wf :: "session_bind_envelope \<Rightarrow> bool" where
  "session_bind_wf b \<longleftrightarrow> session_bind_is_valid b \<and>
     (if bind_sl1_requested b then auth_wf (bind_auth_ext b) \<and> bind_key_id b = auth_key_id (bind_auth_ext b)
      else bind_auth_ext b = no_auth_extension)"

text \<open>
  SESSION_BIND survives the wire. A valid envelope always encodes; what it encodes to
  decodes to the same envelope, for any envelope whose extension is consistent (a 16-byte tag,
  reserved 0 and the extension's key id when SL1 is announced; no extension and the caller's
  key id otherwise).
\<close>

theorem session_bind_roundtrip:
  assumes "session_bind_wf b" and "bind_sl1_requested b \<or> bind_key_id out = bind_key_id b"
  shows "\<exists>buf. encode_session_bind b = Some buf \<and> decode_session_bind out buf = Some b"
proof -
  have v: "session_bind_is_valid b" using assms(1) by (simp add: session_bind_wf_def)
  have f: "(1 :: u8) AND NOT 1 = 0"
    by (rule bit_word_eqI) (auto simp: bit_simps simp del: bit_numeral_word_iff)
  show ?thesis
  proof (cases "bind_sl1_requested b")
    case True
    then have e: "auth_wf (bind_auth_ext b)" "bind_key_id b = auth_key_id (bind_auth_ext b)"
      using assms(1) by (simp_all add: session_bind_wf_def)
    then have l: "length (encode_auth_extension (bind_auth_ext b)) = 24"
      by (simp add: length_encode_auth auth_wf_def)
    have d: "decode_auth_extension (encode_auth_extension (bind_auth_ext b)) = Some (bind_auth_ext b)"
      using decode_auth_encode [OF e(1), of "[]"] by simp
    show ?thesis using True v e l f d
      by (simp add: encode_session_bind_def decode_session_bind_def session_bind_header_def Let_def)
        (simp add: session_bind_payload_def guard_defs)
  next
    case False
    then show ?thesis using assms v
      by (simp add: encode_session_bind_def decode_session_bind_def session_bind_header_def Let_def
          session_bind_wf_def)
        (simp add: session_bind_payload_def guard_defs)
  qed
qed

lemma flags_only_auth:
  assumes "(f :: u8) AND NOT 1 = 0"
  shows "f = (if f AND 1 \<noteq> 0 then 1 else 0)"
proof -
  have "f = (f AND 1) OR (f AND NOT 1)"
    by (rule bit_word_eqI) (auto simp: bit_simps simp del: bit_numeral_word_iff)
  moreover have "f AND 1 = (if bit f 0 then 1 else 0)"
    by (simp add: and_one_eq odd_iff_mod_2_eq_one bit_0)
  ultimately show ?thesis using assms by (auto split: if_splits)
qed

text \<open>
  Nothing else is a SESSION_BIND. A buffer the decoder accepts is, byte for byte, the
  encoding of the envelope it returns, up to the minor version, which the decoder ignores; the
  envelope is valid, so no SESSION_BIND without a node, a runtime and a lease token is accepted.
\<close>

theorem session_bind_decoder_exact:
  assumes "decode_session_bind out data = Some b"
  shows "session_bind_wf b \<and>
    (\<exists>v. data = encode_header (session_bind_header b\<lparr>hdr_version_minor := v\<rparr>) @
       (if bind_sl1_requested b then encode_auth_extension (bind_auth_ext b) else []) @
       session_bind_payload b)"
proof -
  from assms obtain h where h: "decode_header data = Some h"
    by (auto simp: decode_session_bind_def split: option.splits)
  let ?auth = "hdr_flags h AND 1 \<noteq> 0"
  let ?n = "if ?auth then 24 else 0 :: nat"
  from assms h have g: "hdr_magic h = LINEP_V02_MAGIC" "hdr_version_major h = 0"
    "hdr_envelope_type h = et_session_bind" "hdr_flags h AND NOT 1 = 0" "hdr_request_id h = 0"
    "hdr_execution_id h = 0" "hdr_output_id h = 0" "hdr_payload_len h = 36"
    by (auto simp: decode_session_bind_def split: if_splits)
  from assms h g have len: "length data = 68 + ?n"
    by (auto simp: decode_session_bind_def Let_def split: if_splits)
  from assms h g len obtain out' p where
    o: "(if ?auth then do { ext \<leftarrow> decode_auth_extension (take 24 (drop 32 data));
            Some (out\<lparr>bind_auth_ext := ext, bind_sl1_requested := True, bind_key_id := auth_key_id ext\<rparr>) }
         else Some (out\<lparr>bind_sl1_requested := False, bind_auth_ext := no_auth_extension\<rparr>)) = Some out'"
    and b: "b = out'\<lparr>bind_identity := bind_identity b, bind_control_epoch := bind_control_epoch b,
              bind_lease_token := bind_lease_token b\<rparr>"
    and p: "take 36 (drop (32 + ?n) data) = session_bind_payload b" and v: "session_bind_is_valid b"
    unfolding decode_session_bind_def Let_def
    by (simp add: bind_eq_Some_conv session_bind_payload_def cong: if_cong split del: if_split)
      (auto dest!: u32.enc_dec u64.enc_dec split del: if_split split: if_split_asm)
  from decode_header_exact [OF h] have d: "data = encode_header h @ drop 32 data" .
  have f: "hdr_flags h = (if ?auth then 1 else 0)"
    using g(4) flags_only_auth by simp
  have hb: "session_bind_header b\<lparr>hdr_version_minor := hdr_version_minor h\<rparr> = h"
    if "bind_sl1_requested b \<longleftrightarrow> ?auth"
    using g f that
    by (intro wire_envelope_header.equality) (auto simp: session_bind_header_def split: if_splits)
  show ?thesis
  proof (cases ?auth)
    case True
    with o obtain ext where e: "decode_auth_extension (take 24 (drop 32 data)) = Some ext"
      and o': "out' = out\<lparr>bind_auth_ext := ext, bind_sl1_requested := True, bind_key_id := auth_key_id ext\<rparr>"
      by (auto simp: bind_eq_Some_conv)
    have bb: "bind_sl1_requested b" "bind_auth_ext b = ext" "bind_key_id b = auth_key_id ext"
      using arg_cong [OF b, of bind_sl1_requested] arg_cong [OF b, of bind_auth_ext]
        arg_cong [OF b, of bind_key_id] by (simp_all add: o')
    have "drop 56 data = session_bind_payload b" using p len True by simp
    moreover have "take 24 (drop 32 data) = encode_auth_extension ext"
      using decode_auth_exact [OF e] by simp
    moreover have "take 24 (drop 32 data) @ drop 56 data = drop 32 data"
      using append_take_drop_id [of 24 "drop 32 data"] by simp
    moreover have "session_bind_wf b"
      using True bb v decode_auth_exact [OF e] by (simp add: session_bind_wf_def)
    ultimately show ?thesis
      using d hb True bb by (intro conjI exI [of _ "hdr_version_minor h"]) simp_all
  next
    case False
    with o have o': "out' = out\<lparr>bind_sl1_requested := False, bind_auth_ext := no_auth_extension\<rparr>"
      by simp
    have "\<not> bind_sl1_requested b" "bind_auth_ext b = no_auth_extension"
      using arg_cong [OF b, of bind_sl1_requested] arg_cong [OF b, of bind_auth_ext]
      by (simp_all add: o')
    moreover have "drop 32 data = session_bind_payload b" using p len False by simp
    ultimately show ?thesis using d hb False v
      by (intro conjI exI [of _ "hdr_version_minor h"]) (simp_all add: session_bind_wf_def)
  qed
qed

end
