(* ===== verification/Payload_Types.thy ===== *)
theory Payload_Types
  imports Runtime_Types Wire
begin

unbundle bit_operations_syntax

text \<open>
  The payload types of \<open>LiNeP/include/linep/v0_2/{embedding,vision,decision,capabilities}.hpp\<close>
  and \<open>LiNeP/src/v0_2/vision.cpp\<close>, with their field-by-field wire form of \<open>envelopes.cpp\<close>.
  A \<open>float\<close> is its 32-bit pattern, which is what the code sends; the IEEE comparisons the
  validity checks use are written out on the pattern.
\<close>

section \<open>Single-precision patterns\<close>

type_synonym f32 = u32

definition f32_magnitude :: "f32 \<Rightarrow> nat" where
  "f32_magnitude x = unat (x AND 0x7FFFFFFF)"

definition f32_isnan :: "f32 \<Rightarrow> bool" where
  "f32_isnan x \<longleftrightarrow> 0x7F800000 < f32_magnitude x"

definition f32_isinf :: "f32 \<Rightarrow> bool" where
  "f32_isinf x \<longleftrightarrow> f32_magnitude x = 0x7F800000"

text \<open>Ordered by sign and magnitude; both zeros are 0.\<close>

definition f32_rank :: "f32 \<Rightarrow> int" where
  "f32_rank x = (if bit x 31 then - int (f32_magnitude x) else int (f32_magnitude x))"

definition f32_lt :: "f32 \<Rightarrow> f32 \<Rightarrow> bool" where
  "f32_lt a b \<longleftrightarrow> \<not> f32_isnan a \<and> \<not> f32_isnan b \<and> f32_rank a < f32_rank b"

definition f32_le :: "f32 \<Rightarrow> f32 \<Rightarrow> bool" where
  "f32_le a b \<longleftrightarrow> \<not> f32_isnan a \<and> \<not> f32_isnan b \<and> f32_rank a \<le> f32_rank b"

abbreviation (input) f32_zero :: f32 where "f32_zero \<equiv> 0"
abbreviation (input) f32_one :: f32 where "f32_one \<equiv> 0x3F800000"

section \<open>Embeddings\<close>

abbreviation (input) LINEP_V02_MAX_EMBEDDING_DIMENSIONS :: nat where
  "LINEP_V02_MAX_EMBEDDING_DIMENSIONS \<equiv> 65536"

record embedding_space_descriptor =
  sp_embedding_space_id :: string
  sp_model_id :: string
  sp_model_revision :: string
  sp_dimensions :: u32
  sp_normalization :: u8
  sp_distance_metric :: u8

definition compatible_embedding_space ::
  "embedding_space_descriptor \<Rightarrow> embedding_space_descriptor \<Rightarrow> bool" where
  "compatible_embedding_space a b \<longleftrightarrow>
     sp_embedding_space_id a \<noteq> [] \<and> sp_embedding_space_id a = sp_embedding_space_id b \<and>
     sp_dimensions a = sp_dimensions b \<and> 0 < sp_dimensions a"

record embedding_result_payload =
  emb_space :: embedding_space_descriptor
  emb_vector :: "f32 list"

definition embedding_is_valid :: "embedding_result_payload \<Rightarrow> bool" where
  "embedding_is_valid e \<longleftrightarrow> sp_embedding_space_id (emb_space e) \<noteq> [] \<and>
     0 < sp_dimensions (emb_space e) \<and> length (emb_vector e) = unat (sp_dimensions (emb_space e))"

section \<open>Vision\<close>

abbreviation (input) LINEP_V02_MAX_VISION_DETECTIONS :: nat where
  "LINEP_V02_MAX_VISION_DETECTIONS \<equiv> 1000"
abbreviation (input) LINEP_V02_MAX_VISION_STRING_BYTES :: nat where
  "LINEP_V02_MAX_VISION_STRING_BYTES \<equiv> 256"

type_synonym vision_task = u8
abbreviation (input) vt_unspecified :: vision_task where "vt_unspecified \<equiv> 0"
abbreviation (input) vt_detect :: vision_task where "vt_detect \<equiv> 1"

record vision_box_2d =
  box_x_min :: f32
  box_y_min :: f32
  box_x_max :: f32
  box_y_max :: f32

definition box_is_valid :: "vision_box_2d \<Rightarrow> bool" where
  "box_is_valid b =
     (if f32_isnan (box_x_min b) \<or> f32_isnan (box_y_min b) \<or> f32_isnan (box_x_max b) \<or>
         f32_isnan (box_y_max b) \<or> f32_isinf (box_x_min b) \<or> f32_isinf (box_y_min b) \<or>
         f32_isinf (box_x_max b) \<or> f32_isinf (box_y_max b) then False
      else f32_le f32_zero (box_x_min b) \<and> f32_lt (box_x_min b) (box_x_max b) \<and>
           f32_le (box_x_max b) f32_one \<and> f32_le f32_zero (box_y_min b) \<and>
           f32_lt (box_y_min b) (box_y_max b) \<and> f32_le (box_y_max b) f32_one)"

record vision_detection =
  det_class_id :: u32
  det_label :: string
  det_score :: f32
  det_box :: vision_box_2d

definition detection_is_valid :: "vision_detection \<Rightarrow> bool" where
  "detection_is_valid d =
     (if f32_isnan (det_score d) \<or> f32_isinf (det_score d) \<or> f32_lt (det_score d) f32_zero \<or>
         f32_lt f32_one (det_score d) then False
      else if LINEP_V02_MAX_VISION_STRING_BYTES < length (det_label d) then False
      else box_is_valid (det_box d))"

record vision_detect_result =
  vd_label_set_id :: string
  vd_original_width :: u32
  vd_original_height :: u32
  vd_detections :: "vision_detection list"

definition LABEL_SET_COCO80_V1 :: string where "LABEL_SET_COCO80_V1 = ''coco80:v1''"
definition LABEL_SET_WIDERFACE_V1 :: string where "LABEL_SET_WIDERFACE_V1 = ''widerface:v1''"
definition LABEL_SET_VOC20_V1 :: string where "LABEL_SET_VOC20_V1 = ''voc20:v1''"

definition COCO80_V1_LABELS :: "string list" where
  "COCO80_V1_LABELS = [
    ''person'', ''bicycle'', ''car'', ''motorcycle'', ''airplane'', ''bus'', ''train'', ''truck'',
    ''boat'', ''traffic light'', ''fire hydrant'', ''stop sign'', ''parking meter'', ''bench'',
    ''bird'', ''cat'', ''dog'', ''horse'', ''sheep'', ''cow'', ''elephant'', ''bear'', ''zebra'',
    ''giraffe'', ''backpack'', ''umbrella'', ''handbag'', ''tie'', ''suitcase'', ''frisbee'',
    ''skis'', ''snowboard'', ''sports ball'', ''kite'', ''baseball bat'', ''baseball glove'',
    ''skateboard'', ''surfboard'', ''tennis racket'', ''bottle'', ''wine glass'', ''cup'', ''fork'',
    ''knife'', ''spoon'', ''bowl'', ''banana'', ''apple'', ''sandwich'', ''orange'', ''broccoli'',
    ''carrot'', ''hot dog'', ''pizza'', ''donut'', ''cake'', ''chair'', ''couch'', ''potted plant'',
    ''bed'', ''dining table'', ''toilet'', ''tv'', ''laptop'', ''mouse'', ''remote'', ''keyboard'',
    ''cell phone'', ''microwave'', ''oven'', ''toaster'', ''sink'', ''refrigerator'', ''book'',
    ''clock'', ''vase'', ''scissors'', ''teddy bear'', ''hair drier'', ''toothbrush'']"

definition WIDERFACE_V1_LABELS :: "string list" where
  "WIDERFACE_V1_LABELS = [''face'']"

definition VOC20_V1_LABELS :: "string list" where
  "VOC20_V1_LABELS = [
    ''aeroplane'', ''bicycle'', ''bird'', ''boat'', ''bottle'', ''bus'', ''car'', ''cat'',
    ''chair'', ''cow'', ''diningtable'', ''dog'', ''horse'', ''motorbike'', ''person'',
    ''pottedplant'', ''sheep'', ''sofa'', ''train'', ''tvmonitor'']"

definition label_at :: "string list \<Rightarrow> u32 \<Rightarrow> string option" where
  "label_at ls i = (if unat i < length ls then Some (ls ! unat i) else None)"

definition resolve_standard_label :: "string \<Rightarrow> u32 \<Rightarrow> string option" where
  "resolve_standard_label label_set_id class_id =
     (if label_set_id = LABEL_SET_COCO80_V1 then label_at COCO80_V1_LABELS class_id
      else if label_set_id = LABEL_SET_WIDERFACE_V1 then label_at WIDERFACE_V1_LABELS class_id
      else if label_set_id = LABEL_SET_VOC20_V1 then label_at VOC20_V1_LABELS class_id
      else None)"

definition get_standard_label_count :: "string \<Rightarrow> nat" where
  "get_standard_label_count label_set_id =
     (if label_set_id = LABEL_SET_COCO80_V1 then length COCO80_V1_LABELS
      else if label_set_id = LABEL_SET_WIDERFACE_V1 then length WIDERFACE_V1_LABELS
      else if label_set_id = LABEL_SET_VOC20_V1 then length VOC20_V1_LABELS
      else 0)"

definition is_valid_label_for_class :: "string \<Rightarrow> u32 \<Rightarrow> string \<Rightarrow> bool" where
  "is_valid_label_for_class label_set_id class_id label =
     (if label = [] then True
      else case resolve_standard_label label_set_id class_id of
        Some canonical \<Rightarrow> label = canonical
      | None \<Rightarrow> if take 7 label_set_id = ''custom:''
                then length label \<le> LINEP_V02_MAX_VISION_STRING_BYTES else False)"

definition detect_result_is_valid :: "vision_detect_result \<Rightarrow> bool" where
  "detect_result_is_valid r =
     (if vd_original_width r = 0 \<or> vd_original_height r = 0 \<or>
         65535 < vd_original_width r \<or> 65535 < vd_original_height r then False
      else if vd_label_set_id r = [] \<or>
         LINEP_V02_MAX_VISION_STRING_BYTES < length (vd_label_set_id r) then False
      else if LINEP_V02_MAX_VISION_DETECTIONS < length (vd_detections r) then False
      else list_all (\<lambda>d. detection_is_valid d \<and>
             \<not> (det_label d \<noteq> [] \<and>
                \<not> is_valid_label_for_class (vd_label_set_id r) (det_class_id d) (det_label d)))
           (vd_detections r))"

record vision_result_payload =
  vr_task :: vision_task
  vr_model_id :: string
  vr_model_revision :: string
  vr_detect :: vision_detect_result

definition vision_is_valid :: "vision_result_payload \<Rightarrow> bool" where
  "vision_is_valid v =
     (if vr_task v \<noteq> vt_detect then False
      else if vr_model_id v = [] \<or> LINEP_V02_MAX_VISION_STRING_BYTES < length (vr_model_id v) \<or>
              LINEP_V02_MAX_VISION_STRING_BYTES < length (vr_model_revision v) then False
      else detect_result_is_valid (vr_detect v))"

record vision_model_descriptor =
  vm_model_id :: string
  vm_model_revision :: string
  vm_label_set_id :: string
  vm_task :: vision_task
  vm_max_detections :: u32
  vm_custom_labels :: "string list"

section \<open>Decisions and capabilities\<close>

abbreviation (input) LINEP_V02_MAX_DECISION_STRING_BYTES :: nat where
  "LINEP_V02_MAX_DECISION_STRING_BYTES \<equiv> 256"
abbreviation (input) LINEP_V02_MAX_DECISION_MODELS :: nat where
  "LINEP_V02_MAX_DECISION_MODELS \<equiv> 1024"

record decision_model_descriptor =
  dm_model_id :: string
  dm_model_revision :: string
  dm_decision_type :: string

definition decision_model_is_valid :: "decision_model_descriptor \<Rightarrow> bool" where
  "decision_model_is_valid d \<longleftrightarrow>
     dm_model_id d \<noteq> [] \<and> length (dm_model_id d) \<le> LINEP_V02_MAX_DECISION_STRING_BYTES \<and>
     length (dm_model_revision d) \<le> LINEP_V02_MAX_DECISION_STRING_BYTES \<and>
     dm_decision_type d \<noteq> [] \<and>
     length (dm_decision_type d) \<le> LINEP_V02_MAX_DECISION_STRING_BYTES"

record runtime_capabilities_descriptor =
  cap_supported_profiles :: "runtime_profile list"
  cap_max_context_tokens :: u32
  cap_max_output_tokens :: u32
  cap_supports_streaming :: bool
  cap_supports_cancellation :: bool
  cap_supports_tool_calling :: bool
  cap_supports_reasoning_deltas :: bool
  cap_supports_structured_messages :: bool
  cap_supported_models :: "string list"
  cap_supported_embedding_spaces :: "embedding_space_descriptor list"
  cap_supported_vision_models :: "vision_model_descriptor list"
  cap_supported_decision_models :: "decision_model_descriptor list"

definition supports_profile :: "runtime_capabilities_descriptor \<Rightarrow> runtime_profile \<Rightarrow> bool" where
  "supports_profile c p = list_ex (\<lambda>q. q = p) (cap_supported_profiles c)"

definition supports_vision_model ::
  "runtime_capabilities_descriptor \<Rightarrow> string \<Rightarrow> vision_task \<Rightarrow> bool" where
  "supports_vision_model c mid task =
     list_ex (\<lambda>vm. vm_model_id vm = mid \<and> (task = vt_unspecified \<or> vm_task vm = task))
       (cap_supported_vision_models c)"

definition supports_decision_model :: "runtime_capabilities_descriptor \<Rightarrow> string \<Rightarrow> bool" where
  "supports_decision_model c mid =
     list_ex (\<lambda>dm. dm_model_id dm = mid) (cap_supported_decision_models c)"

end
