(* ===== verification/Envelopes.thy ===== *)
theory Envelopes
  imports Envelope_Frame Payload_Types
begin

unbundle bit_operations_syntax

text \<open>
  The envelopes of \<open>LiNeP/src/v0_2/envelopes.cpp\<close>: requests, events, controls and
  capabilities. Each encoder builds a payload and puts a header in front; each decoder starts
  with the same framing checks (\<open>open_envelope\<close>), reads the payload with a reader of the
  announced length, refuses what is left over and validates the result.
\<close>

section \<open>Framing\<close>

definition open_envelope ::
  "runtime_envelope_type \<Rightarrow> bytes \<Rightarrow> (wire_envelope_header \<times> bytes) option" where
  "open_envelope ty data =
     (case decode_header data of None \<Rightarrow> None
      | Some hdr \<Rightarrow>
          if hdr_magic hdr \<noteq> LINEP_V02_MAGIC \<or> hdr_version_major hdr \<noteq> LINEP_V02_VERSION_MAJOR \<or>
             hdr_envelope_type hdr \<noteq> ty then None
          else let is_auth = hdr_flags hdr AND LINEP_V02_FLAG_AUTHENTICATED \<noteq> 0;
                   ext_len = (if is_auth then LINEP_V02_AUTH_EXTENSION_SIZE else 0)
               in if length data < LINEP_V02_HEADER_SIZE + ext_len + unat (hdr_payload_len hdr)
                  then None
                  else Some (hdr, take (unat (hdr_payload_len hdr))
                                    (drop (LINEP_V02_HEADER_SIZE + ext_len) data)))"

definition envelope_header ::
  "runtime_envelope_type \<Rightarrow> stream_identity \<Rightarrow> bytes \<Rightarrow> wire_envelope_header" where
  "envelope_header ty stream payload =
     \<lparr>hdr_magic = LINEP_V02_MAGIC, hdr_version_major = LINEP_V02_VERSION_MAJOR,
      hdr_version_minor = LINEP_V02_VERSION_MINOR, hdr_envelope_type = ty, hdr_flags = 0,
      hdr_request_id = request_id stream, hdr_execution_id = execution_id stream,
      hdr_output_id = output_id stream, hdr_payload_len = of_nat (length payload)\<rparr>"

definition close_envelope :: "runtime_envelope_type \<Rightarrow> stream_identity \<Rightarrow> bytes \<Rightarrow> bytes" where
  "close_envelope ty stream payload = encode_header (envelope_header ty stream payload) @ payload"

definition header_stream :: "wire_envelope_header \<Rightarrow> stream_identity" where
  "header_stream hdr = \<lparr>request_id = hdr_request_id hdr, execution_id = hdr_execution_id hdr,
     output_id = hdr_output_id hdr\<rparr>"

definition write_bool :: "bool \<Rightarrow> bytes" where
  "write_bool b = write_u8 (if b then 1 else 0)"

lemma open_close:
  "length p < 2 ^ 32 \<Longrightarrow>
     open_envelope ty (close_envelope ty s p) = Some (envelope_header ty s p, p)"
  by (simp add: open_envelope_def close_envelope_def Let_def) (simp add: envelope_header_def unat_of_nat)

lemma header_stream_envelope [simp]: "header_stream (envelope_header ty s p) = s"
  by (simp add: header_stream_def envelope_header_def)

lemma open_envelope_payload:
  "open_envelope ty data = Some (h, p) \<Longrightarrow> length p = unat (hdr_payload_len h) \<and> length p < 2 ^ 32"
  using unat_bound [of "hdr_payload_len h"]
  by (auto simp: open_envelope_def Let_def split: option.splits if_splits)

section \<open>Requests\<close>

record generation_options =
  opt_top_p :: f32
  opt_top_k :: u32
  opt_repeat_penalty :: f32
  opt_repeat_last_n :: u32
  opt_seed :: u64
  opt_presence_penalty :: f32
  opt_frequency_penalty :: f32
  opt_stop_sequences :: "string list"
  opt_extra_options :: "(string \<times> string) list"

definition default_options :: generation_options where
  "default_options = \<lparr>opt_top_p = 0x3F666666, opt_top_k = 40, opt_repeat_penalty = 0x3F800000,
     opt_repeat_last_n = 64, opt_seed = 0, opt_presence_penalty = 0, opt_frequency_penalty = 0,
     opt_stop_sequences = [], opt_extra_options = []\<rparr>"

record request_envelope =
  req_stream :: stream_identity
  req_profile :: runtime_profile
  req_model_id :: string
  req_payload :: string
  req_max_tokens :: u32
  req_temperature :: f32
  req_stream_requested :: bool
  req_has_options :: bool
  req_options :: generation_options

definition request_is_valid :: "request_envelope \<Rightarrow> bool" where
  [guard_defs]: "request_is_valid r \<longleftrightarrow>
     stream_is_valid (req_stream r) \<and> req_profile r \<noteq> rp_unspecified \<and> req_model_id r \<noteq> []"

definition write_extra_option :: "string \<times> string \<Rightarrow> bytes" where
  "write_extra_option kv = write_string_u16 (fst kv) @ write_string_u16 (snd kv)"

definition sorted_extras :: "generation_options \<Rightarrow> (string \<times> string) list" where
  "sorted_extras g = sort_key fst (opt_extra_options g)"

definition has_adjacent_duplicate :: "(string \<times> string) list \<Rightarrow> bool" where
  "has_adjacent_duplicate xs = list_ex (\<lambda>i. fst (xs ! i) = fst (xs ! (i - 1))) [1..<length xs]"

definition write_options :: "generation_options \<Rightarrow> bytes option" where
  "write_options g =
     (if 0xFFFF < length (opt_stop_sequences g) then None
      else if 0xFFFF < length (opt_extra_options g) then None
      else let extras = sorted_extras g in
        if has_adjacent_duplicate extras then None
        else Some (write_u32 0x7F @ write_u32 (opt_top_p g) @ write_u32 (opt_top_k g) @
          write_u32 (opt_repeat_penalty g) @ write_u32 (opt_repeat_last_n g) @
          write_u64 (opt_seed g) @ write_u32 (opt_presence_penalty g) @
          write_u32 (opt_frequency_penalty g) @
          write_u16 (of_nat (length (opt_stop_sequences g))) @
          concat (map write_string_u16 (opt_stop_sequences g)) @
          write_u16 (of_nat (length extras)) @
          concat (map write_extra_option extras)))"

definition write_request_base :: "request_envelope \<Rightarrow> bytes" where
  "write_request_base r =
     write_u8 (req_profile r) @ write_string_u16 (req_model_id r) @
     write_string_u32 (req_payload r) @ write_u32 (req_max_tokens r) @
     write_u32 (req_temperature r) @ write_bool (req_stream_requested r)"

definition encode_request :: "request_envelope \<Rightarrow> bytes option" where
  "encode_request r =
     (if \<not> request_is_valid r then None
      else do {
        opts \<leftarrow> (if req_has_options r then write_options (req_options r) else Some []);
        Some (close_envelope et_request (req_stream r) (write_request_base r @ opts)) })"

text \<open>The loop over the extra options: keys after the first must increase.\<close>

fun read_extra_options :: "nat \<Rightarrow> bool \<Rightarrow> string \<Rightarrow> (string \<times> string) list reader" where
  "read_extra_options 0 first prev r = Some ([], r)"
| "read_extra_options (Suc n) first prev r =
     do { (k, r) \<leftarrow> read_string_u16 r;
          (v, r) \<leftarrow> read_string_u16 r;
          if \<not> first \<and> k \<le> prev then None
          else do { (kvs, r) \<leftarrow> read_extra_options n False k r; Some ((k, v) # kvs, r) } }"

definition read_options :: "generation_options reader" where
  "read_options r =
     do { (flags, r) \<leftarrow> read_u32 r;
          (top_p, r) \<leftarrow> read_u32 r;
          (top_k, r) \<leftarrow> read_u32 r;
          (rp, r) \<leftarrow> read_u32 r;
          (rl, r) \<leftarrow> read_u32 r;
          (seed, r) \<leftarrow> read_u64 r;
          (pp, r) \<leftarrow> read_u32 r;
          (fp, r) \<leftarrow> read_u32 r;
          (nstop, r) \<leftarrow> read_u16 r;
          (stops, r) \<leftarrow> read_many read_string_u16 (unat nstop) r;
          (nextra, r) \<leftarrow> read_u16 r;
          (extras, r) \<leftarrow> read_extra_options (unat nextra) True [] r;
          Some (\<lparr>opt_top_p = top_p, opt_top_k = top_k, opt_repeat_penalty = rp,
                 opt_repeat_last_n = rl, opt_seed = seed, opt_presence_penalty = pp,
                 opt_frequency_penalty = fp, opt_stop_sequences = stops,
                 opt_extra_options = extras\<rparr>, r) }"

definition decode_request :: "bytes \<Rightarrow> request_envelope option" where
  "decode_request data =
     do { (hdr, r) \<leftarrow> open_envelope et_request data;
          (prof, r) \<leftarrow> read_u8 r;
          (model, r) \<leftarrow> read_string_u16 r;
          (payload, r) \<leftarrow> read_string_u32 r;
          (maxt, r) \<leftarrow> read_u32 r;
          (temp, r) \<leftarrow> read_u32 r;
          (sr, r) \<leftarrow> read_u8 r;
          let req = \<lparr>req_stream = header_stream hdr, req_profile = prof, req_model_id = model,
                 req_payload = payload, req_max_tokens = maxt, req_temperature = temp,
                 req_stream_requested = (sr \<noteq> 0), req_has_options = False,
                 req_options = default_options\<rparr>;
          if r = [] then (if request_is_valid req then Some req else None)
          else do {
            (opts, r) \<leftarrow> read_options r;
            let req = req\<lparr>req_has_options := True, req_options := opts\<rparr>;
            if r \<noteq> [] then None else if request_is_valid req then Some req else None } }"

section \<open>Request properties\<close>

abbreviation fits2 :: "string \<times> string \<Rightarrow> bool" where
  "fits2 kv \<equiv> fits_u16 (fst kv) \<and> fits_u16 (snd kv)"

lemma strict_keys_iff:
  assumes "sorted (map fst xs)"
  shows "\<not> has_adjacent_duplicate xs \<longleftrightarrow> sorted_wrt (<) (map fst xs)"
proof -
  have "\<not> has_adjacent_duplicate xs \<longleftrightarrow> (\<forall>i. Suc i < length xs \<longrightarrow> fst (xs ! Suc i) \<noteq> fst (xs ! i))"
    (is "?l \<longleftrightarrow> ?r")
  proof
    assume l: ?l
    show ?r
    proof (intro allI impI)
      fix i assume "Suc i < length xs"
      then have "Suc i \<in> set [1..<length xs]" by simp
      with l have "fst (xs ! Suc i) \<noteq> fst (xs ! (Suc i - 1))"
        unfolding has_adjacent_duplicate_def list_ex_iff by blast
      then show "fst (xs ! Suc i) \<noteq> fst (xs ! i)" by simp
    qed
  next
    assume r: ?r
    then show ?l
      unfolding has_adjacent_duplicate_def list_ex_iff
      by (metis One_nat_def Suc_pred' atLeastLessThan_iff less_le_trans set_upt zero_less_one)
  qed
  also have "\<dots> \<longleftrightarrow> sorted_wrt (<) (map fst xs)"
  proof
    assume r: "\<forall>i. Suc i < length xs \<longrightarrow> fst (xs ! Suc i) \<noteq> fst (xs ! i)"
    have "map fst xs ! i < map fst xs ! Suc i" if "Suc i < length (map fst xs)" for i
    proof -
      from that assms have "map fst xs ! i \<le> map fst xs ! Suc i"
        using sorted_nth_mono [OF assms, of i "Suc i"] by simp
      with r that show ?thesis by (simp add: order_less_le eq_commute)
    qed
    then show "sorted_wrt (<) (map fst xs)" by (simp add: sorted_wrt_iff_nth_Suc_transp)
  next
    assume "sorted_wrt (<) (map fst xs)"
    then have "i < j \<Longrightarrow> j < length xs \<Longrightarrow> fst (xs ! i) < fst (xs ! j)" for i j
      using sorted_wrt_nth_less [of "(<)" "map fst xs" i j] by simp
    then show "\<forall>i. Suc i < length xs \<longrightarrow> fst (xs ! Suc i) \<noteq> fst (xs ! i)"
      by (metis lessI less_irrefl)
  qed
  finally show ?thesis .
qed

lemma extras_read_iff:
  "read_extra_options n first prev b = Some (kvs, r) \<longleftrightarrow>
     length kvs = n \<and> list_all fits2 kvs \<and>
     sorted_wrt (<) ((if first then [] else [prev]) @ map fst kvs) \<and>
     b = concat (map write_extra_option kvs) @ r"
proof (induction n arbitrary: first prev b kvs)
  case 0
  then show ?case by auto
next
  case (Suc n)
  have "read_extra_options (Suc n) first prev b = Some (kvs, r) \<longleftrightarrow>
    (\<exists>k v ks b1 b2. kvs = (k, v) # ks \<and> read_string_u16 b = Some (k, b1) \<and>
      read_string_u16 b1 = Some (v, b2) \<and> \<not> (\<not> first \<and> k \<le> prev) \<and>
      read_extra_options n False k b2 = Some (ks, r))"
    by (auto simp: bind_eq_Some_conv split: if_splits)
  also have "\<dots> \<longleftrightarrow> (\<exists>k v ks. kvs = (k, v) # ks \<and> fits2 (k, v) \<and> (first \<or> prev < k) \<and>
      length ks = n \<and> list_all fits2 ks \<and> sorted_wrt (<) (k # map fst ks) \<and>
      b = write_extra_option (k, v) @ concat (map write_extra_option ks) @ r)"
    unfolding Suc.IH str16.dec_iff by (auto simp: write_extra_option_def not_le)
  also have "\<dots> \<longleftrightarrow> length kvs = Suc n \<and> list_all fits2 kvs \<and>
      sorted_wrt (<) ((if first then [] else [prev]) @ map fst kvs) \<and>
      b = concat (map write_extra_option kvs) @ r"
    by (cases kvs) (auto dest: order_less_trans)
  finally show ?case .
qed

text \<open>What the decoder can return and the encoder sends without truncation.\<close>

definition options_fit :: "generation_options \<Rightarrow> bool" where
  "options_fit g \<longleftrightarrow> length (opt_stop_sequences g) < 2 ^ 16 \<and> list_all fits_u16 (opt_stop_sequences g) \<and>
     length (opt_extra_options g) < 2 ^ 16 \<and> list_all fits2 (opt_extra_options g)"

definition options_canonical :: "generation_options \<Rightarrow> bool" where
  "options_canonical g \<longleftrightarrow> options_fit g \<and> sorted_wrt (<) (map fst (opt_extra_options g))"

definition options_body :: "generation_options \<Rightarrow> bytes" where
  "options_body g = write_u32 (opt_top_p g) @ write_u32 (opt_top_k g) @
          write_u32 (opt_repeat_penalty g) @ write_u32 (opt_repeat_last_n g) @
          write_u64 (opt_seed g) @ write_u32 (opt_presence_penalty g) @
          write_u32 (opt_frequency_penalty g) @
          write_u16 (of_nat (length (opt_stop_sequences g))) @
          concat (map write_string_u16 (opt_stop_sequences g)) @
          write_u16 (of_nat (length (opt_extra_options g))) @
          concat (map write_extra_option (opt_extra_options g))"

lemma word_of_unat_len: "n = unat (w :: u16) \<Longrightarrow> of_nat n = w"
  by simp

lemma read_options_exact:
  assumes "read_options b = Some (g, r)"
  shows "options_canonical g \<and> (\<exists>flags. b = write_u32 flags @ options_body g @ r)"
proof -
  from assms obtain nstop nextra where g: "length (opt_stop_sequences g) = unat nstop"
      "\<forall>v \<in> set (opt_stop_sequences g). fits_u16 v"
      "length (opt_extra_options g) = unat nextra" "list_all fits2 (opt_extra_options g)"
      "sorted_wrt (<) (map fst (opt_extra_options g))"
      "\<exists>flags. b = write_u32 flags @ write_u32 (opt_top_p g) @ write_u32 (opt_top_k g) @
          write_u32 (opt_repeat_penalty g) @ write_u32 (opt_repeat_last_n g) @
          write_u64 (opt_seed g) @ write_u32 (opt_presence_penalty g) @
          write_u32 (opt_frequency_penalty g) @ write_u16 nstop @
          concat (map write_string_u16 (opt_stop_sequences g)) @ write_u16 nextra @
          concat (map write_extra_option (opt_extra_options g)) @ r"
    unfolding read_options_def
    by (auto simp: bind_eq_Some_conv extras_read_iff
        dest!: u32.enc_dec u64.enc_dec u16.enc_dec str16.many_enc_dec)
  then show ?thesis
    using unat_bound [of nstop] unat_bound [of nextra]
    by (auto simp: options_canonical_def options_fit_def options_body_def list_all_iff)
qed

lemma read_options_write:
  assumes "options_canonical g"
  shows "read_options (write_u32 flags @ options_body g @ r) = Some (g, r)"
proof -
  have u: "unat (of_nat (length (opt_stop_sequences g)) :: u16) = length (opt_stop_sequences g)"
    "unat (of_nat (length (opt_extra_options g)) :: u16) = length (opt_extra_options g)"
    using assms by (simp_all add: options_canonical_def options_fit_def unat_of_nat)
  have st: "read_many read_string_u16 (length (opt_stop_sequences g))
      (concat (map write_string_u16 (opt_stop_sequences g)) @ t) = Some (opt_stop_sequences g, t)" for t
    by (rule str16.many_dec_enc)
      (use assms in \<open>simp add: options_canonical_def options_fit_def list_all_iff\<close>)
  have ex: "read_extra_options (length (opt_extra_options g)) True []
      (concat (map write_extra_option (opt_extra_options g)) @ t) = Some (opt_extra_options g, t)" for t
    using assms by (simp add: extras_read_iff options_canonical_def options_fit_def)
  show ?thesis by (simp add: read_options_def options_body_def u st ex)
qed

lemma write_options_some:
  assumes "options_fit g"
  shows "write_options g =
    (if distinct (map fst (opt_extra_options g))
     then Some (write_u32 0x7F @ options_body (g\<lparr>opt_extra_options := sorted_extras g\<rparr>)) else None)"
    and "distinct (map fst (opt_extra_options g)) \<Longrightarrow>
      options_canonical (g\<lparr>opt_extra_options := sorted_extras g\<rparr>)"
proof -
  have s: "sorted (map fst (sorted_extras g))" by (simp add: sorted_extras_def)
  have d: "distinct (map fst (opt_extra_options g)) \<longleftrightarrow> distinct (map fst (sorted_extras g))"
    by (simp add: sorted_extras_def distinct_map)
  have k: "\<not> has_adjacent_duplicate (sorted_extras g) \<longleftrightarrow> distinct (map fst (opt_extra_options g))"
    unfolding strict_keys_iff [OF s] d using s by (simp add: strict_sorted_iff)
  have l: "length (sorted_extras g) = length (opt_extra_options g)" by (simp add: sorted_extras_def)
  show "write_options g =
    (if distinct (map fst (opt_extra_options g))
     then Some (write_u32 0x7F @ options_body (g\<lparr>opt_extra_options := sorted_extras g\<rparr>)) else None)"
    using assms by (simp add: k [symmetric] write_options_def options_fit_def options_body_def Let_def l)
  show "options_canonical (g\<lparr>opt_extra_options := sorted_extras g\<rparr>)"
    if "distinct (map fst (opt_extra_options g))"
    using assms k that strict_keys_iff [OF s] l
    by (simp add: options_canonical_def options_fit_def list_all_iff) (simp add: sorted_extras_def)
qed

lemma sorted_extras_canonical: "options_canonical g \<Longrightarrow> sorted_extras g = opt_extra_options g"
  by (simp add: sorted_extras_def options_canonical_def sort_key_id_if_sorted strict_sorted_iff)

definition request_body :: "request_envelope \<Rightarrow> bytes" where
  "request_body r = write_request_base r @
     (if req_has_options r then write_u32 0x7F @ options_body (req_options r) else [])"

definition request_canonical :: "request_envelope \<Rightarrow> bool" where
  "request_canonical r \<longleftrightarrow> fits_u16 (req_model_id r) \<and> fits_u32 (req_payload r) \<and>
     (if req_has_options r then options_canonical (req_options r) else req_options r = default_options) \<and>
     length (request_body r) < 2 ^ 32"

definition canonical_request :: "request_envelope \<Rightarrow> request_envelope" where
  "canonical_request r = r\<lparr>req_options := (if req_has_options r
     then req_options r\<lparr>opt_extra_options := sorted_extras (req_options r)\<rparr> else default_options)\<rparr>"

lemma decode_request_body:
  assumes "request_canonical r" and "request_is_valid r"
  shows "decode_request (close_envelope et_request (req_stream r) (request_body r)) = Some r"
proof -
  show ?thesis
  proof (cases "req_has_options r")
    case True
    with assms have "read_options (write_u32 0x7F @ options_body (req_options r))
        = Some (req_options r, [])"
      using read_options_write [of "req_options r" _ "[]"] by (simp add: request_canonical_def)
    with True assms show ?thesis
      by (simp add: decode_request_def open_close request_canonical_def request_body_def
          write_request_base_def write_bool_def guard_defs Let_def)
  next
    case False
    with assms show ?thesis
      by (simp add: decode_request_def open_close request_canonical_def request_body_def
          write_request_base_def write_bool_def guard_defs Let_def)
  qed
qed

lemma encode_request_body:
  assumes "req_has_options r \<longrightarrow> options_fit (req_options r)" and "request_is_valid r"
  shows "encode_request r =
    (if req_has_options r \<longrightarrow> distinct (map fst (opt_extra_options (req_options r)))
     then Some (close_envelope et_request (req_stream r) (request_body (canonical_request r)))
     else None)"
  using assms write_options_some(1) [of "req_options r"]
  by (auto simp: encode_request_def request_body_def canonical_request_def write_request_base_def)

lemma encode_decode_request:
  assumes "fits_u16 (req_model_id r)" and "fits_u32 (req_payload r)"
    and "req_has_options r \<Longrightarrow> options_fit (req_options r)"
    and "length (request_body (canonical_request r)) < 2 ^ 32"
  shows "case encode_request r of
      None \<Rightarrow> \<not> request_is_valid r \<or>
        (req_has_options r \<and> \<not> distinct (map fst (opt_extra_options (req_options r))))
    | Some buf \<Rightarrow> decode_request buf = Some (canonical_request r)"
proof (cases "encode_request r")
  case None
  then show ?thesis using encode_request_body [of r] assms(3) by (auto split: if_splits)
next
  case (Some buf)
  then have v: "request_is_valid r" by (simp add: encode_request_def split: if_splits)
  with Some encode_request_body [of r] assms(3)
  have d: "req_has_options r \<longrightarrow> distinct (map fst (opt_extra_options (req_options r)))"
    and buf: "buf = close_envelope et_request (req_stream r) (request_body (canonical_request r))"
    by (auto split: if_splits)
  have "request_canonical (canonical_request r)"
    using assms d write_options_some(2) [of "req_options r"]
    by (simp add: request_canonical_def) (simp add: canonical_request_def)
  moreover have "request_is_valid (canonical_request r)" "req_stream (canonical_request r) = req_stream r"
    using v by (simp_all add: canonical_request_def guard_defs)
  ultimately show ?thesis using Some buf decode_request_body [of "canonical_request r"] by auto
qed


lemma decode_request_canonical:
  assumes "decode_request data = Some r"
  shows "request_canonical r \<and> request_is_valid r"
proof -
  from assms obtain h p sr rest where p: "open_envelope et_request data = Some (h, p)"
    and e: "p = write_u8 (req_profile r) @ write_string_u16 (req_model_id r) @
      write_string_u32 (req_payload r) @ write_u32 (req_max_tokens r) @
      write_u32 (req_temperature r) @ write_u8 sr @ rest"
    and fits: "fits_u16 (req_model_id r)" "fits_u32 (req_payload r)" and v: "request_is_valid r"
    and o: "if req_has_options r then read_options rest = Some (req_options r, [])
            else rest = [] \<and> req_options r = default_options"
    unfolding decode_request_def Let_def
    by (auto simp: bind_eq_Some_conv split: if_splits
        dest!: u8.enc_dec u32.enc_dec str16.enc_dec str32.enc_dec)
  have "length (request_body r) = length p \<and> (req_has_options r \<longrightarrow> options_canonical (req_options r))"
    using o e by (auto simp: request_body_def write_request_base_def write_bool_def
        dest!: read_options_exact split: if_splits)
  with o fits v open_envelope_payload [OF p] show ?thesis
    by (auto simp: request_canonical_def split: if_splits)
qed

text \<open>
  Decoding is stable. Whatever buffer the decoder accepts (any minor version, any flags,
  signed or not, trailing bytes), the request it returns is valid and canonical: its extra
  options have strictly increasing keys, it re-encodes, and the re-encoding decodes to the same
  request.
\<close>

theorem request_reencode_stable:
  assumes "decode_request data = Some r"
  shows "request_is_valid r \<and> (req_has_options r \<longrightarrow> sorted_wrt (<) (map fst (opt_extra_options (req_options r)))) \<and>
    (\<exists>buf. encode_request r = Some buf \<and> decode_request buf = Some r)"
proof -
  from decode_request_canonical [OF assms] have c: "request_canonical r" and v: "request_is_valid r"
    by simp_all
  then have o: "req_has_options r \<longrightarrow> options_canonical (req_options r)"
    and o': "\<not> req_has_options r \<longrightarrow> req_options r = default_options"
    by (auto simp: request_canonical_def split: if_splits)
  then have "canonical_request r = r"
    by (auto simp: canonical_request_def sorted_extras_canonical)
  moreover have "req_has_options r \<longrightarrow> distinct (map fst (opt_extra_options (req_options r)))
      \<and> options_fit (req_options r)"
    using o by (auto simp: options_canonical_def strict_sorted_iff)
  ultimately show ?thesis
    using encode_request_body [of r] v o decode_request_body [OF c v]
    by (auto simp: options_canonical_def)
qed

end
