(* ===== verification/Event_Envelopes.thy ===== *)
theory Event_Envelopes
  imports Envelopes
begin

unbundle bit_operations_syntax

text \<open>
  Events, controls and capabilities of \<open>LiNeP/src/v0_2/envelopes.cpp\<close>. Every structure inside
  an event or a capability descriptor is an instance of the codec contract, so the envelope
  proofs only compose them.
\<close>

section \<open>Events\<close>

type_synonym runtime_event_type = u8
abbreviation (input) re_unknown :: runtime_event_type where "re_unknown \<equiv> 0"
abbreviation (input) re_accepted :: runtime_event_type where "re_accepted \<equiv> 1"
abbreviation (input) re_started :: runtime_event_type where "re_started \<equiv> 2"
abbreviation (input) re_content_delta :: runtime_event_type where "re_content_delta \<equiv> 3"
abbreviation (input) re_content_snapshot :: runtime_event_type where "re_content_snapshot \<equiv> 4"
abbreviation (input) re_reasoning_delta :: runtime_event_type where "re_reasoning_delta \<equiv> 5"
abbreviation (input) re_tool_call :: runtime_event_type where "re_tool_call \<equiv> 6"
abbreviation (input) re_embedding_result :: runtime_event_type where "re_embedding_result \<equiv> 7"
abbreviation (input) re_metrics :: runtime_event_type where "re_metrics \<equiv> 8"
abbreviation (input) re_error :: runtime_event_type where "re_error \<equiv> 9"
abbreviation (input) re_completed :: runtime_event_type where "re_completed \<equiv> 10"
abbreviation (input) re_cancelled :: runtime_event_type where "re_cancelled \<equiv> 11"
abbreviation (input) re_failed :: runtime_event_type where "re_failed \<equiv> 12"
abbreviation (input) re_vision_result :: runtime_event_type where "re_vision_result \<equiv> 13"
abbreviation (input) re_decision_result :: runtime_event_type where "re_decision_result \<equiv> 14"

record event_envelope =
  evt_stream :: stream_identity
  evt_event_seq :: u64
  evt_event_type :: runtime_event_type
  evt_payload :: string
  evt_outcome :: terminal_outcome
  evt_error :: runtime_error
  evt_embedding :: embedding_result_payload
  evt_vision :: vision_result_payload
  evt_timestamp_us :: u64

definition event_is_terminal :: "event_envelope \<Rightarrow> bool" where
  "event_is_terminal e \<longleftrightarrow> evt_event_type e = re_completed \<or> evt_event_type e = re_cancelled \<or>
     evt_event_type e = re_failed"

definition event_is_valid :: "event_envelope \<Rightarrow> bool" where
  "event_is_valid e =
     (if \<not> stream_is_valid (evt_stream e) \<and> \<not> stream_is_connection_level (evt_stream e) then False
      else if evt_event_type e = re_unknown then False
      else if \<not> stream_is_connection_level (evt_stream e) \<and> evt_event_seq e = 0 then False
      else if evt_event_type e = re_embedding_result \<and> \<not> embedding_is_valid (evt_embedding e) then False
      else if evt_event_type e = re_vision_result \<and> \<not> vision_is_valid (evt_vision e) then False
      else if evt_event_type e = re_decision_result \<and>
              (event_is_terminal e \<or> evt_payload e = []) then False
      else True)"

definition write_embedding_space :: "embedding_space_descriptor \<Rightarrow> bytes" where
  "write_embedding_space sp =
     write_string_u16 (sp_embedding_space_id sp) @ write_string_u16 (sp_model_id sp) @
     write_string_u16 (sp_model_revision sp) @ write_u32 (sp_dimensions sp) @
     write_u8 (sp_normalization sp) @ write_u8 (sp_distance_metric sp)"

definition read_embedding_space :: "embedding_space_descriptor reader" where
  "read_embedding_space r =
     do { (sid, r) \<leftarrow> read_string_u16 r;
          (mid, r) \<leftarrow> read_string_u16 r;
          (rev, r) \<leftarrow> read_string_u16 r;
          (dim, r) \<leftarrow> read_u32 r;
          (norm, r) \<leftarrow> read_u8 r;
          (dist, r) \<leftarrow> read_u8 r;
          Some (\<lparr>sp_embedding_space_id = sid, sp_model_id = mid, sp_model_revision = rev,
                 sp_dimensions = dim, sp_normalization = norm, sp_distance_metric = dist\<rparr>, r) }"

definition write_embedding :: "embedding_result_payload \<Rightarrow> bytes" where
  "write_embedding e = write_embedding_space (emb_space e) @
     write_u32 (of_nat (length (emb_vector e))) @ concat (map write_u32 (emb_vector e))"

text \<open>The three checks before the vector is allocated come first.\<close>

definition read_embedding :: "embedding_result_payload reader" where
  "read_embedding r =
     do { (sp, r) \<leftarrow> read_embedding_space r;
          (n, r) \<leftarrow> read_u32 r;
          if LINEP_V02_MAX_EMBEDDING_DIMENSIONS < unat n then None
          else if length r div 4 < unat n then None
          else if n \<noteq> sp_dimensions sp then None
          else do { (vec, r) \<leftarrow> read_many read_u32 (unat n) r;
                    Some (\<lparr>emb_space = sp, emb_vector = vec\<rparr>, r) } }"

definition write_detection :: "vision_detection \<Rightarrow> bytes" where
  "write_detection d =
     write_u32 (det_class_id d) @ write_u32 (det_score d) @ write_u32 (box_x_min (det_box d)) @
     write_u32 (box_y_min (det_box d)) @ write_u32 (box_x_max (det_box d)) @
     write_u32 (box_y_max (det_box d)) @ write_string_u16 (det_label d)"

definition read_detection :: "vision_detection reader" where
  "read_detection r =
     do { (cls, r) \<leftarrow> read_u32 r;
          (score, r) \<leftarrow> read_u32 r;
          (x0, r) \<leftarrow> read_u32 r;
          (y0, r) \<leftarrow> read_u32 r;
          (x1, r) \<leftarrow> read_u32 r;
          (y1, r) \<leftarrow> read_u32 r;
          (label, r) \<leftarrow> read_string_u16 r;
          Some (\<lparr>det_class_id = cls, det_label = label, det_score = score,
                 det_box = \<lparr>box_x_min = x0, box_y_min = y0, box_x_max = x1, box_y_max = y1\<rparr>\<rparr>, r) }"

definition write_vision :: "vision_result_payload \<Rightarrow> bytes" where
  "write_vision v =
     write_u8 (vr_task v) @ write_string_u16 (vr_model_id v) @ write_string_u16 (vr_model_revision v) @
     (if vr_task v = vt_detect
      then write_string_u16 (vd_label_set_id (vr_detect v)) @
           write_u32 (vd_original_width (vr_detect v)) @ write_u32 (vd_original_height (vr_detect v)) @
           write_u32 (of_nat (length (vd_detections (vr_detect v)))) @
           concat (map write_detection (vd_detections (vr_detect v)))
      else [])"

definition read_vision :: "vision_result_payload reader" where
  "read_vision r =
     do { (task, r) \<leftarrow> read_u8 r;
          (mid, r) \<leftarrow> read_string_u16 r;
          (rev, r) \<leftarrow> read_string_u16 r;
          if task = vt_detect
          then do { (lsid, r) \<leftarrow> read_string_u16 r;
                    (w, r) \<leftarrow> read_u32 r;
                    (h, r) \<leftarrow> read_u32 r;
                    (n, r) \<leftarrow> read_u32 r;
                    if LINEP_V02_MAX_VISION_DETECTIONS < unat n then None
                    else if length r div 26 < unat n then None
                    else do { (ds, r) \<leftarrow> read_many read_detection (unat n) r;
                              Some (\<lparr>vr_task = task, vr_model_id = mid, vr_model_revision = rev,
                                vr_detect = \<lparr>vd_label_set_id = lsid, vd_original_width = w,
                                  vd_original_height = h, vd_detections = ds\<rparr>\<rparr>, r) } }
          else None }"

definition write_event_result :: "event_envelope \<Rightarrow> bytes" where
  "write_event_result e =
     (if evt_event_type e = re_embedding_result then write_embedding (evt_embedding e)
      else if evt_event_type e = re_vision_result then write_vision (evt_vision e)
      else [])"

definition read_event_result :: "event_envelope \<Rightarrow> event_envelope reader" where
  "read_event_result e r =
     (if evt_event_type e = re_embedding_result
      then do { (emb, r) \<leftarrow> read_embedding r; Some (e\<lparr>evt_embedding := emb\<rparr>, r) }
      else if evt_event_type e = re_vision_result
      then do { (vis, r) \<leftarrow> read_vision r; Some (e\<lparr>evt_vision := vis\<rparr>, r) }
      else Some (e, r))"

definition event_payload :: "event_envelope \<Rightarrow> bytes" where
  "event_payload e =
     write_u64 (evt_event_seq e) @ write_u8 (evt_event_type e) @ write_u8 (evt_outcome e) @
     write_u8 (err_category (evt_error e)) @ write_u32 (err_code (evt_error e)) @
     write_string_u16 (err_message (evt_error e)) @
     write_string_u16 (err_backend_diagnostic (evt_error e)) @
     write_string_u32 (evt_payload e) @ write_u64 (evt_timestamp_us e) @
     write_event_result e"

definition encode_event :: "event_envelope \<Rightarrow> bytes option" where
  "encode_event e =
     (if \<not> event_is_valid e then None
      else Some (close_envelope et_event (evt_stream e) (event_payload e)))"

text \<open>
  The argument \<open>out\<close> is the caller's event: its embedding and vision results stay when the
  event type does not carry one.
\<close>

definition decode_event :: "event_envelope \<Rightarrow> bytes \<Rightarrow> event_envelope option" where
  "decode_event out data =
     do { (hdr, r) \<leftarrow> open_envelope et_event data;
          (seq, r) \<leftarrow> read_u64 r;
          (ty, r) \<leftarrow> read_u8 r;
          (outcome, r) \<leftarrow> read_u8 r;
          (cat, r) \<leftarrow> read_u8 r;
          (code, r) \<leftarrow> read_u32 r;
          (msg, r) \<leftarrow> read_string_u16 r;
          (diag, r) \<leftarrow> read_string_u16 r;
          (payload, r) \<leftarrow> read_string_u32 r;
          (ts, r) \<leftarrow> read_u64 r;
          let e = out\<lparr>evt_stream := header_stream hdr, evt_event_seq := seq, evt_event_type := ty,
            evt_outcome := outcome, evt_payload := payload, evt_timestamp_us := ts,
            evt_error := \<lparr>err_category = cat, err_code = code, err_message = msg,
                          err_backend_diagnostic = diag\<rparr>\<rparr>;
          (e, r) \<leftarrow> read_event_result e r;
          if r \<noteq> [] then None
          else if event_is_valid e then Some e else None }"

section \<open>Controls\<close>

type_synonym runtime_control_type = u8
abbreviation (input) ct_unknown :: runtime_control_type where "ct_unknown \<equiv> 0"
abbreviation (input) ct_cancel :: runtime_control_type where "ct_cancel \<equiv> 1"
abbreviation (input) ct_window_update :: runtime_control_type where "ct_window_update \<equiv> 2"

record control_envelope =
  ctl_stream :: stream_identity
  ctl_control_type :: runtime_control_type
  ctl_reason :: string
  ctl_ack_offset_bytes :: u64

definition control_is_valid :: "control_envelope \<Rightarrow> bool" where
  [guard_defs]: "control_is_valid c \<longleftrightarrow>
     stream_is_valid (ctl_stream c) \<and> ctl_control_type c \<noteq> ct_unknown"

definition control_payload :: "control_envelope \<Rightarrow> bytes" where
  "control_payload c =
     write_u8 (ctl_control_type c) @ write_string_u16 (ctl_reason c) @
     write_u64 (ctl_ack_offset_bytes c)"

definition encode_control :: "control_envelope \<Rightarrow> bytes option" where
  "encode_control c =
     (if \<not> control_is_valid c then None
      else Some (close_envelope et_control (ctl_stream c) (control_payload c)))"

definition decode_control :: "bytes \<Rightarrow> control_envelope option" where
  "decode_control data =
     do { (hdr, r) \<leftarrow> open_envelope et_control data;
          (ty, r) \<leftarrow> read_u8 r;
          (reason, r) \<leftarrow> read_string_u16 r;
          (ack, r) \<leftarrow> read_u64 r;
          let c = \<lparr>ctl_stream = header_stream hdr, ctl_control_type = ty, ctl_reason = reason,
                   ctl_ack_offset_bytes = ack\<rparr>;
          if r \<noteq> [] then None
          else if control_is_valid c then Some c else None }"

section \<open>Event and control properties\<close>

definition space_fits :: "embedding_space_descriptor \<Rightarrow> bool" where
  "space_fits sp \<longleftrightarrow> fits_u16 (sp_embedding_space_id sp) \<and> fits_u16 (sp_model_id sp) \<and>
     fits_u16 (sp_model_revision sp)"

interpretation space: exact_codec write_embedding_space read_embedding_space space_fits
proof
  show "read_embedding_space (write_embedding_space v @ r) = Some (v, r)" if "space_fits v" for v r
    using that by (simp add: read_embedding_space_def write_embedding_space_def space_fits_def)
  show "space_fits v \<and> b = write_embedding_space v @ r"
    if "read_embedding_space b = Some (v, r)" for b v r
    using that unfolding read_embedding_space_def
    by (auto simp: bind_eq_Some_conv space_fits_def write_embedding_space_def
        dest!: u8.enc_dec u32.enc_dec str16.enc_dec)
qed

interpretation detection: exact_codec write_detection read_detection "\<lambda>d. fits_u16 (det_label d)"
proof
  show "read_detection (write_detection v @ r) = Some (v, r)" if "fits_u16 (det_label v)" for v r
    using that by (simp add: read_detection_def write_detection_def)
  show "fits_u16 (det_label v) \<and> b = write_detection v @ r"
    if "read_detection b = Some (v, r)" for b v r
    using that unfolding read_detection_def
    by (auto simp: bind_eq_Some_conv write_detection_def dest!: u32.enc_dec str16.enc_dec)
qed

definition embedding_ok :: "embedding_result_payload \<Rightarrow> bool" where
  "embedding_ok e \<longleftrightarrow> space_fits (emb_space e) \<and> length (emb_vector e) \<le> 65536 \<and>
     length (emb_vector e) = unat (sp_dimensions (emb_space e))"

lemma length_concat_write_u32 [simp]: "length (concat (map write_u32 vs)) = 4 * length vs"
  by (induction vs) simp_all

interpretation embedding: exact_codec write_embedding read_embedding embedding_ok
proof
  fix v r assume ok: "embedding_ok v"
  then have "(of_nat (length (emb_vector v)) :: u32) = sp_dimensions (emb_space v)"
    by (simp add: embedding_ok_def)
  moreover have "read_many read_u32 (length (emb_vector v)) (concat (map write_u32 (emb_vector v)) @ r)
      = Some (emb_vector v, r)" by (rule u32.many_dec_enc) simp
  ultimately show "read_embedding (write_embedding v @ r) = Some (v, r)"
    using ok by (simp add: read_embedding_def write_embedding_def embedding_ok_def space.dec_enc)
next
  fix b v r assume "read_embedding b = Some (v, r)"
  then show "embedding_ok v \<and> b = write_embedding v @ r"
    unfolding read_embedding_def
    by (auto simp: bind_eq_Some_conv write_embedding_def embedding_ok_def split: if_splits
        dest!: u32.enc_dec space.enc_dec u32.many_enc_dec)
qed

definition vision_ok :: "vision_result_payload \<Rightarrow> bool" where
  "vision_ok v \<longleftrightarrow> vr_task v = vt_detect \<and> fits_u16 (vr_model_id v) \<and> fits_u16 (vr_model_revision v) \<and>
     fits_u16 (vd_label_set_id (vr_detect v)) \<and> length (vd_detections (vr_detect v)) \<le> 1000 \<and>
     (\<forall>d \<in> set (vd_detections (vr_detect v)). fits_u16 (det_label d))"

lemma length_detections:
  "\<forall>d \<in> set ds. fits_u16 (det_label d) \<Longrightarrow> 26 * length ds \<le> length (concat (map write_detection ds))"
  by (induction ds) (auto simp: write_detection_def wire_len)

interpretation vision: exact_codec write_vision read_vision vision_ok
proof
  fix v r assume ok: "vision_ok v"
  let ?ds = "vd_detections (vr_detect v)"
  have "read_many read_detection (length ?ds) (concat (map write_detection ?ds) @ r) = Some (?ds, r)"
    by (rule detection.many_dec_enc) (use ok in \<open>simp add: vision_ok_def\<close>)
  moreover have "unat (of_nat (length ?ds) :: u32) = length ?ds"
    using ok by (simp add: vision_ok_def unat_of_nat)
  moreover have "length ?ds \<le> (length (concat (map write_detection ?ds)) + length r) div 26"
    using length_detections [of ?ds] ok by (simp add: vision_ok_def less_eq_div_iff_mult_less_eq)
  ultimately show "read_vision (write_vision v @ r) = Some (v, r)"
    using ok by (simp add: read_vision_def write_vision_def vision_ok_def)
next
  fix b v r assume "read_vision b = Some (v, r)"
  then show "vision_ok v \<and> b = write_vision v @ r"
    unfolding read_vision_def
    by (auto simp: bind_eq_Some_conv write_vision_def vision_ok_def split: if_splits
        dest!: u8.enc_dec u32.enc_dec str16.enc_dec detection.many_enc_dec)
qed

definition event_fits :: "event_envelope \<Rightarrow> bool" where
  "event_fits e \<longleftrightarrow> fits_u16 (err_message (evt_error e)) \<and>
     fits_u16 (err_backend_diagnostic (evt_error e)) \<and> fits_u32 (evt_payload e) \<and>
     (evt_event_type e = re_embedding_result \<longrightarrow> embedding_ok (evt_embedding e)) \<and>
     (evt_event_type e = re_vision_result \<longrightarrow> vision_ok (evt_vision e)) \<and>
     length (event_payload e) < 2 ^ 32"

definition keeps_other_results :: "event_envelope \<Rightarrow> event_envelope \<Rightarrow> bool" where
  "keeps_other_results out e \<longleftrightarrow>
     (evt_event_type e \<noteq> re_embedding_result \<longrightarrow> evt_embedding e = evt_embedding out) \<and>
     (evt_event_type e \<noteq> re_vision_result \<longrightarrow> evt_vision e = evt_vision out)"

definition result_fits :: "event_envelope \<Rightarrow> bool" where
  "result_fits e \<longleftrightarrow> (evt_event_type e = re_embedding_result \<longrightarrow> embedding_ok (evt_embedding e)) \<and>
     (evt_event_type e = re_vision_result \<longrightarrow> vision_ok (evt_vision e))"

lemma read_event_result_exact:
  assumes "read_event_result e r = Some (e', r')"
  shows "r = write_event_result e' @ r' \<and> result_fits e' \<and> keeps_other_results e e' \<and>
    e' = e\<lparr>evt_embedding := evt_embedding e', evt_vision := evt_vision e'\<rparr>"
  using assms
  by (auto simp: read_event_result_def write_event_result_def result_fits_def keeps_other_results_def
      bind_eq_Some_conv split: if_splits dest!: embedding.enc_dec vision.enc_dec)

lemma read_event_result_write:
  assumes "result_fits e" and "keeps_other_results out e"
    and "o' = e\<lparr>evt_embedding := evt_embedding out, evt_vision := evt_vision out\<rparr>"
  shows "read_event_result o' (write_event_result e @ r) = Some (e, r)"
  using assms
  by (cases e) (auto simp: read_event_result_def write_event_result_def result_fits_def
      keeps_other_results_def embedding.dec_enc vision.dec_enc)

lemma decode_event_exact:
  assumes "decode_event out data = Some e"
  shows "event_is_valid e \<and> event_fits e \<and> keeps_other_results out e \<and>
    (\<exists>h. open_envelope et_event data = Some (h, event_payload e) \<and> evt_stream e = header_stream h)"
proof -
  from assms obtain h p seq ty oc cat code msg diag pl ts r
    where p: "open_envelope et_event data = Some (h, p)"
    and r: "read_event_result (out\<lparr>evt_stream := header_stream h, evt_event_seq := seq,
      evt_event_type := ty, evt_outcome := oc, evt_payload := pl, evt_timestamp_us := ts,
      evt_error := \<lparr>err_category = cat, err_code = code, err_message = msg,
        err_backend_diagnostic = diag\<rparr>\<rparr>) r = Some (e, [])" and v: "event_is_valid e"
    and b: "p = write_u64 seq @ write_u8 ty @ write_u8 oc @ write_u8 cat @ write_u32 code @
      write_string_u16 msg @ write_string_u16 diag @ write_string_u32 pl @ write_u64 ts @ r"
    and f: "fits_u16 msg" "fits_u16 diag" "fits_u32 pl"
    unfolding decode_event_def Let_def
    by (auto simp: bind_eq_Some_conv split: if_splits
        dest!: u8.enc_dec u32.enc_dec u64.enc_dec str16.enc_dec str32.enc_dec)
  let ?e0 = "out\<lparr>evt_stream := header_stream h, evt_event_seq := seq,
      evt_event_type := ty, evt_outcome := oc, evt_payload := pl, evt_timestamp_us := ts,
      evt_error := \<lparr>err_category = cat, err_code = code, err_message = msg,
        err_backend_diagnostic = diag\<rparr>\<rparr>"
  from read_event_result_exact [OF r] have e: "r = write_event_result e" "result_fits e"
    "keeps_other_results ?e0 e"
    and e': "e = ?e0\<lparr>evt_embedding := evt_embedding e, evt_vision := evt_vision e\<rparr>" by auto
  have same: "evt_event_seq e = seq" "evt_event_type e = ty" "evt_outcome e = oc" "evt_payload e = pl"
    "evt_timestamp_us e = ts" "evt_stream e = header_stream h"
    "evt_error e = \<lparr>err_category = cat, err_code = code, err_message = msg, err_backend_diagnostic = diag\<rparr>"
    by (subst e', simp)+
  have "p = event_payload e" using b e(1) same by (simp add: event_payload_def)
  with p e f same v open_envelope_payload [OF p] show ?thesis
    by (auto simp: event_fits_def result_fits_def keeps_other_results_def)
qed

lemma decode_event_payload:
  assumes "event_fits e" and "event_is_valid e" and "keeps_other_results out e"
  shows "decode_event out (close_envelope et_event (evt_stream e) (event_payload e)) = Some e"
proof -
  let ?o = "out\<lparr>evt_stream := evt_stream e, evt_event_seq := evt_event_seq e,
      evt_event_type := evt_event_type e, evt_outcome := evt_outcome e,
      evt_payload := evt_payload e, evt_timestamp_us := evt_timestamp_us e, evt_error := evt_error e\<rparr>"
  have "?o = e\<lparr>evt_embedding := evt_embedding out, evt_vision := evt_vision out\<rparr>"
    by (cases e; cases out) simp
  from read_event_result_write [OF _ assms(3) this, of "[]"] assms(1)
  have "read_event_result ?o (write_event_result e) = Some (e, [])"
    by (simp add: event_fits_def result_fits_def)
  with assms show ?thesis
    by (simp add: decode_event_def event_payload_def event_fits_def open_close Let_def)
qed

text \<open>
  Events survive the wire. A valid event whose strings and results fit their length fields
  encodes, and decodes to the same event; results its type does not carry are those of the
  caller's event.
\<close>

theorem event_roundtrip:
  assumes "event_fits e" and "event_is_valid e"
  shows "\<exists>buf. encode_event e = Some buf \<and>
    decode_event out buf = Some (e\<lparr>
      evt_embedding := (if evt_event_type e = re_embedding_result then evt_embedding e else evt_embedding out),
      evt_vision := (if evt_event_type e = re_vision_result then evt_vision e else evt_vision out)\<rparr>)"
  (is "\<exists>buf. _ \<and> _ = Some ?e'")
proof -
  have p: "event_payload ?e' = event_payload e"
    by (simp add: event_payload_def write_event_result_def)
  have "event_fits ?e'" using assms(1) p by (simp add: event_fits_def)
  moreover have "event_is_valid ?e' = event_is_valid e"
    by (cases "evt_event_type e = re_embedding_result"; cases "evt_event_type e = re_vision_result")
      (simp_all add: event_is_valid_def event_is_terminal_def)
  moreover have "keeps_other_results out ?e'" by (simp add: keeps_other_results_def)
  ultimately have "decode_event out (close_envelope et_event (evt_stream ?e') (event_payload ?e')) = Some ?e'"
    using assms(2) by (intro decode_event_payload) simp_all
  then show ?thesis unfolding p using assms(2) by (simp add: encode_event_def)
qed

text \<open>
  What the event decoder can allocate. Whatever buffer it accepts, the event is valid, its
  payload bytes are exactly the re-encoding of the event, and the vectors it built are bounded
  by the protocol limits and by the bytes received: at most 65536 floats of 4 bytes, at most
  1000 detections of 26 bytes or more.
\<close>

theorem event_decoder_bounded:
  assumes "decode_event out data = Some e"
  shows "event_is_valid e \<and>
    (\<exists>h. open_envelope et_event data = Some (h, event_payload e) \<and> evt_stream e = header_stream h) \<and>
    (evt_event_type e = re_embedding_result \<longrightarrow>
       length (emb_vector (evt_embedding e)) \<le> 65536 \<and>
       4 * length (emb_vector (evt_embedding e)) \<le> length data) \<and>
    (evt_event_type e = re_vision_result \<longrightarrow>
       length (vd_detections (vr_detect (evt_vision e))) \<le> 1000 \<and>
       26 * length (vd_detections (vr_detect (evt_vision e))) \<le> length data)"
proof -
  from decode_event_exact [OF assms] obtain h where v: "event_is_valid e" "event_fits e"
    and h: "open_envelope et_event data = Some (h, event_payload e)" "evt_stream e = header_stream h"
    by blast
  have p: "length (event_payload e) \<le> length data"
    using h(1) open_envelope_payload [OF h(1)]
    by (auto simp: open_envelope_def Let_def split: option.splits if_splits)
  have "4 * length (emb_vector (evt_embedding e)) \<le> length (event_payload e)"
    if "evt_event_type e = re_embedding_result"
    using that by (simp add: event_payload_def write_event_result_def write_embedding_def)
  moreover have "26 * length (vd_detections (vr_detect (evt_vision e))) \<le> length (event_payload e)"
    if "evt_event_type e = re_vision_result"
    using that v(2) length_detections [of "vd_detections (vr_detect (evt_vision e))"]
    by (simp add: event_payload_def write_event_result_def write_vision_def event_fits_def vision_ok_def)
  ultimately show ?thesis using v h p
    by (auto simp: event_fits_def embedding_ok_def vision_ok_def)
qed

text \<open>
  The control codec is exact. The decoder accepts a buffer exactly when its frame opens as a
  control envelope whose payload is the encoding of the envelope it returns, with the stream of
  the header, a reason that fits its length field, and a valid stream and control type.
\<close>

theorem control_codec_exact:
  "decode_control data = Some c \<longleftrightarrow>
     (\<exists>h. open_envelope et_control data = Some (h, control_payload c) \<and> ctl_stream c = header_stream h)
     \<and> fits_u16 (ctl_reason c) \<and> control_is_valid c"
proof
  assume "decode_control data = Some c"
  then show "(\<exists>h. open_envelope et_control data = Some (h, control_payload c) \<and> ctl_stream c = header_stream h)
     \<and> fits_u16 (ctl_reason c) \<and> control_is_valid c"
    unfolding decode_control_def Let_def
    by (auto simp: bind_eq_Some_conv control_payload_def split: if_splits
        dest!: u8.enc_dec u64.enc_dec str16.enc_dec)
next
  assume "(\<exists>h. open_envelope et_control data = Some (h, control_payload c) \<and> ctl_stream c = header_stream h)
     \<and> fits_u16 (ctl_reason c) \<and> control_is_valid c"
  then show "decode_control data = Some c"
    unfolding decode_control_def Let_def
    by (cases c) (auto simp: control_payload_def)
qed

section \<open>Capabilities\<close>

definition write_vision_model :: "vision_model_descriptor \<Rightarrow> bytes" where
  "write_vision_model vm =
     write_string_u16 (vm_model_id vm) @ write_string_u16 (vm_model_revision vm) @
     write_string_u16 (vm_label_set_id vm) @ write_u8 (vm_task vm) @ write_u32 (vm_max_detections vm) @
     write_u16 (of_nat (length (vm_custom_labels vm))) @
     concat (map write_string_u16 (vm_custom_labels vm))"

definition write_decision_model :: "decision_model_descriptor \<Rightarrow> bytes" where
  "write_decision_model dm =
     write_string_u16 (dm_model_id dm) @ write_string_u16 (dm_model_revision dm) @
     write_string_u16 (dm_decision_type dm)"

definition capabilities_payload :: "runtime_capabilities_descriptor \<Rightarrow> bytes" where
  "capabilities_payload d =
     write_u16 (of_nat (length (cap_supported_profiles d))) @
     concat (map write_u8 (cap_supported_profiles d)) @
     write_u32 (cap_max_context_tokens d) @ write_u32 (cap_max_output_tokens d) @
     write_bool (cap_supports_streaming d) @ write_bool (cap_supports_cancellation d) @
     write_bool (cap_supports_tool_calling d) @ write_bool (cap_supports_reasoning_deltas d) @
     write_bool (cap_supports_structured_messages d) @
     write_u16 (of_nat (length (cap_supported_models d))) @
     concat (map write_string_u16 (cap_supported_models d)) @
     write_u16 (of_nat (length (cap_supported_embedding_spaces d))) @
     concat (map write_embedding_space (cap_supported_embedding_spaces d)) @
     (if cap_supported_decision_models d \<noteq> [] then
        write_u16 (of_nat (length (cap_supported_vision_models d))) @
        concat (map write_vision_model (cap_supported_vision_models d)) @
        write_u16 (of_nat (length (cap_supported_decision_models d))) @
        concat (map write_decision_model (cap_supported_decision_models d))
      else if cap_supported_vision_models d \<noteq> [] then
        write_u16 (of_nat (length (cap_supported_vision_models d))) @
        concat (map write_vision_model (cap_supported_vision_models d))
      else [])"

definition encode_capabilities :: "runtime_capabilities_descriptor \<Rightarrow> bytes" where
  "encode_capabilities d =
     close_envelope et_capabilities \<lparr>request_id = 0, execution_id = 0, output_id = 0\<rparr>
       (capabilities_payload d)"

definition read_vision_model :: "vision_model_descriptor reader" where
  "read_vision_model r =
     do { (mid, r) \<leftarrow> read_string_u16 r;
          (rev, r) \<leftarrow> read_string_u16 r;
          (lsid, r) \<leftarrow> read_string_u16 r;
          (t, r) \<leftarrow> read_u8 r;
          (mx, r) \<leftarrow> read_u32 r;
          (n, r) \<leftarrow> read_u16 r;
          (labels, r) \<leftarrow> read_many read_string_u16 (unat n) r;
          Some (\<lparr>vm_model_id = mid, vm_model_revision = rev, vm_label_set_id = lsid, vm_task = t,
                 vm_max_detections = mx, vm_custom_labels = labels\<rparr>, r) }"

definition read_decision_model :: "decision_model_descriptor reader" where
  "read_decision_model r =
     do { (mid, r) \<leftarrow> read_string_u16 r;
          (rev, r) \<leftarrow> read_string_u16 r;
          (ty, r) \<leftarrow> read_string_u16 r;
          let dm = \<lparr>dm_model_id = mid, dm_model_revision = rev, dm_decision_type = ty\<rparr>;
          if \<not> decision_model_is_valid dm then None else Some (dm, r) }"

text \<open>The two optional sections at the end: absent when nothing is left.\<close>

definition read_vision_models :: "vision_model_descriptor list reader" where
  "read_vision_models r =
     (if r \<noteq> [] then do { (n, r) \<leftarrow> read_u16 r; read_many read_vision_model (unat n) r }
      else Some ([], r))"

definition read_decision_models :: "decision_model_descriptor list reader" where
  "read_decision_models r =
     (if r \<noteq> [] then
        do { (n, r) \<leftarrow> read_u16 r;
             if LINEP_V02_MAX_DECISION_MODELS < unat n \<or> length r div 6 < unat n then None
             else read_many read_decision_model (unat n) r }
      else Some ([], r))"

definition decode_capabilities_payload ::
  "bytes \<Rightarrow> bool \<Rightarrow> runtime_capabilities_descriptor option" where
  "decode_capabilities_payload r five_bools =
     do { (n, r) \<leftarrow> read_u16 r;
          (profs, r) \<leftarrow> read_many read_u8 (unat n) r;
          (ctx, r) \<leftarrow> read_u32 r;
          (outt, r) \<leftarrow> read_u32 r;
          (b1, r) \<leftarrow> read_u8 r;
          (b2, r) \<leftarrow> read_u8 r;
          (b3, r) \<leftarrow> read_u8 r;
          (b4, r) \<leftarrow> read_u8 r;
          (b5, r) \<leftarrow> (if five_bools then read_u8 r else Some (0, r));
          (n, r) \<leftarrow> read_u16 r;
          (models, r) \<leftarrow> read_many read_string_u16 (unat n) r;
          (n, r) \<leftarrow> read_u16 r;
          (spaces, r) \<leftarrow> read_many read_embedding_space (unat n) r;
          (vms, r) \<leftarrow> read_vision_models r;
          (dms, r) \<leftarrow> read_decision_models r;
          if r \<noteq> [] then None
          else Some \<lparr>cap_supported_profiles = profs, cap_max_context_tokens = ctx,
            cap_max_output_tokens = outt, cap_supports_streaming = (b1 \<noteq> 0),
            cap_supports_cancellation = (b2 \<noteq> 0), cap_supports_tool_calling = (b3 \<noteq> 0),
            cap_supports_reasoning_deltas = (b4 \<noteq> 0), cap_supports_structured_messages = (b5 \<noteq> 0),
            cap_supported_models = models, cap_supported_embedding_spaces = spaces,
            cap_supported_vision_models = vms, cap_supported_decision_models = dms\<rparr> }"

definition decode_capabilities :: "bytes \<Rightarrow> runtime_capabilities_descriptor option" where
  "decode_capabilities data =
     (case open_envelope et_capabilities data of None \<Rightarrow> None
      | Some (hdr, payload) \<Rightarrow>
          (case decode_capabilities_payload payload True of
             Some d \<Rightarrow> Some d
           | None \<Rightarrow> decode_capabilities_payload payload False))"

definition vision_model_fits :: "vision_model_descriptor \<Rightarrow> bool" where
  "vision_model_fits vm \<longleftrightarrow> fits_u16 (vm_model_id vm) \<and> fits_u16 (vm_model_revision vm) \<and>
     fits_u16 (vm_label_set_id vm) \<and> length (vm_custom_labels vm) < 2 ^ 16 \<and>
     (\<forall>l \<in> set (vm_custom_labels vm). fits_u16 l)"

interpretation vision_model: exact_codec write_vision_model read_vision_model vision_model_fits
proof
  fix v r assume ok: "vision_model_fits v"
  have "read_many read_string_u16 (length (vm_custom_labels v))
      (concat (map write_string_u16 (vm_custom_labels v)) @ r) = Some (vm_custom_labels v, r)"
    by (rule str16.many_dec_enc) (use ok in \<open>simp add: vision_model_fits_def\<close>)
  moreover have "unat (of_nat (length (vm_custom_labels v)) :: u16) = length (vm_custom_labels v)"
    using ok by (simp add: vision_model_fits_def unat_of_nat)
  ultimately show "read_vision_model (write_vision_model v @ r) = Some (v, r)"
    using ok by (simp add: read_vision_model_def write_vision_model_def vision_model_fits_def)
next
  fix b v r assume "read_vision_model b = Some (v, r)"
  then obtain n where "b = write_string_u16 (vm_model_id v) @ write_string_u16 (vm_model_revision v) @
     write_string_u16 (vm_label_set_id v) @ write_u8 (vm_task v) @ write_u32 (vm_max_detections v) @
     write_u16 n @ concat (map write_string_u16 (vm_custom_labels v)) @ r"
    and n: "length (vm_custom_labels v) = unat n" and "\<forall>l \<in> set (vm_custom_labels v). fits_u16 l"
    and "fits_u16 (vm_model_id v)" "fits_u16 (vm_model_revision v)" "fits_u16 (vm_label_set_id v)"
    unfolding read_vision_model_def
    by (auto simp: bind_eq_Some_conv
        dest!: u8.enc_dec u16.enc_dec u32.enc_dec str16.enc_dec str16.many_enc_dec)
  moreover have "unat n < 2 ^ 16" using unat_bound [of n] by simp
  ultimately show "vision_model_fits v \<and> b = write_vision_model v @ r"
    by (simp add: vision_model_fits_def write_vision_model_def)
qed

definition decision_model_fits :: "decision_model_descriptor \<Rightarrow> bool" where
  "decision_model_fits dm \<longleftrightarrow> decision_model_is_valid dm \<and> fits_u16 (dm_model_id dm) \<and>
     fits_u16 (dm_model_revision dm) \<and> fits_u16 (dm_decision_type dm)"

lemma valid_decision_model_fits: "decision_model_is_valid dm \<Longrightarrow> decision_model_fits dm"
  by (simp add: decision_model_fits_def decision_model_is_valid_def fits_u16_def)

interpretation decision_model: exact_codec write_decision_model read_decision_model decision_model_fits
proof
  show "read_decision_model (write_decision_model v @ r) = Some (v, r)" if "decision_model_fits v" for v r
    using that by (cases v) (simp add: read_decision_model_def write_decision_model_def decision_model_fits_def Let_def)
  show "decision_model_fits v \<and> b = write_decision_model v @ r"
    if "read_decision_model b = Some (v, r)" for b v r
    using that unfolding read_decision_model_def Let_def
    by (auto simp: bind_eq_Some_conv decision_model_fits_def write_decision_model_def
        split: if_splits dest!: str16.enc_dec)
qed

definition capabilities_fit :: "runtime_capabilities_descriptor \<Rightarrow> bool" where
  "capabilities_fit d \<longleftrightarrow> length (cap_supported_profiles d) < 2 ^ 16 \<and>
     length (cap_supported_models d) < 2 ^ 16 \<and> (\<forall>m \<in> set (cap_supported_models d). fits_u16 m) \<and>
     length (cap_supported_embedding_spaces d) < 2 ^ 16 \<and>
     (\<forall>s \<in> set (cap_supported_embedding_spaces d). space_fits s) \<and>
     length (cap_supported_vision_models d) < 2 ^ 16 \<and>
     (\<forall>v \<in> set (cap_supported_vision_models d). vision_model_fits v) \<and>
     length (cap_supported_decision_models d) \<le> 1024 \<and>
     (\<forall>m \<in> set (cap_supported_decision_models d). decision_model_is_valid m) \<and>
     length (capabilities_payload d) < 2 ^ 32"

lemma length_decision_models:
  "\<forall>m \<in> set ms. decision_model_is_valid m \<Longrightarrow>
     6 * length ms \<le> length (concat (map write_decision_model ms))"
  by (induction ms) (auto simp: write_decision_model_def wire_len decision_model_fits_def
      dest!: valid_decision_model_fits)

lemma read_decision_models_write:
  assumes "length ms \<le> 1024" and "\<forall>m \<in> set ms. decision_model_is_valid m"
  shows "read_decision_models (write_u16 (of_nat (length ms)) @ concat (map write_decision_model ms))
    = Some (ms, [])"
proof -
  have "read_many read_decision_model (length ms) (concat (map write_decision_model ms)) = Some (ms, [])"
    using decision_model.many_dec_enc [of ms "[]"] assms(2) by (simp add: valid_decision_model_fits)
  moreover have "unat (of_nat (length ms) :: u16) = length ms" using assms(1) by (simp add: unat_of_nat)
  moreover have "length ms \<le> length (concat (map write_decision_model ms)) div 6"
    using length_decision_models [OF assms(2)] by (simp add: less_eq_div_iff_mult_less_eq)
  ultimately show ?thesis using assms(1) by (simp add: read_decision_models_def)
qed

lemma read_vision_models_write:
  assumes "length ms < 2 ^ 16" and "\<forall>m \<in> set ms. vision_model_fits m"
  shows "read_vision_models (write_u16 (of_nat (length ms)) @ concat (map write_vision_model ms) @ r)
    = Some (ms, r)"
  using vision_model.many_dec_enc [of ms r] assms by (simp add: read_vision_models_def unat_of_nat)

lemma decode_capabilities_payload_write:
  assumes "capabilities_fit d"
  shows "decode_capabilities_payload (capabilities_payload d) True = Some d"
proof -
  have u: "n < 65536 \<Longrightarrow> unat (of_nat n :: u16) = n" for n by (simp add: unat_of_nat)
  have prof: "read_many read_u8 (length ps) (concat (map write_u8 ps) @ r) = Some (ps, r)" for ps r
    by (rule u8.many_dec_enc) simp
  have mods: "read_many read_string_u16 (length (cap_supported_models d))
      (concat (map write_string_u16 (cap_supported_models d)) @ r) = Some (cap_supported_models d, r)" for r
    by (rule str16.many_dec_enc) (use assms in \<open>simp add: capabilities_fit_def\<close>)
  have sps: "read_many read_embedding_space (length (cap_supported_embedding_spaces d))
      (concat (map write_embedding_space (cap_supported_embedding_spaces d)) @ r)
      = Some (cap_supported_embedding_spaces d, r)" for r
    by (rule space.many_dec_enc) (use assms in \<open>simp add: capabilities_fit_def\<close>)
  have vm: "read_vision_models (write_u16 (of_nat (length (cap_supported_vision_models d))) @
      concat (map write_vision_model (cap_supported_vision_models d)) @ r)
      = Some (cap_supported_vision_models d, r)" for r
    by (rule read_vision_models_write) (use assms in \<open>simp_all add: capabilities_fit_def\<close>)
  have dm: "read_decision_models (write_u16 (of_nat (length (cap_supported_decision_models d))) @
      concat (map write_decision_model (cap_supported_decision_models d)))
      = Some (cap_supported_decision_models d, [])"
    by (rule read_decision_models_write) (use assms in \<open>simp_all add: capabilities_fit_def\<close>)
  have none: "read_vision_models [] = Some ([], [])" "read_decision_models [] = Some ([], [])"
    by (simp_all add: read_vision_models_def read_decision_models_def)
  show ?thesis
    using assms mods sps dm vm vm [of "[]"] none
    unfolding decode_capabilities_payload_def capabilities_payload_def capabilities_fit_def
    by (simp add: u prof write_bool_def)
qed

text \<open>
  Capabilities survive the wire. A descriptor whose counts and strings fit their fields and
  whose decision models are valid and at most 1024 decodes from its encoding to itself, in each
  of the three layouts the encoder uses (no optional section, vision only, vision and decision);
  the fallback to the older layout is not reached.
\<close>

theorem capabilities_roundtrip:
  assumes "capabilities_fit d"
  shows "decode_capabilities (encode_capabilities d) = Some d"
  using assms decode_capabilities_payload_write [OF assms]
  by (simp add: decode_capabilities_def encode_capabilities_def open_close capabilities_fit_def)

end
