(* ===== verification/Session_Manager.thy ===== *)
theory Session_Manager
  imports Event_Envelopes Control_Plane
begin

unbundle bit_operations_syntax

text \<open>
  \<open>session_manager\<close> of \<open>LiNeP/src/v0_2/session.cpp\<close>: the streams of one connection, their
  back-pressure accounting, cancellation, the binding to a control-plane lease and the SL1
  sequence counters. Every method takes the manager's mutex, so each is one atomic step from a
  manager to a manager and a result. The \<open>out_err\<close> argument of the code is the \<open>Inl\<close> side: the
  callers pass a default error, of which the methods set category, code and message. A
  \<open>std::size_t\<close> is a 64-bit word.
\<close>

section \<open>State\<close>

datatype session_binding_state = Unbound | Bound_Current | Bound_Stale

record session_descriptor =
  sd_session_id :: u64
  sd_max_inflight_streams :: u64
  sd_max_buffered_bytes_per_stream :: u64
  sd_require_lease :: bool
  sd_require_sl1 :: bool
  sd_current_key_id :: u16
  sd_previous_key_id :: u16
  sd_default_key_id :: u16
  sd_sl1_keys :: "(u16, bytes) umap"

definition default_session_descriptor :: session_descriptor where
  "default_session_descriptor = \<lparr>sd_session_id = 0, sd_max_inflight_streams = 64,
     sd_max_buffered_bytes_per_stream = 1048576, sd_require_lease = False, sd_require_sl1 = False,
     sd_current_key_id = 1, sd_previous_key_id = 0, sd_default_key_id = 1, sd_sl1_keys = []\<rparr>"

record active_stream_state =
  as_stream :: stream_identity
  as_profile :: runtime_profile
  as_model_id :: string
  as_lifecycle :: lifecycle_status
  as_last_event_seq :: u64
  as_total_produced_bytes :: u64
  as_acknowledged_offset_bytes :: u64

definition unacked_buffered_bytes :: "active_stream_state \<Rightarrow> u64" where
  "unacked_buffered_bytes s =
     (if as_total_produced_bytes s \<le> as_acknowledged_offset_bytes s then 0
      else as_total_produced_bytes s - as_acknowledged_offset_bytes s)"

record session_manager =
  sm_descriptor :: session_descriptor
  sm_active_streams :: "(stream_identity, active_stream_state) umap"
  sm_binding_state :: session_binding_state
  sm_bound_bind :: session_bind_envelope
  sm_binding_generation :: u64
  sm_is_sl1_active :: bool
  sm_next_outbound_auth_seq :: u32
  sm_expected_inbound_auth_seq :: u32

definition new_session_manager :: "session_descriptor \<Rightarrow> session_manager" where
  "new_session_manager d = \<lparr>sm_descriptor = d, sm_active_streams = [], sm_binding_state = Unbound,
     sm_bound_bind = new_session_bind, sm_binding_generation = 0, sm_is_sl1_active = False,
     sm_next_outbound_auth_seq = 1, sm_expected_inbound_auth_seq = 1\<rparr>"

type_synonym 'a outcome = "session_manager \<times> (runtime_error + 'a)"

abbreviation (input) stream_terminal :: "active_stream_state \<Rightarrow> bool" where
  "stream_terminal s \<equiv> lc_state (as_lifecycle s) = Terminal"

definition get_active_stream_count :: "session_manager \<Rightarrow> nat" where
  "get_active_stream_count m =
     length (filter (\<lambda>(k, s). lc_state (as_lifecycle s) \<noteq> Terminal) (sm_active_streams m))"

definition has_stream :: "session_manager \<Rightarrow> stream_identity \<Rightarrow> bool" where
  "has_stream m i \<longleftrightarrow> lookup (sm_active_streams m) i \<noteq> None"

definition get_stream_state :: "session_manager \<Rightarrow> stream_identity \<Rightarrow> active_stream_state option" where
  "get_stream_state m i = lookup (sm_active_streams m) i"

definition is_stream_terminal :: "session_manager \<Rightarrow> stream_identity \<Rightarrow> bool" where
  "is_stream_terminal m i = (case lookup (sm_active_streams m) i of None \<Rightarrow> False
     | Some s \<Rightarrow> lc_state (as_lifecycle s) = Terminal)"

definition is_cancel_requested :: "session_manager \<Rightarrow> stream_identity \<Rightarrow> bool" where
  "is_cancel_requested m i = (case lookup (sm_active_streams m) i of None \<Rightarrow> False
     | Some s \<Rightarrow> lc_state (as_lifecycle s) = Cancel_Requested)"

definition set_stream :: "session_manager \<Rightarrow> active_stream_state \<Rightarrow> stream_identity \<Rightarrow> session_manager" where
  "set_stream m s i = m\<lparr>sm_active_streams := AList.update i s (sm_active_streams m)\<rparr>"

section \<open>Requests and events\<close>

definition new_active_stream :: "request_envelope \<Rightarrow> active_stream_state" where
  "new_active_stream req = \<lparr>as_stream = req_stream req, as_profile = req_profile req,
     as_model_id = req_model_id req,
     as_lifecycle = fst (transition_to new_lifecycle Accepted to_unknown),
     as_last_event_seq = 0, as_total_produced_bytes = 0, as_acknowledged_offset_bytes = 0\<rparr>"

definition submit_request :: "session_manager \<Rightarrow> request_envelope \<Rightarrow> unit outcome" where
  "submit_request m req =
     (if \<not> request_is_valid req
      then (m, Inl (mk_error ec_bad_request 400
        ''Invalid request envelope: missing stream identity, model ID, or profile''))
      else if sd_require_lease (sm_descriptor m) \<and> sm_binding_state m = Unbound
      then (m, Inl (mk_error ec_unauthorized 401
        ''Connection is UNBOUND: valid SESSION_BIND required before REQUEST''))
      else if sd_require_lease (sm_descriptor m) \<and> sm_binding_state m = Bound_Stale
      then (m, Inl (mk_error ec_unauthorized 401
        ''stale_binding: control epoch or lease rotated, re-bind required before new REQUEST''))
      else if lookup (sm_active_streams m) (req_stream req) \<noteq> None
      then (m, Inl (mk_error ec_bad_request 409 ''Stream identity already active in session''))
      else if unat (sd_max_inflight_streams (sm_descriptor m)) \<le> get_active_stream_count m
      then (m, Inl (mk_error ec_resource_exhausted 503
        ''Max in-flight stream limit reached on session (backpressure)''))
      else (set_stream m (new_active_stream req) (req_stream req), Inr ()))"

definition event_bytes :: "event_envelope \<Rightarrow> u64" where
  "event_bytes e = of_nat (length (evt_payload e)) +
     (if evt_event_type e = re_embedding_result
      then of_nat (length (emb_vector (evt_embedding e))) * 4 else 0)"

definition terminal_outcome_of :: "event_envelope \<Rightarrow> terminal_outcome" where
  "terminal_outcome_of e =
     (if evt_outcome e = to_unknown then
        (if evt_event_type e = re_completed then to_completed
         else if evt_event_type e = re_cancelled then to_cancelled
         else if evt_event_type e = re_failed then to_failed
         else to_completed)
      else evt_outcome e)"

text \<open>The effect of an accepted event on its stream.\<close>

definition apply_event :: "event_envelope \<Rightarrow> active_stream_state \<Rightarrow> active_stream_state" where
  "apply_event e s =
     (let s = (if lc_state (as_lifecycle s) = Accepted \<and> \<not> event_is_terminal e
               then s\<lparr>as_lifecycle := fst (transition_to (as_lifecycle s) Started to_unknown)\<rparr> else s);
          s = s\<lparr>as_total_produced_bytes := as_total_produced_bytes s + event_bytes e\<rparr>;
          s = (if event_is_terminal e
               then s\<lparr>as_lifecycle := fst (transition_to (as_lifecycle s) Terminal (terminal_outcome_of e)),
                      as_acknowledged_offset_bytes := as_total_produced_bytes s\<rparr>
               else s)
      in s\<lparr>as_last_event_seq := evt_event_seq e\<rparr>)"

definition dispatch_event :: "session_manager \<Rightarrow> event_envelope \<Rightarrow> unit outcome" where
  "dispatch_event m e =
     (if \<not> event_is_valid e
      then (m, Inl (mk_error ec_bad_request 400
        ''Invalid event envelope: missing stream identity or event type''))
      else case lookup (sm_active_streams m) (evt_stream e) of
        None \<Rightarrow> (m, Inl (mk_error ec_bad_request 404 ''Stream identity not found in active session''))
      | Some s \<Rightarrow>
          if lc_state (as_lifecycle s) = Terminal
          then (m, Inl (mk_error ec_bad_request 410
            ''Stream has already reached terminal state; no further events allowed''))
          else if evt_event_seq e = 0 \<or> evt_event_seq e \<le> as_last_event_seq s
          then (m, Inl (mk_error ec_bad_request 422
            ''Semantic event_seq must be >= 1 and strictly greater than last_event_seq''))
          else if sd_max_buffered_bytes_per_stream (sm_descriptor m)
                    < unacked_buffered_bytes s + event_bytes e
          then (m, Inl (mk_error ec_resource_exhausted 507
            ''Stream buffer limit exceeded (unacked backpressure protection)''))
          else (set_stream m (apply_event e s) (evt_stream e), Inr ()))"

section \<open>Acknowledgement\<close>

definition acknowledge_stream_offset ::
  "session_manager \<Rightarrow> stream_identity \<Rightarrow> u64 \<Rightarrow> session_manager \<times> bool" where
  "acknowledge_stream_offset m i offset =
     (case lookup (sm_active_streams m) i of None \<Rightarrow> (m, False)
      | Some s \<Rightarrow>
          if offset \<le> as_acknowledged_offset_bytes s then (m, True)
          else if as_total_produced_bytes s < offset then (m, False)
          else (set_stream m (s\<lparr>as_acknowledged_offset_bytes := offset\<rparr>) i, True))"

definition acknowledge_stream_drain ::
  "session_manager \<Rightarrow> stream_identity \<Rightarrow> u64 \<Rightarrow> session_manager \<times> bool" where
  "acknowledge_stream_drain m i drained =
     (case lookup (sm_active_streams m) i of None \<Rightarrow> (m, False)
      | Some s \<Rightarrow>
          let target = as_acknowledged_offset_bytes s + drained in
          if as_total_produced_bytes s < target then (m, False)
          else (set_stream m (s\<lparr>as_acknowledged_offset_bytes := target\<rparr>) i, True))"

section \<open>Cancellation and control\<close>

definition request_cancel :: "active_stream_state \<Rightarrow> active_stream_state \<times> bool" where
  "request_cancel s =
     (if lc_state (as_lifecycle s) \<noteq> Terminal \<and> lc_state (as_lifecycle s) \<noteq> Cancel_Requested
      then let (lc, ok) = transition_to (as_lifecycle s) Cancel_Requested to_unknown
           in (s\<lparr>as_lifecycle := lc\<rparr>, ok)
      else (s, False))"

definition cancel_where ::
  "(stream_identity \<Rightarrow> bool) \<Rightarrow> (stream_identity, active_stream_state) umap
     \<Rightarrow> (stream_identity, active_stream_state) umap" where
  "cancel_where p = map_vals (\<lambda>k s. if p k then fst (request_cancel s) else s)"

definition count_cancelled ::
  "(stream_identity \<Rightarrow> bool) \<Rightarrow> (stream_identity, active_stream_state) umap \<Rightarrow> nat" where
  "count_cancelled p xs = length (filter (\<lambda>(k, s). p k \<and> snd (request_cancel s)) xs)"

definition cancel_execution :: "session_manager \<Rightarrow> u64 \<Rightarrow> session_manager \<times> nat \<times> bool" where
  "cancel_execution m exec =
     (if exec = 0 then (m, 0, False)
      else let p = (\<lambda>k. execution_id k = exec); n = count_cancelled p (sm_active_streams m)
           in (m\<lparr>sm_active_streams := cancel_where p (sm_active_streams m)\<rparr>, n, 0 < n))"

definition control_targets :: "control_envelope \<Rightarrow> stream_identity \<Rightarrow> bool" where
  "control_targets c k =
     (if request_id (ctl_stream c) \<noteq> 0 then k = ctl_stream c
      else execution_id k = execution_id (ctl_stream c))"

text \<open>The loop of WINDOW_UPDATE stops at the first future offset; the flags are found, refused.\<close>

fun window_loop :: "control_envelope \<Rightarrow> (stream_identity, active_stream_state) umap
    \<Rightarrow> (stream_identity, active_stream_state) umap \<times> bool \<times> bool" where
  "window_loop c [] = ([], False, False)"
| "window_loop c ((k, s) # xs) =
     (if \<not> control_targets c k
      then let (ys, found, bad) = window_loop c xs in ((k, s) # ys, found, bad)
      else if as_total_produced_bytes s < ctl_ack_offset_bytes c then ((k, s) # xs, True, True)
      else let s' = (if as_acknowledged_offset_bytes s < ctl_ack_offset_bytes c
                     then s\<lparr>as_acknowledged_offset_bytes := ctl_ack_offset_bytes c\<rparr> else s);
               (ys, found, bad) = window_loop c xs
           in ((k, s') # ys, True, bad))"

text \<open>\<open>Inr b\<close> is the returned flag where no error is set.\<close>

definition process_control :: "session_manager \<Rightarrow> control_envelope \<Rightarrow> bool outcome" where
  "process_control m c =
     (if \<not> control_is_valid c
      then (m, Inl (mk_error ec_bad_request 400 ''Invalid control envelope''))
      else if ctl_control_type c = ct_cancel then
        (let xs = sm_active_streams m;
             found = list_ex (\<lambda>(k, s). control_targets c k) xs;
             already_terminal =
               list_ex (\<lambda>(k, s). control_targets c k \<and> lc_state (as_lifecycle s) = Terminal) xs;
             any_cancelled = (0 < count_cancelled (control_targets c) xs);
             m' = m\<lparr>sm_active_streams := cancel_where (control_targets c) xs\<rparr>
         in if \<not> found
            then (m', Inl (mk_error ec_bad_request 404 ''Stream identity not found in active session''))
            else if already_terminal \<and> \<not> any_cancelled
            then (m', Inl (mk_error ec_bad_request 410
              ''Stream has already reached terminal state; cancel ignored''))
            else (m', Inr any_cancelled))
      else if ctl_control_type c = ct_window_update then
        (let (xs, found, bad) = window_loop c (sm_active_streams m);
             m' = m\<lparr>sm_active_streams := xs\<rparr>
         in if bad
            then (m', Inl (mk_error ec_bad_request 422
              ''Future ACK offset exceeds total produced stream bytes (protocol violation)''))
            else if \<not> found
            then (m', Inl (mk_error ec_bad_request 404 ''Stream identity not found in active session''))
            else (m', Inr True))
      else (m, Inl (mk_error ec_bad_request 400 ''Unsupported control type'')))"

definition terminate_stream :: "terminal_outcome \<Rightarrow> active_stream_state \<Rightarrow> active_stream_state" where
  "terminate_stream out s =
     (if lc_state (as_lifecycle s) \<noteq> Terminal
      then s\<lparr>as_lifecycle := fst (transition_to (as_lifecycle s) Terminal out),
             as_acknowledged_offset_bytes := as_total_produced_bytes s\<rparr>
      else s)"

definition terminate_all_active_streams ::
  "session_manager \<Rightarrow> terminal_outcome \<Rightarrow> session_manager \<times> nat" where
  "terminate_all_active_streams m out =
     (m\<lparr>sm_active_streams := map_vals (\<lambda>_. terminate_stream out) (sm_active_streams m)\<rparr>,
      get_active_stream_count m)"

section \<open>Session binding\<close>

definition mark_binding_stale :: "session_manager \<Rightarrow> session_manager" where
  "mark_binding_stale m =
     (if sm_binding_state m = Bound_Current
      then m\<lparr>sm_binding_state := Bound_Stale, sm_binding_generation := sm_binding_generation m + 1\<rparr>
      else m)"

text \<open>\<open>session_bind_envelope::operator==\<close> leaves the extension out.\<close>

definition same_bind :: "session_bind_envelope \<Rightarrow> session_bind_envelope \<Rightarrow> bool" where
  "same_bind a b \<longleftrightarrow> bind_identity a = bind_identity b \<and>
     bind_control_epoch a = bind_control_epoch b \<and> bind_lease_token a = bind_lease_token b \<and>
     bind_sl1_requested a = bind_sl1_requested b \<and> bind_key_id a = bind_key_id b"

definition rotation_allows :: "session_descriptor \<Rightarrow> u16 \<Rightarrow> bool" where
  "rotation_allows d kid \<longleftrightarrow>
     \<not> (sd_previous_key_id d \<noteq> 0 \<and> kid \<noteq> sd_current_key_id d \<and> kid \<noteq> sd_previous_key_id d)"

definition sl1_bind_error :: "session_descriptor \<Rightarrow> session_bind_envelope \<Rightarrow> string option" where
  "sl1_bind_error d b =
     (if auth_seq (bind_auth_ext b) \<noteq> 1 then Some ''auth_replay: bind auth_seq must be 1''
      else if sd_sl1_keys d = [] then Some ''unknown_key: no SL1 key configured''
      else if lookup (sd_sl1_keys d) (auth_key_id (bind_auth_ext b)) = None
      then Some ''unknown_key: key_id not recognized''
      else if \<not> rotation_allows d (auth_key_id (bind_auth_ext b))
      then Some ''unknown_key: key_id outside rotation window''
      else None)"

definition process_session_bind ::
  "session_manager \<Rightarrow> session_bind_envelope \<Rightarrow> control_plane_router option \<Rightarrow> unit outcome" where
  "process_session_bind m b router =
     (let refuse = (\<lambda>msg. (m, Inl (mk_error ec_unauthorized 401 msg))) in
      if \<not> session_bind_is_valid b
      then (m, Inl (mk_error ec_bad_request 400
        ''Invalid session_bind envelope: missing identity or zero lease token''))
      else if sm_binding_state m \<noteq> Unbound \<and> bind_identity (sm_bound_bind m) \<noteq> bind_identity b
      then refuse ''identity_change_on_existing_connection''
      else if (case router of None \<Rightarrow> False
               | Some r \<Rightarrow> \<not> validate_tcp_session_binding r (bind_identity b)
                               (bind_control_epoch b) (bind_lease_token b))
      then refuse ''lease_invalid''
      else if sd_require_sl1 (sm_descriptor m) \<and> \<not> bind_sl1_requested b
      then refuse ''auth_required: SL1 authentication required on this trunk''
      else case (if bind_sl1_requested b then sl1_bind_error (sm_descriptor m) b else None) of
        Some msg \<Rightarrow> refuse msg
      | None \<Rightarrow>
          if sm_binding_state m = Bound_Current \<and> same_bind (sm_bound_bind m) b then (m, Inr ())
          else let m = m\<lparr>sm_bound_bind := b, sm_binding_generation := sm_binding_generation m + 1,
                         sm_binding_state := Bound_Current\<rparr>
               in (if bind_sl1_requested b
                   then m\<lparr>sm_is_sl1_active := True, sm_next_outbound_auth_seq := 1,
                          sm_expected_inbound_auth_seq := 2\<rparr>
                   else m\<lparr>sm_is_sl1_active := False\<rparr>, Inr ()))"

section \<open>SL1 keys and frames\<close>

definition add_sl1_key :: "session_manager \<Rightarrow> u16 \<Rightarrow> bytes \<Rightarrow> session_manager \<times> bool" where
  "add_sl1_key m kid key =
     (if length key < 32 then (m, False)
      else (m\<lparr>sm_descriptor := (sm_descriptor m)
              \<lparr>sd_sl1_keys := AList.update kid key (sd_sl1_keys (sm_descriptor m))\<rparr>\<rparr>, True))"

definition get_sl1_key :: "session_manager \<Rightarrow> u16 \<Rightarrow> bytes option" where
  "get_sl1_key m kid = lookup (sd_sl1_keys (sm_descriptor m)) kid"

definition set_rotation_keys :: "session_manager \<Rightarrow> u16 \<Rightarrow> u16 \<Rightarrow> session_manager" where
  "set_rotation_keys m current_id previous_id =
     m\<lparr>sm_descriptor := (sm_descriptor m)\<lparr>sd_current_key_id := current_id,
         sd_previous_key_id := previous_id, sd_default_key_id := current_id\<rparr>\<rparr>"

definition set_default_key_id :: "session_manager \<Rightarrow> u16 \<Rightarrow> session_manager" where
  "set_default_key_id m kid =
     m\<lparr>sm_descriptor := (sm_descriptor m)\<lparr>sd_default_key_id := kid\<rparr>\<rparr>"

definition set_require_lease :: "session_manager \<Rightarrow> bool \<Rightarrow> session_manager" where
  "set_require_lease m b = m\<lparr>sm_descriptor := (sm_descriptor m)\<lparr>sd_require_lease := b\<rparr>\<rparr>"

definition set_require_sl1 :: "session_manager \<Rightarrow> bool \<Rightarrow> session_manager" where
  "set_require_sl1 m b = m\<lparr>sm_descriptor := (sm_descriptor m)\<lparr>sd_require_sl1 := b\<rparr>\<rparr>"

text \<open>The extension is returned where the code reads one.\<close>

definition verify_inbound_frame ::
  "session_manager \<Rightarrow> bytes \<Rightarrow> message_direction \<Rightarrow> wire_auth_extension option outcome" where
  "verify_inbound_frame m data dir =
     (let bad = (\<lambda>msg. (m, Inl (mk_error ec_bad_request 400 msg)));
          refuse = (\<lambda>msg. (m, Inl (mk_error ec_unauthorized 401 msg))) in
      if length data < LINEP_V02_HEADER_SIZE then bad ''Malformed envelope: truncated header''
      else case decode_header (take LINEP_V02_HEADER_SIZE data) of
        None \<Rightarrow> bad ''Malformed envelope header''
      | Some hdr \<Rightarrow>
        if hdr_envelope_type hdr = et_session_bind then (m, Inr None)
        else let has_auth = hdr_flags hdr AND LINEP_V02_FLAG_AUTHENTICATED \<noteq> 0 in
        if \<not> sm_is_sl1_active m then
          (if has_auth
           then refuse ''auth_unexpected: authenticated envelope received on non-SL1 connection''
           else (m, Inr None))
        else if \<not> has_auth
        then refuse ''auth_required: unauthenticated envelope received on SL1 connection''
        else if length data < LINEP_V02_HEADER_SIZE + LINEP_V02_AUTH_EXTENSION_SIZE
        then refuse ''auth_invalid: envelope truncated''
        else case decode_auth_extension
                    (take LINEP_V02_AUTH_EXTENSION_SIZE (drop LINEP_V02_HEADER_SIZE data)) of
          None \<Rightarrow> refuse ''auth_invalid: invalid auth extension''
        | Some ext \<Rightarrow>
          if auth_seq ext \<noteq> sm_expected_inbound_auth_seq m
          then refuse (''auth_replay: sequence mismatch (expected '' @
            to_string (sm_expected_inbound_auth_seq m) @ '', got '' @ to_string (auth_seq ext) @ '')'')
          else if \<not> rotation_allows (sm_descriptor m) (auth_key_id ext)
          then refuse (''unknown_key: key_id '' @ to_string (auth_key_id ext) @ '' outside rotation window'')
          else case lookup (sd_sl1_keys (sm_descriptor m)) (auth_key_id ext) of
            None \<Rightarrow> refuse (''unknown_key: key_id '' @ to_string (auth_key_id ext) @ '' not found'')
          | Some key \<Rightarrow>
            (case verify_envelope_buffer data (sm_bound_bind m) dir key of
               Inl msg \<Rightarrow> refuse (''auth_invalid: '' @ msg)
             | Inr ext' \<Rightarrow>
                 (if sm_expected_inbound_auth_seq m < 0xFFFFFFFF
                  then m\<lparr>sm_expected_inbound_auth_seq := sm_expected_inbound_auth_seq m + 1\<rparr> else m,
                  Inr (Some ext'))))"

text \<open>
  The current key, else the default one, else the first of the (unordered) key table.
\<close>

definition signing_key :: "session_descriptor \<Rightarrow> (u16 \<times> bytes) option" where
  "signing_key d =
     (case lookup (sd_sl1_keys d) (sd_current_key_id d) of
        Some key \<Rightarrow> Some (sd_current_key_id d, key)
      | None \<Rightarrow>
          (case lookup (sd_sl1_keys d) (sd_default_key_id d) of
             Some key \<Rightarrow> Some (sd_default_key_id d, key)
           | None \<Rightarrow> (case sd_sl1_keys d of [] \<Rightarrow> None | kv # _ \<Rightarrow> Some kv)))"

definition sign_outbound_frame ::
  "session_manager \<Rightarrow> bytes \<Rightarrow> message_direction \<Rightarrow> bytes outcome" where
  "sign_outbound_frame m buf dir =
     (if length buf < LINEP_V02_HEADER_SIZE
      then (m, Inl (mk_error ec_bad_request 400 ''Buffer too small for envelope header''))
      else case decode_header (take LINEP_V02_HEADER_SIZE buf) of
        None \<Rightarrow> (m, Inl (mk_error ec_bad_request 400 ''Failed to decode envelope header''))
      | Some hdr \<Rightarrow>
        if \<not> sm_is_sl1_active m then (m, Inr buf)
        else case signing_key (sm_descriptor m) of
          None \<Rightarrow> (m, Inl (mk_error ec_unauthorized 401
            ''unknown_key: no SL1 key configured for signing''))
        | Some (kid, key) \<Rightarrow>
          if 0xFFFFFFFF \<le> sm_next_outbound_auth_seq m
          then (m, Inl (mk_error ec_unauthorized 401
            ''auth_seq_exhausted: 32-bit sequence limit reached, re-bind required''))
          else case sign_envelope_buffer buf (sm_bound_bind m) dir (sm_next_outbound_auth_seq m)
                      kid key of
            None \<Rightarrow> (m, Inl (mk_error ec_internal 500 ''Failed to sign envelope buffer''))
          | Some out \<Rightarrow>
              (m\<lparr>sm_next_outbound_auth_seq := sm_next_outbound_auth_seq m + 1\<rparr>, Inr out))"

end
