(* ===== verification/Session_Streams.thy ===== *)
theory Session_Streams
  imports Session_Manager
begin

unbundle bit_operations_syntax

text \<open>
  What a session manager guarantees of its streams: an invariant of each stream, how one step
  may change a stream and the stream table (\<open>stream_evolves\<close>, \<open>table_evolves\<close>), the step
  relation of all public methods, the invariant of reachable managers, and the properties of
  back-pressure, event order, terminal streams and controls that follow.
\<close>

section \<open>Per-stream invariant\<close>

text \<open>
  The limit is the descriptor's; unacknowledged bytes stay within it, a terminal stream has
  nothing left to acknowledge, and the lifecycle has an outcome exactly when it is terminal.
\<close>

definition stream_inv :: "u64 \<Rightarrow> active_stream_state \<Rightarrow> bool" where
  "stream_inv limit s \<longleftrightarrow> unacked_buffered_bytes s \<le> limit \<and> outcome_inv (as_lifecycle s) \<and>
     lc_state (as_lifecycle s) \<noteq> Received \<and>
     (lc_state (as_lifecycle s) = Terminal \<longrightarrow>
        as_acknowledged_offset_bytes s = as_total_produced_bytes s)"

lemma unacked_zero [simp]: "as_acknowledged_offset_bytes s = as_total_produced_bytes s \<Longrightarrow>
    unacked_buffered_bytes s = 0"
  by (simp add: unacked_buffered_bytes_def)

lemma stream_inv_new [simp]: "stream_inv l (new_active_stream req)"
  by (simp add: stream_inv_def new_active_stream_def transition_to_def can_transition_to_def
      new_lifecycle_def outcome_inv_def)

text \<open>Accepting bytes keeps the unacknowledged count below what was checked, even when the 64-bit
  total wraps.\<close>

lemma unacked_produce:
  assumes "unacked_buffered_bytes s + n \<le> limit" and "unacked_buffered_bytes s \<le> limit"
  shows "unacked_buffered_bytes (s\<lparr>as_total_produced_bytes := as_total_produced_bytes s + n\<rparr>) \<le> limit"
proof (cases "as_total_produced_bytes s + n \<le> as_acknowledged_offset_bytes s")
  case True
  then show ?thesis by (simp add: unacked_buffered_bytes_def)
next
  case False
  show ?thesis
  proof (cases "as_total_produced_bytes s \<le> as_acknowledged_offset_bytes s")
    case True
    with False have "as_total_produced_bytes s + n - as_acknowledged_offset_bytes s \<le> n"
      by (simp add: word_le_nat_alt unat_sub_if' unat_plus_if' not_le split: if_splits)
    moreover have "n \<le> limit" using assms(1) True by (simp add: unacked_buffered_bytes_def)
    ultimately show ?thesis using False by (simp add: unacked_buffered_bytes_def)
  next
    case f: False
    then show ?thesis using assms(1) False by (simp add: unacked_buffered_bytes_def algebra_simps)
  qed
qed

lemma apply_event_fields:
  "as_last_event_seq (apply_event e s) = evt_event_seq e"
  "as_total_produced_bytes (apply_event e s) = as_total_produced_bytes s + event_bytes e"
  "as_acknowledged_offset_bytes (apply_event e s) =
     (if event_is_terminal e then as_total_produced_bytes s + event_bytes e
      else as_acknowledged_offset_bytes s)"
  "as_stream (apply_event e s) = as_stream s" "as_profile (apply_event e s) = as_profile s"
  "as_model_id (apply_event e s) = as_model_id s"
  by (simp_all add: apply_event_def Let_def)

lemma apply_event_lifecycle:
  "lc_state (as_lifecycle s) \<noteq> Terminal \<Longrightarrow>
   as_lifecycle (apply_event e s) =
     (if event_is_terminal e
      then (as_lifecycle s)\<lparr>lc_state := Terminal, lc_outcome := terminal_outcome_of e, lc_has_outcome := True\<rparr>
      else if lc_state (as_lifecycle s) = Accepted then (as_lifecycle s)\<lparr>lc_state := Started\<rparr>
      else as_lifecycle s)"
  by (simp add: apply_event_def Let_def transition_to_def can_transition_to_def
      split: lifecycle_state.splits)

lemma stream_inv_event:
  assumes "stream_inv limit s" and "lc_state (as_lifecycle s) \<noteq> Terminal"
    and "unacked_buffered_bytes s + event_bytes e \<le> limit"
  shows "stream_inv limit (apply_event e s)"
proof -
  have "unacked_buffered_bytes (apply_event e s) \<le> limit"
  proof (cases "event_is_terminal e")
    case True
    then show ?thesis by (simp add: unacked_buffered_bytes_def apply_event_fields)
  next
    case False
    then have "unacked_buffered_bytes (apply_event e s) = unacked_buffered_bytes
        (s\<lparr>as_total_produced_bytes := as_total_produced_bytes s + event_bytes e\<rparr>)"
      by (simp add: unacked_buffered_bytes_def apply_event_fields)
    then show ?thesis using unacked_produce [of s "event_bytes e" limit] assms
      by (simp add: stream_inv_def)
  qed
  then show ?thesis using assms
    by (auto simp: stream_inv_def apply_event_fields apply_event_lifecycle outcome_inv_def)
qed

text \<open>Moving the acknowledged offset forward, up to what was produced.\<close>

lemma stream_inv_ack:
  assumes "stream_inv limit s" and "as_acknowledged_offset_bytes s \<le> off"
    and "off \<le> as_total_produced_bytes s"
  shows "stream_inv limit (s\<lparr>as_acknowledged_offset_bytes := off\<rparr>)"
proof -
  have "as_total_produced_bytes s - off \<le> as_total_produced_bytes s - as_acknowledged_offset_bytes s"
    using assms(2,3) order_trans [OF assms(2,3)]
    by (simp add: unat_sub_le word_le_nat_alt [of "_ - _"]) (simp add: word_le_nat_alt)
  then have "unacked_buffered_bytes (s\<lparr>as_acknowledged_offset_bytes := off\<rparr>) \<le> unacked_buffered_bytes s"
    using assms(2,3) by (auto simp: unacked_buffered_bytes_def)
  with assms show ?thesis by (auto simp: stream_inv_def)
qed

lemma request_cancel_cases:
  "request_cancel s =
    (if lc_state (as_lifecycle s) \<in> {Received, Accepted, Started}
     then (s\<lparr>as_lifecycle := (as_lifecycle s)\<lparr>lc_state := Cancel_Requested\<rparr>\<rparr>, True) else (s, False))"
  by (cases "lc_state (as_lifecycle s)")
    (simp_all add: request_cancel_def transition_to_def can_transition_to_def)

lemma stream_inv_cancel: "stream_inv l s \<Longrightarrow> stream_inv l (fst (request_cancel s))"
  by (auto simp: request_cancel_cases stream_inv_def outcome_inv_def unacked_buffered_bytes_def)

lemma stream_inv_terminate: "stream_inv l s \<Longrightarrow> stream_inv l (terminate_stream out s)"
  by (auto simp: terminate_stream_def stream_inv_def transition_to_def outcome_inv_def)

text \<open>A terminal stream is left exactly as it is.\<close>

lemma terminal_unchanged [simp]:
  "lc_state (as_lifecycle s) = Terminal \<Longrightarrow> fst (request_cancel s) = s"
  "lc_state (as_lifecycle s) = Terminal \<Longrightarrow> terminate_stream out s = s"
  by (simp_all add: request_cancel_def terminate_stream_def)

lemma cancel_keeps_terminal [simp]:
  "lc_state (as_lifecycle (fst (request_cancel s))) = Terminal \<longleftrightarrow> lc_state (as_lifecycle s) = Terminal"
  by (simp add: request_cancel_cases)

section \<open>How one step changes a stream\<close>

definition stream_evolves :: "u64 \<Rightarrow> active_stream_state \<Rightarrow> active_stream_state \<Rightarrow> bool" where
  "stream_evolves limit s t \<longleftrightarrow>
     as_stream t = as_stream s \<and> as_profile t = as_profile s \<and> as_model_id t = as_model_id s \<and>
     as_last_event_seq s \<le> as_last_event_seq t \<and> lc_state (as_lifecycle s) \<le> lc_state (as_lifecycle t) \<and>
     (stream_inv limit s \<longrightarrow> stream_inv limit t) \<and>
     (stream_inv limit s \<and> lc_state (as_lifecycle s) = Terminal \<longrightarrow> t = s)"

lemma stream_evolves_refl [simp]: "stream_evolves l s s"
  by (simp add: stream_evolves_def)

lemma stream_evolves_trans:
  "stream_evolves l s t \<Longrightarrow> stream_evolves l t u \<Longrightarrow> stream_inv l s \<Longrightarrow> stream_evolves l s u"
  by (auto simp: stream_evolves_def)

lemma terminal_top: "Terminal \<le> s \<longleftrightarrow> s = Terminal"
  by (cases s) (simp_all add: less_eq_lifecycle_state_def)

lemma evolves_active: "stream_evolves l s t \<Longrightarrow> lc_state (as_lifecycle t) \<noteq> Terminal \<Longrightarrow>
    lc_state (as_lifecycle s) \<noteq> Terminal"
  by (auto simp: stream_evolves_def terminal_top)

lemma evolves_event:
  assumes "lc_state (as_lifecycle s) \<noteq> Terminal" and "as_last_event_seq s \<le> evt_event_seq e"
    and "unacked_buffered_bytes s + event_bytes e \<le> l"
  shows "stream_evolves l s (apply_event e s)"
  using assms
  by (auto simp: stream_evolves_def apply_event_fields apply_event_lifecycle stream_inv_event
      less_eq_lifecycle_state_def intro: lifecycle_code_le)

lemma evolves_ack:
  assumes "as_acknowledged_offset_bytes s \<le> off" and "off \<le> as_total_produced_bytes s"
  shows "stream_evolves l s (s\<lparr>as_acknowledged_offset_bytes := off\<rparr>)"
  using assms stream_inv_ack [of l s off] by (auto simp: stream_evolves_def stream_inv_def)

lemma evolves_cancel: "stream_evolves l s (fst (request_cancel s))"
  using stream_inv_cancel [of l s]
  by (auto simp: stream_evolves_def request_cancel_cases less_eq_lifecycle_state_def)

lemma evolves_terminate: "stream_evolves l s (terminate_stream out s)"
  using stream_inv_terminate [of l s out]
  by (auto simp: stream_evolves_def terminate_stream_def transition_to_def less_eq_lifecycle_state_def
      intro: lifecycle_code_le)

section \<open>How one step changes the stream table\<close>

definition table_evolves :: "u64 \<Rightarrow> (stream_identity, active_stream_state) umap
    \<Rightarrow> (stream_identity, active_stream_state) umap \<Rightarrow> bool" where
  "table_evolves l = list_all2 (\<lambda>(k, s) (k', s'). k' = k \<and> stream_evolves l s s')"

lemma table_evolves_refl [simp]: "table_evolves l xs xs"
  by (auto simp: table_evolves_def intro: list_all2_refl)

lemma table_evolves_keys: "table_evolves l xs ys \<Longrightarrow> map fst ys = map fst xs"
  unfolding table_evolves_def by (induction rule: list_all2_induct) auto

lemma table_evolves_lookup:
  "table_evolves l xs ys \<Longrightarrow> lookup xs k = Some s \<Longrightarrow>
     \<exists>t. lookup ys k = Some t \<and> stream_evolves l s t"
  unfolding table_evolves_def by (induction rule: list_all2_induct) (auto split: if_splits)

lemma table_evolves_set:
  "table_evolves l xs ys \<Longrightarrow> (k, t) \<in> set ys \<Longrightarrow> \<exists>s. (k, s) \<in> set xs \<and> stream_evolves l s t"
  unfolding table_evolves_def by (induction rule: list_all2_induct) auto

lemma table_evolves_count:
  "table_evolves l xs ys \<Longrightarrow>
     length (filter (\<lambda>(k, s). lc_state (as_lifecycle s) \<noteq> Terminal) ys)
       \<le> length (filter (\<lambda>(k, s). lc_state (as_lifecycle s) \<noteq> Terminal) xs)"
  unfolding table_evolves_def
  by (induction rule: list_all2_induct) (auto dest: evolves_active)

lemma table_evolves_update:
  "lookup xs k = Some s \<Longrightarrow> stream_evolves l s t \<Longrightarrow> table_evolves l xs (AList.update k t xs)"
  by (induction xs) (auto simp: table_evolves_def table_evolves_refl [unfolded table_evolves_def]
      split: if_splits)

lemma table_evolves_map:
  "(\<And>k s. stream_evolves l s (f k s)) \<Longrightarrow> table_evolves l xs (map_vals f xs)"
  by (induction xs) (auto simp: table_evolves_def)

lemma table_evolves_window: "table_evolves l xs (fst (window_loop c xs))"
proof (induction c xs rule: window_loop.induct)
  case (1 c)
  then show ?case by simp
next
  case (2 c k s xs)
  obtain ys f b where w: "window_loop c xs = (ys, f, b)" by (cases "window_loop c xs")
  show ?case
  proof (cases "control_targets c k \<and> \<not> as_total_produced_bytes s < ctl_ack_offset_bytes c")
    case True
    then have "table_evolves l xs ys" using 2 w by simp
    with True w show ?thesis by (auto simp: table_evolves_def intro: evolves_ack)
  next
    case False
    show ?thesis
    proof (cases "control_targets c k")
      case True
      with False show ?thesis by (simp add: table_evolves_refl)
    next
      case nt: False
      then have "table_evolves l xs ys" using 2 w by simp
      with nt w show ?thesis by (simp add: table_evolves_def)
    qed
  qed
qed

section \<open>Steps and reachable managers\<close>

text \<open>
  The one caller obligation is on \<open>acknowledge_stream_drain\<close>: the drained count must not
  overflow the 64-bit offset.
\<close>

definition drain_in_range :: "session_manager \<Rightarrow> stream_identity \<Rightarrow> u64 \<Rightarrow> bool" where
  "drain_in_range m i n \<longleftrightarrow> (case lookup (sm_active_streams m) i of None \<Rightarrow> True
     | Some s \<Rightarrow> as_acknowledged_offset_bytes s \<le> as_acknowledged_offset_bytes s + n)"

inductive session_step :: "session_manager \<Rightarrow> session_manager \<Rightarrow> bool" where
  step_request: "session_step m (fst (submit_request m req))"
| step_event: "session_step m (fst (dispatch_event m e))"
| step_ack: "session_step m (fst (acknowledge_stream_offset m i off))"
| step_drain: "drain_in_range m i n \<Longrightarrow> session_step m (fst (acknowledge_stream_drain m i n))"
| step_cancel: "session_step m (fst (cancel_execution m exec))"
| step_control: "session_step m (fst (process_control m c))"
| step_terminate: "session_step m (fst (terminate_all_active_streams m out))"
| step_stale: "session_step m (mark_binding_stale m)"
| step_bind: "session_step m (fst (process_session_bind m b router))"
| step_add_key: "session_step m (fst (add_sl1_key m kid key))"
| step_rotate: "session_step m (set_rotation_keys m cur prev)"
| step_default_key: "session_step m (set_default_key_id m kid)"
| step_require_lease: "session_step m (set_require_lease m flag)"
| step_require_sl1: "session_step m (set_require_sl1 m flag)"
| step_inbound: "session_step m (fst (verify_inbound_frame m data dir))"
| step_outbound: "session_step m (fst (sign_outbound_frame m buf dir))"

definition session_reachable :: "session_descriptor \<Rightarrow> session_manager \<Rightarrow> bool" where
  "session_reachable d m \<longleftrightarrow> session_step\<^sup>*\<^sup>* (new_session_manager d) m"

text \<open>What a step does to everything but the stream table.\<close>

lemma streams_kept [simp]:
  "sm_active_streams (mark_binding_stale m) = sm_active_streams m"
  "sm_active_streams (fst (add_sl1_key m kid key)) = sm_active_streams m"
  "sm_active_streams (set_rotation_keys m cur prev) = sm_active_streams m"
  "sm_active_streams (set_default_key_id m kid) = sm_active_streams m"
  "sm_active_streams (set_require_lease m flag) = sm_active_streams m"
  "sm_active_streams (set_require_sl1 m flag) = sm_active_streams m"
  by (simp_all add: mark_binding_stale_def add_sl1_key_def set_rotation_keys_def
      set_default_key_id_def set_require_lease_def set_require_sl1_def)

lemma streams_kept_bind [simp]:
  "sm_active_streams (fst (process_session_bind m b router)) = sm_active_streams m"
  by (simp add: process_session_bind_def Let_def split: option.split)

lemma streams_kept_inbound [simp]:
  "sm_active_streams (fst (verify_inbound_frame m data dir)) = sm_active_streams m"
  by (simp add: verify_inbound_frame_def Let_def split: option.split sum.split)

lemma streams_kept_outbound [simp]:
  "sm_active_streams (fst (sign_outbound_frame m buf dir)) = sm_active_streams m"
  by (simp add: sign_outbound_frame_def split: option.split)

lemma set_stream_sel [simp]:
  "sm_active_streams (set_stream m s i) = AList.update i s (sm_active_streams m)"
  "sm_descriptor (set_stream m s i) = sm_descriptor m"
  "sm_binding_state (set_stream m s i) = sm_binding_state m"
  "sm_bound_bind (set_stream m s i) = sm_bound_bind m"
  "sm_is_sl1_active (set_stream m s i) = sm_is_sl1_active m"
  by (simp_all add: set_stream_def)

lemma table_evolves_step:
  assumes "session_step m m'"
  shows "table_evolves (sd_max_buffered_bytes_per_stream (sm_descriptor m))
      (sm_active_streams m) (sm_active_streams m') \<or>
    (\<exists>req. request_is_valid req \<and> lookup (sm_active_streams m) (req_stream req) = None \<and>
       get_active_stream_count m < unat (sd_max_inflight_streams (sm_descriptor m)) \<and>
       m' = set_stream m (new_active_stream req) (req_stream req))"
  using assms
proof cases
  case (step_request req)
  then show ?thesis by (auto simp: submit_request_def not_le)
next
  case (step_event e)
  then show ?thesis
    by (auto simp: dispatch_event_def not_less not_le
        intro!: table_evolves_update evolves_event split: option.splits)
next
  case (step_ack i off)
  then show ?thesis
    by (auto simp: acknowledge_stream_offset_def not_less not_le
        intro!: table_evolves_update evolves_ack split: option.splits)
next
  case (step_drain i n)
  then show ?thesis
    by (auto simp: acknowledge_stream_drain_def drain_in_range_def Let_def not_less
        intro!: table_evolves_update evolves_ack split: option.splits)
next
  case (step_cancel exec)
  then show ?thesis
    by (auto simp: cancel_execution_def cancel_where_def Let_def evolves_cancel intro!: table_evolves_map)
next
  case (step_control c)
  have cw: "table_evolves l xs (cancel_where p xs)" for l p xs
    by (auto simp: cancel_where_def evolves_cancel intro!: table_evolves_map)
  show ?thesis unfolding step_control process_control_def Let_def
    using table_evolves_window [of _ "sm_active_streams m" c]
    by (simp add: cw split_def)
next
  case (step_terminate out)
  then show ?thesis
    by (auto simp: terminate_all_active_streams_def evolves_terminate intro!: table_evolves_map)
qed simp_all

text \<open>Most steps leave the descriptor and the binding alone; the limits never change.\<close>

definition binding_frame :: "session_manager \<Rightarrow> session_manager \<Rightarrow> bool" where
  "binding_frame m m' \<longleftrightarrow> sm_descriptor m' = sm_descriptor m \<and>
     sm_binding_state m' = sm_binding_state m \<and> sm_bound_bind m' = sm_bound_bind m \<and>
     sm_is_sl1_active m' = sm_is_sl1_active m"

lemma frame_refl [simp]: "binding_frame m m"
  by (simp add: binding_frame_def)

lemma frame_update [simp]:
  "binding_frame m (set_stream m s i)" "binding_frame m (m\<lparr>sm_active_streams := xs\<rparr>)"
  "binding_frame m (m\<lparr>sm_expected_inbound_auth_seq := n\<rparr>)"
  "binding_frame m (m\<lparr>sm_next_outbound_auth_seq := n\<rparr>)"
  by (simp_all add: binding_frame_def set_stream_def)

lemma frame_submit: "binding_frame m (fst (submit_request m req))"
  by (simp add: submit_request_def)

lemma frame_dispatch: "binding_frame m (fst (dispatch_event m e))"
  by (simp add: dispatch_event_def split: option.split)

lemma frame_ack:
  "binding_frame m (fst (acknowledge_stream_offset m i off))"
  "binding_frame m (fst (acknowledge_stream_drain m i off))"
  by (simp_all add: acknowledge_stream_offset_def acknowledge_stream_drain_def Let_def split: option.split)

lemma frame_cancel:
  "binding_frame m (fst (cancel_execution m exec))"
  "binding_frame m (fst (terminate_all_active_streams m out))"
  by (simp_all add: cancel_execution_def terminate_all_active_streams_def Let_def)

lemma frame_control: "binding_frame m (fst (process_control m c))"
  by (simp add: process_control_def Let_def split_def)

lemma frame_inbound: "binding_frame m (fst (verify_inbound_frame m data dir))"
  by (simp add: verify_inbound_frame_def Let_def split: option.split sum.split)

lemma frame_outbound: "binding_frame m (fst (sign_outbound_frame m buf dir))"
  by (simp add: sign_outbound_frame_def split: option.split)

lemmas session_frames = frame_submit frame_dispatch frame_ack frame_cancel frame_control
  frame_inbound frame_outbound

lemma bind_descriptor [simp]: "sm_descriptor (fst (process_session_bind m b router)) = sm_descriptor m"
  by (simp add: process_session_bind_def Let_def split: option.split)

lemma limits_step:
  assumes "session_step m m'"
  shows "sd_max_buffered_bytes_per_stream (sm_descriptor m') = sd_max_buffered_bytes_per_stream (sm_descriptor m)
    \<and> sd_max_inflight_streams (sm_descriptor m') = sd_max_inflight_streams (sm_descriptor m)"
  using assms
  by cases (use session_frames [unfolded binding_frame_def] in
      \<open>simp_all add: mark_binding_stale_def add_sl1_key_def set_rotation_keys_def
        set_default_key_id_def set_require_lease_def set_require_sl1_def\<close>)

definition table_inv :: "session_descriptor \<Rightarrow> (stream_identity, active_stream_state) umap \<Rightarrow> bool" where
  "table_inv d xs \<longleftrightarrow> distinct (map fst xs) \<and>
     (\<forall>(k, s) \<in> set xs. stream_inv (sd_max_buffered_bytes_per_stream d) s \<and> as_stream s = k \<and>
        stream_is_valid k) \<and>
     length (filter (\<lambda>(k, s). lc_state (as_lifecycle s) \<noteq> Terminal) xs)
       \<le> unat (sd_max_inflight_streams d)"

lemma table_inv_evolves:
  assumes "table_inv d xs" and "table_evolves (sd_max_buffered_bytes_per_stream d) xs ys"
  shows "table_inv d ys"
proof -
  have "stream_inv (sd_max_buffered_bytes_per_stream d) t \<and> as_stream t = k \<and> stream_is_valid k"
    if kt: "(k, t) \<in> set ys" for k t
  proof -
    from table_evolves_set [OF assms(2) kt] obtain s where
      "(k, s) \<in> set xs" and e: "stream_evolves (sd_max_buffered_bytes_per_stream d) s t" by blast
    with assms(1) have "stream_inv (sd_max_buffered_bytes_per_stream d) s \<and> as_stream s = k \<and>
        stream_is_valid k"
      by (auto simp: table_inv_def)
    with e show ?thesis by (simp add: stream_evolves_def)
  qed
  moreover have "distinct (map fst ys)"
    using assms by (simp add: table_inv_def table_evolves_keys)
  ultimately show ?thesis
    using table_evolves_count [OF assms(2)] assms(1) by (auto simp: table_inv_def)
qed

lemma table_inv_request:
  assumes "table_inv d xs" and "request_is_valid req" and "lookup xs (req_stream req) = None"
    and "length (filter (\<lambda>(k, s). lc_state (as_lifecycle s) \<noteq> Terminal) xs)
       < unat (sd_max_inflight_streams d)"
  shows "table_inv d (AList.update (req_stream req) (new_active_stream req) xs)"
proof -
  have "set (AList.update k v xs) \<subseteq> insert (k, v) (set xs)" for k :: stream_identity and v :: active_stream_state
    by (induction xs) auto
  then have "stream_inv (sd_max_buffered_bytes_per_stream d) s \<and> as_stream s = k \<and> stream_is_valid k"
    if "(k, s) \<in> set (AList.update (req_stream req) (new_active_stream req) xs)" for k s
    using that assms(1,2)
    by (force simp: table_inv_def new_active_stream_def guard_defs dest: subsetD
        intro: stream_inv_new [of _ req, unfolded new_active_stream_def])
  then show ?thesis
    using assms by (auto simp: table_inv_def filter_update_absent)
qed

definition session_inv :: "session_manager \<Rightarrow> bool" where
  "session_inv m \<longleftrightarrow> table_inv (sm_descriptor m) (sm_active_streams m) \<and>
     (sm_binding_state m \<noteq> Unbound \<longrightarrow> session_bind_is_valid (sm_bound_bind m)) \<and>
     (sm_is_sl1_active m \<longrightarrow> sm_binding_state m \<noteq> Unbound \<and> bind_sl1_requested (sm_bound_bind m))"

lemma table_inv_limits:
  "sd_max_buffered_bytes_per_stream d' = sd_max_buffered_bytes_per_stream d \<Longrightarrow>
   sd_max_inflight_streams d' = sd_max_inflight_streams d \<Longrightarrow> table_inv d' xs = table_inv d xs"
  by (simp add: table_inv_def)

lemma session_inv_new: "session_inv (new_session_manager d)"
  by (simp add: session_inv_def new_session_manager_def table_inv_def)

lemma binding_kept:
  assumes "session_step m m'"
  shows "(\<exists>b router. m' = fst (process_session_bind m b router)) \<or> m' = mark_binding_stale m \<or>
     (sm_binding_state m' = sm_binding_state m \<and> sm_bound_bind m' = sm_bound_bind m \<and>
      sm_is_sl1_active m' = sm_is_sl1_active m)"
  using assms
proof cases
  case (step_bind b router)
  then show ?thesis by blast
qed (use session_frames [unfolded binding_frame_def] in
      \<open>simp_all add: add_sl1_key_def set_rotation_keys_def
        set_default_key_id_def set_require_lease_def set_require_sl1_def\<close>)

lemma bind_result:
  "process_session_bind m b router = (m', Inr ()) \<Longrightarrow>
     session_bind_is_valid b \<and> same_bind (sm_bound_bind m') b \<and> sm_binding_state m' = Bound_Current \<and>
     (sm_binding_state m \<noteq> Unbound \<longrightarrow> bind_identity (sm_bound_bind m) = bind_identity b) \<and>
     (\<forall>r. router = Some r \<longrightarrow> validate_tcp_session_binding r (bind_identity b)
        (bind_control_epoch b) (bind_lease_token b)) \<and>
     (m' = m \<or> sm_bound_bind m' = b \<and> sm_is_sl1_active m' = bind_sl1_requested b)"
  by (auto simp: process_session_bind_def Let_def same_bind_def split: if_splits option.splits)

lemma bind_refused: "process_session_bind m b router = (m', Inl e) \<Longrightarrow> m' = m"
  by (auto simp: process_session_bind_def Let_def split: if_splits option.splits)

lemma session_inv_step:
  assumes "session_inv m" and "session_step m m'"
  shows "session_inv m'"
proof -
  have t: "table_inv (sm_descriptor m') (sm_active_streams m')"
    using table_evolves_step [OF assms(2)] assms(1) limits_step [OF assms(2)]
    by (auto simp: session_inv_def get_active_stream_count_def
        table_inv_limits [of "sm_descriptor m'" "sm_descriptor m"]
        intro: table_inv_evolves table_inv_request)
  from binding_kept [OF assms(2)] show ?thesis
  proof (elim disjE exE)
    fix b router assume m': "m' = fst (process_session_bind m b router)"
    show ?thesis
    proof (cases "process_session_bind m b router")
      case (Pair n res)
      with m' have [simp]: "n = m'" by simp
      show ?thesis
      proof (cases res)
        case (Inl e)
        then show ?thesis using bind_refused [of m b router] Pair assms(1) by auto
      next
        case (Inr u)
        then show ?thesis using bind_result [of m b router m'] Pair assms(1) t
          by (auto simp: session_inv_def)
      qed
    qed
  qed (use assms(1) t in \<open>auto simp: session_inv_def mark_binding_stale_def\<close>)
qed

lemma session_steps_inv: "session_step\<^sup>*\<^sup>* m m' \<Longrightarrow> session_inv m \<Longrightarrow> session_inv m'"
  by (induction rule: rtranclp_induct) (auto intro: session_inv_step)

lemma reachable_session_inv: "session_reachable d m \<Longrightarrow> session_inv m"
  using session_steps_inv session_inv_new unfolding session_reachable_def by blast

lemma limits_steps:
  "session_step\<^sup>*\<^sup>* m m' \<Longrightarrow>
     sd_max_buffered_bytes_per_stream (sm_descriptor m') = sd_max_buffered_bytes_per_stream (sm_descriptor m)
    \<and> sd_max_inflight_streams (sm_descriptor m') = sd_max_inflight_streams (sm_descriptor m)"
  by (induction rule: rtranclp_induct) (auto dest: limits_step)

section \<open>Properties of the stream table\<close>


lemma table_evolves_one:
  assumes "session_step m m'" and "lookup (sm_active_streams m) k = Some s"
  shows "\<exists>t. lookup (sm_active_streams m') k = Some t \<and>
    stream_evolves (sd_max_buffered_bytes_per_stream (sm_descriptor m)) s t"
  using table_evolves_step [OF assms(1)] assms(2)
  by (elim disjE exE conjE) (auto dest: table_evolves_lookup)

lemma stream_evolves_steps:
  "session_step\<^sup>*\<^sup>* m m' \<Longrightarrow> session_inv m \<Longrightarrow> lookup (sm_active_streams m) k = Some s \<Longrightarrow>
    \<exists>t. lookup (sm_active_streams m') k = Some t \<and>
      stream_evolves (sd_max_buffered_bytes_per_stream (sm_descriptor m)) s t"
proof (induction rule: rtranclp_induct)
  case base
  then show ?case by simp
next
  case (step n p)
  then obtain t where t: "lookup (sm_active_streams n) k = Some t"
    "stream_evolves (sd_max_buffered_bytes_per_stream (sm_descriptor m)) s t" by blast
  have "sd_max_buffered_bytes_per_stream (sm_descriptor n)
      = sd_max_buffered_bytes_per_stream (sm_descriptor m)"
    using limits_steps [OF step.hyps(1)] by simp
  with table_evolves_one [OF step.hyps(2) t(1)] obtain u where
    u: "lookup (sm_active_streams p) k = Some u"
      "stream_evolves (sd_max_buffered_bytes_per_stream (sm_descriptor m)) t u" by auto
  have "stream_inv (sd_max_buffered_bytes_per_stream (sm_descriptor m)) s"
    using step.prems by (auto simp: session_inv_def table_inv_def dest!: map_of_SomeD)
  with t(2) u show ?case by (blast intro: stream_evolves_trans)
qed


lemma dispatch_accepted:
  "dispatch_event m e = (m', Inr ()) \<Longrightarrow>
     \<exists>s. lookup (sm_active_streams m) (evt_stream e) = Some s \<and> event_is_valid e \<and>
       lc_state (as_lifecycle s) \<noteq> Terminal \<and> as_last_event_seq s < evt_event_seq e \<and>
       unacked_buffered_bytes s + event_bytes e \<le> sd_max_buffered_bytes_per_stream (sm_descriptor m) \<and>
       m' = set_stream m (apply_event e s) (evt_stream e)"
  by (auto simp: dispatch_event_def not_le not_less split: if_splits option.splits)

text \<open>
  The accepted events of a stream are strictly ordered and end with the terminal one. If an
  event is accepted and, after any further steps of the session, another event of the same
  stream is accepted, then the second has the greater sequence number and the first was not
  terminal.
\<close>

theorem accepted_events_ordered:
  assumes "session_reachable d m" and "dispatch_event m e = (m1, Inr ())"
    and "session_step\<^sup>*\<^sup>* m1 m2" and "dispatch_event m2 e' = (m3, Inr ())"
    and "evt_stream e' = evt_stream e"
  shows "evt_event_seq e < evt_event_seq e' \<and> \<not> event_is_terminal e"
proof -
  from dispatch_accepted [OF assms(2)] obtain s where
    s: "lookup (sm_active_streams m) (evt_stream e) = Some s" "lc_state (as_lifecycle s) \<noteq> Terminal"
    and m1: "m1 = set_stream m (apply_event e s) (evt_stream e)" by blast
  from dispatch_accepted [OF assms(4)] obtain t where
    t: "lookup (sm_active_streams m2) (evt_stream e) = Some t" "lc_state (as_lifecycle t) \<noteq> Terminal"
      "as_last_event_seq t < evt_event_seq e'" using assms(5) by auto
  have "session_step m m1" using step_event [of m e] assms(2) by simp
  then have inv: "session_inv m1"
    using reachable_session_inv [OF assms(1)] session_inv_step by blast
  have "lookup (sm_active_streams m1) (evt_stream e) = Some (apply_event e s)" by (simp add: m1)
  from stream_evolves_steps [OF assms(3) inv this] t(1)
  have ev: "stream_evolves (sd_max_buffered_bytes_per_stream (sm_descriptor m1)) (apply_event e s) t"
    by simp
  then have "evt_event_seq e \<le> as_last_event_seq t"
    by (simp add: stream_evolves_def apply_event_fields)
  moreover have "\<not> event_is_terminal e"
    using evolves_active [OF ev t(2)] s(2) by (auto simp: apply_event_lifecycle)
  ultimately show ?thesis using t(3) by auto
qed

section \<open>Controls\<close>

lemma valid_control_targets: "control_is_valid c \<Longrightarrow> control_targets c k \<longleftrightarrow> k = ctl_stream c"
  by (simp add: control_targets_def guard_defs)

lemma window_loop_miss:
  "control_is_valid c \<Longrightarrow> lookup xs (ctl_stream c) = None \<Longrightarrow> window_loop c xs = (xs, False, False)"
  by (induction c xs rule: window_loop.induct) (auto simp: valid_control_targets split: if_splits)

lemma window_loop_hit:
  "control_is_valid c \<Longrightarrow> distinct (map fst xs) \<Longrightarrow> lookup xs (ctl_stream c) = Some s \<Longrightarrow>
    window_loop c xs =
      (if as_total_produced_bytes s < ctl_ack_offset_bytes c then (xs, True, True)
       else (AList.update (ctl_stream c)
          (s\<lparr>as_acknowledged_offset_bytes := max (as_acknowledged_offset_bytes s) (ctl_ack_offset_bytes c)\<rparr>) xs,
          True, False))"
proof (induction c xs rule: window_loop.induct)
  case (1 c)
  then show ?case by simp
next
  case (2 c k t xs)
  show ?case
  proof (cases "k = ctl_stream c")
    case True
    with 2 have [simp]: "t = s" and "lookup xs (ctl_stream c) = None"
      by (auto simp: map_of_eq_None_iff)
    with 2 True show ?thesis
      by (auto simp: valid_control_targets window_loop_miss max_def not_less)
  next
    case False
    with 2 show ?thesis by (auto simp: valid_control_targets)
  qed
qed

text \<open>
  WINDOW_UPDATE is exact and replay-safe. A valid window update addresses one stream: it is
  refused without any change when the stream is unknown or the offset lies beyond what was
  produced, and otherwise sets that stream's acknowledged offset to the maximum of the old and
  the new one, so a repeated or late update changes nothing.
\<close>

theorem window_update_exact:
  assumes "session_reachable d m" and "control_is_valid c" and "ctl_control_type c = ct_window_update"
  shows "process_control m c =
    (case get_stream_state m (ctl_stream c) of
       None \<Rightarrow> (m, Inl (mk_error ec_bad_request 404 ''Stream identity not found in active session''))
     | Some s \<Rightarrow>
         if as_total_produced_bytes s < ctl_ack_offset_bytes c
         then (m, Inl (mk_error ec_bad_request 422
           ''Future ACK offset exceeds total produced stream bytes (protocol violation)''))
         else (set_stream m (s\<lparr>as_acknowledged_offset_bytes :=
                  max (as_acknowledged_offset_bytes s) (ctl_ack_offset_bytes c)\<rparr>) (ctl_stream c), Inr True))"
proof -
  have "distinct (map fst (sm_active_streams m))"
    using reachable_session_inv [OF assms(1)] by (simp add: session_inv_def table_inv_def)
  then show ?thesis using assms(2,3)
    by (simp add: process_control_def get_stream_state_def window_loop_miss window_loop_hit
        set_stream_def split: option.split)
qed

lemma count_cancelled_miss: "k \<notin> fst ` set xs \<Longrightarrow> count_cancelled (\<lambda>k'. k' = k) xs = 0"
  by (induction xs) (auto simp: count_cancelled_def)

lemma count_cancelled_one:
  "distinct (map fst xs) \<Longrightarrow> lookup xs k = Some s \<Longrightarrow>
     0 < count_cancelled (\<lambda>k'. k' = k) xs \<longleftrightarrow> snd (request_cancel s)"
proof (induction xs)
  case (Cons kv xs)
  obtain k' t where kv: "kv = (k', t)" by (cases kv)
  show ?case
  proof (cases "k' = k")
    case True
    with Cons kv have "count_cancelled (\<lambda>k'. k' = k) xs = 0" "t = s"
      by (auto intro: count_cancelled_miss)
    with True kv show ?thesis by (simp add: count_cancelled_def)
  next
    case False
    with Cons kv show ?thesis by (simp add: count_cancelled_def)
  qed
qed simp

lemma cancel_where_one:
  "distinct (map fst xs) \<Longrightarrow> lookup xs k = Some s \<Longrightarrow>
     cancel_where (\<lambda>k'. k' = k) xs = AList.update k (fst (request_cancel s)) xs"
proof (induction xs)
  case (Cons kv xs)
  obtain k' t where kv: "kv = (k', t)" by (cases kv)
  have miss: "k \<notin> fst ` set ys \<Longrightarrow> map_vals (\<lambda>k' s. if k' = k then fst (request_cancel s) else s) ys = ys"
    for ys by (induction ys) auto
  from Cons kv show ?case by (auto simp: cancel_where_def miss)
qed simp

lemma list_ex_key:
  "distinct (map fst xs) \<Longrightarrow> lookup xs k = Some s \<Longrightarrow> list_ex (\<lambda>(k', s). k' = k \<and> P s) xs \<longleftrightarrow> P s"
  by (auto simp: list_ex_iff dest: map_of_SomeD) (metis in_set_lookup map_of_SomeD option.inject)

lemma list_ex_no_key: "lookup xs k = None \<Longrightarrow> \<not> list_ex (\<lambda>(k', s). k' = k \<and> P s) xs"
  by (force simp: list_ex_iff map_of_eq_None_iff)

lemma cancel_where_miss: "lookup xs k = None \<Longrightarrow> cancel_where (\<lambda>k'. k' = k) xs = xs"
  unfolding cancel_where_def by (induction xs) (auto split: if_splits)

text \<open>
  CANCEL is exact. A valid cancel addresses exactly the stream it names: an unknown stream
  and a terminal one are refused without any change, a stream already being cancelled is left
  alone and reported as not cancelled, and any other stream moves to cancel_requested.
\<close>

theorem cancel_exact:
  assumes "session_reachable d m" and "control_is_valid c" and "ctl_control_type c = ct_cancel"
  shows "process_control m c =
    (case get_stream_state m (ctl_stream c) of
       None \<Rightarrow> (m, Inl (mk_error ec_bad_request 404 ''Stream identity not found in active session''))
     | Some s \<Rightarrow>
         if lc_state (as_lifecycle s) = Terminal
         then (m, Inl (mk_error ec_bad_request 410
           ''Stream has already reached terminal state; cancel ignored''))
         else if lc_state (as_lifecycle s) = Cancel_Requested then (m, Inr False)
         else (set_stream m (s\<lparr>as_lifecycle := (as_lifecycle s)\<lparr>lc_state := Cancel_Requested\<rparr>\<rparr>)
                 (ctl_stream c), Inr True))"
proof -
  let ?xs = "sm_active_streams m"
  let ?k = "ctl_stream c"
  have d: "distinct (map fst ?xs)"
    using reachable_session_inv [OF assms(1)] by (simp add: session_inv_def table_inv_def)
  have t: "control_targets c = (\<lambda>k. k = ?k)"
    using assms(2) by (intro ext) (rule valid_control_targets)
  show ?thesis
  proof (cases "lookup ?xs ?k")
    case None
    then show ?thesis using assms(2,3) list_ex_no_key [of ?xs ?k "\<lambda>_. True"]
      by (simp add: process_control_def get_stream_state_def t cancel_where_miss Let_def)
  next
    case (Some s)
    note ex = list_ex_key [OF d Some]
    have same: "AList.update ?k s ?xs = ?xs" using Some by (rule update_same)
    show ?thesis
      using assms(2,3) Some ex [of "\<lambda>_. True"] ex [of "\<lambda>s. lc_state (as_lifecycle s) = Terminal"]
        cancel_where_one [OF d Some] count_cancelled_one [OF d Some]
      by (cases "lc_state (as_lifecycle s)")
        (simp_all add: process_control_def get_stream_state_def t Let_def request_cancel_cases
          set_stream_def same)
  qed
qed

end
