(* ===== verification/Session_Binding.thy ===== *)
theory Session_Binding
  imports Session_Streams Control_Plane_Invariants
begin

unbundle bit_operations_syntax

text \<open>
  What a session manager guarantees of its binding to the control plane and of its SL1
  frames. The control plane enters through its lease contract only (\<open>router_leases\<close>, the
  interpretation of \<open>lease_steps\<close> on the router).
\<close>

section \<open>Binding\<close>

lemma stale_sel [simp]:
  "sm_bound_bind (mark_binding_stale m) = sm_bound_bind m"
  "sm_binding_state (mark_binding_stale m) = Unbound \<longleftrightarrow> sm_binding_state m = Unbound"
  by (simp_all add: mark_binding_stale_def)

lemma bound_identity_step:
  assumes "session_step m m'" and "sm_binding_state m \<noteq> Unbound"
  shows "sm_binding_state m' \<noteq> Unbound \<and>
    bind_identity (sm_bound_bind m') = bind_identity (sm_bound_bind m)"
  using binding_kept [OF assms(1)]
proof (elim disjE exE)
  fix b router assume m': "m' = fst (process_session_bind m b router)"
  show ?thesis
  proof (cases "process_session_bind m b router")
    case (Pair n res)
    with m' have [simp]: "n = m'" by simp
    show ?thesis
    proof (cases res)
      case (Inl e)
      then show ?thesis using bind_refused [of m b router] Pair assms(2) by auto
    next
      case (Inr u)
      then show ?thesis using bind_result [of m b router m'] Pair assms(2)
        by (simp add: same_bind_def)
    qed
  qed
qed (use assms(2) in simp_all)

text \<open>
  A connection serves one node. Once a session manager is bound, no later sequence of steps
  unbinds it or binds it to another identity.
\<close>

theorem bound_identity_fixed:
  assumes "sm_binding_state m \<noteq> Unbound" and "session_step\<^sup>*\<^sup>* m m'"
  shows "sm_binding_state m' \<noteq> Unbound \<and>
    bind_identity (sm_bound_bind m') = bind_identity (sm_bound_bind m)"
  using assms(2,1)
  by (induction rule: rtranclp_induct) (auto dest: bound_identity_step)

text \<open>
  No work without a current lease. When a reachable manager that requires a lease accepts a
  request, it holds a valid, current binding; a binding accepted against the control plane
  names a lease the control plane holds at that moment.
\<close>

theorem requests_need_current_binding:
  assumes "session_reachable d m" and "submit_request m req = (m', Inr ())"
    and "sd_require_lease (sm_descriptor m)"
  shows "sm_binding_state m = Bound_Current \<and> session_bind_is_valid (sm_bound_bind m)"
proof -
  have "sm_binding_state m \<noteq> Unbound" "sm_binding_state m \<noteq> Bound_Stale"
    using assms(2,3) by (auto simp: submit_request_def split: if_splits)
  then have "sm_binding_state m = Bound_Current" by (cases "sm_binding_state m") simp_all
  then show ?thesis using reachable_session_inv [OF assms(1)] by (simp add: session_inv_def)
qed

text \<open>
  A lease of a past epoch cannot bind a session. When the control plane has moved a node to
  a later epoch, every SESSION_BIND that names an earlier epoch is refused, in whatever state
  the session is and whatever the control plane has processed since.
\<close>

theorem past_epoch_cannot_bind:
  assumes "router_reachable r" and "node_epoch r (bind_identity b) = Some cur"
    and "bind_control_epoch b < cur" and "router_step\<^sup>*\<^sup>* r s"
  shows "\<exists>err. process_session_bind m b (Some s) = (m, Inl err)"
proof -
  have "\<not> validate_tcp_session_binding s (bind_identity b) (bind_control_epoch b) (bind_lease_token b)"
    using router_leases.left_epoch_never_valid [OF reachable_router_inv [OF assms(1)] assms(2-4)] .
  then show ?thesis by (simp add: process_session_bind_def Let_def)
qed

section \<open>Authenticated frames\<close>

lemma inbound_accepted:
  assumes "verify_inbound_frame m data dir = (m', Inr (Some ext))"
  shows "auth_seq ext = sm_expected_inbound_auth_seq m \<and> sm_is_sl1_active m \<and>
    (\<exists>key. lookup (sd_sl1_keys (sm_descriptor m)) (auth_key_id ext) = Some key \<and>
      verify_envelope_buffer data (sm_bound_bind m) dir key = Inr ext) \<and>
    m' = (if sm_expected_inbound_auth_seq m < 0xFFFFFFFF
          then m\<lparr>sm_expected_inbound_auth_seq := sm_expected_inbound_auth_seq m + 1\<rparr> else m)"
proof -
  note d = assms [unfolded verify_inbound_frame_def Let_def]
  have l: "\<not> length data < 32" using d by (intro notI) simp
  then obtain hdr where h: "decode_header (take 32 data) = Some hdr"
    using d by (cases "decode_header (take 32 data)") simp_all
  have ty: "hdr_envelope_type hdr \<noteq> et_session_bind" using d l h by (intro notI) simp
  have act: "sm_is_sl1_active m"
    using d l h ty by (intro notI ccontr [of "sm_is_sl1_active m"]) (simp split: if_split_asm)
  have fl: "hdr_flags hdr AND 1 \<noteq> 0" using d l h ty act by (intro notI) simp
  have l2: "\<not> length data < 56" using d l h ty act fl by (intro notI) simp
  then obtain ext0 where e: "decode_auth_extension (take 24 (drop 32 data)) = Some ext0"
    using d l h ty act fl by (cases "decode_auth_extension (take 24 (drop 32 data))") simp_all
  note d = d [simplified l h ty act fl l2 e if_False if_True option.case simp_thms if_not_P]
  have sq: "auth_seq ext0 = sm_expected_inbound_auth_seq m"
    using d l h ty act fl l2 e by (intro ccontr [of "auth_seq ext0 = _"]) simp
  have ro: "rotation_allows (sm_descriptor m) (auth_key_id ext0)"
    using d l h ty act fl l2 e sq by (intro ccontr [of "rotation_allows _ _"]) simp
  obtain key where k: "lookup (sd_sl1_keys (sm_descriptor m)) (auth_key_id ext0) = Some key"
    using d l h ty act fl l2 e sq ro
    by (cases "lookup (sd_sl1_keys (sm_descriptor m)) (auth_key_id ext0)") simp_all
  have q: "auth_seq ext0 = sm_expected_inbound_auth_seq m" "sm_is_sl1_active m"
      "lookup (sd_sl1_keys (sm_descriptor m)) (auth_key_id ext0) = Some key"
      "verify_envelope_buffer data (sm_bound_bind m) dir key = Inr ext"
      "m' = (if sm_expected_inbound_auth_seq m < 0xFFFFFFFF
          then m\<lparr>sm_expected_inbound_auth_seq := sm_expected_inbound_auth_seq m + 1\<rparr> else m)"
    using d l h ty act fl l2 e sq ro k
    by (cases "verify_envelope_buffer data (sm_bound_bind m) dir key"; simp)+
  from q(4) obtain h p where d: "data = encode_header h @ encode_auth_extension ext @ p" "auth_wf ext"
    unfolding verify_accepts_iff by blast
  then have "take 24 (drop 32 data) = encode_auth_extension ext"
    by (simp add: length_encode_auth auth_wf_def)
  then have "ext0 = ext" using e decode_auth_encode [OF d(2), of "[]"] by simp
  with q show ?thesis by auto
qed

lemma inbound_unauthenticated:
  assumes "verify_inbound_frame m data dir = (m', r)" and "\<And>ext. r \<noteq> Inr (Some ext)"
  shows "m' = m"
  using assms
  by (auto simp: verify_inbound_frame_def Let_def split: if_splits option.splits sum.splits)

text \<open>The authentication sequence numbers a run of received frames gets accepted.\<close>

fun accepted_seqs :: "session_manager \<Rightarrow> (bytes \<times> message_direction) list \<Rightarrow> u32 list" where
  "accepted_seqs m [] = []"
| "accepted_seqs m ((data, dir) # fs) =
     (case verify_inbound_frame m data dir of
        (m', Inr (Some ext)) \<Rightarrow> auth_seq ext # accepted_seqs m' fs
      | (m', _) \<Rightarrow> accepted_seqs m' fs)"

text \<open>
  Authenticated frames are accepted in order and at most once. However many frames arrive,
  in whatever order and however often repeated, those accepted as authenticated carry
  consecutive sequence numbers starting at the expected one, as long as the 32-bit counter does
  not reach its end during the run.
\<close>

theorem inbound_frames_in_sequence:
  assumes "unat (sm_expected_inbound_auth_seq m) + length fs < 2 ^ 32"
  shows "\<exists>n \<le> length fs. map unat (accepted_seqs m fs) =
    [unat (sm_expected_inbound_auth_seq m) ..< unat (sm_expected_inbound_auth_seq m) + n]"
  using assms
proof (induction fs arbitrary: m)
  case Nil
  then show ?case by simp
next
  case (Cons f fs)
  obtain data dir where f: "f = (data, dir)" by (cases f)
  obtain m' r where v: "verify_inbound_frame m data dir = (m', r)" by (cases "verify_inbound_frame m data dir")
  let ?q = "sm_expected_inbound_auth_seq m"
  show ?case
  proof (cases "\<exists>ext. r = Inr (Some ext)")
    case True
    then obtain ext where r: "r = Inr (Some ext)" by blast
    from v r have a: "auth_seq ext = ?q"
      "m' = (if ?q < 0xFFFFFFFF then m\<lparr>sm_expected_inbound_auth_seq := ?q + 1\<rparr> else m)"
      using inbound_accepted [of m data dir m' ext] by simp_all
    have "unat ?q < unat (0xFFFFFFFF :: u32)" using Cons.prems by simp
    then have "?q < 0xFFFFFFFF" by (simp add: word_less_nat_alt)
    with a(2) have m': "sm_expected_inbound_auth_seq m' = ?q + 1" by simp
    have u: "unat (?q + 1) = Suc (unat ?q)" using Cons.prems by (simp add: unat_plus_if')
    from Cons.IH [of m'] Cons.prems obtain n where n: "n \<le> length fs"
      "map unat (accepted_seqs m' fs) = [Suc (unat ?q)..<Suc (unat ?q) + n]"
      by (auto simp: m' u)
    then show ?thesis using v r a(1)
      by (intro exI [of _ "Suc n"]) (simp add: f upt_conv_Cons)
  next
    case False
    with v have [simp]: "m' = m" by (metis inbound_unauthenticated)
    have s: "accepted_seqs m (f # fs) = accepted_seqs m fs"
      using False v by (auto simp: f split: sum.splits option.splits)
    from Cons.IH [of m] Cons.prems show ?thesis unfolding s by (auto intro: le_SucI)
  qed
qed

lemma compute_sl1_mac_same_lease:
  "same_lease a b \<Longrightarrow> compute_sl1_mac k h e a d p = compute_sl1_mac k h e b d p"
  by (simp add: compute_sl1_mac_def sl1_mac_input_def same_lease_def)

lemma verify_same_lease:
  "same_lease a b \<Longrightarrow> verify_envelope_buffer data a dir key = Inr ext \<Longrightarrow>
     verify_envelope_buffer data b dir key = Inr ext"
  by (simp add: verify_accepts_iff compute_sl1_mac_same_lease)

lemma outbound_signed:
  assumes "sign_outbound_frame m buf dir = (m', Inr out)" and "sm_is_sl1_active m"
  shows "\<exists>kid key. signing_key (sm_descriptor m) = Some (kid, key) \<and>
    sm_next_outbound_auth_seq m < 0xFFFFFFFF \<and>
    sign_envelope_buffer buf (sm_bound_bind m) dir (sm_next_outbound_auth_seq m) kid key = Some out \<and>
    m' = m\<lparr>sm_next_outbound_auth_seq := sm_next_outbound_auth_seq m + 1\<rparr>"
  using assms by (auto simp: sign_outbound_frame_def not_le split: if_splits option.splits)

lemma inbound_accepts:
  assumes "verify_envelope_buffer out (sm_bound_bind n) dir key = Inr ext"
    and "out = encode_header h @ encode_auth_extension ext @ p" and "auth_wf ext"
    and "hdr_flags h AND 1 \<noteq> 0" and "hdr_envelope_type h \<noteq> et_session_bind"
    and "sm_is_sl1_active n" and "auth_seq ext = sm_expected_inbound_auth_seq n"
    and "rotation_allows (sm_descriptor n) (auth_key_id ext)"
    and "lookup (sd_sl1_keys (sm_descriptor n)) (auth_key_id ext) = Some key"
  shows "verify_inbound_frame n out dir =
    (if sm_expected_inbound_auth_seq n < 0xFFFFFFFF
     then n\<lparr>sm_expected_inbound_auth_seq := sm_expected_inbound_auth_seq n + 1\<rparr> else n, Inr (Some ext))"
proof -
  have l: "length (encode_auth_extension ext) = 24" using assms(3) by (simp add: length_encode_auth auth_wf_def)
  have d: "decode_auth_extension (take 24 (drop 32 out)) = Some ext"
    using decode_auth_encode [OF assms(3), of "[]"] by (simp add: assms(2) l)
  have h: "decode_header (take 32 out) = Some h" by (simp add: assms(2))
  have n: "\<not> length out < 32" "\<not> length out < 56" by (simp_all add: assms(2) l)
  show ?thesis unfolding verify_inbound_frame_def Let_def
    using assms(1,4-9) d h n by simp
qed

text \<open>
  A signed frame reaches its peer. When a manager with SL1 active signs a frame other than a
  SESSION_BIND, a peer bound to the same identity, epoch and lease token that holds the same key
  and expects the sender's next sequence number accepts it in the direction it was signed for,
  and both counters advance together, so the next frame is expected again.
\<close>

theorem signed_frame_accepted:
  assumes "sign_outbound_frame m buf dir = (m', Inr out)" and "sm_is_sl1_active m"
    and "decode_header buf = Some h" and "hdr_envelope_type h \<noteq> et_session_bind"
    and "signing_key (sm_descriptor m) = Some (kid, key)"
    and "sm_is_sl1_active n" and "same_lease (sm_bound_bind m) (sm_bound_bind n)"
    and "sm_expected_inbound_auth_seq n = sm_next_outbound_auth_seq m"
    and "lookup (sd_sl1_keys (sm_descriptor n)) kid = Some key"
    and "rotation_allows (sm_descriptor n) kid"
  shows "\<exists>n' ext. verify_inbound_frame n out dir = (n', Inr (Some ext)) \<and>
    auth_key_id ext = kid \<and>
    sm_expected_inbound_auth_seq n' = sm_next_outbound_auth_seq m' \<and>
    drop 56 out = drop 32 buf"
proof -
  from outbound_signed [OF assms(1,2)] assms(5) have
    lim: "sm_next_outbound_auth_seq m < 0xFFFFFFFF" and
    sg: "sign_envelope_buffer buf (sm_bound_bind m) dir (sm_next_outbound_auth_seq m) kid key = Some out"
    and m': "m' = m\<lparr>sm_next_outbound_auth_seq := sm_next_outbound_auth_seq m + 1\<rparr>" by auto
  from sign_then_verify [OF sg] assms(3) obtain ext where
    out: "out = encode_header (h\<lparr>hdr_flags := hdr_flags h OR 1\<rparr>) @ encode_auth_extension ext @ drop 32 buf"
    and v: "verify_envelope_buffer out (sm_bound_bind m) dir key = Inr ext"
    and x: "auth_seq ext = sm_next_outbound_auth_seq m" "auth_key_id ext = kid" by auto
  from v have wf: "auth_wf ext"
    unfolding verify_accepts_iff by blast
  have "hdr_flags (h\<lparr>hdr_flags := hdr_flags h OR 1\<rparr>) AND 1 \<noteq> 0" by (simp add: auth_flag_set)
  moreover have "hdr_envelope_type (h\<lparr>hdr_flags := hdr_flags h OR 1\<rparr>) \<noteq> et_session_bind"
    using assms(4) by simp
  ultimately have "verify_inbound_frame n out dir =
      (n\<lparr>sm_expected_inbound_auth_seq := sm_next_outbound_auth_seq m + 1\<rparr>, Inr (Some ext))"
    using inbound_accepts [OF verify_same_lease [OF assms(7) v] out wf] assms(6,8-10) x lim
    by simp
  moreover have "drop 56 out = drop 32 buf"
    using wf by (simp add: out length_encode_auth auth_wf_def)
  ultimately show ?thesis by (auto simp: m' x)
qed

section \<open>Two edge cases\<close>

text \<open>
  At the last sequence number the counter stays where it is, so the same frame is accepted
  again.
\<close>

lemma last_sequence_number_replayable:
  "verify_inbound_frame m data dir = (m', Inr (Some ext)) \<Longrightarrow>
   sm_expected_inbound_auth_seq m = 0xFFFFFFFF \<Longrightarrow>
   verify_inbound_frame m' data dir = (m', Inr (Some ext))"
  using inbound_accepted [of m data dir m' ext] by simp

text \<open>
  A drained count that overflows the 64-bit offset is accepted and moves the acknowledged offset
  backwards, which is why the step relation asks for \<open>drain_in_range\<close>.
\<close>

definition ex_drain_stream :: active_stream_state where
  "ex_drain_stream = \<lparr>as_stream = \<lparr>request_id = 3, execution_id = 4, output_id = 0\<rparr>,
     as_profile = rp_chat, as_model_id = ''m'',
     as_lifecycle = \<lparr>lc_state = Started, lc_outcome = to_unknown, lc_has_outcome = False\<rparr>,
     as_last_event_seq = 2, as_total_produced_bytes = 10, as_acknowledged_offset_bytes = 7\<rparr>"

lemma drain_overflow_moves_back:
  "let m = (new_session_manager default_session_descriptor)
       \<lparr>sm_active_streams := [(as_stream ex_drain_stream, ex_drain_stream)]\<rparr>;
     (m', ok) = acknowledge_stream_drain m (as_stream ex_drain_stream) 0xFFFFFFFFFFFFFFFD
   in ok \<and> map_option as_acknowledged_offset_bytes (get_stream_state m' (as_stream ex_drain_stream))
        = Some 4"
  by (simp add: ex_drain_stream_def acknowledge_stream_drain_def new_session_manager_def Let_def
      get_stream_state_def)

end
