(* ===== verification/Envelope_Examples.thy ===== *)
theory Envelope_Examples
  imports Event_Envelopes
begin
unbundle bit_operations_syntax

text \<open>Concrete frames that meet the hypotheses of the envelope properties.\<close>

text \<open>Concrete frames: a signed frame without payload and a SESSION_BIND without SL1.\<close>

definition ex_bind :: session_bind_envelope where
  "ex_bind = new_session_bind\<lparr>bind_identity := \<lparr>node_id = 7, runtime_id = 9, endpoint_id = 2\<rparr>,
     bind_control_epoch := 3, bind_lease_token := 5\<rparr>"

definition ex_frame_header :: wire_envelope_header where
  "ex_frame_header = \<lparr>hdr_magic = LINEP_V02_MAGIC, hdr_version_major = 0, hdr_version_minor = 2,
     hdr_envelope_type = et_control, hdr_flags = 0, hdr_request_id = 3, hdr_execution_id = 4,
     hdr_output_id = 0, hdr_payload_len = 0\<rparr>"

definition ex_signed :: bytes where
  "ex_signed = the (sign_envelope_buffer (encode_header ex_frame_header) ex_bind
     Initiator_To_Responder 6 2 [0xAA])"

lemma ex_signed: "sign_envelope_buffer (encode_header ex_frame_header) ex_bind
    Initiator_To_Responder 6 2 [0xAA] = Some ex_signed"
  unfolding ex_signed_def by (simp add: sign_envelope_buffer_def Let_def ex_frame_header_def)

lemma signed_buffer_verifies_witness:
  "sign_envelope_buffer (encode_header ex_frame_header) ex_bind
     Initiator_To_Responder 6 2 [0xAA] = Some ex_signed \<and>
   (\<exists>ext. verify_envelope_buffer ex_signed ex_bind Initiator_To_Responder [0xAA] = Inr ext \<and>
      auth_seq ext = 6)"
  using ex_signed signed_buffer_verifies [OF ex_signed] by auto

lemma ex_signed_verifies:
  "\<exists>ext. verify_envelope_buffer ex_signed ex_bind Initiator_To_Responder [0xAA] = Inr ext"
  using sign_then_verify [OF ex_signed] by blast

lemma accepted_tag_binds_session_witness:
  "\<exists>ext. [0xAA] \<noteq> ([] :: bytes) \<and>
     verify_envelope_buffer ex_signed ex_bind Initiator_To_Responder [0xAA] = Inr ext \<and>
     (ex_signed = ex_signed \<and> same_lease ex_bind ex_bind \<or>
      frame_mac_input ex_signed ex_bind Initiator_To_Responder
        \<noteq> frame_mac_input ex_signed ex_bind Initiator_To_Responder)"
proof -
  obtain ext where e: "verify_envelope_buffer ex_signed ex_bind Initiator_To_Responder [0xAA] = Inr ext"
    using ex_signed_verifies by blast
  have "[0xAA] \<noteq> ([] :: bytes)" by simp
  from accepted_tag_binds_session [OF this e e refl] e show ?thesis by blast
qed

lemma session_bind_roundtrip_witness:
  "session_bind_wf ex_bind \<and>
   (\<exists>buf. encode_session_bind ex_bind = Some buf \<and>
      decode_session_bind new_session_bind buf = Some ex_bind)"
  using session_bind_roundtrip [of ex_bind new_session_bind]
  by (simp add: ex_bind_def new_session_bind_def session_bind_wf_def guard_defs)

definition ex_bind_wire :: bytes where
  "ex_bind_wire =
     [0x32, 0x4C, 0x4E, 0x50, 0, 2, 5, 0, 0, 0, 0, 0, 0, 0, 0, 0, 0, 0, 0, 0, 0, 0, 0, 0,
      0, 0, 0, 0, 36, 0, 0, 0,
      7, 0, 0, 0, 0, 0, 0, 0, 9, 0, 0, 0, 0, 0, 0, 0, 2, 0, 0, 0, 3, 0, 0, 0, 0, 0, 0, 0,
      5, 0, 0, 0, 0, 0, 0, 0]"

lemma ex_bind_wire: "decode_session_bind new_session_bind ex_bind_wire = Some ex_bind"
  by code_simp

lemma session_bind_decoder_exact_witness:
  "decode_session_bind new_session_bind ex_bind_wire = Some ex_bind \<and> session_bind_wf ex_bind \<and>
   (\<exists>v. ex_bind_wire = encode_header (session_bind_header ex_bind\<lparr>hdr_version_minor := v\<rparr>) @
      session_bind_payload ex_bind)"
  using ex_bind_wire session_bind_decoder_exact [OF ex_bind_wire]
  by (simp add: ex_bind_def new_session_bind_def)

text \<open>A request with two extra options, given unsorted.\<close>

definition ex_request :: request_envelope where
  "ex_request = \<lparr>req_stream = \<lparr>request_id = 3, execution_id = 4, output_id = 0\<rparr>,
     req_profile = rp_chat, req_model_id = ''m'', req_payload = ''hi'', req_max_tokens = 16,
     req_temperature = 0x3F333333, req_stream_requested = True, req_has_options = True,
     req_options = default_options\<lparr>opt_stop_sequences := [''x''],
       opt_extra_options := [(''b'', ''2''), (''a'', ''1'')]\<rparr>\<rparr>"

definition ex_request_sorted :: request_envelope where
  "ex_request_sorted = ex_request\<lparr>req_options := (req_options ex_request)
     \<lparr>opt_extra_options := [(''a'', ''1''), (''b'', ''2'')]\<rparr>\<rparr>"

lemma ex_request_canonical: "canonical_request ex_request = ex_request_sorted"
  by code_simp

lemma ex_request_fits: "fits_u16 (req_model_id ex_request)" "fits_u32 (req_payload ex_request)"
  "options_fit (req_options ex_request)" "length (request_body ex_request_sorted) < 2 ^ 32"
  by (simp_all add: ex_request_def ex_request_sorted_def fits_u16_def fits_u32_def options_fit_def
      default_options_def request_body_def write_request_base_def options_body_def write_bool_def
      write_extra_option_def length_write_string)

lemma ex_request_valid: "request_is_valid ex_request" "request_is_valid ex_request_sorted"
  by (simp_all add: guard_defs ex_request_def ex_request_sorted_def)

lemma ex_request_encodes: "encode_request ex_request \<noteq> None"
  using encode_request_body [of ex_request] ex_request_fits(3) ex_request_valid(1)
  by (simp add: ex_request_def)


definition ex_request_wire :: bytes where
  "ex_request_wire =
     close_envelope et_request (req_stream ex_request_sorted) (request_body ex_request_sorted)"

lemma ex_request_wire: "decode_request ex_request_wire = Some ex_request_sorted"
proof -
  have "request_canonical ex_request_sorted"
    using ex_request_fits(4)
    by (simp add: request_canonical_def)
      (simp add: ex_request_def ex_request_sorted_def options_canonical_def options_fit_def
        default_options_def fits_u16_def fits_u32_def)
  then show ?thesis
    unfolding ex_request_wire_def using ex_request_valid(2) by (rule decode_request_body)
qed

lemma request_reencode_stable_witness:
  "decode_request ex_request_wire = Some ex_request_sorted \<and>
   (\<exists>buf. encode_request ex_request_sorted = Some buf \<and> decode_request buf = Some ex_request_sorted)"
  using ex_request_wire request_reencode_stable [OF ex_request_wire] by blast

text \<open>An embedding result, and a vision result with one detection.\<close>

definition ex_event :: event_envelope where
  "ex_event = \<lparr>evt_stream = \<lparr>request_id = 3, execution_id = 4, output_id = 0\<rparr>, evt_event_seq = 5,
     evt_event_type = re_embedding_result, evt_payload = ''p'', evt_outcome = to_unknown,
     evt_error = no_error,
     evt_embedding = \<lparr>emb_space = \<lparr>sp_embedding_space_id = ''s'', sp_model_id = ''m'',
       sp_model_revision = [], sp_dimensions = 2, sp_normalization = 0, sp_distance_metric = 3\<rparr>,
       emb_vector = [0x3F800000, 0]\<rparr>,
     evt_vision = \<lparr>vr_task = vt_detect, vr_model_id = ''v'', vr_model_revision = [],
       vr_detect = \<lparr>vd_label_set_id = ''coco80:v1'', vd_original_width = 640,
         vd_original_height = 480, vd_detections = [\<lparr>det_class_id = 2, det_label = ''car'',
           det_score = 0x3F000000, det_box = \<lparr>box_x_min = 0, box_y_min = 0,
             box_x_max = 0x3F000000, box_y_max = 0x3F800000\<rparr>\<rparr>]\<rparr>\<rparr>,
     evt_timestamp_us = 77\<rparr>"

lemma ex_event_fits: "event_fits ex_event"
  by (simp add: event_fits_def ex_event_def fits_u16_def fits_u32_def no_error_def embedding_ok_def
      space_fits_def event_payload_def write_event_result_def write_embedding_def
      write_embedding_space_def length_write_string)

lemma ex_event_valid: "event_is_valid ex_event"
  by code_simp

lemma event_roundtrip_witness:
  "event_fits ex_event \<and> event_is_valid ex_event \<and>
   (\<exists>buf. encode_event ex_event = Some buf \<and> decode_event ex_event buf = Some ex_event)"
  using ex_event_fits ex_event_valid event_roundtrip [OF ex_event_fits ex_event_valid, of ex_event]
  by (simp add: ex_event_def)

definition ex_vision_event :: event_envelope where
  "ex_vision_event = ex_event\<lparr>evt_event_type := re_vision_result\<rparr>"

definition ex_vision_wire :: bytes where
  "ex_vision_wire = close_envelope et_event (evt_stream ex_vision_event) (event_payload ex_vision_event)"

lemma ex_vision_wire: "decode_event ex_vision_event ex_vision_wire = Some ex_vision_event"
proof -
  have "event_fits ex_vision_event"
    by (simp add: event_fits_def ex_vision_event_def ex_event_def fits_u16_def fits_u32_def
        no_error_def vision_ok_def event_payload_def write_event_result_def write_vision_def
        write_detection_def length_write_string)
  moreover have "event_is_valid ex_vision_event"
  proof -
    have "is_valid_label_for_class ''coco80:v1'' 2 ''car''"
      by (simp add: is_valid_label_for_class_def resolve_standard_label_def label_at_def
          LABEL_SET_COCO80_V1_def COCO80_V1_LABELS_def)
    then show ?thesis
      by (simp add: ex_vision_event_def ex_event_def event_is_valid_def guard_defs vision_is_valid_def
          detect_result_is_valid_def detection_is_valid_def box_is_valid_def f32_isnan_def
          f32_isinf_def f32_lt_def f32_le_def f32_rank_def f32_magnitude_def)
  qed
  ultimately show ?thesis
    unfolding ex_vision_wire_def by (rule decode_event_payload) (simp add: keeps_other_results_def)
qed

lemma event_decoder_bounded_witness:
  "decode_event ex_vision_event ex_vision_wire = Some ex_vision_event \<and>
   evt_event_type ex_vision_event = re_vision_result \<and>
   26 * length (vd_detections (vr_detect (evt_vision ex_vision_event)))
     \<le> length ex_vision_wire"
  using ex_vision_wire event_decoder_bounded [OF ex_vision_wire] by (simp add: ex_vision_event_def)

definition ex_capabilities :: runtime_capabilities_descriptor where
  "ex_capabilities = \<lparr>cap_supported_profiles = [rp_chat, rp_vision], cap_max_context_tokens = 4096,
     cap_max_output_tokens = 512, cap_supports_streaming = True, cap_supports_cancellation = True,
     cap_supports_tool_calling = False, cap_supports_reasoning_deltas = False,
     cap_supports_structured_messages = True, cap_supported_models = [''m''],
     cap_supported_embedding_spaces = [], cap_supported_vision_models =
       [\<lparr>vm_model_id = ''v'', vm_model_revision = [], vm_label_set_id = ''coco80:v1'',
         vm_task = vt_detect, vm_max_detections = 100, vm_custom_labels = []\<rparr>],
     cap_supported_decision_models =
       [\<lparr>dm_model_id = ''d'', dm_model_revision = [], dm_decision_type = ''choice''\<rparr>]\<rparr>"

lemma capabilities_roundtrip_witness:
  "capabilities_fit ex_capabilities \<and>
   decode_capabilities (encode_capabilities ex_capabilities) = Some ex_capabilities"
proof -
  have "capabilities_fit ex_capabilities"
    by (simp add: capabilities_fit_def ex_capabilities_def fits_u16_def vision_model_fits_def
        decision_model_is_valid_def capabilities_payload_def write_vision_model_def
        write_decision_model_def write_bool_def length_write_string)
  then show ?thesis using capabilities_roundtrip by blast
qed

end
