(* ===== verification/Session_Examples.thy ===== *)
theory Session_Examples
  imports Session_Binding Control_Plane_Examples Envelope_Examples
begin

unbundle bit_operations_syntax

text \<open>
  One session that meets the hypotheses of the session properties: two requests, events of the
  first up to its terminal one, controls, a SESSION_BIND and a signed frame between two peers.
\<close>

definition ex_sm0 :: session_manager where
  "ex_sm0 = new_session_manager default_session_descriptor"

definition ex_sm1 :: session_manager where
  "ex_sm1 = fst (submit_request ex_sm0 ex_request)"

definition ex_delta :: event_envelope where
  "ex_delta = ex_event\<lparr>evt_event_type := re_content_delta, evt_event_seq := 2, evt_payload := ''abc''\<rparr>"

definition ex_done :: event_envelope where
  "ex_done = ex_event\<lparr>evt_event_type := re_completed, evt_event_seq := 5, evt_payload := []\<rparr>"

definition ex_sm2 :: session_manager where
  "ex_sm2 = fst (dispatch_event ex_sm1 ex_delta)"

definition ex_sm3 :: session_manager where
  "ex_sm3 = fst (dispatch_event ex_sm2 ex_done)"

lemmas ex_session_defs = ex_sm0_def new_session_manager_def default_session_descriptor_def
  get_active_stream_count_def ex_request_def ex_event_def ex_delta_def ex_done_def guard_defs

lemma ex_sm1: "submit_request ex_sm0 ex_request = (ex_sm1, Inr ())"
    "sm_active_streams ex_sm1 = [(req_stream ex_request, new_active_stream ex_request)]"
    "sm_descriptor ex_sm1 = default_session_descriptor" "sm_binding_state ex_sm1 = Unbound"
  unfolding ex_sm1_def by (simp_all add: submit_request_def ex_session_defs set_stream_def)

lemma ex_valid: "event_is_valid ex_delta" "event_is_valid ex_done" "\<not> event_is_terminal ex_delta"
  "event_is_terminal ex_done"
  by (simp_all add: event_is_valid_def event_is_terminal_def ex_session_defs)

definition ex_stream :: active_stream_state where
  "ex_stream = \<lparr>as_stream = req_stream ex_request, as_profile = rp_chat, as_model_id = ''m'',
     as_lifecycle = \<lparr>lc_state = Started, lc_outcome = to_unknown, lc_has_outcome = False\<rparr>,
     as_last_event_seq = 2, as_total_produced_bytes = 3, as_acknowledged_offset_bytes = 0\<rparr>"

lemma ex_apply_delta: "apply_event ex_delta (new_active_stream ex_request) = ex_stream"
  using ex_valid
  by (simp add: apply_event_def new_active_stream_def ex_stream_def transition_to_def
      can_transition_to_def new_lifecycle_def event_bytes_def Let_def)
    (simp add: ex_session_defs)

lemma ex_sm2: "dispatch_event ex_sm1 ex_delta = (ex_sm2, Inr ())"
    "sm_active_streams ex_sm2 = [(req_stream ex_request, ex_stream)]"
    "sm_descriptor ex_sm2 = default_session_descriptor"
proof -
  have s: "evt_stream ex_delta = req_stream ex_request" by (simp add: ex_session_defs)
  have "dispatch_event ex_sm1 ex_delta = (set_stream ex_sm1 ex_stream (req_stream ex_request), Inr ())"
    using ex_valid(1) ex_sm1 ex_apply_delta
    by (simp add: dispatch_event_def s)
      (simp add: new_active_stream_def transition_to_def can_transition_to_def new_lifecycle_def
        unacked_buffered_bytes_def event_bytes_def ex_session_defs)
  then show "dispatch_event ex_sm1 ex_delta = (ex_sm2, Inr ())"
    "sm_active_streams ex_sm2 = [(req_stream ex_request, ex_stream)]"
    "sm_descriptor ex_sm2 = default_session_descriptor"
    by (simp_all add: ex_sm2_def ex_sm1)
qed

lemma ex_sm3: "dispatch_event ex_sm2 ex_done = (ex_sm3, Inr ())"
proof -
  have s: "evt_stream ex_done = req_stream ex_request" by (simp add: ex_session_defs)
  have "snd (dispatch_event ex_sm2 ex_done) = Inr ()"
    using ex_valid(2) ex_sm2
    by (simp add: dispatch_event_def s)
      (simp add: ex_stream_def unacked_buffered_bytes_def event_bytes_def ex_session_defs)
  then show ?thesis by (simp add: ex_sm3_def prod_eq_iff)
qed

lemma ex_sm_reachable: "session_reachable default_session_descriptor ex_sm1"
    "session_reachable default_session_descriptor ex_sm2"
proof -
  have "session_step ex_sm0 ex_sm1" unfolding ex_sm1_def by (rule step_request)
  then show r: "session_reachable default_session_descriptor ex_sm1"
    unfolding session_reachable_def ex_sm0_def by blast
  have "session_step ex_sm1 ex_sm2" unfolding ex_sm2_def by (rule step_event)
  with r show "session_reachable default_session_descriptor ex_sm2"
    unfolding session_reachable_def by (rule rtranclp.rtrancl_into_rtrancl)
qed


lemma ex_get: "get_stream_state ex_sm2 (req_stream ex_request) = Some ex_stream"
  by (simp add: get_stream_state_def ex_sm2)


lemma accepted_events_ordered_witness:
  "dispatch_event ex_sm1 ex_delta = (ex_sm2, Inr ()) \<and> dispatch_event ex_sm2 ex_done = (ex_sm3, Inr ()) \<and>
   evt_event_seq ex_delta < evt_event_seq ex_done \<and> \<not> event_is_terminal ex_delta"
proof -
  have "evt_stream ex_done = evt_stream ex_delta" by (simp add: ex_session_defs)
  from accepted_events_ordered [OF ex_sm_reachable(1) ex_sm2(1) rtranclp.rtrancl_refl ex_sm3 this]
    ex_sm2(1) ex_sm3 show ?thesis by blast
qed

definition ex_window :: control_envelope where
  "ex_window = \<lparr>ctl_stream = req_stream ex_request, ctl_control_type = ct_window_update,
     ctl_reason = [], ctl_ack_offset_bytes = 2\<rparr>"

definition ex_cancel :: control_envelope where
  "ex_cancel = ex_window\<lparr>ctl_control_type := ct_cancel\<rparr>"

lemma ex_controls: "control_is_valid ex_window" "control_is_valid ex_cancel"
  "ctl_control_type ex_window = ct_window_update" "ctl_control_type ex_cancel = ct_cancel"
  "ctl_stream ex_window = req_stream ex_request" "ctl_stream ex_cancel = req_stream ex_request"
  by (simp_all add: ex_window_def ex_cancel_def guard_defs ex_request_def)

lemma window_update_exact_witness:
  "process_control ex_sm2 ex_window =
     (set_stream ex_sm2 (ex_stream\<lparr>as_acknowledged_offset_bytes := 2\<rparr>) (req_stream ex_request), Inr True)"
  using window_update_exact [OF ex_sm_reachable(2) ex_controls(1,3)] ex_get ex_controls(5)
  by (simp add: ex_stream_def ex_window_def)

lemma cancel_exact_witness:
  "process_control ex_sm2 ex_cancel =
     (set_stream ex_sm2 (ex_stream\<lparr>as_lifecycle := (as_lifecycle ex_stream)\<lparr>lc_state := Cancel_Requested\<rparr>\<rparr>)
        (req_stream ex_request), Inr True)"
  using cancel_exact [OF ex_sm_reachable(2) ex_controls(2,4)] ex_get ex_controls(6)
  by (simp add: ex_stream_def)

text \<open>Binding.\<close>

definition ex_lease_descriptor :: session_descriptor where
  "ex_lease_descriptor = default_session_descriptor\<lparr>sd_require_lease := True,
     sd_sl1_keys := [(1, replicate 32 0xAA)]\<rparr>"

definition ex_sl1_bind :: session_bind_envelope where
  "ex_sl1_bind = ex_bind\<lparr>bind_sl1_requested := True,
     bind_auth_ext := no_auth_extension\<lparr>auth_seq := 1, auth_key_id := 1\<rparr>\<rparr>"

definition ex_bound :: session_manager where
  "ex_bound = fst (process_session_bind (new_session_manager ex_lease_descriptor) ex_sl1_bind None)"

lemmas ex_bound_defs = ex_lease_descriptor_def ex_sl1_bind_def ex_bind_def new_session_bind_def
  no_auth_extension_def default_session_descriptor_def new_session_manager_def guard_defs

lemma ex_bound: "ex_bound = (new_session_manager ex_lease_descriptor)\<lparr>sm_bound_bind := ex_sl1_bind,
    sm_binding_generation := 1, sm_binding_state := Bound_Current, sm_is_sl1_active := True,
    sm_next_outbound_auth_seq := 1, sm_expected_inbound_auth_seq := 2\<rparr>"
  unfolding ex_bound_def
  by (simp add: process_session_bind_def Let_def sl1_bind_error_def rotation_allows_def ex_bound_defs)

lemma bound_identity_fixed_witness:
  "sm_binding_state ex_bound \<noteq> Unbound \<and> session_step\<^sup>*\<^sup>* ex_bound (mark_binding_stale ex_bound) \<and>
   bind_identity (sm_bound_bind (mark_binding_stale ex_bound)) = bind_identity ex_bind"
proof -
  have b: "sm_binding_state ex_bound \<noteq> Unbound" by (simp add: ex_bound)
  have s: "session_step\<^sup>*\<^sup>* ex_bound (mark_binding_stale ex_bound)" by (blast intro: step_stale)
  from bound_identity_fixed [OF b s] b s show ?thesis by (simp add: ex_bound ex_sl1_bind_def)
qed

lemma requests_need_current_binding_witness:
  "\<exists>m'. submit_request ex_bound ex_request = (m', Inr ()) \<and>
     sm_binding_state ex_bound = Bound_Current \<and> session_bind_is_valid (sm_bound_bind ex_bound)"
proof -
  have r: "session_reachable ex_lease_descriptor ex_bound"
    unfolding session_reachable_def ex_bound_def by (blast intro: step_bind)
  have q: "sd_require_lease (sm_descriptor ex_bound)" by (simp add: ex_bound ex_bound_defs)
  have "submit_request ex_bound ex_request
      = (set_stream ex_bound (new_active_stream ex_request) (req_stream ex_request), Inr ())"
    by (simp add: submit_request_def ex_bound) (simp add: ex_bound_defs ex_request_def get_active_stream_count_def)
  from requests_need_current_binding [OF r this q] this show ?thesis by blast
qed

text \<open>A sender whose peer is bound to the same lease.\<close>

definition ex_peer :: session_manager where
  "ex_peer = ex_bound\<lparr>sm_expected_inbound_auth_seq := 1\<rparr>"

lemma signed_frame_accepted_witness:
  "\<exists>m' out n' ext.
     sign_outbound_frame ex_bound (encode_header ex_frame_header) Initiator_To_Responder = (m', Inr out) \<and>
     verify_inbound_frame ex_peer out Initiator_To_Responder = (n', Inr (Some ext)) \<and> auth_key_id ext = 1"
proof -
  have k: "signing_key (sm_descriptor ex_bound) = Some (1, replicate 32 0xAA)"
    by (simp add: signing_key_def ex_bound) (simp add: ex_bound_defs)
  have f: "sm_is_sl1_active ex_bound" "sm_next_outbound_auth_seq ex_bound = 1"
    by (simp_all add: ex_bound)
  have w: "\<not> (0xFFFFFFFF :: u32) \<le> 1" by (simp add: word_le_nat_alt)
  obtain m' out where s:
    "sign_outbound_frame ex_bound (encode_header ex_frame_header) Initiator_To_Responder = (m', Inr out)"
    using k f w by (simp add: sign_outbound_frame_def sign_envelope_buffer_def Let_def ex_frame_header_def)
  have "\<exists>n' ext. verify_inbound_frame ex_peer out Initiator_To_Responder = (n', Inr (Some ext)) \<and>
    auth_key_id ext = 1 \<and> sm_expected_inbound_auth_seq n' = sm_next_outbound_auth_seq m' \<and>
    drop 56 out = drop 32 (encode_header ex_frame_header)"
    by (rule signed_frame_accepted [OF s _ decode_header_encode_nil _ k])
      (simp_all add: ex_peer_def ex_bound ex_frame_header_def same_lease_def rotation_allows_def ex_bound_defs)
  with s show ?thesis by blast
qed

lemma inbound_frames_in_sequence_witness:
  "unat (sm_expected_inbound_auth_seq ex_bound) + length [([], Initiator_To_Responder)] < 2 ^ 32 \<and>
   (\<exists>n \<le> 1. map unat (accepted_seqs ex_bound [([], Initiator_To_Responder)]) = [2..<2 + n])"
  using inbound_frames_in_sequence [of ex_bound "[([], Initiator_To_Responder)]"]
  by (simp add: ex_bound)

text \<open>A router whose node is in epoch 5 refuses a bind of epoch 3.\<close>

definition ex_old_bind :: session_bind_envelope where
  "ex_old_bind = ex_bind\<lparr>bind_identity := ex_id\<rparr>"

lemma past_epoch_cannot_bind_witness:
  "router_reachable ex_active \<and> (\<exists>err. process_session_bind ex_sm0 ex_old_bind (Some ex_active) = (ex_sm0, Inl err))"
proof -
  have "\<exists>cur. node_epoch ex_active ex_id = Some cur \<and> 3 < cur"
    by (simp add: node_epoch_def ex_active_eval node_from_hello_def ex_hello_def)
  then obtain cur where "node_epoch ex_active (bind_identity ex_old_bind) = Some cur"
    "bind_control_epoch ex_old_bind < cur"
    by (auto simp: ex_old_bind_def ex_bind_def)
  from past_epoch_cannot_bind [OF ex_reachable(3) this rtranclp.rtrancl_refl] ex_reachable(3)
  show ?thesis by blast
qed

end
