(* ===== verification/Stream_Scheduler.thy ===== *)
theory Stream_Scheduler
  imports Event_Envelopes
begin

text \<open>
  \<open>stream_send_scheduler\<close> of \<open>LiNeP/src/v0_2/transport.cpp\<close>: bounded send queues per stream,
  served round-robin. The methods that take \<open>mutex_\<close> are atomic steps; \<open>pull_next_scheduled\<close>
  is two of them. Sizes are those of containers in memory and are natural numbers.

  The locale \<open>frame_mux\<close> is the contract a user of the scheduler relies on: a family of FIFO
  queues, one per stream, of which \<open>pull\<close> serves one. Its consequence, that each stream's frames
  leave in the order they were accepted with none lost or invented, is proved there once.
\<close>

section \<open>State\<close>

record stream_queue_limits =
  max_frames_per_stream :: nat
  max_bytes_per_stream :: nat
  max_total_connection_bytes :: nat

definition default_queue_limits :: stream_queue_limits where
  "default_queue_limits = \<lparr>max_frames_per_stream = 16, max_bytes_per_stream = 1024 * 1024,
     max_total_connection_bytes = 8 * 1024 * 1024\<rparr>"

record per_stream_queue =
  sq_frames :: "bytes list"
  sq_total_bytes :: nat

record stream_send_scheduler =
  ss_limits :: stream_queue_limits
  ss_active_order :: "stream_identity list"
  ss_stream_queues :: "(stream_identity, per_stream_queue) umap"
  ss_total_connection_bytes :: nat
  ss_rr_cursor :: nat

definition new_scheduler :: "stream_queue_limits \<Rightarrow> stream_send_scheduler" where
  "new_scheduler l = \<lparr>ss_limits = l, ss_active_order = [], ss_stream_queues = [],
     ss_total_connection_bytes = 0, ss_rr_cursor = 0\<rparr>"

definition empty_queue :: per_stream_queue where
  "empty_queue = \<lparr>sq_frames = [], sq_total_bytes = 0\<rparr>"

section \<open>Operations\<close>

text \<open>\<open>stream_queues_[stream]\<close> creates the entry, also when the frame is then refused.\<close>

definition enqueue_raw ::
  "stream_send_scheduler \<Rightarrow> stream_identity \<Rightarrow> bytes \<Rightarrow> stream_send_scheduler \<times> bool" where
  "enqueue_raw s stream frame =
     (let q = (case lookup (ss_stream_queues s) stream of Some q \<Rightarrow> q | None \<Rightarrow> empty_queue);
          s = s\<lparr>ss_stream_queues := AList.update stream q (ss_stream_queues s)\<rparr>;
          frame_bytes = length frame
      in if max_frames_per_stream (ss_limits s) \<le> length (sq_frames q) then (s, False)
         else if max_bytes_per_stream (ss_limits s) < sq_total_bytes q + frame_bytes then (s, False)
         else if max_total_connection_bytes (ss_limits s) < ss_total_connection_bytes s + frame_bytes
         then (s, False)
         else (s\<lparr>ss_active_order := (if sq_frames q = [] then ss_active_order s @ [stream]
                                   else ss_active_order s),
                ss_total_connection_bytes := ss_total_connection_bytes s + frame_bytes,
                ss_stream_queues := AList.update stream
                  (q\<lparr>sq_total_bytes := sq_total_bytes q + frame_bytes,
                     sq_frames := sq_frames q @ [frame]\<rparr>) (ss_stream_queues s)\<rparr>, True))"

definition enqueue_encoded ::
  "stream_send_scheduler \<Rightarrow> stream_identity \<Rightarrow> bytes option \<Rightarrow> stream_send_scheduler \<times> bool" where
  "enqueue_encoded s stream buf =
     (case buf of None \<Rightarrow> (s, False) | Some frame \<Rightarrow> enqueue_raw s stream frame)"

definition enqueue_event :: "stream_send_scheduler \<Rightarrow> event_envelope \<Rightarrow> stream_send_scheduler \<times> bool" where
  "enqueue_event s e = enqueue_encoded s (evt_stream e) (encode_event e)"

definition enqueue_request :: "stream_send_scheduler \<Rightarrow> request_envelope \<Rightarrow> stream_send_scheduler \<times> bool" where
  "enqueue_request s r = enqueue_encoded s (req_stream r) (encode_request r)"

definition enqueue_control :: "stream_send_scheduler \<Rightarrow> control_envelope \<Rightarrow> stream_send_scheduler \<times> bool" where
  "enqueue_control s c = enqueue_encoded s (ctl_stream c) (encode_control c)"

definition erase_at :: "nat \<Rightarrow> 'a list \<Rightarrow> 'a list" where
  "erase_at i xs = take i xs @ drop (Suc i) xs"

definition wrap_cursor :: "stream_send_scheduler \<Rightarrow> stream_send_scheduler" where
  "wrap_cursor s = (if length (ss_active_order s) \<le> ss_rr_cursor s then s\<lparr>ss_rr_cursor := 0\<rparr> else s)"

definition front_frame :: "stream_send_scheduler \<Rightarrow> stream_identity \<Rightarrow> bytes option" where
  "front_frame s stream = (case lookup (ss_stream_queues s) stream of None \<Rightarrow> None
     | Some q \<Rightarrow> (case sq_frames q of [] \<Rightarrow> None | f # _ \<Rightarrow> Some f))"

text \<open>The search loop of \<open>peek_next_scheduled\<close>, which drops entries that have nothing queued.\<close>

function peek_loop ::
  "nat \<Rightarrow> stream_send_scheduler \<Rightarrow> stream_send_scheduler \<times> (stream_identity \<times> bytes) option" where
  "peek_loop attempts s =
     (if attempts < length (ss_active_order s) then
        let stream = ss_active_order s ! ss_rr_cursor s in
        case front_frame s stream of
          Some f \<Rightarrow> (s, Some (stream, f))
        | None \<Rightarrow>
            let s = s\<lparr>ss_stream_queues := AList.delete stream (ss_stream_queues s),
                      ss_active_order := erase_at (ss_rr_cursor s) (ss_active_order s)\<rparr>
            in if ss_active_order s = [] then (s\<lparr>ss_rr_cursor := 0\<rparr>, None)
               else peek_loop (Suc attempts) (wrap_cursor s)
      else (s, None))"
  by pat_completeness auto
termination
  by (relation "measure (\<lambda>(attempts, s). length (ss_active_order s) - attempts)")
    (auto simp: wrap_cursor_def erase_at_def)

declare peek_loop.simps [simp del]

definition peek_next_scheduled ::
  "stream_send_scheduler \<Rightarrow> stream_send_scheduler \<times> (stream_identity \<times> bytes) option" where
  "peek_next_scheduled s =
     (if ss_active_order s = [] then (s, None) else peek_loop 0 (wrap_cursor s))"

definition commit_next_scheduled :: "stream_send_scheduler \<Rightarrow> stream_send_scheduler" where
  "commit_next_scheduled s =
     (if ss_active_order s = [] then s
      else let s = wrap_cursor s; stream = ss_active_order s ! ss_rr_cursor s in
        case lookup (ss_stream_queues s) stream of
          None \<Rightarrow> s
        | Some q \<Rightarrow>
            (case sq_frames q of
               [] \<Rightarrow> s
             | f # fs \<Rightarrow>
                 let n = length f;
                     q = q\<lparr>sq_frames := fs, sq_total_bytes := sq_total_bytes q - n\<rparr>;
                     s = s\<lparr>ss_total_connection_bytes := ss_total_connection_bytes s - n\<rparr>
                 in if fs = []
                    then wrap_cursor (s\<lparr>ss_stream_queues := AList.delete stream (ss_stream_queues s),
                           ss_active_order := erase_at (ss_rr_cursor s) (ss_active_order s)\<rparr>)
                    else s\<lparr>ss_stream_queues := AList.update stream q (ss_stream_queues s),
                           ss_rr_cursor := (ss_rr_cursor s + 1) mod length (ss_active_order s)\<rparr>))"

definition pull_next_scheduled ::
  "stream_send_scheduler \<Rightarrow> stream_send_scheduler \<times> (stream_identity \<times> bytes) option" where
  "pull_next_scheduled s =
     (case peek_next_scheduled s of
        (s', None) \<Rightarrow> (s', None)
      | (s', Some r) \<Rightarrow> (commit_next_scheduled s', Some r))"

definition drop_stream :: "stream_send_scheduler \<Rightarrow> stream_identity \<Rightarrow> stream_send_scheduler" where
  "drop_stream s stream =
     (let s = (case lookup (ss_stream_queues s) stream of None \<Rightarrow> s
               | Some q \<Rightarrow> s\<lparr>ss_total_connection_bytes := ss_total_connection_bytes s - sq_total_bytes q,
                              ss_stream_queues := AList.delete stream (ss_stream_queues s)\<rparr>)
      in wrap_cursor (s\<lparr>ss_active_order := filter (\<lambda>x. x \<noteq> stream) (ss_active_order s)\<rparr>))"

definition get_stream_queued_count :: "stream_send_scheduler \<Rightarrow> stream_identity \<Rightarrow> nat" where
  "get_stream_queued_count s stream =
     (case lookup (ss_stream_queues s) stream of None \<Rightarrow> 0 | Some q \<Rightarrow> length (sq_frames q))"

definition get_stream_queued_bytes :: "stream_send_scheduler \<Rightarrow> stream_identity \<Rightarrow> nat" where
  "get_stream_queued_bytes s stream =
     (case lookup (ss_stream_queues s) stream of None \<Rightarrow> 0 | Some q \<Rightarrow> sq_total_bytes q)"

definition get_total_queued_count :: "stream_send_scheduler \<Rightarrow> nat" where
  "get_total_queued_count s = sum_list (map (\<lambda>(k, q). length (sq_frames q)) (ss_stream_queues s))"

definition get_total_queued_bytes :: "stream_send_scheduler \<Rightarrow> nat" where
  "get_total_queued_bytes s = ss_total_connection_bytes s"

section \<open>Committing shrinks the queues\<close>

abbreviation (input) queue_count :: "(stream_identity, per_stream_queue) umap \<Rightarrow> nat" where
  "queue_count m \<equiv> sum_list (map (\<lambda>(k, q). length (sq_frames q)) m)"

lemma queue_count_delete:
  "map_of m k = Some q \<Longrightarrow> queue_count (AList.delete k m) + length (sq_frames q) \<le> queue_count m"
proof (induction m)
  case (Cons kv m)
  obtain j v where kv: "kv = (j, v)" by (cases kv)
  have "queue_count (AList.delete k m) \<le> queue_count m" by (induction m) auto
  with Cons kv show ?case by (auto split: if_splits)
qed simp

lemma queue_count_delete_le: "queue_count (AList.delete k m) \<le> queue_count m"
  by (induction m) auto

lemma queue_count_update:
  "map_of m k = Some q \<Longrightarrow>
     queue_count (AList.update k p m) + length (sq_frames q) = queue_count m + length (sq_frames p)"
  by (induction m) (auto split: if_splits)

lemma peek_loop_found:
  "peek_loop n s = (s', Some (k, f)) \<Longrightarrow> ss_rr_cursor s < length (ss_active_order s) \<Longrightarrow>
     get_total_queued_count s' \<le> get_total_queued_count s \<and> ss_rr_cursor s' < length (ss_active_order s') \<and>
     k = ss_active_order s' ! ss_rr_cursor s' \<and> front_frame s' k = Some f"
proof (induction n s rule: peek_loop.induct)
  case (1 n s)
  let ?k = "ss_active_order s ! ss_rr_cursor s"
  show ?case
  proof (cases "n < length (ss_active_order s) \<and> front_frame s ?k = None")
    case False
    with "1.prems" show ?thesis
      by (subst (asm) peek_loop.simps) (auto simp: Let_def split: if_splits option.splits)
  next
    case True
    define t where "t = s\<lparr>ss_stream_queues := AList.delete ?k (ss_stream_queues s),
      ss_active_order := erase_at (ss_rr_cursor s) (ss_active_order s)\<rparr>"
    have step: "peek_loop n s = (if ss_active_order t = [] then (t\<lparr>ss_rr_cursor := 0\<rparr>, None)
        else peek_loop (Suc n) (wrap_cursor t))"
      using True by (subst peek_loop.simps) (simp add: Let_def t_def)
    with "1.prems"(1) have ne: "ss_active_order t \<noteq> []" and p: "peek_loop (Suc n) (wrap_cursor t) = (s', Some (k, f))"
      by (auto split: if_splits)
    have "ss_rr_cursor (wrap_cursor t) < length (ss_active_order (wrap_cursor t))"
      using ne by (auto simp: wrap_cursor_def)
    moreover have "get_total_queued_count (wrap_cursor t) \<le> get_total_queued_count s"
      using queue_count_delete_le [of ?k "ss_stream_queues s"]
      by (simp add: get_total_queued_count_def wrap_cursor_def t_def)
    ultimately show ?thesis using "1.IH" [OF _ refl _ t_def ne] True p by fastforce
  qed
qed

lemma commit_decreases:
  assumes "ss_rr_cursor s < length (ss_active_order s)"
    and "front_frame s (ss_active_order s ! ss_rr_cursor s) = Some f"
  shows "get_total_queued_count (commit_next_scheduled s) < get_total_queued_count s"
proof -
  let ?k = "ss_active_order s ! ss_rr_cursor s"
  obtain q fs where q: "lookup (ss_stream_queues s) ?k = Some q" "sq_frames q = f # fs"
    using assms(2) by (auto simp: front_frame_def split: option.splits list.splits)
  have w: "wrap_cursor s = s" using assms(1) by (simp add: wrap_cursor_def)
  have ne: "ss_active_order s \<noteq> []" using assms(1) by auto
  show ?thesis
  proof (cases "fs = []")
    case True
    then show ?thesis
      unfolding commit_next_scheduled_def w Let_def get_total_queued_count_def
      using queue_count_delete [OF q(1)] q ne by (simp add: wrap_cursor_def)
  next
    case False
    then show ?thesis
      unfolding commit_next_scheduled_def w Let_def get_total_queued_count_def
      using queue_count_update [OF q(1), of "q\<lparr>sq_frames := fs, sq_total_bytes := sq_total_bytes q - length f\<rparr>"] q ne
      by simp
  qed
qed

lemma peek_commit_decreases:
  assumes "peek_next_scheduled s = (s', Some kf)"
  shows "get_total_queued_count (commit_next_scheduled s') < get_total_queued_count s"
proof -
  obtain k f where kf: "kf = (k, f)" by (cases kf)
  have ne: "ss_active_order s \<noteq> []" and p: "peek_loop 0 (wrap_cursor s) = (s', Some (k, f))"
    using assms kf by (auto simp: peek_next_scheduled_def split: if_splits)
  have "ss_rr_cursor (wrap_cursor s) < length (ss_active_order (wrap_cursor s))"
    using ne by (auto simp: wrap_cursor_def)
  from peek_loop_found [OF p this] have "get_total_queued_count s' \<le> get_total_queued_count s"
    "get_total_queued_count (commit_next_scheduled s') < get_total_queued_count s'"
    using commit_decreases by (auto simp: get_total_queued_count_def wrap_cursor_def split: if_splits)
  then show ?thesis by simp
qed

section \<open>The contract of a frame multiplexer\<close>

text \<open>
  \<open>queued s k\<close> is the content of stream \<open>k\<close>'s queue. \<open>pull\<close> returns no frame only when every
  queue is empty.
\<close>

locale frame_mux =
  fixes inv :: "'s \<Rightarrow> bool"
    and queued :: "'s \<Rightarrow> stream_identity \<Rightarrow> bytes list"
    and enq :: "'s \<Rightarrow> stream_identity \<Rightarrow> bytes \<Rightarrow> 's \<times> bool"
    and pull :: "'s \<Rightarrow> 's \<times> (stream_identity \<times> bytes) option"
  assumes inv_enq: "inv s \<Longrightarrow> inv (fst (enq s k f))"
    and inv_pull: "inv s \<Longrightarrow> inv (fst (pull s))"
    and enq_queued: "inv s \<Longrightarrow>
      queued (fst (enq s k f)) j = queued s j @ (if snd (enq s k f) \<and> j = k then [f] else [])"
    and pull_None: "inv s \<Longrightarrow> snd (pull s) = None \<Longrightarrow> queued s j = [] \<and> queued (fst (pull s)) j = []"
    and pull_Some: "inv s \<Longrightarrow> snd (pull s) = Some (k, f) \<Longrightarrow>
      queued s j = (if j = k then [f] else []) @ queued (fst (pull s)) j"
begin

text \<open>
  A run of enqueues (\<open>Inl\<close>) and pulls (\<open>Inr\<close>), with the frames accepted and the frames served
  of every stream, oldest first.
\<close>

fun run :: "(stream_identity \<times> bytes + unit) list \<Rightarrow> 's
    \<Rightarrow> 's \<times> (stream_identity \<times> bytes) list \<times> (stream_identity \<times> bytes) list" where
  "run [] s = (s, [], [])"
| "run (Inl (k, f) # ops) s =
     (let (t, ok) = enq s k f; (u, acc, out) = run ops t
      in (u, (if ok then (k, f) # acc else acc), out))"
| "run (Inr _ # ops) s =
     (let (t, r) = pull s; (u, acc, out) = run ops t
      in (u, acc, (case r of None \<Rightarrow> out | Some kf \<Rightarrow> kf # out)))"

end

text \<open>The frames of one stream in a list of served frames.\<close>

definition frames_of :: "stream_identity \<Rightarrow> (stream_identity \<times> bytes) list \<Rightarrow> bytes list" where
  "frames_of k xs = map snd (filter (\<lambda>(j, f). j = k) xs)"

lemma frames_of_simps [simp]:
  "frames_of k [] = []"
  "frames_of k ((j, f) # xs) = (if j = k then [f] else []) @ frames_of k xs"
  by (simp_all add: frames_of_def)

context frame_mux
begin

lemma fifo:
  "inv s \<Longrightarrow> run ops s = (t, acc, out) \<Longrightarrow>
     inv t \<and> queued s k @ frames_of k acc = frames_of k out @ queued t k"
proof (induction ops s arbitrary: t acc out rule: run.induct)
  case (1 s)
  then show ?case by simp
next
  case (2 j f ops s)
  obtain s1 ok where e: "enq s j f = (s1, ok)" by (cases "enq s j f")
  obtain u acc' out' where r: "run ops s1 = (u, acc', out')" by (cases "run ops s1")
  have i: "inv s1" using inv_enq [OF "2.prems"(1), of j f] e by simp
  have q: "queued s1 k = queued s k @ (if ok \<and> k = j then [f] else [])"
    using enq_queued [OF "2.prems"(1), of j f k] e by simp
  have "inv u \<and> queued s1 k @ frames_of k acc' = frames_of k out' @ queued u k"
    using "2.IH" [OF e [symmetric] refl i r] .
  moreover have "t = u" "out = out'" "acc = (if ok then (j, f) # acc' else acc')"
    using "2.prems"(2) e r by simp_all
  ultimately show ?case using q by auto
next
  case (3 x ops s)
  obtain s1 r where p: "pull s = (s1, r)" by (cases "pull s")
  obtain u acc' out' where ru: "run ops s1 = (u, acc', out')" by (cases "run ops s1")
  have i: "inv s1" using inv_pull [OF "3.prems"(1)] p by simp
  have "inv u \<and> queued s1 k @ frames_of k acc' = frames_of k out' @ queued u k"
    using "3.IH" [OF p [symmetric] refl i ru] .
  moreover have "t = u" "acc = acc'" "out = (case r of None \<Rightarrow> out' | Some kf \<Rightarrow> kf # out')"
    using "3.prems"(2) p ru by simp_all
  moreover have "queued s k = (case r of None \<Rightarrow> [] | Some (j, f) \<Rightarrow> if k = j then [f] else []) @ queued s1 k"
    using pull_None [OF "3.prems"(1), of k] pull_Some [OF "3.prems"(1)] p
    by (cases r) auto
  ultimately show ?case by (cases r) auto
qed

end

end
