(* ===== verification/Connection.thy ===== *)
theory Connection
  imports Session_Manager Stream_Scheduler
begin

text \<open>
  \<open>envelope_connection\<close> of \<open>LiNeP/src/v0_2/transport.cpp\<close> with the byte loops \<open>tcp_send_all\<close> and
  \<open>tcp_recv_all\<close> of \<open>LiNeP/src/pal/socket_posix.cpp\<close> (definitions only).

  The operating system is a parameter: its socket calls are functions on a state of their own,
  collected in the record \<open>os\<close>. A system call returns the \<open>int\<close> the code keeps. What POSIX
  promises of \<open>send\<close> and \<open>recv\<close> is stated as named hypotheses of the lemmas that rely on it.
\<close>

section \<open>The operating system's calls\<close>

type_synonym fd = u64

record 'w os =
  os_send :: "'w \<Rightarrow> fd \<Rightarrow> bytes \<Rightarrow> 'w \<times> int"
  os_recv :: "'w \<Rightarrow> fd \<Rightarrow> nat \<Rightarrow> 'w \<times> int \<times> bytes"
  os_close :: "'w \<Rightarrow> fd \<Rightarrow> 'w"
  os_timed_out :: "'w \<Rightarrow> bool"

text \<open>\<open>static_cast<int>\<close> of a \<open>size_t\<close>: the low 32 bits, read as two's complement.\<close>

definition int_of_size :: "nat \<Rightarrow> int" where
  "int_of_size n = sint (word_of_nat n :: 32 word)"

text \<open>
  The loops stop at the first call that does not return a positive count and return its result.
  \<open>tcp_recv_all\<close> fills the caller's buffer: the bytes received so far are part of its result.
\<close>

function tcp_send_loop :: "'w os \<Rightarrow> 'w \<Rightarrow> fd \<Rightarrow> bytes \<Rightarrow> int \<Rightarrow> int \<Rightarrow> 'w \<times> int" where
  "tcp_send_loop os w fd buf len sent =
     (if sent < len then
        let (w, r) = os_send os w fd (take (nat (len - sent)) (drop (nat sent) buf))
        in if r \<le> 0 then (w, r) else tcp_send_loop os w fd buf len (sent + r)
      else (w, sent))"
  by pat_completeness auto
termination by (relation "measure (\<lambda>(os, w, fd, buf, len, sent). nat (len - sent))") auto

definition tcp_send_all :: "'w os \<Rightarrow> 'w \<Rightarrow> fd \<Rightarrow> bytes \<Rightarrow> int \<Rightarrow> 'w \<times> int" where
  "tcp_send_all os w fd buf len = tcp_send_loop os w fd buf len 0"

function tcp_recv_loop :: "'w os \<Rightarrow> 'w \<Rightarrow> fd \<Rightarrow> int \<Rightarrow> int \<Rightarrow> bytes \<Rightarrow> 'w \<times> int \<times> bytes" where
  "tcp_recv_loop os w fd len got buf =
     (if got < len then
        let (w, r, bs) = os_recv os w fd (nat (len - got))
        in if r \<le> 0 then (w, r, buf) else tcp_recv_loop os w fd len (got + r) (buf @ bs)
      else (w, got, buf))"
  by pat_completeness auto
termination by (relation "measure (\<lambda>(os, w, fd, len, got, buf). nat (len - got))") auto

definition tcp_recv_all :: "'w os \<Rightarrow> 'w \<Rightarrow> fd \<Rightarrow> int \<Rightarrow> 'w \<times> int \<times> bytes" where
  "tcp_recv_all os w fd len = tcp_recv_loop os w fd len 0 []"

declare tcp_send_loop.simps [simp del] tcp_recv_loop.simps [simp del]

section \<open>The connection\<close>

record envelope_connection =
  cn_sock :: fd
  cn_timed_out :: bool
  cn_sl1_active :: bool
  cn_sl1_confirmed :: bool
  cn_sl1_binding :: session_bind_envelope
  cn_sl1_direction :: message_direction
  cn_sl1_key_id :: u16
  cn_sl1_key :: bytes
  cn_next_auth_seq :: u32

abbreviation (input) no_socket :: fd where "no_socket \<equiv> - 1"

definition new_connection :: "fd \<Rightarrow> envelope_connection" where
  "new_connection raw_socket = \<lparr>cn_sock = raw_socket, cn_timed_out = False, cn_sl1_active = False,
     cn_sl1_confirmed = False, cn_sl1_binding = new_session_bind,
     cn_sl1_direction = Initiator_To_Responder, cn_sl1_key_id = 1, cn_sl1_key = [],
     cn_next_auth_seq = 1\<rparr>"

definition is_connected :: "envelope_connection \<Rightarrow> bool" where
  "is_connected c \<longleftrightarrow> cn_sock c \<noteq> no_socket"

definition close_connection :: "'w os \<Rightarrow> 'w \<Rightarrow> envelope_connection \<Rightarrow> 'w \<times> envelope_connection" where
  "close_connection os w c =
     (if is_connected c then (os_close os w (cn_sock c), c\<lparr>cn_sock := no_socket\<rparr>) else (w, c))"

text \<open>The move constructor takes over the socket only: the SL1 state of the source is not moved.\<close>

definition move_connection :: "envelope_connection \<Rightarrow> envelope_connection \<times> envelope_connection" where
  "move_connection other = (new_connection (cn_sock other), other\<lparr>cn_sock := no_socket\<rparr>)"

section \<open>Sending\<close>

definition send_bytes_locked ::
  "'w os \<Rightarrow> 'w \<Rightarrow> envelope_connection \<Rightarrow> bytes \<Rightarrow> 'w \<times> envelope_connection \<times> bool" where
  "send_bytes_locked os w c data =
     (if \<not> is_connected c \<or> data = [] then (w, c, False)
      else let (w, sent) = tcp_send_all os w (cn_sock c) data (int_of_size (length data))
        in if sent \<noteq> int_of_size (length data)
           then let (w, c) = close_connection os w c in (w, c, False)
           else (w, c, True))"

text \<open>The block that every \<open>send_\<close> function repeats before it writes.\<close>

definition authenticate_outgoing ::
  "envelope_connection \<Rightarrow> bytes \<Rightarrow> envelope_connection \<times> bytes option" where
  "authenticate_outgoing c buf =
     (if cn_sl1_active c \<and> cn_sl1_key c \<noteq> [] then
        if cn_next_auth_seq c \<ge> 0xFFFFFFFF then (c, None)
        else (c\<lparr>cn_next_auth_seq := cn_next_auth_seq c + 1\<rparr>,
              sign_envelope_buffer buf (cn_sl1_binding c) (cn_sl1_direction c) (cn_next_auth_seq c)
                (cn_sl1_key_id c) (cn_sl1_key c))
      else (c, Some buf))"

definition send_encoded ::
  "'w os \<Rightarrow> 'w \<Rightarrow> envelope_connection \<Rightarrow> bytes option \<Rightarrow> 'w \<times> envelope_connection \<times> bool" where
  "send_encoded os w c encoded =
     (case encoded of None \<Rightarrow> (w, c, False)
      | Some buf \<Rightarrow>
          (case authenticate_outgoing c buf of
             (c, None) \<Rightarrow> (w, c, False)
           | (c, Some frame) \<Rightarrow> send_bytes_locked os w c frame))"

definition send_request :: "'w os \<Rightarrow> 'w \<Rightarrow> envelope_connection \<Rightarrow> request_envelope
    \<Rightarrow> 'w \<times> envelope_connection \<times> bool" where
  "send_request os w c req = send_encoded os w c (encode_request req)"

definition send_event :: "'w os \<Rightarrow> 'w \<Rightarrow> envelope_connection \<Rightarrow> event_envelope
    \<Rightarrow> 'w \<times> envelope_connection \<times> bool" where
  "send_event os w c evt = send_encoded os w c (encode_event evt)"

definition send_control :: "'w os \<Rightarrow> 'w \<Rightarrow> envelope_connection \<Rightarrow> control_envelope
    \<Rightarrow> 'w \<times> envelope_connection \<times> bool" where
  "send_control os w c ctrl = send_encoded os w c (encode_control ctrl)"

definition send_capabilities :: "'w os \<Rightarrow> 'w \<Rightarrow> envelope_connection \<Rightarrow> runtime_capabilities_descriptor
    \<Rightarrow> 'w \<times> envelope_connection \<times> bool" where
  "send_capabilities os w c caps = send_encoded os w c (Some (encode_capabilities caps))"

definition send_session_bind :: "'w os \<Rightarrow> 'w \<Rightarrow> envelope_connection \<Rightarrow> session_bind_envelope
    \<Rightarrow> 'w \<times> envelope_connection \<times> bool" where
  "send_session_bind os w c env =
     (if bind_sl1_requested env \<and> cn_sl1_key c \<noteq> [] then
        case encode_session_bind (env\<lparr>bind_sl1_requested := False\<rparr>) of None \<Rightarrow> (w, c, False)
        | Some buf \<Rightarrow>
            let c = c\<lparr>cn_sl1_binding := env\<rparr>;
                c = (if bind_key_id env \<noteq> 0 then c\<lparr>cn_sl1_key_id := bind_key_id env\<rparr> else c)
            in if cn_next_auth_seq c \<ge> 0xFFFFFFFF then (w, c, False)
               else (case sign_envelope_buffer buf (cn_sl1_binding c) (cn_sl1_direction c)
                       (cn_next_auth_seq c) (cn_sl1_key_id c) (cn_sl1_key c) of
                   None \<Rightarrow> (w, c\<lparr>cn_next_auth_seq := cn_next_auth_seq c + 1\<rparr>, False)
                 | Some frame \<Rightarrow>
                     send_bytes_locked os w
                       (c\<lparr>cn_next_auth_seq := cn_next_auth_seq c + 1, cn_sl1_active := True\<rparr>) frame)
      else case encode_session_bind env of None \<Rightarrow> (w, c, False)
        | Some buf \<Rightarrow> send_bytes_locked os w c buf)"

definition send_frame_raw :: "'w os \<Rightarrow> 'w \<Rightarrow> envelope_connection \<Rightarrow> bytes
    \<Rightarrow> 'w \<times> envelope_connection \<times> bool" where
  "send_frame_raw os w c data = send_bytes_locked os w c data"

section \<open>Flushing the scheduler\<close>

text \<open>
  Each round of \<open>flush_scheduled\<close> commits the frame it peeked, so the number of queued frames
  bounds the rounds (no enqueue in between: the loop is run by itself).
\<close>

function flush_scheduled :: "'w os \<Rightarrow> 'w \<Rightarrow> envelope_connection \<Rightarrow> stream_send_scheduler
    \<Rightarrow> 'w \<times> envelope_connection \<times> stream_send_scheduler \<times> nat" where
  "flush_scheduled os w c s =
     (case peek_next_scheduled s of
        (s, None) \<Rightarrow> (w, c, s, 0)
      | (s, Some (stream, frame)) \<Rightarrow>
          (case send_bytes_locked os w c frame of
             (w, c, False) \<Rightarrow> (w, c, s, 0)
           | (w, c, True) \<Rightarrow>
               let (w, c, s, flushed) = flush_scheduled os w c (commit_next_scheduled s)
               in (w, c, s, Suc flushed)))"
  by pat_completeness auto
termination
  by (relation "measure (\<lambda>(os, w, c, s). get_total_queued_count s)") (auto dest!: peek_commit_decreases [OF sym])

declare flush_scheduled.simps [simp del]

section \<open>SL1 configuration\<close>

definition set_sl1_auth :: "envelope_connection \<Rightarrow> session_bind_envelope \<Rightarrow> message_direction
    \<Rightarrow> u16 \<Rightarrow> bytes \<Rightarrow> envelope_connection" where
  "set_sl1_auth c binding direction kid key =
     (if key \<noteq> [] \<and> length key < 32 then c
      else let c = c\<lparr>cn_sl1_binding := binding, cn_sl1_direction := direction,
                     cn_sl1_key_id := kid, cn_sl1_key := key, cn_sl1_active := (key \<noteq> [])\<rparr>;
               c = (if direction = Responder_To_Initiator
                    then c\<lparr>cn_sl1_confirmed := (key \<noteq> [])\<rparr> else c)
           in c\<lparr>cn_next_auth_seq := 1\<rparr>)"

definition set_sl1_key :: "envelope_connection \<Rightarrow> u16 \<Rightarrow> bytes \<Rightarrow> envelope_connection" where
  "set_sl1_key c kid key =
     (if key \<noteq> [] \<and> length key < 32 then c else c\<lparr>cn_sl1_key_id := kid, cn_sl1_key := key\<rparr>)"

definition clear_sl1_auth :: "envelope_connection \<Rightarrow> envelope_connection" where
  "clear_sl1_auth c = c\<lparr>cn_sl1_active := False, cn_sl1_confirmed := False, cn_sl1_key := [],
     cn_next_auth_seq := 1\<rparr>"

section \<open>Receiving\<close>

definition recv_all_bytes :: "'w os \<Rightarrow> 'w \<Rightarrow> envelope_connection \<Rightarrow> nat
    \<Rightarrow> 'w \<times> envelope_connection \<times> bytes option" where
  "recv_all_bytes os w c len =
     (if \<not> is_connected c \<or> len = 0 then (w, c, None)
      else let c = c\<lparr>cn_timed_out := False\<rparr>;
               (w, recvd, buf) = tcp_recv_all os w (cn_sock c) (int_of_size len)
           in if recvd \<noteq> int_of_size len
              then (w, if recvd < 0 \<and> os_timed_out os w then c\<lparr>cn_timed_out := True\<rparr> else c, None)
              else (w, c, Some buf))"

definition close_and_fail :: "'w os \<Rightarrow> 'w \<Rightarrow> envelope_connection
    \<Rightarrow> 'w \<times> envelope_connection \<times> bytes option" where
  "close_and_fail os w c = (let (w, c) = close_connection os w c in (w, c, None))"

definition receive_envelope_raw :: "'w os \<Rightarrow> 'w \<Rightarrow> envelope_connection
    \<Rightarrow> 'w \<times> envelope_connection \<times> bytes option" where
  "receive_envelope_raw os w c =
     (case recv_all_bytes os w c LINEP_V02_HEADER_SIZE of
        (w, c, None) \<Rightarrow> close_and_fail os w c
      | (w, c, Some hdr_bytes) \<Rightarrow>
          (case decode_header hdr_bytes of
             None \<Rightarrow> close_and_fail os w c
           | Some hdr \<Rightarrow>
               let is_auth = (hdr_flags hdr AND LINEP_V02_FLAG_AUTHENTICATED \<noteq> 0)
               in if hdr_magic hdr \<noteq> LINEP_V02_MAGIC \<or> hdr_version_major hdr \<noteq> LINEP_V02_VERSION_MAJOR
                  then close_and_fail os w c
                  else if hdr_payload_len hdr > LINEP_V02_MAX_PAYLOAD_BYTES then close_and_fail os w c
                  else if cn_sl1_confirmed c \<and> \<not> is_auth then close_and_fail os w c
                  else
                    let c = (if hdr_envelope_type hdr = et_session_bind \<and> is_auth
                             then c\<lparr>cn_sl1_confirmed := True\<rparr> else c);
                        total_body_len = (if is_auth then LINEP_V02_AUTH_EXTENSION_SIZE else 0)
                          + unat (hdr_payload_len hdr)
                    in if total_body_len > 0 then
                         (case recv_all_bytes os w c total_body_len of
                            (w, c, None) \<Rightarrow> close_and_fail os w c
                          | (w, c, Some body) \<Rightarrow> (w, c, Some (hdr_bytes @ body)))
                       else (w, c, Some hdr_bytes)))"

end
