(* ===== verification/Scheduler_Props.thy ===== *)
theory Scheduler_Props
  imports Stream_Scheduler
begin

text \<open>
  What the stream scheduler guarantees: its invariant, the effect of every operation on the queues
  and on the rotation, the contract \<open>frame_mux\<close> for \<open>enqueue_raw\<close> and \<open>pull_next_scheduled\<close>, and what
  the rotation does not guarantee.
\<close>

section \<open>Sums over an association list\<close>

definition sum_vals :: "('v \<Rightarrow> nat) \<Rightarrow> ('k, 'v) umap \<Rightarrow> nat" where
  "sum_vals f m = sum_list (map (\<lambda>(k, v). f v) m)"

lemma sum_vals_simps [simp]:
  "sum_vals f [] = 0" "sum_vals f ((k, v) # m) = f v + sum_vals f m"
  by (simp_all add: sum_vals_def)

lemma sum_vals_update_new: "map_of m k = None \<Longrightarrow> sum_vals f (AList.update k v m) = sum_vals f m + f v"
  by (induction m) (auto split: if_splits)

lemma sum_vals_update:
  "map_of m k = Some w \<Longrightarrow> sum_vals f (AList.update k v m) + f w = sum_vals f m + f v"
  by (induction m) (auto split: if_splits)

lemma sum_vals_delete:
  "distinct (map fst m) \<Longrightarrow> map_of m k = Some w \<Longrightarrow> sum_vals f (AList.delete k m) + f w = sum_vals f m"
proof (induction m)
  case (Cons kv m)
  obtain j v where kv: "kv = (j, v)" by (cases kv)
  show ?case
  proof (cases "j = k")
    case True
    with Cons kv have "AList.delete k m = m" by (auto simp: AList.delete_id)
    with True Cons kv show ?thesis by simp
  next
    case False
    with Cons kv show ?thesis by simp
  qed
qed simp

section \<open>The scheduler's invariant\<close>

definition queued_frames :: "stream_send_scheduler \<Rightarrow> stream_identity \<Rightarrow> bytes list" where
  "queued_frames s k = (case lookup (ss_stream_queues s) k of None \<Rightarrow> [] | Some q \<Rightarrow> sq_frames q)"

definition frames_bytes :: "bytes list \<Rightarrow> nat" where
  "frames_bytes fs = sum_list (map length fs)"

lemma frames_bytes_simps [simp]:
  "frames_bytes [] = 0" "frames_bytes (f # fs) = length f + frames_bytes fs"
  "frames_bytes (fs @ gs) = frames_bytes fs + frames_bytes gs"
  by (simp_all add: frames_bytes_def)

definition queue_inv :: "stream_queue_limits \<Rightarrow> per_stream_queue \<Rightarrow> bool" where
  "queue_inv l q \<longleftrightarrow> sq_total_bytes q = frames_bytes (sq_frames q) \<and>
     length (sq_frames q) \<le> max_frames_per_stream l \<and> sq_total_bytes q \<le> max_bytes_per_stream l"

definition sched_inv :: "stream_send_scheduler \<Rightarrow> bool" where
  "sched_inv s \<longleftrightarrow> distinct (map fst (ss_stream_queues s)) \<and> distinct (ss_active_order s) \<and>
     set (ss_active_order s) = {k. queued_frames s k \<noteq> []} \<and>
     (\<forall>k q. lookup (ss_stream_queues s) k = Some q \<longrightarrow> queue_inv (ss_limits s) q) \<and>
     ss_total_connection_bytes s = sum_vals sq_total_bytes (ss_stream_queues s) \<and>
     ss_total_connection_bytes s \<le> max_total_connection_bytes (ss_limits s) \<and>
     (ss_rr_cursor s < length (ss_active_order s) \<or> ss_active_order s = [] \<and> ss_rr_cursor s = 0)"

lemma sched_invI:
  assumes "distinct (map fst (ss_stream_queues s))" "distinct (ss_active_order s)"
    "set (ss_active_order s) = {k. queued_frames s k \<noteq> []}"
    "\<And>k q. lookup (ss_stream_queues s) k = Some q \<Longrightarrow> queue_inv (ss_limits s) q"
    "ss_total_connection_bytes s = sum_vals sq_total_bytes (ss_stream_queues s)"
    "ss_total_connection_bytes s \<le> max_total_connection_bytes (ss_limits s)"
    "ss_rr_cursor s < length (ss_active_order s) \<or> ss_active_order s = [] \<and> ss_rr_cursor s = 0"
  shows "sched_inv s"
  using assms by (simp add: sched_inv_def)

lemma sched_inv_queue:
  "sched_inv s \<Longrightarrow> lookup (ss_stream_queues s) k = Some q \<Longrightarrow> queue_inv (ss_limits s) q"
  by (simp add: sched_inv_def)

lemma sched_inv_new [simp]: "sched_inv (new_scheduler l)"
  by (simp add: sched_inv_def new_scheduler_def queued_frames_def)

lemma queue_inv_empty [simp]: "queue_inv l empty_queue"
  by (simp add: queue_inv_def empty_queue_def)

lemma wrap_cursor_id: "sched_inv s \<Longrightarrow> wrap_cursor s = s"
  by (auto simp: wrap_cursor_def sched_inv_def)

lemma touch_queue:
  fixes s :: stream_send_scheduler and k j :: stream_identity
  assumes "sched_inv s"
  defines "q \<equiv> (case lookup (ss_stream_queues s) k of Some q \<Rightarrow> q | None \<Rightarrow> empty_queue)"
  defines "t \<equiv> s\<lparr>ss_stream_queues := AList.update k q (ss_stream_queues s)\<rparr>"
  shows "sched_inv t" and "queued_frames t j = queued_frames s j" and "lookup (ss_stream_queues t) k = Some q"
    and "queue_inv (ss_limits s) q" and "sq_frames q = queued_frames s k"
proof -
  show lk: "lookup (ss_stream_queues t) k = Some q" by (simp add: t_def)
  show fr: "queued_frames t j = queued_frames s j" for j
    by (simp add: t_def q_def queued_frames_def empty_queue_def split: option.split)
  show qi: "queue_inv (ss_limits s) q"
    using assms(1) by (auto simp: q_def sched_inv_def split: option.split)
  show "sq_frames q = queued_frames s k"
    by (simp add: q_def queued_frames_def empty_queue_def split: option.split)
  have tot: "sum_vals sq_total_bytes (ss_stream_queues t) = sum_vals sq_total_bytes (ss_stream_queues s)"
    using sum_vals_update_new [of "ss_stream_queues s" k sq_total_bytes q]
      sum_vals_update [of "ss_stream_queues s" k _ sq_total_bytes q]
    by (auto simp: t_def q_def empty_queue_def split: option.split)
  show "sched_inv t"
  proof (rule sched_invI)
    show "set (ss_active_order t) = {k. queued_frames t k \<noteq> []}"
      using assms(1) unfolding fr by (simp add: t_def sched_inv_def)
  qed (use assms(1) qi tot in \<open>auto simp: sched_inv_def t_def split: if_splits\<close>)
qed

lemma enqueue_inv:
  assumes "sched_inv s"
  shows "sched_inv (fst (enqueue_raw s k f))"
    and "queued_frames (fst (enqueue_raw s k f)) j =
      queued_frames s j @ (if snd (enqueue_raw s k f) \<and> j = k then [f] else [])"
    and "ss_limits (fst (enqueue_raw s k f)) = ss_limits s"
proof -
  define q where "q = (case lookup (ss_stream_queues s) k of Some q \<Rightarrow> q | None \<Rightarrow> empty_queue)"
  let ?t = "s\<lparr>ss_stream_queues := AList.update k q (ss_stream_queues s)\<rparr>"
  let ?q' = "q\<lparr>sq_total_bytes := sq_total_bytes q + length f, sq_frames := sq_frames q @ [f]\<rparr>"
  let ?u = "?t\<lparr>ss_active_order := (if sq_frames q = [] then ss_active_order ?t @ [k] else ss_active_order ?t),
      ss_total_connection_bytes := ss_total_connection_bytes ?t + length f,
      ss_stream_queues := AList.update k ?q' (ss_stream_queues ?t)\<rparr>"
  note touch = touch_queue [OF assms, of k, folded q_def]
  let ?ok = "length (sq_frames q) < max_frames_per_stream (ss_limits s) \<and>
    sq_total_bytes q + length f \<le> max_bytes_per_stream (ss_limits s) \<and>
    ss_total_connection_bytes s + length f \<le> max_total_connection_bytes (ss_limits s)"
  have eq: "enqueue_raw s k f = (if ?ok then (?u, True) else (?t, False))"
    unfolding enqueue_raw_def Let_def q_def [symmetric] by (simp add: not_le not_less)
  have qu: "queued_frames ?u i = queued_frames s i @ (if i = k then [f] else [])" for i
    using touch(2) [of i] touch(5) by (simp add: queued_frames_def)
  have "sched_inv ?u" if ok: ?ok
  proof (rule sched_invI)
    show "distinct (map fst (ss_stream_queues ?u))" using assms by (simp add: sched_inv_def)
    have k: "k \<in> set (ss_active_order s) \<longleftrightarrow> sq_frames q \<noteq> []"
      using touch(5) assms by (simp add: sched_inv_def)
    show "distinct (ss_active_order ?u)" using assms k by (simp add: sched_inv_def)
    show "set (ss_active_order ?u) = {i. queued_frames ?u i \<noteq> []}"
      unfolding qu using assms k by (auto simp: sched_inv_def)
    show "queue_inv (ss_limits ?u) p" if "lookup (ss_stream_queues ?u) i = Some p" for i p
      using that touch(1,4) ok by (auto simp: sched_inv_def queue_inv_def split: if_splits)
    have "sum_vals sq_total_bytes (ss_stream_queues ?u) + sq_total_bytes q
        = sum_vals sq_total_bytes (ss_stream_queues ?t) + sq_total_bytes ?q'"
      using sum_vals_update [OF touch(3), of sq_total_bytes ?q'] by simp
    then show "ss_total_connection_bytes ?u = sum_vals sq_total_bytes (ss_stream_queues ?u)"
      using touch(1) by (simp add: sched_inv_def)
    show "ss_total_connection_bytes ?u \<le> max_total_connection_bytes (ss_limits ?u)" using ok by simp
    show "ss_rr_cursor ?u < length (ss_active_order ?u) \<or> ss_active_order ?u = [] \<and> ss_rr_cursor ?u = 0"
      using assms k by (auto simp: sched_inv_def)
  qed
  note iu = this
  have "sched_inv (fst (enqueue_raw s k f)) \<and>
    queued_frames (fst (enqueue_raw s k f)) j =
      queued_frames s j @ (if snd (enqueue_raw s k f) \<and> j = k then [f] else []) \<and>
    ss_limits (fst (enqueue_raw s k f)) = ss_limits s"
  proof (cases ?ok)
    case True
    have e: "enqueue_raw s k f = (?u, True)" unfolding eq using True by (rule if_P)
    show ?thesis unfolding e fst_conv snd_conv qu using iu [OF True] by simp
  next
    case False
    have e: "enqueue_raw s k f = (?t, False)" unfolding eq using False by (rule if_not_P)
    show ?thesis unfolding e fst_conv snd_conv touch(2) using touch(1) by simp
  qed
  then show "sched_inv (fst (enqueue_raw s k f))"
    "queued_frames (fst (enqueue_raw s k f)) j =
      queued_frames s j @ (if snd (enqueue_raw s k f) \<and> j = k then [f] else [])"
    "ss_limits (fst (enqueue_raw s k f)) = ss_limits s" by simp_all
qed

section \<open>Serving the queues\<close>

text \<open>
  The ring: the streams with queued frames in the order in which the cursor reaches them.
\<close>

definition ring :: "stream_send_scheduler \<Rightarrow> stream_identity list" where
  "ring s = rotate (ss_rr_cursor s) (ss_active_order s)"

lemma ring_head:
  "sched_inv s \<Longrightarrow> ss_active_order s \<noteq> [] \<Longrightarrow> hd (ring s) = ss_active_order s ! ss_rr_cursor s"
  by (auto simp: ring_def sched_inv_def hd_rotate_conv_nth)

lemma ring_facts:
  assumes "sched_inv s"
  shows "set (ring s) = {k. queued_frames s k \<noteq> []}" and "distinct (ring s)"
    and "ring s = [] \<longleftrightarrow> ss_active_order s = []"
  using assms by (simp_all add: ring_def sched_inv_def)

lemma front_frame_queued:
  "queued_frames s k \<noteq> [] \<Longrightarrow> front_frame s k = Some (hd (queued_frames s k))"
  by (auto simp: front_frame_def queued_frames_def split: option.splits list.splits)

text \<open>Under the invariant the search of \<open>peek_next_scheduled\<close> ends at the cursor.\<close>

lemma peek_at_cursor:
  assumes "sched_inv s"
  shows "peek_next_scheduled s =
    (s, if ring s = [] then None else Some (hd (ring s), hd (queued_frames s (hd (ring s)))))"
proof (cases "ss_active_order s = []")
  case True
  then show ?thesis using assms by (simp add: peek_next_scheduled_def ring_facts)
next
  case False
  have "ring s \<noteq> []" using False assms by (simp add: ring_facts)
  from hd_in_set [OF this] have "queued_frames s (hd (ring s)) \<noteq> []"
    unfolding ring_facts(1) [OF assms] by simp
  then have "front_frame s (ss_active_order s ! ss_rr_cursor s) = Some (hd (queued_frames s (hd (ring s))))"
    using front_frame_queued ring_head [OF assms False] by simp
  then show ?thesis
    using False assms ring_head [OF assms False]
    by (simp add: peek_next_scheduled_def wrap_cursor_id peek_loop.simps [of 0 s] ring_facts Let_def)
qed

lemma distinct_erase_at:
  assumes "distinct xs" "i < length xs"
  shows "set (erase_at i xs) = set xs - {xs ! i}" and "distinct (erase_at i xs)"
proof -
  have x: "xs = take i xs @ xs ! i # drop (Suc i) xs" using assms(2) by (rule id_take_nth_drop)
  have d: "distinct (take i xs @ xs ! i # drop (Suc i) xs)" using x assms(1) by simp
  have s: "set xs = insert (xs ! i) (set (take i xs) \<union> set (drop (Suc i) xs))"
    by (subst x) auto
  show "distinct (erase_at i xs)" using d by (simp add: erase_at_def)
  show "set (erase_at i xs) = set xs - {xs ! i}" unfolding s using d by (auto simp: erase_at_def)
qed

lemma rotate_erase_at:
  assumes "i < length xs"
  shows "rotate (if length (erase_at i xs) \<le> i then 0 else i) (erase_at i xs) = tl (rotate i xs)"
proof -
  define a x b where "a = take i xs" and "x = xs ! i" and "b = drop (Suc i) xs"
  have xs: "xs = a @ x # b" unfolding a_def x_def b_def using assms by (rule id_take_nth_drop)
  have i: "i = length a" using assms by (simp add: a_def)
  have "erase_at i xs = a @ b" by (simp add: erase_at_def a_def b_def)
  then show ?thesis using rotate_append [of a "x # b"] rotate_append [of a b]
    unfolding i by (cases b) (simp_all add: xs)
qed

lemma rotate_next:
  assumes "i < length xs"
  shows "rotate ((i + 1) mod length xs) xs = tl (rotate i xs) @ [hd (rotate i xs)]"
proof -
  have "rotate ((i + 1) mod length xs) xs = rotate1 (rotate i xs)"
    by (simp add: rotate_conv_mod [of "Suc i", symmetric] flip: rotate_Suc)
  also have "\<dots> = tl (rotate i xs) @ [hd (rotate i xs)]"
    using assms by (cases "rotate i xs") auto
  finally show ?thesis .
qed

lemma active_queue:
  assumes "sched_inv s" "ss_active_order s \<noteq> []" "k = ss_active_order s ! ss_rr_cursor s"
  obtains q f fs where "lookup (ss_stream_queues s) k = Some q" "sq_frames q = f # fs"
    "queued_frames s k = f # fs" "queue_inv (ss_limits s) q"
    "sq_total_bytes q \<le> ss_total_connection_bytes s"
proof -
  have "k \<in> set (ss_active_order s)" using assms by (auto simp: sched_inv_def)
  then have "queued_frames s k \<noteq> []" using assms(1) by (simp add: sched_inv_def)
  then obtain q f fs where q: "lookup (ss_stream_queues s) k = Some q" "sq_frames q = f # fs"
    by (auto simp: queued_frames_def neq_Nil_conv split: option.splits)
  show ?thesis
  proof (rule that)
    show "sq_total_bytes q \<le> ss_total_connection_bytes s"
      using sum_vals_delete [of "ss_stream_queues s" k q sq_total_bytes] assms(1) q(1)
      by (simp add: sched_inv_def)
  qed (use q assms(1) in \<open>auto simp: queued_frames_def sched_inv_def\<close>)
qed

lemma commit_effect:
  assumes "sched_inv s" "ring s \<noteq> []" "k = hd (ring s)"
  shows "sched_inv (commit_next_scheduled s)"
    and "ss_limits (commit_next_scheduled s) = ss_limits s"
    and "queued_frames (commit_next_scheduled s) j =
      (if j = k then tl (queued_frames s k) else queued_frames s j)"
    and "ring (commit_next_scheduled s) = tl (ring s) @ (if tl (queued_frames s k) = [] then [] else [k])"
proof -
  have ne: "ss_active_order s \<noteq> []" using assms ring_facts(3) by blast
  have k: "k = ss_active_order s ! ss_rr_cursor s" using assms ring_head ne by simp
  have c: "ss_rr_cursor s < length (ss_active_order s)" using assms(1) ne by (auto simp: sched_inv_def)
  have cn: "(ss_rr_cursor s + 1) mod length (ss_active_order s) < length (ss_active_order s)"
    using ne by (intro mod_less_divisor) simp
  obtain q f fs where q: "lookup (ss_stream_queues s) k = Some q" "sq_frames q = f # fs"
    "queued_frames s k = f # fs" "queue_inv (ss_limits s) q" "sq_total_bytes q \<le> ss_total_connection_bytes s"
    using active_queue [OF assms(1) ne k] .
  have bq: "sq_total_bytes q = length f + frames_bytes fs" using q(2,4) by (simp add: queue_inv_def)
  let ?C = "commit_next_scheduled s"
  let ?q' = "q\<lparr>sq_frames := fs, sq_total_bytes := sq_total_bytes q - length f\<rparr>"
  have kin: "k \<in> set (ss_active_order s)" using k c by simp
  have "sched_inv ?C \<and> ss_limits ?C = ss_limits s \<and>
    queued_frames ?C j = (if j = k then tl (queued_frames s k) else queued_frames s j) \<and>
    ring ?C = tl (ring s) @ (if tl (queued_frames s k) = [] then [] else [k])"
  proof (cases "fs = []")
    case True
    let ?act = "erase_at (ss_rr_cursor s) (ss_active_order s)"
    let ?cur = "if length ?act \<le> ss_rr_cursor s then 0 else ss_rr_cursor s"
    have C: "?C = s\<lparr>ss_total_connection_bytes := ss_total_connection_bytes s - length f,
        ss_stream_queues := AList.delete k (ss_stream_queues s), ss_active_order := ?act, ss_rr_cursor := ?cur\<rparr>"
      unfolding commit_next_scheduled_def wrap_cursor_id [OF assms(1)] Let_def
      using ne q(1,2) True by (simp add: k [symmetric] wrap_cursor_def)
    have qf: "queued_frames ?C i = (if i = k then [] else queued_frames s i)" for i
      unfolding C by (simp add: queued_frames_def)
    have "sched_inv ?C"
    proof (rule sched_invI)
      show "set (ss_active_order ?C) = {i. queued_frames ?C i \<noteq> []}"
        unfolding qf using assms(1) distinct_erase_at(1) [OF _ c] k by (auto simp: C sched_inv_def)
      show "distinct (ss_active_order ?C)"
        using assms(1) distinct_erase_at(2) [OF _ c] by (simp add: C sched_inv_def)
      show "ss_total_connection_bytes ?C = sum_vals sq_total_bytes (ss_stream_queues ?C)"
        using sum_vals_delete [of "ss_stream_queues s" k q sq_total_bytes] assms(1) q(1) bq True
        by (simp add: C sched_inv_def)
    qed (use assms(1) in \<open>auto simp: C sched_inv_def split: if_splits\<close>)
    moreover have "ring ?C = tl (ring s)"
      unfolding ring_def C using rotate_erase_at [OF c] by simp
    ultimately show ?thesis using qf q(3) True by (simp add: C)
  next
    case False
    have C: "?C = s\<lparr>ss_total_connection_bytes := ss_total_connection_bytes s - length f,
        ss_stream_queues := AList.update k ?q' (ss_stream_queues s),
        ss_rr_cursor := (ss_rr_cursor s + 1) mod length (ss_active_order s)\<rparr>"
      unfolding commit_next_scheduled_def wrap_cursor_id [OF assms(1)] Let_def
      using ne q(1,2) False by (simp add: k [symmetric])
    have qf: "queued_frames ?C i = (if i = k then fs else queued_frames s i)" for i
      unfolding C by (simp add: queued_frames_def)
    have "sched_inv ?C"
    proof (rule sched_invI)
      show "set (ss_active_order ?C) = {i. queued_frames ?C i \<noteq> []}"
        unfolding qf using assms(1) False kin by (auto simp: C sched_inv_def)
      have "queue_inv (ss_limits s) ?q'" using q(2,4) bq by (simp add: queue_inv_def)
      then show "queue_inv (ss_limits ?C) p" if "lookup (ss_stream_queues ?C) i = Some p" for i p
        using that sched_inv_queue [OF assms(1)] by (auto simp: C split: if_splits)
      show "ss_total_connection_bytes ?C = sum_vals sq_total_bytes (ss_stream_queues ?C)"
        using sum_vals_update [OF q(1), of sq_total_bytes ?q'] assms(1) bq
        by (simp add: C sched_inv_def)
    qed (use assms(1) cn in \<open>auto simp: C sched_inv_def\<close>)
    moreover have "ring ?C = tl (ring s) @ [k]"
      unfolding ring_def C using rotate_next [OF c] assms(3) by (simp add: ring_def)
    ultimately show ?thesis using qf q(3) False by (simp add: C)
  qed
  then show "sched_inv ?C" "ss_limits ?C = ss_limits s"
    "queued_frames ?C j = (if j = k then tl (queued_frames s k) else queued_frames s j)"
    "ring ?C = tl (ring s) @ (if tl (queued_frames s k) = [] then [] else [k])" by simp_all
qed

lemma pull_effect:
  assumes "sched_inv s"
  shows "pull_next_scheduled s =
    (if ring s = [] then (s, None)
     else (commit_next_scheduled s, Some (hd (ring s), hd (queued_frames s (hd (ring s))))))"
  using peek_at_cursor [OF assms] by (simp add: pull_next_scheduled_def)

lemma drop_effect:
  assumes "sched_inv s"
  shows "sched_inv (drop_stream s k)"
    and "ss_limits (drop_stream s k) = ss_limits s"
    and "queued_frames (drop_stream s k) j = (if j = k then [] else queued_frames s j)"
proof -
  let ?act = "filter (\<lambda>x. x \<noteq> k) (ss_active_order s)"
  let ?cur = "if length ?act \<le> ss_rr_cursor s then 0 else ss_rr_cursor s"
  let ?D = "drop_stream s k"
  let ?tot = "case lookup (ss_stream_queues s) k of None \<Rightarrow> ss_total_connection_bytes s
    | Some q \<Rightarrow> ss_total_connection_bytes s - sq_total_bytes q"
  have D: "?D = s\<lparr>ss_total_connection_bytes := ?tot,
      ss_stream_queues := AList.delete k (ss_stream_queues s), ss_active_order := ?act, ss_rr_cursor := ?cur\<rparr>"
  proof (cases "lookup (ss_stream_queues s) k")
    case None
    then have "AList.delete k (ss_stream_queues s) = ss_stream_queues s"
      by (simp add: AList.delete_id map_of_eq_None_iff)
    with None show ?thesis by (simp add: drop_stream_def wrap_cursor_def)
  qed (simp add: drop_stream_def wrap_cursor_def)
  show qf: "queued_frames ?D i = (if i = k then [] else queued_frames s i)" for i
    unfolding D by (simp add: queued_frames_def)
  show "ss_limits ?D = ss_limits s" by (simp add: D)
  show "sched_inv ?D"
  proof (rule sched_invI)
    show "set (ss_active_order ?D) = {i. queued_frames ?D i \<noteq> []}"
      unfolding qf using assms by (auto simp: D sched_inv_def)
    show tot: "ss_total_connection_bytes ?D = sum_vals sq_total_bytes (ss_stream_queues ?D)"
    proof (cases "lookup (ss_stream_queues s) k")
      case None
      then have "AList.delete k (ss_stream_queues s) = ss_stream_queues s"
        by (simp add: AList.delete_id map_of_eq_None_iff)
      with None assms show ?thesis by (simp add: D sched_inv_def)
    next
      case (Some q)
      then show ?thesis
        using sum_vals_delete [of "ss_stream_queues s" k q sq_total_bytes] assms
        by (simp add: D sched_inv_def)
    qed
    show "ss_total_connection_bytes ?D \<le> max_total_connection_bytes (ss_limits ?D)"
      using assms by (auto simp: D sched_inv_def split: option.split)
    show "queue_inv (ss_limits ?D) p" if "lookup (ss_stream_queues ?D) i = Some p" for i p
      using that sched_inv_queue [OF assms] by (auto simp: D split: if_splits)
  qed (use assms in \<open>auto simp: D sched_inv_def\<close>)
qed

interpretation sched_mux: frame_mux sched_inv queued_frames enqueue_raw pull_next_scheduled
proof
  fix s k f j
  assume i: "sched_inv s"
  show "sched_inv (fst (enqueue_raw s k f))" by (rule enqueue_inv(1) [OF i])
  show "sched_inv (fst (pull_next_scheduled s))"
    unfolding pull_effect [OF i] using i commit_effect(1) [OF i _ refl] by simp
  show "queued_frames (fst (enqueue_raw s k f)) j =
      queued_frames s j @ (if snd (enqueue_raw s k f) \<and> j = k then [f] else [])"
    by (rule enqueue_inv(2) [OF i])
next
  fix s j
  assume i: "sched_inv s" and n: "snd (pull_next_scheduled s) = None"
  from n have r: "ring s = []" unfolding pull_effect [OF i] by (simp split: if_splits)
  then have "queued_frames s j = []" using ring_facts(1) [OF i] by simp
  with r show "queued_frames s j = [] \<and> queued_frames (fst (pull_next_scheduled s)) j = []"
    unfolding pull_effect [OF i] by simp
next
  fix s k f j
  assume i: "sched_inv s" and n: "snd (pull_next_scheduled s) = Some (k, f)"
  from n have r: "ring s \<noteq> []" "k = hd (ring s)" "f = hd (queued_frames s k)"
    unfolding pull_effect [OF i] by (auto split: if_splits)
  from hd_in_set [OF r(1)] have "queued_frames s k \<noteq> []" unfolding r(2) ring_facts(1) [OF i] by simp
  then show "queued_frames s j = (if j = k then [f] else []) @ queued_frames (fst (pull_next_scheduled s)) j"
    unfolding pull_effect [OF i] using commit_effect(3) [OF i r(1,2), of j] r by simp
qed

section \<open>Reachable schedulers\<close>

inductive sched_reachable :: "stream_queue_limits \<Rightarrow> stream_send_scheduler \<Rightarrow> bool" for l where
  init: "sched_reachable l (new_scheduler l)"
| enqueue: "sched_reachable l s \<Longrightarrow> sched_reachable l (fst (enqueue_raw s k f))"
| peek: "sched_reachable l s \<Longrightarrow> sched_reachable l (fst (peek_next_scheduled s))"
| commit: "sched_reachable l s \<Longrightarrow> sched_reachable l (commit_next_scheduled s)"
| dropped: "sched_reachable l s \<Longrightarrow> sched_reachable l (drop_stream s k)"

lemma commit_inv:
  assumes "sched_inv s"
  shows "sched_inv (commit_next_scheduled s)" and "ss_limits (commit_next_scheduled s) = ss_limits s"
proof -
  have "sched_inv (commit_next_scheduled s) \<and> ss_limits (commit_next_scheduled s) = ss_limits s"
  proof (cases "ring s = []")
    case True
    then show ?thesis using assms ring_facts(3) by (simp add: commit_next_scheduled_def)
  next
    case False
    then show ?thesis using commit_effect(1,2) [OF assms False refl] by simp
  qed
  then show "sched_inv (commit_next_scheduled s)"
    and "ss_limits (commit_next_scheduled s) = ss_limits s" by simp_all
qed

lemma reachable_sched_inv: "sched_reachable l s \<Longrightarrow> sched_inv s \<and> ss_limits s = l"
  by (induction rule: sched_reachable.induct)
    (simp_all add: enqueue_inv commit_inv drop_effect peek_at_cursor, simp add: new_scheduler_def)

lemma reachable_pull: "sched_reachable l s \<Longrightarrow> sched_reachable l (fst (pull_next_scheduled s))"
  using sched_reachable.peek [of l s] sched_reachable.commit [of l "fst (peek_next_scheduled s)"]
  by (cases "peek_next_scheduled s") (auto simp: pull_next_scheduled_def split: option.split)

lemma reachable_run: "sched_reachable l s \<Longrightarrow> sched_reachable l (fst (sched_mux.run ops s))"
proof (induction ops s rule: sched_mux.run.induct)
  case (2 k f ops s)
  then show ?case using sched_reachable.enqueue [of l s k f] by (auto split: prod.splits)
next
  case (3 x ops s)
  then show ?case using reachable_pull [of l s] by (auto split: prod.splits)
qed simp

section \<open>Limits, order and fairness\<close>

lemma queue_getters:
  assumes "sched_inv s"
  shows "get_stream_queued_count s k = length (queued_frames s k)"
    and "get_stream_queued_bytes s k = frames_bytes (queued_frames s k)"
  using sched_inv_queue [OF assms, of k]
  by (auto simp: get_stream_queued_count_def get_stream_queued_bytes_def queued_frames_def queue_inv_def
      split: option.split)

lemma sum_vals_sum:
  "distinct (map fst m) \<Longrightarrow>
     sum_vals f m = (\<Sum>k\<in>fst ` set m. case map_of m k of None \<Rightarrow> 0 | Some v \<Rightarrow> f v)"
proof (induction m)
  case (Cons kv m)
  obtain j v where kv: "kv = (j, v)" by (cases kv)
  have "(\<Sum>k\<in>fst ` set m. case (if k = j then Some v else map_of m k) of None \<Rightarrow> 0 | Some v \<Rightarrow> f v)
      = (\<Sum>k\<in>fst ` set m. case map_of m k of None \<Rightarrow> 0 | Some v \<Rightarrow> f v)"
    by (rule sum.cong) (use Cons kv in auto)
  with Cons kv show ?case by simp
qed simp

lemma total_bytes_sum:
  assumes "sched_inv s"
  shows "ss_total_connection_bytes s = sum_list (map (\<lambda>j. frames_bytes (queued_frames s j)) (ss_active_order s))"
proof -
  have b: "(case lookup (ss_stream_queues s) k of None \<Rightarrow> 0 | Some q \<Rightarrow> sq_total_bytes q)
      = frames_bytes (queued_frames s k)" for k
    using queue_getters(2) [OF assms, of k] by (simp add: get_stream_queued_bytes_def)
  have "ss_total_connection_bytes s = (\<Sum>k\<in>fst ` set (ss_stream_queues s). frames_bytes (queued_frames s k))"
    using sum_vals_sum [of "ss_stream_queues s" sq_total_bytes] assms by (simp add: b sched_inv_def)
  also have "\<dots> = (\<Sum>k\<in>set (ss_active_order s). frames_bytes (queued_frames s k))"
  proof (rule sum.mono_neutral_right)
    show "set (ss_active_order s) \<subseteq> fst ` set (ss_stream_queues s)"
      using assms by (auto simp: sched_inv_def queued_frames_def in_keys_iff_lookup split: option.splits)
  qed (use assms in \<open>auto simp: sched_inv_def\<close>)
  also have "\<dots> = sum_list (map (\<lambda>j. frames_bytes (queued_frames s j)) (ss_active_order s))"
    using assms by (simp add: sum_list_distinct_conv_sum_set sched_inv_def)
  finally show ?thesis .
qed

text \<open>
  In every state the scheduler can reach, by any interleaving of enqueues, peeks, commits and
  drops of its threads, each stream has at most the configured number of frames and bytes queued,
  the connection's byte counter is the sum of the queued frames' sizes and within its limit, and
  the rotation holds exactly the streams that have frames queued, once each.
\<close>

theorem scheduler_within_limits:
  assumes "sched_reachable l s"
  shows "get_stream_queued_count s k \<le> max_frames_per_stream l \<and>
    get_stream_queued_bytes s k = frames_bytes (queued_frames s k) \<and>
    get_stream_queued_bytes s k \<le> max_bytes_per_stream l \<and>
    get_total_queued_bytes s = sum_list (map (\<lambda>j. frames_bytes (queued_frames s j)) (ss_active_order s)) \<and>
    get_total_queued_bytes s \<le> max_total_connection_bytes l \<and>
    (k \<in> set (ss_active_order s) \<longleftrightarrow> get_stream_queued_count s k \<noteq> 0) \<and>
    distinct (ss_active_order s)"
proof -
  have i: "sched_inv s" and l: "ss_limits s = l" using reachable_sched_inv [OF assms] by simp_all
  have "get_stream_queued_count s k \<le> max_frames_per_stream l"
    "get_stream_queued_bytes s k \<le> max_bytes_per_stream l"
    using sched_inv_queue [OF i, of k] l
    by (auto simp: get_stream_queued_count_def get_stream_queued_bytes_def queue_inv_def split: option.split)
  then show ?thesis
    using i l queue_getters [OF i] total_bytes_sum [OF i]
    by (simp add: sched_inv_def get_total_queued_bytes_def)
qed

text \<open>
  C24: first in, first out: over any sequence of enqueues and pulls from a state the scheduler can
  reach, the frames of each stream that were queued or accepted are those served, in the same
  order, followed by those still queued; none is lost, duplicated, reordered or moved to another
  stream.
\<close>

theorem scheduler_fifo:
  assumes "sched_reachable l s" and "sched_mux.run ops s = (t, accepted, served)"
  shows "sched_reachable l t \<and>
    queued_frames s k @ frames_of k accepted = frames_of k served @ queued_frames t k"
  using sched_mux.fifo [OF _ assms(2), of k] reachable_sched_inv [OF assms(1)]
    reachable_run [OF assms(1), of ops] assms(2) by simp

fun pulls :: "nat \<Rightarrow> stream_send_scheduler \<Rightarrow> stream_send_scheduler \<times> (stream_identity \<times> bytes) list" where
  "pulls 0 s = (s, [])"
| "pulls (Suc n) s = (let (t, r) = pull_next_scheduled s; (u, out) = pulls n t
     in (u, (case r of None \<Rightarrow> out | Some kf \<Rightarrow> kf # out)))"

lemma pulls_ring:
  "sched_inv s \<Longrightarrow> ring s = xs @ ys \<Longrightarrow>
     snd (pulls (length xs) s) = map (\<lambda>k. (k, hd (queued_frames s k))) xs"
proof (induction xs arbitrary: s ys)
  case (Cons x xs)
  let ?t = "commit_next_scheduled s"
  have ne: "ring s \<noteq> []" and hd: "x = hd (ring s)" using Cons.prems by simp_all
  note eff = commit_effect [OF Cons.prems(1) ne hd]
  have "x \<notin> set xs" using ring_facts(2) [OF Cons.prems(1)] Cons.prems(2) by simp
  then have "map (\<lambda>k. (k, hd (queued_frames ?t k))) xs = map (\<lambda>k. (k, hd (queued_frames s k))) xs"
    using eff(3) by auto
  moreover have "snd (pulls (length xs) ?t) = map (\<lambda>k. (k, hd (queued_frames ?t k))) xs"
    by (rule Cons.IH [OF eff(1)]) (simp add: eff(4) Cons.prems(2))
  ultimately show ?case
    using pull_effect [OF Cons.prems(1)] Cons.prems(2)
    by (cases "pulls (length xs) ?t") auto
qed simp

text \<open>
  Round robin: as many pulls in a row as there are streams with queued frames serve the oldest
  frame of each of these streams, one frame per stream, in the order of the rotation from the
  cursor on.
\<close>

theorem round_robin_serves_each:
  assumes "sched_reachable l s"
  shows "snd (pulls (length (ss_active_order s)) s) =
    map (\<lambda>k. (k, hd (queued_frames s k))) (rotate (ss_rr_cursor s) (ss_active_order s))"
  using pulls_ring [of s "ring s" "[]"] reachable_sched_inv [OF assms] by (simp add: ring_def)

section \<open>What the rotation does not guarantee\<close>

text \<open>
  New streams enter at the end of \<open>active_order_\<close>, which is not the end of the ring when the cursor
  is past its start. Two streams that each queue a frame again just before the other is served keep
  the cursor away from a third.
\<close>

definition two_waiting :: "stream_identity \<Rightarrow> stream_identity \<Rightarrow> stream_send_scheduler" where
  "two_waiting a b = \<lparr>ss_limits = default_queue_limits, ss_active_order = [a, b],
     ss_stream_queues = [(a, \<lparr>sq_frames = [[0]], sq_total_bytes = 1\<rparr>), (b, \<lparr>sq_frames = [[0]], sq_total_bytes = 1\<rparr>)],
     ss_total_connection_bytes = 2, ss_rr_cursor = 1\<rparr>"

lemma two_waiting_step:
  assumes "distinct [a, b, c]"
  shows "enqueue_raw (two_waiting a b) c [0] = (fst (enqueue_raw (two_waiting a b) c [0]), True)"
    and "pull_next_scheduled (fst (enqueue_raw (two_waiting a b) c [0])) = (two_waiting a c, Some (b, [0]))"
  using assms
  by (auto simp: two_waiting_def enqueue_raw_def Let_def default_queue_limits_def empty_queue_def
      pull_next_scheduled_def peek_next_scheduled_def peek_loop.simps wrap_cursor_def front_frame_def
      commit_next_scheduled_def erase_at_def)

lemma two_waiting_reachable:
  assumes "distinct [a, b]"
  shows "sched_reachable default_queue_limits (two_waiting a b)"
proof -
  let ?ops = "[Inl (a, [0]), Inl (a, [0]), Inl (b, [0]), Inr ()]"
  have "sched_reachable default_queue_limits (fst (sched_mux.run ?ops (new_scheduler default_queue_limits)))"
    by (rule reachable_run [OF sched_reachable.init])
  moreover have "fst (sched_mux.run ?ops (new_scheduler default_queue_limits)) = two_waiting a b"
    using assms
    by (auto simp: two_waiting_def new_scheduler_def enqueue_raw_def Let_def default_queue_limits_def empty_queue_def
        pull_next_scheduled_def peek_next_scheduled_def peek_loop.simps wrap_cursor_def front_frame_def
        commit_next_scheduled_def erase_at_def)
  ultimately show ?thesis by simp
qed

fun alternate :: "nat \<Rightarrow> stream_identity \<Rightarrow> stream_identity \<Rightarrow> (stream_identity \<times> bytes + unit) list" where
  "alternate 0 b c = []"
| "alternate (Suc n) b c = Inl (c, [0]) # Inr () # alternate n c b"

lemma alternate_starves:
  "distinct [a, b, c] \<Longrightarrow>
     (\<exists>t acc out. sched_mux.run (alternate n b c) (two_waiting a b) = (t, acc, out) \<and>
       length out = n \<and> frames_of a out = [] \<and> queued_frames t a = [[0]])"
proof (induction n arbitrary: b c)
  case 0
  then show ?case by (simp add: two_waiting_def queued_frames_def)
next
  case (Suc n)
  then obtain t acc out where r: "sched_mux.run (alternate n c b) (two_waiting a c) = (t, acc, out)"
    "length out = n" "frames_of a out = []" "queued_frames t a = [[0]]" by (metis distinct_length_2_or_more)
  obtain s1 where s1: "enqueue_raw (two_waiting a b) c [0] = (s1, True)"
    "pull_next_scheduled s1 = (two_waiting a c, Some (b, [0]))"
    using two_waiting_step [OF Suc.prems] by blast
  show ?case using s1 r Suc.prems by auto
qed

text \<open>
  The rotation is not fair to a waiting stream when other streams come and go: for any three
  streams there is a state the scheduler can reach, with a frame of the first queued, from which
  for every n there is a run of enqueues and n successful pulls that never serves the first.
\<close>

theorem rotation_can_starve:
  assumes "distinct [a, b, c]"
  shows "\<exists>s. sched_reachable default_queue_limits s \<and> queued_frames s a \<noteq> [] \<and>
    (\<forall>n. \<exists>ops t acc out. sched_mux.run ops s = (t, acc, out) \<and>
       length out = n \<and> frames_of a out = [] \<and> queued_frames t a \<noteq> [])"
proof (rule exI [of _ "two_waiting a b"], intro conjI allI)
  show "sched_reachable default_queue_limits (two_waiting a b)" using assms two_waiting_reachable by simp
  show "queued_frames (two_waiting a b) a \<noteq> []" by (simp add: two_waiting_def queued_frames_def)
  fix n
  show "\<exists>ops t acc out. sched_mux.run ops (two_waiting a b) = (t, acc, out) \<and>
       length out = n \<and> frames_of a out = [] \<and> queued_frames t a \<noteq> []"
    using alternate_starves [OF assms, of n] by fastforce
qed

text \<open>
  \<open>flush_scheduled\<close> peeks, sends and commits as three steps. A \<open>drop_stream\<close> of the peeked stream
  in between makes the commit remove the frame of another stream, which was never sent.
\<close>

lemma drop_during_flush_discards_unsent_frame:
  assumes "a \<noteq> b"
  defines "l \<equiv> default_queue_limits"
  shows "\<exists>s s1. sched_reachable l s \<and> peek_next_scheduled s = (s1, Some (a, [7])) \<and>
    queued_frames s b = [[9]] \<and> queued_frames (commit_next_scheduled (drop_stream s1 a)) b = []"
proof -
  let ?s = "fst (sched_mux.run [Inl (a, [7]), Inl (b, [9])] (new_scheduler l))"
  have "sched_reachable l ?s" by (rule reachable_run [OF sched_reachable.init])
  moreover have "peek_next_scheduled ?s = (?s, Some (a, [7]))" "queued_frames ?s b = [[9]]"
    "queued_frames (commit_next_scheduled (drop_stream ?s a)) b = []"
    using assms(1)
    by (auto simp: l_def new_scheduler_def enqueue_raw_def Let_def default_queue_limits_def empty_queue_def
        peek_next_scheduled_def peek_loop.simps wrap_cursor_def front_frame_def drop_stream_def
        commit_next_scheduled_def erase_at_def queued_frames_def)
  ultimately show ?thesis by blast
qed

text \<open>A refused frame of a stream that has nothing queued leaves an empty entry behind.\<close>

lemma refused_enqueue_leaves_entry:
  assumes "lookup (ss_stream_queues s) k = None" and "max_bytes_per_stream (ss_limits s) < length f"
  shows "\<exists>t. enqueue_raw s k f = (t, False) \<and> length (ss_stream_queues t) = Suc (length (ss_stream_queues s))"
  using assms length_update_absent [OF assms(1), of empty_queue]
  by (auto simp: enqueue_raw_def Let_def empty_queue_def)

section \<open>Concrete runs\<close>

definition ex_sched_stream :: "u64 \<Rightarrow> stream_identity" where
  "ex_sched_stream n = \<lparr>request_id = n, execution_id = 5, output_id = 0\<rparr>"

definition ex_sched_ops :: "(stream_identity \<times> bytes + unit) list" where
  "ex_sched_ops = [Inl (ex_sched_stream 2, [7]), Inl (ex_sched_stream 3, [9]),
     Inl (ex_sched_stream 2, [8]), Inr ()]"

definition ex_sched :: stream_send_scheduler where
  "ex_sched = fst (sched_mux.run ex_sched_ops (new_scheduler default_queue_limits))"

lemma ex_sched_run:
  "sched_mux.run ex_sched_ops (new_scheduler default_queue_limits) =
     (ex_sched, [(ex_sched_stream 2, [7]), (ex_sched_stream 3, [9]), (ex_sched_stream 2, [8])],
      [(ex_sched_stream 2, [7])])"
  by (simp add: ex_sched_def ex_sched_ops_def new_scheduler_def enqueue_raw_def Let_def
      default_queue_limits_def empty_queue_def ex_sched_stream_def pull_next_scheduled_def
      peek_next_scheduled_def peek_loop.simps wrap_cursor_def front_frame_def
      commit_next_scheduled_def)

lemma ex_sched_value:
  "ss_active_order ex_sched = [ex_sched_stream 2, ex_sched_stream 3]" "ss_rr_cursor ex_sched = 1"
  "queued_frames ex_sched (ex_sched_stream 2) = [[8]]" "queued_frames ex_sched (ex_sched_stream 3) = [[9]]"
  by (simp_all add: ex_sched_def ex_sched_ops_def new_scheduler_def enqueue_raw_def Let_def
      default_queue_limits_def empty_queue_def ex_sched_stream_def pull_next_scheduled_def
      peek_next_scheduled_def peek_loop.simps wrap_cursor_def front_frame_def
      commit_next_scheduled_def queued_frames_def)

lemma ex_sched_reachable: "sched_reachable default_queue_limits ex_sched"
  unfolding ex_sched_def by (rule reachable_run [OF sched_reachable.init])

lemma scheduler_within_limits_witness:
  "sched_reachable default_queue_limits ex_sched \<and>
   get_stream_queued_count ex_sched (ex_sched_stream 2) \<le> 16 \<and> get_total_queued_bytes ex_sched = 2"
  using scheduler_within_limits [OF ex_sched_reachable, of "ex_sched_stream 2"] ex_sched_reachable
  by (simp add: ex_sched_value default_queue_limits_def)

lemma scheduler_fifo_witness:
  "sched_mux.run ex_sched_ops (new_scheduler default_queue_limits) =
     (ex_sched, [(ex_sched_stream 2, [7]), (ex_sched_stream 3, [9]), (ex_sched_stream 2, [8])],
      [(ex_sched_stream 2, [7])]) \<and>
   [[7], [8]] = [[7]] @ queued_frames ex_sched (ex_sched_stream 2)"
  using scheduler_fifo [OF sched_reachable.init ex_sched_run, of "ex_sched_stream 2"] ex_sched_run
  by (simp add: ex_sched_stream_def queued_frames_def new_scheduler_def)

lemma round_robin_serves_each_witness:
  "sched_reachable default_queue_limits ex_sched \<and>
   snd (pulls 2 ex_sched) = [(ex_sched_stream 3, [9]), (ex_sched_stream 2, [8])]"
  using round_robin_serves_each [OF ex_sched_reachable] ex_sched_reachable
  by (simp add: ex_sched_value numeral_2_eq_2)

lemma rotation_can_starve_witness:
  "\<exists>s. distinct [ex_sched_stream 2, ex_sched_stream 3, ex_sched_stream 4] \<and>
    sched_reachable default_queue_limits s \<and> queued_frames s (ex_sched_stream 2) \<noteq> [] \<and>
    (\<forall>n. \<exists>ops t acc out. sched_mux.run ops s = (t, acc, out) \<and>
       length out = n \<and> frames_of (ex_sched_stream 2) out = [] \<and> queued_frames t (ex_sched_stream 2) \<noteq> [])"
proof -
  have d: "distinct [ex_sched_stream 2, ex_sched_stream 3, ex_sched_stream 4]"
    by (simp add: ex_sched_stream_def)
  show ?thesis using rotation_can_starve [OF d] d by simp
qed

end
