(* ===== verification/Connection_Props.thy ===== *)
theory Connection_Props
  imports Connection Scheduler_Props
begin

unbundle bit_operations_syntax

text \<open>
  What a connection guarantees over a byte stream that POSIX sockets provide: frames are received
  whole under any segmentation, a failed receive or send closes the connection, flushing loses no
  frame, and a signed request reaches the peer as the request it was.
\<close>

section \<open>What POSIX promises\<close>

text \<open>
  \<open>sent w\<close> is what the system has taken from this socket so far, \<open>pending w\<close> what the peer has
  sent and was not yet read. A call to \<open>send\<close> takes any prefix of its buffer, a call to \<open>recv\<close>
  returns any prefix of what is pending up to the length asked for; either may fail at any time.
\<close>

definition send_contract :: "'w os \<Rightarrow> fd \<Rightarrow> ('w \<Rightarrow> bytes) \<Rightarrow> bool" where
  "send_contract os fd sent \<longleftrightarrow>
     (\<forall>w buf w' r. os_send os w fd buf = (w', r) \<longrightarrow>
        r \<le> int (length buf) \<and> sent w' = sent w @ take (nat r) buf) \<and>
     (\<forall>w. sent (os_close os w fd) = sent w)"

definition recv_contract :: "'w os \<Rightarrow> fd \<Rightarrow> ('w \<Rightarrow> bytes) \<Rightarrow> bool" where
  "recv_contract os fd pending \<longleftrightarrow>
     (\<forall>w n w' r bs. os_recv os w fd n = (w', r, bs) \<longrightarrow>
        r \<le> int n \<and> length bs = nat r \<and> pending w = bs @ pending w')"

text \<open>A blocking \<open>recv\<close> on a healthy connection returns something when something is pending.\<close>

definition recv_delivers :: "'w os \<Rightarrow> fd \<Rightarrow> ('w \<Rightarrow> bytes) \<Rightarrow> bool" where
  "recv_delivers os fd pending \<longleftrightarrow>
     (\<forall>w n w' r bs. os_recv os w fd n = (w', r, bs) \<longrightarrow> 0 < n \<longrightarrow> pending w \<noteq> [] \<longrightarrow> 0 < r)"

section \<open>The byte loops\<close>

lemma int_of_size_small: "n < 2 ^ 31 \<Longrightarrow> int_of_size n = int n"
  by (simp add: int_of_size_def signed_of_nat signed_take_bit_int_eq_self)

lemma send_loop:
  "send_contract os fd sent \<Longrightarrow> tcp_send_loop os w fd buf len s = (w', r) \<Longrightarrow> 0 \<le> s \<Longrightarrow> s \<le> len \<Longrightarrow>
    len = int (length buf) \<Longrightarrow>
    \<exists>p q. drop (nat s) buf = p @ q \<and> sent w' = sent w @ p \<and> (if q = [] then r = len else r \<le> 0)"
proof (induction os w fd buf len s rule: tcp_send_loop.induct)
  case (1 os w fd buf len s)
  show ?case
  proof (cases "s < len")
    case False
    then have "tcp_send_loop os w fd buf len s = (w, s)" by (subst tcp_send_loop.simps) simp
    with 1 False show ?thesis by auto
  next
    case True
    let ?chunk = "take (nat (len - s)) (drop (nat s) buf)"
    obtain w1 r1 where c: "os_send os w fd ?chunk = (w1, r1)" by (cases "os_send os w fd ?chunk")
    have chunk: "?chunk = drop (nat s) buf" using 1 by simp
    have "r1 \<le> int (length (drop (nat s) buf)) \<and> sent w1 = sent w @ take (nat r1) (drop (nat s) buf)"
      using "1.prems"(1) c unfolding chunk send_contract_def by blast
    moreover have "int (length (drop (nat s) buf)) = len - s" using 1 by (simp add: of_nat_diff)
    ultimately have l: "r1 \<le> len - s" "sent w1 = sent w @ take (nat r1) (drop (nat s) buf)" by simp_all
    have ne: "drop (nat s) buf \<noteq> []" using 1 True by simp
    show ?thesis
    proof (cases "r1 \<le> 0")
      case True
      then have "tcp_send_loop os w fd buf len s = (w1, r1)"
        using \<open>s < len\<close> c by (subst tcp_send_loop.simps) simp
      with "1.prems"(2) True l have "w' = w1" "r = r1" "sent w1 = sent w" by simp_all
      with True ne show ?thesis by (intro exI [of _ "[]"] exI [of _ "drop (nat s) buf"]) simp
    next
      case False
      then have "tcp_send_loop os w fd buf len s = tcp_send_loop os w1 fd buf len (s + r1)"
        using \<open>s < len\<close> c by (subst tcp_send_loop.simps) simp
      then have "tcp_send_loop os w1 fd buf len (s + r1) = (w', r)" using "1.prems"(2) by simp
      from "1.IH" [OF True refl c [symmetric] False "1.prems"(1) this] False l 1
      obtain p q where p: "drop (nat (s + r1)) buf = p @ q" "sent w' = sent w1 @ p"
        "if q = [] then r = len else r \<le> 0" by auto
      have "drop (nat s) buf = take (nat r1) (drop (nat s) buf) @ drop (nat (s + r1)) buf"
        using False 1 by (simp add: nat_add_distrib add.commute flip: drop_drop)
      with p l show ?thesis
        by (intro exI [of _ "take (nat r1) (drop (nat s) buf) @ p"] exI [of _ q]) simp
    qed
  qed
qed

lemma recv_loop:
  "recv_contract os fd pending \<Longrightarrow> tcp_recv_loop os w fd len got buf = (w', r, out) \<Longrightarrow> 0 \<le> got \<Longrightarrow>
    got \<le> len \<Longrightarrow>
    \<exists>p. out = buf @ p \<and> pending w = p @ pending w' \<and> int (length p) \<le> len - got \<and>
      (if int (length p) = len - got then r = len else r \<le> 0) \<and>
      (recv_delivers os fd pending \<longrightarrow> int (length p) < len - got \<longrightarrow> pending w' = [])"
proof (induction os w fd len got buf rule: tcp_recv_loop.induct)
  case (1 os w fd len got buf)
  show ?case
  proof (cases "got < len")
    case False
    then have "tcp_recv_loop os w fd len got buf = (w, got, buf)" by (subst tcp_recv_loop.simps) simp
    with 1 False show ?thesis by auto
  next
    case True
    obtain w1 r1 bs where c: "os_recv os w fd (nat (len - got)) = (w1, r1, bs)"
      by (cases "os_recv os w fd (nat (len - got))")
    have "r1 \<le> int (nat (len - got)) \<and> length bs = nat r1 \<and> pending w = bs @ pending w1"
      using "1.prems"(1) c unfolding recv_contract_def by blast
    then have l: "r1 \<le> len - got" "length bs = nat r1" "pending w = bs @ pending w1"
      using True by simp_all
    show ?thesis
    proof (cases "r1 \<le> 0")
      case True
      with 1 \<open>got < len\<close> c have "w' = w1" "r = r1" "out = buf"
        by (simp_all add: tcp_recv_loop.simps [of os w fd len got buf])
      moreover have "pending w = [] " if "recv_delivers os fd pending"
        using that c True \<open>got < len\<close> unfolding recv_delivers_def by fastforce
      ultimately show ?thesis using True l \<open>got < len\<close> by (intro exI [of _ "[]"]) auto
    next
      case False
      then have "tcp_recv_loop os w fd len got buf = tcp_recv_loop os w1 fd len (got + r1) (buf @ bs)"
        using \<open>got < len\<close> c by (subst tcp_recv_loop.simps) simp
      then have "tcp_recv_loop os w1 fd len (got + r1) (buf @ bs) = (w', r, out)" using "1.prems"(2) by simp
      from "1.IH" [OF True refl c [symmetric] refl False "1.prems"(1) this] False l 1
      obtain p where p: "out = (buf @ bs) @ p" "pending w1 = p @ pending w'"
        "int (length p) \<le> len - (got + r1)" "if int (length p) = len - (got + r1) then r = len else r \<le> 0"
        "recv_delivers os fd pending \<longrightarrow> int (length p) < len - (got + r1) \<longrightarrow> pending w' = []" by auto
      have "int (length (bs @ p)) = r1 + int (length p)" using False l by simp
      with p l show ?thesis by (intro exI [of _ "bs @ p"]) (auto split: if_splits)
    qed
  qed
qed

lemma send_bytes:
  assumes "send_contract os (cn_sock c) sent" "send_bytes_locked os w c data = (w', c', ok)"
    "length data < 2 ^ 31"
  shows "if ok then sent w' = sent w @ data \<and> c' = c \<and> is_connected c \<and> data \<noteq> []
    else (\<exists>p q. data = p @ q \<and> sent w' = sent w @ p \<and>
      (c' = c \<and> p = [] \<and> (data = [] \<or> \<not> is_connected c) \<or> q \<noteq> [] \<and> c' = c\<lparr>cn_sock := no_socket\<rparr>))"
proof (cases "\<not> is_connected c \<or> data = []")
  case True
  with assms(2) show ?thesis by (auto simp: send_bytes_locked_def)
next
  case False
  obtain w1 r where l: "tcp_send_loop os w (cn_sock c) data (int (length data)) 0 = (w1, r)"
    by (cases "tcp_send_loop os w (cn_sock c) data (int (length data)) 0")
  from send_loop [OF assms(1) l] obtain p q where p: "data = p @ q" "sent w1 = sent w @ p"
    "if q = [] then r = int (length data) else r \<le> 0" by auto
  show ?thesis
  proof (cases "q = []")
    case True
    with p l False assms(2,3) show ?thesis
      by (auto simp: send_bytes_locked_def tcp_send_all_def int_of_size_small)
  next
    case q: False
    have "r \<le> 0" using p(3) q by simp
    moreover have "0 < int (length data)" using False by simp
    ultimately have "r \<noteq> int (length data)" by linarith
    then have "w' = os_close os w1 (cn_sock c)" "c' = c\<lparr>cn_sock := no_socket\<rparr>" "\<not> ok"
      using p l False assms(2,3)
      by (auto simp: send_bytes_locked_def tcp_send_all_def int_of_size_small close_connection_def)
    moreover have "sent (os_close os w1 (cn_sock c)) = sent w1" using assms(1) by (simp add: send_contract_def)
    ultimately show ?thesis using p q by auto
  qed
qed

section \<open>Receiving frames\<close>

lemma recv_bytes:
  assumes "recv_contract os (cn_sock c) pending" "recv_all_bytes os w c n = (w', c', res)"
    "0 < n" "n < 2 ^ 31"
  shows "\<exists>to. c' = c\<lparr>cn_timed_out := to\<rparr> \<and> (case res of
      Some bs \<Rightarrow> length bs = n \<and> pending w = bs @ pending w' \<and> is_connected c
    | None \<Rightarrow> is_connected c \<longrightarrow> recv_delivers os (cn_sock c) pending \<longrightarrow> length (pending w) < n)"
proof (cases "is_connected c")
  case False
  with assms(2) show ?thesis
    by (intro exI [of _ "cn_timed_out c"]) (auto simp: recv_all_bytes_def)
next
  case True
  obtain w1 r out where l: "tcp_recv_loop os w (cn_sock c) (int n) 0 [] = (w1, r, out)"
    by (cases "tcp_recv_loop os w (cn_sock c) (int n) 0 []")
  from recv_loop [OF assms(1) l] have p: "pending w = out @ pending w1" "length out \<le> n"
    "if length out = n then r = int n else r \<le> 0"
    "recv_delivers os (cn_sock c) pending \<longrightarrow> length out < n \<longrightarrow> pending w1 = []" by auto
  have res: "res = (if length out = n then Some out else None)" "w' = w1"
    "\<exists>to. c' = c\<lparr>cn_timed_out := to\<rparr>"
    using assms(2-4) True l p
    by (auto simp: recv_all_bytes_def tcp_recv_all_def int_of_size_small Let_def split: if_splits)
  then show ?thesis using p True by auto
qed

definition header_ok :: "bool \<Rightarrow> wire_envelope_header \<Rightarrow> bool" where
  "header_ok confirmed h \<longleftrightarrow> hdr_magic h = LINEP_V02_MAGIC \<and>
     hdr_version_major h = LINEP_V02_VERSION_MAJOR \<and> hdr_payload_len h \<le> LINEP_V02_MAX_PAYLOAD_BYTES \<and>
     (confirmed \<longrightarrow> hdr_flags h AND LINEP_V02_FLAG_AUTHENTICATED \<noteq> 0)"

definition body_length :: "wire_envelope_header \<Rightarrow> nat" where
  "body_length h = (if hdr_flags h AND LINEP_V02_FLAG_AUTHENTICATED \<noteq> 0
     then LINEP_V02_AUTH_EXTENSION_SIZE else 0) + unat (hdr_payload_len h)"

definition acceptable_frame :: "bool \<Rightarrow> bytes \<Rightarrow> bool" where
  "acceptable_frame confirmed frame \<longleftrightarrow> (\<exists>h. decode_header frame = Some h \<and> header_ok confirmed h \<and>
     length frame = LINEP_V02_HEADER_SIZE + body_length h)"

lemma decode_header_prefix: "length a = 32 \<Longrightarrow> decode_header (a @ b) = decode_header a"
  by (simp add: decode_header_def)

lemma acceptable_frame_split:
  assumes "acceptable_frame confirmed frame"
  obtains h where "decode_header (take 32 frame) = Some h" "32 \<le> length frame"
    "header_ok confirmed h" "length frame = 32 + body_length h"
proof -
  from assms obtain h where h: "decode_header frame = Some h" "header_ok confirmed h"
    "length frame = 32 + body_length h" by (auto simp: acceptable_frame_def)
  then have "decode_header (take 32 frame) = Some h"
    using decode_header_prefix [of "take 32 frame" "drop 32 frame"] by simp
  with h that show ?thesis by simp
qed

lemma acceptable_prefix_unique:
  assumes "acceptable_frame a f" "acceptable_frame b g" "f @ x = g @ y"
  shows "f = g"
proof -
  from assms(1) obtain h where h: "decode_header (take 32 f) = Some h" "length f = 32 + body_length h"
    by (rule acceptable_frame_split)
  from assms(2) obtain k where k: "decode_header (take 32 g) = Some k" "length g = 32 + body_length k"
    by (rule acceptable_frame_split)
  have l: "32 \<le> length f" "32 \<le> length g" using h(2) k(2) by simp_all
  have "take 32 f = take 32 (f @ x)" using l(1) by simp
  also have "\<dots> = take 32 g" unfolding assms(3) using l(2) by simp
  finally have "Some h = Some k" using h(1) k(1) by simp
  then have "length f = length g" using h(2) k(2) by simp
  then show ?thesis using assms(3) append_eq_append_conv [of f g x y] by blast
qed

lemma body_length_bound: "header_ok confirmed h \<Longrightarrow> body_length h < 2 ^ 31"
  by (simp add: header_ok_def body_length_def word_le_nat_alt)

text \<open>The receiver with its checks named.\<close>

lemma receive_unfold:
  "receive_envelope_raw os w c =
     (case recv_all_bytes os w c 32 of
        (w, c, None) \<Rightarrow> close_and_fail os w c
      | (w, c, Some hb) \<Rightarrow>
          (case decode_header hb of None \<Rightarrow> close_and_fail os w c
           | Some h \<Rightarrow>
               if \<not> header_ok (cn_sl1_confirmed c) h then close_and_fail os w c
               else let c = (if hdr_envelope_type h = et_session_bind \<and>
                        hdr_flags h AND LINEP_V02_FLAG_AUTHENTICATED \<noteq> 0
                      then c\<lparr>cn_sl1_confirmed := True\<rparr> else c)
                 in if body_length h > 0 then
                      (case recv_all_bytes os w c (body_length h) of
                         (w, c, None) \<Rightarrow> close_and_fail os w c
                       | (w, c, Some body) \<Rightarrow> (w, c, Some (hb @ body)))
                    else (w, c, Some hb)))"
  unfolding receive_envelope_raw_def header_ok_def body_length_def Let_def
  by (intro prod.case_cong option.case_cong refl) (auto simp: not_less not_le)

lemma close_and_fail_result:
  "\<exists>w1 c1. close_and_fail os w c = (w1, c1, None) \<and> \<not> is_connected c1"
  by (simp add: close_and_fail_def close_connection_def is_connected_def)

lemma receive_spec:
  assumes "recv_contract os (cn_sock c) pending" "receive_envelope_raw os w c = (w', c', res)"
  shows "case res of
      Some frame \<Rightarrow> pending w = frame @ pending w' \<and> acceptable_frame (cn_sl1_confirmed c) frame \<and>
        cn_sock c' = cn_sock c \<and> is_connected c
    | None \<Rightarrow> \<not> is_connected c' \<and> (is_connected c \<longrightarrow> recv_delivers os (cn_sock c) pending \<longrightarrow>
        (\<forall>frame rest. pending w = frame @ rest \<longrightarrow> \<not> acceptable_frame (cn_sl1_confirmed c) frame))"
proof -
  obtain w1 c1 r1 where r: "recv_all_bytes os w c 32 = (w1, c1, r1)" by (cases "recv_all_bytes os w c 32")
  from recv_bytes [OF assms(1) r] obtain to where c1: "c1 = c\<lparr>cn_timed_out := to\<rparr>"
    and p1: "case r1 of Some bs \<Rightarrow> length bs = 32 \<and> pending w = bs @ pending w1 \<and> is_connected c
      | None \<Rightarrow> is_connected c \<longrightarrow> recv_delivers os (cn_sock c) pending \<longrightarrow> length (pending w) < 32" by auto
  have failed: ?thesis if "(w', c', res) = close_and_fail os w2 c2"
    and "\<And>frame rest. is_connected c \<Longrightarrow> recv_delivers os (cn_sock c) pending \<Longrightarrow>
      pending w = frame @ rest \<Longrightarrow> acceptable_frame (cn_sl1_confirmed c) frame \<Longrightarrow> False" for w2 c2
  proof -
    from that(1) have "res = None" "\<not> is_connected c'"
      using close_and_fail_result [of os w2 c2] by auto
    with that(2) show ?thesis by auto
  qed
  show ?thesis
  proof (cases r1)
    case None
    show ?thesis
    proof (rule failed)
      show "(w', c', res) = close_and_fail os w1 c1"
        using assms(2) r None by (simp add: receive_envelope_raw_def)
      show False if "is_connected c" "recv_delivers os (cn_sock c) pending"
        "pending w = frame @ rest" "acceptable_frame (cn_sl1_confirmed c) frame" for frame rest
        using that p1 None by (auto elim!: acceptable_frame_split)
    qed
  next
    case (Some hb)
    with p1 have hb: "length hb = 32" "pending w = hb @ pending w1" "is_connected c" by simp_all
    have start: "take 32 frame = hb" if "pending w = frame @ rest" "acceptable_frame a frame" for frame rest a
    proof -
      have "32 \<le> length frame" using that(2) by (rule acceptable_frame_split) simp
      then have "take 32 frame = take 32 (pending w)" unfolding that(1) by simp
      then show ?thesis using hb by simp
    qed
    have stop: ?thesis if f: "(w', c', res) = close_and_fail os w2 c2"
      and n: "\<And>h. decode_header hb = Some h \<Longrightarrow> header_ok (cn_sl1_confirmed c) h \<Longrightarrow>
        recv_delivers os (cn_sock c) pending \<Longrightarrow> length (pending w1) < body_length h" for w2 c2
    proof (rule failed [OF f])
      fix frame rest
      assume d: "recv_delivers os (cn_sock c) pending" and fr: "pending w = frame @ rest"
        "acceptable_frame (cn_sl1_confirmed c) frame"
      from fr(2) obtain h where h: "decode_header (take 32 frame) = Some h" "header_ok (cn_sl1_confirmed c) h"
        "length frame = 32 + body_length h" by (rule acceptable_frame_split)
      then have "length (pending w1) < body_length h" using n d start [OF fr] by simp
      moreover have "length (pending w) = 32 + length (pending w1)" using hb by simp
      ultimately show False using fr(1) h(3) by simp
    qed
    show ?thesis
    proof (cases "decode_header hb")
      case None
      then show ?thesis using assms(2) r Some by (intro stop [of w1 c1]) (simp_all add: receive_unfold)
    next
      case h: (Some h)
      show ?thesis
      proof (cases "header_ok (cn_sl1_confirmed c) h")
        case False
        then show ?thesis using assms(2) r Some h c1 by (intro stop [of w1 c1]) (simp_all add: receive_unfold)
      next
        case ok: True
        define c2 where "c2 = (if hdr_envelope_type h = et_session_bind \<and> hdr_flags h AND LINEP_V02_FLAG_AUTHENTICATED \<noteq> 0
                   then c1\<lparr>cn_sl1_confirmed := True\<rparr> else c1)"
        have acc: "acceptable_frame (cn_sl1_confirmed c) (hb @ body)" if "length body = body_length h" for body
          using that h hb(1) ok decode_header_prefix [OF hb(1)] by (simp add: acceptable_frame_def)
        show ?thesis
        proof (cases "body_length h = 0")
          case True
          then have "w' = w1" "c' = c2" "res = Some hb"
            using assms(2) r Some h ok c1 by (auto simp: receive_unfold c2_def)
          then show ?thesis using acc [of "[]"] True hb c1 by (simp add: c2_def)
        next
          case False
          obtain w3 c3 r3 where r3: "recv_all_bytes os w1 c2 (body_length h) = (w3, c3, r3)"
            by (cases "recv_all_bytes os w1 c2 (body_length h)")
          have s2: "cn_sock c2 = cn_sock c" using c1 by (simp add: c2_def)
          then have con: "is_connected c2" using hb(3) by (simp add: is_connected_def)
          have "recv_contract os (cn_sock c2) pending" using assms(1) s2 by simp
          from recv_bytes [OF this r3] False body_length_bound [OF ok] obtain to
            where c3: "c3 = c2\<lparr>cn_timed_out := to\<rparr>"
              and p3: "case r3 of Some bs \<Rightarrow> length bs = body_length h \<and> pending w1 = bs @ pending w3 \<and> is_connected c2
                | None \<Rightarrow> is_connected c2 \<longrightarrow> recv_delivers os (cn_sock c2) pending \<longrightarrow> length (pending w1) < body_length h"
            by auto
          have eq: "(w', c', res) = (case r3 of None \<Rightarrow> close_and_fail os w3 c3 | Some body \<Rightarrow> (w3, c3, Some (hb @ body)))"
          proof -
            have "header_ok (cn_sl1_confirmed c1) h" using ok c1 by simp
            then have "receive_envelope_raw os w c = (case recv_all_bytes os w1 c2 (body_length h) of
                (w, c, None) \<Rightarrow> close_and_fail os w c | (w, c, Some body) \<Rightarrow> (w, c, Some (hb @ body)))"
              using False by (simp add: receive_unfold r Some h c2_def)
            then show ?thesis using assms(2) by (simp add: r3 split: option.split)
          qed
          show ?thesis
          proof (cases r3)
            case None
            then show ?thesis using eq p3 con h s2 by (intro stop [of w3 c3]) auto
          next
            case (Some body)
            with eq p3 have "w' = w3" "c' = c3" "res = Some (hb @ body)"
              "length body = body_length h" "pending w1 = body @ pending w3" by simp_all
            then show ?thesis using acc hb s2 c3 by simp
          qed
        qed
      qed
    qed
  qed
qed

text \<open>
  C23: receiving frames is exact and fails closed. With any splitting of the peer's bytes and any
  failure of the system's receive call, a successful receive returns exactly the next frame of the
  byte stream, well formed and within the payload limit, authenticated when SL1 was confirmed, and
  leaves the connection at the frame's end; a failed receive leaves the connection closed.
\<close>

theorem receive_exact_or_closed:
  assumes "recv_contract os (cn_sock c) pending" and "receive_envelope_raw os w c = (w', c', res)"
  shows "case res of
      Some frame \<Rightarrow> pending w = frame @ pending w' \<and> acceptable_frame (cn_sl1_confirmed c) frame \<and>
        is_connected c'
    | None \<Rightarrow> \<not> is_connected c'"
  using receive_spec [OF assms] by (auto simp: is_connected_def split: option.splits)

lemma receive_delivered_frame:
  assumes "recv_contract os (cn_sock c) pending" and "recv_delivers os (cn_sock c) pending"
    and "is_connected c" and "pending w = frame @ rest" and "acceptable_frame (cn_sl1_confirmed c) frame"
  shows "\<exists>w' c'. receive_envelope_raw os w c = (w', c', Some frame) \<and> pending w' = rest \<and> is_connected c'"
proof -
  obtain w' c' res where r: "receive_envelope_raw os w c = (w', c', res)"
    by (cases "receive_envelope_raw os w c")
  note spec = receive_spec [OF assms(1) r]
  obtain f where f: "res = Some f" using spec assms by (cases res) auto
  with spec have p: "pending w = f @ pending w'" "acceptable_frame (cn_sl1_confirmed c) f" "is_connected c'"
    by (simp_all add: is_connected_def)
  then have "f = frame" using acceptable_prefix_unique [OF p(2) assms(5), of "pending w'" rest] assms(4) by simp
  then show ?thesis using r f p assms(4) by auto
qed

text \<open>
  No well-formed frame is missed. When the peer's bytes begin with a frame the connection
  accepts and the system's receive call delivers what is pending, in pieces of any sizes, the
  receive returns that frame and nothing of what follows it.
\<close>

theorem receive_any_segmentation:
  assumes "recv_contract os (cn_sock c) pending" and "recv_delivers os (cn_sock c) pending"
    and "is_connected c" and "pending w = frame @ rest" and "acceptable_frame (cn_sl1_confirmed c) frame"
  shows "\<exists>w' c'. receive_envelope_raw os w c = (w', c', Some frame) \<and> pending w' = rest \<and> is_connected c'"
  using assms by (rule receive_delivered_frame)

section \<open>Flushing loses no frame\<close>

lemma queued_frame_size:
  assumes "sched_inv s" "f \<in> set (queued_frames s k)"
  shows "length f \<le> max_bytes_per_stream (ss_limits s)"
proof -
  from assms(2) obtain q where q: "lookup (ss_stream_queues s) k = Some q" "f \<in> set (sq_frames q)"
    by (cases "lookup (ss_stream_queues s) k") (auto simp: queued_frames_def)
  have "length f \<le> frames_bytes (sq_frames q)"
    using q(2) by (auto simp: frames_bytes_def intro: member_le_sum_list)
  then show ?thesis using sched_inv_queue [OF assms(1) q(1)] by (simp add: queue_inv_def)
qed

lemma ring_head_queued:
  assumes "sched_inv s" "ring s \<noteq> []"
  shows "queued_frames s (hd (ring s)) \<noteq> []"
  using hd_in_set [OF assms(2)] unfolding ring_facts(1) [OF assms(1)] by simp

lemma commit_queued:
  assumes "sched_inv s" "ring s \<noteq> []" "k = hd (ring s)"
  shows "queued_frames s j = frames_of j [(k, hd (queued_frames s k))] @ queued_frames (commit_next_scheduled s) j"
  using commit_effect(3) [OF assms, of j] ring_head_queued [OF assms(1,2)] assms(3) by simp

text \<open>
  The outcome of a flush that put \<open>out\<close> on the wire: the frames served, whole and in order, then
  possibly a part of one frame that is still queued, and in that case the connection is closed.
\<close>

definition flush_outcome :: "envelope_connection \<Rightarrow> stream_send_scheduler \<Rightarrow> stream_send_scheduler
    \<Rightarrow> nat \<Rightarrow> bytes \<Rightarrow> bool" where
  "flush_outcome c' s s' n out \<longleftrightarrow> (\<exists>served partial. length served = n \<and>
     (\<forall>k. queued_frames s k = frames_of k served @ queued_frames s' k) \<and>
     out = concat (map snd served) @ partial \<and>
     (partial \<noteq> [] \<longrightarrow> \<not> is_connected c' \<and> (\<exists>k rest. rest \<noteq> [] \<and> queued_frames s' k \<noteq> [] \<and>
        partial @ rest = hd (queued_frames s' k))) \<and>
     (is_connected c' \<and> (\<forall>k. [] \<notin> set (queued_frames s k)) \<longrightarrow> (\<forall>k. queued_frames s' k = [])))"

lemma flush_outcome_step:
  assumes inv: "sched_inv s" and ne: "ring s \<noteq> []" and k: "k = hd (ring s)" and f: "f = hd (queued_frames s k)"
    and o: "flush_outcome c (commit_next_scheduled s) t n out"
  shows "flush_outcome c s t (Suc n) (f @ out)"
proof -
  from o obtain served partial where o: "length served = n"
    "\<And>k. queued_frames (commit_next_scheduled s) k = frames_of k served @ queued_frames t k"
    "out = concat (map snd served) @ partial"
    "partial \<noteq> [] \<longrightarrow> \<not> is_connected c \<and> (\<exists>k rest. rest \<noteq> [] \<and> queued_frames t k \<noteq> [] \<and>
        partial @ rest = hd (queued_frames t k))"
    "is_connected c \<and> (\<forall>k. [] \<notin> set (queued_frames (commit_next_scheduled s) k)) \<longrightarrow> (\<forall>k. queued_frames t k = [])"
    unfolding flush_outcome_def by blast
  have qk: "queued_frames s j = frames_of j ((k, f) # served) @ queued_frames t j" for j
    using commit_queued [OF inv ne k, of j] o(2) [of j] by (simp add: f)
  have emp: "[] \<notin> set (queued_frames (commit_next_scheduled s) j)" if "\<forall>k. [] \<notin> set (queued_frames s k)" for j
  proof -
    have "[] \<notin> set (queued_frames s j)" using that by simp
    then show ?thesis unfolding commit_queued [OF inv ne k, of j] by simp
  qed
  show ?thesis
    unfolding flush_outcome_def
  proof (rule exI [of _ "(k, f) # served"], rule exI [of _ partial], intro conjI allI)
    show "queued_frames s j = frames_of j ((k, f) # served) @ queued_frames t j" for j by (rule qk)
    show "is_connected c \<and> (\<forall>k. [] \<notin> set (queued_frames s k)) \<longrightarrow> (\<forall>k. queued_frames t k = [])"
      using o(5) emp by blast
  qed (use o in simp_all)
qed

lemma flush_spec:
  "send_contract os (cn_sock c) sent \<Longrightarrow> sched_inv s \<Longrightarrow> max_bytes_per_stream (ss_limits s) < 2 ^ 31 \<Longrightarrow>
     flush_scheduled os w c s = (w', c', s', n) \<Longrightarrow>
     sched_inv s' \<and> ss_limits s' = ss_limits s \<and> (\<exists>out. sent w' = sent w @ out \<and> flush_outcome c' s s' n out)"
proof (induction os w c s arbitrary: w' c' s' n rule: flush_scheduled.induct)
  case (1 os w c s)
  note inv = "1.prems"(2)
  show ?case
  proof (cases "ring s = []")
    case True
    then have "flush_scheduled os w c s = (w, c, s, 0)"
      using peek_at_cursor [OF inv] by (subst flush_scheduled.simps) simp
    moreover have "queued_frames s k = []" for k using True ring_facts(1) [OF inv] by auto
    ultimately show ?thesis using "1.prems" by (auto simp: flush_outcome_def)
  next
    case ne: False
    define k f where "k = hd (ring s)" and "f = hd (queued_frames s k)"
    have kne: "queued_frames s k \<noteq> []" unfolding k_def by (rule ring_head_queued [OF inv ne])
    then have fin: "f \<in> set (queued_frames s k)" unfolding f_def by (rule hd_in_set)
    have peek: "peek_next_scheduled s = (s, Some (k, f))"
      using peek_at_cursor [OF inv] ne by (simp add: k_def f_def)
    have sz: "length f < 2 ^ 31" using queued_frame_size [OF inv fin] "1.prems"(3) by simp
    obtain w1 c1 ok where snd: "send_bytes_locked os w c f = (w1, c1, ok)" by (cases "send_bytes_locked os w c f")
    note sb = send_bytes [OF "1.prems"(1) snd sz]
    show ?thesis
    proof (cases ok)
      case False
      then have "flush_scheduled os w c s = (w1, c1, s, 0)"
        using peek snd by (subst flush_scheduled.simps) simp
      then have eq: "w' = w1" "c' = c1" "s' = s" "n = 0" using "1.prems"(4) by simp_all
      from sb False obtain p q where p: "f = p @ q" "sent w1 = sent w @ p"
        "c1 = c \<and> p = [] \<and> (f = [] \<or> \<not> is_connected c) \<or> q \<noteq> [] \<and> c1 = c\<lparr>cn_sock := no_socket\<rparr>" by auto
      have "flush_outcome c1 s s 0 p"
        unfolding flush_outcome_def
      proof (rule exI [of _ "[]"], rule exI [of _ p], intro conjI)
        show "p \<noteq> [] \<longrightarrow> \<not> is_connected c1 \<and> (\<exists>k rest. rest \<noteq> [] \<and> queued_frames s k \<noteq> [] \<and>
            p @ rest = hd (queued_frames s k))"
          using p kne f_def by (auto simp: is_connected_def intro!: exI [of _ k] exI [of _ q])
        show "is_connected c1 \<and> (\<forall>k. [] \<notin> set (queued_frames s k)) \<longrightarrow> (\<forall>k. queued_frames s k = [])"
          using p fin by (auto simp: is_connected_def)
      qed simp_all
      then show ?thesis using eq p inv by auto
    next
      case True
      obtain w2 c2 s2 m where rec: "flush_scheduled os w1 c1 (commit_next_scheduled s) = (w2, c2, s2, m)"
        by (cases "flush_scheduled os w1 c1 (commit_next_scheduled s)")
      have "flush_scheduled os w c s = (w2, c2, s2, Suc m)"
        using peek snd True rec by (subst flush_scheduled.simps) simp
      then have eq: "w' = w2" "c' = c2" "s' = s2" "n = Suc m" using "1.prems"(4) by simp_all
      have sb': "sent w1 = sent w @ f" "c1 = c" using sb True by auto
      note eff = commit_effect [OF inv ne k_def]
      have cc: "send_contract os (cn_sock c1) sent" "max_bytes_per_stream (ss_limits (commit_next_scheduled s)) < 2 ^ 31"
        using "1.prems" sb' eff(2) by simp_all
      have "sched_inv s2 \<and> ss_limits s2 = ss_limits (commit_next_scheduled s) \<and>
          (\<exists>out. sent w2 = sent w1 @ out \<and> flush_outcome c2 (commit_next_scheduled s) s2 m out)"
        by (rule "1.IH" [OF peek [symmetric] refl refl snd [symmetric] refl _ cc(1) eff(1) cc(2) rec])
          (simp add: True)
      then obtain out where out: "sched_inv s2" "ss_limits s2 = ss_limits s" "sent w2 = sent w1 @ out"
        "flush_outcome c2 (commit_next_scheduled s) s2 m out" using eff(2) by auto
      then show ?thesis using flush_outcome_step [OF inv ne k_def f_def out(4)] eq sb' by auto
    qed
  qed
qed


section \<open>A signed request from end to end\<close>

lemma decode_request_signed:
  assumes "decode_header buf = Some h" "hdr_flags h = 0" "length buf = 32 + unat (hdr_payload_len h)"
    "auth_wf ext"
  shows "decode_request (encode_header (h\<lparr>hdr_flags := hdr_flags h OR 1\<rparr>) @ encode_auth_extension ext @ drop 32 buf)
     = decode_request buf"
proof -
  let ?h = "h\<lparr>hdr_flags := 1\<rparr>"
  have "open_envelope ty (encode_header ?h @ encode_auth_extension ext @ drop 32 buf) =
      (case open_envelope ty buf of None \<Rightarrow> None | Some (g, p) \<Rightarrow> Some (?h, p))" for ty
    using assms by (simp add: open_envelope_def Let_def length_encode_auth auth_wf_def)
  then show ?thesis
    using assms by (auto simp: decode_request_def open_envelope_def header_stream_def split: option.split)
qed

lemma signed_frame_acceptable:
  assumes "decode_header buf = Some h" "hdr_magic h = LINEP_V02_MAGIC" "hdr_version_major h = LINEP_V02_VERSION_MAJOR"
    "hdr_payload_len h \<le> LINEP_V02_MAX_PAYLOAD_BYTES" "length buf = 32 + unat (hdr_payload_len h)" "auth_wf ext"
  shows "acceptable_frame confirmed
    (encode_header (h\<lparr>hdr_flags := hdr_flags h OR 1\<rparr>) @ encode_auth_extension ext @ drop 32 buf)"
  using assms by (simp add: acceptable_frame_def header_ok_def body_length_def auth_flag_set length_encode_auth auth_wf_def)

lemma request_buffer:
  assumes "encode_request r = Some buf" "req_has_options r \<Longrightarrow> options_fit (req_options r)"
    and "length (request_body (canonical_request r)) \<le> 16777216"
  shows "\<exists>h. decode_header buf = Some h \<and> hdr_magic h = LINEP_V02_MAGIC \<and>
    hdr_version_major h = LINEP_V02_VERSION_MAJOR \<and> hdr_payload_len h \<le> LINEP_V02_MAX_PAYLOAD_BYTES \<and>
    hdr_flags h = 0 \<and> length buf = 32 + unat (hdr_payload_len h)"
proof -
  let ?p = "request_body (canonical_request r)"
  have "buf = close_envelope et_request (req_stream r) ?p"
  proof -
    have "request_is_valid r" using assms(1) by (simp add: encode_request_def split: if_splits)
    with assms(1,2) encode_request_body [of r] show ?thesis by (auto split: if_splits)
  qed
  moreover have "unat (of_nat (length ?p) :: u32) = length ?p" using assms(3) by (simp add: unat_of_nat)
  ultimately show ?thesis
    using assms(3) by (simp add: close_envelope_def envelope_header_def word_le_nat_alt)
qed


text \<open>
  Frames are queued as they were encoded and flushed without the block that signs: a connection
  that has confirmed SL1 refuses every frame of the scheduler's queues.
\<close>

lemma queued_frames_unsigned:
  assumes "decode_header f = Some h" "hdr_flags h = 0"
  shows "\<not> acceptable_frame True f"
  using assms by (simp add: acceptable_frame_def header_ok_def)

lemma queued_event_refused_after_sl1:
  assumes "encode_event e = Some f"
  shows "\<not> acceptable_frame True f"
  using assms
  by (intro queued_frames_unsigned [of f "envelope_header et_event (evt_stream e) (event_payload e)"])
    (auto simp: encode_event_def close_envelope_def envelope_header_def split: if_splits)

end
