(* ===== verification/Connection_Examples.thy ===== *)
theory Connection_Examples
  imports Connection_Props Envelope_Examples
begin

unbundle bit_operations_syntax

text \<open>A concrete operating system and connections on it that meet the hypotheses of the connection properties.\<close>

section \<open>A concrete system\<close>

text \<open>
  A system whose state is the bytes still to be read and the bytes written; it delivers at most
  seven bytes per call and takes whole writes.
\<close>

definition ex_os :: "(bytes \<times> bytes) os" where
  "ex_os = \<lparr>os_send = (\<lambda>(inp, out) fd buf. ((inp, out @ buf), int (length buf))),
     os_recv = (\<lambda>(inp, out) fd n. ((drop (min n 7) inp, out), int (length (take (min n 7) inp)), take (min n 7) inp)),
     os_close = (\<lambda>w fd. w), os_timed_out = (\<lambda>w. False)\<rparr>"

lemma ex_os_contracts:
  "send_contract ex_os fd snd" "recv_contract ex_os fd fst" "recv_delivers ex_os fd fst"
  by (auto simp: send_contract_def recv_contract_def recv_delivers_def ex_os_def min_def)

definition ex_ping_frame :: bytes where
  "ex_ping_frame = encode_header \<lparr>hdr_magic = LINEP_V02_MAGIC, hdr_version_major = 0, hdr_version_minor = 2,
     hdr_envelope_type = et_control, hdr_flags = 0, hdr_request_id = 3, hdr_execution_id = 4,
     hdr_output_id = 0, hdr_payload_len = 2\<rparr> @ [5, 6]"

lemma ex_ping_acceptable: "acceptable_frame False ex_ping_frame"
  by (simp add: acceptable_frame_def ex_ping_frame_def header_ok_def body_length_def word_le_nat_alt)

lemma receive_any_segmentation_witness:
  "\<exists>w' c'. recv_contract ex_os 4 fst \<and> recv_delivers ex_os 4 fst \<and> is_connected (new_connection 4) \<and>
     acceptable_frame False ex_ping_frame \<and>
     receive_envelope_raw ex_os (ex_ping_frame @ [1, 2, 3], []) (new_connection 4) = (w', c', Some ex_ping_frame) \<and>
     fst w' = [1, 2, 3]"
  using receive_any_segmentation [of ex_os "new_connection 4" fst "(ex_ping_frame @ [1, 2, 3], [])" ex_ping_frame "[1, 2, 3]"]
    ex_os_contracts ex_ping_acceptable by (auto simp: new_connection_def is_connected_def)

lemma receive_exact_or_closed_witness:
  "\<exists>w' c' res. recv_contract ex_os 4 fst \<and>
     receive_envelope_raw ex_os ([1, 2, 3], []) (new_connection 4) = (w', c', res) \<and>
     (case res of Some frame \<Rightarrow> [1, 2, 3] = frame @ fst w' | None \<Rightarrow> \<not> is_connected c')"
proof -
  obtain w' c' res where r: "receive_envelope_raw ex_os ([1, 2, 3], []) (new_connection 4) = (w', c', res)"
    by (cases "receive_envelope_raw ex_os ([1, 2, 3], []) (new_connection 4)")
  have "recv_contract ex_os (cn_sock (new_connection 4)) fst" by (rule ex_os_contracts)
  from receive_exact_or_closed [OF this r] r show ?thesis
    using ex_os_contracts(2) [of 4] by (auto split: option.splits)
qed


lemma ex_os_send:
  assumes "data \<noteq> []" "length data < 2 ^ 31" "is_connected c"
  shows "send_bytes_locked ex_os (inp, out) c data = ((inp, out @ data), c, True)"
proof -
  have "tcp_send_loop ex_os (inp, out) (cn_sock c) data (int (length data)) 0 = ((inp, out @ data), int (length data))"
    using assms(1) by (subst tcp_send_loop.simps, simp add: ex_os_def, subst tcp_send_loop.simps, simp)
  then show ?thesis using assms by (simp add: send_bytes_locked_def tcp_send_all_def int_of_size_small)
qed

definition ex_key :: bytes where "ex_key = replicate 32 7"

definition ex_sender :: envelope_connection where
  "ex_sender = set_sl1_auth (new_connection 4) ex_bind Initiator_To_Responder 2 ex_key"

lemma ex_request_short: "length (request_body (canonical_request ex_request)) \<le> 16777216"
  unfolding ex_request_canonical
  by (simp add: ex_request_def ex_request_sorted_def default_options_def request_body_def fits_u16_def fits_u32_def
      write_request_base_def options_body_def write_bool_def write_extra_option_def length_write_string)

lemma ex_sender_sends:
  "\<exists>frame. send_request ex_os ([], []) ex_sender ex_request = (([], frame), ex_sender\<lparr>cn_next_auth_seq := 2\<rparr>, True)"
proof -
  obtain buf where buf: "encode_request ex_request = Some buf" using ex_request_encodes by blast
  note len = ex_request_short
  obtain h where h: "decode_header buf = Some h" "length buf = 32 + unat (hdr_payload_len h)"
    "hdr_payload_len h \<le> LINEP_V02_MAX_PAYLOAD_BYTES"
    using request_buffer [OF buf ex_request_fits(3) len] by auto
  have "decode_header (take 32 buf) = Some h" using h(1) by (simp add: decode_header_def split: if_splits)
  then obtain frame where frame: "sign_envelope_buffer buf ex_bind Initiator_To_Responder 1 2 ex_key = Some frame"
    using h(2) by (simp add: sign_envelope_buffer_def ex_key_def Let_def)
  from sign_then_verify [OF frame] obtain g ext where f: "frame = encode_header g @ encode_auth_extension ext @ drop 32 buf"
    "verify_envelope_buffer frame ex_bind Initiator_To_Responder ex_key = Inr ext" by auto
  have "auth_wf ext" using f(2) verify_accepts_iff by blast
  moreover have "unat (hdr_payload_len h) \<le> 16777216" using h(3) by (simp add: word_le_nat_alt)
  ultimately have "length frame = 56 + (length buf - 32) \<and> length buf < 2 ^ 30"
    using f(1) h(2) by (simp add: length_encode_auth auth_wf_def)
  then have "frame \<noteq> []" "length frame < 2 ^ 31" by auto
  moreover have "is_connected (ex_sender\<lparr>cn_next_auth_seq := 2\<rparr>)"
    by (simp add: ex_sender_def set_sl1_auth_def ex_key_def new_connection_def is_connected_def)
  moreover have "authenticate_outgoing ex_sender buf = (ex_sender\<lparr>cn_next_auth_seq := 2\<rparr>, Some frame)"
    using frame by (simp add: authenticate_outgoing_def ex_sender_def set_sl1_auth_def ex_key_def
        new_connection_def word_le_nat_alt)
  ultimately show ?thesis
    using ex_os_send [of frame "ex_sender\<lparr>cn_next_auth_seq := 2\<rparr>" "[]" "[]"] buf
    by (simp add: send_request_def send_encoded_def)
qed


end
