(* ===== verification/Security_Contract.thy ===== *)
theory Security_Contract
  imports Control_Datagram Envelopes
begin

text \<open>
  \<open>LiNeP-SL/src/v0_2/security_contract.cpp\<close>: the bindings that a LiNeP-SL tag covers on the control
  and the data plane, their validity, and the canonical byte string that is authenticated. The
  string determines the binding, and strings of the two planes never coincide.
\<close>

section \<open>Enumerations\<close>

text \<open>The enumerations of the contract have range checks of their own: they are bytes.\<close>

type_synonym security_plane = u8
abbreviation (input) plane_control :: security_plane where "plane_control \<equiv> 1"
abbreviation (input) plane_data :: security_plane where "plane_data \<equiv> 2"

type_synonym sl_direction = u8
abbreviation (input) dir_unknown :: sl_direction where "dir_unknown \<equiv> 0"
abbreviation (input) dir_initiator :: sl_direction where "dir_initiator \<equiv> 1"
abbreviation (input) dir_responder :: sl_direction where "dir_responder \<equiv> 2"

type_synonym security_level = u8
abbreviation (input) lv_unknown :: security_level where "lv_unknown \<equiv> 0"
abbreviation (input) sl0_baseline :: security_level where "sl0_baseline \<equiv> 1"
abbreviation (input) sl1_authenticated :: security_level where "sl1_authenticated \<equiv> 2"
abbreviation (input) sl2_identity :: security_level where "sl2_identity \<equiv> 3"
abbreviation (input) sl3_authorized :: security_level where "sl3_authorized \<equiv> 4"
abbreviation (input) sl4_governed :: security_level where "sl4_governed \<equiv> 5"

type_synonym security_action = u8
abbreviation (input) sa_unknown :: security_action where "sa_unknown \<equiv> 0"
abbreviation (input) sa_advertise :: security_action where "sa_advertise \<equiv> 1"
abbreviation (input) sa_report_liveness :: security_action where "sa_report_liveness \<equiv> 2"
abbreviation (input) sa_manage_lease :: security_action where "sa_manage_lease \<equiv> 3"
abbreviation (input) sa_execute :: security_action where "sa_execute \<equiv> 4"
abbreviation (input) sa_emit_output :: security_action where "sa_emit_output \<equiv> 5"
abbreviation (input) sa_cancel :: security_action where "sa_cancel \<equiv> 6"
abbreviation (input) sa_invoke_tool :: security_action where "sa_invoke_tool \<equiv> 7"
abbreviation (input) sa_read_metrics :: security_action where "sa_read_metrics \<equiv> 8"
abbreviation (input) sa_manage_runtime :: security_action where "sa_manage_runtime \<equiv> 9"
abbreviation (input) sa_administer :: security_action where "sa_administer \<equiv> 10"

type_synonym data_message_class = u8
abbreviation (input) dm_request :: data_message_class where "dm_request \<equiv> 1"
abbreviation (input) dm_event :: data_message_class where "dm_event \<equiv> 2"
abbreviation (input) dm_control :: data_message_class where "dm_control \<equiv> 3"

type_synonym digest_algorithm = u8
abbreviation (input) dg_sha256 :: digest_algorithm where "dg_sha256 \<equiv> 1"
abbreviation (input) dg_sha512 :: digest_algorithm where "dg_sha512 \<equiv> 2"

section \<open>Bindings\<close>

record security_session_identity =
  si_session_id :: u64
  si_security_epoch :: u64
  si_key_id :: u32
  si_trust_domain_id :: u32
  si_subject_id :: u64

record common_binding =
  cb_session :: security_session_identity
  cb_direction :: sl_direction
  cb_negotiated_level :: security_level
  cb_required_level :: security_level
  cb_action :: security_action
  cb_digest :: digest_algorithm
  cb_content_digest :: bytes

record control_plane_binding =
  cp_common :: common_binding
  cp_endpoint :: node_endpoint_identity
  cp_control_epoch :: u64
  cp_control_seq :: u64
  cp_lease_token :: u64
  cp_lease_bound :: bool

record data_plane_binding =
  dp_common :: common_binding
  dp_message_class :: data_message_class
  dp_stream :: stream_identity
  dp_event_seq :: u64
  dp_fragment_seq :: u32
  dp_has_fragment_seq :: bool

definition known_direction :: "sl_direction \<Rightarrow> bool" where
  "known_direction v \<longleftrightarrow> v = dir_initiator \<or> v = dir_responder"

definition known_level :: "security_level \<Rightarrow> bool" where
  "known_level v \<longleftrightarrow> v \<ge> sl0_baseline \<and> v \<le> sl4_governed"

definition known_action :: "security_action \<Rightarrow> bool" where
  "known_action v \<longleftrightarrow> v \<ge> sa_advertise \<and> v \<le> sa_administer"

definition valid_digest :: "common_binding \<Rightarrow> bool" where
  "valid_digest b =
     (if cb_digest b = dg_sha256 then length (cb_content_digest b) = 32
      else if cb_digest b = dg_sha512 then length (cb_content_digest b) = 64
      else False)"

definition session_identity_is_valid :: "security_session_identity \<Rightarrow> bool" where
  "session_identity_is_valid s \<longleftrightarrow> si_session_id s \<noteq> 0 \<and> si_security_epoch s \<noteq> 0 \<and> si_key_id s \<noteq> 0 \<and>
     si_trust_domain_id s \<noteq> 0 \<and> si_subject_id s \<noteq> 0"

definition common_is_valid :: "common_binding \<Rightarrow> bool" where
  "common_is_valid b \<longleftrightarrow> session_identity_is_valid (cb_session b) \<and> known_direction (cb_direction b) \<and>
     known_level (cb_negotiated_level b) \<and> known_level (cb_required_level b) \<and>
     cb_negotiated_level b \<ge> cb_required_level b \<and> known_action (cb_action b) \<and> valid_digest b"

definition control_binding_is_valid :: "control_plane_binding \<Rightarrow> bool" where
  "control_binding_is_valid b \<longleftrightarrow> common_is_valid (cp_common b) \<and> node_id (cp_endpoint b) \<noteq> 0 \<and>
     runtime_id (cp_endpoint b) \<noteq> 0 \<and> endpoint_id (cp_endpoint b) \<noteq> 0 \<and> cp_control_epoch b \<noteq> 0 \<and>
     cp_control_seq b \<noteq> 0 \<and> (\<not> cp_lease_bound b \<or> cp_lease_token b \<noteq> 0)"

definition data_binding_is_valid :: "data_plane_binding \<Rightarrow> bool" where
  "data_binding_is_valid b =
     (if \<not> common_is_valid (dp_common b) \<or>
         (dp_message_class b \<noteq> dm_request \<and> dp_message_class b \<noteq> dm_event \<and> dp_message_class b \<noteq> dm_control) \<or>
         \<not> stream_is_valid (dp_stream b) then False
      else if dp_message_class b = dm_event then dp_event_seq b \<noteq> 0
      else dp_event_seq b = 0)"

section \<open>The authenticator input\<close>

definition append_prefix :: "security_plane \<Rightarrow> bytes" where
  "append_prefix plane = bytes_of_string ''LNS2'' @ write_u8 0 @ write_u8 2 @ write_u8 plane"

definition append_common :: "common_binding \<Rightarrow> bytes" where
  "append_common b = write_u8 (cb_direction b) @ write_u8 (cb_negotiated_level b) @
     write_u8 (cb_required_level b) @ write_u8 (cb_action b) @ write_u8 (cb_digest b) @
     write_u64 (si_session_id (cb_session b)) @ write_u64 (si_security_epoch (cb_session b)) @
     write_u32 (si_key_id (cb_session b)) @ write_u32 (si_trust_domain_id (cb_session b)) @
     write_u64 (si_subject_id (cb_session b))"

definition append_digest :: "bytes \<Rightarrow> bytes" where
  "append_digest digest = write_u16 (of_nat (length digest)) @ digest"

definition encode_control_input :: "control_plane_binding \<Rightarrow> bytes option" where
  "encode_control_input b =
     (if \<not> control_binding_is_valid b then None
      else Some (append_prefix plane_control @ append_common (cp_common b) @
        write_u64 (node_id (cp_endpoint b)) @ write_u64 (runtime_id (cp_endpoint b)) @
        write_u32 (endpoint_id (cp_endpoint b)) @ write_u64 (cp_control_epoch b) @
        write_u64 (cp_control_seq b) @ write_u64 (cp_lease_token b) @
        write_u8 (if cp_lease_bound b then 1 else 0) @ append_digest (cb_content_digest (cp_common b))))"

definition encode_data_input :: "data_plane_binding \<Rightarrow> bytes option" where
  "encode_data_input b =
     (if \<not> data_binding_is_valid b then None
      else Some (append_prefix plane_data @ append_common (dp_common b) @
        write_u8 (dp_message_class b) @ write_u64 (request_id (dp_stream b)) @
        write_u64 (execution_id (dp_stream b)) @ write_u32 (output_id (dp_stream b)) @
        write_u64 (dp_event_seq b) @ write_u32 (dp_fragment_seq b) @
        write_u8 (if dp_has_fragment_seq b then 1 else 0) @ append_digest (cb_content_digest (dp_common b))))"

section \<open>The input determines the binding\<close>

lemmas fields_prefix_free = u8.enc_prefix_free [OF TrueI TrueI] u16.enc_prefix_free [OF TrueI TrueI]
  u32.enc_prefix_free [OF TrueI TrueI] u64.enc_prefix_free [OF TrueI TrueI]

lemma bool_byte_inj: "(if a then 1 else 0 :: u8) = (if b then 1 else 0) \<longleftrightarrow> a = b"
  by simp

lemma append_common_inj:
  assumes "append_common a @ x = append_common b @ y"
  shows "a\<lparr>cb_content_digest := []\<rparr> = b\<lparr>cb_content_digest := []\<rparr> \<and> x = y"
  using assms unfolding append_common_def
  by (cases a; cases b; cases "cb_session a"; cases "cb_session b") (auto dest!: fields_prefix_free)

lemma append_digest_inj: "append_digest a = append_digest b \<longleftrightarrow> a = b"
  by (auto simp: append_digest_def dest!: fields_prefix_free)

lemma common_eqI:
  "a\<lparr>cb_content_digest := []\<rparr> = b\<lparr>cb_content_digest := []\<rparr> \<Longrightarrow> cb_content_digest a = cb_content_digest b \<Longrightarrow>
     (a :: common_binding) = b"
  by (cases a; cases b) simp

lemma control_input_inj:
  assumes "encode_control_input a = Some x" and "encode_control_input b = Some x"
  shows "a = b"
  using assms unfolding encode_control_input_def append_prefix_def
  by (cases a; cases b; cases "cp_endpoint a"; cases "cp_endpoint b")
    (auto simp: append_digest_inj bool_byte_inj dest!: append_common_inj fields_prefix_free intro: common_eqI split: if_splits)

lemma data_input_inj:
  assumes "encode_data_input a = Some x" and "encode_data_input b = Some x"
  shows "a = b"
  using assms unfolding encode_data_input_def append_prefix_def
  by (cases a; cases b; cases "dp_stream a"; cases "dp_stream b")
    (auto simp: append_digest_inj bool_byte_inj dest!: append_common_inj fields_prefix_free intro: common_eqI split: if_splits)

lemma planes_separated:
  assumes "encode_control_input a = Some x" and "encode_data_input b = Some y"
  shows "x \<noteq> y"
  using assms
  by (auto simp: encode_control_input_def encode_data_input_def append_prefix_def bytes_of_string_def
      dest!: fields_prefix_free split: if_splits)

end
