(* ===== verification/Negotiation.thy ===== *)
theory Negotiation
  imports Security_Contract
begin

text \<open>
  \<open>LiNeP-SL/src/v0_2/negotiation.cpp\<close>: the offers of the two sides, the level and suite they agree on
  under a policy, and the transcript of the negotiation that both sides authenticate.
\<close>

section \<open>Offers, policies and results\<close>

type_synonym crypto_suite = u16
abbreviation (input) cs_none :: crypto_suite where "cs_none \<equiv> 0"
abbreviation (input) cs_hmac_sha256_128 :: crypto_suite where "cs_hmac_sha256_128 \<equiv> 1"
abbreviation (input) cs_aes256_gcm :: crypto_suite where "cs_aes256_gcm \<equiv> 2"
abbreviation (input) cs_chacha20_poly1305 :: crypto_suite where "cs_chacha20_poly1305 \<equiv> 3"

type_synonym negotiation_status = u8
abbreviation (input) ns_not_negotiated :: negotiation_status where "ns_not_negotiated \<equiv> 0"
abbreviation (input) ns_accepted :: negotiation_status where "ns_accepted \<equiv> 1"
abbreviation (input) ns_invalid_offer :: negotiation_status where "ns_invalid_offer \<equiv> 2"
abbreviation (input) ns_invalid_policy :: negotiation_status where "ns_invalid_policy \<equiv> 3"
abbreviation (input) ns_version_mismatch :: negotiation_status where "ns_version_mismatch \<equiv> 4"
abbreviation (input) ns_no_common_level :: negotiation_status where "ns_no_common_level \<equiv> 5"
abbreviation (input) ns_no_common_suite :: negotiation_status where "ns_no_common_suite \<equiv> 6"
abbreviation (input) ns_downgrade_rejected :: negotiation_status where "ns_downgrade_rejected \<equiv> 7"

abbreviation (input) contract_version_major :: u8 where "contract_version_major \<equiv> 0"
abbreviation (input) contract_version_minor :: u8 where "contract_version_minor \<equiv> 2"
abbreviation (input) max_negotiated_suites :: nat where "max_negotiated_suites \<equiv> 16"

text \<open>The nonce is an array of 32 bytes.\<close>

record negotiation_offer =
  no_version_major :: u8
  no_version_minor :: u8
  no_minimum_level :: security_level
  no_maximum_level :: security_level
  no_supported_suites :: "crypto_suite list"
  no_endpoint_id :: node_endpoint_identity
  no_control_epoch :: u64
  no_lease_token :: u64
  no_nonce :: bytes

record negotiation_policy =
  np_required_level :: security_level
  np_preferred_suites :: "crypto_suite list"

record negotiation_result =
  nr_status :: negotiation_status
  nr_required_level :: security_level
  nr_negotiated_level :: security_level
  nr_suite :: crypto_suite

definition result_accepted :: "negotiation_result \<Rightarrow> bool" where
  "result_accepted r \<longleftrightarrow> nr_status r = ns_accepted"

definition new_result :: negotiation_result where
  "new_result = \<lparr>nr_status = ns_not_negotiated, nr_required_level = lv_unknown,
     nr_negotiated_level = lv_unknown, nr_suite = cs_none\<rparr>"

fun contains_duplicate :: "'a list \<Rightarrow> bool" where
  "contains_duplicate [] = False"
| "contains_duplicate (x # xs) = (x \<in> set xs \<or> contains_duplicate xs)"

definition contains_suite :: "crypto_suite list \<Rightarrow> crypto_suite \<Rightarrow> bool" where
  "contains_suite suites suite \<longleftrightarrow> suite \<in> set suites"

definition known_suite :: "crypto_suite \<Rightarrow> bool" where
  "known_suite s \<longleftrightarrow> s = cs_hmac_sha256_128 \<or> s = cs_aes256_gcm \<or> s = cs_chacha20_poly1305"

definition suite_supports_level :: "crypto_suite \<Rightarrow> security_level \<Rightarrow> bool" where
  "suite_supports_level s level =
     (if s = cs_hmac_sha256_128 then level = sl1_authenticated
      else (s = cs_aes256_gcm \<or> s = cs_chacha20_poly1305) \<and> level \<ge> sl2_identity \<and> level \<le> sl4_governed)"

definition nonce_is_nonzero :: "bytes \<Rightarrow> bool" where
  "nonce_is_nonzero n = list_ex (\<lambda>b. b \<noteq> 0) n"

definition offer_is_valid :: "negotiation_offer \<Rightarrow> bool" where
  "offer_is_valid f =
     (if \<not> known_level (no_minimum_level f) \<or> \<not> known_level (no_maximum_level f) \<or>
         no_minimum_level f > no_maximum_level f \<or> no_supported_suites f = [] \<or>
         length (no_supported_suites f) > max_negotiated_suites \<or>
         contains_duplicate (no_supported_suites f) \<or> \<not> list_all known_suite (no_supported_suites f)
      then False
      else node_id (no_endpoint_id f) \<noteq> 0 \<and> runtime_id (no_endpoint_id f) \<noteq> 0 \<and>
           endpoint_id (no_endpoint_id f) \<noteq> 0 \<and> no_control_epoch f \<noteq> 0 \<and> no_lease_token f \<noteq> 0 \<and>
           nonce_is_nonzero (no_nonce f))"

definition policy_is_valid :: "negotiation_policy \<Rightarrow> bool" where
  "policy_is_valid p \<longleftrightarrow> known_level (np_required_level p) \<and> np_preferred_suites p \<noteq> [] \<and>
     length (np_preferred_suites p) \<le> max_negotiated_suites \<and>
     \<not> contains_duplicate (np_preferred_suites p) \<and> list_all known_suite (np_preferred_suites p)"

definition offer_version_ok :: "negotiation_offer \<Rightarrow> bool" where
  "offer_version_ok f \<longleftrightarrow> no_version_major f = contract_version_major \<and> no_version_minor f = contract_version_minor"

section \<open>Negotiation\<close>

definition suite_candidate :: "negotiation_offer \<Rightarrow> negotiation_offer \<Rightarrow> security_level \<Rightarrow> crypto_suite \<Rightarrow> bool" where
  "suite_candidate i r level s \<longleftrightarrow> contains_suite (no_supported_suites i) s \<and>
     contains_suite (no_supported_suites r) s \<and> suite_supports_level s level"

definition negotiate :: "negotiation_offer \<Rightarrow> negotiation_offer \<Rightarrow> negotiation_policy \<Rightarrow> negotiation_result" where
  "negotiate initiator responder policy =
     (if \<not> offer_is_valid initiator \<or> \<not> offer_is_valid responder
      then new_result\<lparr>nr_status := ns_invalid_offer\<rparr>
      else if \<not> policy_is_valid policy then new_result\<lparr>nr_status := ns_invalid_policy\<rparr>
      else if \<not> offer_version_ok initiator \<or> \<not> offer_version_ok responder
      then new_result\<lparr>nr_status := ns_version_mismatch\<rparr>
      else
        let common_maximum = min (no_maximum_level initiator) (no_maximum_level responder);
            peer_minimum = max (no_minimum_level initiator) (no_minimum_level responder)
        in if common_maximum < peer_minimum then new_result\<lparr>nr_status := ns_no_common_level\<rparr>
           else if common_maximum < np_required_level policy
           then new_result\<lparr>nr_status := ns_downgrade_rejected\<rparr>
           else
             let required = max peer_minimum (np_required_level policy)
             in case find (suite_candidate initiator responder common_maximum) (np_preferred_suites policy) of
                  Some s \<Rightarrow> new_result\<lparr>nr_status := ns_accepted, nr_required_level := required,
                              nr_negotiated_level := common_maximum, nr_suite := s\<rparr>
                | None \<Rightarrow> new_result\<lparr>nr_status := ns_no_common_suite\<rparr>)"

section \<open>The transcript\<close>

definition append_offer :: "u8 \<Rightarrow> negotiation_offer \<Rightarrow> bytes" where
  "append_offer role f = write_u8 role @ write_u8 (no_version_major f) @ write_u8 (no_version_minor f) @
     write_u8 (no_minimum_level f) @ write_u8 (no_maximum_level f) @
     write_u64 (node_id (no_endpoint_id f)) @ write_u64 (runtime_id (no_endpoint_id f)) @
     write_u32 (endpoint_id (no_endpoint_id f)) @ write_u64 (no_control_epoch f) @
     write_u64 (no_lease_token f) @ write_u8 (of_nat (length (no_supported_suites f))) @
     concat (map write_u16 (no_supported_suites f)) @ no_nonce f"

definition encode_negotiation_transcript ::
  "negotiation_offer \<Rightarrow> negotiation_offer \<Rightarrow> negotiation_result \<Rightarrow> bytes option" where
  "encode_negotiation_transcript i r result =
     (if \<not> offer_is_valid i \<or> \<not> offer_is_valid r \<or> \<not> offer_version_ok i \<or> \<not> offer_version_ok r \<or>
         \<not> result_accepted result \<or> \<not> known_level (nr_required_level result) \<or>
         \<not> known_level (nr_negotiated_level result) \<or>
         nr_negotiated_level result < nr_required_level result \<or>
         nr_negotiated_level result \<noteq> min (no_maximum_level i) (no_maximum_level r) \<or>
         nr_required_level result < max (no_minimum_level i) (no_minimum_level r) \<or>
         \<not> known_suite (nr_suite result) \<or>
         \<not> suite_supports_level (nr_suite result) (nr_negotiated_level result) \<or>
         \<not> contains_suite (no_supported_suites i) (nr_suite result) \<or>
         \<not> contains_suite (no_supported_suites r) (nr_suite result)
      then None
      else Some (bytes_of_string ''LNS2NEG'' @ append_offer 1 i @ append_offer 2 r @
        write_u8 (nr_status result) @ write_u8 (nr_required_level result) @
        write_u8 (nr_negotiated_level result) @ write_u16 (nr_suite result)))"

section \<open>Properties\<close>

lemma contains_duplicate_iff: "contains_duplicate xs \<longleftrightarrow> \<not> distinct xs"
  by (induction xs) auto

lemma offer_valid_suites: "offer_is_valid f \<Longrightarrow> length (no_supported_suites f) \<le> 16"
  by (auto simp: offer_is_valid_def split: if_splits)

lemma max_le_not_less: "max a b \<le> l \<longleftrightarrow> \<not> l < a \<and> \<not> l < (b :: 'a :: linorder)"
  by (simp add: not_less)

lemma find_split:
  "find P xs = Some x \<Longrightarrow> \<exists>ys zs. xs = ys @ x # zs \<and> P x \<and> (\<forall>y\<in>set ys. \<not> P y)"
proof (induction xs)
  case (Cons a xs)
  show ?case
  proof (cases "P a")
    case True
    then show ?thesis using Cons.prems by (intro exI [of _ "[]"] exI [of _ xs]) simp
  next
    case False
    with Cons obtain ys zs where "xs = ys @ x # zs \<and> P x \<and> (\<forall>y\<in>set ys. \<not> P y)" by auto
    with False show ?thesis by (intro exI [of _ "a # ys"] exI [of _ zs]) simp
  qed
qed simp

text \<open>
  What a negotiation accepts. A negotiation succeeds exactly when both offers and the policy
  are valid, both sides speak the contract's version, the best level both support is at least the
  minimum of either and the policy's, and the policy prefers a suite both support that reaches that
  level; then the result is that level, the stricter of the requirements and the first such suite
  in the policy's order. Otherwise the result grants no level and no suite.
\<close>

theorem negotiate_exact:
  "let level = min (no_maximum_level i) (no_maximum_level r);
       floor = max (max (no_minimum_level i) (no_minimum_level r)) (np_required_level p);
       res = negotiate i r p
   in if offer_is_valid i \<and> offer_is_valid r \<and> policy_is_valid p \<and> offer_version_ok i \<and> offer_version_ok r \<and>
         floor \<le> level \<and> (\<exists>s\<in>set (np_preferred_suites p). suite_candidate i r level s)
      then \<exists>s ys zs. res = \<lparr>nr_status = ns_accepted, nr_required_level = floor,
               nr_negotiated_level = level, nr_suite = s\<rparr> \<and>
             np_preferred_suites p = ys @ s # zs \<and> suite_candidate i r level s \<and>
             (\<forall>y\<in>set ys. \<not> suite_candidate i r level y)
      else \<not> result_accepted res \<and> nr_negotiated_level res = lv_unknown \<and> nr_suite res = cs_none"
proof -
  let ?level = "min (no_maximum_level i) (no_maximum_level r)"
  let ?pm = "max (no_minimum_level i) (no_minimum_level r)"
  let ?f = "find (suite_candidate i r ?level) (np_preferred_suites p)"
  have floor: "max ?pm (np_required_level p) \<le> ?level \<longleftrightarrow> \<not> ?level < ?pm \<and> \<not> ?level < np_required_level p"
    by (rule max_le_not_less)
  have none: "?f = None \<longleftrightarrow> \<not> (\<exists>s\<in>set (np_preferred_suites p). suite_candidate i r ?level s)"
    by (auto simp: find_None_iff)
  show ?thesis
  proof (cases "offer_is_valid i \<and> offer_is_valid r \<and> policy_is_valid p \<and> offer_version_ok i \<and>
      offer_version_ok r \<and> max ?pm (np_required_level p) \<le> ?level")
    case False
    then show ?thesis
      unfolding Let_def floor negotiate_def by (auto simp: new_result_def result_accepted_def)
  next
    case True
    then have res: "negotiate i r p = (case ?f of
        Some s \<Rightarrow> \<lparr>nr_status = ns_accepted, nr_required_level = max ?pm (np_required_level p),
                 nr_negotiated_level = ?level, nr_suite = s\<rparr>
      | None \<Rightarrow> new_result\<lparr>nr_status := ns_no_common_suite\<rparr>)"
      unfolding floor by (simp add: negotiate_def Let_def new_result_def cong: option.case_cong)
    show ?thesis
    proof (cases ?f)
      case None
      then show ?thesis unfolding Let_def res using none True by (simp add: new_result_def result_accepted_def)
    next
      case (Some s)
      then have "\<exists>s\<in>set (np_preferred_suites p). suite_candidate i r ?level s" using none by simp
      moreover obtain ys zs where "np_preferred_suites p = ys @ s # zs" "suite_candidate i r ?level s"
        "\<forall>y\<in>set ys. \<not> suite_candidate i r ?level y" using find_split [OF Some] by blast
      ultimately show ?thesis unfolding Let_def res Some using True by auto
    qed
  qed
qed

text \<open>Both roles compute the same result.\<close>

lemma negotiate_symmetric: "negotiate i r p = negotiate r i p"
proof -
  have "suite_candidate i r = suite_candidate r i" by (intro ext) (auto simp: suite_candidate_def)
  then show ?thesis by (simp add: negotiate_def Let_def min.commute max.commute disj_commute conj_commute)
qed

lemma known_level_min: "known_level a \<Longrightarrow> known_level b \<Longrightarrow> known_level (min a b)"
  by (auto simp: known_level_def min_def)

lemma known_level_max: "known_level a \<Longrightarrow> known_level b \<Longrightarrow> known_level (max a b)"
  by (auto simp: known_level_def max_def)

lemma offer_valid_levels:
  "offer_is_valid f \<Longrightarrow> known_level (no_minimum_level f) \<and> known_level (no_maximum_level f)"
  by (auto simp: offer_is_valid_def split: if_splits)

lemma accepted_negotiation:
  assumes "result_accepted (negotiate i r p)"
  obtains s where "offer_is_valid i" "offer_is_valid r" "policy_is_valid p" "offer_version_ok i" "offer_version_ok r"
    "negotiate i r p = \<lparr>nr_status = ns_accepted,
       nr_required_level = max (max (no_minimum_level i) (no_minimum_level r)) (np_required_level p),
       nr_negotiated_level = min (no_maximum_level i) (no_maximum_level r), nr_suite = s\<rparr>"
    "max (max (no_minimum_level i) (no_minimum_level r)) (np_required_level p)
       \<le> min (no_maximum_level i) (no_maximum_level r)"
    "suite_candidate i r (min (no_maximum_level i) (no_maximum_level r)) s"
proof -
  have g: "offer_is_valid i" "offer_is_valid r" "policy_is_valid p" "offer_version_ok i" "offer_version_ok r"
    using assms by (auto simp: negotiate_def new_result_def result_accepted_def Let_def split: if_splits)
  let ?level = "min (no_maximum_level i) (no_maximum_level r)"
  let ?pm = "max (no_minimum_level i) (no_minimum_level r)"
  have le: "\<not> ?level < ?pm" "\<not> ?level < np_required_level p"
  proof -
    define l m where "l = ?level" and "m = ?pm"
    have "negotiate i r p = (if l < m then new_result\<lparr>nr_status := ns_no_common_level\<rparr>
        else if l < np_required_level p then new_result\<lparr>nr_status := ns_downgrade_rejected\<rparr>
        else negotiate i r p)"
      using g by (simp add: negotiate_def Let_def l_def m_def)
    with assms have "\<not> l < m" "\<not> l < np_required_level p"
      by (auto simp: new_result_def result_accepted_def split: if_splits)
    then show "\<not> ?level < ?pm" "\<not> ?level < np_required_level p" by (simp_all add: l_def m_def)
  qed
  obtain s where s: "find (suite_candidate i r ?level) (np_preferred_suites p) = Some s"
    using assms g le by (cases "find (suite_candidate i r ?level) (np_preferred_suites p)")
      (simp_all add: negotiate_def Let_def new_result_def result_accepted_def)
  show ?thesis
  proof (rule that [OF g])
    show "negotiate i r p = \<lparr>nr_status = ns_accepted, nr_required_level = max ?pm (np_required_level p),
       nr_negotiated_level = ?level, nr_suite = s\<rparr>"
      using g le s by (simp add: negotiate_def Let_def new_result_def)
    show "max ?pm (np_required_level p) \<le> ?level" using le by (simp only: max_le_not_less) simp
    show "suite_candidate i r ?level s" using find_split [OF s] by blast
  qed
qed

lemma accepted_negotiation_transcript:
  assumes "result_accepted (negotiate i r p)"
  shows "encode_negotiation_transcript i r (negotiate i r p) \<noteq> None"
proof -
  from assms obtain s where n: "offer_is_valid i" "offer_is_valid r" "policy_is_valid p" "offer_version_ok i"
    "offer_version_ok r"
    "negotiate i r p = \<lparr>nr_status = ns_accepted,
       nr_required_level = max (max (no_minimum_level i) (no_minimum_level r)) (np_required_level p),
       nr_negotiated_level = min (no_maximum_level i) (no_maximum_level r), nr_suite = s\<rparr>"
    "max (max (no_minimum_level i) (no_minimum_level r)) (np_required_level p)
       \<le> min (no_maximum_level i) (no_maximum_level r)"
    "suite_candidate i r (min (no_maximum_level i) (no_maximum_level r)) s"
    by (rule accepted_negotiation)
  have s: "s \<in> set (no_supported_suites i)" "s \<in> set (no_supported_suites r)"
    using n(8) by (simp_all add: suite_candidate_def contains_suite_def)
  then have "known_suite s" using n(1) by (auto simp: offer_is_valid_def list_all_iff split: if_splits)
  moreover have "known_level (max (max (no_minimum_level i) (no_minimum_level r)) (np_required_level p))"
    using offer_valid_levels [OF n(1)] offer_valid_levels [OF n(2)] n(3)
    by (intro known_level_max) (simp_all add: policy_is_valid_def)
  moreover have "known_level (min (no_maximum_level i) (no_maximum_level r))"
    using offer_valid_levels [OF n(1)] offer_valid_levels [OF n(2)] by (intro known_level_min) simp_all
  moreover have "suite_supports_level s (min (no_maximum_level i) (no_maximum_level r))"
    using n(8) by (simp add: suite_candidate_def)
  ultimately show ?thesis
    using n(1-5) n(7) s unfolding n(6) encode_negotiation_transcript_def
    by (simp add: result_accepted_def contains_suite_def not_less)
qed

lemma suites_prefix_free:
  "length xs = length ys \<Longrightarrow> concat (map write_u16 xs) @ a = concat (map write_u16 ys) @ b \<Longrightarrow> xs = ys \<and> a = b"
  by (induction xs ys rule: list_induct2) (auto dest!: fields_prefix_free)

lemma append_offer_inj:
  assumes "append_offer k f @ a = append_offer l g @ b"
    and "length (no_supported_suites f) \<le> 16" "length (no_supported_suites g) \<le> 16"
    and "length (no_nonce f) = 32" "length (no_nonce g) = 32"
  shows "f = g \<and> a = b"
proof -
  have len: "length (no_supported_suites f) = length (no_supported_suites g)"
    if "(of_nat (length (no_supported_suites f)) :: u8) = of_nat (length (no_supported_suites g))"
  proof -
    have "unat (of_nat (length (no_supported_suites h)) :: u8) = length (no_supported_suites h)"
      if "length (no_supported_suites h) \<le> 16" for h
      using that by (simp add: unat_of_nat)
    then show ?thesis using that assms(2,3) by metis
  qed
  from assms(1) have "(of_nat (length (no_supported_suites f)) :: u8) = of_nat (length (no_supported_suites g))"
    unfolding append_offer_def by (auto dest!: fields_prefix_free)
  note l = len [OF this]
  have nn: "x @ a = y @ b \<longleftrightarrow> x = y \<and> a = b" if "length x = length y" for x y a b :: bytes
    using that by simp
  from assms(1) show ?thesis
    unfolding append_offer_def
    by (cases f; cases g; cases "no_endpoint_id f"; cases "no_endpoint_id g")
      (use l assms(4,5) nn in \<open>auto dest!: fields_prefix_free suites_prefix_free [rotated]\<close>)
qed

text \<open>
  The transcript binds the negotiation. Two negotiations with the same transcript have the same
  offers of both sides, nonces, leases and epochs included, and the same result: no field of an
  offer can be changed, and no lower level or other suite put in, without changing the transcript
  both sides authenticate.
\<close>

theorem transcript_binds_negotiation:
  assumes "encode_negotiation_transcript i r res = Some t" and "encode_negotiation_transcript i' r' res' = Some t"
    and "length (no_nonce i) = 32" and "length (no_nonce r) = 32"
    and "length (no_nonce i') = 32" and "length (no_nonce r') = 32"
  shows "i = i' \<and> r = r' \<and> res = res'"
proof -
  let ?tail = "\<lambda>x. write_u8 (nr_status x) @ write_u8 (nr_required_level x) @
        write_u8 (nr_negotiated_level x) @ write_u16 (nr_suite x)"
  from assms(1,2) have v: "offer_is_valid i" "offer_is_valid r" "offer_is_valid i'" "offer_is_valid r'"
    and e: "append_offer 1 i @ append_offer 2 r @ ?tail res = append_offer 1 i' @ append_offer 2 r' @ ?tail res'"
    by (auto simp: encode_negotiation_transcript_def split: if_splits)
  note s = v [THEN offer_valid_suites]
  from append_offer_inj [OF e s(1) s(3) assms(3) assms(5)]
  have 1: "i = i'" "append_offer 2 r @ ?tail res = append_offer 2 r' @ ?tail res'" by simp_all
  from append_offer_inj [OF 1(2) s(2) s(4) assms(4) assms(6)]
  have "r = r'" "?tail res = ?tail res'" by simp_all
  then show ?thesis using 1(1)
    by (cases res; cases res') (auto dest!: fields_prefix_free)
qed

end
