(* ===== verification/Security_Session.thy ===== *)
theory Security_Session
  imports Negotiation
begin

text \<open>
  \<open>LiNeP-SL/src/v0_2/session.cpp\<close>: the registry of security sessions. A session is established
  from a negotiation both sides can repeat and two authenticated peers; it is rotated to later
  epochs and ends by revocation, closing or expiry. The identity verifier is an interface without
  an implementation in the repository and is not used by the registry.
\<close>

section \<open>Peers and sessions\<close>

datatype session_state = Sess_Pending | Sess_Active | Sess_Expired | Sess_Revoked | Sess_Closed

record authenticated_peer =
  ap_endpoint :: node_endpoint_identity
  ap_trust_domain_id :: u32
  ap_subject_id :: u64
  ap_credential_revision :: u64
  ap_authenticated_at_us :: u64
  ap_credential_expires_at_us :: u64
  ap_revoked :: bool

definition peer_is_valid_at :: "authenticated_peer \<Rightarrow> u64 \<Rightarrow> bool" where
  "peer_is_valid_at p now_us \<longleftrightarrow> node_id (ap_endpoint p) \<noteq> 0 \<and> runtime_id (ap_endpoint p) \<noteq> 0 \<and>
     endpoint_id (ap_endpoint p) \<noteq> 0 \<and> ap_trust_domain_id p \<noteq> 0 \<and> ap_subject_id p \<noteq> 0 \<and>
     ap_credential_revision p \<noteq> 0 \<and> ap_authenticated_at_us p \<noteq> 0 \<and>
     ap_authenticated_at_us p \<le> now_us \<and> ap_credential_expires_at_us p > now_us \<and> \<not> ap_revoked p"

record session_record =
  sr_session_id :: u64
  sr_security_epoch :: u64
  sr_key_id :: u32
  sr_negotiated_level :: security_level
  sr_suite :: crypto_suite
  sr_initiator :: authenticated_peer
  sr_responder :: authenticated_peer
  sr_initiator_control_epoch :: u64
  sr_initiator_lease_token :: u64
  sr_responder_control_epoch :: u64
  sr_responder_lease_token :: u64
  sr_negotiation_transcript :: bytes
  sr_established_at_us :: u64
  sr_key_activated_at_us :: u64
  sr_expires_at_us :: u64
  sr_state :: session_state

definition session_is_active_at :: "session_record \<Rightarrow> u64 \<Rightarrow> bool" where
  "session_is_active_at s now_us \<longleftrightarrow> sr_state s = Sess_Active \<and> sr_established_at_us s \<le> now_us \<and>
     now_us < sr_expires_at_us s \<and> peer_is_valid_at (sr_initiator s) now_us \<and>
     peer_is_valid_at (sr_responder s) now_us"

section \<open>The registry\<close>

type_synonym session_registry = "(u64, session_record) umap"

definition establish :: "session_registry \<Rightarrow> negotiation_offer \<Rightarrow> negotiation_offer \<Rightarrow> negotiation_policy
    \<Rightarrow> negotiation_result \<Rightarrow> authenticated_peer \<Rightarrow> authenticated_peer \<Rightarrow> u64 \<Rightarrow> u64 \<Rightarrow> u32 \<Rightarrow> u64 \<Rightarrow> u64
    \<Rightarrow> session_registry \<times> bool" where
  "establish m ioffer roffer policy negotiation initiator responder session_id security_epoch key_id now_us expires_at_us =
     (let expected = negotiate ioffer roffer policy in
      if \<not> result_accepted negotiation \<or> \<not> result_accepted expected \<or>
         nr_status negotiation \<noteq> nr_status expected \<or>
         nr_required_level negotiation \<noteq> nr_required_level expected \<or>
         nr_negotiated_level negotiation \<noteq> nr_negotiated_level expected \<or>
         nr_suite negotiation \<noteq> nr_suite expected \<or> session_id = 0 \<or> security_epoch = 0 \<or>
         key_id = 0 \<or> now_us = 0 \<or> expires_at_us \<le> now_us \<or>
         lookup m session_id \<noteq> None \<or> \<not> offer_is_valid ioffer \<or> \<not> offer_is_valid roffer \<or>
         ap_endpoint initiator \<noteq> no_endpoint_id ioffer \<or> ap_endpoint responder \<noteq> no_endpoint_id roffer \<or>
         \<not> peer_is_valid_at initiator now_us \<or> \<not> peer_is_valid_at responder now_us \<or>
         ap_credential_expires_at_us initiator < expires_at_us \<or>
         ap_credential_expires_at_us responder < expires_at_us
      then (m, False)
      else case encode_negotiation_transcript ioffer roffer negotiation of
        None \<Rightarrow> (m, False)
      | Some transcript \<Rightarrow>
          (AList.update session_id
            \<lparr>sr_session_id = session_id, sr_security_epoch = security_epoch, sr_key_id = key_id,
             sr_negotiated_level = nr_negotiated_level negotiation, sr_suite = nr_suite negotiation,
             sr_initiator = initiator, sr_responder = responder,
             sr_initiator_control_epoch = no_control_epoch ioffer,
             sr_initiator_lease_token = no_lease_token ioffer,
             sr_responder_control_epoch = no_control_epoch roffer,
             sr_responder_lease_token = no_lease_token roffer,
             sr_negotiation_transcript = transcript, sr_established_at_us = now_us,
             sr_key_activated_at_us = now_us, sr_expires_at_us = expires_at_us,
             sr_state = Sess_Active\<rparr> m, True))"

definition rotate_session :: "session_registry \<Rightarrow> u64 \<Rightarrow> u64 \<Rightarrow> u32 \<Rightarrow> u64 \<Rightarrow> u64 \<Rightarrow> session_registry \<times> bool" where
  "rotate_session m session_id new_security_epoch new_key_id now_us new_expires_at_us =
     (case lookup m session_id of None \<Rightarrow> (m, False)
      | Some s \<Rightarrow>
          if \<not> session_is_active_at s now_us \<or> new_security_epoch \<le> sr_security_epoch s \<or>
             new_key_id = 0 \<or> new_key_id = sr_key_id s \<or> new_expires_at_us \<le> now_us \<or>
             new_expires_at_us > ap_credential_expires_at_us (sr_initiator s) \<or>
             new_expires_at_us > ap_credential_expires_at_us (sr_responder s)
          then (m, False)
          else (AList.update session_id (s\<lparr>sr_security_epoch := new_security_epoch, sr_key_id := new_key_id,
                  sr_key_activated_at_us := now_us, sr_expires_at_us := new_expires_at_us\<rparr>) m, True))"

definition revoke_session :: "session_registry \<Rightarrow> u64 \<Rightarrow> session_registry \<times> bool" where
  "revoke_session m session_id =
     (case lookup m session_id of None \<Rightarrow> (m, False)
      | Some s \<Rightarrow> if sr_state s \<noteq> Sess_Active then (m, False)
          else (AList.update session_id (s\<lparr>sr_state := Sess_Revoked\<rparr>) m, True))"

definition close_session :: "session_registry \<Rightarrow> u64 \<Rightarrow> session_registry \<times> bool" where
  "close_session m session_id =
     (case lookup m session_id of None \<Rightarrow> (m, False)
      | Some s \<Rightarrow> if sr_state s = Sess_Closed then (m, False)
          else (AList.update session_id (s\<lparr>sr_state := Sess_Closed\<rparr>) m, True))"

definition expire_record :: "u64 \<Rightarrow> session_record \<Rightarrow> session_record" where
  "expire_record now_us s =
     (if sr_state s = Sess_Active \<and> \<not> session_is_active_at s now_us then s\<lparr>sr_state := Sess_Expired\<rparr> else s)"

definition expire_sessions :: "session_registry \<Rightarrow> u64 \<Rightarrow> session_registry \<times> nat" where
  "expire_sessions m now_us =
     (map_vals (\<lambda>_. expire_record now_us) m,
      length (filter (\<lambda>(k, s). sr_state s = Sess_Active \<and> \<not> session_is_active_at s now_us) m))"

definition get_session :: "session_registry \<Rightarrow> u64 \<Rightarrow> session_record option" where
  "get_session m session_id = lookup m session_id"

definition make_sender_identity ::
  "session_registry \<Rightarrow> u64 \<Rightarrow> sl_direction \<Rightarrow> u64 \<Rightarrow> security_session_identity option" where
  "make_sender_identity m session_id direction now_us =
     (case lookup m session_id of None \<Rightarrow> None
      | Some s \<Rightarrow>
          if \<not> session_is_active_at s now_us \<or> (direction \<noteq> dir_initiator \<and> direction \<noteq> dir_responder)
          then None
          else let sender = (if direction = dir_initiator then sr_initiator s else sr_responder s)
            in Some \<lparr>si_session_id = sr_session_id s, si_security_epoch = sr_security_epoch s,
                 si_key_id = sr_key_id s, si_trust_domain_id = ap_trust_domain_id sender,
                 si_subject_id = ap_subject_id sender\<rparr>)"

section \<open>Steps of a registry\<close>

inductive registry_step :: "session_registry \<Rightarrow> session_registry \<Rightarrow> bool" where
  establish: "registry_step m (fst (establish m io ro pol neg ini resp sid epoch kid now exp))"
| rotate: "registry_step m (fst (rotate_session m sid epoch kid now exp))"
| revoke: "registry_step m (fst (revoke_session m sid))"
| close: "registry_step m (fst (close_session m sid))"
| expire: "registry_step m (fst (expire_sessions m now))"

inductive registry_reachable :: "session_registry \<Rightarrow> bool" where
  empty: "registry_reachable []"
| step: "registry_reachable m \<Longrightarrow> registry_step m m' \<Longrightarrow> registry_reachable m'"

text \<open>
  What never changes of a session, and what only moves one way: its identity, parties, level, suite
  and transcript are fixed, its epoch grows, and once it is not active it stays so.
\<close>

definition session_evolves :: "session_record \<Rightarrow> session_record \<Rightarrow> bool" where
  "session_evolves s t \<longleftrightarrow> sr_session_id t = sr_session_id s \<and> sr_initiator t = sr_initiator s \<and>
     sr_responder t = sr_responder s \<and> sr_negotiated_level t = sr_negotiated_level s \<and>
     sr_suite t = sr_suite s \<and> sr_negotiation_transcript t = sr_negotiation_transcript s \<and>
     sr_security_epoch s \<le> sr_security_epoch t \<and>
     (sr_security_epoch s = sr_security_epoch t \<longrightarrow> sr_key_id s = sr_key_id t) \<and>
     (sr_state s \<noteq> Sess_Active \<longrightarrow> sr_state t \<noteq> Sess_Active \<and> sr_security_epoch t = sr_security_epoch s)"

lemma session_evolves_refl [simp]: "session_evolves s s"
  by (simp add: session_evolves_def)

lemma session_evolves_trans: "session_evolves s t \<Longrightarrow> session_evolves t u \<Longrightarrow> session_evolves s u"
  unfolding session_evolves_def by (metis order.antisym order.trans)

lemma establish_cases:
  "fst (establish m io ro pol neg ini resp sid epoch kid now exp) = m \<or>
   (\<exists>t. result_accepted (negotiate io ro pol) \<and> neg = negotiate io ro pol \<and>
      encode_negotiation_transcript io ro neg = Some t \<and> lookup m sid = None \<and> sid \<noteq> 0 \<and> epoch \<noteq> 0 \<and> kid \<noteq> 0 \<and>
      ap_endpoint ini = no_endpoint_id io \<and> ap_endpoint resp = no_endpoint_id ro \<and>
      peer_is_valid_at ini now \<and> peer_is_valid_at resp now \<and> now < exp \<and>
      exp \<le> ap_credential_expires_at_us ini \<and> exp \<le> ap_credential_expires_at_us resp \<and>
      fst (establish m io ro pol neg ini resp sid epoch kid now exp) = AList.update sid
            \<lparr>sr_session_id = sid, sr_security_epoch = epoch, sr_key_id = kid,
             sr_negotiated_level = nr_negotiated_level neg, sr_suite = nr_suite neg,
             sr_initiator = ini, sr_responder = resp,
             sr_initiator_control_epoch = no_control_epoch io,
             sr_initiator_lease_token = no_lease_token io,
             sr_responder_control_epoch = no_control_epoch ro,
             sr_responder_lease_token = no_lease_token ro,
             sr_negotiation_transcript = t, sr_established_at_us = now,
             sr_key_activated_at_us = now, sr_expires_at_us = exp, sr_state = Sess_Active\<rparr> m)"
  unfolding establish_def Let_def
  by (auto simp: not_less not_le split: option.splits intro: negotiation_result.equality)

lemma registry_step_evolves:
  assumes "registry_step m m'" and "lookup m k = Some s"
  shows "\<exists>t. lookup m' k = Some t \<and> session_evolves s t"
  using assms
proof (induction rule: registry_step.induct)
  case (establish m io ro pol neg ini resp sid epoch kid now exp)
  then show ?case using establish_cases [of m io ro pol neg ini resp sid epoch kid now exp] by auto
next
  case (rotate m sid epoch kid now exp)
  then show ?case
    by (auto simp: rotate_session_def session_evolves_def session_is_active_at_def split: option.split)
next
  case (revoke m sid)
  then show ?case by (auto simp: revoke_session_def session_evolves_def split: option.split)
next
  case (close m sid)
  then show ?case by (auto simp: close_session_def session_evolves_def split: option.split)
next
  case (expire m now)
  then show ?case by (auto simp: expire_sessions_def expire_record_def session_evolves_def)
qed

lemma registry_steps_evolve:
  assumes "registry_step\<^sup>*\<^sup>* m m'" and "lookup m k = Some s"
  shows "\<exists>t. lookup m' k = Some t \<and> session_evolves s t"
  using assms
proof (induction rule: rtranclp_induct)
  case (step m1 m2)
  then show ?case using registry_step_evolves [OF step.hyps(2)] session_evolves_trans by blast
qed auto

definition negotiated_by ::
  "session_record \<Rightarrow> negotiation_offer \<Rightarrow> negotiation_offer \<Rightarrow> negotiation_policy \<Rightarrow> bool" where
  "negotiated_by s io ro pol \<longleftrightarrow> result_accepted (negotiate io ro pol) \<and>
     encode_negotiation_transcript io ro (negotiate io ro pol) = Some (sr_negotiation_transcript s) \<and>
     sr_negotiated_level s = nr_negotiated_level (negotiate io ro pol) \<and>
     sr_suite s = nr_suite (negotiate io ro pol) \<and>
     np_required_level pol \<le> sr_negotiated_level s \<and>
     suite_supports_level (sr_suite s) (sr_negotiated_level s) \<and>
     ap_endpoint (sr_initiator s) = no_endpoint_id io \<and> ap_endpoint (sr_responder s) = no_endpoint_id ro"

text \<open>What holds of every session in a registry the operations can reach.\<close>

definition registered_inv :: "u64 \<Rightarrow> session_record \<Rightarrow> bool" where
  "registered_inv k s \<longleftrightarrow> sr_session_id s = k \<and> k \<noteq> 0 \<and> sr_security_epoch s \<noteq> 0 \<and> sr_key_id s \<noteq> 0 \<and>
     (\<exists>io ro pol. negotiated_by s io ro pol) \<and>
     sr_expires_at_us s \<le> ap_credential_expires_at_us (sr_initiator s) \<and>
     sr_expires_at_us s \<le> ap_credential_expires_at_us (sr_responder s)"

lemma accepted_negotiation_level:
  assumes "result_accepted (negotiate io ro pol)"
  shows "np_required_level pol \<le> nr_negotiated_level (negotiate io ro pol) \<and>
    suite_supports_level (nr_suite (negotiate io ro pol)) (nr_negotiated_level (negotiate io ro pol))"
proof (rule accepted_negotiation [OF assms])
  fix s
  let ?l = "min (no_maximum_level io) (no_maximum_level ro)"
  assume n: "negotiate io ro pol = \<lparr>nr_status = ns_accepted,
       nr_required_level = max (max (no_minimum_level io) (no_minimum_level ro)) (np_required_level pol),
       nr_negotiated_level = ?l, nr_suite = s\<rparr>"
    and le: "max (max (no_minimum_level io) (no_minimum_level ro)) (np_required_level pol) \<le> ?l"
    and c: "suite_candidate io ro ?l s"
  have "np_required_level pol \<le> ?l" using le by (rule max.boundedE)
  then show ?thesis using n c by (simp add: suite_candidate_def)
qed

lemma registered_inv_step:
  assumes "registry_step m m'" and "\<And>k s. lookup m k = Some s \<Longrightarrow> registered_inv k s" and "lookup m' k = Some t"
  shows "registered_inv k t"
  using assms
proof (induction rule: registry_step.induct)
  case (establish m io ro pol neg ini resp sid epoch kid now exp)
  from establish_cases [of m io ro pol neg ini resp sid epoch kid now exp] show ?case
  proof (elim disjE exE conjE)
    assume "fst (establish m io ro pol neg ini resp sid epoch kid now exp) = m"
    then show ?thesis using establish by simp
  next
    fix tr
    assume a: "result_accepted (negotiate io ro pol)" "neg = negotiate io ro pol"
      "encode_negotiation_transcript io ro neg = Some tr" "sid \<noteq> 0" "epoch \<noteq> 0" "kid \<noteq> 0"
      "ap_endpoint ini = no_endpoint_id io" "ap_endpoint resp = no_endpoint_id ro"
      "exp \<le> ap_credential_expires_at_us ini" "exp \<le> ap_credential_expires_at_us resp"
      and e: "fst (establish m io ro pol neg ini resp sid epoch kid now exp) = AList.update sid
            \<lparr>sr_session_id = sid, sr_security_epoch = epoch, sr_key_id = kid,
             sr_negotiated_level = nr_negotiated_level neg, sr_suite = nr_suite neg,
             sr_initiator = ini, sr_responder = resp,
             sr_initiator_control_epoch = no_control_epoch io,
             sr_initiator_lease_token = no_lease_token io,
             sr_responder_control_epoch = no_control_epoch ro,
             sr_responder_lease_token = no_lease_token ro,
             sr_negotiation_transcript = tr, sr_established_at_us = now,
             sr_key_activated_at_us = now, sr_expires_at_us = exp, sr_state = Sess_Active\<rparr> m"
    show ?thesis
    proof (cases "k = sid")
      case True
      have tt: "t = \<lparr>sr_session_id = sid, sr_security_epoch = epoch, sr_key_id = kid,
             sr_negotiated_level = nr_negotiated_level neg, sr_suite = nr_suite neg,
             sr_initiator = ini, sr_responder = resp,
             sr_initiator_control_epoch = no_control_epoch io,
             sr_initiator_lease_token = no_lease_token io,
             sr_responder_control_epoch = no_control_epoch ro,
             sr_responder_lease_token = no_lease_token ro,
             sr_negotiation_transcript = tr, sr_established_at_us = now,
             sr_key_activated_at_us = now, sr_expires_at_us = exp, sr_state = Sess_Active\<rparr>"
        using establish.prems(2) True unfolding e by simp
      have "negotiated_by t io ro pol"
        using a accepted_negotiation_level [OF a(1)] unfolding tt negotiated_by_def by simp
      then show ?thesis using a True unfolding registered_inv_def by (auto simp: tt)
    next
      case False
      then show ?thesis using establish e by simp
    qed
  qed
next
  case (rotate m sid epoch kid now exp)
  show ?case
  proof (cases "lookup m sid")
    case (Some s)
    then have "registered_inv sid s" using rotate.prems(1) by simp
    then show ?thesis using rotate Some
      by (auto simp: rotate_session_def registered_inv_def negotiated_by_def split: if_splits)
  qed (use rotate in \<open>simp add: rotate_session_def\<close>)
next
  case (revoke m sid)
  show ?case
  proof (cases "lookup m sid")
    case (Some s)
    then have "registered_inv sid s" using revoke.prems(1) by simp
    then show ?thesis using revoke Some by (auto simp: revoke_session_def registered_inv_def negotiated_by_def split: if_splits)
  qed (use revoke in \<open>simp add: revoke_session_def\<close>)
next
  case (close m sid)
  show ?case
  proof (cases "lookup m sid")
    case (Some s)
    then have "registered_inv sid s" using close.prems(1) by simp
    then show ?thesis using close Some by (auto simp: close_session_def registered_inv_def negotiated_by_def split: if_splits)
  qed (use close in \<open>simp add: close_session_def\<close>)
next
  case (expire m now)
  then obtain s where s: "lookup m k = Some s" "t = expire_record now s" by (auto simp: expire_sessions_def)
  then have "registered_inv k s" using expire.prems(1) by simp
  then show ?case using s by (simp add: expire_record_def registered_inv_def negotiated_by_def)
qed

lemma registry_inv: "registry_reachable m \<Longrightarrow> lookup m k = Some s \<Longrightarrow> registered_inv k s"
proof (induction arbitrary: k s rule: registry_reachable.induct)
  case (step m m')
  then show ?case using registered_inv_step [OF step.hyps(2)] by blast
qed simp

text \<open>
  C16: every session of a registry the operations can reach is the outcome of a negotiation that met
  the policy's required level with a suite for the level negotiated, its transcript is that
  negotiation's, its parties are the offering endpoints, and it ends no later than either party's
  credential.
\<close>

theorem registered_sessions_negotiated:
  assumes "registry_reachable m" and "get_session m k = Some s"
  shows "sr_session_id s = k \<and> k \<noteq> 0 \<and>
    (\<exists>io ro pol. result_accepted (negotiate io ro pol) \<and>
       encode_negotiation_transcript io ro (negotiate io ro pol) = Some (sr_negotiation_transcript s) \<and>
       np_required_level pol \<le> sr_negotiated_level s \<and>
       suite_supports_level (sr_suite s) (sr_negotiated_level s) \<and>
       ap_endpoint (sr_initiator s) = no_endpoint_id io \<and> ap_endpoint (sr_responder s) = no_endpoint_id ro) \<and>
    sr_expires_at_us s \<le> ap_credential_expires_at_us (sr_initiator s) \<and>
    sr_expires_at_us s \<le> ap_credential_expires_at_us (sr_responder s)"
  using registry_inv [OF assms(1)] assms(2) unfolding registered_inv_def get_session_def negotiated_by_def by blast

text \<open>
  The end of a session is final. Whatever happens to the registry later, a session that was
  revoked, closed or expired is still there under its identifier and never gives a sender identity
  again, in either direction, at any time; and no session ever changes its parties, level or suite
  or goes back to an earlier epoch.
\<close>

theorem ended_session_stays_ended:
  assumes "registry_step\<^sup>*\<^sup>* m m'" and "get_session m k = Some s"
  shows "\<exists>t. get_session m' k = Some t \<and> session_evolves s t \<and>
    (sr_state s \<noteq> Sess_Active \<longrightarrow> make_sender_identity m' k direction now = None)"
  using registry_steps_evolve [OF assms(1)] assms(2)
  by (fastforce simp: get_session_def make_sender_identity_def session_is_active_at_def session_evolves_def)

end
