(* ===== verification/Replay_Window.thy ===== *)
theory Replay_Window
  imports Prelude
begin

unbundle bit_operations_syntax

text \<open>
  \<open>LiNeP-SL/src/v0_2/replay_window.cpp\<close>: the 128-bit sliding replay window of the UDP control plane
  and the sequence tracker of the TCP data plane. The window is refined to the set of the numbers
  it accepted, from which it follows that nothing is accepted twice.
\<close>

section \<open>The window\<close>

datatype replay_status = Accepted_Seq | Duplicate_Seq | Too_Old_Seq | Invalid_Seq

record sliding_replay_window =
  rw_max_seq :: u64
  rw_bitmap0 :: u64
  rw_bitmap1 :: u64

abbreviation (input) window_size :: u64 where "window_size \<equiv> 128"

definition new_window :: sliding_replay_window where
  "new_window = \<lparr>rw_max_seq = 0, rw_bitmap0 = 0, rw_bitmap1 = 0\<rparr>"

text \<open>The bit of distance \<open>diff\<close>: word \<open>diff / 64\<close>, bit \<open>diff % 64\<close>.\<close>

definition window_bit :: "sliding_replay_window \<Rightarrow> u64 \<Rightarrow> bool" where
  "window_bit w diff = bit (if diff div 64 = 0 then rw_bitmap0 w else rw_bitmap1 w) (unat (diff mod 64))"

definition set_window_bit :: "sliding_replay_window \<Rightarrow> u64 \<Rightarrow> sliding_replay_window" where
  "set_window_bit w diff =
     (let m = push_bit (unat (diff mod 64)) 1
      in if diff div 64 = 0 then w\<lparr>rw_bitmap0 := rw_bitmap0 w OR m\<rparr>
         else w\<lparr>rw_bitmap1 := rw_bitmap1 w OR m\<rparr>)"

definition window_check :: "sliding_replay_window \<Rightarrow> u64 \<Rightarrow> replay_status" where
  "window_check w seq =
     (if seq = 0 then Invalid_Seq
      else if rw_max_seq w = 0 then Accepted_Seq
      else if seq > rw_max_seq w then Accepted_Seq
      else let diff = rw_max_seq w - seq
        in if diff \<ge> window_size then Too_Old_Seq
           else if window_bit w diff then Duplicate_Seq
           else Accepted_Seq)"

definition window_update :: "sliding_replay_window \<Rightarrow> u64 \<Rightarrow> sliding_replay_window \<times> replay_status" where
  "window_update w seq =
     (if seq = 0 then (w, Invalid_Seq)
      else if rw_max_seq w = 0
      then (w\<lparr>rw_max_seq := seq, rw_bitmap0 := 1, rw_bitmap1 := 0\<rparr>, Accepted_Seq)
      else if seq > rw_max_seq w then
        let diff = seq - rw_max_seq w;
            w = (if diff \<ge> window_size then w\<lparr>rw_bitmap0 := 1, rw_bitmap1 := 0\<rparr>
                 else if diff \<ge> 64
                 then w\<lparr>rw_bitmap1 := push_bit (unat (diff - 64)) (rw_bitmap0 w), rw_bitmap0 := 1\<rparr>
                 else w\<lparr>rw_bitmap1 := push_bit (unat diff) (rw_bitmap1 w) OR
                                       drop_bit (unat (64 - diff)) (rw_bitmap0 w),
                        rw_bitmap0 := push_bit (unat diff) (rw_bitmap0 w) OR 1\<rparr>)
        in (w\<lparr>rw_max_seq := seq\<rparr>, Accepted_Seq)
      else let diff = rw_max_seq w - seq
        in if diff \<ge> window_size then (w, Too_Old_Seq)
           else if window_bit w diff then (w, Duplicate_Seq)
           else (set_window_bit w diff, Accepted_Seq))"

definition check_and_update :: "sliding_replay_window \<Rightarrow> u64 \<Rightarrow> sliding_replay_window \<times> replay_status" where
  "check_and_update w seq =
     (let status = window_check w seq in if status \<noteq> Accepted_Seq then (w, status) else window_update w seq)"

definition reset_window :: "sliding_replay_window \<Rightarrow> sliding_replay_window" where
  "reset_window w = w\<lparr>rw_max_seq := 0, rw_bitmap0 := 0, rw_bitmap1 := 0\<rparr>"

section \<open>The stream tracker\<close>

record monotonic_stream_tracker =
  st_last_event_seq :: u64
  st_last_fragment_seq :: u64
  st_has_started :: bool

definition new_tracker :: monotonic_stream_tracker where
  "new_tracker = \<lparr>st_last_event_seq = 0, st_last_fragment_seq = 0, st_has_started = False\<rparr>"

definition check_and_advance ::
  "monotonic_stream_tracker \<Rightarrow> u64 \<Rightarrow> u64 \<Rightarrow> bool \<Rightarrow> monotonic_stream_tracker \<times> bool" where
  "check_and_advance t event_seq fragment_seq has_fragment_seq =
     (if event_seq = 0 then (t, False)
      else if \<not> st_has_started t then
        if has_fragment_seq \<and> fragment_seq \<noteq> 0 then (t, False)
        else (t\<lparr>st_last_event_seq := event_seq, st_last_fragment_seq := fragment_seq,
                st_has_started := True\<rparr>, True)
      else if event_seq > st_last_event_seq t then
        if has_fragment_seq \<and> fragment_seq \<noteq> 0 then (t, False)
        else (t\<lparr>st_last_event_seq := event_seq, st_last_fragment_seq := fragment_seq\<rparr>, True)
      else if event_seq = st_last_event_seq t then
        if \<not> has_fragment_seq then (t, False)
        else if fragment_seq \<le> st_last_fragment_seq t then (t, False)
        else (t\<lparr>st_last_fragment_seq := fragment_seq\<rparr>, True)
      else (t, False))"

definition reset_tracker :: "monotonic_stream_tracker \<Rightarrow> monotonic_stream_tracker" where
  "reset_tracker t = t\<lparr>st_last_event_seq := 0, st_last_fragment_seq := 0, st_has_started := False\<rparr>"

section \<open>The window as a set of accepted numbers\<close>

definition bit_at :: "sliding_replay_window \<Rightarrow> nat \<Rightarrow> bool" where
  "bit_at w i = (if i < 64 then bit (rw_bitmap0 w) i else bit (rw_bitmap1 w) (i - 64))"

definition window_rep :: "sliding_replay_window \<Rightarrow> nat set \<Rightarrow> bool" where
  "window_rep w A \<longleftrightarrow> finite A \<and> 0 \<notin> A \<and> (\<forall>a\<in>A. a \<le> unat (rw_max_seq w)) \<and>
     (rw_max_seq w = 0 \<longleftrightarrow> A = {}) \<and> (rw_max_seq w \<noteq> 0 \<longrightarrow> unat (rw_max_seq w) \<in> A) \<and>
     (\<forall>i<128. rw_max_seq w \<noteq> 0 \<longrightarrow> (bit_at w i \<longleftrightarrow> unat (rw_max_seq w) - i \<in> A))"

definition spec_status :: "nat set \<Rightarrow> nat \<Rightarrow> replay_status" where
  "spec_status A n =
     (if n = 0 then Invalid_Seq
      else if \<exists>m\<in>A. n + 128 \<le> m then Too_Old_Seq
      else if n \<in> A then Duplicate_Seq else Accepted_Seq)"

lemma window_bit_at: "d < 128 \<Longrightarrow> window_bit w d = bit_at w (unat d)"
  by (auto simp: window_bit_def bit_at_def word_less_nat_alt unat_div unat_mod unat_arith_simps div_if mod_if)

lemma bit_at_set:
  assumes "d < 128" "i < 128"
  shows "bit_at (set_window_bit w d) i \<longleftrightarrow> bit_at w i \<or> i = unat d"
proof -
  have d: "unat d < 128" using assms(1) by (simp add: word_less_nat_alt)
  have q: "d div 64 = 0 \<longleftrightarrow> unat d < 64"
    by (simp add: word_unat_eq_iff unat_div div_eq_0_iff)
  have r: "unat (d mod 64) = (if unat d < 64 then unat d else unat d - 64)"
    using d by (auto simp: unat_mod mod_if)
  show ?thesis
    using assms(2) d unfolding set_window_bit_def Let_def q r bit_at_def
    by (auto simp: bit_or_iff bit_exp_iff)
qed

text \<open>Moving the window up by \<open>d\<close> shifts the two words as one 128-bit number.\<close>

lemma bit_at_shift:
  assumes "seq > rw_max_seq w" "rw_max_seq w \<noteq> 0" "i < 128"
  defines "d \<equiv> unat seq - unat (rw_max_seq w)"
  shows "bit_at (fst (window_update w seq)) i \<longleftrightarrow> i = 0 \<or> d \<le> i \<and> bit_at w (i - d)"
proof -
  have gt: "unat (rw_max_seq w) < unat seq" using assms(1) by (simp add: word_less_nat_alt)
  have diff: "unat (seq - rw_max_seq w) = d" using assms(1) by (simp add: d_def unat_sub order.strict_implies_order)
  have d: "0 < d" using gt by (simp add: d_def)
  have seq: "seq \<noteq> 0" using gt by auto
  have ge: "seq - rw_max_seq w \<ge> 128 \<longleftrightarrow> 128 \<le> d" "seq - rw_max_seq w \<ge> 64 \<longleftrightarrow> 64 \<le> d"
    using diff by (simp_all add: word_le_nat_alt)
  consider "128 \<le> d" | "64 \<le> d" "d < 128" | "d < 64" by linarith
  then show ?thesis
  proof cases
    case 1
    then show ?thesis using assms(1-3) seq ge by (simp add: window_update_def Let_def bit_at_def bit_1_iff)
  next
    case 2
    have "unat (seq - rw_max_seq w - 64) = d - 64"
      using 2 diff ge by (simp add: unat_sub)
    then show ?thesis using 2 assms(1-3) seq ge
      by (auto simp: window_update_def Let_def bit_at_def bit_1_iff bit_push_bit_iff not_le)
  next
    case 3
    have s: "unat (64 - (seq - rw_max_seq w)) = 64 - d"
      using 3 diff by (subst unat_sub) (simp_all add: word_le_nat_alt)
    show ?thesis using 3 d diff assms(1-3) seq ge s
      by (auto simp: window_update_def Let_def bit_at_def bit_1_iff bit_push_bit_iff bit_or_iff bit_drop_bit_eq not_le
          add.commute dest: bit_imp_le_length)
  qed
qed

lemma window_rep_new: "window_rep new_window {}" "window_rep (reset_window w) {}"
  by (simp_all add: window_rep_def new_window_def reset_window_def)

lemma window_rep_first:
  assumes "window_rep w {}" "seq \<noteq> 0"
  shows "window_update w seq = (fst (window_update w seq), Accepted_Seq)" and "window_rep (fst (window_update w seq)) {unat seq}"
proof -
  have m: "rw_max_seq w = 0" using assms(1) by (simp add: window_rep_def)
  show "window_update w seq = (fst (window_update w seq), Accepted_Seq)" using m assms(2) by (simp add: window_update_def)
  have "unat seq - i = unat seq \<longleftrightarrow> i = 0" if "i < 128" for i
  proof -
    have "0 < unat seq" using assms(2) by (simp add: unat_gt_0)
    then show ?thesis by linarith
  qed
  then show "window_rep (fst (window_update w seq)) {unat seq}"
    using m assms(2) by (auto simp: window_update_def window_rep_def bit_at_def bit_1_iff unat_eq_0)
qed

lemma window_rep_advance:
  assumes rep: "window_rep w A" and ne: "A \<noteq> {}" and gt: "seq > rw_max_seq w"
  shows "window_update w seq = (fst (window_update w seq), Accepted_Seq)"
    and "window_rep (fst (window_update w seq)) (insert (unat seq) A)"
proof -
  have m: "rw_max_seq w \<noteq> 0" using rep ne by (simp add: window_rep_def)
  have seq: "seq \<noteq> 0" using gt by auto
  have lt: "unat (rw_max_seq w) < unat seq" using gt by (simp add: word_less_nat_alt)
  show "window_update w seq = (fst (window_update w seq), Accepted_Seq)"
    using m seq gt by (simp add: window_update_def Let_def)
  have max: "rw_max_seq (fst (window_update w seq)) = seq" using m seq gt by (simp add: window_update_def Let_def)
  have le: "\<forall>a\<in>A. a \<le> unat (rw_max_seq w)" and bits: "\<And>i. i < 128 \<Longrightarrow> bit_at w i \<longleftrightarrow> unat (rw_max_seq w) - i \<in> A"
    using rep m by (simp_all add: window_rep_def)
  have bit: "bit_at (fst (window_update w seq)) i \<longleftrightarrow> unat seq - i \<in> insert (unat seq) A" if i: "i < 128" for i
  proof (cases "i = 0 \<or> unat seq - unat (rw_max_seq w) \<le> i")
    case True
    then show ?thesis
      using bit_at_shift [OF gt m i] bits [of "i - (unat seq - unat (rw_max_seq w))"] i lt by auto
  next
    case False
    then have "unat seq - i > unat (rw_max_seq w)" using lt by linarith
    then show ?thesis using bit_at_shift [OF gt m i] False le by auto
  qed
  then show "window_rep (fst (window_update w seq)) (insert (unat seq) A)"
    using rep lt seq max le unfolding window_rep_def by (auto simp: unat_eq_0 intro: order_trans)
qed

lemma window_rep_fill:
  assumes rep: "window_rep w A" and d: "d < 128" "unat (rw_max_seq w) - unat d = n" "0 < n" "rw_max_seq w \<noteq> 0"
  shows "window_rep (set_window_bit w d) (insert n A)"
proof -
  have max: "rw_max_seq (set_window_bit w d) = rw_max_seq w" by (simp add: set_window_bit_def Let_def)
  have "bit_at (set_window_bit w d) i \<longleftrightarrow> unat (rw_max_seq w) - i \<in> insert n A" if i: "i < 128" for i
  proof -
    have "unat (rw_max_seq w) - i = n \<longleftrightarrow> i = unat d" using d(2,3) by auto
    then show ?thesis using bit_at_set [OF d(1) i, of w] rep i d(4) by (auto simp: window_rep_def)
  qed
  then show ?thesis using rep d max unfolding window_rep_def by auto
qed

text \<open>One step of the window is one step of the set of the numbers accepted so far.\<close>

lemma check_and_update_refines:
  assumes "window_rep w A" and "check_and_update w seq = (w', st)"
  shows "st = spec_status A (unat seq) \<and>
    window_rep w' (if st = Accepted_Seq then insert (unat seq) A else A)"
proof (cases "seq = 0 \<or> A = {}")
  case True
  then show ?thesis
  proof
    assume "seq = 0"
    with assms show ?thesis by (auto simp: check_and_update_def window_check_def spec_status_def)
  next
    assume A: "A = {}"
    show ?thesis
    proof (cases "seq = 0")
      case True
      with assms show ?thesis by (auto simp: check_and_update_def window_check_def spec_status_def)
    next
      case False
      have "window_check w seq = Accepted_Seq" using assms(1) A False by (simp add: window_check_def window_rep_def)
      then show ?thesis using assms A False window_rep_first [of w seq]
        by (auto simp: check_and_update_def spec_status_def unat_eq_0)
    qed
  qed
next
  case False
  then have seq: "seq \<noteq> 0" and ne: "A \<noteq> {}" by simp_all
  have m: "rw_max_seq w \<noteq> 0" and le: "\<And>a. a \<in> A \<Longrightarrow> a \<le> unat (rw_max_seq w)"
    and mA: "unat (rw_max_seq w) \<in> A"
    using assms(1) ne by (auto simp: window_rep_def)
  show ?thesis
  proof (cases "seq > rw_max_seq w")
    case True
    have "window_check w seq = Accepted_Seq" using seq True m by (simp add: window_check_def)
    moreover have "spec_status A (unat seq) = Accepted_Seq"
      using le True seq by (fastforce simp: spec_status_def word_less_nat_alt unat_eq_0)
    ultimately show ?thesis using assms(2) window_rep_advance [OF assms(1) ne True]
      by (auto simp: check_and_update_def)
  next
    case nogt: False
    then have sl: "unat seq \<le> unat (rw_max_seq w)" by (simp add: word_le_nat_alt not_less)
    define d where "d = rw_max_seq w - seq"
    have d: "unat d = unat (rw_max_seq w) - unat seq" using nogt by (simp add: d_def unat_sub not_less)
    have old: "d \<ge> 128 \<longleftrightarrow> (\<exists>m\<in>A. unat seq + 128 \<le> m)"
    proof
      assume "d \<ge> 128"
      then have "unat seq + 128 \<le> unat (rw_max_seq w)" using d sl by (simp add: word_le_nat_alt)
      then show "\<exists>m\<in>A. unat seq + 128 \<le> m" using mA by blast
    next
      assume "\<exists>m\<in>A. unat seq + 128 \<le> m"
      then have "unat seq + 128 \<le> unat (rw_max_seq w)" using le by fastforce
      then show "d \<ge> 128" using d by (simp add: word_le_nat_alt)
    qed
    show ?thesis
    proof (cases "d \<ge> 128")
      case True
      then show ?thesis using assms seq m nogt old
        by (auto simp: check_and_update_def window_check_def Let_def spec_status_def unat_eq_0 simp flip: d_def)
    next
      case small: False
      then have d128: "d < 128" by simp
      have ud: "unat d < 128" using d128 by (simp add: word_less_nat_alt)
      have dup: "window_bit w d \<longleftrightarrow> unat seq \<in> A"
        using assms(1) m ud d sl by (simp add: window_bit_at [OF d128] window_rep_def)
      show ?thesis
      proof (cases "unat seq \<in> A")
        case True
        then show ?thesis using assms seq m nogt small old dup
          by (auto simp: check_and_update_def window_check_def Let_def spec_status_def unat_eq_0 simp flip: d_def)
      next
        case new: False
        have cu: "check_and_update w seq = (set_window_bit w d, Accepted_Seq)"
          using seq m nogt small dup new by (simp add: check_and_update_def window_check_def window_update_def Let_def flip: d_def)
        have "window_rep (set_window_bit w d) (insert (unat seq) A)"
          by (rule window_rep_fill [OF assms(1) d128]) (use d sl seq m in \<open>auto simp: unat_gt_0\<close>)
        then show ?thesis using cu assms(2) seq new small old by (auto simp: spec_status_def unat_eq_0)
      qed
    qed
  qed
qed

section \<open>Properties\<close>

text \<open>A sequence of datagrams with their verdicts.\<close>

fun window_run :: "sliding_replay_window \<Rightarrow> u64 list \<Rightarrow> sliding_replay_window \<times> replay_status list" where
  "window_run w [] = (w, [])"
| "window_run w (s # ss) =
     (let (w, st) = check_and_update w s; (w, sts) = window_run w ss in (w, st # sts))"

fun spec_run :: "nat set \<Rightarrow> nat list \<Rightarrow> nat set \<times> replay_status list" where
  "spec_run A [] = (A, [])"
| "spec_run A (n # ns) =
     (let st = spec_status A n; (B, sts) = spec_run (if st = Accepted_Seq then insert n A else A) ns
      in (B, st # sts))"

lemma window_run_refines:
  "window_rep w A \<Longrightarrow> window_run w ss = (w', sts) \<Longrightarrow> spec_run A (map unat ss) = (B, sts') \<Longrightarrow>
     sts' = sts \<and> window_rep w' B"
proof (induction ss arbitrary: w A w' sts B sts')
  case (Cons s ss)
  obtain w1 st where c: "check_and_update w s = (w1, st)" by (cases "check_and_update w s")
  obtain w2 ts where r: "window_run w1 ss = (w2, ts)" by (cases "window_run w1 ss")
  let ?A = "if st = Accepted_Seq then insert (unat s) A else A"
  obtain C us where q: "spec_run ?A (map unat ss) = (C, us)" by (cases "spec_run ?A (map unat ss)")
  from check_and_update_refines [OF Cons.prems(1) c] have "st = spec_status A (unat s)" "window_rep w1 ?A" by auto
  with Cons.IH [OF _ r q] Cons.prems c r q show ?case by auto
qed simp

text \<open>
  C29: the bitmap window is a set of accepted numbers. Over any sequence of sequence numbers the
  128-bit sliding window gives the same verdicts as a window that remembers every number it
  accepted: zero is invalid, a number 128 or more below an accepted one is too old, an accepted
  one is a duplicate, every other number is accepted.
\<close>

theorem replay_window_refines_set:
  "snd (window_run new_window ss) = snd (spec_run {} (map unat ss))"
  using window_run_refines [OF window_rep_new(1), of ss]
  by (metis prod.collapse)

lemma spec_run_accepts_once:
  "i < j \<Longrightarrow> j < length ns \<Longrightarrow> snd (spec_run A ns) ! i = Accepted_Seq \<Longrightarrow>
     snd (spec_run A ns) ! j = Accepted_Seq \<Longrightarrow> ns ! i \<noteq> ns ! j"
proof -
  have keep: "snd (spec_run A ns) ! j \<noteq> Accepted_Seq" if "n \<in> A" "j < length ns" "ns ! j = n" for A n j ns
    using that
  proof (induction ns arbitrary: A j)
    case (Cons m ms)
    show ?case
    proof (cases j)
      case 0
      then show ?thesis using Cons.prems by (auto simp: spec_status_def Let_def split: prod.split)
    next
      case (Suc k)
      have "n \<in> (if spec_status A m = Accepted_Seq then insert m A else A)" using Cons.prems by simp
      from Cons.IH [OF this, of k] show ?thesis using Cons.prems Suc by (auto simp: Let_def split: prod.split)
    qed
  qed simp
  show "i < j \<Longrightarrow> j < length ns \<Longrightarrow> snd (spec_run A ns) ! i = Accepted_Seq \<Longrightarrow>
     snd (spec_run A ns) ! j = Accepted_Seq \<Longrightarrow> ns ! i \<noteq> ns ! j"
  proof (induction ns arbitrary: A i j)
    case (Cons m ms)
    obtain k where j: "j = Suc k" using Cons.prems(1) by (cases j) auto
    let ?A = "if spec_status A m = Accepted_Seq then insert m A else A"
    have r: "snd (spec_run A (m # ms)) = spec_status A m # snd (spec_run ?A ms)"
      by (simp add: Let_def split: prod.split)
    show ?case
    proof (cases i)
      case 0
      then have "m \<in> ?A" using Cons.prems r by simp
      from keep [OF this, of k ms] show ?thesis using Cons.prems r j 0 by auto
    next
      case (Suc l)
      then show ?thesis using Cons.IH [of l k ?A] Cons.prems r j by simp
    qed
  qed simp
qed

text \<open>
  No replay. Over any sequence of datagrams no sequence number is accepted twice, however far
  the window has moved in between.
\<close>

theorem replay_window_accepts_once:
  assumes "i < j" and "j < length ss"
    and "snd (window_run new_window ss) ! i = Accepted_Seq" and "snd (window_run new_window ss) ! j = Accepted_Seq"
  shows "ss ! i \<noteq> ss ! j"
proof -
  have "snd (window_run new_window ss) = snd (spec_run {} (map unat ss))"
    using window_run_refines [OF window_rep_new(1), of ss] by (metis prod.collapse)
  with spec_run_accepts_once [of i j "map unat ss" "{}"] assms show ?thesis by auto
qed

lemma replay_window_accepts_once_witness:
  "snd (window_run new_window [5, 3, 200]) ! 0 = Accepted_Seq \<and>
   snd (window_run new_window [5, 3, 200]) ! 1 = Accepted_Seq \<and> [5, 3, 200 :: u64] ! 0 \<noteq> [5, 3, 200] ! 1"
proof -
  have "snd (window_run new_window [5, 3, 200]) = [Accepted_Seq, Accepted_Seq, Accepted_Seq]" by code_simp
  then show ?thesis using replay_window_accepts_once [of 0 1 "[5, 3, 200]"] by simp
qed

text \<open>Order of the events and fragments a tracker lets through.\<close>

lemma tracker_advances:
  assumes "check_and_advance t e f h = (t', True)"
  shows "st_has_started t' \<and> st_last_event_seq t' = e \<and> e \<noteq> 0 \<and> st_last_fragment_seq t' = f \<and>
    (st_has_started t \<longrightarrow> st_last_event_seq t < e \<or>
       st_last_event_seq t = e \<and> h \<and> st_last_fragment_seq t < f)"
  using assms by (auto simp: check_and_advance_def split: if_splits)

lemma tracker_refuses: "check_and_advance t e f h = (t', False) \<Longrightarrow> t' = t"
  by (auto simp: check_and_advance_def split: if_splits)

end
