(* ===== verification/SL_Sha256.thy ===== *)
theory SL_Sha256
  imports Sha256
begin

unbundle bit_operations_syntax

text \<open>
  \<open>LiNeP-SL/src/sha256.cpp\<close>: the security layer's own SHA-256 and HMAC-SHA-256, on a context with
  one byte counter. They are shown to agree with the core's implementation in theory \<open>Sha256\<close>
  through its reference definition.
\<close>

section \<open>The compression function\<close>

definition sl_K :: "u32 list" where
  "sl_K = sha_k"

definition rotr :: "u32 \<Rightarrow> nat \<Rightarrow> u32" where
  "rotr x n = drop_bit n x OR push_bit (32 - n) x"

definition sl_load_word :: "bytes \<Rightarrow> nat \<Rightarrow> u32" where
  "sl_load_word data i = push_bit 24 (ucast (data ! (i * 4))) OR push_bit 16 (ucast (data ! (i * 4 + 1)))
     OR push_bit 8 (ucast (data ! (i * 4 + 2))) OR ucast (data ! (i * 4 + 3))"

text \<open>The array is filled in index order: step \<open>i\<close> appends the word of index \<open>i\<close>.\<close>

definition sl_extend :: "u32 list \<Rightarrow> u32 list" where
  "sl_extend w =
     (let i = length w;
          s0 = rotr (w ! (i - 15)) 7 XOR rotr (w ! (i - 15)) 18 XOR drop_bit 3 (w ! (i - 15));
          s1 = rotr (w ! (i - 2)) 17 XOR rotr (w ! (i - 2)) 19 XOR drop_bit 10 (w ! (i - 2))
      in w @ [w ! (i - 16) + s0 + w ! (i - 7) + s1])"

definition sl_schedule :: "bytes \<Rightarrow> u32 list" where
  "sl_schedule data = (sl_extend ^^ 48) (map (sl_load_word data) [0..<16])"

fun sl_round :: "u32 \<Rightarrow> u32 \<Rightarrow> u32 list \<Rightarrow> u32 list" where
  "sl_round k wi [a, b, c, d, e, f, g, h] =
     (let S1 = rotr e 6 XOR rotr e 11 XOR rotr e 25;
          ch = (e AND f) XOR (NOT e AND g);
          temp1 = h + S1 + ch + k + wi;
          S0 = rotr a 2 XOR rotr a 13 XOR rotr a 22;
          maj = (a AND b) XOR (a AND c) XOR (b AND c);
          temp2 = S0 + maj
      in [temp1 + temp2, a, b, c, d + temp1, e, f, g])"
| "sl_round k wi s = s"

section \<open>The streaming context\<close>

record sl_sha256_ctx =
  slc_state :: "u32 list"
  slc_count :: u64
  slc_buffer :: bytes

definition sl_sha256_init :: "sl_sha256_ctx \<Rightarrow> sl_sha256_ctx" where
  "sl_sha256_init ctx = ctx\<lparr>slc_state := [0x6a09e667, 0xbb67ae85, 0x3c6ef372, 0xa54ff53a,
     0x510e527f, 0x9b05688c, 0x1f83d9ab, 0x5be0cd19], slc_count := 0\<rparr>"

definition sl_sha256_transform :: "sl_sha256_ctx \<Rightarrow> bytes \<Rightarrow> sl_sha256_ctx" where
  "sl_sha256_transform ctx data =
     ctx\<lparr>slc_state := map2 (+) (slc_state ctx)
       (fold (\<lambda>(k, wi). sl_round k wi) (zip sl_K (sl_schedule data)) (slc_state ctx))\<rparr>"

definition sl_update_byte :: "u8 \<Rightarrow> sl_sha256_ctx \<Rightarrow> sl_sha256_ctx" where
  "sl_update_byte b ctx =
     (let ctx = ctx\<lparr>slc_buffer := (slc_buffer ctx)[unat (slc_count ctx mod 64) := b]\<rparr>;
          ctx = ctx\<lparr>slc_count := slc_count ctx + 1\<rparr>
      in if slc_count ctx mod 64 = 0 then sl_sha256_transform ctx (slc_buffer ctx) else ctx)"

definition sl_sha256_update :: "bytes \<Rightarrow> sl_sha256_ctx \<Rightarrow> sl_sha256_ctx" where
  "sl_sha256_update data ctx = fold sl_update_byte data ctx"

definition sl_sha256_final :: "sl_sha256_ctx \<Rightarrow> bytes" where
  "sl_sha256_final ctx =
     (let bit_count = slc_count ctx * 8;
          bits = map (\<lambda>i. ucast (drop_bit (56 - i * 8) bit_count)) [0..<8];
          r = slc_count ctx mod 64;
          pad_len = unat (if r < 56 then 56 - r else 120 - r);
          ctx = sl_sha256_update [0x80] ctx;
          ctx = (if pad_len > 1 then sl_sha256_update (replicate (pad_len - 1) 0) ctx else ctx);
          ctx = sl_sha256_update bits ctx
      in concat (map (\<lambda>w. [ucast (drop_bit 24 w), ucast (drop_bit 16 w), ucast (drop_bit 8 w), ucast w])
           (slc_state ctx)))"

text \<open>A context on the stack: its memory is what it was, here zero.\<close>

definition sl_fresh_ctx :: sl_sha256_ctx where
  "sl_fresh_ctx = \<lparr>slc_state = replicate 8 0, slc_count = 0, slc_buffer = replicate 64 0\<rparr>"

definition sl_sha256 :: "bytes \<Rightarrow> bytes" where
  "sl_sha256 data =
     (let ctx = sl_sha256_init sl_fresh_ctx;
          ctx = (if length data > 0 then sl_sha256_update data ctx else ctx)
      in sl_sha256_final ctx)"

definition sl_key_block :: "bytes \<Rightarrow> bytes" where
  "sl_key_block key =
     (if length key > 64 then sl_sha256 key @ replicate 32 0
      else if length key > 0 then key @ replicate (64 - length key) 0
      else replicate 64 0)"

definition sl_hmac_sha256 :: "bytes \<Rightarrow> bytes \<Rightarrow> bytes" where
  "sl_hmac_sha256 key data =
     (let k_ipad = map (\<lambda>b. b XOR 0x36) (sl_key_block key);
          k_opad = map (\<lambda>b. b XOR 0x5c) (sl_key_block key);
          inner = sl_sha256_update k_ipad (sl_sha256_init sl_fresh_ctx);
          inner = (if length data > 0 then sl_sha256_update data inner else inner);
          inner_hash = sl_sha256_final inner;
          outer = sl_sha256_update k_opad (sl_sha256_init sl_fresh_ctx);
          outer = sl_sha256_update inner_hash outer
      in sl_sha256_final outer)"

section \<open>Agreement with the core implementation\<close>

lemma sl_extend_eq: "sl_extend = extend_schedule"
  by (rule ext) (simp add: sl_extend_def extend_schedule_def Let_def SIG0_def SIG1_def rotr_def
      ROTRIGHT_def add.assoc add.left_commute add.commute)

lemma sl_schedule_eq: "sl_schedule data = message_schedule data"
  by (simp add: sl_schedule_def message_schedule_def sl_extend_eq sl_load_word_def be_word32_def
      mult.commute cong: map_cong)

lemma sl_round_eq: "sl_round = sha_round"
proof (intro ext)
  fix k w s
  show "sl_round k w s = sha_round k w s"
    by (cases "(k, w, s)" rule: sl_round.cases)
      (simp_all add: Let_def EP0_def EP1_def CH_def MAJ_def rotr_def ROTRIGHT_def)
qed

lemma sl_transform_eq:
  "sl_sha256_transform c d = c\<lparr>slc_state := sha256_transform (slc_state c) d\<rparr>"
  by (simp add: sl_sha256_transform_def sha256_transform_def sl_schedule_eq sl_round_eq sl_K_def)

definition sl_rep :: "sl_sha256_ctx \<Rightarrow> bytes \<Rightarrow> bool" where
  "sl_rep c m \<longleftrightarrow> length (slc_buffer c) = 64 \<and> slc_state c = fst (sha_blocks sha_iv m) \<and>
     slc_count c = of_nat (length m) \<and>
     take (length m mod 64) (slc_buffer c) = snd (sha_blocks sha_iv m)"

lemma count_mod64: "unat ((of_nat n :: u64) mod 64) = n mod 64"
proof -
  have "(64 :: nat) dvd 2 ^ 64" by simp
  then show ?thesis by (simp add: unat_mod unat_of_nat mod_mod_cancel)
qed

lemma count_mod64_0: "(of_nat n :: u64) mod 64 = 0 \<longleftrightarrow> n mod 64 = 0"
  by (metis count_mod64 unat_eq_0)

lemma sl_rep_init: "length (slc_buffer c) = 64 \<Longrightarrow> sl_rep (sl_sha256_init c) []"
  by (simp add: sl_rep_def sl_sha256_init_def sha_blocks_small sha_iv_def)

lemma sl_rep_byte:
  assumes "sl_rep c m"
  shows "sl_rep (sl_update_byte b c) (m @ [b])"
proof -
  let ?r = "snd (sha_blocks sha_iv m)"
  let ?n = "length m mod 64"
  let ?s = "fst (sha_blocks sha_iv m)"
  let ?buf = "(slc_buffer c)[?n := b]"
  from assms have c: "length (slc_buffer c) = 64" "slc_state c = ?s" "slc_count c = of_nat (length m)"
    "take ?n (slc_buffer c) = ?r" by (auto simp: sl_rep_def)
  have n: "?n < 64" "length ?r = ?n" using sha_blocks_rest [of sha_iv m] by simp_all
  have app: "sha_blocks sha_iv (m @ [b]) = sha_blocks ?s (?r @ [b])" by (rule sha_blocks_append)
  have data: "take (Suc ?n) ?buf = ?r @ [b]"
    using c n by (simp add: take_Suc_conv_app_nth take_update_cancel)
  have cnt: "slc_count c + 1 = of_nat (Suc (length m))" using c(3) by simp
  have upd: "sl_update_byte b c = (if Suc (length m) mod 64 = 0
      then c\<lparr>slc_buffer := ?buf, slc_count := of_nat (Suc (length m)), slc_state := sha256_transform ?s ?buf\<rparr>
      else c\<lparr>slc_buffer := ?buf, slc_count := of_nat (Suc (length m))\<rparr>)"
    unfolding sl_update_byte_def Let_def
    using c(2,3) cnt count_mod64_0 [of "Suc (length m)"] by (simp add: count_mod64 sl_transform_eq add.commute)
  show ?thesis
  proof (cases "Suc ?n = 64")
    case True
    then have m64: "Suc (length m) mod 64 = 0" by (simp add: mod_Suc)
    have "length ?buf = Suc ?n" using c(1) True by simp
    then have full: "?buf = ?r @ [b]" using data by simp
    have "sha_blocks ?s (?r @ [b]) = (sha256_transform ?s (?r @ [b]), [])"
      using n True by (simp add: sha_blocks_block sha_blocks_small)
    then show ?thesis unfolding sl_rep_def upd app using m64 full c(1) n(2) True by simp
  next
    case False
    then have m64: "Suc (length m) mod 64 = Suc ?n" by (simp add: mod_Suc)
    have "Suc ?n < 64" using False n by linarith
    then have "sha_blocks ?s (?r @ [b]) = (?s, ?r @ [b])" using n by (simp add: sha_blocks_small)
    then show ?thesis unfolding sl_rep_def upd app using m64 data c(1,2) by simp
  qed
qed

lemma sl_rep_update: "sl_rep c m \<Longrightarrow> sl_rep (sl_sha256_update t c) (m @ t)"
proof (induction t arbitrary: c m)
  case (Cons b t)
  have "sl_rep (sl_sha256_update t (sl_update_byte b c)) ((m @ [b]) @ t)"
    by (rule Cons.IH) (rule sl_rep_byte [OF Cons.prems])
  then show ?case by (simp add: sl_sha256_update_def)
qed (simp add: sl_sha256_update_def)

lemma byte_of_ucast: "byte_of i v = ucast (drop_bit (8 * i) v)"
  by (rule bit_word_eqI) (auto simp: bit_byte_of bit_simps)

lemma sl_bits_eq: "map (\<lambda>i. ucast (drop_bit (56 - i * 8) (v :: u64))) [0..<8] = be_bytes64 v"
  by (simp add: be_bytes64_def le_bytes_def byte_of_ucast upt_rec)

lemma sl_digest_eq:
  "concat (map (\<lambda>w. [ucast (drop_bit 24 w), ucast (drop_bit 16 w), ucast (drop_bit 8 w), ucast w]) s)
    = digest_bytes s"
  by (simp add: digest_bytes_def le_bytes_def byte_of_ucast upt_rec)

lemma sl_rep_final:
  assumes "sl_rep c m"
  shows "sl_sha256_final c = sha256_spec m"
proof -
  let ?n = "length m mod 64"
  have cnt: "slc_count c = of_nat (length m)" using assms by (simp add: sl_rep_def)
  have n: "?n < 64" by simp
  have r: "unat (slc_count c mod 64) = ?n" using cnt by (simp add: count_mod64)
  define pad where "pad = (if ?n < 56 then 56 - ?n else 120 - ?n)"
  have "unat (if slc_count c mod 64 < 56 then 56 - slc_count c mod 64 else 120 - slc_count c mod 64) = pad"
    using r n by (auto simp: pad_def word_less_nat_alt unat_sub word_le_nat_alt)
  moreover have "0 < pad" using n by (auto simp: pad_def)
  moreover have "pad - 1 = (if ?n < 56 then 55 - ?n else 119 - ?n)" by (auto simp: pad_def)
  moreover have "slc_count c * 8 = of_nat (8 * length m)" using cnt by (simp add: mult.commute)
  ultimately have "sl_sha256_final c = digest_bytes (slc_state
      (sl_sha256_update (be_bytes64 (of_nat (8 * length m)))
        (sl_sha256_update (replicate (if ?n < 56 then 55 - ?n else 119 - ?n) 0) (sl_sha256_update [0x80] c))))"
    by (auto simp: sl_sha256_final_def Let_def sl_bits_eq sl_digest_eq sl_sha256_update_def)
  moreover have "sha_pad m = ((m @ [0x80]) @ replicate (if ?n < 56 then 55 - ?n else 119 - ?n) 0) @
      be_bytes64 (of_nat (8 * length m))" by (simp add: sha_pad_def Let_def)
  moreover have "sl_rep (sl_sha256_update (be_bytes64 (of_nat (8 * length m)))
        (sl_sha256_update (replicate (if ?n < 56 then 55 - ?n else 119 - ?n) 0) (sl_sha256_update [0x80] c)))
      (((m @ [0x80]) @ replicate (if ?n < 56 then 55 - ?n else 119 - ?n) 0) @ be_bytes64 (of_nat (8 * length m)))"
    by (rule sl_rep_update [OF sl_rep_update [OF sl_rep_update [OF assms]]])
  ultimately show ?thesis by (simp only: sl_rep_def sha256_spec_def)
qed

lemma sl_sha256_spec: "sl_sha256 m = sha256_spec m"
proof -
  have i: "sl_rep (sl_sha256_init sl_fresh_ctx) []" by (rule sl_rep_init) (simp add: sl_fresh_ctx_def)
  have "sl_rep (if length m > 0 then sl_sha256_update m (sl_sha256_init sl_fresh_ctx)
      else sl_sha256_init sl_fresh_ctx) m"
    using sl_rep_update [OF i, of m] i by auto
  then show ?thesis unfolding sl_sha256_def Let_def by (rule sl_rep_final)
qed

lemma sl_key_block_eq: "sl_key_block key = hmac_key_block key"
  by (auto simp: sl_key_block_def hmac_key_block_def Let_def sl_sha256_spec sha256_eq_spec)

lemma sl_hmac_eq: "sl_hmac_sha256 key data = hmac_sha256 key data"
proof -
  have i: "sl_rep (sl_sha256_init sl_fresh_ctx) []" by (rule sl_rep_init) (simp add: sl_fresh_ctx_def)
  have two: "sl_sha256_final (if length b > 0 then sl_sha256_update b (sl_sha256_update a (sl_sha256_init sl_fresh_ctx))
        else sl_sha256_update a (sl_sha256_init sl_fresh_ctx)) = sha256_spec (a @ b)" for a b
    using sl_rep_final [OF sl_rep_update [OF sl_rep_update [OF i]], of b a] sl_rep_final [OF sl_rep_update [OF i], of a]
    by auto
  have two': "sl_sha256_final (sl_sha256_update b (sl_sha256_update a (sl_sha256_init sl_fresh_ctx))) = sha256_spec (a @ b)" for a b
    using sl_rep_final [OF sl_rep_update [OF sl_rep_update [OF i]], of b a] by simp
  have core: "sha256_final (sha256_update b (sha256_update a (sha256_init fresh_ctx))) = sha256_spec (a @ b)" for a b
    using ctx_rep_final [OF ctx_rep_update [OF ctx_rep_update [OF ctx_rep_init [of fresh_ctx]]]]
    by (simp add: fresh_ctx_def)
  show ?thesis
    unfolding sl_hmac_sha256_def hmac_sha256_def Let_def two two' core sl_key_block_eq ..
qed

text \<open>
  The security layer's own SHA-256 and HMAC-SHA-256 compute the same digests and tags as the
  core's, on every message and key.
\<close>

theorem sl_digests_agree: "sl_sha256 m = sha256 m \<and> sl_hmac_sha256 key data = hmac_sha256 key data"
  by (simp add: sl_sha256_spec sha256_eq_spec sl_hmac_eq)

end
