(* ===== verification/Plane_Authenticator.thy ===== *)
theory Plane_Authenticator
  imports Security_Session Replay_Window SL_Sha256 Event_Envelopes Sha256
begin

unbundle bit_operations_syntax

text \<open>
  \<open>LiNeP-SL/src/v0_2/authenticator.cpp\<close> and \<open>plane_authenticator.cpp\<close>: the HMAC authenticator, and
  signing and verification of control datagrams, requests, events and control messages within a
  security session. Shown are their round trips, what an accepted tag binds, the protection against
  replays and its gap for events, and which sessions can authenticate at all.
\<close>

section \<open>The HMAC authenticator\<close>

definition constant_time_equals :: "bytes \<Rightarrow> bytes \<Rightarrow> nat \<Rightarrow> bool" where
  "constant_time_equals a b len = (fold (\<lambda>i diff. diff OR (a ! i XOR b ! i)) [0..<len] (0 :: u8) = 0)"

text \<open>A vector's data is null only when it is empty: the digest of a vector always exists.\<close>

definition compute_sha256_digest :: "bytes \<Rightarrow> bytes option" where
  "compute_sha256_digest data = Some (sl_sha256 data)"

record hmac_authenticator =
  ha_suite :: crypto_suite
  ha_tag_size :: nat

definition hmac_sha256_authenticator :: "crypto_suite \<Rightarrow> hmac_authenticator" where
  "hmac_sha256_authenticator suite =
     \<lparr>ha_suite = suite, ha_tag_size = (if suite = cs_hmac_sha256_128 then 16 else 32)\<rparr>"

definition auth_sign :: "hmac_authenticator \<Rightarrow> bytes \<Rightarrow> bytes \<Rightarrow> bytes option" where
  "auth_sign a input key =
     (if key = [] \<or> input = [] then None else Some (take (ha_tag_size a) (sl_hmac_sha256 key input)))"

definition auth_verify :: "hmac_authenticator \<Rightarrow> bytes \<Rightarrow> bytes \<Rightarrow> bytes \<Rightarrow> bool" where
  "auth_verify a input key tag =
     (if length tag \<noteq> ha_tag_size a then False
      else case auth_sign a input key of None \<Rightarrow> False
      | Some expected \<Rightarrow> constant_time_equals tag expected (ha_tag_size a))"

definition create_authenticator :: "crypto_suite \<Rightarrow> hmac_authenticator option" where
  "create_authenticator suite =
     (if suite = cs_hmac_sha256_128 then Some (hmac_sha256_authenticator suite) else None)"

section \<open>Bindings of messages\<close>

datatype verification_status = Verify_Ok | Session_Inactive | Level_Insufficient | Suite_Unsupported
  | Digest_Failed | Signature_Invalid | Replay_Rejected | Sequence_Regression | Direction_Mismatch
  | Epoch_Lease_Mismatch | Binding_Invalid | Endpoint_Mismatch

datatype session_participant_role = Role_Unknown | Role_Initiator | Role_Responder

definition extract_session_identity :: "session_record \<Rightarrow> sl_direction \<Rightarrow> security_session_identity" where
  "extract_session_identity s direction =
     (let peer = (if direction = dir_initiator then sr_initiator s else sr_responder s)
      in \<lparr>si_session_id = sr_session_id s, si_security_epoch = sr_security_epoch s, si_key_id = sr_key_id s,
          si_trust_domain_id = ap_trust_domain_id peer, si_subject_id = ap_subject_id peer\<rparr>)"

definition common_binding_of :: "session_record \<Rightarrow> sl_direction \<Rightarrow> security_level \<Rightarrow> security_action \<Rightarrow> bytes
    \<Rightarrow> common_binding" where
  "common_binding_of s direction required_level action content_digest =
     \<lparr>cb_session = extract_session_identity s direction, cb_direction = direction,
      cb_negotiated_level = sr_negotiated_level s, cb_required_level = required_level,
      cb_action = action, cb_digest = dg_sha256, cb_content_digest = content_digest\<rparr>"

definition control_binding_of :: "session_record \<Rightarrow> sl_direction \<Rightarrow> security_level \<Rightarrow> security_action
    \<Rightarrow> udp_control_datagram \<Rightarrow> bytes \<Rightarrow> control_plane_binding" where
  "control_binding_of s direction required_level action d content_digest =
     \<lparr>cp_common = common_binding_of s direction required_level action content_digest,
      cp_endpoint = \<lparr>node_id = dg_node_id d, runtime_id = dg_runtime_id d, endpoint_id = dg_endpoint_id d\<rparr>,
      cp_control_epoch = dg_control_epoch d, cp_control_seq = dg_control_seq d,
      cp_lease_token = dg_lease_token d, cp_lease_bound = (dg_lease_token d \<noteq> 0)\<rparr>"

definition data_binding_of :: "session_record \<Rightarrow> sl_direction \<Rightarrow> security_level \<Rightarrow> security_action
    \<Rightarrow> data_message_class \<Rightarrow> stream_identity \<Rightarrow> u64 \<Rightarrow> u32 \<Rightarrow> bool \<Rightarrow> bytes \<Rightarrow> data_plane_binding" where
  "data_binding_of s direction required_level action cls stream event_seq fragment_seq has_fragment_seq content_digest =
     \<lparr>dp_common = common_binding_of s direction required_level action content_digest,
      dp_message_class = cls, dp_stream = stream, dp_event_seq = event_seq,
      dp_fragment_seq = fragment_seq, dp_has_fragment_seq = has_fragment_seq\<rparr>"


section \<open>Tags\<close>

text \<open>The last steps of every \<open>sign_\<close> and \<open>verify_\<close> function, from the encoded input on.\<close>

definition sign_input :: "session_record \<Rightarrow> bytes \<Rightarrow> bytes option \<Rightarrow> bytes option" where
  "sign_input s key auth_input =
     (case auth_input of None \<Rightarrow> None
      | Some inp \<Rightarrow> (case create_authenticator (sr_suite s) of None \<Rightarrow> None
        | Some a \<Rightarrow> auth_sign a inp key))"

definition verify_input :: "session_record \<Rightarrow> bytes \<Rightarrow> bytes option \<Rightarrow> bytes \<Rightarrow> verification_status" where
  "verify_input s key auth_input tag =
     (case auth_input of None \<Rightarrow> Binding_Invalid
      | Some inp \<Rightarrow> (case create_authenticator (sr_suite s) of None \<Rightarrow> Suite_Unsupported
        | Some a \<Rightarrow> if \<not> auth_verify a inp key tag then Signature_Invalid else Verify_Ok))"

definition session_refuses :: "session_record \<Rightarrow> security_level \<Rightarrow> u64 \<Rightarrow> verification_status option" where
  "session_refuses s required_level now_us =
     (if \<not> session_is_active_at s now_us then Some Session_Inactive
      else if sr_negotiated_level s < required_level then Some Level_Insufficient
      else None)"

section \<open>The control plane\<close>

definition sign_control_datagram :: "session_record \<Rightarrow> bytes \<Rightarrow> sl_direction \<Rightarrow> security_level
    \<Rightarrow> security_action \<Rightarrow> udp_control_datagram \<Rightarrow> bytes option" where
  "sign_control_datagram s key direction required_level action d =
     (case compute_sha256_digest (encode_control_datagram d) of None \<Rightarrow> None
      | Some content_digest \<Rightarrow>
          let binding = control_binding_of s direction required_level action d content_digest
          in if \<not> control_binding_is_valid binding then None
             else sign_input s key (encode_control_input binding))"

definition verify_control_datagram :: "session_record \<Rightarrow> bytes \<Rightarrow> sl_direction \<Rightarrow> security_level
    \<Rightarrow> security_action \<Rightarrow> udp_control_datagram \<Rightarrow> bytes \<Rightarrow> sliding_replay_window \<Rightarrow> u64
    \<Rightarrow> sliding_replay_window \<times> verification_status" where
  "verify_control_datagram s key direction required_level action d tag w now_us =
     (case session_refuses s required_level now_us of Some e \<Rightarrow> (w, e)
      | None \<Rightarrow>
          if window_check w (dg_control_seq d) \<noteq> Accepted_Seq then (w, Replay_Rejected)
          else (case compute_sha256_digest (encode_control_datagram d) of None \<Rightarrow> (w, Digest_Failed)
            | Some content_digest \<Rightarrow>
                let binding = control_binding_of s direction required_level action d content_digest
                in if \<not> control_binding_is_valid binding then (w, Binding_Invalid)
                   else (case verify_input s key (encode_control_input binding) tag of
                     Verify_Ok \<Rightarrow> (fst (window_update w (dg_control_seq d)), Verify_Ok)
                   | e \<Rightarrow> (w, e))))"

section \<open>The data plane\<close>

definition sign_data :: "session_record \<Rightarrow> bytes \<Rightarrow> sl_direction \<Rightarrow> security_level \<Rightarrow> security_action
    \<Rightarrow> data_message_class \<Rightarrow> stream_identity \<Rightarrow> u64 \<Rightarrow> u32 \<Rightarrow> bool \<Rightarrow> bytes \<Rightarrow> bytes option" where
  "sign_data s key direction required_level action cls stream event_seq fragment_seq has_fragment_seq raw_payload =
     (case compute_sha256_digest raw_payload of None \<Rightarrow> None
      | Some content_digest \<Rightarrow>
          let binding = data_binding_of s direction required_level action cls stream event_seq fragment_seq
            has_fragment_seq content_digest
          in if \<not> data_binding_is_valid binding then None
             else sign_input s key (encode_data_input binding))"

definition verify_data :: "session_record \<Rightarrow> bytes \<Rightarrow> sl_direction \<Rightarrow> security_level \<Rightarrow> security_action
    \<Rightarrow> data_message_class \<Rightarrow> stream_identity \<Rightarrow> u64 \<Rightarrow> u32 \<Rightarrow> bool \<Rightarrow> bytes \<Rightarrow> bytes \<Rightarrow> verification_status" where
  "verify_data s key direction required_level action cls stream event_seq fragment_seq has_fragment_seq raw_payload tag =
     (case compute_sha256_digest raw_payload of None \<Rightarrow> Digest_Failed
      | Some content_digest \<Rightarrow>
          let binding = data_binding_of s direction required_level action cls stream event_seq fragment_seq
            has_fragment_seq content_digest
          in if \<not> data_binding_is_valid binding then Binding_Invalid
             else verify_input s key (encode_data_input binding) tag)"

definition sign_request :: "session_record \<Rightarrow> bytes \<Rightarrow> sl_direction \<Rightarrow> security_level \<Rightarrow> security_action
    \<Rightarrow> request_envelope \<Rightarrow> bytes \<Rightarrow> bytes option" where
  "sign_request s key direction required_level action req raw_payload =
     sign_data s key direction required_level action dm_request (req_stream req) 0 0 False raw_payload"

definition verify_request :: "session_record \<Rightarrow> bytes \<Rightarrow> sl_direction \<Rightarrow> security_level \<Rightarrow> security_action
    \<Rightarrow> request_envelope \<Rightarrow> bytes \<Rightarrow> bytes \<Rightarrow> u64 \<Rightarrow> verification_status" where
  "verify_request s key direction required_level action req raw_payload tag now_us =
     (case session_refuses s required_level now_us of Some e \<Rightarrow> e
      | None \<Rightarrow> verify_data s key direction required_level action dm_request (req_stream req) 0 0 False raw_payload tag)"

text \<open>The fragment number is a \<open>uint64_t\<close> parameter that the \<open>uint32_t\<close> field of the binding truncates.\<close>

definition sign_event :: "session_record \<Rightarrow> bytes \<Rightarrow> sl_direction \<Rightarrow> security_level \<Rightarrow> security_action
    \<Rightarrow> event_envelope \<Rightarrow> bytes \<Rightarrow> u64 \<Rightarrow> bool \<Rightarrow> bytes option" where
  "sign_event s key direction required_level action evt raw_payload fragment_seq has_fragment_seq =
     sign_data s key direction required_level action dm_event (evt_stream evt) (evt_event_seq evt)
       (ucast fragment_seq) has_fragment_seq raw_payload"

definition verify_event :: "session_record \<Rightarrow> bytes \<Rightarrow> sl_direction \<Rightarrow> security_level \<Rightarrow> security_action
    \<Rightarrow> event_envelope \<Rightarrow> bytes \<Rightarrow> u64 \<Rightarrow> bool \<Rightarrow> bytes \<Rightarrow> monotonic_stream_tracker \<Rightarrow> u64
    \<Rightarrow> monotonic_stream_tracker \<times> verification_status" where
  "verify_event s key direction required_level action evt raw_payload fragment_seq has_fragment_seq tag tracker now_us =
     (case session_refuses s required_level now_us of Some e \<Rightarrow> (tracker, e)
      | None \<Rightarrow>
          (case check_and_advance tracker (evt_event_seq evt) fragment_seq has_fragment_seq of
            (tracker, False) \<Rightarrow> (tracker, Sequence_Regression)
          | (tracker, True) \<Rightarrow>
              (tracker, verify_data s key direction required_level action dm_event (evt_stream evt)
                 (evt_event_seq evt) (ucast fragment_seq) has_fragment_seq raw_payload tag)))"

definition sign_control :: "session_record \<Rightarrow> bytes \<Rightarrow> sl_direction \<Rightarrow> security_level \<Rightarrow> security_action
    \<Rightarrow> control_envelope \<Rightarrow> bytes \<Rightarrow> bytes option" where
  "sign_control s key direction required_level action ctrl raw_payload =
     sign_data s key direction required_level action dm_control (ctl_stream ctrl) 0 0 False raw_payload"

definition verify_control :: "session_record \<Rightarrow> bytes \<Rightarrow> sl_direction \<Rightarrow> security_level \<Rightarrow> security_action
    \<Rightarrow> control_envelope \<Rightarrow> bytes \<Rightarrow> bytes \<Rightarrow> u64 \<Rightarrow> verification_status" where
  "verify_control s key direction required_level action ctrl raw_payload tag now_us =
     (case session_refuses s required_level now_us of Some e \<Rightarrow> e
      | None \<Rightarrow> verify_data s key direction required_level action dm_control (ctl_stream ctrl) 0 0 False raw_payload tag)"

section \<open>The transport session\<close>

definition validate_transport_session_binding :: "session_record \<Rightarrow> session_participant_role
    \<Rightarrow> session_bind_envelope \<Rightarrow> u64 \<Rightarrow> verification_status" where
  "validate_transport_session_binding s bound_role b now_us =
     (if bound_role \<noteq> Role_Initiator \<and> bound_role \<noteq> Role_Responder then Binding_Invalid
      else if now_us = 0 then Session_Inactive
      else if sr_state s \<noteq> Sess_Active \<or> \<not> session_is_active_at s now_us then Session_Inactive
      else if \<not> session_bind_is_valid b then Binding_Invalid
      else
        let expected_peer = (if bound_role = Role_Initiator then sr_initiator s else sr_responder s);
            expected_epoch = (if bound_role = Role_Initiator then sr_initiator_control_epoch s
                              else sr_responder_control_epoch s);
            expected_lease = (if bound_role = Role_Initiator then sr_initiator_lease_token s
                              else sr_responder_lease_token s)
        in if bind_identity b \<noteq> ap_endpoint expected_peer then Endpoint_Mismatch
           else if bind_control_epoch b \<noteq> expected_epoch \<or> bind_lease_token b \<noteq> expected_lease
           then Epoch_Lease_Mismatch
           else Verify_Ok)"


section \<open>What a verified tag shows\<close>

lemma constant_time_equals_exact:
  "length a = n \<Longrightarrow> length b = n \<Longrightarrow> constant_time_equals a b n \<longleftrightarrow> a = b"
  by (auto simp: constant_time_equals_def fold_or_zero xor_zero_iff intro: nth_equalityI)

lemma length_sl_hmac [simp]: "length (sl_hmac_sha256 key m) = 32"
  by (simp add: sl_hmac_eq)

text \<open>The tag of an encoded input: the first 16 bytes of its HMAC.\<close>

definition tag_of :: "bytes \<Rightarrow> bytes \<Rightarrow> bytes" where
  "tag_of key inp = take 16 (sl_hmac_sha256 key inp)"

lemma verify_input_ok_iff:
  "verify_input s key i tag = Verify_Ok \<longleftrightarrow>
     (\<exists>inp. i = Some inp \<and> inp \<noteq> [] \<and> sr_suite s = cs_hmac_sha256_128 \<and> key \<noteq> [] \<and> tag = tag_of key inp)"
  unfolding verify_input_def create_authenticator_def hmac_sha256_authenticator_def auth_verify_def auth_sign_def tag_of_def
  by (auto simp: constant_time_equals_exact split: option.splits if_splits)

lemma sign_input_iff:
  "sign_input s key i = Some tag \<longleftrightarrow>
     (\<exists>inp. i = Some inp \<and> inp \<noteq> [] \<and> sr_suite s = cs_hmac_sha256_128 \<and> key \<noteq> [] \<and> tag = tag_of key inp)"
  unfolding sign_input_def create_authenticator_def hmac_sha256_authenticator_def auth_sign_def tag_of_def
  by (auto split: option.splits if_splits)

lemma sign_verify_input: "sign_input s key i = Some tag \<longleftrightarrow> verify_input s key i tag = Verify_Ok"
  by (simp only: sign_input_iff verify_input_ok_iff)

lemma sign_verify_data:
  "sign_data s key d l a c st e f h p = Some tag \<longleftrightarrow> verify_data s key d l a c st e f h p tag = Verify_Ok"
  by (simp add: sign_data_def verify_data_def compute_sha256_digest_def Let_def sign_verify_input)

text \<open>A valid binding names a level that the session has: only an inactive session refuses.\<close>

lemma signed_data_level: "sign_data s key d l a c st e f h p = Some tag \<Longrightarrow> l \<le> sr_negotiated_level s"
  by (auto simp: sign_data_def compute_sha256_digest_def Let_def data_binding_is_valid_def common_is_valid_def
      data_binding_of_def common_binding_of_def split: if_splits)

lemma signed_datagram_level: "sign_control_datagram s key d l a dgm = Some tag \<Longrightarrow> l \<le> sr_negotiated_level s"
  by (auto simp: sign_control_datagram_def compute_sha256_digest_def Let_def control_binding_is_valid_def
      common_is_valid_def control_binding_of_def common_binding_of_def split: if_splits)

lemma session_accepts: "session_is_active_at s now \<Longrightarrow> l \<le> sr_negotiated_level s \<Longrightarrow> session_refuses s l now = None"
  by (simp add: session_refuses_def)

lemma session_refuses_not_ok [simp]: "session_refuses s l now \<noteq> Some Verify_Ok"
  by (simp add: session_refuses_def)

lemma datagram_verify_ok_iff:
  "snd (verify_control_datagram s key d l a dgm tag w now) = Verify_Ok \<longleftrightarrow>
     session_refuses s l now = None \<and> window_check w (dg_control_seq dgm) = Accepted_Seq \<and>
     sign_control_datagram s key d l a dgm = Some tag"
  by (auto simp: verify_control_datagram_def sign_control_datagram_def compute_sha256_digest_def Let_def
      sign_verify_input session_refuses_def split: option.splits verification_status.splits if_splits)

lemma datagram_verify_window:
  "fst (verify_control_datagram s key d l a dgm tag w now) =
     (if snd (verify_control_datagram s key d l a dgm tag w now) = Verify_Ok
      then fst (check_and_update w (dg_control_seq dgm)) else w)"
  by (auto simp: verify_control_datagram_def compute_sha256_digest_def Let_def check_and_update_def session_refuses_def
      split: option.splits verification_status.splits if_splits)

text \<open>
  Signing and verification agree on every message class. A datagram, request, event or control
  message signed with a key verifies with it in the same direction, at the same level and for the
  same action, as long as the session is active and (for datagrams and events) the number is fresh;
  the receiver then records the number.
\<close>

theorem signed_messages_verify:
  assumes "session_is_active_at s now"
  shows "(sign_control_datagram s key d l a dgm = Some tag \<and> window_check w (dg_control_seq dgm) = Accepted_Seq \<longrightarrow>
      verify_control_datagram s key d l a dgm tag w now = (fst (check_and_update w (dg_control_seq dgm)), Verify_Ok)) \<and>
    (sign_request s key d l a req p = Some tag \<longrightarrow> verify_request s key d l a req p tag now = Verify_Ok) \<and>
    (sign_control s key d l a ctl p = Some tag \<longrightarrow> verify_control s key d l a ctl p tag now = Verify_Ok) \<and>
    (sign_event s key d l a evt p f h = Some tag \<and> check_and_advance t (evt_event_seq evt) f h = (t', True) \<longrightarrow>
      verify_event s key d l a evt p f h tag t now = (t', Verify_Ok))"
proof (intro conjI impI; (elim conjE)?)
  assume 1: "sign_control_datagram s key d l a dgm = Some tag" "window_check w (dg_control_seq dgm) = Accepted_Seq"
  have "session_refuses s l now = None" using assms signed_datagram_level [OF 1(1)] by (rule session_accepts)
  with 1 have "snd (verify_control_datagram s key d l a dgm tag w now) = Verify_Ok" by (simp add: datagram_verify_ok_iff)
  with datagram_verify_window [of s key d l a dgm tag w now]
  show "verify_control_datagram s key d l a dgm tag w now = (fst (check_and_update w (dg_control_seq dgm)), Verify_Ok)"
    by (metis prod.collapse)
qed (simp_all add: sign_request_def verify_request_def sign_control_def verify_control_def sign_event_def verify_event_def
  session_accepts [OF assms signed_data_level] sign_verify_data)

section \<open>A tag binds its message\<close>

text \<open>A message with the endpoint's view of it: what was received and under which class.\<close>

datatype sl_message = Sl_Datagram udp_control_datagram | Sl_Request request_envelope bytes
  | Sl_Event event_envelope bytes u64 bool | Sl_Control control_envelope bytes

fun verifies :: "session_record \<Rightarrow> bytes \<Rightarrow> sl_direction \<Rightarrow> security_level \<Rightarrow> security_action \<Rightarrow> sl_message \<Rightarrow> bytes
    \<Rightarrow> sliding_replay_window \<Rightarrow> monotonic_stream_tracker \<Rightarrow> u64 \<Rightarrow> bool" where
  "verifies s key d l a (Sl_Datagram dgm) tag w t now = (snd (verify_control_datagram s key d l a dgm tag w now) = Verify_Ok)"
| "verifies s key d l a (Sl_Request req p) tag w t now = (verify_request s key d l a req p tag now = Verify_Ok)"
| "verifies s key d l a (Sl_Event evt p f h) tag w t now = (snd (verify_event s key d l a evt p f h tag t now) = Verify_Ok)"
| "verifies s key d l a (Sl_Control ctl p) tag w t now = (verify_control s key d l a ctl p tag now = Verify_Ok)"

text \<open>What the tag of a message covers, and the bytes whose digest it covers.\<close>

fun message_content :: "sl_message \<Rightarrow> bytes" where
  "message_content (Sl_Datagram dgm) = encode_control_datagram dgm"
| "message_content (Sl_Request req p) = p"
| "message_content (Sl_Event evt p f h) = p"
| "message_content (Sl_Control ctl p) = p"

fun message_position :: "sl_message \<Rightarrow> (data_message_class \<times> stream_identity \<times> u64 \<times> u32 \<times> bool) option" where
  "message_position (Sl_Datagram dgm) = None"
| "message_position (Sl_Request req p) = Some (dm_request, req_stream req, 0, 0, False)"
| "message_position (Sl_Event evt p f h) = Some (dm_event, evt_stream evt, evt_event_seq evt, ucast f, h)"
| "message_position (Sl_Control ctl p) = Some (dm_control, ctl_stream ctl, 0, 0, False)"

definition data_input_at :: "session_record \<Rightarrow> sl_direction \<Rightarrow> security_level \<Rightarrow> security_action \<Rightarrow> bytes
    \<Rightarrow> data_message_class \<times> stream_identity \<times> u64 \<times> u32 \<times> bool \<Rightarrow> bytes option" where
  "data_input_at s d l a p pos = (case pos of (c, st, e, f, h) \<Rightarrow>
     encode_data_input (data_binding_of s d l a c st e f h (sl_sha256 p)))"

definition message_input :: "session_record \<Rightarrow> sl_direction \<Rightarrow> security_level \<Rightarrow> security_action \<Rightarrow> sl_message
    \<Rightarrow> bytes option" where
  "message_input s d l a m = (case m of
     Sl_Datagram dgm \<Rightarrow> encode_control_input (control_binding_of s d l a dgm (sl_sha256 (encode_control_datagram dgm)))
   | _ \<Rightarrow> data_input_at s d l a (message_content m) (the (message_position m)))"

lemma verify_data_input:
  "verify_data s key d l a c st e f h p tag = Verify_Ok \<Longrightarrow>
     (\<exists>inp. data_input_at s d l a p (c, st, e, f, h) = Some inp \<and> tag = tag_of key inp)"
  by (auto simp: verify_data_def compute_sha256_digest_def Let_def verify_input_ok_iff data_input_at_def split: if_splits)

lemma verifies_input:
  assumes "verifies s key d l a m tag w t now"
  shows "\<exists>inp. message_input s d l a m = Some inp \<and> tag = tag_of key inp"
proof (cases m)
  case (Sl_Datagram dgm)
  then have "sign_control_datagram s key d l a dgm = Some tag" using assms by (simp add: datagram_verify_ok_iff)
  then show ?thesis using Sl_Datagram
    by (auto simp: sign_control_datagram_def compute_sha256_digest_def Let_def sign_input_iff message_input_def
        split: if_splits)
qed (use assms in \<open>auto simp: verify_request_def verify_event_def verify_control_def message_input_def
  dest!: verify_data_input split: option.splits prod.splits bool.splits\<close>)

lemma message_input_data:
  "message_position m = Some pos \<Longrightarrow> message_input s d l a m = data_input_at s d l a (message_content m) pos"
  by (cases m) (simp_all add: message_input_def)

lemma message_input_control:
  "message_position m = None \<Longrightarrow> message_input s d l a m =
     encode_control_input (control_binding_of s d l a (case m of Sl_Datagram dgm \<Rightarrow> dgm) (sl_sha256 (message_content m)))"
  by (cases m) (simp_all add: message_input_def)

lemma data_input_at_inj:
  assumes "data_input_at s d l a p pos = Some x" and "data_input_at s' d' l' a' p' pos' = Some x"
  shows "extract_session_identity s d = extract_session_identity s' d' \<and> d = d' \<and>
    sr_negotiated_level s = sr_negotiated_level s' \<and> l = l' \<and> a = a' \<and> pos = pos' \<and> sl_sha256 p = sl_sha256 p'"
proof -
  obtain c st e f h c' st' e' f' h' where pos: "pos = (c, st, e, f, h)" "pos' = (c', st', e', f', h')"
    by (cases pos; cases pos') auto
  from assms have "data_binding_of s d l a c st e f h (sl_sha256 p) = data_binding_of s' d' l' a' c' st' e' f' h' (sl_sha256 p')"
    unfolding data_input_at_def pos by (auto intro: data_input_inj)
  then show ?thesis by (auto simp: pos data_binding_of_def common_binding_of_def)
qed

lemma message_input_inj:
  assumes "message_input s d l a m = Some x" and "message_input s' d' l' a' m' = Some x"
  shows "extract_session_identity s d = extract_session_identity s' d' \<and> d = d' \<and>
    sr_negotiated_level s = sr_negotiated_level s' \<and> l = l' \<and> a = a' \<and>
    message_position m = message_position m' \<and> sl_sha256 (message_content m) = sl_sha256 (message_content m')"
proof (cases "message_position m")
  case None
  note m = message_input_control [OF None]
  show ?thesis
  proof (cases "message_position m'")
    case N: None
    from control_input_inj [OF assms(1) [unfolded m] assms(2) [unfolded message_input_control [OF N]]]
    show ?thesis by (auto simp: control_binding_of_def common_binding_of_def None N)
  next
    case (Some pos)
    with planes_separated [OF assms(1) [unfolded m]] assms(2) show ?thesis
      by (cases pos) (auto simp: message_input_data data_input_at_def)
  qed
next
  case (Some pos)
  note m = message_input_data [OF Some]
  show ?thesis
  proof (cases "message_position m'")
    case None
    with planes_separated [OF assms(2) [unfolded message_input_control [OF None]]] assms(1) show ?thesis
      by (cases pos) (auto simp: m data_input_at_def)
  next
    case S: (Some pos')
    from data_input_at_inj [OF assms(1) [unfolded m] assms(2) [unfolded message_input_data [OF S]]]
    show ?thesis by (auto simp: Some S)
  qed
qed


section \<open>Replays and forgeries\<close>

text \<open>A sequence of datagrams received on one window, each under the session and key then in force.\<close>

type_synonym datagram_receipt =
  "session_record \<times> bytes \<times> sl_direction \<times> security_level \<times> security_action \<times> udp_control_datagram \<times> bytes \<times> u64"

definition receipt_seq :: "datagram_receipt \<Rightarrow> u64" where
  "receipt_seq r = (case r of (s, key, d, l, a, dgm, tag, now) \<Rightarrow> dg_control_seq dgm)"

fun receive_datagrams :: "sliding_replay_window \<Rightarrow> datagram_receipt list \<Rightarrow> verification_status list" where
  "receive_datagrams w [] = []"
| "receive_datagrams w ((s, key, d, l, a, dgm, tag, now) # rs) =
     (let (w, st) = verify_control_datagram s key d l a dgm tag w now in st # receive_datagrams w rs)"

lemma receive_datagrams_step:
  assumes "window_rep w A"
  shows "\<exists>w' st. receive_datagrams w (r # rs) = st # receive_datagrams w' rs \<and>
    window_rep w' (if st = Verify_Ok then insert (unat (receipt_seq r)) A else A) \<and>
    (st = Verify_Ok \<longrightarrow> unat (receipt_seq r) \<notin> A)"
proof -
  obtain s key d l a dgm tag now where r: "r = (s, key, d, l, a, dgm, tag, now)" by (cases r) auto
  obtain w' st where v: "verify_control_datagram s key d l a dgm tag w now = (w', st)" by fastforce
  obtain w2 st2 where c: "check_and_update w (dg_control_seq dgm) = (w2, st2)" by fastforce
  note ref = check_and_update_refines [OF assms c]
  have w': "w' = (if st = Verify_Ok then w2 else w)"
    using datagram_verify_window [of s key d l a dgm tag w now] v c by simp
  have fresh: "st2 = Accepted_Seq \<and> unat (dg_control_seq dgm) \<notin> A" if "st = Verify_Ok"
  proof -
    have "window_check w (dg_control_seq dgm) = Accepted_Seq"
      using that v datagram_verify_ok_iff [of s key d l a dgm tag w now] by simp
    then have "st2 = Accepted_Seq" using c
      by (auto simp: check_and_update_def window_update_def window_check_def Let_def split: if_splits)
    then show ?thesis using ref by (auto simp: spec_status_def split: if_splits)
  qed
  show ?thesis using v w' ref fresh assms by (auto simp: r receipt_seq_def)
qed

lemma receive_datagrams_fresh:
  "window_rep w A \<Longrightarrow> j < length rs \<Longrightarrow> receive_datagrams w rs ! j = Verify_Ok \<Longrightarrow> unat (receipt_seq (rs ! j)) \<notin> A"
proof (induction rs arbitrary: w A j)
  case (Cons r rs)
  obtain w' st where s: "receive_datagrams w (r # rs) = st # receive_datagrams w' rs"
    "window_rep w' (if st = Verify_Ok then insert (unat (receipt_seq r)) A else A)"
    "st = Verify_Ok \<longrightarrow> unat (receipt_seq r) \<notin> A"
    using receive_datagrams_step [OF Cons.prems(1), of r rs] by blast
  show ?case
  proof (cases j)
    case (Suc k)
    from Cons.IH [OF s(2), of k] Cons.prems s(1) Suc show ?thesis by (auto split: if_splits)
  qed (use s Cons.prems in auto)
qed simp

lemma receive_datagrams_distinct:
  "window_rep w A \<Longrightarrow> i < j \<Longrightarrow> j < length rs \<Longrightarrow> receive_datagrams w rs ! i = Verify_Ok \<Longrightarrow>
     receive_datagrams w rs ! j = Verify_Ok \<Longrightarrow> receipt_seq (rs ! i) \<noteq> receipt_seq (rs ! j)"
proof (induction rs arbitrary: w A i j)
  case (Cons r rs)
  obtain w' st where s: "receive_datagrams w (r # rs) = st # receive_datagrams w' rs"
    "window_rep w' (if st = Verify_Ok then insert (unat (receipt_seq r)) A else A)"
    using receive_datagrams_step [OF Cons.prems(1), of r rs] by blast
  obtain k where j: "j = Suc k" using Cons.prems(2) by (cases j) auto
  show ?case
  proof (cases i)
    case 0
    with Cons.prems s(1) have "st = Verify_Ok" by simp
    with receive_datagrams_fresh [OF s(2), of k rs] Cons.prems s(1) j 0 show ?thesis by auto
  next
    case (Suc i')
    with Cons.IH [OF s(2), of i' k] Cons.prems s(1) j show ?thesis by simp
  qed
qed simp

text \<open>
  No replay on the control plane. Over any sequence of datagrams, authentic or not, under any
  sessions and keys, no two datagrams with one sequence number are both accepted on a window.
\<close>

theorem datagrams_accepted_once:
  assumes "i < j" and "j < length rs"
    and "receive_datagrams new_window rs ! i = Verify_Ok" and "receive_datagrams new_window rs ! j = Verify_Ok"
  shows "receipt_seq (rs ! i) \<noteq> receipt_seq (rs ! j)"
  using receive_datagrams_distinct [OF window_rep_new(1) assms] .

text \<open>
  A datagram that is refused for any reason leaves the window as it was: a forger without the key
  cannot move it.
\<close>

lemma refused_datagram_keeps_window:
  "snd (verify_control_datagram s key d l a dgm tag w now) \<noteq> Verify_Ok \<Longrightarrow>
     fst (verify_control_datagram s key d l a dgm tag w now) = w"
  by (simp add: datagram_verify_window)

text \<open>
  Events are not protected in this way. verify_event advances the tracker of the stream before
  it looks at the tag, so a forged event with the greatest sequence number, though refused with
  signature_invalid, makes the receiver refuse every later unfragmented event of the stream,
  however it is signed.
\<close>

theorem forged_event_blocks_stream:
  assumes "verify_event s key d l a evt p f h tag t now = (t', Signature_Invalid)"
    and "evt_event_seq evt = - 1"
  shows "snd (verify_event s' key' d' l' a' evt' p' f' False tag' t' now') \<noteq> Verify_Ok"
proof -
  have "check_and_advance t (evt_event_seq evt) f h = (t', True)"
    using assms(1) by (auto simp: verify_event_def session_refuses_def split: option.splits prod.splits bool.splits if_splits)
  then have "st_has_started t'" "st_last_event_seq t' = - 1" using tracker_advances assms(2) by metis+
  then have "\<not> snd (check_and_advance t' e f' False)" for e
    by (auto simp: check_and_advance_def)
  then show ?thesis
    by (auto simp: verify_event_def session_refuses_def split: option.splits prod.splits bool.splits)
      (metis snd_conv)
qed

text \<open>The tag of fragment \<open>f\<close> is the tag of fragment \<open>f + 2 ^ 32\<close>: the binding keeps 32 bits of the number.\<close>

lemma fragment_number_truncated:
  "sign_event s key d l a evt p (f + 2 ^ 32) h = sign_event s key d l a evt p f h"
proof -
  have "(ucast (f + 2 ^ 32 :: u64) :: u32) = ucast f"
    by transfer (simp add: take_bit_eq_mod mod_mod_cancel)
  then show ?thesis by (simp add: sign_event_def)
qed

section \<open>Which sessions can sign\<close>

text \<open>
  Only SL1 sessions can exchange authenticated messages. For a session of a reachable registry
  negotiated at any other level, nothing can be signed and no message verifies: the negotiation gives
  such a session an AEAD suite, for which \<open>create_authenticator\<close> has no authenticator.
\<close>

theorem only_sl1_sessions_authenticate:
  assumes "registry_reachable r" and "get_session r k = Some s" and "sr_negotiated_level s \<noteq> sl1_authenticated"
  shows "sign_control_datagram s key d l a dgm = None \<and> sign_request s key d l a req p = None \<and>
    sign_event s key d l a evt p f h = None \<and> sign_control s key d l a ctl p = None \<and>
    \<not> verifies s key d l a m tag w t now"
proof -
  obtain io ro pol where "negotiated_by s io ro pol"
    using registry_inv [OF assms(1)] assms(2) unfolding registered_inv_def get_session_def by blast
  then have suite: "sr_suite s \<noteq> cs_hmac_sha256_128"
    using assms(3) by (auto simp: negotiated_by_def suite_supports_level_def)
  then have no_sign: "sign_input s key i = None" and no_verify: "verify_input s key i tag \<noteq> Verify_Ok" for i tag
    using sign_input_iff verify_input_ok_iff by (metis option.exhaust, metis)
  then have no_data: "sign_data s key d l a c st e f h p = None"
    "verify_data s key d l a c st e f h p tag \<noteq> Verify_Ok" for d l a c st e f h p tag
    by (simp_all add: sign_data_def verify_data_def compute_sha256_digest_def Let_def)
  have no_dgm: "sign_control_datagram s key d l a dgm = None" for dgm
    using no_sign by (simp add: sign_control_datagram_def compute_sha256_digest_def Let_def)
  have "\<not> verifies s key d l a m tag w t now"
    by (cases m) (use no_dgm no_data in \<open>auto simp: datagram_verify_ok_iff verify_request_def verify_event_def
      verify_control_def session_refuses_def split: option.splits prod.splits bool.splits\<close>)
  with no_dgm no_data show ?thesis by (simp add: sign_request_def sign_event_def sign_control_def)
qed

text \<open>
  The bridge between a transport session and a security session. A SESSION_BIND is accepted for a
  role exactly when the security session is active at the given non-zero time and the envelope is
  valid and names the endpoint, control epoch and lease the session was negotiated with for that role.
\<close>

theorem transport_binding_exact:
  "validate_transport_session_binding s role b now = Verify_Ok \<longleftrightarrow>
     now \<noteq> 0 \<and> session_is_active_at s now \<and> session_bind_is_valid b \<and>
     (role = Role_Initiator \<and> bind_identity b = ap_endpoint (sr_initiator s) \<and>
        bind_control_epoch b = sr_initiator_control_epoch s \<and> bind_lease_token b = sr_initiator_lease_token s \<or>
      role = Role_Responder \<and> bind_identity b = ap_endpoint (sr_responder s) \<and>
        bind_control_epoch b = sr_responder_control_epoch s \<and> bind_lease_token b = sr_responder_lease_token s)"
  by (auto simp: validate_transport_session_binding_def session_is_active_at_def Let_def)

end
