(* ===== verification/Group_Security.thy ===== *)
theory Group_Security
  imports Plane_Authenticator
begin

unbundle bit_operations_syntax

text \<open>
  \<open>LiNeP-SL/src/v0_2/group_security.cpp\<close>: the reference provider of group cryptography. Groups with
  their members, epochs and secrets; creation, membership changes, rekeying and closing; and the
  protection and reception of group messages. The conditions under which a message is accepted are
  stated once, as \<open>acceptable\<close>.
\<close>

section \<open>Groups and members\<close>

type_synonym mls_ciphersuite = u16
abbreviation (input) mls_unknown :: mls_ciphersuite where "mls_unknown \<equiv> 0"

type_synonym group_type = u8
abbreviation (input) gt_unknown :: group_type where "gt_unknown \<equiv> 0"

datatype group_state = Group_Active | Group_Suspended | Group_Closed

type_synonym member_role = u8
abbreviation (input) mr_unknown :: member_role where "mr_unknown \<equiv> 0"
abbreviation (input) mr_coordinator :: member_role where "mr_coordinator \<equiv> 1"

datatype member_status = Member_Unknown | Member_Active | Member_Suspended | Member_Removed | Member_Quarantined

type_synonym group_operation_type = u8
abbreviation (input) go_add_member :: group_operation_type where "go_add_member \<equiv> 2"
abbreviation (input) go_remove_member :: group_operation_type where "go_remove_member \<equiv> 3"
abbreviation (input) go_update_role :: group_operation_type where "go_update_role \<equiv> 4"
abbreviation (input) go_rekey :: group_operation_type where "go_rekey \<equiv> 5"

datatype group_protection_mode = Mode_Unknown | Authenticated_Only | Confidential_And_Authenticated

datatype group_verification_status = Group_Ok | Group_Not_Found | Group_Inactive | Stale_Epoch | Future_Epoch
  | Member_Not_Found | Member_Not_Active | Group_Signature_Invalid | Group_Digest_Failed | Group_Replay_Rejected
  | Group_Binding_Invalid | Group_Suite_Unsupported | Decryption_Failed | Impersonation_Detected

record security_group_member =
  gm_endpoint :: node_endpoint_identity
  gm_trust_domain_id :: u32
  gm_subject_id :: u64
  gm_role :: member_role
  gm_status :: member_status
  gm_joined_epoch :: u64
  gm_credential_revision :: u64
  gm_added_at_us :: u64
  gm_public_key :: bytes

definition member_is_valid :: "security_group_member \<Rightarrow> bool" where
  "member_is_valid m \<longleftrightarrow> node_id (gm_endpoint m) \<noteq> 0 \<and> runtime_id (gm_endpoint m) \<noteq> 0 \<and>
     endpoint_id (gm_endpoint m) \<noteq> 0 \<and> gm_trust_domain_id m \<noteq> 0 \<and> gm_subject_id m \<noteq> 0 \<and>
     gm_role m \<noteq> mr_unknown \<and> gm_status m \<noteq> Member_Unknown"

definition member_is_active :: "security_group_member \<Rightarrow> bool" where
  "member_is_active m \<longleftrightarrow> member_is_valid m \<and> gm_status m = Member_Active"

record group_context =
  gc_group_id :: u64
  gc_group_epoch :: u64
  gc_type :: group_type
  gc_ciphersuite :: mls_ciphersuite
  gc_state :: group_state
  gc_created_at_us :: u64
  gc_epoch_advanced_at_us :: u64
  gc_members :: "security_group_member list"
  gc_execution_group_state_hash :: bytes
  gc_tree_hash :: bytes
  gc_confirmed_transcript_hash :: bytes

record group_message_binding =
  gb_group_id :: u64
  gb_group_epoch :: u64
  gb_sender_endpoint :: node_endpoint_identity
  gb_sender_trust_domain_id :: u32
  gb_sender_subject_id :: u64
  gb_message_class :: data_message_class
  gb_digest :: digest_algorithm
  gb_content_digest :: bytes
  gb_message_seq :: u64
  gb_ratchet_generation :: u32

definition group_binding_is_valid :: "group_message_binding \<Rightarrow> bool" where
  "group_binding_is_valid b \<longleftrightarrow> gb_group_id b \<noteq> 0 \<and> gb_group_epoch b \<noteq> 0 \<and>
     node_id (gb_sender_endpoint b) \<noteq> 0 \<and> runtime_id (gb_sender_endpoint b) \<noteq> 0 \<and>
     endpoint_id (gb_sender_endpoint b) \<noteq> 0 \<and> gb_sender_trust_domain_id b \<noteq> 0 \<and> gb_sender_subject_id b \<noteq> 0 \<and>
     gb_message_class b \<noteq> 0 \<and> gb_digest b \<noteq> 0 \<and> gb_content_digest b \<noteq> [] \<and> gb_message_seq b \<noteq> 0"

record protected_group_message =
  pm_group_id :: u64
  pm_group_epoch :: u64
  pm_mode :: group_protection_mode
  pm_sender_endpoint :: node_endpoint_identity
  pm_message_seq :: u64
  pm_ratchet_generation :: u32
  pm_ciphertext_or_payload :: bytes
  pm_authentication_tag :: bytes

record internal_group_state =
  ig_context :: group_context
  ig_epoch_secret :: bytes
  ig_member_leaf_secrets :: "(node_endpoint_identity, bytes) umap"
  ig_sender_ratchets :: "(node_endpoint_identity, u32) umap"

type_synonym member_replay_key = "u64 \<times> u64 \<times> node_endpoint_identity"

record group_provider =
  gp_groups :: "(u64, internal_group_state) umap"
  gp_replay_windows :: "(member_replay_key, sliding_replay_window) umap"

definition new_group_provider :: group_provider where
  "new_group_provider = \<lparr>gp_groups = [], gp_replay_windows = []\<rparr>"

section \<open>Derivation and encoding\<close>

definition derive_kdf_secret :: "bytes \<Rightarrow> string \<Rightarrow> bytes \<Rightarrow> bytes option" where
  "derive_kdf_secret parent_key label context_info =
     (case create_authenticator cs_hmac_sha256_128 of None \<Rightarrow> None
      | Some auth \<Rightarrow> auth_sign auth (bytes_of_string label @ context_info) parent_key)"

definition encode_group_authenticator_input :: "group_message_binding \<Rightarrow> bytes option" where
  "encode_group_authenticator_input b =
     (if \<not> group_binding_is_valid b then None
      else Some (bytes_of_string ''LNS2GRP'' @ [0] @ write_u8 0 @ write_u8 2 @
        write_u64 (gb_group_id b) @ write_u64 (gb_group_epoch b) @
        write_u64 (node_id (gb_sender_endpoint b)) @ write_u64 (runtime_id (gb_sender_endpoint b)) @
        write_u32 (endpoint_id (gb_sender_endpoint b)) @ write_u32 (gb_sender_trust_domain_id b) @
        write_u64 (gb_sender_subject_id b) @ write_u8 (gb_message_class b) @ write_u8 (gb_digest b) @
        write_u64 (gb_message_seq b) @ write_u32 (gb_ratchet_generation b) @
        write_u16 (of_nat (length (gb_content_digest b))) @ gb_content_digest b))"

definition endpoint_info :: "node_endpoint_identity \<Rightarrow> bytes" where
  "endpoint_info e = write_u64 (node_id e) @ write_u64 (runtime_id e) @ write_u32 (endpoint_id e)"

section \<open>Group operations\<close>

text \<open>
  \<open>fresh\<close> is what \<open>generate_secure_entropy\<close> returns if it is asked. A digest never fails, so the
  returns for a failed \<open>compute_sha256_digest\<close> are not reached.
\<close>

definition entropy_of :: "bytes \<Rightarrow> bytes \<Rightarrow> bytes" where
  "entropy_of given fresh = (if given = [] then fresh else given)"

definition create_group :: "bytes \<Rightarrow> group_provider \<Rightarrow> u64 \<Rightarrow> group_type \<Rightarrow> mls_ciphersuite \<Rightarrow> security_group_member
    \<Rightarrow> bytes \<Rightarrow> u64 \<Rightarrow> group_provider \<times> bool" where
  "create_group fresh p group_id type suite coordinator init_secret now_us =
     (if group_id = 0 \<or> type = gt_unknown \<or> suite = mls_unknown \<or> \<not> member_is_active coordinator \<or>
         gm_role coordinator \<noteq> mr_coordinator \<or> lookup (gp_groups p) group_id \<noteq> None then (p, False)
      else
        let secret = entropy_of init_secret fresh;
            transcript = sl_sha256 (write_u64 group_id @ write_u8 type @ write_u16 suite @
              endpoint_info (gm_endpoint coordinator) @ write_u64 (gm_subject_id coordinator))
        in case derive_kdf_secret secret ''MLS_EPOCH_1_INIT'' transcript of None \<Rightarrow> (p, False)
           | Some epoch_1_secret \<Rightarrow>
               (case derive_kdf_secret secret ''MLS_MEMBER_LEAF_SECRET'' (endpoint_info (gm_endpoint coordinator)) of
                  None \<Rightarrow> (p, False)
                | Some leaf \<Rightarrow>
                    let ctx = \<lparr>gc_group_id = group_id, gc_group_epoch = 1, gc_type = type, gc_ciphersuite = suite,
                          gc_state = Group_Active, gc_created_at_us = now_us, gc_epoch_advanced_at_us = now_us,
                          gc_members = [coordinator\<lparr>gm_joined_epoch := 1, gm_added_at_us := now_us\<rparr>],
                          gc_execution_group_state_hash = transcript, gc_tree_hash = transcript,
                          gc_confirmed_transcript_hash = transcript\<rparr>;
                        st = \<lparr>ig_context = ctx, ig_epoch_secret = epoch_1_secret,
                          ig_member_leaf_secrets = [(gm_endpoint coordinator, leaf)],
                          ig_sender_ratchets = [(gm_endpoint coordinator, 0)]\<rparr>
                    in (p\<lparr>gp_groups := AList.update group_id st (gp_groups p)\<rparr>, True)))"

text \<open>A committed change of the group: the next epoch, with the new transcript as every public hash.\<close>

definition advance_epoch :: "u64 \<Rightarrow> bytes \<Rightarrow> u64 \<Rightarrow> group_context \<Rightarrow> group_context" where
  "advance_epoch next_epoch transcript now_us ctx = ctx\<lparr>gc_group_epoch := next_epoch,
     gc_confirmed_transcript_hash := transcript, gc_execution_group_state_hash := transcript,
     gc_tree_hash := transcript, gc_epoch_advanced_at_us := now_us\<rparr>"

definition active_at :: "node_endpoint_identity \<Rightarrow> security_group_member \<Rightarrow> bool" where
  "active_at e m \<longleftrightarrow> gm_endpoint m = e \<and> gm_status m = Member_Active"

definition set_group :: "u64 \<Rightarrow> internal_group_state \<Rightarrow> group_provider \<Rightarrow> group_provider" where
  "set_group group_id st p = p\<lparr>gp_groups := AList.update group_id st (gp_groups p)\<rparr>"

definition add_member :: "bytes \<Rightarrow> group_provider \<Rightarrow> u64 \<Rightarrow> security_group_member \<Rightarrow> bytes \<Rightarrow> bytes \<Rightarrow> u64
    \<Rightarrow> group_provider \<times> bool" where
  "add_member fresh p group_id m member_public_key join_entropy now_us =
     (case lookup (gp_groups p) group_id of None \<Rightarrow> (p, False)
      | Some st \<Rightarrow>
          let ctx = ig_context st in
          if gc_state ctx \<noteq> Group_Active \<or> \<not> member_is_valid m then (p, False)
          else if list_ex (active_at (gm_endpoint m)) (gc_members ctx) then (p, False)
          else
            let next_epoch = gc_group_epoch ctx + 1;
                entropy = entropy_of join_entropy fresh;
                transcript = sl_sha256 (gc_confirmed_transcript_hash ctx @ write_u8 go_add_member @ write_u64 next_epoch @
                  endpoint_info (gm_endpoint m) @ write_u64 (gm_subject_id m) @ write_u8 (gm_role m))
            in case derive_kdf_secret (ig_epoch_secret st) ''MLS_EPOCH_ADVANCE_ADD'' (transcript @ entropy) of
                 None \<Rightarrow> (p, False)
               | Some secret \<Rightarrow>
                   (case derive_kdf_secret entropy ''MLS_MEMBER_LEAF_SECRET'' (endpoint_info (gm_endpoint m)) of
                      None \<Rightarrow> (p, False)
                    | Some leaf \<Rightarrow>
                        let m' = m\<lparr>gm_status := Member_Active, gm_joined_epoch := next_epoch,
                              gm_added_at_us := now_us, gm_public_key := member_public_key\<rparr>;
                            ctx = advance_epoch next_epoch transcript now_us (ctx\<lparr>gc_members := gc_members ctx @ [m']\<rparr>)
                        in (set_group group_id (st\<lparr>ig_context := ctx, ig_epoch_secret := secret,
                              ig_member_leaf_secrets := AList.update (gm_endpoint m) leaf (ig_member_leaf_secrets st),
                              ig_sender_ratchets := AList.update (gm_endpoint m) 0 (ig_sender_ratchets st)\<rparr>) p, True)))"

text \<open>The loops that change the first active entry of an endpoint.\<close>

fun update_first :: "(security_group_member \<Rightarrow> bool) \<Rightarrow> (security_group_member \<Rightarrow> security_group_member)
    \<Rightarrow> security_group_member list \<Rightarrow> security_group_member list" where
  "update_first P f [] = []"
| "update_first P f (m # ms) = (if P m then f m # ms else m # update_first P f ms)"

definition remove_member :: "bytes \<Rightarrow> group_provider \<Rightarrow> u64 \<Rightarrow> node_endpoint_identity \<Rightarrow> bytes \<Rightarrow> u64
    \<Rightarrow> group_provider \<times> bool" where
  "remove_member fresh p group_id endpoint fresh_commit_entropy now_us =
     (case lookup (gp_groups p) group_id of None \<Rightarrow> (p, False)
      | Some st \<Rightarrow>
          let ctx = ig_context st in
          if gc_state ctx \<noteq> Group_Active \<or> \<not> list_ex (active_at endpoint) (gc_members ctx) then (p, False)
          else
            let ctx = ctx\<lparr>gc_members := update_first (active_at endpoint) (\<lambda>m. m\<lparr>gm_status := Member_Removed\<rparr>)
                  (gc_members ctx)\<rparr>;
                next_epoch = gc_group_epoch ctx + 1;
                commit_secret = entropy_of fresh_commit_entropy fresh;
                st = st\<lparr>ig_context := ctx,
                  ig_member_leaf_secrets := AList.delete endpoint (ig_member_leaf_secrets st),
                  ig_sender_ratchets := AList.delete endpoint (ig_sender_ratchets st)\<rparr>;
                transcript = sl_sha256 (gc_confirmed_transcript_hash ctx @ write_u8 go_remove_member @
                  write_u64 next_epoch @ endpoint_info endpoint)
            in case derive_kdf_secret (ig_epoch_secret st) ''MLS_EPOCH_ADVANCE_REMOVE'' (transcript @ commit_secret) of
                 None \<Rightarrow> (set_group group_id st p, False)
               | Some secret \<Rightarrow>
                   (set_group group_id (st\<lparr>ig_context := advance_epoch next_epoch transcript now_us ctx,
                      ig_epoch_secret := secret\<rparr>) p, True))"

definition update_member_role :: "group_provider \<Rightarrow> u64 \<Rightarrow> node_endpoint_identity \<Rightarrow> member_role \<Rightarrow> u64
    \<Rightarrow> group_provider \<times> bool" where
  "update_member_role p group_id endpoint new_role now_us =
     (case lookup (gp_groups p) group_id of None \<Rightarrow> (p, False)
      | Some st \<Rightarrow>
          let ctx = ig_context st in
          if gc_state ctx \<noteq> Group_Active \<or> new_role = mr_unknown then (p, False)
          else if \<not> list_ex (active_at endpoint) (gc_members ctx) then (p, False)
          else
            let ctx = ctx\<lparr>gc_members := update_first (active_at endpoint) (\<lambda>m. m\<lparr>gm_role := new_role\<rparr>) (gc_members ctx)\<rparr>;
                h = sl_sha256 (gc_execution_group_state_hash ctx @ write_u8 go_update_role @
                  write_u64 (gc_group_epoch ctx) @ endpoint_info endpoint @ write_u8 new_role)
            in (set_group group_id (st\<lparr>ig_context := ctx\<lparr>gc_execution_group_state_hash := h\<rparr>\<rparr>) p, True))"

definition rekey_group :: "bytes \<Rightarrow> group_provider \<Rightarrow> u64 \<Rightarrow> node_endpoint_identity \<Rightarrow> bytes \<Rightarrow> u64
    \<Rightarrow> group_provider \<times> bool" where
  "rekey_group fresh p group_id updating_member fresh_update_entropy now_us =
     (case lookup (gp_groups p) group_id of None \<Rightarrow> (p, False)
      | Some st \<Rightarrow>
          let ctx = ig_context st in
          if gc_state ctx \<noteq> Group_Active then (p, False)
          else if \<not> list_ex (active_at updating_member) (gc_members ctx) then (p, False)
          else
            let next_epoch = gc_group_epoch ctx + 1;
                update_secret = entropy_of fresh_update_entropy fresh
            in case derive_kdf_secret update_secret ''MLS_MEMBER_LEAF_UPDATE'' (endpoint_info updating_member) of
                 None \<Rightarrow> (p, False)
               | Some leaf \<Rightarrow>
                   let st = st\<lparr>ig_member_leaf_secrets := AList.update updating_member leaf (ig_member_leaf_secrets st)\<rparr>;
                       transcript = sl_sha256 (gc_confirmed_transcript_hash ctx @ write_u8 go_rekey @
                         write_u64 next_epoch @ endpoint_info updating_member)
                   in case derive_kdf_secret (ig_epoch_secret st) ''MLS_EPOCH_ADVANCE_REKEY'' (transcript @ update_secret) of
                        None \<Rightarrow> (set_group group_id st p, False)
                      | Some secret \<Rightarrow>
                          (set_group group_id (st\<lparr>ig_context := advance_epoch next_epoch transcript now_us ctx,
                             ig_epoch_secret := secret\<rparr>) p, True))"

definition close_group :: "group_provider \<Rightarrow> u64 \<Rightarrow> u64 \<Rightarrow> group_provider \<times> bool" where
  "close_group p group_id now_us =
     (case lookup (gp_groups p) group_id of None \<Rightarrow> (p, False)
      | Some st \<Rightarrow>
          if gc_state (ig_context st) = Group_Closed then (p, False)
          else (set_group group_id (st\<lparr>ig_context := (ig_context st)\<lparr>gc_state := Group_Closed\<rparr>,
              ig_epoch_secret := replicate (length (ig_epoch_secret st)) 0,
              ig_member_leaf_secrets := [], ig_sender_ratchets := []\<rparr>) p, True))"

definition get_group_context :: "group_provider \<Rightarrow> u64 \<Rightarrow> group_context option" where
  "get_group_context p group_id = map_option ig_context (lookup (gp_groups p) group_id)"

definition is_group_member_active :: "group_provider \<Rightarrow> u64 \<Rightarrow> node_endpoint_identity \<Rightarrow> bool" where
  "is_group_member_active p group_id endpoint =
     (case lookup (gp_groups p) group_id of None \<Rightarrow> False
      | Some st \<Rightarrow> if gc_state (ig_context st) \<noteq> Group_Active then False
          else list_ex (active_at endpoint) (gc_members (ig_context st)))"

definition get_group_count :: "group_provider \<Rightarrow> nat" where
  "get_group_count p = length (gp_groups p)"

definition get_active_group_count :: "group_provider \<Rightarrow> nat" where
  "get_active_group_count p = length (filter (\<lambda>(k, st). gc_state (ig_context st) = Group_Active) (gp_groups p))"

section \<open>Messages\<close>

definition sender_info :: "node_endpoint_identity \<Rightarrow> u32 \<Rightarrow> bytes" where
  "sender_info e generation = endpoint_info e @ write_u32 generation"

definition xor_keystream :: "bytes \<Rightarrow> bytes \<Rightarrow> bytes" where
  "xor_keystream keystream payload = map (\<lambda>i. payload ! i XOR keystream ! (i mod length keystream)) [0..<length payload]"

definition message_key :: "bytes \<Rightarrow> bytes \<Rightarrow> bytes \<Rightarrow> bytes option" where
  "message_key leaf epoch_secret info =
     (case derive_kdf_secret leaf ''MLS_SENDER_SIGNING_KEY'' epoch_secret of None \<Rightarrow> None
      | Some signing_key \<Rightarrow> derive_kdf_secret signing_key ''MLS_MESSAGE_KEY'' info)"

definition group_binding_of :: "u64 \<Rightarrow> u64 \<Rightarrow> security_group_member \<Rightarrow> node_endpoint_identity \<Rightarrow> data_message_class
    \<Rightarrow> bytes \<Rightarrow> u64 \<Rightarrow> u32 \<Rightarrow> group_message_binding" where
  "group_binding_of group_id epoch sender endpoint cls payload message_seq generation =
     \<lparr>gb_group_id = group_id, gb_group_epoch = epoch, gb_sender_endpoint = endpoint,
      gb_sender_trust_domain_id = gm_trust_domain_id sender, gb_sender_subject_id = gm_subject_id sender,
      gb_message_class = cls, gb_digest = dg_sha256, gb_content_digest = sl_sha256 payload,
      gb_message_seq = message_seq, gb_ratchet_generation = generation\<rparr>"

text \<open>The ratchet advances as soon as the sender is known, whatever fails after that.\<close>

definition protect :: "group_provider \<Rightarrow> u64 \<Rightarrow> node_endpoint_identity \<Rightarrow> group_protection_mode \<Rightarrow> data_message_class
    \<Rightarrow> bytes \<Rightarrow> u64 \<Rightarrow> group_provider \<times> protected_group_message option" where
  "protect p group_id endpoint mode cls payload message_seq =
     (case lookup (gp_groups p) group_id of None \<Rightarrow> (p, None)
      | Some st \<Rightarrow>
          let ctx = ig_context st in
          if gc_state ctx \<noteq> Group_Active \<or> message_seq = 0 \<or> mode = Mode_Unknown then (p, None)
          else case find (active_at endpoint) (gc_members ctx) of None \<Rightarrow> (p, None)
          | Some sender \<Rightarrow>
              (case lookup (ig_member_leaf_secrets st) endpoint of None \<Rightarrow> (p, None)
               | Some leaf \<Rightarrow>
                   let generation = (case lookup (ig_sender_ratchets st) endpoint of None \<Rightarrow> 0 | Some g \<Rightarrow> g) + 1;
                       st = st\<lparr>ig_sender_ratchets := AList.update endpoint generation (ig_sender_ratchets st)\<rparr>;
                       p = set_group group_id st p;
                       info = sender_info endpoint generation
                   in case message_key leaf (ig_epoch_secret st) info of None \<Rightarrow> (p, None)
                   | Some key \<Rightarrow>
                       (case (if mode = Confidential_And_Authenticated
                              then map_option (\<lambda>ks. xor_keystream ks payload)
                                     (derive_kdf_secret (ig_epoch_secret st) ''MLS_ENCRYPT_STREAM'' info)
                              else Some payload) of None \<Rightarrow> (p, None)
                        | Some final_payload \<Rightarrow>
                            (case encode_group_authenticator_input (group_binding_of group_id (gc_group_epoch ctx) sender
                                    endpoint cls final_payload message_seq generation) of None \<Rightarrow> (p, None)
                             | Some auth_input \<Rightarrow>
                                 (case create_authenticator cs_hmac_sha256_128 of None \<Rightarrow> (p, None)
                                  | Some auth \<Rightarrow>
                                      (case auth_sign auth auth_input key of None \<Rightarrow> (p, None)
                                       | Some tag \<Rightarrow>
                                           (p, Some \<lparr>pm_group_id = group_id, pm_group_epoch = gc_group_epoch ctx,
                                              pm_mode = mode, pm_sender_endpoint = endpoint,
                                              pm_message_seq = message_seq, pm_ratchet_generation = generation,
                                              pm_ciphertext_or_payload = final_payload,
                                              pm_authentication_tag = tag\<rparr>)))))))"

text \<open>The window of the sender is there from the first message on, accepted or not.\<close>

definition unprotect :: "group_provider \<Rightarrow> protected_group_message \<Rightarrow> data_message_class
    \<Rightarrow> group_provider \<times> group_verification_status \<times> bytes" where
  "unprotect p msg expected_class =
     (case lookup (gp_groups p) (pm_group_id msg) of None \<Rightarrow> (p, Group_Not_Found, [])
      | Some st \<Rightarrow>
          let ctx = ig_context st in
          if gc_state ctx \<noteq> Group_Active then (p, Group_Inactive, [])
          else if pm_group_epoch msg < gc_group_epoch ctx then (p, Stale_Epoch, [])
          else if pm_group_epoch msg > gc_group_epoch ctx then (p, Future_Epoch, [])
          else case find (\<lambda>m. gm_endpoint m = pm_sender_endpoint msg) (gc_members ctx) of None \<Rightarrow> (p, Member_Not_Found, [])
          | Some sender \<Rightarrow>
              if gm_status sender \<noteq> Member_Active then (p, Member_Not_Active, [])
              else (case lookup (ig_member_leaf_secrets st) (pm_sender_endpoint msg) of None \<Rightarrow> (p, Impersonation_Detected, [])
                | Some leaf \<Rightarrow>
                    let rkey = (pm_group_id msg, pm_group_epoch msg, pm_sender_endpoint msg);
                        win = (case lookup (gp_replay_windows p) rkey of None \<Rightarrow> new_window | Some w \<Rightarrow> w);
                        p = p\<lparr>gp_replay_windows := AList.update rkey win (gp_replay_windows p)\<rparr>
                    in if window_check win (pm_message_seq msg) \<noteq> Accepted_Seq then (p, Group_Replay_Rejected, [])
                       else
                         let info = sender_info (pm_sender_endpoint msg) (pm_ratchet_generation msg) in
                         case message_key leaf (ig_epoch_secret st) info of None \<Rightarrow> (p, Group_Suite_Unsupported, [])
                         | Some key \<Rightarrow>
                             (case encode_group_authenticator_input (group_binding_of (pm_group_id msg) (pm_group_epoch msg)
                                     sender (pm_sender_endpoint msg) expected_class (pm_ciphertext_or_payload msg)
                                     (pm_message_seq msg) (pm_ratchet_generation msg)) of
                                None \<Rightarrow> (p, Group_Binding_Invalid, [])
                              | Some auth_input \<Rightarrow>
                                  (case create_authenticator cs_hmac_sha256_128 of None \<Rightarrow> (p, Group_Suite_Unsupported, [])
                                   | Some auth \<Rightarrow>
                                       if \<not> auth_verify auth auth_input key (pm_authentication_tag msg)
                                       then (p, Group_Signature_Invalid, [])
                                       else (case (if pm_mode msg = Confidential_And_Authenticated
                                              then map_option (\<lambda>ks. xor_keystream ks (pm_ciphertext_or_payload msg))
                                                     (derive_kdf_secret (ig_epoch_secret st) ''MLS_ENCRYPT_STREAM'' info)
                                              else Some (pm_ciphertext_or_payload msg)) of
                                            None \<Rightarrow> (p, Decryption_Failed, [])
                                          | Some out_payload \<Rightarrow>
                                              (p\<lparr>gp_replay_windows := AList.update rkey (fst (window_update win (pm_message_seq msg)))
                                                   (gp_replay_windows p)\<rparr>, Group_Ok, out_payload))))))"

text \<open>The signing and verification helpers of the manager, for messages that are only authenticated.\<close>

definition sign_group_message :: "group_provider \<Rightarrow> u64 \<Rightarrow> node_endpoint_identity \<Rightarrow> data_message_class \<Rightarrow> bytes \<Rightarrow> u64
    \<Rightarrow> group_provider \<times> bytes option" where
  "sign_group_message p group_id endpoint cls payload message_seq =
     (case protect p group_id endpoint Authenticated_Only cls payload message_seq of
        (p, None) \<Rightarrow> (p, None)
      | (p, Some msg) \<Rightarrow> (p, Some (pm_authentication_tag msg)))"

definition verify_group_message :: "group_provider \<Rightarrow> u64 \<Rightarrow> u64 \<Rightarrow> node_endpoint_identity \<Rightarrow> data_message_class \<Rightarrow> bytes
    \<Rightarrow> u64 \<Rightarrow> bytes \<Rightarrow> group_provider \<times> group_verification_status" where
  "verify_group_message p group_id epoch endpoint cls payload message_seq tag =
     (case unprotect p \<lparr>pm_group_id = group_id, pm_group_epoch = epoch, pm_mode = Authenticated_Only,
          pm_sender_endpoint = endpoint, pm_message_seq = message_seq,
          pm_ratchet_generation = ucast message_seq, pm_ciphertext_or_payload = payload,
          pm_authentication_tag = tag\<rparr> cls of (p, st, out) \<Rightarrow> (p, st))"

section \<open>Derived secrets\<close>

lemma derive_kdf_secret_eq:
  "derive_kdf_secret k l c = (if k = [] \<or> (l = [] \<and> c = []) then None else Some (tag_of k (bytes_of_string l @ c)))"
  by (auto simp: derive_kdf_secret_def create_authenticator_def hmac_sha256_authenticator_def auth_sign_def tag_of_def
      bytes_of_string_def)

lemma length_tag_of [simp]: "length (tag_of k i) = 16"
  by (simp add: tag_of_def)

lemma tag_of_not_nil [simp]: "tag_of k i \<noteq> []"
  using length_tag_of [of k i] by (metis list.size(3) zero_neq_numeral)

lemma derive_Some [simp]:
  "k \<noteq> [] \<Longrightarrow> l \<noteq> [] \<Longrightarrow> derive_kdf_secret k l c = Some (tag_of k (bytes_of_string l @ c))"
  by (simp add: derive_kdf_secret_eq)

text \<open>The key of a message, and the stream its payload is combined with.\<close>

definition group_message_key :: "bytes \<Rightarrow> bytes \<Rightarrow> bytes \<Rightarrow> bytes" where
  "group_message_key leaf epoch_secret info = tag_of (tag_of leaf (bytes_of_string ''MLS_SENDER_SIGNING_KEY'' @ epoch_secret))
     (bytes_of_string ''MLS_MESSAGE_KEY'' @ info)"

definition group_keystream :: "bytes \<Rightarrow> bytes \<Rightarrow> bytes" where
  "group_keystream epoch_secret info = tag_of epoch_secret (bytes_of_string ''MLS_ENCRYPT_STREAM'' @ info)"

lemma message_key_eq: "message_key leaf es info = (if leaf = [] then None else Some (group_message_key leaf es info))"
  by (simp add: message_key_def derive_kdf_secret_eq group_message_key_def)

lemma auth_sign_16: "auth_sign (hmac_sha256_authenticator cs_hmac_sha256_128) i k =
    (if k = [] \<or> i = [] then None else Some (tag_of k i))"
  by (simp add: auth_sign_def hmac_sha256_authenticator_def tag_of_def)

lemma auth_verify_16: "auth_verify (hmac_sha256_authenticator cs_hmac_sha256_128) i k tag \<longleftrightarrow>
    k \<noteq> [] \<and> i \<noteq> [] \<and> tag = tag_of k i"
  by (auto simp: auth_verify_def auth_sign_16 constant_time_equals_exact) (auto simp: hmac_sha256_authenticator_def constant_time_equals_exact)

lemma create_16: "create_authenticator cs_hmac_sha256_128 = Some (hmac_sha256_authenticator cs_hmac_sha256_128)"
  by (simp add: create_authenticator_def)

lemma group_input_not_nil: "encode_group_authenticator_input b = Some i \<Longrightarrow> i \<noteq> []"
  by (auto simp: encode_group_authenticator_input_def split: if_splits)

lemma xor_twice: "(a XOR b) XOR b = (a :: 'a::len word)"
  by (simp add: xor.assoc)

lemma xor_keystream_involutive: "xor_keystream ks (xor_keystream ks p) = p"
  by (auto simp: xor_keystream_def xor_twice intro: nth_equalityI)

lemma length_xor_keystream [simp]: "length (xor_keystream ks p) = length p"
  by (simp add: xor_keystream_def)

section \<open>Sending and receiving\<close>

definition sent_payload :: "bytes \<Rightarrow> bytes \<Rightarrow> group_protection_mode \<Rightarrow> bytes \<Rightarrow> bytes" where
  "sent_payload epoch_secret info mode payload =
     (if mode = Confidential_And_Authenticated then xor_keystream (group_keystream epoch_secret info) payload else payload)"

definition window_of :: "group_provider \<Rightarrow> member_replay_key \<Rightarrow> sliding_replay_window" where
  "window_of p k = (case lookup (gp_replay_windows p) k of None \<Rightarrow> new_window | Some w \<Rightarrow> w)"

abbreviation (input) replay_key :: "protected_group_message \<Rightarrow> member_replay_key" where
  "replay_key msg \<equiv> (pm_group_id msg, pm_group_epoch msg, pm_sender_endpoint msg)"

text \<open>The conditions under which a message is accepted.\<close>

definition acceptable :: "group_provider \<Rightarrow> protected_group_message \<Rightarrow> data_message_class
    \<Rightarrow> internal_group_state \<Rightarrow> security_group_member \<Rightarrow> bytes \<Rightarrow> bytes \<Rightarrow> bool" where
  "acceptable p msg cls st sender leaf inp \<longleftrightarrow> lookup (gp_groups p) (pm_group_id msg) = Some st \<and>
     gc_state (ig_context st) = Group_Active \<and> pm_group_epoch msg = gc_group_epoch (ig_context st) \<and>
     find (\<lambda>m. gm_endpoint m = pm_sender_endpoint msg) (gc_members (ig_context st)) = Some sender \<and>
     gm_status sender = Member_Active \<and> lookup (ig_member_leaf_secrets st) (pm_sender_endpoint msg) = Some leaf \<and> leaf \<noteq> [] \<and>
     window_check (window_of p (replay_key msg)) (pm_message_seq msg) = Accepted_Seq \<and>
     encode_group_authenticator_input (group_binding_of (pm_group_id msg) (pm_group_epoch msg) sender
       (pm_sender_endpoint msg) cls (pm_ciphertext_or_payload msg) (pm_message_seq msg) (pm_ratchet_generation msg)) = Some inp \<and>
     pm_authentication_tag msg = tag_of (group_message_key leaf (ig_epoch_secret st)
       (sender_info (pm_sender_endpoint msg) (pm_ratchet_generation msg))) inp \<and>
     (pm_mode msg = Confidential_And_Authenticated \<longrightarrow> ig_epoch_secret st \<noteq> [])"

lemma unprotect_ok:
  assumes "unprotect p msg cls = (p', Group_Ok, out)"
  shows "\<exists>st sender leaf inp. acceptable p msg cls st sender leaf inp \<and>
    out = sent_payload (ig_epoch_secret st) (sender_info (pm_sender_endpoint msg) (pm_ratchet_generation msg)) (pm_mode msg)
      (pm_ciphertext_or_payload msg)"
  using assms
  unfolding unprotect_def Let_def create_16 option.case message_key_eq derive_kdf_secret_eq
  by (auto simp: acceptable_def window_of_def sent_payload_def group_keystream_def auth_verify_16
      split: if_splits option.splits)

lemma unprotect_accepts:
  assumes "acceptable p msg cls st sender leaf inp"
  shows "\<exists>p'. unprotect p msg cls = (p', Group_Ok, sent_payload (ig_epoch_secret st)
      (sender_info (pm_sender_endpoint msg) (pm_ratchet_generation msg)) (pm_mode msg) (pm_ciphertext_or_payload msg))"
  using assms group_input_not_nil
  unfolding unprotect_def Let_def create_16 option.case message_key_eq derive_kdf_secret_eq acceptable_def window_of_def
  by (auto simp: sent_payload_def group_keystream_def auth_verify_16 group_message_key_def)

lemma unprotect_frame: "gp_groups (fst (unprotect p msg cls)) = gp_groups p"
  unfolding unprotect_def Let_def by (auto split: option.split)

end
