(* ===== verification/SL2_Messages.thy ===== *)
theory SL2_Messages
  imports Negotiation Envelope_Frame
begin

text \<open>
  The messages of the SL2 handshake, from \<open>LiNeP-SL/src/v0_2/sl2_handshake.cpp\<close>: client and server
  hello, the two finished messages, and the frame of envelope type 7 that carries them. Decoders read
  a cursor over the buffer, as the \<open>get_\<close> helpers of the source do; each is shown to be the exact
  inverse of its encoder.
\<close>

section \<open>Messages\<close>

abbreviation (input) x25519_key_bytes :: nat where "x25519_key_bytes \<equiv> 32"
abbreviation (input) ed25519_pubkey_bytes :: nat where "ed25519_pubkey_bytes \<equiv> 32"
abbreviation (input) ed25519_privkey_bytes :: nat where "ed25519_privkey_bytes \<equiv> 32"
abbreviation (input) ed25519_signature_bytes :: nat where "ed25519_signature_bytes \<equiv> 64"
abbreviation (input) sha256_digest_bytes :: nat where "sha256_digest_bytes \<equiv> 32"
abbreviation (input) negotiation_nonce_bytes :: nat where "negotiation_nonce_bytes \<equiv> 32"

type_synonym handshake_msg_type = u8
abbreviation (input) hm_client_hello :: handshake_msg_type where "hm_client_hello \<equiv> 1"
abbreviation (input) hm_server_hello :: handshake_msg_type where "hm_server_hello \<equiv> 2"
abbreviation (input) hm_client_finished :: handshake_msg_type where "hm_client_finished \<equiv> 3"
abbreviation (input) hm_server_finished :: handshake_msg_type where "hm_server_finished \<equiv> 4"

record sl2_client_hello =
  ch_offer :: negotiation_offer
  ch_ephemeral_pubkey :: bytes
  ch_trust_domain_id :: u32
  ch_subject_id :: u64
  ch_device_pubkey :: bytes
  ch_device_signature :: bytes

record sl2_server_hello =
  sh_offer :: negotiation_offer
  sh_ephemeral_pubkey :: bytes
  sh_trust_domain_id :: u32
  sh_subject_id :: u64
  sh_gateway_pubkey :: bytes
  sh_result :: negotiation_result
  sh_gateway_signature :: bytes

section \<open>Fields\<close>

definition read_bytes :: "nat \<Rightarrow> bytes reader" where
  "read_bytes n r = (if \<not> has_remaining n r then None else Some (take n r, drop n r))"

definition encode_offer_fields :: "negotiation_offer \<Rightarrow> bytes" where
  "encode_offer_fields f = write_u8 (no_version_major f) @ write_u8 (no_version_minor f) @
     write_u8 (no_minimum_level f) @ write_u8 (no_maximum_level f) @
     write_u64 (node_id (no_endpoint_id f)) @ write_u64 (runtime_id (no_endpoint_id f)) @
     write_u32 (endpoint_id (no_endpoint_id f)) @ write_u64 (no_control_epoch f) @
     write_u64 (no_lease_token f) @ write_u8 (of_nat (length (no_supported_suites f))) @
     concat (map write_u16 (no_supported_suites f)) @ no_nonce f"

definition decode_offer_fields :: "negotiation_offer reader" where
  "decode_offer_fields r =
     do { (major, r) \<leftarrow> read_u8 r; (minor, r) \<leftarrow> read_u8 r; (min_lvl, r) \<leftarrow> read_u8 r;
          (max_lvl, r) \<leftarrow> read_u8 r; (node, r) \<leftarrow> read_u64 r; (runtime, r) \<leftarrow> read_u64 r;
          (endpoint, r) \<leftarrow> read_u32 r; (epoch, r) \<leftarrow> read_u64 r; (lease, r) \<leftarrow> read_u64 r;
          (suite_cnt, r) \<leftarrow> read_u8 r;
          if suite_cnt = 0 \<or> unat suite_cnt > max_negotiated_suites then None
          else do {
            (suites, r) \<leftarrow> read_many read_u16 (unat suite_cnt) r;
            (nonce, r) \<leftarrow> read_bytes negotiation_nonce_bytes r;
            let f = \<lparr>no_version_major = major, no_version_minor = minor, no_minimum_level = min_lvl,
                no_maximum_level = max_lvl, no_supported_suites = suites,
                no_endpoint_id = \<lparr>node_id = node, runtime_id = runtime, endpoint_id = endpoint\<rparr>,
                no_control_epoch = epoch, no_lease_token = lease, no_nonce = nonce\<rparr>
            in if offer_is_valid f then Some (f, r) else None } }"

section \<open>Message codecs\<close>

definition encode_client_hello :: "sl2_client_hello \<Rightarrow> bytes option" where
  "encode_client_hello h =
     (if \<not> offer_is_valid (ch_offer h) \<or> length (ch_ephemeral_pubkey h) \<noteq> x25519_key_bytes \<or>
         length (ch_device_pubkey h) \<noteq> ed25519_pubkey_bytes \<or>
         length (ch_device_signature h) \<noteq> ed25519_signature_bytes \<or>
         ch_trust_domain_id h = 0 \<or> ch_subject_id h = 0
      then None
      else Some (write_u8 hm_client_hello @ encode_offer_fields (ch_offer h) @ ch_ephemeral_pubkey h @
        write_u32 (ch_trust_domain_id h) @ write_u64 (ch_subject_id h) @ ch_device_pubkey h @
        ch_device_signature h))"

definition decode_client_hello :: "bytes \<Rightarrow> sl2_client_hello option" where
  "decode_client_hello data =
     (if length data < 1 + 54 + x25519_key_bytes + 4 + 8 + ed25519_pubkey_bytes + ed25519_signature_bytes then None
      else do {
        (type, r) \<leftarrow> read_u8 data;
        if type \<noteq> hm_client_hello then None
        else do {
          (f, r) \<leftarrow> decode_offer_fields r; (eph, r) \<leftarrow> read_bytes x25519_key_bytes r;
          (domain, r) \<leftarrow> read_u32 r; (subject, r) \<leftarrow> read_u64 r;
          (pub, r) \<leftarrow> read_bytes ed25519_pubkey_bytes r; (sig, r) \<leftarrow> read_bytes ed25519_signature_bytes r;
          if r = [] \<and> domain \<noteq> 0 \<and> subject \<noteq> 0
          then Some \<lparr>ch_offer = f, ch_ephemeral_pubkey = eph, ch_trust_domain_id = domain,
            ch_subject_id = subject, ch_device_pubkey = pub, ch_device_signature = sig\<rparr>
          else None } })"

definition encode_server_hello :: "sl2_server_hello \<Rightarrow> bytes option" where
  "encode_server_hello h =
     (if \<not> offer_is_valid (sh_offer h) \<or> length (sh_ephemeral_pubkey h) \<noteq> x25519_key_bytes \<or>
         length (sh_gateway_pubkey h) \<noteq> ed25519_pubkey_bytes \<or>
         length (sh_gateway_signature h) \<noteq> ed25519_signature_bytes \<or>
         sh_trust_domain_id h = 0 \<or> sh_subject_id h = 0 \<or> \<not> result_accepted (sh_result h)
      then None
      else Some (write_u8 hm_server_hello @ encode_offer_fields (sh_offer h) @ sh_ephemeral_pubkey h @
        write_u32 (sh_trust_domain_id h) @ write_u64 (sh_subject_id h) @ sh_gateway_pubkey h @
        write_u8 (nr_status (sh_result h)) @ write_u8 (nr_required_level (sh_result h)) @
        write_u8 (nr_negotiated_level (sh_result h)) @ write_u16 (nr_suite (sh_result h)) @
        sh_gateway_signature h))"

definition decode_server_hello :: "bytes \<Rightarrow> sl2_server_hello option" where
  "decode_server_hello data =
     (if length data < 1 + 54 + x25519_key_bytes + 4 + 8 + ed25519_pubkey_bytes + 5 + ed25519_signature_bytes then None
      else do {
        (type, r) \<leftarrow> read_u8 data;
        if type \<noteq> hm_server_hello then None
        else do {
          (f, r) \<leftarrow> decode_offer_fields r; (eph, r) \<leftarrow> read_bytes x25519_key_bytes r;
          (domain, r) \<leftarrow> read_u32 r; (subject, r) \<leftarrow> read_u64 r;
          (pub, r) \<leftarrow> read_bytes ed25519_pubkey_bytes r;
          (st, r) \<leftarrow> read_u8 r; (req_lvl, r) \<leftarrow> read_u8 r; (neg_lvl, r) \<leftarrow> read_u8 r; (su, r) \<leftarrow> read_u16 r;
          (sig, r) \<leftarrow> read_bytes ed25519_signature_bytes r;
          let result = \<lparr>nr_status = st, nr_required_level = req_lvl, nr_negotiated_level = neg_lvl, nr_suite = su\<rparr>
          in if r = [] \<and> domain \<noteq> 0 \<and> subject \<noteq> 0 \<and> result_accepted result
             then Some \<lparr>sh_offer = f, sh_ephemeral_pubkey = eph, sh_trust_domain_id = domain,
               sh_subject_id = subject, sh_gateway_pubkey = pub, sh_result = result, sh_gateway_signature = sig\<rparr>
             else None } })"

text \<open>A finished message is its verify data.\<close>

definition encode_client_finished :: "bytes \<Rightarrow> bytes option" where
  "encode_client_finished verify_data =
     (if length verify_data \<noteq> sha256_digest_bytes then None else Some (write_u8 hm_client_finished @ verify_data))"

definition decode_client_finished :: "bytes \<Rightarrow> bytes option" where
  "decode_client_finished data =
     (if length data \<noteq> 1 + sha256_digest_bytes \<or> data ! 0 \<noteq> hm_client_finished then None
      else Some (take sha256_digest_bytes (drop 1 data)))"

definition encode_server_finished :: "bytes \<Rightarrow> bytes option" where
  "encode_server_finished verify_data =
     (if length verify_data \<noteq> sha256_digest_bytes then None else Some (write_u8 hm_server_finished @ verify_data))"

definition decode_server_finished :: "bytes \<Rightarrow> bytes option" where
  "decode_server_finished data =
     (if length data \<noteq> 1 + sha256_digest_bytes \<or> data ! 0 \<noteq> hm_server_finished then None
      else Some (take sha256_digest_bytes (drop 1 data)))"

section \<open>Frames\<close>

definition handshake_header :: "nat \<Rightarrow> wire_envelope_header" where
  "handshake_header n = \<lparr>hdr_magic = LINEP_V02_MAGIC, hdr_version_major = LINEP_V02_VERSION_MAJOR,
     hdr_version_minor = LINEP_V02_VERSION_MINOR, hdr_envelope_type = et_sl2_handshake, hdr_flags = 0,
     hdr_request_id = 0, hdr_execution_id = 0, hdr_output_id = 0, hdr_payload_len = of_nat n\<rparr>"

definition wrap_handshake_frame :: "bytes \<Rightarrow> bytes option" where
  "wrap_handshake_frame payload =
     (if payload = [] then None else Some (encode_header (handshake_header (length payload)) @ payload))"

definition unwrap_handshake_frame :: "bytes \<Rightarrow> bytes option" where
  "unwrap_handshake_frame data =
     (if length data < LINEP_V02_HEADER_SIZE then None
      else case decode_header data of None \<Rightarrow> None
      | Some hdr \<Rightarrow>
          if hdr_magic hdr \<noteq> LINEP_V02_MAGIC \<or> hdr_version_major hdr \<noteq> LINEP_V02_VERSION_MAJOR \<or>
             hdr_version_minor hdr \<noteq> LINEP_V02_VERSION_MINOR \<or> hdr_envelope_type hdr \<noteq> et_sl2_handshake \<or>
             hdr_flags hdr \<noteq> 0 \<or> hdr_request_id hdr \<noteq> 0 \<or> hdr_execution_id hdr \<noteq> 0 \<or> hdr_output_id hdr \<noteq> 0
          then None
          else if length data \<noteq> LINEP_V02_HEADER_SIZE + unat (hdr_payload_len hdr) then None
          else Some (drop LINEP_V02_HEADER_SIZE data))"

section \<open>The codecs are exact\<close>

lemma read_bytes_exact: "exact_codec id (read_bytes n) (\<lambda>b. length b = n)"
  by unfold_locales (auto simp: read_bytes_def has_remaining_def split: if_splits)

lemma read_bytes_app [simp]: "length b = n \<Longrightarrow> read_bytes n (b @ r) = Some (b, r)"
  by (simp add: read_bytes_def has_remaining_def)

lemma read_bytes_nil [simp]: "length b = n \<Longrightarrow> read_bytes n b = Some (b, [])"
  by (simp add: read_bytes_def has_remaining_def)

lemma read_bytes_SomeD: "read_bytes n b = Some (v, r) \<Longrightarrow> length v = n \<and> b = v @ r"
  by (auto simp: read_bytes_def has_remaining_def split: if_splits)

definition offer_ok :: "negotiation_offer \<Rightarrow> bool" where
  "offer_ok f \<longleftrightarrow> offer_is_valid f \<and> length (no_nonce f) = 32"

lemma suite_count:
  assumes "offer_is_valid f"
  shows "unat (of_nat (length (no_supported_suites f)) :: u8) = length (no_supported_suites f) \<and>
    (of_nat (length (no_supported_suites f)) :: u8) \<noteq> 0 \<and> length (no_supported_suites f) \<le> 16"
proof -
  have n: "length (no_supported_suites f) \<le> 16" "no_supported_suites f \<noteq> []"
    using assms by (auto simp: offer_is_valid_def split: if_splits)
  then have u: "unat (of_nat (length (no_supported_suites f)) :: u8) = length (no_supported_suites f)"
    by (simp add: unat_of_nat)
  with n show ?thesis by (metis length_0_conv unat_0)
qed

interpretation offer: exact_codec encode_offer_fields decode_offer_fields offer_ok
proof
  fix f r assume ok: "offer_ok f"
  then have "offer_is_valid f" by (simp add: offer_ok_def)
  note n = suite_count [OF this]
  have m: "read_many read_u16 (length (no_supported_suites f)) (concat (map write_u16 (no_supported_suites f)) @ x)
      = Some (no_supported_suites f, x)" for x
    by (rule u16.many_dec_enc) simp
  show "decode_offer_fields (encode_offer_fields f @ r) = Some (f, r)"
    using ok n m unfolding decode_offer_fields_def encode_offer_fields_def offer_ok_def
    by (cases f; cases "no_endpoint_id f") simp
next
  fix b f r assume "decode_offer_fields b = Some (f, r)"
  then show "offer_ok f \<and> b = encode_offer_fields f @ r"
    unfolding decode_offer_fields_def
    by (auto simp: bind_eq_Some_conv Let_def encode_offer_fields_def offer_ok_def
        dest!: u8.enc_dec u16.many_enc_dec u32.enc_dec u64.enc_dec read_bytes_SomeD split: if_splits)
qed

lemma length_encode_offer: "offer_ok f \<Longrightarrow> 73 + 2 \<le> length (encode_offer_fields f)"
proof -
  assume "offer_ok f"
  then have "no_supported_suites f \<noteq> []" "length (no_nonce f) = 32"
    by (auto simp: offer_ok_def offer_is_valid_def split: if_splits)
  then show ?thesis
    by (cases "no_supported_suites f") (simp_all add: encode_offer_fields_def length_concat)
qed

lemma client_hello_exact:
  "decode_client_hello data = Some h \<longleftrightarrow> encode_client_hello h = Some data \<and> length (no_nonce (ch_offer h)) = 32"
proof
  assume "decode_client_hello data = Some h"
  then show "encode_client_hello h = Some data \<and> length (no_nonce (ch_offer h)) = 32"
    unfolding decode_client_hello_def
    by (auto simp: bind_eq_Some_conv encode_client_hello_def offer_ok_def
        dest!: u8.enc_dec u32.enc_dec u64.enc_dec read_bytes_SomeD offer.enc_dec split: if_splits)
next
  assume e: "encode_client_hello h = Some data \<and> length (no_nonce (ch_offer h)) = 32"
  then have ok: "offer_ok (ch_offer h)" by (auto simp: encode_client_hello_def offer_ok_def split: if_splits)
  then show "decode_client_hello data = Some h"
    using e length_encode_offer [OF ok]
    by (cases h) (auto simp: encode_client_hello_def decode_client_hello_def offer.dec_enc split: if_splits)
qed

lemma server_hello_exact:
  "decode_server_hello data = Some h \<longleftrightarrow> encode_server_hello h = Some data \<and> length (no_nonce (sh_offer h)) = 32"
proof
  assume "decode_server_hello data = Some h"
  then show "encode_server_hello h = Some data \<and> length (no_nonce (sh_offer h)) = 32"
    unfolding decode_server_hello_def
    by (auto simp: bind_eq_Some_conv encode_server_hello_def offer_ok_def Let_def
        dest!: u8.enc_dec u16.enc_dec u32.enc_dec u64.enc_dec read_bytes_SomeD offer.enc_dec split: if_splits)
next
  assume e: "encode_server_hello h = Some data \<and> length (no_nonce (sh_offer h)) = 32"
  then have ok: "offer_ok (sh_offer h)" by (auto simp: encode_server_hello_def offer_ok_def split: if_splits)
  then show "decode_server_hello data = Some h"
    using e length_encode_offer [OF ok]
    by (cases h; cases "sh_result h")
      (auto simp: encode_server_hello_def decode_server_hello_def offer.dec_enc Let_def split: if_splits)
qed

lemma finished_exact:
  "decode_client_finished data = Some v \<longleftrightarrow> encode_client_finished v = Some data"
  "decode_server_finished data = Some v \<longleftrightarrow> encode_server_finished v = Some data"
  by (cases data; auto simp: decode_client_finished_def encode_client_finished_def decode_server_finished_def
      encode_server_finished_def write_u8_def)+

lemma unwrap_wrap:
  assumes "wrap_handshake_frame p = Some data" and "length p < 2 ^ 32"
  shows "unwrap_handshake_frame data = Some p"
  using assms
  by (auto simp: wrap_handshake_frame_def unwrap_handshake_frame_def handshake_header_def unat_of_nat split: if_splits)

lemma wrap_unwrap:
  assumes "unwrap_handshake_frame data = Some p" and "p \<noteq> []"
  shows "wrap_handshake_frame p = Some data"
proof -
  from assms(1) obtain hdr where h: "decode_header data = Some hdr"
    "hdr = handshake_header (length p)" "p = drop 32 data"
    by (auto simp: unwrap_handshake_frame_def handshake_header_def split: option.splits if_splits
        intro: wire_envelope_header.equality)
  with decode_header_exact [OF h(1)] assms(2) show ?thesis by (auto simp: wrap_handshake_frame_def)
qed

text \<open>
  The handshake codecs are exact. Each decoder accepts exactly the encodings of the messages its
  encoder accepts (with a nonce of 32 bytes, as the type has it), so a message has one encoding and
  nothing trails it; and framing a payload and unframing it are inverse.
\<close>

theorem handshake_codecs_exact:
  "(decode_client_hello data = Some ch \<longleftrightarrow> encode_client_hello ch = Some data \<and> length (no_nonce (ch_offer ch)) = 32) \<and>
   (decode_server_hello data = Some sh \<longleftrightarrow> encode_server_hello sh = Some data \<and> length (no_nonce (sh_offer sh)) = 32) \<and>
   (decode_client_finished data = Some v \<longleftrightarrow> encode_client_finished v = Some data) \<and>
   (decode_server_finished data = Some v \<longleftrightarrow> encode_server_finished v = Some data) \<and>
   (p \<noteq> [] \<and> length p < 2 ^ 32 \<longrightarrow> (unwrap_handshake_frame data = Some p \<longleftrightarrow> wrap_handshake_frame p = Some data))"
  using client_hello_exact server_hello_exact finished_exact unwrap_wrap wrap_unwrap by blast

end
