(* ===== verification/SL2_Handshake.thy ===== *)
theory SL2_Handshake
  imports SL2_Messages Plane_Authenticator
begin

text \<open>
  The SL2 handshake of \<open>LiNeP-SL/src/v0_2/sl2_handshake.cpp\<close> over the crypto provider of
  \<open>crypto_provider.cpp\<close>. OpenSSL and the identity verifier are parameters. Shown are the order of the
  states, the wiping of secrets, and what the registered session is.
\<close>

section \<open>The crypto provider\<close>

text \<open>The OpenSSL calls the provider makes, with the state of the random generator.\<close>

record 'w openssl =
  ssl_x25519_keygen :: "'w \<Rightarrow> 'w \<times> (bytes \<times> bytes) option"
  ssl_ed25519_keygen :: "'w \<Rightarrow> 'w \<times> (bytes \<times> bytes) option"
  ssl_x25519_derive :: "bytes \<Rightarrow> bytes \<Rightarrow> bytes option"
  ssl_ed25519_sign :: "bytes \<Rightarrow> bytes \<Rightarrow> bytes option"
  ssl_ed25519_verify :: "bytes \<Rightarrow> bytes \<Rightarrow> bytes \<Rightarrow> bool"
  ssl_hkdf_extract :: "bytes \<Rightarrow> bytes \<Rightarrow> bytes option"
  ssl_hkdf_expand :: "bytes \<Rightarrow> bytes \<Rightarrow> nat \<Rightarrow> bytes option"
  ssl_aead_encrypt :: "crypto_suite \<Rightarrow> bytes \<Rightarrow> bytes \<Rightarrow> bytes \<Rightarrow> bytes \<Rightarrow> (bytes \<times> bytes) option"
  ssl_aead_decrypt :: "crypto_suite \<Rightarrow> bytes \<Rightarrow> bytes \<Rightarrow> bytes \<Rightarrow> bytes \<Rightarrow> bytes \<Rightarrow> bytes option"

abbreviation (input) aead_key_bytes :: nat where "aead_key_bytes \<equiv> 32"
abbreviation (input) aead_nonce_bytes :: nat where "aead_nonce_bytes \<equiv> 12"
abbreviation (input) aead_tag_bytes :: nat where "aead_tag_bytes \<equiv> 16"

definition generate_x25519_keypair :: "'w openssl \<Rightarrow> 'w \<Rightarrow> 'w \<times> (bytes \<times> bytes) option" where
  "generate_x25519_keypair ssl w =
     (case ssl_x25519_keygen ssl w of (w, None) \<Rightarrow> (w, None)
      | (w, Some (priv, pub)) \<Rightarrow>
          if length priv = x25519_key_bytes \<and> length pub = x25519_key_bytes then (w, Some (priv, pub)) else (w, None))"

definition generate_ed25519_keypair :: "'w openssl \<Rightarrow> 'w \<Rightarrow> 'w \<times> (bytes \<times> bytes) option" where
  "generate_ed25519_keypair ssl w =
     (case ssl_ed25519_keygen ssl w of (w, None) \<Rightarrow> (w, None)
      | (w, Some (priv, pub)) \<Rightarrow>
          if length priv = ed25519_privkey_bytes \<and> length pub = ed25519_pubkey_bytes
          then (w, Some (priv, pub)) else (w, None))"

definition diffie_hellman_x25519 :: "'w openssl \<Rightarrow> bytes \<Rightarrow> bytes \<Rightarrow> bytes option" where
  "diffie_hellman_x25519 ssl my_priv peer_pub =
     (if length my_priv \<noteq> x25519_key_bytes \<or> length peer_pub \<noteq> x25519_key_bytes then None
      else case ssl_x25519_derive ssl my_priv peer_pub of None \<Rightarrow> None
      | Some secret \<Rightarrow>
          if length secret = x25519_key_bytes \<and> fold (\<lambda>b mask. mask OR b) secret 0 \<noteq> 0 then Some secret else None)"

definition ed25519_sign :: "'w openssl \<Rightarrow> bytes \<Rightarrow> bytes \<Rightarrow> bytes option" where
  "ed25519_sign ssl privkey msg =
     (if length privkey \<noteq> ed25519_privkey_bytes then None
      else case ssl_ed25519_sign ssl privkey msg of None \<Rightarrow> None
      | Some sig \<Rightarrow> if length sig = ed25519_signature_bytes then Some sig else None)"

definition ed25519_verify :: "'w openssl \<Rightarrow> bytes \<Rightarrow> bytes \<Rightarrow> bytes \<Rightarrow> bool" where
  "ed25519_verify ssl pubkey msg sig \<longleftrightarrow>
     length pubkey = ed25519_pubkey_bytes \<and> length sig = ed25519_signature_bytes \<and>
     ssl_ed25519_verify ssl pubkey msg sig"

definition hkdf_extract :: "'w openssl \<Rightarrow> bytes \<Rightarrow> bytes \<Rightarrow> bytes option" where
  "hkdf_extract ssl salt ikm =
     (if ikm = [] then None
      else ssl_hkdf_extract ssl (if salt \<noteq> [] then salt else replicate 32 0) ikm)"

definition hkdf_expand :: "'w openssl \<Rightarrow> bytes \<Rightarrow> string \<Rightarrow> nat \<Rightarrow> bytes option" where
  "hkdf_expand ssl prk info out_len =
     (if length prk \<noteq> sha256_digest_bytes \<or> out_len = 0 \<or> out_len > 255 * sha256_digest_bytes then None
      else ssl_hkdf_expand ssl prk (bytes_of_string info) out_len)"

definition is_aead_suite :: "crypto_suite \<Rightarrow> bool" where
  "is_aead_suite suite \<longleftrightarrow> suite = cs_chacha20_poly1305 \<or> suite = cs_aes256_gcm"

definition aead_encrypt :: "'w openssl \<Rightarrow> crypto_suite \<Rightarrow> bytes \<Rightarrow> bytes \<Rightarrow> bytes \<Rightarrow> bytes \<Rightarrow> (bytes \<times> bytes) option" where
  "aead_encrypt ssl suite key nonce aad plaintext =
     (if \<not> is_aead_suite suite \<or> length key \<noteq> aead_key_bytes \<or> length nonce \<noteq> aead_nonce_bytes then None
      else ssl_aead_encrypt ssl suite key nonce aad plaintext)"

definition aead_decrypt :: "'w openssl \<Rightarrow> crypto_suite \<Rightarrow> bytes \<Rightarrow> bytes \<Rightarrow> bytes \<Rightarrow> bytes \<Rightarrow> bytes \<Rightarrow> bytes option" where
  "aead_decrypt ssl suite key nonce aad ciphertext tag =
     (if \<not> is_aead_suite suite \<or> length key \<noteq> aead_key_bytes \<or> length nonce \<noteq> aead_nonce_bytes \<or>
         length tag \<noteq> aead_tag_bytes then None
      else ssl_aead_decrypt ssl suite key nonce aad ciphertext tag)"

section \<open>The handshake session\<close>

text \<open>The identity verifier is an interface that the deployment implements: offer, transcript, public key, time.\<close>

type_synonym identity_verifier = "negotiation_offer \<Rightarrow> bytes \<Rightarrow> bytes \<Rightarrow> u64 \<Rightarrow> authenticated_peer option"

datatype handshake_state = Hs_Uninitialized | Hs_Client_Hello_Sent | Hs_Client_Hello_Received | Hs_Server_Hello_Sent
  | Hs_Server_Hello_Received | Hs_Client_Finished_Sent | Hs_Client_Finished_Received | Hs_Active | Hs_Failed

record sl2_session_keys =
  sk_suite :: crypto_suite
  sk_initiator_traffic_key :: bytes
  sk_responder_traffic_key :: bytes
  sk_initiator_iv :: bytes
  sk_responder_iv :: bytes
  sk_initiator_finished_key :: bytes
  sk_responder_finished_key :: bytes

definition wiped_keys :: sl2_session_keys where
  "wiped_keys = \<lparr>sk_suite = cs_none, sk_initiator_traffic_key = [], sk_responder_traffic_key = [],
     sk_initiator_iv = [], sk_responder_iv = [], sk_initiator_finished_key = [], sk_responder_finished_key = []\<rparr>"

record handshake_session =
  hs_role :: session_participant_role
  hs_state :: handshake_state
  hs_trust_domain_id :: u32
  hs_subject_id :: u64
  hs_local_privkey :: bytes
  hs_local_pubkey :: bytes
  hs_ephem_priv :: bytes
  hs_ephem_pub :: bytes
  hs_peer_ephem_pub :: bytes
  hs_peer_authenticated :: authenticated_peer
  hs_client_offer :: negotiation_offer
  hs_server_offer :: negotiation_offer
  hs_neg_result :: negotiation_result
  hs_h0 :: bytes
  hs_h1 :: bytes
  hs_h2 :: bytes
  hs_h3 :: bytes
  hs_h4 :: bytes
  hs_keys :: sl2_session_keys

definition empty_peer :: authenticated_peer where
  "empty_peer = \<lparr>ap_endpoint = no_endpoint, ap_trust_domain_id = 0, ap_subject_id = 0,
     ap_credential_revision = 0, ap_authenticated_at_us = 0, ap_credential_expires_at_us = 0, ap_revoked = False\<rparr>"

definition empty_offer :: negotiation_offer where
  "empty_offer = \<lparr>no_version_major = contract_version_major, no_version_minor = contract_version_minor,
     no_minimum_level = lv_unknown, no_maximum_level = lv_unknown, no_supported_suites = [],
     no_endpoint_id = no_endpoint, no_control_epoch = 0, no_lease_token = 0, no_nonce = replicate 32 0\<rparr>"

definition new_handshake :: "session_participant_role \<Rightarrow> handshake_session" where
  "new_handshake role = \<lparr>hs_role = role, hs_state = Hs_Uninitialized, hs_trust_domain_id = 0, hs_subject_id = 0,
     hs_local_privkey = [], hs_local_pubkey = [], hs_ephem_priv = [], hs_ephem_pub = [], hs_peer_ephem_pub = [],
     hs_peer_authenticated = empty_peer, hs_client_offer = empty_offer, hs_server_offer = empty_offer,
     hs_neg_result = new_result, hs_h0 = sl_sha256 (bytes_of_string ''LNS2-SL2-TRANSCRIPT-V0.2''),
     hs_h1 = [], hs_h2 = [], hs_h3 = [], hs_h4 = [], hs_keys = wiped_keys\<rparr>"

definition abort :: "handshake_session \<Rightarrow> handshake_session" where
  "abort s = s\<lparr>hs_state := Hs_Failed, hs_ephem_priv := [], hs_local_privkey := [], hs_keys := wiped_keys\<rparr>"

text \<open>The digest of a vector never fails, so neither does the transcript hash.\<close>

definition transcript_hash :: "bytes \<Rightarrow> bytes \<Rightarrow> bytes" where
  "transcript_hash h msg = sl_sha256 (h @ msg)"

definition derive_keys :: "'w openssl \<Rightarrow> handshake_session \<Rightarrow> handshake_session \<times> bool" where
  "derive_keys ssl s =
     (case diffie_hellman_x25519 ssl (hs_ephem_priv s) (hs_peer_ephem_pub s) of None \<Rightarrow> (s, False)
      | Some ss \<Rightarrow>
          (case hkdf_extract ssl (hs_h2 s) ss of None \<Rightarrow> (s, False)
           | Some prk \<Rightarrow>
               (case (hkdf_expand ssl prk ''lns2.key.init'' aead_key_bytes, hkdf_expand ssl prk ''lns2.key.resp'' aead_key_bytes,
                      hkdf_expand ssl prk ''lns2.iv.init'' aead_nonce_bytes, hkdf_expand ssl prk ''lns2.iv.resp'' aead_nonce_bytes,
                      hkdf_expand ssl prk ''lns2.fin.init'' sha256_digest_bytes,
                      hkdf_expand ssl prk ''lns2.fin.resp'' sha256_digest_bytes) of
                  (Some ki, Some kr, Some ii, Some ir, Some fi, Some fr) \<Rightarrow>
                    (s\<lparr>hs_keys := \<lparr>sk_suite = nr_suite (hs_neg_result s), sk_initiator_traffic_key = ki,
                        sk_responder_traffic_key = kr, sk_initiator_iv = ii, sk_responder_iv = ir,
                        sk_initiator_finished_key = fi, sk_responder_finished_key = fr\<rparr>\<rparr>, True)
                | _ \<Rightarrow> (s\<lparr>hs_keys := wiped_keys\<rparr>, False))))"

definition finished_data :: "bytes \<Rightarrow> bytes \<Rightarrow> bytes option" where
  "finished_data h key = auth_sign (hmac_sha256_authenticator cs_none) h key"

section \<open>Hello messages\<close>

definition client_hello_prefix :: "negotiation_offer \<Rightarrow> bytes \<Rightarrow> u32 \<Rightarrow> u64 \<Rightarrow> bytes \<Rightarrow> bytes" where
  "client_hello_prefix offer eph domain subject pub =
     write_u8 hm_client_hello @ encode_offer_fields offer @ eph @ write_u32 domain @ write_u64 subject @ pub"

definition server_hello_prefix :: "negotiation_offer \<Rightarrow> bytes \<Rightarrow> u32 \<Rightarrow> u64 \<Rightarrow> bytes \<Rightarrow> negotiation_result \<Rightarrow> bytes" where
  "server_hello_prefix offer eph domain subject pub res =
     write_u8 hm_server_hello @ encode_offer_fields offer @ eph @ write_u32 domain @ write_u64 subject @ pub @
     write_u8 (nr_status res) @ write_u8 (nr_required_level res) @ write_u8 (nr_negotiated_level res) @
     write_u16 (nr_suite res)"

definition signature_input :: "string \<Rightarrow> u32 \<Rightarrow> u64 \<Rightarrow> bytes \<Rightarrow> bytes" where
  "signature_input domain_sep domain subject h =
     bytes_of_string domain_sep @ write_u32 domain @ write_u64 subject @ h"

section \<open>The initiator\<close>

definition initiator_start :: "'w openssl \<Rightarrow> 'w \<Rightarrow> handshake_session \<Rightarrow> negotiation_offer \<Rightarrow> u32 \<Rightarrow> u64 \<Rightarrow> bytes \<Rightarrow> bytes
    \<Rightarrow> 'w \<times> handshake_session \<times> bytes option" where
  "initiator_start ssl w s offer domain subject device_privkey device_pubkey =
     (if hs_role s \<noteq> Role_Initiator \<or> hs_state s \<noteq> Hs_Uninitialized then (w, abort s, None)
      else if \<not> offer_is_valid offer \<or> length device_privkey \<noteq> ed25519_privkey_bytes \<or>
              length device_pubkey \<noteq> ed25519_pubkey_bytes \<or> domain = 0 \<or> subject = 0 then (w, abort s, None)
      else let s = s\<lparr>hs_trust_domain_id := domain, hs_subject_id := subject, hs_local_privkey := device_privkey,
                     hs_local_pubkey := device_pubkey, hs_client_offer := offer\<rparr>
        in case generate_x25519_keypair ssl w of
             (w, None) \<Rightarrow> (w, abort (s\<lparr>hs_ephem_priv := [], hs_ephem_pub := []\<rparr>), None)
           | (w, Some (priv, pub)) \<Rightarrow>
               let h1 = transcript_hash (hs_h0 s) (client_hello_prefix offer pub domain subject device_pubkey);
                   s = s\<lparr>hs_ephem_priv := priv, hs_ephem_pub := pub, hs_h1 := h1\<rparr>
               in case ed25519_sign ssl device_privkey (signature_input ''LNS2-SIG-CLIENT-V1'' domain subject h1) of
                    None \<Rightarrow> (w, abort s, None)
                  | Some signature \<Rightarrow>
                      let s = s\<lparr>hs_h1 := transcript_hash h1 signature\<rparr>
                      in case encode_client_hello \<lparr>ch_offer = offer, ch_ephemeral_pubkey = pub,
                               ch_trust_domain_id = domain, ch_subject_id = subject,
                               ch_device_pubkey = device_pubkey, ch_device_signature = signature\<rparr> of
                           None \<Rightarrow> (w, abort s, None)
                         | Some payload \<Rightarrow>
                             (case wrap_handshake_frame payload of None \<Rightarrow> (w, abort s, None)
                              | Some frame \<Rightarrow> (w, s\<lparr>hs_state := Hs_Client_Hello_Sent\<rparr>, Some frame)))"

definition initiator_process_server_hello :: "'w openssl \<Rightarrow> identity_verifier \<Rightarrow> handshake_session \<Rightarrow> bytes
    \<Rightarrow> handshake_session \<times> bytes option" where
  "initiator_process_server_hello ssl authenticate s frame =
     (if hs_role s \<noteq> Role_Initiator \<or> hs_state s \<noteq> Hs_Client_Hello_Sent then (abort s, None)
      else case unwrap_handshake_frame frame of None \<Rightarrow> (abort s, None)
      | Some payload \<Rightarrow> (case decode_server_hello payload of None \<Rightarrow> (abort s, None)
        | Some hello \<Rightarrow>
            let h2 = transcript_hash (hs_h1 s) (server_hello_prefix (sh_offer hello) (sh_ephemeral_pubkey hello)
                  (sh_trust_domain_id hello) (sh_subject_id hello) (sh_gateway_pubkey hello) (sh_result hello));
                s = s\<lparr>hs_server_offer := sh_offer hello, hs_neg_result := sh_result hello,
                      hs_peer_ephem_pub := sh_ephemeral_pubkey hello, hs_h2 := h2\<rparr>
            in if \<not> ed25519_verify ssl (sh_gateway_pubkey hello)
                    (signature_input ''LNS2-SIG-SERVER-V1'' (sh_trust_domain_id hello) (sh_subject_id hello) h2)
                    (sh_gateway_signature hello) then (abort s, None)
               else let h2 = transcript_hash h2 (sh_gateway_signature hello); s = s\<lparr>hs_h2 := h2\<rparr> in
                 case encode_negotiation_transcript (hs_client_offer s) (hs_server_offer s) (hs_neg_result s) of
                   None \<Rightarrow> (abort s, None)
                 | Some lns2neg \<Rightarrow>
                     let s = s\<lparr>hs_h2 := transcript_hash h2 lns2neg\<rparr> in
                     case authenticate (hs_server_offer s) lns2neg (sh_gateway_pubkey hello) 1000 of
                       None \<Rightarrow> (abort s, None)
                     | Some peer \<Rightarrow>
                         (case derive_keys ssl (s\<lparr>hs_peer_authenticated := peer\<rparr>) of
                            (s, False) \<Rightarrow> (abort s, None)
                          | (s, True) \<Rightarrow>
                              (case finished_data (hs_h2 s) (sk_initiator_finished_key (hs_keys s)) of
                                 None \<Rightarrow> (abort s, None)
                               | Some vdata \<Rightarrow>
                                   let s = s\<lparr>hs_h3 := transcript_hash (hs_h2 s) vdata\<rparr> in
                                   case encode_client_finished vdata of None \<Rightarrow> (abort s, None)
                                   | Some payload \<Rightarrow> (case wrap_handshake_frame payload of None \<Rightarrow> (abort s, None)
                                     | Some out \<Rightarrow> (s\<lparr>hs_state := Hs_Client_Finished_Sent\<rparr>, Some out))))))"

text \<open>The end of both sides' handshakes: the local party, and the session under its fixed identifier.\<close>

definition local_peer :: "handshake_session \<Rightarrow> negotiation_offer \<Rightarrow> authenticated_peer" where
  "local_peer s offer = \<lparr>ap_endpoint = no_endpoint_id offer, ap_trust_domain_id = hs_trust_domain_id s,
     ap_subject_id = hs_subject_id s, ap_credential_revision = 1, ap_authenticated_at_us = 1000,
     ap_credential_expires_at_us = 5000000000, ap_revoked = False\<rparr>"

definition handshake_session_id :: "handshake_session \<Rightarrow> u64" where
  "handshake_session_id s = node_id (no_endpoint_id (hs_client_offer s)) XOR
     push_bit 16 (node_id (no_endpoint_id (hs_server_offer s))) XOR 0x5122"

definition register_session :: "session_registry \<Rightarrow> handshake_session \<Rightarrow> authenticated_peer \<Rightarrow> authenticated_peer
    \<Rightarrow> session_registry \<times> session_record option" where
  "register_session m s initiator responder =
     (case establish m (hs_client_offer s) (hs_server_offer s)
         \<lparr>np_required_level = nr_required_level (hs_neg_result s), np_preferred_suites = [nr_suite (hs_neg_result s)]\<rparr>
         (hs_neg_result s) initiator responder (handshake_session_id s) 1 1 1000 5000000000 of
        (m, False) \<Rightarrow> (m, None)
      | (m, True) \<Rightarrow> (m, get_session m (handshake_session_id s)))"

definition initiator_process_server_finished :: "session_registry \<Rightarrow> handshake_session \<Rightarrow> bytes
    \<Rightarrow> session_registry \<times> handshake_session \<times> session_record option" where
  "initiator_process_server_finished m s frame =
     (if hs_role s \<noteq> Role_Initiator \<or> hs_state s \<noteq> Hs_Client_Finished_Sent then (m, abort s, None)
      else case unwrap_handshake_frame frame of None \<Rightarrow> (m, abort s, None)
      | Some payload \<Rightarrow> (case decode_server_finished payload of None \<Rightarrow> (m, abort s, None)
        | Some vdata \<Rightarrow>
            (case finished_data (hs_h3 s) (sk_responder_finished_key (hs_keys s)) of None \<Rightarrow> (m, abort s, None)
             | Some expected \<Rightarrow>
                 if \<not> constant_time_equals vdata expected (length expected) then (m, abort s, None)
                 else let s = s\<lparr>hs_h4 := transcript_hash (hs_h3 s) vdata\<rparr> in
                   case register_session m s (local_peer s (hs_client_offer s)) (hs_peer_authenticated s) of
                     (m, None) \<Rightarrow> (m, abort s, None)
                   | (m, Some out_session) \<Rightarrow> (m, s\<lparr>hs_state := Hs_Active\<rparr>, Some out_session))))"

section \<open>The responder\<close>

definition responder_process_client_hello :: "'w openssl \<Rightarrow> identity_verifier \<Rightarrow> 'w \<Rightarrow> handshake_session \<Rightarrow> bytes
    \<Rightarrow> negotiation_policy \<Rightarrow> negotiation_offer \<Rightarrow> u32 \<Rightarrow> u64 \<Rightarrow> bytes \<Rightarrow> bytes \<Rightarrow> 'w \<times> handshake_session \<times> bytes option" where
  "responder_process_client_hello ssl authenticate w s frame policy offer domain subject gateway_privkey gateway_pubkey =
     (if hs_role s \<noteq> Role_Responder \<or> hs_state s \<noteq> Hs_Uninitialized then (w, abort s, None)
      else if \<not> policy_is_valid policy \<or> \<not> offer_is_valid offer \<or> length gateway_privkey \<noteq> ed25519_privkey_bytes \<or>
              length gateway_pubkey \<noteq> ed25519_pubkey_bytes \<or> domain = 0 \<or> subject = 0 then (w, abort s, None)
      else case unwrap_handshake_frame frame of None \<Rightarrow> (w, abort s, None)
      | Some payload \<Rightarrow> (case decode_client_hello payload of None \<Rightarrow> (w, abort s, None)
        | Some hello \<Rightarrow>
            let result = negotiate (ch_offer hello) offer policy;
                s = s\<lparr>hs_client_offer := ch_offer hello, hs_server_offer := offer, hs_trust_domain_id := domain,
                      hs_subject_id := subject, hs_local_privkey := gateway_privkey, hs_local_pubkey := gateway_pubkey,
                      hs_peer_ephem_pub := ch_ephemeral_pubkey hello, hs_neg_result := result\<rparr>
            in if \<not> result_accepted result then (w, abort s, None)
               else let h1 = transcript_hash (hs_h0 s) (client_hello_prefix (ch_offer hello) (ch_ephemeral_pubkey hello)
                        (ch_trust_domain_id hello) (ch_subject_id hello) (ch_device_pubkey hello));
                      s = s\<lparr>hs_h1 := h1\<rparr>
                 in if \<not> ed25519_verify ssl (ch_device_pubkey hello)
                         (signature_input ''LNS2-SIG-CLIENT-V1'' (ch_trust_domain_id hello) (ch_subject_id hello) h1)
                         (ch_device_signature hello) then (w, abort s, None)
                    else let h1 = transcript_hash h1 (ch_device_signature hello); s = s\<lparr>hs_h1 := h1\<rparr> in
                      case encode_negotiation_transcript (ch_offer hello) offer result of None \<Rightarrow> (w, abort s, None)
                      | Some lns2neg \<Rightarrow>
                          (case authenticate (ch_offer hello) lns2neg (ch_device_pubkey hello) 1000 of
                             None \<Rightarrow> (w, abort s, None)
                           | Some peer \<Rightarrow>
                               let s = s\<lparr>hs_peer_authenticated := peer\<rparr> in
                               case generate_x25519_keypair ssl w of
                                 (w, None) \<Rightarrow> (w, abort (s\<lparr>hs_ephem_priv := [], hs_ephem_pub := []\<rparr>), None)
                               | (w, Some (priv, pub)) \<Rightarrow>
                                   let h2 = transcript_hash h1 (server_hello_prefix offer pub domain subject
                                          gateway_pubkey result);
                                       s = s\<lparr>hs_ephem_priv := priv, hs_ephem_pub := pub, hs_h2 := h2\<rparr>
                                   in case ed25519_sign ssl gateway_privkey
                                          (signature_input ''LNS2-SIG-SERVER-V1'' domain subject h2) of
                                        None \<Rightarrow> (w, abort s, None)
                                      | Some signature \<Rightarrow>
                                          (case derive_keys ssl (s\<lparr>hs_h2 := transcript_hash (transcript_hash h2 signature) lns2neg\<rparr>) of
                                             (s, False) \<Rightarrow> (w, abort s, None)
                                           | (s, True) \<Rightarrow>
                                               (case encode_server_hello \<lparr>sh_offer = offer, sh_ephemeral_pubkey = pub,
                                                    sh_trust_domain_id = domain, sh_subject_id = subject,
                                                    sh_gateway_pubkey = gateway_pubkey, sh_result = result,
                                                    sh_gateway_signature = signature\<rparr> of
                                                  None \<Rightarrow> (w, abort s, None)
                                                | Some payload \<Rightarrow>
                                                    (case wrap_handshake_frame payload of None \<Rightarrow> (w, abort s, None)
                                                     | Some out \<Rightarrow>
                                                         (w, s\<lparr>hs_state := Hs_Server_Hello_Sent\<rparr>, Some out)))))))"

text \<open>The frame is written before the session is registered: it is there even when that fails.\<close>

definition responder_process_client_finished :: "session_registry \<Rightarrow> handshake_session \<Rightarrow> bytes
    \<Rightarrow> session_registry \<times> handshake_session \<times> bytes \<times> session_record option" where
  "responder_process_client_finished m s frame =
     (if hs_role s \<noteq> Role_Responder \<or> hs_state s \<noteq> Hs_Server_Hello_Sent then (m, abort s, [], None)
      else case unwrap_handshake_frame frame of None \<Rightarrow> (m, abort s, [], None)
      | Some payload \<Rightarrow> (case decode_client_finished payload of None \<Rightarrow> (m, abort s, [], None)
        | Some vdata \<Rightarrow>
            (case finished_data (hs_h2 s) (sk_initiator_finished_key (hs_keys s)) of None \<Rightarrow> (m, abort s, [], None)
             | Some expected \<Rightarrow>
                 if \<not> constant_time_equals vdata expected (length expected) then (m, abort s, [], None)
                 else let s = s\<lparr>hs_h3 := transcript_hash (hs_h2 s) vdata\<rparr> in
                   case finished_data (hs_h3 s) (sk_responder_finished_key (hs_keys s)) of None \<Rightarrow> (m, abort s, [], None)
                   | Some s_verify \<Rightarrow>
                       let s = s\<lparr>hs_h4 := transcript_hash (hs_h3 s) s_verify\<rparr> in
                       case encode_server_finished s_verify of None \<Rightarrow> (m, abort s, [], None)
                       | Some payload \<Rightarrow> (case wrap_handshake_frame payload of None \<Rightarrow> (m, abort s, [], None)
                         | Some out \<Rightarrow>
                             (case register_session m s (hs_peer_authenticated s) (local_peer s (hs_server_offer s)) of
                                (m, None) \<Rightarrow> (m, abort s, out, None)
                              | (m, Some out_session) \<Rightarrow> (m, s\<lparr>hs_state := Hs_Active\<rparr>, out, Some out_session))))))"

section \<open>State machine\<close>

text \<open>One operation of a session; the registry is shared with other sessions and may change in between.\<close>

inductive handshake_step :: "'w openssl \<Rightarrow> identity_verifier \<Rightarrow> handshake_session \<Rightarrow> handshake_session \<Rightarrow> bool"
  for ssl authenticate where
  start: "handshake_step ssl authenticate s (fst (snd (initiator_start ssl w s offer domain subject priv pub)))"
| server_hello: "handshake_step ssl authenticate s (fst (initiator_process_server_hello ssl authenticate s frame))"
| server_finished: "handshake_step ssl authenticate s (fst (snd (initiator_process_server_finished m s frame)))"
| client_hello: "handshake_step ssl authenticate s
     (fst (snd (responder_process_client_hello ssl authenticate w s frame policy offer domain subject priv pub)))"
| client_finished: "handshake_step ssl authenticate s (fst (snd (responder_process_client_finished m s frame)))"

fun handshake_advance :: "session_participant_role \<Rightarrow> handshake_state \<Rightarrow> handshake_state \<Rightarrow> bool" where
  "handshake_advance Role_Initiator Hs_Uninitialized t = (t = Hs_Client_Hello_Sent)"
| "handshake_advance Role_Initiator Hs_Client_Hello_Sent t = (t = Hs_Client_Finished_Sent)"
| "handshake_advance Role_Initiator Hs_Client_Finished_Sent t = (t = Hs_Active)"
| "handshake_advance Role_Responder Hs_Uninitialized t = (t = Hs_Server_Hello_Sent)"
| "handshake_advance Role_Responder Hs_Server_Hello_Sent t = (t = Hs_Active)"
| "handshake_advance role s t = False"

lemma derive_keys_frame:
  "derive_keys ssl s = (t, ok) \<Longrightarrow> t = s\<lparr>hs_keys := hs_keys t\<rparr>"
  by (auto simp: derive_keys_def split: option.splits)

lemma abort_simps [simp]:
  "hs_state (abort s) = Hs_Failed" "hs_role (abort s) = hs_role s" "hs_ephem_priv (abort s) = []"
  "hs_local_privkey (abort s) = []" "hs_keys (abort s) = wiped_keys"
  by (simp_all add: abort_def)

text \<open>A failed session holds no secrets.\<close>

definition secrets_wiped :: "handshake_session \<Rightarrow> bool" where
  "secrets_wiped s \<longleftrightarrow> hs_ephem_priv s = [] \<and> hs_local_privkey s = [] \<and> hs_keys s = wiped_keys"

lemma secrets_wiped_abort [simp]: "secrets_wiped (abort s)"
  by (simp add: secrets_wiped_def)

definition step_ok :: "handshake_session \<Rightarrow> handshake_session \<Rightarrow> bool" where
  "step_ok s t \<longleftrightarrow> hs_role t = hs_role s \<and>
     (hs_state t = Hs_Failed \<and> secrets_wiped t \<or> handshake_advance (hs_role s) (hs_state s) (hs_state t))"

lemma step_ok_abort [simp]: "hs_role t = hs_role s \<Longrightarrow> step_ok s (abort t)"
  by (simp add: step_ok_def)

lemma derive_keys_role [simp]: "derive_keys ssl s = (t, ok) \<Longrightarrow> hs_role t = hs_role s"
  by (drule derive_keys_frame) (metis handshake_session.select_convs(1) handshake_session.surjective
      handshake_session.update_convs(19))

lemma start_step_ok: "step_ok s (fst (snd (initiator_start ssl w s offer domain subject priv pub)))"
  unfolding initiator_start_def Let_def
  by (cases "hs_role s"; cases "hs_state s") (auto simp: step_ok_def split: option.split prod.split)

lemma server_finished_step_ok: "step_ok s (fst (snd (initiator_process_server_finished m s frame)))"
  unfolding initiator_process_server_finished_def Let_def
  by (cases "hs_role s"; cases "hs_state s") (auto simp: step_ok_def split: option.split prod.split)

lemma client_finished_step_ok: "step_ok s (fst (snd (responder_process_client_finished m s frame)))"
  unfolding responder_process_client_finished_def Let_def
  by (cases "hs_role s"; cases "hs_state s") (auto simp: step_ok_def split: option.split prod.split)

lemma server_hello_step_ok: "step_ok s (fst (initiator_process_server_hello ssl authenticate s frame))"
  unfolding initiator_process_server_hello_def Let_def
  by (cases "hs_role s"; cases "hs_state s") (auto simp: step_ok_def dest: derive_keys_role split: option.split prod.split bool.split)

lemma client_hello_step_ok: "step_ok s (fst (snd (responder_process_client_hello ssl authenticate w s frame policy offer domain subject priv pub)))"
  unfolding responder_process_client_hello_def Let_def
  by (cases "hs_role s"; cases "hs_state s") (auto simp: step_ok_def dest: derive_keys_role split: option.split prod.split bool.split)

lemma handshake_step_ok: "handshake_step ssl authenticate s t \<Longrightarrow> step_ok s t"
  by (induction rule: handshake_step.induct)
    (rule start_step_ok server_hello_step_ok server_finished_step_ok client_hello_step_ok client_finished_step_ok)+

fun handshake_states :: "session_participant_role \<Rightarrow> handshake_state set" where
  "handshake_states Role_Initiator =
     {Hs_Uninitialized, Hs_Client_Hello_Sent, Hs_Client_Finished_Sent, Hs_Active, Hs_Failed}"
| "handshake_states Role_Responder = {Hs_Uninitialized, Hs_Server_Hello_Sent, Hs_Active, Hs_Failed}"
| "handshake_states Role_Unknown = {Hs_Uninitialized, Hs_Failed}"

lemma advance_states: "handshake_advance r s t \<Longrightarrow> t \<in> handshake_states r"
  by (induction r s t rule: handshake_advance.induct) auto

lemma failed_states: "Hs_Failed \<in> handshake_states r"
  by (cases r) auto

lemma handshake_run:
  assumes "(handshake_step ssl authenticate)\<^sup>*\<^sup>* (new_handshake role) s"
  shows "hs_role s = role \<and> hs_state s \<in> handshake_states role \<and> (hs_state s = Hs_Failed \<longrightarrow> secrets_wiped s)"
  using assms
proof (induction rule: rtranclp_induct)
  case base
  show ?case by (cases role) (simp_all add: new_handshake_def)
next
  case (step s t)
  from handshake_step_ok [OF step.hyps(2)] step.IH have ok: "step_ok s t" "hs_role s = role" by auto
  then have "hs_state t \<in> handshake_states role"
    unfolding step_ok_def using advance_states failed_states by metis
  moreover have "hs_state t = Hs_Failed \<longrightarrow> secrets_wiped t"
    using ok by (cases "hs_role s"; cases "hs_state s") (auto simp: step_ok_def)
  ultimately show ?case using ok by (simp add: step_ok_def)
qed

lemma handshake_over:
  assumes "(handshake_step ssl authenticate)\<^sup>*\<^sup>* s t" and "hs_state s = Hs_Active \<or> hs_state s = Hs_Failed"
  shows "t = s \<or> hs_state t = Hs_Failed \<and> secrets_wiped t"
  using assms(1)
proof (induction rule: rtranclp_induct)
  case (step t u)
  have "hs_state t = Hs_Active \<or> hs_state t = Hs_Failed" using step.IH assms(2) by auto
  moreover have "handshake_advance r Hs_Active x = False" "handshake_advance r Hs_Failed x = False" for r x
    by (cases r; simp)+
  ultimately show ?case using handshake_step_ok [OF step.hyps(2)] by (auto simp: step_ok_def)
qed simp

text \<open>
  The handshake is a one-way state machine. Whatever is called and received, and in whatever
  order, a handshake only takes the states of its role; once it failed it holds no ephemeral or
  long-term private key and no session keys; and after it became active or failed, any further
  operation fails it and wipes it.
\<close>

theorem handshake_one_way:
  assumes "(handshake_step ssl authenticate)\<^sup>*\<^sup>* (new_handshake role) s"
    and "(handshake_step ssl authenticate)\<^sup>*\<^sup>* s t"
  shows "hs_role s = role \<and> hs_state s \<in> handshake_states role \<and> (hs_state s = Hs_Failed \<longrightarrow> secrets_wiped s) \<and>
    (hs_state s \<in> {Hs_Active, Hs_Failed} \<longrightarrow> t = s \<or> hs_state t = Hs_Failed \<and> secrets_wiped t)"
  using handshake_run [OF assms(1)] handshake_over [OF assms(2)] by blast

section \<open>The session a handshake registers\<close>

lemma register_session_Some:
  assumes "register_session m s i r = (m', Some out)"
  shows "lookup m (handshake_session_id s) = None \<and> m' = AList.update (handshake_session_id s) out m \<and>
    out = \<lparr>sr_session_id = handshake_session_id s, sr_security_epoch = 1, sr_key_id = 1,
       sr_negotiated_level = nr_negotiated_level (hs_neg_result s), sr_suite = nr_suite (hs_neg_result s),
       sr_initiator = i, sr_responder = r,
       sr_initiator_control_epoch = no_control_epoch (hs_client_offer s),
       sr_initiator_lease_token = no_lease_token (hs_client_offer s),
       sr_responder_control_epoch = no_control_epoch (hs_server_offer s),
       sr_responder_lease_token = no_lease_token (hs_server_offer s),
       sr_negotiation_transcript = the (encode_negotiation_transcript (hs_client_offer s) (hs_server_offer s) (hs_neg_result s)),
       sr_established_at_us = 1000, sr_key_activated_at_us = 1000, sr_expires_at_us = 5000000000,
       sr_state = Sess_Active\<rparr> \<and>
    peer_is_valid_at i 1000 \<and> peer_is_valid_at r 1000"
proof -
  obtain m1 b where e: "establish m (hs_client_offer s) (hs_server_offer s)
         \<lparr>np_required_level = nr_required_level (hs_neg_result s), np_preferred_suites = [nr_suite (hs_neg_result s)]\<rparr>
         (hs_neg_result s) i r (handshake_session_id s) 1 1 1000 5000000000 = (m1, b)" by fastforce
  with assms have b: "b" and m: "m1 = m'" "get_session m1 (handshake_session_id s) = Some out"
    by (auto simp: register_session_def split: bool.splits)
  from e b m show ?thesis
    unfolding establish_def Let_def get_session_def
    by (auto split: if_splits option.splits)
qed

text \<open>
  Handshakes use a fixed time. The session a completed handshake registers, on either side, was
  established at microsecond 1000 and expires at microsecond 5000000000 of the caller's clock whatever
  the time is; from then on it is never active, and the identity verifier was asked about time 1000.
\<close>

theorem handshake_session_fixed_lifetime:
  assumes "initiator_process_server_finished m s frame = (m', t, Some out) \<or>
    responder_process_client_finished m s frame = (m', t, f, Some out)"
    and "session_is_active_at out now"
  shows "1000 \<le> now \<and> now < 5000000000"
proof -
  have "\<exists>s' i r. register_session m s' i r = (m', Some out)"
    using assms(1) unfolding initiator_process_server_finished_def responder_process_client_finished_def Let_def
    by (auto split: if_splits option.splits prod.splits)
  then obtain s' i r where "register_session m s' i r = (m', Some out)" by blast
  from register_session_Some [OF this] assms(2) show ?thesis by (simp add: session_is_active_at_def)
qed

text \<open>
  Two endpoints can complete one handshake only. The session identifier is a function of the two
  node identifiers and sessions stay in the registry when they end, so once a registry holds a session
  of a completed handshake, every later handshake for that identifier fails on it, even after the
  session was closed, revoked or has expired.
\<close>

theorem second_handshake_refused:
  assumes "register_session m s i r = (m', Some out)" and "registry_step\<^sup>*\<^sup>* m' m''"
    and "handshake_session_id s' = handshake_session_id s"
  shows "snd (snd (snd (responder_process_client_finished m'' s' frame))) = None \<and>
    snd (snd (initiator_process_server_finished m'' s' frame)) = None"
proof -
  have "lookup m' (handshake_session_id s) = Some out" using register_session_Some [OF assms(1)] by simp
  from registry_steps_evolve [OF assms(2) this] obtain t where t: "lookup m'' (handshake_session_id s') = Some t"
    using assms(3) by auto
  have id: "handshake_session_id (x\<lparr>hs_h3 := a\<rparr>) = handshake_session_id x"
    "handshake_session_id (x\<lparr>hs_h4 := a\<rparr>) = handshake_session_id x" for x a
    by (simp_all add: handshake_session_id_def)
  have refuse: "snd (register_session m'' x i' r') = None" if "handshake_session_id x = handshake_session_id s'" for x i' r'
  proof (cases "register_session m'' x i' r'")
    case (Pair a b)
    then show ?thesis using register_session_Some [of m'' x i' r' a] t that by (cases b) auto
  qed
  show ?thesis
    unfolding responder_process_client_finished_def initiator_process_server_finished_def Let_def
    by (auto split: option.split prod.split) (use refuse id in \<open>(metis option.distinct(1) snd_conv)+\<close>)
qed

end
