(* ===== verification/SL2_Run.thy ===== *)
theory SL2_Run
  imports SL2_Handshake
begin

text \<open>
  Complete runs of the SL2 handshake: two honest parties complete and agree on keys and session, and
  whoever completes agrees with the other side on the transcript, up to collisions of HMAC-SHA-256.
\<close>

section \<open>An honest run\<close>

text \<open>What the handshake relies on of OpenSSL, as its documentation has it.\<close>

definition dh_agrees :: "'w openssl \<Rightarrow> bool" where
  "dh_agrees ssl \<longleftrightarrow> (\<forall>w w1 a A w' w2 b B. ssl_x25519_keygen ssl w = (w1, Some (a, A)) \<longrightarrow>
     ssl_x25519_keygen ssl w' = (w2, Some (b, B)) \<longrightarrow> length a = 32 \<and> length A = 32 \<and>
     (\<exists>z. ssl_x25519_derive ssl a B = Some z \<and> ssl_x25519_derive ssl b A = Some z \<and>
        length z = 32 \<and> fold (\<lambda>b mask. mask OR b) z 0 \<noteq> 0))"

definition signing_works :: "'w openssl \<Rightarrow> bool" where
  "signing_works ssl \<longleftrightarrow> (\<forall>priv m. length priv = 32 \<longrightarrow> (\<exists>sig. ssl_ed25519_sign ssl priv m = Some sig \<and> length sig = 64))"

definition hkdf_works :: "'w openssl \<Rightarrow> bool" where
  "hkdf_works ssl \<longleftrightarrow> (\<forall>salt ikm. \<exists>prk. ssl_hkdf_extract ssl salt ikm = Some prk \<and> length prk = 32) \<and>
     (\<forall>prk info n. length prk = 32 \<longrightarrow> n \<le> 8160 \<longrightarrow> (\<exists>k. ssl_hkdf_expand ssl prk info n = Some k \<and> length k = n))"

definition openssl_works :: "'w openssl \<Rightarrow> bool" where
  "openssl_works ssl \<longleftrightarrow> dh_agrees ssl \<and> signing_works ssl \<and> hkdf_works ssl"

definition signs_for :: "'w openssl \<Rightarrow> bytes \<Rightarrow> bytes \<Rightarrow> bool" where
  "signs_for ssl priv pub \<longleftrightarrow> (\<forall>m sig. ssl_ed25519_sign ssl priv m = Some sig \<longrightarrow> ssl_ed25519_verify ssl pub m sig)"

lemma sign_works:
  assumes "openssl_works ssl" and "length priv = 32" "length pub = 32" and "signs_for ssl priv pub"
  shows "\<exists>sig. ed25519_sign ssl priv m = Some sig \<and> length sig = 64 \<and> ed25519_verify ssl pub m sig"
proof -
  from assms(1,2) obtain sig where "ssl_ed25519_sign ssl priv m = Some sig" "length sig = 64"
    unfolding openssl_works_def signing_works_def by blast
  then show ?thesis using assms by (simp add: signs_for_def ed25519_sign_def ed25519_verify_def)
qed

lemma expand_works:
  "openssl_works ssl \<Longrightarrow> length prk = 32 \<Longrightarrow> 0 < n \<Longrightarrow> n \<le> 8160 \<Longrightarrow>
     \<exists>k. hkdf_expand ssl prk info n = Some k \<and> length k = n"
  unfolding openssl_works_def hkdf_works_def hkdf_expand_def by auto

text \<open>Both sides derive the same keys from the same transcript.\<close>

definition session_keys :: "'w openssl \<Rightarrow> crypto_suite \<Rightarrow> bytes \<Rightarrow> sl2_session_keys" where
  "session_keys ssl suite prk = \<lparr>sk_suite = suite,
     sk_initiator_traffic_key = the (hkdf_expand ssl prk ''lns2.key.init'' aead_key_bytes),
     sk_responder_traffic_key = the (hkdf_expand ssl prk ''lns2.key.resp'' aead_key_bytes),
     sk_initiator_iv = the (hkdf_expand ssl prk ''lns2.iv.init'' aead_nonce_bytes),
     sk_responder_iv = the (hkdf_expand ssl prk ''lns2.iv.resp'' aead_nonce_bytes),
     sk_initiator_finished_key = the (hkdf_expand ssl prk ''lns2.fin.init'' sha256_digest_bytes),
     sk_responder_finished_key = the (hkdf_expand ssl prk ''lns2.fin.resp'' sha256_digest_bytes)\<rparr>"

lemma derive_keys_works:
  assumes ssl: "openssl_works ssl" and "length priv = 32" "length pub = 32" and "length z = 32"
    and "ssl_x25519_derive ssl priv pub = Some z" "fold (\<lambda>b mask. mask OR b) z 0 \<noteq> 0"
    and prk: "hkdf_extract ssl h z = Some prk" "length prk = 32"
    and s: "hs_ephem_priv s = priv" "hs_peer_ephem_pub s = pub" "hs_h2 s = h"
  shows "derive_keys ssl s = (s\<lparr>hs_keys := session_keys ssl (nr_suite (hs_neg_result s)) prk\<rparr>, True)"
proof -
  have k32: "\<exists>k. hkdf_expand ssl prk info 32 = Some k" for info
    using expand_works [OF ssl prk(2), of 32 info] by auto
  have k12: "\<exists>k. hkdf_expand ssl prk info 12 = Some k" for info
    using expand_works [OF ssl prk(2), of 12 info] by auto
  obtain k1 k2 k3 k4 k5 k6 where
    "hkdf_expand ssl prk ''lns2.key.init'' 32 = Some k1" "hkdf_expand ssl prk ''lns2.key.resp'' 32 = Some k2"
    "hkdf_expand ssl prk ''lns2.iv.init'' 12 = Some k3" "hkdf_expand ssl prk ''lns2.iv.resp'' 12 = Some k4"
    "hkdf_expand ssl prk ''lns2.fin.init'' 32 = Some k5" "hkdf_expand ssl prk ''lns2.fin.resp'' 32 = Some k6"
    using k32 [of "''lns2.key.init''"] k32 [of "''lns2.key.resp''"] k12 [of "''lns2.iv.init''"] k12 [of "''lns2.iv.resp''"]
      k32 [of "''lns2.fin.init''"] k32 [of "''lns2.fin.resp''"] by (elim exE) rule
  then show ?thesis
    using assms by (simp add: derive_keys_def diffie_hellman_x25519_def session_keys_def)
qed

lemma finished_data_works:
  "key \<noteq> [] \<Longrightarrow> h \<noteq> [] \<Longrightarrow> finished_data h key = Some (sl_hmac_sha256 key h)"
  by (simp add: finished_data_def auth_sign_def hmac_sha256_authenticator_def)

lemma length_sl_sha256 [simp]: "length (sl_sha256 m) = 32"
  by (simp add: sl_sha256_spec)

lemma transcript_hash_not_nil [simp]: "transcript_hash h m \<noteq> []" "length (transcript_hash h m) = 32"
  using length_sl_sha256 [of "h @ m"] by (auto simp: transcript_hash_def simp del: length_sl_sha256)

text \<open>Negotiating again under the policy the handshake puts together gives the result again.\<close>

lemma negotiate_again:
  assumes "result_accepted (negotiate i r p)"
  shows "negotiate i r \<lparr>np_required_level = nr_required_level (negotiate i r p),
      np_preferred_suites = [nr_suite (negotiate i r p)]\<rparr> = negotiate i r p"
proof (rule accepted_negotiation [OF assms])
  fix s
  let ?level = "min (no_maximum_level i) (no_maximum_level r)" and ?pm = "max (no_minimum_level i) (no_minimum_level r)"
  assume v: "offer_is_valid i" "offer_is_valid r" "policy_is_valid p" "offer_version_ok i" "offer_version_ok r"
    and n: "negotiate i r p = \<lparr>nr_status = ns_accepted, nr_required_level = max ?pm (np_required_level p),
       nr_negotiated_level = ?level, nr_suite = s\<rparr>"
    and le: "max ?pm (np_required_level p) \<le> ?level" and c: "suite_candidate i r ?level s"
  define req where "req = max ?pm (np_required_level p)"
  have "known_level req" unfolding req_def
    using v offer_valid_levels known_level_max by (auto simp: policy_is_valid_def)
  moreover have "known_suite s" using c v(1)
    by (auto simp: suite_candidate_def contains_suite_def offer_is_valid_def list_all_iff split: if_splits)
  ultimately have pv: "policy_is_valid \<lparr>np_required_level = req, np_preferred_suites = [s]\<rparr>"
    by (simp add: policy_is_valid_def)
  have "?pm \<le> ?level" "req \<le> ?level" using le by (simp_all add: req_def)
  then have nl: "\<not> ?level < ?pm" "\<not> ?level < req" by (simp_all only: not_less)
  have m: "max ?pm req = req" by (simp add: req_def)
  have "negotiate i r \<lparr>np_required_level = req, np_preferred_suites = [s]\<rparr> =
      \<lparr>nr_status = ns_accepted, nr_required_level = req, nr_negotiated_level = ?level, nr_suite = s\<rparr>"
    unfolding negotiate_def Let_def using v pv nl c m by (simp add: new_result_def)
  then show ?thesis by (simp add: n req_def)
qed

lemma negotiated_suite_known:
  assumes "result_accepted (negotiate i r p)"
  shows "\<exists>t. encode_negotiation_transcript i r (negotiate i r p) = Some t"
  using accepted_negotiation_transcript [OF assms] by blast

lemma register_works:
  assumes acc: "result_accepted (negotiate io ro pol)" and s: "hs_client_offer s = io" "hs_server_offer s = ro"
      "hs_neg_result s = negotiate io ro pol"
    and free: "handshake_session_id s \<noteq> 0" "lookup m (handshake_session_id s) = None"
    and p: "peer_is_valid_at i 1000" "peer_is_valid_at r 1000" "ap_endpoint i = no_endpoint_id io"
      "ap_endpoint r = no_endpoint_id ro" "5000000000 \<le> ap_credential_expires_at_us i"
      "5000000000 \<le> ap_credential_expires_at_us r"
  shows "\<exists>m' out. register_session m s i r = (m', Some out)"
proof -
  obtain t where t: "encode_negotiation_transcript io ro (negotiate io ro pol) = Some t"
    using negotiated_suite_known [OF acc] by blast
  have v: "offer_is_valid io" "offer_is_valid ro" using accepted_negotiation [OF acc] by metis+
  have "snd (establish m io ro \<lparr>np_required_level = nr_required_level (negotiate io ro pol),
      np_preferred_suites = [nr_suite (negotiate io ro pol)]\<rparr> (negotiate io ro pol) i r (handshake_session_id s) 1 1 1000 5000000000)"
    unfolding establish_def Let_def negotiate_again [OF acc]
    using acc free p v t by (simp add: not_less)
  then obtain m' where e: "establish m io ro \<lparr>np_required_level = nr_required_level (negotiate io ro pol),
      np_preferred_suites = [nr_suite (negotiate io ro pol)]\<rparr> (negotiate io ro pol) i r (handshake_session_id s) 1 1 1000 5000000000
      = (m', True)" by (metis prod.collapse)
  from e have "get_session m' (handshake_session_id s) \<noteq> None"
    unfolding establish_def Let_def get_session_def by (auto split: if_splits option.splits)
  then show ?thesis using e s by (auto simp: register_session_def)
qed

text \<open>The five calls of a handshake, each side getting what the other sent.\<close>

definition run_handshake :: "'w openssl \<Rightarrow> identity_verifier \<Rightarrow> identity_verifier \<Rightarrow> 'w \<Rightarrow> 'w \<Rightarrow> session_registry
    \<Rightarrow> session_registry \<Rightarrow> negotiation_policy \<Rightarrow> negotiation_offer \<Rightarrow> u32 \<times> u64 \<Rightarrow> bytes \<times> bytes
    \<Rightarrow> negotiation_offer \<Rightarrow> u32 \<times> u64 \<Rightarrow> bytes \<times> bytes
    \<Rightarrow> handshake_session \<times> handshake_session \<times> session_record option \<times> session_record option" where
  "run_handshake ssl auth_i auth_r wi wr mi mr pol io subj_i keys_i ro subj_r keys_r =
     (let (wi, i, f1) = initiator_start ssl wi (new_handshake Role_Initiator) io (fst subj_i) (snd subj_i) (fst keys_i) (snd keys_i);
          (wr, r, f2) = responder_process_client_hello ssl auth_r wr (new_handshake Role_Responder) (the f1) pol ro
            (fst subj_r) (snd subj_r) (fst keys_r) (snd keys_r);
          (i, f3) = initiator_process_server_hello ssl auth_i i (the f2);
          (mr, r, f4, out_r) = responder_process_client_finished mr r (the f3);
          (mi, i, out_i) = initiator_process_server_finished mi i f4
      in (i, r, out_i, out_r))"

lemma start_works:
  assumes ssl: "openssl_works ssl" and o: "offer_is_valid io" and k: "length priv = 32" "length pub = 32"
    and d: "domain \<noteq> 0" "subject \<noteq> 0" and gen: "ssl_x25519_keygen ssl w = (w', Some (a, A))" "length a = 32" "length A = 32"
    and sig: "ed25519_sign ssl priv (signature_input ''LNS2-SIG-CLIENT-V1'' domain subject h1) = Some sig" "length sig = 64"
    and h1: "h1 = transcript_hash (hs_h0 (new_handshake Role_Initiator)) (client_hello_prefix io A domain subject pub)"
  shows "\<exists>p f s. encode_client_hello \<lparr>ch_offer = io, ch_ephemeral_pubkey = A, ch_trust_domain_id = domain,
        ch_subject_id = subject, ch_device_pubkey = pub, ch_device_signature = sig\<rparr> = Some p \<and>
      wrap_handshake_frame p = Some f \<and>
      initiator_start ssl w (new_handshake Role_Initiator) io domain subject priv pub = (w', s, Some f) \<and>
      hs_role s = Role_Initiator \<and> hs_state s = Hs_Client_Hello_Sent \<and> hs_ephem_priv s = a \<and> hs_client_offer s = io \<and>
      hs_h1 s = transcript_hash h1 sig \<and> hs_trust_domain_id s = domain \<and> hs_subject_id s = subject"
proof -
  have "encode_client_hello \<lparr>ch_offer = io, ch_ephemeral_pubkey = A, ch_trust_domain_id = domain,
      ch_subject_id = subject, ch_device_pubkey = pub, ch_device_signature = sig\<rparr> \<noteq> None"
    using o k d gen sig(2) by (simp add: encode_client_hello_def)
  then obtain p where p: "encode_client_hello \<lparr>ch_offer = io, ch_ephemeral_pubkey = A, ch_trust_domain_id = domain,
      ch_subject_id = subject, ch_device_pubkey = pub, ch_device_signature = sig\<rparr> = Some p" by blast
  then have "p \<noteq> []" by (auto simp: encode_client_hello_def write_u8_def split: if_splits)
  then obtain f where f: "wrap_handshake_frame p = Some f" by (simp add: wrap_handshake_frame_def)
  have role: "hs_role (new_handshake Role_Initiator) = Role_Initiator" "hs_state (new_handshake Role_Initiator) = Hs_Uninitialized"
    by (simp_all add: new_handshake_def)
  have gk: "generate_x25519_keypair ssl w = (w', Some (a, A))" using gen by (simp add: generate_x25519_keypair_def)
  show ?thesis
    unfolding initiator_start_def Let_def using p f role o k d gk sig(1)
    by (simp add: h1 [symmetric])
qed


lemma offer_length: "offer_ok f \<Longrightarrow> length (encode_offer_fields f) \<le> 105"
proof -
  assume ok: "offer_ok f"
  then have "length (no_supported_suites f) \<le> 16" "length (no_nonce f) = 32"
    by (auto simp: offer_ok_def offer_is_valid_def split: if_splits)
  moreover have "length (concat (map write_u16 xs)) = 2 * length xs" for xs by (induction xs) simp_all
  ultimately show ?thesis by (simp add: encode_offer_fields_def)
qed

lemma client_hello_frame:
  assumes "encode_client_hello h = Some p" and "wrap_handshake_frame p = Some f" and "length (no_nonce (ch_offer h)) = 32"
  shows "unwrap_handshake_frame f = Some p \<and> decode_client_hello p = Some h"
proof -
  have "offer_ok (ch_offer h)" using assms by (auto simp: encode_client_hello_def offer_ok_def split: if_splits)
  from offer_length [OF this] have "length p \<le> 300" using assms(1)
    by (auto simp: encode_client_hello_def split: if_splits)
  then show ?thesis using unwrap_wrap [OF assms(2)] client_hello_exact assms by simp
qed

lemma server_hello_frame:
  assumes "encode_server_hello h = Some p" and "wrap_handshake_frame p = Some f" and "length (no_nonce (sh_offer h)) = 32"
  shows "unwrap_handshake_frame f = Some p \<and> decode_server_hello p = Some h"
proof -
  have "offer_ok (sh_offer h)" using assms by (auto simp: encode_server_hello_def offer_ok_def split: if_splits)
  from offer_length [OF this] have "length p \<le> 300" using assms(1)
    by (auto simp: encode_server_hello_def split: if_splits)
  then show ?thesis using unwrap_wrap [OF assms(2)] server_hello_exact assms by simp
qed

lemma client_hello_works:
  assumes ssl: "openssl_works ssl" and f: "encode_client_hello \<lparr>ch_offer = io, ch_ephemeral_pubkey = A, ch_trust_domain_id = di,
        ch_subject_id = si, ch_device_pubkey = dpub, ch_device_signature = isig\<rparr> = Some p" "wrap_handshake_frame p = Some f"
    and o: "offer_ok io" "offer_ok ro" "policy_is_valid pol" "result_accepted (negotiate io ro pol)"
    and k: "length gpriv = 32" "length gpub = 32" "dr \<noteq> 0" "sr \<noteq> 0"
    and isig: "ed25519_verify ssl dpub (signature_input ''LNS2-SIG-CLIENT-V1'' di si h1) isig"
      "h1 = transcript_hash (hs_h0 (new_handshake Role_Initiator)) (client_hello_prefix io A di si dpub)"
    and t: "encode_negotiation_transcript io ro (negotiate io ro pol) = Some t" "auth_r io t dpub 1000 = Some pc"
    and gen: "ssl_x25519_keygen ssl w = (w', Some (b, B))" "length b = 32" "length B = 32" "length A = 32"
    and dh: "ssl_x25519_derive ssl b A = Some z" "length z = 32" "fold (\<lambda>b mask. mask OR b) z 0 \<noteq> 0"
    and rsig: "ed25519_sign ssl gpriv (signature_input ''LNS2-SIG-SERVER-V1'' dr sr h2) = Some rsig" "length rsig = 64"
    and h2: "h2 = transcript_hash (transcript_hash h1 isig) (server_hello_prefix ro B dr sr gpub (negotiate io ro pol))"
    and prk: "hkdf_extract ssl (transcript_hash (transcript_hash h2 rsig) t) z = Some prk" "length prk = 32"
  shows "\<exists>q g s. encode_server_hello \<lparr>sh_offer = ro, sh_ephemeral_pubkey = B, sh_trust_domain_id = dr,
        sh_subject_id = sr, sh_gateway_pubkey = gpub, sh_result = negotiate io ro pol, sh_gateway_signature = rsig\<rparr> = Some q \<and>
      wrap_handshake_frame q = Some g \<and>
      responder_process_client_hello ssl auth_r w (new_handshake Role_Responder) f pol ro dr sr gpriv gpub = (w', s, Some g) \<and>
      hs_role s = Role_Responder \<and> hs_state s = Hs_Server_Hello_Sent \<and> hs_client_offer s = io \<and> hs_server_offer s = ro \<and>
      hs_neg_result s = negotiate io ro pol \<and> hs_peer_authenticated s = pc \<and>
      hs_h2 s = transcript_hash (transcript_hash h2 rsig) t \<and>
      hs_keys s = session_keys ssl (nr_suite (negotiate io ro pol)) prk \<and>
      hs_trust_domain_id s = dr \<and> hs_subject_id s = sr"
proof -
  have u: "unwrap_handshake_frame f = Some p" "decode_client_hello p = Some \<lparr>ch_offer = io, ch_ephemeral_pubkey = A,
      ch_trust_domain_id = di, ch_subject_id = si, ch_device_pubkey = dpub, ch_device_signature = isig\<rparr>"
    using client_hello_frame [OF f] o(1) by (simp_all add: offer_ok_def)
  have "encode_server_hello \<lparr>sh_offer = ro, sh_ephemeral_pubkey = B, sh_trust_domain_id = dr, sh_subject_id = sr,
      sh_gateway_pubkey = gpub, sh_result = negotiate io ro pol, sh_gateway_signature = rsig\<rparr> \<noteq> None"
    using o k gen rsig(2) by (simp add: encode_server_hello_def offer_ok_def)
  then obtain q where q: "encode_server_hello \<lparr>sh_offer = ro, sh_ephemeral_pubkey = B, sh_trust_domain_id = dr,
      sh_subject_id = sr, sh_gateway_pubkey = gpub, sh_result = negotiate io ro pol, sh_gateway_signature = rsig\<rparr> = Some q"
    by blast
  then have "q \<noteq> []" by (auto simp: encode_server_hello_def write_u8_def split: if_splits)
  then obtain g where g: "wrap_handshake_frame q = Some g" by (simp add: wrap_handshake_frame_def)
  have role: "hs_role (new_handshake Role_Responder) = Role_Responder" "hs_state (new_handshake Role_Responder) = Hs_Uninitialized"
    "hs_h0 (new_handshake Role_Responder) = hs_h0 (new_handshake Role_Initiator)"
    by (simp_all add: new_handshake_def)
  have gk: "generate_x25519_keypair ssl w = (w', Some (b, B))" using gen by (simp add: generate_x25519_keypair_def)
  have d: "derive_keys ssl x = (x\<lparr>hs_keys := session_keys ssl (nr_suite (hs_neg_result x)) prk\<rparr>, True)"
    if "hs_ephem_priv x = b" "hs_peer_ephem_pub x = A" "hs_h2 x = transcript_hash (transcript_hash h2 rsig) t" for x
    using derive_keys_works [OF ssl gen(2) gen(4) dh(2) dh(1) dh(3) prk that] .
  have ov: "offer_is_valid ro" using o(2) by (simp add: offer_ok_def)
  show ?thesis
    unfolding responder_process_client_hello_def Let_def
    using u role o(3,4) ov k gk t rsig(1) q g isig(1)
    by (simp add: isig(2) [symmetric] h2 [symmetric] d)
qed

lemma server_hello_works:
  assumes ssl: "openssl_works ssl" and g: "encode_server_hello \<lparr>sh_offer = ro, sh_ephemeral_pubkey = B, sh_trust_domain_id = dr,
        sh_subject_id = sr, sh_gateway_pubkey = gpub, sh_result = res, sh_gateway_signature = rsig\<rparr> = Some q" "wrap_handshake_frame q = Some g"
    and s: "hs_role s = Role_Initiator" "hs_state s = Hs_Client_Hello_Sent" "hs_ephem_priv s = a" "hs_client_offer s = io"
    and o: "offer_ok ro" and rsig: "ed25519_verify ssl gpub (signature_input ''LNS2-SIG-SERVER-V1'' dr sr h2) rsig"
      "h2 = transcript_hash (hs_h1 s) (server_hello_prefix ro B dr sr gpub res)"
    and t: "encode_negotiation_transcript io ro res = Some t" "auth_i ro t gpub 1000 = Some ps"
    and len: "length a = 32" "length B = 32"
    and dh: "ssl_x25519_derive ssl a B = Some z" "length z = 32" "fold (\<lambda>b mask. mask OR b) z 0 \<noteq> 0"
    and h: "h = transcript_hash (transcript_hash h2 rsig) t" and prk: "hkdf_extract ssl h z = Some prk" "length prk = 32"
    and ik: "sk_initiator_finished_key (session_keys ssl (nr_suite res) prk) \<noteq> []"
  shows "\<exists>v p f u. v = sl_hmac_sha256 (sk_initiator_finished_key (session_keys ssl (nr_suite res) prk)) h \<and>
      encode_client_finished v = Some p \<and> wrap_handshake_frame p = Some f \<and>
      initiator_process_server_hello ssl auth_i s g = (u, Some f) \<and>
      hs_role u = Role_Initiator \<and> hs_state u = Hs_Client_Finished_Sent \<and> hs_client_offer u = io \<and> hs_server_offer u = ro \<and>
      hs_neg_result u = res \<and> hs_peer_authenticated u = ps \<and> hs_h3 u = transcript_hash h v \<and>
      hs_keys u = session_keys ssl (nr_suite res) prk \<and>
      hs_trust_domain_id u = hs_trust_domain_id s \<and> hs_subject_id u = hs_subject_id s"
proof -
  have u: "unwrap_handshake_frame g = Some q" "decode_server_hello q = Some \<lparr>sh_offer = ro, sh_ephemeral_pubkey = B,
      sh_trust_domain_id = dr, sh_subject_id = sr, sh_gateway_pubkey = gpub, sh_result = res, sh_gateway_signature = rsig\<rparr>"
    using server_hello_frame [OF g] o by (simp_all add: offer_ok_def)
  have d: "derive_keys ssl x = (x\<lparr>hs_keys := session_keys ssl (nr_suite (hs_neg_result x)) prk\<rparr>, True)"
    if "hs_ephem_priv x = a" "hs_peer_ephem_pub x = B" "hs_h2 x = h" for x
    using derive_keys_works [OF ssl len(1) len(2) dh(2) dh(1) dh(3) prk that] .
  define v where "v = sl_hmac_sha256 (sk_initiator_finished_key (session_keys ssl (nr_suite res) prk)) h"
  have fd: "finished_data h (sk_initiator_finished_key (session_keys ssl (nr_suite res) prk)) = Some v"
    unfolding v_def using ik h by (intro finished_data_works) simp_all
  have e: "encode_client_finished v = Some (write_u8 hm_client_finished @ v)" by (simp add: encode_client_finished_def v_def)
  then obtain f where f: "wrap_handshake_frame (write_u8 hm_client_finished @ v) = Some f"
    by (simp add: wrap_handshake_frame_def)
  show ?thesis
    unfolding initiator_process_server_hello_def Let_def
    using u s t rsig(1) e f fd
    by (simp add: rsig(2) [symmetric] h [symmetric] d v_def [symmetric])
qed

lemma finished_frame:
  "encode_client_finished v = Some p \<Longrightarrow> wrap_handshake_frame p = Some f \<Longrightarrow>
     unwrap_handshake_frame f = Some p \<and> decode_client_finished p = Some v"
  "encode_server_finished v = Some p \<Longrightarrow> wrap_handshake_frame p = Some f \<Longrightarrow>
     unwrap_handshake_frame f = Some p \<and> decode_server_finished p = Some v"
  using unwrap_wrap finished_exact
  by (auto simp: encode_client_finished_def encode_server_finished_def split: if_splits)

lemma constant_time_refl [simp]: "constant_time_equals v v (length v)"
  by (simp add: constant_time_equals_exact)

lemma client_finished_works:
  assumes f: "encode_client_finished v = Some p" "wrap_handshake_frame p = Some f"
    and s: "hs_role s = Role_Responder" "hs_state s = Hs_Server_Hello_Sent"
    and v: "finished_data (hs_h2 s) (sk_initiator_finished_key (hs_keys s)) = Some v"
    and w: "finished_data (transcript_hash (hs_h2 s) v) (sk_responder_finished_key (hs_keys s)) = Some w" "length w = 32"
    and r: "\<And>x. hs_client_offer x = hs_client_offer s \<Longrightarrow> hs_server_offer x = hs_server_offer s \<Longrightarrow> hs_neg_result x = hs_neg_result s \<Longrightarrow>
      register_session m x (hs_peer_authenticated s) (local_peer s (hs_server_offer s)) = (m', Some out)"
  shows "\<exists>q g t. encode_server_finished w = Some q \<and> wrap_handshake_frame q = Some g \<and>
    responder_process_client_finished m s f = (m', t, g, Some out) \<and> hs_state t = Hs_Active \<and>
    hs_keys t = hs_keys s \<and> hs_h4 t = transcript_hash (transcript_hash (hs_h2 s) v) w"
proof -
  have e: "encode_server_finished w = Some (write_u8 hm_server_finished @ w)" using w by (simp add: encode_server_finished_def)
  then obtain g where g: "wrap_handshake_frame (write_u8 hm_server_finished @ w) = Some g"
    by (simp add: wrap_handshake_frame_def)
  have lp: "local_peer (s\<lparr>hs_h3 := x, hs_h4 := y\<rparr>) o1 = local_peer s o1" for x y o1 by (simp add: local_peer_def)
  show ?thesis unfolding responder_process_client_finished_def Let_def
    using finished_frame(1) [OF f] s v w e g r by (simp add: lp)
qed

lemma server_finished_works:
  assumes f: "encode_server_finished w = Some q" "wrap_handshake_frame q = Some g"
    and s: "hs_role s = Role_Initiator" "hs_state s = Hs_Client_Finished_Sent"
    and w: "finished_data (hs_h3 s) (sk_responder_finished_key (hs_keys s)) = Some w"
    and r: "\<And>x. hs_client_offer x = hs_client_offer s \<Longrightarrow> hs_server_offer x = hs_server_offer s \<Longrightarrow> hs_neg_result x = hs_neg_result s \<Longrightarrow>
      register_session m x (local_peer s (hs_client_offer s)) (hs_peer_authenticated s) = (m', Some out)"
  shows "\<exists>t. initiator_process_server_finished m s g = (m', t, Some out) \<and> hs_state t = Hs_Active \<and>
    hs_keys t = hs_keys s \<and> hs_h4 t = transcript_hash (hs_h3 s) w"
proof -
  have lp: "local_peer (s\<lparr>hs_h4 := y\<rparr>) o1 = local_peer s o1" for y o1 by (simp add: local_peer_def)
  show ?thesis unfolding initiator_process_server_finished_def Let_def
    using finished_frame(2) [OF f] s w r by (simp add: lp)
qed

lemma register_session_cong:
  "hs_client_offer x = hs_client_offer s \<Longrightarrow> hs_server_offer x = hs_server_offer s \<Longrightarrow> hs_neg_result x = hs_neg_result s \<Longrightarrow>
     register_session m x i r = register_session m s i r"
  unfolding register_session_def handshake_session_id_def by (simp only:)

lemma hkdf_extract_works:
  "openssl_works ssl \<Longrightarrow> ikm \<noteq> [] \<Longrightarrow> \<exists>prk. hkdf_extract ssl salt ikm = Some prk \<and> length prk = 32"
  by (simp add: openssl_works_def hkdf_works_def hkdf_extract_def)

lemma session_keys_finished:
  assumes "openssl_works ssl" and "length prk = 32"
  shows "sk_initiator_finished_key (session_keys ssl su prk) \<noteq> [] \<and> sk_responder_finished_key (session_keys ssl su prk) \<noteq> []"
proof -
  obtain k l where "hkdf_expand ssl prk ''lns2.fin.init'' 32 = Some k \<and> length k = 32"
    "hkdf_expand ssl prk ''lns2.fin.resp'' 32 = Some l \<and> length l = 32"
    using expand_works [OF assms, of 32 "''lns2.fin.init''"] expand_works [OF assms, of 32 "''lns2.fin.resp''"] by auto
  then show ?thesis by (auto simp: session_keys_def)
qed

text \<open>What an honest deployment provides: a valid long-term key pair, a credential for the endpoint, a free identifier.\<close>

definition honest_party :: "'w openssl \<Rightarrow> negotiation_offer \<Rightarrow> u32 \<times> u64 \<Rightarrow> bytes \<times> bytes \<Rightarrow> 'w \<Rightarrow> bool" where
  "honest_party ssl offer subj kp w \<longleftrightarrow> offer_ok offer \<and> fst subj \<noteq> 0 \<and> snd subj \<noteq> 0 \<and>
     length (fst kp) = 32 \<and> length (snd kp) = 32 \<and> signs_for ssl (fst kp) (snd kp) \<and>
     snd (ssl_x25519_keygen ssl w) \<noteq> None"

definition vouches :: "identity_verifier \<Rightarrow> negotiation_offer \<Rightarrow> bytes \<Rightarrow> bytes \<Rightarrow> authenticated_peer \<Rightarrow> bool" where
  "vouches auth offer transcript pub p \<longleftrightarrow> auth offer transcript pub 1000 = Some p \<and> peer_is_valid_at p 1000 \<and>
     ap_endpoint p = no_endpoint_id offer \<and> 5000000000 \<le> ap_credential_expires_at_us p"

lemma local_peer_valid:
  assumes "offer_ok offer" and "hs_trust_domain_id s \<noteq> 0" "hs_subject_id s \<noteq> 0"
  shows "peer_is_valid_at (local_peer s offer) 1000 \<and> ap_endpoint (local_peer s offer) = no_endpoint_id offer \<and>
    5000000000 \<le> ap_credential_expires_at_us (local_peer s offer)"
  using assms by (auto simp: peer_is_valid_at_def local_peer_def offer_ok_def offer_is_valid_def split: if_splits)

lemma honest_run:
  fixes io ro :: negotiation_offer
  defines "sid \<equiv> node_id (no_endpoint_id io) XOR push_bit 16 (node_id (no_endpoint_id ro)) XOR 0x5122"
  assumes ssl: "openssl_works ssl" and hi: "honest_party ssl io subj_i keys_i wi" and hr: "honest_party ssl ro subj_r keys_r wr"
    and pol: "policy_is_valid pol" "result_accepted (negotiate io ro pol)"
    and t: "encode_negotiation_transcript io ro (negotiate io ro pol) = Some t"
    and vr: "vouches auth_r io t (snd keys_i) pc" and vi: "vouches auth_i ro t (snd keys_r) ps"
    and free: "sid \<noteq> 0" "lookup mi sid = None" "lookup mr sid = None"
  shows "\<exists>i r a b. run_handshake ssl auth_i auth_r wi wr mi mr pol io subj_i keys_i ro subj_r keys_r = (i, r, Some a, Some b) \<and>
    hs_state i = Hs_Active \<and> hs_state r = Hs_Active \<and> hs_keys i = hs_keys r \<and> hs_h4 i = hs_h4 r \<and>
    sr_session_id a = sid \<and> sr_session_id b = sid \<and> sr_suite a = sr_suite b \<and>
    sr_negotiated_level a = sr_negotiated_level b \<and> sr_negotiation_transcript a = t \<and> sr_negotiation_transcript b = t \<and>
    sr_responder a = ps \<and> sr_initiator b = pc"
proof -
  obtain di si dpriv dpub dr sr gpriv gpub where names: "subj_i = (di, si)" "keys_i = (dpriv, dpub)" "subj_r = (dr, sr)" "keys_r = (gpriv, gpub)"
    by (cases subj_i; cases keys_i; cases subj_r; cases keys_r) auto
  obtain wi' a A where gi: "ssl_x25519_keygen ssl wi = (wi', Some (a, A))"
    using hi by (cases "ssl_x25519_keygen ssl wi") (auto simp: honest_party_def)
  obtain wr' b B where gr: "ssl_x25519_keygen ssl wr = (wr', Some (b, B))"
    using hr by (cases "ssl_x25519_keygen ssl wr") (auto simp: honest_party_def)
  have dh: "dh_agrees ssl" using ssl by (simp add: openssl_works_def)
  obtain z where z: "ssl_x25519_derive ssl a B = Some z" "ssl_x25519_derive ssl b A = Some z" "length z = 32"
    "fold (\<lambda>b mask. mask OR b) z 0 \<noteq> 0" and len: "length a = 32" "length A = 32"
    using dh [unfolded dh_agrees_def, rule_format, OF gi gr] by blast
  have len2: "length b = 32" "length B = 32" using dh [unfolded dh_agrees_def, rule_format, OF gr gi] by blast+
  have oi: "offer_ok io" "di \<noteq> 0" "si \<noteq> 0" "length dpriv = 32" "length dpub = 32" "signs_for ssl dpriv dpub"
    using hi by (auto simp: honest_party_def names)
  have orr: "offer_ok ro" "dr \<noteq> 0" "sr \<noteq> 0" "length gpriv = 32" "length gpub = 32" "signs_for ssl gpriv gpub"
    using hr by (auto simp: honest_party_def names)
  let ?res = "negotiate io ro pol"
  define h1 where "h1 = transcript_hash (hs_h0 (new_handshake Role_Initiator)) (client_hello_prefix io A di si dpub)"
  obtain isig where isig: "ed25519_sign ssl dpriv (signature_input ''LNS2-SIG-CLIENT-V1'' di si h1) = Some isig" "length isig = 64"
    "ed25519_verify ssl dpub (signature_input ''LNS2-SIG-CLIENT-V1'' di si h1) isig"
    using sign_works [OF ssl oi(4-6)] by blast
  define h2 where "h2 = transcript_hash (transcript_hash h1 isig) (server_hello_prefix ro B dr sr gpub ?res)"
  obtain rsig where rsig: "ed25519_sign ssl gpriv (signature_input ''LNS2-SIG-SERVER-V1'' dr sr h2) = Some rsig" "length rsig = 64"
    "ed25519_verify ssl gpub (signature_input ''LNS2-SIG-SERVER-V1'' dr sr h2) rsig"
    using sign_works [OF ssl orr(4-6)] by blast
  define h where "h = transcript_hash (transcript_hash h2 rsig) t"
  have "z \<noteq> []" "h \<noteq> []" using z(3) by (auto simp: h_def)
  then obtain prk where prk: "hkdf_extract ssl h z = Some prk" "length prk = 32"
    using hkdf_extract_works [OF ssl] by blast
  define kp where "kp = session_keys ssl (nr_suite ?res) prk"
  note fk = session_keys_finished [OF ssl prk(2), of "nr_suite ?res", folded kp_def]
  define v where "v = sl_hmac_sha256 (sk_initiator_finished_key kp) h"
  define w where "w = sl_hmac_sha256 (sk_responder_finished_key kp) (transcript_hash h v)"
  have vw: "finished_data h (sk_initiator_finished_key kp) = Some v"
    "finished_data (transcript_hash h v) (sk_responder_finished_key kp) = Some w" "length w = 32"
    using fk \<open>h \<noteq> []\<close> by (auto simp: v_def w_def intro: finished_data_works)
  have iv: "offer_is_valid io" "offer_is_valid ro" using oi(1) orr(1) by (auto simp: offer_ok_def)
  obtain p1 f1 i1 where s1: "encode_client_hello \<lparr>ch_offer = io, ch_ephemeral_pubkey = A, ch_trust_domain_id = di,
        ch_subject_id = si, ch_device_pubkey = dpub, ch_device_signature = isig\<rparr> = Some p1" "wrap_handshake_frame p1 = Some f1"
      "initiator_start ssl wi (new_handshake Role_Initiator) io di si dpriv dpub = (wi', i1, Some f1)"
    and i1: "hs_role i1 = Role_Initiator" "hs_state i1 = Hs_Client_Hello_Sent" "hs_ephem_priv i1 = a" "hs_client_offer i1 = io"
      "hs_h1 i1 = transcript_hash h1 isig" "hs_trust_domain_id i1 = di" "hs_subject_id i1 = si"
    using start_works [OF ssl iv(1) oi(4,5,2,3) gi len isig(1,2) h1_def] by blast
  obtain p2 f2 r1 where s2: "encode_server_hello \<lparr>sh_offer = ro, sh_ephemeral_pubkey = B, sh_trust_domain_id = dr,
        sh_subject_id = sr, sh_gateway_pubkey = gpub, sh_result = ?res, sh_gateway_signature = rsig\<rparr> = Some p2" "wrap_handshake_frame p2 = Some f2"
      "responder_process_client_hello ssl auth_r wr (new_handshake Role_Responder) f1 pol ro dr sr gpriv gpub = (wr', r1, Some f2)"
    and r1: "hs_role r1 = Role_Responder" "hs_state r1 = Hs_Server_Hello_Sent" "hs_client_offer r1 = io" "hs_server_offer r1 = ro"
      "hs_neg_result r1 = ?res" "hs_peer_authenticated r1 = pc" "hs_h2 r1 = h" "hs_keys r1 = kp"
      "hs_trust_domain_id r1 = dr" "hs_subject_id r1 = sr"
    using client_hello_works [OF ssl s1(1,2) oi(1) orr(1) pol orr(4,5,2,3) isig(3) h1_def t _ gr len2 len(2) z(2,3,4) rsig(1,2) h2_def
        prk [unfolded h_def], of auth_r pc] vr
    unfolding vouches_def h_def [symmetric] kp_def [symmetric] names by auto
  obtain v' p3 f3 i2 where s3: "v' = v" "encode_client_finished v = Some p3" "wrap_handshake_frame p3 = Some f3"
      "initiator_process_server_hello ssl auth_i i1 f2 = (i2, Some f3)"
    and i2: "hs_role i2 = Role_Initiator" "hs_state i2 = Hs_Client_Finished_Sent" "hs_client_offer i2 = io" "hs_server_offer i2 = ro"
      "hs_neg_result i2 = ?res" "hs_peer_authenticated i2 = ps" "hs_h3 i2 = transcript_hash h v" "hs_keys i2 = kp"
      "hs_trust_domain_id i2 = di" "hs_subject_id i2 = si"
    using server_hello_works [OF ssl s2(1,2) i1(1-4) orr(1) rsig(3) h2_def [folded i1(5)] t _ len(1) len2(2) z(1,3,4) h_def prk
        fk [THEN conjunct1, unfolded kp_def], of auth_i ps] vi
    unfolding vouches_def kp_def [symmetric] names v_def i1(6,7) by auto
  have id: "handshake_session_id r1 = sid" "handshake_session_id i2 = sid"
    by (simp_all add: handshake_session_id_def sid_def r1 i2)
  have lr: "peer_is_valid_at (local_peer r1 ro) 1000 \<and> ap_endpoint (local_peer r1 ro) = no_endpoint_id ro \<and>
      5000000000 \<le> ap_credential_expires_at_us (local_peer r1 ro)"
    using orr r1 by (intro local_peer_valid) simp_all
  have li: "peer_is_valid_at (local_peer i2 io) 1000 \<and> ap_endpoint (local_peer i2 io) = no_endpoint_id io \<and>
      5000000000 \<le> ap_credential_expires_at_us (local_peer i2 io)"
    using oi i2 by (intro local_peer_valid) simp_all
  obtain mr' ob where rr: "register_session mr r1 pc (local_peer r1 ro) = (mr', Some ob)"
    using register_works [OF pol(2) r1(3,4,5)] free vr lr unfolding id vouches_def by blast
  obtain mi' oa where ri: "register_session mi i2 (local_peer i2 io) ps = (mi', Some oa)"
    using register_works [OF pol(2) i2(3,4,5)] free vi li unfolding id vouches_def by blast
  have rx: "register_session mr x pc (local_peer r1 ro) = (mr', Some ob)"
    if "hs_client_offer x = hs_client_offer r1" "hs_server_offer x = hs_server_offer r1" "hs_neg_result x = hs_neg_result r1" for x
    using register_session_cong [OF that] rr by simp
  have ix: "register_session mi x (local_peer i2 io) ps = (mi', Some oa)"
    if "hs_client_offer x = hs_client_offer i2" "hs_server_offer x = hs_server_offer i2" "hs_neg_result x = hs_neg_result i2" for x
    using register_session_cong [OF that] ri by simp
  obtain p4 f4 r2 where s4: "encode_server_finished w = Some p4" "wrap_handshake_frame p4 = Some f4"
      "responder_process_client_finished mr r1 f3 = (mr', r2, f4, Some ob)"
    and r2: "hs_state r2 = Hs_Active" "hs_keys r2 = kp" "hs_h4 r2 = transcript_hash (transcript_hash h v) w"
    using client_finished_works [OF s3(2,3) r1(1,2), of w mr mr' ob] vw rx unfolding r1 by blast
  obtain i3 where s5: "initiator_process_server_finished mi i2 f4 = (mi', i3, Some oa)"
    and i3: "hs_state i3 = Hs_Active" "hs_keys i3 = kp" "hs_h4 i3 = transcript_hash (transcript_hash h v) w"
    using server_finished_works [OF s4(1,2) i2(1,2), of mi mi' oa] vw ix unfolding i2 by blast
  have "run_handshake ssl auth_i auth_r wi wr mi mr pol io subj_i keys_i ro subj_r keys_r = (i3, r2, Some oa, Some ob)"
    by (simp add: run_handshake_def names s1 s2 s3 s4 s5)
  moreover note register_session_Some [OF rr, unfolded r1 id] register_session_Some [OF ri, unfolded i2 id]
  ultimately show ?thesis using r2 i3 t by (intro exI [of _ i3] exI [of _ r2] exI [of _ oa] exI [of _ ob]) simp
qed



section \<open>Agreement\<close>

lemma server_hello_sends:
  assumes "initiator_process_server_hello ssl auth s g = (t, Some f)"
  shows "\<exists>v p. finished_data (hs_h2 t) (sk_initiator_finished_key (hs_keys t)) = Some v \<and>
    encode_client_finished v = Some p \<and> wrap_handshake_frame p = Some f"
  using assms unfolding initiator_process_server_hello_def Let_def
  by (auto split: if_splits option.splits prod.splits bool.splits)

lemma client_finished_accepts:
  assumes "responder_process_client_finished m s f = (m', t, g, Some out)"
    and "unwrap_handshake_frame f = Some p" "decode_client_finished p = Some v" "length v = 32"
  shows "finished_data (hs_h2 s) (sk_initiator_finished_key (hs_keys s)) = Some v \<and>
    (\<exists>w q. finished_data (hs_h3 t) (sk_responder_finished_key (hs_keys t)) = Some w \<and>
      encode_server_finished w = Some q \<and> wrap_handshake_frame q = Some g)"
proof -
  have l: "length e = 32" if "finished_data h k = Some e" for h k e
    using that by (auto simp: finished_data_def auth_sign_def hmac_sha256_authenticator_def split: if_splits)
  show ?thesis
    using assms unfolding responder_process_client_finished_def Let_def
    by (auto simp: l constant_time_equals_exact split: if_splits option.splits prod.splits)
qed

lemma server_finished_accepts:
  assumes "initiator_process_server_finished m s g = (m', t, Some out)"
    and "unwrap_handshake_frame g = Some p" "decode_server_finished p = Some w" "length w = 32"
  shows "finished_data (hs_h3 s) (sk_responder_finished_key (hs_keys s)) = Some w"
proof -
  have l: "length e = 32" if "finished_data h k = Some e" for h k e
    using that by (auto simp: finished_data_def auth_sign_def hmac_sha256_authenticator_def split: if_splits)
  show ?thesis
    using assms unfolding initiator_process_server_finished_def Let_def
    by (auto simp: l constant_time_equals_exact split: if_splits option.splits prod.splits)
qed

definition same_or_collision :: "bytes \<Rightarrow> bytes \<Rightarrow> bytes \<Rightarrow> bytes \<Rightarrow> bool" where
  "same_or_collision k h k' h' \<longleftrightarrow> (k = k' \<and> h = h') \<or> ((k, h) \<noteq> (k', h') \<and> sl_hmac_sha256 k h = sl_hmac_sha256 k' h')"

lemma finished_data_agree:
  "finished_data h k = Some v \<Longrightarrow> finished_data h' k' = Some v \<Longrightarrow> same_or_collision k h k' h'"
  by (auto simp: finished_data_def auth_sign_def hmac_sha256_authenticator_def same_or_collision_def split: if_splits)

text \<open>
  C4: who completes a handshake agrees with the other side. When a responder completes on the
  ClientFinished an initiator sent, both have the same initiator key and the same hash of the whole
  transcript, hellos, signatures and negotiation included; when the initiator completes on the
  ServerFinished that responder sent, they have the same responder key and the same hash including the
  ClientFinished; unless two inputs at hand collide under HMAC-SHA-256.
\<close>

theorem finished_messages_agree:
  assumes "initiator_process_server_hello ssl auth i f2 = (i', Some f3)"
    and "responder_process_client_finished mr r f3 = (mr', r', f4, Some out_r)"
    and "initiator_process_server_finished mi i' f4 = (mi', i'', Some out_i)"
  shows "same_or_collision (sk_initiator_finished_key (hs_keys i')) (hs_h2 i') (sk_initiator_finished_key (hs_keys r)) (hs_h2 r) \<and>
    same_or_collision (sk_responder_finished_key (hs_keys i')) (hs_h3 i') (sk_responder_finished_key (hs_keys r')) (hs_h3 r')"
proof -
  obtain v p where v: "finished_data (hs_h2 i') (sk_initiator_finished_key (hs_keys i')) = Some v"
    "encode_client_finished v = Some p" "wrap_handshake_frame p = Some f3"
    using server_hello_sends [OF assms(1)] by blast
  have lv: "length v = 32" using v(2) by (auto simp: encode_client_finished_def split: if_splits)
  obtain w q where r: "finished_data (hs_h2 r) (sk_initiator_finished_key (hs_keys r)) = Some v"
    and w: "finished_data (hs_h3 r') (sk_responder_finished_key (hs_keys r')) = Some w"
      "encode_server_finished w = Some q" "wrap_handshake_frame q = Some f4"
    using client_finished_accepts [OF assms(2)] finished_frame(1) [OF v(2,3)] lv by blast
  have lw: "length w = 32" using w(2) by (auto simp: encode_server_finished_def split: if_splits)
  have "finished_data (hs_h3 i') (sk_responder_finished_key (hs_keys i')) = Some w"
    using server_finished_accepts [OF assms(3)] finished_frame(2) [OF w(2,3)] lw by blast
  with v(1) r w(1) show ?thesis by (blast intro: finished_data_agree)
qed

end
