(* ===== verification/Group_Security_Props.thy ===== *)
theory Group_Security_Props
  imports Group_Security SL2_Run
begin

text \<open>
  Properties of the group provider: what is sent is received, no replay, the finality of removal, what
  a group holds in every reachable state, and what the authentication tag does not cover.
\<close>

definition ratchet_of :: "internal_group_state \<Rightarrow> node_endpoint_identity \<Rightarrow> u32" where
  "ratchet_of st e = (case lookup (ig_sender_ratchets st) e of None \<Rightarrow> 0 | Some g \<Rightarrow> g)"

text \<open>What a sender needs, and what it then sends.\<close>

lemma protect_eq:
  assumes "lookup (gp_groups p) g = Some st" and "gc_state (ig_context st) = Group_Active" and "seq \<noteq> 0"
    and "mode \<noteq> Mode_Unknown" and "find (active_at e) (gc_members (ig_context st)) = Some sender"
    and "lookup (ig_member_leaf_secrets st) e = Some leaf" and "leaf \<noteq> []" and "ig_epoch_secret st \<noteq> []"
  shows "protect p g e mode cls payload seq =
    (let generation = ratchet_of st e + 1; info = sender_info e generation;
         body = sent_payload (ig_epoch_secret st) info mode payload
     in (set_group g (st\<lparr>ig_sender_ratchets := AList.update e generation (ig_sender_ratchets st)\<rparr>) p,
         map_option (\<lambda>inp. \<lparr>pm_group_id = g, pm_group_epoch = gc_group_epoch (ig_context st), pm_mode = mode,
             pm_sender_endpoint = e, pm_message_seq = seq, pm_ratchet_generation = generation,
             pm_ciphertext_or_payload = body,
             pm_authentication_tag = tag_of (group_message_key leaf (ig_epoch_secret st) info) inp\<rparr>)
           (encode_group_authenticator_input (group_binding_of g (gc_group_epoch (ig_context st)) sender e cls body seq generation))))"
  using assms group_input_not_nil
  unfolding protect_def Let_def create_16 message_key_eq derive_kdf_secret_eq
  by (auto simp: sent_payload_def group_keystream_def auth_sign_16 group_message_key_def ratchet_of_def
      split: option.split)

lemma protect_Some:
  assumes "protect p g e mode cls payload seq = (p', Some msg)"
  shows "\<exists>st sender leaf. lookup (gp_groups p) g = Some st \<and> gc_state (ig_context st) = Group_Active \<and> seq \<noteq> 0 \<and>
    mode \<noteq> Mode_Unknown \<and> find (active_at e) (gc_members (ig_context st)) = Some sender \<and>
    lookup (ig_member_leaf_secrets st) e = Some leaf \<and> leaf \<noteq> [] \<and>
    (mode = Confidential_And_Authenticated \<longrightarrow> ig_epoch_secret st \<noteq> [])"
  using assms unfolding protect_def Let_def message_key_eq derive_kdf_secret_eq
  by (auto split: if_splits option.splits)

lemma find_active_eq:
  "find (active_at e) ms = Some m \<Longrightarrow> gm_endpoint m = e \<and> gm_status m = Member_Active"
  by (induction ms) (auto simp: active_at_def split: if_splits)

lemma set_group_lookup [simp]: "lookup (gp_groups (set_group g st p)) k = (if k = g then Some st else lookup (gp_groups p) k)"
  by (simp add: set_group_def)

lemma set_group_windows [simp]: "gp_replay_windows (set_group g st p) = gp_replay_windows p"
  by (simp add: set_group_def)

lemma protect_windows [simp]: "gp_replay_windows (fst (protect p g e mode cls payload seq)) = gp_replay_windows p"
  unfolding protect_def Let_def by (auto split: option.split)

lemma protected_received:
  assumes p: "protect p g e mode cls payload seq = (p', Some msg)" and es: "ig_epoch_secret st \<noteq> []"
    and st: "lookup (gp_groups p) g = Some st"
    and first: "find (\<lambda>m. gm_endpoint m = e) (gc_members (ig_context st)) = find (active_at e) (gc_members (ig_context st))"
    and fresh: "window_check (window_of p (g, gc_group_epoch (ig_context st), e)) seq = Accepted_Seq"
  shows "\<exists>p''. unprotect p' msg cls = (p'', Group_Ok, payload)"
proof -
  obtain sender leaf where s: "gc_state (ig_context st) = Group_Active" "seq \<noteq> 0" "mode \<noteq> Mode_Unknown"
    "find (active_at e) (gc_members (ig_context st)) = Some sender"
    "lookup (ig_member_leaf_secrets st) e = Some leaf" "leaf \<noteq> []"
    using protect_Some [OF p] st by auto
  let ?gen = "ratchet_of st e + 1"
  let ?st = "st\<lparr>ig_sender_ratchets := AList.update e ?gen (ig_sender_ratchets st)\<rparr>"
  let ?body = "sent_payload (ig_epoch_secret st) (sender_info e ?gen) mode payload"
  from p [unfolded protect_eq [OF st s es] Let_def] obtain inp where
    inp: "encode_group_authenticator_input (group_binding_of g (gc_group_epoch (ig_context st)) sender e cls ?body seq ?gen) = Some inp"
    and p': "p' = set_group g ?st p"
    and msg: "msg = \<lparr>pm_group_id = g, pm_group_epoch = gc_group_epoch (ig_context st), pm_mode = mode,
             pm_sender_endpoint = e, pm_message_seq = seq, pm_ratchet_generation = ?gen,
             pm_ciphertext_or_payload = ?body,
             pm_authentication_tag = tag_of (group_message_key leaf (ig_epoch_secret st) (sender_info e ?gen)) inp\<rparr>"
    by auto
  have "acceptable p' msg cls ?st sender leaf inp"
    using s first fresh inp es find_active_eq [OF s(4)] by (simp add: acceptable_def p' msg window_of_def)
  from unprotect_accepts [OF this] show ?thesis
    by (auto simp: msg sent_payload_def xor_keystream_involutive)
qed

text \<open>
  What a member sends, the group receives. A message protected in either mode is accepted, with the
  payload that was sent, as long as the group has not changed, the sequence number is fresh for the
  sender in this epoch and the sender's first entry in the member list is its active one.
\<close>

theorem group_message_received:
  assumes "protect p g e mode cls payload seq = (p', Some msg)"
    and "get_group_context p g = Some ctx" and "ig_epoch_secret (the (lookup (gp_groups p) g)) \<noteq> []"
    and "find (\<lambda>m. gm_endpoint m = e) (gc_members ctx) = find (active_at e) (gc_members ctx)"
    and "window_check (window_of p (g, gc_group_epoch ctx, e)) seq = Accepted_Seq"
  shows "\<exists>p''. unprotect p' msg cls = (p'', Group_Ok, payload)"
  using protected_received [OF assms(1)] assms(2-5) by (auto simp: get_group_context_def)

section \<open>Runs of a provider\<close>

inductive group_change :: "group_provider \<Rightarrow> group_provider \<Rightarrow> bool" where
  create: "length fresh = 32 \<Longrightarrow> group_change p (fst (create_group fresh p g ty suite m secret now))"
| add: "length fresh = 32 \<Longrightarrow> group_change p (fst (add_member fresh p g m pub entropy now))"
| remove: "length fresh = 32 \<Longrightarrow> group_change p (fst (remove_member fresh p g e entropy now))"
| role: "group_change p (fst (update_member_role p g e r now))"
| rekey: "length fresh = 32 \<Longrightarrow> group_change p (fst (rekey_group fresh p g e entropy now))"
| close: "group_change p (fst (close_group p g now))"
| send: "group_change p (fst (protect p g e mode cls payload seq))"

inductive group_step :: "group_provider \<Rightarrow> group_provider \<Rightarrow> bool" where
  change: "group_change p p' \<Longrightarrow> group_step p p'"
| receive: "group_step p (fst (unprotect p msg cls))"

lemma group_change_windows: "group_change p p' \<Longrightarrow> gp_replay_windows p' = gp_replay_windows p"
  by (induction rule: group_change.induct)
    (auto simp: create_group_def add_member_def remove_member_def update_member_role_def rekey_group_def close_group_def
      Let_def split: option.split)

text \<open>
  What never happens to a group: it is not deleted, its epoch never changes but by one, and an entry of
  its member list is never dropped, nor activated again.
\<close>

definition members_evolve :: "security_group_member list \<Rightarrow> security_group_member list \<Rightarrow> bool" where
  "members_evolve ms ns \<longleftrightarrow> length ms \<le> length ns \<and> (\<forall>i<length ms. gm_endpoint (ns ! i) = gm_endpoint (ms ! i) \<and>
     (gm_status (ms ! i) \<noteq> Member_Active \<longrightarrow> gm_status (ns ! i) \<noteq> Member_Active))"

lemma members_evolve_refl [simp]: "members_evolve ms ms"
  by (simp add: members_evolve_def)

lemma members_evolve_append [simp]: "members_evolve ms (ms @ ns)"
  by (simp add: members_evolve_def nth_append)

lemma update_first_length [simp]: "length (update_first P f ms) = length ms"
  by (induction ms) auto

lemma update_first_nth: "i < length ms \<Longrightarrow> update_first P f ms ! i = ms ! i \<or> P (ms ! i) \<and> update_first P f ms ! i = f (ms ! i)"
  by (induction ms arbitrary: i) (auto simp: nth_Cons split: nat.split)

lemma members_evolve_update:
  assumes "\<And>m. gm_endpoint (f m) = gm_endpoint m"
  shows "members_evolve ms (update_first (active_at e) f ms)"
  unfolding members_evolve_def
proof (intro conjI allI impI)
  fix i assume i: "i < length ms"
  from update_first_nth [OF i, of "active_at e" f] assms
  show "gm_endpoint (update_first (active_at e) f ms ! i) = gm_endpoint (ms ! i)" by auto
  assume "gm_status (ms ! i) \<noteq> Member_Active"
  with update_first_nth [OF i, of "active_at e" f] show "gm_status (update_first (active_at e) f ms ! i) \<noteq> Member_Active"
    by (auto simp: active_at_def)
qed simp

lemma members_evolve_trans: "members_evolve a b \<Longrightarrow> members_evolve b c \<Longrightarrow> members_evolve a c"
  unfolding members_evolve_def by (metis order.strict_trans2 order.trans)

lemma protect_state:
  assumes "lookup (gp_groups p) g = Some st"
  shows "fst (protect p g e mode cls payload seq) = p \<or> fst (protect p g e mode cls payload seq) =
    set_group g (st\<lparr>ig_sender_ratchets := AList.update e (ratchet_of st e + 1) (ig_sender_ratchets st)\<rparr>) p"
  unfolding protect_def Let_def assms option.case ratchet_of_def [symmetric]
  by (simp split: option.split)

lemma protect_context:
  "lookup (gp_groups p) k = Some st \<Longrightarrow>
     \<exists>r. lookup (gp_groups (fst (protect p g e mode cls payload seq))) k = Some (st\<lparr>ig_sender_ratchets := r\<rparr>)"
proof (cases "lookup (gp_groups p) g")
  case None
  then have "fst (protect p g e mode cls payload seq) = p" by (simp add: protect_def)
  moreover assume "lookup (gp_groups p) k = Some st"
  ultimately show ?thesis by (intro exI [of _ "ig_sender_ratchets st"]) simp
next
  case (Some st0)
  assume k: "lookup (gp_groups p) k = Some st"
  from protect_state [OF Some, of e mode cls payload seq] show ?thesis
  proof
    assume "fst (protect p g e mode cls payload seq) = p"
    with k show ?thesis by (intro exI [of _ "ig_sender_ratchets st"]) simp
  next
    assume "fst (protect p g e mode cls payload seq) =
      set_group g (st0\<lparr>ig_sender_ratchets := AList.update e (ratchet_of st0 e + 1) (ig_sender_ratchets st0)\<rparr>) p"
    with k Some show ?thesis
      by (cases "k = g") (auto intro: exI [of _ "ig_sender_ratchets st"])
  qed
qed

lemma group_change_members:
  assumes "group_change p p'" and "lookup (gp_groups p) k = Some st"
  shows "\<exists>st'. lookup (gp_groups p') k = Some st' \<and> members_evolve (gc_members (ig_context st)) (gc_members (ig_context st'))"
  using assms
proof (induction rule: group_change.induct)
  case (send p g e mode cls payload seq)
  from protect_context [OF send, of g e mode cls payload seq] show ?case by auto
next
  case (create fresh p g ty suite m secret now)
  then show ?case by (auto simp: create_group_def Let_def split: option.split)
next
  case (add fresh p g m pub entropy now)
  then show ?case by (auto simp: add_member_def advance_epoch_def Let_def split: option.split)
next
  case (remove fresh p g e entropy now)
  then show ?case by (auto simp: remove_member_def advance_epoch_def Let_def members_evolve_update split: option.split)
next
  case (role p g e r now)
  then show ?case by (auto simp: update_member_role_def Let_def members_evolve_update split: option.split)
next
  case (rekey fresh p g e entropy now)
  then show ?case by (auto simp: rekey_group_def advance_epoch_def Let_def split: option.split)
next
  case (close p g now)
  then show ?case by (auto simp: close_group_def split: option.split)
qed

lemma group_step_members:
  assumes "group_step p p'" and "lookup (gp_groups p) k = Some st"
  shows "\<exists>st'. lookup (gp_groups p') k = Some st' \<and> members_evolve (gc_members (ig_context st)) (gc_members (ig_context st'))"
  using assms
proof (induction rule: group_step.induct)
  case (receive p msg cls)
  then show ?case using unprotect_frame [of p msg cls] by auto
qed (rule group_change_members)

lemma group_steps_members:
  assumes "group_step\<^sup>*\<^sup>* p p'" and "lookup (gp_groups p) k = Some st"
  shows "\<exists>st'. lookup (gp_groups p') k = Some st' \<and> members_evolve (gc_members (ig_context st)) (gc_members (ig_context st'))"
  using assms
proof (induction rule: rtranclp_induct)
  case base
  then show ?case by auto
next
  case (step q r)
  then show ?case using group_step_members [OF step.hyps(2)] members_evolve_trans by blast
qed

section \<open>Removed members\<close>

lemma find_endpoint_evolves:
  assumes "members_evolve ms ns" and "find (\<lambda>m. gm_endpoint m = e) ms = Some m" and "gm_status m \<noteq> Member_Active"
  shows "\<exists>n. find (\<lambda>m. gm_endpoint m = e) ns = Some n \<and> gm_status n \<noteq> Member_Active"
proof -
  from assms(2) obtain i where i: "i < length ms" "gm_endpoint (ms ! i) = e" "m = ms ! i"
    "\<forall>j<i. gm_endpoint (ms ! j) \<noteq> e"
    by (auto simp: find_Some_iff)
  have "find (\<lambda>m. gm_endpoint m = e) ns = Some (ns ! i)"
    using assms(1) i unfolding members_evolve_def find_Some_iff by (intro exI [of _ i]) auto
  moreover have "gm_status (ns ! i) \<noteq> Member_Active" using assms(1,3) i by (auto simp: members_evolve_def)
  ultimately show ?thesis by blast
qed

lemma removed_first:
  assumes "list_ex (active_at e) ms"
  shows "\<exists>m. find (\<lambda>m. gm_endpoint m = e) (update_first (active_at e) (\<lambda>m. m\<lparr>gm_status := Member_Removed\<rparr>) ms) = Some m \<and>
    gm_status m \<noteq> Member_Active"
  using assms by (induction ms) (auto simp: active_at_def)

lemma removed_refused:
  assumes "remove_member fresh p g e entropy now = (p1, True)" and "group_step\<^sup>*\<^sup>* p1 p2"
    and "pm_group_id msg = g" and "pm_sender_endpoint msg = e"
  shows "fst (snd (unprotect p2 msg cls)) \<noteq> Group_Ok"
proof
  assume "fst (snd (unprotect p2 msg cls)) = Group_Ok"
  then obtain p3 out where "unprotect p2 msg cls = (p3, Group_Ok, out)" by (metis prod.collapse)
  from unprotect_ok [OF this] obtain st sender where acc: "lookup (gp_groups p2) g = Some st"
    "find (\<lambda>m. gm_endpoint m = e) (gc_members (ig_context st)) = Some sender" "gm_status sender = Member_Active"
    using assms(3,4) by (auto simp: acceptable_def)
  obtain st1 m where st1: "lookup (gp_groups p1) g = Some st1"
    "find (\<lambda>m. gm_endpoint m = e) (gc_members (ig_context st1)) = Some m" "gm_status m \<noteq> Member_Active"
  proof -
    from assms(1) obtain st0 where "lookup (gp_groups p) g = Some st0" "list_ex (active_at e) (gc_members (ig_context st0))"
      by (auto simp: remove_member_def Let_def split: option.splits if_splits)
    then show ?thesis using assms(1) removed_first [of e "gc_members (ig_context st0)"] that
      by (auto simp: remove_member_def Let_def advance_epoch_def split: option.splits if_splits)
  qed
  from group_steps_members [OF assms(2) st1(1)] acc(1)
  have "members_evolve (gc_members (ig_context st1)) (gc_members (ig_context st))" by auto
  from find_endpoint_evolves [OF this st1(2,3)] acc(2,3) show False by auto
qed

text \<open>
  Removal is final. After a member was removed no message that names its endpoint as the sender is
  ever accepted in the group, whatever happens to the group later. This holds even when the endpoint is
  added again, for unprotect looks at the first entry of an endpoint, which stays the removed one:
  a member that rejoins is never heard.
\<close>

theorem removed_member_never_heard:
  assumes "remove_member fresh p g e entropy now = (p1, True)" and "group_step\<^sup>*\<^sup>* p1 p2"
    and "pm_group_id msg = g" and "pm_sender_endpoint msg = e"
  shows "fst (snd (unprotect p2 msg cls)) \<noteq> Group_Ok"
  using assms by (rule removed_refused)

section \<open>Replays\<close>

lemma unprotect_windows:
  "gp_replay_windows (fst (unprotect p msg cls)) = gp_replay_windows p \<and> fst (snd (unprotect p msg cls)) \<noteq> Group_Ok \<or>
   gp_replay_windows (fst (unprotect p msg cls)) = AList.update (replay_key msg) (window_of p (replay_key msg)) (gp_replay_windows p) \<and>
     fst (snd (unprotect p msg cls)) \<noteq> Group_Ok \<or>
   window_check (window_of p (replay_key msg)) (pm_message_seq msg) = Accepted_Seq \<and>
     lookup (gp_replay_windows (fst (unprotect p msg cls))) =
       (lookup (gp_replay_windows p))(replay_key msg \<mapsto> fst (window_update (window_of p (replay_key msg)) (pm_message_seq msg))) \<and>
     fst (snd (unprotect p msg cls)) = Group_Ok"
  unfolding unprotect_def Let_def window_of_def [symmetric]
  by (simp split: option.split)

lemma unprotect_window:
  "window_of (fst (unprotect p msg cls)) k =
     (if k = replay_key msg \<and> fst (snd (unprotect p msg cls)) = Group_Ok
      then fst (check_and_update (window_of p k) (pm_message_seq msg)) else window_of p k)"
  using unprotect_windows [of p msg cls]
  by (elim disjE conjE) (auto simp: window_of_def check_and_update_def)

inductive group_trace :: "group_provider \<Rightarrow> (protected_group_message \<times> group_verification_status) list \<Rightarrow> group_provider \<Rightarrow> bool" where
  nothing: "group_trace p [] p"
| other: "group_change p p1 \<Longrightarrow> group_trace p1 tr p2 \<Longrightarrow> group_trace p tr p2"
| receipt: "unprotect p msg cls = (p1, st, out) \<Longrightarrow> group_trace p1 tr p2 \<Longrightarrow> group_trace p ((msg, st) # tr) p2"

lemma trace_fresh:
  assumes "group_trace p tr p2" and "window_rep (window_of p k) A"
    and "j < length tr" and "tr ! j = (msg, Group_Ok)" and "replay_key msg = k"
  shows "unat (pm_message_seq msg) \<notin> A"
  using assms
proof (induction arbitrary: A j rule: group_trace.induct)
  case (other p p1 tr p2)
  then show ?case using group_change_windows [OF other.hyps(1)] by (simp add: window_of_def)
next
  case (receipt p m cls p1 st out tr p2)
  have w: "window_of p1 k = (if k = replay_key m \<and> st = Group_Ok
      then fst (check_and_update (window_of p k) (pm_message_seq m)) else window_of p k)"
    using unprotect_window [of p m cls k] receipt.hyps(1) by simp
  obtain w2 s2 where c: "check_and_update (window_of p k) (pm_message_seq m) = (w2, s2)" by fastforce
  note ref = check_and_update_refines [OF receipt.prems(1) c]
  show ?case
  proof (cases j)
    case 0
    then have m: "m = msg" "st = Group_Ok" using receipt.prems by auto
    from unprotect_ok [OF receipt.hyps(1) [unfolded m]] have "window_check (window_of p k) (pm_message_seq msg) = Accepted_Seq"
      using receipt.prems(4) by (auto simp: acceptable_def)
    then have "s2 = Accepted_Seq" using c m
      by (auto simp: check_and_update_def window_update_def window_check_def Let_def split: if_splits)
    then show ?thesis using ref m by (auto simp: spec_status_def split: if_splits)
  next
    case (Suc i)
    have "window_rep (window_of p1 k) (if k = replay_key m \<and> st = Group_Ok \<and> s2 = Accepted_Seq then insert (unat (pm_message_seq m)) A else A)"
      using w c ref receipt.prems(1) by (auto split: if_splits)
    from receipt.IH [OF this, of i] receipt.prems Suc show ?thesis by (auto split: if_splits)
  qed
qed simp

lemma trace_distinct:
  assumes "group_trace p tr p2" and "\<exists>A. window_rep (window_of p k) A" and "i < j" and "j < length tr"
    and "tr ! i = (msg, Group_Ok)" and "tr ! j = (msg', Group_Ok)" and "replay_key msg = k" and "replay_key msg' = k"
  shows "pm_message_seq msg \<noteq> pm_message_seq msg'"
  using assms
proof (induction arbitrary: i j rule: group_trace.induct)
  case (other p p1 tr p2)
  then show ?case using group_change_windows [OF other.hyps(1)] by (simp add: window_of_def)
next
  case (receipt p m cls p1 st out tr p2)
  from receipt.prems(1) obtain A where A: "window_rep (window_of p k) A" ..
  have w: "window_of p1 k = (if k = replay_key m \<and> st = Group_Ok
      then fst (check_and_update (window_of p k) (pm_message_seq m)) else window_of p k)"
    using unprotect_window [of p m cls k] receipt.hyps(1) by simp
  obtain w2 s2 where c: "check_and_update (window_of p k) (pm_message_seq m) = (w2, s2)" by fastforce
  note ref = check_and_update_refines [OF A c]
  have rep: "window_rep (window_of p1 k) (if k = replay_key m \<and> st = Group_Ok \<and> s2 = Accepted_Seq then insert (unat (pm_message_seq m)) A else A)"
    using w c ref A by (auto split: if_splits)
  obtain j' where j: "j = Suc j'" using receipt.prems(2) by (cases j) auto
  show ?case
  proof (cases i)
    case 0
    then have m: "m = msg" "st = Group_Ok" using receipt.prems by auto
    from unprotect_ok [OF receipt.hyps(1) [unfolded m]] have "window_check (window_of p k) (pm_message_seq msg) = Accepted_Seq"
      using receipt.prems(6) by (auto simp: acceptable_def)
    then have s2: "s2 = Accepted_Seq" using c m
      by (auto simp: check_and_update_def window_update_def window_check_def Let_def split: if_splits)
    have "window_rep (window_of p1 k) (insert (unat (pm_message_seq msg)) A)"
      using rep s2 m receipt.prems(6) by simp
    from trace_fresh [OF receipt.hyps(2) this, of j' msg'] receipt.prems j show ?thesis by auto
  next
    case (Suc i')
    with receipt.IH [of i' j'] rep receipt.prems j show ?thesis by auto
  qed
qed simp

text \<open>
  C28: no replay within a group. Over any run, whatever else happens to the groups, no two messages of
  one group, epoch and sender with one sequence number are both accepted.
\<close>

theorem group_messages_accepted_once:
  assumes "group_trace new_group_provider tr p" and "i < j" and "j < length tr"
    and "tr ! i = (msg, Group_Ok)" and "tr ! j = (msg', Group_Ok)"
    and "pm_group_id msg = pm_group_id msg'" and "pm_group_epoch msg = pm_group_epoch msg'"
    and "pm_sender_endpoint msg = pm_sender_endpoint msg'"
  shows "pm_message_seq msg \<noteq> pm_message_seq msg'"
proof (rule trace_distinct [OF assms(1) _ assms(2-5) refl])
  show "\<exists>A. window_rep (window_of new_group_provider (replay_key msg)) A"
    using window_rep_new(1) by (auto simp: window_of_def new_group_provider_def)
qed (use assms in simp)

section \<open>What the tag does not cover\<close>

text \<open>
  The protection mode is not authenticated. If a confidential message would be accepted, so is the
  same message with its mode changed to authenticated_only, and what the receiver is given as the
  payload is the ciphertext.
\<close>

theorem mode_is_not_authenticated:
  assumes "unprotect p msg cls = (p', Group_Ok, out)" and "pm_mode msg = Confidential_And_Authenticated"
  shows "fst (snd (unprotect p (msg\<lparr>pm_mode := Authenticated_Only\<rparr>) cls)) = Group_Ok \<and>
    snd (snd (unprotect p (msg\<lparr>pm_mode := Authenticated_Only\<rparr>) cls)) = pm_ciphertext_or_payload msg"
proof -
  obtain st sender leaf inp where "acceptable p msg cls st sender leaf inp" using unprotect_ok [OF assms(1)] by blast
  then have "acceptable p (msg\<lparr>pm_mode := Authenticated_Only\<rparr>) cls st sender leaf inp"
    by (auto simp: acceptable_def)
  from unprotect_accepts [OF this] show ?thesis by (auto simp: sent_payload_def)
qed

text \<open>
  The key stream repeats. It is one 16-byte block used over and over, so the ciphertext of a
  confidential message shows the exclusive or of any two payload bytes 16 apart.
\<close>

theorem keystream_repeats:
  assumes "protect p g e Confidential_And_Authenticated cls payload seq = (p', Some msg)" and "i + 16 < length payload"
  shows "pm_ciphertext_or_payload msg ! i XOR pm_ciphertext_or_payload msg ! (i + 16) = payload ! i XOR payload ! (i + 16)"
proof -
  obtain st sender leaf where s: "lookup (gp_groups p) g = Some st" "gc_state (ig_context st) = Group_Active" "seq \<noteq> 0"
    "Confidential_And_Authenticated \<noteq> Mode_Unknown" "find (active_at e) (gc_members (ig_context st)) = Some sender"
    "lookup (ig_member_leaf_secrets st) e = Some leaf" "leaf \<noteq> []" "ig_epoch_secret st \<noteq> []"
    using protect_Some [OF assms(1)] by auto
  let ?ks = "group_keystream (ig_epoch_secret st) (sender_info e (ratchet_of st e + 1))"
  from assms(1) [unfolded protect_eq [OF s] Let_def]
  have c: "pm_ciphertext_or_payload msg = xor_keystream ?ks payload" by (auto simp: sent_payload_def)
  have "length ?ks = 16" by (simp add: group_keystream_def)
  then have "pm_ciphertext_or_payload msg ! i = payload ! i XOR ?ks ! (i mod 16)"
    "pm_ciphertext_or_payload msg ! (i + 16) = payload ! (i + 16) XOR ?ks ! (i mod 16)"
    using assms(2) by (simp_all add: c xor_keystream_def)
  moreover have "(a XOR c) XOR (b XOR c) = a XOR b" for a b c :: u8
    by (rule bit_word_eqI) (auto simp: bit_xor_iff)
  ultimately show ?thesis by simp
qed

section \<open>What holds of every group\<close>

definition active_members :: "security_group_member list \<Rightarrow> security_group_member list" where
  "active_members ms = filter (\<lambda>m. gm_status m = Member_Active) ms"

definition keyed :: "internal_group_state \<Rightarrow> bool" where
  "keyed st \<longleftrightarrow> length (ig_epoch_secret st) = 16 \<and>
     (\<forall>m\<in>set (gc_members (ig_context st)). member_is_valid m) \<and>
     (\<forall>m\<in>set (active_members (gc_members (ig_context st))).
        \<exists>leaf. lookup (ig_member_leaf_secrets st) (gm_endpoint m) = Some leaf \<and> length leaf = 16) \<and>
     distinct (map gm_endpoint (active_members (gc_members (ig_context st))))"

definition group_inv :: "u64 \<Rightarrow> internal_group_state \<Rightarrow> bool" where
  "group_inv k st \<longleftrightarrow> k \<noteq> 0 \<and> gc_group_id (ig_context st) = k \<and> (gc_state (ig_context st) = Group_Active \<longrightarrow> keyed st)"

lemma entropy_not_nil [simp]: "length fresh = 32 \<Longrightarrow> entropy_of e fresh \<noteq> []"
  by (auto simp: entropy_of_def)

lemma active_members_simps [simp]:
  "active_members [] = []"
  "active_members (m # ms) = (if gm_status m = Member_Active then m # active_members ms else active_members ms)"
  "active_members (ms @ ns) = active_members ms @ active_members ns"
  by (simp_all add: active_members_def)

lemma list_ex_active: "list_ex (active_at e) ms \<longleftrightarrow> e \<in> gm_endpoint ` set (active_members ms)"
  by (induction ms) (auto simp: active_at_def)

lemma update_first_valid:
  "(\<And>m. member_is_valid m \<Longrightarrow> member_is_valid (f m)) \<Longrightarrow> \<forall>m\<in>set ms. member_is_valid m \<Longrightarrow>
     \<forall>m\<in>set (update_first P f ms). member_is_valid m"
  by (induction ms) auto

lemma active_after_removal:
  assumes "distinct (map gm_endpoint (active_members ms))"
  shows "active_members (update_first (active_at e) (\<lambda>m. m\<lparr>gm_status := Member_Removed\<rparr>) ms) =
    filter (\<lambda>m. gm_endpoint m \<noteq> e) (active_members ms)"
  using assms
proof (induction ms)
  case (Cons m ms)
  show ?case
  proof (cases "active_at e m")
    case True
    then have "gm_endpoint x \<noteq> e" if "x \<in> set (active_members ms)" for x
      using Cons.prems that by (auto simp: active_at_def) (metis imageI)
    then have "filter (\<lambda>m. gm_endpoint m \<noteq> e) (active_members ms) = active_members ms" by simp
    then show ?thesis using True by (simp add: active_at_def)
  next
    case False
    then show ?thesis using Cons by (auto simp: active_at_def split: if_splits)
  qed
qed simp

lemma active_after_role:
  "map gm_endpoint (active_members (update_first (active_at e) (\<lambda>m. m\<lparr>gm_role := r\<rparr>) ms)) = map gm_endpoint (active_members ms)"
  by (induction ms) (auto simp: active_at_def)

lemma keyed_endpoints:
  "keyed st \<longleftrightarrow> length (ig_epoch_secret st) = 16 \<and>
     (\<forall>m\<in>set (gc_members (ig_context st)). member_is_valid m) \<and>
     (\<forall>e\<in>set (map gm_endpoint (active_members (gc_members (ig_context st)))).
        \<exists>leaf. lookup (ig_member_leaf_secrets st) e = Some leaf \<and> length leaf = 16) \<and>
     distinct (map gm_endpoint (active_members (gc_members (ig_context st))))"
  by (simp add: keyed_def)

lemma add_member_inv:
  assumes "length fresh = 32" and "\<And>k st. lookup (gp_groups p) k = Some st \<Longrightarrow> group_inv k st"
    and "lookup (gp_groups (fst (add_member fresh p g m pub entropy now))) k = Some st"
  shows "group_inv k st"
proof (cases "lookup (gp_groups p) g")
  case None
  then show ?thesis using assms by (simp add: add_member_def)
next
  case (Some st0)
  note inv = assms(2) [OF Some]
  show ?thesis
  proof (cases "gc_state (ig_context st0) \<noteq> Group_Active \<or> \<not> member_is_valid m \<or> list_ex (active_at (gm_endpoint m)) (gc_members (ig_context st0)) \<or> k \<noteq> g")
    case True
    then show ?thesis using assms(2,3) Some by (auto simp: add_member_def Let_def split: if_splits option.splits)
  next
    case False
    then have kd: "keyed st0" "gc_group_id (ig_context st0) = g" "g \<noteq> 0" using inv by (auto simp: group_inv_def)
    have es: "ig_epoch_secret st0 \<noteq> []" using kd(1) by (auto simp: keyed_def)
    have st: "k = g" "gc_group_id (ig_context st) = g" "gc_members (ig_context st) = gc_members (ig_context st0) @
        [m\<lparr>gm_status := Member_Active, gm_joined_epoch := gc_group_epoch (ig_context st0) + 1, gm_added_at_us := now,
           gm_public_key := pub\<rparr>]"
      "length (ig_epoch_secret st) = 16"
      "\<forall>x. x \<noteq> gm_endpoint m \<longrightarrow> lookup (ig_member_leaf_secrets st) x = lookup (ig_member_leaf_secrets st0) x"
      "\<exists>leaf. lookup (ig_member_leaf_secrets st) (gm_endpoint m) = Some leaf \<and> length leaf = 16"
      using assms(1,3) False Some es kd(2) by (auto simp: add_member_def Let_def advance_epoch_def)
    have "member_is_valid (m\<lparr>gm_status := Member_Active, gm_joined_epoch := a, gm_added_at_us := b, gm_public_key := c\<rparr>)" for a b c
      using False by (simp add: member_is_valid_def)
    moreover have new: "gm_endpoint m \<notin> gm_endpoint ` set (active_members (gc_members (ig_context st0)))"
      using False by (simp add: list_ex_active)
    moreover have "lookup (ig_member_leaf_secrets st) (gm_endpoint x) = lookup (ig_member_leaf_secrets st0) (gm_endpoint x)"
      if "x \<in> set (active_members (gc_members (ig_context st0)))" for x
      using st(5) new that by (metis imageI)
    ultimately show ?thesis using kd st by (auto simp: group_inv_def keyed_def)
  qed
qed

lemma remove_member_inv:
  assumes "length fresh = 32" and "\<And>k st. lookup (gp_groups p) k = Some st \<Longrightarrow> group_inv k st"
    and "lookup (gp_groups (fst (remove_member fresh p g e entropy now))) k = Some st"
  shows "group_inv k st"
proof (cases "lookup (gp_groups p) g")
  case None
  then show ?thesis using assms by (simp add: remove_member_def)
next
  case (Some st0)
  note inv = assms(2) [OF Some]
  show ?thesis
  proof (cases "gc_state (ig_context st0) \<noteq> Group_Active \<or> \<not> list_ex (active_at e) (gc_members (ig_context st0)) \<or> k \<noteq> g")
    case True
    then show ?thesis using assms(2,3) Some by (auto simp: remove_member_def Let_def split: if_splits option.splits)
  next
    case False
    then have kd: "keyed st0" "gc_group_id (ig_context st0) = g" "g \<noteq> 0" using inv by (auto simp: group_inv_def)
    have es: "ig_epoch_secret st0 \<noteq> []" using kd(1) by (auto simp: keyed_def)
    let ?ms = "update_first (active_at e) (\<lambda>m. m\<lparr>gm_status := Member_Removed\<rparr>) (gc_members (ig_context st0))"
    have st: "k = g" "gc_members (ig_context st) = ?ms" "gc_group_id (ig_context st) = g"
      "length (ig_epoch_secret st) = 16" "lookup (ig_member_leaf_secrets st) = (lookup (ig_member_leaf_secrets st0))(e := None)"
      using assms(1,3) False Some es kd(2) by (auto simp: remove_member_def Let_def advance_epoch_def)
    have act: "active_members ?ms = filter (\<lambda>m. gm_endpoint m \<noteq> e) (active_members (gc_members (ig_context st0)))"
      using kd(1) by (intro active_after_removal) (simp add: keyed_def)
    have "\<forall>m\<in>set ?ms. member_is_valid m"
      using kd(1) by (intro update_first_valid) (auto simp: keyed_def member_is_valid_def)
    then show ?thesis using kd st act by (auto simp: group_inv_def keyed_def distinct_map_filter)
  qed
qed

lemma role_inv:
  assumes "\<And>k st. lookup (gp_groups p) k = Some st \<Longrightarrow> group_inv k st"
    and "lookup (gp_groups (fst (update_member_role p g e r now))) k = Some st"
  shows "group_inv k st"
proof (cases "lookup (gp_groups p) g")
  case None
  then show ?thesis using assms by (simp add: update_member_role_def)
next
  case (Some st0)
  note inv = assms(1) [OF Some]
  show ?thesis
  proof (cases "gc_state (ig_context st0) \<noteq> Group_Active \<or> r = mr_unknown \<or> \<not> list_ex (active_at e) (gc_members (ig_context st0)) \<or> k \<noteq> g")
    case True
    then show ?thesis using assms Some by (auto simp: update_member_role_def Let_def split: if_splits)
  next
    case False
    let ?ms = "update_first (active_at e) (\<lambda>m. m\<lparr>gm_role := r\<rparr>) (gc_members (ig_context st0))"
    have kd: "keyed st0" "gc_group_id (ig_context st0) = g" "g \<noteq> 0" using inv False by (auto simp: group_inv_def)
    have st: "k = g" "gc_members (ig_context st) = ?ms" "gc_group_id (ig_context st) = g"
      "ig_epoch_secret st = ig_epoch_secret st0" "ig_member_leaf_secrets st = ig_member_leaf_secrets st0"
      using assms(2) False Some kd(2) by (auto simp: update_member_role_def Let_def)
    have "\<forall>m\<in>set ?ms. member_is_valid m"
      using kd(1) False by (intro update_first_valid) (auto simp: keyed_def member_is_valid_def)
    then show ?thesis using kd st unfolding group_inv_def keyed_endpoints by (simp add: active_after_role)
  qed
qed

lemma rekey_inv:
  assumes "length fresh = 32" and "\<And>k st. lookup (gp_groups p) k = Some st \<Longrightarrow> group_inv k st"
    and "lookup (gp_groups (fst (rekey_group fresh p g e entropy now))) k = Some st"
  shows "group_inv k st"
proof (cases "lookup (gp_groups p) g")
  case None
  then show ?thesis using assms by (simp add: rekey_group_def)
next
  case (Some st0)
  note inv = assms(2) [OF Some]
  show ?thesis
  proof (cases "gc_state (ig_context st0) \<noteq> Group_Active \<or> \<not> list_ex (active_at e) (gc_members (ig_context st0)) \<or> k \<noteq> g")
    case True
    then show ?thesis using assms(2,3) Some by (auto simp: rekey_group_def Let_def split: if_splits option.splits)
  next
    case False
    have kd: "keyed st0" "gc_group_id (ig_context st0) = g" "g \<noteq> 0" using inv False by (auto simp: group_inv_def)
    have es: "ig_epoch_secret st0 \<noteq> []" using kd(1) by (auto simp: keyed_def)
    have st: "k = g" "gc_members (ig_context st) = gc_members (ig_context st0)" "gc_group_id (ig_context st) = g"
      "length (ig_epoch_secret st) = 16"
      "\<forall>x. x \<noteq> e \<longrightarrow> lookup (ig_member_leaf_secrets st) x = lookup (ig_member_leaf_secrets st0) x"
      "\<exists>leaf. lookup (ig_member_leaf_secrets st) e = Some leaf \<and> length leaf = 16"
      using assms(1,3) False Some es kd(2) by (auto simp: rekey_group_def Let_def advance_epoch_def)
    then show ?thesis using kd by (auto simp: group_inv_def keyed_def)
  qed
qed

lemma create_inv:
  assumes "length fresh = 32" and "\<And>k st. lookup (gp_groups p) k = Some st \<Longrightarrow> group_inv k st"
    and "lookup (gp_groups (fst (create_group fresh p g ty suite m secret now))) k = Some st"
  shows "group_inv k st"
proof (cases "g = 0 \<or> ty = gt_unknown \<or> suite = mls_unknown \<or> \<not> member_is_active m \<or> gm_role m \<noteq> mr_coordinator \<or>
    lookup (gp_groups p) g \<noteq> None \<or> k \<noteq> g")
  case True
  then show ?thesis using assms by (auto simp: create_group_def Let_def split: if_splits option.splits)
next
  case False
  then show ?thesis using assms(1,3)
    by (auto simp: create_group_def Let_def group_inv_def keyed_def member_is_active_def member_is_valid_def)
qed

lemma close_inv:
  assumes "\<And>k st. lookup (gp_groups p) k = Some st \<Longrightarrow> group_inv k st"
    and "lookup (gp_groups (fst (close_group p g now))) k = Some st"
  shows "group_inv k st"
proof (cases "lookup (gp_groups p) g")
  case None
  then show ?thesis using assms by (simp add: close_group_def)
next
  case (Some st0)
  then show ?thesis using assms assms(1) [OF Some] by (auto simp: close_group_def group_inv_def split: if_splits)
qed

lemma send_inv:
  assumes "\<And>k st. lookup (gp_groups p) k = Some st \<Longrightarrow> group_inv k st"
    and "lookup (gp_groups (fst (protect p g e mode cls payload seq))) k = Some st"
  shows "group_inv k st"
proof (cases "lookup (gp_groups p) g")
  case None
  then show ?thesis using assms by (simp add: protect_def)
next
  case (Some st0)
  from protect_state [OF Some, of e mode cls payload seq] show ?thesis
  proof
    assume "fst (protect p g e mode cls payload seq) = p"
    then show ?thesis using assms by simp
  next
    assume "fst (protect p g e mode cls payload seq) =
      set_group g (st0\<lparr>ig_sender_ratchets := AList.update e (ratchet_of st0 e + 1) (ig_sender_ratchets st0)\<rparr>) p"
    then show ?thesis using assms assms(1) [OF Some] by (auto simp: group_inv_def keyed_def split: if_splits)
  qed
qed

lemma group_change_inv:
  assumes "group_change p p'" and "\<And>k st. lookup (gp_groups p) k = Some st \<Longrightarrow> group_inv k st"
    and "lookup (gp_groups p') k = Some st"
  shows "group_inv k st"
  using assms
proof (induction rule: group_change.induct)
  case (create fresh p g ty suite m secret now) from create_inv [OF this] show ?case .
next
  case (add fresh p g m pub entropy now) from add_member_inv [OF this] show ?case .
next
  case (remove fresh p g e entropy now) from remove_member_inv [OF this] show ?case .
next
  case (role p g e r now) from role_inv [OF this] show ?case .
next
  case (rekey fresh p g e entropy now) from rekey_inv [OF this] show ?case .
next
  case (close p g now) from close_inv [OF this] show ?case .
next
  case (send p g e mode cls payload seq) from send_inv [OF this] show ?case .
qed

lemma groups_inv:
  assumes "group_step\<^sup>*\<^sup>* new_group_provider p"
  shows "lookup (gp_groups p) k = Some st \<Longrightarrow> group_inv k st"
  using assms
proof (induction arbitrary: k st rule: rtranclp_induct)
  case base
  then show ?case by (simp add: new_group_provider_def)
next
  case (step p q)
  from step.hyps(2) show ?case
  proof cases
    case change
    from group_change_inv [OF this step.IH step.prems] show ?thesis .
  next
    case (receive msg cls)
    then show ?thesis using step unprotect_frame [of p msg cls] by simp
  qed
qed

lemma find_active:
  "list_ex (active_at e) ms \<Longrightarrow> \<exists>m. find (active_at e) ms = Some m \<and> m \<in> set (active_members ms) \<and> gm_endpoint m = e \<and> m \<in> set ms"
  by (induction ms) (auto simp: active_at_def)

text \<open>
  An active member can always send. In every state the provider can reach, each active group has its
  epoch secret and a leaf secret for each of its active members, who have distinct endpoints; so a
  message with a sequence number, a class and a mode is always protected, in either mode (as long as the
  64-bit epoch has not wrapped to 0).
\<close>

theorem active_members_can_send:
  assumes "group_step\<^sup>*\<^sup>* new_group_provider p" and "is_group_member_active p g e"
    and "get_group_context p g = Some ctx" and "gc_group_epoch ctx \<noteq> 0"
    and "seq \<noteq> 0" and "cls \<noteq> 0" and "mode \<noteq> Mode_Unknown"
  shows "\<exists>p' msg. protect p g e mode cls payload seq = (p', Some msg) \<and>
    distinct (map gm_endpoint (active_members (gc_members ctx)))"
proof -
  obtain st where st: "lookup (gp_groups p) g = Some st" "ctx = ig_context st"
    using assms(3) by (auto simp: get_group_context_def)
  have act: "gc_state (ig_context st) = Group_Active" "list_ex (active_at e) (gc_members (ig_context st))"
    using assms(2) st(1) by (auto simp: is_group_member_active_def split: if_splits)
  have inv: "keyed st" "g \<noteq> 0" using groups_inv [OF assms(1) st(1)] act(1) by (auto simp: group_inv_def)
  obtain m where m: "find (active_at e) (gc_members (ig_context st)) = Some m"
    "m \<in> set (active_members (gc_members (ig_context st)))" "gm_endpoint m = e" "m \<in> set (gc_members (ig_context st))"
    using find_active [OF act(2)] by blast
  obtain leaf where leaf: "lookup (ig_member_leaf_secrets st) e = Some leaf" "length leaf = 16"
    using inv(1) m unfolding keyed_def by auto
  have ne: "leaf \<noteq> []" "ig_epoch_secret st \<noteq> []" using leaf inv(1) by (auto simp: keyed_def)
  have "member_is_valid m" using inv(1) m(4) by (simp add: keyed_def)
  then have "\<exists>i. encode_group_authenticator_input (group_binding_of g (gc_group_epoch (ig_context st)) m e cls body seq gen) = Some i"
    for body gen
    using assms(4-6) inv(2) m(3) st(2) length_sl_sha256 [of body]
    by (auto simp: encode_group_authenticator_input_def group_binding_is_valid_def group_binding_of_def member_is_valid_def
        simp del: length_sl_sha256)
  then show ?thesis
    unfolding protect_eq [OF st(1) act(1) assms(5,7) m(1) leaf(1) ne] Let_def
    using inv(1) st(2) by (auto simp: keyed_def)
qed

end
