(* ===== verification/Authorization.thy ===== *)
theory Authorization
  imports Security_Contract Payload_Types
begin

unbundle bit_operations_syntax

text \<open>
  \<open>LiNeP-SL/src/v0_2/authorization.cpp\<close>: the policy authorizer (SL3). Capabilities, resources and
  limits of the subject's policy and of its roles' policies are added up within the request's trust
  domain, and a request is denied unless all of them allow it; what a runtime advertises can only
  restrict. Floats are IEEE-754 bit patterns, as in \<open>Payload_Types\<close>.
\<close>

section \<open>Capabilities and resources\<close>

type_synonym capability_flags = u64
abbreviation (input) cap_none :: capability_flags where "cap_none \<equiv> 0"
abbreviation (input) cap_generate :: capability_flags where "cap_generate \<equiv> 1"
abbreviation (input) cap_chat :: capability_flags where "cap_chat \<equiv> 2"
abbreviation (input) cap_embed :: capability_flags where "cap_embed \<equiv> 4"
abbreviation (input) cap_stream_output :: capability_flags where "cap_stream_output \<equiv> 8"
abbreviation (input) cap_reasoning :: capability_flags where "cap_reasoning \<equiv> 16"
abbreviation (input) cap_cancel :: capability_flags where "cap_cancel \<equiv> 32"
abbreviation (input) cap_tool_invoke :: capability_flags where "cap_tool_invoke \<equiv> 64"
abbreviation (input) cap_metrics_read :: capability_flags where "cap_metrics_read \<equiv> 128"
abbreviation (input) cap_runtime_manage :: capability_flags where "cap_runtime_manage \<equiv> 256"
abbreviation (input) cap_administer :: capability_flags where "cap_administer \<equiv> 512"
abbreviation (input) cap_all :: capability_flags where "cap_all \<equiv> 0xFFFFFFFFFFFFFFFF"

definition has_capability :: "capability_flags \<Rightarrow> capability_flags \<Rightarrow> bool" where
  "has_capability caps required \<longleftrightarrow> caps AND required = required"

datatype resource_kind = Rk_Unknown | Rk_Model | Rk_Embedding_Space | Rk_Tool | Rk_Runtime | Rk_System

record resource_identifier =
  res_kind :: resource_kind
  res_name :: string

definition resource_is_valid :: "resource_identifier \<Rightarrow> bool" where
  "resource_is_valid r \<longleftrightarrow> res_kind r \<noteq> Rk_Unknown \<and> res_name r \<noteq> []"

definition resource_matches :: "resource_identifier \<Rightarrow> resource_identifier \<Rightarrow> bool" where
  "resource_matches r target =
     (if res_kind r = Rk_System \<and> res_name r = ''*'' then True
      else if res_kind r \<noteq> res_kind target then False
      else if res_name r = ''*'' \<or> res_name r = res_name target then True
      else False)"

record execution_constraints =
  ec_max_allowed_tokens :: u32
  ec_max_allowed_temperature :: f32
  ec_disallow_streaming :: bool
  ec_disallow_reasoning :: bool

definition no_constraints :: execution_constraints where
  "no_constraints = \<lparr>ec_max_allowed_tokens = 0, ec_max_allowed_temperature = f32_zero,
     ec_disallow_streaming = False, ec_disallow_reasoning = False\<rparr>"

definition f32_eq :: "f32 \<Rightarrow> f32 \<Rightarrow> bool" where
  "f32_eq a b \<longleftrightarrow> \<not> f32_isnan a \<and> \<not> f32_isnan b \<and> f32_rank a = f32_rank b"

definition f32_isfinite :: "f32 \<Rightarrow> bool" where
  "f32_isfinite a \<longleftrightarrow> \<not> f32_isnan a \<and> \<not> f32_isinf a"

section \<open>Requests, decisions and policies\<close>

record authorization_request =
  ar_trust_domain_id :: u32
  ar_subject_id :: u64
  ar_roles :: "string list"
  ar_action :: security_action
  ar_resource :: resource_identifier
  ar_profile :: runtime_profile
  ar_requested_tokens :: u32
  ar_requested_temperature :: f32
  ar_streaming_requested :: bool
  ar_reasoning_requested :: bool
  ar_tool_name :: string

datatype authorization_outcome = Deny | Allow

record authorization_decision =
  ad_outcome :: authorization_outcome
  ad_reason_code :: string
  ad_granted_capabilities :: capability_flags
  ad_effective_constraints :: execution_constraints

definition is_allowed :: "authorization_decision \<Rightarrow> bool" where
  "is_allowed d \<longleftrightarrow> ad_outcome d = Allow"

record subject_policy =
  sbp_trust_domain_id :: u32
  sbp_subject_id :: u64
  sbp_capabilities :: capability_flags
  sbp_allowed_resources :: "resource_identifier list"
  sbp_constraints :: execution_constraints

record role_policy =
  rlp_trust_domain_id :: u32
  rlp_role_name :: string
  rlp_capabilities :: capability_flags
  rlp_allowed_resources :: "resource_identifier list"
  rlp_constraints :: execution_constraints

record policy_authorizer =
  pa_subject_policies :: "(u32 \<times> u64, subject_policy) umap"
  pa_role_policies :: "(u32 \<times> string, role_policy) umap"

definition new_authorizer :: policy_authorizer where
  "new_authorizer = \<lparr>pa_subject_policies = [], pa_role_policies = []\<rparr>"

definition add_subject_policy :: "subject_policy \<Rightarrow> policy_authorizer \<Rightarrow> policy_authorizer" where
  "add_subject_policy p a = a\<lparr>pa_subject_policies :=
     AList.update (sbp_trust_domain_id p, sbp_subject_id p) p (pa_subject_policies a)\<rparr>"

definition add_role_policy :: "role_policy \<Rightarrow> policy_authorizer \<Rightarrow> policy_authorizer" where
  "add_role_policy p a = a\<lparr>pa_role_policies :=
     AList.update (rlp_trust_domain_id p, rlp_role_name p) p (pa_role_policies a)\<rparr>"

definition clear_policies :: "policy_authorizer \<Rightarrow> policy_authorizer" where
  "clear_policies a = a\<lparr>pa_subject_policies := [], pa_role_policies := []\<rparr>"

section \<open>Authorization\<close>

text \<open>The switch over the action: the capability it needs, or the reason it is denied.\<close>

definition action_capability :: "authorization_request \<Rightarrow> string + capability_flags" where
  "action_capability req =
     (if ar_action req = sa_execute then
        if ar_profile req = rp_generate then Inr cap_generate
        else if ar_profile req = rp_chat then Inr cap_chat
        else if ar_profile req = rp_embed then Inr cap_embed
        else Inl ''profile_unsupported''
      else if ar_action req = sa_emit_output then Inr cap_stream_output
      else if ar_action req = sa_cancel then Inr cap_cancel
      else if ar_action req = sa_invoke_tool then Inr cap_tool_invoke
      else if ar_action req = sa_read_metrics then Inr cap_metrics_read
      else if ar_action req = sa_manage_runtime then Inr cap_runtime_manage
      else if ar_action req = sa_administer then Inr cap_administer
      else if ar_action req = sa_advertise \<or> ar_action req = sa_report_liveness \<or> ar_action req = sa_manage_lease
      then Inr cap_runtime_manage
      else Inl ''action_unrecognized'')"

definition with_options :: "authorization_request \<Rightarrow> capability_flags \<Rightarrow> capability_flags" where
  "with_options req required_cap =
     (let required_cap = (if ar_streaming_requested req then required_cap OR cap_stream_output else required_cap)
      in if ar_reasoning_requested req then required_cap OR cap_reasoning else required_cap)"

definition combine_constraints :: "execution_constraints \<Rightarrow> execution_constraints \<Rightarrow> execution_constraints" where
  "combine_constraints role eff =
     (let eff = (if ec_max_allowed_tokens role > 0 \<and>
                    (ec_max_allowed_tokens eff = 0 \<or> ec_max_allowed_tokens role < ec_max_allowed_tokens eff)
                 then eff\<lparr>ec_max_allowed_tokens := ec_max_allowed_tokens role\<rparr> else eff);
          eff = (if f32_lt f32_zero (ec_max_allowed_temperature role) \<and>
                    (f32_eq (ec_max_allowed_temperature eff) f32_zero \<or>
                     f32_lt (ec_max_allowed_temperature role) (ec_max_allowed_temperature eff))
                 then eff\<lparr>ec_max_allowed_temperature := ec_max_allowed_temperature role\<rparr> else eff);
          eff = (if ec_disallow_streaming role then eff\<lparr>ec_disallow_streaming := True\<rparr> else eff)
      in if ec_disallow_reasoning role then eff\<lparr>ec_disallow_reasoning := True\<rparr> else eff)"

text \<open>What the policies of a request add up to.\<close>

record effective_policy =
  ep_caps :: capability_flags
  ep_resources :: "resource_identifier list"
  ep_constraints :: execution_constraints
  ep_policy_found :: bool

definition add_role :: "policy_authorizer \<Rightarrow> u32 \<Rightarrow> string \<Rightarrow> effective_policy \<Rightarrow> effective_policy" where
  "add_role a domain role_name e =
     (case lookup (pa_role_policies a) (domain, role_name) of None \<Rightarrow> e
      | Some p \<Rightarrow> e\<lparr>ep_policy_found := True, ep_caps := ep_caps e OR rlp_capabilities p,
          ep_resources := ep_resources e @ rlp_allowed_resources p,
          ep_constraints := combine_constraints (rlp_constraints p) (ep_constraints e)\<rparr>)"

definition subject_effective :: "policy_authorizer \<Rightarrow> authorization_request \<Rightarrow> effective_policy" where
  "subject_effective a req =
     (case lookup (pa_subject_policies a) (ar_trust_domain_id req, ar_subject_id req) of
        None \<Rightarrow> \<lparr>ep_caps = cap_none, ep_resources = [], ep_constraints = no_constraints, ep_policy_found = False\<rparr>
      | Some p \<Rightarrow> \<lparr>ep_caps = cap_none OR sbp_capabilities p, ep_resources = sbp_allowed_resources p,
          ep_constraints = sbp_constraints p, ep_policy_found = True\<rparr>)"

definition effective :: "policy_authorizer \<Rightarrow> authorization_request \<Rightarrow> effective_policy" where
  "effective a req = fold (add_role a (ar_trust_domain_id req)) (ar_roles req) (subject_effective a req)"

definition deny :: "string \<Rightarrow> authorization_decision" where
  "deny reason = \<lparr>ad_outcome = Deny, ad_reason_code = reason, ad_granted_capabilities = cap_none,
     ad_effective_constraints = no_constraints\<rparr>"

text \<open>The checks made once a policy has been found, in order; the reason of the first that fails.\<close>

definition policy_refuses :: "effective_policy \<Rightarrow> capability_flags \<Rightarrow> authorization_request \<Rightarrow> string option" where
  "policy_refuses e required_cap req =
     (let c = ep_constraints e in
      if \<not> has_capability (ep_caps e) required_cap then Some ''capability_missing''
      else if \<not> list_ex (\<lambda>allowed. resource_matches allowed (ar_resource req)) (ep_resources e)
      then Some ''resource_not_permitted''
      else if \<not> f32_isfinite (ar_requested_temperature req) then Some ''temperature_non_finite''
      else if ec_max_allowed_tokens c > 0 \<and> ar_requested_tokens req > ec_max_allowed_tokens c
      then Some ''max_tokens_exceeded''
      else if f32_lt f32_zero (ec_max_allowed_temperature c) \<and>
              f32_lt (ec_max_allowed_temperature c) (ar_requested_temperature req)
      then Some ''temperature_exceeded''
      else if ec_disallow_streaming c \<and> ar_streaming_requested req then Some ''streaming_disallowed''
      else if ec_disallow_reasoning c \<and> ar_reasoning_requested req then Some ''reasoning_disallowed''
      else None)"

definition authorize :: "policy_authorizer \<Rightarrow> authorization_request \<Rightarrow> authorization_decision" where
  "authorize a req =
     (if ar_action req = sa_unknown then deny ''action_unknown''
      else if ar_subject_id req = 0 \<or> ar_trust_domain_id req = 0 then deny ''unauthenticated_subject''
      else case action_capability req of Inl reason \<Rightarrow> deny reason
      | Inr cap \<Rightarrow>
          let required_cap = with_options req cap; e = effective a req
          in if \<not> ep_policy_found e then deny ''no_policy_found''
             else case policy_refuses e required_cap req of
               Some reason \<Rightarrow> \<lparr>ad_outcome = Deny, ad_reason_code = reason,
                 ad_granted_capabilities = ep_caps e, ad_effective_constraints = ep_constraints e\<rparr>
             | None \<Rightarrow> \<lparr>ad_outcome = Allow, ad_reason_code = ''ok'',
                 ad_granted_capabilities = ep_caps e, ad_effective_constraints = ep_constraints e\<rparr>)"

section \<open>Advertised capabilities\<close>

text \<open>The checks against what a runtime advertises, made for an allowed request.\<close>

definition runtime_refuses :: "authorization_request \<Rightarrow> runtime_capabilities_descriptor \<Rightarrow> string option" where
  "runtime_refuses req adv =
     (if ar_action req = sa_execute \<and> res_kind (ar_resource req) = Rk_Model \<and> cap_supported_models adv \<noteq> [] \<and>
         \<not> list_ex (\<lambda>m. m = res_name (ar_resource req)) (cap_supported_models adv)
      then Some ''model_not_supported_by_runtime''
      else if ar_action req = sa_execute \<and> \<not> list_ex (\<lambda>p. p = ar_profile req) (cap_supported_profiles adv)
      then Some ''profile_not_supported_by_runtime''
      else if ar_action req = sa_execute \<and> ar_streaming_requested req \<and> \<not> cap_supports_streaming adv
      then Some ''streaming_not_supported_by_runtime''
      else if ar_action req = sa_execute \<and> ar_reasoning_requested req \<and> \<not> cap_supports_reasoning_deltas adv
      then Some ''reasoning_not_supported_by_runtime''
      else if ar_action req = sa_execute \<and> ar_profile req = rp_embed \<and>
              res_kind (ar_resource req) = Rk_Embedding_Space \<and>
              \<not> list_ex (\<lambda>sp. sp_embedding_space_id sp = res_name (ar_resource req)) (cap_supported_embedding_spaces adv)
      then Some ''embedding_space_not_supported_by_runtime''
      else if ar_action req = sa_cancel \<and> \<not> cap_supports_cancellation adv
      then Some ''cancellation_not_supported_by_runtime''
      else None)"

definition validate_against_advertised_capabilities ::
  "policy_authorizer \<Rightarrow> authorization_request \<Rightarrow> runtime_capabilities_descriptor \<Rightarrow> authorization_decision \<times> bool" where
  "validate_against_advertised_capabilities a req adv =
     (let out = authorize a req in
      if \<not> is_allowed out then (out, False)
      else case runtime_refuses req adv of
        Some reason \<Rightarrow> (out\<lparr>ad_outcome := Deny, ad_reason_code := reason\<rparr>, False)
      | None \<Rightarrow> (out, True))"


section \<open>The policies a request holds\<close>

text \<open>The policies that apply to a request: its subject's and those of its roles, in its trust domain.\<close>

type_synonym held_policy = "capability_flags \<times> resource_identifier list \<times> execution_constraints"

definition held_subject :: "policy_authorizer \<Rightarrow> authorization_request \<Rightarrow> held_policy list" where
  "held_subject a req =
     (case lookup (pa_subject_policies a) (ar_trust_domain_id req, ar_subject_id req) of None \<Rightarrow> []
      | Some p \<Rightarrow> [(sbp_capabilities p, sbp_allowed_resources p, sbp_constraints p)])"

definition held_roles :: "policy_authorizer \<Rightarrow> u32 \<Rightarrow> string list \<Rightarrow> held_policy list" where
  "held_roles a domain roles = concat (map (\<lambda>r. case lookup (pa_role_policies a) (domain, r) of None \<Rightarrow> []
     | Some p \<Rightarrow> [(rlp_capabilities p, rlp_allowed_resources p, rlp_constraints p)]) roles)"

definition held_policies :: "policy_authorizer \<Rightarrow> authorization_request \<Rightarrow> held_policy list" where
  "held_policies a req = held_subject a req @ held_roles a (ar_trust_domain_id req) (ar_roles req)"

text \<open>The limits a list of policies adds to those in force.\<close>

definition limits_over :: "execution_constraints \<Rightarrow> held_policy list \<Rightarrow> execution_constraints" where
  "limits_over c ps = fold (\<lambda>(caps, res, d). combine_constraints d) ps c"

lemma held_roles_simps [simp]:
  "held_roles a domain [] = []"
  "held_roles a domain (r # rs) = (case lookup (pa_role_policies a) (domain, r) of None \<Rightarrow> []
     | Some p \<Rightarrow> [(rlp_capabilities p, rlp_allowed_resources p, rlp_constraints p)]) @ held_roles a domain rs"
  by (simp_all add: held_roles_def)

lemma fold_add_role:
  "ep_policy_found (fold (add_role a domain) rs e) \<longleftrightarrow> ep_policy_found e \<or> held_roles a domain rs \<noteq> []"
  "ep_resources (fold (add_role a domain) rs e) = ep_resources e @ concat (map (fst \<circ> snd) (held_roles a domain rs))"
  "bit (ep_caps (fold (add_role a domain) rs e)) n \<longleftrightarrow>
     bit (ep_caps e) n \<or> (\<exists>p\<in>set (held_roles a domain rs). bit (fst p) n)"
  "ep_constraints (fold (add_role a domain) rs e) = limits_over (ep_constraints e) (held_roles a domain rs)"
  by (induction rs arbitrary: e) (auto simp: add_role_def limits_over_def bit_or_iff split: option.splits)

lemma effective_held:
  "ep_policy_found (effective a req) \<longleftrightarrow> held_policies a req \<noteq> []"
  "ep_resources (effective a req) = concat (map (fst \<circ> snd) (held_policies a req))"
  "bit (ep_caps (effective a req)) n \<longleftrightarrow> (\<exists>p\<in>set (held_policies a req). bit (fst p) n)"
  by (auto simp: effective_def fold_add_role subject_effective_def held_policies_def held_subject_def
      split: option.splits)

text \<open>The constraints of the subject's policy are the starting point, those of the roles are combined into them.\<close>

definition effective_limits :: "policy_authorizer \<Rightarrow> authorization_request \<Rightarrow> execution_constraints" where
  "effective_limits a req =
     limits_over (case held_subject a req of [] \<Rightarrow> no_constraints | (caps, res, c) # _ \<Rightarrow> c)
       (held_roles a (ar_trust_domain_id req) (ar_roles req))"

lemma effective_constraints: "ep_constraints (effective a req) = effective_limits a req"
  by (simp add: effective_def fold_add_role effective_limits_def subject_effective_def held_subject_def
      split: option.splits)

definition within_limits :: "execution_constraints \<Rightarrow> authorization_request \<Rightarrow> bool" where
  "within_limits c req \<longleftrightarrow>
     (ec_max_allowed_tokens c > 0 \<longrightarrow> ar_requested_tokens req \<le> ec_max_allowed_tokens c) \<and>
     (f32_lt f32_zero (ec_max_allowed_temperature c) \<longrightarrow>
        \<not> f32_lt (ec_max_allowed_temperature c) (ar_requested_temperature req)) \<and>
     (ec_disallow_streaming c \<longrightarrow> \<not> ar_streaming_requested req) \<and>
     (ec_disallow_reasoning c \<longrightarrow> \<not> ar_reasoning_requested req)"

lemma has_capability_iff: "has_capability caps required \<longleftrightarrow> (\<forall>n. bit required n \<longrightarrow> bit caps n)"
proof
  assume "has_capability caps required"
  then show "\<forall>n. bit required n \<longrightarrow> bit caps n" unfolding has_capability_def by (metis bit_and_iff)
next
  assume "\<forall>n. bit required n \<longrightarrow> bit caps n"
  then show "has_capability caps required" unfolding has_capability_def by (intro bit_word_eqI) (auto simp: bit_and_iff)
qed

lemma authorize_cong: "effective a req = effective b req \<Longrightarrow> authorize a req = authorize b req"
  by (simp add: authorize_def cong: sum.case_cong)

lemma policy_refuses_None:
  "policy_refuses e cap req = None \<longleftrightarrow> has_capability (ep_caps e) cap \<and>
     (\<exists>r\<in>set (ep_resources e). resource_matches r (ar_resource req)) \<and>
     f32_isfinite (ar_requested_temperature req) \<and> within_limits (ep_constraints e) req"
  by (auto simp: policy_refuses_def Let_def within_limits_def list_ex_iff not_less)

lemma authorize_allowed_iff:
  "is_allowed (authorize a req) \<longleftrightarrow> ar_action req \<noteq> sa_unknown \<and> ar_subject_id req \<noteq> 0 \<and> ar_trust_domain_id req \<noteq> 0 \<and>
     ep_policy_found (effective a req) \<and>
     (\<exists>cap. action_capability req = Inr cap \<and> policy_refuses (effective a req) (with_options req cap) req = None)"
  by (auto simp: authorize_def is_allowed_def deny_def Let_def split: sum.splits option.splits)

text \<open>
  Authorization denies by default. A request is allowed exactly when it names a known action and
  an authenticated subject, every capability bit the action and its options need is granted by one of
  the policies held in the request's trust domain, one of those policies grants the resource, the
  temperature is a finite number, and the request is within the combined limits.
\<close>

theorem authorize_exact:
  "is_allowed (authorize a req) \<longleftrightarrow> ar_action req \<noteq> sa_unknown \<and> ar_subject_id req \<noteq> 0 \<and> ar_trust_domain_id req \<noteq> 0 \<and>
     held_policies a req \<noteq> [] \<and>
     (\<exists>cap. action_capability req = Inr cap \<and>
        (\<forall>n. bit (with_options req cap) n \<longrightarrow> (\<exists>p\<in>set (held_policies a req). bit (fst p) n))) \<and>
     (\<exists>(caps, res, c)\<in>set (held_policies a req). \<exists>r\<in>set res. resource_matches r (ar_resource req)) \<and>
     f32_isfinite (ar_requested_temperature req) \<and> within_limits (effective_limits a req) req"
  by (auto simp: authorize_allowed_iff policy_refuses_None effective_held effective_constraints has_capability_iff
      split: prod.splits) (force simp: comp_def)+

section \<open>Limits\<close>

lemma f32_lt_trans: "f32_lt a b \<Longrightarrow> f32_lt b c \<Longrightarrow> f32_lt a c"
  by (simp add: f32_lt_def)

lemma f32_isnan_zero [simp]: "\<not> f32_isnan f32_zero"
  by (simp add: f32_isnan_def f32_magnitude_def)

text \<open>A limit in force is the least of the positive ones, for tokens always.\<close>

definition token_cap :: "execution_constraints \<Rightarrow> u32 \<Rightarrow> bool" where
  "token_cap c n \<longleftrightarrow> ec_max_allowed_tokens c > 0 \<longrightarrow> n \<le> ec_max_allowed_tokens c"

lemma token_cap_combine: "token_cap (combine_constraints d c) n \<longleftrightarrow> token_cap d n \<and> token_cap c n"
  by (auto simp: token_cap_def combine_constraints_def Let_def not_less word_gt_0)

lemma flags_combine:
  "ec_disallow_streaming (combine_constraints d c) \<longleftrightarrow> ec_disallow_streaming d \<or> ec_disallow_streaming c"
  "ec_disallow_reasoning (combine_constraints d c) \<longleftrightarrow> ec_disallow_reasoning d \<or> ec_disallow_reasoning c"
  by (auto simp: combine_constraints_def Let_def)

definition temp_cap :: "execution_constraints \<Rightarrow> f32 \<Rightarrow> bool" where
  "temp_cap c x \<longleftrightarrow> f32_lt f32_zero (ec_max_allowed_temperature c) \<longrightarrow> \<not> f32_lt (ec_max_allowed_temperature c) x"

lemma temp_combine:
  assumes "f32_le f32_zero (ec_max_allowed_temperature c)" and "\<not> f32_isnan x"
  shows "f32_le f32_zero (ec_max_allowed_temperature (combine_constraints d c)) \<and>
    (temp_cap (combine_constraints d c) x \<longleftrightarrow> temp_cap d x \<and> temp_cap c x)"
  using assms
  by (auto simp: temp_cap_def combine_constraints_def Let_def f32_le_def f32_lt_def f32_eq_def)

lemma limits_over_caps:
  "token_cap (limits_over c ps) n \<longleftrightarrow> token_cap c n \<and> (\<forall>(caps, res, d)\<in>set ps. token_cap d n)"
  "ec_disallow_streaming (limits_over c ps) \<longleftrightarrow>
     ec_disallow_streaming c \<or> (\<exists>(caps, res, d)\<in>set ps. ec_disallow_streaming d)"
  "ec_disallow_reasoning (limits_over c ps) \<longleftrightarrow>
     ec_disallow_reasoning c \<or> (\<exists>(caps, res, d)\<in>set ps. ec_disallow_reasoning d)"
  by (induction ps arbitrary: c) (auto simp: limits_over_def token_cap_combine flags_combine split: prod.splits)

lemma limits_over_temp:
  assumes "f32_le f32_zero (ec_max_allowed_temperature c)" and "\<not> f32_isnan x"
  shows "temp_cap (limits_over c ps) x \<longleftrightarrow> temp_cap c x \<and> (\<forall>(caps, res, d)\<in>set ps. temp_cap d x)"
  using assms(1)
proof (induction ps arbitrary: c)
  case (Cons p ps)
  obtain caps res d where p: "p = (caps, res, d)" by (cases p)
  from temp_combine [OF Cons.prems assms(2), of d] Cons.IH show ?case by (auto simp: limits_over_def p)
qed (simp add: limits_over_def)

lemma no_constraints_caps [simp]:
  "token_cap no_constraints n" "temp_cap no_constraints x"
  "\<not> ec_disallow_streaming no_constraints" "\<not> ec_disallow_reasoning no_constraints"
  "f32_le f32_zero (ec_max_allowed_temperature no_constraints)"
  by (simp_all add: token_cap_def temp_cap_def no_constraints_def f32_lt_def f32_le_def)

lemma held_subject_cases: "held_subject a req = [] \<or> (\<exists>q. held_subject a req = [q])"
  by (simp add: held_subject_def split: option.split)

text \<open>
  Every held policy limits the request. An allowed request asks for no more tokens than any
  policy of its subject or roles allows, and neither streams nor reasons where one of them forbids
  it; and as long as the subject's own temperature limit is not negative (or not a number), it stays
  within every positive temperature limit among them.
\<close>

theorem every_policy_limits:
  assumes "is_allowed (authorize a req)" and "(caps, res, c) \<in> set (held_policies a req)"
  shows "(ec_max_allowed_tokens c > 0 \<longrightarrow> ar_requested_tokens req \<le> ec_max_allowed_tokens c) \<and>
    (ec_disallow_streaming c \<longrightarrow> \<not> ar_streaming_requested req) \<and>
    (ec_disallow_reasoning c \<longrightarrow> \<not> ar_reasoning_requested req) \<and>
    ((\<forall>(caps, res, s)\<in>set (held_subject a req). f32_le f32_zero (ec_max_allowed_temperature s)) \<longrightarrow>
     f32_lt f32_zero (ec_max_allowed_temperature c) \<longrightarrow>
     f32_le (ar_requested_temperature req) (ec_max_allowed_temperature c))"
proof -
  have w: "within_limits (effective_limits a req) req" and fin: "f32_isfinite (ar_requested_temperature req)"
    using assms(1) by (auto simp: authorize_allowed_iff policy_refuses_None effective_constraints)
  define base where "base = (case held_subject a req of [] \<Rightarrow> no_constraints | (caps, res, c) # _ \<Rightarrow> c)"
  define rs where "rs = held_roles a (ar_trust_domain_id req) (ar_roles req)"
  have eff: "effective_limits a req = limits_over base rs" by (simp add: effective_limits_def base_def rs_def)
  have c: "c = base \<or> (caps, res, c) \<in> set rs"
    using assms(2) held_subject_cases [of a req] by (auto simp: held_policies_def base_def rs_def)
  have "token_cap (limits_over base rs) (ar_requested_tokens req)"
    using w by (simp add: within_limits_def eff token_cap_def)
  then have tok: "token_cap c (ar_requested_tokens req)" using c by (auto simp: limits_over_caps)
  have flags: "ec_disallow_streaming c \<Longrightarrow> \<not> ar_streaming_requested req" "ec_disallow_reasoning c \<Longrightarrow> \<not> ar_reasoning_requested req"
    using w c by (auto simp: within_limits_def eff limits_over_caps)
  have temp: "temp_cap c (ar_requested_temperature req)"
    if "\<forall>(caps, res, s)\<in>set (held_subject a req). f32_le f32_zero (ec_max_allowed_temperature s)"
  proof -
    have "f32_le f32_zero (ec_max_allowed_temperature base)"
      using that held_subject_cases [of a req] by (auto simp: base_def)
    moreover have "temp_cap (limits_over base rs) (ar_requested_temperature req)"
      using w by (simp add: within_limits_def eff temp_cap_def)
    ultimately show ?thesis using c fin by (auto simp: limits_over_temp f32_isfinite_def)
  qed
  show ?thesis using tok flags temp fin by (auto simp: token_cap_def temp_cap_def f32_isfinite_def f32_lt_def f32_le_def)
qed

text \<open>
  The proviso on temperatures is needed. When the subject's limit is negative, \<open>combine_constraints\<close>
  keeps it against every role and the check, made for positive limits only, never refuses: a limit
  on a role has no effect.
\<close>

lemma negative_limit_combine:
  "f32_lt (ec_max_allowed_temperature c) f32_zero \<Longrightarrow>
     ec_max_allowed_temperature (combine_constraints d c) = ec_max_allowed_temperature c"
  by (auto simp: combine_constraints_def Let_def f32_lt_def f32_eq_def)

lemma negative_limit_over:
  "f32_lt (ec_max_allowed_temperature c) f32_zero \<Longrightarrow>
     ec_max_allowed_temperature (limits_over c ps) = ec_max_allowed_temperature c"
proof (induction ps arbitrary: c)
  case (Cons p ps)
  obtain caps res d where "p = (caps, res, d)" by (cases p)
  then show ?case using Cons negative_limit_combine [OF Cons.prems, of d] by (simp add: limits_over_def)
qed (simp add: limits_over_def)

lemma negative_subject_limit_disables_role_limits:
  assumes "held_subject a req = [(caps, res, c)]" and "f32_lt (ec_max_allowed_temperature c) f32_zero"
  shows "policy_refuses (effective a req) cap req \<noteq> Some ''temperature_exceeded''"
  using assms negative_limit_over [OF assms(2)]
  by (auto simp: policy_refuses_def Let_def effective_constraints effective_limits_def f32_lt_def)

section \<open>Trust domains and runtimes\<close>

text \<open>
  Trust domains are separate. A policy of another trust domain, and a policy of another subject or
  of a role the request does not hold, has no effect on a decision.
\<close>

theorem foreign_policies_irrelevant:
  assumes "sbp_trust_domain_id p \<noteq> ar_trust_domain_id req \<or> sbp_subject_id p \<noteq> ar_subject_id req"
    and "rlp_trust_domain_id q \<noteq> ar_trust_domain_id req \<or> rlp_role_name q \<notin> set (ar_roles req)"
  shows "authorize (add_subject_policy p a) req = authorize a req \<and>
    authorize (add_role_policy q a) req = authorize a req"
proof -
  have "subject_effective (add_subject_policy p a) req = subject_effective a req"
    using assms(1) by (auto simp: subject_effective_def add_subject_policy_def)
  moreover have "add_role (add_subject_policy p a) = add_role a"
    by (simp add: fun_eq_iff add_role_def add_subject_policy_def)
  moreover have "subject_effective (add_role_policy q a) req = subject_effective a req"
    by (simp add: subject_effective_def add_role_policy_def)
  moreover have "add_role (add_role_policy q a) (ar_trust_domain_id req) r = add_role a (ar_trust_domain_id req) r"
    if "r \<in> set (ar_roles req)" for r
    using assms(2) that by (auto simp: fun_eq_iff add_role_def add_role_policy_def)
  then have "fold (add_role (add_role_policy q a) (ar_trust_domain_id req)) (ar_roles req) e =
      fold (add_role a (ar_trust_domain_id req)) (ar_roles req) e" for e
    by (intro fold_cong) auto
  ultimately have "effective (add_subject_policy p a) req = effective a req"
    "effective (add_role_policy q a) req = effective a req"
    by (simp_all add: effective_def)
  then show ?thesis using authorize_cong by blast
qed

text \<open>
  Advertised capabilities never grant anything. Validation against a runtime allows exactly what
  the policies allow and the runtime does not exclude, keeps the grant of the policies, and returns
  true exactly for an allowing decision.
\<close>

theorem advertised_capabilities_only_restrict:
  "(let (out, ok) = validate_against_advertised_capabilities a req adv in
     ok = is_allowed out \<and> (ok \<longleftrightarrow> is_allowed (authorize a req) \<and> runtime_refuses req adv = None) \<and>
     ad_granted_capabilities out = ad_granted_capabilities (authorize a req) \<and>
     ad_effective_constraints out = ad_effective_constraints (authorize a req))"
  by (auto simp: validate_against_advertised_capabilities_def Let_def is_allowed_def split: option.split)

end
