(* ===== verification/Governance.thy ===== *)
theory Governance
  imports Authorization SL_Sha256 "HOL-Library.Multiset"
begin

text \<open>
  \<open>LiNeP-SL/src/v0_2/governance.cpp\<close> (SL4): trust boundary profiles, federation admission with
  attestation, monotonic policy revisions, and the hash-chained audit log with its in-memory sinks.
  Shown are the exact admission rule, the integrity of the log over any run and under concurrent
  emissions, what its last digest vouches for, and what it does not.
\<close>

section \<open>Audit records\<close>

datatype trust_boundary_profile = Intranet_Cluster | Dmz_Gateway | Federated_External | Zero_Trust_Strict

type_synonym audit_event_type = u8
abbreviation (input) ae_session_established :: audit_event_type where "ae_session_established \<equiv> 0"
abbreviation (input) ae_session_rotated :: audit_event_type where "ae_session_rotated \<equiv> 1"
abbreviation (input) ae_session_revoked :: audit_event_type where "ae_session_revoked \<equiv> 2"
abbreviation (input) ae_session_expired :: audit_event_type where "ae_session_expired \<equiv> 3"
abbreviation (input) ae_authorization_allowed :: audit_event_type where "ae_authorization_allowed \<equiv> 4"
abbreviation (input) ae_authorization_denied :: audit_event_type where "ae_authorization_denied \<equiv> 5"
abbreviation (input) ae_attestation_verified :: audit_event_type where "ae_attestation_verified \<equiv> 6"
abbreviation (input) ae_attestation_failed :: audit_event_type where "ae_attestation_failed \<equiv> 7"
abbreviation (input) ae_federation_admitted :: audit_event_type where "ae_federation_admitted \<equiv> 8"
abbreviation (input) ae_federation_denied :: audit_event_type where "ae_federation_denied \<equiv> 9"
abbreviation (input) ae_policy_updated :: audit_event_type where "ae_policy_updated \<equiv> 10"
abbreviation (input) ae_integrity_violation :: audit_event_type where "ae_integrity_violation \<equiv> 11"

record audit_record =
  au_audit_seq :: u64
  au_timestamp_us :: u64
  au_event_type :: audit_event_type
  au_session_id :: u64
  au_subject_id :: u64
  au_local_trust_domain_id :: u32
  au_remote_trust_domain_id :: u32
  au_action :: security_action
  au_resource_name :: string
  au_decision :: authorization_outcome
  au_reason_code :: string
  au_policy_id :: string
  au_policy_revision :: u32
  au_federation_revision :: u32
  au_payload_digest :: bytes
  au_prev_record_digest :: bytes
  au_record_digest :: bytes

fun outcome_byte :: "authorization_outcome \<Rightarrow> u8" where
  "outcome_byte Deny = 0"
| "outcome_byte Allow = 1"

definition record_hash_input :: "audit_record \<Rightarrow> bytes" where
  "record_hash_input r = write_u64 (au_audit_seq r) @ write_u64 (au_timestamp_us r) @ write_u8 (au_event_type r) @
     write_u64 (au_session_id r) @ write_u64 (au_subject_id r) @ write_u32 (au_local_trust_domain_id r) @
     write_u32 (au_remote_trust_domain_id r) @ write_u8 (au_action r) @ write_u8 (outcome_byte (au_decision r)) @
     write_u32 (au_policy_revision r) @ write_u32 (au_federation_revision r) @
     bytes_of_string (au_resource_name r) @ bytes_of_string (au_reason_code r) @ bytes_of_string (au_policy_id r) @
     au_payload_digest r @ au_prev_record_digest r"

definition compute_record_hash :: "audit_record \<Rightarrow> bytes" where
  "compute_record_hash r = sl_sha256 (record_hash_input r)"

text \<open>The in-memory sink: the entries recorded, oldest first.\<close>

type_synonym audit_sink = "audit_record list"

definition sink_record :: "audit_record \<Rightarrow> audit_sink \<Rightarrow> audit_sink" where
  "sink_record entry sink = sink @ [entry]"

section \<open>The engine\<close>

datatype attestation_type = At_None | At_Token | At_Tpm_Quote | At_Sgx_Quote | At_Sev_Snp | At_Nitro

record attestation_evidence =
  at_type :: attestation_type
  at_evidence_bytes :: bytes
  at_nonce :: u64
  at_issued_at_us :: u64

text \<open>The verifier is an interface that the deployment implements.\<close>

type_synonym attestation_verifier = "u32 \<Rightarrow> u64 \<Rightarrow> attestation_evidence \<Rightarrow> u64 \<Rightarrow> bool"

record governance_engine =
  ge_local_trust_domain_id :: u32
  ge_policy_id :: string
  ge_policy_revision :: u32
  ge_federation_revision :: u32
  ge_profile :: trust_boundary_profile
  ge_audit_seq_counter :: u64
  ge_last_audit_digest :: bytes
  ge_federated_domains :: "u32 list"
  ge_attestation_verifier :: "attestation_verifier option"
  ge_audit_sinks :: "audit_sink list"

definition new_engine :: "u32 \<Rightarrow> string \<Rightarrow> u32 \<Rightarrow> u32 \<Rightarrow> governance_engine" where
  "new_engine local_domain pid policy_rev federation_rev =
     \<lparr>ge_local_trust_domain_id = local_domain, ge_policy_id = pid, ge_policy_revision = policy_rev,
      ge_federation_revision = federation_rev, ge_profile = Intranet_Cluster, ge_audit_seq_counter = 0,
      ge_last_audit_digest = replicate 32 0, ge_federated_domains = [], ge_attestation_verifier = None,
      ge_audit_sinks = []\<rparr>"

definition set_trust_boundary_profile :: "trust_boundary_profile \<Rightarrow> governance_engine \<Rightarrow> governance_engine" where
  "set_trust_boundary_profile profile g = g\<lparr>ge_profile := profile\<rparr>"

definition add_federated_domain :: "u32 \<Rightarrow> governance_engine \<Rightarrow> governance_engine" where
  "add_federated_domain domain g = g\<lparr>ge_federated_domains := List.insert domain (ge_federated_domains g)\<rparr>"

definition remove_federated_domain :: "u32 \<Rightarrow> governance_engine \<Rightarrow> governance_engine" where
  "remove_federated_domain domain g = g\<lparr>ge_federated_domains := removeAll domain (ge_federated_domains g)\<rparr>"

definition is_federated_domain :: "u32 \<Rightarrow> governance_engine \<Rightarrow> bool" where
  "is_federated_domain domain g \<longleftrightarrow> domain \<in> set (ge_federated_domains g)"

definition set_attestation_verifier :: "attestation_verifier option \<Rightarrow> governance_engine \<Rightarrow> governance_engine" where
  "set_attestation_verifier v g = g\<lparr>ge_attestation_verifier := v\<rparr>"

definition add_audit_sink :: "audit_sink option \<Rightarrow> governance_engine \<Rightarrow> governance_engine" where
  "add_audit_sink sink g =
     (case sink of None \<Rightarrow> g | Some s \<Rightarrow> g\<lparr>ge_audit_sinks := ge_audit_sinks g @ [s]\<rparr>)"

text \<open>
  An emission has two parts. Under the lock the record gets its number, the revisions in force and its
  place in the hash chain; the record is then passed to the sinks without the lock.
\<close>

record audit_event =
  av_type :: audit_event_type
  av_session_id :: u64
  av_subject_id :: u64
  av_remote_trust_domain_id :: u32
  av_action :: security_action
  av_resource_name :: string
  av_decision :: authorization_outcome
  av_reason_code :: string
  av_payload_digest :: bytes
  av_now_us :: u64

definition emit_locked :: "audit_event \<Rightarrow> governance_engine \<Rightarrow> governance_engine \<times> audit_record" where
  "emit_locked v g =
     (let seq = ge_audit_seq_counter g + 1;
          r = \<lparr>au_audit_seq = seq, au_timestamp_us = av_now_us v, au_event_type = av_type v,
            au_session_id = av_session_id v, au_subject_id = av_subject_id v,
            au_local_trust_domain_id = ge_local_trust_domain_id g,
            au_remote_trust_domain_id = av_remote_trust_domain_id v, au_action = av_action v,
            au_resource_name = av_resource_name v, au_decision = av_decision v,
            au_reason_code = av_reason_code v, au_policy_id = ge_policy_id g,
            au_policy_revision = ge_policy_revision g, au_federation_revision = ge_federation_revision g,
            au_payload_digest = av_payload_digest v, au_prev_record_digest = ge_last_audit_digest g,
            au_record_digest = []\<rparr>;
          r = r\<lparr>au_record_digest := compute_record_hash r\<rparr>
      in (g\<lparr>ge_audit_seq_counter := seq, ge_last_audit_digest := au_record_digest r\<rparr>, r))"

definition emit_audit_event :: "audit_event \<Rightarrow> governance_engine \<Rightarrow> governance_engine" where
  "emit_audit_event v g =
     (let (g, r) = emit_locked v g in g\<lparr>ge_audit_sinks := map (sink_record r) (ge_audit_sinks g)\<rparr>)"

definition policy_event :: "governance_engine \<Rightarrow> string \<Rightarrow> string \<Rightarrow> u64 \<Rightarrow> audit_event" where
  "policy_event g resource reason now_us =
     \<lparr>av_type = ae_policy_updated, av_session_id = 0, av_subject_id = 0,
      av_remote_trust_domain_id = ge_local_trust_domain_id g, av_action = sa_administer,
      av_resource_name = resource, av_decision = Allow, av_reason_code = reason, av_payload_digest = [],
      av_now_us = now_us\<rparr>"

definition update_policy_revision :: "u32 \<Rightarrow> u64 \<Rightarrow> governance_engine \<Rightarrow> governance_engine \<times> bool" where
  "update_policy_revision new_revision now_us g =
     (if new_revision \<le> ge_policy_revision g then (g, False)
      else let g = g\<lparr>ge_policy_revision := new_revision\<rparr>
        in (emit_audit_event (policy_event g ''policy_engine'' ''policy_revision_updated'' now_us) g, True))"

definition update_federation_revision :: "u32 \<Rightarrow> u64 \<Rightarrow> governance_engine \<Rightarrow> governance_engine \<times> bool" where
  "update_federation_revision new_revision now_us g =
     (if new_revision \<le> ge_federation_revision g then (g, False)
      else let g = g\<lparr>ge_federation_revision := new_revision\<rparr>
        in (emit_audit_event (policy_event g ''federation_engine'' ''federation_revision_updated'' now_us) g, True))"

section \<open>Admission\<close>

fun profile_minimum_level :: "trust_boundary_profile \<Rightarrow> security_level" where
  "profile_minimum_level Intranet_Cluster = sl1_authenticated"
| "profile_minimum_level Dmz_Gateway = sl2_identity"
| "profile_minimum_level Federated_External = sl3_authorized"
| "profile_minimum_level Zero_Trust_Strict = sl4_governed"

fun profile_level_reason :: "trust_boundary_profile \<Rightarrow> string" where
  "profile_level_reason Intranet_Cluster = ''security_level_insufficient_for_intranet_profile''"
| "profile_level_reason Dmz_Gateway = ''security_level_insufficient_for_gateway_profile''"
| "profile_level_reason Federated_External = ''security_level_insufficient_for_federation_profile''"
| "profile_level_reason Zero_Trust_Strict = ''security_level_insufficient_for_zero_trust_profile''"

text \<open>The attestation checks that the strict profiles make, with their reasons.\<close>

definition attestation_refuses :: "governance_engine \<Rightarrow> u32 \<Rightarrow> u64 \<Rightarrow> attestation_evidence option \<Rightarrow> u64
    \<Rightarrow> string \<Rightarrow> string \<Rightarrow> string option" where
  "attestation_refuses g domain subject evidence now_us missing failed =
     (case ge_attestation_verifier g of None \<Rightarrow> Some ''attestation_verifier_missing''
      | Some verify \<Rightarrow>
          (case evidence of None \<Rightarrow> Some missing
           | Some e \<Rightarrow> if at_type e = At_None then Some missing
               else if \<not> verify domain subject e now_us then Some failed
               else None))"

definition admission_refusal :: "governance_engine \<Rightarrow> u32 \<Rightarrow> u64 \<Rightarrow> security_level \<Rightarrow> attestation_evidence option
    \<Rightarrow> u64 \<Rightarrow> (audit_event_type \<times> string) option" where
  "admission_refusal g domain subject level evidence now_us =
     (let prof = ge_profile g in
      if level < profile_minimum_level prof then Some (ae_federation_denied, profile_level_reason prof)
      else if domain = ge_local_trust_domain_id g then
        if prof = Zero_Trust_Strict then
          map_option (Pair ae_attestation_failed)
            (attestation_refuses g domain subject evidence now_us
              ''zero_trust_attestation_missing'' ''zero_trust_attestation_failed'')
        else None
      else if prof = Intranet_Cluster
      then Some (ae_federation_denied, ''cross_domain_rejected_on_intranet_profile'')
      else if \<not> is_federated_domain domain g then Some (ae_federation_denied, ''trust_domain_not_federated'')
      else if prof = Federated_External \<or> prof = Zero_Trust_Strict then
        map_option (Pair ae_attestation_failed)
          (attestation_refuses g domain subject evidence now_us
            ''federation_attestation_required'' ''federation_attestation_failed'')
      else None)"

definition admission_event :: "audit_event_type \<Rightarrow> u64 \<Rightarrow> u32 \<Rightarrow> authorization_outcome \<Rightarrow> string \<Rightarrow> u64 \<Rightarrow> audit_event" where
  "admission_event ty subject domain decision reason now_us =
     \<lparr>av_type = ty, av_session_id = 0, av_subject_id = subject, av_remote_trust_domain_id = domain,
      av_action = sa_administer, av_resource_name = ''admission'', av_decision = decision,
      av_reason_code = reason, av_payload_digest = [], av_now_us = now_us\<rparr>"

definition evaluate_federation_admission :: "u32 \<Rightarrow> u64 \<Rightarrow> security_level \<Rightarrow> attestation_evidence option \<Rightarrow> u64
    \<Rightarrow> governance_engine \<Rightarrow> governance_engine \<times> bool \<times> string" where
  "evaluate_federation_admission domain subject level evidence now_us g =
     (case admission_refusal g domain subject level evidence now_us of
        Some (ty, reason) \<Rightarrow>
          (emit_audit_event (admission_event ty subject domain Deny reason now_us) g, False, reason)
      | None \<Rightarrow>
          (emit_audit_event (admission_event ae_federation_admitted subject domain Allow ''ok'' now_us) g, True, ''ok''))"


section \<open>The audit chain\<close>

text \<open>Records numbered on from \<open>n\<close>, each holding the digest of its predecessor and its own.\<close>

fun chain_from :: "u64 \<Rightarrow> bytes \<Rightarrow> audit_record list \<Rightarrow> bool" where
  "chain_from n d [] = True"
| "chain_from n d (r # rs) \<longleftrightarrow> au_audit_seq r = n + 1 \<and> au_prev_record_digest r = d \<and>
     au_record_digest r = compute_record_hash r \<and> chain_from (n + 1) (au_record_digest r) rs"

definition chain_end :: "bytes \<Rightarrow> audit_record list \<Rightarrow> bytes" where
  "chain_end d rs = (if rs = [] then d else au_record_digest (last rs))"

lemma chain_end_simps [simp]: "chain_end d [] = d" "chain_end d (r # rs) = chain_end (au_record_digest r) rs"
  by (simp_all add: chain_end_def)

lemma chain_end_append [simp]: "chain_end d (rs @ ts) = chain_end (chain_end d rs) ts"
  by (simp add: chain_end_def)

lemma chain_from_append:
  "chain_from n d (rs @ ts) \<longleftrightarrow> chain_from n d rs \<and> chain_from (n + of_nat (length rs)) (chain_end d rs) ts"
  by (induction rs arbitrary: n d) (auto simp: add.assoc)

lemma record_hash_digest [simp]: "compute_record_hash (r\<lparr>au_record_digest := d\<rparr>) = compute_record_hash r"
  by (simp add: compute_record_hash_def record_hash_input_def)

lemma emit_locked_chain:
  assumes "emit_locked v g = (g', r)"
  shows "chain_from (ge_audit_seq_counter g) (ge_last_audit_digest g) [r] \<and>
    g' = g\<lparr>ge_audit_seq_counter := ge_audit_seq_counter g + 1, ge_last_audit_digest := au_record_digest r\<rparr> \<and>
    au_policy_revision r = ge_policy_revision g \<and> au_federation_revision r = ge_federation_revision g \<and>
    au_decision r = av_decision v \<and> au_reason_code r = av_reason_code v \<and> au_subject_id r = av_subject_id v \<and>
    au_remote_trust_domain_id r = av_remote_trust_domain_id v \<and> au_event_type r = av_type v"
  using assms by (auto simp: emit_locked_def Let_def compute_record_hash_def record_hash_input_def)

inductive gov_step :: "governance_engine \<Rightarrow> governance_engine \<Rightarrow> bool" where
  emit: "gov_step g (emit_audit_event v g)"
| policy: "gov_step g (fst (update_policy_revision nrev now g))"
| federation: "gov_step g (fst (update_federation_revision nrev now g))"
| admission: "gov_step g (fst (evaluate_federation_admission domain subject level evidence now g))"
| profile: "gov_step g (set_trust_boundary_profile p g)"
| add_domain: "gov_step g (add_federated_domain domain g)"
| remove_domain: "gov_step g (remove_federated_domain domain g)"
| verifier: "gov_step g (set_attestation_verifier verify g)"

text \<open>What a run of the engine adds to its log.\<close>

definition log_extends :: "governance_engine \<Rightarrow> audit_record list \<Rightarrow> governance_engine \<Rightarrow> bool" where
  "log_extends g rs g' \<longleftrightarrow> chain_from (ge_audit_seq_counter g) (ge_last_audit_digest g) rs \<and>
     ge_audit_seq_counter g' = ge_audit_seq_counter g + of_nat (length rs) \<and>
     ge_last_audit_digest g' = chain_end (ge_last_audit_digest g) rs \<and>
     ge_audit_sinks g' = map (\<lambda>s. s @ rs) (ge_audit_sinks g) \<and>
     ge_policy_revision g \<le> ge_policy_revision g' \<and> ge_federation_revision g \<le> ge_federation_revision g' \<and>
     (\<forall>r\<in>set rs. ge_policy_revision g \<le> au_policy_revision r \<and> au_policy_revision r \<le> ge_policy_revision g' \<and>
        ge_federation_revision g \<le> au_federation_revision r \<and> au_federation_revision r \<le> ge_federation_revision g')"

lemma log_extends_trans: "log_extends g rs h \<Longrightarrow> log_extends h ts k \<Longrightarrow> log_extends g (rs @ ts) k"
  unfolding log_extends_def by (auto simp: chain_from_append intro: order.trans)

lemma log_extends_emit: "\<exists>r. log_extends g [r] (emit_audit_event v g) \<and> au_decision r = av_decision v \<and>
    au_reason_code r = av_reason_code v \<and> au_subject_id r = av_subject_id v \<and>
    au_remote_trust_domain_id r = av_remote_trust_domain_id v \<and> au_event_type r = av_type v"
proof -
  obtain h r where e: "emit_locked v g = (h, r)" by fastforce
  from emit_locked_chain [OF e] show ?thesis
    by (intro exI [of _ r]) (simp add: emit_audit_event_def e log_extends_def sink_record_def)
qed

lemma log_extends_same:
  "ge_audit_seq_counter g' = ge_audit_seq_counter g \<Longrightarrow> ge_last_audit_digest g' = ge_last_audit_digest g \<Longrightarrow>
     ge_audit_sinks g' = ge_audit_sinks g \<Longrightarrow> ge_policy_revision g \<le> ge_policy_revision g' \<Longrightarrow>
     ge_federation_revision g \<le> ge_federation_revision g' \<Longrightarrow> log_extends g [] g'"
  by (simp add: log_extends_def)

lemma log_extends_then_emit: "log_extends g [] h \<Longrightarrow> \<exists>rs. log_extends g rs (emit_audit_event v h)"
  using log_extends_emit log_extends_trans by blast

lemma gov_step_extends: "gov_step g g' \<Longrightarrow> \<exists>rs. log_extends g rs g'"
proof (induction rule: gov_step.induct)
  case (emit g v)
  show ?case using log_extends_emit by blast
next
  case (policy g nrev now)
  show ?case
  proof (cases "nrev \<le> ge_policy_revision g")
    case False
    then have "log_extends g [] (g\<lparr>ge_policy_revision := nrev\<rparr>)" by (intro log_extends_same) simp_all
    then show ?thesis using False log_extends_then_emit by (simp add: update_policy_revision_def Let_def)
  qed (auto simp: update_policy_revision_def intro: log_extends_same)
next
  case (federation g nrev now)
  show ?case
  proof (cases "nrev \<le> ge_federation_revision g")
    case False
    then have "log_extends g [] (g\<lparr>ge_federation_revision := nrev\<rparr>)" by (intro log_extends_same) simp_all
    then show ?thesis using False log_extends_then_emit by (simp add: update_federation_revision_def Let_def)
  qed (auto simp: update_federation_revision_def intro: log_extends_same)
next
  case (admission g domain subject level evidence now)
  show ?case using log_extends_emit
    by (auto simp: evaluate_federation_admission_def split: option.split prod.split)
qed (auto simp: set_trust_boundary_profile_def add_federated_domain_def remove_federated_domain_def
  set_attestation_verifier_def intro!: exI [of _ "[]"] log_extends_same)

lemma gov_steps_extend: "gov_step\<^sup>*\<^sup>* g g' \<Longrightarrow> \<exists>rs. log_extends g rs g'"
proof (induction rule: rtranclp_induct)
  case base
  then show ?case by (auto intro: log_extends_same)
next
  case (step h k)
  then show ?case using gov_step_extends log_extends_trans by blast
qed

text \<open>
  The audit log is a hash chain. Over any run of the engine every sink receives the same new
  records, numbered consecutively, each holding the digest of its predecessor and its own digest, with
  the policy and federation revisions then in force; revisions never go back.
\<close>

theorem audit_log_is_chain:
  assumes "gov_step\<^sup>*\<^sup>* g g'"
  shows "\<exists>rs. chain_from (ge_audit_seq_counter g) (ge_last_audit_digest g) rs \<and>
    ge_audit_sinks g' = map (\<lambda>s. s @ rs) (ge_audit_sinks g) \<and>
    ge_audit_seq_counter g' = ge_audit_seq_counter g + of_nat (length rs) \<and>
    ge_last_audit_digest g' = chain_end (ge_last_audit_digest g) rs \<and>
    ge_policy_revision g \<le> ge_policy_revision g' \<and> ge_federation_revision g \<le> ge_federation_revision g' \<and>
    (\<forall>r\<in>set rs. au_policy_revision r \<in> {ge_policy_revision g .. ge_policy_revision g'} \<and>
       au_federation_revision r \<in> {ge_federation_revision g .. ge_federation_revision g'})"
  using gov_steps_extend [OF assms] unfolding log_extends_def atLeastAtMost_iff by blast

section \<open>Admission\<close>

definition attested :: "governance_engine \<Rightarrow> u32 \<Rightarrow> u64 \<Rightarrow> attestation_evidence option \<Rightarrow> u64 \<Rightarrow> bool" where
  "attested g domain subject evidence now_us \<longleftrightarrow> (\<exists>verify e. ge_attestation_verifier g = Some verify \<and>
     evidence = Some e \<and> at_type e \<noteq> At_None \<and> verify domain subject e now_us)"

lemma attestation_refuses_None:
  "attestation_refuses g domain subject evidence now_us m f = None \<longleftrightarrow> attested g domain subject evidence now_us"
  by (auto simp: attestation_refuses_def attested_def split: option.splits)

lemma admission_refusal_None:
  "admission_refusal g domain subject level evidence now_us = None \<longleftrightarrow>
     profile_minimum_level (ge_profile g) \<le> level \<and>
     (if domain = ge_local_trust_domain_id g
      then ge_profile g = Zero_Trust_Strict \<longrightarrow> attested g domain subject evidence now_us
      else ge_profile g \<noteq> Intranet_Cluster \<and> is_federated_domain domain g \<and>
        (ge_profile g \<in> {Federated_External, Zero_Trust_Strict} \<longrightarrow> attested g domain subject evidence now_us))"
  by (cases "ge_profile g") (auto simp: admission_refusal_def Let_def attestation_refuses_None dest: leD)

text \<open>
  Federation admission is exact and audited. A peer is admitted exactly when its level reaches the
  boundary profile's minimum and it is of the local domain, or of a federated one under a profile that
  allows crossing, with a verified attestation wherever the profile demands one; and every decision
  adds one record with that decision, peer and reason to every sink.
\<close>

theorem admission_exact_and_audited:
  "(case evaluate_federation_admission domain subject level evidence now g of (g', ok, reason) \<Rightarrow>
     (ok = (profile_minimum_level (ge_profile g) \<le> level \<and>
       (if domain = ge_local_trust_domain_id g
        then (ge_profile g = Zero_Trust_Strict \<longrightarrow> attested g domain subject evidence now)
        else ge_profile g \<noteq> Intranet_Cluster \<and> is_federated_domain domain g \<and>
          (ge_profile g \<in> {Federated_External, Zero_Trust_Strict} \<longrightarrow> attested g domain subject evidence now)))) \<and>
     (\<exists>r. ge_audit_sinks g' = map (\<lambda>s. s @ [r]) (ge_audit_sinks g) \<and>
        au_decision r = (if ok then Allow else Deny) \<and> au_reason_code r = reason \<and>
        au_subject_id r = subject \<and> au_remote_trust_domain_id r = domain))"
proof (cases "admission_refusal g domain subject level evidence now")
  case None
  let ?v = "admission_event ae_federation_admitted subject domain Allow ''ok'' now"
  obtain r where "log_extends g [r] (emit_audit_event ?v g)" "au_decision r = Allow" "au_reason_code r = ''ok''"
    "au_subject_id r = subject" "au_remote_trust_domain_id r = domain"
    using log_extends_emit [of g ?v] by (auto simp: admission_event_def)
  then show ?thesis using None [unfolded admission_refusal_None]
    by (auto simp: evaluate_federation_admission_def None log_extends_def)
next
  case (Some x)
  obtain ty reason where x: "x = (ty, reason)" by (cases x)
  let ?v = "admission_event ty subject domain Deny reason now"
  obtain r where "log_extends g [r] (emit_audit_event ?v g)" "au_decision r = Deny" "au_reason_code r = reason"
    "au_subject_id r = subject" "au_remote_trust_domain_id r = domain"
    using log_extends_emit [of g ?v] by (auto simp: admission_event_def)
  then show ?thesis
    using Some x admission_refusal_None [of g domain subject level evidence now]
    by (simp add: evaluate_federation_admission_def log_extends_def) blast
qed


section \<open>What the digests protect\<close>

text \<open>The fields of fixed width.\<close>

definition fixed_fields :: "audit_record \<Rightarrow> audit_record" where
  "fixed_fields r = r\<lparr>au_resource_name := [], au_reason_code := [], au_policy_id := [], au_payload_digest := [],
     au_prev_record_digest := [], au_record_digest := []\<rparr>"

lemma outcome_byte_inj: "outcome_byte a = outcome_byte b \<longleftrightarrow> a = b"
  by (cases a; cases b) simp_all

lemma hash_input_fixed:
  assumes "record_hash_input r = record_hash_input s"
  shows "fixed_fields r = fixed_fields s"
  using assms unfolding record_hash_input_def fixed_fields_def
  by (cases r; cases s) (auto simp: outcome_byte_inj dest!: fields_prefix_free)

text \<open>A collision of SHA-256 among the records of two logs, at one place.\<close>

definition log_collision :: "audit_record list \<Rightarrow> audit_record list \<Rightarrow> bool" where
  "log_collision rs ts \<longleftrightarrow> (\<exists>i<length rs. record_hash_input (rs ! i) \<noteq> record_hash_input (ts ! i) \<and>
     compute_record_hash (rs ! i) = compute_record_hash (ts ! i))"

lemma length_record_hash [simp]: "length (compute_record_hash r) = 32"
  by (simp add: compute_record_hash_def sl_sha256_spec)

lemma same_input_same_prev:
  assumes "record_hash_input r = record_hash_input s"
    and "length (au_prev_record_digest r) = length (au_prev_record_digest s)"
  shows "au_prev_record_digest r = au_prev_record_digest s"
proof -
  obtain x y where "record_hash_input r = x @ au_prev_record_digest r" "record_hash_input s = y @ au_prev_record_digest s"
    unfolding record_hash_input_def by (metis append_assoc)
  with assms show ?thesis by simp
qed

lemma chain_prev_length:
  "chain_from n d rs \<Longrightarrow> length d = 32 \<Longrightarrow> r \<in> set rs \<Longrightarrow> length (au_prev_record_digest r) = 32"
  by (induction rs arbitrary: n d) auto

lemma chain_agree:
  assumes "chain_from n d rs" "chain_from n d ts" "length rs = length ts" "length d = 32"
    and "chain_end d rs = chain_end d ts"
  shows "map fixed_fields rs = map fixed_fields ts \<or> log_collision rs ts"
  using assms
proof (induction rs arbitrary: ts rule: rev_induct)
  case (snoc r rs)
  obtain us t where ts: "ts = us @ [t]" using snoc.prems(3) by (cases ts rule: rev_cases) auto
  have len: "length rs = length us" using snoc.prems(3) ts by simp
  have r: "chain_from n d rs" "au_prev_record_digest r = chain_end d rs" "au_record_digest r = compute_record_hash r"
    and t: "chain_from n d us" "au_prev_record_digest t = chain_end d us" "au_record_digest t = compute_record_hash t"
    using snoc.prems(1,2) by (auto simp: ts chain_from_append)
  have same: "compute_record_hash r = compute_record_hash t" using snoc.prems(5) r t by (simp add: ts)
  show ?case
  proof (cases "record_hash_input r = record_hash_input t")
    case True
    have "length (au_prev_record_digest r) = 32" "length (au_prev_record_digest t) = 32"
      using chain_prev_length [OF snoc.prems(1,4)] chain_prev_length [OF snoc.prems(2,4)] by (auto simp: ts)
    then have "chain_end d rs = chain_end d us" using same_input_same_prev [OF True] r(2) t(2) by simp
    with snoc.IH [OF r(1) t(1) len snoc.prems(4)] have "map fixed_fields rs = map fixed_fields us \<or> log_collision rs us" .
    moreover have "log_collision rs us \<Longrightarrow> log_collision (rs @ [r]) ts"
      unfolding log_collision_def ts by (metis len length_append_singleton less_SucI nth_append)
    ultimately show ?thesis using hash_input_fixed [OF True] by (auto simp: ts)
  next
    case False
    then have "log_collision (rs @ [r]) ts"
      unfolding log_collision_def by (intro exI [of _ "length rs"]) (simp add: ts same nth_append len)
    then show ?thesis ..
  qed
qed simp

text \<open>
  C39: the last digest vouches for the log. Two logs that are hash chains from the same start, have the
  same length and end with the same digest agree, record by record, in number, time, event type,
  session, subject, domains, action, decision and revisions, unless two records at one place exhibit a
  collision of SHA-256.
\<close>

theorem audit_log_tamper_evident:
  assumes "chain_from n d rs" and "chain_from n d ts" and "length rs = length ts" and "length d = 32"
    and "chain_end d rs = chain_end d ts"
  shows "map fixed_fields rs = map fixed_fields ts \<or> log_collision rs ts"
  using assms by (rule chain_agree)

text \<open>
  The text fields of a record are not protected. They enter the digest one after the other without
  their lengths: moving the end of the resource name into the reason code leaves the digest as it is,
  and a log in which a record has been altered in this way is still an intact chain.
\<close>

theorem audit_log_accepts_moved_text:
  assumes "chain_from n d (rs @ [r\<lparr>au_resource_name := a @ b, au_reason_code := c\<rparr>] @ ts)"
  shows "chain_from n d (rs @ [r\<lparr>au_resource_name := a, au_reason_code := b @ c\<rparr>] @ ts)"
proof -
  have "compute_record_hash (r\<lparr>au_resource_name := a, au_reason_code := b @ c\<rparr>) =
      compute_record_hash (r\<lparr>au_resource_name := a @ b, au_reason_code := c\<rparr>)"
    by (simp add: compute_record_hash_def record_hash_input_def bytes_of_string_def)
  with assms show ?thesis by (auto simp: chain_from_append)
qed

section \<open>Concurrent emissions\<close>

text \<open>
  Threads emit concurrently: the part under the lock is one step, each delivery to a sink another. The
  deliveries that are still to be made are kept with the engine.
\<close>

type_synonym concurrent_state = "governance_engine \<times> (nat \<times> audit_record) list"

definition deliver :: "nat \<Rightarrow> audit_record \<Rightarrow> governance_engine \<Rightarrow> governance_engine" where
  "deliver i r g = g\<lparr>ge_audit_sinks := (ge_audit_sinks g)[i := sink_record r (ge_audit_sinks g ! i)]\<rparr>"

inductive emit_step :: "concurrent_state \<Rightarrow> concurrent_state \<Rightarrow> bool" where
  locked: "emit_locked v g = (g', r) \<Longrightarrow>
     emit_step (g, todo) (g', todo @ map (\<lambda>i. (i, r)) [0..<length (ge_audit_sinks g)])"
| delivery: "emit_step (g, xs @ (i, r) # ys) (deliver i r g, xs @ ys)"

definition pending_for :: "nat \<Rightarrow> (nat \<times> audit_record) list \<Rightarrow> audit_record list" where
  "pending_for i todo = map snd (filter (\<lambda>(j, r). j = i) todo)"

lemma pending_for_broadcast: "i < n \<Longrightarrow> pending_for i (map (\<lambda>j. (j, r)) [0..<n]) = [r]"
proof -
  assume "i < n"
  then have "filter (\<lambda>j. j = i) [0..<n] = [i]" by (induction n) (auto simp: less_Suc_eq filter_empty_conv)
  then show ?thesis by (simp add: pending_for_def filter_map comp_def)
qed

definition conc_inv :: "governance_engine \<Rightarrow> concurrent_state \<Rightarrow> audit_record list \<Rightarrow> bool" where
  "conc_inv g0 st log \<longleftrightarrow> (case st of (g, todo) \<Rightarrow>
     chain_from (ge_audit_seq_counter g0) (ge_last_audit_digest g0) log \<and>
     ge_audit_seq_counter g = ge_audit_seq_counter g0 + of_nat (length log) \<and>
     ge_last_audit_digest g = chain_end (ge_last_audit_digest g0) log \<and>
     length (ge_audit_sinks g) = length (ge_audit_sinks g0) \<and>
     (\<forall>i<length (ge_audit_sinks g0).
        mset (ge_audit_sinks g ! i) + mset (pending_for i todo) = mset (ge_audit_sinks g0 ! i) + mset log))"

lemma conc_inv_step:
  assumes "emit_step st st'" and "conc_inv g0 st log"
  shows "\<exists>log'. conc_inv g0 st' log'"
  using assms
proof (induction rule: emit_step.induct)
  case (locked v g g' r todo)
  from emit_locked_chain [OF locked.hyps]
  have r: "chain_from (ge_audit_seq_counter g) (ge_last_audit_digest g) [r]"
    and g': "g' = g\<lparr>ge_audit_seq_counter := ge_audit_seq_counter g + 1, ge_last_audit_digest := au_record_digest r\<rparr>"
    by auto
  have p: "pending_for i (todo @ ys) = pending_for i todo @ pending_for i ys" for i ys
    by (simp add: pending_for_def)
  have "conc_inv g0 (g', todo @ map (\<lambda>i. (i, r)) [0..<length (ge_audit_sinks g)]) (log @ [r])"
    using locked.prems r by (auto simp: conc_inv_def g' chain_from_append p pending_for_broadcast)
  then show ?case by blast
next
  case (delivery g xs i r ys)
  have "mset (ge_audit_sinks (deliver i r g) ! j) + mset (pending_for j (xs @ ys)) =
      mset (ge_audit_sinks g ! j) + mset (pending_for j (xs @ (i, r) # ys))"
    if "j < length (ge_audit_sinks g)" for j
    using that by (cases "j = i") (simp_all add: deliver_def sink_record_def pending_for_def)
  then have "conc_inv g0 (deliver i r g, xs @ ys) log"
    using delivery by (auto simp: conc_inv_def deliver_def)
  then show ?case by blast
qed

lemma conc_inv_steps:
  assumes "emit_step\<^sup>*\<^sup>* (g0, []) st"
  shows "\<exists>log. conc_inv g0 st log"
  using assms
proof (induction rule: rtranclp_induct)
  case base
  have "conc_inv g0 (g0, []) []" by (simp add: conc_inv_def pending_for_def)
  then show ?case by blast
next
  case (step st st')
  then show ?case using conc_inv_step by blast
qed

text \<open>
  Concurrent emissions lose nothing. However emissions of several threads interleave, the records
  issued form one hash chain, and every sink holds, with the deliveries still to come, each of them
  exactly once.
\<close>

theorem concurrent_emissions_complete:
  assumes "emit_step\<^sup>*\<^sup>* (g, []) (g', todo)"
  shows "\<exists>rs. chain_from (ge_audit_seq_counter g) (ge_last_audit_digest g) rs \<and>
    ge_last_audit_digest g' = chain_end (ge_last_audit_digest g) rs \<and>
    (\<forall>i<length (ge_audit_sinks g). mset (ge_audit_sinks g' ! i) + mset (pending_for i todo) =
       mset (ge_audit_sinks g ! i) + mset rs)"
  using conc_inv_steps [OF assms] by (auto simp: conc_inv_def)

text \<open>
  The order is lost, though: a sink can receive the second of two records before the first, so that
  what it holds is not a chain.
\<close>

lemma sink_order_can_break:
  "\<exists>g' r1 r2. emit_step\<^sup>*\<^sup>* (add_audit_sink (Some []) (new_engine d pid 1 1), []) (g', []) \<and>
     ge_audit_sinks g' = [[r2, r1]] \<and> au_audit_seq r1 = 1 \<and> au_audit_seq r2 = 2 \<and>
     au_prev_record_digest r2 = au_record_digest r1"
proof -
  define g where "g = add_audit_sink (Some []) (new_engine d pid 1 1)"
  define v where "v = admission_event ae_federation_admitted 1 d Allow ''ok'' 1"
  obtain g1 r1 where 1: "emit_locked v g = (g1, r1)" by fastforce
  obtain g2 r2 where 2: "emit_locked v g1 = (g2, r2)" by fastforce
  note c1 = emit_locked_chain [OF 1] and c2 = emit_locked_chain [OF 2]
  have sinks: "ge_audit_sinks g = [[]]" "ge_audit_sinks g1 = [[]]" "ge_audit_sinks g2 = [[]]"
    using c1 c2 by (auto simp: g_def add_audit_sink_def new_engine_def)
  have "emit_step (g, []) (g1, [(0, r1)])" using emit_step.locked [OF 1, of "[]"] by (simp add: sinks)
  moreover have "emit_step (g1, [(0, r1)]) (g2, [(0, r1), (0, r2)])"
    using emit_step.locked [OF 2, of "[(0, r1)]"] by (simp add: sinks)
  moreover have "emit_step (g2, [(0, r1), (0, r2)]) (deliver 0 r2 g2, [(0, r1)])"
    using emit_step.delivery [of g2 "[(0, r1)]" 0 r2 "[]"] by simp
  moreover have "emit_step (deliver 0 r2 g2, [(0, r1)]) (deliver 0 r1 (deliver 0 r2 g2), [])"
    using emit_step.delivery [of "deliver 0 r2 g2" "[]" 0 r1 "[]"] by simp
  ultimately have "emit_step\<^sup>*\<^sup>* (g, []) (deliver 0 r1 (deliver 0 r2 g2), [])"
    by (meson rtranclp.rtrancl_into_rtrancl rtranclp.rtrancl_refl)
  moreover have "ge_audit_sinks (deliver 0 r1 (deliver 0 r2 g2)) = [[r2, r1]]"
    by (simp add: deliver_def sink_record_def sinks)
  moreover have "au_audit_seq r1 = 1" "au_audit_seq r2 = 2" "au_prev_record_digest r2 = au_record_digest r1"
    using c1 c2 by (auto simp: g_def add_audit_sink_def new_engine_def)
  ultimately show ?thesis unfolding g_def by blast
qed

end
