(* ===== verification/SL_Examples.thy ===== *)
theory SL_Examples
  imports Group_Security_Props Governance Envelope_Examples Control_Plane_Examples
begin

unbundle bit_operations_syntax

text \<open>
  Concrete inputs of the security layers: negotiated sessions, signed messages, a policy, an audit log,
  a complete handshake and a group. They show that the hypotheses of the properties can hold.
\<close>

section \<open>Endpoints, offers and sessions\<close>

definition ex_node :: "u64 \<Rightarrow> node_endpoint_identity" where
  "ex_node n = \<lparr>node_id = n, runtime_id = 2, endpoint_id = 1\<rparr>"

definition ex_offer :: "u64 \<Rightarrow> crypto_suite \<Rightarrow> security_level \<Rightarrow> negotiation_offer" where
  "ex_offer n suite level = \<lparr>no_version_major = 0, no_version_minor = 2, no_minimum_level = level,
     no_maximum_level = level, no_supported_suites = [suite], no_endpoint_id = ex_node n, no_control_epoch = 5,
     no_lease_token = 7, no_nonce = replicate 32 (ucast n)\<rparr>"

definition ex_policy :: "crypto_suite \<Rightarrow> security_level \<Rightarrow> negotiation_policy" where
  "ex_policy suite level = \<lparr>np_required_level = level, np_preferred_suites = [suite]\<rparr>"

definition ex_peer :: "u64 \<Rightarrow> authenticated_peer" where
  "ex_peer n = \<lparr>ap_endpoint = ex_node n, ap_trust_domain_id = 1, ap_subject_id = 100 + n, ap_credential_revision = 1,
     ap_authenticated_at_us = 1000, ap_credential_expires_at_us = 5000000000, ap_revoked = False\<rparr>"

lemma ex_offer_simps [simp]:
  "no_endpoint_id (ex_offer n suite level) = ex_node n" "no_supported_suites (ex_offer n suite level) = [suite]"
  "no_minimum_level (ex_offer n suite level) = level" "no_maximum_level (ex_offer n suite level) = level"
  "no_nonce (ex_offer n suite level) = replicate 32 (ucast n)" "offer_version_ok (ex_offer n suite level)"
  "node_id (ex_node n) = n"
  by (simp_all add: ex_offer_def offer_version_ok_def ex_node_def)

lemma ex_offer_valid:
  "n \<noteq> 0 \<Longrightarrow> (ucast n :: u8) \<noteq> 0 \<Longrightarrow> known_suite suite \<Longrightarrow> known_level level \<Longrightarrow> offer_is_valid (ex_offer n suite level)"
  by (simp add: offer_is_valid_def ex_offer_def ex_node_def nonce_is_nonzero_def list_ex_iff)

lemma ex_negotiate:
  assumes "a \<noteq> 0" "(ucast a :: u8) \<noteq> 0" "b \<noteq> 0" "(ucast b :: u8) \<noteq> 0" and "known_suite suite" "known_level level"
    and "suite_supports_level suite level"
  shows "negotiate (ex_offer a suite level) (ex_offer b suite level) (ex_policy suite level) =
     \<lparr>nr_status = ns_accepted, nr_required_level = level, nr_negotiated_level = level, nr_suite = suite\<rparr>"
  using assms ex_offer_valid
  by (simp add: negotiate_def Let_def policy_is_valid_def ex_policy_def suite_candidate_def contains_suite_def new_result_def)

lemma ex_transcript:
  assumes "a \<noteq> 0" "(ucast a :: u8) \<noteq> 0" "b \<noteq> 0" "(ucast b :: u8) \<noteq> 0" and "known_suite suite" "known_level level"
    and "suite_supports_level suite level"
  shows "\<exists>t. encode_negotiation_transcript (ex_offer a suite level) (ex_offer b suite level)
     \<lparr>nr_status = ns_accepted, nr_required_level = level, nr_negotiated_level = level, nr_suite = suite\<rparr> = Some t"
  using assms ex_offer_valid by (simp add: encode_negotiation_transcript_def result_accepted_def contains_suite_def)

lemma transcript_binds_negotiation_witness:
  "\<exists>t. encode_negotiation_transcript (ex_offer 1 2 3) (ex_offer 2 2 3)
       \<lparr>nr_status = ns_accepted, nr_required_level = 3, nr_negotiated_level = 3, nr_suite = 2\<rparr> = Some t \<and>
     encode_negotiation_transcript (ex_offer 1 2 3) (ex_offer 2 2 3)
       \<lparr>nr_status = ns_accepted, nr_required_level = 2, nr_negotiated_level = 3, nr_suite = 2\<rparr> \<noteq> Some t"
proof -
  obtain t where t: "encode_negotiation_transcript (ex_offer 1 2 3) (ex_offer 2 2 3)
       \<lparr>nr_status = ns_accepted, nr_required_level = 3, nr_negotiated_level = 3, nr_suite = 2\<rparr> = Some t"
    using ex_transcript [of 1 2 2 3] by (auto simp: known_suite_def known_level_def suite_supports_level_def)
  then show ?thesis using transcript_binds_negotiation [OF t, of "ex_offer 1 2 3" "ex_offer 2 2 3"
      "\<lparr>nr_status = ns_accepted, nr_required_level = 2, nr_negotiated_level = 3, nr_suite = 2\<rparr>"]
    by auto
qed

definition ex_session :: "crypto_suite \<Rightarrow> security_level \<Rightarrow> bytes \<Rightarrow> session_record" where
  "ex_session suite level t = \<lparr>sr_session_id = 9, sr_security_epoch = 1, sr_key_id = 1, sr_negotiated_level = level,
     sr_suite = suite, sr_initiator = ex_peer 1, sr_responder = ex_peer 2, sr_initiator_control_epoch = 5,
     sr_initiator_lease_token = 7, sr_responder_control_epoch = 5, sr_responder_lease_token = 7,
     sr_negotiation_transcript = t, sr_established_at_us = 1000, sr_key_activated_at_us = 1000,
     sr_expires_at_us = 5000000000, sr_state = Sess_Active\<rparr>"

lemma ex_session_active: "session_is_active_at (ex_session suite level t) 2000"
  by (simp add: session_is_active_at_def ex_session_def peer_is_valid_at_def ex_peer_def ex_node_def)

definition ex_registry :: session_registry where
  "ex_registry = fst (establish [] (ex_offer 1 1 2) (ex_offer 2 1 2) (ex_policy 1 2)
     \<lparr>nr_status = ns_accepted, nr_required_level = 2, nr_negotiated_level = 2, nr_suite = 1\<rparr>
     (ex_peer 1) (ex_peer 2) 9 1 1 1000 5000000000)"

lemma ex_registered: "\<exists>t. get_session ex_registry 9 = Some (ex_session 1 2 t)"
proof -
  have k: "known_suite 1" "known_level 2" "suite_supports_level 1 2"
    by (simp_all add: known_suite_def known_level_def suite_supports_level_def)
  obtain t where t: "encode_negotiation_transcript (ex_offer 1 1 2) (ex_offer 2 1 2)
       \<lparr>nr_status = ns_accepted, nr_required_level = 2, nr_negotiated_level = 2, nr_suite = 1\<rparr> = Some t"
    using ex_transcript [of 1 2 1 2] k by auto
  have n: "negotiate (ex_offer 1 1 2) (ex_offer 2 1 2) (ex_policy 1 2) =
     \<lparr>nr_status = ns_accepted, nr_required_level = 2, nr_negotiated_level = 2, nr_suite = 1\<rparr>"
    using k by (intro ex_negotiate) simp_all
  have v: "offer_is_valid (ex_offer 1 1 2)" "offer_is_valid (ex_offer 2 1 2)" using ex_offer_valid k by simp_all
  have p: "peer_is_valid_at (ex_peer 1) 1000" "peer_is_valid_at (ex_peer 2) 1000"
    by (simp_all add: peer_is_valid_at_def ex_peer_def ex_node_def)
  have "no_control_epoch (ex_offer m s l) = 5" "no_lease_token (ex_offer m s l) = 7" for m s l
    by (simp_all add: ex_offer_def)
  moreover have "ap_endpoint (ex_peer m) = ex_node m" "ap_credential_expires_at_us (ex_peer m) = 5000000000" for m
    by (simp_all add: ex_peer_def)
  ultimately show ?thesis
    unfolding ex_registry_def establish_def Let_def n
    by (simp add: t v p get_session_def result_accepted_def ex_session_def)
qed

lemma registered_sessions_negotiated_witness:
  "\<exists>s. get_session ex_registry 9 = Some s \<and> sr_suite s = 1 \<and> suite_supports_level (sr_suite s) (sr_negotiated_level s) \<and>
     sr_expires_at_us s \<le> ap_credential_expires_at_us (sr_initiator s)"
proof -
  have "registry_reachable ex_registry"
    unfolding ex_registry_def by (rule registry_reachable.step [OF registry_reachable.empty registry_step.establish])
  moreover obtain t where t: "get_session ex_registry 9 = Some (ex_session 1 2 t)" using ex_registered by blast
  ultimately have "suite_supports_level (sr_suite (ex_session 1 2 t)) (sr_negotiated_level (ex_session 1 2 t)) \<and>
      sr_expires_at_us (ex_session 1 2 t) \<le> ap_credential_expires_at_us (sr_initiator (ex_session 1 2 t))"
    using registered_sessions_negotiated [of ex_registry 9 "ex_session 1 2 t"] by blast
  with t show ?thesis by (intro exI [of _ "ex_session 1 2 t"]) (simp add: ex_session_def)
qed

section \<open>Signed messages\<close>

definition ex_sl1 :: session_record where
  "ex_sl1 = ex_session 1 2 []"

lemma ex_sl1_simps [simp]:
  "sr_suite ex_sl1 = 1" "sr_negotiated_level ex_sl1 = 2" "session_is_active_at ex_sl1 2000"
  by (simp_all add: ex_sl1_def ex_session_active) (simp_all add: ex_session_def)

lemma ex_common_valid: "common_is_valid (common_binding_of ex_sl1 dir_initiator 2 sa_execute (sl_sha256 p))"
  by (simp add: common_is_valid_def common_binding_of_def extract_session_identity_def session_identity_is_valid_def
      ex_sl1_def ex_session_def ex_peer_def ex_node_def known_direction_def known_level_def known_action_def valid_digest_def)

lemma ex_event_signed:
  "\<exists>tag. sign_event ex_sl1 [7] dir_initiator 2 sa_execute ex_event [1] f h = Some tag"
proof -
  let ?b = "data_binding_of ex_sl1 dir_initiator 2 sa_execute dm_event (evt_stream ex_event) (evt_event_seq ex_event)
    (ucast f) h (sl_sha256 [1])"
  have v: "data_binding_is_valid ?b"
    using ex_common_valid [of "[1]"] by (simp add: data_binding_is_valid_def data_binding_of_def ex_event_def stream_is_valid_def)
  then obtain inp where "encode_data_input ?b = Some inp" "inp \<noteq> []"
    by (auto simp: encode_data_input_def append_prefix_def bytes_of_string_def)
  with v show ?thesis
    by (simp add: sign_event_def sign_data_def compute_sha256_digest_def Let_def sign_input_iff)
qed

lemma ex_event_verifies:
  assumes "sign_event ex_sl1 [7] dir_initiator 2 sa_execute ex_event [1] f False = Some tag"
  shows "verifies ex_sl1 [7] dir_initiator 2 sa_execute (Sl_Event ex_event [1] f False) tag new_window new_tracker 2000"
proof -
  have "snd (check_and_advance new_tracker (evt_event_seq ex_event) f False)"
    by (simp add: check_and_advance_def ex_event_def new_tracker_def)
  with assms show ?thesis
    by (cases "check_and_advance new_tracker (evt_event_seq ex_event) f False")
      (simp add: verify_event_def sign_event_def sign_verify_data session_refuses_def)
qed


definition ex_last_event :: event_envelope where
  "ex_last_event = ex_event\<lparr>evt_event_seq := - 1\<rparr>"

lemma forged_event_blocks_stream_witness:
  "\<exists>t. verify_event ex_sl1 [7] dir_initiator 2 sa_execute ex_last_event [1] 0 False [] new_tracker 2000 = (t, Signature_Invalid) \<and>
     (\<exists>tag. sign_event ex_sl1 [7] dir_initiator 2 sa_execute ex_event [1] 0 False = Some tag \<and>
       snd (verify_event ex_sl1 [7] dir_initiator 2 sa_execute ex_event [1] 0 False tag t 2000) \<noteq> Verify_Ok)"
proof -
  let ?t = "new_tracker\<lparr>st_last_event_seq := - 1, st_last_fragment_seq := 0, st_has_started := True\<rparr>"
  have c: "check_and_advance new_tracker (evt_event_seq ex_last_event) 0 False = (?t, True)"
    by (simp add: check_and_advance_def ex_last_event_def new_tracker_def)
  let ?b = "data_binding_of ex_sl1 dir_initiator 2 sa_execute dm_event (evt_stream ex_last_event) (evt_event_seq ex_last_event)
    0 False (sl_sha256 [1])"
  have v: "data_binding_is_valid ?b"
    using ex_common_valid [of "[1]"]
    by (simp add: data_binding_is_valid_def data_binding_of_def ex_last_event_def ex_event_def stream_is_valid_def)
  then obtain inp where "encode_data_input ?b = Some inp" "inp \<noteq> []"
    by (auto simp: encode_data_input_def append_prefix_def bytes_of_string_def)
  then have "verify_input ex_sl1 [7] (encode_data_input ?b) [] = Signature_Invalid"
    by (simp add: verify_input_def create_authenticator_def auth_verify_def hmac_sha256_authenticator_def)
  then have f: "verify_event ex_sl1 [7] dir_initiator 2 sa_execute ex_last_event [1] 0 False [] new_tracker 2000 =
      (?t, Signature_Invalid)"
    using v c by (simp add: verify_event_def verify_data_def session_refuses_def compute_sha256_digest_def Let_def)
  moreover have "snd (verify_event ex_sl1 [7] dir_initiator 2 sa_execute ex_event [1] 0 False tag ?t 2000) \<noteq> Verify_Ok" for tag
    by (rule forged_event_blocks_stream [OF f]) (simp add: ex_last_event_def)
  ultimately show ?thesis using ex_event_signed [of 0 False] by blast
qed

text \<open>A heartbeat of an endpoint, and two like it.\<close>

definition ex_sl_datagram :: "u64 \<Rightarrow> udp_control_datagram" where
  "ex_sl_datagram n = ex_hello\<lparr>dg_message_type := cm_heartbeat, dg_endpoint_id := 1, dg_control_seq := n\<rparr>"

definition ex_datagram_tag :: "u64 \<Rightarrow> bytes" where
  "ex_datagram_tag n = the (sign_control_datagram ex_sl1 [7] dir_initiator 2 sa_report_liveness (ex_sl_datagram n))"

definition ex_receipt :: "u64 \<Rightarrow> datagram_receipt" where
  "ex_receipt n = (ex_sl1, [7], dir_initiator, 2, sa_report_liveness, ex_sl_datagram n, ex_datagram_tag n, 2000)"

lemma ex_datagram_signed:
  assumes "n \<noteq> 0"
  shows "sign_control_datagram ex_sl1 [7] dir_initiator 2 sa_report_liveness (ex_sl_datagram n) = Some (ex_datagram_tag n)"
proof -
  let ?b = "control_binding_of ex_sl1 dir_initiator 2 sa_report_liveness (ex_sl_datagram n)
    (sl_sha256 (encode_control_datagram (ex_sl_datagram n)))"
  have v: "control_binding_is_valid ?b"
    using assms
    by (simp add: control_binding_is_valid_def control_binding_of_def common_is_valid_def common_binding_of_def
      extract_session_identity_def session_identity_is_valid_def ex_sl1_def ex_session_def ex_peer_def ex_node_def
      known_direction_def known_level_def known_action_def valid_digest_def ex_sl_datagram_def ex_hello_def)
  then obtain inp where "encode_control_input ?b = Some inp" "inp \<noteq> []"
    by (auto simp: encode_control_input_def append_prefix_def bytes_of_string_def)
  with v have "\<exists>tag. sign_control_datagram ex_sl1 [7] dir_initiator 2 sa_report_liveness (ex_sl_datagram n) = Some tag"
    by (simp add: sign_control_datagram_def compute_sha256_digest_def Let_def sign_input_iff)
  then show ?thesis by (auto simp: ex_datagram_tag_def)
qed

lemma ex_datagram_verifies:
  assumes "n \<noteq> 0" and "window_check w n = Accepted_Seq"
  shows "verify_control_datagram ex_sl1 [7] dir_initiator 2 sa_report_liveness (ex_sl_datagram n) (ex_datagram_tag n) w 2000 =
     (fst (check_and_update w n), Verify_Ok)"
proof -
  have "dg_control_seq (ex_sl_datagram n) = n" by (simp add: ex_sl_datagram_def)
  moreover from this have "snd (verify_control_datagram ex_sl1 [7] dir_initiator 2 sa_report_liveness (ex_sl_datagram n)
      (ex_datagram_tag n) w 2000) = Verify_Ok"
    using assms ex_datagram_signed by (simp add: datagram_verify_ok_iff session_refuses_def)
  ultimately show ?thesis
    using datagram_verify_window [of ex_sl1 "[7]" dir_initiator 2 sa_report_liveness "ex_sl_datagram n" "ex_datagram_tag n" w 2000]
    by (metis prod.collapse)
qed

lemma datagrams_accepted_once_witness:
  "receive_datagrams new_window [ex_receipt 5, ex_receipt 3] = [Verify_Ok, Verify_Ok] \<and>
     receipt_seq (ex_receipt 5) \<noteq> receipt_seq (ex_receipt 3)"
proof -
  have "receive_datagrams new_window [ex_receipt 5, ex_receipt 3] = [Verify_Ok, Verify_Ok]"
    by (simp add: ex_receipt_def ex_datagram_verifies check_and_update_def window_check_def window_update_def
        new_window_def window_bit_def set_window_bit_def Let_def)
  then show ?thesis using datagrams_accepted_once [of 0 1 "[ex_receipt 5, ex_receipt 3]"] by simp
qed

section \<open>Authorization\<close>

text \<open>A subject that may generate with one model, up to 64 tokens, and a role that halves that and forbids reasoning.\<close>

definition ex_authorizer :: policy_authorizer where
  "ex_authorizer = add_role_policy \<lparr>rlp_trust_domain_id = 1, rlp_role_name = ''guest'', rlp_capabilities = cap_stream_output,
       rlp_allowed_resources = [], rlp_constraints = no_constraints\<lparr>ec_max_allowed_tokens := 32,
         ec_max_allowed_temperature := 0x3F800000, ec_disallow_reasoning := True\<rparr>\<rparr>
     (add_subject_policy \<lparr>sbp_trust_domain_id = 1, sbp_subject_id = 7, sbp_capabilities = cap_generate,
       sbp_allowed_resources = [\<lparr>res_kind = Rk_Model, res_name = ''m''\<rparr>],
       sbp_constraints = no_constraints\<lparr>ec_max_allowed_tokens := 64\<rparr>\<rparr> new_authorizer)"

definition ex_access :: "u32 \<Rightarrow> authorization_request" where
  "ex_access tokens = \<lparr>ar_trust_domain_id = 1, ar_subject_id = 7, ar_roles = [''guest'', ''nobody''],
     ar_action = sa_execute, ar_resource = \<lparr>res_kind = Rk_Model, res_name = ''m''\<rparr>, ar_profile = rp_generate,
     ar_requested_tokens = tokens, ar_requested_temperature = 0x3F000000, ar_streaming_requested = True,
     ar_reasoning_requested = False, ar_tool_name = []\<rparr>"

lemma ex_temperatures:
  "f32_lt f32_zero 0x3F800000" "\<not> f32_lt 0x3F800000 0x3F000000" "f32_le f32_zero 0" "f32_isfinite 0x3F000000"
  "f32_eq f32_zero 0"
  by (simp_all add: f32_isfinite_def f32_isinf_def f32_lt_def f32_le_def f32_eq_def f32_isnan_def f32_rank_def f32_magnitude_def)

lemma ex_access_simps [simp]:
  "ar_trust_domain_id (ex_access n) = 1" "ar_subject_id (ex_access n) = 7" "ar_roles (ex_access n) = [''guest'', ''nobody'']"
  "ar_action (ex_access n) = sa_execute" "ar_resource (ex_access n) = \<lparr>res_kind = Rk_Model, res_name = ''m''\<rparr>"
  "ar_profile (ex_access n) = rp_generate" "ar_requested_tokens (ex_access n) = n"
  "ar_requested_temperature (ex_access n) = 0x3F000000" "ar_streaming_requested (ex_access n)"
  "\<not> ar_reasoning_requested (ex_access n)"
  by (simp_all add: ex_access_def)

definition ex_role_limits :: execution_constraints where
  "ex_role_limits = no_constraints\<lparr>ec_max_allowed_tokens := 32, ec_max_allowed_temperature := 0x3F800000,
     ec_disallow_reasoning := True\<rparr>"

lemma ex_held:
  "held_subject ex_authorizer (ex_access n) = [(cap_generate, [\<lparr>res_kind = Rk_Model, res_name = ''m''\<rparr>],
     no_constraints\<lparr>ec_max_allowed_tokens := 64\<rparr>)]"
  "held_roles ex_authorizer 1 [''guest'', ''nobody''] = [(cap_stream_output, [], ex_role_limits)]"
  by (simp_all add: held_subject_def ex_authorizer_def add_role_policy_def new_authorizer_def add_subject_policy_def
      ex_role_limits_def)

lemma ex_limits:
  "effective_limits ex_authorizer (ex_access n) = \<lparr>ec_max_allowed_tokens = 32, ec_max_allowed_temperature = 0x3F800000,
     ec_disallow_streaming = False, ec_disallow_reasoning = True\<rparr>"
  unfolding effective_limits_def ex_held ex_access_simps
  by (simp add: limits_over_def combine_constraints_def Let_def no_constraints_def ex_temperatures ex_role_limits_def)

lemma ex_caps: "bit (with_options (ex_access n) cap_generate) i \<Longrightarrow> bit cap_generate i \<or> bit cap_stream_output i"
  unfolding with_options_def Let_def ex_access_simps by (simp only: bit_or_iff if_True if_False ex_access_simps)

lemma ex_access_allowed: "is_allowed (authorize ex_authorizer (ex_access 32))"
proof -
  have "action_capability (ex_access 32) = Inr cap_generate" by (simp add: action_capability_def)
  moreover have "ep_policy_found (effective ex_authorizer (ex_access 32))"
    unfolding effective_held held_policies_def ex_access_simps ex_held by simp
  moreover have "policy_refuses (effective ex_authorizer (ex_access 32)) (with_options (ex_access 32) cap_generate) (ex_access 32) = None"
  proof -
    have "has_capability (ep_caps (effective ex_authorizer (ex_access 32))) (with_options (ex_access 32) cap_generate)"
      unfolding has_capability_iff effective_held held_policies_def ex_access_simps ex_held using ex_caps [of 32] by auto
    moreover have "list_ex (\<lambda>allowed. resource_matches allowed (ar_resource (ex_access 32))) (ep_resources (effective ex_authorizer (ex_access 32)))"
      unfolding effective_held held_policies_def ex_access_simps ex_held by (simp add: resource_matches_def)
    ultimately show ?thesis
      by (simp add: policy_refuses_def Let_def effective_constraints ex_limits ex_temperatures)
  qed
  ultimately show ?thesis by (simp add: authorize_def Let_def is_allowed_def)
qed

lemma authorize_exact_witness:
  "is_allowed (authorize ex_authorizer (ex_access 32)) \<and> \<not> is_allowed (authorize ex_authorizer (ex_access 33)) \<and>
     within_limits (effective_limits ex_authorizer (ex_access 32)) (ex_access 32)"
proof -
  have "\<not> within_limits (effective_limits ex_authorizer (ex_access 33)) (ex_access 33)"
    by (simp add: within_limits_def ex_limits)
  then show ?thesis
    using ex_access_allowed authorize_exact [of ex_authorizer "ex_access 32"] authorize_exact [of ex_authorizer "ex_access 33"]
    by blast
qed

lemma ex_role_held:
  "(cap_stream_output, [], ex_role_limits) \<in> set (held_policies ex_authorizer (ex_access 32))"
  unfolding held_policies_def ex_access_simps ex_held by simp

lemma every_policy_limits_witness:
  "is_allowed (authorize ex_authorizer (ex_access 32)) \<and> ar_requested_tokens (ex_access 32) \<le> 32 \<and>
     f32_le 0x3F000000 0x3F800000"
proof -
  have "\<forall>(caps, res, s)\<in>set (held_subject ex_authorizer (ex_access 32)). f32_le f32_zero (ec_max_allowed_temperature s)"
    by (simp add: ex_held no_constraints_def ex_temperatures)
  then show ?thesis
    using ex_access_allowed every_policy_limits [OF ex_access_allowed ex_role_held]
    by (simp add: ex_temperatures ex_role_limits_def)
qed

section \<open>Governance\<close>

definition ex_audit_event :: "u64 \<Rightarrow> audit_event" where
  "ex_audit_event n = \<lparr>av_type = ae_session_established, av_session_id = n, av_subject_id = 7,
     av_remote_trust_domain_id = 1, av_action = sa_execute, av_resource_name = ''m'', av_decision = Allow,
     av_reason_code = ''ok'', av_payload_digest = [], av_now_us = n\<rparr>"

definition ex_engine :: governance_engine where
  "ex_engine = add_audit_sink (Some []) (add_audit_sink (Some []) (new_engine 1 ''p'' 1 1))"

text \<open>One record, with the texts of its resource and reason.\<close>

definition ex_entry :: "string \<Rightarrow> string \<Rightarrow> audit_record" where
  "ex_entry resource reason = snd (emit_locked ((ex_audit_event 1)\<lparr>av_resource_name := resource, av_reason_code := reason\<rparr>) ex_engine)"

lemma ex_entry_chain: "chain_from 0 (replicate 32 0) [ex_entry a c]"
proof -
  obtain g where "emit_locked ((ex_audit_event 1)\<lparr>av_resource_name := a, av_reason_code := c\<rparr>) ex_engine = (g, ex_entry a c)"
    by (metis ex_entry_def prod.collapse)
  from emit_locked_chain [OF this] show ?thesis by (simp add: ex_engine_def add_audit_sink_def new_engine_def)
qed

lemma ex_entry_moved: "record_hash_input (ex_entry ''ab'' ''c'') = record_hash_input (ex_entry ''a'' ''bc'')"
  by (simp add: ex_entry_def emit_locked_def Let_def ex_audit_event_def record_hash_input_def bytes_of_string_def)

lemma audit_log_tamper_evident_witness:
  "chain_from 0 (replicate 32 0) [ex_entry ''ab'' ''c''] \<and> chain_from 0 (replicate 32 0) [ex_entry ''a'' ''bc''] \<and>
     chain_end (replicate 32 0) [ex_entry ''ab'' ''c''] = chain_end (replicate 32 0) [ex_entry ''a'' ''bc''] \<and>
     map fixed_fields [ex_entry ''ab'' ''c''] = map fixed_fields [ex_entry ''a'' ''bc'']"
proof -
  note c = ex_entry_chain [of "''ab''" "''c''"] ex_entry_chain [of "''a''" "''bc''"]
  have e: "chain_end (replicate 32 0) [ex_entry ''ab'' ''c''] = chain_end (replicate 32 0) [ex_entry ''a'' ''bc'']"
    using c ex_entry_moved by (simp add: compute_record_hash_def)
  have "\<not> log_collision [ex_entry ''ab'' ''c''] [ex_entry ''a'' ''bc'']" using ex_entry_moved by (simp add: log_collision_def)
  then show ?thesis using audit_log_tamper_evident [OF c _ _ e] c e by simp
qed

lemma admission_exact_and_audited_witness:
  "fst (snd (evaluate_federation_admission 2 7 sl3_authorized None 100
       (add_federated_domain 2 (set_trust_boundary_profile Dmz_Gateway ex_engine)))) \<and>
   \<not> fst (snd (evaluate_federation_admission 3 7 sl3_authorized None 100
       (add_federated_domain 2 (set_trust_boundary_profile Dmz_Gateway ex_engine))))"
proof -
  let ?g = "add_federated_domain 2 (set_trust_boundary_profile Dmz_Gateway ex_engine)"
  have g: "ge_profile ?g = Dmz_Gateway" "ge_local_trust_domain_id ?g = 1" "is_federated_domain d ?g \<longleftrightarrow> d = 2" for d
    by (simp_all add: add_federated_domain_def set_trust_boundary_profile_def ex_engine_def add_audit_sink_def new_engine_def
        is_federated_domain_def)
  show ?thesis
    using admission_exact_and_audited [where domain = 2 and subject = 7 and level = sl3_authorized and evidence = None and now = 100 and g = ?g]
      admission_exact_and_audited [where domain = 3 and subject = 7 and level = sl3_authorized and evidence = None and now = 100 and g = ?g]
    by (simp add: g split: prod.splits)
qed
lemma concurrent_emissions_complete_witness:
  "\<exists>g r. emit_step\<^sup>*\<^sup>* (ex_engine, []) (g, [(1, r)]) \<and> ge_audit_sinks g = [[r], []] \<and>
     (\<exists>rs. chain_from 0 (replicate 32 0) rs \<and> mset [] + mset [r] = mset rs)"
proof -
  obtain g r where e: "emit_locked (ex_audit_event 1) ex_engine = (g, r)" by fastforce
  have i: "ge_audit_seq_counter ex_engine = 0" "ge_last_audit_digest ex_engine = replicate 32 0" "ge_audit_sinks ex_engine = [[], []]"
    by (simp_all add: ex_engine_def add_audit_sink_def new_engine_def)
  have s: "ge_audit_sinks g = [[], []]" using emit_locked_chain [OF e] i by simp
  have "emit_step (ex_engine, []) (g, [] @ (0, r) # [(1, r)])"
    using emit_step.locked [OF e, of "[]"] i by (simp add: upt_rec)
  moreover have "emit_step (g, [] @ (0, r) # [(1, r)]) (deliver 0 r g, [] @ [(1, r)])" by (rule emit_step.delivery)
  ultimately have run: "emit_step\<^sup>*\<^sup>* (ex_engine, []) (deliver 0 r g, [(1, r)])" by simp
  have d: "ge_audit_sinks (deliver 0 r g) = [[r], []]" by (simp add: deliver_def s sink_record_def)
  from concurrent_emissions_complete [OF run] obtain rs where "chain_from 0 (replicate 32 0) rs"
    "\<forall>j<length (ge_audit_sinks ex_engine). mset (ge_audit_sinks (deliver 0 r g) ! j) + mset (pending_for j [(1, r)]) =
       mset (ge_audit_sinks ex_engine ! j) + mset rs"
    unfolding i(1,2) by blast
  from this(1) this(2) [rule_format, of 1] have "chain_from 0 (replicate 32 0) rs \<and> mset [] + mset [r] = mset rs"
    by (simp add: d i pending_for_def)
  with run d show ?thesis by blast
qed

section \<open>The handshake\<close>

text \<open>An OpenSSL of constants that meets the assumptions on it, and two endpoints.\<close>

definition ex_openssl :: "unit openssl" where
  "ex_openssl = \<lparr>ssl_x25519_keygen = \<lambda>w. (w, Some (replicate 32 1, replicate 32 1)),
     ssl_ed25519_keygen = \<lambda>w. (w, Some (replicate 32 1, replicate 32 1)),
     ssl_x25519_derive = \<lambda>a b. Some (replicate 32 7), ssl_ed25519_sign = \<lambda>k m. Some (replicate 64 0),
     ssl_ed25519_verify = \<lambda>k m s. True, ssl_hkdf_extract = \<lambda>s i. Some (replicate 32 0),
     ssl_hkdf_expand = \<lambda>p i n. Some (replicate n 0), ssl_aead_encrypt = \<lambda>c k n a p. None,
     ssl_aead_decrypt = \<lambda>c k n a p t. None\<rparr>"

definition ex_verifier :: "u64 \<Rightarrow> identity_verifier" where
  "ex_verifier n = (\<lambda>offer transcript pub now. Some (ex_peer n))"

definition ex_keys :: "bytes \<times> bytes" where
  "ex_keys = (replicate 32 3, replicate 32 4)"

lemma ex_openssl_works: "openssl_works ex_openssl"
proof -
  have "fold (\<lambda>b mask. mask OR b) (replicate 32 7) (0 :: u8) \<noteq> 0" by code_simp
  then show ?thesis
    by (simp add: openssl_works_def dh_agrees_def signing_works_def hkdf_works_def ex_openssl_def)
qed

lemma ex_honest:
  "n \<noteq> 0 \<Longrightarrow> (ucast n :: u8) \<noteq> 0 \<Longrightarrow> honest_party ex_openssl (ex_offer n 2 3) (1, 7) ex_keys ()"
  using ex_offer_valid [of n 2 3]
  by (simp add: honest_party_def offer_ok_def ex_keys_def signs_for_def ex_openssl_def known_suite_def known_level_def)

lemma ex_vouches: "n \<noteq> 0 \<Longrightarrow> 100 + n \<noteq> 0 \<Longrightarrow> vouches (ex_verifier n) (ex_offer n 2 3) t pub (ex_peer n)"
  by (simp add: vouches_def ex_verifier_def peer_is_valid_at_def) (simp add: ex_peer_def ex_node_def)

definition ex_handshake_id :: u64 where
  "ex_handshake_id = 1 XOR push_bit 16 2 XOR 0x5122"

abbreviation (input) ex_run :: "handshake_session \<times> handshake_session \<times> session_record option \<times> session_record option" where
  "ex_run \<equiv> run_handshake ex_openssl (ex_verifier 2) (ex_verifier 1) () () [] [] (ex_policy 2 3)
     (ex_offer 1 2 3) (1, 7) ex_keys (ex_offer 2 2 3) (1, 7) ex_keys"

lemma ex_sl2_negotiated:
  "negotiate (ex_offer 1 2 3) (ex_offer 2 2 3) (ex_policy 2 3) =
     \<lparr>nr_status = ns_accepted, nr_required_level = 3, nr_negotiated_level = 3, nr_suite = 2\<rparr>"
  "policy_is_valid (ex_policy 2 3)"
  by (rule ex_negotiate; simp add: known_suite_def known_level_def suite_supports_level_def)
    (simp add: policy_is_valid_def ex_policy_def known_suite_def known_level_def)

lemma ex_sl2_transcript:
  "\<exists>t. encode_negotiation_transcript (ex_offer 1 2 3) (ex_offer 2 2 3)
     \<lparr>nr_status = ns_accepted, nr_required_level = 3, nr_negotiated_level = 3, nr_suite = 2\<rparr> = Some t"
  by (rule ex_transcript) (simp_all add: known_suite_def known_level_def suite_supports_level_def)

lemma ex_run_hypotheses:
  obtains t where "honest_party ex_openssl (ex_offer 1 2 3) (1, 7) ex_keys ()" "honest_party ex_openssl (ex_offer 2 2 3) (1, 7) ex_keys ()"
    "policy_is_valid (ex_policy 2 3)" "result_accepted (negotiate (ex_offer 1 2 3) (ex_offer 2 2 3) (ex_policy 2 3))"
    "encode_negotiation_transcript (ex_offer 1 2 3) (ex_offer 2 2 3)
       (negotiate (ex_offer 1 2 3) (ex_offer 2 2 3) (ex_policy 2 3)) = Some t"
    "vouches (ex_verifier 1) (ex_offer 1 2 3) t (snd ex_keys) (ex_peer 1)"
    "vouches (ex_verifier 2) (ex_offer 2 2 3) t (snd ex_keys) (ex_peer 2)"
    "ex_handshake_id = node_id (no_endpoint_id (ex_offer 1 2 3)) XOR
       push_bit 16 (node_id (no_endpoint_id (ex_offer 2 2 3))) XOR 0x5122" "ex_handshake_id \<noteq> 0"
proof -
  obtain t where "encode_negotiation_transcript (ex_offer 1 2 3) (ex_offer 2 2 3)
     (negotiate (ex_offer 1 2 3) (ex_offer 2 2 3) (ex_policy 2 3)) = Some t"
    using ex_sl2_transcript ex_sl2_negotiated(1) by metis
  moreover have "result_accepted (negotiate (ex_offer 1 2 3) (ex_offer 2 2 3) (ex_policy 2 3))"
    by (simp add: ex_sl2_negotiated result_accepted_def)
  moreover have "honest_party ex_openssl (ex_offer 1 2 3) (1, 7) ex_keys ()" "honest_party ex_openssl (ex_offer 2 2 3) (1, 7) ex_keys ()"
    by (rule ex_honest; simp)+
  moreover have "vouches (ex_verifier 1) (ex_offer 1 2 3) t (snd ex_keys) (ex_peer 1)"
    "vouches (ex_verifier 2) (ex_offer 2 2 3) t (snd ex_keys) (ex_peer 2)" for t
    by (rule ex_vouches; simp)+
  moreover have "ex_handshake_id = node_id (no_endpoint_id (ex_offer 1 2 3)) XOR
      push_bit 16 (node_id (no_endpoint_id (ex_offer 2 2 3))) XOR 0x5122" "ex_handshake_id \<noteq> 0"
    by (simp_all add: ex_handshake_id_def)
  ultimately show thesis using ex_sl2_negotiated(2) by (intro that)
qed


lemma ex_run_completes: "\<exists>i r a b. ex_run = (i, r, Some a, Some b)"
proof -
  obtain t where h: "honest_party ex_openssl (ex_offer 1 2 3) (1, 7) ex_keys ()" "honest_party ex_openssl (ex_offer 2 2 3) (1, 7) ex_keys ()"
    "policy_is_valid (ex_policy 2 3)" "result_accepted (negotiate (ex_offer 1 2 3) (ex_offer 2 2 3) (ex_policy 2 3))"
    "encode_negotiation_transcript (ex_offer 1 2 3) (ex_offer 2 2 3)
       (negotiate (ex_offer 1 2 3) (ex_offer 2 2 3) (ex_policy 2 3)) = Some t"
    "vouches (ex_verifier 1) (ex_offer 1 2 3) t (snd ex_keys) (ex_peer 1)"
    "vouches (ex_verifier 2) (ex_offer 2 2 3) t (snd ex_keys) (ex_peer 2)"
    and id: "ex_handshake_id = node_id (no_endpoint_id (ex_offer 1 2 3)) XOR
       push_bit 16 (node_id (no_endpoint_id (ex_offer 2 2 3))) XOR 0x5122" "ex_handshake_id \<noteq> 0"
    by (rule ex_run_hypotheses)
  from honest_run [OF ex_openssl_works h, of "[]" "[]"] id
  show ?thesis by auto
qed

lemma server_hello_silent:
  "initiator_process_server_hello ssl auth s f = (s', None) \<Longrightarrow> hs_state s' = Hs_Failed"
  unfolding initiator_process_server_hello_def Let_def
  by (auto split: if_splits option.splits prod.splits bool.splits)

lemma finished_messages_agree_witness:
  "\<exists>i i' i'' r r' f2 f3 f4 mi mr out_i out_r. initiator_process_server_hello ex_openssl (ex_verifier 2) i f2 = (i', Some f3) \<and>
     responder_process_client_finished [] r f3 = (mr, r', f4, Some out_r) \<and>
     initiator_process_server_finished [] i' f4 = (mi, i'', Some out_i) \<and>
     same_or_collision (sk_responder_finished_key (hs_keys i')) (hs_h3 i') (sk_responder_finished_key (hs_keys r')) (hs_h3 r')"
proof -
  obtain i i' i'' r r' f2 f3 f4 mi mr a b where run:
    "initiator_process_server_hello ex_openssl (ex_verifier 2) i f2 = (i', f3)"
    "responder_process_client_finished [] r (the f3) = (mr, r', f4, Some b)"
    "initiator_process_server_finished [] i' f4 = (mi, i'', Some a)"
    using ex_run_completes unfolding run_handshake_def Let_def by (auto split: prod.splits)
  have "hs_state i' \<noteq> Hs_Failed" using run(3) by (auto simp: initiator_process_server_finished_def)
  then obtain f where "f3 = Some f" using run(1) server_hello_silent [of ex_openssl "ex_verifier 2" i f2 i'] by (cases f3) auto
  with run have "initiator_process_server_hello ex_openssl (ex_verifier 2) i f2 = (i', Some f)"
    "responder_process_client_finished [] r f = (mr, r', f4, Some b)" by simp_all
  with run(3) finished_messages_agree [OF this run(3)] show ?thesis by blast
qed

lemma handshake_one_way_witness:
  "(handshake_step ex_openssl (ex_verifier 2))\<^sup>*\<^sup>* (new_handshake Role_Initiator) (abort (new_handshake Role_Initiator)) \<and>
     secrets_wiped (abort (new_handshake Role_Initiator))"
proof -
  have "handshake_step ex_openssl (ex_verifier 2) (new_handshake Role_Initiator)
      (fst (initiator_process_server_hello ex_openssl (ex_verifier 2) (new_handshake Role_Initiator) []))"
    by (rule handshake_step.server_hello)
  then have "(handshake_step ex_openssl (ex_verifier 2))\<^sup>*\<^sup>* (new_handshake Role_Initiator) (abort (new_handshake Role_Initiator))"
    by (simp add: initiator_process_server_hello_def new_handshake_def)
  then show ?thesis using handshake_one_way [OF _ rtranclp.rtrancl_refl] by fastforce
qed

definition ex_negotiated :: handshake_session where
  "ex_negotiated = (new_handshake Role_Responder)\<lparr>hs_client_offer := ex_offer 1 2 3, hs_server_offer := ex_offer 2 2 3,
     hs_neg_result := \<lparr>nr_status = ns_accepted, nr_required_level = 3, nr_negotiated_level = 3, nr_suite = 2\<rparr>\<rparr>"

lemma ex_handshake_registered:
  "\<exists>m out. register_session [] ex_negotiated (ex_peer 1) (ex_peer 2) = (m, Some out)"
proof -
  obtain t where t: "encode_negotiation_transcript (ex_offer 1 2 3) (ex_offer 2 2 3)
     \<lparr>nr_status = ns_accepted, nr_required_level = 3, nr_negotiated_level = 3, nr_suite = 2\<rparr> = Some t"
    using ex_sl2_transcript by blast
  have k: "handshake_session_id ex_negotiated = ex_handshake_id" "ex_handshake_id \<noteq> 0"
    by (simp_all add: handshake_session_id_def ex_negotiated_def ex_handshake_id_def)
  have f: "hs_client_offer ex_negotiated = ex_offer 1 2 3" "hs_server_offer ex_negotiated = ex_offer 2 2 3"
    "hs_neg_result ex_negotiated = \<lparr>nr_status = ns_accepted, nr_required_level = 3, nr_negotiated_level = 3, nr_suite = 2\<rparr>"
    by (simp_all add: ex_negotiated_def)
  have v: "offer_is_valid (ex_offer 1 2 3)" "offer_is_valid (ex_offer 2 2 3)"
    using ex_offer_valid by (simp_all add: known_suite_def known_level_def)
  have p: "peer_is_valid_at (ex_peer 1) 1000" "peer_is_valid_at (ex_peer 2) 1000"
    by (simp_all add: peer_is_valid_at_def ex_peer_def ex_node_def)
  have "no_control_epoch (ex_offer m s l) = 5" "no_lease_token (ex_offer m s l) = 7" for m s l
    by (simp_all add: ex_offer_def)
  moreover have "ap_endpoint (ex_peer m) = ex_node m" "ap_credential_expires_at_us (ex_peer m) = 5000000000" for m
    by (simp_all add: ex_peer_def)
  ultimately show ?thesis
    unfolding register_session_def establish_def Let_def f k(1)
    using ex_sl2_negotiated(1) [unfolded ex_policy_def] by (simp add: t v p k result_accepted_def get_session_def)
qed

lemma second_handshake_refused_witness:
  "\<exists>m out. register_session [] ex_negotiated (ex_peer 1) (ex_peer 2) = (m, Some out) \<and>
     registry_step\<^sup>*\<^sup>* m (fst (close_session m ex_handshake_id)) \<and>
     snd (snd (initiator_process_server_finished (fst (close_session m ex_handshake_id)) ex_negotiated [])) = None"
proof -
  obtain m out where r: "register_session [] ex_negotiated (ex_peer 1) (ex_peer 2) = (m, Some out)"
    using ex_handshake_registered by blast
  have s: "registry_step\<^sup>*\<^sup>* m (fst (close_session m ex_handshake_id))" by (rule r_into_rtranclp) (rule registry_step.close)
  from second_handshake_refused [OF r s, of ex_negotiated] r s show ?thesis by blast
qed

section \<open>A group\<close>

definition ex_coordinator :: security_group_member where
  "ex_coordinator = \<lparr>gm_endpoint = ex_node 1, gm_trust_domain_id = 1, gm_subject_id = 7, gm_role = mr_coordinator,
     gm_status = Member_Active, gm_joined_epoch = 0, gm_credential_revision = 1, gm_added_at_us = 0, gm_public_key = []\<rparr>"

definition ex_group :: group_provider where
  "ex_group = fst (create_group (replicate 32 9) new_group_provider 7 1 1 ex_coordinator [] 100)"

text \<open>The group as its coordinator uses it: alone in epoch 1.\<close>

definition ex_alone :: "group_provider \<Rightarrow> bool" where
  "ex_alone p \<longleftrightarrow> group_step\<^sup>*\<^sup>* new_group_provider p \<and> is_group_member_active p 7 (ex_node 1) \<and>
     (\<exists>ctx m. get_group_context p 7 = Some ctx \<and> gc_group_epoch ctx = 1 \<and> gc_members ctx = [m] \<and> active_at (ex_node 1) m)"

lemma ex_group_alone: "ex_alone ex_group" "window_of ex_group k = new_window" "group_change new_group_provider ex_group"
proof -
  show change: "group_change new_group_provider ex_group"
    unfolding ex_group_def by (rule group_change.create) simp
  have "group_step\<^sup>*\<^sup>* new_group_provider ex_group" using change by (blast intro: group_step.change)
  moreover have "member_is_active ex_coordinator" "gm_role ex_coordinator = mr_coordinator"
    by (simp_all add: member_is_active_def member_is_valid_def ex_coordinator_def ex_node_def)
  ultimately show "ex_alone ex_group"
    unfolding ex_alone_def
    by (simp add: ex_group_def create_group_def Let_def new_group_provider_def entropy_of_def is_group_member_active_def
        get_group_context_def active_at_def) (simp add: ex_coordinator_def)
  show "window_of ex_group k = new_window"
    using group_change_windows [OF change] by (simp add: window_of_def new_group_provider_def)
qed

lemma ex_exchange:
  assumes "ex_alone p" and "seq \<noteq> 0" "mode \<noteq> Mode_Unknown" and "window_check (window_of p (7, 1, ex_node 1)) seq = Accepted_Seq"
  shows "\<exists>p' msg p''. group_change p p' \<and> unprotect p' msg 1 = (p'', Group_Ok, payload) \<and> ex_alone p'' \<and>
    replay_key msg = (7, 1, ex_node 1) \<and> pm_message_seq msg = seq \<and> pm_mode msg = mode \<and>
    window_of p'' (7, 1, ex_node 1) = fst (check_and_update (window_of p (7, 1, ex_node 1)) seq)"
proof -
  obtain ctx m where p: "group_step\<^sup>*\<^sup>* new_group_provider p" "is_group_member_active p 7 (ex_node 1)"
    "get_group_context p 7 = Some ctx" "gc_group_epoch ctx = 1" "gc_members ctx = [m]" "active_at (ex_node 1) m"
    using assms(1) by (auto simp: ex_alone_def)
  obtain p' msg where send: "protect p 7 (ex_node 1) mode 1 payload seq = (p', Some msg)"
    using active_members_can_send [OF p(1-3), of seq 1 mode payload] p(4) assms(2,3) by auto
  have change: "group_change p p'" using group_change.send [of p 7 "ex_node 1" mode 1 payload seq] send by simp
  obtain st where st: "lookup (gp_groups p) 7 = Some st" "ctx = ig_context st" using p(3) by (auto simp: get_group_context_def)
  from protect_Some [OF send] st
  obtain sender leaf where s: "gc_state (ig_context st) = Group_Active"
    "find (active_at (ex_node 1)) (gc_members (ig_context st)) = Some sender"
    "lookup (ig_member_leaf_secrets st) (ex_node 1) = Some leaf" "leaf \<noteq> []" by auto
  have es: "ig_epoch_secret st \<noteq> []"
    using groups_inv [OF p(1) st(1)] s(1) by (auto simp: group_inv_def keyed_def)
  have first: "find (\<lambda>m. gm_endpoint m = ex_node 1) (gc_members ctx) = find (active_at (ex_node 1)) (gc_members ctx)"
    using p(5,6) by (simp add: active_at_def)
  obtain p'' where recv: "unprotect p' msg 1 = (p'', Group_Ok, payload)"
    using protected_received [OF send es st(1)] first st(2) p(4) assms(4) by auto
  from send [unfolded protect_eq [OF st(1) s(1) assms(2,3) s(2-4) es] Let_def]
  have msg: "replay_key msg = (7, 1, ex_node 1)" "pm_message_seq msg = seq" "pm_mode msg = mode"
    and p': "p' = set_group 7 (st\<lparr>ig_sender_ratchets := AList.update (ex_node 1) (ratchet_of st (ex_node 1) + 1)
      (ig_sender_ratchets st)\<rparr>) p" using p(4) st(2) by auto
  have groups: "gp_groups p'' = gp_groups p'" using unprotect_frame [of p' msg 1] recv by simp
  have "group_step p p'" using change by (rule group_step.change)
  moreover have "group_step p' p''" using group_step.receive [of p' msg 1] recv by simp
  ultimately have "group_step\<^sup>*\<^sup>* new_group_provider p''" using p(1) by simp
  then have "ex_alone p''"
    using p(4-6) st(2) s(1) unfolding ex_alone_def
    by (simp add: is_group_member_active_def get_group_context_def groups p')
  moreover have "window_of p'' (7, 1, ex_node 1) = fst (check_and_update (window_of p (7, 1, ex_node 1)) seq)"
    using unprotect_window [of p' msg 1 "(7, 1, ex_node 1)"] msg recv p' by (simp add: window_of_def)
  ultimately show ?thesis using change recv msg by blast
qed

lemma group_messages_accepted_once_witness:
  "\<exists>a b p. group_trace new_group_provider [(a, Group_Ok), (b, Group_Ok)] p \<and> replay_key a = replay_key b \<and>
     pm_message_seq a \<noteq> pm_message_seq b"
proof -
  let ?k = "(7, 1, ex_node 1) :: member_replay_key"
  have w: "window_check new_window 5 = Accepted_Seq" "window_check (fst (check_and_update new_window 5)) 3 = Accepted_Seq"
    by (simp_all add: check_and_update_def window_check_def window_update_def new_window_def window_bit_def
        set_window_bit_def Let_def)
  from ex_exchange [OF ex_group_alone(1), of 5 Authenticated_Only "[1]"] w(1) ex_group_alone(2)
  obtain p1 a p2 where 1: "group_change ex_group p1" "unprotect p1 a 1 = (p2, Group_Ok, [1])" "ex_alone p2"
    "replay_key a = ?k" "pm_message_seq a = 5" "window_of p2 ?k = fst (check_and_update new_window 5)" by auto
  from ex_exchange [OF 1(3), of 3 Confidential_And_Authenticated "[2]"] w(2) 1(6)
  obtain p3 b p4 where 2: "group_change p2 p3" "unprotect p3 b 1 = (p4, Group_Ok, [2])" "replay_key b = ?k" by auto
  have tr: "group_trace new_group_provider [(a, Group_Ok), (b, Group_Ok)] p4"
    by (rule group_trace.other [OF ex_group_alone(3)], rule group_trace.other [OF 1(1)], rule group_trace.receipt [OF 1(2)],
        rule group_trace.other [OF 2(1)], rule group_trace.receipt [OF 2(2)], rule group_trace.nothing)
  have "pm_message_seq a \<noteq> pm_message_seq b"
    using group_messages_accepted_once [OF tr, of 0 1 a b] 1(4) 2(3) by simp
  with tr 1(4) 2(3) show ?thesis by (intro exI [of _ a] exI [of _ b] exI [of _ p4]) simp
qed

lemma mode_is_not_authenticated_witness:
  "\<exists>p msg. fst (snd (unprotect p msg 1)) = Group_Ok \<and> snd (snd (unprotect p msg 1)) = [1, 2] \<and>
     pm_mode msg = Confidential_And_Authenticated \<and>
     fst (snd (unprotect p (msg\<lparr>pm_mode := Authenticated_Only\<rparr>) 1)) = Group_Ok \<and>
     snd (snd (unprotect p (msg\<lparr>pm_mode := Authenticated_Only\<rparr>) 1)) = pm_ciphertext_or_payload msg"
proof -
  have w: "window_check new_window 5 = Accepted_Seq" by (simp add: window_check_def new_window_def)
  from ex_exchange [OF ex_group_alone(1), of 5 Confidential_And_Authenticated "[1, 2]"] w ex_group_alone(2)
  obtain p1 a p2 where a: "unprotect p1 a 1 = (p2, Group_Ok, [1, 2])" "pm_mode a = Confidential_And_Authenticated" by auto
  from mode_is_not_authenticated [OF a] a show ?thesis by (intro exI [of _ p1] exI [of _ a]) simp
qed

definition ex_group_message :: protected_group_message where
  "ex_group_message = \<lparr>pm_group_id = 7, pm_group_epoch = 3, pm_mode = Authenticated_Only, pm_sender_endpoint = ex_node 1,
     pm_message_seq = 1, pm_ratchet_generation = 1, pm_ciphertext_or_payload = [1], pm_authentication_tag = []\<rparr>"

lemma removed_member_never_heard_witness:
  "\<exists>p. remove_member (replicate 32 9) ex_group 7 (ex_node 1) [] 200 = (p, True) \<and>
     fst (snd (unprotect (fst (add_member (replicate 32 8) p 7 ex_coordinator [] [] 300)) ex_group_message 1)) \<noteq> Group_Ok"
proof -
  obtain st where st: "lookup (gp_groups ex_group) 7 = Some st" "gc_state (ig_context st) = Group_Active"
    "list_ex (active_at (ex_node 1)) (gc_members (ig_context st))"
    using ex_group_alone(1) by (auto simp: ex_alone_def is_group_member_active_def split: option.splits if_splits)
  have "ig_epoch_secret st \<noteq> []"
    using groups_inv [OF _ st(1)] ex_group_alone(1) st(2) by (auto simp: ex_alone_def group_inv_def keyed_def)
  then obtain p where p: "remove_member (replicate 32 9) ex_group 7 (ex_node 1) [] 200 = (p, True)"
    using st by (simp add: remove_member_def Let_def)
  have "group_step\<^sup>*\<^sup>* p (fst (add_member (replicate 32 8) p 7 ex_coordinator [] [] 300))"
    by (intro r_into_rtranclp group_step.change group_change.add) simp
  from removed_member_never_heard [OF p this, of ex_group_message 1] p show ?thesis by (auto simp: ex_group_message_def)
qed

end
