(* ===== verification/Registration.thy ===== *)
theory Registration
  imports Event_Envelopes
begin

unbundle bit_operations_syntax

text \<open>
  The runtime registration messages of \<open>LiNeP/src/v0_2/registration.cpp\<close>: a versioned list of
  tagged fields inside an envelope of type 6. Known tags are 1 to 4; tags from 0x8000 on are
  extensions the decoder keeps; every other tag is refused. The size estimate and the checks of
  \<open>valid\<close> are pure, so its loops over sets of names seen so far are \<open>distinct\<close>.
\<close>

section \<open>Messages\<close>

type_synonym registration_operation = u8
abbreviation (input) ro_register_runtime :: registration_operation where "ro_register_runtime \<equiv> 1"
abbreviation (input) ro_result :: registration_operation where "ro_result \<equiv> 2"
abbreviation (input) ro_draining :: registration_operation where "ro_draining \<equiv> 3"
abbreviation (input) ro_deregister :: registration_operation where "ro_deregister \<equiv> 4"
abbreviation (input) ro_capacity_update :: registration_operation where "ro_capacity_update \<equiv> 5"
abbreviation (input) ro_capabilities_query :: registration_operation where "ro_capabilities_query \<equiv> 6"

abbreviation (input) max_registration_bytes :: nat where "max_registration_bytes \<equiv> 65536"

record registration_extension =
  rx_tag :: u16
  rx_value :: bytes

definition no_capabilities :: runtime_capabilities_descriptor where
  "no_capabilities = \<lparr>cap_supported_profiles = [], cap_max_context_tokens = 0,
     cap_max_output_tokens = 0, cap_supports_streaming = True, cap_supports_cancellation = True,
     cap_supports_tool_calling = False, cap_supports_reasoning_deltas = False,
     cap_supports_structured_messages = False, cap_supported_models = [],
     cap_supported_embedding_spaces = [], cap_supported_vision_models = [],
     cap_supported_decision_models = []\<rparr>"

record runtime_registration_envelope =
  rr_operation :: registration_operation
  rr_concurrent_slots :: u32
  rr_status_code :: u32
  rr_reason :: string
  rr_capabilities :: runtime_capabilities_descriptor
  rr_extensions :: "registration_extension list"

definition new_registration :: runtime_registration_envelope where
  "new_registration = \<lparr>rr_operation = ro_register_runtime, rr_concurrent_slots = 0,
     rr_status_code = 0, rr_reason = [], rr_capabilities = no_capabilities, rr_extensions = []\<rparr>"

definition registration_field :: "u16 \<Rightarrow> bytes \<Rightarrow> bytes" where
  "registration_field tag v = write_u16 tag @ write_u32 (of_nat (length v)) @ v"

text \<open>\<open>frame\<close>: the header of a complete frame and the offset of its payload.\<close>

definition registration_frame :: "bytes \<Rightarrow> (wire_envelope_header \<times> nat) option" where
  "registration_frame data =
     (case decode_header data of None \<Rightarrow> None
      | Some h \<Rightarrow>
          if hdr_magic h \<noteq> LINEP_V02_MAGIC \<or> hdr_version_major h \<noteq> 0 \<or> hdr_version_minor h \<noteq> 2 \<or>
             hdr_flags h AND NOT LINEP_V02_FLAG_AUTHENTICATED \<noteq> 0 then None
          else let offset = LINEP_V02_HEADER_SIZE +
                     (if hdr_flags h AND LINEP_V02_FLAG_AUTHENTICATED \<noteq> 0
                      then LINEP_V02_AUTH_EXTENSION_SIZE else 0)
               in if hdr_payload_len h \<le> LINEP_V02_MAX_PAYLOAD_BYTES \<and>
                     length data = offset + unat (hdr_payload_len h)
                  then Some (h, offset) else None)"

section \<open>Validity\<close>

definition empty_capabilities :: "runtime_capabilities_descriptor \<Rightarrow> bool" where
  "empty_capabilities d \<longleftrightarrow> cap_supported_models d = [] \<and> cap_supported_profiles d = [] \<and>
     cap_supported_embedding_spaces d = [] \<and> cap_supported_vision_models d = [] \<and>
     cap_supported_decision_models d = [] \<and> cap_max_context_tokens d = 0 \<and>
     cap_max_output_tokens d = 0 \<and> cap_supports_streaming d \<and> cap_supports_cancellation d \<and>
     \<not> cap_supports_tool_calling d \<and> \<not> cap_supports_reasoning_deltas d \<and>
     \<not> cap_supports_structured_messages d"

definition advertised_space_ok :: "string list \<Rightarrow> embedding_space_descriptor \<Rightarrow> bool" where
  "advertised_space_ok models sp \<longleftrightarrow> sp_embedding_space_id sp \<noteq> [] \<and> sp_model_id sp \<noteq> [] \<and>
     sp_dimensions sp \<noteq> 0 \<and> unat (sp_dimensions sp) \<le> LINEP_V02_MAX_EMBEDDING_DIMENSIONS \<and>
     sp_normalization sp \<le> 1 \<and> 1 \<le> sp_distance_metric sp \<and> sp_distance_metric sp \<le> 3 \<and>
     sp_model_id sp \<in> set models \<and> length (sp_embedding_space_id sp) \<le> 8192 \<and>
     length (sp_model_id sp) \<le> 8192 \<and> length (sp_model_revision sp) \<le> 8192"

definition advertised_vision_ok :: "string list \<Rightarrow> vision_model_descriptor \<Rightarrow> bool" where
  "advertised_vision_ok models vm \<longleftrightarrow> vm_model_id vm \<noteq> [] \<and>
     length (vm_model_id vm) \<le> LINEP_V02_MAX_VISION_STRING_BYTES \<and>
     length (vm_model_revision vm) \<le> LINEP_V02_MAX_VISION_STRING_BYTES \<and>
     vm_label_set_id vm \<noteq> [] \<and> length (vm_label_set_id vm) \<le> LINEP_V02_MAX_VISION_STRING_BYTES \<and>
     vm_task vm = vt_detect \<and> vm_max_detections vm \<noteq> 0 \<and>
     unat (vm_max_detections vm) \<le> LINEP_V02_MAX_VISION_DETECTIONS \<and>
     length (vm_custom_labels vm) \<le> 2048 \<and> vm_model_id vm \<in> set models \<and>
     (\<forall>l \<in> set (vm_custom_labels vm). length l \<le> LINEP_V02_MAX_VISION_STRING_BYTES)"

definition advertised_decision_ok :: "string list \<Rightarrow> decision_model_descriptor \<Rightarrow> bool" where
  "advertised_decision_ok models dm \<longleftrightarrow> dm_model_id dm \<noteq> [] \<and>
     length (dm_model_id dm) \<le> LINEP_V02_MAX_DECISION_STRING_BYTES \<and>
     length (dm_model_revision dm) \<le> LINEP_V02_MAX_DECISION_STRING_BYTES \<and>
     dm_decision_type dm \<noteq> [] \<and>
     length (dm_decision_type dm) \<le> LINEP_V02_MAX_DECISION_STRING_BYTES \<and>
     dm_model_id dm \<in> set models"

text \<open>The running estimate of the encoded size.\<close>

definition advertised_bytes :: "runtime_capabilities_descriptor \<Rightarrow> nat" where
  "advertised_bytes d = 64 + sum_list (map (\<lambda>m. length m + 2) (cap_supported_models d)) +
     sum_list (map (\<lambda>sp. length (sp_embedding_space_id sp) + length (sp_model_id sp) +
       length (sp_model_revision sp) + 12) (cap_supported_embedding_spaces d)) +
     sum_list (map (\<lambda>vm. length (vm_model_id vm) + length (vm_model_revision vm) +
       length (vm_label_set_id vm) + 13 +
       sum_list (map (\<lambda>l. length l + 2) (vm_custom_labels vm))) (cap_supported_vision_models d)) +
     sum_list (map (\<lambda>dm. length (dm_model_id dm) + length (dm_model_revision dm) +
       length (dm_decision_type dm) + 6) (cap_supported_decision_models d))"

definition advertisement_valid :: "runtime_capabilities_descriptor \<Rightarrow> bool" where
  "advertisement_valid d =
     (let models = cap_supported_models d; profiles = cap_supported_profiles d in
      if models = [] \<or> profiles = [] then False
      else if 2048 < length models \<or> 2048 < length (cap_supported_embedding_spaces d) \<or>
              2048 < length (cap_supported_vision_models d) \<or>
              LINEP_V02_MAX_DECISION_MODELS < length (cap_supported_decision_models d) then False
      else if \<not> list_all (advertised_space_ok models) (cap_supported_embedding_spaces d) then False
      else if (rp_vision \<in> set profiles) \<noteq> (cap_supported_vision_models d \<noteq> []) then False
      else if \<not> (distinct (map vm_model_id (cap_supported_vision_models d)) \<and>
                 list_all (advertised_vision_ok models) (cap_supported_vision_models d)) then False
      else if (rp_decision \<in> set profiles) \<noteq> (cap_supported_decision_models d \<noteq> []) then False
      else if \<not> (distinct (map dm_model_id (cap_supported_decision_models d)) \<and>
                 list_all (advertised_decision_ok models) (cap_supported_decision_models d)) then False
      else if max_registration_bytes - 64 < advertised_bytes d then False
      else if \<not> (distinct models \<and> list_all (\<lambda>m. m \<noteq> [] \<and> length m \<le> 8192) models) then False
      else distinct profiles \<and> list_all (\<lambda>p. 1 \<le> p \<and> p \<le> 5) profiles)"

definition registration_valid :: "runtime_registration_envelope \<Rightarrow> bool" where
  "registration_valid e =
     (if rr_operation e < 1 \<or> 6 < rr_operation e \<or> 8192 < length (rr_reason e) then False
      else if rr_operation e = ro_result
      then (rr_status_code e = 200 \<or> (400 \<le> rr_status_code e \<and> rr_status_code e \<le> 599)) \<and>
           rr_concurrent_slots e = 0 \<and> empty_capabilities (rr_capabilities e)
      else if rr_status_code e \<noteq> 0 \<or> rr_reason e \<noteq> [] then False
      else if rr_operation e \<noteq> ro_register_runtime
      then empty_capabilities (rr_capabilities e) \<and>
           (rr_operation e = ro_capacity_update \<or> rr_concurrent_slots e = 0)
      else if rr_concurrent_slots e = 0 then False
      else advertisement_valid (rr_capabilities e))"

section \<open>Encoding\<close>

fun put_extensions :: "u16 \<Rightarrow> registration_extension list \<Rightarrow> bytes \<Rightarrow> bytes option" where
  "put_extensions previous [] b = Some b"
| "put_extensions previous (x # xs) b =
     (if rx_tag x \<le> previous \<or> max_registration_bytes < length (rx_value x) then None
      else let b = b @ registration_field (rx_tag x) (rx_value x)
           in if max_registration_bytes < length b then None
              else put_extensions (rx_tag x) xs b)"

definition registration_known_fields :: "runtime_registration_envelope \<Rightarrow> bytes" where
  "registration_known_fields e =
     (if rr_operation e = ro_register_runtime \<or> rr_operation e = ro_capacity_update
      then registration_field 1 (write_u32 (rr_concurrent_slots e)) else []) @
     (if rr_operation e = ro_result
      then registration_field 2 (write_u32 (rr_status_code e)) @
           registration_field 3 (bytes_of_string (rr_reason e)) else []) @
     (if rr_operation e = ro_register_runtime
      then registration_field 4 (encode_capabilities (rr_capabilities e)) else [])"

definition encode_runtime_registration :: "runtime_registration_envelope \<Rightarrow> bytes option" where
  "encode_runtime_registration e =
     (if \<not> registration_valid e then None
      else case put_extensions 0x7FFF (rr_extensions e)
                  ([1, 0, rr_operation e, 0] @ registration_known_fields e) of
        None \<Rightarrow> None
      | Some b \<Rightarrow>
          if max_registration_bytes < length b then None
          else Some (close_envelope et_runtime_register
                       \<lparr>request_id = 0, execution_id = 0, output_id = 0\<rparr> b))"

section \<open>Decoding\<close>

text \<open>One field: what it sets, or \<open>None\<close> where the decoder refuses it.\<close>

definition canonical_capabilities :: "bytes \<Rightarrow> runtime_capabilities_descriptor option" where
  "canonical_capabilities v =
     (case registration_frame v of None \<Rightarrow> None
      | Some (ch, _) \<Rightarrow>
          if hdr_flags ch \<noteq> 0 \<or> hdr_request_id ch \<noteq> 0 \<or> hdr_execution_id ch \<noteq> 0 \<or>
             hdr_output_id ch \<noteq> 0 then None
          else case decode_capabilities v of None \<Rightarrow> None
            | Some d \<Rightarrow> if encode_capabilities d \<noteq> v then None else Some d)"

definition read_registration_field ::
  "runtime_registration_envelope \<Rightarrow> u16 \<Rightarrow> bytes \<Rightarrow> runtime_registration_envelope option" where
  "read_registration_field e tag v =
     (if tag = 1 \<or> tag = 2 then
        (if length v \<noteq> 4 then None
         else if tag = 1 then Some (e\<lparr>rr_concurrent_slots := le_word v\<rparr>)
         else Some (e\<lparr>rr_status_code := le_word v\<rparr>))
      else if tag = 3 then
        (if 8192 < length v then None else Some (e\<lparr>rr_reason := string_of_bytes v\<rparr>))
      else if tag = 4 then
        (case canonical_capabilities v of None \<Rightarrow> None
         | Some d \<Rightarrow> Some (e\<lparr>rr_capabilities := d\<rparr>))
      else if tag < 0x8000 then None
      else Some (e\<lparr>rr_extensions := rr_extensions e @ [\<lparr>rx_tag = tag, rx_value = v\<rparr>]\<rparr>))"

definition tag_seen :: "u32 \<Rightarrow> u16 \<Rightarrow> u32" where
  "tag_seen seen tag = (if tag \<le> 4 then seen OR push_bit (unat tag) 1 else seen)"

function read_registration_fields :: "runtime_registration_envelope \<Rightarrow> u16 \<Rightarrow> u32 \<Rightarrow> bytes
    \<Rightarrow> (runtime_registration_envelope \<times> u32) option" where
  "read_registration_fields e previous seen r =
     (if r = [] then Some (e, seen)
      else if length r < 6 then None
      else let tag = le_word (take 2 r); len = unat (le_word (take 4 (drop 2 r)) :: u32);
               r' = drop 6 r
           in if tag \<le> previous \<or> length r' < len then None
              else case read_registration_field e tag (take len r') of None \<Rightarrow> None
                | Some e' \<Rightarrow> read_registration_fields e' tag (tag_seen seen tag) (drop len r'))"
  by pat_completeness auto
termination by (relation "measure (\<lambda>(e, p, s, r). length r)") auto

declare read_registration_fields.simps [simp del]

definition expected_tags :: "registration_operation \<Rightarrow> u32" where
  "expected_tags op = (if op = ro_register_runtime then 18 else if op = ro_result then 12
     else if op = ro_capacity_update then 2 else 0)"

definition decode_runtime_registration :: "bytes \<Rightarrow> runtime_registration_envelope option" where
  "decode_runtime_registration data =
     (case registration_frame data of None \<Rightarrow> None
      | Some (h, pos) \<Rightarrow>
          if hdr_envelope_type h \<noteq> et_runtime_register \<or> hdr_request_id h \<noteq> 0 \<or>
             hdr_execution_id h \<noteq> 0 \<or> hdr_output_id h \<noteq> 0 \<or> hdr_payload_len h < 4 \<or>
             max_registration_bytes < unat (hdr_payload_len h) then None
          else if data ! pos \<noteq> 1 \<or> data ! (pos + 1) \<noteq> 0 \<or> data ! (pos + 3) \<noteq> 0 then None
          else let e = new_registration\<lparr>rr_operation := data ! (pos + 2)\<rparr>
               in case read_registration_fields e 0 0 (drop (pos + 4) data) of None \<Rightarrow> None
                | Some (e, seen) \<Rightarrow>
                    if seen \<noteq> expected_tags (rr_operation e) \<or> \<not> registration_valid e then None
                    else Some e)"

end
