(* ===== verification/Registration_Session.thy ===== *)
theory Registration_Session
  imports Registration Session_Binding Connection
begin

unbundle bit_operations_syntax

text \<open>
  \<open>runtime_registration_session\<close> of \<open>LiNeP/src/v0_2/registration.cpp\<close>: the router's side of one
  worker connection. It works on the session manager of the connection (a reference in the code,
  a field here) and keeps what the worker registered. Every received frame is authenticated by
  the manager first; a protocol error closes the state for good and ends the active streams. The
  authorizer is an argument (\<open>None\<close> is the empty \<open>std::function\<close>). The error of a failure is on
  the \<open>Inl\<close> side; a reply the code does not write is the default one.
\<close>

section \<open>State\<close>

type_synonym authorizer = "session_bind_envelope \<Rightarrow> runtime_capabilities_descriptor \<Rightarrow> bool"

record registration_session =
  rs_session :: session_manager
  rs_binding :: session_bind_envelope
  rs_binding_generation :: u64
  rs_registered :: bool
  rs_draining :: bool
  rs_closed :: bool
  rs_slots :: u32
  rs_capabilities :: runtime_capabilities_descriptor

definition new_registration_session :: "session_manager \<Rightarrow> registration_session" where
  "new_registration_session m = \<lparr>rs_session = m, rs_binding = new_session_bind,
     rs_binding_generation = 0, rs_registered = False, rs_draining = False, rs_closed = False,
     rs_slots = 0, rs_capabilities = no_capabilities\<rparr>"

definition synchronize_binding :: "registration_session \<Rightarrow> registration_session \<times> bool" where
  "synchronize_binding s =
     (let m = rs_session s; current = (sm_binding_state m = Bound_Current) in
      (if \<not> current \<or> \<not> same_bind (sm_bound_bind m) (rs_binding s) \<or>
          sm_binding_generation m \<noteq> rs_binding_generation s
       then s\<lparr>rs_registered := False, rs_draining := False, rs_slots := 0,
              rs_capabilities := no_capabilities, rs_binding := sm_bound_bind m,
              rs_binding_generation := sm_binding_generation m\<rparr>
       else s, current))"

definition is_registered :: "registration_session \<Rightarrow> registration_session \<times> bool" where
  "is_registered s = (let s = fst (synchronize_binding s) in (s, rs_registered s \<and> \<not> rs_closed s))"

text \<open>Closing for good: the state of a protocol error.\<close>

definition close_registration :: "registration_session \<Rightarrow> registration_session" where
  "close_registration s = s\<lparr>rs_closed := True, rs_registered := False,
     rs_session := fst (terminate_all_active_streams (rs_session s) to_failed)\<rparr>"

definition reject_registration :: "registration_session \<Rightarrow> u32 \<Rightarrow> error_category \<Rightarrow> string \<Rightarrow> bool
    \<Rightarrow> registration_session \<times> runtime_error" where
  "reject_registration s code cat msg close =
     (if close then close_registration s else s, mk_error cat code msg)"

section \<open>Frames from the worker\<close>

definition registration_reply :: runtime_registration_envelope where
  "registration_reply = new_registration\<lparr>rr_operation := ro_result\<rparr>"

type_synonym worker_result =
  "registration_session \<times> runtime_registration_envelope \<times> (runtime_error + unit)"

definition refuse_frame :: "registration_session \<Rightarrow> u32 \<Rightarrow> error_category \<Rightarrow> string \<Rightarrow> bool
    \<Rightarrow> worker_result" where
  "refuse_frame s code cat msg close =
     (let (s, err) = reject_registration s code cat msg close in (s, registration_reply, Inl err))"

definition accept_frame :: "registration_session \<Rightarrow> worker_result" where
  "accept_frame s = (s, registration_reply, Inr ())"

definition receive_registration ::
  "authorizer option \<Rightarrow> registration_session \<Rightarrow> bytes \<Rightarrow> worker_result" where
  "receive_registration authorize s data =
     (case decode_runtime_registration data of
        None \<Rightarrow> refuse_frame s 400 ec_bad_request ''invalid_registration'' True
      | Some e \<Rightarrow>
          if rr_operation e = ro_register_runtime then
            (if rs_registered s
             then refuse_frame s 409 ec_bad_request ''already_registered'' True
             else if (case authorize of None \<Rightarrow> True
                      | Some f \<Rightarrow> \<not> f (rs_binding s) (rr_capabilities e))
             then (s, registration_reply\<lparr>rr_status_code := 403, rr_reason := ''runtime_not_authorized''\<rparr>,
                   Inl (mk_error ec_unauthorized 403 ''runtime_not_authorized''))
             else (s\<lparr>rs_capabilities := rr_capabilities e, rs_slots := rr_concurrent_slots e,
                     rs_registered := True\<rparr>,
                   registration_reply\<lparr>rr_status_code := 200\<rparr>, Inr ()))
          else if \<not> rs_registered s
          then refuse_frame s 401 ec_unauthorized ''registration_required'' True
          else if rr_operation e = ro_draining then accept_frame (s\<lparr>rs_draining := True\<rparr>)
          else if rr_operation e = ro_capacity_update
          then accept_frame (s\<lparr>rs_slots := rr_concurrent_slots e\<rparr>)
          else if rr_operation e = ro_deregister then
            (if get_active_stream_count (rs_session s) \<noteq> 0
             then refuse_frame s 409 ec_bad_request ''streams_still_active'' True
             else accept_frame (s\<lparr>rs_registered := False, rs_slots := 0,
                    rs_capabilities := no_capabilities, rs_draining := False\<rparr>))
          else refuse_frame s 400 ec_bad_request ''wrong_direction'' True)"

definition new_event :: event_envelope where
  "new_event = \<lparr>evt_stream = \<lparr>request_id = 0, execution_id = 0, output_id = 0\<rparr>, evt_event_seq = 0,
     evt_event_type = re_unknown, evt_payload = [], evt_outcome = to_unknown, evt_error = no_error,
     evt_embedding = \<lparr>emb_space = \<lparr>sp_embedding_space_id = [], sp_model_id = [],
       sp_model_revision = [], sp_dimensions = 0, sp_normalization = 0, sp_distance_metric = 0\<rparr>,
       emb_vector = []\<rparr>,
     evt_vision = \<lparr>vr_task = vt_unspecified, vr_model_id = [], vr_model_revision = [],
       vr_detect = \<lparr>vd_label_set_id = [], vd_original_width = 0, vd_original_height = 0,
         vd_detections = []\<rparr>\<rparr>,
     evt_timestamp_us = 0\<rparr>"

text \<open>What the session manager refused closes the connection with the manager's error.\<close>

definition after_dispatch :: "registration_session \<Rightarrow> session_manager \<times> (runtime_error + bool)
    \<Rightarrow> worker_result" where
  "after_dispatch s r =
     (let (m, res) = r; s = s\<lparr>rs_session := m\<rparr> in
      case res of
        Inr True \<Rightarrow> accept_frame s
      | Inr False \<Rightarrow> (close_registration s, registration_reply, Inl no_error)
      | Inl err \<Rightarrow> (close_registration s, registration_reply, Inl err))"

definition receive_worker_event :: "registration_session \<Rightarrow> bytes \<Rightarrow> worker_result" where
  "receive_worker_event s data =
     (case decode_event new_event data of
        None \<Rightarrow> refuse_frame s 400 ec_bad_request ''invalid_event'' True
      | Some e \<Rightarrow>
          let (m, res) = dispatch_event (rs_session s) e
          in after_dispatch s (m, map_sum id (\<lambda>_. True) res))"

definition receive_worker_control :: "registration_session \<Rightarrow> bytes \<Rightarrow> worker_result" where
  "receive_worker_control s data =
     (case decode_control data of
        None \<Rightarrow> refuse_frame s 400 ec_bad_request ''wrong_direction'' True
      | Some c \<Rightarrow>
          if ctl_control_type c \<noteq> ct_window_update
          then refuse_frame s 400 ec_bad_request ''wrong_direction'' True
          else after_dispatch s (process_control (rs_session s) c))"

definition receive_worker_capabilities ::
  "authorizer option \<Rightarrow> registration_session \<Rightarrow> wire_envelope_header \<Rightarrow> bytes \<Rightarrow> worker_result" where
  "receive_worker_capabilities authorize s h data =
     (case decode_capabilities data of
        None \<Rightarrow> refuse_frame s 400 ec_bad_request ''invalid_capabilities'' True
      | Some d \<Rightarrow>
          if hdr_request_id h \<noteq> 0 \<or> hdr_execution_id h \<noteq> 0 \<or> hdr_output_id h \<noteq> 0 \<or>
             \<not> registration_valid (new_registration\<lparr>rr_concurrent_slots := 1, rr_capabilities := d\<rparr>) \<or>
             (case authorize of None \<Rightarrow> True | Some f \<Rightarrow> \<not> f (rs_binding s) d)
          then refuse_frame s 403 ec_unauthorized ''capabilities_not_authorized'' True
          else accept_frame (s\<lparr>rs_capabilities := d\<rparr>))"

definition receive_worker_frame ::
  "authorizer option \<Rightarrow> registration_session \<Rightarrow> bytes \<Rightarrow> worker_result" where
  "receive_worker_frame authorize s data =
     (if rs_closed s
      then refuse_frame s 410 ec_bad_request ''registration_connection_closed'' False
      else let (s, bound) = synchronize_binding s in
        if \<not> bound
        then (s, registration_reply\<lparr>rr_status_code := 401, rr_reason := ''binding_required''\<rparr>,
              Inl (mk_error ec_unauthorized 401 ''binding_required''))
        else case registration_frame data of
          None \<Rightarrow> refuse_frame s 400 ec_bad_request ''invalid_frame'' True
        | Some (h, offset) \<Rightarrow>
            let (m, res) = verify_inbound_frame (rs_session s) data Initiator_To_Responder;
                s = s\<lparr>rs_session := m\<rparr>
            in case res of
              Inl err \<Rightarrow> (close_registration s, registration_reply, Inl err)
            | Inr ext \<Rightarrow>
                if hdr_envelope_type h = et_runtime_register then receive_registration authorize s data
                else if \<not> rs_registered s
                then refuse_frame s 401 ec_unauthorized ''registration_required'' True
                else if hdr_envelope_type h = et_event then receive_worker_event s data
                else if hdr_envelope_type h = et_control then receive_worker_control s data
                else if hdr_envelope_type h = et_capabilities
                then receive_worker_capabilities authorize s h data
                else refuse_frame s 400 ec_bad_request ''wrong_direction'' True)"

text \<open>\<open>receive_worker\<close>: one frame from the connection, which is closed with the registration.\<close>

definition receive_worker :: "'w os \<Rightarrow> authorizer option \<Rightarrow> 'w \<Rightarrow> envelope_connection
    \<Rightarrow> registration_session \<Rightarrow> 'w \<times> envelope_connection \<times> worker_result" where
  "receive_worker os authorize w c s =
     (case receive_envelope_raw os w c of
        (w, c, None) \<Rightarrow>
          let (w, c) = close_connection os w c;
              (s, err) = reject_registration s 503 ec_transient ''runtime_disconnected'' True
          in (w, c, s, new_registration, Inl err)
      | (w, c, Some data) \<Rightarrow>
          let (s, reply, res) = receive_worker_frame authorize s data;
              (w, c) = (if rs_closed s then close_connection os w c else (w, c))
          in (w, c, s, reply, res))"

section \<open>Frames to the worker\<close>

type_synonym router_result = "registration_session \<times> (runtime_error + bool)"

definition refuse_send :: "registration_session \<Rightarrow> u32 \<Rightarrow> error_category \<Rightarrow> string \<Rightarrow> bool
    \<Rightarrow> router_result" where
  "refuse_send s code cat msg close =
     (let (s, err) = reject_registration s code cat msg close in (s, Inl err))"

definition send_router_request :: "registration_session \<Rightarrow> bytes \<Rightarrow> router_result" where
  "send_router_request s data =
     (case decode_request data of
        None \<Rightarrow> refuse_send s 400 ec_bad_request ''invalid_request'' True
      | Some r \<Rightarrow>
          if rs_draining s \<or> unat (rs_slots s) \<le> get_active_stream_count (rs_session s)
          then refuse_send s 503 ec_transient ''runtime_unavailable'' False
          else if \<not> supports_profile (rs_capabilities s) (req_profile r) \<or>
                  req_model_id r \<notin> set (cap_supported_models (rs_capabilities s))
          then refuse_send s 403 ec_unauthorized ''model_or_profile_not_advertised'' False
          else let (m, res) = submit_request (rs_session s) r
               in (s\<lparr>rs_session := m\<rparr>, map_sum id (\<lambda>_. True) res))"

definition send_router_frame :: "registration_session \<Rightarrow> bytes \<Rightarrow> router_result" where
  "send_router_frame s data =
     (let (s, registered) = is_registered s in
      if \<not> registered then refuse_send s 401 ec_unauthorized ''registration_required'' False
      else case registration_frame data of
        None \<Rightarrow> refuse_send s 400 ec_bad_request ''invalid_unsigned_outbound_frame'' True
      | Some (h, offset) \<Rightarrow>
          if hdr_flags h \<noteq> 0
          then refuse_send s 400 ec_bad_request ''invalid_unsigned_outbound_frame'' True
          else if hdr_envelope_type h = et_request then send_router_request s data
          else if hdr_envelope_type h = et_control then
            (case decode_control data of
               None \<Rightarrow> refuse_send s 400 ec_bad_request ''wrong_direction'' True
             | Some c \<Rightarrow>
                 if ctl_control_type c \<noteq> ct_cancel
                 then refuse_send s 400 ec_bad_request ''wrong_direction'' True
                 else let (m, res) = process_control (rs_session s) c in (s\<lparr>rs_session := m\<rparr>, res))
          else if hdr_envelope_type h = et_runtime_register \<and>
                  (case decode_runtime_registration data of None \<Rightarrow> False
                   | Some e \<Rightarrow> rr_operation e = ro_capabilities_query)
          then (s, Inr True)
          else refuse_send s 400 ec_bad_request ''wrong_direction'' True)"

end
