(* ===== verification/Mock_Runtime.thy ===== *)
theory Mock_Runtime
  imports Registration_Session
begin

unbundle bit_operations_syntax

text \<open>
The mock runtime server of \<open>mock_runtime.cpp\<close>: its configuration, the loop that handles the frames
of a client, the output threads that answer admitted requests piece by piece, and the server on one
connection as a step relation over the session manager, the transport connection and the router.
\<close>

section \<open>Configuration\<close>

text \<open>
  The delay and \<open>slow_reader\<close> only take time; \<open>delta_mode\<close> and \<open>out_of_order_event\<close> are read nowhere.
\<close>

record mock_runtime_config =
  mk_model_id :: string
  mk_delay_per_event_ms :: u32
  mk_default_tokens :: u64
  mk_enable_reasoning :: bool
  mk_delta_mode :: bool
  mk_snapshot_mode :: bool
  mk_multi_output_count :: u32
  mk_fail_after_n :: int
  mk_duplicate_event :: bool
  mk_out_of_order_event :: bool
  mk_disconnect_before_terminal :: bool
  mk_ignore_cancel :: bool
  mk_cancel_after_accept :: bool
  mk_slow_reader :: bool
  mk_batch_embed_count :: u64
  mk_embedding_space_id :: string
  mk_embedding_dimensions :: u32
  mk_max_buffered_bytes :: u64
  mk_require_lease :: bool
  mk_require_sl1 :: bool
  mk_sl1_key_id :: u16
  mk_sl1_key :: bytes
  mk_sl1_keys :: "(u16, bytes) umap"

definition default_mock_config :: mock_runtime_config where
  "default_mock_config = \<lparr>mk_model_id = ''linep-mock-v02'', mk_delay_per_event_ms = 2, mk_default_tokens = 10,
     mk_enable_reasoning = True, mk_delta_mode = True,
     mk_snapshot_mode = False, mk_multi_output_count = 1, mk_fail_after_n = - 1, mk_duplicate_event = False, mk_out_of_order_event = False,
     mk_disconnect_before_terminal = False, mk_ignore_cancel = False, mk_cancel_after_accept = False, mk_slow_reader = False,
     mk_batch_embed_count = 1, mk_embedding_space_id = ''nomic-embed-v1.5'', mk_embedding_dimensions = 768,
     mk_max_buffered_bytes = 1048576, mk_require_lease = False, mk_require_sl1 = False, mk_sl1_key_id = 1,
     mk_sl1_key = [], mk_sl1_keys = []\<rparr>"

definition mock_descriptor :: "mock_runtime_config \<Rightarrow> session_descriptor" where
  "mock_descriptor cfg = default_session_descriptor\<lparr>
     sd_max_buffered_bytes_per_stream := mk_max_buffered_bytes cfg,
     sd_require_lease := mk_require_lease cfg, sd_require_sl1 := mk_require_sl1 cfg,
     sd_current_key_id := mk_sl1_key_id cfg, sd_default_key_id := mk_sl1_key_id cfg,
     sd_sl1_keys := (if mk_sl1_keys cfg = [] \<and> mk_sl1_key cfg \<noteq> [] then [(mk_sl1_key_id cfg, mk_sl1_key cfg)]
                     else mk_sl1_keys cfg)\<rparr>"

section \<open>Frames of a client\<close>

text \<open>What the threads of one client connection share.\<close>

record 'w trunk =
  tk_world :: 'w
  tk_conn :: envelope_connection
  tk_session :: session_manager

definition new_trunk :: "mock_runtime_config \<Rightarrow> 'w \<Rightarrow> envelope_connection \<Rightarrow> 'w trunk" where
  "new_trunk cfg w c = \<lparr>tk_world = w, tk_conn = c, tk_session = new_session_manager (mock_descriptor cfg)\<rparr>"

definition send_on :: "'w os \<Rightarrow> event_envelope \<Rightarrow> 'w trunk \<Rightarrow> 'w trunk" where
  "send_on os e t = (let (w, c, ok) = send_event os (tk_world t) (tk_conn t) e in t\<lparr>tk_world := w, tk_conn := c\<rparr>)"

definition close_on :: "'w os \<Rightarrow> 'w trunk \<Rightarrow> 'w trunk" where
  "close_on os t = (let (w, c) = close_connection os (tk_world t) (tk_conn t) in t\<lparr>tk_world := w, tk_conn := c\<rparr>)"

datatype loop_result = Go_On | Start_Worker request_envelope | Stop_Loop

text \<open>The connection-level event that precedes every closing by the server.\<close>

definition failure_event :: "runtime_error \<Rightarrow> event_envelope" where
  "failure_event err = new_event\<lparr>evt_event_seq := 1, evt_event_type := re_failed, evt_outcome := to_failed,
     evt_error := err\<rparr>"

definition refuse_trunk :: "'w os \<Rightarrow> runtime_error \<Rightarrow> 'w trunk \<Rightarrow> 'w trunk \<times> loop_result" where
  "refuse_trunk os err t = (close_on os (send_on os (failure_event err) t), Stop_Loop)"

definition bind_refusal :: "session_manager \<Rightarrow> bytes \<Rightarrow> session_bind_envelope \<Rightarrow> string option" where
  "bind_refusal m raw b =
     (if \<not> bind_sl1_requested b then None
      else if auth_seq (bind_auth_ext b) \<noteq> 1 then Some ''auth_replay''
      else case get_sl1_key m (auth_key_id (bind_auth_ext b)) of
        None \<Rightarrow> Some ''unknown_key''
      | Some key \<Rightarrow>
          (case verify_envelope_buffer raw b Initiator_To_Responder key of
             Inl _ \<Rightarrow> Some ''auth_invalid'' | Inr _ \<Rightarrow> None))"

definition confirm_bind :: "'w os \<Rightarrow> session_bind_envelope \<Rightarrow> 'w trunk \<Rightarrow> 'w trunk" where
  "confirm_bind os b t =
     (if bind_sl1_requested b then
        let kid = auth_key_id (bind_auth_ext b);
            key = (case get_sl1_key (tk_session t) kid of None \<Rightarrow> [] | Some k \<Rightarrow> k);
            c = set_sl1_auth (tk_conn t) b Responder_To_Initiator kid key;
            (w, c, ok) = send_session_bind os (tk_world t) c (b\<lparr>bind_sl1_requested := True\<rparr>)
        in t\<lparr>tk_world := w, tk_conn := c\<rparr>
      else t)"

definition on_session_bind :: "'w os \<Rightarrow> mock_runtime_config \<Rightarrow> control_plane_router option \<Rightarrow> bytes \<Rightarrow> 'w trunk
    \<Rightarrow> 'w trunk \<times> loop_result" where
  "on_session_bind os cfg router raw t =
     (case decode_session_bind new_session_bind raw of
        None \<Rightarrow> refuse_trunk os (mk_error ec_bad_request 400 ''invalid_session_bind'') t
      | Some b \<Rightarrow>
          if mk_require_sl1 cfg \<and> \<not> bind_sl1_requested b
          then refuse_trunk os (mk_error ec_unauthorized 401 ''auth_required'') t
          else case bind_refusal (tk_session t) raw b of
            Some msg \<Rightarrow> refuse_trunk os (mk_error ec_unauthorized 401 msg) t
          | None \<Rightarrow>
              (case process_session_bind (tk_session t) b router of
                 (m, Inl err) \<Rightarrow>
                   refuse_trunk os (mk_error (if err_category err \<noteq> ec_none then err_category err else ec_unauthorized)
                     (if err_code err \<noteq> 0 then err_code err else 401)
                     (if err_message err = [] then ''lease_invalid'' else err_message err)) (t\<lparr>tk_session := m\<rparr>)
               | (m, Inr _) \<Rightarrow> (confirm_bind os b (t\<lparr>tk_session := m\<rparr>), Go_On)))"

text \<open>The lease of a bound session is checked again at each request.\<close>

definition recheck_lease :: "control_plane_router option \<Rightarrow> session_manager \<Rightarrow> session_manager" where
  "recheck_lease router m =
     (case router of None \<Rightarrow> m
      | Some r \<Rightarrow>
          if sm_binding_state m = Bound_Current \<and>
             \<not> validate_tcp_session_binding r (bind_identity (sm_bound_bind m))
                 (bind_control_epoch (sm_bound_bind m)) (bind_lease_token (sm_bound_bind m))
          then mark_binding_stale m else m)"

definition rejection_event :: "request_envelope \<Rightarrow> runtime_error \<Rightarrow> event_envelope" where
  "rejection_event req err = new_event\<lparr>evt_stream := req_stream req, evt_event_seq := 1,
     evt_event_type := re_failed,
     evt_payload := (if err_message err = [] then ''Request rejected'' else err_message err),
     evt_outcome := to_failed,
     evt_error := (if err_code err = 0 then err\<lparr>err_code := 400\<rparr> else err)\<rparr>"

definition on_request :: "'w os \<Rightarrow> mock_runtime_config \<Rightarrow> control_plane_router option \<Rightarrow> bytes \<Rightarrow> 'w trunk
    \<Rightarrow> 'w trunk \<times> loop_result" where
  "on_request os cfg router raw t =
     (case decode_request raw of None \<Rightarrow> (t, Go_On)
      | Some req \<Rightarrow>
          (case submit_request (recheck_lease router (tk_session t)) req of
             (m, Inr _) \<Rightarrow> (t\<lparr>tk_session := m\<rparr>, Start_Worker req)
           | (m, Inl err) \<Rightarrow>
               let t = send_on os (rejection_event req err) (t\<lparr>tk_session := m\<rparr>)
               in if mk_require_lease cfg \<and> sm_binding_state m = Unbound then (close_on os t, Stop_Loop)
                  else (t, Go_On)))"

definition on_control :: "bytes \<Rightarrow> 'w trunk \<Rightarrow> 'w trunk \<times> loop_result" where
  "on_control raw t =
     (case decode_control raw of None \<Rightarrow> (t, Go_On)
      | Some c \<Rightarrow> (t\<lparr>tk_session := fst (process_control (tk_session t) c)\<rparr>, Go_On))"

definition mock_space :: "mock_runtime_config \<Rightarrow> embedding_space_descriptor" where
  "mock_space cfg = \<lparr>sp_embedding_space_id = mk_embedding_space_id cfg, sp_model_id = mk_model_id cfg,
     sp_model_revision = [], sp_dimensions = mk_embedding_dimensions cfg, sp_normalization = 1, sp_distance_metric = 1\<rparr>"

definition mock_capabilities :: "mock_runtime_config \<Rightarrow> runtime_capabilities_descriptor" where
  "mock_capabilities cfg = no_capabilities\<lparr>cap_supported_models := [mk_model_id cfg],
     cap_supported_profiles := [rp_generate, rp_chat, rp_embed], cap_supports_streaming := True,
     cap_supports_cancellation := True, cap_supports_reasoning_deltas := mk_enable_reasoning cfg,
     cap_supports_structured_messages := True, cap_supported_embedding_spaces := [mock_space cfg]\<rparr>"

definition on_capabilities :: "'w os \<Rightarrow> mock_runtime_config \<Rightarrow> 'w trunk \<Rightarrow> 'w trunk \<times> loop_result" where
  "on_capabilities os cfg t =
     (let (w, c, ok) = send_capabilities os (tk_world t) (tk_conn t) (mock_capabilities cfg)
      in (t\<lparr>tk_world := w, tk_conn := c\<rparr>, Go_On))"

text \<open>Every frame but a bind is verified while SL1 is active, and refused when SL1 is required and inactive.\<close>

definition verify_inbound :: "mock_runtime_config \<Rightarrow> bytes \<Rightarrow> session_manager
    \<Rightarrow> session_manager \<times> runtime_error option" where
  "verify_inbound cfg raw m =
     (if sm_is_sl1_active m then
        (case verify_inbound_frame m raw Initiator_To_Responder of
           (m, Inl err) \<Rightarrow> (m, Some err) | (m, Inr _) \<Rightarrow> (m, None))
      else (m, if mk_require_sl1 cfg then Some (mk_error ec_unauthorized 401 ''auth_required'') else None))"

definition client_frame :: "'w os \<Rightarrow> mock_runtime_config \<Rightarrow> control_plane_router option \<Rightarrow> bytes \<Rightarrow> 'w trunk
    \<Rightarrow> 'w trunk \<times> loop_result" where
  "client_frame os cfg router raw t =
     (if length raw < LINEP_V02_HEADER_SIZE then (t, Stop_Loop)
      else case decode_header raw of None \<Rightarrow> (t, Stop_Loop)
      | Some hdr \<Rightarrow>
          if hdr_envelope_type hdr = et_session_bind then on_session_bind os cfg router raw t
          else (case verify_inbound cfg raw (tk_session t) of
             (m, Some err) \<Rightarrow> refuse_trunk os err (t\<lparr>tk_session := m\<rparr>)
           | (m, None) \<Rightarrow>
               let t = t\<lparr>tk_session := m\<rparr> in
               if hdr_envelope_type hdr = et_request then on_request os cfg router raw t
               else if hdr_envelope_type hdr = et_control then on_control raw t
               else if hdr_envelope_type hdr = et_capabilities then on_capabilities os cfg t
               else (t, Go_On)))"

section \<open>Output threads\<close>

text \<open>
  What a thread of \<open>execute_stream\<close> still has to do before it looks at the shared state again, and
  where it goes on then.
\<close>

datatype out_action = Dispatch event_envelope | Send event_envelope | Drop_Connection

datatype output_pc =
    Output_Start
  | Embed_Batch u64
  | Reasoning nat
  | Token u64
  | Window u64 string
  | Conclude
  | Output_End
  | Finished

record output_thread =
  ot_request :: request_envelope
  ot_output :: u32
  ot_seq :: u64
  ot_emitted :: int
  ot_text :: string
  ot_pc :: output_pc
  ot_todo :: "out_action list"

text \<open>Single-precision arithmetic of the platform, on bit patterns.\<close>

record f32_math =
  fm_of_u64 :: "u64 \<Rightarrow> f32"
  fm_sin :: "f32 \<Rightarrow> f32"
  fm_add :: "f32 \<Rightarrow> f32 \<Rightarrow> f32"
  fm_sub :: "f32 \<Rightarrow> f32 \<Rightarrow> f32"
  fm_mul :: "f32 \<Rightarrow> f32 \<Rightarrow> f32"
  fm_div :: "f32 \<Rightarrow> f32 \<Rightarrow> f32"
  fm_sqrt :: "f32 \<Rightarrow> f32"

definition embedding_vector :: "f32_math \<Rightarrow> u32 \<Rightarrow> u64 \<Rightarrow> f32 list" where
  "embedding_vector fm dims b =
     (let vals = map (\<lambda>i. fm_sin fm (fm_of_u64 fm (of_nat (i + 1) + b))) [0..<unat dims];
          norm = fm_sqrt fm (foldl (\<lambda>s v. fm_add fm s (fm_mul fm v v)) 0 vals)
      in map (\<lambda>v. fm_div fm v norm) vals)"

definition output_stream :: "request_envelope \<Rightarrow> u32 \<Rightarrow> stream_identity" where
  "output_stream req k = (req_stream req)\<lparr>output_id := output_id (req_stream req) + k\<rparr>"

definition delta_text :: "u64 \<Rightarrow> u32 \<Rightarrow> string" where
  "delta_text i k = ''Token_'' @ to_string i @ (if 0 < k then ''_out'' @ to_string k else []) @ '' ''"

definition out_event :: "stream_identity \<Rightarrow> u64 \<Rightarrow> runtime_event_type \<Rightarrow> string \<Rightarrow> event_envelope" where
  "out_event i sq ty payload = new_event\<lparr>evt_stream := i, evt_event_seq := sq, evt_event_type := ty, evt_payload := payload\<rparr>"

definition end_event :: "stream_identity \<Rightarrow> u64 \<Rightarrow> runtime_event_type \<Rightarrow> string \<Rightarrow> terminal_outcome \<Rightarrow> u32 \<Rightarrow> event_envelope" where
  "end_event i sq ty payload out code =
     (out_event i sq ty payload)\<lparr>evt_outcome := out, evt_error := no_error\<lparr>err_code := code\<rparr>\<rparr>"

text \<open>An event goes to the session first and then, whatever the session said, to the client.\<close>

definition emit :: "(u64 \<Rightarrow> event_envelope) \<Rightarrow> output_thread \<Rightarrow> output_thread" where
  "emit e t = t\<lparr>ot_seq := ot_seq t + 1, ot_todo := ot_todo t @ [Dispatch (e (ot_seq t)), Send (e (ot_seq t))]\<rparr>"

definition end_output :: "runtime_event_type \<Rightarrow> string \<Rightarrow> terminal_outcome \<Rightarrow> u32 \<Rightarrow> output_thread \<Rightarrow> output_thread" where
  "end_output ty payload out code t =
     (emit (\<lambda>sq. end_event (output_stream (ot_request t) (ot_output t)) sq ty payload out code) t)\<lparr>ot_pc := Output_End\<rparr>"

abbreviation (input) cancel_output :: "output_thread \<Rightarrow> output_thread" where
  "cancel_output t \<equiv> end_output re_cancelled ''Cancelled by client'' to_cancelled 499 t"

text \<open>The test for a forced failure after an emitted event.\<close>

definition fail_or :: "mock_runtime_config \<Rightarrow> output_pc \<Rightarrow> output_thread \<Rightarrow> output_thread" where
  "fail_or cfg pc t =
     (let t = t\<lparr>ot_emitted := ot_emitted t + 1\<rparr> in
      if 0 \<le> mk_fail_after_n cfg \<and> mk_fail_after_n cfg \<le> ot_emitted t
      then end_output re_failed ''Forced backend error'' to_failed 500 t
      else t\<lparr>ot_pc := pc\<rparr>)"

definition new_output_thread :: "mock_runtime_config \<Rightarrow> request_envelope \<Rightarrow> output_thread" where
  "new_output_thread cfg req =
     (let t = \<lparr>ot_request = req, ot_output = 0, ot_seq = 1, ot_emitted = 0, ot_text = [], ot_pc = Output_Start,
                ot_todo = []\<rparr>
      in if mk_cancel_after_accept cfg
         then let e = end_event (req_stream req) 1 re_cancelled ''Cancelled after accept'' to_cancelled 499
              in t\<lparr>ot_pc := Finished, ot_todo := [Dispatch e, Send e]\<rparr>
         else t)"

definition check_cancel :: "mock_runtime_config \<Rightarrow> bool \<Rightarrow> session_manager \<Rightarrow> stream_identity \<Rightarrow> bool" where
  "check_cancel cfg up m i =
     (if \<not> up then True else if mk_ignore_cancel cfg then False else is_cancel_requested m i)"

definition reasoning_chunks :: "string list" where
  "reasoning_chunks = [''Thinking through the query...'', ''Validating LiNeP V0.2 contract...'']"

text \<open>
  The next piece of a thread that has done what it had to do: \<open>up\<close> is that the server runs and the
  connection is open, \<open>stalled\<close> that more than 500 ms were spent waiting for the window.
\<close>

definition plan :: "f32_math \<Rightarrow> mock_runtime_config \<Rightarrow> bool \<Rightarrow> bool \<Rightarrow> session_manager \<Rightarrow> output_thread \<Rightarrow> output_thread" where
  "plan fm cfg up stalled m t =
     (let req = ot_request t; k = ot_output t; i = output_stream req k;
          cancelled = check_cancel cfg up m i in
      case ot_pc t of
        Output_Start \<Rightarrow>
          if k < (if 0 < mk_multi_output_count cfg then mk_multi_output_count cfg else 1)
          then t\<lparr>ot_seq := 1, ot_emitted := 0, ot_text := [],
                 ot_pc := (if req_profile req = rp_embed then Embed_Batch 0
                           else if mk_enable_reasoning cfg then Reasoning 0 else Token 1)\<rparr>
          else t\<lparr>ot_pc := Finished\<rparr>
      | Embed_Batch b \<Rightarrow>
          if b < (if 0 < mk_batch_embed_count cfg then mk_batch_embed_count cfg else 1)
          then (emit (\<lambda>sq. (out_event (i\<lparr>output_id := output_id i + ucast b\<rparr>) sq re_embedding_result [])\<lparr>
                  evt_embedding := \<lparr>emb_space = mock_space cfg,
                    emb_vector = embedding_vector fm (mk_embedding_dimensions cfg) b\<rparr>\<rparr>) t)\<lparr>ot_pc := Embed_Batch (b + 1)\<rparr>
          else end_output re_completed ''Embedding completed'' to_completed 200 t
      | Reasoning n \<Rightarrow>
          if length reasoning_chunks \<le> n then t\<lparr>ot_pc := Token 1\<rparr>
          else if cancelled then cancel_output t
          else fail_or cfg (Reasoning (n + 1))
                 (emit (\<lambda>sq. out_event i sq re_reasoning_delta (reasoning_chunks ! n)) t)
      | Token n \<Rightarrow>
          if mk_default_tokens cfg < n then t\<lparr>ot_pc := Conclude\<rparr>
          else if cancelled then cancel_output t
          else t\<lparr>ot_text := ot_text t @ delta_text n k, ot_pc := Window n (delta_text n k)\<rparr>
      | Window n delta \<Rightarrow>
          if up \<and> (case get_stream_state m i of None \<Rightarrow> False
                   | Some st \<Rightarrow> sd_max_buffered_bytes_per_stream (sm_descriptor m)
                       < unacked_buffered_bytes st + of_nat (length delta))
          then (if cancelled then cancel_output t
                else if stalled
                then end_output re_failed ''Client buffer window exhausted (backpressure stall)'' to_failed 507 t
                else t)
          else
            let e = out_event i (ot_seq t) (if mk_snapshot_mode cfg then re_content_snapshot else re_content_delta)
                      (if mk_snapshot_mode cfg then ot_text t else delta);
                t = emit (\<lambda>_. e) t;
                t = (if mk_duplicate_event cfg then t\<lparr>ot_todo := ot_todo t @ [Send e]\<rparr> else t)
            in fail_or cfg (Token (n + 1)) t
      | Conclude \<Rightarrow>
          if mk_disconnect_before_terminal cfg then t\<lparr>ot_todo := ot_todo t @ [Drop_Connection], ot_pc := Output_End\<rparr>
          else end_output re_completed ''Generation completed successfully'' to_completed 200 t
      | Output_End \<Rightarrow> t\<lparr>ot_output := k + 1, ot_pc := Output_Start\<rparr>
      | Finished \<Rightarrow> t)"

text \<open>One step of an output thread: an access to the session or the connection, or the next piece.\<close>

definition output_step :: "'w os \<Rightarrow> f32_math \<Rightarrow> mock_runtime_config \<Rightarrow> bool \<Rightarrow> bool \<Rightarrow> 'w trunk \<Rightarrow> output_thread
    \<Rightarrow> 'w trunk \<times> output_thread \<times> event_envelope list" where
  "output_step os fm cfg running stalled tk t =
     (case ot_todo t of
        [] \<Rightarrow> (tk, plan fm cfg (running \<and> is_connected (tk_conn tk)) stalled (tk_session tk) t, [])
      | Dispatch e # rest \<Rightarrow>
          (tk\<lparr>tk_session := fst (dispatch_event (tk_session tk) e)\<rparr>, t\<lparr>ot_todo := rest\<rparr>, [])
      | Send e # rest \<Rightarrow> (send_on os e tk, t\<lparr>ot_todo := rest\<rparr>, [e])
      | Drop_Connection # rest \<Rightarrow> (close_on os tk, t\<lparr>ot_todo := rest\<rparr>, []))"

definition output_done :: "output_thread \<Rightarrow> bool" where
  "output_done t \<longleftrightarrow> ot_pc t = Finished \<and> ot_todo t = []"

section \<open>The server on one connection\<close>

text \<open>
  \<open>client_loop\<close> reads and handles frames, each in one step; the output threads run beside it; \<open>stop\<close>
  clears the flag and closes the connection; the control plane of the router changes on its own.
\<close>

record 'w mock_server =
  sv_trunk :: "'w trunk"
  sv_running :: bool
  sv_reading :: bool
  sv_threads :: "output_thread list"
  sv_router :: "control_plane_router option"

definition new_mock_server :: "mock_runtime_config \<Rightarrow> 'w \<Rightarrow> envelope_connection \<Rightarrow> control_plane_router option \<Rightarrow> 'w mock_server" where
  "new_mock_server cfg w c router = \<lparr>sv_trunk = new_trunk cfg w c, sv_running = True, sv_reading = True,
     sv_threads = [], sv_router = router\<rparr>"

definition started_threads :: "mock_runtime_config \<Rightarrow> loop_result \<Rightarrow> output_thread list" where
  "started_threads cfg res = (case res of Start_Worker req \<Rightarrow> [new_output_thread cfg req] | _ \<Rightarrow> [])"

inductive mock_step :: "'w os \<Rightarrow> f32_math \<Rightarrow> mock_runtime_config \<Rightarrow> 'w mock_server \<Rightarrow> 'w mock_server \<Rightarrow> bool"
  for os fm cfg where
  reads: "sv_reading s \<Longrightarrow> sv_running s \<Longrightarrow> is_connected (tk_conn (sv_trunk s)) \<Longrightarrow>
    receive_envelope_raw os (tk_world (sv_trunk s)) (tk_conn (sv_trunk s)) = (w, c, Some raw) \<Longrightarrow>
    client_frame os cfg (sv_router s) raw ((sv_trunk s)\<lparr>tk_world := w, tk_conn := c\<rparr>) = (tk, res) \<Longrightarrow>
    mock_step os fm cfg s (s\<lparr>sv_trunk := tk, sv_reading := res \<noteq> Stop_Loop,
      sv_threads := sv_threads s @ started_threads cfg res\<rparr>)"
| read_fails: "sv_reading s \<Longrightarrow> sv_running s \<Longrightarrow> is_connected (tk_conn (sv_trunk s)) \<Longrightarrow>
    receive_envelope_raw os (tk_world (sv_trunk s)) (tk_conn (sv_trunk s)) = (w, c, None) \<Longrightarrow>
    mock_step os fm cfg s (s\<lparr>sv_trunk := (sv_trunk s)\<lparr>tk_world := w, tk_conn := c\<rparr>, sv_reading := False\<rparr>)"
| reading_ends: "sv_reading s \<Longrightarrow> \<not> (sv_running s \<and> is_connected (tk_conn (sv_trunk s))) \<Longrightarrow>
    mock_step os fm cfg s (s\<lparr>sv_reading := False\<rparr>)"
| output_steps: "sv_threads s = ps @ t # qs \<Longrightarrow>
    output_step os fm cfg (sv_running s) stalled (sv_trunk s) t = (tk, t', sent) \<Longrightarrow>
    mock_step os fm cfg s (s\<lparr>sv_trunk := tk, sv_threads := ps @ t' # qs\<rparr>)"
| threads_joined: "\<not> sv_reading s \<Longrightarrow> \<forall>t \<in> set (sv_threads s). output_done t \<Longrightarrow>
    mock_step os fm cfg s (s\<lparr>sv_trunk := close_on os (sv_trunk s)\<rparr>)"
| stopping: "mock_step os fm cfg s (s\<lparr>sv_running := False\<rparr>)"
| stop_closes: "\<not> sv_running s \<Longrightarrow> mock_step os fm cfg s (s\<lparr>sv_trunk := close_on os (sv_trunk s)\<rparr>)"
| router_changes: "mock_step os fm cfg s (s\<lparr>sv_router := map_option (\<lambda>_. r) (sv_router s)\<rparr>)"

inductive mock_reachable :: "'w os \<Rightarrow> f32_math \<Rightarrow> mock_runtime_config \<Rightarrow> 'w mock_server \<Rightarrow> bool"
  for os fm cfg where
  mock_init: "mock_reachable os fm cfg (new_mock_server cfg w c router)"
| mock_next: "mock_reachable os fm cfg s \<Longrightarrow> mock_step os fm cfg s s' \<Longrightarrow> mock_reachable os fm cfg s'"

end
