(* ===== verification/Mock_Runtime_Props.thy ===== *)
theory Mock_Runtime_Props
  imports Mock_Runtime
begin

unbundle bit_operations_syntax

text \<open>
What the mock runtime keeps to: the events of each output are numbered and end once, a worker starts
only for a request that passed every check, and what a repeated bind does to the numbers of the connection.
\<close>

section \<open>The events of an output thread\<close>

definition mock_outputs :: "mock_runtime_config \<Rightarrow> u32" where
  "mock_outputs cfg = (if 0 < mk_multi_output_count cfg then mk_multi_output_count cfg else 1)"

fun pending_sends :: "out_action list \<Rightarrow> event_envelope list" where
  "pending_sends [] = []"
| "pending_sends (Send e # as) = e # pending_sends as"
| "pending_sends (a # as) = pending_sends as"

lemma pending_sends_append [simp]: "pending_sends (as @ bs) = pending_sends as @ pending_sends bs"
  by (induction "as" rule: pending_sends.induct) auto

text \<open>A run of one thread; at each step the shared state is any.\<close>

inductive output_run :: "'w os \<Rightarrow> f32_math \<Rightarrow> mock_runtime_config \<Rightarrow> output_thread \<Rightarrow> event_envelope list
    \<Rightarrow> output_thread \<Rightarrow> bool" for os fm cfg t where
  run_start: "output_run os fm cfg t [] t"
| run_step: "output_run os fm cfg t es t' \<Longrightarrow> output_step os fm cfg running stalled tk t' = (tk', t'', sent) \<Longrightarrow>
    output_run os fm cfg t (es @ sent) t''"

definition of_output :: "request_envelope \<Rightarrow> u32 \<Rightarrow> event_envelope list \<Rightarrow> event_envelope list" where
  "of_output req k es = filter (\<lambda>e. evt_stream e = output_stream req k) es"

definition numbered :: "event_envelope list \<Rightarrow> bool" where
  "numbered es \<longleftrightarrow> map evt_event_seq es = map of_nat [1..<Suc (length es)] \<and> (\<forall>e \<in> set (butlast es). \<not> event_is_terminal e)"

definition ended :: "event_envelope list \<Rightarrow> bool" where
  "ended es \<longleftrightarrow> es \<noteq> [] \<and> event_is_terminal (last es)"

definition still_open :: "event_envelope list \<Rightarrow> u64 \<Rightarrow> bool" where
  "still_open es sq \<longleftrightarrow> numbered es \<and> sq = of_nat (Suc (length es)) \<and> (\<forall>e \<in> set es. \<not> event_is_terminal e)"

lemma output_stream_inj [simp]: "output_stream req k = output_stream req k' \<longleftrightarrow> k = k'"
proof
  assume "output_stream req k = output_stream req k'"
  then have "output_id (output_stream req k) = output_id (output_stream req k')" by simp
  then show "k = k'" by (simp add: output_stream_def)
qed simp

lemma of_output_append [simp]: "of_output req k (xs @ ys) = of_output req k xs @ of_output req k ys"
  "of_output req k [] = []"
  by (simp_all add: of_output_def)

lemma of_output_one [simp]:
  "evt_stream e = output_stream req j \<Longrightarrow> of_output req k [e] = (if k = j then [e] else [])"
  by (auto simp: of_output_def)

lemma numbered_snoc:
  "still_open es (evt_event_seq e) \<Longrightarrow> numbered (es @ [e])"
  by (auto simp: still_open_def numbered_def butlast_append)

lemma still_open_snoc:
  "still_open es (evt_event_seq e) \<Longrightarrow> \<not> event_is_terminal e \<Longrightarrow> still_open (es @ [e]) (evt_event_seq e + 1)"
  using numbered_snoc [of es e] by (auto simp: still_open_def)

lemma numbered_prefix: "numbered (xs @ ys) \<Longrightarrow> numbered xs"
proof -
  assume n: "numbered (xs @ ys)"
  have "map evt_event_seq xs = take (length xs) (map evt_event_seq (xs @ ys))" by simp
  also have "\<dots> = map of_nat [1..<Suc (length xs)]" using n by (simp add: numbered_def take_map del: upt_Suc map_append)
  finally have m: "map evt_event_seq xs = map of_nat [1..<Suc (length xs)]" .
  have "set (butlast xs) \<subseteq> set (butlast (xs @ ys))" by (auto simp: butlast_append dest: in_set_butlastD)
  then show ?thesis using n m by (auto simp: numbered_def)
qed

text \<open>The invariant of a run: \<open>es\<close> was sent, the todo list will be.\<close>

definition outs :: "event_envelope list \<Rightarrow> output_thread \<Rightarrow> u32 \<Rightarrow> event_envelope list" where
  "outs es t k = of_output (ot_request t) k (es @ pending_sends (ot_todo t))"

definition output_closed :: "mock_runtime_config \<Rightarrow> event_envelope list \<Rightarrow> bool" where
  "output_closed cfg es \<longleftrightarrow> numbered es \<and> (\<not> mk_disconnect_before_terminal cfg \<longrightarrow> ended es)"

definition here_ok :: "mock_runtime_config \<Rightarrow> event_envelope list \<Rightarrow> output_thread \<Rightarrow> bool" where
  "here_ok cfg es t = (case ot_pc t of
       Output_Start \<Rightarrow> outs es t (ot_output t) = []
     | Finished \<Rightarrow> outs es t (ot_output t) = [] \<and> mock_outputs cfg \<le> ot_output t
     | Output_End \<Rightarrow> ot_output t < mock_outputs cfg \<and> output_closed cfg (outs es t (ot_output t))
     | Embed_Batch b \<Rightarrow> False
     | _ \<Rightarrow> ot_output t < mock_outputs cfg \<and> still_open (outs es t (ot_output t)) (ot_seq t))"

definition thread_ok :: "mock_runtime_config \<Rightarrow> event_envelope list \<Rightarrow> output_thread \<Rightarrow> bool" where
  "thread_ok cfg es t \<longleftrightarrow> (\<forall>k < ot_output t. output_closed cfg (outs es t k)) \<and>
     (\<forall>k. ot_output t < k \<longrightarrow> outs es t k = []) \<and> here_ok cfg es t"

lemma emit_fields [simp]:
  "ot_request (emit f t) = ot_request t" "ot_output (emit f t) = ot_output t" "ot_pc (emit f t) = ot_pc t"
  "ot_seq (emit f t) = ot_seq t + 1" "ot_emitted (emit f t) = ot_emitted t" "ot_text (emit f t) = ot_text t"
  "pending_sends (ot_todo (emit f t)) = pending_sends (ot_todo t) @ [f (ot_seq t)]"
  by (simp_all add: emit_def)

lemma out_event_sel [simp]:
  "evt_stream (out_event i sq ty p) = i" "evt_event_seq (out_event i sq ty p) = sq" "evt_event_type (out_event i sq ty p) = ty"
  "evt_stream (end_event i sq ty p out code) = i" "evt_event_seq (end_event i sq ty p out code) = sq"
  "evt_event_type (end_event i sq ty p out code) = ty"
  by (simp_all add: out_event_def end_event_def)

lemma outs_emit:
  "evt_stream (f (ot_seq t)) = output_stream (ot_request t) (ot_output t) \<Longrightarrow>
     outs es (emit f t) k = outs es t k @ (if k = ot_output t then [f (ot_seq t)] else [])"
  by (simp add: outs_def)

lemma outs_updates [simp]:
  "outs es (t\<lparr>ot_pc := pc\<rparr>) = outs es t" "outs es (t\<lparr>ot_text := x\<rparr>) = outs es t"
  "outs es (t\<lparr>ot_seq := sq\<rparr>) = outs es t" "outs es (t\<lparr>ot_emitted := n\<rparr>) = outs es t"
  "outs es (t\<lparr>ot_output := k\<rparr>) = outs es t"
  by (auto simp: outs_def)

text \<open>The outputs before and after the current one.\<close>

definition others_ok :: "mock_runtime_config \<Rightarrow> event_envelope list \<Rightarrow> output_thread \<Rightarrow> bool" where
  "others_ok cfg es t \<longleftrightarrow> (\<forall>k < ot_output t. output_closed cfg (outs es t k)) \<and> (\<forall>k. ot_output t < k \<longrightarrow> outs es t k = []) \<and>
     ot_output t < mock_outputs cfg"

lemma end_output_ok:
  assumes "others_ok cfg es t" and "still_open (outs es t (ot_output t)) (ot_seq t)"
    and "ty = re_completed \<or> ty = re_cancelled \<or> ty = re_failed"
  shows "thread_ok cfg es (end_output ty payload out code t)"
proof -
  have "event_is_terminal (end_event i sq ty payload out code)" for i sq
    using assms(3) by (auto simp: event_is_terminal_def)
  then show ?thesis
    using assms(1,2) numbered_snoc [of "outs es t (ot_output t)" "end_event (output_stream (ot_request t) (ot_output t)) (ot_seq t) ty payload out code"]
    by (auto simp: thread_ok_def here_ok_def end_output_def outs_emit others_ok_def output_closed_def ended_def)
qed

lemma emit_open:
  assumes "others_ok cfg es t" and "still_open (outs es t (ot_output t)) (ot_seq t)"
    and "evt_stream (f (ot_seq t)) = output_stream (ot_request t) (ot_output t)" and "evt_event_seq (f (ot_seq t)) = ot_seq t"
    and "\<not> event_is_terminal (f (ot_seq t))"
  shows "others_ok cfg es (emit f t) \<and> still_open (outs es (emit f t) (ot_output t)) (ot_seq (emit f t))"
  using assms still_open_snoc [of "outs es t (ot_output t)" "f (ot_seq t)"]
  by (auto simp: outs_emit others_ok_def)

lemma fail_or_ok:
  assumes "others_ok cfg es t" and "still_open (outs es t (ot_output t)) (ot_seq t)"
    and "\<And>t. ot_pc t = pc \<Longrightarrow> here_ok cfg es t = (ot_output t < mock_outputs cfg \<and> still_open (outs es t (ot_output t)) (ot_seq t))"
  shows "thread_ok cfg es (fail_or cfg pc t)"
proof -
  have "others_ok cfg es (t\<lparr>ot_emitted := n\<rparr>)" "still_open (outs es (t\<lparr>ot_emitted := n\<rparr>) (ot_output t)) (ot_seq t)" for n
    using assms by (simp_all add: others_ok_def)
  then show ?thesis using assms end_output_ok [of cfg es "t\<lparr>ot_emitted := ot_emitted t + 1\<rparr>" re_failed]
    by (auto simp: fail_or_def Let_def thread_ok_def others_ok_def)
qed

lemma plan_ok:
  assumes "thread_ok cfg es t" and "ot_todo t = []" and "req_profile (ot_request t) \<noteq> rp_embed" and "\<not> mk_duplicate_event cfg"
  shows "thread_ok cfg es (plan fm cfg up stalled m t)"
proof (cases "ot_pc t")
  case Output_Start
  then show ?thesis using assms
    by (auto simp: plan_def thread_ok_def here_ok_def mock_outputs_def Let_def not_less still_open_def numbered_def split: if_splits)
next
  case (Embed_Batch b)
  then show ?thesis using assms by (simp add: thread_ok_def here_ok_def)
next
  case (Reasoning n)
  then have o: "others_ok cfg es t" "still_open (outs es t (ot_output t)) (ot_seq t)"
    using assms by (auto simp: thread_ok_def here_ok_def others_ok_def)
  have e: "others_ok cfg es (emit (\<lambda>sq. out_event (output_stream (ot_request t) (ot_output t)) sq re_reasoning_delta (reasoning_chunks ! n)) t) \<and>
      still_open (outs es (emit (\<lambda>sq. out_event (output_stream (ot_request t) (ot_output t)) sq re_reasoning_delta (reasoning_chunks ! n)) t) (ot_output t))
        (ot_seq t + 1)"
    using emit_open [OF o, of "\<lambda>sq. out_event (output_stream (ot_request t) (ot_output t)) sq re_reasoning_delta (reasoning_chunks ! n)"]
    by (simp add: event_is_terminal_def)
  show ?thesis using Reasoning o e assms
    by (auto simp: plan_def Let_def intro!: end_output_ok fail_or_ok) (auto simp: thread_ok_def here_ok_def others_ok_def)
next
  case (Token n)
  then have o: "others_ok cfg es t" "still_open (outs es t (ot_output t)) (ot_seq t)"
    using assms by (auto simp: thread_ok_def here_ok_def others_ok_def)
  then show ?thesis using Token
    by (auto simp: plan_def Let_def intro!: end_output_ok) (auto simp: thread_ok_def here_ok_def others_ok_def)
next
  case (Window n delta)
  then have o: "others_ok cfg es t" "still_open (outs es t (ot_output t)) (ot_seq t)"
    using assms by (auto simp: thread_ok_def here_ok_def others_ok_def)
  have e: "others_ok cfg es (emit (\<lambda>_. out_event (output_stream (ot_request t) (ot_output t)) (ot_seq t) ty p) t) \<and>
      still_open (outs es (emit (\<lambda>_. out_event (output_stream (ot_request t) (ot_output t)) (ot_seq t) ty p) t) (ot_output t))
        (ot_seq t + 1)" if "ty = re_content_snapshot \<or> ty = re_content_delta" for ty p
    using emit_open [OF o, of "\<lambda>_. out_event (output_stream (ot_request t) (ot_output t)) (ot_seq t) ty p"] that
    by (auto simp: event_is_terminal_def)
  show ?thesis using Window o e assms
    by (auto simp: plan_def Let_def intro!: end_output_ok fail_or_ok) (auto simp: thread_ok_def here_ok_def others_ok_def)
next
  case Conclude
  then have o: "others_ok cfg es t" "still_open (outs es t (ot_output t)) (ot_seq t)"
    using assms by (auto simp: thread_ok_def here_ok_def others_ok_def)
  then show ?thesis using Conclude assms(2)
    by (auto simp: plan_def Let_def intro!: end_output_ok)
      (auto simp: thread_ok_def here_ok_def others_ok_def output_closed_def still_open_def outs_def)
next
  case Output_End
  then have lt: "ot_output t < mock_outputs cfg" using assms by (simp add: thread_ok_def here_ok_def)
  then have "k < ot_output t + 1 \<longleftrightarrow> k < ot_output t \<or> k = ot_output t" "ot_output t + 1 < k \<Longrightarrow> ot_output t < k" for k
    by uint_arith+
  then show ?thesis using Output_End assms by (auto simp: plan_def thread_ok_def here_ok_def Let_def)
next
  case Finished
  then show ?thesis using assms by (simp add: plan_def Let_def)
qed

lemma output_step_ok:
  assumes "thread_ok cfg es t" and "req_profile (ot_request t) \<noteq> rp_embed" and "\<not> mk_duplicate_event cfg"
    and "output_step os fm cfg running stalled tk t = (tk', t', sent)"
  shows "thread_ok cfg (es @ sent) t' \<and> ot_request t' = ot_request t"
proof (cases "ot_todo t")
  case Nil
  have r: "ot_request (end_output ty p out code u) = ot_request u" "ot_request (fail_or cfg pc u) = ot_request u" for ty p out code u pc
    by (simp_all add: end_output_def fail_or_def Let_def)
  have "ot_request (plan fm cfg up stalled m t) = ot_request t" for up m
    by (cases "ot_pc t") (simp_all add: plan_def r Let_def)
  then show ?thesis using assms Nil plan_ok [OF assms(1) Nil assms(2,3)] by (auto simp: output_step_def)
next
  case (Cons a rest)
  have o: "outs (es @ sent) t' = outs es t" "ot_request t' = ot_request t" "ot_output t' = ot_output t" "ot_pc t' = ot_pc t"
    "ot_seq t' = ot_seq t"
    using assms(4) Cons by (auto simp: output_step_def outs_def split: out_action.splits)
  then have "here_ok cfg (es @ sent) t' = here_ok cfg es t" by (simp add: here_ok_def split: output_pc.split)
  then show ?thesis using assms(1) o by (simp add: thread_ok_def)
qed

lemma output_run_ok:
  assumes "output_run os fm cfg (new_output_thread cfg req) es t" and "req_profile req \<noteq> rp_embed"
    and "\<not> mk_duplicate_event cfg" and "\<not> mk_cancel_after_accept cfg"
  shows "thread_ok cfg es t \<and> ot_request t = req"
  using assms(1)
proof induction
  case run_start
  show ?case using assms(4)
    by (simp add: new_output_thread_def Let_def thread_ok_def here_ok_def outs_def not_less)
next
  case (run_step es t' running stalled tk tk' t'' sent)
  then show ?case using output_step_ok [of cfg es t'] assms(2,3) by blast
qed


section \<open>Admission of requests\<close>

lemma decode_header_take: "decode_header (take 32 raw) = decode_header raw"
proof (cases "length raw < 32")
  case False
  then show ?thesis by (simp add: decode_header_def)
qed simp

lemma send_on_session [simp]: "tk_session (send_on os e t) = tk_session t"
  by (simp add: send_on_def split: prod.split)

lemma close_on_session [simp]: "tk_session (close_on os t) = tk_session t"
  by (simp add: close_on_def split: prod.split)

lemma confirm_bind_session [simp]: "tk_session (confirm_bind os b t) = tk_session t"
  by (simp add: confirm_bind_def Let_def split: prod.split)

lemma refuse_trunk_sel [simp]:
  "snd (refuse_trunk os err t) = Stop_Loop" "tk_session (fst (refuse_trunk os err t)) = tk_session t"
  by (simp_all add: refuse_trunk_def)

lemma mark_stale_descriptor [simp]: "sm_descriptor (mark_binding_stale m) = sm_descriptor m"
  by (simp add: mark_binding_stale_def)

lemma recheck_descriptor [simp]: "sm_descriptor (recheck_lease router m) = sm_descriptor m"
  by (simp add: recheck_lease_def split: option.split)

lemma verify_inbound_descriptor: "verify_inbound cfg raw m = (m', e) \<Longrightarrow> sm_descriptor m' = sm_descriptor m"
  using frame_inbound [of m raw Initiator_To_Responder]
  by (auto simp: verify_inbound_def binding_frame_def split: if_splits prod.splits sum.splits)

lemma client_frame_descriptor:
  assumes "client_frame os cfg router raw t = (t', res)"
  shows "sm_descriptor (tk_session t') = sm_descriptor (tk_session t)"
proof -
  have b: "sm_descriptor (tk_session (fst (on_session_bind os cfg router raw t))) = sm_descriptor (tk_session t)" for t :: "'a trunk"
  proof (cases "decode_session_bind new_session_bind raw")
    case (Some b)
    obtain m r where p: "process_session_bind (tk_session t) b router = (m, r)" by (cases "process_session_bind (tk_session t) b router")
    then have "sm_descriptor m = sm_descriptor (tk_session t)" using bind_descriptor [of "tk_session t" b router] by simp
    with Some p show ?thesis
      by (cases r; cases "bind_refusal (tk_session t) raw b") (simp_all add: on_session_bind_def)
  qed (simp add: on_session_bind_def)
  have r: "sm_descriptor (tk_session (fst (on_request os cfg router raw t))) = sm_descriptor (tk_session t)" for t :: "'a trunk"
  proof (cases "decode_request raw")
    case (Some req)
    obtain m r where p: "submit_request (recheck_lease router (tk_session t)) req = (m, r)"
      by (cases "submit_request (recheck_lease router (tk_session t)) req")
    then have "sm_descriptor m = sm_descriptor (tk_session t)"
      using frame_submit [of "recheck_lease router (tk_session t)" req] by (simp add: binding_frame_def)
    with Some p show ?thesis by (cases r) (simp_all add: on_request_def Let_def)
  qed (simp add: on_request_def)
  have c: "sm_descriptor (tk_session (fst (on_control raw t))) = sm_descriptor (tk_session t)" for t :: "'a trunk"
    using frame_control by (auto simp: on_control_def binding_frame_def split: option.split)
  have k: "tk_session (fst (on_capabilities os cfg t)) = tk_session t" for t :: "'a trunk"
    by (simp add: on_capabilities_def split: prod.split)
  have e: "t' = fst (client_frame os cfg router raw t)" using assms by simp
  show ?thesis unfolding e client_frame_def
    by (auto simp: b r c k Let_def split: option.split prod.split dest: verify_inbound_descriptor)
qed

lemma output_step_descriptor:
  "output_step os fm cfg running stalled tk t = (tk', t', sent) \<Longrightarrow>
     sm_descriptor (tk_session tk') = sm_descriptor (tk_session tk)"
  using frame_dispatch [of "tk_session tk"]
  by (auto simp: output_step_def binding_frame_def split: list.splits out_action.splits)

lemma mock_descriptor_kept: "mock_reachable os fm cfg s \<Longrightarrow> sm_descriptor (tk_session (sv_trunk s)) = mock_descriptor cfg"
proof (induction rule: mock_reachable.induct)
  case (mock_init w c router)
  show ?case by (simp add: new_mock_server_def new_trunk_def new_session_manager_def)
next
  case (mock_next s s')
  from mock_next.hyps(2) show ?case
    by cases (use mock_next.IH in \<open>auto dest: client_frame_descriptor output_step_descriptor\<close>)
qed

text \<open>What \<open>verify_inbound\<close> lets pass on an active session carries the next number and a valid tag.\<close>

definition tagged_in_turn :: "session_manager \<Rightarrow> bytes \<Rightarrow> bool" where
  "tagged_in_turn m raw \<longleftrightarrow> (\<exists>ext key. auth_seq ext = sm_expected_inbound_auth_seq m \<and>
     lookup (sd_sl1_keys (sm_descriptor m)) (auth_key_id ext) = Some key \<and>
     verify_envelope_buffer raw (sm_bound_bind m) Initiator_To_Responder key = Inr ext)"

lemma verify_inbound_pass:
  assumes "verify_inbound cfg raw m = (m', None)" and "decode_header raw = Some hdr" and "hdr_envelope_type hdr \<noteq> et_session_bind"
  shows "(mk_require_sl1 cfg \<longrightarrow> sm_is_sl1_active m) \<and> (sm_is_sl1_active m \<longrightarrow> tagged_in_turn m raw) \<and>
    sm_active_streams m' = sm_active_streams m \<and> sm_binding_state m' = sm_binding_state m \<and>
    sm_bound_bind m' = sm_bound_bind m \<and> sm_descriptor m' = sm_descriptor m"
proof (cases "sm_is_sl1_active m")
  case True
  then obtain r where v: "verify_inbound_frame m raw Initiator_To_Responder = (m', Inr r)"
    using assms(1) by (auto simp: verify_inbound_def split: prod.splits sum.splits)
  have "r \<noteq> None" using v assms(2,3) True
    by (auto simp: verify_inbound_frame_def Let_def decode_header_take split: if_splits option.splits sum.splits)
  then obtain ext where "r = Some ext" by auto
  with inbound_accepted [of m raw Initiator_To_Responder m' ext] v True show ?thesis
    by (auto simp: tagged_in_turn_def)
next
  case False
  then show ?thesis using assms(1) by (auto simp: verify_inbound_def split: if_splits)
qed

lemma submit_accepted:
  "submit_request m req = (m', Inr ()) \<Longrightarrow> request_is_valid req \<and>
     \<not> (sd_require_lease (sm_descriptor m) \<and> sm_binding_state m = Unbound) \<and>
     \<not> (sd_require_lease (sm_descriptor m) \<and> sm_binding_state m = Bound_Stale) \<and>
     lookup (sm_active_streams m) (req_stream req) = None \<and> m' = set_stream m (new_active_stream req) (req_stream req)"
  by (simp add: submit_request_def split: if_split_asm)

text \<open>
  C38: admission. In every reachable state of the server a frame starts a worker only if it is a valid
  request of a stream the session does not know yet; if SL1 is required it is active; if SL1 is
  active the frame has the next sequence number and a valid tag under a configured key; and if a
  lease is required the session is bound and the control plane says the lease is current now.
\<close>

theorem admitted_request_checked:
  assumes "mock_reachable os fm cfg s" and "tk_session (sv_trunk s) = m"
    and "client_frame os cfg (sv_router s) raw ((sv_trunk s)\<lparr>tk_world := w, tk_conn := c\<rparr>) = (tk, Start_Worker req)"
  shows "decode_request raw = Some req \<and> request_is_valid req \<and> lookup (sm_active_streams m) (req_stream req) = None \<and>
    lookup (sm_active_streams (tk_session tk)) (req_stream req) = Some (new_active_stream req) \<and>
    (mk_require_sl1 cfg \<longrightarrow> sm_is_sl1_active m) \<and> (sm_is_sl1_active m \<longrightarrow> tagged_in_turn m raw) \<and>
    (mk_require_lease cfg \<longrightarrow> sm_binding_state m = Bound_Current \<and>
      (\<forall>r. sv_router s = Some r \<longrightarrow> validate_tcp_session_binding r (bind_identity (sm_bound_bind m))
         (bind_control_epoch (sm_bound_bind m)) (bind_lease_token (sm_bound_bind m))))"
proof -
  let ?t = "(sv_trunk s)\<lparr>tk_world := w, tk_conn := c\<rparr>"
  note f = assms(3)
  have l: "\<not> length raw < 32" using f by (intro notI) (simp add: client_frame_def)
  obtain hdr where h: "decode_header raw = Some hdr" using f l by (cases "decode_header raw") (auto simp: client_frame_def)
  have nb: "hdr_envelope_type hdr \<noteq> et_session_bind"
  proof
    assume "hdr_envelope_type hdr = et_session_bind"
    then have "on_session_bind os cfg (sv_router s) raw ?t = (tk, Start_Worker req)" using f l h by (simp add: client_frame_def)
    then have "snd (on_session_bind os cfg (sv_router s) raw ?t) = Start_Worker req" by simp
    then show False by (auto simp: on_session_bind_def split: option.splits prod.splits sum.splits if_splits)
  qed
  obtain m1 e where v: "verify_inbound cfg raw m = (m1, e)" by (cases "verify_inbound cfg raw m")
  have e: "e = None"
  proof (rule ccontr)
    assume "e \<noteq> None"
    then have "refuse_trunk os (the e) (?t\<lparr>tk_session := m1\<rparr>) = (tk, Start_Worker req)"
      using f l h nb v assms(2) by (auto simp: client_frame_def)
    then show False by (metis refuse_trunk_sel(1) loop_result.distinct(5) snd_conv)
  qed
  have ty: "on_request os cfg (sv_router s) raw (?t\<lparr>tk_session := m1\<rparr>) = (tk, Start_Worker req)"
    using f l h nb v e assms(2)
    by (auto simp: client_frame_def Let_def on_control_def on_capabilities_def split: if_splits option.splits prod.splits)
  note p = verify_inbound_pass [OF v [unfolded e] h nb]
  have d: "sm_descriptor m1 = mock_descriptor cfg" using p mock_descriptor_kept [OF assms(1)] assms(2) by simp
  obtain m2 where r: "decode_request raw = Some req" and u: "submit_request (recheck_lease (sv_router s) m1) req = (m2, Inr ())"
    and tk: "tk_session tk = m2"
    using ty by (auto simp: on_request_def Let_def split: option.splits prod.splits sum.splits if_splits)
  have k: "sm_active_streams (recheck_lease (sv_router s) m1) = sm_active_streams m1"
    by (simp add: recheck_lease_def mark_binding_stale_def split: option.split)
  let ?m = "recheck_lease (sv_router s) m1"
  have n: "request_is_valid req" "\<not> (sd_require_lease (sm_descriptor ?m) \<and> sm_binding_state ?m = Unbound)"
    "\<not> (sd_require_lease (sm_descriptor ?m) \<and> sm_binding_state ?m = Bound_Stale)"
    "lookup (sm_active_streams ?m) (req_stream req) = None" "m2 = set_stream ?m (new_active_stream req) (req_stream req)"
    using submit_accepted [OF u] by blast+
  have sub: "request_is_valid req" "lookup (sm_active_streams m1) (req_stream req) = None"
    "lookup (sm_active_streams m2) (req_stream req) = Some (new_active_stream req)"
    using n k by (simp_all add: set_stream_def update_conv')
  have "mk_require_lease cfg \<longrightarrow> sm_binding_state ?m = Bound_Current"
    using n(2,3) d by (cases "sm_binding_state ?m") (simp_all add: mock_descriptor_def)
  then have "mk_require_lease cfg \<longrightarrow> sm_binding_state m1 = Bound_Current \<and>
      (\<forall>r. sv_router s = Some r \<longrightarrow> validate_tcp_session_binding r (bind_identity (sm_bound_bind m1))
         (bind_control_epoch (sm_bound_bind m1)) (bind_lease_token (sm_bound_bind m1)))"
    by (auto simp: recheck_lease_def mark_binding_stale_def split: option.splits if_splits)
  then show ?thesis using r sub tk p by auto
qed

section \<open>A repeated bind\<close>

lemma send_bytes_keeps_number: "cn_next_auth_seq (fst (snd (send_bytes_locked os w c d))) = cn_next_auth_seq c"
  by (auto simp: send_bytes_locked_def close_connection_def Let_def split: prod.split)

lemma confirm_bind_numbers:
  assumes "get_sl1_key (tk_session t) (auth_key_id (bind_auth_ext b)) = Some key" and "32 \<le> length key"
    and "bind_sl1_requested b"
  shows "cn_next_auth_seq (tk_conn (confirm_bind os b t)) \<le> 2"
proof -
  have k: "key \<noteq> []" "\<not> length key < 32" using assms(2) by auto
  let ?c = "set_sl1_auth (tk_conn t) b Responder_To_Initiator (auth_key_id (bind_auth_ext b)) key"
  have c: "cn_next_auth_seq ?c = 1" "cn_sl1_key ?c = key" using k by (simp_all add: set_sl1_auth_def)
  have w: "\<not> (0xFFFFFFFF :: u32) \<le> 1" by (simp add: word_le_nat_alt)
  obtain w' c' ok where s: "send_session_bind os (tk_world t) ?c (b\<lparr>bind_sl1_requested := True\<rparr>) = (w', c', ok)"
    by (rule prod_cases3)
  have "cn_next_auth_seq (fst (snd (send_session_bind os (tk_world t) ?c (b\<lparr>bind_sl1_requested := True\<rparr>)))) \<in> {1, 2}"
    using c k w by (auto simp: send_session_bind_def Let_def send_bytes_keeps_number split: option.splits)
  then have "cn_next_auth_seq c' = 1 \<or> cn_next_auth_seq c' = 2" by (simp add: s)
  moreover have "tk_conn (confirm_bind os b t) = c'" using assms(1,3) s by (simp add: confirm_bind_def)
  ultimately show ?thesis by auto
qed

text \<open>
  A second bind with the bytes of the first passes the test of its number, which is 1 again. The
  session keeps its counters, but the connection numbers its frames from 1 again, so the frames that follow are
  signed with numbers that signed other frames before.
\<close>

theorem repeated_bind_renumbers:
  assumes "decode_session_bind new_session_bind raw = Some b" and "bind_sl1_requested b"
    and "sm_binding_state (tk_session t) = Bound_Current" and "same_bind (sm_bound_bind (tk_session t)) b"
    and "get_sl1_key (tk_session t) (auth_key_id (bind_auth_ext b)) = Some key" and "32 \<le> length key"
    and "on_session_bind os cfg router raw t = (t', Go_On)"
  shows "tk_session t' = tk_session t \<and> cn_next_auth_seq (tk_conn t') \<le> 2"
proof -
  have r: "bind_refusal (tk_session t) raw b = None" using assms(1,7)
    by (auto simp: on_session_bind_def refuse_trunk_def split: if_splits option.splits)
  obtain m res where p: "process_session_bind (tk_session t) b router = (m, res)" by (cases "process_session_bind (tk_session t) b router")
  then have "isl res \<or> m = tk_session t"
    using assms(3,4) by (auto simp: process_session_bind_def Let_def split: if_splits option.splits)
  moreover have "\<not> isl res" and "t' = confirm_bind os b (t\<lparr>tk_session := m\<rparr>)"
    using assms(1,7) r p by (auto simp: on_session_bind_def refuse_trunk_def split: if_splits sum.splits)
  ultimately show ?thesis using confirm_bind_numbers [of "t\<lparr>tk_session := m\<rparr>" b key os] assms(2,5,6) by simp
qed

end
