(* ===== verification/Mock_Examples.thy ===== *)
theory Mock_Examples
  imports Mock_Runtime_Props Connection_Examples
begin

unbundle bit_operations_syntax

text \<open>
A request that the mock runtime admits, and an output thread that runs to its end.
\<close>

definition ex_mock_config :: mock_runtime_config where
  "ex_mock_config = default_mock_config\<lparr>mk_enable_reasoning := False, mk_default_tokens := 0\<rparr>"

lemma ex_request_header:
  "decode_header ex_request_wire = Some (envelope_header et_request (req_stream ex_request_sorted) (request_body ex_request_sorted))"
  "\<not> length ex_request_wire < 32"
proof -
  have f: "length (request_body ex_request_sorted) < 2 ^ 32" using ex_request_fits(4) .
  then show d: "decode_header ex_request_wire = Some (envelope_header et_request (req_stream ex_request_sorted) (request_body ex_request_sorted))"
    unfolding ex_request_wire_def by (simp add: close_envelope_def)
  then show "\<not> length ex_request_wire < 32" by (auto simp: decode_header_def split: if_splits)
qed

lemma ex_admitted:
  "\<exists>tk. client_frame os default_mock_config None ex_request_wire
     ((sv_trunk (new_mock_server default_mock_config w c None))\<lparr>tk_world := w, tk_conn := c\<rparr>) = (tk, Start_Worker ex_request_sorted)"
proof -
  have s: "\<exists>m. submit_request (new_session_manager (mock_descriptor default_mock_config)) ex_request_sorted = (m, Inr ())"
    using ex_request_valid(2)
    by (simp add: submit_request_def new_session_manager_def mock_descriptor_def default_mock_config_def
        default_session_descriptor_def get_active_stream_count_def)
  have i: "\<not> sm_is_sl1_active (new_session_manager d)" for d by (simp add: new_session_manager_def)
  have ty: "hdr_envelope_type (envelope_header et_request st p) = et_request" for st p
    by (simp add: envelope_header_def)
  have k: "mk_require_sl1 default_mock_config = False" by (simp add: default_mock_config_def)
  from s obtain m where "submit_request (new_session_manager (mock_descriptor default_mock_config)) ex_request_sorted = (m, Inr ())" by blast
  then show ?thesis
    using i ty k ex_request_header ex_request_wire
    by (simp add: client_frame_def new_mock_server_def new_trunk_def verify_inbound_def on_request_def recheck_lease_def)
qed

lemma admitted_request_checked_witness:
  "\<exists>c tk. client_frame ex_os default_mock_config None ex_request_wire
     ((sv_trunk (new_mock_server default_mock_config ([], []) c None))\<lparr>tk_world := ([], []), tk_conn := c\<rparr>) =
       (tk, Start_Worker ex_request_sorted) \<and>
     lookup (sm_active_streams (tk_session tk)) (req_stream ex_request_sorted) = Some (new_active_stream ex_request_sorted)"
proof -
  have r: "sv_router (new_mock_server default_mock_config ([], []) c None) = None" for c :: envelope_connection by (simp add: new_mock_server_def)
  let ?c = "undefined :: envelope_connection"
  obtain tk where f: "client_frame ex_os default_mock_config None ex_request_wire
     ((sv_trunk (new_mock_server default_mock_config ([], []) ?c None))\<lparr>tk_world := ([], []), tk_conn := ?c\<rparr>) =
       (tk, Start_Worker ex_request_sorted)" using ex_admitted [where os = ex_os and w = "([], [])" and c = ?c] by blast
  then have "client_frame ex_os default_mock_config (sv_router (new_mock_server default_mock_config ([], []) ?c None)) ex_request_wire
     ((sv_trunk (new_mock_server default_mock_config ([], []) ?c None))\<lparr>tk_world := ([], []), tk_conn := ?c\<rparr>) =
       (tk, Start_Worker ex_request_sorted)" by (simp only: r)
  from f admitted_request_checked [OF mock_init refl this] show ?thesis by blast
qed

text \<open>A thread that has no tokens to send completes its one output.\<close>

definition ex_completed :: event_envelope where
  "ex_completed = end_event (output_stream ex_request_sorted 0) 1 re_completed ''Generation completed successfully'' to_completed 200"

lemma ex_output_thread:
  "new_output_thread ex_mock_config ex_request_sorted =
     \<lparr>ot_request = ex_request_sorted, ot_output = 0, ot_seq = 1, ot_emitted = 0, ot_text = [], ot_pc = Output_Start, ot_todo = []\<rparr>"
  by (simp add: new_output_thread_def ex_mock_config_def default_mock_config_def)

lemma ex_output_run:
  fixes os :: "'w os" and tk :: "'w trunk"
  shows "\<exists>t. output_run os fm ex_mock_config (new_output_thread ex_mock_config ex_request_sorted) [ex_completed] t \<and> output_done t"
proof -
  let ?t = "\<lambda>k sq pc todo. \<lparr>ot_request = ex_request_sorted, ot_output = k, ot_seq = sq, ot_emitted = 0, ot_text = [], ot_pc = pc, ot_todo = todo\<rparr>"
  let ?run = "output_run os fm ex_mock_config (?t 0 1 Output_Start [])"
  have p: "req_profile ex_request_sorted \<noteq> rp_embed" by (simp add: ex_request_sorted_def ex_request_def)
  note simps = output_step_def plan_def Let_def ex_mock_config_def default_mock_config_def p end_output_def emit_def
  note step = run_step [where running = False and stalled = False and tk = tk]
  have "?run [] (?t 0 1 Output_Start [])" by (rule run_start)
  from step [OF this] have "?run [] (?t 0 1 (Token 1) [])" by (simp add: simps)
  from step [OF this] have "?run [] (?t 0 1 Conclude [])" by (simp add: simps)
  from step [OF this] have "?run [] (?t 0 2 Output_End [Dispatch ex_completed, Send ex_completed])"
    by (simp add: simps ex_completed_def)
  from step [OF this] have "?run [] (?t 0 2 Output_End [Send ex_completed])" by (simp add: output_step_def)
  from step [OF this] have "?run [ex_completed] (?t 0 2 Output_End [])" by (simp add: output_step_def)
  from step [OF this] have "?run [ex_completed] (?t 1 2 Output_Start [])" by (simp add: simps)
  from step [OF this] have "?run [ex_completed] (?t 1 2 Finished [])" by (simp add: simps)
  moreover have "output_done (?t 1 2 Finished [])" by (simp add: output_done_def)
  ultimately show ?thesis unfolding ex_output_thread by blast
qed


end
