(* ===== verification/Udp_Channel.thy ===== *)
theory Udp_Channel
  imports Connection Control_Plane
begin

unbundle bit_operations_syntax

text \<open>
  \<open>udp_endpoint_channel\<close> of \<open>LiNeP/src/v0_2/udp_transport.cpp\<close>. The operating system (sockets,
  clocks, random numbers) is a parameter: the record \<open>udp_os\<close> of functions on a state of its own.
  A \<open>recvfrom\<close> returns its count and the bytes it put into the buffer; without a socket name the
  requested port is kept.
\<close>

section \<open>The operating system's calls\<close>

record 'w udp_os =
  uo_open :: "'w \<Rightarrow> 'w \<times> fd option"
  uo_bind :: "'w \<Rightarrow> fd \<Rightarrow> u16 \<Rightarrow> 'w \<times> bool"
  uo_timeout :: "'w \<Rightarrow> fd \<Rightarrow> u32 \<Rightarrow> 'w"
  uo_sockname :: "'w \<Rightarrow> fd \<Rightarrow> u16 option"
  uo_sendto :: "'w \<Rightarrow> fd \<Rightarrow> string \<Rightarrow> u16 \<Rightarrow> bytes \<Rightarrow> 'w \<times> int"
  uo_recvfrom :: "'w \<Rightarrow> fd \<Rightarrow> nat \<Rightarrow> 'w \<times> int \<times> bytes \<times> string \<times> u16"
  uo_close :: "'w \<Rightarrow> fd \<Rightarrow> 'w"
  uo_steady_ns :: "'w \<Rightarrow> 'w \<times> nat"
  uo_wall_us :: "'w \<Rightarrow> 'w \<times> int"
  uo_random :: "'w \<Rightarrow> 'w \<times> u64"

section \<open>The channel\<close>

record udp_endpoint_channel =
  ch_sock :: fd
  ch_bound_port :: u16

definition new_channel :: udp_endpoint_channel where
  "new_channel = \<lparr>ch_sock = no_socket, ch_bound_port = 0\<rparr>"

definition channel_is_open :: "udp_endpoint_channel \<Rightarrow> bool" where
  "channel_is_open c \<longleftrightarrow> ch_sock c \<noteq> no_socket"

definition channel_close ::
  "'w udp_os \<Rightarrow> 'w \<Rightarrow> udp_endpoint_channel \<Rightarrow> 'w \<times> udp_endpoint_channel" where
  "channel_close os w c =
     (if channel_is_open c then (uo_close os w (ch_sock c), new_channel) else (w, c))"

definition open_and_bind :: "'w udp_os \<Rightarrow> 'w \<Rightarrow> udp_endpoint_channel \<Rightarrow> u16 \<Rightarrow> u32
    \<Rightarrow> 'w \<times> udp_endpoint_channel \<times> bool" where
  "open_and_bind os w c port timeout =
     (let (w, c) = channel_close os w c in
      case uo_open os w of
        (w, None) \<Rightarrow> (w, c, False)
      | (w, Some s) \<Rightarrow>
          (case uo_bind os w s port of
             (w, False) \<Rightarrow> (uo_close os w s, c, False)
           | (w, True) \<Rightarrow>
               let w = uo_timeout os w s timeout in
               (w, c\<lparr>ch_sock := s, ch_bound_port :=
                     (case uo_sockname os w s of Some p \<Rightarrow> p | None \<Rightarrow> port)\<rparr>, True)))"

definition send_datagram :: "'w udp_os \<Rightarrow> 'w \<Rightarrow> udp_endpoint_channel \<Rightarrow> string \<Rightarrow> u16
    \<Rightarrow> udp_control_datagram \<Rightarrow> 'w \<times> bool" where
  "send_datagram os w c host port d =
     (if \<not> channel_is_open c \<or> port = 0 then (w, False)
      else let buf = encode_control_datagram d; (w, sent) = uo_sendto os w (ch_sock c) host port buf
           in (w, sent = int (length buf)))"

definition recv_datagram :: "'w udp_os \<Rightarrow> 'w \<Rightarrow> udp_endpoint_channel
    \<Rightarrow> 'w \<times> (udp_control_datagram \<times> string \<times> u16) option" where
  "recv_datagram os w c =
     (if \<not> channel_is_open c then (w, None)
      else let (w, recvd, buf, ip, port) = uo_recvfrom os w (ch_sock c) (UDP_DATAGRAM_SIZE * 2)
           in if recvd < int UDP_DATAGRAM_SIZE then (w, None)
              else (w, map_option (\<lambda>d. (d, ip, port))
                         (decode_control_datagram (take (nat recvd) buf))))"

end
