(* ===== verification/Lease_Client.thy ===== *)
theory Lease_Client
  imports Udp_Channel
begin

unbundle bit_operations_syntax

text \<open>
  \<open>lease_client\<close> and \<open>lease_issuer\<close> of \<open>LiNeP/src/v0_2/lease.cpp\<close>. Every public method of the
  client takes its mutex, so each is one step from a client to a client; the keepalive thread is
  \<open>send_heartbeat\<close> at intervals. The message of a failure is on the \<open>Inl\<close> side. The issuer's
  thread is \<open>serve_once\<close> in a loop.
\<close>

section \<open>Client: state and configuration\<close>

record lease_client_config =
  lc_control_host :: string
  lc_control_port :: u16
  lc_identity :: node_endpoint_identity
  lc_control_epoch :: u64
  lc_trunk_port :: u16
  lc_retransmit_ms :: u32
  lc_max_attempts :: u32
  lc_confirm_ms :: u32
  lc_enable_sl1 :: bool
  lc_sl1_key_id :: u16
  lc_sl1_key :: bytes

record lease_client =
  cl_config :: lease_client_config
  cl_channel :: udp_endpoint_channel
  cl_next_seq :: u64
  cl_lease_token :: u64
  cl_active :: bool

text \<open>
  \<open>random_nonzero_u64\<close> draws until the value is not zero. The draws come from the operating
  system, so the loop is partial: it returns when a nonzero draw comes.
\<close>

partial_function (option) random_nonzero_u64 :: "'w udp_os \<Rightarrow> 'w \<Rightarrow> ('w \<times> u64) option" where
  [code]: "random_nonzero_u64 os w =
     (let (w, v) = uo_random os w in if v = 0 then random_nonzero_u64 os w else Some (w, v))"

definition wall_clock_epoch :: "'w udp_os \<Rightarrow> 'w \<Rightarrow> 'w \<times> u64" where
  "wall_clock_epoch os w =
     (let (w, us) = uo_wall_us os w in (w, if 0 < us then word_of_int us else 1))"

definition new_lease_client :: "'w udp_os \<Rightarrow> 'w \<Rightarrow> lease_client_config \<Rightarrow> ('w \<times> lease_client) option" where
  "new_lease_client os w cfg = do {
     (w, nid) \<leftarrow> (if node_id (lc_identity cfg) = 0 then random_nonzero_u64 os w
                 else Some (w, node_id (lc_identity cfg)));
     (w, rid) \<leftarrow> (if runtime_id (lc_identity cfg) = 0 then random_nonzero_u64 os w
                 else Some (w, runtime_id (lc_identity cfg)));
     let (w, ep) = (if lc_control_epoch cfg = 0 then wall_clock_epoch os w
                    else (w, lc_control_epoch cfg));
     Some (w, \<lparr>cl_config = cfg\<lparr>
         lc_identity := (lc_identity cfg)\<lparr>node_id := nid, runtime_id := rid\<rparr>,
         lc_control_epoch := ep,
         lc_max_attempts := (if lc_max_attempts cfg = 0 then 1 else lc_max_attempts cfg)\<rparr>,
       cl_channel = new_channel, cl_next_seq = 1, cl_lease_token = 0, cl_active = False\<rparr>) }"

section \<open>Client: the pieces of the handshake\<close>

definition ensure_open :: "'w udp_os \<Rightarrow> 'w \<Rightarrow> lease_client \<Rightarrow> 'w \<times> lease_client \<times> (string + unit)" where
  "ensure_open os w c =
     (if lc_control_port (cl_config c) = 0 \<or> lc_control_host (cl_config c) = []
      then (w, c, Inl ''lease client: no control endpoint configured'')
      else if lc_trunk_port (cl_config c) = 0
      then (w, c, Inl ''lease client: trunk_port must be > 0 (LEASE_ACK requires a ready trunk)'')
      else if channel_is_open (cl_channel c) then (w, c, Inr ())
      else case open_and_bind os w (cl_channel c) 0 20 of
        (w, ch, False) \<Rightarrow>
          (w, c\<lparr>cl_channel := ch\<rparr>, Inl ''lease client: failed to open UDP control socket'')
      | (w, ch, True) \<Rightarrow> (w, c\<lparr>cl_channel := ch\<rparr>, Inr ()))"

definition make_datagram ::
  "lease_client \<Rightarrow> control_message_type \<Rightarrow> lease_client \<times> udp_control_datagram" where
  "make_datagram c ty =
     (c\<lparr>cl_next_seq := cl_next_seq c + 1\<rparr>,
      set_trunk_ready True (empty_datagram\<lparr>dg_message_type := ty,
        dg_node_id := node_id (lc_identity (cl_config c)),
        dg_runtime_id := runtime_id (lc_identity (cl_config c)),
        dg_endpoint_id := endpoint_id (lc_identity (cl_config c)),
        dg_control_seq := cl_next_seq c, dg_control_epoch := lc_control_epoch (cl_config c),
        dg_availability := av_available, dg_health := nh_healthy,
        dg_tcp_port := lc_trunk_port (cl_config c)\<rparr>))"

definition send_control_datagram ::
  "'w udp_os \<Rightarrow> 'w \<Rightarrow> lease_client \<Rightarrow> udp_control_datagram \<Rightarrow> 'w \<times> bool" where
  "send_control_datagram os w c d =
     send_datagram os w (cl_channel c) (lc_control_host (cl_config c)) (lc_control_port (cl_config c)) d"

definition invite_matches :: "lease_client_config \<Rightarrow> udp_control_datagram \<Rightarrow> bool" where
  "invite_matches cfg d \<longleftrightarrow> dg_message_type d = cm_invite \<and>
     dg_node_id d = node_id (lc_identity cfg) \<and> dg_runtime_id d = runtime_id (lc_identity cfg) \<and>
     dg_endpoint_id d = endpoint_id (lc_identity cfg) \<and>
     dg_control_epoch d = lc_control_epoch cfg \<and> dg_lease_token d \<noteq> 0"

text \<open>
  The waiting loop ends at the deadline of the steady clock. Whether the clock gets there is up
  to the operating system, so the loop is partial.
\<close>

partial_function (option) poll_invite ::
  "'w udp_os \<Rightarrow> lease_client \<Rightarrow> nat \<Rightarrow> 'w \<Rightarrow> ('w \<times> udp_control_datagram option) option" where
  [code]: "poll_invite os c deadline w =
     (let (w, now) = uo_steady_ns os w in
      if now < deadline then
        let (w, got) = recv_datagram os w (cl_channel c) in
        (case got of
           None \<Rightarrow> poll_invite os c deadline w
         | Some (d, _) \<Rightarrow> if invite_matches (cl_config c) d then Some (w, Some d)
                         else poll_invite os c deadline w)
      else Some (w, None))"

definition wait_invite ::
  "'w udp_os \<Rightarrow> 'w \<Rightarrow> lease_client \<Rightarrow> u32 \<Rightarrow> ('w \<times> udp_control_datagram option) option" where
  "wait_invite os w c window_ms =
     (let (w, now) = uo_steady_ns os w in poll_invite os c (now + unat window_ms * 1000000) w)"

type_synonym 'w lease_result = "('w \<times> lease_client \<times> (string + unit)) option"

text \<open>The attempts left are \<open>max_attempts - attempt\<close>.\<close>

fun hello_attempts :: "'w udp_os \<Rightarrow> nat \<Rightarrow> 'w \<Rightarrow> lease_client \<Rightarrow> 'w lease_result" where
  "hello_attempts os 0 w c =
     Some (w, c, Inl (''lease client: no INVITE from '' @ lc_control_host (cl_config c) @ '':'' @
       to_string (lc_control_port (cl_config c)) @ '' after '' @
       to_string (lc_max_attempts (cl_config c)) @ '' NODE_HELLO attempts''))"
| "hello_attempts os (Suc n) w c =
     (let (c, hello) = make_datagram c cm_node_hello;
          (w, sent) = send_control_datagram os w c hello in
      if \<not> sent then Some (w, c, Inl ''lease client: failed to send NODE_HELLO'')
      else do {
        (w, invite) \<leftarrow> wait_invite os w c (lc_retransmit_ms (cl_config c));
        case invite of
          Some d \<Rightarrow> Some (w, c\<lparr>cl_lease_token := dg_lease_token d\<rparr>, Inr ())
        | None \<Rightarrow> hello_attempts os n w c })"

definition request_invite :: "'w udp_os \<Rightarrow> 'w \<Rightarrow> lease_client \<Rightarrow> 'w lease_result" where
  "request_invite os w c =
     (case ensure_open os w c of
        (w, c, Inl err) \<Rightarrow> Some (w, c, Inl err)
      | (w, c, Inr _) \<Rightarrow>
          hello_attempts os (unat (lc_max_attempts (cl_config c))) w
            (c\<lparr>cl_lease_token := 0, cl_active := False\<rparr>))"

fun ack_attempts :: "'w udp_os \<Rightarrow> nat \<Rightarrow> 'w \<Rightarrow> lease_client \<Rightarrow> 'w lease_result" where
  "ack_attempts os 0 w c =
     Some (w, c, Inl (''lease client: LEASE_ACK not confirmed after '' @
       to_string (lc_max_attempts (cl_config c)) @ '' attempts''))"
| "ack_attempts os (Suc n) w c =
     (let (c, ack) = make_datagram c cm_lease_ack;
          (w, sent) = send_control_datagram os w c (ack\<lparr>dg_lease_token := cl_lease_token c\<rparr>) in
      if \<not> sent then Some (w, c, Inl ''lease client: failed to send LEASE_ACK'')
      else if lc_confirm_ms (cl_config c) = 0 then Some (w, c\<lparr>cl_active := True\<rparr>, Inr ())
      else
        let (c, hello) = make_datagram c cm_node_hello;
            (w, sent) = send_control_datagram os w c hello in
        if \<not> sent then Some (w, c, Inl ''lease client: failed to send NODE_HELLO probe'')
        else do {
          (w, invite) \<leftarrow> wait_invite os w c (lc_confirm_ms (cl_config c));
          case invite of
            None \<Rightarrow> Some (w, c\<lparr>cl_active := True\<rparr>, Inr ())
          | Some d \<Rightarrow>
              if dg_lease_token d \<noteq> cl_lease_token c
              then Some (w, c\<lparr>cl_lease_token := 0\<rparr>,
                         Inl ''lease client: issuer changed the lease of an INVITED identity'')
              else ack_attempts os n w c })"

definition ack_lease :: "'w udp_os \<Rightarrow> 'w \<Rightarrow> lease_client \<Rightarrow> 'w lease_result" where
  "ack_lease os w c =
     (if cl_lease_token c = 0
      then Some (w, c, Inl ''lease client: no lease offered (request_invite first)'')
      else ack_attempts os (unat (lc_max_attempts (cl_config c))) w c)"

section \<open>Client: operations\<close>

definition acquire :: "'w udp_os \<Rightarrow> 'w \<Rightarrow> lease_client \<Rightarrow> 'w lease_result" where
  "acquire os w c = do {
     (w, c, res) \<leftarrow> request_invite os w c;
     case res of Inl err \<Rightarrow> Some (w, c, Inl err) | Inr _ \<Rightarrow> ack_lease os w c }"

definition renew :: "'w udp_os \<Rightarrow> 'w \<Rightarrow> lease_client \<Rightarrow> 'w lease_result" where
  "renew os w c =
     (let (w, now) = wall_clock_epoch os w;
          ep = (if lc_control_epoch (cl_config c) < now then now else lc_control_epoch (cl_config c) + 1)
      in acquire os w (c\<lparr>cl_config := (cl_config c)\<lparr>lc_control_epoch := ep\<rparr>\<rparr>))"

definition set_sl1 :: "lease_client \<Rightarrow> bool \<Rightarrow> u16 \<Rightarrow> bytes \<Rightarrow> lease_client" where
  "set_sl1 c enable kid key =
     c\<lparr>cl_config := (cl_config c)\<lparr>lc_enable_sl1 := enable, lc_sl1_key_id := kid, lc_sl1_key := key\<rparr>\<rparr>"

definition send_heartbeat :: "'w udp_os \<Rightarrow> 'w \<Rightarrow> lease_client \<Rightarrow> 'w \<times> lease_client \<times> bool" where
  "send_heartbeat os w c =
     (if \<not> cl_active c \<or> \<not> channel_is_open (cl_channel c) then (w, c, False)
      else let (c, hb) = make_datagram c cm_heartbeat; (w, sent) = send_control_datagram os w c hb
           in (w, c, sent))"

definition has_lease :: "lease_client \<Rightarrow> bool" where
  "has_lease c \<longleftrightarrow> cl_lease_token c \<noteq> 0"

definition current_bind :: "lease_client \<Rightarrow> session_bind_envelope" where
  "current_bind c = new_session_bind\<lparr>bind_identity := lc_identity (cl_config c),
     bind_control_epoch := lc_control_epoch (cl_config c), bind_lease_token := cl_lease_token c\<rparr>"

definition is_stale_binding_event :: "event_envelope \<Rightarrow> bool" where
  "is_stale_binding_event e \<longleftrightarrow> \<not> stream_is_connection_level (evt_stream e) \<and>
     evt_event_type e = re_failed \<and> err_code (evt_error e) = 401 \<and>
     take 13 (err_message (evt_error e)) = ''stale_binding''"

section \<open>Client: binding a connection\<close>

definition prepare_bind :: "lease_client \<Rightarrow> envelope_connection \<Rightarrow> session_bind_envelope
    \<Rightarrow> (envelope_connection \<times> session_bind_envelope) option" where
  "prepare_bind cl conn b =
     (let cfg = cl_config cl in
      if \<not> lc_enable_sl1 cfg then Some (conn, b)
      else if length (lc_sl1_key cfg) < 32 then None
      else let b = b\<lparr>bind_sl1_requested := True, bind_key_id := lc_sl1_key_id cfg\<rparr>
           in Some (set_sl1_auth conn b Initiator_To_Responder (lc_sl1_key_id cfg) (lc_sl1_key cfg), b))"

definition send_bind :: "'w os \<Rightarrow> 'w \<Rightarrow> lease_client \<Rightarrow> envelope_connection
    \<Rightarrow> 'w \<times> envelope_connection \<times> bool" where
  "send_bind os w cl conn =
     (let b = current_bind cl in
      if \<not> session_bind_is_valid b then (w, conn, False)
      else case prepare_bind cl conn b of
        None \<Rightarrow> (w, conn, False)
      | Some (conn, b) \<Rightarrow> send_session_bind os w conn b)"

definition confirms_bind :: "session_bind_envelope \<Rightarrow> bytes \<Rightarrow> bytes \<Rightarrow> bool" where
  "confirms_bind b key raw =
     (case decode_header raw of None \<Rightarrow> False
      | Some hdr \<Rightarrow>
          if hdr_envelope_type hdr \<noteq> et_session_bind then False
          else case decode_session_bind new_session_bind raw of None \<Rightarrow> False
            | Some confirm \<Rightarrow>
                if \<not> bind_sl1_requested confirm then False
                else case verify_envelope_buffer raw b Responder_To_Initiator key of
                  Inl _ \<Rightarrow> False
                | Inr ext \<Rightarrow> auth_seq ext = 1)"

definition bind_connection :: "'w os \<Rightarrow> 'w \<Rightarrow> lease_client \<Rightarrow> envelope_connection
    \<Rightarrow> 'w \<times> envelope_connection \<times> bool" where
  "bind_connection os w cl conn =
     (let b = current_bind cl in
      if \<not> session_bind_is_valid b then (w, conn, False)
      else case prepare_bind cl conn b of
        None \<Rightarrow> (w, conn, False)
      | Some (conn, b) \<Rightarrow>
          (case send_session_bind os w conn b of
             (w, conn, False) \<Rightarrow> (w, conn, False)
           | (w, conn, True) \<Rightarrow>
               if \<not> lc_enable_sl1 (cl_config cl) then (w, conn, True)
               else (case receive_envelope_raw os w conn of
                   (w, conn, None) \<Rightarrow> (w, conn, False)
                 | (w, conn, Some raw) \<Rightarrow>
                     (w, conn, confirms_bind b (lc_sl1_key (cl_config cl)) raw))))"

text \<open>\<open>connect_bound\<close> from a freshly connected socket.\<close>

definition connect_bound :: "'w os \<Rightarrow> 'w \<Rightarrow> fd option \<Rightarrow> lease_client
    \<Rightarrow> 'w \<times> envelope_connection option" where
  "connect_bound os w sock cl =
     (case sock of None \<Rightarrow> (w, None)
      | Some s \<Rightarrow>
          (case bind_connection os w cl (new_connection s) of
             (w, conn, True) \<Rightarrow> (w, Some conn)
           | (w, conn, False) \<Rightarrow> (fst (close_connection os w conn), None)))"

section \<open>Issuer\<close>

record lease_issuer =
  li_router :: control_plane_router
  li_lease_counter :: u64

definition new_issuer :: lease_issuer where
  "new_issuer = \<lparr>li_router = new_router, li_lease_counter = 0\<rparr>"

definition next_lease_token :: "lease_issuer \<Rightarrow> lease_issuer \<times> u64" where
  "next_lease_token s =
     (let n = li_lease_counter s + 1; n = (if n = 0 then n + 1 else n)
      in (s\<lparr>li_lease_counter := n\<rparr>, n))"

definition issuer_start :: "'w udp_os \<Rightarrow> 'w \<Rightarrow> lease_issuer \<Rightarrow> udp_endpoint_channel \<Rightarrow> u16
    \<Rightarrow> ('w \<times> lease_issuer \<times> udp_endpoint_channel \<times> bool) option" where
  "issuer_start os w s ch port =
     (case open_and_bind os w ch port 100 of
        (w, ch, False) \<Rightarrow> Some (w, s, ch, False)
      | (w, ch, True) \<Rightarrow>
          if li_lease_counter s \<noteq> 0 then Some (w, s, ch, True)
          else do { (w, v) \<leftarrow> random_nonzero_u64 os w;
                    Some (w, s\<lparr>li_lease_counter := drop_bit 1 v\<rparr>, ch, True) })"

text \<open>
  The body of \<open>serve_loop\<close> for one datagram, with the INVITE it answers with. The token is drawn
  before \<open>issue_invite\<close> is called, whether or not the call uses it.
\<close>

definition serve_datagram :: "lease_issuer \<Rightarrow> udp_control_datagram \<Rightarrow> u64
    \<Rightarrow> lease_issuer \<times> udp_control_datagram option" where
  "serve_datagram s d now =
     (let s = s\<lparr>li_router := fst (ingest_datagram (li_router s) d now)\<rparr> in
      if dg_message_type d \<noteq> cm_node_hello then (s, None)
      else
        let i = datagram_identity d; (s, token) = next_lease_token s in
        case issue_invite (li_router s) i token of
          (r, Some invite) \<Rightarrow> (s\<lparr>li_router := r\<rparr>, Some invite)
        | (r, None) \<Rightarrow>
            let (r, invite) = reissue_invite r i (dg_control_epoch d)
            in (s\<lparr>li_router := r\<rparr>, invite))"

definition serve_once :: "'w udp_os \<Rightarrow> 'w \<Rightarrow> udp_endpoint_channel \<Rightarrow> lease_issuer
    \<Rightarrow> 'w \<times> lease_issuer" where
  "serve_once os w ch s =
     (case recv_datagram os w ch of
        (w, None) \<Rightarrow> (w, s)
      | (w, Some (d, ip, port)) \<Rightarrow>
          let (w, now) = uo_steady_ns os w;
              (s, invite) = serve_datagram s d (of_nat (now div 1000))
          in (case invite of None \<Rightarrow> (w, s)
              | Some i \<Rightarrow> (fst (send_datagram os w ch ip port i), s)))"

end
