(* ===== verification/Conformance.thy ===== *)
theory Conformance
  imports Mock_Runtime Lease_Client
begin

unbundle bit_operations_syntax

text \<open>
  The conformance runner of \<open>src/v0_2/conformance.cpp\<close>: the tests a runtime has to pass, each as the
  procedure it is, over the connections and leases of the library, the suites and the report. A test
  gives its message, on the \<open>Inr\<close> side when it passed. Durations are not kept and the line that
  \<open>create_connection\<close> writes to the error stream is left out.
\<close>

section \<open>Runner and reports\<close>

text \<open>
  The systems the runner works on: the TCP and UDP calls, \<open>tcp_connect\<close>, the receive time-out of a
  socket, and single-precision arithmetic. Durations are not kept.
\<close>

record 'w net =
  nt_os :: "'w os"
  nt_udp :: "'w udp_os"
  nt_connect :: "'w \<Rightarrow> string \<Rightarrow> u16 \<Rightarrow> 'w \<times> fd option"
  nt_recv_timeout :: "'w \<Rightarrow> fd \<Rightarrow> u32 \<Rightarrow> 'w"
  nt_math :: f32_math

record test_result =
  te_name :: string
  te_passed :: bool
  te_details :: string

record profile_status =
  ps_profile :: runtime_profile
  ps_name :: string
  ps_conformant :: bool
  ps_passed_suites :: "string list"
  ps_failed_suites :: "string list"

record conformance_report =
  rp_target :: string
  rp_total :: nat
  rp_passed :: nat
  rp_failed :: nat
  rp_results :: "test_result list"
  rp_profiles :: "profile_status list"

definition is_all_passed :: "conformance_report \<Rightarrow> bool" where
  "is_all_passed rep \<longleftrightarrow> 0 < rp_total rep \<and> rp_failed rep = 0 \<and> rp_passed rep = rp_total rep"

record conformance_runner =
  cr_host :: string
  cr_port :: u16
  cr_control_host :: string
  cr_control_port :: u16
  cr_lease :: "lease_client option"
  cr_sl1_key_id :: u16
  cr_sl1_key :: bytes
  cr_sl1_required :: bool

definition new_runner :: "string \<Rightarrow> u16 \<Rightarrow> conformance_runner" where
  "new_runner host port = \<lparr>cr_host = host, cr_port = port, cr_control_host = [], cr_control_port = 0,
     cr_lease = None, cr_sl1_key_id = 1, cr_sl1_key = [], cr_sl1_required = False\<rparr>"

definition set_control_endpoint :: "string \<Rightarrow> u16 \<Rightarrow> conformance_runner \<Rightarrow> conformance_runner" where
  "set_control_endpoint host port r = r\<lparr>cr_control_host := host, cr_control_port := port, cr_lease := None\<rparr>"

definition has_control_endpoint :: "conformance_runner \<Rightarrow> bool" where
  "has_control_endpoint r \<longleftrightarrow> cr_control_port r \<noteq> 0"

definition has_sl1 :: "conformance_runner \<Rightarrow> bool" where
  "has_sl1 r \<longleftrightarrow> cr_sl1_key r \<noteq> []"

definition set_sl1_credentials :: "u16 \<Rightarrow> bytes \<Rightarrow> conformance_runner \<Rightarrow> conformance_runner" where
  "set_sl1_credentials kid key r = r\<lparr>cr_sl1_key_id := kid, cr_sl1_key := key,
     cr_lease := map_option (\<lambda>l. set_sl1 l True kid key) (cr_lease r)\<rparr>"

definition set_sl1_required :: "bool \<Rightarrow> conformance_runner \<Rightarrow> conformance_runner" where
  "set_sl1_required required r = r\<lparr>cr_sl1_required := required\<rparr>"

section \<open>Leases and connections of the runner\<close>

text \<open>
  A peer that never stops sending can keep a test for ever, so the procedures are partial. The message of a failed
  step is on the \<open>Inl\<close> side; a connection is closed when its test returns, a lease client closes its
  channel when it is destroyed.
\<close>

definition runner_lease_config :: "conformance_runner \<Rightarrow> lease_client_config" where
  "runner_lease_config r = \<lparr>lc_control_host = cr_control_host r, lc_control_port = cr_control_port r,
     lc_identity = \<lparr>node_id = 0, runtime_id = 0, endpoint_id = 0\<rparr>, lc_control_epoch = 0, lc_trunk_port = cr_port r,
     lc_retransmit_ms = 200, lc_max_attempts = 10, lc_confirm_ms = 100, lc_enable_sl1 = has_sl1 r,
     lc_sl1_key_id = (if has_sl1 r then cr_sl1_key_id r else 1), lc_sl1_key = (if has_sl1 r then cr_sl1_key r else [])\<rparr>"

definition make_lease_client :: "'w net \<Rightarrow> conformance_runner \<Rightarrow> 'w \<Rightarrow> ('w \<times> lease_client) option" where
  "make_lease_client n r w = new_lease_client (nt_udp n) w (runner_lease_config r)"

definition destroy_lease :: "'w net \<Rightarrow> 'w \<Rightarrow> lease_client \<Rightarrow> 'w" where
  "destroy_lease n w l = fst (channel_close (nt_udp n) w (cl_channel l))"

definition ensure_lease :: "'w net \<Rightarrow> 'w \<Rightarrow> conformance_runner \<Rightarrow> ('w \<times> conformance_runner \<times> (string + unit)) option" where
  "ensure_lease n w r =
     (if (case cr_lease r of None \<Rightarrow> False | Some l \<Rightarrow> cl_active l) then Some (w, r, Inr ())
      else do {
        (w, l) \<leftarrow> make_lease_client n r w;
        let w = (case cr_lease r of None \<Rightarrow> w | Some old \<Rightarrow> destroy_lease n w old);
        (w, l, res) \<leftarrow> acquire (nt_udp n) w l;
        Some (w, r\<lparr>cr_lease := Some l\<rparr>, res) })"

definition default_bind :: session_bind_envelope where
  "default_bind = new_session_bind\<lparr>bind_identity := \<lparr>node_id = 1001, runtime_id = 2001, endpoint_id = 1\<rparr>,
     bind_control_epoch := 1, bind_lease_token := 0xC0FFEE1234\<rparr>"

definition prepare_session_bind :: "'w net \<Rightarrow> 'w \<Rightarrow> conformance_runner
    \<Rightarrow> ('w \<times> conformance_runner \<times> (string + session_bind_envelope)) option" where
  "prepare_session_bind n w r = do {
     (w, r, res) \<leftarrow> (if has_control_endpoint r then ensure_lease n w r else Some (w, r, Inr ()));
     Some (w, r, case res of Inl err \<Rightarrow> Inl err
       | Inr _ \<Rightarrow> Inr (case cr_lease r of None \<Rightarrow> default_bind
                        | Some l \<Rightarrow> if has_lease l then current_bind l else default_bind)) }"

text \<open>Connecting sets the receive time-out of the new socket to the default, 5000 ms.\<close>

definition open_socket :: "'w net \<Rightarrow> 'w \<Rightarrow> conformance_runner \<Rightarrow> 'w \<times> fd option" where
  "open_socket n w r =
     (case nt_connect n w (cr_host r) (cr_port r) of
        (w, None) \<Rightarrow> (w, None)
      | (w, Some s) \<Rightarrow> (nt_recv_timeout n w s 5000, Some s))"

definition connect_to :: "'w net \<Rightarrow> 'w \<Rightarrow> conformance_runner \<Rightarrow> 'w \<times> envelope_connection option" where
  "connect_to n w r = (let (w, sock) = open_socket n w r in (w, map_option new_connection sock))"

definition connect_with_lease :: "'w net \<Rightarrow> 'w \<Rightarrow> conformance_runner \<Rightarrow> lease_client \<Rightarrow> 'w \<times> envelope_connection option" where
  "connect_with_lease n w r l = (let (w, sock) = open_socket n w r in connect_bound (nt_os n) w sock l)"

definition sl1_bind :: "conformance_runner \<Rightarrow> session_bind_envelope \<Rightarrow> session_bind_envelope" where
  "sl1_bind r b = b\<lparr>bind_sl1_requested := True, bind_key_id := cr_sl1_key_id r\<rparr>"

definition create_connection :: "'w net \<Rightarrow> 'w \<Rightarrow> conformance_runner
    \<Rightarrow> ('w \<times> conformance_runner \<times> envelope_connection option) option" where
  "create_connection n w r =
     (if has_control_endpoint r then do {
        (w, r, res) \<leftarrow> ensure_lease n w r;
        case res of Inl _ \<Rightarrow> Some (w, r, None)
        | Inr _ \<Rightarrow> (let (w, c) = connect_with_lease n w r (the (cr_lease r)) in Some (w, r, c)) }
      else case connect_to n w r of
        (w, None) \<Rightarrow> Some (w, r, None)
      | (w, Some c) \<Rightarrow>
          if \<not> has_sl1 r then Some (w, r, Some c)
          else
            let b = sl1_bind r default_bind;
                c = set_sl1_auth c b Initiator_To_Responder (cr_sl1_key_id r) (cr_sl1_key r)
            in (case send_session_bind (nt_os n) w c b of
                  (w, c, False) \<Rightarrow> Some (fst (close_connection (nt_os n) w c), r, None)
                | (w, c, True) \<Rightarrow>
                    (case receive_envelope_raw (nt_os n) w c of
                       (w, c, None) \<Rightarrow> Some (fst (close_connection (nt_os n) w c), r, None)
                     | (w, c, Some _) \<Rightarrow> Some (w, r, Some c))))"

section \<open>Reading a stream\<close>

text \<open>One turn of a receive loop: the test fails, the loop ends, or it goes on.\<close>

datatype 's turn = Failed string | Stop 's | Go 's

partial_function (option) receive_loop :: "'w os
    \<Rightarrow> ('s \<Rightarrow> bytes \<Rightarrow> 'w \<Rightarrow> envelope_connection \<Rightarrow> 'w \<times> envelope_connection \<times> 's turn)
    \<Rightarrow> 's \<Rightarrow> 'w \<Rightarrow> envelope_connection \<Rightarrow> ('w \<times> envelope_connection \<times> (string + 's)) option" where
  [code]: "receive_loop os f s w c =
     (case receive_envelope_raw os w c of
        (w, c, None) \<Rightarrow> Some (w, c, Inr s)
      | (w, c, Some raw) \<Rightarrow>
          (case f s raw w c of
             (w, c, Failed msg) \<Rightarrow> Some (w, c, Inl msg)
           | (w, c, Stop s) \<Rightarrow> Some (w, c, Inr s)
           | (w, c, Go s) \<Rightarrow> receive_loop os f s w c))"

text \<open>A turn that only looks at the frame.\<close>

definition looking :: "('s \<Rightarrow> bytes \<Rightarrow> 's turn) \<Rightarrow> 's \<Rightarrow> bytes \<Rightarrow> 'w \<Rightarrow> envelope_connection
    \<Rightarrow> 'w \<times> envelope_connection \<times> 's turn" where
  "looking g s raw w c = (w, c, g s raw)"

definition on_decoded :: "string \<Rightarrow> ('s \<Rightarrow> event_envelope \<Rightarrow> 's turn) \<Rightarrow> 's \<Rightarrow> bytes \<Rightarrow> 's turn" where
  "on_decoded msg g s raw = (case decode_event new_event raw of None \<Rightarrow> Failed msg | Some e \<Rightarrow> g s e)"

definition new_request :: "stream_identity \<Rightarrow> runtime_profile \<Rightarrow> string \<Rightarrow> request_envelope" where
  "new_request i profile prompt = \<lparr>req_stream = i, req_profile = profile, req_model_id = ''linep-conformance-model-v02'',
     req_payload = prompt, req_max_tokens = 0, req_temperature = 0x3F333333, req_stream_requested = True,
     req_has_options = False, req_options = default_options\<rparr>"

abbreviation (input) stream_of :: "u64 \<Rightarrow> u64 \<Rightarrow> stream_identity" where
  "stream_of rid eid \<equiv> \<lparr>request_id = rid, execution_id = eid, output_id = 0\<rparr>"

type_synonym 'w check = "'w \<Rightarrow> conformance_runner \<Rightarrow> ('w \<times> conformance_runner \<times> (string + string)) option"
type_synonym 'w trunk_check = "'w \<Rightarrow> envelope_connection \<Rightarrow> ('w \<times> envelope_connection \<times> (string + string)) option"

definition on_connection :: "'w net \<Rightarrow> string \<Rightarrow> 'w trunk_check \<Rightarrow> 'w check" where
  "on_connection n msg body w r = do {
     (w, r, c) \<leftarrow> create_connection n w r;
     case c of None \<Rightarrow> Some (w, r, Inl msg)
     | Some c \<Rightarrow> do { (w, c, v) \<leftarrow> body w c; Some (fst (close_connection (nt_os n) w c), r, v) } }"

definition request_check :: "'w net \<Rightarrow> request_envelope \<Rightarrow> string
    \<Rightarrow> ('s \<Rightarrow> bytes \<Rightarrow> 'w \<Rightarrow> envelope_connection \<Rightarrow> 'w \<times> envelope_connection \<times> 's turn) \<Rightarrow> 's \<Rightarrow> ('s \<Rightarrow> string + string)
    \<Rightarrow> 'w trunk_check" where
  "request_check n req send_msg f s verdict w c =
     (case send_request (nt_os n) w c req of
        (w, c, False) \<Rightarrow> Some (w, c, Inl send_msg)
      | (w, c, True) \<Rightarrow> do {
          (w, c, res) \<leftarrow> receive_loop (nt_os n) f s w c;
          Some (w, c, case res of Inl msg \<Rightarrow> Inl msg | Inr s \<Rightarrow> verdict s) })"

definition mk_result :: "string \<Rightarrow> string + string \<Rightarrow> test_result" where
  "mk_result name v = (case v of Inl msg \<Rightarrow> \<lparr>te_name = name, te_passed = False, te_details = msg\<rparr>
     | Inr msg \<Rightarrow> \<lparr>te_name = name, te_passed = True, te_details = msg\<rparr>)"

section \<open>The tests of every runtime\<close>

definition capabilities_body :: "'w net \<Rightarrow> 'w trunk_check" where
  "capabilities_body n w c =
     (case send_capabilities (nt_os n) w c no_capabilities of
        (w, c, False) \<Rightarrow> Some (w, c, Inl ''Failed to send capabilities query'')
      | (w, c, True) \<Rightarrow>
          (case receive_envelope_raw (nt_os n) w c of
             (w, c, None) \<Rightarrow> Some (w, c, Inl ''Failed to receive capabilities response'')
           | (w, c, Some raw) \<Rightarrow>
               (case decode_capabilities raw of
                  None \<Rightarrow> Some (w, c, Inl ''Failed to decode capabilities envelope'')
                | Some d \<Rightarrow>
                    if cap_supported_models d = [] \<or> cap_supported_profiles d = [] \<or> \<not> cap_supports_streaming d
                    then Some (w, c, Inl ''Capabilities envelope missing required fields'')
                    else Some (w, c, Inr (''Handshake verified for model: '' @ hd (cap_supported_models d))))))"

definition test_capabilities_handshake :: "'w net \<Rightarrow> 'w check" where
  "test_capabilities_handshake n = on_connection n ''Failed to connect to target endpoint'' (capabilities_body n)"

record chat_state =
  ch_expected_seq :: u64
  ch_terminal :: bool
  ch_response :: string

definition chat_turn :: "stream_identity \<Rightarrow> chat_state \<Rightarrow> event_envelope \<Rightarrow> chat_state turn" where
  "chat_turn i s e =
     (if evt_stream e \<noteq> i then Failed ''Stream identity mismatch''
      else if evt_event_seq e \<noteq> ch_expected_seq s then Failed ''Event sequence non-monotonic''
      else
        let s = s\<lparr>ch_expected_seq := ch_expected_seq s + 1\<rparr> in
        if evt_event_type e = re_content_delta then Go (s\<lparr>ch_response := ch_response s @ evt_payload e\<rparr>)
        else if evt_event_type e = re_completed then
          (if evt_outcome e \<noteq> to_completed \<or> err_code (evt_error e) \<noteq> 200
           then Failed ''Terminal outcome not completed/200'' else Stop (s\<lparr>ch_terminal := True\<rparr>))
        else Go s)"

definition chat_verdict :: "chat_state \<Rightarrow> string + string" where
  "chat_verdict s =
     (if \<not> ch_terminal s \<or> ch_response s = [] then Inl ''Did not reach terminal completed event or empty response''
      else Inr (''Streaming verified: '' @ to_string (ch_expected_seq s - 1) @ '' events received''))"

definition chat_request :: request_envelope where
  "chat_request = new_request (stream_of 101 1001) rp_chat ''Test chat prompt''"

definition chat_body :: "'w net \<Rightarrow> 'w trunk_check" where
  "chat_body n = request_check n chat_request ''Failed to send chat request''
     (looking (on_decoded ''Failed to decode event envelope'' (chat_turn (stream_of 101 1001))))
     \<lparr>ch_expected_seq = 1, ch_terminal = False, ch_response = []\<rparr> chat_verdict"

definition test_basic_chat_streaming :: "'w net \<Rightarrow> 'w check" where
  "test_basic_chat_streaming n = on_connection n ''Failed to connect'' (chat_body n)"

record reasoning_state =
  rz_reasoning :: nat
  rz_content :: nat
  rz_terminal_ok :: bool

definition reasoning_turn :: "reasoning_state \<Rightarrow> event_envelope \<Rightarrow> reasoning_state turn" where
  "reasoning_turn s e =
     (if evt_event_type e = re_reasoning_delta then
        (if 0 < rz_content s then Failed ''Reasoning delta arrived AFTER content delta''
         else Go (s\<lparr>rz_reasoning := rz_reasoning s + 1\<rparr>))
      else if evt_event_type e = re_content_delta then Go (s\<lparr>rz_content := rz_content s + 1\<rparr>)
      else if evt_event_type e = re_completed then Stop (s\<lparr>rz_terminal_ok := (evt_outcome e = to_completed)\<rparr>)
      else Go s)"

definition reasoning_verdict :: "reasoning_state \<Rightarrow> string + string" where
  "reasoning_verdict s =
     (if \<not> rz_terminal_ok s \<or> rz_reasoning s = 0 \<or> rz_content s = 0 then Inl ''Reasoning delta contract violated''
      else Inr (''Reasoning verified: '' @ to_string_nat (rz_reasoning s) @ '' reasoning deltas before content''))"

definition test_reasoning_deltas :: "'w net \<Rightarrow> 'w check" where
  "test_reasoning_deltas n = on_connection n ''Failed to connect''
     (request_check n (new_request (stream_of 102 1002) rp_chat ''Explain quantum computing'') ''Failed to send request''
       (looking (on_decoded ''Failed to decode event'' reasoning_turn))
       \<lparr>rz_reasoning = 0, rz_content = 0, rz_terminal_ok = False\<rparr> reasoning_verdict)"

record embedding_state =
  eb_received :: bool
  eb_terminal :: bool

text \<open>The distance of the norm from 1, and the literal 0.01, in single precision.\<close>

definition norm_off :: "f32_math \<Rightarrow> f32 list \<Rightarrow> bool" where
  "norm_off fm v \<longleftrightarrow>
     f32_lt 0x3C23D70A
       (fm_sub fm (fm_sqrt fm (foldl (\<lambda>a x. fm_add fm a (fm_mul fm x x)) 0 v)) 0x3F800000 AND 0x7FFFFFFF)"

definition embedding_turn :: "f32_math \<Rightarrow> embedding_state \<Rightarrow> event_envelope \<Rightarrow> embedding_state turn" where
  "embedding_turn fm s e =
     (if evt_event_type e = re_embedding_result then
        (if sp_dimensions (emb_space (evt_embedding e)) \<noteq> 768 \<or> length (emb_vector (evt_embedding e)) \<noteq> 768
         then Failed ''Embedding dimension mismatch''
         else if norm_off fm (emb_vector (evt_embedding e)) then Failed ''Embedding vector is not normalized''
         else Go (s\<lparr>eb_received := True\<rparr>))
      else if evt_event_type e = re_completed then Stop (s\<lparr>eb_terminal := (evt_outcome e = to_completed)\<rparr>)
      else Go s)"

definition embedding_verdict :: "embedding_state \<Rightarrow> string + string" where
  "embedding_verdict s =
     (if \<not> eb_received s \<or> \<not> eb_terminal s then Inl ''Failed to receive valid embedding and terminal event''
      else Inr ''Embedding space verified: 768-dim normalized cosine vector'')"

definition test_embedding_space :: "'w net \<Rightarrow> 'w check" where
  "test_embedding_space n = on_connection n ''Failed to connect''
     (request_check n (new_request (stream_of 103 1003) rp_embed ''Vectorize this sentence'') ''Failed to send embed request''
       (looking (on_decoded ''Failed to decode event'' (embedding_turn (nt_math n))))
       \<lparr>eb_received = False, eb_terminal = False\<rparr> embedding_verdict)"

record cancel_state =
  cs_events :: nat
  cs_cancelled :: bool

text \<open>The second event is answered with a cancel for the stream.\<close>

definition cancel_turn :: "'w os \<Rightarrow> stream_identity \<Rightarrow> cancel_state \<Rightarrow> bytes \<Rightarrow> 'w \<Rightarrow> envelope_connection
    \<Rightarrow> 'w \<times> envelope_connection \<times> cancel_state turn" where
  "cancel_turn os i s raw w c =
     (case decode_event new_event raw of None \<Rightarrow> (w, c, Failed ''Failed to decode event'')
      | Some e \<Rightarrow>
          if evt_event_type e = re_content_delta \<or> evt_event_type e = re_reasoning_delta then
            let s = s\<lparr>cs_events := cs_events s + 1\<rparr> in
            if cs_events s = 2 then
              let (w, c, ok) = send_control os w c \<lparr>ctl_stream = i, ctl_control_type = ct_cancel,
                  ctl_reason = ''Test cancellation'', ctl_ack_offset_bytes = 0\<rparr>
              in (w, c, Go s)
            else (w, c, Go s)
          else if evt_event_type e = re_cancelled then
            (w, c, Stop (s\<lparr>cs_cancelled := (evt_outcome e = to_cancelled \<and> err_code (evt_error e) = 499)\<rparr>))
          else (w, c, Go s))"

definition cancel_verdict :: "cancel_state \<Rightarrow> string + string" where
  "cancel_verdict s =
     (if \<not> cs_cancelled s then Inl ''Stream was not cancelled with 499 status''
      else Inr (''Cancellation verified: stream stopped after '' @ to_string_nat (cs_events s) @
        '' events with outcome=cancelled (499)''))"

definition test_network_cancellation :: "'w net \<Rightarrow> 'w check" where
  "test_network_cancellation n = on_connection n ''Failed to connect''
     (request_check n (new_request (stream_of 104 1004) rp_chat ''Generate 1000 tokens'') ''Failed to send request''
       (cancel_turn (nt_os n) (stream_of 104 1004)) \<lparr>cs_events = 0, cs_cancelled = False\<rparr> cancel_verdict)"

record window_state =
  ws_ack :: u64
  ws_completed :: bool

text \<open>Every delta is answered with the cumulative count of the bytes received.\<close>

definition window_turn :: "'w os \<Rightarrow> stream_identity \<Rightarrow> window_state \<Rightarrow> bytes \<Rightarrow> 'w \<Rightarrow> envelope_connection
    \<Rightarrow> 'w \<times> envelope_connection \<times> window_state turn" where
  "window_turn os i s raw w c =
     (case decode_event new_event raw of None \<Rightarrow> (w, c, Failed ''Failed to decode event'')
      | Some e \<Rightarrow>
          if evt_event_type e = re_content_delta \<or> evt_event_type e = re_reasoning_delta then
            let s = s\<lparr>ws_ack := ws_ack s + of_nat (length (evt_payload e))\<rparr>;
                (w, c, ok) = send_control os w c \<lparr>ctl_stream = i, ctl_control_type = ct_window_update,
                  ctl_reason = ''ACK'', ctl_ack_offset_bytes = ws_ack s\<rparr>
            in (w, c, Go s)
          else if evt_event_type e = re_completed then
            (w, c, Stop (s\<lparr>ws_completed := (evt_outcome e = to_completed)\<rparr>))
          else (w, c, Go s))"

definition window_verdict :: "window_state \<Rightarrow> string + string" where
  "window_verdict s =
     (if \<not> ws_completed s then Inl ''Flow controlled stream failed to reach completed state''
      else Inr (''Flow control verified: '' @ to_string (ws_ack s) @ '' bytes paced via cumulative WINDOW_UPDATE''))"

definition test_window_update_flow_control :: "'w net \<Rightarrow> 'w check" where
  "test_window_update_flow_control n = on_connection n ''Failed to connect''
     (request_check n (new_request (stream_of 105 1005) rp_chat ''Paced stream prompt'') ''Failed to send request''
       (window_turn (nt_os n) (stream_of 105 1005)) \<lparr>ws_ack = 0, ws_completed = False\<rparr> window_verdict)"

text \<open>At most so many frames are read; whether one of the reads failed.\<close>

fun reads_end :: "'w os \<Rightarrow> nat \<Rightarrow> 'w \<Rightarrow> envelope_connection \<Rightarrow> 'w \<times> envelope_connection \<times> bool" where
  "reads_end os 0 w c = (w, c, False)"
| "reads_end os (Suc k) w c =
     (case receive_envelope_raw os w c of (w, c, None) \<Rightarrow> (w, c, True) | (w, c, Some _) \<Rightarrow> reads_end os k w c)"

definition fail_closed_body :: "'w net \<Rightarrow> 'w trunk_check" where
  "fail_closed_body n w c =
     (case send_request (nt_os n) w c (new_request (stream_of 106 1006) rp_chat ''Trigger violation test'') of
        (w, c, False) \<Rightarrow> Some (w, c, Inl ''Failed to send request'')
      | (w, c, True) \<Rightarrow>
          let (w, c, ok) = send_frame_raw (nt_os n) w c ([0xFF, 0xFF] @ replicate 30 0);
              (w, c, saw_eof) = reads_end (nt_os n) 50 w c
          in Some (w, c, if \<not> saw_eof \<and> is_connected c then Inl ''Server did not fail closed on corrupted magic header''
                         else Inr ''Fail-closed robustness verified: server disconnected upon protocol violation''))"

definition test_fail_closed_robustness :: "'w net \<Rightarrow> 'w check" where
  "test_fail_closed_robustness n = on_connection n ''Failed to connect'' (fail_closed_body n)"

text \<open>The two tests that count the events up to the completed one.\<close>

record count_state =
  ct_events :: nat
  ct_completed :: bool

definition count_turn :: "count_state \<Rightarrow> event_envelope \<Rightarrow> count_state turn" where
  "count_turn s e =
     (let s = s\<lparr>ct_events := ct_events s + 1\<rparr> in
      if evt_event_type e = re_completed then Stop (s\<lparr>ct_completed := (evt_outcome e = to_completed)\<rparr>) else Go s)"

definition snapshot_verdict :: "count_state \<Rightarrow> string + string" where
  "snapshot_verdict s =
     (if \<not> ct_completed s \<or> ct_events s = 0 then Inl ''Snapshot mode test failed''
      else Inr (''Snapshot equivalence verified ('' @ to_string_nat (ct_events s) @ '' events processed)''))"

definition snapshot_body :: "'w net \<Rightarrow> 'w trunk_check" where
  "snapshot_body n = request_check n (new_request (stream_of 107 1007) rp_generate ''Snapshot prompt'') ''Failed to send request''
     (looking (on_decoded ''Failed to decode event'' count_turn)) \<lparr>ct_events = 0, ct_completed = False\<rparr> snapshot_verdict"

definition test_content_snapshot_mode :: "'w net \<Rightarrow> 'w check" where
  "test_content_snapshot_mode n = on_connection n ''Failed to connect'' (snapshot_body n)"

definition multi_verdict :: "count_state \<Rightarrow> string + string" where
  "multi_verdict s =
     (if \<not> ct_completed s then Inl ''Multi-output stream failed to complete''
      else Inr (''Multi-output streaming verified ('' @ to_string_nat (ct_events s) @ '' events received)''))"

definition test_multi_output_streams :: "'w net \<Rightarrow> 'w check" where
  "test_multi_output_streams n = on_connection n ''Failed to connect''
     (request_check n (new_request (stream_of 108 1008) rp_generate ''Multi output prompt'') ''Failed to send request''
       (looking (on_decoded ''Failed to decode event'' count_turn)) \<lparr>ct_events = 0, ct_completed = False\<rparr> multi_verdict)"

section \<open>The tests of both planes\<close>

definition next_event :: "'w os \<Rightarrow> 'w \<Rightarrow> envelope_connection \<Rightarrow> 'w \<times> envelope_connection \<times> event_envelope option" where
  "next_event os w c =
     (case receive_envelope_raw os w c of
        (w, c, None) \<Rightarrow> (w, c, None)
      | (w, c, Some raw) \<Rightarrow> (w, c, decode_event new_event raw))"

definition request_turn :: "stream_identity \<Rightarrow> event_envelope option \<Rightarrow> bytes \<Rightarrow> event_envelope option turn" where
  "request_turn i s raw =
     (case decode_event new_event raw of None \<Rightarrow> Stop None
      | Some e \<Rightarrow>
          if stream_is_connection_level (evt_stream e) \<and> event_is_terminal e
          then Failed (''Connection-level '' @ to_string (err_code (evt_error e)) @ '' '' @ err_message (evt_error e))
          else if evt_stream e = i \<and> event_is_terminal e then Stop (Some e) else Go None)"

definition run_request :: "'w os \<Rightarrow> stream_identity \<Rightarrow> 'w \<Rightarrow> envelope_connection
    \<Rightarrow> ('w \<times> envelope_connection \<times> (string + event_envelope)) option" where
  "run_request os i w c =
     (case send_request os w c (new_request i rp_chat ''Dual-plane request'') of
        (w, c, False) \<Rightarrow> Some (w, c, Inl ''Failed to send request'')
      | (w, c, True) \<Rightarrow> do {
          (w, c, res) \<leftarrow> receive_loop os (looking (request_turn i)) None w c;
          Some (w, c, case res of Inl err \<Rightarrow> Inl err
            | Inr None \<Rightarrow> Inl ''Connection closed before a terminal event'' | Inr (Some e) \<Rightarrow> Inr e) })"

definition describe :: "event_envelope \<Rightarrow> string" where
  "describe e = (if stream_is_connection_level (evt_stream e) then ''connection-level '' else ''stream '') @
     to_string (err_code (evt_error e)) @ '' '' @ [CHR 0x27] @ err_message (evt_error e) @ [CHR 0x27]"

definition is_connection_failure :: "event_envelope \<Rightarrow> u32 \<Rightarrow> string \<Rightarrow> bool" where
  "is_connection_failure e code message \<longleftrightarrow> stream_is_connection_level (evt_stream e) \<and> evt_event_type e = re_failed \<and>
     err_code (evt_error e) = code \<and> take (length message) (err_message (evt_error e)) = message"

text \<open>A connection-level failure and then the end of the connection.\<close>

definition refused_and_closed :: "'w net \<Rightarrow> u32 \<Rightarrow> string \<Rightarrow> string \<Rightarrow> string \<Rightarrow> string \<Rightarrow> 'w trunk_check" where
  "refused_and_closed n code message not_refused not_closed okay w c =
     (case next_event (nt_os n) w c of
        (w, c, None) \<Rightarrow> Some (w, c, Inl not_refused)
      | (w, c, Some e) \<Rightarrow>
          if \<not> is_connection_failure e code message then Some (w, c, Inl not_refused)
          else (case reads_end (nt_os n) 64 w c of
                  (w, c, False) \<Rightarrow> Some (w, c, Inl not_closed)
                | (w, c, True) \<Rightarrow> Some (w, c, Inr okay)))"

text \<open>A test body on an open connection, which is closed when the test returns.\<close>

definition on_trunk :: "'w net \<Rightarrow> string \<Rightarrow> 'w trunk_check \<Rightarrow> 'w \<Rightarrow> envelope_connection option
    \<Rightarrow> ('w \<times> (string + string)) option" where
  "on_trunk n msg body w c =
     (case c of None \<Rightarrow> Some (w, Inl msg)
      | Some c \<Rightarrow> do { (w, c, v) \<leftarrow> body w c; Some (fst (close_connection (nt_os n) w c), v) })"

definition test_dual_plane_bind_before_lease_ack :: "'w net \<Rightarrow> 'w check" where
  "test_dual_plane_bind_before_lease_ack n w r = do {
     (w, early) \<leftarrow> make_lease_client n r w;
     (w, early, res) \<leftarrow> request_invite (nt_udp n) w early;
     (w, v) \<leftarrow> (case res of Inl err \<Rightarrow> Some (w, Inl err)
       | Inr _ \<Rightarrow> (let (w, c) = connect_to n w r in
           on_trunk n ''Failed to connect or send SESSION_BIND'' (\<lambda>w c.
             case send_bind (nt_os n) w early c of
               (w, c, False) \<Rightarrow> Some (w, c, Inl ''Failed to connect or send SESSION_BIND'')
             | (w, c, True) \<Rightarrow> refused_and_closed n 401 ''lease_invalid''
                 ''Expected connection-level 401 lease_invalid for an INVITED (un-ACKed) lease''
                 ''Connection stayed open after lease_invalid''
                 ''Bind before LEASE_ACK rejected with 401 lease_invalid and closed'' w c) w c));
     Some (destroy_lease n w early, r, v) }"

definition test_dual_plane_duplicate_bind :: "'w net \<Rightarrow> 'w check" where
  "test_dual_plane_duplicate_bind n w r = do {
     (w, r, res) \<leftarrow> ensure_lease n w r;
     case res of Inl err \<Rightarrow> Some (w, r, Inl err)
     | Inr _ \<Rightarrow>
         let l = the (cr_lease r); (w, c) = connect_with_lease n w r l in do {
         (w, v) \<leftarrow> on_trunk n ''Failed to connect or send duplicate SESSION_BIND'' (\<lambda>w c.
            case bind_connection (nt_os n) w l c of
              (w, c, False) \<Rightarrow> Some (w, c, Inl ''Failed to connect or send duplicate SESSION_BIND'')
            | (w, c, True) \<Rightarrow> do {
                (w, c, res) \<leftarrow> run_request (nt_os n) (stream_of 201 2001) w c;
                Some (w, c, case res of Inl err \<Rightarrow> Inl (''Duplicate bind was not a no-op: '' @ err)
                  | Inr e \<Rightarrow> if evt_outcome e \<noteq> to_completed
                      then Inl (''Request after duplicate bind did not complete: '' @ describe e)
                      else Inr ''Duplicate SESSION_BIND is an idempotent no-op'') }) w c;
         Some (w, r, v) } }"

definition unbound_body :: "'w net \<Rightarrow> 'w trunk_check" where
  "unbound_body n w c =
     (case send_request (nt_os n) w c (new_request (stream_of 202 2002) rp_chat ''Unbound request'') of
        (w, c, False) \<Rightarrow> Some (w, c, Inl ''Failed to send request'')
      | (w, c, True) \<Rightarrow>
          (case next_event (nt_os n) w c of
             (w, c, None) \<Rightarrow> Some (w, c, Inl ''Connection closed without a 401 event'')
           | (w, c, Some e) \<Rightarrow>
               if evt_stream e \<noteq> stream_of 202 2002 \<or> evt_event_type e \<noteq> re_failed \<or> err_code (evt_error e) \<noteq> 401
               then Some (w, c, Inl (''Expected stream 401 for an UNBOUND REQUEST, got '' @ describe e @
                 '' (does the endpoint require leases?)''))
               else (case reads_end (nt_os n) 64 w c of
                       (w, c, False) \<Rightarrow> Some (w, c, Inl ''Connection stayed open after an UNBOUND REQUEST'')
                     | (w, c, True) \<Rightarrow> Some (w, c, Inr ''UNBOUND REQUEST rejected with 401 and closed''))))"

definition test_dual_plane_unbound_request :: "'w net \<Rightarrow> 'w check" where
  "test_dual_plane_unbound_request n w r =
     (let (w, c) = connect_to n w r in do {
      (w, v) \<leftarrow> on_trunk n ''Failed to connect'' (unbound_body n) w c;
      Some (w, r, v) })"

text \<open>The last part of the stale binding test: the request before, at and after the change of epoch.\<close>

definition completes_request :: "'w net \<Rightarrow> stream_identity \<Rightarrow> string \<Rightarrow> string \<Rightarrow> 'w trunk_check" where
  "completes_request n i msg okay w c = do {
     (w, c, res) \<leftarrow> run_request (nt_os n) i w c;
     Some (w, c, case res of Inl err \<Rightarrow> Inl (msg @ err)
       | Inr e \<Rightarrow> if evt_outcome e \<noteq> to_completed then Inl (msg @ describe e) else Inr okay) }"

definition rebind_body :: "'w net \<Rightarrow> lease_client \<Rightarrow> 'w trunk_check" where
  "rebind_body n l w c = do {
     (w, c, res) \<leftarrow> run_request (nt_os n) (stream_of 204 2004) w c;
     case res of Inl err \<Rightarrow> Some (w, c, Inl (''Stale REQUEST: '' @ err))
     | Inr e \<Rightarrow>
         if \<not> is_stale_binding_event e
         then Some (w, c, Inl (''Expected stream 401 stale_binding after an epoch change, got '' @ describe e))
         else (case bind_connection (nt_os n) w l c of
                 (w, c, False) \<Rightarrow> Some (w, c, Inl ''Connection closed after stale_binding (must stay open)'')
               | (w, c, True) \<Rightarrow> completes_request n (stream_of 205 2005)
                   ''Request after in-band re-bind did not complete: ''
                   ''Epoch change -> 401 stale_binding on an open connection, in-band re-bind served'' w c) }"

definition test_dual_plane_stale_rebind :: "'w net \<Rightarrow> 'w check" where
  "test_dual_plane_stale_rebind n w r = do {
     (w, l) \<leftarrow> make_lease_client n r w;
     (w, l, res) \<leftarrow> acquire (nt_udp n) w l;
     (w, l, v) \<leftarrow> (case res of Inl err \<Rightarrow> Some (w, l, Inl err)
       | Inr _ \<Rightarrow>
           (case connect_with_lease n w r l of
              (w, None) \<Rightarrow> Some (w, l, Inl ''Failed to connect and bind'')
            | (w, Some c) \<Rightarrow> do {
                (w, c, v) \<leftarrow> completes_request n (stream_of 203 2003) ''Bound request did not complete: '' [] w c;
                (w, c, l, v) \<leftarrow> (case v of Inl err \<Rightarrow> Some (w, c, l, Inl err)
                  | Inr _ \<Rightarrow> do {
                      (w, l, res) \<leftarrow> renew (nt_udp n) w l;
                      case res of Inl err \<Rightarrow> Some (w, c, l, Inl err)
                      | Inr _ \<Rightarrow> do { (w, c, v) \<leftarrow> rebind_body n l w c; Some (w, c, l, v) } });
                Some (fst (close_connection (nt_os n) w c), l, v) }));
     Some (destroy_lease n w l, r, v) }"

definition test_dual_plane_identity_change :: "'w net \<Rightarrow> 'w check" where
  "test_dual_plane_identity_change n w r = do {
     (w, r, res) \<leftarrow> ensure_lease n w r;
     case res of Inl err \<Rightarrow> Some (w, r, Inl err)
     | Inr _ \<Rightarrow> do {
         (w, other) \<leftarrow> make_lease_client n r w;
         (w, other, res) \<leftarrow> acquire (nt_udp n) w other;
         (w, v) \<leftarrow> (case res of Inl err \<Rightarrow> Some (w, Inl err)
           | Inr _ \<Rightarrow> (let (w, c) = connect_with_lease n w r (the (cr_lease r)) in
               on_trunk n ''Failed to connect or send the second SESSION_BIND'' (\<lambda>w c.
                 case send_bind (nt_os n) w other c of
                   (w, c, False) \<Rightarrow> Some (w, c, Inl ''Failed to connect or send the second SESSION_BIND'')
                 | (w, c, True) \<Rightarrow> refused_and_closed n 401 ''identity_change_on_existing_connection''
                     ''Expected connection-level 401 identity_change_on_existing_connection''
                     ''Connection stayed open after an identity change''
                     ''Identity change on a bound connection rejected with 401 and closed'' w c) w c));
         Some (destroy_lease n w other, r, v) } }"

definition test_dual_plane_malformed_bind :: "'w net \<Rightarrow> 'w check" where
  "test_dual_plane_malformed_bind n w r = do {
     (w, r, res) \<leftarrow> ensure_lease n w r;
     case res of Inl err \<Rightarrow> Some (w, r, Inl err)
     | Inr _ \<Rightarrow>
         (case encode_session_bind (current_bind (the (cr_lease r))) of
            None \<Rightarrow> Some (w, r, Inl ''Failed to encode SESSION_BIND'')
          | Some frame \<Rightarrow>
              let (w, c) = connect_to n w r in do {
              (w, v) \<leftarrow> on_trunk n ''Failed to connect or send malformed SESSION_BIND'' (\<lambda>w c.
                 case send_frame_raw (nt_os n) w c (frame[7 := 0x80]) of
                   (w, c, False) \<Rightarrow> Some (w, c, Inl ''Failed to connect or send malformed SESSION_BIND'')
                 | (w, c, True) \<Rightarrow> refused_and_closed n 400 ''invalid_session_bind''
                     ''Expected connection-level 400 invalid_session_bind''
                     ''Connection stayed open after a malformed SESSION_BIND''
                     ''Malformed SESSION_BIND rejected with 400 and closed'' w c) w c;
              Some (w, r, v) }) }"

section \<open>The tests of SL1\<close>

text \<open>What the SL1 tests share: a connection with a receive time-out, and a bind for it.\<close>

definition sl1_check :: "'w net \<Rightarrow> u32 \<Rightarrow> (conformance_runner \<Rightarrow> session_bind_envelope \<Rightarrow> 'w trunk_check) \<Rightarrow> 'w check" where
  "sl1_check n ms body w r =
     (case connect_to n w r of
        (w, None) \<Rightarrow> Some (w, r, Inl (''Failed to connect to '' @ cr_host r @ '':'' @ to_string (cr_port r)))
      | (w, Some c) \<Rightarrow>
          let w = nt_recv_timeout n w (cn_sock c) ms in do {
          (w, r, res) \<leftarrow> prepare_session_bind n w r;
          (w, c, v) \<leftarrow> (case res of Inl err \<Rightarrow> Some (w, c, Inl (''Lease preparation failed: '' @ err))
            | Inr b \<Rightarrow> body r b w c);
          Some (fst (close_connection (nt_os n) w c), r, v) })"

definition send_signed_bind :: "'w net \<Rightarrow> conformance_runner \<Rightarrow> session_bind_envelope \<Rightarrow> bytes \<Rightarrow> 'w \<Rightarrow> envelope_connection
    \<Rightarrow> 'w \<times> envelope_connection \<times> bool" where
  "send_signed_bind n r b key w c =
     send_session_bind (nt_os n) w (set_sl1_auth c b Initiator_To_Responder (cr_sl1_key_id r) key) b"

definition confirmation_verdict :: "session_bind_envelope \<Rightarrow> bytes \<Rightarrow> bytes \<Rightarrow> string + string" where
  "confirmation_verdict b key raw =
     (case decode_header raw of None \<Rightarrow> Inl ''Malformed confirmation frame header''
      | Some hdr \<Rightarrow>
          if hdr_envelope_type hdr \<noteq> et_session_bind
          then Inl (''Expected SESSION_BIND confirmation, got envelope type '' @ to_string (hdr_envelope_type hdr))
          else case decode_session_bind new_session_bind raw of
            None \<Rightarrow> Inl ''Failed to decode SESSION_BIND confirmation''
          | Some confirm \<Rightarrow>
              if \<not> bind_sl1_requested confirm then Inl ''Server confirmation missing sl1_requested / FLAG_AUTHENTICATED''
              else case verify_envelope_buffer raw b Responder_To_Initiator key of
                Inl err \<Rightarrow> Inl (''Server confirmation MAC verification failed: '' @ err)
              | Inr ext \<Rightarrow>
                  if auth_seq ext \<noteq> 1 then Inl (''Server confirmation auth_seq must be 1, got '' @ to_string (auth_seq ext))
                  else Inr ''Mutual SL1 key confirmation established (auth_seq=1 in both directions)'')"

definition handshake_body :: "'w net \<Rightarrow> conformance_runner \<Rightarrow> session_bind_envelope \<Rightarrow> 'w trunk_check" where
  "handshake_body n r b0 w c =
     (let b = sl1_bind r b0 in
      case send_signed_bind n r b (cr_sl1_key r) w c of
        (w, c, False) \<Rightarrow> Some (w, c, Inl ''Failed to send signed SESSION_BIND'')
      | (w, c, True) \<Rightarrow>
          (case receive_envelope_raw (nt_os n) w c of
             (w, c, None) \<Rightarrow> Some (w, c, Inl (if cn_timed_out c then ''Timed out waiting for confirmation frame from server''
                                           else ''No confirmation frame received from server''))
           | (w, c, Some raw) \<Rightarrow> Some (w, c, confirmation_verdict b (cr_sl1_key r) raw)))"

definition test_sl1_mutual_handshake :: "'w net \<Rightarrow> 'w check" where
  "test_sl1_mutual_handshake n = sl1_check n 5000 (handshake_body n)"

record signed_state =
  sg_events :: nat
  sg_last_seq :: u32
  sg_completed :: bool

definition signed_turn :: "session_bind_envelope \<Rightarrow> bytes \<Rightarrow> signed_state \<Rightarrow> bytes \<Rightarrow> signed_state turn" where
  "signed_turn b key s raw =
     (case decode_header raw of None \<Rightarrow> Failed ''Malformed event header''
      | Some hdr \<Rightarrow>
          if hdr_flags hdr AND LINEP_V02_FLAG_AUTHENTICATED = 0
          then Failed ''Unauthenticated frame received on active SL1 session''
          else case verify_envelope_buffer raw b Responder_To_Initiator key of
            Inl err \<Rightarrow> Failed (''Event MAC verification failed: '' @ err)
          | Inr ext \<Rightarrow>
              if auth_seq ext \<le> sg_last_seq s
              then Failed (''Non-monotonic server auth_seq (last='' @ to_string (sg_last_seq s) @ '', got='' @
                to_string (auth_seq ext) @ '')'')
              else case decode_event new_event raw of
                None \<Rightarrow> Failed ''Failed to decode event envelope''
              | Some e \<Rightarrow>
                  let s = s\<lparr>sg_last_seq := auth_seq ext, sg_events := sg_events s + 1\<rparr> in
                  if evt_event_type e = re_completed then Stop (s\<lparr>sg_completed := True\<rparr>) else Go s)"

definition streaming_body :: "'w net \<Rightarrow> conformance_runner \<Rightarrow> session_bind_envelope \<Rightarrow> 'w trunk_check" where
  "streaming_body n r b0 w c =
     (let b = sl1_bind r b0 in
      case send_signed_bind n r b (cr_sl1_key r) w c of
        (w, c, False) \<Rightarrow> Some (w, c, Inl ''Failed to send signed SESSION_BIND'')
      | (w, c, True) \<Rightarrow>
          (case receive_envelope_raw (nt_os n) w c of
             (w, c, None) \<Rightarrow> Some (w, c, Inl (if cn_timed_out c then ''Timed out waiting for SESSION_BIND confirmation''
                                           else ''Server did not confirm SESSION_BIND''))
           | (w, c, Some _) \<Rightarrow>
               (case send_request (nt_os n) w c
                   (new_request \<lparr>request_id = 101, execution_id = 201, output_id = 0\<rparr> rp_chat ''SL1 stream test'') of
                  (w, c, False) \<Rightarrow> Some (w, c, Inl ''Failed to send signed request envelope'')
                | (w, c, True) \<Rightarrow> do {
                    (w, c, res) \<leftarrow> receive_loop (nt_os n) (looking (signed_turn b (cr_sl1_key r)))
                      \<lparr>sg_events = 0, sg_last_seq = 1, sg_completed = False\<rparr> w c;
                    Some (w, c, case res of Inl err \<Rightarrow> Inl err
                      | Inr s \<Rightarrow>
                          let count = to_string_nat (sg_events s) in
                          if sg_completed s
                          then Inr (''Authenticated streaming verified ('' @ count @ '' signed events with monotonic auth_seq)'')
                          else if cn_timed_out c
                          then Inl (''Stream timed out waiting for events (received '' @ count @ '' events)'')
                          else Inl (''Stream ended without completed terminal event (received '' @ count @ '' events)'')) })))"

definition test_sl1_authenticated_streaming :: "'w net \<Rightarrow> 'w check" where
  "test_sl1_authenticated_streaming n = sl1_check n 5000 (streaming_body n)"

text \<open>
  The three rejections end alike: the server closes the connection before the time-out, or sends a
  connection-level event with code 401 (and a message that begins with \<open>prefix\<close>).
\<close>

definition rejected_by_server :: "'w net \<Rightarrow> string \<Rightarrow> string \<Rightarrow> string \<Rightarrow> (string \<Rightarrow> string) \<Rightarrow> string \<Rightarrow> 'w trunk_check" where
  "rejected_by_server n prefix timeout_msg closed_msg event_msg expected_msg w c =
     (case receive_envelope_raw (nt_os n) w c of
        (w, c, None) \<Rightarrow> Some (w, c, if cn_timed_out c then Inl timeout_msg else Inr closed_msg)
      | (w, c, Some raw) \<Rightarrow>
          Some (w, c, case decode_event new_event raw of None \<Rightarrow> Inl expected_msg
            | Some e \<Rightarrow>
                if stream_is_connection_level (evt_stream e) \<and> err_code (evt_error e) = 401 \<and>
                   take (length prefix) (err_message (evt_error e)) = prefix
                then Inr (event_msg (err_message (evt_error e))) else Inl expected_msg))"

definition missing_auth_body :: "'w net \<Rightarrow> conformance_runner \<Rightarrow> session_bind_envelope \<Rightarrow> 'w trunk_check" where
  "missing_auth_body n r b w c =
     (case send_session_bind (nt_os n) w c (b\<lparr>bind_sl1_requested := False\<rparr>) of
        (w, c, False) \<Rightarrow> Some (w, c, Inl ''Failed to send unauthenticated SESSION_BIND'')
      | (w, c, True) \<Rightarrow> rejected_by_server n ''auth_required''
          (''Connection timed out waiting for rejection; endpoint did not reject unsigned bind '' @
           ''(does the endpoint require SL1? Use --sl1-required to assert)'')
          ''Unauthenticated connection closed immediately by server''
          (\<lambda>_. ''Unauthenticated bind rejected with 401 auth_required and socket closed'')
          ''Expected 401 auth_required or immediate connection close'' w c)"

definition test_sl1_missing_auth_rejection :: "'w net \<Rightarrow> 'w check" where
  "test_sl1_missing_auth_rejection n = sl1_check n 1000 (missing_auth_body n)"

definition wrong_key_body :: "'w net \<Rightarrow> conformance_runner \<Rightarrow> session_bind_envelope \<Rightarrow> 'w trunk_check" where
  "wrong_key_body n r b w c =
     (case send_signed_bind n r (sl1_bind r b) (replicate (length (cr_sl1_key r)) 0xEE) w c of
        (w, c, False) \<Rightarrow> Some (w, c, Inl ''Failed to send signed SESSION_BIND with bad key'')
      | (w, c, True) \<Rightarrow> rejected_by_server n []
          ''Connection timed out waiting for rejection; endpoint did not reject invalid key''
          ''Connection with invalid MAC closed immediately by server''
          (\<lambda>m. ''Invalid MAC rejected with 401 ('' @ m @ '')'')
          ''Expected 401 unauthorized or immediate socket close'' w c)"

definition test_sl1_wrong_key_rejection :: "'w net \<Rightarrow> 'w check" where
  "test_sl1_wrong_key_rejection n = sl1_check n 1000 (wrong_key_body n)"

definition replay_body :: "'w net \<Rightarrow> conformance_runner \<Rightarrow> session_bind_envelope \<Rightarrow> 'w trunk_check" where
  "replay_body n r b0 w c =
     (let b = sl1_bind r b0;
          raw = (case encode_session_bind (b\<lparr>bind_sl1_requested := False\<rparr>) of None \<Rightarrow> [] | Some buf \<Rightarrow> buf) in
      case sign_envelope_buffer raw b Initiator_To_Responder 42 (cr_sl1_key_id r) (cr_sl1_key r) of
        None \<Rightarrow> Some (w, c, Inl ''Failed to sign envelope buffer for replay test'')
      | Some frame \<Rightarrow>
          (case send_frame_raw (nt_os n) w c frame of
             (w, c, False) \<Rightarrow> Some (w, c, Inl ''Failed to send replayed SESSION_BIND frame'')
           | (w, c, True) \<Rightarrow> rejected_by_server n ''auth_replay''
               ''Connection timed out waiting for rejection; endpoint did not reject replayed auth_seq''
               ''Replay sequence closed immediately by server''
               (\<lambda>_. ''Replayed sequence rejected with 401 auth_replay'')
               ''Expected 401 auth_replay or immediate socket close'' w c))"

definition test_sl1_replay_rejection :: "'w net \<Rightarrow> 'w check" where
  "test_sl1_replay_rejection n = sl1_check n 1000 (replay_body n)"

section \<open>Suites and reports\<close>

definition new_report :: "conformance_runner \<Rightarrow> conformance_report" where
  "new_report r = \<lparr>rp_target = cr_host r @ '':'' @ to_string (cr_port r), rp_total = 0, rp_passed = 0, rp_failed = 0,
     rp_results = [], rp_profiles = []\<rparr>"

definition count_result :: "test_result \<Rightarrow> conformance_report \<Rightarrow> conformance_report" where
  "count_result res rep = rep\<lparr>rp_total := rp_total rep + 1,
     rp_passed := (if te_passed res then rp_passed rep + 1 else rp_passed rep),
     rp_failed := (if te_passed res then rp_failed rep else rp_failed rep + 1),
     rp_results := rp_results rep @ [res]\<rparr>"

fun run_tests :: "(string \<times> 'w check) list \<Rightarrow> 'w \<Rightarrow> conformance_runner
    \<Rightarrow> ('w \<times> conformance_runner \<times> test_result list) option" where
  "run_tests [] w r = Some (w, r, [])"
| "run_tests ((name, t) # ts) w r = do {
     (w, r, v) \<leftarrow> t w r;
     (w, r, rs) \<leftarrow> run_tests ts w r;
     Some (w, r, mk_result name v # rs) }"

definition profile_tests :: "'w net \<Rightarrow> (string \<times> 'w check) list" where
  "profile_tests n = [(''CAPABILITIES_HANDSHAKE'', test_capabilities_handshake n),
     (''BASIC_CHAT_STREAMING'', test_basic_chat_streaming n), (''REASONING_DELTAS'', test_reasoning_deltas n),
     (''EMBEDDING_SPACE_CONFORMANCE'', test_embedding_space n), (''CANCEL_UNDER_LOAD'', test_network_cancellation n),
     (''BACKPRESSURE_FLOW_CONTROL'', test_window_update_flow_control n),
     (''PROTOCOL_VIOLATION_FAIL_CLOSED'', test_fail_closed_robustness n),
     (''CONTENT_SNAPSHOT_EQUIVALENCE'', test_content_snapshot_mode n), (''MULTI_OUTPUT_STREAMING'', test_multi_output_streams n)]"

definition dual_plane_tests :: "'w net \<Rightarrow> (string \<times> 'w check) list" where
  "dual_plane_tests n = [(''DUAL_PLANE_BIND_BEFORE_LEASE_ACK'', test_dual_plane_bind_before_lease_ack n),
     (''DUAL_PLANE_DUPLICATE_BIND'', test_dual_plane_duplicate_bind n),
     (''DUAL_PLANE_UNBOUND_REQUEST'', test_dual_plane_unbound_request n),
     (''DUAL_PLANE_STALE_REBIND'', test_dual_plane_stale_rebind n),
     (''DUAL_PLANE_IDENTITY_CHANGE'', test_dual_plane_identity_change n),
     (''DUAL_PLANE_MALFORMED_BIND'', test_dual_plane_malformed_bind n)]"

definition sl1_tests :: "'w net \<Rightarrow> conformance_runner \<Rightarrow> (string \<times> 'w check) list" where
  "sl1_tests n r = [(''SL1_MUTUAL_HANDSHAKE'', test_sl1_mutual_handshake n),
     (''SL1_AUTHENTICATED_STREAMING'', test_sl1_authenticated_streaming n)] @
     (if cr_sl1_required r then [(''SL1_MISSING_AUTH_REJECTION'', test_sl1_missing_auth_rejection n)] else []) @
     [(''SL1_WRONG_KEY_REJECTION'', test_sl1_wrong_key_rejection n), (''SL1_REPLAY_REJECTION'', test_sl1_replay_rejection n)]"

definition conformant :: "test_result list \<Rightarrow> nat list \<Rightarrow> bool" where
  "conformant rs needed \<longleftrightarrow> list_all (\<lambda>i. te_passed (rs ! i)) needed"

definition profile_statuses :: "test_result list \<Rightarrow> profile_status list" where
  "profile_statuses rs =
     (let st = (\<lambda>p name needed. \<lparr>ps_profile = p, ps_name = name, ps_conformant = conformant rs needed,
          ps_passed_suites = [], ps_failed_suites = []\<rparr>)
      in [st rp_generate ''PROFILE_GENERATE'' [0, 1, 4, 5, 6, 7], st rp_chat ''PROFILE_CHAT'' [0, 1, 2, 4, 5, 6],
          st rp_embed ''PROFILE_EMBED'' [0, 3, 6]])"

definition suite_status :: "string \<Rightarrow> test_result list \<Rightarrow> profile_status" where
  "suite_status name rs = \<lparr>ps_profile = rp_unspecified, ps_name = name, ps_conformant = list_all te_passed rs,
     ps_passed_suites = map te_name (filter te_passed rs),
     ps_failed_suites = map te_name (filter (\<lambda>t. \<not> te_passed t) rs)\<rparr>"

definition add_suite :: "string \<Rightarrow> test_result list \<Rightarrow> conformance_report \<Rightarrow> conformance_report" where
  "add_suite name rs rep = (let rep = fold count_result rs rep in rep\<lparr>rp_profiles := rp_profiles rep @ [suite_status name rs]\<rparr>)"

definition run_dual_plane_suites :: "'w net \<Rightarrow> 'w \<Rightarrow> conformance_runner \<Rightarrow> conformance_report
    \<Rightarrow> ('w \<times> conformance_runner \<times> conformance_report) option" where
  "run_dual_plane_suites n w r rep = do {
     (w, r, rs) \<leftarrow> (if \<not> has_control_endpoint r
       then Some (w, r, [mk_result ''DUAL_PLANE_CONTROL_ENDPOINT'' (Inl ''No UDP control endpoint configured'')])
       else run_tests (dual_plane_tests n) w r);
     Some (w, r, add_suite ''PROFILE_DUAL_PLANE'' rs rep) }"

definition run_sl1_suites :: "'w net \<Rightarrow> 'w \<Rightarrow> conformance_runner \<Rightarrow> conformance_report
    \<Rightarrow> ('w \<times> conformance_runner \<times> conformance_report) option" where
  "run_sl1_suites n w r rep = do {
     (w, r, rs) \<leftarrow> (if \<not> has_sl1 r
       then Some (w, r, [mk_result ''SL1_CREDENTIALS'' (Inl ''No SL1 shared secret configured'')])
       else run_tests (sl1_tests n r) w r);
     Some (w, r, add_suite ''PROFILE_SL1'' rs rep) }"

definition run_all :: "'w net \<Rightarrow> 'w \<Rightarrow> conformance_runner \<Rightarrow> ('w \<times> conformance_runner \<times> conformance_report) option" where
  "run_all n w r = do {
     (w, r, rs) \<leftarrow> run_tests (profile_tests n) w r;
     let rep = (fold count_result rs (new_report r))\<lparr>rp_profiles := profile_statuses rs\<rparr>;
     (w, r, rep) \<leftarrow> (if has_control_endpoint r then run_dual_plane_suites n w r rep else Some (w, r, rep));
     if has_sl1 r then run_sl1_suites n w r rep else Some (w, r, rep) }"

definition run_dual_plane :: "'w net \<Rightarrow> 'w \<Rightarrow> conformance_runner \<Rightarrow> ('w \<times> conformance_runner \<times> conformance_report) option" where
  "run_dual_plane n w r = run_dual_plane_suites n w r (new_report r)"

definition run_sl1 :: "'w net \<Rightarrow> 'w \<Rightarrow> conformance_runner \<Rightarrow> ('w \<times> conformance_runner \<times> conformance_report) option" where
  "run_sl1 n w r = run_sl1_suites n w r (new_report r)"

definition run_profile :: "'w net \<Rightarrow> runtime_profile \<Rightarrow> 'w \<Rightarrow> conformance_runner
    \<Rightarrow> ('w \<times> conformance_runner \<times> conformance_report) option" where
  "run_profile n profile w r = do {
     (w, r, full) \<leftarrow> run_all n w r;
     Some (w, r, full\<lparr>rp_profiles := filter (\<lambda>p. ps_profile p = profile \<or> ps_name p = ''PROFILE_DUAL_PLANE'' \<or>
       ps_name p = ''PROFILE_SL1'') (rp_profiles full)\<rparr>) }"

end
