(* ===== verification/Conformance_Props.thy ===== *)
theory Conformance_Props
  imports Conformance Mock_Runtime_Props Connection_Props
begin

unbundle bit_operations_syntax

text \<open>
  What the tests of the conformance runner accept: the receive loop against a reader of frames, the
  chat test against the streams of the protocol, the report against the results it counts, and the
  mock runtime against the chat test.
\<close>

section \<open>Receive loops as readers of frames\<close>

text \<open>How a loop reads a list of frames: all of them and goes on, or up to the last, which ends it.\<close>

inductive reads :: "('s \<Rightarrow> bytes \<Rightarrow> 's turn) \<Rightarrow> 's \<Rightarrow> bytes list \<Rightarrow> 's turn \<Rightarrow> bool" for g where
  reads_none: "reads g s [] (Go s)"
| reads_more: "g s f = Go s' \<Longrightarrow> reads g s' fs t \<Longrightarrow> reads g s (f # fs) t"
| reads_stop: "g s f = Stop s' \<Longrightarrow> reads g s [f] (Stop s')"
| reads_fail: "g s f = Failed msg \<Longrightarrow> reads g s [f] (Failed msg)"

inductive_simps reads_nil: "reads g s [] t"
inductive_simps reads_cons: "reads g s (f # fs) t"

definition turn_result :: "'s turn \<Rightarrow> string + 's" where
  "turn_result t = (case t of Failed msg \<Rightarrow> Inl msg | Stop s \<Rightarrow> Inr s | Go s \<Rightarrow> Inr s)"

lemma receive_frame:
  assumes "recv_contract os (cn_sock c) pending" and "receive_envelope_raw os w c = (w', c', Some frame)"
  shows "pending w = frame @ pending w' \<and> cn_sock c' = cn_sock c"
  using receive_spec [OF assms] by simp

lemma loop_sound_aux:
  "receive_loop os F s w c = Some y \<Longrightarrow> F = looking g \<Longrightarrow> recv_contract os (cn_sock c) pending \<Longrightarrow>
     (\<exists>fs t. pending w = concat fs @ pending (fst y) \<and> reads g s fs t \<and> turn_result t = snd (snd y)) \<or>
     (\<exists>fs s' q. pending w = concat fs @ q \<and> reads g s fs (Go s') \<and> snd (snd y) = Inr s')"
proof (induction os F s w c y rule: receive_loop.raw_induct [rotated, consumes 1, case_names step])
  case (step loop os F s w c y)
  obtain w1 c1 r where r: "receive_envelope_raw os w c = (w1, c1, r)" by (rule prod_cases3)
  show ?case
  proof (cases r)
    case None
    then show ?thesis using step.hyps r
      by (intro disjI2 exI [of _ "[]"] exI [of _ s] exI [of _ "pending w"]) (auto intro: reads_none)
  next
    case (Some f)
    note fr = receive_frame [OF step.prems(2) r [unfolded Some]]
    show ?thesis
    proof (cases "g s f")
      case (Failed msg)
      then have "y = (w1, c1, Inl msg)" using step.hyps step.prems(1) r Some by (simp add: looking_def)
      then show ?thesis using fr Failed
        by (intro disjI1 exI [of _ "[f]"] exI [of _ "Failed msg"]) (simp add: reads_fail turn_result_def)
    next
      case (Stop s')
      then have "y = (w1, c1, Inr s')" using step.hyps step.prems(1) r Some by (simp add: looking_def)
      then show ?thesis using fr Stop
        by (intro disjI1 exI [of _ "[f]"] exI [of _ "Stop s'"]) (simp add: reads_stop turn_result_def)
    next
      case (Go s')
      then have l: "loop os F s' w1 c1 = Some y" using step.hyps step.prems(1) r Some by (simp add: looking_def)
      have c1: "recv_contract os (cn_sock c1) pending" using fr step.prems(2) by simp
      from step.IH [OF l step.prems(1) c1] show ?thesis
      proof
        assume "\<exists>fs t. pending w1 = concat fs @ pending (fst y) \<and> reads g s' fs t \<and> turn_result t = snd (snd y)"
        then obtain fs t where "pending w1 = concat fs @ pending (fst y)" "reads g s' fs t" "turn_result t = snd (snd y)"
          by blast
        then show ?thesis using fr reads_more [where g = g and s = s and f = f, OF Go] by (intro disjI1 exI [of _ "f # fs"] exI [of _ t]) simp
      next
        assume "\<exists>fs s'' q. pending w1 = concat fs @ q \<and> reads g s' fs (Go s'') \<and> snd (snd y) = Inr s''"
        then obtain fs s'' q where "pending w1 = concat fs @ q" "reads g s' fs (Go s'')" "snd (snd y) = Inr s''" by blast
        then show ?thesis using fr reads_more [where g = g and s = s and f = f, OF Go]
          by (intro disjI2 exI [of _ "f # fs"] exI [of _ s''] exI [of _ q]) simp
      qed
    qed
  qed
qed

lemmas loop_sound = loop_sound_aux [where F = "looking g" for g, OF _ refl]

text \<open>
  The other direction, for frames that are events: reading them never changes what the connection
  accepts, so a loop gets through whatever pieces they arrive in.
\<close>

lemma recv_all_confirmed: "recv_all_bytes os w c n = (w', c', r) \<Longrightarrow> cn_sl1_confirmed c' = cn_sl1_confirmed c"
  by (auto simp: recv_all_bytes_def Let_def split: if_splits prod.splits)

lemma receive_confirmed:
  assumes "recv_contract os (cn_sock c) pending" and "receive_envelope_raw os w c = (w', c', Some frame)"
    and "decode_header frame = Some k" and "hdr_envelope_type k \<noteq> et_session_bind"
  shows "cn_sl1_confirmed c' = cn_sl1_confirmed c"
proof -
  obtain w1 c1 r1 where r: "recv_all_bytes os w c 32 = (w1, c1, r1)" by (rule prod_cases3)
  have nf: "close_and_fail os v d \<noteq> (w', c', Some frame)" for v d
    by (simp add: close_and_fail_def split: prod.split)
  obtain hb h where hb: "r1 = Some hb" and h: "decode_header hb = Some h"
    using assms(2) r nf by (auto simp: receive_unfold split: option.splits)
  have "length hb = 32" using recv_bytes [OF assms(1) r] hb by auto
  have c1: "cn_sl1_confirmed c1 = cn_sl1_confirmed c" using r by (rule recv_all_confirmed)
  define c2 where "c2 = (if hdr_envelope_type h = et_session_bind \<and> hdr_flags h AND LINEP_V02_FLAG_AUTHENTICATED \<noteq> 0
                   then c1\<lparr>cn_sl1_confirmed := True\<rparr> else c1)"
  have ok: "header_ok (cn_sl1_confirmed c1) h"
    using assms(2) r hb h nf by (auto simp: receive_unfold split: if_splits)
  obtain w3 c3 r3 where r3: "recv_all_bytes os w1 c2 (body_length h) = (w3, c3, r3)" by (rule prod_cases3)
  have "\<exists>body. frame = hb @ body \<and> (c' = c2 \<or> c' = c3)"
    using assms(2) nf ok r3 by (auto simp: receive_unfold r hb h c2_def Let_def split: if_splits option.splits)
  then have "k = h" "c' = c2 \<or> c' = c3"
    using assms(3) h decode_header_prefix [OF \<open>length hb = 32\<close>] by auto
  then show ?thesis using assms(4) c1 recv_all_confirmed [OF r3] by (auto simp: c2_def)
qed

definition event_frame :: "bool \<Rightarrow> bytes \<Rightarrow> bool" where
  "event_frame confirmed f \<longleftrightarrow> acceptable_frame confirmed f \<and>
     (\<forall>h. decode_header f = Some h \<longrightarrow> hdr_envelope_type h \<noteq> et_session_bind)"

lemma loop_complete:
  assumes "reads g s fs t" and "pending w = concat fs @ rest" and "recv_contract os (cn_sock c) pending"
    and "recv_delivers os (cn_sock c) pending" and "is_connected c" and "\<forall>f \<in> set fs. event_frame (cn_sl1_confirmed c) f"
    and "\<And>s. t \<noteq> Go s"
  shows "\<exists>w' c'. receive_loop os (looking g) s w c = Some (w', c', turn_result t) \<and> pending w' = rest"
  using assms
proof (induction arbitrary: w c rule: reads.induct)
  case (reads_more s f s' fs t)
  have a: "acceptable_frame (cn_sl1_confirmed c) f" "pending w = f @ concat fs @ rest"
    using reads_more.prems(1,5) by (simp_all add: event_frame_def)
  obtain w1 c1 where r: "receive_envelope_raw os w c = (w1, c1, Some f)" and p: "pending w1 = concat fs @ rest" and i: "is_connected c1"
    using receive_delivered_frame [OF reads_more.prems(2-4) a(2,1)] by blast
  have k: "cn_sock c1 = cn_sock c" using receive_frame [OF reads_more.prems(2) r] by simp
  obtain h where "decode_header f = Some h" using a(1) by (auto simp: acceptable_frame_def)
  then have "cn_sl1_confirmed c1 = cn_sl1_confirmed c"
    using receive_confirmed [OF reads_more.prems(2) r] reads_more.prems(5) by (simp add: event_frame_def)
  then have "\<exists>w' c'. receive_loop os (looking g) s' w1 c1 = Some (w', c', turn_result t) \<and> pending w' = rest"
    using reads_more.prems i k by (intro reads_more.IH p) simp_all
  then show ?case using r reads_more.hyps(1) by (subst receive_loop.simps) (simp add: looking_def)
next
  case (reads_stop s f s')
  have a: "acceptable_frame (cn_sl1_confirmed c) f" "pending w = f @ rest"
    using reads_stop.prems(1,5) by (simp_all add: event_frame_def)
  obtain w1 c1 where "receive_envelope_raw os w c = (w1, c1, Some f)" "pending w1 = rest"
    using receive_delivered_frame [OF reads_stop.prems(2-4) a(2,1)] by blast
  then show ?case using reads_stop.hyps by (subst receive_loop.simps) (simp add: looking_def turn_result_def)
next
  case (reads_fail s f msg)
  have a: "acceptable_frame (cn_sl1_confirmed c) f" "pending w = f @ rest"
    using reads_fail.prems(1,5) by (simp_all add: event_frame_def)
  obtain w1 c1 where "receive_envelope_raw os w c = (w1, c1, Some f)" "pending w1 = rest"
    using receive_delivered_frame [OF reads_fail.prems(2-4) a(2,1)] by blast
  then show ?case using reads_fail.hyps by (subst receive_loop.simps) (simp add: looking_def turn_result_def)
qed (auto dest: meta_spec)

section \<open>What the chat test accepts\<close>

definition deltas :: "event_envelope list \<Rightarrow> string" where
  "deltas es = concat (map evt_payload (filter (\<lambda>e. evt_event_type e = re_content_delta) es))"

text \<open>A stream as the protocol wants it: numbered, completed at its end and only there, not empty.\<close>

definition good_stream :: "stream_identity \<Rightarrow> u64 \<Rightarrow> event_envelope list \<Rightarrow> bool" where
  "good_stream i n es \<longleftrightarrow> es \<noteq> [] \<and> (\<forall>e \<in> set es. evt_stream e = i) \<and>
     map evt_event_seq es = map (\<lambda>k. n + of_nat k) [0..<length es] \<and>
     evt_event_type (last es) = re_completed \<and> evt_outcome (last es) = to_completed \<and>
     err_code (evt_error (last es)) = 200 \<and> (\<forall>e \<in> set (butlast es). evt_event_type e \<noteq> re_completed)"

lemma good_stream_nil [simp]: "\<not> good_stream i n []"
  by (simp add: good_stream_def)

lemma good_stream_cons: "good_stream i n (e # es) \<longleftrightarrow> evt_stream e = i \<and> evt_event_seq e = n \<and>
    (if evt_event_type e = re_completed then es = [] \<and> evt_outcome e = to_completed \<and> err_code (evt_error e) = 200
     else good_stream i (n + 1) es)"
proof (cases "es = []")
  case False
  have "map (\<lambda>k. n + of_nat k) [0..<length (e # es)] = n # map (\<lambda>k. n + 1 + of_nat k) [0..<length es]"
    by (simp add: upt_conv_Cons map_Suc_upt [symmetric] ac_simps del: upt_Suc)
  then show ?thesis using False by (auto simp: good_stream_def)
qed (auto simp: good_stream_def)

lemma deltas_cons [simp]: "deltas [] = []"
  "deltas (e # es) = (if evt_event_type e = re_content_delta then evt_payload e else []) @ deltas es"
  by (simp_all add: deltas_def)

lemma on_decoded_simps:
  "decode_event new_event f = None \<Longrightarrow> on_decoded msg g s f = Failed msg"
  "decode_event new_event f = Some e \<Longrightarrow> on_decoded msg g s f = g s e"
  by (simp_all add: on_decoded_def)

text \<open>Reading up to the end of a stream, one event at a time.\<close>

lemma reads_events_cons:
  "reads (on_decoded msg g) s (f # fs) (Stop s') \<longleftrightarrow>
     (case decode_event new_event f of None \<Rightarrow> False
      | Some e \<Rightarrow> (\<exists>s1. g s e = Go s1 \<and> reads (on_decoded msg g) s1 fs (Stop s')) \<or> g s e = Stop s' \<and> fs = [])"
  by (cases "decode_event new_event f") (auto simp: reads_cons on_decoded_simps)

lemma ex_events_cons:
  "decode_event new_event f = Some e \<Longrightarrow>
     (\<exists>es. map (decode_event new_event) (f # fs) = map Some es \<and> P es) \<longleftrightarrow>
     (\<exists>es. map (decode_event new_event) fs = map Some es \<and> P (e # es))"
proof
  assume d: "decode_event new_event f = Some e"
  show "\<exists>es. map (decode_event new_event) (f # fs) = map Some es \<and> P es \<Longrightarrow>
      \<exists>es. map (decode_event new_event) fs = map Some es \<and> P (e # es)"
    using d by (auto simp: Cons_eq_map_conv)
  assume "\<exists>es. map (decode_event new_event) fs = map Some es \<and> P (e # es)"
  then obtain es where "map (decode_event new_event) fs = map Some es" "P (e # es)" by blast
  then show "\<exists>es. map (decode_event new_event) (f # fs) = map Some es \<and> P es"
    using d by (intro exI [of _ "e # es"]) simp
qed

lemma reads_chat:
  "reads (on_decoded msg (chat_turn i)) s fs (Stop s') \<longleftrightarrow>
     (\<exists>es. map (decode_event new_event) fs = map Some es \<and> good_stream i (ch_expected_seq s) es \<and>
        s' = s\<lparr>ch_expected_seq := ch_expected_seq s + of_nat (length es), ch_terminal := True,
               ch_response := ch_response s @ deltas es\<rparr>)"
proof (induction fs arbitrary: s)
  case Nil
  show ?case by (simp add: reads_nil)
next
  case (Cons f fs)
  show ?case
  proof (cases "decode_event new_event f")
    case None
    then show ?thesis by (auto simp: reads_events_cons)
  next
    case (Some e)
    let ?s = "s\<lparr>ch_expected_seq := ch_expected_seq s + 1\<rparr>"
    let ?go = "?s\<lparr>ch_response := ch_response s @ (if evt_event_type e = re_content_delta then evt_payload e else [])\<rparr>"
    have t: "chat_turn i s e = Go s1 \<longleftrightarrow> evt_stream e = i \<and> evt_event_seq e = ch_expected_seq s \<and>
        evt_event_type e \<noteq> re_completed \<and> s1 = ?go" for s1
      by (auto simp: chat_turn_def Let_def)
    have u: "chat_turn i s e = Stop s1 \<longleftrightarrow> evt_stream e = i \<and> evt_event_seq e = ch_expected_seq s \<and>
        evt_event_type e = re_completed \<and> evt_outcome e = to_completed \<and> err_code (evt_error e) = 200 \<and>
        s1 = ?s\<lparr>ch_terminal := True\<rparr>" for s1
      by (auto simp: chat_turn_def Let_def)
    have d: "(re_content_delta :: runtime_event_type) \<noteq> re_completed" by simp
    have "reads (on_decoded msg (chat_turn i)) s (f # fs) (Stop s') \<longleftrightarrow>
        evt_stream e = i \<and> evt_event_seq e = ch_expected_seq s \<and>
        (if evt_event_type e = re_completed then evt_outcome e = to_completed \<and> err_code (evt_error e) = 200 \<and>
           s' = ?s\<lparr>ch_terminal := True\<rparr> \<and> fs = []
         else reads (on_decoded msg (chat_turn i)) ?go fs (Stop s'))"
      by (simp add: reads_events_cons Some t u)
    also have "\<dots> \<longleftrightarrow> (\<exists>es. map (decode_event new_event) fs = map Some es \<and> good_stream i (ch_expected_seq s) (e # es) \<and>
        s' = s\<lparr>ch_expected_seq := ch_expected_seq s + of_nat (length (e # es)), ch_terminal := True,
               ch_response := ch_response s @ deltas (e # es)\<rparr>)"
      using d by (cases "evt_event_type e = re_completed") (auto simp: Cons.IH good_stream_cons ac_simps)
    also have "\<dots> \<longleftrightarrow> (\<exists>es. map (decode_event new_event) (f # fs) = map Some es \<and> good_stream i (ch_expected_seq s) es \<and>
        s' = s\<lparr>ch_expected_seq := ch_expected_seq s + of_nat (length es), ch_terminal := True,
               ch_response := ch_response s @ deltas es\<rparr>)"
      by (rule ex_events_cons [OF Some, symmetric])
    finally show ?thesis .
  qed
qed

text \<open>
  C36: the chat test of the conformance runner is sound and complete. When it passes, the bytes it
  read are frames of a stream numbered 1, 2, 3 and so on under the identity of the request, with some text
  and completed with code 200 at its end; and it passes on every such stream, in whatever pieces
  the frames arrive, and takes no byte beyond them.
\<close>

theorem chat_test_exact:
  assumes "send_request (nt_os n) w c chat_request = (w1, c1, True)"
    and "recv_contract (nt_os n) (cn_sock c1) pending"
  shows "(\<forall>w' c' msg. chat_body n w c = Some (w', c', Inr msg) \<longrightarrow>
      (\<exists>fs es. pending w1 = concat fs @ pending w' \<and> map (decode_event new_event) fs = map Some es \<and>
         good_stream (stream_of 101 1001) 1 es \<and> deltas es \<noteq> [])) \<and>
    (\<forall>fs es rest. recv_delivers (nt_os n) (cn_sock c1) pending \<longrightarrow> is_connected c1 \<longrightarrow> pending w1 = concat fs @ rest \<longrightarrow>
       (\<forall>f \<in> set fs. event_frame (cn_sl1_confirmed c1) f) \<longrightarrow> map (decode_event new_event) fs = map Some es \<longrightarrow>
       good_stream (stream_of 101 1001) 1 es \<longrightarrow> deltas es \<noteq> [] \<longrightarrow>
       (\<exists>w' c' msg. chat_body n w c = Some (w', c', Inr msg) \<and> pending w' = rest))"
proof -
  let ?s = "\<lparr>ch_expected_seq = 1, ch_terminal = False, ch_response = []\<rparr>"
  let ?g = "on_decoded ''Failed to decode event envelope'' (chat_turn (stream_of 101 1001))"
  have b: "chat_body n w c = Option.bind (receive_loop (nt_os n) (looking ?g) ?s w1 c1)
      (\<lambda>(w, c, res). Some (w, c, case res of Inl msg \<Rightarrow> Inl msg | Inr s \<Rightarrow> chat_verdict s))"
    using assms(1) by (simp add: chat_body_def request_check_def)
  show ?thesis
  proof (intro conjI allI impI)
    fix w' c' msg assume p: "chat_body n w c = Some (w', c', Inr msg)"
    then obtain res where r: "receive_loop (nt_os n) (looking ?g) ?s w1 c1 = Some (w', c', res)"
      "(case res of Inl msg \<Rightarrow> Inl msg | Inr s \<Rightarrow> chat_verdict s) = Inr msg" by (auto simp: b bind_eq_Some_conv)
    then obtain s' where l: "receive_loop (nt_os n) (looking ?g) ?s w1 c1 = Some (w', c', Inr s')" and v: "chat_verdict s' = Inr msg"
      by (cases res) simp_all
    then have t: "ch_terminal s'" "ch_response s' \<noteq> []" by (simp_all add: chat_verdict_def split: if_splits)
    have g: "reads ?g s fs (Go s'') \<Longrightarrow> ch_terminal s'' = ch_terminal s" for s fs s''
      by (induction s fs "Go s'' :: chat_state turn" rule: reads.induct)
        (auto simp: on_decoded_def chat_turn_def Let_def split: option.splits if_splits)
    obtain fs where "pending w1 = concat fs @ pending w'" "reads ?g ?s fs (Stop s')"
      using loop_sound [OF l assms(2)] t(1) g by (fastforce simp: turn_result_def split: turn.splits)
    then show "\<exists>fs es. pending w1 = concat fs @ pending w' \<and> map (decode_event new_event) fs = map Some es \<and>
         good_stream (stream_of 101 1001) 1 es \<and> deltas es \<noteq> []"
      using t(2) unfolding reads_chat by auto
  next
    fix fs es rest
    assume a: "recv_delivers (nt_os n) (cn_sock c1) pending" "is_connected c1" "pending w1 = concat fs @ rest"
      "\<forall>f \<in> set fs. event_frame (cn_sl1_confirmed c1) f" "map (decode_event new_event) fs = map Some es"
      "good_stream (stream_of 101 1001) 1 es" "deltas es \<noteq> []"
    let ?t = "\<lparr>ch_expected_seq = 1 + of_nat (length es), ch_terminal = True, ch_response = deltas es\<rparr>"
    have "reads ?g ?s fs (Stop ?t)" unfolding reads_chat using a(5,6) by auto
    from loop_complete [OF this a(3) assms(2) a(1,2,4)]
    show "\<exists>w' c' msg. chat_body n w c = Some (w', c', Inr msg) \<and> pending w' = rest"
      using a(7) by (auto simp: b turn_result_def chat_verdict_def)
  qed
qed

section \<open>What the snapshot test accepts\<close>

text \<open>
  The test of snapshot equivalence passes on every stream that ends with a completed event; it
  compares nothing, and no event of the stream need be a snapshot.
\<close>

lemma reads_count:
  assumes "map (decode_event new_event) fs = map Some (es @ [e])" and "\<forall>x \<in> set es. evt_event_type x \<noteq> re_completed"
    and "evt_event_type e = re_completed" and "evt_outcome e = to_completed"
  shows "reads (on_decoded msg count_turn) s fs (Stop (s\<lparr>ct_events := ct_events s + length es + 1, ct_completed := True\<rparr>))"
  using assms(1,2)
proof (induction es arbitrary: fs s)
  case Nil
  then obtain f where "fs = [f]" "decode_event new_event f = Some e" by (auto simp: map_eq_Cons_conv)
  then show ?case using assms(3,4) by (simp add: reads_events_cons count_turn_def Let_def reads_nil)
next
  case (Cons x es)
  then obtain f fs' where f: "fs = f # fs'" "decode_event new_event f = Some x" "map (decode_event new_event) fs' = map Some (es @ [e])"
    by (auto simp: map_eq_Cons_conv)
  then show ?case
    using Cons.IH [OF f(3), of "s\<lparr>ct_events := ct_events s + 1\<rparr>"] Cons.prems(2)
    by (simp add: reads_events_cons count_turn_def Let_def)
qed

theorem snapshot_test_sees_no_snapshots:
  assumes "send_request (nt_os n) w c (new_request (stream_of 107 1007) rp_generate ''Snapshot prompt'') = (w1, c1, True)"
    and "recv_contract (nt_os n) (cn_sock c1) pending" and "recv_delivers (nt_os n) (cn_sock c1) pending"
    and "is_connected c1" and "pending w1 = concat fs @ rest" and "\<forall>f \<in> set fs. event_frame (cn_sl1_confirmed c1) f"
    and "map (decode_event new_event) fs = map Some (es @ [e])" and "evt_event_type e = re_completed" and "evt_outcome e = to_completed"
    and "\<forall>x \<in> set es. evt_event_type x \<notin> {re_completed, re_content_snapshot}"
  shows "\<exists>w' c' msg. snapshot_body n w c = Some (w', c', Inr msg)"
proof -
  have "\<forall>x \<in> set es. evt_event_type x \<noteq> re_completed" using assms(10) by auto
  from loop_complete [OF reads_count [OF assms(7) this assms(8,9), of "''Failed to decode event''"
        "\<lparr>ct_events = 0, ct_completed = False\<rparr>"] assms(5,2,3,4,6)]
  obtain w' c' where "receive_loop (nt_os n) (looking (on_decoded ''Failed to decode event'' count_turn))
      \<lparr>ct_events = 0, ct_completed = False\<rparr> w1 c1 = Some (w', c', Inr \<lparr>ct_events = Suc (length es), ct_completed = True\<rparr>)"
    by (auto simp: turn_result_def)
  then show ?thesis using assms(1) by (simp add: snapshot_body_def request_check_def snapshot_verdict_def)
qed

section \<open>Reports\<close>

definition counts_ok :: "conformance_report \<Rightarrow> bool" where
  "counts_ok rep \<longleftrightarrow> rp_total rep = length (rp_results rep) \<and> rp_passed rep = length (filter te_passed (rp_results rep)) \<and>
     rp_failed rep = length (filter (\<lambda>t. \<not> te_passed t) (rp_results rep))"

lemma fold_counts: "counts_ok rep \<Longrightarrow> counts_ok (fold count_result rs rep)"
  by (induction rs arbitrary: rep) (simp_all add: counts_ok_def count_result_def)

lemma fold_count_fields [simp]: "rp_results (fold count_result rs rep) = rp_results rep @ rs"
  "rp_profiles (fold count_result rs rep) = rp_profiles rep"
  by (induction rs arbitrary: rep) (simp_all add: count_result_def)

lemma add_suite_ok: "counts_ok rep \<Longrightarrow> counts_ok (add_suite name rs rep)"
  using fold_counts [of rep rs] by (simp add: add_suite_def Let_def counts_ok_def)

lemma add_suite_sel [simp]: "rp_results (add_suite name rs rep) = rp_results rep @ rs"
  "rp_profiles (add_suite name rs rep) = rp_profiles rep @ [suite_status name rs]"
  by (simp_all add: add_suite_def Let_def)

lemma te_name_mk_result [simp]: "te_name (mk_result name v) = name"
  by (simp add: mk_result_def split: sum.split)

lemma run_tests_names: "run_tests ts w r = Some (w', r', rs) \<Longrightarrow> map te_name rs = map fst ts"
  by (induction ts w r arbitrary: w' r' rs rule: run_tests.induct) (auto simp: bind_eq_Some_conv)

lemma all_passed_iff: "counts_ok rep \<Longrightarrow> is_all_passed rep \<longleftrightarrow> rp_results rep \<noteq> [] \<and> (\<forall>t \<in> set (rp_results rep). te_passed t)"
proof -
  assume c: "counts_ok rep"
  have "length (filter te_passed ts) = length ts" if "\<forall>t \<in> set ts. te_passed t" for ts using that by simp
  then show ?thesis using c by (auto simp: is_all_passed_def counts_ok_def filter_empty_conv)
qed

text \<open>
  Reports. A report of a full run counts its results, says that all passed exactly when each did, and
  a profile is conformant exactly when its tests passed; so when every profile is conformant, every test passed
  but possibly MULTI_OUTPUT_STREAMING, which no profile asks for.
\<close>

lemma profile_statuses_conformant:
  assumes "length rs = 9"
  shows "(\<forall>p \<in> set (profile_statuses rs). ps_conformant p) \<longleftrightarrow> (\<forall>i < 8. te_passed (rs ! i))"
proof -
  have "(\<forall>i < 8. P i) \<longleftrightarrow> P 0 \<and> P 1 \<and> P 2 \<and> P 3 \<and> P 4 \<and> P 5 \<and> P 6 \<and> P (7::nat)" for P
    by (simp add: numeral_eq_Suc All_less_Suc) blast
  then show ?thesis by (auto simp: profile_statuses_def Let_def conformant_def)
qed

definition suite_added :: "conformance_report \<Rightarrow> conformance_report \<Rightarrow> bool" where
  "suite_added rep rep' \<longleftrightarrow> (\<exists>xs ps. rp_results rep' = rp_results rep @ xs \<and> rp_profiles rep' = rp_profiles rep @ ps \<and>
     ((\<forall>p \<in> set ps. ps_conformant p) \<longleftrightarrow> (\<forall>t \<in> set xs. te_passed t)) \<and>
     ''MULTI_OUTPUT_STREAMING'' \<notin> te_name ` set xs \<and> (counts_ok rep \<longrightarrow> counts_ok rep'))"

lemma suite_added_refl: "suite_added rep rep"
  by (auto simp: suite_added_def intro!: exI [of _ "[]"])

lemma suite_added_trans: "suite_added a b \<Longrightarrow> suite_added b c \<Longrightarrow> suite_added a c"
  unfolding suite_added_def by (elim exE conjE, rule_tac x = "xs @ xsa" in exI, rule_tac x = "ps @ psa" in exI) auto

lemma add_suite_added:
  "''MULTI_OUTPUT_STREAMING'' \<notin> set (map te_name xs) \<Longrightarrow> suite_added rep (add_suite name xs rep)"
  unfolding suite_added_def
  by (intro exI [of _ xs] exI [of _ "[suite_status name xs]"])
    (auto simp: add_suite_ok suite_status_def list_all_iff)

lemma suites_added:
  "run_dual_plane_suites n w r rep = Some (w', r', rep') \<Longrightarrow> suite_added rep rep'"
  "run_sl1_suites n w r rep = Some (w', r', rep') \<Longrightarrow> suite_added rep rep'"
  by (auto simp: run_dual_plane_suites_def run_sl1_suites_def bind_eq_Some_conv dual_plane_tests_def sl1_tests_def
      intro!: add_suite_added dest!: run_tests_names split: if_splits)

theorem report_exact:
  assumes "run_all n w r = Some (w', r', rep)"
  shows "(is_all_passed rep \<longleftrightarrow> (\<forall>t \<in> set (rp_results rep). te_passed t)) \<and>
    rp_total rep = rp_passed rep + rp_failed rep \<and> rp_total rep = length (rp_results rep) \<and>
    ((\<forall>p \<in> set (rp_profiles rep). ps_conformant p) \<longleftrightarrow>
       (\<forall>t \<in> set (rp_results rep). te_passed t \<or> te_name t = ''MULTI_OUTPUT_STREAMING''))"
proof -
  obtain w1 r1 rs where rs: "run_tests (profile_tests n) w r = Some (w1, r1, rs)"
    using assms by (auto simp: run_all_def bind_eq_Some_conv)
  let ?rep = "(fold count_result rs (new_report r1))\<lparr>rp_profiles := profile_statuses rs\<rparr>"
  have "suite_added ?rep rep" using assms rs
    by (auto simp: run_all_def bind_eq_Some_conv Let_def intro: suite_added_refl suites_added suite_added_trans split: if_splits)
  moreover have "counts_ok ?rep" using fold_counts [of "new_report r1" rs] by (simp add: counts_ok_def new_report_def)
  ultimately obtain xs ps where x: "rp_results rep = rs @ xs" "rp_profiles rep = profile_statuses rs @ ps"
    "(\<forall>p \<in> set ps. ps_conformant p) \<longleftrightarrow> (\<forall>t \<in> set xs. te_passed t)" "''MULTI_OUTPUT_STREAMING'' \<notin> te_name ` set xs" "counts_ok rep"
    by (auto simp: suite_added_def new_report_def)
  have names: "map te_name rs = map fst (profile_tests n)" using run_tests_names [OF rs] .
  have "length (map te_name rs) = 9" unfolding names by (simp add: profile_tests_def)
  then have l: "length rs = 9" by simp
  then have ne: "rp_results rep \<noteq> []" using x(1) by auto
  have nm: "te_name (rs ! i) = ''MULTI_OUTPUT_STREAMING'' \<longleftrightarrow> i = 8" if "i < 9" for i
  proof -
    have "te_name (rs ! i) = map te_name rs ! i" using l that by simp
    then have "te_name (rs ! i) = map fst (profile_tests n) ! i" unfolding names .
    moreover have "i \<in> {0, 1, 2, 3, 4, 5, 6, 7, 8}" using that by auto
    ultimately show ?thesis by (auto simp: profile_tests_def)
  qed
  have e: "i < 9 \<and> i \<noteq> 8 \<longleftrightarrow> i < 8" for i :: nat by auto
  have "(\<forall>t \<in> set rs. te_passed t \<or> te_name t = ''MULTI_OUTPUT_STREAMING'') \<longleftrightarrow>
      (\<forall>i < 9. te_passed (rs ! i) \<or> te_name (rs ! i) = ''MULTI_OUTPUT_STREAMING'')"
    by (simp add: all_set_conv_all_nth l)
  also have "\<dots> \<longleftrightarrow> (\<forall>i. i < 9 \<and> i \<noteq> 8 \<longrightarrow> te_passed (rs ! i))" using nm by auto
  also have "\<dots> \<longleftrightarrow> (\<forall>i < 8. te_passed (rs ! i))" unfolding e ..
  finally have "(\<forall>t \<in> set rs. te_passed t \<or> te_name t = ''MULTI_OUTPUT_STREAMING'') \<longleftrightarrow> (\<forall>i < 8. te_passed (rs ! i))" .
  moreover have xs: "(\<forall>t \<in> set xs. te_passed t \<or> te_name t = ''MULTI_OUTPUT_STREAMING'') \<longleftrightarrow> (\<forall>t \<in> set xs. te_passed t)"
    using x(4) by (metis imageI)
  ultimately have "(\<forall>p \<in> set (rp_profiles rep). ps_conformant p) \<longleftrightarrow>
       (\<forall>t \<in> set (rp_results rep). te_passed t \<or> te_name t = ''MULTI_OUTPUT_STREAMING'')"
    using x(1-3) profile_statuses_conformant [OF l] xs by (simp add: ball_Un)
  moreover have "rp_total rep = rp_passed rep + rp_failed rep"
    using x(5) sum_length_filter_compl [of te_passed "rp_results rep"] by (simp add: counts_ok_def)
  ultimately show ?thesis using all_passed_iff [OF x(5)] ne x(5) by (simp add: counts_ok_def)
qed

section \<open>The mock runtime passes\<close>

lemma deltas_append [simp]: "deltas (xs @ ys) = deltas xs @ deltas ys"
  by (simp add: deltas_def)

text \<open>What was or will be sent, and that a completed output had some text before.\<close>

definition all_sent :: "event_envelope list \<Rightarrow> output_thread \<Rightarrow> event_envelope list" where
  "all_sent es t = es @ pending_sends (ot_todo t)"

definition sent_ok :: "mock_runtime_config \<Rightarrow> event_envelope list \<Rightarrow> output_thread \<Rightarrow> bool" where
  "sent_ok cfg es t \<longleftrightarrow> (\<forall>e \<in> set (all_sent es t). (\<exists>k < mock_outputs cfg. evt_stream e = output_stream (ot_request t) k) \<and>
     (evt_event_type e = re_completed \<longrightarrow> evt_outcome e = to_completed \<and> err_code (evt_error e) = 200 \<and>
        deltas (all_sent es t) \<noteq> []))"

definition text_ok :: "event_envelope list \<Rightarrow> output_thread \<Rightarrow> bool" where
  "text_ok es t = (case ot_pc t of Token n \<Rightarrow> n = 1 \<or> deltas (all_sent es t) \<noteq> []
     | Window n d \<Rightarrow> d \<noteq> [] | Conclude \<Rightarrow> deltas (all_sent es t) \<noteq> [] | _ \<Rightarrow> True)"

lemma all_sent_updates [simp]:
  "all_sent es (t\<lparr>ot_pc := pc\<rparr>) = all_sent es t" "all_sent es (t\<lparr>ot_text := x\<rparr>) = all_sent es t"
  "all_sent es (t\<lparr>ot_seq := sq\<rparr>) = all_sent es t" "all_sent es (t\<lparr>ot_emitted := n\<rparr>) = all_sent es t"
  "all_sent es (t\<lparr>ot_output := k\<rparr>) = all_sent es t" "all_sent es (emit f t) = all_sent es t @ [f (ot_seq t)]"
  by (simp_all add: all_sent_def)

lemma sent_ok_updates [simp]:
  "sent_ok cfg es (t\<lparr>ot_pc := pc\<rparr>) = sent_ok cfg es t" "sent_ok cfg es (t\<lparr>ot_text := x\<rparr>) = sent_ok cfg es t"
  "sent_ok cfg es (t\<lparr>ot_seq := sq\<rparr>) = sent_ok cfg es t" "sent_ok cfg es (t\<lparr>ot_emitted := n\<rparr>) = sent_ok cfg es t"
  "sent_ok cfg es (t\<lparr>ot_output := k\<rparr>) = sent_ok cfg es t"
  by (simp_all add: sent_ok_def)

lemma sent_ok_emit:
  assumes "sent_ok cfg es t" and "ot_output t < mock_outputs cfg"
    and "evt_stream (f (ot_seq t)) = output_stream (ot_request t) (ot_output t)"
    and "evt_event_type (f (ot_seq t)) = re_completed \<Longrightarrow>
      evt_outcome (f (ot_seq t)) = to_completed \<and> err_code (evt_error (f (ot_seq t))) = 200 \<and> deltas (all_sent es t) \<noteq> []"
  shows "sent_ok cfg es (emit f t)"
  using assms by (auto simp: sent_ok_def)

lemma end_event_sel [simp]:
  "evt_outcome (end_event i sq ty p out code) = out" "err_code (evt_error (end_event i sq ty p out code)) = code"
  by (simp_all add: end_event_def no_error_def)

lemma end_output_sent:
  assumes "sent_ok cfg es t" and "ot_output t < mock_outputs cfg"
    and "ty = re_completed \<Longrightarrow> out = to_completed \<and> code = 200 \<and> deltas (all_sent es t) \<noteq> []"
  shows "sent_ok cfg es (end_output ty p out code t) \<and> text_ok es (end_output ty p out code t)"
  using assms sent_ok_emit [of cfg es t "\<lambda>sq. end_event (output_stream (ot_request t) (ot_output t)) sq ty p out code"]
  by (simp add: end_output_def text_ok_def)

lemma fail_or_sent:
  assumes "sent_ok cfg es t" and "ot_output t < mock_outputs cfg" and "text_ok es (t\<lparr>ot_pc := pc\<rparr>)"
  shows "sent_ok cfg es (fail_or cfg pc t) \<and> text_ok es (fail_or cfg pc t)"
proof -
  have "text_ok es (t\<lparr>ot_emitted := n, ot_pc := pc\<rparr>)" for n using assms(3) by (simp add: text_ok_def split: output_pc.splits)
  then show ?thesis using assms(1,2) end_output_sent [of cfg es "t\<lparr>ot_emitted := ot_emitted t + 1\<rparr>" re_failed]
    by (simp add: fail_or_def Let_def)
qed

lemma plan_sent:
  assumes ok: "thread_ok cfg es t" and s: "sent_ok cfg es t" and x: "text_ok es t"
    and c: "req_profile (ot_request t) \<noteq> rp_embed" "\<not> mk_duplicate_event cfg" "\<not> mk_snapshot_mode cfg" "1 \<le> mk_default_tokens cfg"
  shows "sent_ok cfg es (plan fm cfg up stalled m t) \<and> text_ok es (plan fm cfg up stalled m t)"
proof (cases "ot_pc t")
  case Output_Start
  then show ?thesis using s c(1) by (simp add: plan_def Let_def) (simp add: text_ok_def)
next
  case (Embed_Batch b)
  then show ?thesis using ok by (simp add: thread_ok_def here_ok_def)
next
  case (Reasoning n)
  then have o: "ot_output t < mock_outputs cfg" using ok by (simp add: thread_ok_def here_ok_def)
  have e: "sent_ok cfg es (emit (\<lambda>sq. out_event (output_stream (ot_request t) (ot_output t)) sq re_reasoning_delta p) t)" for p
    by (rule sent_ok_emit [OF s o]) simp_all
  have "sent_ok cfg es (fail_or cfg (Reasoning (n + 1)) (emit (\<lambda>sq. out_event (output_stream (ot_request t) (ot_output t)) sq re_reasoning_delta p) t)) \<and>
      text_ok es (fail_or cfg (Reasoning (n + 1)) (emit (\<lambda>sq. out_event (output_stream (ot_request t) (ot_output t)) sq re_reasoning_delta p) t))" for p
    by (rule fail_or_sent [OF e]) (simp_all add: o text_ok_def)
  then show ?thesis using Reasoning s end_output_sent [OF s o, of re_cancelled]
    by (simp add: plan_def Let_def) (simp add: text_ok_def)
next
  case (Token n)
  then have o: "ot_output t < mock_outputs cfg" using ok by (simp add: thread_ok_def here_ok_def)
  have d: "delta_text n k \<noteq> []" for k by (simp add: delta_text_def)
  have z: "mk_default_tokens cfg < n \<Longrightarrow> n \<noteq> 1" using c(4) by auto
  show ?thesis using Token s x z end_output_sent [OF s o, of re_cancelled]
    by (simp add: plan_def Let_def) (auto simp: text_ok_def d)
next
  case (Window n delta)
  then have o: "ot_output t < mock_outputs cfg" using ok by (simp add: thread_ok_def here_ok_def)
  have d: "delta \<noteq> []" using x Window by (simp add: text_ok_def)
  let ?t = "emit (\<lambda>_. out_event (output_stream (ot_request t) (ot_output t)) (ot_seq t) re_content_delta delta) t"
  have e: "sent_ok cfg es ?t" by (rule sent_ok_emit [OF s o]) simp_all
  have p: "evt_payload (out_event i sq ty q) = q" for i sq ty q by (simp add: out_event_def)
  have "sent_ok cfg es (fail_or cfg (Token (n + 1)) ?t) \<and> text_ok es (fail_or cfg (Token (n + 1)) ?t)"
    by (rule fail_or_sent [OF e]) (simp_all add: o text_ok_def d p)
  then show ?thesis using Window s x c(2,3) end_output_sent [OF s o, of re_cancelled] end_output_sent [OF s o, of re_failed]
    by (simp add: plan_def Let_def)
next
  case Conclude
  then have o: "ot_output t < mock_outputs cfg" using ok by (simp add: thread_ok_def here_ok_def)
  have d: "deltas (all_sent es t) \<noteq> []" using x Conclude by (simp add: text_ok_def)
  have "all_sent es (t\<lparr>ot_todo := ot_todo t @ [Drop_Connection], ot_pc := Output_End\<rparr>) = all_sent es t" by (simp add: all_sent_def)
  then show ?thesis using Conclude s end_output_sent [OF s o, of re_completed to_completed 200] d
    by (simp add: plan_def Let_def) (simp add: sent_ok_def text_ok_def)
next
  case Output_End
  then show ?thesis using s by (simp add: plan_def Let_def) (simp add: text_ok_def)
next
  case Finished
  then show ?thesis using s x by (simp add: plan_def Let_def)
qed

lemma output_run_sent:
  assumes "output_run os fm cfg (new_output_thread cfg req) es t" and c: "req_profile req \<noteq> rp_embed"
    "\<not> mk_duplicate_event cfg" "\<not> mk_cancel_after_accept cfg" "\<not> mk_snapshot_mode cfg" "1 \<le> mk_default_tokens cfg"
  shows "sent_ok cfg es t \<and> text_ok es t"
  using assms(1)
proof induction
  case run_start
  show ?case using c(3) by (simp add: new_output_thread_def Let_def sent_ok_def text_ok_def all_sent_def)
next
  case (run_step es t' running stalled tk tk' t'' sent)
  have ok: "thread_ok cfg es t'" "ot_request t' = req"
    using output_run_ok [OF run_step.hyps(1) c(1-3)] by simp_all
  show ?case
  proof (cases "ot_todo t'")
    case Nil
    then show ?thesis using run_step.hyps(2) run_step.IH plan_sent [OF ok(1), of fm _ stalled "tk_session tk"] c ok(2)
      by (auto simp: output_step_def)
  next
    case (Cons a rest)
    then have "all_sent (es @ sent) t'' = all_sent es t'" "ot_request t'' = ot_request t'" "ot_pc t'' = ot_pc t'"
      using run_step.hyps(2) by (auto simp: output_step_def all_sent_def split: out_action.splits)
    then show ?thesis using run_step.IH by (simp add: sent_ok_def text_ok_def split: output_pc.splits)
  qed
qed


end
