(* ===== verification/Conformance_Examples.thy ===== *)
theory Conformance_Examples
  imports Conformance_Props Mock_Examples
begin

unbundle bit_operations_syntax

text \<open>
  A reply the chat test accepts, a runner that cannot connect, and a run of the mock runtime with one token.
\<close>

section \<open>A reply the chat test accepts\<close>

text \<open>A system on which nothing connects; connections over a concrete system are made by hand.\<close>

definition ex_net :: "(bytes \<times> bytes) net" where
  "ex_net = \<lparr>nt_os = ex_os,
     nt_udp = \<lparr>uo_open = (\<lambda>w. (w, None)), uo_bind = (\<lambda>w fd p. (w, False)), uo_timeout = (\<lambda>w fd t. w),
       uo_sockname = (\<lambda>w fd. None), uo_sendto = (\<lambda>w fd ip p b. (w, -1)), uo_recvfrom = (\<lambda>w fd n. (w, -1, [], [], 0)),
       uo_close = (\<lambda>w fd. w), uo_steady_ns = (\<lambda>w. (w, 0)), uo_wall_us = (\<lambda>w. (w, 0)), uo_random = (\<lambda>w. (w, 0))\<rparr>,
     nt_connect = (\<lambda>w host port. (w, None)), nt_recv_timeout = (\<lambda>w fd t. w),
     nt_math = \<lparr>fm_of_u64 = (\<lambda>_. 0), fm_sin = (\<lambda>x. x), fm_add = (\<lambda>x y. x), fm_sub = (\<lambda>x y. x), fm_mul = (\<lambda>x y. x),
       fm_div = (\<lambda>x y. x), fm_sqrt = (\<lambda>x. x)\<rparr>\<rparr>"

definition ex_reply :: "stream_identity \<Rightarrow> event_envelope list" where
  "ex_reply i = [out_event i 1 re_content_delta ''hi'', end_event i 2 re_completed ''ok'' to_completed 200]"

definition event_wire :: "event_envelope \<Rightarrow> bytes" where
  "event_wire e = close_envelope et_event (evt_stream e) (event_payload e)"

lemma event_wire:
  assumes "event_fits e" and "event_is_valid e" and "keeps_other_results new_event e" and "length (event_payload e) < 1000"
  shows "decode_event new_event (event_wire e) = Some e" "event_frame False (event_wire e)"
proof -
  show "decode_event new_event (event_wire e) = Some e"
    unfolding event_wire_def by (rule decode_event_payload [OF assms(1-3)])
  have "unat (of_nat (length (event_payload e)) :: u32) = length (event_payload e)" using assms(4) by (simp add: unat_of_nat)
  then show "event_frame False (event_wire e)" using assms(4)
    by (simp add: event_frame_def acceptable_frame_def event_wire_def close_envelope_def envelope_header_def header_ok_def
        body_length_def word_le_nat_alt)
qed

lemma ex_reply_wire:
  assumes "e \<in> set (ex_reply \<lparr>request_id = Suc_id, execution_id = eid, output_id = 0\<rparr>)" and "Suc_id \<noteq> 0" "eid \<noteq> 0"
  shows "decode_event new_event (event_wire e) = Some e \<and> event_frame False (event_wire e)"
proof -
  have "event_fits e \<and> event_is_valid e \<and> keeps_other_results new_event e \<and> length (event_payload e) < 1000"
    using assms
    by (auto simp: ex_reply_def event_fits_def fits_u16_def fits_u32_def out_event_def end_event_def new_event_def no_error_def
        event_payload_def write_event_result_def length_write_string keeps_other_results_def event_is_valid_def guard_defs
        stream_is_valid_def)
  then show ?thesis using event_wire by blast
qed

lemma chat_request_sent:
  "\<exists>buf. send_request ex_os (inp, out) (new_connection 4) chat_request = ((inp, out @ buf), new_connection 4, True)"
proof -
  have v: "encode_request chat_request = Some (close_envelope et_request (req_stream chat_request) (write_request_base chat_request))"
    by (simp add: encode_request_def chat_request_def new_request_def request_is_valid_def guard_defs stream_is_valid_def)
  let ?buf = "close_envelope et_request (req_stream chat_request) (write_request_base chat_request)"
  have "length (write_request_base chat_request) < 1000"
    by (simp add: chat_request_def new_request_def write_request_base_def write_bool_def length_write_string fits_u16_def fits_u32_def)
  then have "?buf \<noteq> []" "length ?buf < 2 ^ 31" by (simp_all add: close_envelope_def flip: length_greater_0_conv)
  moreover have "is_connected (new_connection 4)" by (simp add: new_connection_def is_connected_def)
  ultimately show ?thesis using v ex_os_send [of ?buf "new_connection 4"]
    by (simp add: send_request_def send_encoded_def authenticate_outgoing_def new_connection_def)
qed

lemma ex_reply_good: "good_stream i 1 (ex_reply i) \<and> deltas (ex_reply i) = ''hi''"
  by (simp add: ex_reply_def good_stream_cons out_event_def end_event_def no_error_def)

lemma chat_test_exact_witness:
  "\<exists>w' c' msg. chat_body ex_net (concat (map event_wire (ex_reply (stream_of 101 1001))) @ [9], []) (new_connection 4) =
     Some (w', c', Inr msg) \<and> fst w' = [9]"
proof -
  let ?es = "ex_reply (stream_of 101 1001)" and ?inp = "concat (map event_wire (ex_reply (stream_of 101 1001))) @ [9]"
  have n: "nt_os ex_net = ex_os" by (simp add: ex_net_def)
  obtain buf where s: "send_request (nt_os ex_net) (?inp, []) (new_connection 4) chat_request = ((?inp, buf), new_connection 4, True)"
    using chat_request_sent [of ?inp "[]"] unfolding n by auto
  have c: "cn_sl1_confirmed (new_connection 4) = False" "is_connected (new_connection 4)"
    by (simp_all add: new_connection_def is_connected_def)
  have w: "\<forall>e \<in> set ?es. decode_event new_event (event_wire e) = Some e \<and> event_frame False (event_wire e)"
    using ex_reply_wire by simp
  have "recv_contract (nt_os ex_net) (cn_sock (new_connection 4)) fst" unfolding n by (rule ex_os_contracts)
  note t = chat_test_exact [OF s this, THEN conjunct2, rule_format, of "map event_wire ?es" "[9]" ?es]
  have "\<exists>w' c' msg. chat_body ex_net (?inp, []) (new_connection 4) = Some (w', c', Inr msg) \<and> fst w' = [9]"
    by (rule t) (use w c ex_reply_good [of "stream_of 101 1001"] in \<open>auto simp: n ex_os_contracts\<close>)
  then show ?thesis .
qed

text \<open>A runner that cannot connect reports that every test failed.\<close>

lemma run_tests_failing:
  assumes "\<forall>(name, t) \<in> set ts. \<exists>msg. t w r = Some (w, r, Inl msg)"
  shows "\<exists>rs. run_tests ts w r = Some (w, r, rs) \<and> length rs = length ts \<and> (\<forall>t \<in> set rs. \<not> te_passed t)"
  using assms by (induction ts) (auto simp: mk_result_def)

lemma report_exact_witness:
  "\<exists>w' r' rep. run_all ex_net ([], []) (new_runner ''127.0.0.1'' 9) = Some (w', r', rep) \<and>
     \<not> is_all_passed rep \<and> rp_total rep = 9 \<and> rp_failed rep = 9"
proof -
  let ?r = "new_runner ''127.0.0.1'' 9"
  have e: "\<not> has_control_endpoint ?r" "\<not> has_sl1 ?r" by (simp_all add: has_control_endpoint_def has_sl1_def new_runner_def)
  have c: "create_connection ex_net ([], []) ?r = Some (([], []), ?r, None)"
    using e by (simp add: create_connection_def connect_to_def open_socket_def ex_net_def)
  then have "on_connection ex_net msg body ([], []) ?r = Some (([], []), ?r, Inl msg)" for msg body
    by (simp add: on_connection_def)
  then have "\<forall>(name, t) \<in> set (profile_tests ex_net). \<exists>msg. t ([], []) ?r = Some (([], []), ?r, Inl msg)"
    by (simp add: profile_tests_def test_capabilities_handshake_def test_basic_chat_streaming_def test_reasoning_deltas_def
        test_embedding_space_def test_network_cancellation_def test_window_update_flow_control_def
        test_fail_closed_robustness_def test_content_snapshot_mode_def test_multi_output_streams_def)
  from run_tests_failing [OF this] obtain rs where
    rs: "run_tests (profile_tests ex_net) ([], []) ?r = Some (([], []), ?r, rs)" "length rs = 9" "\<forall>t \<in> set rs. \<not> te_passed t"
    by (auto simp: profile_tests_def)
  let ?rep = "(fold count_result rs (new_report ?r))\<lparr>rp_profiles := profile_statuses rs\<rparr>"
  have run: "run_all ex_net ([], []) ?r = Some (([], []), ?r, ?rep)" using rs(1) e by (simp add: run_all_def)
  have "rs \<noteq> []" using rs(2) by auto
  moreover have "rp_failed ?rep = 9"
    using fold_counts [of "new_report ?r" rs] rs(2,3) by (simp add: counts_ok_def new_report_def)
  ultimately show ?thesis using report_exact [OF run] run rs by (auto simp: new_report_def)
qed

text \<open>The mock runtime with one token to send.\<close>

definition ex_chat_config :: mock_runtime_config where
  "ex_chat_config = default_mock_config\<lparr>mk_enable_reasoning := False, mk_default_tokens := 1, mk_ignore_cancel := True\<rparr>"

definition ex_sent :: "stream_identity \<Rightarrow> event_envelope list" where
  "ex_sent i = [out_event i 1 re_content_delta ''Token_1 '',
     end_event i 2 re_completed ''Generation completed successfully'' to_completed 200]"

lemma ex_delta_text: "delta_text 1 0 = ''Token_1 ''"
  by (simp add: delta_text_def to_string_def to_string_nat.simps) code_simp

lemma ex_chat_run:
  fixes os :: "'w os" and tk :: "'w trunk"
  assumes p: "req_profile req \<noteq> rp_embed" and tk: "is_connected (tk_conn tk)"
  shows "\<exists>t. output_run os fm ex_chat_config (new_output_thread ex_chat_config req) (ex_sent (req_stream req)) t \<and> output_done t"
proof -
  let ?t = "\<lambda>k sq em tx pc todo. \<lparr>ot_request = req, ot_output = k, ot_seq = sq, ot_emitted = em, ot_text = tx, ot_pc = pc, ot_todo = todo\<rparr>"
  let ?d = "''Token_1 ''"
  let ?a = "out_event (req_stream req) 1 re_content_delta ?d"
  let ?b = "end_event (req_stream req) 2 re_completed ''Generation completed successfully'' to_completed 200"
  let ?run = "output_run os fm ex_chat_config (?t 0 1 0 [] Output_Start [])"
  have o: "output_stream req 0 = req_stream req" by (simp add: output_stream_def)
  have n: "new_output_thread ex_chat_config req = ?t 0 1 0 [] Output_Start []"
    by (simp add: new_output_thread_def ex_chat_config_def default_mock_config_def)
  note simps = output_step_def plan_def Let_def ex_chat_config_def default_mock_config_def p tk o end_output_def emit_def
    check_cancel_def fail_or_def ex_delta_text
  note step = run_step [where running = False and stalled = False and tk = tk]
  have "?run [] (?t 0 1 0 [] Output_Start [])" by (rule run_start)
  from step [OF this] have "?run [] (?t 0 1 0 [] (Token 1) [])" by (simp add: simps)
  from run_step [where running = True and stalled = False and tk = tk, OF this]
  have "?run [] (?t 0 1 0 ?d (Window 1 ?d) [])" by (simp add: simps)
  from step [OF this] have "?run [] (?t 0 2 1 ?d (Token 2) [Dispatch ?a, Send ?a])" by (simp add: simps)
  from step [OF this] have "?run [] (?t 0 2 1 ?d (Token 2) [Send ?a])" by (simp add: output_step_def)
  from step [OF this] have "?run [?a] (?t 0 2 1 ?d (Token 2) [])" by (simp add: output_step_def)
  from step [OF this] have "?run [?a] (?t 0 2 1 ?d Conclude [])" by (simp add: simps)
  from step [OF this] have "?run [?a] (?t 0 3 1 ?d Output_End [Dispatch ?b, Send ?b])" by (simp add: simps)
  from step [OF this] have "?run [?a] (?t 0 3 1 ?d Output_End [Send ?b])" by (simp add: output_step_def)
  from step [OF this] have "?run [?a, ?b] (?t 0 3 1 ?d Output_End [])" by (simp add: output_step_def)
  from step [OF this] have "?run [?a, ?b] (?t 1 3 1 ?d Output_Start [])" by (simp add: simps)
  from step [OF this] have "?run [?a, ?b] (?t 1 3 1 ?d Finished [])" by (simp add: simps)
  moreover have "output_done (?t 1 3 1 ?d Finished [])" by (simp add: output_done_def)
  ultimately show ?thesis unfolding n ex_sent_def by blast
qed


end
