(* ===== verification/Registration_Codec.thy ===== *)
theory Registration_Codec
  imports Registration
begin

unbundle bit_operations_syntax

text \<open>
  Encoder and decoder of registration messages are inverse to each other, and the size estimate
  of \<open>valid\<close> bounds what the encoder writes. The field loop is read one field at a time
  (\<open>fields_cons\<close>, \<open>fields_split\<close>), the known tags by \<open>fields_optional\<close>, the extensions by
  induction.
\<close>

section \<open>The advertised size is enough\<close>

lemma length_field: "length (registration_field t v) = 6 + length v"
  by (simp add: registration_field_def)

lemma length_many16:
  "\<forall>l \<in> set ls. fits_u16 l \<Longrightarrow>
     length (concat (map write_string_u16 ls)) = sum_list (map (\<lambda>l. length l + 2) ls)"
  by (induction ls) (simp_all add: wire_len)

lemma length_many8 [simp]: "length (concat (map write_u8 ps)) = length ps"
  by (induction ps) simp_all

lemma space_wire:
  assumes "advertised_space_ok ms sp"
  shows "space_fits sp \<and> length (write_embedding_space sp) =
    length (sp_embedding_space_id sp) + length (sp_model_id sp) + length (sp_model_revision sp) + 12"
  using assms
  by (simp add: advertised_space_ok_def space_fits_def fits_u16_def write_embedding_space_def wire_len)

lemma vision_wire:
  assumes "advertised_vision_ok ms vm"
  shows "vision_model_fits vm \<and> length (write_vision_model vm) =
    length (vm_model_id vm) + length (vm_model_revision vm) + length (vm_label_set_id vm) + 13 +
    sum_list (map (\<lambda>l. length l + 2) (vm_custom_labels vm))"
proof -
  have f: "\<forall>l \<in> set (vm_custom_labels vm). fits_u16 l"
    using assms by (fastforce simp: advertised_vision_ok_def fits_u16_def)
  with assms show ?thesis
    by (simp add: advertised_vision_ok_def vision_model_fits_def fits_u16_def write_vision_model_def
        wire_len length_many16)
qed

lemma decision_wire:
  assumes "advertised_decision_ok ms dm"
  shows "decision_model_is_valid dm \<and> length (write_decision_model dm) =
    length (dm_model_id dm) + length (dm_model_revision dm) + length (dm_decision_type dm) + 6"
  using assms
  by (simp add: advertised_decision_ok_def decision_model_is_valid_def fits_u16_def
      write_decision_model_def wire_len)

lemma length_concat_by:
  "\<forall>x \<in> set xs. length (f x) = g x \<Longrightarrow> length (concat (map f xs)) = sum_list (map g xs)"
  by (induction xs) simp_all

lemma few_profiles:
  assumes "distinct ps" and "list_all (\<lambda>p. 1 \<le> p \<and> p \<le> (5 :: u8)) ps"
  shows "length ps \<le> 5"
proof -
  have "p \<in> {1, 2, 3, 4, 5}" if p: "1 \<le> p" "p \<le> (5 :: u8)" for p
  proof -
    have "unat p \<in> {1..5}" using p by (simp add: word_le_nat_alt)
    then have "unat p = 1 \<or> unat p = 2 \<or> unat p = 3 \<or> unat p = 4 \<or> unat p = 5" by auto
    then show ?thesis by (auto intro!: word_unat_eq_iff [THEN iffD2])
  qed
  then have "set ps \<subseteq> {1, 2, 3, 4, 5}" using assms(2) by (auto simp: list_all_iff)
  then have "card (set ps) \<le> card {1, 2, 3, 4, 5 :: u8}" by (intro card_mono) simp_all
  also have "\<dots> \<le> 5" by simp
  finally show ?thesis using distinct_card [OF assms(1)] by simp
qed

lemma advertisementD:
  assumes "advertisement_valid d"
  shows "cap_supported_models d \<noteq> []" "cap_supported_profiles d \<noteq> []"
    "length (cap_supported_models d) \<le> 2048" "length (cap_supported_embedding_spaces d) \<le> 2048"
    "length (cap_supported_vision_models d) \<le> 2048" "length (cap_supported_decision_models d) \<le> 1024"
    "\<forall>sp \<in> set (cap_supported_embedding_spaces d). advertised_space_ok (cap_supported_models d) sp"
    "\<forall>vm \<in> set (cap_supported_vision_models d). advertised_vision_ok (cap_supported_models d) vm"
    "\<forall>dm \<in> set (cap_supported_decision_models d). advertised_decision_ok (cap_supported_models d) dm"
    "advertised_bytes d \<le> 65472" "\<forall>m \<in> set (cap_supported_models d). m \<noteq> [] \<and> length m \<le> 8192"
    "length (cap_supported_profiles d) \<le> 5"
proof -
  note a = assms [unfolded advertisement_valid_def Let_def]
  show "cap_supported_models d \<noteq> []" "cap_supported_profiles d \<noteq> []"
    "length (cap_supported_models d) \<le> 2048" "length (cap_supported_embedding_spaces d) \<le> 2048"
    "length (cap_supported_vision_models d) \<le> 2048" "length (cap_supported_decision_models d) \<le> 1024"
    "\<forall>sp \<in> set (cap_supported_embedding_spaces d). advertised_space_ok (cap_supported_models d) sp"
    "\<forall>vm \<in> set (cap_supported_vision_models d). advertised_vision_ok (cap_supported_models d) vm"
    "\<forall>dm \<in> set (cap_supported_decision_models d). advertised_decision_ok (cap_supported_models d) dm"
    "advertised_bytes d \<le> 65472" "\<forall>m \<in> set (cap_supported_models d). m \<noteq> [] \<and> length m \<le> 8192"
    using a by (simp_all add: list_all_iff split: if_split_asm)
  have "distinct (cap_supported_profiles d)" "list_all (\<lambda>p. 1 \<le> p \<and> p \<le> 5) (cap_supported_profiles d)"
    using a by (simp_all split: if_split_asm)
  then show "length (cap_supported_profiles d) \<le> 5" by (rule few_profiles)
qed

lemma capabilities_length:
  assumes "advertisement_valid d"
  shows "length (capabilities_payload d) + 32 \<le> advertised_bytes d"
proof -
  note a = advertisementD [OF assms]
  have m: "length (concat (map write_string_u16 (cap_supported_models d))) =
      sum_list (map (\<lambda>m. length m + 2) (cap_supported_models d))"
    by (rule length_many16) (use a(11) in \<open>auto simp: fits_u16_def\<close>)
  have s: "length (concat (map write_embedding_space (cap_supported_embedding_spaces d))) =
      sum_list (map (\<lambda>sp. length (sp_embedding_space_id sp) + length (sp_model_id sp) +
       length (sp_model_revision sp) + 12) (cap_supported_embedding_spaces d))"
    by (rule length_concat_by) (use a(7) space_wire in blast)
  have v: "length (concat (map write_vision_model (cap_supported_vision_models d))) =
      sum_list (map (\<lambda>vm. length (vm_model_id vm) + length (vm_model_revision vm) +
       length (vm_label_set_id vm) + 13 +
       sum_list (map (\<lambda>l. length l + 2) (vm_custom_labels vm))) (cap_supported_vision_models d))"
    by (rule length_concat_by) (use a(8) vision_wire in blast)
  have c: "length (concat (map write_decision_model (cap_supported_decision_models d))) =
      sum_list (map (\<lambda>dm. length (dm_model_id dm) + length (dm_model_revision dm) +
       length (dm_decision_type dm) + 6) (cap_supported_decision_models d))"
    by (rule length_concat_by) (use a(9) decision_wire in blast)
  have p: "length (cap_supported_profiles d) \<le> 5" by (rule a(12))
  show ?thesis
    unfolding capabilities_payload_def advertised_bytes_def
    using p by (simp add: m s v c write_bool_def)
qed

lemma advertisement_fits:
  assumes "advertisement_valid d"
  shows "capabilities_fit d \<and> length (capabilities_payload d) \<le> 65440"
proof -
  note a = advertisementD [OF assms]
  have l: "length (capabilities_payload d) \<le> 65440"
    using capabilities_length [OF assms] a(10) by simp
  moreover have "\<forall>m \<in> set (cap_supported_models d). fits_u16 m"
    using a(11) by (auto simp: fits_u16_def)
  moreover have "\<forall>s \<in> set (cap_supported_embedding_spaces d). space_fits s"
    using a(7) space_wire by blast
  moreover have "\<forall>v \<in> set (cap_supported_vision_models d). vision_model_fits v"
    using a(8) vision_wire by blast
  moreover have "\<forall>m \<in> set (cap_supported_decision_models d). decision_model_is_valid m"
    using a(9) decision_wire by blast
  ultimately show ?thesis using a(3-6,12) by (simp add: capabilities_fit_def)
qed

lemma length_encode_capabilities: "length (encode_capabilities d) = 32 + length (capabilities_payload d)"
  by (simp add: encode_capabilities_def close_envelope_def)

lemma empty_capabilities_iff: "empty_capabilities d \<longleftrightarrow> d = no_capabilities"
  by (cases d) (auto simp: empty_capabilities_def no_capabilities_def)

section \<open>The fields of a message\<close>

lemma registration_frame_close:
  assumes "length p \<le> 16777216"
  shows "registration_frame (close_envelope ty s p) = Some (envelope_header ty s p, 32)"
proof -
  have u: "unat (of_nat (length p) :: u32) = length p" using assms by (simp add: unat_of_nat)
  then have "(of_nat (length p) :: u32) \<le> 16777216" using assms by (simp add: word_le_nat_alt)
  with u show ?thesis
    by (simp add: registration_frame_def close_envelope_def) (simp add: envelope_header_def Let_def)
qed

lemma canonical_capabilities_encode:
  assumes "advertisement_valid d"
  shows "canonical_capabilities (encode_capabilities d) = Some d"
proof -
  have "length (capabilities_payload d) \<le> 16777216"
    using advertisement_fits [OF assms] by simp
  then have "registration_frame (encode_capabilities d) = Some (envelope_header et_capabilities
      \<lparr>request_id = 0, execution_id = 0, output_id = 0\<rparr> (capabilities_payload d), 32)"
    unfolding encode_capabilities_def by (rule registration_frame_close)
  moreover have "decode_capabilities (encode_capabilities d) = Some d"
    using decode_capabilities_payload_write [of d] advertisement_fits [OF assms]
    by (simp add: decode_capabilities_def encode_capabilities_def open_close)
  ultimately show ?thesis by (simp add: canonical_capabilities_def envelope_header_def)
qed

lemma canonical_capabilities_exact: "canonical_capabilities v = Some d \<Longrightarrow> v = encode_capabilities d"
  by (auto simp: canonical_capabilities_def split: option.splits if_splits)

lemma fields_nil [simp]: "read_registration_fields e p s [] = Some (e, s)"
  by (simp add: read_registration_fields.simps)

lemma fields_cons:
  assumes "length v < 2 ^ 32"
  shows "read_registration_fields e p s (registration_field t v @ r) =
    (if t \<le> p then None
     else case read_registration_field e t v of None \<Rightarrow> None
       | Some e' \<Rightarrow> read_registration_fields e' t (tag_seen s t) r)"
proof -
  have l: "unat (of_nat (length v) :: u32) = length v" using assms by (simp add: unat_of_nat)
  have w: "le_word (le_bytes 2 t) = t" by (rule le_word_le_bytes) simp
  have w4: "le_word (le_bytes 4 (of_nat (length v) :: u32)) = (of_nat (length v) :: u32)"
    by (rule le_word_le_bytes) simp
  have ne: "registration_field t v @ r \<noteq> []" by (simp add: registration_field_def)
  have hd: "take 2 (registration_field t v @ r) = le_bytes 2 t"
    "take 4 (drop 2 (registration_field t v @ r)) = le_bytes 4 (of_nat (length v) :: u32)"
    "drop 6 (registration_field t v @ r) = v @ r" "\<not> length (registration_field t v @ r) < 6"
    by (simp_all add: registration_field_def write_u16_def write_u32_def)
  show ?thesis
    by (subst read_registration_fields.simps) (simp only: Let_def ne hd w w4 l if_False, simp split: option.split)
qed

lemma fields_split:
  assumes "read_registration_fields e p s r = Some z" and "r \<noteq> []"
  obtains t v r' e' where "r = registration_field t v @ r'" "length v < 2 ^ 32" "p < t"
    "read_registration_field e t v = Some e'"
    "read_registration_fields e' t (tag_seen s t) r' = Some z"
proof -
  let ?t = "le_word (take 2 r) :: u16" and ?l = "le_word (take 4 (drop 2 r)) :: u32"
  let ?v = "take (unat ?l) (drop 6 r)"
  note d = assms(1) [unfolded read_registration_fields.simps [of e p s r] Let_def]
  have l6: "\<not> length r < 6" using d assms(2) by (intro notI) simp
  have tp: "\<not> ?t \<le> p" using d assms(2) l6 by (intro notI) simp
  have ln: "unat ?l \<le> length (drop 6 r)" using d assms(2) l6 tp by (intro leI notI) simp
  from d assms(2) l6 tp ln obtain e' where e': "read_registration_field e ?t ?v = Some e'"
    "read_registration_fields e' ?t (tag_seen s ?t) (drop (unat ?l) (drop 6 r)) = Some z"
    by (auto split: option.splits if_splits)
  have b: "le_bytes 2 ?t = take 2 r" "le_bytes 4 ?l = take 4 (drop 2 r)"
    using l6 le_bytes_le_word [of "take 2 r", where 'a = 16] le_bytes_le_word [of "take 4 (drop 2 r)", where 'a = 32]
    by (simp_all add: min_absorb2)
  have lv: "length ?v = unat ?l" using ln by simp
  have "take 4 (drop 2 r) @ drop 6 r = drop 2 r" using append_take_drop_id [of 4 "drop 2 r"] by simp
  then have "r = take 2 r @ take 4 (drop 2 r) @ drop 6 r" by simp
  also have "\<dots> = registration_field ?t ?v @ drop (unat ?l) (drop 6 r)"
    unfolding registration_field_def lv
    by (simp add: write_u16_def write_u32_def b del: drop_drop)
  finally have r: "r = registration_field ?t ?v @ drop (unat ?l) (drop 6 r)" .
  have "length ?v < 2 ^ 32" unfolding lv using unat_bound [of ?l] by simp
  then show ?thesis using that r tp e' by (simp add: not_le)
qed

text \<open>
  Reading with the previous tag at \<open>k - 1\<close>: either the next field has tag \<open>k\<close>, or none does and
  the reader may as well start from \<open>k\<close>.
\<close>

lemma fields_next:
  assumes "read_registration_fields e p s r = Some z" and "k = p + 1" and "p < k"
  shows "(\<exists>v r' e'. r = registration_field k v @ r' \<and> length v < 2 ^ 32 \<and>
      read_registration_field e k v = Some e' \<and>
      read_registration_fields e' k (tag_seen s k) r' = Some z) \<or>
    read_registration_fields e k s r = Some z"
proof (cases "r = []")
  case True
  with assms(1) show ?thesis by simp
next
  case False
  from fields_split [OF assms(1) False] obtain t v r' e' where f: "r = registration_field t v @ r'"
    "length v < 2 ^ 32" "p < t" "read_registration_field e t v = Some e'"
    "read_registration_fields e' t (tag_seen s t) r' = Some z" by blast
  show ?thesis
  proof (cases "t = k")
    case True
    with f show ?thesis by blast
  next
    case ne: False
    have "k \<le> t" using f(3) assms(2) by (simp add: inc_le)
    with ne have "\<not> t \<le> k" by simp
    with f have "read_registration_fields e k s r = Some z" by (simp add: fields_cons)
    then show ?thesis ..
  qed
qed

definition extension_bytes :: "registration_extension list \<Rightarrow> bytes" where
  "extension_bytes xs = concat (map (\<lambda>x. registration_field (rx_tag x) (rx_value x)) xs)"

fun extensions_ordered :: "u16 \<Rightarrow> registration_extension list \<Rightarrow> bool" where
  "extensions_ordered p [] = True"
| "extensions_ordered p (x # xs) = (p < rx_tag x \<and> 0x8000 \<le> rx_tag x \<and> extensions_ordered (rx_tag x) xs)"

lemma extension_bytes_simps [simp]:
  "extension_bytes [] = []"
  "extension_bytes (x # xs) = registration_field (rx_tag x) (rx_value x) @ extension_bytes xs"
  by (simp_all add: extension_bytes_def)

lemma high_tag:
  assumes "4 \<le> p" and "p < (t :: u16)"
  shows "t \<noteq> 1" "t \<noteq> 2" "t \<noteq> 3" "t \<noteq> 4" "\<not> t \<le> 4"
proof -
  have "4 < t" using assms by simp
  then show "t \<noteq> 1" "t \<noteq> 2" "t \<noteq> 3" "t \<noteq> 4" "\<not> t \<le> 4"
    by (auto simp: word_less_nat_alt word_le_nat_alt)
qed

lemma fields_extensions:
  assumes "4 \<le> p" and "read_registration_fields e p s r = Some (e', s')"
  shows "s' = s \<and> (\<exists>xs. e' = e\<lparr>rr_extensions := rr_extensions e @ xs\<rparr> \<and> r = extension_bytes xs \<and>
    extensions_ordered p xs)"
  using assms
proof (induction "length r" arbitrary: e p r rule: less_induct)
  case less
  show ?case
  proof (cases "r = []")
    case True
    with less.prems have "e' = e" "s' = s" by simp_all
    with True show ?thesis by (intro conjI exI [of _ "[]"]) simp_all
  next
    case False
    from fields_split [OF less.prems(2) False] obtain t v r' e1 where f:
      "r = registration_field t v @ r'" "length v < 2 ^ 32" "p < t"
      "read_registration_field e t v = Some e1"
      "read_registration_fields e1 t (tag_seen s t) r' = Some (e', s')" by blast
    note hi = high_tag [OF less.prems(1) f(3)]
    have t: "\<not> t < 0x8000" and e1: "e1 = e\<lparr>rr_extensions := rr_extensions e @ [\<lparr>rx_tag = t, rx_value = v\<rparr>]\<rparr>"
      using f(4) hi by (simp_all add: read_registration_field_def split: if_split_asm)
    have "length r' < length r" by (simp add: f(1) length_field)
    moreover have "4 \<le> t" using hi(5) by simp
    moreover have "tag_seen s t = s" using hi(5) by (simp add: tag_seen_def)
    ultimately obtain xs where "s' = s" "e' = e1\<lparr>rr_extensions := rr_extensions e1 @ xs\<rparr>"
      "r' = extension_bytes xs" "extensions_ordered t xs"
      using less.hyps [of r' t e1] f(5) by auto
    then show ?thesis using f(1,3) t e1
      by (intro conjI exI [of _ "\<lparr>rx_tag = t, rx_value = v\<rparr> # xs"]) (simp_all add: not_less)
  qed
qed

lemma extensions_fields:
  assumes "extensions_ordered p xs" and "4 \<le> p" and "\<forall>x \<in> set xs. length (rx_value x) < 2 ^ 32"
  shows "read_registration_fields e p s (extension_bytes xs) =
    Some (e\<lparr>rr_extensions := rr_extensions e @ xs\<rparr>, s)"
  using assms
proof (induction xs arbitrary: p e)
  case Nil
  then show ?case by simp
next
  case (Cons x xs)
  have o: "p < rx_tag x" "\<not> rx_tag x < 0x8000" "extensions_ordered (rx_tag x) xs"
    using Cons.prems(1) by (simp_all add: not_less)
  note hi = high_tag [OF Cons.prems(2) o(1)]
  have "read_registration_field e (rx_tag x) (rx_value x) =
      Some (e\<lparr>rr_extensions := rr_extensions e @ [x]\<rparr>)"
    using hi o by (cases x) (simp add: read_registration_field_def)
  moreover have "tag_seen s (rx_tag x) = s" using hi(5) by (simp add: tag_seen_def)
  moreover have "4 \<le> rx_tag x" using hi(5) by simp
  ultimately show ?case
    using Cons.IH [OF o(3)] Cons.prems(3) o(1) by (simp add: fields_cons)
qed

lemma put_extensions_iff:
  assumes "0x7FFF \<le> p" and "length b \<le> 65536"
  shows "put_extensions p xs b = Some b' \<longleftrightarrow>
    extensions_ordered p xs \<and> b' = b @ extension_bytes xs \<and> length b' \<le> 65536"
  using assms
proof (induction xs arbitrary: p b)
  case Nil
  then show ?case by auto
next
  case (Cons x xs)
  let ?b = "b @ registration_field (rx_tag x) (rx_value x)"
  show ?case
  proof (cases "p < rx_tag x \<and> length ?b \<le> 65536")
    case True
    then have t: "0x7FFF < rx_tag x" using order.strict_trans1 [OF Cons.prems(1)] by blast
    then have "0x8000 \<le> rx_tag x" using inc_le [OF t] by simp
    moreover have "length (rx_value x) \<le> 65536" using True by (simp add: length_field)
    ultimately show ?thesis
      using True Cons.IH [of "rx_tag x" ?b] t leD [of p "rx_tag x"] by (auto simp: not_le Let_def)
  next
    case False
    then show ?thesis by (auto simp: not_le length_field)
  qed
qed

section \<open>The decoder accepts the encodings, and only those\<close>

lemma read_u32_field:
  "length v = 4 \<Longrightarrow> write_u32 (le_word v) = v"
  using le_bytes_le_word [of v, where 'a = 32] by (simp add: write_u32_def)

lemma field_iff:
  "read_registration_field e 1 v = Some e' \<longleftrightarrow>
     (\<exists>w. v = write_u32 w \<and> e' = e\<lparr>rr_concurrent_slots := w\<rparr>)"
  "read_registration_field e 2 v = Some e' \<longleftrightarrow>
     (\<exists>w. v = write_u32 w \<and> e' = e\<lparr>rr_status_code := w\<rparr>)"
  "read_registration_field e 3 v = Some e' \<longleftrightarrow>
     (\<exists>s. v = bytes_of_string s \<and> length s \<le> 8192 \<and> e' = e\<lparr>rr_reason := s\<rparr>)"
  "read_registration_field e 4 v = Some e' \<longleftrightarrow>
     (\<exists>d. canonical_capabilities v = Some d \<and> e' = e\<lparr>rr_capabilities := d\<rparr>)"
proof -
  have w: "le_word (write_u32 w) = w" for w :: u32
    unfolding write_u32_def by (rule le_word_le_bytes) simp
  show "read_registration_field e 1 v = Some e' \<longleftrightarrow>
     (\<exists>w. v = write_u32 w \<and> e' = e\<lparr>rr_concurrent_slots := w\<rparr>)"
    by (auto simp: read_registration_field_def w read_u32_field intro: exI [of _ "le_word v"])
  show "read_registration_field e 2 v = Some e' \<longleftrightarrow>
     (\<exists>w. v = write_u32 w \<and> e' = e\<lparr>rr_status_code := w\<rparr>)"
    by (auto simp: read_registration_field_def w read_u32_field intro: exI [of _ "le_word v"])
  show "read_registration_field e 3 v = Some e' \<longleftrightarrow>
     (\<exists>s. v = bytes_of_string s \<and> length s \<le> 8192 \<and> e' = e\<lparr>rr_reason := s\<rparr>)"
    by (auto simp: read_registration_field_def intro: exI [of _ "string_of_bytes v"])
  show "read_registration_field e 4 v = Some e' \<longleftrightarrow>
     (\<exists>d. canonical_capabilities v = Some d \<and> e' = e\<lparr>rr_capabilities := d\<rparr>)"
    by (auto simp: read_registration_field_def split: option.splits)
qed

lemma operation_cases:
  assumes "registration_valid e"
  shows "rr_operation e = 1 \<or> rr_operation e = 2 \<or> rr_operation e = 3 \<or> rr_operation e = 4 \<or>
    rr_operation e = 5 \<or> rr_operation e = 6"
proof -
  have "rr_operation e \<noteq> 0" "rr_operation e \<le> 6"
    using assms by (simp_all add: registration_valid_def not_less split: if_split_asm)
  then have "unat (rr_operation e) \<in> {1..6}" by (simp add: word_le_nat_alt Suc_le_eq unat_gt_0)
  then have "unat (rr_operation e) = 1 \<or> unat (rr_operation e) = 2 \<or> unat (rr_operation e) = 3 \<or>
    unat (rr_operation e) = 4 \<or> unat (rr_operation e) = 5 \<or> unat (rr_operation e) = 6" by auto
  then show ?thesis by (auto simp: word_unat_eq_iff)
qed

lemma known_fields_length:
  assumes "registration_valid e"
  shows "length (registration_known_fields e) \<le> 65528"
proof (cases "rr_operation e = 1")
  case True
  then have "advertisement_valid (rr_capabilities e)"
    using assms by (simp add: registration_valid_def split: if_split_asm)
  from advertisement_fits [OF this] show ?thesis
    by (simp add: registration_known_fields_def True length_field length_encode_capabilities)
next
  case False
  have "length (rr_reason e) \<le> 8192" using assms by (simp add: registration_valid_def split: if_split_asm)
  with False show ?thesis
    using operation_cases [OF assms] by (auto simp: registration_known_fields_def length_field)
qed

definition registration_body :: "runtime_registration_envelope \<Rightarrow> bytes" where
  "registration_body e = [1, 0, rr_operation e, 0] @ registration_known_fields e @
     extension_bytes (rr_extensions e)"

lemma encode_registration_iff:
  "encode_runtime_registration e = Some data \<longleftrightarrow>
     registration_valid e \<and> extensions_ordered 0x7FFF (rr_extensions e) \<and>
     length (registration_body e) \<le> 65536 \<and>
     data = close_envelope et_runtime_register \<lparr>request_id = 0, execution_id = 0, output_id = 0\<rparr>
       (registration_body e)"
proof (cases "registration_valid e")
  case True
  then have "length ([1, 0, rr_operation e, 0] @ registration_known_fields e) \<le> 65536"
    using known_fields_length by fastforce
  then have p: "put_extensions 0x7FFF (rr_extensions e)
      ([1, 0, rr_operation e, 0] @ registration_known_fields e) = Some b \<longleftrightarrow>
      extensions_ordered 0x7FFF (rr_extensions e) \<and> b = registration_body e \<and> length b \<le> 65536" for b
    by (subst put_extensions_iff) (auto simp: registration_body_def)
  show ?thesis
  proof (cases "put_extensions 0x7FFF (rr_extensions e)
      ([1, 0, rr_operation e, 0] @ registration_known_fields e)")
    case None
    with p [of "registration_body e"] True show ?thesis
      unfolding encode_runtime_registration_def None by auto
  next
    case (Some b)
    with p [of b] True show ?thesis
      unfolding encode_runtime_registration_def Some by auto
  qed
qed (simp add: encode_runtime_registration_def)

lemma ordered_from: "p < 0x8000 \<Longrightarrow> extensions_ordered p xs \<longleftrightarrow> extensions_ordered 0x7FFF xs"
  by (cases xs) (auto intro: order.strict_trans2 simp: word_less_nat_alt word_le_nat_alt)

lemma ordered_sizes:
  "length (extension_bytes xs) \<le> 65536 \<Longrightarrow> \<forall>x \<in> set xs. length (rx_value x) < 2 ^ 32"
  by (induction xs) (auto simp: length_field)

lemma tag_seen_known [simp]:
  "tag_seen s 1 = s OR 2" "tag_seen s 2 = s OR 4" "tag_seen s 3 = s OR 8" "tag_seen s 4 = s OR 16"
  by (simp_all add: tag_seen_def)

lemma read_fields_known:
  assumes "registration_valid e" and "extensions_ordered 0x7FFF (rr_extensions e)"
    and "length (registration_body e) \<le> 65536"
  shows "read_registration_fields (new_registration\<lparr>rr_operation := rr_operation e\<rparr>) 0 0
    (registration_known_fields e @ extension_bytes (rr_extensions e)) =
    Some (e, expected_tags (rr_operation e))"
proof -
  have sz: "\<forall>x \<in> set (rr_extensions e). length (rr_value' x) < 2 ^ 32" if "rr_value' = rx_value" for rr_value'
    unfolding that by (rule ordered_sizes) (use assms(3) in \<open>simp add: registration_body_def\<close>)
  have n: "\<not> (4 :: u16) \<le> 1" "\<not> (3 :: u16) \<le> 2" by (simp_all add: word_le_nat_alt)
  have ex: "read_registration_fields e1 4 s (extension_bytes (rr_extensions e)) =
      Some (e1\<lparr>rr_extensions := rr_extensions e1 @ rr_extensions e\<rparr>, s)" for e1 s
    by (rule extensions_fields) (use assms(2) ordered_from [of 4] sz in simp_all)
  have ex'': "read_registration_fields e1 p s (extension_bytes (rr_extensions e)) =
      Some (e1\<lparr>rr_extensions := rr_extensions e1 @ rr_extensions e\<rparr>, s)" if "p < 0x8000" for e1 s p
  proof (cases "extension_bytes (rr_extensions e) = []")
    case True
    then have "rr_extensions e = []" by (cases "rr_extensions e") (auto simp: registration_field_def)
    then show ?thesis by simp
  next
    case False
    then obtain x xs where x: "rr_extensions e = x # xs" by (cases "rr_extensions e") auto
    with assms(2) have "0x8000 \<le> rx_tag x" by simp
    then have "\<not> rx_tag x \<le> 4" "\<not> rx_tag x \<le> p" using that by (auto simp: word_le_nat_alt word_less_nat_alt)
    moreover have "length (rx_value x) < 2 ^ 32" using sz x by simp
    ultimately show ?thesis using ex [of e1 s] by (simp add: x fields_cons)
  qed
  have ex': "xs = rr_extensions e \<Longrightarrow> p < 0x8000 \<Longrightarrow> read_registration_fields e1 p s (extension_bytes xs) =
      Some (e1\<lparr>rr_extensions := rr_extensions e1 @ xs\<rparr>, s)" for xs e1 p s
    using ex'' by simp
  consider "rr_operation e = 1" | "rr_operation e = 2" | "rr_operation e = 5"
    | "rr_operation e \<in> {3, 4, 6}" using operation_cases [OF assms(1)] by auto
  then show ?thesis
  proof cases
    case 1
    then have v: "advertisement_valid (rr_capabilities e)" "rr_status_code e = 0" "rr_reason e = []"
      using assms(1) by (simp_all add: registration_valid_def split: if_split_asm)
    have c: "advertisement_valid d \<Longrightarrow> read_registration_field e1 4 (encode_capabilities d) =
        Some (e1\<lparr>rr_capabilities := d\<rparr>)" for e1 d
      by (simp add: field_iff canonical_capabilities_encode)
    have l: "length (encode_capabilities (rr_capabilities e)) < 2 ^ 32"
      using advertisement_fits [OF v(1)] by (simp add: length_encode_capabilities)
    have f1: "read_registration_field e1 1 (write_u32 w) = Some (e1\<lparr>rr_concurrent_slots := w\<rparr>)" for e1 w
      by (simp add: field_iff)
    show ?thesis using 1 v l
      by (cases e) (simp add: registration_known_fields_def fields_cons n f1 c ex' new_registration_def expected_tags_def)
  next
    case 2
    then have v: "empty_capabilities (rr_capabilities e)" "rr_concurrent_slots e = 0" "length (rr_reason e) \<le> 8192"
      using assms(1) by (simp_all add: registration_valid_def split: if_split_asm)
    have f2: "read_registration_field e1 2 (write_u32 w) = Some (e1\<lparr>rr_status_code := w\<rparr>)" for e1 w
      by (simp add: field_iff)
    have f3: "length t \<le> 8192 \<Longrightarrow> read_registration_field e1 3 (bytes_of_string t) = Some (e1\<lparr>rr_reason := t\<rparr>)" for e1 t
      by (auto simp: field_iff)
    show ?thesis using 2 v
      by (cases e) (simp add: registration_known_fields_def fields_cons n f2 f3 ex' new_registration_def
          expected_tags_def empty_capabilities_iff)
  next
    case 3
    then have v: "empty_capabilities (rr_capabilities e)" "rr_status_code e = 0" "rr_reason e = []"
      using assms(1) by (simp_all add: registration_valid_def split: if_split_asm)
    have f1: "read_registration_field e1 1 (write_u32 w) = Some (e1\<lparr>rr_concurrent_slots := w\<rparr>)" for e1 w
      by (simp add: field_iff)
    show ?thesis using 3 v
      by (cases e) (simp add: registration_known_fields_def fields_cons f1 ex' new_registration_def
          expected_tags_def empty_capabilities_iff)
  next
    case 4
    then have v: "empty_capabilities (rr_capabilities e)" "rr_status_code e = 0" "rr_reason e = []"
      "rr_concurrent_slots e = 0"
      using assms(1) by (auto simp add: registration_valid_def split: if_split_asm)
    show ?thesis using 4 v
      by (cases e) (auto simp: registration_known_fields_def ex' new_registration_def
          expected_tags_def empty_capabilities_iff)
  qed
qed

text \<open>One optional field, in the form the converse direction uses.\<close>

lemma fields_optional:
  assumes "read_registration_fields e p s r = Some z" and "k = p + 1" and "p < k" and "k \<le> 4"
    and "\<And>v e'. read_registration_field e k v = Some e' \<Longrightarrow> P v e'"
  shows "(\<exists>v r' e'. r = registration_field k v @ r' \<and> P v e' \<and>
      read_registration_fields e' k (s OR push_bit (unat k) 1) r' = Some z) \<or>
    read_registration_fields e k s r = Some z"
proof -
  have "tag_seen s k = s OR push_bit (unat k) 1" using assms(4) by (simp add: tag_seen_def)
  then show ?thesis using fields_next [OF assms(1-3)] assms(5) by metis
qed

lemma read_fields_exact:
  assumes "read_registration_fields (new_registration\<lparr>rr_operation := opr\<rparr>) 0 0 r = Some (e, seen)"
    and "seen = expected_tags (rr_operation e)" and "registration_valid e"
  shows "rr_operation e = opr \<and> r = registration_known_fields e @ extension_bytes (rr_extensions e) \<and>
    extensions_ordered 0x7FFF (rr_extensions e)"
proof -
  let ?e0 = "new_registration\<lparr>rr_operation := opr\<rparr>"
  obtain r1 e1 s1 where 1: "read_registration_fields e1 1 s1 r1 = Some (e, seen)"
    "(s1 = 2 \<and> (\<exists>w. r = registration_field 1 (write_u32 w) @ r1 \<and> e1 = ?e0\<lparr>rr_concurrent_slots := w\<rparr>)) \<or>
     (s1 = 0 \<and> r = r1 \<and> e1 = ?e0)"
    using fields_optional [OF assms(1), of 1 "\<lambda>v e'. \<exists>w. v = write_u32 w \<and> e' = ?e0\<lparr>rr_concurrent_slots := w\<rparr>"]
    by (auto simp: field_iff)
  obtain r2 e2 s2 where 2: "read_registration_fields e2 2 s2 r2 = Some (e, seen)"
    "(s2 = s1 OR 4 \<and> (\<exists>w. r1 = registration_field 2 (write_u32 w) @ r2 \<and> e2 = e1\<lparr>rr_status_code := w\<rparr>)) \<or>
     (s2 = s1 \<and> r1 = r2 \<and> e2 = e1)"
    using fields_optional [OF 1(1), of 2 "\<lambda>v e'. \<exists>w. v = write_u32 w \<and> e' = e1\<lparr>rr_status_code := w\<rparr>"]
    by (auto simp: field_iff)
  obtain r3 e3 s3 where 3: "read_registration_fields e3 3 s3 r3 = Some (e, seen)"
    "(s3 = s2 OR 8 \<and> (\<exists>t. r2 = registration_field 3 (bytes_of_string t) @ r3 \<and> e3 = e2\<lparr>rr_reason := t\<rparr>)) \<or>
     (s3 = s2 \<and> r2 = r3 \<and> e3 = e2)"
    using fields_optional [OF 2(1), of 3 "\<lambda>v e'. \<exists>t. v = bytes_of_string t \<and> e' = e2\<lparr>rr_reason := t\<rparr>"]
    by (auto simp: field_iff)
  obtain r4 e4 s4 where 4: "read_registration_fields e4 4 s4 r4 = Some (e, seen)"
    "(s4 = s3 OR 16 \<and> (\<exists>d. r3 = registration_field 4 (encode_capabilities d) @ r4 \<and> e4 = e3\<lparr>rr_capabilities := d\<rparr>)) \<or>
     (s4 = s3 \<and> r3 = r4 \<and> e4 = e3)"
    using fields_optional [OF 3(1), of 4 "\<lambda>v e'. \<exists>d. v = encode_capabilities d \<and> e' = e3\<lparr>rr_capabilities := d\<rparr>"]
    by (auto simp: field_iff dest: canonical_capabilities_exact)
  from fields_extensions [OF _ 4(1)] obtain xs where 5: "seen = s4"
    "e = e4\<lparr>rr_extensions := rr_extensions e4 @ xs\<rparr>" "r4 = extension_bytes xs" "extensions_ordered 4 xs"
    by auto
  have ord: "extensions_ordered 0x7FFF xs" using 5(4) ordered_from [of 4 xs] by simp
  have opr: "rr_operation e4 = opr" "rr_extensions e4 = []"
    using 1(2) 2(2) 3(2) 4(2) by (auto simp: new_registration_def)
  have ope: "rr_operation e = opr" "rr_extensions e = xs" using 5(2) opr by simp_all
  consider "opr = 1" | "opr = 2" | "opr = 5" | "opr \<in> {3, 4, 6}"
    using operation_cases [OF assms(3)] ope by auto
  then have "r = registration_known_fields e @ extension_bytes xs"
  proof cases
    case a: 1
    then have "s4 = 18" using assms(2) 5(1) ope by (simp add: expected_tags_def)
    then show ?thesis using 1(2) 2(2) 3(2) 4(2) 5(2,3) a ope
      by (elim disjE conjE exE) (simp_all add: registration_known_fields_def)
  next
    case a: 2
    then have "s4 = 12" using assms(2) 5(1) ope by (simp add: expected_tags_def)
    then show ?thesis using 1(2) 2(2) 3(2) 4(2) 5(2,3) a ope
      by (elim disjE conjE exE) (simp_all add: registration_known_fields_def)
  next
    case a: 3
    then have "s4 = 2" using assms(2) 5(1) ope by (simp add: expected_tags_def)
    then show ?thesis using 1(2) 2(2) 3(2) 4(2) 5(2,3) a ope
      by (elim disjE conjE exE) (simp_all add: registration_known_fields_def)
  next
    case a: 4
    then have "s4 = 0" using assms(2) 5(1) ope by (auto simp: expected_tags_def)
    then show ?thesis using 1(2) 2(2) 3(2) 4(2) 5(2,3) a ope
      by (elim disjE conjE exE) (auto simp: registration_known_fields_def)
  qed
  then show ?thesis using ope ord by simp
qed

lemma frame_unauthenticated:
  assumes "registration_frame data = Some (h, pos)" and "hdr_flags h = 0"
  shows "pos = 32 \<and> data = encode_header h @ drop 32 data \<and> length data = 32 + unat (hdr_payload_len h) \<and>
    hdr_magic h = LINEP_V02_MAGIC \<and> hdr_version_major h = 0 \<and> hdr_version_minor h = 2"
proof -
  from assms have d: "decode_header data = Some h"
    by (simp add: registration_frame_def Let_def split: option.splits if_split_asm)
  then obtain q where q: "data = encode_header h @ q" unfolding decode_header_iff by blast
  then have "drop 32 data = q" by simp
  with assms d q show ?thesis
    by (simp add: registration_frame_def Let_def split: option.splits if_split_asm)
qed

lemma four_bytes:
  assumes "4 \<le> length p" and "p ! 0 = a" and "p ! 1 = b" and "p ! 2 = c" and "p ! 3 = d"
  shows "p = [a, b, c, d] @ drop 4 p"
proof (cases p)
  case (Cons x xs)
  with assms show ?thesis by (cases xs; cases "tl xs"; cases "tl (tl xs)"; simp add: Cons)
qed (use assms in simp)

lemma encode_registration_decodes:
  "encode_runtime_registration e = Some data \<longleftrightarrow>
     decode_runtime_registration data = Some e \<and>
     map_option hdr_flags (decode_header data) = Some 0"
proof
  let ?b = "registration_body e" and ?s = "\<lparr>request_id = 0, execution_id = 0, output_id = 0\<rparr>"
  assume "encode_runtime_registration e = Some data"
  then have v: "registration_valid e" and o: "extensions_ordered 0x7FFF (rr_extensions e)"
    and l: "length ?b \<le> 65536" and data: "data = close_envelope et_runtime_register ?s ?b"
    unfolding encode_registration_iff by auto
  have f: "registration_frame data = Some (envelope_header et_runtime_register ?s ?b, 32)"
    unfolding data by (rule registration_frame_close) (use l in simp)
  have n: "unat (of_nat (length ?b) :: u32) = length ?b" using l by (simp add: unat_of_nat)
  have b4: "4 \<le> length ?b" by (simp add: registration_body_def)
  then have ge: "\<not> (of_nat (length ?b) :: u32) < 4" by (simp add: word_less_nat_alt n)
  have i: "data ! (32 + k) = ?b ! k" for k
    by (simp add: data close_envelope_def nth_append)
  have dr: "drop 36 data = registration_known_fields e @ extension_bytes (rr_extensions e)"
    by (simp add: data close_envelope_def registration_body_def)
  have bs: "?b ! 0 = 1" "?b ! 1 = 0" "?b ! 2 = rr_operation e" "?b ! 3 = 0"
    by (simp_all add: registration_body_def)
  have rd: "read_registration_fields (new_registration\<lparr>rr_operation := rr_operation e\<rparr>) 0 0 (drop 36 data)
      = Some (e, expected_tags (rr_operation e))"
    unfolding dr by (rule read_fields_known [OF v o l])
  have "decode_runtime_registration data = Some e"
    using f n ge l i [of 0] i [of 1] i [of 2] i [of 3] bs rd v
    by (simp add: decode_runtime_registration_def) (simp add: envelope_header_def)
  moreover have "decode_header data = Some (envelope_header et_runtime_register ?s ?b)"
    by (simp add: data close_envelope_def)
  ultimately show "decode_runtime_registration data = Some e \<and>
     map_option hdr_flags (decode_header data) = Some 0"
    by (simp add: envelope_header_def)
next
  assume a: "decode_runtime_registration data = Some e \<and> map_option hdr_flags (decode_header data) = Some 0"
  then obtain h pos where f: "registration_frame data = Some (h, pos)"
    by (auto simp: decode_runtime_registration_def split: option.splits)
  then have "decode_header data = Some h"
    by (simp add: registration_frame_def Let_def split: option.splits if_split_asm)
  with a have fl: "hdr_flags h = 0" by simp
  note fr = frame_unauthenticated [OF f fl]
  note d = a [THEN conjunct1, unfolded decode_runtime_registration_def f Let_def, simplified fr [THEN conjunct1]]
  let ?p = "drop 32 data"
  have lp: "length ?p = unat (hdr_payload_len h)" using fr by simp
  from d obtain seen where h: "hdr_envelope_type h = 6" "hdr_request_id h = 0" "hdr_execution_id h = 0"
    "hdr_output_id h = 0" "\<not> hdr_payload_len h < 4" "unat (hdr_payload_len h) \<le> 65536"
    and i: "data ! 32 = 1" "data ! 33 = 0" "data ! 35 = 0"
    and rd: "read_registration_fields (new_registration\<lparr>rr_operation := data ! 34\<rparr>) 0 0 (drop 36 data) = Some (e, seen)"
    and sv: "seen = expected_tags (rr_operation e)" "registration_valid e"
    by (auto split: if_split_asm option.splits)
  have l4: "4 \<le> length ?p" using h(5) lp by (simp add: word_less_nat_alt)
  note ex = read_fields_exact [OF rd sv]
  have "data ! 34 = rr_operation e" using ex by simp
  then have p: "?p = [1, 0, rr_operation e, 0] @ drop 4 ?p"
    using i l4 by (intro four_bytes) simp_all
  have "drop 4 ?p = drop 36 data" by simp
  then have body: "?p = registration_body e"
    using p ex unfolding registration_body_def by metis
  then have l: "length (registration_body e) \<le> 65536" using lp h(6) by metis
  have "of_nat (length ?p) = hdr_payload_len h" by (simp only: lp) simp
  then have "h = envelope_header et_runtime_register \<lparr>request_id = 0, execution_id = 0, output_id = 0\<rparr> ?p"
    using h fl fr by (cases h) (simp add: envelope_header_def)
  then have "data = close_envelope et_runtime_register \<lparr>request_id = 0, execution_id = 0, output_id = 0\<rparr>
      (registration_body e)"
    using fr body unfolding close_envelope_def by metis
  then show "encode_runtime_registration e = Some data"
    unfolding encode_registration_iff using sv(2) ex l by blast
qed

text \<open>
  C13: one encoding per registration message. On frames without an authentication flag the
  decoder and the encoder are inverse to each other: the decoder accepts exactly the byte
  strings the encoder produces, and reads each one back as the message it was made from. In
  particular every accepted message is valid, its tags appear in order and once, and its nested
  capabilities are in their canonical form.
\<close>

theorem registration_codec_exact:
  "encode_runtime_registration e = Some data \<longleftrightarrow>
     decode_runtime_registration data = Some e \<and>
     map_option hdr_flags (decode_header data) = Some 0"
  by (rule encode_registration_decodes)

end
