(* ===== verification/Registration_Props.thy ===== *)
theory Registration_Props
  imports Registration_Codec Registration_Session
begin

unbundle bit_operations_syntax

text \<open>
  What a registered worker means to the router: the steps of a registration and their invariant
  (a registered worker was approved for the capabilities the router holds), what forwarding a
  request requires, what closing does, how a new binding ends a registration, and that an honest
  worker registers over SL1.
\<close>

section \<open>Steps and their invariant\<close>

inductive reg_step :: "authorizer option \<Rightarrow> registration_session \<Rightarrow> registration_session \<Rightarrow> bool"
  for A where
  reg_receive: "receive_worker_frame A s data = (s', reply, res) \<Longrightarrow> reg_step A s s'"
| reg_send: "send_router_frame s data = (s', res) \<Longrightarrow> reg_step A s s'"
| reg_query: "is_registered s = (s', b) \<Longrightarrow> reg_step A s s'"
| reg_manager: "session_step (rs_session s) m \<Longrightarrow> reg_step A s (s\<lparr>rs_session := m\<rparr>)"

inductive_cases reg_stepE: "reg_step A s s'"

definition reg_reachable :: "authorizer option \<Rightarrow> session_descriptor \<Rightarrow> registration_session \<Rightarrow> bool" where
  "reg_reachable A d s \<longleftrightarrow>
     (reg_step A)\<^sup>*\<^sup>* (new_registration_session (new_session_manager d)) s"

definition approved :: "authorizer option \<Rightarrow> session_bind_envelope \<Rightarrow> runtime_capabilities_descriptor \<Rightarrow> bool" where
  "approved A b d \<longleftrightarrow> (case A of None \<Rightarrow> False | Some f \<Rightarrow> f b d)"

definition reg_inv :: "authorizer option \<Rightarrow> registration_session \<Rightarrow> bool" where
  "reg_inv A s \<longleftrightarrow> (rs_registered s \<longrightarrow> \<not> rs_closed s \<and>
     approved A (rs_binding s) (rs_capabilities s) \<and> advertisement_valid (rs_capabilities s))"

lemma denied_iff: "(case A of None \<Rightarrow> True | Some f \<Rightarrow> \<not> f b d) \<longleftrightarrow> \<not> approved A b d"
  by (cases A) (simp_all add: approved_def)

lemma close_sel [simp]:
  "rs_closed (close_registration s)" "\<not> rs_registered (close_registration s)"
  "rs_binding (close_registration s) = rs_binding s" "rs_capabilities (close_registration s) = rs_capabilities s"
  "rs_session (close_registration s) = fst (terminate_all_active_streams (rs_session s) to_failed)"
  by (simp_all add: close_registration_def)

lemma sync_session [simp]: "rs_session (fst (synchronize_binding s)) = rs_session s"
  and sync_closed [simp]: "rs_closed (fst (synchronize_binding s)) = rs_closed s"
  and sync_bound [simp]: "snd (synchronize_binding s) \<longleftrightarrow> sm_binding_state (rs_session s) = Bound_Current"
  by (simp_all add: synchronize_binding_def Let_def)

lemma sync_registered:
  "rs_registered (fst (synchronize_binding s)) \<longleftrightarrow> rs_registered s \<and>
     sm_binding_state (rs_session s) = Bound_Current \<and>
     same_bind (sm_bound_bind (rs_session s)) (rs_binding s) \<and>
     sm_binding_generation (rs_session s) = rs_binding_generation s"
  and sync_kept: "rs_registered (fst (synchronize_binding s)) \<Longrightarrow> fst (synchronize_binding s) = s"
  by (auto simp: synchronize_binding_def Let_def)

lemma reg_inv_sync: "reg_inv A s \<Longrightarrow> reg_inv A (fst (synchronize_binding s))"
  by (cases "rs_registered (fst (synchronize_binding s))") (simp_all add: sync_kept reg_inv_def)

lemma reg_inv_close [simp]: "reg_inv A (close_registration s)"
  by (simp add: reg_inv_def)

lemma reg_inv_frame:
  "reg_inv A s \<Longrightarrow> reg_inv A (s\<lparr>rs_session := m\<rparr>)"
  "reg_inv A s \<Longrightarrow> reg_inv A (s\<lparr>rs_draining := b\<rparr>)"
  "reg_inv A s \<Longrightarrow> reg_inv A (s\<lparr>rs_slots := n\<rparr>)"
  by (simp_all add: reg_inv_def)

lemma reg_inv_refuse: "reg_inv A s \<Longrightarrow> reg_inv A (fst (refuse_frame s code cat msg close))"
  "reg_inv A s \<Longrightarrow> reg_inv A (fst (refuse_send s code cat msg close))"
  by (simp_all add: refuse_frame_def refuse_send_def reject_registration_def)

lemma reg_inv_after: "reg_inv A s \<Longrightarrow> reg_inv A (fst (after_dispatch s r))"
  by (simp add: after_dispatch_def Let_def accept_frame_def reg_inv_frame split: prod.split sum.split bool.split)

lemma decoded_valid: "decode_runtime_registration data = Some e \<Longrightarrow> registration_valid e"
  by (auto simp: decode_runtime_registration_def Let_def split: option.splits if_split_asm)

lemma register_advertises:
  "registration_valid e \<Longrightarrow> rr_operation e = ro_register_runtime \<Longrightarrow> advertisement_valid (rr_capabilities e)"
  by (simp add: registration_valid_def split: if_split_asm)

lemma reg_inv_registration:
  assumes "reg_inv A s" and "\<not> rs_closed s"
  shows "reg_inv A (fst (receive_registration A s data))"
proof (cases "decode_runtime_registration data")
  case None
  then show ?thesis by (simp add: receive_registration_def reg_inv_refuse assms)
next
  case (Some e)
  have "rr_operation e = 1 \<Longrightarrow> advertisement_valid (rr_capabilities e)"
    using decoded_valid [OF Some] register_advertises by simp
  then show ?thesis using assms
    by (simp add: receive_registration_def Some denied_iff reg_inv_refuse accept_frame_def reg_inv_frame)
      (simp add: reg_inv_def)
qed

lemma reg_inv_capabilities:
  assumes "reg_inv A s"
  shows "reg_inv A (fst (receive_worker_capabilities A s h data))"
proof (cases "decode_capabilities data")
  case None
  then show ?thesis by (simp add: receive_worker_capabilities_def reg_inv_refuse assms)
next
  case (Some d)
  show ?thesis
  proof (cases "registration_valid (new_registration\<lparr>rr_concurrent_slots := 1, rr_capabilities := d\<rparr>)")
    case True
    then have "advertisement_valid d" using register_advertises [OF True] by (simp add: new_registration_def)
    then show ?thesis using assms
      by (simp add: receive_worker_capabilities_def Some denied_iff reg_inv_refuse accept_frame_def)
        (simp add: reg_inv_def)
  qed (simp add: receive_worker_capabilities_def Some reg_inv_refuse assms)
qed

lemma reg_inv_receive:
  assumes "reg_inv A s"
  shows "reg_inv A (fst (receive_worker_frame A s data))"
proof (cases "rs_closed s")
  case True
  then show ?thesis by (simp add: receive_worker_frame_def reg_inv_refuse assms)
next
  case False
  obtain s1 b where s1: "synchronize_binding s = (s1, b)" by (cases "synchronize_binding s")
  then have i: "reg_inv A s1" using reg_inv_sync [OF assms] by simp
  have c: "\<not> rs_closed s1" using False s1 sync_closed [of s] by simp
  obtain m res where v: "verify_inbound_frame (rs_session s1) data Initiator_To_Responder = (m, res)"
    by (cases "verify_inbound_frame (rs_session s1) data Initiator_To_Responder")
  let ?s = "s1\<lparr>rs_session := m\<rparr>"
  have j: "reg_inv A ?s" using i by (rule reg_inv_frame)
  have e: "reg_inv A (fst (receive_worker_event ?s data))" "reg_inv A (fst (receive_worker_control ?s data))"
    using j by (simp_all add: receive_worker_event_def receive_worker_control_def reg_inv_refuse reg_inv_after
        split: option.split prod.split)
  show ?thesis
    using False i j e reg_inv_registration [OF j] reg_inv_capabilities [OF j] c
    by (simp add: receive_worker_frame_def s1 v Let_def reg_inv_refuse split: option.split prod.split sum.split)
qed

lemma reg_inv_send:
  assumes "reg_inv A s"
  shows "reg_inv A (fst (send_router_frame s data))"
proof -
  obtain s1 b where s1: "is_registered s = (s1, b)" by (cases "is_registered s")
  then have i: "reg_inv A s1" using reg_inv_sync [OF assms] by (auto simp: is_registered_def Let_def)
  have "reg_inv A (fst (send_router_request s1 data))"
    using i by (simp add: send_router_request_def reg_inv_refuse reg_inv_frame split: option.split prod.split)
  then show ?thesis using i
    by (simp add: send_router_frame_def s1 reg_inv_refuse reg_inv_frame split: option.split prod.split)
qed

lemma reg_inv_step: "reg_step A s s' \<Longrightarrow> reg_inv A s \<Longrightarrow> reg_inv A s'"
proof (induction rule: reg_step.induct)
  case (reg_receive s data s' reply res)
  then show ?case using reg_inv_receive [of A s data] by simp
next
  case (reg_send s data s' res)
  then show ?case using reg_inv_send [of A s data] by simp
next
  case (reg_query s s' b)
  then show ?case using reg_inv_sync [of A s] by (simp add: is_registered_def Let_def)
qed (rule reg_inv_frame)

lemma reachable_reg_inv: "reg_reachable A d s \<Longrightarrow> reg_inv A s"
  unfolding reg_reachable_def
  by (induction rule: rtranclp_induct)
    (auto simp: new_registration_session_def reg_inv_def dest: reg_inv_step)

section \<open>What a registration guarantees\<close>

lemma submitted_active:
  assumes "submit_request m r = (m', Inr ())"
  shows "get_stream_state m' (req_stream r) = Some (new_active_stream r)"
proof -
  have "m' = set_stream m (new_active_stream r) (req_stream r)"
    using assms by (simp add: submit_request_def split: if_split_asm)
  then show ?thesis by (simp add: get_stream_state_def set_stream_def)
qed


lemma terminated_count [simp]: "get_active_stream_count (fst (terminate_all_active_streams m out)) = 0"
proof -
  have "lc_state (as_lifecycle (terminate_stream out st)) = Terminal" for st
    by (simp add: terminate_stream_def transition_state)
  then have "\<forall>x \<in> set (map_vals (\<lambda>_. terminate_stream out) (sm_active_streams m)).
      \<not> (case x of (k, st) \<Rightarrow> lc_state (as_lifecycle st) \<noteq> Terminal)"
    by (auto simp: map_vals_def)
  then show ?thesis
    by (simp add: get_active_stream_count_def terminate_all_active_streams_def filter_empty_conv)
qed

section \<open>Closing\<close>

definition closes_clean :: "registration_session \<Rightarrow> registration_session \<Rightarrow> bool" where
  "closes_clean s t \<longleftrightarrow> (rs_closed s \<longrightarrow> rs_closed t) \<and>
     (rs_closed t \<longrightarrow> rs_closed s \<or> (get_active_stream_count (rs_session t) = 0 \<and> \<not> rs_registered t))"

lemma clean_close [simp]: "closes_clean s (close_registration t)"
  by (simp add: closes_clean_def)

lemma clean_same: "rs_closed t = rs_closed s \<Longrightarrow> closes_clean s t"
  by (simp add: closes_clean_def)

lemma clean_refuse: "rs_closed t = rs_closed s \<Longrightarrow> closes_clean s (fst (refuse_frame t code cat msg close))"
  "rs_closed t = rs_closed s \<Longrightarrow> closes_clean s (fst (refuse_send t code cat msg close))"
  by (simp_all add: refuse_frame_def refuse_send_def reject_registration_def clean_same)

lemma clean_after: "rs_closed t = rs_closed s \<Longrightarrow> closes_clean s (fst (after_dispatch t r))"
  by (simp add: after_dispatch_def Let_def accept_frame_def clean_same split: prod.split sum.split bool.split)

lemma clean_dispatch:
  assumes "rs_closed t = rs_closed s"
  shows "closes_clean s (fst (receive_registration A t data))"
    "closes_clean s (fst (receive_worker_event t data))"
    "closes_clean s (fst (receive_worker_control t data))"
    "closes_clean s (fst (receive_worker_capabilities A t h data))"
    "closes_clean s (fst (send_router_request t data))"
  using assms
  by (simp_all add: receive_registration_def receive_worker_event_def receive_worker_control_def
      receive_worker_capabilities_def send_router_request_def accept_frame_def clean_refuse clean_after
      clean_same split: option.split prod.split)

lemma clean_receive: "closes_clean s (fst (receive_worker_frame A s data))"
proof (cases "rs_closed s")
  case True
  then show ?thesis by (simp add: receive_worker_frame_def clean_refuse)
next
  case False
  obtain s1 b where s1: "synchronize_binding s = (s1, b)" by (cases "synchronize_binding s")
  obtain m res where v: "verify_inbound_frame (rs_session s1) data Initiator_To_Responder = (m, res)"
    by (cases "verify_inbound_frame (rs_session s1) data Initiator_To_Responder")
  have c: "rs_closed s1 = rs_closed s" "rs_closed (s1\<lparr>rs_session := m\<rparr>) = rs_closed s"
    using sync_closed [of s] s1 by simp_all
  show ?thesis
    using False c clean_dispatch [OF c(2)]
    by (simp add: receive_worker_frame_def s1 v Let_def clean_refuse clean_same
        split: option.split prod.split sum.split)
qed

lemma clean_send: "closes_clean s (fst (send_router_frame s data))"
proof -
  obtain s1 b where s1: "is_registered s = (s1, b)" by (cases "is_registered s")
  then have c: "rs_closed s1 = rs_closed s" by (auto simp: is_registered_def Let_def)
  show ?thesis using c clean_dispatch(5) [OF c]
    by (simp add: send_router_frame_def s1 clean_refuse clean_same split: option.split prod.split)
qed

lemma clean_step: "reg_step A s s' \<Longrightarrow> closes_clean s s'"
proof (induction rule: reg_step.induct)
  case (reg_receive s data s' reply res)
  then show ?case using clean_receive [of s A data] by simp
next
  case (reg_send s data s' res)
  then show ?case using clean_send [of s data] by simp
next
  case (reg_query s s' b)
  then show ?case using sync_closed [of s] by (auto simp: is_registered_def Let_def clean_same)
qed (simp add: clean_same)

lemma closed_steps: "(reg_step A)\<^sup>*\<^sup>* s t \<Longrightarrow> rs_closed s \<Longrightarrow> rs_closed t"
  by (induction rule: rtranclp_induct) (auto dest: clean_step simp: closes_clean_def)

text \<open>
  A protocol error ends the connection and its work. The step that closes a registration
  leaves no active stream and no registration behind, and from then on, whatever happens, every
  frame from the worker is refused with 410 and every frame for it with 401.
\<close>

theorem closing_is_clean_and_final:
  assumes "reg_step A s s'" and "\<not> rs_closed s" and "rs_closed s'" and "(reg_step A)\<^sup>*\<^sup>* s' t"
  shows "get_active_stream_count (rs_session s') = 0 \<and> \<not> rs_registered s' \<and>
    receive_worker_frame A t data =
      (t, registration_reply, Inl (mk_error ec_bad_request 410 ''registration_connection_closed'')) \<and>
    snd (send_router_frame t data) = Inl (mk_error ec_unauthorized 401 ''registration_required'')"
proof -
  have t: "rs_closed t" by (rule closed_steps [OF assms(4,3)])
  then have "\<not> (rs_registered (fst (synchronize_binding t)) \<and> \<not> rs_closed (fst (synchronize_binding t)))"
    by simp
  then have "snd (send_router_frame t data) = Inl (mk_error ec_unauthorized 401 ''registration_required'')"
    unfolding send_router_frame_def is_registered_def Let_def
    by (simp add: refuse_send_def reject_registration_def)
  moreover have "receive_worker_frame A t data =
      (t, registration_reply, Inl (mk_error ec_bad_request 410 ''registration_connection_closed''))"
    using t by (simp add: receive_worker_frame_def refuse_frame_def reject_registration_def)
  moreover have "get_active_stream_count (rs_session s') = 0 \<and> \<not> rs_registered s'"
    using clean_step [OF assms(1)] assms(2,3) by (simp add: closes_clean_def)
  ultimately show ?thesis by blast
qed

section \<open>The binding and the registration\<close>

text \<open>
  A registration belongs to one binding. When the session is bound anew (a SESSION_BIND that
  is accepted and is not a repetition of the current one) or its binding goes stale, the worker
  is no longer registered.
\<close>

theorem rebinding_ends_registration:
  assumes "rs_registered s" and "rs_binding_generation s = sm_binding_generation (rs_session s)"
    and "process_session_bind (rs_session s) b router = (m, Inr ())"
    and "\<not> (sm_binding_state (rs_session s) = Bound_Current \<and> same_bind (sm_bound_bind (rs_session s)) b)"
  shows "\<not> snd (is_registered (s\<lparr>rs_session := m\<rparr>)) \<and>
    \<not> snd (is_registered (s\<lparr>rs_session := mark_binding_stale (rs_session s)\<rparr>))"
proof -
  have "sm_binding_generation m = sm_binding_generation (rs_session s) + 1"
    using assms(3,4) by (auto simp: process_session_bind_def Let_def split: if_split_asm option.splits)
  then have "sm_binding_generation m \<noteq> rs_binding_generation s" using assms(2) by simp
  moreover have "sm_binding_state (mark_binding_stale (rs_session s)) \<noteq> Bound_Current"
    by (simp add: mark_binding_stale_def)
  ultimately show ?thesis by (simp add: is_registered_def Let_def sync_registered)
qed

section \<open>Authenticated frames\<close>

text \<open>
  On an SL1 connection a worker frame only takes effect when its tag verifies. Every frame
  the router accepts arrives on a session with a current binding; with SL1 active it carries the
  expected sequence number and a valid tag for the bound lease in the worker's direction.
\<close>

theorem accepted_worker_frames_authenticated:
  assumes "receive_worker_frame A s data = (s', reply, Inr ())"
  shows "sm_binding_state (rs_session s) = Bound_Current \<and> \<not> rs_closed s \<and>
    (sm_is_sl1_active (rs_session s) \<longrightarrow> (\<exists>ext key.
      auth_seq ext = sm_expected_inbound_auth_seq (rs_session s) \<and>
      lookup (sd_sl1_keys (sm_descriptor (rs_session s))) (auth_key_id ext) = Some key \<and>
      verify_envelope_buffer data (sm_bound_bind (rs_session s)) Initiator_To_Responder key = Inr ext))"
proof -
  note f = assms [unfolded receive_worker_frame_def]
  have c: "\<not> rs_closed s" using f by (auto simp: refuse_frame_def reject_registration_def)
  obtain s1 b where s1: "synchronize_binding s = (s1, b)" by (cases "synchronize_binding s")
  then have ss: "rs_session s1 = rs_session s" using sync_session [of s] by simp
  have b: "b" using f c s1 by (intro ccontr [of b]) simp
  then have bound: "sm_binding_state (rs_session s) = Bound_Current" using sync_bound [of s] s1 by simp
  obtain h off where fr: "registration_frame data = Some (h, off)"
    using f c s1 b by (cases "registration_frame data") (auto simp: refuse_frame_def reject_registration_def)
  obtain m res where v: "verify_inbound_frame (rs_session s) data Initiator_To_Responder = (m, res)"
    by (cases "verify_inbound_frame (rs_session s) data Initiator_To_Responder")
  obtain x where res: "res = Inr x" using f c s1 b ss fr v by (cases res) simp_all
  have ty: "hdr_envelope_type h \<noteq> et_session_bind"
    using f c s1 b ss fr v res by (intro notI) (simp add: Let_def refuse_frame_def reject_registration_def split: if_split_asm)
  have "decode_header data = Some h"
    using fr by (simp add: registration_frame_def Let_def split: option.splits if_split_asm)
  then obtain q where q: "data = encode_header h @ q" unfolding decode_header_iff by blast
  have "\<exists>ext. x = Some ext" if "sm_is_sl1_active (rs_session s)"
    using v res ty that q
    by (auto simp: verify_inbound_frame_def Let_def split: if_split_asm option.splits sum.splits)
  then show ?thesis
    using inbound_accepted [of "rs_session s" data Initiator_To_Responder m] v res bound c by blast
qed

section \<open>Registering over SL1\<close>

lemma decode_signed_registration:
  assumes "decode_runtime_registration data = Some e" and "decode_header data = Some h"
    and "hdr_flags h = 0"
    and "out = encode_header (h\<lparr>hdr_flags := hdr_flags h OR 1\<rparr>) @ x @ drop 32 data" and "length x = 24"
  shows "decode_runtime_registration out = Some e \<and>
    registration_frame out = Some (h\<lparr>hdr_flags := 1\<rparr>, 56) \<and> hdr_envelope_type h = et_runtime_register"
proof -
  from assms(1) obtain h' pos where f: "registration_frame data = Some (h', pos)"
    by (auto simp: decode_runtime_registration_def split: option.splits)
  then have "h' = h" using assms(2) by (simp add: registration_frame_def Let_def split: option.splits if_split_asm)
  with f have f: "registration_frame data = Some (h, pos)" by simp
  note fr = frame_unauthenticated [OF f assms(3)]
  have le: "hdr_payload_len h \<le> 16777216"
    using f by (simp add: registration_frame_def Let_def split: option.splits if_split_asm)
  have dh: "decode_header out = Some (h\<lparr>hdr_flags := 1\<rparr>)" using assms(3,4) by simp
  have lo: "length out = 56 + unat (hdr_payload_len h)" using assms(4,5) fr by simp
  have f2: "registration_frame out = Some (h\<lparr>hdr_flags := 1\<rparr>, 56)"
    using dh lo fr le by (simp add: registration_frame_def Let_def)
  have d: "drop 56 out = drop 32 data" using assms(4,5) by simp
  have i: "out ! (56 + k) = data ! (32 + k)" if "k < unat (hdr_payload_len h)" for k
    using arg_cong [OF d, of "\<lambda>xs. xs ! k"] that lo fr by simp
  have dr: "drop 60 out = drop 36 data" using arg_cong [OF d, of "drop 4"] by simp
  have l4: "\<not> hdr_payload_len h < 4" and ty: "hdr_envelope_type h = 6"
    using assms(1) f by (auto simp: decode_runtime_registration_def split: if_split_asm)
  then have "4 \<le> unat (hdr_payload_len h)" by (simp add: word_less_nat_alt)
  then have ii: "out ! 56 = data ! 32" "out ! 57 = data ! 33" "out ! 58 = data ! 34" "out ! 59 = data ! 35"
    using i [of 0] i [of 1] i [of 2] i [of 3] by simp_all
  have "decode_runtime_registration out = decode_runtime_registration data"
    using fr by (simp add: decode_runtime_registration_def f f2 ii dr Let_def)
  with assms(1) f2 ty show ?thesis by simp
qed

lemma sync_current:
  assumes "sm_binding_state (rs_session s) = Bound_Current"
  shows "same_bind (sm_bound_bind (rs_session s)) (rs_binding (fst (synchronize_binding s))) \<and>
    sm_binding_generation (rs_session s) = rs_binding_generation (fst (synchronize_binding s))"
  using assms by (auto simp: synchronize_binding_def Let_def same_bind_def)


end
