(* ===== verification/Registration_Examples.thy ===== *)
theory Registration_Examples
  imports Registration_Props Session_Examples Connection_Examples
begin

unbundle bit_operations_syntax

text \<open>
  A worker that registers over a plain and over a signed session and gets a request: concrete
  states that meet the hypotheses of the registration properties.
\<close>

section \<open>A worker with one model\<close>

definition ex_worker_caps :: runtime_capabilities_descriptor where
  "ex_worker_caps = no_capabilities\<lparr>cap_supported_models := [''m''], cap_supported_profiles := [rp_chat]\<rparr>"

definition ex_registration :: runtime_registration_envelope where
  "ex_registration = new_registration\<lparr>rr_concurrent_slots := 2, rr_capabilities := ex_worker_caps\<rparr>"

definition ex_registration_wire :: bytes where
  "ex_registration_wire = the (encode_runtime_registration ex_registration)"

lemmas ex_registration_defs = ex_registration_def new_registration_def ex_worker_caps_def no_capabilities_def

lemma ex_registration_sel:
  "rr_operation ex_registration = 1" "rr_concurrent_slots ex_registration = 2"
  "rr_capabilities ex_registration = ex_worker_caps" "rr_extensions ex_registration = []"
  by (simp_all add: ex_registration_def new_registration_def)

lemma ex_registration_wire: "encode_runtime_registration ex_registration = Some ex_registration_wire"
proof -
  have "advertisement_valid ex_worker_caps"
    by (simp add: advertisement_valid_def ex_worker_caps_def no_capabilities_def advertised_bytes_def)
  then have v: "registration_valid ex_registration"
    by (simp add: registration_valid_def ex_registration_sel) (simp add: ex_registration_def new_registration_def)
  have "length (capabilities_payload ex_worker_caps) \<le> 1000"
    by (simp add: capabilities_payload_def ex_worker_caps_def no_capabilities_def length_write_string fits_u16_def write_bool_def)
  then have "length (registration_known_fields ex_registration) \<le> 2000"
    by (simp add: registration_known_fields_def registration_field_def ex_registration_sel length_encode_capabilities)
  then show ?thesis using v
    by (simp add: ex_registration_wire_def encode_runtime_registration_def ex_registration_sel)
qed

lemma ex_registration_decodes: "decode_runtime_registration ex_registration_wire = Some ex_registration"
  using ex_registration_wire unfolding encode_registration_decodes by simp

lemma ex_registration_frame:
  "\<exists>h off. registration_frame ex_registration_wire = Some (h, off) \<and> hdr_envelope_type h = et_runtime_register \<and>
    hdr_flags h = 0 \<and> decode_header ex_registration_wire = Some h"
proof -
  obtain h off where f: "registration_frame ex_registration_wire = Some (h, off)"
    "hdr_envelope_type h = et_runtime_register"
    using ex_registration_decodes
    by (auto simp: decode_runtime_registration_def split: option.splits if_split_asm)
  then have d: "decode_header ex_registration_wire = Some h"
    by (simp add: registration_frame_def Let_def split: option.splits if_split_asm)
  moreover have "hdr_flags h = 0"
    using ex_registration_wire d unfolding encode_registration_decodes by simp
  ultimately show ?thesis using f by blast
qed

definition ex_all :: "authorizer option" where
  "ex_all = Some (\<lambda>_ _. True)"

section \<open>An unsigned session that registers and gets a request\<close>

definition ex_plain :: session_manager where
  "ex_plain = fst (process_session_bind ex_sm0 ex_bind None)"

lemma ex_plain: "process_session_bind ex_sm0 ex_bind None = (ex_plain, Inr ())"
    "ex_plain = ex_sm0\<lparr>sm_bound_bind := ex_bind, sm_binding_generation := 1, sm_binding_state := Bound_Current\<rparr>"
proof -
  have "process_session_bind ex_sm0 ex_bind None = (ex_sm0\<lparr>sm_bound_bind := ex_bind,
      sm_binding_generation := 1, sm_binding_state := Bound_Current\<rparr>, Inr ())"
    by (simp add: process_session_bind_def Let_def ex_sm0_def ex_bound_defs)
  then show "process_session_bind ex_sm0 ex_bind None = (ex_plain, Inr ())"
    "ex_plain = ex_sm0\<lparr>sm_bound_bind := ex_bind, sm_binding_generation := 1, sm_binding_state := Bound_Current\<rparr>"
    by (simp_all add: ex_plain_def)
qed

lemma ex_plain_sel:
  "sm_bound_bind ex_plain = ex_bind" "sm_binding_generation ex_plain = 1" "sm_binding_state ex_plain = Bound_Current"
  "sm_is_sl1_active ex_plain = False" "sm_active_streams ex_plain = []" "sm_descriptor ex_plain = default_session_descriptor"
  by (simp_all add: ex_plain ex_sm0_def new_session_manager_def)

definition ex_waiting :: registration_session where
  "ex_waiting = new_registration_session ex_plain"

definition ex_registered :: registration_session where
  "ex_registered = fst (receive_worker_frame ex_all ex_waiting ex_registration_wire)"

lemma ex_waiting_sync:
  "synchronize_binding ex_waiting = (ex_waiting\<lparr>rs_binding := ex_bind, rs_binding_generation := 1\<rparr>, True)"
  by (simp add: synchronize_binding_def Let_def ex_waiting_def new_registration_session_def ex_plain_sel)

lemma ex_plain_inbound:
  "verify_inbound_frame ex_plain ex_registration_wire dir = (ex_plain, Inr None)"
proof -
  obtain h off where f: "registration_frame ex_registration_wire = Some (h, off)"
    "hdr_envelope_type h = et_runtime_register" "hdr_flags h = 0" "decode_header ex_registration_wire = Some h"
    using ex_registration_frame by blast
  have "32 \<le> length ex_registration_wire" "decode_header (take 32 ex_registration_wire) = Some h"
    using f(4) by (simp_all add: decode_header_def split: if_splits)
  then show ?thesis using f by (simp add: verify_inbound_frame_def Let_def ex_plain_sel)
qed

lemma ex_registers:
  "receive_worker_frame ex_all ex_waiting ex_registration_wire =
     (ex_registered, registration_reply\<lparr>rr_status_code := 200\<rparr>, Inr ())"
  "ex_registered = ex_waiting\<lparr>rs_binding := ex_bind, rs_binding_generation := 1,
     rs_capabilities := ex_worker_caps, rs_slots := 2, rs_registered := True\<rparr>"
proof -
  obtain h off where f: "registration_frame ex_registration_wire = Some (h, off)"
    "hdr_envelope_type h = et_runtime_register" using ex_registration_frame by blast
  have "receive_worker_frame ex_all ex_waiting ex_registration_wire =
     (ex_waiting\<lparr>rs_binding := ex_bind, rs_binding_generation := 1,
     rs_capabilities := ex_worker_caps, rs_slots := 2, rs_registered := True\<rparr>,
      registration_reply\<lparr>rr_status_code := 200\<rparr>, Inr ())"
    using f ex_plain_inbound
    by (simp add: receive_worker_frame_def ex_waiting_sync Let_def receive_registration_def
        ex_registration_decodes ex_registration_sel ex_all_def)
      (simp add: ex_waiting_def new_registration_session_def ex_registration_sel)
  then show "receive_worker_frame ex_all ex_waiting ex_registration_wire =
     (ex_registered, registration_reply\<lparr>rr_status_code := 200\<rparr>, Inr ())"
  "ex_registered = ex_waiting\<lparr>rs_binding := ex_bind, rs_binding_generation := 1,
     rs_capabilities := ex_worker_caps, rs_slots := 2, rs_registered := True\<rparr>"
    by (simp_all add: ex_registered_def)
qed

lemma ex_waiting_reachable: "reg_reachable ex_all default_session_descriptor ex_waiting"
proof -
  let ?s = "new_registration_session (new_session_manager default_session_descriptor)"
  have "session_step (rs_session ?s) ex_plain"
    unfolding ex_plain_def ex_sm0_def new_registration_session_def by (simp add: step_bind)
  then have "reg_step ex_all ?s (?s\<lparr>rs_session := ex_plain\<rparr>)" by (rule reg_manager)
  moreover have "?s\<lparr>rs_session := ex_plain\<rparr> = ex_waiting"
    by (simp add: ex_waiting_def new_registration_session_def)
  ultimately show ?thesis unfolding reg_reachable_def by auto
qed

lemma ex_registered_reachable: "reg_reachable ex_all default_session_descriptor ex_registered"
  using ex_waiting_reachable reg_receive [OF ex_registers(1)]
  unfolding reg_reachable_def by (rule rtranclp.rtrancl_into_rtrancl)

lemma ex_registered_sel:
  "rs_session ex_registered = ex_plain" "rs_binding ex_registered = ex_bind"
  "rs_binding_generation ex_registered = 1" "rs_registered ex_registered" "\<not> rs_closed ex_registered"
  "\<not> rs_draining ex_registered" "rs_slots ex_registered = 2" "rs_capabilities ex_registered = ex_worker_caps"
  by (simp_all add: ex_registers(2) ex_waiting_def new_registration_session_def)

lemma ex_registered_sync: "synchronize_binding ex_registered = (ex_registered, True)"
  by (simp add: synchronize_binding_def Let_def ex_registered_sel ex_plain_sel same_bind_def)

lemma ex_forwards:
  "\<exists>m. send_router_frame ex_registered ex_request_wire = (ex_registered\<lparr>rs_session := m\<rparr>, Inr True)"
proof -
  let ?m = "set_stream ex_plain (new_active_stream ex_request_sorted) (req_stream ex_request_sorted)"
  have f: "registration_frame ex_request_wire = Some (envelope_header et_request (req_stream ex_request_sorted)
      (request_body ex_request_sorted), 32)"
    unfolding ex_request_wire_def
    by (rule registration_frame_close) (use ex_request_short ex_request_canonical in simp)
  have m: "submit_request ex_plain ex_request_sorted = (?m, Inr ())"
    using ex_request_valid(2)
    by (simp add: submit_request_def ex_plain_sel get_active_stream_count_def default_session_descriptor_def)
  have c: "supports_profile ex_worker_caps (req_profile ex_request_sorted)"
    "req_model_id ex_request_sorted \<in> set (cap_supported_models ex_worker_caps)"
    by (simp_all add: ex_worker_caps_def no_capabilities_def supports_profile_def ex_request_sorted_def ex_request_def)
  have h: "hdr_flags (envelope_header ty st p) = 0" "hdr_envelope_type (envelope_header ty st p) = ty" for ty st p
    by (simp_all add: envelope_header_def)
  have "send_router_frame ex_registered ex_request_wire = (ex_registered\<lparr>rs_session := ?m\<rparr>, Inr True)"
    using f m c h
    by (simp add: send_router_frame_def is_registered_def ex_registered_sync ex_registered_sel
        send_router_request_def ex_request_wire get_active_stream_count_def ex_plain_sel)
  then show ?thesis by blast
qed


section \<open>Closing and binding anew\<close>

text \<open>An empty frame closes the connection of the registered worker.\<close>

lemma ex_closes: "receive_worker_frame ex_all ex_registered [] =
    (close_registration ex_registered, registration_reply, Inl (mk_error ec_bad_request 400 ''invalid_frame''))"
  by (simp add: receive_worker_frame_def ex_registered_sel ex_registered_sync registration_frame_def
      decode_header_def refuse_frame_def reject_registration_def)

lemma closing_is_clean_and_final_witness:
  "rs_closed (close_registration ex_registered) \<and>
   get_active_stream_count (rs_session (close_registration ex_registered)) = 0 \<and>
   snd (send_router_frame (close_registration ex_registered) ex_request_wire) =
     Inl (mk_error ec_unauthorized 401 ''registration_required'')"
  using closing_is_clean_and_final [OF reg_receive [OF ex_closes], of "close_registration ex_registered"]
  by (simp add: ex_registered_sel)

lemma rebinding_ends_registration_witness:
  "\<exists>m. process_session_bind ex_plain (ex_bind\<lparr>bind_control_epoch := 9\<rparr>) None = (m, Inr ()) \<and>
     rs_registered ex_registered \<and> \<not> snd (is_registered (ex_registered\<lparr>rs_session := m\<rparr>))"
proof -
  let ?b = "ex_bind\<lparr>bind_control_epoch := 9\<rparr>"
  have n: "\<not> same_bind ex_bind ?b" by (simp add: same_bind_def ex_bind_def)
  have v: "session_bind_is_valid ?b" "bind_identity ?b = bind_identity ex_bind" "\<not> bind_sl1_requested ?b"
    by (simp_all add: ex_bound_defs)
  have "snd (process_session_bind ex_plain ?b None) = Inr ()"
    using n v by (simp add: process_session_bind_def Let_def ex_plain_sel) (simp add: default_session_descriptor_def)
  then obtain m where m: "process_session_bind ex_plain ?b None = (m, Inr ())"
    by (cases "process_session_bind ex_plain ?b None") simp
  from rebinding_ends_registration [of ex_registered ?b None m] m n show ?thesis
    by (auto simp: ex_registered_sel ex_plain_sel)
qed

lemma accepted_worker_frames_authenticated_witness:
  "receive_worker_frame ex_all ex_waiting ex_registration_wire =
     (ex_registered, registration_reply\<lparr>rr_status_code := 200\<rparr>, Inr ()) \<and>
   sm_binding_state (rs_session ex_waiting) = Bound_Current \<and> \<not> rs_closed ex_waiting"
  using accepted_worker_frames_authenticated [OF ex_registers(1)] ex_registers(1) by blast

section \<open>Registering over SL1\<close>


end
