(* ===== verification/Lease_Protocol.thy ===== *)
theory Lease_Protocol
  imports Lease_Client
begin

unbundle bit_operations_syntax

text \<open>
  The two halves of the lease protocol by themselves: the client's loops return when polling
  takes time (locale \<open>running_clock\<close>), and what the issuer does with a HELLO or a LEASE_ACK of a
  node that is new, invited or leased.
\<close>

section \<open>The handshake returns\<close>

text \<open>
  What the client relies on: time passes while it polls. Every poll (a clock reading and a
  receive, which blocks for at most the receive timeout) leaves a later clock.
\<close>

locale running_clock =
  fixes os :: "'w udp_os"
  assumes poll_takes_time:
    "snd (uo_steady_ns os w) <
       snd (uo_steady_ns os (fst (recv_datagram os (fst (uo_steady_ns os w)) ch)))"
begin

lemma poll_returns: "\<exists>w' got. poll_invite os c deadline w = Some (w', got)"
proof (induction "deadline - snd (uo_steady_ns os w)" arbitrary: w rule: less_induct)
  case less
  obtain w1 now where n: "uo_steady_ns os w = (w1, now)" by (cases "uo_steady_ns os w")
  obtain w2 got where r: "recv_datagram os w1 (cl_channel c) = (w2, got)"
    by (cases "recv_datagram os w1 (cl_channel c)")
  have t: "now < snd (uo_steady_ns os w2)" using poll_takes_time [of w "cl_channel c"] by (simp add: n r)
  show ?case
  proof (cases "now < deadline")
    case True
    then have "deadline - snd (uo_steady_ns os w2) < deadline - snd (uo_steady_ns os w)"
      using t n by simp
    from less.hyps [OF this] show ?thesis
      using True by (subst poll_invite.simps) (auto simp: n r split: option.split)
  next
    case False
    then show ?thesis by (subst poll_invite.simps) (simp add: n)
  qed
qed

lemma wait_returns: "\<exists>w' got. wait_invite os w c ms = Some (w', got)"
  using poll_returns by (simp add: wait_invite_def split: prod.split)

lemma hello_returns: "\<exists>r. hello_attempts os n w c = Some r"
proof (induction n arbitrary: w c)
  case (Suc n)
  obtain w1 sent where s: "send_control_datagram os w (fst (make_datagram c cm_node_hello))
      (snd (make_datagram c cm_node_hello)) = (w1, sent)" by fastforce
  obtain w2 got where "wait_invite os w1 (fst (make_datagram c cm_node_hello))
      (lc_retransmit_ms (cl_config (fst (make_datagram c cm_node_hello)))) = Some (w2, got)"
    using wait_returns by blast
  with s Suc.IH show ?case by (cases "make_datagram c cm_node_hello") (auto split: option.split)
qed simp

lemma ack_returns: "\<exists>r. ack_attempts os n w c = Some r"
proof (induction n arbitrary: w c)
  case (Suc n)
  obtain c1 d1 where d1: "make_datagram c cm_lease_ack = (c1, d1)" by fastforce
  obtain w1 sent1 where s1: "send_control_datagram os w c1 (d1\<lparr>dg_lease_token := cl_lease_token c1\<rparr>) = (w1, sent1)"
    by fastforce
  obtain c2 d2 where d2: "make_datagram c1 cm_node_hello = (c2, d2)" by fastforce
  obtain w2 sent2 where s2: "send_control_datagram os w1 c2 d2 = (w2, sent2)" by fastforce
  obtain w3 got where "wait_invite os w2 c2 (lc_confirm_ms (cl_config c2)) = Some (w3, got)"
    using wait_returns by blast
  with d1 s1 d2 s2 Suc.IH show ?case by (auto split: option.split)
qed simp

lemma acquire_returns: "\<exists>w' c' res. acquire os w c = Some (w', c', res)"
proof -
  obtain w1 c1 r1 where "request_invite os w c = Some (w1, c1, r1)"
    using hello_returns by (force simp: request_invite_def split: prod.split sum.split)
  moreover obtain w2 c2 r2 where "ack_lease os w1 c1 = Some (w2, c2, r2)"
    using ack_returns by (force simp: ack_lease_def)
  ultimately show ?thesis by (cases r1) (simp_all add: acquire_def)
qed

end

section \<open>The issuer\<close>

lemma datagram_identity_sel [simp]:
  "node_id (datagram_identity d) = dg_node_id d" "runtime_id (datagram_identity d) = dg_runtime_id d"
  "endpoint_id (datagram_identity d) = dg_endpoint_id d"
  by (simp_all add: datagram_identity_def)

lemma next_token: "next_lease_token s = (s', t) \<Longrightarrow> t \<noteq> 0 \<and> li_router s' = li_router s \<and>
    li_lease_counter s' = t"
  by (auto simp: next_lease_token_def Let_def split: if_split_asm)

definition fresh_for :: "control_plane_router \<Rightarrow> node_endpoint_identity \<Rightarrow> u64 \<Rightarrow> bool" where
  "fresh_for r i ep \<longleftrightarrow>
     (case lookup (nodes r) i of None \<Rightarrow> True | Some n \<Rightarrow> nd_last_control_epoch n < ep)"

text \<open>The node a HELLO of a new incarnation leaves, seen and without a lease.\<close>

lemma ingest_hello_fresh:
  assumes "fresh_for r (datagram_identity d) (dg_control_epoch d)"
    and "dg_message_type d = cm_node_hello" and "dg_node_id d \<noteq> 0"
  shows "\<exists>n. lookup (nodes (fst (ingest_datagram r d now))) (datagram_identity d) = Some n \<and>
    nd_state n = Seen \<and> nd_last_control_epoch n = dg_control_epoch d \<and>
    nd_last_inbound_seq n = dg_control_seq d"
proof (cases "lookup (nodes r) (datagram_identity d)")
  case None
  with assms show ?thesis by (simp add: ingest_datagram_def Let_def node_from_hello_def)
next
  case (Some n)
  with assms(1) have lt: "nd_last_control_epoch n < dg_control_epoch d" by (simp add: fresh_for_def)
  then have "\<not> dg_control_epoch d < nd_last_control_epoch n" by simp
  with lt Some assms show ?thesis
    by (simp add: ingest_datagram_def Let_def dispatch_message_def on_node_hello_def commit_seen_def)
qed

definition invited_node :: "control_plane_router \<Rightarrow> node_endpoint_identity \<Rightarrow> u64 \<Rightarrow> u64 \<Rightarrow> u64 \<Rightarrow> bool" where
  "invited_node r i ep token sq \<longleftrightarrow> token \<noteq> 0 \<and> (\<exists>n. lookup (nodes r) i = Some n \<and> nd_state n = Invited \<and>
     nd_last_control_epoch n = ep \<and> nd_active_lease_token n = token \<and> nd_last_inbound_seq n = sq)"

definition leased_node :: "control_plane_router \<Rightarrow> node_endpoint_identity \<Rightarrow> u64 \<Rightarrow> u64 \<Rightarrow> bool" where
  "leased_node r i ep token \<longleftrightarrow> token \<noteq> 0 \<and> (\<exists>n. lookup (nodes r) i = Some n \<and> nd_state n = Active \<and>
     nd_last_control_epoch n = ep \<and> nd_active_lease_token n = token \<and>
     nd_tcp_trunk_ready n \<and> nd_tcp_port n > 0)"

lemma leased_validates: "leased_node r i ep token \<Longrightarrow> validate_tcp_session_binding r i ep token"
  by (auto simp: leased_node_def validate_tcp_session_binding_def)

lemma invite_sel [simp]:
  "dg_message_type (invite_datagram i n t) = cm_invite" "dg_node_id (invite_datagram i n t) = node_id i"
  "dg_runtime_id (invite_datagram i n t) = runtime_id i" "dg_endpoint_id (invite_datagram i n t) = endpoint_id i"
  "dg_control_epoch (invite_datagram i n t) = nd_last_control_epoch n"
  "dg_lease_token (invite_datagram i n t) = t"
  by (simp_all add: invite_datagram_def)

definition invites :: "udp_control_datagram \<Rightarrow> udp_control_datagram \<Rightarrow> bool" where
  "invites v d \<longleftrightarrow> dg_message_type v = cm_invite \<and> dg_node_id v = dg_node_id d \<and>
     dg_runtime_id v = dg_runtime_id d \<and> dg_endpoint_id v = dg_endpoint_id d \<and>
     dg_control_epoch v = dg_control_epoch d \<and> datagram_acceptable v"

lemma invite_acceptable [simp]: "datagram_acceptable (invite_datagram i n t)"
  by (simp add: invite_datagram_def datagram_acceptable_def empty_datagram_def)

lemma serve_hello_fresh:
  assumes "fresh_for (li_router s) (datagram_identity d) (dg_control_epoch d)"
    and "dg_message_type d = cm_node_hello" and "dg_node_id d \<noteq> 0"
  shows "\<exists>s' v. serve_datagram s d now = (s', Some v) \<and> invites v d \<and>
    invited_node (li_router s') (datagram_identity d) (dg_control_epoch d) (dg_lease_token v) (dg_control_seq d)"
proof -
  obtain n where n: "lookup (nodes (fst (ingest_datagram (li_router s) d now))) (datagram_identity d) = Some n"
    "nd_state n = Seen" "nd_last_control_epoch n = dg_control_epoch d"
    "nd_last_inbound_seq n = dg_control_seq d"
    using ingest_hello_fresh [OF assms] by blast
  obtain s1 t where t: "next_lease_token (s\<lparr>li_router := fst (ingest_datagram (li_router s) d now)\<rparr>) = (s1, t)"
    by fastforce
  note nt = next_token [OF t]
  show ?thesis using n nt assms(2,3)
    by (simp add: serve_datagram_def t issue_invite_def Let_def invites_def invited_node_def)
qed

text \<open>A HELLO of an invited node gets the same lease again and changes nothing of it.\<close>

lemma ingest_hello_invited:
  assumes "lookup (nodes r) (datagram_identity d) = Some n" and "nd_state n = Invited \<or> nd_state n = Active"
    and "nd_last_control_epoch n = dg_control_epoch d" and "dg_message_type d = cm_node_hello"
  shows "fst (ingest_datagram r d now) = r"
  using assms by (auto simp: ingest_datagram_def Let_def dispatch_message_def on_node_hello_def)

lemma serve_hello_invited:
  assumes "invited_node (li_router s) (datagram_identity d) (dg_control_epoch d) token sq"
    and "dg_message_type d = cm_node_hello"
  shows "\<exists>s' v. serve_datagram s d now = (s', Some v) \<and> invites v d \<and> dg_lease_token v = token \<and>
    invited_node (li_router s') (datagram_identity d) (dg_control_epoch d) token sq"
proof -
  obtain n where n: "lookup (nodes (li_router s)) (datagram_identity d) = Some n" "nd_state n = Invited"
    "nd_last_control_epoch n = dg_control_epoch d" "nd_active_lease_token n = token"
    "nd_last_inbound_seq n = sq" "token \<noteq> 0"
    using assms(1) by (auto simp: invited_node_def)
  then have i: "fst (ingest_datagram (li_router s) d now) = li_router s"
    using assms(2) by (intro ingest_hello_invited) auto
  obtain s1 t where t: "next_lease_token (s\<lparr>li_router := li_router s\<rparr>) = (s1, t)" by fastforce
  note nt = next_token [OF t]
  show ?thesis using n nt t assms(2)
    by (simp add: serve_datagram_def i issue_invite_def reissue_invite_def Let_def invites_def invited_node_def)
qed

lemma serve_hello_leased:
  assumes "leased_node (li_router s) (datagram_identity d) (dg_control_epoch d) token"
    and "dg_message_type d = cm_node_hello"
  shows "\<exists>s'. serve_datagram s d now = (s', None) \<and> li_router s' = li_router s"
proof -
  obtain n where n: "lookup (nodes (li_router s)) (datagram_identity d) = Some n" "nd_state n = Active"
    "nd_last_control_epoch n = dg_control_epoch d"
    using assms(1) by (auto simp: leased_node_def)
  then have i: "fst (ingest_datagram (li_router s) d now) = li_router s"
    using assms(2) by (intro ingest_hello_invited) auto
  obtain s1 t where t: "next_lease_token (s\<lparr>li_router := li_router s\<rparr>) = (s1, t)" by fastforce
  note nt = next_token [OF t]
  show ?thesis using n nt t assms(2)
    by (simp add: serve_datagram_def i issue_invite_def reissue_invite_def Let_def)
qed

lemma serve_ack_invited:
  assumes "invited_node (li_router s) (datagram_identity d) (dg_control_epoch d) (dg_lease_token d) sq"
    and "dg_message_type d = cm_lease_ack" and "sq < dg_control_seq d" and "dg_node_id d \<noteq> 0"
    and "is_trunk_ready d" and "dg_tcp_port d \<noteq> 0" and "dg_health d = nh_healthy"
    and "dg_availability d = av_available"
  shows "\<exists>s'. serve_datagram s d now = (s', None) \<and>
    leased_node (li_router s') (datagram_identity d) (dg_control_epoch d) (dg_lease_token d)"
proof -
  have "\<not> dg_control_seq d \<le> sq" using assms(3) by simp
  then show ?thesis using assms(1,2,4-8)
    by (auto simp: serve_datagram_def invited_node_def leased_node_def ingest_datagram_def Let_def
        dispatch_message_def on_lease_ack_def commit_seen_def word_gt_0)
qed

lemma serve_ack_leased:
  assumes "leased_node (li_router s) (datagram_identity d) (dg_control_epoch d) token"
    and "dg_message_type d = cm_lease_ack"
  shows "serve_datagram s d now = (s, None)"
  using assms
  by (auto simp: serve_datagram_def leased_node_def ingest_datagram_def Let_def
      dispatch_message_def on_lease_ack_def)

end
