(* ===== verification/Lease_Link.thy ===== *)
theory Lease_Link
  imports Lease_Protocol
begin

unbundle bit_operations_syntax

text \<open>
  Client and issuer composed over a lossy link: a concrete operating system (an interpretation
  of \<open>running_clock\<close>) whose packets pass through the datagram codec, and the invitation phase of
  the client on it.
\<close>

section \<open>A client and an issuer on a lossy link\<close>

text \<open>
  A concrete operating system for the client: one issuer at the other end, which answers at
  once. \<open>lost k d\<close> says that the \<open>k\<close>-th packet on the link, carrying datagram \<open>d\<close>, is lost, in
  either direction. A receive without a waiting packet takes the 20 ms of the receive timeout.
\<close>

record link =
  ln_issuer :: lease_issuer
  ln_inbox :: "bytes list"
  ln_clock :: nat
  ln_count :: nat

type_synonym loss = "nat \<Rightarrow> udp_control_datagram \<Rightarrow> bool"

definition link_reply :: "loss \<Rightarrow> link \<Rightarrow> udp_control_datagram \<Rightarrow> link" where
  "link_reply lost l v =
     (let l' = l\<lparr>ln_count := ln_count l + 1\<rparr>
      in if lost (ln_count l) v then l'
         else l'\<lparr>ln_inbox := ln_inbox l' @ [encode_control_datagram v]\<rparr>)"

definition link_deliver :: "loss \<Rightarrow> link \<Rightarrow> bytes \<Rightarrow> link" where
  "link_deliver lost l buf =
     (case decode_control_datagram buf of None \<Rightarrow> l
      | Some d \<Rightarrow>
          let l' = l\<lparr>ln_count := ln_count l + 1\<rparr> in
          if lost (ln_count l) d then l'
          else case serve_datagram (ln_issuer l) d (of_nat (ln_clock l div 1000)) of
            (s, None) \<Rightarrow> l'\<lparr>ln_issuer := s\<rparr>
          | (s, Some v) \<Rightarrow> link_reply lost (l'\<lparr>ln_issuer := s\<rparr>) v)"

definition link_os :: "loss \<Rightarrow> link udp_os" where
  "link_os lost = \<lparr>uo_open = (\<lambda>l. (l, Some 3)), uo_bind = (\<lambda>l _ _. (l, True)),
     uo_timeout = (\<lambda>l _ _. l), uo_sockname = (\<lambda>l _. Some 40000),
     uo_sendto = (\<lambda>l _ _ _ buf. (link_deliver lost l buf, int (length buf))),
     uo_recvfrom = (\<lambda>l _ _. case ln_inbox l of
         [] \<Rightarrow> (l\<lparr>ln_clock := ln_clock l + 20000000\<rparr>, - 1, [], [], 0)
       | p # ps \<Rightarrow> (l\<lparr>ln_inbox := ps, ln_clock := ln_clock l + 1\<rparr>, int (length p), p, ''127.0.0.1'', 5000)),
     uo_close = (\<lambda>l _. l), uo_steady_ns = (\<lambda>l. (l\<lparr>ln_clock := ln_clock l + 1\<rparr>, ln_clock l)),
     uo_wall_us = (\<lambda>l. (l, int (ln_clock l div 1000))), uo_random = (\<lambda>l. (l, 1))\<rparr>"

interpretation link: running_clock "link_os lost"
  by unfold_locales (simp add: link_os_def recv_datagram_def split: list.split prod.split)

lemma link_sel [simp]:
  "uo_open (link_os lost) l = (l, Some 3)" "uo_bind (link_os lost) l s p = (l, True)"
  "uo_timeout (link_os lost) l s t = l" "uo_sockname (link_os lost) l s = Some 40000"
  "uo_steady_ns (link_os lost) l = (l\<lparr>ln_clock := ln_clock l + 1\<rparr>, ln_clock l)"
  "uo_sendto (link_os lost) l s h p buf = (link_deliver lost l buf, int (length buf))"
  by (simp_all add: link_os_def)

definition stamped :: "udp_control_datagram \<Rightarrow> udp_control_datagram" where
  "stamped d = d\<lparr>dg_crc32 := calc_crc32 (datagram_body d)\<rparr>"

lemma decode_sent:
  assumes "datagram_acceptable d"
  shows "decode_control_datagram (encode_control_datagram d) = Some (stamped d)"
proof -
  have b: "datagram_body (stamped d) = datagram_body d" by (simp add: stamped_def datagram_body_def)
  then have "encode_control_datagram (stamped d) = encode_control_datagram d"
    by (simp add: encode_control_datagram_def)
  moreover have "datagram_acceptable (stamped d)"
    using assms by (simp add: stamped_def datagram_acceptable_def)
  moreover have "dg_crc32 (stamped d) = calc_crc32 (datagram_body (stamped d))"
    unfolding b by (simp add: stamped_def)
  ultimately show ?thesis using decode_encode_datagram [of "stamped d"] by simp
qed

lemma stamped_sel [simp]:
  "dg_message_type (stamped d) = dg_message_type d" "dg_node_id (stamped d) = dg_node_id d"
  "dg_runtime_id (stamped d) = dg_runtime_id d" "dg_endpoint_id (stamped d) = dg_endpoint_id d"
  "dg_control_epoch (stamped d) = dg_control_epoch d" "dg_control_seq (stamped d) = dg_control_seq d"
  "dg_lease_token (stamped d) = dg_lease_token d" "dg_tcp_port (stamped d) = dg_tcp_port d"
  "dg_health (stamped d) = dg_health d" "dg_availability (stamped d) = dg_availability d"
  "is_trunk_ready (stamped d) = is_trunk_ready d" "datagram_identity (stamped d) = datagram_identity d"
  by (simp_all add: stamped_def is_trunk_ready_def datagram_identity_def)

text \<open>Receiving on the link.\<close>

lemma link_recv_empty:
  "ln_inbox l = [] \<Longrightarrow> channel_is_open ch \<Longrightarrow>
     recv_datagram (link_os lost) l ch = (l\<lparr>ln_clock := ln_clock l + 20000000\<rparr>, None)"
  by (simp add: recv_datagram_def link_os_def)

lemma link_recv_one:
  "ln_inbox l = encode_control_datagram v # ps \<Longrightarrow> channel_is_open ch \<Longrightarrow> datagram_acceptable v \<Longrightarrow>
     recv_datagram (link_os lost) l ch =
       (l\<lparr>ln_inbox := ps, ln_clock := ln_clock l + 1\<rparr>, Some (stamped v, ''127.0.0.1'', 5000))"
  by (simp add: recv_datagram_def link_os_def decode_sent)

text \<open>Two links that differ at most in their clocks.\<close>

definition same_link :: "link \<Rightarrow> link \<Rightarrow> bool" where
  "same_link l m \<longleftrightarrow> ln_issuer m = ln_issuer l \<and> ln_inbox m = ln_inbox l \<and> ln_count m = ln_count l"

lemma poll_silence:
  assumes "ln_inbox l = []" and "channel_is_open (cl_channel c)"
  shows "\<exists>m. poll_invite (link_os lost) c deadline l = Some (m, None) \<and> same_link l m"
  using assms(1)
proof (induction "deadline - ln_clock l" arbitrary: l rule: less_induct)
  case less
  let ?l1 = "l\<lparr>ln_clock := ln_clock l + 1\<rparr>"
  let ?l2 = "?l1\<lparr>ln_clock := ln_clock ?l1 + 20000000\<rparr>"
  have r: "recv_datagram (link_os lost) ?l1 (cl_channel c) = (?l2, None)"
    using less.prems assms(2) by (intro link_recv_empty) simp_all
  show ?case
  proof (cases "ln_clock l < deadline")
    case True
    have "deadline - ln_clock ?l2 < deadline - ln_clock l" using True by simp
    from less.hyps [OF this] less.prems obtain m
      where "poll_invite (link_os lost) c deadline ?l2 = Some (m, None)" "same_link ?l2 m" by auto
    then show ?thesis using True r
      by (subst poll_invite.simps) (simp add: same_link_def)
  next
    case False
    then show ?thesis by (subst poll_invite.simps) (simp add: same_link_def)
  qed
qed

lemma wait_silence:
  assumes "ln_inbox l = []" and "channel_is_open (cl_channel c)"
  shows "\<exists>m. wait_invite (link_os lost) l c ms = Some (m, None) \<and> same_link l m"
proof -
  have "ln_inbox (l\<lparr>ln_clock := ln_clock l + 1\<rparr>) = []" using assms(1) by simp
  from poll_silence [OF this assms(2)] show ?thesis
    by (auto simp: wait_invite_def same_link_def)
qed

lemma wait_one:
  assumes "ln_inbox l = [encode_control_datagram v]" and "channel_is_open (cl_channel c)"
    and "datagram_acceptable v" and "invite_matches (cl_config c) v" and "ms \<noteq> 0"
  shows "\<exists>m. wait_invite (link_os lost) l c ms = Some (m, Some (stamped v)) \<and>
    same_link (l\<lparr>ln_inbox := []\<rparr>) m"
proof -
  let ?l2 = "l\<lparr>ln_clock := ln_clock l + 2\<rparr>"
  have r: "recv_datagram (link_os lost) ?l2 (cl_channel c) =
      (?l2\<lparr>ln_inbox := [], ln_clock := ln_clock ?l2 + 1\<rparr>, Some (stamped v, ''127.0.0.1'', 5000))"
    using assms(1-3) by (intro link_recv_one) simp_all
  have m: "invite_matches (cl_config c) (stamped v)" using assms(4) by (simp add: invite_matches_def)
  have "0 < unat ms" using assms(5) by (simp add: unat_gt_0)
  then have "ln_clock l + 1 < ln_clock l + unat ms * 1000000" by simp
  then show ?thesis using r m
    unfolding wait_invite_def Let_def by (subst poll_invite.simps) (simp add: same_link_def)
qed

section \<open>One packet\<close>

abbreviation (input) cl_id :: "lease_client \<Rightarrow> node_endpoint_identity" where
  "cl_id c \<equiv> lc_identity (cl_config c)"
abbreviation (input) cl_epoch :: "lease_client \<Rightarrow> u64" where
  "cl_epoch c \<equiv> lc_control_epoch (cl_config c)"
abbreviation (input) ln_router :: "link \<Rightarrow> control_plane_router" where
  "ln_router l \<equiv> li_router (ln_issuer l)"

definition client_ready :: "lease_client \<Rightarrow> bool" where
  "client_ready c \<longleftrightarrow> channel_is_open (cl_channel c) \<and> lc_control_host (cl_config c) \<noteq> [] \<and>
     lc_control_port (cl_config c) \<noteq> 0 \<and> lc_trunk_port (cl_config c) \<noteq> 0 \<and> node_id (cl_id c) \<noteq> 0"

lemma make_datagram_sel:
  assumes "make_datagram c ty = (c', d)"
  shows "c' = c\<lparr>cl_next_seq := cl_next_seq c + 1\<rparr>" "dg_message_type d = ty" "datagram_identity d = cl_id c"
    "dg_node_id d = node_id (cl_id c)" "dg_runtime_id d = runtime_id (cl_id c)"
    "dg_endpoint_id d = endpoint_id (cl_id c)"
    "dg_control_epoch d = cl_epoch c" "dg_control_seq d = cl_next_seq c" "dg_health d = nh_healthy"
    "dg_availability d = av_available" "is_trunk_ready d" "dg_tcp_port d = lc_trunk_port (cl_config c)"
    "1 \<le> ty \<Longrightarrow> ty \<le> 7 \<Longrightarrow> datagram_acceptable (d\<lparr>dg_lease_token := tok\<rparr>)"
    "1 \<le> ty \<Longrightarrow> ty \<le> 7 \<Longrightarrow> datagram_acceptable d"
  using assms unfolding make_datagram_def
  by (auto simp: set_trunk_ready_def datagram_identity_def is_trunk_ready_def empty_datagram_def
      datagram_acceptable_def)

lemma is_trunk_ready_token [simp]:
  "is_trunk_ready (d\<lparr>dg_lease_token := t\<rparr>) = is_trunk_ready d"
  "datagram_identity (d\<lparr>dg_lease_token := t\<rparr>) = datagram_identity d"
  by (simp_all add: is_trunk_ready_def datagram_identity_def)

lemma link_send:
  assumes "client_ready c" and "datagram_acceptable d"
  shows "send_control_datagram (link_os lost) l c d =
    (link_deliver lost l (encode_control_datagram d), True)"
  using assms by (simp add: send_control_datagram_def send_datagram_def client_ready_def Let_def)

lemma deliver_cases:
  assumes "datagram_acceptable d"
  shows "link_deliver lost l (encode_control_datagram d) =
    (let l' = l\<lparr>ln_count := ln_count l + 1\<rparr> in
     if lost (ln_count l) (stamped d) then l'
     else case serve_datagram (ln_issuer l) (stamped d) (of_nat (ln_clock l div 1000)) of
       (s, None) \<Rightarrow> l'\<lparr>ln_issuer := s\<rparr>
     | (s, Some v) \<Rightarrow> link_reply lost (l'\<lparr>ln_issuer := s\<rparr>) v)"
  by (simp add: link_deliver_def decode_sent [OF assms])

lemma reply_cases:
  "ln_issuer (link_reply lost l v) = ln_issuer l \<and>
   ((ln_inbox (link_reply lost l v) = ln_inbox l \<and> lost (ln_count l) v) \<or>
    ln_inbox (link_reply lost l v) = ln_inbox l @ [encode_control_datagram v] \<and> \<not> lost (ln_count l) v)"
  by (simp add: link_reply_def Let_def)

text \<open>What the issuer knows of the client while it looks for an invitation, and after.\<close>

definition inviting :: "link \<Rightarrow> lease_client \<Rightarrow> bool" where
  "inviting l c \<longleftrightarrow> fresh_for (ln_router l) (cl_id c) (cl_epoch c) \<or>
     (\<exists>tok sq. invited_node (ln_router l) (cl_id c) (cl_epoch c) tok sq \<and> sq < cl_next_seq c)"

definition offered :: "link \<Rightarrow> lease_client \<Rightarrow> u64 \<Rightarrow> bool" where
  "offered l c tok \<longleftrightarrow>
     (\<exists>sq. invited_node (ln_router l) (cl_id c) (cl_epoch c) tok sq \<and> sq < cl_next_seq c)"

definition granted :: "link \<Rightarrow> lease_client \<Rightarrow> u64 \<Rightarrow> bool" where
  "granted l c tok \<longleftrightarrow> leased_node (ln_router l) (cl_id c) (cl_epoch c) tok"

lemma seq_grows: "unat (cl_next_seq c) + 1 < 2 ^ 64 \<Longrightarrow> sq < cl_next_seq c \<or> sq = cl_next_seq c \<Longrightarrow>
    sq < cl_next_seq c + 1"
  using unat_add_lem [of "cl_next_seq c" 1] by (auto simp: word_less_nat_alt)

lemma invites_matches:
  assumes "invites v d" and "make_datagram c ty = (c', d0)" and "d = stamped d0" and "dg_lease_token v \<noteq> 0"
  shows "invite_matches (cl_config c) v"
  using assms(1,3,4) make_datagram_sel [OF assms(2)]
  by (simp add: invites_def invite_matches_def)

text \<open>The outcome of a HELLO in the invitation phase, on any link.\<close>

lemma hello_outcome:
  assumes "inviting l c" and "client_ready c" and "ln_inbox l = []"
    and "make_datagram c cm_node_hello = (c', d)" and "unat (cl_next_seq c) + 1 < 2 ^ 64"
    and "l' = link_deliver lost l (encode_control_datagram d)"
  shows "(ln_inbox l' = [] \<and> inviting l' c' \<and> \<not> (\<forall>k x. \<not> lost k x)) \<or>
    (\<exists>v. ln_inbox l' = [encode_control_datagram v] \<and> datagram_acceptable v \<and>
       invite_matches (cl_config c) v \<and> offered l' c' (dg_lease_token v))"
proof -
  note md = make_datagram_sel [OF assms(4)]
  have acc: "datagram_acceptable d" using md(14) by simp
  have n0: "dg_node_id d \<noteq> 0" using assms(2) md(4) by (simp add: client_ready_def)
  have sg: "sq < cl_next_seq c \<Longrightarrow> sq < cl_next_seq c'" "cl_next_seq c < cl_next_seq c'" for sq
    using seq_grows [OF assms(5)] md(1) by simp_all
  note dl = assms(6) [unfolded deliver_cases [OF acc] Let_def]
  let ?now = "of_nat (ln_clock l div 1000) :: u64"
  show ?thesis
  proof (cases "lost (ln_count l) (stamped d)")
    case True
    then have "l' = l\<lparr>ln_count := ln_count l + 1\<rparr>" using dl by simp
    then have "inviting l' c'" "ln_inbox l' = []"
      using assms(1,3) sg md(1) by (auto simp: inviting_def)
    with True show ?thesis by blast
  next
    case False
    obtain s' v sq where s: "serve_datagram (ln_issuer l) (stamped d) ?now = (s', Some v)"
      "invites v (stamped d)" "invited_node (li_router s') (cl_id c) (cl_epoch c) (dg_lease_token v) sq"
      "sq < cl_next_seq c'"
    proof (cases "fresh_for (ln_router l) (cl_id c) (cl_epoch c)")
      case True
      then show ?thesis
        using serve_hello_fresh [of "ln_issuer l" "stamped d" ?now] md n0 that sg(2) by auto
    next
      case False
      then obtain tok sq where "invited_node (ln_router l) (cl_id c) (cl_epoch c) tok sq" "sq < cl_next_seq c"
        using assms(1) by (auto simp: inviting_def)
      then show ?thesis
        using serve_hello_invited [of "ln_issuer l" "stamped d" tok sq ?now] md that sg(1) [of sq] by auto
    qed
    have l': "l' = link_reply lost (l\<lparr>ln_count := ln_count l + 1, ln_issuer := s'\<rparr>) v"
      using dl False s(1) by simp
    have off: "offered l' c' (dg_lease_token v)"
      using s(3,4) md(1) reply_cases [of lost "l\<lparr>ln_count := ln_count l + 1, ln_issuer := s'\<rparr>" v]
      by (auto simp: l' offered_def)
    then have inv: "inviting l' c'" by (auto simp: inviting_def offered_def)
    have "dg_lease_token v \<noteq> 0" using s(3) by (simp add: invited_node_def)
    with s(2) have m: "invite_matches (cl_config c) v" "datagram_acceptable v"
      using invites_matches [OF s(2) assms(4)] by (simp_all add: invites_def)
    from reply_cases [of lost "l\<lparr>ln_count := ln_count l + 1, ln_issuer := s'\<rparr>" v]
    show ?thesis using off inv m assms(3) by (auto simp: l')
  qed
qed

lemma same_link_keeps:
  "same_link l m \<Longrightarrow> inviting m c = inviting l c" "same_link l m \<Longrightarrow> offered m c t = offered l c t"
  "same_link l m \<Longrightarrow> granted m c t = granted l c t" "same_link l m \<Longrightarrow> ln_inbox m = ln_inbox l"
  by (simp_all add: same_link_def inviting_def offered_def granted_def)

lemma inbox_keeps:
  "offered (l\<lparr>ln_inbox := x\<rparr>) c t = offered l c t" "granted (l\<lparr>ln_inbox := x\<rparr>) c t = granted l c t"
  by (simp_all add: offered_def granted_def)

definition same_client :: "lease_client \<Rightarrow> lease_client \<Rightarrow> bool" where
  "same_client c c' \<longleftrightarrow> cl_config c' = cl_config c \<and> cl_channel c' = cl_channel c"

lemma same_client_ready: "same_client c c' \<Longrightarrow> client_ready c' = client_ready c"
  by (simp add: same_client_def client_ready_def)

lemma hello_phase:
  assumes "inviting l c" and "client_ready c" and "ln_inbox l = []"
    and "lc_retransmit_ms (cl_config c) \<noteq> 0" and "unat (cl_next_seq c) + n < 2 ^ 64"
    and "hello_attempts (link_os lost) n l c = Some (l', c', res)"
  shows "same_client c c' \<and> unat (cl_next_seq c') \<le> unat (cl_next_seq c) + n \<and>
    (\<forall>u. res = Inr u \<longrightarrow> ln_inbox l' = [] \<and> cl_lease_token c' \<noteq> 0 \<and> offered l' c' (cl_lease_token c')) \<and>
    ((\<forall>k d. \<not> lost k d) \<longrightarrow> 0 < n \<longrightarrow> res = Inr ())"
  using assms
proof (induction n arbitrary: l c)
  case 0
  then show ?case by (auto simp: same_client_def)
next
  case (Suc n)
  obtain c1 d where d: "make_datagram c cm_node_hello = (c1, d)" by fastforce
  note md = make_datagram_sel [OF d]
  have acc: "datagram_acceptable d" using md(14) by simp
  let ?l1 = "link_deliver lost l (encode_control_datagram d)"
  have sq: "unat (cl_next_seq c) + 1 < 2 ^ 64" using Suc.prems(5) by simp
  have u: "unat (cl_next_seq c1) = unat (cl_next_seq c) + 1"
    using sq md(1) unat_add_lem [of "cl_next_seq c" 1] by simp
  have sc: "same_client c c1" using md(1) by (simp add: same_client_def)
  then have r1: "client_ready c1" using Suc.prems(2) same_client_ready by blast
  have snd: "send_control_datagram (link_os lost) l c1 d = (?l1, True)" by (rule link_send [OF r1 acc])
  note run = Suc.prems(6) d snd
  from hello_outcome [OF Suc.prems(1-3) d sq refl]
  consider (lost) "ln_inbox ?l1 = []" "inviting ?l1 c1" "\<not> (\<forall>k x. \<not> lost k x)"
    | (got) v where "ln_inbox ?l1 = [encode_control_datagram v]" "datagram_acceptable v"
        "invite_matches (cl_config c) v" "offered ?l1 c1 (dg_lease_token v)" by blast
  then show ?case
  proof cases
    case lost
    have "channel_is_open (cl_channel c1)" using r1 by (simp add: client_ready_def)
    from wait_silence [OF lost(1) this] obtain m where
      m: "wait_invite (link_os lost) ?l1 c1 (lc_retransmit_ms (cl_config c1)) = Some (m, None)" "same_link ?l1 m"
      by blast
    have rec: "hello_attempts (link_os lost) n m c1 = Some (l', c', res)" using run m(1) by simp
    have "inviting m c1" "ln_inbox m = []" using same_link_keeps [OF m(2)] lost by simp_all
    from Suc.IH [OF this(1) r1 this(2) _ _ rec] Suc.prems(4,5) u sc
    show ?thesis using lost(3) by (auto simp: same_client_def)
  next
    case got
    have mt: "invite_matches (cl_config c1) v" using got(3) sc by (simp add: same_client_def)
    have "channel_is_open (cl_channel c1)" using r1 by (simp add: client_ready_def)
    moreover have "lc_retransmit_ms (cl_config c1) \<noteq> 0" using Suc.prems(4) sc by (simp add: same_client_def)
    ultimately obtain m where
      m: "wait_invite (link_os lost) ?l1 c1 (lc_retransmit_ms (cl_config c1)) = Some (m, Some (stamped v))"
      "same_link (?l1\<lparr>ln_inbox := []\<rparr>) m"
      using wait_one [OF got(1) _ got(2) mt] by blast
    have c': "c' = c1\<lparr>cl_lease_token := dg_lease_token v\<rparr>" "l' = m" "res = Inr ()" using run m(1) by simp_all
    have "dg_lease_token v \<noteq> 0" using got(3) by (simp add: invite_matches_def)
    moreover have "offered m c' (dg_lease_token v)"
      using same_link_keeps(2) [OF m(2)] got(4) by (simp add: inbox_keeps c' offered_def)
    moreover have "ln_inbox m = []" using same_link_keeps(4) [OF m(2)] by simp
    ultimately show ?thesis using sc u by (simp add: c' same_client_def)
  qed
qed

end
