(* ===== verification/Lease_Props.thy ===== *)
theory Lease_Props
  imports Lease_Link
begin

unbundle bit_operations_syntax

text \<open>
  What a lease is worth: an acquired lease binds a session, the handshake ends, the confirmation
  by silence trusts the network with its probe, and no two nodes hold the same lease.
\<close>

section \<open>The acknowledgement\<close>

definition loses_acks_only :: "loss \<Rightarrow> bool" where
  "loses_acks_only lost \<longleftrightarrow> (\<forall>k d. dg_message_type d \<noteq> cm_lease_ack \<longrightarrow> \<not> lost k d)"

lemma ack_outcome:
  assumes "offered l c tok \<or> granted l c tok" and "client_ready c"
    and "make_datagram c cm_lease_ack = (c', d)" and "unat (cl_next_seq c) + 1 < 2 ^ 64"
    and "l' = link_deliver lost l (encode_control_datagram (d\<lparr>dg_lease_token := tok\<rparr>))"
  shows "ln_inbox l' = ln_inbox l \<and> (offered l' c' tok \<or> granted l' c' tok) \<and>
    ((\<forall>k x. \<not> lost k x) \<longrightarrow> granted l' c' tok)"
proof -
  note md = make_datagram_sel [OF assms(3)]
  let ?d = "d\<lparr>dg_lease_token := tok\<rparr>"
  have acc: "datagram_acceptable ?d" using md(13) by simp
  have n0: "dg_node_id d \<noteq> 0" "lc_trunk_port (cl_config c) \<noteq> 0"
    using assms(2) md(4) by (simp_all add: client_ready_def)
  note dl = assms(5) [unfolded deliver_cases [OF acc] Let_def]
  let ?now = "of_nat (ln_clock l div 1000) :: u64"
  have keep: "offered l c tok \<Longrightarrow> offered l c' tok" "granted l c tok \<Longrightarrow> granted l c' tok"
    using seq_grows [OF assms(4)] md(1) by (auto simp: offered_def granted_def)
  show ?thesis
  proof (cases "lost (ln_count l) (stamped ?d)")
    case True
    then have "l' = l\<lparr>ln_count := ln_count l + 1\<rparr>" using dl by simp
    with True keep assms(1) show ?thesis by (auto simp: offered_def granted_def)
  next
    case False
    have "\<exists>s'. serve_datagram (ln_issuer l) (stamped ?d) ?now = (s', None) \<and>
        leased_node (li_router s') (cl_id c) (cl_epoch c) tok"
      using assms(1)
    proof
      assume "offered l c tok"
      then obtain sq where "invited_node (ln_router l) (cl_id c) (cl_epoch c) tok sq" "sq < cl_next_seq c"
        by (auto simp: offered_def)
      then show ?thesis using serve_ack_invited [of "ln_issuer l" "stamped ?d" sq ?now] md n0 by simp
    next
      assume g: "granted l c tok"
      then show ?thesis using serve_ack_leased [of "ln_issuer l" "stamped ?d" tok ?now] md
        by (simp add: granted_def)
    qed
    then obtain s' where "serve_datagram (ln_issuer l) (stamped ?d) ?now = (s', None)"
        "leased_node (li_router s') (cl_id c) (cl_epoch c) tok" by blast
    then show ?thesis using dl False md(1) by (simp add: granted_def)
  qed
qed

lemma probe_outcome:
  assumes "offered l c tok \<or> granted l c tok" and "client_ready c" and "ln_inbox l = []"
    and "make_datagram c cm_node_hello = (c', d)" and "unat (cl_next_seq c) + 1 < 2 ^ 64"
    and "l' = link_deliver lost l (encode_control_datagram d)"
    and spared: "loses_acks_only lost"
  shows "(ln_inbox l' = [] \<and> granted l' c' tok) \<or>
    (\<not> granted l c tok \<and> (\<exists>v. ln_inbox l' = [encode_control_datagram v] \<and> datagram_acceptable v \<and>
       invite_matches (cl_config c) v \<and> dg_lease_token v = tok \<and> offered l' c' tok))"
proof -
  note md = make_datagram_sel [OF assms(4)]
  have acc: "datagram_acceptable d" using md(14) by simp
  have nl: "\<not> lost (ln_count l) (stamped d)" using spared md(2) by (simp add: loses_acks_only_def)
  note dl = assms(6) [unfolded deliver_cases [OF acc] Let_def]
  let ?now = "of_nat (ln_clock l div 1000) :: u64"
  show ?thesis
  proof (cases "granted l c tok")
    case True
    then have "leased_node (ln_router l) (datagram_identity (stamped d)) (dg_control_epoch (stamped d)) tok"
      using md(3,7) by (simp add: granted_def)
    from serve_hello_leased [OF this, of ?now] obtain s' where
      "serve_datagram (ln_issuer l) (stamped d) ?now = (s', None)" "li_router s' = ln_router l"
      using md(2) by auto
    then show ?thesis using dl nl True md(1) assms(3) by (simp add: granted_def)
  next
    case False
    then obtain sq where i: "invited_node (ln_router l) (cl_id c) (cl_epoch c) tok sq" "sq < cl_next_seq c"
      using assms(1) by (auto simp: offered_def)
    then have "invited_node (ln_router l) (datagram_identity (stamped d)) (dg_control_epoch (stamped d)) tok sq"
      using md(3,7) by simp
    from serve_hello_invited [OF this, of ?now] obtain s' v where
      s: "serve_datagram (ln_issuer l) (stamped d) ?now = (s', Some v)" "invites v (stamped d)"
      "dg_lease_token v = tok" "invited_node (li_router s') (cl_id c) (cl_epoch c) tok sq"
      using md by auto
    let ?m = "l\<lparr>ln_count := ln_count l + 1, ln_issuer := s'\<rparr>"
    have l': "l' = link_reply lost ?m v" using dl nl s(1) by simp
    have "tok \<noteq> 0" using i by (simp add: invited_node_def)
    with s(2,3) have m: "invite_matches (cl_config c) v" "datagram_acceptable v"
      using invites_matches [OF s(2) assms(4)] by (simp_all add: invites_def)
    have "\<not> lost (ln_count ?m) v" using spared s(2) by (simp add: loses_acks_only_def invites_def)
    then have "ln_inbox l' = [encode_control_datagram v]" "ln_issuer l' = s'"
      using reply_cases [of lost ?m v] assms(3) by (auto simp: l')
    moreover have "sq < cl_next_seq c'" using seq_grows [OF assms(5)] i(2) md(1) by simp
    ultimately show ?thesis using False m s(3,4) md(1) by (auto simp: offered_def)
  qed
qed

lemma ack_phase:
  assumes "offered l c (cl_lease_token c) \<or> granted l c (cl_lease_token c)" and "client_ready c"
    and "ln_inbox l = []" and "lc_confirm_ms (cl_config c) \<noteq> 0" and "unat (cl_next_seq c) + 2 * n < 2 ^ 64"
    and "ack_attempts (link_os lost) n l c = Some (l', c', res)"
    and spared: "loses_acks_only lost"
  shows "same_client c c' \<and>
    (\<forall>u. res = Inr u \<longrightarrow> granted l' c' (cl_lease_token c') \<and> cl_active c') \<and>
    ((\<forall>k d. \<not> lost k d) \<longrightarrow> 0 < n \<longrightarrow> res = Inr ())"
  using assms(1-6)
proof (induction n arbitrary: l c)
  case 0
  then show ?case by (auto simp: same_client_def)
next
  case (Suc n)
  let ?tok = "cl_lease_token c"
  obtain c1 a where a: "make_datagram c cm_lease_ack = (c1, a)" by fastforce
  obtain c2 d where d: "make_datagram c1 cm_node_hello = (c2, d)" by fastforce
  note ma = make_datagram_sel [OF a] and md = make_datagram_sel [OF d]
  have sc: "same_client c c1" "same_client c c2" "cl_lease_token c1 = ?tok" "cl_lease_token c2 = ?tok"
    using ma(1) md(1) by (simp_all add: same_client_def)
  have rd: "client_ready c1" "client_ready c2" using Suc.prems(2) sc same_client_ready by blast+
  have s0: "unat (cl_next_seq c) + 1 < 2 ^ 64" using Suc.prems(5) by simp
  have u1: "unat (cl_next_seq c1) = unat (cl_next_seq c) + 1"
    using s0 ma(1) unat_add_lem [of "cl_next_seq c" 1] by simp
  then have s1: "unat (cl_next_seq c1) + 1 < 2 ^ 64" using Suc.prems(5) by simp
  then have u2: "unat (cl_next_seq c2) = unat (cl_next_seq c) + 2"
    using md(1) u1 unat_add_lem [of "cl_next_seq c1" 1] by simp
  let ?a = "a\<lparr>dg_lease_token := ?tok\<rparr>"
  let ?l1 = "link_deliver lost l (encode_control_datagram ?a)"
  let ?l2 = "link_deliver lost ?l1 (encode_control_datagram d)"
  have acc: "datagram_acceptable ?a" "datagram_acceptable d" using ma(13) md(14) by simp_all
  have snd: "send_control_datagram (link_os lost) l c1 ?a = (?l1, True)"
    "send_control_datagram (link_os lost) ?l1 c2 d = (?l2, True)"
    using link_send [OF rd(1) acc(1)] link_send [OF rd(2) acc(2)] by simp_all
  have cm: "lc_confirm_ms (cl_config c1) \<noteq> 0" "lc_confirm_ms (cl_config c2) \<noteq> 0"
    using Suc.prems(4) sc by (simp_all add: same_client_def)
  note run = Suc.prems(6) a snd d cm sc
  from ack_outcome [OF Suc.prems(1,2) a s0 refl, where lost = lost]
  have o1: "ln_inbox ?l1 = []" "offered ?l1 c1 ?tok \<or> granted ?l1 c1 ?tok"
    "(\<forall>k x. \<not> lost k x) \<longrightarrow> granted ?l1 c1 ?tok" using Suc.prems(3) by auto
  have op: "channel_is_open (cl_channel c2)" using rd(2) by (simp add: client_ready_def)
  from probe_outcome [OF o1(2) rd(1) o1(1) d s1 refl spared]
  consider (silent) "ln_inbox ?l2 = []" "granted ?l2 c2 ?tok"
    | (again) v where "\<not> granted ?l1 c1 ?tok" "ln_inbox ?l2 = [encode_control_datagram v]"
        "datagram_acceptable v" "invite_matches (cl_config c1) v" "dg_lease_token v = ?tok"
        "offered ?l2 c2 ?tok" by blast
  then show ?case
  proof cases
    case silent
    from wait_silence [OF silent(1) op] obtain m where
      m: "wait_invite (link_os lost) ?l2 c2 (lc_confirm_ms (cl_config c2)) = Some (m, None)" "same_link ?l2 m"
      by blast
    have "c' = c2\<lparr>cl_active := True\<rparr>" "l' = m" "res = Inr ()" using run m(1) by simp_all
    moreover have "granted m c2 ?tok" using same_link_keeps(3) [OF m(2)] silent(2) by simp
    ultimately show ?thesis using sc by (simp add: same_client_def granted_def)
  next
    case again
    have mt: "invite_matches (cl_config c2) v" using again(4) sc by (simp add: same_client_def)
    from wait_one [OF again(2) op again(3) mt cm(2)] obtain m where
      m: "wait_invite (link_os lost) ?l2 c2 (lc_confirm_ms (cl_config c2)) = Some (m, Some (stamped v))"
      "same_link (?l2\<lparr>ln_inbox := []\<rparr>) m" by blast
    have rec: "ack_attempts (link_os lost) n m c2 = Some (l', c', res)" using run m(1) again(5) by simp
    have "offered m c2 (cl_lease_token c2)" "ln_inbox m = []"
      using same_link_keeps(2,4) [OF m(2)] again(6) sc by (simp_all add: inbox_keeps)
    from Suc.IH [OF disjI1 [OF this(1)] rd(2) this(2) cm(2) _ rec] Suc.prems(5) u2 sc again(1) o1(3)
    show ?thesis by (auto simp: same_client_def)
  qed
qed

section \<open>The whole handshake\<close>

lemma request_open:
  assumes "client_ready c"
  shows "request_invite os l c = hello_attempts os (unat (lc_max_attempts (cl_config c))) l
    (c\<lparr>cl_lease_token := 0, cl_active := False\<rparr>)"
  using assms by (simp add: request_invite_def ensure_open_def client_ready_def)

text \<open>A client without a socket opens one; the link's socket call cannot fail.\<close>

definition opened :: "lease_client \<Rightarrow> lease_client" where
  "opened c = (if channel_is_open (cl_channel c) then c
     else c\<lparr>cl_channel := (cl_channel c)\<lparr>ch_sock := 3, ch_bound_port := 40000\<rparr>\<rparr>)"

definition configured :: "lease_client \<Rightarrow> bool" where
  "configured c \<longleftrightarrow> lc_control_host (cl_config c) \<noteq> [] \<and> lc_control_port (cl_config c) \<noteq> 0 \<and>
     lc_trunk_port (cl_config c) \<noteq> 0 \<and> node_id (cl_id c) \<noteq> 0 \<and> runtime_id (cl_id c) \<noteq> 0 \<and> lc_max_attempts (cl_config c) \<noteq> 0 \<and>
     lc_retransmit_ms (cl_config c) \<noteq> 0 \<and> lc_confirm_ms (cl_config c) \<noteq> 0"

lemma request_on_link:
  assumes "configured c"
  shows "request_invite (link_os lost) l c =
    hello_attempts (link_os lost) (unat (lc_max_attempts (cl_config c))) l
      ((opened c)\<lparr>cl_lease_token := 0, cl_active := False\<rparr>)"
    and "client_ready ((opened c)\<lparr>cl_lease_token := 0, cl_active := False\<rparr>)"
  using assms
  by (simp_all add: request_invite_def ensure_open_def configured_def opened_def open_and_bind_def
      channel_close_def client_ready_def channel_is_open_def Let_def)

lemma acquire_on_link:
  assumes "configured c" and "fresh_for (ln_router l) (lc_identity (cl_config c)) (lc_control_epoch (cl_config c))"
    and "ln_inbox l = []" and "unat (cl_next_seq c) < 2 ^ 63"
    and "loses_acks_only lost"
  shows "\<exists>l' c' res. acquire (link_os lost) l c = Some (l', c', res) \<and>
    (res = Inr () \<longrightarrow> cl_active c' \<and> session_bind_is_valid (current_bind c') \<and>
       validate_tcp_session_binding (ln_router l') (bind_identity (current_bind c'))
         (bind_control_epoch (current_bind c')) (bind_lease_token (current_bind c'))) \<and>
    ((\<forall>k d. \<not> lost k d) \<longrightarrow> res = Inr ())"
proof -
  let ?c = "(opened c)\<lparr>cl_lease_token := 0, cl_active := False\<rparr>"
  let ?n = "unat (lc_max_attempts (cl_config c))"
  have n: "?n < 2 ^ 32" "0 < ?n"
    using assms(1) unat_bound [of "lc_max_attempts (cl_config c)"] by (simp_all add: configured_def unat_gt_0)
  have cf: "cl_config ?c = cl_config c" "cl_next_seq ?c = cl_next_seq c" by (simp_all add: opened_def)
  have inv: "inviting l ?c" using assms(2) cf by (simp add: inviting_def)
  obtain l1 c1 r1 where h: "hello_attempts (link_os lost) ?n l ?c = Some (l1, c1, r1)"
    using link.hello_returns by fastforce
  have rt: "lc_retransmit_ms (cl_config ?c) \<noteq> 0" using assms(1) cf by (simp add: configured_def)
  have b: "unat (cl_next_seq ?c) + ?n < 2 ^ 64" using assms(4) n cf by simp
  note hp = hello_phase [OF inv request_on_link(2) [OF assms(1)] assms(3) rt b h]
  have req: "request_invite (link_os lost) l c = Some (l1, c1, r1)"
    using request_on_link(1) [OF assms(1)] h by simp
  show ?thesis
  proof (cases r1)
    case (Inl err)
    then have "\<not> (\<forall>k d. \<not> lost k d)" using hp n by auto
    then show ?thesis using Inl req by (auto simp: acquire_def)
  next
    case (Inr u)
    with hp have o: "ln_inbox l1 = []" "cl_lease_token c1 \<noteq> 0" "offered l1 c1 (cl_lease_token c1)"
      and sc: "same_client ?c c1" and sq: "unat (cl_next_seq c1) \<le> unat (cl_next_seq c) + ?n"
      using cf by auto
    have cc: "cl_config c1 = cl_config c" using sc cf by (simp add: same_client_def)
    have rd: "client_ready c1" using same_client_ready [OF sc] request_on_link(2) [OF assms(1)] by simp
    obtain l2 c2 r2 where a: "ack_attempts (link_os lost) ?n l1 c1 = Some (l2, c2, r2)"
      using link.ack_returns by fastforce
    have cm: "lc_confirm_ms (cl_config c1) \<noteq> 0" using assms(1) cc by (simp add: configured_def)
    have b2: "unat (cl_next_seq c1) + 2 * ?n < 2 ^ 64" using sq assms(4) n by simp
    note ap = ack_phase [OF disjI1 [OF o(3)] rd o(1) cm b2 a assms(5)]
    have acq: "acquire (link_os lost) l c = Some (l2, c2, r2)"
      using req Inr a o(2) cc by (simp add: acquire_def ack_lease_def)
    have c2: "cl_config c2 = cl_config c" using ap cc by (simp add: same_client_def)
    have v: "cl_active c2 \<and> session_bind_is_valid (current_bind c2) \<and>
       validate_tcp_session_binding (ln_router l2) (bind_identity (current_bind c2))
         (bind_control_epoch (current_bind c2)) (bind_lease_token (current_bind c2))" if "r2 = Inr ()"
    proof -
      have g: "granted l2 c2 (cl_lease_token c2)" "cl_active c2" using ap that by auto
      then have "cl_lease_token c2 \<noteq> 0" by (simp add: granted_def leased_node_def)
      moreover have "node_id (lc_identity (cl_config c)) \<noteq> 0" "runtime_id (lc_identity (cl_config c)) \<noteq> 0" using assms(1) by (simp_all add: configured_def)
      ultimately show ?thesis using g leased_validates c2
        by (auto simp: current_bind_def session_bind_is_valid_def granted_def)
    qed
    show ?thesis using acq v ap n by blast
  qed
qed


text \<open>
  C11: acquiring a lease ends. When polling takes time (the clock reading after a receive is
  later than the one before it), the handshake returns, with a lease or with an error, whatever
  the network delivers.
\<close>

theorem acquire_terminates:
  assumes "\<And>w ch. snd (uo_steady_ns os w) <
      snd (uo_steady_ns os (fst (recv_datagram os (fst (uo_steady_ns os w)) ch)))"
  shows "\<exists>w' c' res. acquire os w c = Some (w', c', res)"
proof -
  have "running_clock os" using assms by (rule running_clock.intro)
  then show ?thesis by (rule running_clock.acquire_returns)
qed

section \<open>The limits of the confirmation\<close>

text \<open>
  C14: silence is not a confirmation when the probe is lost too. When an invited client's
  LEASE_ACK and the HELLO that probes for it are both lost, the client takes the silence for the
  confirmation: it reports success and is active, while the issuer still has it as invited and
  refuses every binding for its lease.
\<close>

theorem lost_probe_confirms:
  assumes "offered l c (cl_lease_token c)" and "client_ready c" and "ln_inbox l = []"
    and "lc_max_attempts (cl_config c) \<noteq> 0" and "lc_confirm_ms (cl_config c) \<noteq> 0"
    and "\<forall>k d. ln_count l \<le> k \<longrightarrow> lost k d"
  shows "\<exists>l' c'. ack_lease (link_os lost) l c = Some (l', c', Inr ()) \<and> cl_active c' \<and>
    \<not> validate_tcp_session_binding (ln_router l') (bind_identity (current_bind c'))
        (bind_control_epoch (current_bind c')) (bind_lease_token (current_bind c'))"
proof -
  let ?tok = "cl_lease_token c"
  obtain n where n: "unat (lc_max_attempts (cl_config c)) = Suc n"
    using assms(4) by (cases "unat (lc_max_attempts (cl_config c))") (simp_all add: unat_eq_0)
  obtain c1 a where a: "make_datagram c cm_lease_ack = (c1, a)" by fastforce
  obtain c2 d where d: "make_datagram c1 cm_node_hello = (c2, d)" by fastforce
  note ma = make_datagram_sel [OF a] and md = make_datagram_sel [OF d]
  have sc: "same_client c c1" "same_client c c2" "cl_lease_token c1 = ?tok" "cl_lease_token c2 = ?tok"
    using ma(1) md(1) by (simp_all add: same_client_def)
  have rd: "client_ready c1" "client_ready c2" using assms(2) sc same_client_ready by blast+
  let ?a = "a\<lparr>dg_lease_token := ?tok\<rparr>"
  let ?l1 = "link_deliver lost l (encode_control_datagram ?a)"
  let ?l2 = "link_deliver lost ?l1 (encode_control_datagram d)"
  have acc: "datagram_acceptable ?a" "datagram_acceptable d" using ma(13) md(14) by simp_all
  have l1: "?l1 = l\<lparr>ln_count := ln_count l + 1\<rparr>"
    using deliver_cases [OF acc(1), of lost l] assms(6) by (simp add: Let_def)
  have l2: "?l2 = l\<lparr>ln_count := ln_count l + 2\<rparr>"
    using deliver_cases [OF acc(2), of lost ?l1] assms(6) by (simp add: Let_def l1)
  have snd: "send_control_datagram (link_os lost) l c1 ?a = (?l1, True)"
    "send_control_datagram (link_os lost) ?l1 c2 d = (?l2, True)"
    using link_send [OF rd(1) acc(1)] link_send [OF rd(2) acc(2)] by simp_all
  have ib: "ln_inbox ?l2 = []" using l2 assms(3) by simp
  have "channel_is_open (cl_channel c2)" using rd(2) by (simp add: client_ready_def)
  from wait_silence [OF ib this] obtain m where
    m: "wait_invite (link_os lost) ?l2 c2 (lc_confirm_ms (cl_config c2)) = Some (m, None)" "same_link ?l2 m"
    by blast
  have cm: "lc_confirm_ms (cl_config c1) \<noteq> 0" using assms(5) sc by (simp add: same_client_def)
  obtain sq where iv: "invited_node (ln_router l) (cl_id c) (cl_epoch c) ?tok sq"
    using assms(1) by (auto simp: offered_def)
  then have t0: "?tok \<noteq> 0" by (simp add: invited_node_def)
  have "ack_lease (link_os lost) l c = Some (m, c2\<lparr>cl_active := True\<rparr>, Inr ())"
    using t0 n a d snd cm sc m(1) by (simp add: ack_lease_def)
  moreover have "ln_router m = ln_router l" using m(2) l2 by (simp add: same_link_def)
  moreover have "\<not> validate_tcp_session_binding (ln_router l) (cl_id c) (cl_epoch c) ?tok"
    using iv by (auto simp: invited_node_def validate_tcp_session_binding_def)
  ultimately show ?thesis using sc by (simp add: current_bind_def same_client_def)
qed

section \<open>Leases of different nodes differ\<close>

inductive issuer_step :: "lease_issuer \<Rightarrow> lease_issuer \<Rightarrow> bool" where
  issuer_serves: "serve_datagram s d now = (s', v) \<Longrightarrow> issuer_step s s'"
| issuer_sweeps: "issuer_step s (s\<lparr>li_router := fst (sweep_stale_nodes (li_router s) now t1 t2)\<rparr>)"

definition node_token :: "control_plane_router \<Rightarrow> node_endpoint_identity \<Rightarrow> u64" where
  "node_token r i = (case lookup (nodes r) i of None \<Rightarrow> 0 | Some n \<Rightarrow> nd_active_lease_token n)"

definition tokens_inv :: "lease_issuer \<Rightarrow> bool" where
  "tokens_inv s \<longleftrightarrow>
     (\<forall>i. node_token (li_router s) i \<le> li_lease_counter s) \<and>
     (\<forall>i j. i \<noteq> j \<longrightarrow> node_token (li_router s) i \<noteq> 0 \<longrightarrow>
        node_token (li_router s) i \<noteq> node_token (li_router s) j)"

text \<open>Tokens that only disappear, or become the fresh counter value for one node.\<close>

lemma tokens_shrink:
  assumes "tokens_inv s" and "li_lease_counter s \<le> li_lease_counter t"
    and "\<And>i. node_token (li_router t) i = node_token (li_router s) i \<or> node_token (li_router t) i = 0"
  shows "tokens_inv t"
  unfolding tokens_inv_def
proof (intro conjI allI impI)
  fix i show "node_token (li_router t) i \<le> li_lease_counter t"
    using assms(1,2) assms(3) [of i] order_trans [of "node_token (li_router s) i" "li_lease_counter s" "li_lease_counter t"]
    by (auto simp: tokens_inv_def)
next
  fix i j assume ij: "i \<noteq> j" "node_token (li_router t) i \<noteq> 0"
  then have "node_token (li_router t) i = node_token (li_router s) i" "node_token (li_router s) i \<noteq> 0"
    using assms(3) [of i] by auto
  moreover from this have "node_token (li_router s) i \<noteq> node_token (li_router s) j"
    using assms(1) ij(1) unfolding tokens_inv_def by blast
  ultimately show "node_token (li_router t) i \<noteq> node_token (li_router t) j"
    using assms(3) [of j] ij(2) by metis
qed

lemma tokens_new:
  assumes "tokens_inv s" and "li_lease_counter s < li_lease_counter t"
    and "\<And>j. j \<noteq> i \<Longrightarrow> node_token (li_router t) j = node_token (li_router s) j"
    and "node_token (li_router t) i = li_lease_counter t"
  shows "tokens_inv t"
  unfolding tokens_inv_def
proof (intro conjI allI impI)
  have le: "node_token (li_router s) j < li_lease_counter t" for j
    using assms(1,2) by (auto simp: tokens_inv_def intro: le_less_trans)
  fix j show "node_token (li_router t) j \<le> li_lease_counter t"
    using assms(3) [of j] assms(4) le [of j] by (cases "j = i") simp_all
  fix k assume jk: "j \<noteq> k" "node_token (li_router t) j \<noteq> 0"
  show "node_token (li_router t) j \<noteq> node_token (li_router t) k"
  proof (cases "j = i \<or> k = i")
    case True
    with jk assms(3) [of j] assms(3) [of k] assms(4) le [of j] le [of k] show ?thesis by auto
  next
    case False
    with jk assms(1) assms(3) [of j] assms(3) [of k] show ?thesis by (auto simp: tokens_inv_def)
  qed
qed

lemma ingest_tokens:
  "node_token (fst (ingest_datagram r d now)) i = node_token r i \<or>
   node_token (fst (ingest_datagram r d now)) i = 0"
proof -
  have "nd_active_lease_token n' = nd_active_lease_token n \<or> nd_active_lease_token n' = 0"
    if "dispatch_message n d now = Some (n', e)" for n n' e
    using that by (auto simp: dispatch_message_def on_node_hello_def on_lease_ack_def on_heartbeat_def
        on_status_def on_pong_def commit_seen_def Let_def split: if_split_asm)
  then show ?thesis
    by (auto simp: ingest_datagram_def node_token_def node_from_hello_def Let_def split: option.split)
qed

lemma issue_tokens:
  "(\<forall>j. j \<noteq> i \<longrightarrow> node_token (fst (issue_invite r i t)) j = node_token r j) \<and>
   (snd (issue_invite r i t) = None \<longrightarrow> fst (issue_invite r i t) = r) \<and>
   (snd (issue_invite r i t) \<noteq> None \<longrightarrow> node_token (fst (issue_invite r i t)) i = t)"
  by (auto simp: issue_invite_def node_token_def Let_def split: option.split)

lemma reissue_tokens: "node_token (fst (reissue_invite r i ep)) j = node_token r j"
  by (auto simp: reissue_invite_def node_token_def Let_def split: option.split)

lemma sweep_tokens:
  "node_token (fst (sweep_stale_nodes r now t1 t2)) i = node_token r i \<or>
   node_token (fst (sweep_stale_nodes r now t1 t2)) i = 0"
  by (auto simp: sweep_stale_nodes_def node_token_def sweep_node_def Let_def split: option.split)

lemma issuer_step_tokens:
  assumes "issuer_step s t" and "tokens_inv s" and "unat (li_lease_counter s) + 1 < 2 ^ 64"
  shows "tokens_inv t \<and> unat (li_lease_counter t) \<le> unat (li_lease_counter s) + 1"
  using assms(1)
proof cases
  case (issuer_sweeps now t1 t2)
  have "tokens_inv (s\<lparr>li_router := fst (sweep_stale_nodes (li_router s) now t1 t2)\<rparr>)"
    by (rule tokens_shrink [OF assms(2)]) (use sweep_tokens in simp_all)
  then show ?thesis using issuer_sweeps by simp
next
  case (issuer_serves d now v)
  let ?s1 = "s\<lparr>li_router := fst (ingest_datagram (li_router s) d now)\<rparr>"
  let ?c = "li_lease_counter s + 1"
  have u: "unat ?c = unat (li_lease_counter s) + 1" using assms(3) unat_add_lem [of "li_lease_counter s" 1] by simp
  then have c0: "?c \<noteq> 0" and lt: "li_lease_counter s < ?c"
    by (auto simp: word_less_nat_alt dest: arg_cong [of _ 0 unat])
  have i1: "tokens_inv ?s1"
    by (rule tokens_shrink [OF assms(2)]) (use ingest_tokens in simp_all)
  show ?thesis
  proof (cases "dg_message_type d = cm_node_hello")
    case False
    then have "t = ?s1" using issuer_serves by (simp add: serve_datagram_def)
    then show ?thesis using i1 by simp
  next
    case True
    let ?i = "datagram_identity d" and ?r = "li_router ?s1"
    have nt: "next_lease_token ?s1 = (?s1\<lparr>li_lease_counter := ?c\<rparr>, ?c)"
      using c0 by (simp add: next_lease_token_def Let_def)
    show ?thesis
    proof (cases "snd (issue_invite ?r ?i ?c)")
      case None
      obtain r' where r': "issue_invite ?r ?i ?c = (r', None)" using None by (cases "issue_invite ?r ?i ?c") simp
      then have "r' = ?r" using issue_tokens [of ?i ?r ?c] by simp
      with r' have t: "t = ?s1\<lparr>li_lease_counter := ?c, li_router := fst (reissue_invite ?r ?i (dg_control_epoch d))\<rparr>"
        using issuer_serves True nt by (simp add: serve_datagram_def Let_def split: prod.split_asm)
      have "tokens_inv t" unfolding t
        by (rule tokens_shrink [OF i1]) (use lt reissue_tokens in simp_all)
      then show ?thesis using t u by simp
    next
      case (Some w)
      obtain r' where r': "issue_invite ?r ?i ?c = (r', Some w)" using Some by (cases "issue_invite ?r ?i ?c") simp
      then have t: "t = ?s1\<lparr>li_lease_counter := ?c, li_router := r'\<rparr>"
        using issuer_serves True nt by (simp add: serve_datagram_def Let_def)
      have "tokens_inv t" unfolding t
        by (rule tokens_new [OF i1, where i = ?i])
          (use lt issue_tokens [of ?i ?r ?c] r' in simp_all)
      then show ?thesis using t u by simp
    qed
  qed
qed

fun issuer_run :: "lease_issuer list \<Rightarrow> bool" where
  "issuer_run [] = True"
| "issuer_run [s] = True"
| "issuer_run (s # t # ss) = (issuer_step s t \<and> issuer_run (t # ss))"

lemma issuer_run_tokens:
  assumes "issuer_run (s # ss)" and "tokens_inv s" and "unat (li_lease_counter s) + length ss < 2 ^ 64"
  shows "tokens_inv (last (s # ss))"
  using assms
proof (induction ss arbitrary: s)
  case (Cons t ss)
  from issuer_step_tokens [of s t] Cons.prems have "tokens_inv t"
    "unat (li_lease_counter t) \<le> unat (li_lease_counter s) + 1" by auto
  with Cons.IH [of t] Cons.prems show ?case by simp
qed simp

text \<open>
  C9: no two nodes share a lease. An issuer starts with a counter below 2 ^ 63; during its
  first 2 ^ 63 datagrams and sweeps, two bindings the control plane validates for different
  nodes never carry the same lease token.
\<close>

theorem leases_distinct:
  assumes "issuer_run (s # ss)" and "li_router s = new_router" and "unat (li_lease_counter s) < 2 ^ 63"
    and "length ss < 2 ^ 63" and "i \<noteq> j"
    and "validate_tcp_session_binding (li_router (last (s # ss))) i ep tok"
    and "validate_tcp_session_binding (li_router (last (s # ss))) j ep' tok'"
  shows "tok \<noteq> tok'"
proof -
  have "tokens_inv s" using assms(2) by (simp add: tokens_inv_def node_token_def new_router_def)
  then have inv: "tokens_inv (last (s # ss))"
    by (rule issuer_run_tokens [OF assms(1)]) (use assms(3,4) in simp)
  have tk: "node_token r k = t \<and> t \<noteq> 0" if "validate_tcp_session_binding r k e t" for r k e t
    using that by (auto simp: validate_tcp_session_binding_def node_token_def split: option.splits)
  from tk [OF assms(6)] tk [OF assms(7)] inv assms(5) show ?thesis
    unfolding tokens_inv_def by metis
qed

end
