(* ===== verification/Lease_Examples.thy ===== *)
theory Lease_Examples
  imports Lease_Props
begin

unbundle bit_operations_syntax

text \<open>
  A client on a link, the same link broken after the invitation, and two nodes at one issuer:
  concrete states that meet the hypotheses of the lease properties.
\<close>

section \<open>A client on the link\<close>

definition ex_lease_config :: lease_client_config where
  "ex_lease_config = \<lparr>lc_control_host = ''127.0.0.1'', lc_control_port = 5000,
     lc_identity = \<lparr>node_id = 7, runtime_id = 9, endpoint_id = 2\<rparr>, lc_control_epoch = 3,
     lc_trunk_port = 6000, lc_retransmit_ms = 500, lc_max_attempts = 6, lc_confirm_ms = 250,
     lc_enable_sl1 = False, lc_sl1_key_id = 1, lc_sl1_key = []\<rparr>"

definition ex_client :: lease_client where
  "ex_client = \<lparr>cl_config = ex_lease_config, cl_channel = new_channel, cl_next_seq = 1,
     cl_lease_token = 0, cl_active = False\<rparr>"

definition ex_link :: link where
  "ex_link = \<lparr>ln_issuer = new_issuer, ln_inbox = [], ln_clock = 0, ln_count = 0\<rparr>"

definition ex_reliable :: loss where
  "ex_reliable k d = False"

lemma ex_client_made:
  "new_lease_client (link_os ex_reliable) ex_link ex_lease_config = Some (ex_link, ex_client)"
  by (simp add: new_lease_client_def ex_lease_config_def ex_client_def)


lemma acquire_terminates_witness:
  "snd (uo_steady_ns (link_os ex_reliable) ex_link) <
     snd (uo_steady_ns (link_os ex_reliable)
       (fst (recv_datagram (link_os ex_reliable) (fst (uo_steady_ns (link_os ex_reliable) ex_link)) new_channel))) \<and>
   (\<exists>l c res. acquire (link_os ex_reliable) ex_link ex_client = Some (l, c, res))"
proof -
  have t: "snd (uo_steady_ns (link_os ex_reliable) l) <
      snd (uo_steady_ns (link_os ex_reliable)
        (fst (recv_datagram (link_os ex_reliable) (fst (uo_steady_ns (link_os ex_reliable) l)) ch)))" for l ch
    by (rule link.poll_takes_time)
  then show ?thesis using acquire_terminates [of "link_os ex_reliable"] by blast
qed

section \<open>A link that breaks after the invitation\<close>

definition ex_invited_client :: lease_client where
  "ex_invited_client = ex_client\<lparr>cl_channel := \<lparr>ch_sock = 3, ch_bound_port = 40000\<rparr>,
     cl_next_seq := 2, cl_lease_token := 1\<rparr>"

definition ex_invited_node :: control_plane_node_state where
  "ex_invited_node = (node_from_hello (lc_identity ex_lease_config)
       (snd (make_datagram ex_client cm_node_hello)) 0)
     \<lparr>nd_state := Invited, nd_active_lease_token := 1\<rparr>"

definition ex_invited_link :: link where
  "ex_invited_link = ex_link\<lparr>ln_issuer := \<lparr>li_router =
     new_router\<lparr>nodes := [(lc_identity ex_lease_config, ex_invited_node)]\<rparr>, li_lease_counter = 1\<rparr>, ln_count := 2\<rparr>"

definition ex_breaks :: loss where
  "ex_breaks k d \<longleftrightarrow> 2 \<le> k"

lemma ex_invited_node_sel:
  "nd_state ex_invited_node = Invited" "nd_active_lease_token ex_invited_node = 1"
  "nd_last_control_epoch ex_invited_node = 3" "nd_last_inbound_seq ex_invited_node = 1"
  by (simp_all add: ex_invited_node_def node_from_hello_def make_datagram_def set_trunk_ready_def ex_client_def
      ex_lease_config_def)

lemma lost_probe_confirms_witness:
  "\<exists>l c. ack_lease (link_os ex_breaks) ex_invited_link ex_invited_client = Some (l, c, Inr ()) \<and>
     cl_active c \<and>
     \<not> validate_tcp_session_binding (ln_router l) (bind_identity (current_bind c))
         (bind_control_epoch (current_bind c)) (bind_lease_token (current_bind c))"
proof (rule lost_probe_confirms)
  show "offered ex_invited_link ex_invited_client (cl_lease_token ex_invited_client)"
    by (simp add: offered_def invited_node_def ex_invited_link_def ex_link_def ex_invited_client_def
        ex_client_def ex_invited_node_sel)
      (simp add: ex_lease_config_def)
  show "client_ready ex_invited_client"
    by (simp add: client_ready_def ex_invited_client_def ex_client_def ex_lease_config_def channel_is_open_def)
qed (simp_all add: ex_invited_link_def ex_link_def ex_invited_client_def ex_client_def ex_lease_config_def
    ex_breaks_def)

section \<open>Two nodes and one issuer\<close>

definition ex_node_datagram :: "u64 \<Rightarrow> control_message_type \<Rightarrow> u64 \<Rightarrow> u64 \<Rightarrow> udp_control_datagram" where
  "ex_node_datagram n ty sq tok = (empty_datagram\<lparr>dg_message_type := ty, dg_node_id := n, dg_runtime_id := 2,
     dg_control_seq := sq, dg_control_epoch := 5, dg_availability := av_available,
     dg_health := nh_healthy, dg_tcp_port := 9000, dg_flags := 1, dg_lease_token := tok\<rparr>)"

definition ex_serve :: "lease_issuer \<Rightarrow> udp_control_datagram \<Rightarrow> lease_issuer" where
  "ex_serve s d = fst (serve_datagram s d 100)"

definition ex_issuer1 :: lease_issuer where
  "ex_issuer1 = ex_serve (ex_serve new_issuer (ex_node_datagram 1 cm_node_hello 1 0)) (ex_node_datagram 1 cm_lease_ack 2 1)"

definition ex_issuer2 :: lease_issuer where
  "ex_issuer2 = ex_serve (ex_serve ex_issuer1 (ex_node_datagram 2 cm_node_hello 1 0)) (ex_node_datagram 2 cm_lease_ack 2 2)"

definition ex_node_id :: "u64 \<Rightarrow> node_endpoint_identity" where
  "ex_node_id n = \<lparr>node_id = n, runtime_id = 2, endpoint_id = 0\<rparr>"

definition ex_leased :: "u64 \<Rightarrow> u64 \<Rightarrow> control_plane_node_state" where
  "ex_leased n tok = (node_from_hello (ex_node_id n) (ex_node_datagram n cm_node_hello 1 0) 100)
     \<lparr>nd_state := Active, nd_active_lease_token := tok, nd_last_outbound_seq := 1, nd_last_inbound_seq := 2\<rparr>"

lemma ex_node_datagram_sel [simp]:
  "datagram_identity (ex_node_datagram n ty sq tok) = ex_node_id n"
  "dg_message_type (ex_node_datagram n ty sq tok) = ty" "dg_control_seq (ex_node_datagram n ty sq tok) = sq"
  "dg_lease_token (ex_node_datagram n ty sq tok) = tok" "dg_node_id (ex_node_datagram n ty sq tok) = n"
  "dg_control_epoch (ex_node_datagram n ty sq tok) = 5" "dg_tcp_port (ex_node_datagram n ty sq tok) = 9000"
  "is_trunk_ready (ex_node_datagram n ty sq tok)" "dg_health (ex_node_datagram n ty sq tok) = nh_healthy"
  "dg_availability (ex_node_datagram n ty sq tok) = av_available"
  "node_id (ex_node_id n) = n" "ex_node_id n = ex_node_id m \<longleftrightarrow> n = m"
  by (simp_all add: ex_node_datagram_def datagram_identity_def ex_node_id_def is_trunk_ready_def empty_datagram_def)

definition ex_offered :: "u64 \<Rightarrow> u64 \<Rightarrow> control_plane_node_state" where
  "ex_offered n tok = (node_from_hello (ex_node_id n) (ex_node_datagram n cm_node_hello 1 0) 100)
     \<lparr>nd_state := Invited, nd_active_lease_token := tok, nd_last_outbound_seq := 1\<rparr>"

lemma ex_hello_served:
  assumes "lookup (nodes (li_router s)) (ex_node_id n) = None" and "n \<noteq> 0" and "li_lease_counter s + 1 = t" and "t \<noteq> 0"
  shows "li_lease_counter (ex_serve s (ex_node_datagram n cm_node_hello 1 0)) = t \<and>
    nodes (li_router (ex_serve s (ex_node_datagram n cm_node_hello 1 0))) =
      AList.update (ex_node_id n) (ex_offered n t) (nodes (li_router s))"
proof -
  let ?h = "ex_node_datagram n cm_node_hello 1 0"
  let ?n = "node_from_hello (ex_node_id n) ?h 100"
  have i: "fst (ingest_datagram (li_router s) ?h 100) =
      (li_router s)\<lparr>nodes := AList.update (ex_node_id n) ?n (nodes (li_router s))\<rparr>"
    using assms(1,2) by (simp add: ingest_datagram_def Let_def)
  have n: "nd_state ?n = Seen" "nd_last_outbound_seq ?n = 0" by (simp_all add: node_from_hello_def)
  show ?thesis using assms(2-4)
    by (simp add: ex_serve_def serve_datagram_def i next_lease_token_def issue_invite_def Let_def n ex_offered_def)
qed

lemma ex_ack_served:
  assumes "lookup (nodes (li_router s)) (ex_node_id n) = Some (ex_offered n t)" and "t \<noteq> 0" and "n \<noteq> 0"
  shows "li_lease_counter (ex_serve s (ex_node_datagram n cm_lease_ack 2 t)) = li_lease_counter s \<and>
    nodes (li_router (ex_serve s (ex_node_datagram n cm_lease_ack 2 t))) =
      AList.update (ex_node_id n) (ex_leased n t) (nodes (li_router s))"
proof -
  have n: "\<not> (2 :: u64) \<le> 1" by (simp add: word_le_nat_alt)
  show ?thesis
  using assms n
  by (simp add: ex_serve_def serve_datagram_def ingest_datagram_def Let_def ex_offered_def node_from_hello_def
      dispatch_message_def on_lease_ack_def commit_seen_def ex_leased_def)
qed

lemma ex_issuer1:
  "li_lease_counter ex_issuer1 = 1" "nodes (li_router ex_issuer1) = [(ex_node_id 1, ex_leased 1 1)]"
  using ex_hello_served [of new_issuer 1 1] ex_ack_served [of "ex_serve new_issuer (ex_node_datagram 1 cm_node_hello 1 0)" 1 1]
  by (simp_all add: ex_issuer1_def new_issuer_def new_router_def)

lemma ex_issuer2:
  "nodes (li_router ex_issuer2) = [(ex_node_id 1, ex_leased 1 1), (ex_node_id 2, ex_leased 2 2)]"
  using ex_hello_served [of ex_issuer1 2 2] ex_ack_served [of "ex_serve ex_issuer1 (ex_node_datagram 2 cm_node_hello 1 0)" 2 2]
  by (simp add: ex_issuer2_def ex_issuer1)

lemma ex_issuer2_valid:
  "validate_tcp_session_binding (li_router ex_issuer2) (ex_node_id 1) 5 1"
  "validate_tcp_session_binding (li_router ex_issuer2) (ex_node_id 2) 5 2"
  by (simp_all add: validate_tcp_session_binding_def ex_issuer2 ex_leased_def node_from_hello_def)

lemma ex_serve_step: "issuer_step s (ex_serve s d)"
  by (cases "serve_datagram s d 100") (simp add: ex_serve_def issuer_serves)

lemma leases_distinct_witness:
  "validate_tcp_session_binding (li_router ex_issuer2) (ex_node_id 1) 5 1 \<and>
   validate_tcp_session_binding (li_router ex_issuer2) (ex_node_id 2) 5 2 \<and>
   (1 :: u64) \<noteq> 2"
proof -
  let ?s1 = "ex_serve new_issuer (ex_node_datagram 1 cm_node_hello 1 0)"
  let ?s3 = "ex_serve ex_issuer1 (ex_node_datagram 2 cm_node_hello 1 0)"
  let ?ss = "[?s1, ex_issuer1, ?s3, ex_issuer2]"
  have r: "issuer_run (new_issuer # ?ss)" by (simp add: ex_issuer1_def ex_issuer2_def ex_serve_step)
  have v: "validate_tcp_session_binding (li_router (last (new_issuer # ?ss))) (ex_node_id 1) 5 1"
    "validate_tcp_session_binding (li_router (last (new_issuer # ?ss))) (ex_node_id 2) 5 2"
    using ex_issuer2_valid by simp_all
  have "(1 :: u64) \<noteq> 2"
    by (rule leases_distinct [OF r _ _ _ _ v]) (simp_all add: new_issuer_def)
  with ex_issuer2_valid show ?thesis by blast
qed

end
