(* ===== verification/Framing_V1.thy ===== *)
theory Framing_V1
  imports Control_Datagram
begin

unbundle bit_operations_syntax

text \<open>
  The frames of LiNeP version 0.1: \<open>crc8\<close> of \<open>core/crc.cpp\<close>, the packed structs of \<open>types.hpp\<close>
  with the makers and validators of \<open>core/framing.cpp\<close>, and the diagnostics scanner of
  \<open>messages.hpp\<close>. The CRC-8 is linear, injective in each byte and keeps the parity of the bits,
  so every frame that is checked with it (an interpretation of \<open>crc8_frame\<close>) refuses damage of
  one byte or of an odd number of bits.
\<close>

section \<open>CRC-8\<close>

definition crc8_bit :: "u8 \<Rightarrow> u8" where
  "crc8_bit crc = (if crc AND 0x80 \<noteq> 0 then push_bit 1 crc XOR 0x07 else push_bit 1 crc)"

definition crc8_byte :: "u8 \<Rightarrow> u8 \<Rightarrow> u8" where
  "crc8_byte crc b = (crc8_bit ^^ 8) (crc XOR b)"

definition crc8 :: "bytes \<Rightarrow> u8" where
  "crc8 data = foldl crc8_byte 0 data"

section \<open>The packed frames\<close>

text \<open>
  Packed little-endian structs: \<open>_bytes\<close> is the memory image of a value, \<open>_of_bytes\<close> the value
  read back from an image (\<open>reinterpret_cast\<close> and \<open>memcpy\<close> in the code).
\<close>

abbreviation (input) V1_MAGIC :: u16 where "V1_MAGIC \<equiv> 0x4C4E"
abbreviation (input) V1_VERSION :: u8 where "V1_VERSION \<equiv> 1"
abbreviation (input) HEADER_BASE_LEN :: u16 where "HEADER_BASE_LEN \<equiv> 24"
abbreviation (input) HEADER_BUILD_TIME_LEN :: u16 where "HEADER_BUILD_TIME_LEN \<equiv> 6"
abbreviation (input) HEADER_AUTH_EXT_LEN :: u16 where "HEADER_AUTH_EXT_LEN \<equiv> 26"
abbreviation (input) MAX_PAYLOAD_BYTES :: u32 where "MAX_PAYLOAD_BYTES \<equiv> 4194304"

abbreviation (input) FLAG_BUILD_TIME :: u16 where "FLAG_BUILD_TIME \<equiv> 0x0001"
abbreviation (input) FLAG_ACK_REQUIRED :: u16 where "FLAG_ACK_REQUIRED \<equiv> 0x0002"
abbreviation (input) FLAG_AUTHENTICATED :: u16 where "FLAG_AUTHENTICATED \<equiv> 0x0008"
abbreviation (input) FLAG_FRAGMENTED :: u16 where "FLAG_FRAGMENTED \<equiv> 0x0020"
abbreviation (input) FLAG_FINAL_FRAGMENT :: u16 where "FLAG_FINAL_FRAGMENT \<equiv> 0x0040"

type_synonym msg_type = u8
abbreviation (input) mt_heartbeat :: msg_type where "mt_heartbeat \<equiv> 0x01"
abbreviation (input) mt_invite :: msg_type where "mt_invite \<equiv> 0x05"
abbreviation (input) mt_invite_ack :: msg_type where "mt_invite_ack \<equiv> 0x06"
abbreviation (input) mt_heartbeat_ack :: msg_type where "mt_heartbeat_ack \<equiv> 0x07"
abbreviation (input) mt_task :: msg_type where "mt_task \<equiv> 0x10"
abbreviation (input) mt_result :: msg_type where "mt_result \<equiv> 0x12"
abbreviation (input) mt_error :: msg_type where "mt_error \<equiv> 0x13"

definition is_known_msg_type :: "u8 \<Rightarrow> bool" where
  "is_known_msg_type t \<longleftrightarrow> t \<in> set [0x01, 0x02, 0x03, 0x04, 0x05, 0x06, 0x07, 0x10, 0x11, 0x12, 0x13, 0x14,
     0x20, 0x21, 0x30, 0x31, 0x32, 0x33, 0x40, 0x41, 0xF0, 0xF1]"

record linep_header =
  h1_magic :: u16
  h1_version :: u8
  h1_msg_type :: u8
  h1_header_len :: u16
  h1_flags :: u16
  h1_payload_len :: u32
  h1_sequence :: u32
  h1_correlation_id :: u32
  h1_worker_id :: u16
  h1_slot_id :: u8
  h1_header_crc :: u8

definition header_prefix :: "linep_header \<Rightarrow> bytes" where
  "header_prefix h = write_u16 (h1_magic h) @ write_u8 (h1_version h) @ write_u8 (h1_msg_type h) @
     write_u16 (h1_header_len h) @ write_u16 (h1_flags h) @ write_u32 (h1_payload_len h) @
     write_u32 (h1_sequence h) @ write_u32 (h1_correlation_id h) @ write_u16 (h1_worker_id h) @
     write_u8 (h1_slot_id h)"

definition header_bytes :: "linep_header \<Rightarrow> bytes" where
  "header_bytes h = header_prefix h @ write_u8 (h1_header_crc h)"

definition header_of_bytes :: "bytes \<Rightarrow> linep_header" where
  "header_of_bytes b = \<lparr>h1_magic = u16_at b 0, h1_version = u8_at b 2, h1_msg_type = u8_at b 3,
     h1_header_len = u16_at b 4, h1_flags = u16_at b 6, h1_payload_len = u32_at b 8,
     h1_sequence = u32_at b 12, h1_correlation_id = u32_at b 16, h1_worker_id = u16_at b 20,
     h1_slot_id = u8_at b 22, h1_header_crc = u8_at b 23\<rparr>"

record header_build_time_ext =
  bt_year_2d :: u8
  bt_month :: u8
  bt_day :: u8
  bt_hour :: u8
  bt_minute :: u8
  bt_second :: u8

definition build_time_bytes :: "header_build_time_ext \<Rightarrow> bytes" where
  "build_time_bytes e = [bt_year_2d e, bt_month e, bt_day e, bt_hour e, bt_minute e, bt_second e]"

definition build_time_of_bytes :: "bytes \<Rightarrow> header_build_time_ext" where
  "build_time_of_bytes b = \<lparr>bt_year_2d = b ! 0, bt_month = b ! 1, bt_day = b ! 2, bt_hour = b ! 3,
     bt_minute = b ! 4, bt_second = b ! 5\<rparr>"

record header_auth_ext =
  ax_session_id :: u32
  ax_key_id :: u16
  ax_auth_seq :: u32
  ax_mac :: bytes

definition auth_ext_bytes :: "header_auth_ext \<Rightarrow> bytes" where
  "auth_ext_bytes a = write_u32 (ax_session_id a) @ write_u16 (ax_key_id a) @ write_u32 (ax_auth_seq a) @ ax_mac a"

definition auth_ext_of_bytes :: "bytes \<Rightarrow> header_auth_ext" where
  "auth_ext_of_bytes b = \<lparr>ax_session_id = u32_at b 0, ax_key_id = u16_at b 4, ax_auth_seq = u32_at b 6,
     ax_mac = take 16 (drop 10 b)\<rparr>"

record heartbeat_compact =
  hb_magic :: u16
  hb_version :: u8
  hb_msg_type :: u8
  hb_worker_id :: u16
  hb_slot_id :: u8
  hb_slot_flags :: u8
  hb_load :: u8
  hb_queue_depth :: u8
  hb_sequence :: u8
  hb_worker_score :: u16
  hb_ts_month :: u8
  hb_ts_day :: u8
  hb_ts_hour :: u8
  hb_ts_minute :: u8
  hb_ts_second :: u8
  hb_crc8 :: u8

definition heartbeat_prefix :: "heartbeat_compact \<Rightarrow> bytes" where
  "heartbeat_prefix f = write_u16 (hb_magic f) @ write_u8 (hb_version f) @ write_u8 (hb_msg_type f) @
     write_u16 (hb_worker_id f) @ write_u8 (hb_slot_id f) @ write_u8 (hb_slot_flags f) @
     write_u8 (hb_load f) @ write_u8 (hb_queue_depth f) @ write_u8 (hb_sequence f) @
     write_u16 (hb_worker_score f) @ write_u8 (hb_ts_month f) @ write_u8 (hb_ts_day f) @
     write_u8 (hb_ts_hour f) @ write_u8 (hb_ts_minute f) @ write_u8 (hb_ts_second f)"

definition heartbeat_bytes :: "heartbeat_compact \<Rightarrow> bytes" where
  "heartbeat_bytes f = heartbeat_prefix f @ write_u8 (hb_crc8 f)"

definition heartbeat_of_bytes :: "bytes \<Rightarrow> heartbeat_compact" where
  "heartbeat_of_bytes b = \<lparr>hb_magic = u16_at b 0, hb_version = u8_at b 2, hb_msg_type = u8_at b 3,
     hb_worker_id = u16_at b 4, hb_slot_id = u8_at b 6, hb_slot_flags = u8_at b 7, hb_load = u8_at b 8,
     hb_queue_depth = u8_at b 9, hb_sequence = u8_at b 10, hb_worker_score = u16_at b 11,
     hb_ts_month = u8_at b 13, hb_ts_day = u8_at b 14, hb_ts_hour = u8_at b 15,
     hb_ts_minute = u8_at b 16, hb_ts_second = u8_at b 17, hb_crc8 = u8_at b 18\<rparr>"

record udp_invite_frame =
  ui_msg_type :: u8
  ui_invite_seq :: u8
  ui_worker_id :: u16
  ui_slot_id :: u8
  ui_lease_ttl_ms :: u32
  ui_session_token :: u32
  ui_crc8 :: u8

definition invite_prefix :: "udp_invite_frame \<Rightarrow> bytes" where
  "invite_prefix f = write_u8 (ui_msg_type f) @ write_u8 (ui_invite_seq f) @ write_u16 (ui_worker_id f) @
     write_u8 (ui_slot_id f) @ write_u32 (ui_lease_ttl_ms f) @ write_u32 (ui_session_token f)"

definition invite_bytes :: "udp_invite_frame \<Rightarrow> bytes" where
  "invite_bytes f = invite_prefix f @ write_u8 (ui_crc8 f)"

definition invite_of_bytes :: "bytes \<Rightarrow> udp_invite_frame" where
  "invite_of_bytes b = \<lparr>ui_msg_type = u8_at b 0, ui_invite_seq = u8_at b 1, ui_worker_id = u16_at b 2,
     ui_slot_id = u8_at b 4, ui_lease_ttl_ms = u32_at b 5, ui_session_token = u32_at b 9,
     ui_crc8 = u8_at b 13\<rparr>"

record udp_invite_ack_frame =
  ua_msg_type :: u8
  ua_invite_seq :: u8
  ua_worker_id :: u16
  ua_slot_id :: u8
  ua_accepted :: u8
  ua_session_token :: u32
  ua_crc8 :: u8

definition invite_ack_prefix :: "udp_invite_ack_frame \<Rightarrow> bytes" where
  "invite_ack_prefix f = write_u8 (ua_msg_type f) @ write_u8 (ua_invite_seq f) @ write_u16 (ua_worker_id f) @
     write_u8 (ua_slot_id f) @ write_u8 (ua_accepted f) @ write_u32 (ua_session_token f)"

definition invite_ack_bytes :: "udp_invite_ack_frame \<Rightarrow> bytes" where
  "invite_ack_bytes f = invite_ack_prefix f @ write_u8 (ua_crc8 f)"

definition invite_ack_of_bytes :: "bytes \<Rightarrow> udp_invite_ack_frame" where
  "invite_ack_of_bytes b = \<lparr>ua_msg_type = u8_at b 0, ua_invite_seq = u8_at b 1, ua_worker_id = u16_at b 2,
     ua_slot_id = u8_at b 4, ua_accepted = u8_at b 5, ua_session_token = u32_at b 6, ua_crc8 = u8_at b 10\<rparr>"

record udp_heartbeat_ack_frame =
  ha_msg_type :: u8
  ha_heartbeat_seq :: u8
  ha_worker_id :: u16
  ha_slot_id :: u8
  ha_scheduler_time_sec :: u32
  ha_crc8 :: u8

definition heartbeat_ack_prefix :: "udp_heartbeat_ack_frame \<Rightarrow> bytes" where
  "heartbeat_ack_prefix f = write_u8 (ha_msg_type f) @ write_u8 (ha_heartbeat_seq f) @
     write_u16 (ha_worker_id f) @ write_u8 (ha_slot_id f) @ write_u32 (ha_scheduler_time_sec f)"

definition heartbeat_ack_bytes :: "udp_heartbeat_ack_frame \<Rightarrow> bytes" where
  "heartbeat_ack_bytes f = heartbeat_ack_prefix f @ write_u8 (ha_crc8 f)"

definition heartbeat_ack_of_bytes :: "bytes \<Rightarrow> udp_heartbeat_ack_frame" where
  "heartbeat_ack_of_bytes b = \<lparr>ha_msg_type = u8_at b 0, ha_heartbeat_seq = u8_at b 1,
     ha_worker_id = u16_at b 2, ha_slot_id = u8_at b 4, ha_scheduler_time_sec = u32_at b 5,
     ha_crc8 = u8_at b 9\<rparr>"

section \<open>Making and validating frames\<close>

text \<open>The checksum is taken over the bytes of the image that precede it.\<close>

definition make_heartbeat_compact :: "u16 \<Rightarrow> u8 \<Rightarrow> u8 \<Rightarrow> u8 \<Rightarrow> u8 \<Rightarrow> u8 \<Rightarrow> u16
    \<Rightarrow> u8 \<Rightarrow> u8 \<Rightarrow> u8 \<Rightarrow> u8 \<Rightarrow> u8 \<Rightarrow> heartbeat_compact" where
  "make_heartbeat_compact worker slot flags load depth sq score month day hour minute second =
     (let f = \<lparr>hb_magic = V1_MAGIC, hb_version = V1_VERSION, hb_msg_type = mt_heartbeat,
          hb_worker_id = worker, hb_slot_id = slot, hb_slot_flags = flags, hb_load = load,
          hb_queue_depth = depth, hb_sequence = sq, hb_worker_score = score, hb_ts_month = month,
          hb_ts_day = day, hb_ts_hour = hour, hb_ts_minute = minute, hb_ts_second = second, hb_crc8 = 0\<rparr>
      in f\<lparr>hb_crc8 := crc8 (take 18 (heartbeat_bytes f))\<rparr>)"

definition validate_heartbeat_compact :: "heartbeat_compact \<Rightarrow> bool" where
  "validate_heartbeat_compact f \<longleftrightarrow> hb_magic f = V1_MAGIC \<and> hb_version f = V1_VERSION \<and>
     hb_msg_type f = mt_heartbeat \<and> \<not> (hb_ts_month f = 0 \<or> 12 < hb_ts_month f) \<and>
     \<not> (hb_ts_day f = 0 \<or> 31 < hb_ts_day f) \<and> \<not> 23 < hb_ts_hour f \<and> \<not> 59 < hb_ts_minute f \<and>
     \<not> 59 < hb_ts_second f \<and> hb_crc8 f = crc8 (take 18 (heartbeat_bytes f))"

definition make_udp_invite :: "u8 \<Rightarrow> u16 \<Rightarrow> u8 \<Rightarrow> u32 \<Rightarrow> u32 \<Rightarrow> udp_invite_frame" where
  "make_udp_invite sq worker slot ttl token =
     (let f = \<lparr>ui_msg_type = mt_invite, ui_invite_seq = sq, ui_worker_id = worker, ui_slot_id = slot,
          ui_lease_ttl_ms = ttl, ui_session_token = token, ui_crc8 = 0\<rparr>
      in f\<lparr>ui_crc8 := crc8 (take 13 (invite_bytes f))\<rparr>)"

definition validate_udp_invite :: "udp_invite_frame \<Rightarrow> bool" where
  "validate_udp_invite f \<longleftrightarrow> ui_msg_type f = mt_invite \<and> ui_crc8 f = crc8 (take 13 (invite_bytes f))"

definition make_udp_invite_ack :: "u8 \<Rightarrow> u16 \<Rightarrow> u8 \<Rightarrow> u8 \<Rightarrow> u32 \<Rightarrow> udp_invite_ack_frame" where
  "make_udp_invite_ack sq worker slot accepted token =
     (let f = \<lparr>ua_msg_type = mt_invite_ack, ua_invite_seq = sq, ua_worker_id = worker, ua_slot_id = slot,
          ua_accepted = (if accepted \<noteq> 0 then 1 else 0), ua_session_token = token, ua_crc8 = 0\<rparr>
      in f\<lparr>ua_crc8 := crc8 (take 10 (invite_ack_bytes f))\<rparr>)"

definition validate_udp_invite_ack :: "udp_invite_ack_frame \<Rightarrow> bool" where
  "validate_udp_invite_ack f \<longleftrightarrow> ua_msg_type f = mt_invite_ack \<and> \<not> 1 < ua_accepted f \<and>
     ua_crc8 f = crc8 (take 10 (invite_ack_bytes f))"

definition make_udp_heartbeat_ack :: "u8 \<Rightarrow> u16 \<Rightarrow> u8 \<Rightarrow> u32 \<Rightarrow> udp_heartbeat_ack_frame" where
  "make_udp_heartbeat_ack sq worker slot time =
     (let f = \<lparr>ha_msg_type = mt_heartbeat_ack, ha_heartbeat_seq = sq, ha_worker_id = worker,
          ha_slot_id = slot, ha_scheduler_time_sec = time, ha_crc8 = 0\<rparr>
      in f\<lparr>ha_crc8 := crc8 (take 9 (heartbeat_ack_bytes f))\<rparr>)"

definition validate_udp_heartbeat_ack :: "udp_heartbeat_ack_frame \<Rightarrow> bool" where
  "validate_udp_heartbeat_ack f \<longleftrightarrow> ha_msg_type f = mt_heartbeat_ack \<and>
     ha_crc8 f = crc8 (take 9 (heartbeat_ack_bytes f))"

definition with_header_crc :: "linep_header \<Rightarrow> linep_header" where
  "with_header_crc h = h\<lparr>h1_header_crc := crc8 (take 23 (header_bytes h))\<rparr>"

definition make_header :: "u8 \<Rightarrow> u16 \<Rightarrow> u32 \<Rightarrow> u32 \<Rightarrow> u32 \<Rightarrow> u16 \<Rightarrow> u8 \<Rightarrow> linep_header" where
  "make_header ty flags len sq corr worker slot =
     with_header_crc \<lparr>h1_magic = V1_MAGIC, h1_version = V1_VERSION, h1_msg_type = ty,
       h1_header_len = HEADER_BASE_LEN, h1_flags = flags, h1_payload_len = len, h1_sequence = sq,
       h1_correlation_id = corr, h1_worker_id = worker, h1_slot_id = slot, h1_header_crc = 0\<rparr>"

definition apply_build_time_extension :: "linep_header \<Rightarrow> linep_header" where
  "apply_build_time_extension h = with_header_crc (h\<lparr>h1_flags := h1_flags h OR FLAG_BUILD_TIME,
     h1_header_len := HEADER_BASE_LEN + HEADER_BUILD_TIME_LEN\<rparr>)"

definition try_parse_build_time_ext :: "bytes \<Rightarrow> header_build_time_ext option" where
  "try_parse_build_time_ext ext =
     (if length ext < unat HEADER_BUILD_TIME_LEN then None else Some (build_time_of_bytes ext))"

definition validate_header :: "linep_header \<Rightarrow> bool" where
  "validate_header h \<longleftrightarrow> h1_magic h = V1_MAGIC \<and> h1_version h = V1_VERSION \<and>
     \<not> h1_header_len h < HEADER_BASE_LEN \<and>
     \<not> HEADER_BASE_LEN + HEADER_BUILD_TIME_LEN + HEADER_AUTH_EXT_LEN < h1_header_len h \<and>
     \<not> MAX_PAYLOAD_BYTES < h1_payload_len h \<and> h1_header_crc h = crc8 (take 23 (header_bytes h))"

section \<open>Diagnostics in a RESULT payload\<close>

text \<open>The bytes after the first occurrence of a key, empty when there is none.\<close>

fun find_key :: "bytes \<Rightarrow> bytes \<Rightarrow> bytes" where
  "find_key key [] = []"
| "find_key key (c # cs) =
     (if take (length key) (c # cs) = key then drop (length key) (c # cs) else find_key key cs)"

definition skip_separators :: "bytes \<Rightarrow> bytes" where
  "skip_separators r = dropWhile (\<lambda>c. c = 0x20 \<or> c = 0x3A) r"

definition scan_str :: "bytes \<Rightarrow> nat \<Rightarrow> bytes \<Rightarrow> bytes" where
  "scan_str key out_max data =
     (case skip_separators (find_key key data) of
        [] \<Rightarrow> []
      | c # r \<Rightarrow> if c \<noteq> 0x22 then [] else take (out_max - 1) (takeWhile (\<lambda>c. c \<noteq> 0x22) r))"

definition scan_uint :: "bytes \<Rightarrow> bytes \<Rightarrow> u32" where
  "scan_uint key data =
     foldl (\<lambda>v c. v * 10 + ucast (c - 0x30)) 0
       (takeWhile (\<lambda>c. 0x30 \<le> c \<and> c \<le> 0x39) (skip_separators (find_key key data)))"

record helper_diag =
  dg_model :: bytes
  dg_tokens_in :: u32
  dg_tokens_out :: u32
  dg_latency_ms :: u32

definition quoted :: "string \<Rightarrow> bytes" where
  "quoted s = 0x22 # bytes_of_string s @ [0x22]"

definition parse_helper_diag :: "bytes \<Rightarrow> helper_diag" where
  "parse_helper_diag data = \<lparr>dg_model = scan_str (quoted ''model'') 64 data,
     dg_tokens_in = scan_uint (quoted ''tokens_in'') data,
     dg_tokens_out = scan_uint (quoted ''tokens_out'') data,
     dg_latency_ms = scan_uint (quoted ''latency_ms'') data\<rparr>"

section \<open>Images and values\<close>

lemma length_prefixes [simp, wire_len]:
  "length (header_prefix h) = 23" "length (header_bytes h) = 24"
  "length (heartbeat_prefix f) = 18" "length (heartbeat_bytes f) = 19"
  "length (invite_prefix i) = 13" "length (invite_bytes i) = 14"
  "length (invite_ack_prefix a) = 10" "length (invite_ack_bytes a) = 11"
  "length (heartbeat_ack_prefix k) = 9" "length (heartbeat_ack_bytes k) = 10"
  "length (build_time_bytes e) = 6"
  by (simp_all add: header_prefix_def header_bytes_def heartbeat_prefix_def heartbeat_bytes_def
      invite_prefix_def invite_bytes_def invite_ack_prefix_def invite_ack_bytes_def
      heartbeat_ack_prefix_def heartbeat_ack_bytes_def build_time_bytes_def)

lemma take_bytes [simp]:
  "take 23 (header_bytes h) = header_prefix h" "take 18 (heartbeat_bytes f) = heartbeat_prefix f"
  "take 13 (invite_bytes i) = invite_prefix i" "take 10 (invite_ack_bytes a) = invite_ack_prefix a"
  "take 9 (heartbeat_ack_bytes k) = heartbeat_ack_prefix k"
  by (simp_all add: header_bytes_def heartbeat_bytes_def invite_bytes_def invite_ack_bytes_def heartbeat_ack_bytes_def)

lemma u8_at_end [simp]: "u8_at (write_u8 a) 0 = a"
  by (simp add: u8_at_def write_u8_def)

lemma header_of_bytes_bytes [simp]: "header_of_bytes (header_bytes h) = h"
  by (cases h) (simp add: header_of_bytes_def header_bytes_def header_prefix_def at_skip)

lemma heartbeat_of_bytes_bytes [simp]: "heartbeat_of_bytes (heartbeat_bytes f) = f"
  by (cases f) (simp add: heartbeat_of_bytes_def heartbeat_bytes_def heartbeat_prefix_def at_skip)

lemma auth_ext_of_bytes_bytes [simp]: "length (ax_mac a) = 16 \<Longrightarrow> auth_ext_of_bytes (auth_ext_bytes a) = a"
  by (cases a) (simp add: auth_ext_of_bytes_def auth_ext_bytes_def at_skip)

lemma bytes_of_image:
  "length b = 24 \<Longrightarrow> header_bytes (header_of_bytes b) = b"
  "length b = 19 \<Longrightarrow> heartbeat_bytes (heartbeat_of_bytes b) = b"
  "length b = 14 \<Longrightarrow> invite_bytes (invite_of_bytes b) = b"
  "length b = 11 \<Longrightarrow> invite_ack_bytes (invite_ack_of_bytes b) = b"
  "length b = 10 \<Longrightarrow> heartbeat_ack_bytes (heartbeat_ack_of_bytes b) = b"
proof -
  have t: "take i b @ take j (drop i b) @ r = take (i + j) b @ r" for i j r
    by (simp add: take_add)
  have e: "take 0 b @ x = x" for x by simp
  show "header_bytes (header_of_bytes b) = b" if "length b = 24"
    using that by (subst e [symmetric], simp add: header_bytes_def header_prefix_def header_of_bytes_def write_at t
        numeral_2_eq_2 [symmetric] del: append_assoc take_0 add: append_assoc)
  show "heartbeat_bytes (heartbeat_of_bytes b) = b" if "length b = 19"
    using that by (subst e [symmetric], simp add: heartbeat_bytes_def heartbeat_prefix_def heartbeat_of_bytes_def write_at t
        numeral_2_eq_2 [symmetric] del: append_assoc take_0 add: append_assoc)
  show "invite_bytes (invite_of_bytes b) = b" if "length b = 14"
    using that by (subst e [symmetric], simp add: invite_bytes_def invite_prefix_def invite_of_bytes_def write_at t
        numeral_2_eq_2 [symmetric] del: append_assoc take_0 add: append_assoc)
  show "invite_ack_bytes (invite_ack_of_bytes b) = b" if "length b = 11"
    using that by (subst e [symmetric], simp add: invite_ack_bytes_def invite_ack_prefix_def invite_ack_of_bytes_def write_at t
        numeral_2_eq_2 [symmetric] del: append_assoc take_0 add: append_assoc)
  show "heartbeat_ack_bytes (heartbeat_ack_of_bytes b) = b" if "length b = 10"
    using that by (subst e [symmetric], simp add: heartbeat_ack_bytes_def heartbeat_ack_prefix_def heartbeat_ack_of_bytes_def write_at t
        numeral_2_eq_2 [symmetric] del: append_assoc take_0 add: append_assoc)
qed

section \<open>CRC-8 is linear, injective and keeps parity\<close>

lemma crc8_bit_alt: "crc8_bit x = push_bit 1 x XOR (if bit x 7 then 7 else 0)"
proof -
  have "x AND 0x80 = 0 \<longleftrightarrow> \<not> bit x 7" using and_exp_eq_0_iff_not_bit [of x 7] by simp
  then show ?thesis by (simp add: crc8_bit_def)
qed

lemma bit_double: "bit (x * 2 :: u8) n \<longleftrightarrow> 0 < n \<and> n < 8 \<and> bit x (n - 1)"
  using bit_push_bit_iff [of 1 x n] by (cases n) (auto simp: bit_simps dest: bit_imp_le_length)

lemma crc8_bit_xor: "crc8_bit (x XOR y) = crc8_bit x XOR crc8_bit y"
  by (rule bit_word_eqI) (auto simp: crc8_bit_alt bit_simps)

lemma crc8_bits_xor: "(crc8_bit ^^ n) (x XOR y) = (crc8_bit ^^ n) x XOR (crc8_bit ^^ n) y"
  by (induction n) (simp_all add: crc8_bit_xor)

lemma crc8_byte_xor: "crc8_byte (s XOR t) (x XOR y) = crc8_byte s x XOR crc8_byte t y"
  by (simp add: crc8_byte_def crc8_bits_xor [symmetric] ac_simps)

lemma crc8_fold_xor:
  "length xs = length ys \<Longrightarrow>
    foldl crc8_byte (s XOR t) (map2 (XOR) xs ys) = foldl crc8_byte s xs XOR foldl crc8_byte t ys"
  by (induction xs ys arbitrary: s t rule: list_induct2) (simp_all add: crc8_byte_xor)

lemma crc8_xor: "length xs = length ys \<Longrightarrow> crc8 (map2 (XOR) xs ys) = crc8 xs XOR crc8 ys"
  using crc8_fold_xor [of xs ys 0 0] by (simp add: crc8_def)

lemma crc8_bit_low: "bit (crc8_bit x) 0 \<longleftrightarrow> bit x 7"
  by (simp add: crc8_bit_alt bit_xor_iff bit_double)

lemma crc8_bit_zero: "crc8_bit x = 0 \<Longrightarrow> x = 0"
proof (rule bit_word_eqI)
  fix n assume z: "crc8_bit x = 0" and n: "n < LENGTH(8)"
  have b7: "\<not> bit x 7" using crc8_bit_low [of x] by (simp add: z)
  then have p: "push_bit 1 x = 0" using z by (simp add: crc8_bit_alt)
  show "bit x n \<longleftrightarrow> bit (0 :: u8) n"
  proof (cases "n = 7")
    case False
    then have "bit (push_bit 1 x) (Suc n) \<longleftrightarrow> bit x n" using n by (simp add: bit_double)
    with p show ?thesis by simp
  qed (use b7 in simp)
qed

lemma crc8_bits_zero: "(crc8_bit ^^ n) x = 0 \<Longrightarrow> x = 0"
  by (induction n) (auto dest: crc8_bit_zero)

lemma crc8_byte_zero: "crc8_byte s b = 0 \<Longrightarrow> s XOR b = 0"
  unfolding crc8_byte_def by (rule crc8_bits_zero)

lemma crc8_byte_00 [simp]: "crc8_byte 0 0 = 0"
proof -
  have "crc8_bit 0 = 0" by (simp add: crc8_bit_def)
  then have "(crc8_bit ^^ n) 0 = 0" for n by (induction n) simp_all
  then show ?thesis by (simp add: crc8_byte_def)
qed

definition byte_parity :: "u8 \<Rightarrow> bool" where
  "byte_parity x = foldr (\<lambda>i p. bit x i \<noteq> p) [0..<8] False"

fun odd_bits :: "bytes \<Rightarrow> bool" where
  "odd_bits [] = False"
| "odd_bits (x # xs) = (byte_parity x \<noteq> odd_bits xs)"

lemma upt8: "[0..<8] = [0, 1, 2, 3, 4, 5, 6, 7::nat]"
  by (simp add: upt_rec)

lemma byte_parity_xor: "byte_parity (x XOR y) = (byte_parity x \<noteq> byte_parity y)"
proof -
  have "foldr (\<lambda>i p. bit (x XOR y) i \<noteq> p) is False =
      (foldr (\<lambda>i p. bit x i \<noteq> p) is False \<noteq> foldr (\<lambda>i p. bit y i \<noteq> p) is False)" for "is"
    by (induction "is") (auto simp: bit_xor_iff)
  then show ?thesis by (simp add: byte_parity_def)
qed

lemma byte_parity_step: "byte_parity (crc8_bit x) = byte_parity x"
proof -
  have s: "byte_parity (push_bit 1 x) = (byte_parity x \<noteq> bit x 7)"
    unfolding byte_parity_def upt8 by (simp add: bit_double) argo
  have "byte_parity (if bit x 7 then 7 else 0) = bit x 7"
    unfolding byte_parity_def upt8 by simp
  then show ?thesis using s by (auto simp: crc8_bit_alt byte_parity_xor)
qed

lemma byte_parity_crc: "byte_parity (crc8_byte s b) = (byte_parity s \<noteq> byte_parity b)"
proof -
  have "byte_parity ((crc8_bit ^^ n) x) = byte_parity x" for n x
    by (induction n) (simp_all add: byte_parity_step)
  then show ?thesis by (simp add: crc8_byte_def byte_parity_xor)
qed

lemma crc8_parity: "byte_parity (crc8 xs) = odd_bits xs"
proof -
  have "byte_parity (foldl crc8_byte s xs) = (byte_parity s \<noteq> odd_bits xs)" for s
    by (induction xs arbitrary: s) (auto simp: byte_parity_crc)
  moreover have "\<not> byte_parity 0" unfolding byte_parity_def upt8 by simp
  ultimately show ?thesis by (simp add: crc8_def)
qed

lemma odd_bits_append [simp]: "odd_bits (xs @ ys) = (odd_bits xs \<noteq> odd_bits ys)"
  by (induction xs) auto

section \<open>What a damaged frame looks like\<close>

text \<open>
  An error pattern is detectable when it flips an odd number of bits or changes exactly one
  byte; \<open>framed n b\<close> is the check every frame makes: its last byte is the CRC-8 of the others.
\<close>

definition detectable :: "bytes \<Rightarrow> bool" where
  "detectable e \<longleftrightarrow> odd_bits e \<or> length (filter (\<lambda>x. x \<noteq> 0) e) = 1"

definition framed :: "nat \<Rightarrow> bytes \<Rightarrow> bool" where
  "framed n b \<longleftrightarrow> crc8 (take n b) = b ! n"

lemma crc8_zeros: "\<forall>x \<in> set xs. x = 0 \<Longrightarrow> foldl crc8_byte 0 xs = 0"
  by (induction xs) simp_all

lemma one_nonzero:
  "length (filter (\<lambda>x. x \<noteq> (0::u8)) xs) = 1 \<Longrightarrow> foldl crc8_byte 0 xs \<noteq> 0"
proof (induction xs)
  case (Cons x xs)
  have fold_nz: "foldl crc8_byte s ys \<noteq> 0" if "s \<noteq> 0" "\<forall>y \<in> set ys. y = 0" for s ys
    using that
  proof (induction ys arbitrary: s)
    case (Cons y ys)
    then have "crc8_byte s y \<noteq> 0" using crc8_byte_zero [of s y] by auto
    with Cons show ?case by simp
  qed simp
  show ?case
  proof (cases "x = 0")
    case False
    then have "\<forall>y \<in> set xs. y = 0" using Cons.prems by (simp add: filter_empty_conv)
    moreover have "crc8_byte 0 x \<noteq> 0" using crc8_byte_zero [of 0 x] False by auto
    ultimately show ?thesis using fold_nz by simp
  qed (use Cons in simp)
qed simp

lemma detectable_not_framed:
  assumes "length e = Suc n" and "detectable e"
  shows "\<not> framed n e"
proof
  assume f: "framed n e"
  have e: "e = take n e @ [e ! n]" using assms(1) take_Suc_conv_app_nth [of n e] by simp
  have "odd_bits e = (odd_bits (take n e) \<noteq> byte_parity (e ! n))" by (subst e) simp
  then have "\<not> odd_bits e" using f crc8_parity [of "take n e"] by (simp add: framed_def)
  then have one: "length (filter (\<lambda>x. x \<noteq> 0) e) = 1" using assms(2) by (simp add: detectable_def)
  then have l: "length (filter (\<lambda>x. x \<noteq> 0) (take n e)) + (if e ! n = 0 then 0 else 1) = 1"
    by (subst (asm) e) (simp split: if_splits)
  show False
  proof (cases "e ! n = 0")
    case True
    then have "foldl crc8_byte 0 (take n e) \<noteq> 0" using l by (intro one_nonzero) simp
    with True f show False by (simp add: framed_def crc8_def)
  next
    case False
    then have "\<forall>x \<in> set (take n e). x = 0" using l by (simp add: filter_empty_conv)
    then have "foldl crc8_byte 0 (take n e) = 0" by (rule crc8_zeros)
    with False f show False by (simp add: framed_def crc8_def)
  qed
qed

lemma framed_xor:
  assumes "length b = Suc n" and "length e = Suc n" and "framed n b"
  shows "framed n (map2 (XOR) b e) \<longleftrightarrow> framed n e"
proof -
  have "take n (map2 (XOR) b e) = map2 (XOR) (take n b) (take n e)" by (simp add: take_map take_zip)
  moreover have "crc8 (map2 (XOR) (take n b) (take n e)) = crc8 (take n b) XOR crc8 (take n e)"
    using assms by (intro crc8_xor) simp
  moreover have "x XOR y = x XOR z \<longleftrightarrow> y = z" for x y z :: u8
    by (metis bit.xor_self xor.left_neutral xor.assoc)
  ultimately show ?thesis using assms by (simp add: framed_def)
qed

section \<open>The frames\<close>

locale crc8_frame =
  fixes size :: nat and parse :: "bytes \<Rightarrow> 'f" and valid :: "'f \<Rightarrow> bool"
  assumes checked: "length b = Suc size \<Longrightarrow> valid (parse b) \<Longrightarrow> framed size b"
begin

lemma damage_refused:
  assumes "length b = Suc size" and "valid (parse b)" and "length e = length b" and "detectable e"
  shows "\<not> valid (parse (map2 (XOR) b e))"
proof
  assume "valid (parse (map2 (XOR) b e))"
  then have "framed size (map2 (XOR) b e)" using assms(1,3) by (intro checked) simp_all
  moreover have "framed size b" by (rule checked [OF assms(1,2)])
  ultimately have "framed size e" using framed_xor [of b size e] assms(1,3) by simp
  then show False using detectable_not_framed [of e size] assms(1,3,4) by simp
qed

end

lemma checksum_fields:
  "h1_header_crc (header_of_bytes b) = b ! 23" "hb_crc8 (heartbeat_of_bytes b) = b ! 18"
  "ui_crc8 (invite_of_bytes b) = b ! 13" "ua_crc8 (invite_ack_of_bytes b) = b ! 10"
  "ha_crc8 (heartbeat_ack_of_bytes b) = b ! 9"
  by (simp_all add: header_of_bytes_def heartbeat_of_bytes_def invite_of_bytes_def invite_ack_of_bytes_def
      heartbeat_ack_of_bytes_def u8_at_def)

interpretation header: crc8_frame 23 header_of_bytes validate_header
  by unfold_locales (simp add: validate_header_def framed_def checksum_fields bytes_of_image del: take_bytes)

interpretation heartbeat: crc8_frame 18 heartbeat_of_bytes validate_heartbeat_compact
  by unfold_locales (simp add: validate_heartbeat_compact_def framed_def checksum_fields bytes_of_image del: take_bytes)

interpretation invite: crc8_frame 13 invite_of_bytes validate_udp_invite
  by unfold_locales (simp add: validate_udp_invite_def framed_def checksum_fields bytes_of_image del: take_bytes)

interpretation invite_ack: crc8_frame 10 invite_ack_of_bytes validate_udp_invite_ack
  by unfold_locales (simp add: validate_udp_invite_ack_def framed_def checksum_fields bytes_of_image del: take_bytes)

interpretation heartbeat_ack: crc8_frame 9 heartbeat_ack_of_bytes validate_udp_heartbeat_ack
  by unfold_locales (simp add: validate_udp_heartbeat_ack_def framed_def checksum_fields bytes_of_image del: take_bytes)

text \<open>
  C33: damaged version 1 frames are refused. When the bytes of a valid header, heartbeat, invite,
  invite acknowledgement or heartbeat acknowledgement are changed in one byte (in any way), or
  in an odd number of bits anywhere, the frame they then form is invalid.
\<close>

theorem damaged_v1_frame_refused:
  assumes "detectable e" and "length e = length b"
  shows "(length b = 24 \<and> validate_header (header_of_bytes b) \<longrightarrow>
      \<not> validate_header (header_of_bytes (map2 (XOR) b e))) \<and>
    (length b = 19 \<and> validate_heartbeat_compact (heartbeat_of_bytes b) \<longrightarrow>
      \<not> validate_heartbeat_compact (heartbeat_of_bytes (map2 (XOR) b e))) \<and>
    (length b = 14 \<and> validate_udp_invite (invite_of_bytes b) \<longrightarrow>
      \<not> validate_udp_invite (invite_of_bytes (map2 (XOR) b e))) \<and>
    (length b = 11 \<and> validate_udp_invite_ack (invite_ack_of_bytes b) \<longrightarrow>
      \<not> validate_udp_invite_ack (invite_ack_of_bytes (map2 (XOR) b e))) \<and>
    (length b = 10 \<and> validate_udp_heartbeat_ack (heartbeat_ack_of_bytes b) \<longrightarrow>
      \<not> validate_udp_heartbeat_ack (heartbeat_ack_of_bytes (map2 (XOR) b e)))"
  using assms header.damage_refused [of b e] heartbeat.damage_refused [of b e] invite.damage_refused [of b e]
    invite_ack.damage_refused [of b e] heartbeat_ack.damage_refused [of b e]
  by simp

text \<open>What the makers make is valid.\<close>

lemma with_header_crc_sel [simp]:
  "h1_magic (with_header_crc h) = h1_magic h" "h1_version (with_header_crc h) = h1_version h"
  "h1_msg_type (with_header_crc h) = h1_msg_type h" "h1_header_len (with_header_crc h) = h1_header_len h"
  "h1_flags (with_header_crc h) = h1_flags h" "h1_payload_len (with_header_crc h) = h1_payload_len h"
  "h1_sequence (with_header_crc h) = h1_sequence h" "h1_correlation_id (with_header_crc h) = h1_correlation_id h"
  "h1_worker_id (with_header_crc h) = h1_worker_id h" "h1_slot_id (with_header_crc h) = h1_slot_id h"
  "header_prefix (with_header_crc h) = header_prefix h"
  "h1_header_crc (with_header_crc h) = crc8 (header_prefix h)"
  by (simp_all add: with_header_crc_def header_prefix_def)

lemma made_frames_valid:
  "1 \<le> month \<Longrightarrow> month \<le> 12 \<Longrightarrow> 1 \<le> day \<Longrightarrow> day \<le> 31 \<Longrightarrow> hour \<le> 23 \<Longrightarrow> minute \<le> 59 \<Longrightarrow> second \<le> 59 \<Longrightarrow>
     validate_heartbeat_compact (make_heartbeat_compact w sl fl ld qd sq sc month day hour minute second)"
  "validate_udp_invite (make_udp_invite sq w sl ttl tok)"
  "validate_udp_invite_ack (make_udp_invite_ack sq w sl acc tok)"
  "validate_udp_heartbeat_ack (make_udp_heartbeat_ack sq w sl tm)"
  "len \<le> MAX_PAYLOAD_BYTES \<Longrightarrow> validate_header (make_header ty flags len sq32 corr w sl)"
  "len \<le> MAX_PAYLOAD_BYTES \<Longrightarrow>
     validate_header (apply_build_time_extension (make_header ty flags len sq32 corr w sl))"
  by (auto simp: validate_heartbeat_compact_def make_heartbeat_compact_def heartbeat_prefix_def
      validate_udp_invite_def make_udp_invite_def invite_prefix_def validate_udp_invite_ack_def
      make_udp_invite_ack_def invite_ack_prefix_def validate_udp_heartbeat_ack_def
      make_udp_heartbeat_ack_def heartbeat_ack_prefix_def validate_header_def make_header_def
      apply_build_time_extension_def not_less Let_def)

end
