(* ===== verification/Task_Transport.thy ===== *)
theory Task_Transport
  imports Framing_V1 Connection
begin

unbundle bit_operations_syntax

text \<open>
  The TCP task transport of version 0.1 (\<open>tcp/tcp.cpp\<close>) and its SL1 tags (\<open>core/security.cpp\<close>):
  the task sender with plain and streamed results, and the receiver that authenticates a task
  before it calls the worker. Sockets are the operating system record of \<open>Connection\<close>; the worker
  callbacks and the build time of each side are parameters. Function arguments of one call are
  the record \<open>task_call\<close>.
\<close>

section \<open>The task authenticator\<close>

definition sl1_task_input :: "linep_header \<Rightarrow> u32 \<Rightarrow> u16 \<Rightarrow> u32 \<Rightarrow> bytes \<Rightarrow> bytes" where
  "sl1_task_input h sid kid sq payload =
     header_bytes h @ write_u32 sid @ write_u16 kid @ write_u32 sq @ payload"

definition compute_sl1_mac_v1 :: "bytes \<Rightarrow> linep_header \<Rightarrow> u32 \<Rightarrow> u16 \<Rightarrow> u32 \<Rightarrow> bytes \<Rightarrow> bytes" where
  "compute_sl1_mac_v1 key h sid kid sq payload =
     (if key = [] then replicate 16 0
      else take 16 (hmac_sha256 key (sl1_task_input h sid kid sq payload)))"

definition verify_sl1_mac_v1 :: "bytes \<Rightarrow> linep_header \<Rightarrow> header_auth_ext \<Rightarrow> bytes \<Rightarrow> bool" where
  "verify_sl1_mac_v1 key h a payload =
     constant_time_memcmp16
       (compute_sl1_mac_v1 key h (ax_session_id a) (ax_key_id a) (ax_auth_seq a) payload) (ax_mac a)"

section \<open>Whole buffers\<close>

text \<open>\<open>tcp_send_all\<close> and \<open>tcp_recv_all\<close> with the comparison of their result with the size.\<close>

definition send_part :: "'w os \<Rightarrow> 'w \<Rightarrow> fd \<Rightarrow> bytes \<Rightarrow> 'w \<times> bool" where
  "send_part os w s data =
     (let (w, r) = tcp_send_all os w s data (int_of_size (length data))
      in (w, r = int_of_size (length data)))"

definition recv_part :: "'w os \<Rightarrow> 'w \<Rightarrow> fd \<Rightarrow> nat \<Rightarrow> 'w \<times> bytes option" where
  "recv_part os w s n =
     (let (w, r, buf) = tcp_recv_all os w s (int_of_size n)
      in (w, if r = int_of_size n then Some buf else None))"

section \<open>Task sender\<close>

type_synonym result_status = u8
abbreviation (input) rs_ok :: result_status where "rs_ok \<equiv> 0"
abbreviation (input) rs_rejected :: result_status where "rs_rejected \<equiv> 1"
abbreviation (input) rs_timeout :: result_status where "rs_timeout \<equiv> 2"
abbreviation (input) rs_model_error :: result_status where "rs_model_error \<equiv> 3"

record task_sender =
  ts_seq :: u32
  ts_sl1_enabled :: bool
  ts_session_id :: u32
  ts_key_id :: u16
  ts_secret_key :: bytes
  ts_auth_seq :: u32

definition new_task_sender :: task_sender where
  "new_task_sender = \<lparr>ts_seq = 0, ts_sl1_enabled = False, ts_session_id = 0, ts_key_id = 0,
     ts_secret_key = [], ts_auth_seq = 1\<rparr>"

definition sender_set_sl1 :: "task_sender \<Rightarrow> u32 \<Rightarrow> u16 \<Rightarrow> bytes \<Rightarrow> task_sender" where
  "sender_set_sl1 t session_id key_id key = t\<lparr>ts_sl1_enabled := True, ts_session_id := session_id,
     ts_key_id := key_id, ts_secret_key := key, ts_auth_seq := 1\<rparr>"

definition sender_clear_sl1 :: "task_sender \<Rightarrow> task_sender" where
  "sender_clear_sl1 t = t\<lparr>ts_sl1_enabled := False, ts_session_id := 0, ts_key_id := 0,
     ts_secret_key := [], ts_auth_seq := 0\<rparr>"

record task_call =
  tc_type :: u8
  tc_correlation_id :: u32
  tc_worker_id :: u16
  tc_slot_id :: u8
  tc_payload :: bytes

definition task_payload :: "task_call \<Rightarrow> bytes" where
  "task_payload c = tc_type c # tc_payload c"

text \<open>The header and extensions of a TASK frame; \<open>bt\<close> is the build time of the sender.\<close>

definition task_header :: "task_sender \<Rightarrow> task_call \<Rightarrow> linep_header" where
  "task_header t c =
     (let flags = FLAG_ACK_REQUIRED OR (if ts_sl1_enabled t then FLAG_AUTHENTICATED else 0);
          h = apply_build_time_extension (make_header mt_task flags
                (of_nat (length (task_payload c))) (ts_seq t) (tc_correlation_id c)
                (tc_worker_id c) (tc_slot_id c))
      in with_header_crc (h\<lparr>h1_header_len :=
           24 + (6 + (if ts_sl1_enabled t then 26 else 0))\<rparr>))"

definition task_auth :: "task_sender \<Rightarrow> task_call \<Rightarrow> header_auth_ext" where
  "task_auth t c = \<lparr>ax_session_id = ts_session_id t, ax_key_id = ts_key_id t,
     ax_auth_seq = ts_auth_seq t,
     ax_mac = compute_sl1_mac_v1 (ts_secret_key t) (task_header t c) (ts_session_id t) (ts_key_id t)
       (ts_auth_seq t) (task_payload c)\<rparr>"

definition task_extensions :: "header_build_time_ext \<Rightarrow> task_sender \<Rightarrow> task_call \<Rightarrow> bytes" where
  "task_extensions bt t c =
     build_time_bytes bt @ (if ts_sl1_enabled t then auth_ext_bytes (task_auth t c) else [])"

definition send_task_frame :: "'w os \<Rightarrow> 'w \<Rightarrow> fd \<Rightarrow> header_build_time_ext \<Rightarrow> task_sender \<Rightarrow> task_call
    \<Rightarrow> 'w \<times> task_sender \<times> bool" where
  "send_task_frame os w s bt t c =
     (let hdr = task_header t c; ext = task_extensions bt t c;
          t = t\<lparr>ts_seq := ts_seq t + 1,
                ts_auth_seq := (if ts_sl1_enabled t then ts_auth_seq t + 1 else ts_auth_seq t)\<rparr>;
          (w, ok) = send_part os w s (header_bytes hdr) in
      if \<not> ok then (os_close os w s, t, False)
      else let (w, ok) = send_part os w s ext in
        if \<not> ok then (os_close os w s, t, False)
        else let (w, ok) = send_part os w s (task_payload c) in
          if \<not> ok then (os_close os w s, t, False) else (w, t, True))"

definition extension_length :: "linep_header \<Rightarrow> nat" where
  "extension_length h = (if 24 < h1_header_len h then unat (h1_header_len h - 24) else 0)"

text \<open>A RESULT header, as \<open>send_task\<close> and \<open>send_task_stream\<close> check it.\<close>

definition is_result_for :: "u32 \<Rightarrow> linep_header \<Rightarrow> bool" where
  "is_result_for corr h \<longleftrightarrow> validate_header h \<and> h1_msg_type h = mt_result \<and> h1_correlation_id h = corr"

text \<open>The result buffer of the caller is its capacity; \<open>None\<close> stands for null pointers.\<close>

definition receive_result :: "'w os \<Rightarrow> 'w \<Rightarrow> fd \<Rightarrow> u32 \<Rightarrow> nat option \<Rightarrow> 'w \<times> result_status \<times> bytes" where
  "receive_result os w s corr cap =
     (case recv_part os w s 24 of
        (w, None) \<Rightarrow> (os_close os w s, rs_model_error, [])
      | (w, Some hb) \<Rightarrow>
          let h = header_of_bytes hb in
          if \<not> is_result_for corr h then (os_close os w s, rs_model_error, [])
          else
            let (w, ext) = (if 0 < extension_length h then recv_part os w s (extension_length h) else (w, Some [])) in
            case ext of None \<Rightarrow> (os_close os w s, rs_timeout, [])
            | Some _ \<Rightarrow>
                if h1_payload_len h = 0 then (os_close os w s, rs_model_error, [])
                else
                  let (w, body) = recv_part os w s (unat (h1_payload_len h)); w = os_close os w s in
                  case body of None \<Rightarrow> (w, rs_timeout, [])
                  | Some p \<Rightarrow>
                      (w, p ! 0, case cap of None \<Rightarrow> []
                                 | Some n \<Rightarrow> if 1 < length p then take n (drop 1 p) else []))"

text \<open>\<open>send_task\<close> with the socket that \<open>tcp_connect\<close> gave.\<close>

definition send_task :: "'w os \<Rightarrow> 'w \<Rightarrow> fd option \<Rightarrow> header_build_time_ext \<Rightarrow> task_sender \<Rightarrow> task_call
    \<Rightarrow> nat option \<Rightarrow> 'w \<times> task_sender \<times> result_status \<times> bytes" where
  "send_task os w sock bt t c cap =
     (case sock of None \<Rightarrow> (w, t, rs_timeout, [])
      | Some s \<Rightarrow>
          let (w, t, ok) = send_task_frame os w s bt t c in
          if \<not> ok then (w, t, rs_timeout, [])
          else let (w, status, body) = receive_result os w s (tc_correlation_id c) cap
               in (w, t, status, body))"

section \<open>Streaming sender\<close>

record stream_chunk =
  sc_sequence :: u32
  sc_flags :: u16
  sc_body :: bytes

text \<open>
  The receive loop of \<open>send_task_stream\<close>. It goes on until a final fragment or an error, so it is
  partial; the chunk callbacks made so far are the list \<open>calls\<close>. The result of reading the
  extension is not looked at.
\<close>

partial_function (option) stream_loop :: "'w os \<Rightarrow> fd \<Rightarrow> u32 \<Rightarrow> 'w \<Rightarrow> u32 \<Rightarrow> result_status
    \<Rightarrow> stream_chunk list \<Rightarrow> ('w \<times> result_status \<times> stream_chunk list) option" where
  [code]: "stream_loop os s corr w expected status calls =
     (case recv_part os w s 24 of
        (w, None) \<Rightarrow> Some (os_close os w s, rs_model_error, calls)
      | (w, Some hb) \<Rightarrow>
          let h = header_of_bytes hb in
          if \<not> is_result_for corr h then Some (os_close os w s, rs_model_error, calls)
          else
            let w = (if 0 < extension_length h then fst (recv_part os w s (extension_length h)) else w);
                (w, body) = (if h1_payload_len h \<noteq> 0 then recv_part os w s (unat (h1_payload_len h))
                             else (w, Some [])) in
            case body of None \<Rightarrow> Some (os_close os w s, rs_timeout, calls)
            | Some p \<Rightarrow>
                let first = (expected = 1 \<and> p \<noteq> []);
                    status = (if first then p ! 0 else status);
                    p = (if first then drop 1 p else p);
                    final = (h1_flags h AND FLAG_FINAL_FRAGMENT \<noteq> 0) in
                if h1_sequence h < expected
                then (if final then Some (os_close os w s, status, calls)
                      else stream_loop os s corr w expected status calls)
                else
                  let calls = (if p \<noteq> [] then calls @ [\<lparr>sc_sequence = h1_sequence h, sc_flags = h1_flags h, sc_body = p\<rparr>]
                               else calls) in
                  if final then Some (os_close os w s, status, calls)
                  else stream_loop os s corr w (h1_sequence h + 1) status calls)"

definition send_task_stream :: "'w os \<Rightarrow> 'w \<Rightarrow> fd option \<Rightarrow> header_build_time_ext \<Rightarrow> task_sender \<Rightarrow> task_call
    \<Rightarrow> ('w \<times> task_sender \<times> result_status \<times> stream_chunk list) option" where
  "send_task_stream os w sock bt t c =
     (case sock of None \<Rightarrow> Some (w, t, rs_timeout, [])
      | Some s \<Rightarrow>
          let (w, t, ok) = send_task_frame os w s bt t c in
          if \<not> ok then Some (w, t, rs_timeout, [])
          else do { (w, status, calls) \<leftarrow> stream_loop os s (tc_correlation_id c) w 1 rs_ok [];
                    Some (w, t, status, calls) })"

section \<open>Task receiver\<close>

record task_receiver =
  tr_require_auth :: bool
  tr_session_id :: u32
  tr_key_id :: u16
  tr_secret_key :: bytes
  tr_last_auth_seq :: u32

definition new_task_receiver :: task_receiver where
  "new_task_receiver = \<lparr>tr_require_auth = False, tr_session_id = 0, tr_key_id = 0, tr_secret_key = [],
     tr_last_auth_seq = 0\<rparr>"

definition receiver_set_sl1 :: "task_receiver \<Rightarrow> u32 \<Rightarrow> u16 \<Rightarrow> bytes \<Rightarrow> bool \<Rightarrow> task_receiver" where
  "receiver_set_sl1 t session_id key_id key require = t\<lparr>tr_require_auth := require,
     tr_session_id := session_id, tr_key_id := key_id, tr_secret_key := key, tr_last_auth_seq := 0\<rparr>"

definition receiver_clear_sl1 :: "task_receiver \<Rightarrow> task_receiver" where
  "receiver_clear_sl1 t = new_task_receiver"

text \<open>The verdict on a frame: refused, accepted without authentication, or with a sequence number.\<close>

datatype auth_verdict = Refused | Unsigned | Signed u32

definition authenticate_task :: "task_receiver \<Rightarrow> linep_header \<Rightarrow> bytes \<Rightarrow> bytes \<Rightarrow> auth_verdict" where
  "authenticate_task t h ext payload =
     (if tr_require_auth t \<and> h1_flags h AND FLAG_AUTHENTICATED = 0 then Refused
      else if h1_flags h AND FLAG_AUTHENTICATED \<noteq> 0 then
        let off = (if h1_flags h AND FLAG_BUILD_TIME \<noteq> 0 then 6 else 0) in
        if length ext < off + 26 then Refused
        else
          let a = auth_ext_of_bytes (take 26 (drop off ext)) in
          if ax_session_id a \<noteq> tr_session_id t then Refused
          else if ax_auth_seq a \<le> tr_last_auth_seq t then Refused
          else if \<not> verify_sl1_mac_v1 (tr_secret_key t) h a payload then Refused
          else Signed (ax_auth_seq a)
      else Unsigned)"

definition store_auth_seq :: "task_receiver \<Rightarrow> auth_verdict \<Rightarrow> task_receiver" where
  "store_auth_seq t v = (case v of Signed q \<Rightarrow> t\<lparr>tr_last_auth_seq := q\<rparr> | _ \<Rightarrow> t)"

text \<open>\<open>handle_connection\<close> up to the call of the worker: the frame is read and authenticated.\<close>

definition accept_task :: "'w os \<Rightarrow> 'w \<Rightarrow> task_receiver \<Rightarrow> fd
    \<Rightarrow> 'w \<times> task_receiver \<times> (linep_header \<times> bytes) option" where
  "accept_task os w t s =
     (case recv_part os w s 24 of
        (w, None) \<Rightarrow> (os_close os w s, t, None)
      | (w, Some hb) \<Rightarrow>
          let h = header_of_bytes hb in
          if \<not> (validate_header h \<and> h1_msg_type h = mt_task) then (os_close os w s, t, None)
          else
            let (w, ext) = (if 0 < extension_length h then recv_part os w s (extension_length h) else (w, Some [])) in
            case ext of None \<Rightarrow> (os_close os w s, t, None)
            | Some ext \<Rightarrow>
                let (w, body) = (if h1_payload_len h \<noteq> 0 then recv_part os w s (unat (h1_payload_len h))
                                 else (w, Some [])) in
                case body of None \<Rightarrow> (os_close os w s, t, None)
                | Some payload \<Rightarrow>
                    let v = authenticate_task t h ext payload in
                    if v = Refused then (os_close os w s, t, None)
                    else (w, store_auth_seq t v, Some (h, payload)))"

text \<open>
  The worker is the callback: from the task type, the identifiers and the body it makes a status
  and the bytes it left in the result buffer. Without a callback the whole zero buffer is sent.
\<close>

type_synonym 'w worker = "'w \<Rightarrow> u8 \<Rightarrow> u32 \<Rightarrow> u16 \<Rightarrow> u8 \<Rightarrow> bytes \<Rightarrow> 'w \<times> result_status \<times> bytes"

definition task_type_of :: "bytes \<Rightarrow> u8" where
  "task_type_of payload = (if payload \<noteq> [] then payload ! 0 else 0)"

definition send_result :: "'w os \<Rightarrow> 'w \<Rightarrow> fd \<Rightarrow> header_build_time_ext \<Rightarrow> linep_header \<Rightarrow> bytes \<Rightarrow> 'w" where
  "send_result os w s bt h payload =
     (let rh = apply_build_time_extension (make_header mt_result 0 (of_nat (length payload)) 1
                 (h1_correlation_id h) (h1_worker_id h) (h1_slot_id h));
          (w, ok) = send_part os w s (header_bytes rh);
          w = (if ok then fst (send_part os (fst (send_part os w s (build_time_bytes bt))) s payload)
               else w)
      in os_close os w s)"

definition serve_task :: "'w os \<Rightarrow> 'w \<Rightarrow> fd \<Rightarrow> header_build_time_ext \<Rightarrow> 'w worker option \<Rightarrow> linep_header
    \<Rightarrow> bytes \<Rightarrow> 'w" where
  "serve_task os w s bt worker h payload =
     (let (w, status, body) = (case worker of None \<Rightarrow> (w, rs_model_error, replicate 65536 0)
        | Some f \<Rightarrow> f w (task_type_of payload) (h1_correlation_id h) (h1_worker_id h) (h1_slot_id h) (drop 1 payload))
      in send_result os w s bt h (status # body))"

record stream_writer =
  sw_seq :: u32
  sw_cancelled :: bool

definition stream_writer_func :: "'w os \<Rightarrow> 'w \<Rightarrow> fd \<Rightarrow> header_build_time_ext \<Rightarrow> linep_header
    \<Rightarrow> stream_writer \<Rightarrow> bytes \<Rightarrow> bool \<Rightarrow> 'w \<times> stream_writer \<times> bool" where
  "stream_writer_func os w s bt h x chunk is_final =
     (if s = no_socket \<or> sw_cancelled x then (w, x, False)
      else
        let flags = FLAG_FRAGMENTED OR (if is_final then FLAG_FINAL_FRAGMENT else 0);
            payload = (if sw_seq x = 1 then [rs_ok] else []) @ chunk;
            rh = apply_build_time_extension (make_header mt_result flags (of_nat (length payload)) (sw_seq x)
                   (h1_correlation_id h) (h1_worker_id h) (h1_slot_id h));
            x = x\<lparr>sw_seq := sw_seq x + 1\<rparr>;
            (w, ok) = send_part os w s (header_bytes rh) in
        if \<not> ok then (w, x\<lparr>sw_cancelled := True\<rparr>, False)
        else let (w, ok) = send_part os w s (build_time_bytes bt) in
          if \<not> ok then (w, x\<lparr>sw_cancelled := True\<rparr>, False)
          else if payload = [] then (w, x, True)
          else let (w, ok) = send_part os w s payload in
            if \<not> ok then (w, x\<lparr>sw_cancelled := True\<rparr>, False) else (w, x, True))"

text \<open>The chunks a streaming worker passes to its writer, each with the flag of the last one.\<close>

type_synonym stream_worker = "u8 \<Rightarrow> u32 \<Rightarrow> u16 \<Rightarrow> u8 \<Rightarrow> bytes \<Rightarrow> (bytes \<times> bool) list"

fun write_chunks :: "'w os \<Rightarrow> 'w \<Rightarrow> fd \<Rightarrow> header_build_time_ext \<Rightarrow> linep_header \<Rightarrow> stream_writer
    \<Rightarrow> (bytes \<times> bool) list \<Rightarrow> 'w \<times> stream_writer \<times> bool" where
  "write_chunks os w s bt h x [] = (w, x, True)"
| "write_chunks os w s bt h x ((chunk, final) # cs) =
     (let (w, x, ok) = stream_writer_func os w s bt h x chunk final;
          (w, x, oks) = write_chunks os w s bt h x cs in (w, x, ok \<and> oks))"

definition serve_stream :: "'w os \<Rightarrow> 'w \<Rightarrow> fd \<Rightarrow> header_build_time_ext \<Rightarrow> stream_worker \<Rightarrow> linep_header
    \<Rightarrow> bytes \<Rightarrow> 'w" where
  "serve_stream os w s bt f h payload =
     (let (w, x, ok) = write_chunks os w s bt h \<lparr>sw_seq = 1, sw_cancelled = False\<rparr>
            (f (task_type_of payload) (h1_correlation_id h) (h1_worker_id h) (h1_slot_id h) (drop 1 payload))
      in os_close os w s)"

definition handle_connection :: "'w os \<Rightarrow> 'w \<Rightarrow> task_receiver \<Rightarrow> fd \<Rightarrow> header_build_time_ext
    \<Rightarrow> stream_worker option \<Rightarrow> 'w worker option \<Rightarrow> 'w \<times> task_receiver" where
  "handle_connection os w t s bt stream worker =
     (case accept_task os w t s of
        (w, t, None) \<Rightarrow> (w, t)
      | (w, t, Some (h, payload)) \<Rightarrow>
          (case stream of Some f \<Rightarrow> serve_stream os w s bt f h payload
           | None \<Rightarrow> serve_task os w s bt worker h payload, t))"

end
