(* ===== verification/Task_Queue.thy ===== *)
theory Task_Queue
  imports Prelude
begin

unbundle bit_operations_syntax

text \<open>
The bounded queue of the version 0.1 scheduler (\<open>scheduler/task_queue.hpp\<close>): many producers and one
  consumer, each atomic access a step. The slots and counters are words of 32 bits; the ghost
  fields \<open>mq_claimed\<close> and \<open>mq_taken\<close> list what was claimed and taken, in order. Up to
  \<open>2 ^ 31 - 512\<close> pushes (where the signed difference of sequence numbers does not overflow) every
  interleaving refines a first-in-first-out queue of 256 places.
\<close>

section \<open>The queue and its threads\<close>

abbreviation (input) capacity :: nat where "capacity \<equiv> 256"

text \<open>Where a producer stands in \<open>push\<close>: the next atomic access it makes.\<close>

datatype 'a producer =
    Load_Head 'a
  | Check_Seq 'a u32
  | Claim_Head 'a u32
  | Write_Value 'a u32
  | Publish_Seq 'a u32

record 'a mpsc_queue =
  mq_seq :: "u32 list"
  mq_value :: "'a option list"
  mq_head :: u32
  mq_tail :: u32
  mq_producers :: "'a producer list"
  mq_popping :: bool
  mq_claimed :: "'a list"
  mq_taken :: "'a list"

definition new_queue :: "'a mpsc_queue" where
  "new_queue = \<lparr>mq_seq = map word_of_nat [0..<capacity], mq_value = replicate capacity None,
     mq_head = 0, mq_tail = 0, mq_producers = [], mq_popping = False, mq_claimed = [], mq_taken = []\<rparr>"

definition slot_of :: "u32 \<Rightarrow> nat" where
  "slot_of pos = unat pos mod capacity"

definition seq_diff :: "u32 \<Rightarrow> u32 \<Rightarrow> int" where
  "seq_diff s pos = sint s - sint pos"

datatype 'a queue_event = Claimed 'a | Pushed 'a | Refused_Push 'a | Popped "'a option" | Empty_Pop | Internal

text \<open>
  One producer step: what it does to the queue, where the producer stands then (\<open>None\<close> when its
  \<open>push\<close> has returned). The weak exchange may also fail spuriously.
\<close>

inductive producer_step :: "'a mpsc_queue \<Rightarrow> 'a producer \<Rightarrow> 'a queue_event \<Rightarrow> 'a mpsc_queue
    \<Rightarrow> 'a producer option \<Rightarrow> bool" where
  load_head: "producer_step q (Load_Head x) Internal q (Some (Check_Seq x (mq_head q)))"
| seq_equal: "seq_diff (mq_seq q ! slot_of pos) pos = 0 \<Longrightarrow>
    producer_step q (Check_Seq x pos) Internal q (Some (Claim_Head x pos))"
| seq_behind: "seq_diff (mq_seq q ! slot_of pos) pos < 0 \<Longrightarrow>
    producer_step q (Check_Seq x pos) (Refused_Push x) q None"
| seq_ahead: "0 < seq_diff (mq_seq q ! slot_of pos) pos \<Longrightarrow>
    producer_step q (Check_Seq x pos) Internal q (Some (Load_Head x))"
| claim_head: "mq_head q = pos \<Longrightarrow>
    producer_step q (Claim_Head x pos) (Claimed x)
      (q\<lparr>mq_head := pos + 1, mq_claimed := mq_claimed q @ [x]\<rparr>) (Some (Write_Value x pos))"
| claim_failed: "producer_step q (Claim_Head x pos) Internal q (Some (Check_Seq x (mq_head q)))"
| write_value: "producer_step q (Write_Value x pos) Internal
    (q\<lparr>mq_value := (mq_value q)[slot_of pos := Some x]\<rparr>) (Some (Publish_Seq x pos))"
| publish_seq: "producer_step q (Publish_Seq x pos) (Pushed x)
    (q\<lparr>mq_seq := (mq_seq q)[slot_of pos := pos + 1]\<rparr>) None"

inductive_cases producer_stepE: "producer_step q p ev q' p'"

text \<open>
  One step of the queue: a new producer, a step of one of them, or the single consumer, which
  takes the value of its slot and then releases the slot.
\<close>

inductive queue_step :: "'a mpsc_queue \<Rightarrow> 'a queue_event \<Rightarrow> 'a mpsc_queue \<Rightarrow> bool" where
  push_starts: "queue_step q Internal (q\<lparr>mq_producers := mq_producers q @ [Load_Head x]\<rparr>)"
| push_steps: "producer_step q p ev q' p' \<Longrightarrow> mq_producers q = ps @ p # ps' \<Longrightarrow>
    queue_step q ev (q'\<lparr>mq_producers := ps @ (case p' of None \<Rightarrow> [] | Some p' \<Rightarrow> [p']) @ ps'\<rparr>)"
| pop_empty: "\<not> mq_popping q \<Longrightarrow> mq_seq q ! slot_of (mq_tail q) \<noteq> mq_tail q + 1 \<Longrightarrow> queue_step q Empty_Pop q"
| pop_takes: "\<not> mq_popping q \<Longrightarrow> mq_seq q ! slot_of (mq_tail q) = mq_tail q + 1 \<Longrightarrow>
    mq_value q ! slot_of (mq_tail q) = v \<Longrightarrow>
    queue_step q (Popped v) (q\<lparr>mq_value := (mq_value q)[slot_of (mq_tail q) := None], mq_popping := True,
      mq_taken := mq_taken q @ (case v of None \<Rightarrow> [] | Some x \<Rightarrow> [x])\<rparr>)"
| pop_releases: "mq_popping q \<Longrightarrow>
    queue_step q Internal (q\<lparr>mq_seq := (mq_seq q)[slot_of (mq_tail q) := mq_tail q + 256],
      mq_tail := mq_tail q + 1, mq_popping := False\<rparr>)"

inductive queue_reachable :: "'a mpsc_queue \<Rightarrow> bool" where
  queue_init: "queue_reachable new_queue"
| queue_next: "queue_reachable q \<Longrightarrow> queue_step q ev q' \<Longrightarrow> queue_reachable q'"

text \<open>What is in the queue: claimed and not taken yet.\<close>

definition queued :: "'a mpsc_queue \<Rightarrow> 'a list" where
  "queued q = drop (length (mq_taken q)) (mq_claimed q)"

text \<open>The positions that are claimed but not published.\<close>

fun in_flight :: "'a producer \<Rightarrow> nat list" where
  "in_flight (Write_Value x pos) = [unat pos]"
| "in_flight (Publish_Seq x pos) = [unat pos]"
| "in_flight p = []"

definition claims :: "'a mpsc_queue \<Rightarrow> nat list" where
  "claims q = concat (map in_flight (mq_producers q))"

definition few_claims :: "'a mpsc_queue \<Rightarrow> bool" where
  "few_claims q \<longleftrightarrow> length (mq_claimed q) + 512 < 2 ^ 31"

section \<open>Invariant\<close>

text \<open>
  \<open>T\<close> is the number of released pops: the slots belong to the positions \<open>T\<close> to \<open>T + 255\<close>. A slot
  carries its position, plus one once it is published.
\<close>

fun producer_ok :: "nat \<Rightarrow> 'a mpsc_queue \<Rightarrow> 'a producer \<Rightarrow> bool" where
  "producer_ok T q (Load_Head x) = True"
| "producer_ok T q (Check_Seq x pos) = (unat pos \<le> length (mq_claimed q))"
| "producer_ok T q (Claim_Head x pos) = (unat pos \<le> length (mq_claimed q) \<and> unat pos < T + 256)"
| "producer_ok T q (Write_Value x pos) =
     (unat pos < length (mq_claimed q) \<and> length (mq_taken q) \<le> unat pos \<and> mq_claimed q ! unat pos = x)"
| "producer_ok T q (Publish_Seq x pos) =
     (unat pos < length (mq_claimed q) \<and> length (mq_taken q) \<le> unat pos \<and> mq_claimed q ! unat pos = x \<and>
        mq_value q ! (unat pos mod 256) = Some x)"

definition slots_ok :: "nat \<Rightarrow> 'a mpsc_queue \<Rightarrow> bool" where
  "slots_ok T q \<longleftrightarrow> length (mq_seq q) = 256 \<and> length (mq_value q) = 256 \<and>
     (\<forall>i. T \<le> i \<longrightarrow> i < T + 256 \<longrightarrow> unat (mq_seq q ! (i mod 256)) =
        (if i < length (mq_claimed q) \<and> i \<notin> set (claims q) then i + 1 else i)) \<and>
     (\<forall>i. length (mq_taken q) \<le> i \<longrightarrow> i < length (mq_claimed q) \<longrightarrow> i \<notin> set (claims q) \<longrightarrow>
        mq_value q ! (i mod 256) = Some (mq_claimed q ! i))"

definition counters_ok :: "nat \<Rightarrow> 'a mpsc_queue \<Rightarrow> bool" where
  "counters_ok T q \<longleftrightarrow> unat (mq_head q) = length (mq_claimed q) \<and> unat (mq_tail q) = T \<and>
     length (mq_claimed q) \<le> T + 256 \<and>
     (if mq_popping q then T + 1 else T) \<le> length (mq_claimed q) \<and>
     mq_taken q = take (if mq_popping q then T + 1 else T) (mq_claimed q)"

definition mpsc_inv :: "nat \<Rightarrow> 'a mpsc_queue \<Rightarrow> bool" where
  "mpsc_inv T q \<longleftrightarrow> counters_ok T q \<and> slots_ok T q \<and> distinct (claims q) \<and>
     (\<forall>p \<in> set (mq_producers q). producer_ok T q p)"

lemma unat_of_nat_small: "n < 2 ^ 32 \<Longrightarrow> unat (of_nat n :: u32) = n"
  by (simp add: unsigned_of_nat take_bit_nat_eq_self)

lemma mpsc_inv_new: "mpsc_inv 0 new_queue"
  by (simp add: mpsc_inv_def new_queue_def counters_ok_def slots_ok_def claims_def unat_of_nat_small nth_append)

lemma claims_split:
  "mq_producers q = ps @ p # ps' \<Longrightarrow>
   claims q = concat (map in_flight ps) @ in_flight p @ concat (map in_flight ps')"
  by (simp add: claims_def)

lemma mod_eq_close: "i \<le> j \<Longrightarrow> j < i + n \<Longrightarrow> i mod n = j mod n \<Longrightarrow> i = (j :: nat)"
  using mod_eq_dvd_iff_nat [of i j n] nat_dvd_not_less [of "j - i" n] by (cases "i = j") auto

lemma slot_eq_iff:
  assumes "T \<le> i" "i < T + n" "T \<le> j" "j < T + n"
  shows "i mod n = j mod n \<longleftrightarrow> i = (j :: nat)"
  using assms mod_eq_close [of i j n] mod_eq_close [of j i n] by (cases "i \<le> j") auto

lemma producer_ok_kept:
  assumes "producer_ok T q p" "T \<le> T'" "mq_claimed q' = mq_claimed q @ ys"
    "\<forall>i \<in> set (in_flight p). length (mq_taken q') \<le> i \<and> mq_value q' ! (i mod 256) = mq_value q ! (i mod 256)"
  shows "producer_ok T' q' p"
  using assms by (cases p) (auto simp: nth_append)

lemma producer_in_flight_bounds:
  "producer_ok T q p \<Longrightarrow> i \<in> set (in_flight p) \<Longrightarrow> length (mq_taken q) \<le> i \<and> i < length (mq_claimed q)"
  by (cases p) auto

lemma claims_bounds:
  assumes "mpsc_inv T q" "i \<in> set (claims q)"
  shows "length (mq_taken q) \<le> i \<and> i < length (mq_claimed q)"
  using assms producer_in_flight_bounds by (fastforce simp: mpsc_inv_def claims_def)

lemma taken_length:
  "counters_ok T q \<Longrightarrow> length (mq_taken q) = (if mq_popping q then T + 1 else T)"
  by (auto simp: counters_ok_def)

lemma sint_small:
  assumes "unat (w :: u32) < 2147483648"
  shows "sint w = int (unat w)"
proof -
  have u: "uint w = int (unat w)" by (rule uint_nat)
  have "signed_take_bit 31 (uint w) = uint w"
    by (rule signed_take_bit_int_eq_self; simp; use assms u in linarith)
  moreover have "sint w = signed_take_bit 31 (uint w)" by (simp add: sint_uint)
  ultimately show ?thesis using u by (simp only:)
qed

lemma unat_plus1: "unat (w :: u32) + 1 < 2 ^ 32 \<Longrightarrow> unat (w + 1) = unat w + 1"
  by (simp add: unat_add_lem [THEN iffD1])

text \<open>A producer moves on without touching the queue, or returns.\<close>

lemma producer_moves:
  assumes "mpsc_inv T q" "mq_producers q = ps @ p # ps'"
    "in_flight p = []" "concat (map in_flight rs) = []" "\<forall>r \<in> set rs. producer_ok T q r"
  shows "mpsc_inv T (q\<lparr>mq_producers := ps @ rs @ ps'\<rparr>)"
proof -
  let ?q = "q\<lparr>mq_producers := ps @ rs @ ps'\<rparr>"
  have c: "claims ?q = claims q" using assms(2-4) by (simp add: claims_def)
  have k: "producer_ok T ?q r \<longleftrightarrow> producer_ok T q r" for r by (cases r) simp_all
  show ?thesis
    using assms(1,2,5) k by (auto simp: mpsc_inv_def counters_ok_def slots_ok_def c)
qed

lemma push_start_inv:
  "mpsc_inv T q \<Longrightarrow> mpsc_inv T (q\<lparr>mq_producers := mq_producers q @ [Load_Head x]\<rparr>)"
proof -
  assume inv: "mpsc_inv T q"
  let ?q = "q\<lparr>mq_producers := mq_producers q @ [Load_Head x]\<rparr>"
  have c: "claims ?q = claims q" by (simp add: claims_def)
  have k: "producer_ok T ?q r \<longleftrightarrow> producer_ok T q r" for r by (cases r) simp_all
  show ?thesis
    using inv k by (auto simp: mpsc_inv_def counters_ok_def slots_ok_def c)
qed

lemma claim_inv:
  assumes inv: "mpsc_inv T q" and few: "few_claims q"
    and ps: "mq_producers q = ps @ Claim_Head x pos # ps'" and pos: "mq_head q = pos"
  shows "mpsc_inv T (q\<lparr>mq_head := pos + 1, mq_claimed := mq_claimed q @ [x],
    mq_producers := ps @ Write_Value x pos # ps'\<rparr>)" (is "mpsc_inv T ?q")
proof -
  have cnt: "counters_ok T q" and sl: "slots_ok T q" and d: "distinct (claims q)"
    and ok: "\<forall>p \<in> set (mq_producers q). producer_ok T q p"
    using inv by (simp_all add: mpsc_inv_def)
  have hd: "unat pos = length (mq_claimed q)" using cnt pos by (simp add: counters_ok_def)
  have hd1: "unat (pos + 1) = length (mq_claimed q) + 1"
    using few hd by (subst unat_plus1) (simp_all add: few_claims_def)
  have room: "length (mq_claimed q) < T + 256" using ok ps hd by simp
  have cs: "set (claims ?q) = insert (length (mq_claimed q)) (set (claims q))"
    using ps hd by (auto simp: claims_def)
  have new: "length (mq_claimed q) \<notin> set (claims q)" using claims_bounds [OF inv] by blast
  have d': "distinct (claims ?q)" using d new ps hd by (auto simp: claims_def)
  have cnt': "counters_ok T ?q" using cnt hd1 room by (auto simp: counters_ok_def)
  have "slots_ok T ?q"
    using sl unfolding slots_ok_def cs by (auto simp: nth_append)
  moreover have "producer_ok T ?q p" if "p \<in> set (mq_producers q)" for p
    using producer_ok_kept [OF bspec [OF ok that], of T ?q "[x]"]
      producer_in_flight_bounds [OF bspec [OF ok that]] by simp
  moreover have "producer_ok T ?q (Write_Value x pos)"
    using hd taken_length [OF cnt] cnt by (auto simp: counters_ok_def)
  ultimately show ?thesis using cnt' d' ps by (auto simp: mpsc_inv_def)
qed

lemma claim_at:
  assumes inv: "mpsc_inv T q" and ps: "mq_producers q = ps @ p # ps'" and i: "in_flight p = [i]"
  shows "T \<le> i" "i < T + 256" "length (mq_taken q) \<le> i" "i < length (mq_claimed q)" "i \<in> set (claims q)"
proof -
  have cnt: "counters_ok T q" using inv by (simp add: mpsc_inv_def)
  show m: "i \<in> set (claims q)" using ps i by (simp add: claims_split)
  show "length (mq_taken q) \<le> i" "i < length (mq_claimed q)" using claims_bounds [OF inv m] by simp_all
  then show "T \<le> i" "i < T + 256"
    using taken_length [OF cnt] cnt by (auto simp: counters_ok_def split: if_splits)
qed

lemma slots_apart:
  assumes inv: "mpsc_inv T q" and i: "i \<in> set (claims q)" and j: "j \<in> set (claims q)" and ne: "i \<noteq> j"
  shows "i mod 256 \<noteq> j mod 256"
proof -
  have cnt: "counters_ok T q" using inv by (simp add: mpsc_inv_def)
  have "T \<le> k \<and> k < T + 256" if "k \<in> set (claims q)" for k
    using claims_bounds [OF inv that] taken_length [OF cnt] cnt
    by (auto simp: counters_ok_def split: if_splits)
  then show ?thesis using slot_eq_iff [of T i 256 j] i j ne by blast
qed

lemma write_inv:
  assumes inv: "mpsc_inv T q" and ps: "mq_producers q = ps @ Write_Value x pos # ps'"
  shows "mpsc_inv T (q\<lparr>mq_value := (mq_value q)[slot_of pos := Some x],
    mq_producers := ps @ Publish_Seq x pos # ps'\<rparr>)" (is "mpsc_inv T ?q")
proof -
  have cnt: "counters_ok T q" and sl: "slots_ok T q" and d: "distinct (claims q)"
    and ok: "\<forall>p \<in> set (mq_producers q). producer_ok T q p"
    using inv by (simp_all add: mpsc_inv_def)
  note at = claim_at [OF inv ps, of "unat pos", simplified]
  have c: "claims ?q = claims q" using ps by (simp add: claims_def)
  have apart: "unat pos mod 256 \<noteq> i mod 256" if "length (mq_taken q) \<le> i" "i < length (mq_claimed q)" "i \<noteq> unat pos" for i
    using slot_eq_iff [of T "unat pos" 256 i] at that taken_length [OF cnt] cnt
    by (auto simp: counters_ok_def split: if_splits)
  have "slots_ok T ?q"
    using sl at(5) apart unfolding slots_ok_def c by (auto simp: slot_of_def nth_list_update)
  moreover have "producer_ok T ?q p" if m: "p \<in> set ps \<union> set ps'" for p
  proof -
    have mp: "p \<in> set (mq_producers q)" using m ps by auto
    have n: "unat pos \<notin> set (in_flight p)" using d m ps by (auto simp: claims_def)
    show ?thesis
    proof (rule producer_ok_kept [OF bspec [OF ok mp] order_refl, of ?q "[]"])
      show "\<forall>i \<in> set (in_flight p). length (mq_taken ?q) \<le> i \<and>
          mq_value ?q ! (i mod 256) = mq_value q ! (i mod 256)"
      proof
        fix i assume i: "i \<in> set (in_flight p)"
        have b: "length (mq_taken q) \<le> i \<and> i < length (mq_claimed q)"
          by (rule producer_in_flight_bounds [OF bspec [OF ok mp] i])
        have "i \<noteq> unat pos" using n i by auto
        then show "length (mq_taken ?q) \<le> i \<and> mq_value ?q ! (i mod 256) = mq_value q ! (i mod 256)"
          using b apart [of i] by (simp add: slot_of_def)
      qed
    qed simp
  qed
  moreover have "producer_ok T ?q (Publish_Seq x pos)"
    using ok ps sl by (auto simp: slot_of_def slots_ok_def)
  ultimately show ?thesis using cnt d c by (auto simp: mpsc_inv_def counters_ok_def)
qed

lemma publish_inv:
  assumes inv: "mpsc_inv T q" and few: "few_claims q" and ps: "mq_producers q = ps @ Publish_Seq x pos # ps'"
  shows "mpsc_inv T (q\<lparr>mq_seq := (mq_seq q)[slot_of pos := pos + 1],
    mq_producers := ps @ ps'\<rparr>)" (is "mpsc_inv T ?q")
proof -
  have cnt: "counters_ok T q" and sl: "slots_ok T q" and d: "distinct (claims q)"
    and ok: "\<forall>p \<in> set (mq_producers q). producer_ok T q p"
    using inv by (simp_all add: mpsc_inv_def)
  note at = claim_at [OF inv ps, of "unat pos", simplified]
  have p1: "unat (pos + 1) = unat pos + 1"
    using few at(4) by (subst unat_plus1) (simp_all add: few_claims_def)
  have c: "set (claims ?q) = set (claims q) - {unat pos}" using ps d by (auto simp: claims_def)
  have dc: "distinct (claims ?q)" using ps d by (auto simp: claims_def)
  have val: "mq_value q ! (unat pos mod 256) = Some (mq_claimed q ! unat pos)" using ok ps by auto
  have "slots_ok T ?q"
    unfolding slots_ok_def c
  proof (intro conjI allI impI)
    fix i assume "T \<le> i" "i < T + 256"
    then show "unat (mq_seq ?q ! (i mod 256)) =
        (if i < length (mq_claimed ?q) \<and> i \<notin> set (claims q) - {unat pos} then i + 1 else i)"
      using sl at p1 slot_eq_iff [of T "unat pos" 256 i]
      by (cases "i = unat pos") (auto simp: slots_ok_def slot_of_def nth_list_update)
  qed (use sl val in \<open>auto simp: slots_ok_def\<close>)
  moreover have "producer_ok T ?q p" if m: "p \<in> set ps \<union> set ps'" for p
  proof -
    have mp: "p \<in> set (mq_producers q)" using m ps by auto
    show ?thesis
      using producer_ok_kept [OF bspec [OF ok mp], of T ?q "[]"]
        producer_in_flight_bounds [OF bspec [OF ok mp]] by auto
  qed
  ultimately show ?thesis using cnt dc by (auto simp: mpsc_inv_def counters_ok_def)
qed

lemma published_slot:
  assumes inv: "mpsc_inv T q" and few: "few_claims q" and np: "\<not> mq_popping q"
  shows "mq_seq q ! slot_of (mq_tail q) = mq_tail q + 1 \<longleftrightarrow>
    T < length (mq_claimed q) \<and> T \<notin> set (claims q)"
proof -
  have cnt: "counters_ok T q" and sl: "slots_ok T q" using inv by (simp_all add: mpsc_inv_def)
  have t: "unat (mq_tail q) = T" "T \<le> length (mq_claimed q)" using cnt np by (simp_all add: counters_ok_def)
  have t1: "unat (mq_tail q + 1) = T + 1"
    using few t by (subst unat_plus1) (simp_all add: few_claims_def)
  have "unat (mq_seq q ! (T mod 256)) = (if T < length (mq_claimed q) \<and> T \<notin> set (claims q) then T + 1 else T)"
    using sl by (simp add: slots_ok_def)
  then show ?thesis using t t1 by (simp add: slot_of_def word_unat_eq_iff)
qed

lemma take_inv:
  assumes inv: "mpsc_inv T q" and few: "few_claims q" and np: "\<not> mq_popping q"
    and s: "mq_seq q ! slot_of (mq_tail q) = mq_tail q + 1"
  shows "mq_value q ! slot_of (mq_tail q) = Some (mq_claimed q ! T)"
    "mpsc_inv T (q\<lparr>mq_value := (mq_value q)[slot_of (mq_tail q) := None], mq_popping := True,
      mq_taken := mq_taken q @ [mq_claimed q ! T]\<rparr>)" (is "mpsc_inv T ?q")
proof -
  have cnt: "counters_ok T q" and sl: "slots_ok T q" and d: "distinct (claims q)"
    and ok: "\<forall>p \<in> set (mq_producers q). producer_ok T q p"
    using inv by (simp_all add: mpsc_inv_def)
  have t: "unat (mq_tail q) = T" using cnt by (simp add: counters_ok_def)
  have T: "T < length (mq_claimed q)" "T \<notin> set (claims q)" using published_slot [OF inv few np] s by simp_all
  have tk: "length (mq_taken q) = T" using taken_length [OF cnt] np by simp
  show "mq_value q ! slot_of (mq_tail q) = Some (mq_claimed q ! T)"
    using sl T tk t by (simp add: slots_ok_def slot_of_def)
  have c: "claims ?q = claims q" by (simp add: claims_def)
  have apart: "T mod 256 \<noteq> i mod 256" if "T + 1 \<le> i" "i < length (mq_claimed q)" for i
    using slot_eq_iff [of T T 256 i] that cnt by (auto simp: counters_ok_def)
  have cnt': "counters_ok T ?q" using cnt np T by (auto simp: counters_ok_def take_Suc_conv_app_nth)
  have "slots_ok T ?q"
    using sl apart tk unfolding slots_ok_def c by (auto simp: slot_of_def nth_list_update t)
  moreover have "producer_ok T ?q p" if mp: "p \<in> set (mq_producers q)" for p
  proof -
    show ?thesis
    proof (rule producer_ok_kept [OF bspec [OF ok mp] order_refl, of ?q "[]"])
      show "\<forall>i \<in> set (in_flight p). length (mq_taken ?q) \<le> i \<and>
          mq_value ?q ! (i mod 256) = mq_value q ! (i mod 256)"
      proof
        fix i assume i: "i \<in> set (in_flight p)"
        then have "i \<in> set (claims q)" using mp by (auto simp: claims_def)
        then have "i \<noteq> T" using T by auto
        then have "T + 1 \<le> i" "i < length (mq_claimed q)"
          using producer_in_flight_bounds [OF bspec [OF ok mp] i] tk by simp_all
        then show "length (mq_taken ?q) \<le> i \<and> mq_value ?q ! (i mod 256) = mq_value q ! (i mod 256)"
          using apart [of i] tk t by (simp add: slot_of_def)
      qed
    qed simp
  qed
  ultimately show "mpsc_inv T ?q" using cnt' d c by (auto simp: mpsc_inv_def)
qed

lemma release_inv:
  assumes inv: "mpsc_inv T q" and few: "few_claims q" and p: "mq_popping q"
  shows "mpsc_inv (T + 1) (q\<lparr>mq_seq := (mq_seq q)[slot_of (mq_tail q) := mq_tail q + 256],
      mq_tail := mq_tail q + 1, mq_popping := False\<rparr>)" (is "mpsc_inv _ ?q")
proof -
  have cnt: "counters_ok T q" and sl: "slots_ok T q" and d: "distinct (claims q)"
    and ok: "\<forall>p \<in> set (mq_producers q). producer_ok T q p"
    using inv by (simp_all add: mpsc_inv_def)
  have t: "unat (mq_tail q) = T" "T + 1 \<le> length (mq_claimed q)" "length (mq_claimed q) \<le> T + 256"
    using cnt p by (simp_all add: counters_ok_def)
  have t1: "unat (mq_tail q + 1) = T + 1"
    using few t by (subst unat_plus1) (simp_all add: few_claims_def)
  have t256: "unat (mq_tail q + 256) = T + 256"
    using few t by (simp add: few_claims_def unat_add_lem [THEN iffD1])
  have tk: "length (mq_taken q) = T + 1" using taken_length [OF cnt] p by simp
  have c: "claims ?q = claims q" by (simp add: claims_def)
  have cnt': "counters_ok (T + 1) ?q" using cnt p t t1 by (auto simp: counters_ok_def)
  have "slots_ok (T + 1) ?q"
    unfolding slots_ok_def c
  proof (intro conjI allI impI)
    fix i assume i: "T + 1 \<le> i" "i < T + 1 + 256"
    show "unat (mq_seq ?q ! (i mod 256)) =
        (if i < length (mq_claimed ?q) \<and> i \<notin> set (claims q) then i + 1 else i)"
    proof (cases "i = T + 256")
      case True
      then show ?thesis using sl t t256 by (simp add: slots_ok_def slot_of_def)
    next
      case False
      then have "T mod 256 \<noteq> i mod 256" using slot_eq_iff [of T T 256 i] i by auto
      then show ?thesis using sl i False t by (simp add: slots_ok_def slot_of_def)
    qed
  qed (use sl in \<open>auto simp: slots_ok_def\<close>)
  moreover have "producer_ok (T + 1) ?q r" if mp: "r \<in> set (mq_producers q)" for r
    using producer_ok_kept [OF bspec [OF ok mp], of "T + 1" ?q "[]"]
      producer_in_flight_bounds [OF bspec [OF ok mp]] by auto
  ultimately show ?thesis using cnt' d c by (auto simp: mpsc_inv_def)
qed

lemma slot_owner: "\<exists>i \<ge> T. i < T + 256 \<and> i mod 256 = P mod (256 :: nat)"
proof (intro exI conjI)
  have "(T + (P + 255 * T) mod 256) mod 256 = (P + 256 * T) mod 256"
    by (simp add: mod_add_right_eq)
  then show "(T + (P + 255 * T) mod 256) mod 256 = P mod 256" by simp
qed simp_all

lemma check_outcome:
  assumes inv: "mpsc_inv T q" and few: "few_claims q" and p: "producer_ok T q (Check_Seq x pos)"
  shows "seq_diff (mq_seq q ! slot_of pos) pos = 0 \<Longrightarrow> unat pos < T + 256"
    "seq_diff (mq_seq q ! slot_of pos) pos < 0 \<Longrightarrow> length (mq_claimed q) = T + 256"
proof -
  let ?s = "mq_seq q ! slot_of pos"
  have cnt: "counters_ok T q" and sl: "slots_ok T q" using inv by (simp_all add: mpsc_inv_def)
  obtain i where i: "T \<le> i" "i < T + 256" "i mod 256 = unat pos mod 256" using slot_owner by blast
  have s: "unat ?s = (if i < length (mq_claimed q) \<and> i \<notin> set (claims q) then i + 1 else i)"
    using sl i by (metis (no_types) slots_ok_def slot_of_def)
  have small: "unat pos \<le> length (mq_claimed q)" "length (mq_claimed q) \<le> T + 256"
    "length (mq_claimed q) + 512 < 2147483648" "T \<le> length (mq_claimed q)"
    using p cnt few by (auto simp: counters_ok_def few_claims_def split: if_splits)
  have diff: "seq_diff ?s pos = int (unat ?s) - int (unat pos)"
    using s small i sint_small [of ?s] sint_small [of pos] by (simp add: seq_diff_def split: if_splits)
  show "unat pos < T + 256" if "seq_diff ?s pos = 0"
  proof -
    have e: "unat pos = unat ?s" using that diff by linarith
    then have "i \<le> unat pos" "unat pos < i + 256" using s by (auto split: if_splits)
    then show ?thesis using mod_eq_close [of i "unat pos" 256] i by simp
  qed
  show "length (mq_claimed q) = T + 256" if neg: "seq_diff ?s pos < 0"
  proof (rule ccontr)
    assume ne: "length (mq_claimed q) \<noteq> T + 256"
    have "unat pos \<le> i"
    proof (cases "T \<le> unat pos")
      case True
      then show ?thesis using mod_eq_close [of i "unat pos" 256] i small ne by (cases "i \<le> unat pos") auto
    qed (use i in simp)
    moreover have "unat ?s < unat pos" using neg diff by linarith
    ultimately show False using s by (simp split: if_splits)
  qed
qed

lemma refused_needs_full:
  assumes "mpsc_inv T q" "few_claims q" "producer_ok T q (Check_Seq x pos)"
    "seq_diff (mq_seq q ! slot_of pos) pos < 0"
  shows "255 \<le> length (queued q)"
proof -
  have "counters_ok T q" using assms by (simp add: mpsc_inv_def)
  then show ?thesis
    using check_outcome(2) [OF assms] taken_length [of T q] by (simp add: queued_def)
qed

lemma take_queued:
  assumes "mpsc_inv T q" "few_claims q" "\<not> mq_popping q" "mq_seq q ! slot_of (mq_tail q) = mq_tail q + 1"
  shows "queued q = mq_claimed q ! T # drop (Suc T) (mq_claimed q)" "length (mq_taken q) = T"
proof -
  have c: "counters_ok T q" using assms by (simp add: mpsc_inv_def)
  show t: "length (mq_taken q) = T" using taken_length [OF c] assms(3) by simp
  have "T < length (mq_claimed q)" using published_slot [OF assms(1-3)] assms(4) by simp
  then show "queued q = mq_claimed q ! T # drop (Suc T) (mq_claimed q)"
    by (simp add: queued_def t Cons_nth_drop_Suc)
qed

lemma producer_step_inv:
  assumes inv: "mpsc_inv T q" and st: "producer_step q p ev q' p'" and ps: "mq_producers q = ps @ p # ps'"
    and few: "few_claims q'"
  shows "mpsc_inv T (q'\<lparr>mq_producers := ps @ (case p' of None \<Rightarrow> [] | Some p' \<Rightarrow> [p']) @ ps'\<rparr>)"
  using st
proof cases
  case (load_head x)
  have "counters_ok T q" using inv by (simp add: mpsc_inv_def)
  then show ?thesis
    using load_head producer_moves [OF inv ps, of "[Check_Seq x (mq_head q)]"]
    by (simp add: counters_ok_def)
next
  case (seq_equal pos x)
  have ok: "producer_ok T q (Check_Seq x pos)" using inv ps seq_equal by (simp add: mpsc_inv_def)
  have "few_claims q" using few seq_equal by simp
  then show ?thesis
    using seq_equal ok producer_moves [OF inv ps, of "[Claim_Head x pos]"] check_outcome(1) [OF inv _ ok] by simp
next
  case (seq_behind pos x)
  then show ?thesis using producer_moves [OF inv ps, of "[]"] by simp
next
  case (seq_ahead pos x)
  then show ?thesis using producer_moves [OF inv ps, of "[Load_Head x]"] by simp
next
  case (claim_head pos x)
  have "few_claims q" using few claim_head by (simp add: few_claims_def)
  then show ?thesis using claim_inv [OF inv] claim_head ps by simp
next
  case (claim_failed x pos)
  have "counters_ok T q" using inv by (simp add: mpsc_inv_def)
  then show ?thesis
    using claim_failed producer_moves [OF inv ps, of "[Check_Seq x (mq_head q)]"]
    by (simp add: counters_ok_def)
next
  case (write_value x pos)
  then show ?thesis using write_inv [OF inv] ps by simp
next
  case (publish_seq x pos)
  have "few_claims q" using few publish_seq by (simp add: few_claims_def)
  then show ?thesis using publish_inv [OF inv] publish_seq ps by simp
qed

lemma queue_step_inv:
  assumes inv: "mpsc_inv T q" and st: "queue_step q ev q'" and few: "few_claims q'"
  shows "\<exists>T'. mpsc_inv T' q'"
  using st
proof cases
  case (push_starts x)
  then show ?thesis using push_start_inv [OF inv] by auto
next
  case (push_steps p q'' p' ps ps')
  have "few_claims q''" using few push_steps by (simp add: few_claims_def)
  then show ?thesis using producer_step_inv [OF inv] push_steps by blast
next
  case pop_empty
  then show ?thesis using inv by auto
next
  case (pop_takes v)
  have f: "few_claims q" using few pop_takes by (simp add: few_claims_def)
  show ?thesis using take_inv [OF inv f] pop_takes by auto
next
  case pop_releases
  have f: "few_claims q" using few pop_releases by (simp add: few_claims_def)
  show ?thesis using release_inv [OF inv f] pop_releases by auto
qed

lemma step_few: "queue_step q ev q' \<Longrightarrow> few_claims q' \<Longrightarrow> few_claims q"
  by (auto simp: few_claims_def elim!: queue_step.cases producer_stepE)

lemma reachable_queue_inv: "queue_reachable q \<Longrightarrow> few_claims q \<Longrightarrow> \<exists>T. mpsc_inv T q"
proof (induction rule: queue_reachable.induct)
  case queue_init
  then show ?case using mpsc_inv_new by blast
next
  case (queue_next q ev q')
  then show ?case using queue_step_inv step_few by blast
qed

fun queue_effect :: "'a list \<Rightarrow> 'a queue_event \<Rightarrow> 'a list \<Rightarrow> bool" where
  "queue_effect xs (Claimed x) ys = (length xs < 256 \<and> ys = xs @ [x])"
| "queue_effect xs (Popped v) ys = (case v of None \<Rightarrow> False | Some x \<Rightarrow> xs = x # ys)"
| "queue_effect xs (Refused_Push x) ys = (255 \<le> length xs \<and> ys = xs)"
| "queue_effect xs _ ys = (ys = xs)"

lemma producer_step_effect:
  assumes inv: "mpsc_inv T q" and few: "few_claims q" and st: "producer_step q p ev q' p'"
    and ps: "mq_producers q = ps @ p # ps'"
  shows "queue_effect (queued q) ev (queued q')"
proof -
  have c: "counters_ok T q" and ok: "producer_ok T q p" using inv ps by (simp_all add: mpsc_inv_def)
  note t = taken_length [OF c]
  from st show ?thesis
  proof cases
    case (seq_behind pos x)
    then show ?thesis using refused_needs_full [OF inv few] ok by simp
  next
    case (claim_head pos x)
    have "length (mq_claimed q) < T + 256" using ok c claim_head by (simp add: counters_ok_def)
    then have "length (queued q) < 256" using t by (simp add: queued_def split: if_splits)
    moreover have "length (mq_taken q) \<le> length (mq_claimed q)" using c by (simp add: counters_ok_def)
    ultimately show ?thesis using claim_head by (simp add: queued_def)
  qed (simp_all add: queued_def)
qed

text \<open>
  C8: the lock-free queue refines a bounded queue. In every interleaving of producers and the consumer
  with fewer than 2^31 - 512 pushes, a step that claims a place appends the value to a list of
  less than 256, a refused push finds at least 255 in it, a pop returns and removes its first
  value, and every other step leaves the list as it is: nothing is lost, doubled or reordered.
\<close>

theorem bounded_queue_is_fifo:
  assumes "queue_reachable q" "queue_step q ev q'" "few_claims q'"
  shows "queue_effect (queued q) ev (queued q')"
proof -
  have few: "few_claims q" using assms step_few by blast
  obtain T where inv: "mpsc_inv T q" using assms reachable_queue_inv few by blast
  from assms(2) show ?thesis
  proof cases
    case (push_steps p q'' p' ps ps')
    then show ?thesis using producer_step_effect [OF inv few] by (simp add: queued_def)
  next
    case (pop_takes v)
    note tq = take_queued [OF inv few pop_takes(3-4)]
    then show ?thesis using take_inv(1) [OF inv few pop_takes(3-4)] pop_takes by (simp add: queued_def)
  qed (simp_all add: queued_def)
qed

theorem empty_answer_means_empty:
  assumes "queue_reachable q" "few_claims q" "queue_step q Empty_Pop q'" "claims q = []"
  shows "queued q = []"
proof -
  obtain T where inv: "mpsc_inv T q" using assms reachable_queue_inv by blast
  then have c: "counters_ok T q" by (simp add: mpsc_inv_def)
  have np: "\<not> mq_popping q" and ne: "mq_seq q ! slot_of (mq_tail q) \<noteq> mq_tail q + 1"
    using assms(3) by (auto elim: queue_step.cases producer_stepE)
  have "length (mq_claimed q) \<le> T" using published_slot [OF inv assms(2) np] ne assms(4) by auto
  then show ?thesis using taken_length [OF c] np by (simp add: queued_def)
qed

end
