(* ===== verification/Slot_Registry.thy ===== *)
theory Slot_Registry
  imports Complex_Main "HOL-Library.Multiset" Framing_V1
begin

unbundle bit_operations_syntax

text \<open>
  The slots of the version 0.1 scheduler: the slot record, its handshake state and heartbeats
  (\<open>scheduler/slot_registry.hpp\<close>) and the choice of slots for a task (\<open>scheduler/score_engine.cpp\<close>).
  Scores are doubles over an abstract record of operations, \<open>std::sort\<close> is a parameter with the
  contract \<open>comparison_sort\<close>, which insertion sort meets.
\<close>

section \<open>Slots\<close>

datatype slot_key = Slot_Key (sk_worker: u16) (sk_slot: u8)

lemma slot_key_eq_iff: "a = b \<longleftrightarrow> sk_worker a = sk_worker b \<and> sk_slot a = sk_slot b"
  by (cases a; cases b) simp

text \<open>The order of \<open>SlotKey::operator<\<close>.\<close>

definition slot_key_before :: "slot_key \<Rightarrow> slot_key \<Rightarrow> bool" where
  "slot_key_before a b \<longleftrightarrow> (if sk_worker a \<noteq> sk_worker b then sk_worker a < sk_worker b else sk_slot a < sk_slot b)"

instantiation slot_key :: linorder
begin

definition less_slot_key :: "slot_key \<Rightarrow> slot_key \<Rightarrow> bool" where
  "less_slot_key a b \<longleftrightarrow> slot_key_before a b"

definition less_eq_slot_key :: "slot_key \<Rightarrow> slot_key \<Rightarrow> bool" where
  "less_eq_slot_key a b \<longleftrightarrow> a < b \<or> a = b"

instance
  by standard (auto simp: slot_key_before_def less_slot_key_def less_eq_slot_key_def slot_key_eq_iff split: if_splits)

end

datatype connection_state = Conn_Seen | Conn_Invited | Conn_Active

type_synonym time_point = int

record 'd slot_state =
  ss_worker_id :: u16
  ss_slot_id :: u8
  ss_type :: u8
  ss_alive :: bool
  ss_ready :: bool
  ss_busy :: bool
  ss_degraded :: bool
  ss_error :: bool
  ss_thermal_limit :: bool
  ss_model_loading :: bool
  ss_load :: u8
  ss_queue_depth :: u8
  ss_seq :: u8
  ss_worker_score :: u16
  ss_vram_free_mb :: u32
  ss_prefix_affinity :: u8
  ss_tokens_per_sec :: u16
  ss_avg_latency_ms :: 'd
  ss_success_count :: u32
  ss_error_count :: u32
  ss_timeout_count :: u32
  ss_last_heartbeat :: time_point
  ss_last_used :: time_point
  ss_cooldown_until :: time_point
  ss_ip :: string
  ss_tcp_port :: u16
  ss_conn_state :: connection_state

text \<open>
  Doubles: the type \<open>'d\<close> with the comparisons of its order and the operations of this record;
  \<open>fl_rat\<close> rounds an exact value. No comparison here meets a NaN.
\<close>

record 'd float_ops =
  fl_rat :: "rat \<Rightarrow> 'd"
  fl_add :: "'d \<Rightarrow> 'd \<Rightarrow> 'd"
  fl_sub :: "'d \<Rightarrow> 'd \<Rightarrow> 'd"
  fl_mul :: "'d \<Rightarrow> 'd \<Rightarrow> 'd"
  fl_div :: "'d \<Rightarrow> 'd \<Rightarrow> 'd"
  fl_sqrt :: "'d \<Rightarrow> 'd"

definition fl_word :: "'d float_ops \<Rightarrow> 'a::len word \<Rightarrow> 'd" where
  "fl_word F w = fl_rat F (of_nat (unat w))"

definition new_slot :: "'d float_ops \<Rightarrow> 'd slot_state" where
  "new_slot F = \<lparr>ss_worker_id = 0, ss_slot_id = 0, ss_type = 1, ss_alive = False, ss_ready = False, ss_busy = False,
     ss_degraded = False, ss_error = False, ss_thermal_limit = False, ss_model_loading = False, ss_load = 0,
     ss_queue_depth = 0, ss_seq = 0, ss_worker_score = 0, ss_vram_free_mb = 0, ss_prefix_affinity = 0,
     ss_tokens_per_sec = 0, ss_avg_latency_ms = fl_rat F 0, ss_success_count = 0, ss_error_count = 0,
     ss_timeout_count = 0, ss_last_heartbeat = 0, ss_last_used = 0, ss_cooldown_until = 0, ss_ip = [],
     ss_tcp_port = 0, ss_conn_state = Conn_Seen\<rparr>"

definition on_invite_sent :: "'d slot_state \<Rightarrow> 'd slot_state" where
  "on_invite_sent s = (if ss_conn_state s = Conn_Seen then s\<lparr>ss_conn_state := Conn_Invited\<rparr> else s)"

definition on_invite_ack :: "'d slot_state \<Rightarrow> 'd slot_state" where
  "on_invite_ack s = (if ss_conn_state s = Conn_Invited then s\<lparr>ss_conn_state := Conn_Active\<rparr> else s)"

abbreviation (input) SLOT_ALIVE :: u8 where "SLOT_ALIVE \<equiv> 0x01"
abbreviation (input) SLOT_READY :: u8 where "SLOT_READY \<equiv> 0x02"
abbreviation (input) SLOT_BUSY :: u8 where "SLOT_BUSY \<equiv> 0x04"
abbreviation (input) SLOT_DEGRADED :: u8 where "SLOT_DEGRADED \<equiv> 0x08"
abbreviation (input) SLOT_ERROR :: u8 where "SLOT_ERROR \<equiv> 0x10"
abbreviation (input) SLOT_THERMAL_LIMIT :: u8 where "SLOT_THERMAL_LIMIT \<equiv> 0x20"
abbreviation (input) SLOT_MODEL_LOADING :: u8 where "SLOT_MODEL_LOADING \<equiv> 0x40"

definition slot_heartbeat :: "time_point \<Rightarrow> 'd slot_state \<Rightarrow> heartbeat_compact \<Rightarrow> 'd slot_state" where
  "slot_heartbeat now s hb = s\<lparr>
     ss_alive := hb_slot_flags hb AND SLOT_ALIVE \<noteq> 0,
     ss_ready := hb_slot_flags hb AND SLOT_READY \<noteq> 0,
     ss_busy := hb_slot_flags hb AND SLOT_BUSY \<noteq> 0,
     ss_degraded := hb_slot_flags hb AND SLOT_DEGRADED \<noteq> 0,
     ss_error := hb_slot_flags hb AND SLOT_ERROR \<noteq> 0,
     ss_thermal_limit := hb_slot_flags hb AND SLOT_THERMAL_LIMIT \<noteq> 0,
     ss_model_loading := hb_slot_flags hb AND SLOT_MODEL_LOADING \<noteq> 0,
     ss_load := hb_load hb, ss_queue_depth := hb_queue_depth hb, ss_seq := hb_sequence hb,
     ss_worker_score := hb_worker_score hb, ss_last_heartbeat := now\<rparr>"

definition expire_slot :: "'d slot_state \<Rightarrow> 'd slot_state" where
  "expire_slot s = s\<lparr>ss_alive := False, ss_ready := False, ss_busy := False, ss_load := 250,
     ss_conn_state := Conn_Seen\<rparr>"

text \<open>A \<open>std::map\<close>: its entries in key order, and \<open>operator[]\<close> followed by an assignment.\<close>

fun map_insert :: "'k::linorder \<Rightarrow> 'v \<Rightarrow> ('k, 'v) umap \<Rightarrow> ('k, 'v) umap" where
  "map_insert k v [] = [(k, v)]"
| "map_insert k v ((k', v') # m) =
     (if k < k' then (k, v) # (k', v') # m else if k = k' then (k, v) # m else (k', v') # map_insert k v m)"

type_synonym 'd slots = "(slot_key, 'd slot_state) umap"

section \<open>Scoring\<close>

abbreviation (input) seconds :: "int \<Rightarrow> time_point" where "seconds n \<equiv> n * 1000000000"
abbreviation (input) SLOT_HEARTBEAT_TIMEOUT :: time_point where "SLOT_HEARTBEAT_TIMEOUT \<equiv> seconds 5"

definition is_eligible :: "'d slot_state \<Rightarrow> time_point \<Rightarrow> bool" where
  "is_eligible s now =
     (if ss_conn_state s \<noteq> Conn_Active then False
      else if \<not> ss_alive s then False
      else if \<not> ss_ready s then False
      else if ss_error s then False
      else if ss_model_loading s then False
      else if ss_thermal_limit s then False
      else if 90 \<le> ss_load s then False
      else if 8 \<le> ss_queue_depth s then False
      else if ss_last_heartbeat s = 0 then False
      else if ss_last_heartbeat s + SLOT_HEARTBEAT_TIMEOUT < now then False
      else if now < ss_cooldown_until s then False
      else True)"

definition min_one :: "'d::linorder float_ops \<Rightarrow> 'd \<Rightarrow> 'd" where
  "min_one F x = (if x < fl_rat F 1 then x else fl_rat F 1)"

definition score_slot :: "'d::linorder float_ops \<Rightarrow> 'd slot_state \<Rightarrow> 'd" where
  "score_slot F s =
     (let add = fl_add F; sub = fl_sub F; mul = fl_mul F; dv = fl_div F; lit = fl_rat F;
          norm_load = min_one F (dv (fl_word F (ss_load s)) (lit 100));
          norm_queue = min_one F (dv (fl_word F (ss_queue_depth s)) (lit 8));
          vram_base = (if 0 < ss_vram_free_mb s then fl_word F (ss_vram_free_mb s) else lit 8192);
          vram_pressure = sub (lit 1) (min_one F (dv vram_base (lit 16384)));
          norm_prefix = min_one F (dv (fl_word F (ss_prefix_affinity s)) (lit 100));
          norm_tps = min_one F (dv (fl_word F (ss_tokens_per_sec s)) (lit 100));
          x = sub (sub (add (add (mul (lit 1) norm_load) (mul (lit 2) norm_queue)) (mul (lit (3/2)) vram_pressure))
                (mul (lit 3) norm_prefix)) (mul (lit (1/2)) norm_tps);
          norm_worker_score = min_one F (dv (fl_word F (ss_worker_score s)) (lit 100));
          x = add (mul (lit (35/100)) norm_worker_score) (mul (lit (65/100)) x);
          x = add x (mul (dv (ss_avg_latency_ms s) (lit 1000)) (lit (1/2)));
          x = (if ss_busy s then add x (lit 2) else x);
          x = (if ss_degraded s then add x (lit 5) else x);
          x = (if ss_thermal_limit s then add x (lit 10) else x);
          x = add x (mul (fl_word F (ss_timeout_count s)) (lit (3/2)));
          x = add x (mul (fl_word F (ss_error_count s)) (lit (5/2)))
      in x)"

definition is_better_tie :: "'d::linorder slot_state \<Rightarrow> 'd slot_state \<Rightarrow> bool" where
  "is_better_tie a b =
     (if ss_queue_depth a \<noteq> ss_queue_depth b then ss_queue_depth a < ss_queue_depth b
      else if ss_avg_latency_ms a \<noteq> ss_avg_latency_ms b then ss_avg_latency_ms a < ss_avg_latency_ms b
      else ss_last_used a < ss_last_used b)"

definition cooldown_for :: "u32 \<Rightarrow> time_point" where
  "cooldown_for failures = (if failures \<le> 1 then seconds 5 else if failures = 2 then seconds 30 else seconds 120)"

section \<open>Selection\<close>

record 'd candidate =
  ca_key :: slot_key
  ca_slot :: "'d slot_state"
  ca_score :: 'd

definition candidate_less :: "'d::linorder candidate \<Rightarrow> 'd candidate \<Rightarrow> bool" where
  "candidate_less a b =
     (if ca_score a \<noteq> ca_score b then ca_score a < ca_score b else is_better_tie (ca_slot a) (ca_slot b))"

fun pick_workers :: "int \<Rightarrow> u16 set \<Rightarrow> slot_key list \<Rightarrow> 'd candidate list \<Rightarrow> slot_key list" where
  "pick_workers k used result [] = result"
| "pick_workers k used result (c # cs) =
     (if sk_worker (ca_key c) \<in> used then pick_workers k used result cs
      else
        let result = result @ [ca_key c] in
        if k \<le> int (length result) then result
        else pick_workers k (insert (sk_worker (ca_key c)) used) result cs)"

text \<open>\<open>std::sort\<close> is the parameter \<open>srt\<close>: the order of equal candidates is its own choice.\<close>

type_synonym 'd sorter = "('d candidate \<Rightarrow> 'd candidate \<Rightarrow> bool) \<Rightarrow> 'd candidate list \<Rightarrow> 'd candidate list"

definition candidate_of :: "'d::linorder float_ops \<Rightarrow> slot_key \<Rightarrow> 'd slot_state \<Rightarrow> 'd candidate" where
  "candidate_of F key slot = \<lparr>ca_key = key, ca_slot = slot, ca_score = score_slot F slot\<rparr>"

definition candidates_for :: "'d::linorder float_ops \<Rightarrow> 'd slots \<Rightarrow> u8 \<Rightarrow> time_point \<Rightarrow> 'd candidate list" where
  "candidates_for F slots ty now =
     map (\<lambda>(key, slot). candidate_of F key slot)
       (filter (\<lambda>(key, slot). ss_type slot = ty \<and> is_eligible slot now) slots)"

definition select_best_slots :: "'d::linorder float_ops \<Rightarrow> 'd sorter \<Rightarrow> 'd slots \<Rightarrow> u8 \<Rightarrow> time_point \<Rightarrow> int
    \<Rightarrow> slot_key list" where
  "select_best_slots F srt slots ty now k =
     (if k \<le> 0 then [] else pick_workers k {} [] (srt candidate_less (candidates_for F slots ty now)))"

definition select_best_slot :: "'d::linorder float_ops \<Rightarrow> 'd sorter \<Rightarrow> 'd slots \<Rightarrow> u8 \<Rightarrow> time_point
    \<Rightarrow> slot_key option" where
  "select_best_slot F srt slots ty now =
     (case select_best_slots F srt slots ty now 1 of [] \<Rightarrow> None | k # _ \<Rightarrow> Some k)"

section \<open>The map\<close>

lemma map_of_map_insert [simp]: "map_of (map_insert k v m) = (map_of m)(k \<mapsto> v)"
  by (induction m) auto

lemma keys_map_insert [simp]: "fst ` set (map_insert k v m) = insert k (fst ` set m)"
proof (induction m)
  case (Cons a m)
  then show ?case by (cases a) (simp add: insert_commute)
qed simp

lemma sorted_map_insert: "sorted_wrt (<) (map fst m) \<Longrightarrow> sorted_wrt (<) (map fst (map_insert k v m))"
proof (induction m)
  case (Cons a m)
  have "set (map fst (map_insert k v m)) = insert k (set (map fst m))" using keys_map_insert [of k v m] by simp
  with Cons show ?case by (cases a) (auto simp del: set_map)
qed simp

section \<open>What selection promises\<close>

text \<open>The contract of \<open>std::sort\<close> for a strict weak order: a permutation, in order.\<close>

definition strict_weak :: "('a \<Rightarrow> 'a \<Rightarrow> bool) \<Rightarrow> bool" where
  "strict_weak lt \<longleftrightarrow> (\<forall>a. \<not> lt a a) \<and> (\<forall>a b c. lt a b \<longrightarrow> lt b c \<longrightarrow> lt a c) \<and>
     (\<forall>a b c. \<not> lt a b \<longrightarrow> \<not> lt b c \<longrightarrow> \<not> lt a c)"

locale comparison_sort =
  fixes srt :: "('a \<Rightarrow> 'a \<Rightarrow> bool) \<Rightarrow> 'a list \<Rightarrow> 'a list"
  assumes sort_permutes: "strict_weak lt \<Longrightarrow> mset (srt lt xs) = mset xs"
    and sort_orders: "strict_weak lt \<Longrightarrow> sorted_wrt (\<lambda>a b. \<not> lt b a) (srt lt xs)"
begin

lemma sort_set: "strict_weak lt \<Longrightarrow> set (srt lt xs) = set xs"
  using sort_permutes by (metis set_mset_mset)

lemma sort_distinct: "strict_weak lt \<Longrightarrow> distinct (map f (srt lt xs)) = distinct (map f xs)"
  using sort_permutes [of lt xs] by (metis mset_eq_imp_distinct_iff mset_map)

end

fun insert_by :: "('a \<Rightarrow> 'a \<Rightarrow> bool) \<Rightarrow> 'a \<Rightarrow> 'a list \<Rightarrow> 'a list" where
  "insert_by lt x [] = [x]"
| "insert_by lt x (y # ys) = (if lt y x then y # insert_by lt x ys else x # y # ys)"

definition insertion_sort :: "('a \<Rightarrow> 'a \<Rightarrow> bool) \<Rightarrow> 'a list \<Rightarrow> 'a list" where
  "insertion_sort lt xs = foldr (insert_by lt) xs []"

lemma mset_insert_by [simp]: "mset (insert_by lt x ys) = add_mset x (mset ys)"
  by (induction ys) auto

lemma set_insert_by [simp]: "set (insert_by lt x ys) = insert x (set ys)"
  by (induction ys) auto

lemma insert_by_sorted:
  assumes "strict_weak lt" "sorted_wrt (\<lambda>a b. \<not> lt b a) ys"
  shows "sorted_wrt (\<lambda>a b. \<not> lt b a) (insert_by lt x ys)"
  using assms(2)
proof (induction ys)
  case (Cons y ys)
  have asym: "lt y x \<Longrightarrow> \<not> lt x y" using assms(1) unfolding strict_weak_def by metis
  have neg: "\<not> lt y x \<Longrightarrow> \<not> lt z y \<Longrightarrow> \<not> lt z x" for z using assms(1) unfolding strict_weak_def by metis
  show ?case
  proof (cases "lt y x")
    case True
    then show ?thesis using Cons asym by simp
  next
    case False
    then show ?thesis using Cons.prems neg by simp
  qed
qed simp

interpretation insertion: comparison_sort insertion_sort
proof
  fix lt :: "'a \<Rightarrow> 'a \<Rightarrow> bool" and xs :: "'a list"
  show "mset (insertion_sort lt xs) = mset xs" by (induction xs) (simp_all add: insertion_sort_def)
  assume "strict_weak lt"
  then show "sorted_wrt (\<lambda>a b. \<not> lt b a) (insertion_sort lt xs)"
    by (induction xs) (simp_all add: insertion_sort_def insert_by_sorted)
qed

lemma candidate_less_weak: "strict_weak (candidate_less :: 'd::linorder candidate \<Rightarrow> _)"
  unfolding strict_weak_def candidate_less_def is_better_tie_def
  by (intro conjI allI impI) (auto split: if_splits)

lemma candidates_in:
  "c \<in> set (candidates_for F slots ty now) \<longleftrightarrow>
     (\<exists>key slot. c = candidate_of F key slot \<and> (key, slot) \<in> set slots \<and> ss_type slot = ty \<and> is_eligible slot now)"
  by (auto simp: candidates_for_def)

lemma candidate_of_sel [simp]:
  "ca_key (candidate_of F key slot) = key" "ca_slot (candidate_of F key slot) = slot"
  by (simp_all add: candidate_of_def)

text \<open>A candidate that is passed over has a better one of its worker before it, or came too late.\<close>

definition passed_over :: "int \<Rightarrow> ('d candidate \<Rightarrow> 'd candidate \<Rightarrow> bool) \<Rightarrow> 'd candidate list \<Rightarrow> slot_key list
    \<Rightarrow> nat \<Rightarrow> 'd candidate \<Rightarrow> bool" where
  "passed_over k R cs new n c \<longleftrightarrow>
     (\<exists>c' \<in> set cs. ca_key c' \<in> set new \<and> sk_worker (ca_key c') = sk_worker (ca_key c) \<and> R c' c) \<or>
     (k \<le> int n \<and> (\<forall>key \<in> set new. \<exists>c' \<in> set cs. ca_key c' = key \<and> R c' c))"

lemma passed_over_Cons: "passed_over k R cs new n x \<Longrightarrow> passed_over k R (c # cs) new n x"
  unfolding passed_over_def by (meson list.set_intros(2))

lemma pick_workers_spec:
  assumes "sorted_wrt R cs" "\<forall>c. R c c" "int (length result) < k"
  shows "\<exists>new. pick_workers k used result cs = result @ new \<and> int (length (result @ new)) \<le> k \<and>
     set new \<subseteq> ca_key ` set cs \<and> distinct (map sk_worker new) \<and> sk_worker ` set new \<inter> used = {} \<and>
     (\<forall>c \<in> set cs. sk_worker (ca_key c) \<in> used \<or> passed_over k R cs new (length (result @ new)) c)"
  using assms(1,3)
proof (induction cs arbitrary: used result)
  case Nil
  then show ?case by simp
next
  case (Cons c cs)
  have R: "\<forall>x \<in> set cs. R c x" and so: "sorted_wrt R cs" using Cons.prems by simp_all
  consider (used) "sk_worker (ca_key c) \<in> used"
    | (last) "sk_worker (ca_key c) \<notin> used" "k \<le> int (length (result @ [ca_key c]))"
    | (more) "sk_worker (ca_key c) \<notin> used" "int (length (result @ [ca_key c])) < k" by linarith
  then show ?case
  proof cases
    case used
    from Cons.IH [OF so Cons.prems(2), of used] obtain new where new:
      "pick_workers k used result cs = result @ new" "int (length (result @ new)) \<le> k" "set new \<subseteq> ca_key ` set cs"
      "distinct (map sk_worker new)" "sk_worker ` set new \<inter> used = {}"
      "\<forall>c \<in> set cs. sk_worker (ca_key c) \<in> used \<or> passed_over k R cs new (length (result @ new)) c" by blast
    have "sk_worker (ca_key x) \<in> used \<or> passed_over k R (c # cs) new (length (result @ new)) x"
      if "x \<in> set (c # cs)" for x
      using that new(6) used passed_over_Cons [of k R cs new "length (result @ new)" x c] by auto
    then show ?thesis using used new(1-5) by (intro exI [of _ new]) auto
  next
    case last
    have "passed_over k R (c # cs) [ca_key c] (length (result @ [ca_key c])) x" if "x \<in> set (c # cs)" for x
      using that R assms(2) last by (auto simp: passed_over_def)
    then show ?thesis using last Cons.prems(2) by (intro exI [of _ "[ca_key c]"]) simp
  next
    case more
    let ?w = "sk_worker (ca_key c)"
    from Cons.IH [OF so more(2), of "insert ?w used"] obtain new where
      new: "pick_workers k (insert ?w used) (result @ [ca_key c]) cs = (result @ [ca_key c]) @ new"
      "int (length ((result @ [ca_key c]) @ new)) \<le> k" "set new \<subseteq> ca_key ` set cs"
      "distinct (map sk_worker new)" "sk_worker ` set new \<inter> insert ?w used = {}"
      "\<forall>x \<in> set cs. sk_worker (ca_key x) \<in> insert ?w used \<or>
         passed_over k R cs new (length ((result @ [ca_key c]) @ new)) x" by blast
    have "sk_worker (ca_key x) \<in> used \<or>
        passed_over k R (c # cs) (ca_key c # new) (length (result @ ca_key c # new)) x" if x: "x \<in> set (c # cs)" for x
    proof -
      have Rc: "R c x" using x R assms(2) by auto
      consider (same) "sk_worker (ca_key x) = ?w" | (old) "sk_worker (ca_key x) \<in> used"
        | (po) "passed_over k R cs new (length ((result @ [ca_key c]) @ new)) x"
        using new(6) x by auto
      then show ?thesis
      proof cases
        case same
        then show ?thesis using Rc by (auto simp: passed_over_def)
      next
        case po
        then show ?thesis using Rc unfolding passed_over_def by fastforce
      qed simp
    qed
    then show ?thesis using new more by (intro exI [of _ "ca_key c # new"]) auto
  qed
qed

text \<open>
  C19: slot selection. For k slots, whatever order std::sort gives to equal candidates:
  at most k slots are chosen, of different workers, each of the type asked for and eligible
  (active handshake, alive, ready, no fault, load below 90, queue below 8, a heartbeat within
  five seconds, no cooldown). An eligible slot that is not chosen has a chosen slot of the same
  worker that does not rank below it, or k slots were chosen and none of them ranks below it.
\<close>

theorem selection_takes_the_best:
  assumes "comparison_sort (srt :: 'd::linorder sorter)" and "distinct (map fst slots)" and "0 < k"
    and "select_best_slots F srt slots ty now k = sel"
  shows "int (length sel) \<le> k \<and> distinct (map sk_worker sel) \<and>
    (\<forall>key \<in> set sel. \<exists>slot. map_of slots key = Some slot \<and> ss_type slot = ty \<and> is_eligible slot now) \<and>
    (\<forall>key slot. map_of slots key = Some slot \<longrightarrow> ss_type slot = ty \<longrightarrow> is_eligible slot now \<longrightarrow>
       (\<exists>key' slot'. key' \<in> set sel \<and> map_of slots key' = Some slot' \<and> sk_worker key' = sk_worker key \<and>
          \<not> candidate_less (candidate_of F key slot) (candidate_of F key' slot')) \<or>
       (int (length sel) = k \<and> (\<forall>key' \<in> set sel. \<exists>slot'. map_of slots key' = Some slot' \<and>
          \<not> candidate_less (candidate_of F key slot) (candidate_of F key' slot'))))"
proof -
  let ?c = "candidates_for F slots ty now"
  let ?R = "\<lambda>a b :: 'd candidate. \<not> candidate_less b a"
  let ?cs = "srt candidate_less ?c"
  have set: "set ?cs = set ?c" by (rule comparison_sort.sort_set [OF assms(1) candidate_less_weak])
  have so: "sorted_wrt ?R ?cs" by (rule comparison_sort.sort_orders [OF assms(1) candidate_less_weak])
  have refl: "\<forall>c. ?R c c" using candidate_less_weak by (auto simp: strict_weak_def)
  have kn: "int (length ([] :: slot_key list)) < k" using assms(3) by simp
  have pick: "pick_workers k {} [] ?cs = sel" using assms(3,4) by (simp add: select_best_slots_def)
  from pick_workers_spec [OF so refl kn, of "{}"] pick
  have sel: "int (length sel) \<le> k" "set sel \<subseteq> ca_key ` set ?c" "distinct (map sk_worker sel)"
    "\<And>c. c \<in> set ?c \<Longrightarrow> passed_over k ?R ?cs sel (length sel) c"
    using set by auto
  have cand: "\<exists>slot. map_of slots (ca_key c) = Some slot \<and> c = candidate_of F (ca_key c) slot \<and>
      ss_type slot = ty \<and> is_eligible slot now" if "c \<in> set ?c" for c
    using that assms(2) by (auto simp: candidates_in)
  have "\<exists>slot. map_of slots key = Some slot \<and> ss_type slot = ty \<and> is_eligible slot now" if "key \<in> set sel" for key
    using that sel(2) cand by blast
  moreover have "(\<exists>key' slot'. key' \<in> set sel \<and> map_of slots key' = Some slot' \<and> sk_worker key' = sk_worker key \<and>
          \<not> candidate_less (candidate_of F key slot) (candidate_of F key' slot')) \<or>
       (int (length sel) = k \<and> (\<forall>key' \<in> set sel. \<exists>slot'. map_of slots key' = Some slot' \<and>
          \<not> candidate_less (candidate_of F key slot) (candidate_of F key' slot')))"
    if el: "map_of slots key = Some slot" "ss_type slot = ty" "is_eligible slot now" for key slot
  proof -
    have "candidate_of F key slot \<in> set ?c" using el map_of_SomeD [OF el(1)] by (auto simp: candidates_in)
    from sel(4) [OF this] consider
        (same) c' where "c' \<in> set ?c" "ca_key c' \<in> set sel" "sk_worker (ca_key c') = sk_worker key"
          "\<not> candidate_less (candidate_of F key slot) c'"
      | (full) "k \<le> int (length sel)"
          "\<forall>key' \<in> set sel. \<exists>c' \<in> set ?c. ca_key c' = key' \<and> \<not> candidate_less (candidate_of F key slot) c'"
      unfolding passed_over_def set by auto
    then show ?thesis
    proof cases
      case same
      then show ?thesis using cand [OF same(1)] by metis
    next
      case full
      have "\<exists>slot'. map_of slots key' = Some slot' \<and>
          \<not> candidate_less (candidate_of F key slot) (candidate_of F key' slot')" if "key' \<in> set sel" for key'
        using full(2) that cand by metis
      then show ?thesis using full(1) sel(1) by auto
    qed
  qed
  ultimately show ?thesis using sel by blast
qed

end
