(* ===== verification/Task_Scheduler.thy ===== *)
theory Task_Scheduler
  imports Task_Transport Task_Queue Slot_Registry
begin

unbundle bit_operations_syntax

text \<open>
  The version 0.1 scheduler (\<open>scheduler/scheduler.cpp\<close>): its state, the calls of its interface, the
  loop thread, and the dispatch threads as program counters, so that a step is one access to state
  that threads share. The pending queue is the list that \<open>Task_Queue\<close> refines.
\<close>

section \<open>Tasks and their transport\<close>

text \<open>A callback with its user data is a value of type \<open>'c\<close>; \<open>None\<close> is the null pointer.\<close>

record 'c pending_task =
  pt_correlation_id :: u32
  pt_type :: u8
  pt_payload :: bytes
  pt_timeout_ms :: u32
  pt_max_attempts :: u32
  pt_attempt_count :: u32
  pt_callback :: "'c option"

record partial_result =
  pr_slot :: slot_key
  pr_status :: result_status
  pr_payload :: bytes
  pr_diag :: helper_diag

definition dispatch_header :: "'c pending_task \<Rightarrow> slot_key \<Rightarrow> linep_header" where
  "dispatch_header t key = make_header mt_task 0 (of_nat (length (pt_payload t))) (pt_correlation_id t)
     (pt_correlation_id t) (sk_worker key) (sk_slot key)"

definition dispatch_send :: "'w os \<Rightarrow> 'w \<Rightarrow> fd \<Rightarrow> 'c pending_task \<Rightarrow> slot_key \<Rightarrow> 'w \<times> bool" where
  "dispatch_send os w s t key =
     (let (w, ok) = send_part os w s (header_bytes (dispatch_header t key)) in
      if \<not> ok then (os_close os w s, False)
      else if pt_payload t \<noteq> [] then
        let (w, ok) = send_part os w s (pt_payload t) in
        if \<not> ok then (os_close os w s, False) else (w, True)
      else (w, True))"

definition dispatch_receive :: "'w os \<Rightarrow> 'w \<Rightarrow> fd \<Rightarrow> slot_key \<Rightarrow> 'w \<times> partial_result option" where
  "dispatch_receive os w s key =
     (case recv_part os w s 24 of
        (w, None) \<Rightarrow> (os_close os w s, None)
      | (w, Some hb) \<Rightarrow>
          let h = header_of_bytes hb in
          if \<not> validate_header h then (os_close os w s, None)
          else
            let (w, body) = (if h1_payload_len h \<noteq> 0 then recv_part os w s (unat (h1_payload_len h))
                             else (w, Some [])) in
            case body of None \<Rightarrow> (os_close os w s, None)
            | Some p \<Rightarrow>
                let w = os_close os w s;
                    status = (if p \<noteq> [] then p ! 0 else rs_ok);
                    p = drop 1 p;
                    status = (if h1_msg_type h = mt_error then rs_model_error else status)
                in (w, Some \<lparr>pr_slot = key, pr_status = status, pr_payload = p, pr_diag = parse_helper_diag p\<rparr>))"

text \<open>\<open>dispatch_transport\<close> between its two uses of the slot table, with the socket of \<open>tcp_connect\<close>.\<close>

definition dispatch_exchange :: "'w os \<Rightarrow> 'w \<Rightarrow> fd option \<Rightarrow> 'c pending_task \<Rightarrow> slot_key
    \<Rightarrow> 'w \<times> partial_result option" where
  "dispatch_exchange os w sock t key =
     (case sock of None \<Rightarrow> (w, None)
      | Some s \<Rightarrow>
          let (w, ok) = dispatch_send os w s t key in
          if \<not> ok then (w, None) else dispatch_receive os w s key)"

section \<open>Consensus over partial results\<close>

definition cosine_similarity :: "'d::linorder float_ops \<Rightarrow> 'd list \<Rightarrow> 'd list \<Rightarrow> 'd" where
  "cosine_similarity F a b =
     (if a = [] \<or> length a \<noteq> length b then fl_rat F 0
      else
        let (dot, na, nb) = foldl (\<lambda>(dot, na, nb) (x, y).
              (fl_add F dot (fl_mul F x y), fl_add F na (fl_mul F x x), fl_add F nb (fl_mul F y y)))
              (fl_rat F 0, fl_rat F 0, fl_rat F 0) (zip a b);
            denom = fl_mul F (fl_sqrt F na) (fl_sqrt F nb)
        in if fl_rat F (1 / 10 ^ 12) < denom then fl_div F dot denom else fl_rat F 0)"

text \<open>\<open>provider\<close> is the provider: the vector of a text, empty when it failed; \<open>None\<close> when none is set.\<close>

definition best_average :: "'d::linorder float_ops \<Rightarrow> 'd list list \<Rightarrow> nat" where
  "best_average F vecs =
     fst (foldl (\<lambda>(best, best_score) i.
       let total = foldl (\<lambda>total j. if i \<noteq> j then fl_add F total (cosine_similarity F (vecs ! i) (vecs ! j)) else total)
             (fl_rat F 0) [0..<length vecs];
           avg = fl_div F total (fl_rat F (of_nat (length vecs - 1)))
       in if best_score < avg then (i, avg) else (best, best_score)) (0, fl_rat F (- 1)) [0..<length vecs])"

definition consensus_pick :: "'d::linorder float_ops \<Rightarrow> (bytes \<Rightarrow> 'd list) option \<Rightarrow> bytes list \<Rightarrow> nat" where
  "consensus_pick F provider payloads =
     (case provider of None \<Rightarrow> 0
      | Some f \<Rightarrow>
          if length payloads \<le> 1 then 0
          else if [] \<in> set (map f payloads) then 0
          else best_average F (map f payloads))"

section \<open>Scheduler state\<close>

record 'c shared_dispatch =
  sh_task :: "'c pending_task"
  sh_done :: bool
  sh_partials :: "partial_result list"
  sh_remaining :: int

text \<open>Where a thread of \<open>dispatch_one_slot\<close> stands.\<close>

datatype dispatch_pc =
    Transport
  | Record_Partial partial_result
  | Complete_Ok partial_result
  | Count_Down
  | Check_Done
  | Complete_With result_status bytes
  | Retry
  | Leave

record dispatch_thread =
  dt_slot :: slot_key
  dt_shared :: nat
  dt_pc :: dispatch_pc

datatype 'c loop_state =
    Loop_Off
  | Loop_Test
  | Loop_Drain time_point "'c pending_task list"
  | Loop_Dispatch time_point "'c pending_task list"

text \<open>
  The pending queue is the list that \<open>Task_Queue\<close> refines. \<open>sr_submitted\<close> is a ghost: what was
  submitted so far.
\<close>

record ('d, 'c) scheduler =
  sr_slots :: "'d slots"
  sr_pending :: "'c pending_task list"
  sr_running :: bool
  sr_active :: int
  sr_corr_gen :: u32
  sr_embed :: "(bytes \<Rightarrow> 'd list) option"
  sr_loop :: "'c loop_state"
  sr_shared :: "'c shared_dispatch list"
  sr_threads :: "dispatch_thread list"
  sr_calls :: "('c \<times> u32 \<times> result_status \<times> bytes) list"
  sr_submitted :: "'c pending_task list"

definition new_task_scheduler :: "'d slots \<Rightarrow> ('d, 'c) scheduler" where
  "new_task_scheduler slots = \<lparr>sr_slots = slots, sr_pending = [], sr_running = False, sr_active = 0, sr_corr_gen = 1,
     sr_embed = None, sr_loop = Loop_Off, sr_shared = [], sr_threads = [], sr_calls = [], sr_submitted = []\<rparr>"

definition slot_at :: "'d float_ops \<Rightarrow> 'd slots \<Rightarrow> slot_key \<Rightarrow> 'd slot_state" where
  "slot_at F m key = (case map_of m key of None \<Rightarrow> new_slot F | Some slot \<Rightarrow> slot)"

definition register_slot :: "'d float_ops \<Rightarrow> u16 \<Rightarrow> u8 \<Rightarrow> u8 \<Rightarrow> string \<Rightarrow> u16 \<Rightarrow> ('d, 'c) scheduler
    \<Rightarrow> ('d, 'c) scheduler" where
  "register_slot F wid sid ty ip port s =
     (let key = Slot_Key wid sid
      in s\<lparr>sr_slots := map_insert key ((slot_at F (sr_slots s) key)\<lparr>ss_worker_id := wid, ss_slot_id := sid,
           ss_type := ty, ss_tcp_port := port, ss_ip := take 63 ip\<rparr>) (sr_slots s)\<rparr>)"

definition apply_heartbeat :: "'d float_ops \<Rightarrow> time_point \<Rightarrow> heartbeat_compact \<Rightarrow> ('d, 'c) scheduler
    \<Rightarrow> ('d, 'c) scheduler" where
  "apply_heartbeat F now hb s =
     (let key = Slot_Key (hb_worker_id hb) (hb_slot_id hb);
          is_new = (map_of (sr_slots s) key = None);
          slot = (slot_at F (sr_slots s) key)\<lparr>ss_worker_id := hb_worker_id hb, ss_slot_id := hb_slot_id hb\<rparr>;
          slot = (if is_new then slot\<lparr>ss_conn_state := Conn_Seen\<rparr> else slot)
      in s\<lparr>sr_slots := map_insert key (slot_heartbeat now slot hb) (sr_slots s)\<rparr>)"

definition expire_stale :: "time_point \<Rightarrow> ('d, 'c) scheduler \<Rightarrow> ('d, 'c) scheduler" where
  "expire_stale now s = s\<lparr>sr_slots := map_vals (\<lambda>_ slot.
     if ss_last_heartbeat slot \<noteq> 0 \<and> ss_last_heartbeat slot + SLOT_HEARTBEAT_TIMEOUT < now
     then expire_slot slot else slot) (sr_slots s)\<rparr>"

definition on_slot_transport_failure :: "time_point \<Rightarrow> slot_key \<Rightarrow> ('d, 'c) scheduler \<Rightarrow> ('d, 'c) scheduler" where
  "on_slot_transport_failure now key s =
     (case map_of (sr_slots s) key of None \<Rightarrow> s
      | Some slot \<Rightarrow> s\<lparr>sr_slots := map_insert key (slot\<lparr>ss_busy := False, ss_timeout_count := ss_timeout_count slot + 1,
          ss_cooldown_until := now + cooldown_for (ss_timeout_count slot + 1)\<rparr>) (sr_slots s)\<rparr>)"

definition slot_answered :: "slot_key \<Rightarrow> ('d, 'c) scheduler \<Rightarrow> ('d, 'c) scheduler" where
  "slot_answered key s =
     (case map_of (sr_slots s) key of None \<Rightarrow> s
      | Some slot \<Rightarrow> s\<lparr>sr_slots := map_insert key (slot\<lparr>ss_busy := False,
          ss_success_count := ss_success_count slot + 1\<rparr>) (sr_slots s)\<rparr>)"

definition call_back :: "'c pending_task \<Rightarrow> result_status \<Rightarrow> bytes \<Rightarrow> ('c \<times> u32 \<times> result_status \<times> bytes) list" where
  "call_back t status payload =
     (case pt_callback t of None \<Rightarrow> [] | Some c \<Rightarrow> [(c, pt_correlation_id t, status, payload)])"

text \<open>What \<open>push\<close> may answer on a queue that holds \<open>xs\<close>.\<close>

definition push_answer :: "'a list \<Rightarrow> bool \<Rightarrow> bool" where
  "push_answer xs accepted = (if accepted then length xs < capacity else 255 \<le> length xs)"

definition submit :: "u8 \<Rightarrow> bytes \<Rightarrow> u32 \<Rightarrow> u32 \<Rightarrow> 'c option \<Rightarrow> bool \<Rightarrow> ('d, 'c) scheduler
    \<Rightarrow> ('d, 'c) scheduler \<times> u32" where
  "submit ty payload timeout attempts callback accepted s =
     (let corr_id = sr_corr_gen s;
          t = \<lparr>pt_correlation_id = corr_id, pt_type = ty, pt_payload = payload, pt_timeout_ms = timeout,
               pt_max_attempts = attempts, pt_attempt_count = 0, pt_callback = callback\<rparr>;
          s = s\<lparr>sr_corr_gen := corr_id + 1, sr_submitted := sr_submitted s @ [t]\<rparr>
      in (if accepted then s\<lparr>sr_pending := sr_pending s @ [t]\<rparr>
          else s\<lparr>sr_calls := sr_calls s @ call_back t rs_rejected []\<rparr>, corr_id))"

section \<open>Dispatch\<close>

definition mark_busy :: "time_point \<Rightarrow> 'd slots \<Rightarrow> slot_key \<Rightarrow> 'd slots" where
  "mark_busy now m key =
     (case map_of m key of None \<Rightarrow> m
      | Some slot \<Rightarrow> map_insert key (slot\<lparr>ss_busy := True, ss_last_used := now\<rparr>) m)"

text \<open>One round of the loop of \<open>dispatch_pending\<close>: a task gets its threads, or is rejected.\<close>

definition dispatch_task :: "'d::linorder float_ops \<Rightarrow> 'd sorter \<Rightarrow> time_point \<Rightarrow> 'c pending_task
    \<Rightarrow> ('d, 'c) scheduler \<Rightarrow> ('d, 'c) scheduler" where
  "dispatch_task F srt now t s =
     (let selected = select_best_slots F srt (sr_slots s) (pt_type t) now 3;
          s = s\<lparr>sr_slots := foldl (mark_busy now) (sr_slots s) selected\<rparr> in
      if selected = [] then s\<lparr>sr_calls := sr_calls s @ call_back t rs_rejected []\<rparr>
      else s\<lparr>sr_shared := sr_shared s @ [\<lparr>sh_task = t\<lparr>pt_attempt_count := pt_attempt_count t + 1\<rparr>,
               sh_done = False, sh_partials = [], sh_remaining = int (length selected)\<rparr>],
             sr_threads := sr_threads s @
               map (\<lambda>key. \<lparr>dt_slot = key, dt_shared = length (sr_shared s), dt_pc = Transport\<rparr>) selected,
             sr_active := sr_active s + int (length selected)\<rparr>)"

definition complete_task_if_first :: "nat \<Rightarrow> result_status \<Rightarrow> bytes \<Rightarrow> ('d, 'c) scheduler
    \<Rightarrow> ('d, 'c) scheduler" where
  "complete_task_if_first i status payload s =
     (let sh = sr_shared s ! i in
      if sh_done sh then s
      else s\<lparr>sr_shared := (sr_shared s)[i := sh\<lparr>sh_done := True\<rparr>],
             sr_calls := sr_calls s @ call_back (sh_task sh) status payload\<rparr>)"

text \<open>What the last thread of a dispatch does when nobody completed the task.\<close>

definition conclusion :: "'d::linorder float_ops \<Rightarrow> (bytes \<Rightarrow> 'd list) option \<Rightarrow> 'c shared_dispatch \<Rightarrow> dispatch_pc" where
  "conclusion F provider sh =
     (let results = sh_partials sh in
      if results \<noteq> [] then
        let ok_results = filter (\<lambda>r. pr_status r = rs_ok) results;
            chosen = (if 2 \<le> length ok_results
                      then ok_results ! consensus_pick F provider (map pr_payload ok_results)
                      else if length ok_results = 1 then ok_results ! 0 else results ! 0)
        in Complete_With (pr_status chosen) (pr_payload chosen)
      else if pt_attempt_count (sh_task sh) < pt_max_attempts (sh_task sh) then Retry
      else Complete_With rs_timeout [])"

text \<open>
  A step of one dispatch thread: the state after it and where the thread stands then, \<open>None\<close> when
  it ended. The exchange with the worker may have any outcome.
\<close>

inductive thread_step :: "'d::linorder float_ops \<Rightarrow> ('d, 'c) scheduler \<Rightarrow> dispatch_thread
    \<Rightarrow> ('d, 'c) scheduler \<Rightarrow> dispatch_pc option \<Rightarrow> bool" for F where
  transport_failed: "dt_pc th = Transport \<Longrightarrow>
    thread_step F s th (on_slot_transport_failure now (dt_slot th) s) (Some Count_Down)"
| transport_done: "dt_pc th = Transport \<Longrightarrow> pr_slot p = dt_slot th \<Longrightarrow>
    thread_step F s th (slot_answered (dt_slot th) s) (Some (Record_Partial p))"
| record_partial: "dt_pc th = Record_Partial p \<Longrightarrow> dt_shared th = i \<Longrightarrow> sr_shared s ! i = sh \<Longrightarrow>
    thread_step F s th (s\<lparr>sr_shared := (sr_shared s)[i := sh\<lparr>sh_partials := sh_partials sh @ [p]\<rparr>]\<rparr>)
      (Some (if pr_status p = rs_ok then Complete_Ok p else Count_Down))"
| complete_ok: "dt_pc th = Complete_Ok p \<Longrightarrow>
    thread_step F s th (complete_task_if_first (dt_shared th) (pr_status p) (pr_payload p) s) (Some Count_Down)"
| count_down: "dt_pc th = Count_Down \<Longrightarrow> dt_shared th = i \<Longrightarrow> sr_shared s ! i = sh \<Longrightarrow>
    thread_step F s th (s\<lparr>sr_shared := (sr_shared s)[i := sh\<lparr>sh_remaining := sh_remaining sh - 1\<rparr>]\<rparr>)
      (Some (if sh_remaining sh = 1 then Check_Done else Leave))"
| check_done: "dt_pc th = Check_Done \<Longrightarrow> sr_shared s ! dt_shared th = sh \<Longrightarrow>
    thread_step F s th s (Some (if sh_done sh then Leave else conclusion F (sr_embed s) sh))"
| complete_with: "dt_pc th = Complete_With status payload \<Longrightarrow>
    thread_step F s th (complete_task_if_first (dt_shared th) status payload s) (Some Leave)"
| retry_queued: "dt_pc th = Retry \<Longrightarrow> push_answer (sr_pending s) True \<Longrightarrow>
    thread_step F s th (s\<lparr>sr_pending := sr_pending s @ [sh_task (sr_shared s ! dt_shared th)]\<rparr>) (Some Leave)"
| retry_refused: "dt_pc th = Retry \<Longrightarrow> push_answer (sr_pending s) False \<Longrightarrow>
    thread_step F s th s (Some (Complete_With rs_rejected []))"
| leave: "dt_pc th = Leave \<Longrightarrow> thread_step F s th (s\<lparr>sr_active := sr_active s - 1\<rparr>) None"

definition advance :: "dispatch_thread \<Rightarrow> dispatch_pc option \<Rightarrow> dispatch_thread list" where
  "advance th pc = (case pc of None \<Rightarrow> [] | Some pc \<Rightarrow> [th\<lparr>dt_pc := pc\<rparr>])"

text \<open>
  The steps of the program: the calls of the interface, the loop thread, and the dispatch threads.
  \<open>start\<close> is taken after the last loop has been joined.
\<close>

inductive scheduler_step :: "'d::linorder float_ops \<Rightarrow> 'd sorter \<Rightarrow> ('d, 'c) scheduler \<Rightarrow> ('d, 'c) scheduler \<Rightarrow> bool"
  for F srt where
  registers: "scheduler_step F srt s (register_slot F wid sid ty ip port s)"
| heartbeat: "scheduler_step F srt s (apply_heartbeat F now hb s)"
| submits: "push_answer (sr_pending s) accepted \<Longrightarrow>
    scheduler_step F srt s (fst (submit ty payload timeout attempts callback accepted s))"
| sets_embedding: "scheduler_step F srt s (s\<lparr>sr_embed := provider\<rparr>)"
| starts: "\<not> sr_running s \<Longrightarrow> sr_loop s = Loop_Off \<Longrightarrow>
    scheduler_step F srt s (s\<lparr>sr_running := True, sr_loop := Loop_Test\<rparr>)"
| stops: "scheduler_step F srt s (s\<lparr>sr_running := False\<rparr>)"
| loop_ends: "sr_loop s = Loop_Test \<Longrightarrow> \<not> sr_running s \<Longrightarrow> scheduler_step F srt s (s\<lparr>sr_loop := Loop_Off\<rparr>)"
| loop_round: "sr_loop s = Loop_Test \<Longrightarrow> sr_running s \<Longrightarrow>
    scheduler_step F srt s ((expire_stale now s)\<lparr>sr_loop := Loop_Drain now []\<rparr>)"
| loop_pops: "sr_loop s = Loop_Drain now ts \<Longrightarrow> sr_pending s = t # rest \<Longrightarrow>
    scheduler_step F srt s (s\<lparr>sr_pending := rest, sr_loop := Loop_Drain now (ts @ [t])\<rparr>)"
| loop_drained: "sr_loop s = Loop_Drain now ts \<Longrightarrow>
    scheduler_step F srt s (s\<lparr>sr_loop := Loop_Dispatch now ts\<rparr>)"
| loop_dispatches: "sr_loop s = Loop_Dispatch now (t # ts) \<Longrightarrow>
    scheduler_step F srt s ((dispatch_task F srt now t s)\<lparr>sr_loop := Loop_Dispatch now ts\<rparr>)"
| loop_waits: "sr_loop s = Loop_Dispatch now [] \<Longrightarrow> scheduler_step F srt s (s\<lparr>sr_loop := Loop_Test\<rparr>)"
| thread_steps: "sr_threads s = ps @ th # qs \<Longrightarrow> thread_step F s th s' pc \<Longrightarrow>
    scheduler_step F srt s (s'\<lparr>sr_threads := ps @ advance th pc @ qs\<rparr>)"

inductive scheduler_reachable :: "'d::linorder float_ops \<Rightarrow> 'd sorter \<Rightarrow> 'd slots \<Rightarrow> ('d, 'c) scheduler \<Rightarrow> bool"
  for F srt slots where
  scheduler_init: "scheduler_reachable F srt slots (new_task_scheduler slots)"
| scheduler_next: "scheduler_reachable F srt slots s \<Longrightarrow> scheduler_step F srt s s' \<Longrightarrow>
    scheduler_reachable F srt slots s'"

inductive_cases thread_stepE: "thread_step F s th s' pc"

text \<open>Pushes and pops on the list are those that the queue of \<open>Task_Queue\<close> refines.\<close>

lemma push_refined:
  "queue_effect xs (Claimed x) ys \<longleftrightarrow> push_answer xs True \<and> ys = xs @ [x]"
  "queue_effect xs (Refused_Push x) ys \<longleftrightarrow> push_answer xs False \<and> ys = xs"
  "queue_effect (x # xs) (Popped (Some y)) ys \<longleftrightarrow> y = x \<and> ys = xs"
  by (auto simp: push_answer_def)

lemma best_average_bound: "vecs \<noteq> [] \<Longrightarrow> best_average F vecs < length vecs"
proof -
  assume ne: "vecs \<noteq> []"
  have fst_in: "fst (foldl (\<lambda>(b, bs) i. if bs < f i then (i, f i) else (b, bs)) (b0, s0) js) \<in> insert b0 (set js)"
    for f :: "nat \<Rightarrow> 'a" and b0 :: nat and s0 :: 'a and "js"
    by (induction "js" arbitrary: b0 s0) (auto split: if_splits)
  have "best_average F vecs \<in> insert 0 (set [0..<length vecs])"
    unfolding best_average_def Let_def by (rule fst_in)
  then show ?thesis using ne by auto
qed

lemma consensus_pick_bound: "payloads \<noteq> [] \<Longrightarrow> consensus_pick F provider payloads < length payloads"
  using best_average_bound [of "map f payloads" F for f] by (auto simp: consensus_pick_def split: option.split)

end
