(* ===== verification/Task_Transport_Props.thy ===== *)
theory Task_Transport_Props
  imports Task_Transport Connection_Props
begin

unbundle bit_operations_syntax

text \<open>
  A task and its result, plain or streamed, arrive as they were sent; replay protection holds
  between connections handled in turn and fails between concurrent ones.
\<close>

section \<open>Whole buffers\<close>

lemma send_part_spec:
  assumes "send_contract os s sent" and "length data < 2 ^ 31" and "send_part os w s data = (w', ok)"
  shows "\<exists>p q. data = p @ q \<and> sent w' = sent w @ p \<and> (ok \<longleftrightarrow> q = [])"
proof -
  obtain r where l: "tcp_send_loop os w s data (int (length data)) 0 = (w', r)"
    and ok: "ok \<longleftrightarrow> r = int (length data)"
    using assms(2,3) by (auto simp: send_part_def tcp_send_all_def int_of_size_small split: prod.splits)
  from send_loop [OF assms(1) l] obtain p q where p: "data = p @ q" "sent w' = sent w @ p"
    "if q = [] then r = int (length data) else r \<le> 0" by auto
  have "q \<noteq> [] \<Longrightarrow> r \<noteq> int (length data)" using p by (cases q) auto
  then show ?thesis using p ok by auto
qed

lemma send_part_ok:
  "send_contract os s sent \<Longrightarrow> length data < 2 ^ 31 \<Longrightarrow> send_part os w s data = (w', True) \<Longrightarrow>
     sent w' = sent w @ data"
  using send_part_spec by fastforce

lemma recv_part_ok:
  assumes "recv_contract os s pending" and "recv_delivers os s pending" and "length d < 2 ^ 31"
    and "pending w = d @ r" and "n = length d"
  shows "\<exists>w'. recv_part os w s n = (w', Some d) \<and> pending w' = r"
proof -
  obtain w' res out where l: "tcp_recv_loop os w s (int (length d)) 0 [] = (w', res, out)"
    by (cases "tcp_recv_loop os w s (int (length d)) 0 []")
  from recv_loop [OF assms(1) l] obtain p where p: "out = p" "pending w = p @ pending w'"
    "length p \<le> length d" "if length p = length d then res = int (length d) else res \<le> 0"
    "length p < length d \<longrightarrow> pending w' = []" using assms(2) by auto
  have "\<not> length p < length d"
  proof
    assume lt: "length p < length d"
    then have "length (pending w) = length p" using p by simp
    then show False using assms(4) lt by simp
  qed
  then have "length p = length d" using p(3) by simp
  moreover from this have "p = d" "pending w' = r" using p(2) assms(4) by (metis append_eq_append_conv)+
  ultimately show ?thesis using l p assms(3,5)
    by (simp add: recv_part_def tcp_recv_all_def int_of_size_small)
qed

section \<open>A task frame\<close>

lemma length_mac_v1 [simp]: "length (compute_sl1_mac_v1 key h sid kid sq p) = 16"
  by (simp add: compute_sl1_mac_v1_def)

lemma verify_mac_v1 [simp]:
  "length (ax_mac a) = 16 \<Longrightarrow> verify_sl1_mac_v1 key h a payload \<longleftrightarrow>
     ax_mac a = compute_sl1_mac_v1 key h (ax_session_id a) (ax_key_id a) (ax_auth_seq a) payload"
  by (auto simp: verify_sl1_mac_v1_def memcmp16_iff)

lemma task_header_sel [simp]:
  "h1_msg_type (task_header t c) = mt_task" "h1_correlation_id (task_header t c) = tc_correlation_id c"
  "h1_worker_id (task_header t c) = tc_worker_id c" "h1_slot_id (task_header t c) = tc_slot_id c"
  "h1_payload_len (task_header t c) = of_nat (length (task_payload c))"
  "extension_length (task_header t c) = (if ts_sl1_enabled t then 32 else 6)"
  "h1_flags (task_header t c) AND FLAG_AUTHENTICATED \<noteq> 0 \<longleftrightarrow> ts_sl1_enabled t"
  "h1_flags (task_header t c) AND FLAG_AUTHENTICATED = 0 \<longleftrightarrow> \<not> ts_sl1_enabled t"
  "h1_flags (task_header t c) AND FLAG_BUILD_TIME \<noteq> 0"
  by (simp_all add: task_header_def make_header_def apply_build_time_extension_def extension_length_def
      word_less_nat_alt)

lemma payload_fits:
  "n \<le> 4194304 \<Longrightarrow> unat (of_nat n :: u32) = n \<and> (of_nat n :: u32) \<le> 4194304"
  by (simp add: word_le_nat_alt unat_of_nat)

lemma task_payload_nonempty: "task_payload c \<noteq> []"
  by (simp add: task_payload_def)

lemma task_header_valid:
  assumes "length (task_payload c) \<le> 4194304"
  shows "validate_header (task_header t c)"
proof -
  have "(of_nat (length (task_payload c)) :: u32) \<le> 4194304" using payload_fits assms by simp
  then show ?thesis
    by (simp add: validate_header_def task_header_def make_header_def apply_build_time_extension_def not_less
        word_less_nat_alt word_le_nat_alt)
qed

lemma length_auth_ext [simp]: "length (ax_mac a) = 16 \<Longrightarrow> length (auth_ext_bytes a) = 26"
  by (simp add: auth_ext_bytes_def)

lemma task_auth_sel [simp]:
  "length (ax_mac (task_auth t c)) = 16" "ax_session_id (task_auth t c) = ts_session_id t"
  "ax_auth_seq (task_auth t c) = ts_auth_seq t"
  by (simp_all add: task_auth_def)

lemma length_task_extensions: "length (task_extensions bt t c) = extension_length (task_header t c)"
  by (simp add: task_extensions_def)

text \<open>A sender and a receiver that share the session, and whose numbers are in step.\<close>

definition shares_session :: "task_sender \<Rightarrow> task_receiver \<Rightarrow> bool" where
  "shares_session t r \<longleftrightarrow>
     (if ts_sl1_enabled t
      then tr_session_id r = ts_session_id t \<and> tr_secret_key r = ts_secret_key t \<and>
        tr_last_auth_seq r < ts_auth_seq t
      else \<not> tr_require_auth r)"

lemma task_authenticates:
  assumes "shares_session t r"
  shows "authenticate_task r (task_header t c) (task_extensions bt t c) (task_payload c)
    = (if ts_sl1_enabled t then Signed (ts_auth_seq t) else Unsigned)"
proof (cases "ts_sl1_enabled t")
  case True
  have "take 26 (drop 6 (task_extensions bt t c)) = auth_ext_bytes (task_auth t c)"
    using True by (simp add: task_extensions_def)
  then have a: "auth_ext_of_bytes (take 26 (drop 6 (task_extensions bt t c))) = task_auth t c" by simp
  have "ax_mac (task_auth t c) = compute_sl1_mac_v1 (tr_secret_key r) (task_header t c) (ax_session_id (task_auth t c))
      (ax_key_id (task_auth t c)) (ax_auth_seq (task_auth t c)) (task_payload c)"
    using assms True by (simp add: shares_session_def task_auth_def)
  then have "verify_sl1_mac_v1 (tr_secret_key r) (task_header t c) (task_auth t c) (task_payload c)"
    by simp
  then show ?thesis using a True assms
    by (simp add: authenticate_task_def length_task_extensions shares_session_def Let_def not_le)
next
  case False
  then show ?thesis using assms by (simp add: authenticate_task_def shares_session_def)
qed

definition task_bytes :: "header_build_time_ext \<Rightarrow> task_sender \<Rightarrow> task_call \<Rightarrow> bytes" where
  "task_bytes bt t c = header_bytes (task_header t c) @ task_extensions bt t c @ task_payload c"

lemma sent_task:
  assumes "send_contract os s sent" and "send_task_frame os w s bt t c = (w', t', True)"
    and "length (task_payload c) \<le> 4194304"
  shows "sent w' = sent w @ task_bytes bt t c"
proof -
  have l: "length (header_bytes (task_header t c)) < 2 ^ 31" "length (task_extensions bt t c) < 2 ^ 31"
    "length (task_payload c) < 2 ^ 31"
    using assms(3) by (simp_all add: length_task_extensions)
  obtain w1 o1 where 1: "send_part os w s (header_bytes (task_header t c)) = (w1, o1)"
    by (cases "send_part os w s (header_bytes (task_header t c))")
  obtain w2 o2 where 2: "send_part os w1 s (task_extensions bt t c) = (w2, o2)"
    by (cases "send_part os w1 s (task_extensions bt t c)")
  obtain w3 o3 where 3: "send_part os w2 s (task_payload c) = (w3, o3)"
    by (cases "send_part os w2 s (task_payload c)")
  have "o1" "o2" "o3" "w' = w3"
    using assms(2) 1 2 3 by (auto simp: send_task_frame_def Let_def split: if_split_asm)
  then show ?thesis
    using send_part_ok [OF assms(1) l(1)] send_part_ok [OF assms(1) l(2)] send_part_ok [OF assms(1) l(3)] 1 2 3
    by (simp add: task_bytes_def)
qed

lemma if_not_refused: "(if (if b then Signed q else Unsigned) = Refused then x else y) = y"
  by simp

lemma accepts_task:
  assumes "recv_contract os s pending" and "recv_delivers os s pending"
    and "pending v = task_bytes bt t c @ rest" and "shares_session t r"
    and "length (task_payload c) \<le> 4194304"
  shows "\<exists>v'. accept_task os v r s = (v', (if ts_sl1_enabled t then r\<lparr>tr_last_auth_seq := ts_auth_seq t\<rparr> else r),
      Some (task_header t c, task_payload c)) \<and> pending v' = rest"
proof -
  let ?h = "task_header t c"
  have len: "unat (h1_payload_len ?h) = length (task_payload c)"
    using payload_fits [of "length (task_payload c)"] assms(5) by simp
  then have nz: "h1_payload_len ?h \<noteq> 0" using task_payload_nonempty by (metis length_0_conv unat_0)
  have el: "0 < extension_length ?h" by simp
  have l24: "length (header_bytes ?h) < 2 ^ 31" "24 = length (header_bytes ?h)" by simp_all
  have "pending v = header_bytes ?h @ task_extensions bt t c @ task_payload c @ rest"
    unfolding assms(3) by (simp add: task_bytes_def)
  from recv_part_ok [OF assms(1,2) l24(1) this l24(2)]
  obtain v1 where 1: "recv_part os v s 24 = (v1, Some (header_bytes ?h))"
    "pending v1 = task_extensions bt t c @ task_payload c @ rest" by blast
  have l6: "length (task_extensions bt t c) < 2 ^ 31" "extension_length ?h = length (task_extensions bt t c)"
    by (simp_all add: length_task_extensions)
  from recv_part_ok [OF assms(1,2) l6(1) 1(2) l6(2)]
  obtain v2 where 2: "recv_part os v1 s (extension_length ?h) = (v2, Some (task_extensions bt t c))"
    "pending v2 = task_payload c @ rest" by blast
  have "length (task_payload c) < 2 ^ 31" using assms(5) by simp
  from recv_part_ok [OF assms(1,2) this 2(2) len]
  obtain v3 where 3: "recv_part os v2 s (unat (h1_payload_len ?h)) = (v3, Some (task_payload c))"
    "pending v3 = rest" by blast
  note au = task_authenticates [OF assms(4), of c bt]
  have "accept_task os v r s = (v3, store_auth_seq r (if ts_sl1_enabled t then Signed (ts_auth_seq t) else Unsigned),
      Some (?h, task_payload c))"
    using 1(1) 2(1) 3(1) nz el task_header_valid [OF assms(5), of t]
    unfolding accept_task_def by (simp only: prod.case option.case Let_def header_of_bytes_bytes if_True if_False simp_thms
      task_header_sel(1) au auth_verdict.distinct auth_verdict.simps if_not_refused)
  then show ?thesis using 3(2) by (simp add: store_auth_seq_def)
qed

section \<open>A result frame\<close>

definition result_header :: "linep_header \<Rightarrow> u16 \<Rightarrow> u32 \<Rightarrow> bytes \<Rightarrow> linep_header" where
  "result_header h flags sq payload = apply_build_time_extension (make_header mt_result flags
     (of_nat (length payload)) sq (h1_correlation_id h) (h1_worker_id h) (h1_slot_id h))"

definition result_bytes :: "header_build_time_ext \<Rightarrow> linep_header \<Rightarrow> u16 \<Rightarrow> u32 \<Rightarrow> bytes \<Rightarrow> bytes" where
  "result_bytes bt h flags sq payload =
     header_bytes (result_header h flags sq payload) @ build_time_bytes bt @ payload"

lemma result_header_sel [simp]:
  "h1_msg_type (result_header h fl sq p) = mt_result" "h1_sequence (result_header h fl sq p) = sq"
  "h1_correlation_id (result_header h fl sq p) = h1_correlation_id h"
  "h1_flags (result_header h fl sq p) = fl OR 1" "extension_length (result_header h fl sq p) = 6"
  "h1_header_len (result_header h fl sq p) = 30"
  "h1_payload_len (result_header h fl sq p) = of_nat (length p)"
  by (simp_all add: result_header_def make_header_def apply_build_time_extension_def extension_length_def
      word_less_nat_alt)

lemma result_header_for:
  "length p \<le> 4194304 \<Longrightarrow> h1_correlation_id h = corr \<Longrightarrow> is_result_for corr (result_header h fl sq p)"
  using payload_fits [of "length p"]
  by (simp add: is_result_for_def)
    (simp add: validate_header_def result_header_def make_header_def apply_build_time_extension_def not_less
      word_less_nat_alt word_le_nat_alt)

lemma receives_result:
  assumes "recv_contract os s pending" and "recv_delivers os s pending"
    and "pending w = result_bytes bt h 0 1 (status # body) @ rest"
    and "h1_correlation_id h = corr" and "length body < 4194304"
  shows "\<exists>w'. receive_result os w s corr cap =
      (w', status, (case cap of None \<Rightarrow> [] | Some n \<Rightarrow> take n body))"
proof -
  let ?p = "status # body" let ?h = "result_header h 0 1 (status # body)"
  have len: "unat (h1_payload_len ?h) = length ?p"
    using payload_fits [of "length ?p"] assms(5) by (simp del: length_Cons)
  then have nz: "h1_payload_len ?h \<noteq> 0" by (metis length_0_conv list.distinct(1) unat_0)
  have l: "length (header_bytes ?h) < 2 ^ 31" "24 = length (header_bytes ?h)"
    "length (build_time_bytes bt) < 2 ^ 31" "extension_length ?h = length (build_time_bytes bt)" by simp_all
  have "pending w = header_bytes ?h @ build_time_bytes bt @ ?p @ rest"
    unfolding assms(3) by (simp add: result_bytes_def)
  from recv_part_ok [OF assms(1,2) l(1) this l(2)]
  obtain w1 where 1: "recv_part os w s 24 = (w1, Some (header_bytes ?h))"
    "pending w1 = build_time_bytes bt @ ?p @ rest" by blast
  from recv_part_ok [OF assms(1,2) l(3) 1(2) l(4)]
  obtain w2 where 2: "recv_part os w1 s (extension_length ?h) = (w2, Some (build_time_bytes bt))"
    "pending w2 = ?p @ rest" by blast
  have "length ?p < 2 ^ 31" using assms(5) by simp
  from recv_part_ok [OF assms(1,2) this 2(2) len]
  obtain w3 where 3: "recv_part os w2 s (unat (h1_payload_len ?h)) = (w3, Some ?p)" by blast
  have r: "is_result_for corr ?h" by (rule result_header_for) (use assms(4,5) in simp_all)
  have "receive_result os w s corr cap = (os_close os w3 s, status,
      (case cap of None \<Rightarrow> [] | Some n \<Rightarrow> if 1 < length ?p then take n body else []))"
    using 1(1) 2(1) 3 nz r
    by (simp add: receive_result_def Let_def del: result_header_sel(5,7) length_Cons split: option.split)
      (simp add: result_header_sel(5))
  then show ?thesis by (cases body) (auto split: option.split)
qed

section \<open>A task there and back\<close>


section \<open>Streams\<close>

fun stream_bytes :: "header_build_time_ext \<Rightarrow> linep_header \<Rightarrow> u32 \<Rightarrow> (bytes \<times> bool) list \<Rightarrow> bytes" where
  "stream_bytes bt h sq [] = []"
| "stream_bytes bt h sq ((chunk, final) # cs) =
     result_bytes bt h (FLAG_FRAGMENTED OR (if final then FLAG_FINAL_FRAGMENT else 0)) sq
       ((if sq = 1 then [rs_ok] else []) @ chunk) @ stream_bytes bt h (sq + 1) cs"

fun chunks_delivered :: "u32 \<Rightarrow> (bytes \<times> bool) list \<Rightarrow> stream_chunk list" where
  "chunks_delivered sq [] = []"
| "chunks_delivered sq ((chunk, final) # cs) =
     (if chunk = [] then []
      else [\<lparr>sc_sequence = sq, sc_flags = FLAG_FRAGMENTED OR (if final then FLAG_FINAL_FRAGMENT else 0) OR FLAG_BUILD_TIME,
             sc_body = chunk\<rparr>]) @ chunks_delivered (sq + 1) cs"

lemma written_chunks:
  assumes "send_contract os s sent" and "s \<noteq> no_socket" and "\<forall>(c, f) \<in> set cs. length c < 4194304"
    and "\<not> sw_cancelled x" and "write_chunks os w s bt h x cs = (w', x', True)"
  shows "sent w' = sent w @ stream_bytes bt h (sw_seq x) cs"
  using assms(3-5)
proof (induction cs arbitrary: w x)
  case (Cons a cs)
  obtain chunk final where a: "a = (chunk, final)" by (cases a)
  let ?p = "(if sw_seq x = 1 then [rs_ok] else []) @ chunk"
  let ?h = "result_header h (FLAG_FRAGMENTED OR (if final then FLAG_FINAL_FRAGMENT else 0)) (sw_seq x) ?p"
  have l: "length (header_bytes ?h) < 2 ^ 31" "length (build_time_bytes bt) < 2 ^ 31" "length ?p < 2 ^ 31"
    using Cons.prems(1) a by simp_all
  obtain w1 o1 where 1: "send_part os w s (header_bytes ?h) = (w1, o1)" by (cases "send_part os w s (header_bytes ?h)")
  obtain w2 o2 where 2: "send_part os w1 s (build_time_bytes bt) = (w2, o2)" by (cases "send_part os w1 s (build_time_bytes bt)")
  obtain w3 o3 where 3: "send_part os w2 s ?p = (w3, o3)" by (cases "send_part os w2 s ?p")
  obtain w4 x4 ok where f: "stream_writer_func os w s bt h x chunk final = (w4, x4, ok)"
    by (cases "stream_writer_func os w s bt h x chunk final")
  have ok: "ok" "write_chunks os w4 s bt h x4 cs = (w', x', True)"
    using Cons.prems(3) a f by (auto split: prod.splits)
  note r = result_header_def [symmetric]
  have "o1" "o2" "w4 = (if ?p = [] then w2 else w3)" "?p \<noteq> [] \<longrightarrow> o3" "x4 = x\<lparr>sw_seq := sw_seq x + 1\<rparr>"
    using f 1 2 3 ok(1) assms(2) Cons.prems(2)
    by (auto simp: stream_writer_func_def r Let_def split: if_split_asm prod.splits)
  moreover from this have "sent w4 = sent w @ result_bytes bt h (FLAG_FRAGMENTED OR (if final then FLAG_FINAL_FRAGMENT else 0)) (sw_seq x) ?p"
    using send_part_ok [OF assms(1) l(1)] send_part_ok [OF assms(1) l(2)] send_part_ok [OF assms(1) l(3)] 1 2 3
    by (auto simp: result_bytes_def)
  moreover have "sent w' = sent w4 @ stream_bytes bt h (sw_seq x4) cs"
    by (rule Cons.IH [OF _ _ ok(2)]) (use Cons.prems calculation in auto)
  ultimately show ?case by (simp add: a)
qed simp

lemma stream_step:
  assumes "recv_contract os s pending" and "recv_delivers os s pending"
    and "pending w = result_bytes bt h fl sq p @ rest" and "length p \<le> 4194304" and "h1_correlation_id h = corr"
    and "expected \<le> sq"
  shows "\<exists>w'. pending w' = rest \<and>
    stream_loop os s corr w expected status calls =
     (let first = (expected = 1 \<and> p \<noteq> []); status = (if first then p ! 0 else status);
          q = (if first then drop 1 p else p);
          calls = (if q \<noteq> [] then calls @ [\<lparr>sc_sequence = sq, sc_flags = fl OR 1, sc_body = q\<rparr>] else calls)
      in if (fl OR 1) AND FLAG_FINAL_FRAGMENT \<noteq> 0 then Some (os_close os w' s, status, calls)
         else stream_loop os s corr w' (sq + 1) status calls)"
proof -
  let ?h = "result_header h fl sq p"
  have len: "unat (h1_payload_len ?h) = length p"
    using payload_fits [of "length p"] assms(4) by simp
  then have z: "h1_payload_len ?h = 0 \<longleftrightarrow> p = []" by (metis length_0_conv unat_0 unat_eq_zero)
  have l: "length (header_bytes ?h) < 2 ^ 31" "24 = length (header_bytes ?h)"
    "length (build_time_bytes bt) < 2 ^ 31" "extension_length ?h = length (build_time_bytes bt)" "length p < 2 ^ 31"
    using assms(4) by simp_all
  have "pending w = header_bytes ?h @ build_time_bytes bt @ p @ rest"
    unfolding assms(3) by (simp add: result_bytes_def)
  from recv_part_ok [OF assms(1,2) l(1) this l(2)]
  obtain w1 where 1: "recv_part os w s 24 = (w1, Some (header_bytes ?h))"
    "pending w1 = build_time_bytes bt @ p @ rest" by blast
  from recv_part_ok [OF assms(1,2) l(3) 1(2) l(4)]
  obtain w2 where 2: "recv_part os w1 s (extension_length ?h) = (w2, Some (build_time_bytes bt))"
    "pending w2 = p @ rest" by blast
  from recv_part_ok [OF assms(1,2) l(5) 2(2) len]
  obtain w3 where 3: "recv_part os w2 s (unat (h1_payload_len ?h)) = (w3, Some p)" "pending w3 = rest" by blast
  have r: "is_result_for corr ?h" by (rule result_header_for) (use assms(4,5) in simp_all)
  have ns: "\<not> sq < expected" using assms(6) by simp
  have el: "0 < extension_length ?h" by simp
  obtain v where v: "(if h1_payload_len ?h \<noteq> 0 then recv_part os w2 s (unat (h1_payload_len ?h)) else (w2, Some []))
      = (v, Some p)" "pending v = rest"
    using z 2(2) 3 by (cases "p = []") auto
  have e: "(if 0 < extension_length ?h then fst (recv_part os w1 s (extension_length ?h)) else w1) = w2"
    using el 2(1) by simp
  have "stream_loop os s corr w expected status calls =
     (let first = (expected = 1 \<and> p \<noteq> []); status = (if first then p ! 0 else status);
          q = (if first then drop 1 p else p);
          calls = (if q \<noteq> [] then calls @ [\<lparr>sc_sequence = sq, sc_flags = fl OR 1, sc_body = q\<rparr>] else calls)
      in if (fl OR 1) AND FLAG_FINAL_FRAGMENT \<noteq> 0 then Some (os_close os v s, status, calls)
         else stream_loop os s corr v (sq + 1) status calls)"
    by (subst stream_loop.simps)
      (simp only: 1(1) Let_def prod.case option.case header_of_bytes_bytes e v(1) r ns not_True_eq_False
        if_False result_header_sel(2,4))
  then show ?thesis using v(2) by blast
qed

lemma stream_received:
  assumes "recv_contract os s pending" and "recv_delivers os s pending" and "h1_correlation_id h = corr"
    and "\<forall>(c, f) \<in> set cs. length c < 4194304 \<and> \<not> f" and "length chunk < 4194304"
    and "pending w = stream_bytes bt h sq (cs @ [(chunk, True)]) @ rest"
    and "1 \<le> unat sq" and "unat sq + length cs < 2 ^ 32"
  shows "\<exists>w'. stream_loop os s corr w sq rs_ok calls =
      Some (w', rs_ok, calls @ chunks_delivered sq (cs @ [(chunk, True)]))"
  using assms(4,6-8)
proof (induction cs arbitrary: w sq calls)
  case Nil
  let ?p = "(if sq = 1 then [rs_ok] else []) @ chunk"
  have p: "pending w = result_bytes bt h (FLAG_FRAGMENTED OR FLAG_FINAL_FRAGMENT) sq ?p @ rest"
    and lp: "length ?p \<le> 4194304" using Nil assms(5) by simp_all
  from stream_step [OF assms(1,2) p lp assms(3) order_refl, of rs_ok calls] obtain w' where
    "stream_loop os s corr w sq rs_ok calls = (let first = (sq = 1 \<and> ?p \<noteq> []); status = (if first then ?p ! 0 else rs_ok);
          q = (if first then drop 1 ?p else ?p);
          calls = (if q \<noteq> [] then calls @ [\<lparr>sc_sequence = sq, sc_flags = (FLAG_FRAGMENTED OR FLAG_FINAL_FRAGMENT) OR 1, sc_body = q\<rparr>] else calls)
      in if ((FLAG_FRAGMENTED OR FLAG_FINAL_FRAGMENT) OR 1) AND FLAG_FINAL_FRAGMENT \<noteq> 0 then Some (os_close os w' s, status, calls)
         else stream_loop os s corr w' (sq + 1) status calls)" by blast
  then show ?case by (cases "sq = 1") (simp_all add: Let_def)
next
  case (Cons a cs)
  obtain c where a: "a = (c, False)" "length c < 4194304" using Cons.prems(1) by (cases a) auto
  let ?p = "(if sq = 1 then [rs_ok] else []) @ c"
  have p: "pending w = result_bytes bt h FLAG_FRAGMENTED sq ?p @
      stream_bytes bt h (sq + 1) (cs @ [(chunk, True)]) @ rest"
    and lp: "length ?p \<le> 4194304" using Cons.prems(2) a by simp_all
  let ?calls = "calls @ chunks_delivered sq [(c, False)]"
  from stream_step [OF assms(1,2) p lp assms(3) order_refl, of rs_ok calls] obtain w' where
    w': "pending w' = stream_bytes bt h (sq + 1) (cs @ [(chunk, True)]) @ rest" and
    "stream_loop os s corr w sq rs_ok calls = (let first = (sq = 1 \<and> ?p \<noteq> []); status = (if first then ?p ! 0 else rs_ok);
          q = (if first then drop 1 ?p else ?p);
          calls = (if q \<noteq> [] then calls @ [\<lparr>sc_sequence = sq, sc_flags = FLAG_FRAGMENTED OR 1, sc_body = q\<rparr>] else calls)
      in if (FLAG_FRAGMENTED OR 1) AND FLAG_FINAL_FRAGMENT \<noteq> 0 then Some (os_close os w' s, status, calls)
         else stream_loop os s corr w' (sq + 1) status calls)" by blast
  then have st: "stream_loop os s corr w sq rs_ok calls = stream_loop os s corr w' (sq + 1) rs_ok ?calls"
    by (cases "sq = 1") (simp_all add: Let_def)
  have u: "unat (sq + 1) = unat sq + 1" using Cons.prems(4) unat_add_lem [of sq 1] by simp
  from Cons.IH [OF _ w', of ?calls] Cons.prems(1,4) u
  show ?case by (auto simp: st a)
qed


section \<open>Replay\<close>

fun accepted_in_turn :: "task_receiver \<Rightarrow> (linep_header \<times> bytes \<times> bytes) list \<Rightarrow> u32 list" where
  "accepted_in_turn r [] = []"
| "accepted_in_turn r ((h, ext, payload) # fs) =
     (case authenticate_task r h ext payload of
        Signed q \<Rightarrow> q # accepted_in_turn (store_auth_seq r (Signed q)) fs
      | _ \<Rightarrow> accepted_in_turn r fs)"

lemma signed_advances: "authenticate_task r h ext p = Signed q \<Longrightarrow> tr_last_auth_seq r < q"
  by (auto simp: authenticate_task_def Let_def not_le split: if_split_asm)

lemma accepted_in_turn_sorted:
  "sorted_wrt (<) (tr_last_auth_seq r # accepted_in_turn r fs)"
proof (induction r fs rule: accepted_in_turn.induct)
  case (2 r h ext p fs)
  show ?case
  proof (cases "authenticate_task r h ext p")
    case (Signed q)
    then show ?thesis using "2.IH" Signed signed_advances [OF Signed]
      by (auto simp: store_auth_seq_def intro: less_trans)
  qed (use 2 in auto)
qed simp

text \<open>
  Connections are handled by threads of their own: each checks its frame against the stored
  number and stores the number of its frame later.
\<close>

inductive auth_step :: "task_receiver \<times> auth_verdict list \<times> auth_verdict list
    \<Rightarrow> task_receiver \<times> auth_verdict list \<times> auth_verdict list \<Rightarrow> bool" where
  auth_check: "authenticate_task r h ext p = v \<Longrightarrow> v \<noteq> Refused \<Longrightarrow> auth_step (r, vs, done) (r, vs @ [v], done)"
| auth_store: "auth_step (r, vs @ v # us, done) (store_auth_seq r v, vs @ us, done @ [v])"

lemma authenticate_last:
  "authenticate_task r h ext p = Signed q' \<Longrightarrow> q < q' \<Longrightarrow>
     authenticate_task (r\<lparr>tr_last_auth_seq := q\<rparr>) h ext p = Signed q'"
  by (auto simp: authenticate_task_def Let_def not_le split: if_split_asm)

text \<open>
  Replay protection holds between connections handled one after the other, and only between
  those. In turn, accepted numbers strictly increase; but two connections that carry the same
  signed frame at the same time can both be accepted, and when an older frame is checked
  together with a newer one and stored after it, the newer one is accepted again.
\<close>

theorem replay_only_in_turn:
  assumes "authenticate_task r h ext p = Signed q" and "authenticate_task r h' ext' p' = Signed q'" and "q < q'"
  shows "sorted_wrt (<) (accepted_in_turn r fs) \<and>
    (\<exists>r'. auth_step\<^sup>*\<^sup>* (r, [], []) (r', [], [Signed q, Signed q])) \<and>
    (\<exists>r'. auth_step\<^sup>*\<^sup>* (r, [], []) (r', [], [Signed q', Signed q, Signed q']))"
proof (intro conjI exI)
  show "sorted_wrt (<) (accepted_in_turn r fs)" using accepted_in_turn_sorted [of r fs] by simp
  note c = auth_check [OF assms(1)] auth_check [OF assms(2)]
  have st: "auth_step (r0, v # us, ds) (store_auth_seq r0 v, us, ds @ [v])" for r0 v us ds
    using auth_store [of r0 "[]" v us ds] by simp
  have "auth_step (r, [], []) (r, [Signed q], [])" "auth_step (r, [Signed q], []) (r, [Signed q, Signed q], [])"
    "auth_step (r, [Signed q, Signed q], []) (store_auth_seq r (Signed q), [Signed q], [Signed q])"
    "auth_step (store_auth_seq r (Signed q), [Signed q], [Signed q])
       (store_auth_seq (store_auth_seq r (Signed q)) (Signed q), [], [Signed q, Signed q])"
    using c(1) [of "[]"] c(1) [of "[Signed q]"] st [of r "Signed q" "[Signed q]" "[]"]
      st [of "store_auth_seq r (Signed q)" "Signed q" "[]" "[Signed q]"]
    by simp_all
  then show "auth_step\<^sup>*\<^sup>* (r, [], [])
      (store_auth_seq (store_auth_seq r (Signed q)) (Signed q), [], [Signed q, Signed q])"
    by (meson converse_rtranclp_into_rtranclp rtranclp.rtrancl_refl)
  let ?r1 = "store_auth_seq r (Signed q')" let ?r2 = "store_auth_seq ?r1 (Signed q)"
  have "?r2 = r\<lparr>tr_last_auth_seq := q\<rparr>" by (simp add: store_auth_seq_def)
  then have again: "authenticate_task ?r2 h' ext' p' = Signed q'" using authenticate_last [OF assms(2,3)] by simp
  have "auth_step (r, [], []) (r, [Signed q'], [])" "auth_step (r, [Signed q'], []) (r, [Signed q', Signed q], [])"
    "auth_step (r, [Signed q', Signed q], []) (?r1, [Signed q], [Signed q'])"
    "auth_step (?r1, [Signed q], [Signed q']) (?r2, [], [Signed q', Signed q])"
    "auth_step (?r2, [], [Signed q', Signed q]) (?r2, [Signed q'], [Signed q', Signed q])"
    "auth_step (?r2, [Signed q'], [Signed q', Signed q]) (store_auth_seq ?r2 (Signed q'), [], [Signed q', Signed q, Signed q'])"
    using c(2) [of "[]"] c(1) [of "[Signed q']"] st [of r "Signed q'" "[Signed q]" "[]"] st [of ?r1 "Signed q" "[]" "[Signed q']"]
      auth_check [OF again, of "[]"] st [of ?r2 "Signed q'" "[]" "[Signed q', Signed q]"]
    by simp_all
  then show "auth_step\<^sup>*\<^sup>* (r, [], []) (store_auth_seq ?r2 (Signed q'), [], [Signed q', Signed q, Signed q'])"
    by (meson converse_rtranclp_into_rtranclp rtranclp.rtrancl_refl)
qed

text \<open>A receiver configured with an empty key accepts frames of anyone: the expected tag is zero.\<close>

lemma empty_key_accepts_zero_tag:
  assumes "h1_flags h AND FLAG_AUTHENTICATED \<noteq> 0" and "h1_flags h AND FLAG_BUILD_TIME = 0" and "0 < q"
  shows "authenticate_task (receiver_set_sl1 r sid kid [] True) h
      (auth_ext_bytes \<lparr>ax_session_id = sid, ax_key_id = k, ax_auth_seq = q, ax_mac = replicate 16 0\<rparr>) payload = Signed q"
  using assms by (simp add: authenticate_task_def receiver_set_sl1_def Let_def not_le compute_sl1_mac_v1_def)

end
