(* ===== verification/Task_Scheduler_Props.thy ===== *)
theory Task_Scheduler_Props
  imports Task_Scheduler Task_Transport_Props
begin

unbundle bit_operations_syntax

text \<open>
  Properties of the version 0.1 scheduler: every callback is made exactly once, retries end, the
  consensus step is never taken, nothing is dispatched without a handshake, \<open>stop\<close> strands queued
  tasks, and results of the task receiver are misread.
\<close>

section \<open>Dispatches and their threads\<close>

text \<open>Threads that have not counted down yet, and threads that conclude the dispatch.\<close>

fun early :: "dispatch_pc \<Rightarrow> bool" where
  "early Transport = True"
| "early (Record_Partial p) = True"
| "early (Complete_Ok p) = True"
| "early Count_Down = True"
| "early pc = False"

fun concluding :: "dispatch_pc \<Rightarrow> bool" where
  "concluding (Complete_With st p) = True"
| "concluding Retry = True"
| "concluding pc = False"

definition late :: "dispatch_pc \<Rightarrow> bool" where
  "late pc \<longleftrightarrow> concluding pc \<or> pc = Check_Done"

definition count_at :: "(dispatch_pc \<Rightarrow> bool) \<Rightarrow> dispatch_thread list \<Rightarrow> nat \<Rightarrow> nat" where
  "count_at P ths i = length (filter (\<lambda>th. dt_shared th = i \<and> P (dt_pc th)) ths)"

lemma count_at_simps [simp]:
  "count_at P [] i = 0"
  "count_at P (th # ths) i = (if dt_shared th = i \<and> P (dt_pc th) then 1 else 0) + count_at P ths i"
  "count_at P (xs @ ys) i = count_at P xs i + count_at P ys i"
  by (simp_all add: count_at_def)

lemma count_at_zero: "count_at P ths i = 0 \<longleftrightarrow> (\<forall>th \<in> set ths. dt_shared th = i \<longrightarrow> \<not> P (dt_pc th))"
  by (auto simp: count_at_def filter_empty_conv)

lemma count_advance [simp]:
  "count_at P (advance th pc) i =
     (case pc of None \<Rightarrow> 0 | Some pc \<Rightarrow> if dt_shared th = i \<and> P pc then 1 else 0)"
  by (simp add: advance_def split: option.split)

definition shared_ok :: "'c shared_dispatch \<Rightarrow> dispatch_thread list \<Rightarrow> nat \<Rightarrow> bool" where
  "shared_ok sh ths i \<longleftrightarrow> int (count_at early ths i) = sh_remaining sh \<and> count_at late ths i \<le> 1 \<and>
     (count_at early ths i = 0 \<or> count_at late ths i = 0) \<and>
     (\<forall>p \<in> set (sh_partials sh). pr_status p = rs_ok \<longrightarrow>
        sh_done sh \<or> (\<exists>th \<in> set ths. dt_shared th = i \<and> dt_pc th = Complete_Ok p)) \<and>
     pt_attempt_count (sh_task sh) \<le> max 1 (pt_max_attempts (sh_task sh))"

definition conclude_ok :: "dispatch_pc \<Rightarrow> 'c shared_dispatch \<Rightarrow> bool" where
  "conclude_ok pc sh \<longleftrightarrow> (concluding pc \<longrightarrow> \<not> sh_done sh) \<and>
     (pc = Retry \<longrightarrow> pt_attempt_count (sh_task sh) < pt_max_attempts (sh_task sh))"

definition dispatch_ok :: "'c shared_dispatch list \<Rightarrow> dispatch_thread list \<Rightarrow> bool" where
  "dispatch_ok shs ths \<longleftrightarrow>
     (\<forall>th \<in> set ths. dt_shared th < length shs \<and> conclude_ok (dt_pc th) (shs ! dt_shared th)) \<and>
     (\<forall>i < length shs. shared_ok (shs ! i) ths i)"

definition live :: "'c shared_dispatch list \<Rightarrow> dispatch_thread list \<Rightarrow> nat \<Rightarrow> bool" where
  "live shs ths i \<longleftrightarrow> \<not> sh_done (shs ! i) \<and> 0 < count_at early ths i + count_at late ths i"

lemma shared_ok_other:
  assumes "dt_shared th = j" "i \<noteq> j"
  shows "shared_ok sh (ps @ advance th pc @ qs) i = shared_ok sh (ps @ th # qs) i"
    "live shs (ps @ advance th pc @ qs) i = live shs (ps @ th # qs) i"
  using assms by (auto simp: shared_ok_def live_def advance_def split: option.split)

lemma dispatch_ok_local:
  assumes ok: "dispatch_ok shs (ps @ th # qs)" and i: "dt_shared th = i" and act: "early (dt_pc th) \<or> late (dt_pc th)"
    and sh': "shared_ok sh' (ps @ advance th (Some pc) @ qs) i" and c: "conclude_ok pc sh'"
  shows "dispatch_ok (shs[i := sh']) (ps @ advance th (Some pc) @ qs)"
proof -
  have li: "i < length shs" using ok i by (auto simp: dispatch_ok_def)
  have si: "shared_ok (shs ! i) (ps @ th # qs) i" using ok li by (simp add: dispatch_ok_def)
  then have "count_at late ps i = 0" "count_at late qs i = 0"
    using act i by (auto simp: shared_ok_def late_def split: if_splits)
  then have nc: "\<not> concluding (dt_pc x)" if "x \<in> set ps \<union> set qs" "dt_shared x = i" for x
    using that by (auto simp: count_at_zero late_def)
  have "dt_shared x < length shs \<and> conclude_ok (dt_pc x) ((shs[i := sh']) ! dt_shared x)"
    if x: "x \<in> set (ps @ advance th (Some pc) @ qs)" for x
  proof (cases "x \<in> set ps \<union> set qs")
    case True
    then have "dt_shared x < length shs \<and> conclude_ok (dt_pc x) (shs ! dt_shared x)"
      using ok by (auto simp: dispatch_ok_def)
    then show ?thesis using nc [OF True] li by (cases "dt_shared x = i") (auto simp: conclude_ok_def)
  next
    case False
    then show ?thesis using x i c li by (auto simp: advance_def)
  qed
  moreover have "shared_ok (shs[i := sh'] ! j) (ps @ advance th (Some pc) @ qs) j" if "j < length shs" for j
    using that sh' ok by (cases "j = i") (simp_all add: dispatch_ok_def shared_ok_other(1) [OF i])
  ultimately show ?thesis by (simp add: dispatch_ok_def)
qed

lemma dispatch_ok_leave:
  assumes ok: "dispatch_ok shs (ps @ th # qs)" and l: "\<not> early (dt_pc th)" "\<not> late (dt_pc th)"
  shows "dispatch_ok shs (ps @ advance th None @ qs)"
proof -
  have "shared_ok (shs ! i) (ps @ qs) i" if "i < length shs" for i
  proof -
    have "shared_ok (shs ! i) (ps @ th # qs) i" using ok that by (simp add: dispatch_ok_def)
    then show ?thesis using l by (auto simp: shared_ok_def)
  qed
  then show ?thesis using ok by (simp add: dispatch_ok_def advance_def)
qed

section \<open>What is owed\<close>

definition owed :: "'c pending_task \<Rightarrow> ('c \<times> u32) multiset" where
  "owed t = (case pt_callback t of None \<Rightarrow> {#} | Some c \<Rightarrow> {#(c, pt_correlation_id t)#})"

definition owed_list :: "'c pending_task list \<Rightarrow> ('c \<times> u32) multiset" where
  "owed_list ts = sum_list (map owed ts)"

definition owed_shared :: "'c shared_dispatch list \<Rightarrow> dispatch_thread list \<Rightarrow> ('c \<times> u32) multiset" where
  "owed_shared shs ths = (\<Sum>i<length shs. if live shs ths i then owed (sh_task (shs ! i)) else {#})"

fun snapshot :: "'c loop_state \<Rightarrow> 'c pending_task list" where
  "snapshot (Loop_Drain now ts) = ts"
| "snapshot (Loop_Dispatch now ts) = ts"
| "snapshot l = []"

definition called :: "('c \<times> u32 \<times> result_status \<times> bytes) list \<Rightarrow> ('c \<times> u32) multiset" where
  "called calls = mset (map (\<lambda>(c, corr, st, p). (c, corr)) calls)"

text \<open>The callbacks still to be made: tasks that wait and dispatches that are under way.\<close>

definition waiting :: "('d, 'c) scheduler \<Rightarrow> ('c \<times> u32) multiset" where
  "waiting s = owed_list (sr_pending s) + owed_list (snapshot (sr_loop s)) + owed_shared (sr_shared s) (sr_threads s)"

lemma owed_list_simps [simp]:
  "owed_list [] = {#}" "owed_list (t # ts) = owed t + owed_list ts" "owed_list (ts @ us) = owed_list ts + owed_list us"
  by (simp_all add: owed_list_def)

lemma called_simps [simp]:
  "called [] = {#}" "called (xs @ ys) = called xs + called ys" "called (call_back t st p) = owed t"
  by (simp_all add: called_def call_back_def owed_def split: option.split)

lemma owed_attempt [simp]: "owed (t\<lparr>pt_attempt_count := n\<rparr>) = owed t"
  by (simp add: owed_def split: option.split)

lemma owed_shared_local:
  assumes i: "dt_shared th = i" "i < length shs" and t: "sh_task sh' = sh_task (shs ! i)"
  shows "owed_shared (shs[i := sh']) (ps @ advance th pc @ qs) + (if live shs (ps @ th # qs) i then owed (sh_task (shs ! i)) else {#})
    = owed_shared shs (ps @ th # qs) + (if live (shs[i := sh']) (ps @ advance th pc @ qs) i then owed (sh_task (shs ! i)) else {#})"
proof -
  let ?f = "\<lambda>j. if live (shs[i := sh']) (ps @ advance th pc @ qs) j then owed (sh_task ((shs[i := sh']) ! j)) else {#}"
  let ?g = "\<lambda>j. if live shs (ps @ th # qs) j then owed (sh_task (shs ! j)) else {#}"
  have "?f j = ?g j" if "j \<in> {..<length shs} - {i}" for j
  proof -
    have "live (shs[i := sh']) (ps @ advance th pc @ qs) j = live shs (ps @ advance th pc @ qs) j"
      using that by (simp add: live_def)
    then show ?thesis using that by (simp add: shared_ok_other(2) [OF i(1)])
  qed
  then have "sum ?f ({..<length shs} - {i}) = sum ?g ({..<length shs} - {i})" by (intro sum.cong) simp_all
  then show ?thesis
    using i sum.remove [of "{..<length shs}" i ?f] sum.remove [of "{..<length shs}" i ?g] t
    by (simp add: owed_shared_def)
qed

text \<open>The invariant.\<close>

definition queue_ok :: "'c pending_task list \<Rightarrow> bool" where
  "queue_ok ts \<longleftrightarrow> (\<forall>t \<in> set ts. pt_attempt_count t < max 1 (pt_max_attempts t))"

lemma slot_updates [simp]:
  "sr_shared (on_slot_transport_failure now key s) = sr_shared s"
  "sr_threads (on_slot_transport_failure now key s) = sr_threads s"
  "sr_pending (on_slot_transport_failure now key s) = sr_pending s"
  "sr_loop (on_slot_transport_failure now key s) = sr_loop s"
  "sr_active (on_slot_transport_failure now key s) = sr_active s"
  "sr_calls (on_slot_transport_failure now key s) = sr_calls s"
  "sr_submitted (on_slot_transport_failure now key s) = sr_submitted s"
  "sr_shared (slot_answered key s) = sr_shared s" "sr_threads (slot_answered key s) = sr_threads s"
  "sr_pending (slot_answered key s) = sr_pending s" "sr_loop (slot_answered key s) = sr_loop s"
  "sr_active (slot_answered key s) = sr_active s" "sr_calls (slot_answered key s) = sr_calls s"
  "sr_submitted (slot_answered key s) = sr_submitted s"
  by (simp_all add: on_slot_transport_failure_def slot_answered_def split: option.split)

lemma done_again [simp]: "sh_done sh \<Longrightarrow> sh\<lparr>sh_done := True\<rparr> = sh"
  by simp

lemma complete_fields [simp]:
  "sr_threads (complete_task_if_first i st p s) = sr_threads s"
  "sr_pending (complete_task_if_first i st p s) = sr_pending s"
  "sr_loop (complete_task_if_first i st p s) = sr_loop s"
  "sr_active (complete_task_if_first i st p s) = sr_active s"
  "sr_submitted (complete_task_if_first i st p s) = sr_submitted s"
  "sr_shared (complete_task_if_first i st p s) = (sr_shared s)[i := (sr_shared s ! i)\<lparr>sh_done := True\<rparr>]"
  "sr_calls (complete_task_if_first i st p s) =
     sr_calls s @ (if sh_done (sr_shared s ! i) then [] else call_back (sh_task (sr_shared s ! i)) st p)"
proof -
  show "sr_shared (complete_task_if_first i st p s) = (sr_shared s)[i := (sr_shared s ! i)\<lparr>sh_done := True\<rparr>]"
    by (cases "sh_done (sr_shared s ! i)") (simp_all add: complete_task_if_first_def Let_def)
qed (simp_all add: complete_task_if_first_def Let_def)

lemma shared_ok_moves:
  assumes "shared_ok sh (ps @ th # qs) i" "dt_shared th = i" "early (dt_pc th) = early pc" "late (dt_pc th) = late pc"
    "sh_remaining sh' = sh_remaining sh" "sh_task sh' = sh_task sh"
    "\<forall>p \<in> set (sh_partials sh'). pr_status p = rs_ok \<longrightarrow> sh_done sh' \<or>
       (p \<in> set (sh_partials sh) \<and> \<not> sh_done sh \<and> dt_pc th \<noteq> Complete_Ok p) \<or> pc = Complete_Ok p"
  shows "shared_ok sh' (ps @ advance th (Some pc) @ qs) i"
  unfolding shared_ok_def
proof (intro conjI ballI impI)
  fix p assume p: "p \<in> set (sh_partials sh')" "pr_status p = rs_ok"
  have old: "\<And>p. p \<in> set (sh_partials sh) \<Longrightarrow> pr_status p = rs_ok \<Longrightarrow> \<not> sh_done sh \<Longrightarrow>
      \<exists>x \<in> set (ps @ th # qs). dt_shared x = i \<and> dt_pc x = Complete_Ok p"
    using assms(1) by (auto simp: shared_ok_def)
  consider "sh_done sh'" | (old) "p \<in> set (sh_partials sh)" "\<not> sh_done sh" "dt_pc th \<noteq> Complete_Ok p" | (new) "pc = Complete_Ok p"
    using assms(7) p by blast
  then show "sh_done sh' \<or> (\<exists>x \<in> set (ps @ advance th (Some pc) @ qs). dt_shared x = i \<and> dt_pc x = Complete_Ok p)"
  proof cases
    case old
    from \<open>\<And>p. p \<in> set (sh_partials sh) \<Longrightarrow> pr_status p = rs_ok \<Longrightarrow> \<not> sh_done sh \<Longrightarrow> _\<close> [OF old(1) p(2) old(2)]
    show ?thesis using old(3) by auto
  next
    case new
    then show ?thesis using assms(2) by (auto simp: advance_def)
  qed simp
qed (use assms in \<open>auto simp: shared_ok_def\<close>)

text \<open>The parts of the invariant that a thread step touches.\<close>

definition thread_inv :: "('d, 'c) scheduler \<Rightarrow> dispatch_thread list \<Rightarrow> bool" where
  "thread_inv s ths \<longleftrightarrow> dispatch_ok (sr_shared s) ths \<and> queue_ok (sr_pending s) \<and>
     owed_list (sr_submitted s) = called (sr_calls s) + (owed_list (sr_pending s) +
       owed_list (snapshot (sr_loop s)) + owed_shared (sr_shared s) ths)"

definition scheduler_inv :: "('d, 'c) scheduler \<Rightarrow> bool" where
  "scheduler_inv s \<longleftrightarrow> thread_inv s (sr_threads s) \<and> queue_ok (snapshot (sr_loop s)) \<and>
     sr_active s = int (length (sr_threads s))"

lemma thread_inv_fields [simp]:
  "thread_inv (s\<lparr>sr_threads := x\<rparr>) ths = thread_inv s ths"
  "thread_inv (s\<lparr>sr_slots := m\<rparr>) ths = thread_inv s ths"
  "thread_inv (s\<lparr>sr_active := n\<rparr>) ths = thread_inv s ths"
  "thread_inv (s\<lparr>sr_running := b\<rparr>) ths = thread_inv s ths"
  "thread_inv (s\<lparr>sr_embed := f\<rparr>) ths = thread_inv s ths"
  by (simp_all add: thread_inv_def)

lemma thread_moves:
  assumes inv: "thread_inv s (ps @ th # qs)" and act: "early (dt_pc th) \<or> late (dt_pc th)"
    and e: "early (dt_pc th) = early pc" "late (dt_pc th) = late pc"
    and f: "sh_remaining sh' = sh_remaining (sr_shared s ! dt_shared th)" "sh_task sh' = sh_task (sr_shared s ! dt_shared th)"
    and d: "sh_done (sr_shared s ! dt_shared th) \<longrightarrow> sh_done sh'" "conclude_ok pc sh'"
    and p: "\<forall>p \<in> set (sh_partials sh'). pr_status p = rs_ok \<longrightarrow> sh_done sh' \<or>
       (p \<in> set (sh_partials (sr_shared s ! dt_shared th)) \<and> \<not> sh_done (sr_shared s ! dt_shared th) \<and> dt_pc th \<noteq> Complete_Ok p) \<or>
       pc = Complete_Ok p"
  shows "dispatch_ok ((sr_shared s)[dt_shared th := sh']) (ps @ advance th (Some pc) @ qs)"
    "owed_shared ((sr_shared s)[dt_shared th := sh']) (ps @ advance th (Some pc) @ qs) +
       (if sh_done sh' \<and> \<not> sh_done (sr_shared s ! dt_shared th) then owed (sh_task (sr_shared s ! dt_shared th)) else {#}) =
     owed_shared (sr_shared s) (ps @ th # qs)"
proof -
  have ok: "dispatch_ok (sr_shared s) (ps @ th # qs)" using inv by (simp add: thread_inv_def)
  have li: "dt_shared th < length (sr_shared s)" using ok by (auto simp: dispatch_ok_def)
  have si: "shared_ok (sr_shared s ! dt_shared th) (ps @ th # qs) (dt_shared th)" using ok li by (simp add: dispatch_ok_def)
  show "dispatch_ok ((sr_shared s)[dt_shared th := sh']) (ps @ advance th (Some pc) @ qs)"
    by (rule dispatch_ok_local [OF ok refl act shared_ok_moves [OF si refl e f p] d(2)])
  have l: "live (sr_shared s) (ps @ th # qs) (dt_shared th) = (\<not> sh_done (sr_shared s ! dt_shared th))"
    using act by (auto simp: live_def)
  have l': "live ((sr_shared s)[dt_shared th := sh']) (ps @ advance th (Some pc) @ qs) (dt_shared th) = (\<not> sh_done sh')"
    using act e li by (auto simp: live_def)
  show "owed_shared ((sr_shared s)[dt_shared th := sh']) (ps @ advance th (Some pc) @ qs) +
       (if sh_done sh' \<and> \<not> sh_done (sr_shared s ! dt_shared th) then owed (sh_task (sr_shared s ! dt_shared th)) else {#}) =
     owed_shared (sr_shared s) (ps @ th # qs)"
    using owed_shared_local [OF refl li f(2), where ps = ps and qs = qs and pc = "Some pc", unfolded l l'] d(1)
    by (auto split: if_splits)
qed

lemma early_step_inv:
  assumes inv: "thread_inv s (ps @ th # qs)" and e: "early (dt_pc th)" "early pc" "\<not> late (dt_pc th)" "\<not> late pc"
    and s': "sr_shared s' = (sr_shared s)[dt_shared th := sh']" "sr_pending s' = sr_pending s"
      "sr_loop s' = sr_loop s" "sr_submitted s' = sr_submitted s"
      "called (sr_calls s') = called (sr_calls s) +
         (if sh_done sh' \<and> \<not> sh_done (sr_shared s ! dt_shared th) then owed (sh_task (sr_shared s ! dt_shared th)) else {#})"
    and f: "sh_remaining sh' = sh_remaining (sr_shared s ! dt_shared th)" "sh_task sh' = sh_task (sr_shared s ! dt_shared th)"
    and d: "sh_done (sr_shared s ! dt_shared th) \<longrightarrow> sh_done sh'"
    and p: "\<forall>p \<in> set (sh_partials sh'). pr_status p = rs_ok \<longrightarrow> sh_done sh' \<or>
       (p \<in> set (sh_partials (sr_shared s ! dt_shared th)) \<and> \<not> sh_done (sr_shared s ! dt_shared th) \<and> dt_pc th \<noteq> Complete_Ok p) \<or>
       pc = Complete_Ok p"
  shows "thread_inv s' (ps @ advance th (Some pc) @ qs)"
proof -
  have c: "conclude_ok pc sh'" using e(4) by (auto simp: late_def conclude_ok_def)
  have "thread_inv s (ps @ th # qs)" "early (dt_pc th) \<or> late (dt_pc th)" "early (dt_pc th) = early pc"
    "late (dt_pc th) = late pc" "conclude_ok pc sh'" using inv e c by simp_all
  note m = thread_moves [OF this(1-4) f d this(5) p]
  show ?thesis using m(1) inv unfolding thread_inv_def s' m(2) [symmetric]
    by (simp add: ac_simps)
qed

lemma late_simps [simp]:
  "late Check_Done" "late (Complete_With st p)" "late Retry" "\<not> late Leave" "\<not> late Transport"
  "\<not> late (Record_Partial r)" "\<not> late (Complete_Ok r)" "\<not> late Count_Down"
  by (simp_all add: late_def)

lemma late_alone:
  assumes "thread_inv s (ps @ th # qs)" "late (dt_pc th)"
  shows "count_at early (ps @ qs) (dt_shared th) = 0" "count_at late (ps @ qs) (dt_shared th) = 0"
    "\<not> early (dt_pc th)" "sh_remaining (sr_shared s ! dt_shared th) = 0"
    "\<forall>p \<in> set (sh_partials (sr_shared s ! dt_shared th)). pr_status p = rs_ok \<longrightarrow> sh_done (sr_shared s ! dt_shared th)"
proof -
  let ?i = "dt_shared th"
  have si: "shared_ok (sr_shared s ! ?i) (ps @ th # qs) ?i" using assms(1) by (auto simp: thread_inv_def dispatch_ok_def)
  show ne: "\<not> early (dt_pc th)" using assms(2) by (cases "dt_pc th") simp_all
  show z: "count_at early (ps @ qs) ?i = 0" "count_at late (ps @ qs) ?i = 0"
    and "sh_remaining (sr_shared s ! ?i) = 0"
    using si assms(2) ne by (auto simp: shared_ok_def split: if_splits)
  have "dt_pc x \<noteq> Complete_Ok p" if "x \<in> set (ps @ th # qs)" "dt_shared x = ?i" for x p
    using that z(1) ne by (auto simp: count_at_zero)
  then show "\<forall>p \<in> set (sh_partials (sr_shared s ! ?i)). pr_status p = rs_ok \<longrightarrow> sh_done (sr_shared s ! ?i)"
    using si unfolding shared_ok_def by blast
qed

lemma to_leave:
  assumes inv: "thread_inv s (ps @ th # qs)" and l: "late (dt_pc th)"
    and sh': "sh_remaining sh' = 0" "sh_task sh' = sh_task (sr_shared s ! dt_shared th)"
      "sh_partials sh' = sh_partials (sr_shared s ! dt_shared th)"
      "sh_done (sr_shared s ! dt_shared th) \<longrightarrow> sh_done sh'"
  shows "dispatch_ok ((sr_shared s)[dt_shared th := sh']) (ps @ advance th (Some Leave) @ qs)"
    "owed_shared ((sr_shared s)[dt_shared th := sh']) (ps @ advance th (Some Leave) @ qs) +
       (if sh_done (sr_shared s ! dt_shared th) then {#} else owed (sh_task (sr_shared s ! dt_shared th)))
     = owed_shared (sr_shared s) (ps @ th # qs)"
proof -
  let ?i = "dt_shared th"
  note a = late_alone [OF inv l]
  have ok: "dispatch_ok (sr_shared s) (ps @ th # qs)" using inv by (simp add: thread_inv_def)
  have li: "?i < length (sr_shared s)" using ok by (auto simp: dispatch_ok_def)
  have si: "shared_ok (sr_shared s ! ?i) (ps @ th # qs) ?i" using ok li by (simp add: dispatch_ok_def)
  have so: "shared_ok sh' (ps @ advance th (Some Leave) @ qs) ?i"
    using si a sh' by (auto simp: shared_ok_def)
  show "dispatch_ok ((sr_shared s)[?i := sh']) (ps @ advance th (Some Leave) @ qs)"
    by (rule dispatch_ok_local [OF ok refl _ so]) (use l in \<open>simp_all add: conclude_ok_def\<close>)
  have "live (sr_shared s) (ps @ th # qs) ?i = (\<not> sh_done (sr_shared s ! ?i))" using l by (auto simp: live_def)
  moreover have "\<not> live ((sr_shared s)[?i := sh']) (ps @ advance th (Some Leave) @ qs) ?i"
    using a by (auto simp: live_def)
  ultimately show "owed_shared ((sr_shared s)[?i := sh']) (ps @ advance th (Some Leave) @ qs) +
       (if sh_done (sr_shared s ! ?i) then {#} else owed (sh_task (sr_shared s ! ?i)))
     = owed_shared (sr_shared s) (ps @ th # qs)"
    using owed_shared_local [OF refl li sh'(2), where ps = ps and qs = qs and pc = "Some Leave"]
    by (auto split: if_splits)
qed

lemma count_down_inv:
  assumes inv: "thread_inv s (ps @ th # qs)" and cd: "dt_pc th = Count_Down" and sh: "sh = sr_shared s ! dt_shared th"
    and pc: "pc = (if sh_remaining sh = 1 then Check_Done else Leave)"
  shows "thread_inv (s\<lparr>sr_shared := (sr_shared s)[dt_shared th := sh\<lparr>sh_remaining := sh_remaining sh - 1\<rparr>]\<rparr>)
    (ps @ advance th (Some pc) @ qs)"
proof -
  let ?i = "dt_shared th" let ?sh' = "sh\<lparr>sh_remaining := sh_remaining sh - 1\<rparr>"
  have ok: "dispatch_ok (sr_shared s) (ps @ th # qs)" using inv by (simp add: thread_inv_def)
  have li: "?i < length (sr_shared s)" using ok by (auto simp: dispatch_ok_def)
  have si: "shared_ok sh (ps @ th # qs) ?i" using ok li sh by (simp add: dispatch_ok_def)
  have rem: "sh_remaining sh = 1 + int (count_at early (ps @ qs) ?i)" "count_at late (ps @ qs) ?i = 0"
    using si cd by (simp_all add: shared_ok_def)
  have so: "shared_ok ?sh' (ps @ advance th (Some pc) @ qs) ?i"
    using si rem cd pc by (auto simp: shared_ok_def)
  have d: "dispatch_ok ((sr_shared s)[?i := ?sh']) (ps @ advance th (Some pc) @ qs)"
    by (rule dispatch_ok_local [OF ok refl _ so]) (use cd pc in \<open>simp_all add: conclude_ok_def\<close>)
  have "live (sr_shared s) (ps @ th # qs) ?i = (\<not> sh_done sh)" using cd sh by (simp add: live_def)
  moreover have "live ((sr_shared s)[?i := ?sh']) (ps @ advance th (Some pc) @ qs) ?i = (\<not> sh_done sh)"
    using li rem pc by (auto simp: live_def)
  ultimately have "owed_shared ((sr_shared s)[?i := ?sh']) (ps @ advance th (Some pc) @ qs)
      = owed_shared (sr_shared s) (ps @ th # qs)"
    using owed_shared_local [OF refl li, of ?sh' ps "Some pc" qs] sh by simp
  then show ?thesis using inv d by (simp add: thread_inv_def)
qed

lemma check_done_inv:
  assumes inv: "thread_inv s (ps @ th # qs)" and cd: "dt_pc th = Check_Done" and sh: "sh = sr_shared s ! dt_shared th"
  shows "thread_inv s (ps @ advance th (Some (if sh_done sh then Leave else conclusion F (sr_embed s) sh)) @ qs)"
proof -
  have l: "late (dt_pc th)" using cd by simp
  note a = late_alone [OF inv l]
  show ?thesis
  proof (cases "sh_done sh")
    case True
    then show ?thesis using to_leave [OF inv l, of sh] inv sh a by (simp add: thread_inv_def)
  next
    case False
    have c: "early (conclusion F (sr_embed s) sh) = False" "late (conclusion F (sr_embed s) sh)"
      by (simp_all add: conclusion_def Let_def)
    have k: "conclude_ok (conclusion F (sr_embed s) sh) sh" using False by (simp add: conclude_ok_def conclusion_def Let_def)
    note m = thread_moves [OF inv _ _ _, of "conclusion F (sr_embed s) sh" sh]
    have "dispatch_ok ((sr_shared s)[dt_shared th := sh]) (ps @ advance th (Some (conclusion F (sr_embed s) sh)) @ qs)"
      by (rule m(1)) (use cd c k sh False a in auto)
    moreover have "owed_shared ((sr_shared s)[dt_shared th := sh]) (ps @ advance th (Some (conclusion F (sr_embed s) sh)) @ qs) +
       (if sh_done sh \<and> \<not> sh_done (sr_shared s ! dt_shared th) then owed (sh_task (sr_shared s ! dt_shared th)) else {#}) =
       owed_shared (sr_shared s) (ps @ th # qs)"
      by (rule m(2)) (use cd c k sh False a in auto)
    ultimately show ?thesis using inv sh False by (simp add: thread_inv_def)
  qed
qed

lemma complete_with_inv:
  assumes inv: "thread_inv s (ps @ th # qs)" and cd: "dt_pc th = Complete_With st p"
  shows "thread_inv (complete_task_if_first (dt_shared th) st p s) (ps @ advance th (Some Leave) @ qs)"
proof -
  have l: "late (dt_pc th)" using cd by simp
  note a = late_alone [OF inv l]
  have "\<not> sh_done (sr_shared s ! dt_shared th)" using inv cd by (auto simp: thread_inv_def dispatch_ok_def conclude_ok_def)
  then show ?thesis
    using to_leave [OF inv l, of "(sr_shared s ! dt_shared th)\<lparr>sh_done := True\<rparr>"] inv a(4)
    by (simp add: thread_inv_def ac_simps)
qed

lemma retry_inv:
  assumes inv: "thread_inv s (ps @ th # qs)" and cd: "dt_pc th = Retry"
  shows "thread_inv (s\<lparr>sr_pending := sr_pending s @ [sh_task (sr_shared s ! dt_shared th)]\<rparr>)
    (ps @ advance th (Some Leave) @ qs)"
proof -
  have l: "late (dt_pc th)" using cd by simp
  have at: "pt_attempt_count (sh_task (sr_shared s ! dt_shared th)) < max 1 (pt_max_attempts (sh_task (sr_shared s ! dt_shared th)))"
    and "\<not> sh_done (sr_shared s ! dt_shared th)"
    using inv cd by (auto simp: thread_inv_def dispatch_ok_def conclude_ok_def less_max_iff_disj)
  then show ?thesis
    using to_leave [OF inv l, of "sr_shared s ! dt_shared th"] inv late_alone(4) [OF inv l] at
    by (simp add: thread_inv_def ac_simps queue_ok_def)
qed

lemma early_step_inv':
  assumes "thread_inv s (ps @ th # qs)" "early (dt_pc th)" "early pc" "\<not> late (dt_pc th)" "\<not> late pc"
    "sr_shared s' = sr_shared s" "sr_pending s' = sr_pending s" "sr_loop s' = sr_loop s"
    "sr_submitted s' = sr_submitted s" "sr_calls s' = sr_calls s" "\<forall>p. dt_pc th \<noteq> Complete_Ok p"
  shows "thread_inv s' (ps @ advance th (Some pc) @ qs)"
  by (rule early_step_inv [OF assms(1-5), of s' "sr_shared s ! dt_shared th"]) (use assms in auto)

lemma thread_step_inv:
  assumes inv: "thread_inv s (ps @ th # qs)" and st: "thread_step F s th s' pc"
  shows "thread_inv s' (ps @ advance th pc @ qs)"
  using st
proof cases
  case (transport_failed now)
  show ?thesis unfolding transport_failed by (rule early_step_inv' [OF inv]) (use transport_failed in simp_all)
next
  case (transport_done p)
  show ?thesis unfolding transport_done by (rule early_step_inv' [OF inv]) (use transport_done in simp_all)
next
  case (record_partial p i sh)
  show ?thesis unfolding record_partial(1,2)
    by (rule early_step_inv [OF inv, where sh' = "sh\<lparr>sh_partials := sh_partials sh @ [p]\<rparr>"])
      (use record_partial in auto)
next
  case (complete_ok p)
  show ?thesis unfolding complete_ok(1,2)
    by (rule early_step_inv [OF inv, where sh' = "(sr_shared s ! dt_shared th)\<lparr>sh_done := True\<rparr>"])
      (use complete_ok in auto)
next
  case (count_down i sh)
  then show ?thesis using count_down_inv [OF inv] by auto
next
  case (check_done sh)
  then show ?thesis using check_done_inv [OF inv, of sh F] by auto
next
  case (complete_with status payload)
  then show ?thesis using complete_with_inv [OF inv] by auto
next
  case retry_queued
  then show ?thesis using retry_inv [OF inv] by auto
next
  case retry_refused
  have l: "late (dt_pc th)" using retry_refused by simp
  have nd: "\<not> sh_done (sr_shared s ! dt_shared th)"
    using inv retry_refused by (auto simp: thread_inv_def dispatch_ok_def conclude_ok_def)
  have k: "conclude_ok (Complete_With rs_rejected []) (sr_shared s ! dt_shared th)"
    using nd by (simp add: conclude_ok_def)
  note m = thread_moves [OF inv, of "Complete_With rs_rejected []" "sr_shared s ! dt_shared th"]
  have d: "dispatch_ok ((sr_shared s)[dt_shared th := sr_shared s ! dt_shared th])
      (ps @ advance th (Some (Complete_With rs_rejected [])) @ qs)"
    by (rule m(1)) (use retry_refused nd k in auto)
  have "owed_shared ((sr_shared s)[dt_shared th := sr_shared s ! dt_shared th])
      (ps @ advance th (Some (Complete_With rs_rejected [])) @ qs) +
      (if sh_done (sr_shared s ! dt_shared th) \<and> \<not> sh_done (sr_shared s ! dt_shared th)
       then owed (sh_task (sr_shared s ! dt_shared th)) else {#}) = owed_shared (sr_shared s) (ps @ th # qs)"
    by (rule m(2)) (use retry_refused nd k in auto)
  then show ?thesis using d inv retry_refused by (simp add: thread_inv_def)
next
  case leave
  have e: "\<not> early (dt_pc th)" "\<not> late (dt_pc th)" using leave by simp_all
  have "live (sr_shared s) (ps @ qs) i = live (sr_shared s) (ps @ th # qs) i" for i
    using e by (simp add: live_def)
  then have "owed_shared (sr_shared s) (ps @ advance th None @ qs) = owed_shared (sr_shared s) (ps @ th # qs)"
    by (simp add: owed_shared_def advance_def)
  then show ?thesis using inv leave dispatch_ok_leave [OF _ e, of "sr_shared s" ps qs]
    by (simp add: thread_inv_def)
qed

lemma thread_step_fields:
  assumes "thread_step F s th s' pc"
  shows "sr_loop s' = sr_loop s \<and> sr_active s' = sr_active s - (if pc = None then 1 else 0)"
  using assms by cases auto

lemma attempt_inc: "a < max 1 m \<Longrightarrow> a + 1 \<le> max 1 (m :: u32)"
  by (rule inc_le)

lemma count_at_bound: "\<forall>th \<in> set ths. dt_shared th < n \<Longrightarrow> count_at P ths n = 0"
  by (auto simp: count_at_zero)

lemma count_at_new: "count_at P (map (\<lambda>key. \<lparr>dt_slot = key, dt_shared = n, dt_pc = pc\<rparr>) ks) i =
    (if i = n \<and> P pc then length ks else 0)"
  by (induction ks) auto

lemma shared_ok_more:
  assumes "shared_ok sh ths i" "\<And>P. count_at P ths' i = count_at P ths i" "set ths \<subseteq> set ths'"
  shows "shared_ok sh ths' i"
proof -
  have "sh_done sh \<or> (\<exists>th \<in> set ths'. dt_shared th = i \<and> dt_pc th = Complete_Ok p)"
    if "p \<in> set (sh_partials sh)" "pr_status p = rs_ok" for p
  proof -
    have "sh_done sh \<or> (\<exists>th \<in> set ths. dt_shared th = i \<and> dt_pc th = Complete_Ok p)"
      using assms(1) that by (simp add: shared_ok_def)
    then show ?thesis using assms(3) by blast
  qed
  then show ?thesis using assms(1) by (simp add: shared_ok_def assms(2))
qed

lemma new_dispatch_inv:
  assumes inv: "thread_inv s ths" and ks: "ks \<noteq> []" and t: "pt_attempt_count t \<le> max 1 (pt_max_attempts t)"
    and sh: "sh = \<lparr>sh_task = t, sh_done = False, sh_partials = [], sh_remaining = int (length ks)\<rparr>"
    and new: "new = map (\<lambda>key. \<lparr>dt_slot = key, dt_shared = length (sr_shared s), dt_pc = Transport\<rparr>) ks"
  shows "dispatch_ok (sr_shared s @ [sh]) (ths @ new)"
    "owed_shared (sr_shared s @ [sh]) (ths @ new) = owed_shared (sr_shared s) ths + owed t"
proof -
  let ?n = "length (sr_shared s)"
  have ok: "dispatch_ok (sr_shared s) ths" using inv by (simp add: thread_inv_def)
  then have b: "\<forall>th \<in> set ths. dt_shared th < ?n" by (simp add: dispatch_ok_def)
  have old: "count_at P (ths @ new) i = count_at P ths i" if "i < ?n" for P i
    using that new by (simp add: count_at_new)
  have cn: "count_at P (ths @ new) ?n = (if P Transport then length ks else 0)" for P
    using count_at_bound [OF b] new by (simp add: count_at_new)
  have so: "shared_ok (sr_shared s ! i) (ths @ new) i" if "i < ?n" for i
    by (rule shared_ok_more [where ths = ths]) (use ok that old in \<open>auto simp: dispatch_ok_def\<close>)
  have sn: "shared_ok sh (ths @ new) ?n" unfolding shared_ok_def cn using sh t by simp
  have "conclude_ok (dt_pc th) ((sr_shared s @ [sh]) ! dt_shared th)" if "th \<in> set (ths @ new)" for th
  proof (cases "th \<in> set ths")
    case True
    then show ?thesis using ok b by (simp add: dispatch_ok_def nth_append)
  next
    case False
    then show ?thesis using that new by (auto simp: conclude_ok_def)
  qed
  moreover have "dt_shared th < length (sr_shared s @ [sh])" if "th \<in> set (ths @ new)" for th
    using that b new by auto
  moreover have "shared_ok ((sr_shared s @ [sh]) ! i) (ths @ new) i" if "i < length (sr_shared s @ [sh])" for i
    using that so sn by (cases "i = ?n") (auto simp: nth_append)
  ultimately show "dispatch_ok (sr_shared s @ [sh]) (ths @ new)" by (simp add: dispatch_ok_def)
  have "live (sr_shared s @ [sh]) (ths @ new) i = live (sr_shared s) ths i" if "i < ?n" for i
    using that old [OF that] by (simp add: live_def nth_append)
  moreover have "live (sr_shared s @ [sh]) (ths @ new) ?n"
    using cn ks sh unfolding live_def by simp
  moreover have st: "sh_task sh = t" using sh by simp
  moreover have "(\<Sum>i<?n. if live (sr_shared s @ [sh]) (ths @ new) i then owed (sh_task ((sr_shared s @ [sh]) ! i)) else {#})
      = (\<Sum>i<?n. if live (sr_shared s) ths i then owed (sh_task (sr_shared s ! i)) else {#})"
    using calculation(1) by (intro sum.cong) (auto simp: nth_append)
  ultimately show "owed_shared (sr_shared s @ [sh]) (ths @ new) = owed_shared (sr_shared s) ths + owed t"
    using st by (simp add: owed_shared_def)
qed

lemma dispatch_task_inv:
  assumes inv: "scheduler_inv s" and l: "sr_loop s = Loop_Dispatch now (t # ts)"
  shows "scheduler_inv ((dispatch_task F srt now t s)\<lparr>sr_loop := Loop_Dispatch now ts\<rparr>)"
proof -
  let ?sel = "select_best_slots F srt (sr_slots s) (pt_type t) now 3"
  let ?t = "t\<lparr>pt_attempt_count := pt_attempt_count t + 1\<rparr>"
  have ti: "thread_inv s (sr_threads s)" and q: "queue_ok (t # ts)" and a: "sr_active s = int (length (sr_threads s))"
    using inv l by (simp_all add: scheduler_inv_def)
  have o: "owed_list (sr_submitted s) = called (sr_calls s) + (owed_list (sr_pending s) +
       (owed t + owed_list ts) + owed_shared (sr_shared s) (sr_threads s))" "queue_ok (sr_pending s)"
    "dispatch_ok (sr_shared s) (sr_threads s)"
    using ti l by (simp_all add: thread_inv_def)
  show ?thesis
  proof (cases "?sel = []")
    case True
    then show ?thesis using o q a
      by (simp add: scheduler_inv_def thread_inv_def dispatch_task_def queue_ok_def add_ac)
  next
    case False
    have "pt_attempt_count ?t \<le> max 1 (pt_max_attempts ?t)" using q attempt_inc by (simp add: queue_ok_def)
    note n = new_dispatch_inv [OF ti False this refl refl]
    let ?new = "map (\<lambda>key. \<lparr>dt_slot = key, dt_shared = length (sr_shared s), dt_pc = Transport\<rparr>) ?sel"
    let ?sh = "\<lparr>sh_task = ?t, sh_done = False, sh_partials = [], sh_remaining = int (length ?sel)\<rparr>"
    let ?s' = "(dispatch_task F srt now t s)\<lparr>sr_loop := Loop_Dispatch now ts\<rparr>"
    have f: "sr_shared ?s' = sr_shared s @ [?sh]" "sr_threads ?s' = sr_threads s @ ?new"
      "sr_pending ?s' = sr_pending s" "sr_submitted ?s' = sr_submitted s" "sr_calls ?s' = sr_calls s"
      "sr_loop ?s' = Loop_Dispatch now ts" "sr_active ?s' = sr_active s + int (length ?sel)"
      using False by (simp_all add: dispatch_task_def Let_def)
    have "owed_list (sr_submitted s) = called (sr_calls s) + (owed_list (sr_pending s) + owed_list ts +
        (owed_shared (sr_shared s) (sr_threads s) + owed t))" using o(1) by (simp only: add_ac)
    moreover have "queue_ok ts" using q by (simp add: queue_ok_def)
    ultimately show ?thesis
      unfolding scheduler_inv_def thread_inv_def f n(2) owed_attempt snapshot.simps
      using n(1) o(2) a by simp
  qed
qed

lemma scheduler_step_inv:
  assumes inv: "scheduler_inv s" and st: "scheduler_step F srt s s'"
  shows "scheduler_inv s'"
  using st
proof cases
  case (registers wid sid ty ip port)
  then show ?thesis using inv by (simp add: register_slot_def Let_def scheduler_inv_def)
next
  case (heartbeat now hb)
  then show ?thesis using inv by (simp add: apply_heartbeat_def Let_def scheduler_inv_def)
next
  case (submits accepted ty payload timeout attempts callback)
  have n: "(0 :: u32) < max 1 m" for m by (simp add: less_max_iff_disj)
  show ?thesis using inv n unfolding submits
    by (simp add: submit_def Let_def scheduler_inv_def thread_inv_def queue_ok_def owed_def add_ac called_simps(3))
next
  case (sets_embedding provider)
  then show ?thesis using inv by (simp add: scheduler_inv_def)
next
  case starts
  then show ?thesis using inv by (simp add: scheduler_inv_def thread_inv_def)
next
  case stops
  then show ?thesis using inv by (simp add: scheduler_inv_def)
next
  case loop_ends
  then show ?thesis using inv by (simp add: scheduler_inv_def thread_inv_def)
next
  case (loop_round now)
  then show ?thesis using inv by (simp add: scheduler_inv_def thread_inv_def expire_stale_def)
next
  case (loop_pops now ts t rest)
  then show ?thesis using inv by (simp add: scheduler_inv_def thread_inv_def queue_ok_def add_ac)
next
  case (loop_drained now ts)
  then show ?thesis using inv by (simp add: scheduler_inv_def thread_inv_def)
next
  case (loop_dispatches now t ts)
  then show ?thesis using dispatch_task_inv [OF inv] by simp
next
  case (loop_waits now)
  then show ?thesis using inv by (simp add: scheduler_inv_def thread_inv_def)
next
  case (thread_steps ps th qs s'' pc)
  have ti: "thread_inv s (ps @ th # qs)" using inv thread_steps by (simp add: scheduler_inv_def)
  show ?thesis using thread_step_inv [OF ti thread_steps(3)] thread_step_fields [OF thread_steps(3)] thread_steps inv
    by (simp add: scheduler_inv_def advance_def split: option.split)
qed

lemma scheduler_invariant: "scheduler_reachable F srt slots s \<Longrightarrow> scheduler_inv s"
proof (induction rule: scheduler_reachable.induct)
  case scheduler_init
  then show ?case
    by (simp add: scheduler_inv_def thread_inv_def new_task_scheduler_def dispatch_ok_def queue_ok_def owed_shared_def)
next
  case (scheduler_next s s')
  then show ?case using scheduler_step_inv by blast
qed

section \<open>The scheduler as a whole\<close>

text \<open>
  C7: callbacks. Whatever the interleaving of clients, loop and dispatch threads and whatever
  the workers answer: the callbacks (with their correlation ids) that were submitted are those
  already called and those of tasks that are queued, being drained or under dispatch. So no
  callback is made twice or for a task that was not submitted, and when nothing is queued or
  under way every submission has had its callback exactly once.
\<close>

theorem every_callback_exactly_once:
  assumes "scheduler_reachable F srt slots s"
  shows "owed_list (sr_submitted s) = called (sr_calls s) + waiting s \<and>
    (sr_pending s = [] \<and> snapshot (sr_loop s) = [] \<and> sr_threads s = [] \<longrightarrow>
       owed_list (sr_submitted s) = called (sr_calls s))"
proof -
  have "owed_list (sr_submitted s) = called (sr_calls s) + waiting s"
    using scheduler_invariant [OF assms] by (simp add: scheduler_inv_def thread_inv_def waiting_def)
  moreover have "owed_shared shs [] = {#}" for shs :: "'b shared_dispatch list"
    by (simp add: owed_shared_def live_def)
  ultimately show ?thesis by (simp add: waiting_def)
qed

text \<open>
  C25: retries end. In every reachable state no dispatch has counted more than
  max(1, max_attempts) attempts and every queued task has one left; the counter of active
  dispatches that stop waits for is the number of dispatch threads.
\<close>

theorem attempts_are_bounded:
  assumes "scheduler_reachable F srt slots s"
  shows "(\<forall>sh \<in> set (sr_shared s). pt_attempt_count (sh_task sh) \<le> max 1 (pt_max_attempts (sh_task sh))) \<and>
    (\<forall>t \<in> set (sr_pending s). pt_attempt_count t < max 1 (pt_max_attempts t)) \<and>
    sr_active s = int (length (sr_threads s))"
proof -
  have inv: "scheduler_inv s" by (rule scheduler_invariant [OF assms])
  then have d: "\<forall>i < length (sr_shared s). shared_ok (sr_shared s ! i) (sr_threads s) i"
    by (simp add: scheduler_inv_def thread_inv_def dispatch_ok_def)
  have "pt_attempt_count (sh_task sh) \<le> max 1 (pt_max_attempts (sh_task sh))" if "sh \<in> set (sr_shared s)" for sh
    using that d by (auto simp: in_set_conv_nth shared_ok_def)
  then show ?thesis using inv by (simp add: scheduler_inv_def thread_inv_def queue_ok_def)
qed

text \<open>
  The consensus of \<open>dispatch_one_slot\<close> is never taken. When the last thread of a dispatch finds
  the task not completed, no worker has answered with \<open>RESULT_OK\<close> (the first such answer completes
  the task at once): it passes on the first answer, retries or times out, whatever the embedding.
\<close>

theorem consensus_is_never_reached:
  assumes "scheduler_reachable F srt slots s" and "th \<in> set (sr_threads s)" and "dt_pc th = Check_Done"
    and "sr_shared s ! dt_shared th = sh" and "\<not> sh_done sh"
  shows "conclusion F provider sh =
    (if sh_partials sh \<noteq> [] then Complete_With (pr_status (hd (sh_partials sh))) (pr_payload (hd (sh_partials sh)))
     else if pt_attempt_count (sh_task sh) < pt_max_attempts (sh_task sh) then Retry
     else Complete_With rs_timeout []) \<and>
    (\<forall>p \<in> set (sh_partials sh). pr_status p \<noteq> rs_ok)"
proof -
  obtain ps qs where ths: "sr_threads s = ps @ th # qs" using assms(2) by (meson split_list)
  have inv: "thread_inv s (ps @ th # qs)"
    using scheduler_invariant [OF assms(1)] ths by (simp add: scheduler_inv_def)
  have "late (dt_pc th)" using assms(3) by simp
  then have no: "\<forall>p \<in> set (sh_partials sh). pr_status p \<noteq> rs_ok"
    using late_alone(5) [OF inv] assms(4,5) by blast
  then have "filter (\<lambda>r. pr_status r = rs_ok) (sh_partials sh) = []" by (simp add: filter_empty_conv)
  then show ?thesis using no by (simp add: conclusion_def Let_def hd_conv_nth)
qed

definition no_handshake :: "'d slots \<Rightarrow> bool" where
  "no_handshake slots \<longleftrightarrow> (\<forall>(key, slot) \<in> set slots. ss_conn_state slot \<noteq> Conn_Active)"

lemma set_map_insert_subset: "set (map_insert k v m) \<subseteq> insert (k, v) (set m)"
  by (induction m) (auto split: if_split_asm)

lemma no_handshake_insert:
  "no_handshake m \<Longrightarrow> ss_conn_state slot \<noteq> Conn_Active \<Longrightarrow> no_handshake (map_insert key slot m)"
  using set_map_insert_subset [of key slot m] by (auto simp: no_handshake_def)

lemma no_handshake_at: "no_handshake m \<Longrightarrow> ss_conn_state (slot_at F m key) \<noteq> Conn_Active"
  by (auto simp: no_handshake_def slot_at_def new_slot_def dest: map_of_SomeD split: option.split)

lemma no_handshake_selects:
  assumes "comparison_sort srt" "no_handshake slots"
  shows "select_best_slots F srt slots ty now k = []"
proof -
  have "candidates_for F slots ty now = []"
    using assms(2) by (auto simp: candidates_for_def no_handshake_def is_eligible_def filter_empty_conv)
  moreover have "srt candidate_less [] = []"
    using comparison_sort.sort_set [OF assms(1) candidate_less_weak, of "[]"] by simp
  ultimately show ?thesis by (simp add: select_best_slots_def)
qed

definition only_rejects :: "('d, 'c) scheduler \<Rightarrow> bool" where
  "only_rejects s \<longleftrightarrow> no_handshake (sr_slots s) \<and> sr_threads s = [] \<and> sr_shared s = [] \<and>
     (\<forall>(c, corr, status, payload) \<in> set (sr_calls s). status = rs_rejected)"

lemma call_back_status: "x \<in> set (call_back t st p) \<Longrightarrow> fst (snd (snd x)) = st"
  by (auto simp: call_back_def split: option.splits)

lemma only_rejects_step:
  assumes srt: "comparison_sort srt" and inv: "only_rejects s" and st: "scheduler_step F srt s s'"
  shows "only_rejects s'"
  using st
proof cases
  case (registers wid sid ty ip port)
  then show ?thesis using inv no_handshake_at [of "sr_slots s" F "Slot_Key wid sid"]
    by (auto simp: only_rejects_def register_slot_def Let_def intro!: no_handshake_insert)
next
  case (heartbeat now hb)
  then show ?thesis using inv no_handshake_at [of "sr_slots s" F "Slot_Key (hb_worker_id hb) (hb_slot_id hb)"]
    by (auto simp: only_rejects_def apply_heartbeat_def slot_heartbeat_def Let_def intro!: no_handshake_insert)
next
  case (submits accepted ty payload timeout attempts callback)
  then show ?thesis using inv by (auto simp: only_rejects_def submit_def Let_def dest!: call_back_status)
next
  case (loop_round now)
  then show ?thesis using inv
    by (auto simp: only_rejects_def expire_stale_def no_handshake_def map_vals_def expire_slot_def split: if_splits)
next
  case (loop_dispatches now t ts)
  have "no_handshake (sr_slots s)" using inv by (simp add: only_rejects_def)
  then show ?thesis using loop_dispatches inv no_handshake_selects [OF srt, of "sr_slots s" F "pt_type t" now 3]
    by (auto simp: only_rejects_def dispatch_task_def Let_def dest!: call_back_status)
next
  case (thread_steps ps th qs s'' pc)
  then show ?thesis using inv by (simp add: only_rejects_def)
qed (use inv in \<open>simp_all add: only_rejects_def\<close>)

text \<open>
  C26: without a handshake the scheduler dispatches nothing. From a slot table with no active slot
  (such as the empty one it is created with), no sequence of its operations makes a slot active:
  in every reachable state no dispatch was ever made and every callback said RESULT_REJECTED.
\<close>

theorem no_dispatch_without_handshake:
  assumes "comparison_sort srt" and "no_handshake slots" and "scheduler_reachable F srt slots s"
  shows "no_handshake (sr_slots s) \<and> sr_threads s = [] \<and> sr_shared s = [] \<and>
    (\<forall>(c, corr, status, payload) \<in> set (sr_calls s). status = rs_rejected)"
proof -
  have "only_rejects s" using assms(3)
  proof (induction rule: scheduler_reachable.induct)
    case scheduler_init
    then show ?case using assms(2) by (simp add: only_rejects_def new_task_scheduler_def)
  next
    case (scheduler_next s s')
    then show ?case using only_rejects_step [OF assms(1)] by blast
  qed
  then show ?thesis by (simp add: only_rejects_def)
qed

text \<open>
  \<open>stop\<close> strands tasks. There is a run that ends stopped, with the loop joined and no dispatch
  under way, in which a submitted task with a callback is still queued and was never called back.
\<close>

theorem stop_strands_queued_tasks:
  "\<exists>s :: ('d::linorder, nat) scheduler. scheduler_reachable F srt [] s \<and> \<not> sr_running s \<and> sr_loop s = Loop_Off \<and>
     sr_threads s = [] \<and> sr_active s = 0 \<and> sr_calls s = [] \<and>
     owed_list (sr_submitted s) = {#(7, 1)#} \<and> sr_pending s = sr_submitted s"
proof -
  let ?s0 = "new_task_scheduler [] :: ('d, nat) scheduler"
  let ?s1 = "?s0\<lparr>sr_running := True, sr_loop := Loop_Test\<rparr>"
  let ?s2 = "fst (submit 1 [] 5000 3 (Some 7) True ?s1)"
  let ?s3 = "?s2\<lparr>sr_running := False\<rparr>"
  let ?s4 = "?s3\<lparr>sr_loop := Loop_Off\<rparr>"
  have "scheduler_reachable F srt [] ?s1"
    by (rule scheduler_next [OF scheduler_init starts]) (simp_all add: new_task_scheduler_def)
  then have "scheduler_reachable F srt [] ?s2"
    by (rule scheduler_next [OF _ submits]) (simp add: new_task_scheduler_def push_answer_def)
  then have "scheduler_reachable F srt [] ?s3" by (rule scheduler_next [OF _ stops])
  then have "scheduler_reachable F srt [] ?s4"
    by (rule scheduler_next [OF _ loop_ends]) (simp_all add: new_task_scheduler_def submit_def Let_def)
  then show ?thesis
    by (rule exI [of _ ?s4, OF conjI]) (simp add: new_task_scheduler_def submit_def owed_def Let_def)
qed

section \<open>The scheduler and the task receiver\<close>

lemma dispatch_header_valid:
  assumes "length (pt_payload t) \<le> 4194304"
  shows "validate_header (dispatch_header t key)"
proof -
  have "(of_nat (length (pt_payload t)) :: u32) \<le> 4194304" using payload_fits assms by simp
  then show ?thesis
    by (simp add: validate_header_def dispatch_header_def make_header_def not_less word_less_nat_alt word_le_nat_alt)
qed

text \<open>
  C27: the scheduler does not speak the protocol of the task receiver. A RESULT frame that the
  receiver writes for any status and body of at most 4 MiB carries a build time extension of six
  bytes, which dispatch_transport takes for payload: the status it records is the year of the
  receiver's build, whatever the worker answered, and the last bytes of the result are not read.
\<close>

theorem dispatch_misreads_results:
  assumes "recv_contract os s pending" and "recv_delivers os s pending"
    and "pending w = result_bytes bt h 0 1 (status # body) @ rest" and "length body < 4194304"
  shows "\<exists>w' p. dispatch_receive os w s key = (w', Some p) \<and> pr_status p = bt_year_2d bt \<and>
    pr_payload p = drop 1 (take (length (status # body)) (build_time_bytes bt @ status # body))"
proof -
  let ?p = "status # body" let ?h = "result_header h 0 1 (status # body)"
  let ?d = "take (length ?p) (build_time_bytes bt @ ?p)"
  have len: "unat (h1_payload_len ?h) = length ?p"
    using payload_fits [of "length ?p"] assms(4) by (simp del: length_Cons)
  then have nz: "h1_payload_len ?h \<noteq> 0" by (metis length_0_conv list.distinct(1) unat_0)
  have l: "length (header_bytes ?h) < 2 ^ 31" "24 = length (header_bytes ?h)" by simp_all
  have "pending w = header_bytes ?h @ build_time_bytes bt @ ?p @ rest"
    unfolding assms(3) by (simp add: result_bytes_def)
  from recv_part_ok [OF assms(1,2) l(1) this l(2)]
  obtain w1 where 1: "recv_part os w s 24 = (w1, Some (header_bytes ?h))"
    "pending w1 = build_time_bytes bt @ ?p @ rest" by blast
  have ld: "length ?d = length ?p" by simp
  have d: "pending w1 = ?d @ drop (length ?p) (build_time_bytes bt @ ?p) @ rest"
    unfolding 1(2) by (metis append.assoc append_take_drop_id)
  have "length ?d < 2 ^ 31" using assms(4) by simp
  from recv_part_ok [OF assms(1,2) this d] len ld
  obtain w2 where 2: "recv_part os w1 s (unat (h1_payload_len ?h)) = (w2, Some ?d)" by metis
  have "is_result_for (h1_correlation_id h) ?h" by (rule result_header_for) (use assms(4) in simp_all)
  then have v: "validate_header ?h" by (simp add: is_result_for_def)
  obtain ys where y: "?d = bt_year_2d bt # ys" by (simp add: build_time_bytes_def)
  have "h1_msg_type ?h \<noteq> mt_error" by simp
  then have "dispatch_receive os w s key = (os_close os w2 s, Some \<lparr>pr_slot = key, pr_status = bt_year_2d bt,
      pr_payload = ys, pr_diag = parse_helper_diag ys\<rparr>)"
    using 1(1) 2 [unfolded y] v nz
    by (simp add: dispatch_receive_def Let_def del: result_header_sel(7) length_Cons)
  then show ?thesis unfolding y by simp
qed

end
