(* ===== verification/Heartbeat_V1.thy ===== *)
theory Heartbeat_V1
  imports Task_Scheduler_Props "HOL-Library.List_Lexorder" "HOL-Library.Sublist"
begin

unbundle bit_operations_syntax

text \<open>
  Worker heartbeats (\<open>udp/heartbeat.cpp\<close>) from the status of a worker to its slot in the scheduler,
  and the vote over complete responses (\<open>scheduler/consensus_engine.hpp\<close>). Broken-down time and
  doubles are parameters.
\<close>

section \<open>Heartbeats\<close>

definition compute_worker_score :: "u8 \<Rightarrow> u8 \<Rightarrow> u16" where
  "compute_worker_score load queue_depth = ucast load * 10 + ucast queue_depth * 100"

text \<open>\<open>utc\<close> is the broken-down time: month, day, hour, minute, second.\<close>

type_synonym utc_time = "u8 \<times> u8 \<times> u8 \<times> u8 \<times> u8"

record heartbeat_sender =
  hs_worker_id :: u16
  hs_slot_id :: u8
  hs_slot_flags :: u8
  hs_load :: u8
  hs_queue_depth :: u8
  hs_seq :: u8

definition new_heartbeat_sender :: "u16 \<Rightarrow> u8 \<Rightarrow> heartbeat_sender" where
  "new_heartbeat_sender worker_id slot_id = \<lparr>hs_worker_id = worker_id, hs_slot_id = slot_id, hs_slot_flags = 0,
     hs_load = 0, hs_queue_depth = 0, hs_seq = 0\<rparr>"

definition set_status :: "u8 \<Rightarrow> u8 \<Rightarrow> u8 \<Rightarrow> heartbeat_sender \<Rightarrow> heartbeat_sender" where
  "set_status slot_flags load queue_depth s =
     s\<lparr>hs_slot_flags := slot_flags, hs_load := load, hs_queue_depth := queue_depth\<rparr>"

text \<open>One round of the sender: the frame, as the datagram it goes out in.\<close>

definition sender_round :: "utc_time \<Rightarrow> heartbeat_sender \<Rightarrow> heartbeat_sender \<times> bytes" where
  "sender_round utc s =
     (let (month, day, hour, minute, second) = utc;
          f = make_heartbeat_compact (hs_worker_id s) (hs_slot_id s) (hs_slot_flags s) (hs_load s)
                (hs_queue_depth s) (hs_seq s) (compute_worker_score (hs_load s) (hs_queue_depth s))
                month day hour minute second
      in (s\<lparr>hs_seq := hs_seq s + 1\<rparr>, heartbeat_bytes f))"

text \<open>One round of the receiver; \<open>recvfrom\<close> cuts a datagram to the 19 bytes of the frame.\<close>

definition receiver_round :: "bytes \<Rightarrow> heartbeat_compact option" where
  "receiver_round d =
     (let f = take 19 d in
      if length f = 19 \<and> validate_heartbeat_compact (heartbeat_of_bytes f) then Some (heartbeat_of_bytes f) else None)"

section \<open>Consensus over complete responses\<close>

datatype consensus_level = CONSENSUS_FAILED | CONSENSUS_PARTIAL | CONSENSUS_STRONG

record 'd consensus_result =
  cr_level :: consensus_level
  cr_winner_text :: bytes
  cr_confidence :: 'd
  cr_agreeing_count :: u32
  cr_total_responses :: u32

definition compute_cosine_similarity :: "'d::linorder float_ops \<Rightarrow> 'd list option \<Rightarrow> 'd list option \<Rightarrow> nat \<Rightarrow> 'd" where
  "compute_cosine_similarity F vec_a vec_b n =
     (case (vec_a, vec_b) of
        (Some a, Some b) \<Rightarrow>
          if n = 0 then fl_rat F 0
          else
            let (dot, na, nb) = foldl (\<lambda>(dot, na, nb) i.
                  (fl_add F dot (fl_mul F (a ! i) (b ! i)), fl_add F na (fl_mul F (a ! i) (a ! i)),
                   fl_add F nb (fl_mul F (b ! i) (b ! i)))) (fl_rat F 0, fl_rat F 0, fl_rat F 0) [0..<n]
            in if na \<le> fl_rat F 0 \<or> nb \<le> fl_rat F 0 then fl_rat F 0
               else fl_div F dot (fl_mul F (fl_sqrt F na) (fl_sqrt F nb))
      | _ \<Rightarrow> fl_rat F 0)"

definition count_responses :: "bytes list \<Rightarrow> (bytes, u32) umap" where
  "count_responses responses =
     foldl (\<lambda>counts r. map_insert r (case map_of counts r of None \<Rightarrow> 1 | Some n \<Rightarrow> n + 1) counts) [] responses"

definition find_winner :: "(bytes, u32) umap \<Rightarrow> u32 \<times> bytes" where
  "find_winner counts =
     foldl (\<lambda>(max_count, winner) (text, n). if max_count < n then (n, text) else (max_count, winner)) (0, []) counts"

definition evaluate_post_completion_consensus :: "'d float_ops \<Rightarrow> u32 \<Rightarrow> bytes list \<Rightarrow> 'd consensus_result" where
  "evaluate_post_completion_consensus F min_replicas responses =
     (let n = length responses;
          res = \<lparr>cr_level = CONSENSUS_FAILED, cr_winner_text = [], cr_confidence = fl_rat F 0,
            cr_agreeing_count = 0, cr_total_responses = of_nat n\<rparr> in
      if n < unat min_replicas then res
      else
        let (max_count, winner) = find_winner (count_responses responses)
        in res\<lparr>cr_winner_text := winner, cr_agreeing_count := max_count,
             cr_confidence := fl_div F (fl_word F max_count) (fl_rat F (of_nat n)),
             cr_level := (if unat max_count = n then CONSENSUS_STRONG
                          else if (n * 2 + 2) div 3 \<le> unat max_count then CONSENSUS_PARTIAL
                          else CONSENSUS_FAILED)\<rparr>)"

definition contains :: "bytes \<Rightarrow> bytes \<Rightarrow> bool" where
  "contains needle s = list_ex (prefix needle) (suffixes s)"

definition is_semantic_checkpoint :: "bytes \<Rightarrow> bool" where
  "is_semantic_checkpoint chunk \<longleftrightarrow> contains [0x0A, 0x0A] chunk \<or> contains [0x7D, 0x0A] chunk \<or>
     contains (bytes_of_string ''</reasoning>'') chunk"

section \<open>From a worker's status to the scheduler's slot\<close>

definition utc_ok :: "utc_time \<Rightarrow> bool" where
  "utc_ok utc = (case utc of (month, day, hour, minute, second) \<Rightarrow>
     month \<in> {1..12} \<and> day \<in> {1..31} \<and> hour \<le> 23 \<and> minute \<le> 59 \<and> second \<le> 59)"

lemma worker_score_exact:
  "unat (compute_worker_score load queue_depth) = 10 * unat load + 100 * unat queue_depth"
proof -
  have l: "unat (ucast load :: u16) = unat load" "unat (ucast queue_depth :: u16) = unat queue_depth"
    by (simp_all add: unat_ucast_up)
  have b: "unat load < 256" "unat queue_depth < 256" using unat_bound [of load] unat_bound [of queue_depth] by simp_all
  have 1: "unat (ucast load * 10 :: u16) = unat load * 10"
    using b l by (subst unat_mult_lem [THEN iffD1]) simp_all
  have 2: "unat (ucast queue_depth * 100 :: u16) = unat queue_depth * 100"
    using b l by (subst unat_mult_lem [THEN iffD1]) simp_all
  show ?thesis unfolding compute_worker_score_def
    using b 1 2 by (subst unat_add_lem [THEN iffD1]) simp_all
qed

lemma word_nonzero_ge: "(1 :: u8) \<le> a \<Longrightarrow> a \<noteq> 0"
  by auto

text \<open>
  A worker's status reaches the scheduler. At every time of day, the datagram a sender makes is
  accepted by the receiver whatever follows its 19 bytes, and the heartbeat updates exactly the
  slot of its worker: flags, load, queue depth, sequence number and the score
  \<open>10 load + 100 depth\<close>, which never wraps; a new slot starts without a handshake, a known one
  keeps its handshake state; every other slot is unchanged.
\<close>

theorem status_reaches_the_slot:
  assumes "utc_ok utc" and "sender_round utc hs = (hs', d)"
  shows "\<exists>f slot. receiver_round (d @ rest) = Some f \<and>
    map_of (sr_slots (apply_heartbeat F now f s)) (Slot_Key (hs_worker_id hs) (hs_slot_id hs)) = Some slot \<and>
    ss_alive slot = (hs_slot_flags hs AND SLOT_ALIVE \<noteq> 0) \<and> ss_ready slot = (hs_slot_flags hs AND SLOT_READY \<noteq> 0) \<and>
    ss_busy slot = (hs_slot_flags hs AND SLOT_BUSY \<noteq> 0) \<and> ss_error slot = (hs_slot_flags hs AND SLOT_ERROR \<noteq> 0) \<and>
    ss_load slot = hs_load hs \<and> ss_queue_depth slot = hs_queue_depth hs \<and> ss_seq slot = hs_seq hs \<and>
    unat (ss_worker_score slot) = 10 * unat (hs_load hs) + 100 * unat (hs_queue_depth hs) \<and>
    ss_last_heartbeat slot = now \<and>
    ss_conn_state slot = (case map_of (sr_slots s) (Slot_Key (hs_worker_id hs) (hs_slot_id hs)) of
       None \<Rightarrow> Conn_Seen | Some old \<Rightarrow> ss_conn_state old) \<and>
    (\<forall>key. key \<noteq> Slot_Key (hs_worker_id hs) (hs_slot_id hs) \<longrightarrow>
       map_of (sr_slots (apply_heartbeat F now f s)) key = map_of (sr_slots s) key)"
proof -
  obtain month day hour minute second where u: "utc = (month, day, hour, minute, second)" by (cases utc)
  let ?f = "make_heartbeat_compact (hs_worker_id hs) (hs_slot_id hs) (hs_slot_flags hs) (hs_load hs)
    (hs_queue_depth hs) (hs_seq hs) (compute_worker_score (hs_load hs) (hs_queue_depth hs)) month day hour minute second"
  have d: "d = heartbeat_bytes ?f" using assms(2) u by (simp add: sender_round_def)
  have b: "1 \<le> month" "month \<le> 12" "1 \<le> day" "day \<le> 31" "hour \<le> 23" "minute \<le> 59" "second \<le> 59"
    using assms(1) u by (simp_all add: utc_ok_def)
  have "validate_heartbeat_compact ?f"
    using b word_nonzero_ge [OF b(1)] word_nonzero_ge [OF b(3)]
    by (simp add: validate_heartbeat_compact_def make_heartbeat_compact_def not_less heartbeat_bytes_def heartbeat_prefix_def)
  then have r: "receiver_round (d @ rest) = Some ?f" by (simp add: receiver_round_def d)
  have sel: "hb_worker_id ?f = hs_worker_id hs" "hb_slot_id ?f = hs_slot_id hs" "hb_slot_flags ?f = hs_slot_flags hs"
    "hb_load ?f = hs_load hs" "hb_queue_depth ?f = hs_queue_depth hs" "hb_sequence ?f = hs_seq hs"
    "hb_worker_score ?f = compute_worker_score (hs_load hs) (hs_queue_depth hs)"
    by (simp_all add: make_heartbeat_compact_def)
  show ?thesis
    by (intro exI [of _ ?f] exI conjI r)
      (auto simp: apply_heartbeat_def slot_heartbeat_def slot_at_def new_slot_def sel worker_score_exact Let_def
        split: option.split)
qed

section \<open>The vote\<close>

lemma count_responses_lookup:
  "map_of (foldl (\<lambda>counts r. map_insert r (case map_of counts r of None \<Rightarrow> 1 | Some n \<Rightarrow> n + 1) counts) m rs) x =
     (case map_of m x of
        None \<Rightarrow> if count_list rs x = 0 then None else Some (of_nat (count_list rs x) :: u32)
      | Some n \<Rightarrow> Some (n + of_nat (count_list rs x)))"
  by (induction rs arbitrary: m) (auto split: option.splits)

lemma counted: "map_of (count_responses rs) x = (if x \<in> set rs then Some (of_nat (count_list rs x)) else None)"
  using count_responses_lookup [of "[]" rs x] by (simp add: count_responses_def count_list_0_iff)

lemma winner_fold:
  "foldl (\<lambda>(mc, w) (t, n). if mc < n then (n, t) else (mc, w)) (mc0, w0) m = (mc, w) \<Longrightarrow>
     mc0 \<le> mc \<and> ((mc, w) = (mc0, w0) \<or> (w, mc) \<in> set m) \<and> (\<forall>(t, n) \<in> set m. n \<le> (mc :: 'n::linorder))"
proof (induction m arbitrary: mc0 w0)
  case (Cons a m)
  obtain t n where a: "a = (t, n)" by (cases a)
  show ?case using Cons.IH [of "if mc0 < n then n else mc0" "if mc0 < n then t else w0"] Cons.prems a
    by (auto split: if_splits)
qed simp

lemma count_list_full: "count_list xs w = length xs \<longleftrightarrow> (\<forall>x \<in> set xs. x = w)"
proof (induction xs)
  case (Cons x xs)
  then show ?case using count_le_length [of xs w] by auto
qed simp

lemma keys_sorted_counts: "sorted_wrt (<) (map fst (count_responses rs))"
proof -
  have "sorted_wrt (<) (map fst m) \<Longrightarrow> sorted_wrt (<) (map fst (foldl (\<lambda>counts r. map_insert r
      (case map_of counts r of None \<Rightarrow> (1 :: u32) | Some n \<Rightarrow> n + 1) counts) m rs))" for m
    by (induction rs arbitrary: m) (simp_all add: sorted_map_insert)
  then show ?thesis by (simp add: count_responses_def)
qed

text \<open>
  The vote. Over at least \<open>min_replicas\<close> responses (and at least one), the winner is a response
  that no other outnumbers, the agreeing count is the number of its occurrences, and the level is
  strong exactly when all responses are the winner, else partial exactly when two thirds of them
  are, else failed.
\<close>

theorem vote_is_exact:
  assumes "responses \<noteq> []" and "unat min_replicas \<le> length responses" and "length responses < 2 ^ 32"
    and "evaluate_post_completion_consensus F min_replicas responses = r"
  shows "cr_winner_text r \<in> set responses \<and>
    (\<forall>x. count_list responses x \<le> count_list responses (cr_winner_text r)) \<and>
    unat (cr_agreeing_count r) = count_list responses (cr_winner_text r) \<and>
    cr_level r = (if \<forall>x \<in> set responses. x = cr_winner_text r then CONSENSUS_STRONG
      else if 2 * length responses \<le> 3 * count_list responses (cr_winner_text r) then CONSENSUS_PARTIAL
      else CONSENSUS_FAILED)"
proof -
  let ?n = "length responses"
  obtain mc w where f: "find_winner (count_responses responses) = (mc, w)" by (cases "find_winner (count_responses responses)")
  note wf = winner_fold [OF f [unfolded find_winner_def]]
  have bound: "count_list responses x < 2 ^ 32" for x using count_le_length [of responses x] assms(3) by linarith
  have un: "unat (of_nat (count_list responses x) :: u32) = count_list responses x" for x
    using bound by (rule unat_of_nat_small)
  have le: "of_nat (count_list responses x) \<le> mc" if "x \<in> set responses" for x
    using wf map_of_SomeD [of "count_responses responses" x] that by (auto simp: counted)
  have pos: "mc \<noteq> 0"
  proof -
    obtain x where x: "x \<in> set responses" using assms(1) by (meson list.set_sel(1))
    then have "0 < count_list responses x" using count_list_0_iff [of responses x] by simp
    then show ?thesis using le [OF x] un [of x] by auto
  qed
  then have "(w, mc) \<in> set (count_responses responses)" using wf by auto
  then have "map_of (count_responses responses) w = Some mc"
    using keys_sorted_counts [of responses] by (simp add: strict_sorted_iff)
  then have w: "w \<in> set responses" "mc = of_nat (count_list responses w)" by (auto simp: counted split: if_splits)
  have max: "count_list responses x \<le> count_list responses w" for x
  proof (cases "x \<in> set responses")
    case True
    then show ?thesis using le [OF True] w(2) un [of x] un [of w] by (simp add: word_le_nat_alt)
  next
    case False
    then show ?thesis by (simp add: count_list_0_iff)
  qed
  note all = count_list_full [of responses w]
  have thirds: "(?n * 2 + 2) div 3 \<le> c \<longleftrightarrow> 2 * ?n \<le> 3 * c" for c by linarith
  have e: "cr_winner_text r = w" "cr_agreeing_count r = mc"
    "cr_level r = (if unat mc = ?n then CONSENSUS_STRONG
       else if (?n * 2 + 2) div 3 \<le> unat mc then CONSENSUS_PARTIAL else CONSENSUS_FAILED)"
    using assms(2,4) f by (auto simp: evaluate_post_completion_consensus_def Let_def)
  show ?thesis
    unfolding e w(2) un all thirds using w(1) max by blast
qed

text \<open>With no responses and no minimum, the vote is strong for the empty text.\<close>

lemma empty_vote_is_strong:
  "cr_level (evaluate_post_completion_consensus F 0 []) = CONSENSUS_STRONG"
  by (simp add: evaluate_post_completion_consensus_def find_winner_def count_responses_def)

end
