(* ===== verification/Security_V1.thy ===== *)
theory Security_V1
  imports SL_Sha256 Task_Transport
begin

unbundle bit_operations_syntax

text \<open>
  Version 0.1 of the security library: SL1 tags, SL2 identities and session keys, SL3 capability
  tokens, the SL4 decision engine (\<open>LiNeP-SL/src/sl1.cpp\<close> to \<open>sl4.cpp\<close>), and the C interface of the
  engine (\<open>cabi_sl.cpp\<close>). Null pointers are \<open>None\<close>; a hash map is an association list.
\<close>

section \<open>SL1: task tags\<close>

definition sl_compute_sl1_mac :: "bytes \<Rightarrow> linep_header \<Rightarrow> u32 \<Rightarrow> u16 \<Rightarrow> u32 \<Rightarrow> bytes \<Rightarrow> bytes" where
  "sl_compute_sl1_mac key h session_id key_id sq payload =
     take 16 (sl_hmac_sha256 key
       (write_u16 (h1_magic h) @ [h1_version h] @ [h1_msg_type h] @ write_u16 (h1_header_len h) @
        write_u16 (h1_flags h) @ write_u32 (h1_payload_len h) @ write_u32 (h1_sequence h) @
        write_u32 (h1_correlation_id h) @ write_u16 (h1_worker_id h) @ [h1_slot_id h] @ [h1_header_crc h] @
        write_u32 session_id @ write_u16 key_id @ write_u32 sq @ payload))"

definition sl_verify_sl1_mac :: "bytes \<Rightarrow> linep_header \<Rightarrow> header_auth_ext \<Rightarrow> bytes \<Rightarrow> bool" where
  "sl_verify_sl1_mac key h a payload =
     constant_time_memcmp16 (sl_compute_sl1_mac key h (ax_session_id a) (ax_key_id a) (ax_auth_seq a) payload) (ax_mac a)"

section \<open>SL2: negotiation and identities\<close>

text \<open>Security levels are their numbers, 0 to 4; the C interface casts any byte to one.\<close>

type_synonym v1_level = u8
abbreviation (input) SL2_IDENTITY :: v1_level where "SL2_IDENTITY \<equiv> 2"

definition negotiate_v1_level :: "v1_level \<Rightarrow> v1_level \<Rightarrow> v1_level \<Rightarrow> bool \<times> v1_level" where
  "negotiate_v1_level peer_supported local_supported local_required =
     (let m = (if peer_supported < local_supported then peer_supported else local_supported)
      in (\<not> m < local_required, m))"

record peer_identity =
  pn_trust_domain_id :: u32
  pn_node_id :: u16
  pn_pubkey :: bytes
  pn_revoked :: bool

definition validate_peer_identity :: "peer_identity \<Rightarrow> u32 \<Rightarrow> bool" where
  "validate_peer_identity p expected_trust_domain =
     (if pn_revoked p then False
      else if pn_trust_domain_id p = 0 \<or> pn_trust_domain_id p \<noteq> expected_trust_domain then False
      else if pn_node_id p = 0 then False
      else fold (OR) (pn_pubkey p) 0 \<noteq> 0)"

record identity_provider =
  ip_trust_domain_id :: u32
  ip_trusted :: "(u32 \<times> u16, bytes) umap"
  ip_revoked :: "(u32 \<times> u16) list"

definition new_identity_provider :: "u32 \<Rightarrow> identity_provider" where
  "new_identity_provider domain = \<lparr>ip_trust_domain_id = domain, ip_trusted = [], ip_revoked = []\<rparr>"

text \<open>A null key is \<open>None\<close>.\<close>

definition register_peer_for_domain :: "u32 \<Rightarrow> u16 \<Rightarrow> bytes option \<Rightarrow> identity_provider \<Rightarrow> identity_provider" where
  "register_peer_for_domain domain node pubkey ip =
     (case pubkey of None \<Rightarrow> ip
      | Some pk \<Rightarrow>
          if node = 0 then ip
          else ip\<lparr>ip_trusted := AList.update (domain, node) pk (ip_trusted ip),
                  ip_revoked := removeAll (domain, node) (ip_revoked ip)\<rparr>)"

definition register_peer :: "u16 \<Rightarrow> bytes option \<Rightarrow> identity_provider \<Rightarrow> identity_provider" where
  "register_peer node pubkey ip = register_peer_for_domain (ip_trust_domain_id ip) node pubkey ip"

definition revoke_peer_for_domain :: "u32 \<Rightarrow> u16 \<Rightarrow> identity_provider \<Rightarrow> identity_provider" where
  "revoke_peer_for_domain domain node ip =
     (if node = 0 then ip else ip\<lparr>ip_revoked := List.insert (domain, node) (ip_revoked ip)\<rparr>)"

definition revoke_peer :: "u16 \<Rightarrow> identity_provider \<Rightarrow> identity_provider" where
  "revoke_peer node ip = revoke_peer_for_domain (ip_trust_domain_id ip) node ip"

definition is_node_revoked_in_domain :: "identity_provider \<Rightarrow> u32 \<Rightarrow> u16 \<Rightarrow> bool" where
  "is_node_revoked_in_domain ip domain node \<longleftrightarrow> (domain, node) \<in> set (ip_revoked ip)"

definition is_node_revoked :: "identity_provider \<Rightarrow> u16 \<Rightarrow> bool" where
  "is_node_revoked ip node = is_node_revoked_in_domain ip (ip_trust_domain_id ip) node"

definition is_peer_trusted :: "identity_provider \<Rightarrow> peer_identity \<Rightarrow> u32 \<Rightarrow> bool" where
  "is_peer_trusted ip p domain =
     (if pn_revoked p \<or> is_node_revoked_in_domain ip domain (pn_node_id p) then False
      else if \<not> validate_peer_identity p domain then False
      else case map_of (ip_trusted ip) (domain, pn_node_id p) of
             None \<Rightarrow> False | Some pk \<Rightarrow> pk = pn_pubkey p)"

definition get_peer_identity :: "identity_provider \<Rightarrow> u16 \<Rightarrow> u32 \<Rightarrow> peer_identity option" where
  "get_peer_identity ip node domain =
     (if node = 0 then None
      else map_option (\<lambda>pk. \<lparr>pn_trust_domain_id = domain, pn_node_id = node, pn_pubkey = pk,
             pn_revoked = is_node_revoked_in_domain ip domain node\<rparr>) (map_of (ip_trusted ip) (domain, node)))"

section \<open>SL2: session keys\<close>

record session_key =
  kx_session_id :: u32
  kx_key_id :: u16
  kx_established_at_sec :: u64
  kx_expires_at_sec :: u64
  kx_secret_key :: bytes

definition derive_session_key :: "bytes \<Rightarrow> u32 \<Rightarrow> u16 \<Rightarrow> u16 \<Rightarrow> u64 \<Rightarrow> u64 \<Rightarrow> session_key option" where
  "derive_session_key master session_id key_id node ttl_sec now =
     (if master = [] \<or> session_id = 0 \<or> node = 0 then None
      else Some \<lparr>kx_session_id = session_id, kx_key_id = key_id, kx_established_at_sec = now,
        kx_expires_at_sec = now + ttl_sec,
        kx_secret_key = sl_hmac_sha256 master
          (bytes_of_string ''SL2_KDF'' @ write_u32 session_id @ write_u16 key_id @ write_u16 node)\<rparr>)"

definition verify_session_key_freshness :: "session_key \<Rightarrow> u64 \<Rightarrow> bool" where
  "verify_session_key_freshness k now =
     (if kx_session_id k = 0 then False
      else if now < kx_established_at_sec k then False
      else if kx_expires_at_sec k < now then False
      else fold (OR) (kx_secret_key k) 0 \<noteq> 0)"

definition rotate_session_key :: "bytes \<Rightarrow> session_key \<Rightarrow> u64 \<Rightarrow> u64 \<Rightarrow> session_key option" where
  "rotate_session_key master k now new_ttl_sec =
     derive_session_key master (kx_session_id k) (kx_key_id k + 1) 1 new_ttl_sec now"

record session_store =
  st_session_id :: u32
  st_node_id :: u16
  st_ttl_sec :: u64
  st_current :: session_key
  st_previous :: session_key
  st_initialized :: bool
  st_has_previous :: bool

definition no_session_key :: session_key where
  "no_session_key = \<lparr>kx_session_id = 0, kx_key_id = 0, kx_established_at_sec = 0, kx_expires_at_sec = 0,
     kx_secret_key = replicate 32 0\<rparr>"

definition new_session_store :: "u32 \<Rightarrow> u16 \<Rightarrow> u64 \<Rightarrow> session_store" where
  "new_session_store session_id node ttl = \<lparr>st_session_id = session_id, st_node_id = node, st_ttl_sec = ttl,
     st_current = no_session_key, st_previous = no_session_key, st_initialized = False, st_has_previous = False\<rparr>"

definition initialize_store :: "bytes \<Rightarrow> u64 \<Rightarrow> session_store \<Rightarrow> session_store \<times> bool" where
  "initialize_store master now st =
     (case derive_session_key master (st_session_id st) 1 (st_node_id st) (st_ttl_sec st) now of
        None \<Rightarrow> (st, False)
      | Some k \<Rightarrow> (st\<lparr>st_current := k, st_initialized := True, st_has_previous := False\<rparr>, True))"

definition rotate_key :: "bytes \<Rightarrow> u64 \<Rightarrow> session_store \<Rightarrow> session_store \<times> bool" where
  "rotate_key master now st =
     (if \<not> st_initialized st then (st, False)
      else
        let st = st\<lparr>st_previous := st_current st, st_has_previous := True\<rparr> in
        case derive_session_key master (st_session_id st) (kx_key_id (st_current st) + 1) (st_node_id st)
               (st_ttl_sec st) now of
          None \<Rightarrow> (st, False)
        | Some k \<Rightarrow> (st\<lparr>st_current := k\<rparr>, True))"

definition get_active_key :: "session_store \<Rightarrow> session_key option" where
  "get_active_key st = (if st_initialized st then Some (st_current st) else None)"

definition is_key_valid :: "session_store \<Rightarrow> u16 \<Rightarrow> bytes option \<Rightarrow> u64 \<Rightarrow> bool" where
  "is_key_valid st key_id secret now =
     (case secret of None \<Rightarrow> False
      | Some sec \<Rightarrow>
          if \<not> st_initialized st then False
          else if kx_key_id (st_current st) = key_id then
            (if \<not> verify_session_key_freshness (st_current st) now then False else kx_secret_key (st_current st) = sec)
          else if st_has_previous st \<and> kx_key_id (st_previous st) = key_id then
            (if \<not> verify_session_key_freshness (st_previous st) now then False else kx_secret_key (st_previous st) = sec)
          else False)"

section \<open>SL3: capability tokens\<close>

type_synonym cap_flags = u64

definition holds_caps :: "u64 \<Rightarrow> cap_flags \<Rightarrow> bool" where
  "holds_caps granted_mask required_cap \<longleftrightarrow> granted_mask AND required_cap = required_cap"

record header_cap_ext =
  ct_session_id :: u32
  ct_granted_caps :: u64
  ct_expires_at_sec :: u64
  ct_cap_mac :: bytes

definition compute_cap_token_mac :: "bytes \<Rightarrow> u32 \<Rightarrow> u64 \<Rightarrow> u64 \<Rightarrow> bytes" where
  "compute_cap_token_mac key session_id granted_caps expires_at_sec =
     take 16 (sl_hmac_sha256 key (write_u32 session_id @ write_u64 granted_caps @ write_u64 expires_at_sec))"

definition verify_cap_token :: "bytes \<Rightarrow> header_cap_ext \<Rightarrow> u32 \<Rightarrow> u64 \<Rightarrow> cap_flags \<Rightarrow> bool" where
  "verify_cap_token key c expected_session_id now required_capability =
     (if ct_session_id c \<noteq> expected_session_id then False
      else if ct_expires_at_sec c < now then False
      else if \<not> holds_caps (ct_granted_caps c) required_capability then False
      else constant_time_memcmp16
        (compute_cap_token_mac key (ct_session_id c) (ct_granted_caps c) (ct_expires_at_sec c)) (ct_cap_mac c))"

text \<open>\<open>linep_sl3_create_cap_token\<close>.\<close>

definition create_cap_token :: "bytes \<Rightarrow> u32 \<Rightarrow> u64 \<Rightarrow> u64 \<Rightarrow> header_cap_ext option" where
  "create_cap_token key session_id granted_caps expires_at_sec =
     (if key = [] then None
      else Some \<lparr>ct_session_id = session_id, ct_granted_caps = granted_caps, ct_expires_at_sec = expires_at_sec,
        ct_cap_mac = compute_cap_token_mac key session_id granted_caps expires_at_sec\<rparr>)"

section \<open>SL4: the decision engine\<close>

datatype decision_v1 = Decision_Allow | Decision_Deny | Decision_Indeterminate

datatype audit_type_v1 = SESSION_ADMITTED | SESSION_REJECTED | DOWNGRADE_REJECTED | CAPABILITY_DENIED |
  GOVERNANCE_DENIED | FEDERATION_DENIED | FEDERATION_ADMITTED | POLICY_REVISION_CHANGED | SESSION_INVALIDATED

record audit_event_v1 =
  ev_timestamp_sec :: u64
  ev_event_type :: audit_type_v1
  ev_session_id :: u32
  ev_key_id :: u16
  ev_local_node_id :: u16
  ev_remote_node_id :: u16
  ev_local_trust_domain_id :: u32
  ev_remote_trust_domain_id :: u32
  ev_policy_id :: string
  ev_policy_revision :: u32
  ev_federation_revision :: u32
  ev_requested_cap :: u64
  ev_msg_type :: u8
  ev_correlation_id :: u32
  ev_decision :: decision_v1
  ev_reason_code :: string

record audit_sink_v1 =
  ak_events :: "audit_event_v1 list"
  ak_fail_closed_mode :: bool

definition log_audit_event :: "audit_event_v1 \<Rightarrow> audit_sink_v1 \<Rightarrow> audit_sink_v1 \<times> bool" where
  "log_audit_event v k = (if ak_fail_closed_mode k then (k, False) else (k\<lparr>ak_events := ak_events k @ [v]\<rparr>, True))"

definition clear_audit_events :: "audit_sink_v1 \<Rightarrow> audit_sink_v1" where
  "clear_audit_events k = k\<lparr>ak_events := []\<rparr>"

record governance_policy_v1 =
  gp1_policy_id :: string
  gp1_policy_revision :: u32
  gp1_allowed_capabilities :: u64
  gp1_allow_cross_domain :: bool

type_synonym policy_provider_v1 = "(string, governance_policy_v1) umap"

definition default_policy_v1 :: governance_policy_v1 where
  "default_policy_v1 = \<lparr>gp1_policy_id = ''default-policy'', gp1_policy_revision = 1,
     gp1_allowed_capabilities = 0x13, gp1_allow_cross_domain = False\<rparr>"

definition new_policy_provider :: policy_provider_v1 where
  "new_policy_provider = [(gp1_policy_id default_policy_v1, default_policy_v1)]"

definition set_policy_v1 :: "governance_policy_v1 \<Rightarrow> policy_provider_v1 \<Rightarrow> policy_provider_v1" where
  "set_policy_v1 p ps = AList.update (gp1_policy_id p) p ps"

record federation_trust_v1 =
  ft1_local_domain_id :: u32
  ft1_federated_domain_id :: u32
  ft1_federation_revision :: u32
  ft1_max_granted_caps :: u64
  ft1_active :: bool

type_synonym federation_provider_v1 = "(u32 \<times> u32, federation_trust_v1) umap"

definition add_federation_v1 :: "u32 \<Rightarrow> u32 \<Rightarrow> u64 \<Rightarrow> u32 \<Rightarrow> federation_provider_v1 \<Rightarrow> federation_provider_v1" where
  "add_federation_v1 local_domain remote_domain max_caps revision fp =
     AList.update (local_domain, remote_domain) \<lparr>ft1_local_domain_id = local_domain,
       ft1_federated_domain_id = remote_domain, ft1_federation_revision = revision,
       ft1_max_granted_caps = max_caps, ft1_active = True\<rparr> fp"

definition revoke_federation_v1 :: "u32 \<Rightarrow> u32 \<Rightarrow> federation_provider_v1 \<Rightarrow> federation_provider_v1" where
  "revoke_federation_v1 local_domain remote_domain fp =
     (case map_of fp (local_domain, remote_domain) of None \<Rightarrow> fp
      | Some t \<Rightarrow> AList.update (local_domain, remote_domain) (t\<lparr>ft1_active := False\<rparr>) fp)"

definition is_federation_trusted_v1 :: "federation_provider_v1 \<Rightarrow> u32 \<Rightarrow> u32 \<Rightarrow> federation_trust_v1 option" where
  "is_federation_trusted_v1 fp local_domain remote_domain =
     (case map_of fp (local_domain, remote_domain) of None \<Rightarrow> None
      | Some t \<Rightarrow> if \<not> ft1_active t then None else Some t)"

record decision_context =
  dx_local_peer :: peer_identity
  dx_remote_peer :: peer_identity
  dx_trust_domain_id :: u32
  dx_session_id :: u32
  dx_key_id :: u16
  dx_negotiated_sl :: v1_level
  dx_requested_cap :: cap_flags
  dx_msg_type :: u8
  dx_correlation_id :: u32
  dx_policy_id :: string
  dx_established_policy_revision :: u32
  dx_timestamp_sec :: u64

record decision_result =
  dn_decision :: decision_v1
  dn_reason_code :: string
  dn_policy_id :: string
  dn_policy_revision :: u32
  dn_federation_revision :: u32

text \<open>A null provider is \<open>None\<close>.\<close>

record decision_engine =
  de_policies :: "policy_provider_v1 option"
  de_identities :: "identity_provider option"
  de_federation :: "federation_provider_v1 option"
  de_audit :: "audit_sink_v1 option"

text \<open>The verdict of \<open>evaluate\<close>, with the policy and federation revisions it had reached.\<close>

record verdict =
  vd_decision :: decision_v1
  vd_reason :: string
  vd_event_type :: audit_type_v1
  vd_policy_id :: string
  vd_policy_revision :: u32
  vd_federation_revision :: u32

definition verdict_of :: "decision_engine \<Rightarrow> decision_context \<Rightarrow> verdict" where
  "verdict_of e c =
     (let v = (\<lambda>d reason ty pid rev frev. \<lparr>vd_decision = d, vd_reason = reason, vd_event_type = ty,
            vd_policy_id = pid, vd_policy_revision = rev, vd_federation_revision = frev\<rparr>);
          rp = dx_remote_peer c in
      if dx_requested_cap c = 0 then
        v Decision_Indeterminate ''INDETERMINATE_NO_CAPABILITY_SPECIFIED'' CAPABILITY_DENIED [] 0 0
      else case Option.bind (de_policies e) (\<lambda>ps. map_of ps (dx_policy_id c)) of
        None \<Rightarrow> v Decision_Deny ''MISSING_GOVERNANCE_POLICY_FAIL_CLOSED'' GOVERNANCE_DENIED [] 0 0
      | Some policy \<Rightarrow>
          let w = (\<lambda>d reason ty frev. v d reason ty (gp1_policy_id policy) (gp1_policy_revision policy) frev);
              same = (pn_trust_domain_id rp = dx_trust_domain_id c) in
          if dx_negotiated_sl c < SL2_IDENTITY then w Decision_Deny ''INSUFFICIENT_SECURITY_LEVEL'' DOWNGRADE_REJECTED 0
          else if pn_node_id rp = 0 \<or> pn_revoked rp then w Decision_Deny ''IDENTITY_REVOKED_OR_INVALID'' SESSION_REJECTED 0
          else if \<not> validate_peer_identity rp (pn_trust_domain_id rp) then
            w Decision_Deny ''PEER_IDENTITY_VALIDATION_FAILED'' SESSION_REJECTED 0
          else if (case de_identities e of None \<Rightarrow> False | Some ip \<Rightarrow> is_node_revoked ip (pn_node_id rp)) then
            w Decision_Deny ''IDENTITY_REVOKED_IN_PROVIDER'' SESSION_REJECTED 0
          else if 0 < dx_established_policy_revision c \<and> dx_established_policy_revision c < gp1_policy_revision policy \<and>
            (\<not> holds_caps (gp1_allowed_capabilities policy) (dx_requested_cap c) \<or>
             (\<not> same \<and> \<not> gp1_allow_cross_domain policy)) then
            w Decision_Deny ''SESSION_INVALIDATED_BY_POLICY_REVISION'' SESSION_INVALIDATED 0
          else
            let final = (\<lambda>frev.
                  if \<not> holds_caps (gp1_allowed_capabilities policy) (dx_requested_cap c) then
                    w Decision_Deny ''GOVERNANCE_POLICY_CAPABILITY_DENIED'' CAPABILITY_DENIED frev
                  else w Decision_Allow ''GOVERNANCE_POLICY_ALLOWED''
                         (if same then SESSION_ADMITTED else FEDERATION_ADMITTED) frev) in
            if \<not> same then
              (case Option.bind (de_federation e) (\<lambda>fp. is_federation_trusted_v1 fp (dx_trust_domain_id c) (pn_trust_domain_id rp)) of
                 None \<Rightarrow> w Decision_Deny ''CROSS_DOMAIN_FEDERATION_DENIED'' FEDERATION_DENIED 0
               | Some ft \<Rightarrow>
                   let fr = ft1_federation_revision ft in
                   if \<not> gp1_allow_cross_domain policy then
                     w Decision_Deny ''GOVERNANCE_POLICY_CROSS_DOMAIN_DENIED'' GOVERNANCE_DENIED fr
                   else if \<not> holds_caps (ft1_max_granted_caps ft) (dx_requested_cap c) then
                     w Decision_Deny ''FEDERATION_CAPABILITY_EXCEEDED'' CAPABILITY_DENIED fr
                   else if (case de_identities e of None \<Rightarrow> False
                            | Some ip \<Rightarrow> \<not> is_peer_trusted ip rp (pn_trust_domain_id rp)) then
                     w Decision_Deny ''CROSS_DOMAIN_IDENTITY_UNTRUSTED'' SESSION_REJECTED fr
                   else final fr)
            else if (case de_identities e of None \<Rightarrow> False
                     | Some ip \<Rightarrow> \<not> is_peer_trusted ip rp (dx_trust_domain_id c)) then
              w Decision_Deny ''SAME_DOMAIN_IDENTITY_UNTRUSTED'' SESSION_REJECTED 0
            else final 0)"

definition audit_record_v1 :: "decision_context \<Rightarrow> verdict \<Rightarrow> audit_event_v1" where
  "audit_record_v1 c v = \<lparr>ev_timestamp_sec = dx_timestamp_sec c, ev_event_type = vd_event_type v,
     ev_session_id = dx_session_id c, ev_key_id = dx_key_id c, ev_local_node_id = pn_node_id (dx_local_peer c),
     ev_remote_node_id = pn_node_id (dx_remote_peer c), ev_local_trust_domain_id = dx_trust_domain_id c,
     ev_remote_trust_domain_id = pn_trust_domain_id (dx_remote_peer c), ev_policy_id = dx_policy_id c,
     ev_policy_revision = vd_policy_revision v, ev_federation_revision = vd_federation_revision v,
     ev_requested_cap = dx_requested_cap c, ev_msg_type = dx_msg_type c, ev_correlation_id = dx_correlation_id c,
     ev_decision = vd_decision v, ev_reason_code = vd_reason v\<rparr>"

definition evaluate_v1 :: "decision_context \<Rightarrow> decision_engine \<Rightarrow> decision_engine \<times> decision_result" where
  "evaluate_v1 c e =
     (let v = verdict_of e c;
          res = \<lparr>dn_decision = vd_decision v, dn_reason_code = vd_reason v, dn_policy_id = vd_policy_id v,
            dn_policy_revision = vd_policy_revision v, dn_federation_revision = vd_federation_revision v\<rparr> in
      case de_audit e of
        None \<Rightarrow> (e, res)
      | Some k \<Rightarrow>
          let (k, ok) = log_audit_event (audit_record_v1 c v) k; e = e\<lparr>de_audit := Some k\<rparr> in
          if \<not> ok then (e, res\<lparr>dn_decision := Decision_Deny, dn_reason_code := ''AUDIT_LOG_COMMIT_FAILED_FAIL_CLOSED''\<rparr>)
          else (e, res))"

definition register_policy_v1 :: "governance_policy_v1 \<Rightarrow> decision_engine \<Rightarrow> decision_engine" where
  "register_policy_v1 p e =
     (case de_policies e of None \<Rightarrow> e
      | Some ps \<Rightarrow>
          let e = e\<lparr>de_policies := Some (set_policy_v1 p ps)\<rparr> in
          case de_audit e of None \<Rightarrow> e
          | Some k \<Rightarrow> e\<lparr>de_audit := Some (fst (log_audit_event \<lparr>ev_timestamp_sec = 0,
              ev_event_type = POLICY_REVISION_CHANGED, ev_session_id = 0, ev_key_id = 0, ev_local_node_id = 0,
              ev_remote_node_id = 0, ev_local_trust_domain_id = 0, ev_remote_trust_domain_id = 0,
              ev_policy_id = gp1_policy_id p, ev_policy_revision = gp1_policy_revision p,
              ev_federation_revision = 0, ev_requested_cap = 0, ev_msg_type = 0, ev_correlation_id = 0,
              ev_decision = Decision_Allow, ev_reason_code = ''POLICY_REVISION_UPDATED''\<rparr> k))\<rparr>)"

definition is_decision_allowed :: "decision_result \<Rightarrow> bool" where
  "is_decision_allowed r \<longleftrightarrow> dn_decision r = Decision_Allow"

section \<open>The C interface of the engine\<close>

definition sl4_engine_create :: "u32 \<Rightarrow> decision_engine" where
  "sl4_engine_create domain = \<lparr>de_policies = Some new_policy_provider,
     de_identities = Some (new_identity_provider domain), de_federation = Some [],
     de_audit = Some \<lparr>ak_events = [], ak_fail_closed_mode = False\<rparr>\<rparr>"

text \<open>The key a request is judged with: the one passed unless it is null or zero, else the registered one.\<close>

definition resolve_pubkey :: "decision_engine \<Rightarrow> u16 \<Rightarrow> u32 \<Rightarrow> bytes option \<Rightarrow> bytes" where
  "resolve_pubkey e node domain passed =
     (let set = (case passed of None \<Rightarrow> None | Some pk \<Rightarrow> if fold (OR) pk 0 \<noteq> 0 then Some pk else None);
          set = (case set of Some pk \<Rightarrow> Some pk
                 | None \<Rightarrow> Option.bind (de_identities e) (\<lambda>ip. map_option pn_pubkey (get_peer_identity ip node domain)))
      in case set of None \<Rightarrow> replicate 32 0 | Some pk \<Rightarrow> pk)"

record sl4_request =
  sq_trust_domain_id :: u32
  sq_session_id :: u32
  sq_key_id :: u16
  sq_local_node_id :: u16
  sq_remote_node_id :: u16
  sq_remote_trust_domain_id :: u32
  sq_remote_pubkey :: "bytes option"
  sq_remote_revoked :: u8
  sq_negotiated_sl :: u8
  sq_requested_cap :: u64
  sq_msg_type :: u8
  sq_correlation_id :: u32
  sq_policy_id :: "string option"
  sq_established_policy_revision :: u32
  sq_timestamp_sec :: u64

definition sl4_engine_evaluate :: "sl4_request \<Rightarrow> decision_engine \<Rightarrow> decision_engine \<times> decision_result \<times> bool" where
  "sl4_engine_evaluate q e =
     (let c = \<lparr>dx_local_peer = \<lparr>pn_trust_domain_id = sq_trust_domain_id q, pn_node_id = sq_local_node_id q,
              pn_pubkey = replicate 32 0, pn_revoked = False\<rparr>,
            dx_remote_peer = \<lparr>pn_trust_domain_id = sq_remote_trust_domain_id q, pn_node_id = sq_remote_node_id q,
              pn_pubkey = resolve_pubkey e (sq_remote_node_id q) (sq_remote_trust_domain_id q) (sq_remote_pubkey q),
              pn_revoked = (sq_remote_revoked q \<noteq> 0)\<rparr>,
            dx_trust_domain_id = sq_trust_domain_id q, dx_session_id = sq_session_id q, dx_key_id = sq_key_id q,
            dx_negotiated_sl = sq_negotiated_sl q, dx_requested_cap = sq_requested_cap q,
            dx_msg_type = sq_msg_type q, dx_correlation_id = sq_correlation_id q,
            dx_policy_id = (case sq_policy_id q of None \<Rightarrow> ''default-policy'' | Some p \<Rightarrow> p),
            dx_established_policy_revision = sq_established_policy_revision q,
            dx_timestamp_sec = (if sq_timestamp_sec q \<noteq> 0 then sq_timestamp_sec q else 1700000000)\<rparr>;
          (e, r) = evaluate_v1 c e
      in (e, r, is_decision_allowed r))"

definition sl4_evaluate_decision :: "u32 \<Rightarrow> u32 \<Rightarrow> u16 \<Rightarrow> u16 \<Rightarrow> u32 \<Rightarrow> u8 \<Rightarrow> u8 \<Rightarrow> u64 \<Rightarrow> string option
    \<Rightarrow> decision_result \<times> bool" where
  "sl4_evaluate_decision domain session_id key_id remote_node remote_domain revoked level cap policy_id =
     snd (sl4_engine_evaluate \<lparr>sq_trust_domain_id = domain, sq_session_id = session_id, sq_key_id = key_id,
       sq_local_node_id = 1, sq_remote_node_id = remote_node, sq_remote_trust_domain_id = remote_domain,
       sq_remote_pubkey = None, sq_remote_revoked = revoked, sq_negotiated_sl = level, sq_requested_cap = cap,
       sq_msg_type = 0, sq_correlation_id = 0, sq_policy_id = policy_id, sq_established_policy_revision = 0,
       sq_timestamp_sec = 1700000000\<rparr> (sl4_engine_create domain))"

end
