(* ===== verification/Security_V1_Props.thy ===== *)
theory Security_V1_Props
  imports Security_V1 Task_Transport_Props
begin

unbundle bit_operations_syntax

text \<open>
  Properties of the version 0.1 security library: agreement of the two SL1 tags, exactness of
  capability tokens, key rotation, revocation, and what the decision engine allows and records.
\<close>

section \<open>Tags and tokens\<close>

text \<open>
  The two SL1 implementations agree. For every nonempty key the task tag of the security
  library is the tag of the task transport, so what one of them signs the other verifies.
\<close>

theorem task_tags_agree:
  assumes "key \<noteq> []"
  shows "sl_compute_sl1_mac key h session_id key_id sq payload = compute_sl1_mac_v1 key h session_id key_id sq payload \<and>
    sl_verify_sl1_mac key h a payload = verify_sl1_mac_v1 key h a payload"
proof -
  have "sl_compute_sl1_mac key h i k s payload = compute_sl1_mac_v1 key h i k s payload" for i k s
    using assms
    by (simp add: sl_compute_sl1_mac_def compute_sl1_mac_v1_def sl1_task_input_def sl_hmac_eq header_bytes_def
        header_prefix_def write_u8_def)
  then show ?thesis by (simp add: sl_verify_sl1_mac_def verify_sl1_mac_v1_def)
qed

lemma length_cap_mac [simp]: "length (compute_cap_token_mac key i c e) = 16"
  by (simp add: compute_cap_token_mac_def sl_hmac_eq)

lemma holds_caps_iff: "holds_caps granted required \<longleftrightarrow> (\<forall>n. bit required n \<longrightarrow> bit granted n)"
proof
  assume "holds_caps granted required"
  then show "\<forall>n. bit required n \<longrightarrow> bit granted n" unfolding holds_caps_def by (metis bit_and_iff)
next
  assume "\<forall>n. bit required n \<longrightarrow> bit granted n"
  then show "holds_caps granted required"
    unfolding holds_caps_def by (intro bit_word_eqI) (auto simp: bit_and_iff)
qed

text \<open>
  Capability tokens. A token is accepted for a session, a time and a required capability exactly
  when it is the token that the key mints for that session with its capabilities and expiry, it has
  not expired, and it grants every bit required.
\<close>

theorem capability_token_exact:
  assumes "key \<noteq> []" and "length (ct_cap_mac c) = 16"
  shows "verify_cap_token key c session_id now required \<longleftrightarrow>
    create_cap_token key session_id (ct_granted_caps c) (ct_expires_at_sec c) = Some c \<and>
    now \<le> ct_expires_at_sec c \<and> (\<forall>n. bit required n \<longrightarrow> bit (ct_granted_caps c) n)"
  using assms by (cases c) (auto simp: verify_cap_token_def create_cap_token_def memcmp16_iff holds_caps_iff not_less)

section \<open>Session keys\<close>

text \<open>
  Key rotation. After a successful rotation of an initialised store, the new key is
  accepted exactly while it is fresh; so is the key that was active before; and no
  other key id is accepted, whatever the secret: the generation before it is gone.
\<close>

theorem rotation_keeps_two_generations:
  assumes "st_initialized st" and "rotate_key master now st = (st', True)"
  shows "is_key_valid st' (kx_key_id (st_current st)) (Some s) t =
      (verify_session_key_freshness (st_current st) t \<and> kx_secret_key (st_current st) = s) \<and>
    is_key_valid st' (kx_key_id (st_current st) + 1) (Some s) t =
      (verify_session_key_freshness (st_current st') t \<and>
       derive_session_key master (st_session_id st) (kx_key_id (st_current st) + 1) (st_node_id st) (st_ttl_sec st) now
         = Some (st_current st') \<and> kx_secret_key (st_current st') = s) \<and>
    (\<forall>k. k \<noteq> kx_key_id (st_current st) \<and> k \<noteq> kx_key_id (st_current st) + 1 \<longrightarrow> \<not> is_key_valid st' k (Some s) t)"
proof -
  let ?id = "kx_key_id (st_current st)"
  obtain k where k: "derive_session_key master (st_session_id st) (?id + 1) (st_node_id st) (st_ttl_sec st) now = Some k"
    and st': "st' = st\<lparr>st_previous := st_current st, st_has_previous := True, st_current := k\<rparr>"
    using assms by (auto simp: rotate_key_def Let_def split: option.splits)
  have "kx_key_id k = ?id + 1" using k by (auto simp: derive_session_key_def split: if_splits)
  moreover have "?id + 1 \<noteq> ?id" by simp
  ultimately show ?thesis using k assms(1) by (auto simp: is_key_valid_def st')
qed

text \<open>
  A failed rotation is not harmless. If the derivation fails (an empty master secret), the store
  has already overwritten its previous key with the active one: a key id that was still accepted
  in its grace window is refused from then on.
\<close>

theorem failed_rotation_drops_previous:
  assumes "st_initialized st" and "rotate_key [] now st = (st', ok)" and "k \<noteq> kx_key_id (st_current st)"
  shows "\<not> ok \<and> st_current st' = st_current st \<and> \<not> is_key_valid st' k secret t"
  using assms by (auto simp: rotate_key_def derive_session_key_def Let_def is_key_valid_def split: option.splits)

text \<open>
  The free function \<open>rotate_session_key\<close> forgets the node. Two keys of one session and generation,
  derived for different nodes, rotate to one and the same secret.
\<close>

theorem rotation_forgets_the_node:
  assumes "derive_session_key master session_id key_id node ttl now = Some k"
    and "derive_session_key master session_id key_id node' ttl' now' = Some k'"
  shows "\<exists>r r'. rotate_session_key master k t ttl1 = Some r \<and> rotate_session_key master k' t' ttl2 = Some r' \<and>
    kx_secret_key r = kx_secret_key r' \<and> kx_key_id r = kx_key_id r'"
  using assms by (auto simp: rotate_session_key_def derive_session_key_def split: if_splits)

section \<open>Identities\<close>

datatype provider_op = Register u32 u16 bytes | Revoke u32 u16

fun provider_step :: "provider_op \<Rightarrow> identity_provider \<Rightarrow> identity_provider" where
  "provider_step (Register d n pk) ip = register_peer_for_domain d n (Some pk) ip"
| "provider_step (Revoke d n) ip = revoke_peer_for_domain d n ip"

lemma provider_step_keeps_revoked:
  "(d, n) \<in> set (ip_revoked ip) \<Longrightarrow> \<forall>pk. op \<noteq> Register d n pk \<Longrightarrow> (d, n) \<in> set (ip_revoked (provider_step op ip))"
  by (cases op) (auto simp: register_peer_for_domain_def revoke_peer_for_domain_def)

text \<open>
  Revocation lasts. A node revoked in a domain is trusted in that domain by nobody, whatever
  other registrations and revocations follow, until that very node is registered again.
\<close>

theorem revoked_until_registered_again:
  assumes "n \<noteq> 0" and "\<forall>pk. Register d n pk \<notin> set ops" and "pn_node_id p = n"
  shows "\<not> is_peer_trusted (fold provider_step ops (revoke_peer_for_domain d n ip)) p d"
proof -
  have "(d, n) \<in> set (ip_revoked ip') \<Longrightarrow> \<forall>pk. Register d n pk \<notin> set ops \<Longrightarrow>
      (d, n) \<in> set (ip_revoked (fold provider_step ops ip'))" for ip'
  proof (induction ops arbitrary: ip')
    case (Cons op ops)
    have "\<forall>pk. op \<noteq> Register d n pk" using Cons.prems(2) by auto
    then have "(d, n) \<in> set (ip_revoked (provider_step op ip'))"
      using provider_step_keeps_revoked Cons.prems(1) by blast
    then show ?case using Cons by simp
  qed simp
  then have "(d, n) \<in> set (ip_revoked (fold provider_step ops (revoke_peer_for_domain d n ip)))"
    using assms by (simp add: revoke_peer_for_domain_def)
  then show ?thesis using assms(3) by (simp add: is_peer_trusted_def is_node_revoked_in_domain_def)
qed

section \<open>The decision engine\<close>

definition identity_gate :: "decision_engine \<Rightarrow> peer_identity \<Rightarrow> bool" where
  "identity_gate e p \<longleftrightarrow> validate_peer_identity p (pn_trust_domain_id p) \<and>
     (\<forall>ip. de_identities e = Some ip \<longrightarrow> \<not> is_node_revoked ip (pn_node_id p) \<and>
        is_peer_trusted ip p (pn_trust_domain_id p))"

definition federation_gate :: "decision_engine \<Rightarrow> decision_context \<Rightarrow> governance_policy_v1 \<Rightarrow> bool" where
  "federation_gate e c policy \<longleftrightarrow> gp1_allow_cross_domain policy \<and>
     (\<exists>fp ft. de_federation e = Some fp \<and>
        map_of fp (dx_trust_domain_id c, pn_trust_domain_id (dx_remote_peer c)) = Some ft \<and> ft1_active ft \<and>
        holds_caps (ft1_max_granted_caps ft) (dx_requested_cap c))"

definition admitted :: "decision_engine \<Rightarrow> decision_context \<Rightarrow> bool" where
  "admitted e c \<longleftrightarrow> dx_requested_cap c \<noteq> 0 \<and> 2 \<le> dx_negotiated_sl c \<and> identity_gate e (dx_remote_peer c) \<and>
     (\<exists>ps policy. de_policies e = Some ps \<and> map_of ps (dx_policy_id c) = Some policy \<and>
        holds_caps (gp1_allowed_capabilities policy) (dx_requested_cap c) \<and>
        (pn_trust_domain_id (dx_remote_peer c) = dx_trust_domain_id c \<or> federation_gate e c policy))"

lemma validate_peer_parts:
  "validate_peer_identity p d \<Longrightarrow> pn_node_id p \<noteq> 0 \<and> \<not> pn_revoked p \<and> pn_trust_domain_id p = d"
  by (auto simp: validate_peer_identity_def split: if_splits)

lemma is_federation_trusted_iff:
  "is_federation_trusted_v1 fp l r = Some ft \<longleftrightarrow> map_of fp (l, r) = Some ft \<and> ft1_active ft"
  by (auto simp: is_federation_trusted_v1_def split: option.splits)

lemma verdict_allow_iff: "vd_decision (verdict_of e c) = Decision_Allow \<longleftrightarrow> admitted e c"
proof -
  let ?rp = "dx_remote_peer c"
  consider (nocap) "dx_requested_cap c = 0"
    | (nopol) "dx_requested_cap c \<noteq> 0" "Option.bind (de_policies e) (\<lambda>ps. map_of ps (dx_policy_id c)) = None"
    | (pol) policy where "dx_requested_cap c \<noteq> 0" "Option.bind (de_policies e) (\<lambda>ps. map_of ps (dx_policy_id c)) = Some policy"
    by (cases "Option.bind (de_policies e) (\<lambda>ps. map_of ps (dx_policy_id c))") auto
  then show ?thesis
  proof cases
    case nocap
    then show ?thesis by (simp add: verdict_of_def admitted_def Let_def)
  next
    case nopol
    have "vd_decision (verdict_of e c) \<noteq> Decision_Allow" by (simp add: verdict_of_def Let_def nopol)
    moreover have "\<not> admitted e c" using nopol(2) by (auto simp: admitted_def)
    ultimately show ?thesis by simp
  next
    case (pol policy)
    then obtain ps where ps: "de_policies e = Some ps" "map_of ps (dx_policy_id c) = Some policy" by (auto simp: bind_eq_Some_conv)
    have v: "vd_decision (verdict_of e c) = Decision_Allow \<longleftrightarrow>
       2 \<le> dx_negotiated_sl c \<and> identity_gate e ?rp \<and>
       holds_caps (gp1_allowed_capabilities policy) (dx_requested_cap c) \<and>
       (pn_trust_domain_id ?rp = dx_trust_domain_id c \<or> federation_gate e c policy)"
    proof (cases "validate_peer_identity ?rp (pn_trust_domain_id ?rp) \<and> 2 \<le> dx_negotiated_sl c \<and>
        holds_caps (gp1_allowed_capabilities policy) (dx_requested_cap c)")
      case False
      then show ?thesis
        by (auto simp: verdict_of_def Let_def pol identity_gate_def not_le split: option.splits)
    next
      case True
      note parts = validate_peer_parts [of ?rp "pn_trust_domain_id ?rp"]
      show ?thesis
      proof (cases "pn_trust_domain_id ?rp = dx_trust_domain_id c")
        case same: True
        show ?thesis using True parts same
          by (cases "de_identities e") (auto simp: verdict_of_def Let_def pol identity_gate_def not_less)
      next
        case other: False
        let ?ft = "Option.bind (de_federation e) (\<lambda>fp. is_federation_trusted_v1 fp (dx_trust_domain_id c) (pn_trust_domain_id ?rp))"
        show ?thesis
        proof (cases ?ft)
          case None
          then have "\<not> federation_gate e c policy"
            by (auto simp: federation_gate_def is_federation_trusted_v1_def)
          then show ?thesis using True parts other
            by (cases "de_identities e") (auto simp: verdict_of_def Let_def pol None not_less)
        next
          case (Some ft)
          then have "federation_gate e c policy \<longleftrightarrow> gp1_allow_cross_domain policy \<and>
              holds_caps (ft1_max_granted_caps ft) (dx_requested_cap c)"
            by (auto simp: federation_gate_def is_federation_trusted_iff bind_eq_Some_conv)
          then show ?thesis using True parts other
            by (cases "de_identities e") (auto simp: verdict_of_def Let_def pol Some not_less identity_gate_def)
        qed
      qed
    qed
    then show ?thesis using ps pol(1) by (simp add: admitted_def conj_ac)
  qed
qed


text \<open>
  The audit trail. An evaluation changes nothing of the engine but its audit sink; a working sink
  gets exactly one more record, with the decision and reason that the caller gets and the identity,
  session and capability judged; when the sink fails the answer is DENY.
\<close>

theorem every_decision_is_recorded:
  assumes "evaluate_v1 c e = (e', r)" and "de_audit e = Some k"
  shows "\<exists>k'. e' = e\<lparr>de_audit := Some k'\<rparr> \<and>
    (if ak_fail_closed_mode k then k' = k \<and> dn_decision r = Decision_Deny
     else \<exists>ev. ak_events k' = ak_events k @ [ev] \<and> ev_decision ev = dn_decision r \<and> ev_reason_code ev = dn_reason_code r \<and>
       ev_policy_revision ev = dn_policy_revision r \<and> ev_remote_node_id ev = pn_node_id (dx_remote_peer c) \<and>
       ev_requested_cap ev = dx_requested_cap c \<and> ev_session_id ev = dx_session_id c)"
  using assms by (auto simp: evaluate_v1_def log_audit_event_def Let_def audit_record_v1_def split: if_splits)

text \<open>
  Revocation in the provider's own domain also shuts out nodes of other domains: a foreign peer is
  refused when a local node that only has the same number is revoked.
\<close>

lemma local_revocation_blocks_namesake:
  assumes "de_identities e = Some ip" and "is_node_revoked_in_domain ip (ip_trust_domain_id ip) (pn_node_id (dx_remote_peer c))"
  shows "\<not> admitted e c"
  using assms by (auto simp: admitted_def identity_gate_def is_node_revoked_def)

section \<open>The C interface\<close>

lemma or_zeros [simp]: "((OR) 0 ^^ n) (0 :: u8) = 0"
  by (induction n) simp_all

text \<open>
  The stand-alone C function \<open>linep_sl4_evaluate_decision\<close> never allows anything. It judges by an
  engine that has just been created, with no peer registered and no key passed, so every request
  ends in DENY or INDETERMINATE.
\<close>

theorem standalone_evaluation_never_allows:
  "\<not> snd (sl4_evaluate_decision domain session_id key_id remote_node remote_domain revoked level cap policy_id)"
proof -
  have pk: "resolve_pubkey (sl4_engine_create domain) remote_node remote_domain None = replicate 32 0"
    by (simp add: resolve_pubkey_def sl4_engine_create_def get_peer_identity_def new_identity_provider_def Let_def)
  have "\<not> validate_peer_identity \<lparr>pn_trust_domain_id = remote_domain, pn_node_id = remote_node,
      pn_pubkey = replicate 32 0, pn_revoked = (revoked \<noteq> 0)\<rparr> remote_domain"
    by (simp add: validate_peer_identity_def)
  then show ?thesis
    using verdict_allow_iff [of "sl4_engine_create domain"]
    by (auto simp: sl4_evaluate_decision_def sl4_engine_evaluate_def pk evaluate_v1_def is_decision_allowed_def Let_def
        admitted_def identity_gate_def log_audit_event_def split: option.splits if_splits prod.splits)
qed

text \<open>
  A request without a key passes as the registered peer. When the C interface is given no public
  key for a peer that is registered with a nonzero key and not revoked, the key that is judged is
  the registered one: the identity checks succeed although the caller has shown nothing.
\<close>

theorem missing_key_passes_as_registered:
  assumes "de_identities e = Some ip" and "map_of (ip_trusted ip) (domain, node) = Some pk" and "fold (OR) pk 0 \<noteq> (0 :: u8)"
    and "node \<noteq> 0" and "domain \<noteq> 0" and "\<not> is_node_revoked_in_domain ip domain node" and "\<not> is_node_revoked ip node"
  shows "identity_gate e \<lparr>pn_trust_domain_id = domain, pn_node_id = node,
    pn_pubkey = resolve_pubkey e node domain None, pn_revoked = False\<rparr>"
proof -
  have "resolve_pubkey e node domain None = pk"
    using assms by (simp add: resolve_pubkey_def get_peer_identity_def Let_def)
  then show ?thesis using assms by (simp add: identity_gate_def validate_peer_identity_def is_peer_trusted_def)
qed

end
