(* ===== verification/C_Abi.thy ===== *)
theory C_Abi
  imports Security_V1_Props Task_Transport_Props
begin

unbundle bit_operations_syntax

text \<open>
The C interfaces of version 0.1, \<open>cabi.cpp\<close> and \<open>cabi_sl.cpp\<close>: null pointers, error codes, output
parameters and the caller's result buffer around the frames, the task sender and receiver and the
decision engine, with what a caller can rely on.
\<close>

section \<open>Codes and pointers\<close>

text \<open>
  A pointer is an option, null is \<open>None\<close>. An output parameter goes in with what it points to and
  comes out with what the call leaves there. The C structs have the layout of the packed ones.
\<close>

type_synonym abi_code = int
abbreviation (input) LINEP_C_OK :: abi_code where "LINEP_C_OK \<equiv> 0"
abbreviation (input) LINEP_C_ERR_ARG :: abi_code where "LINEP_C_ERR_ARG \<equiv> - 1"
abbreviation (input) LINEP_C_ERR_TIMEOUT :: abi_code where "LINEP_C_ERR_TIMEOUT \<equiv> - 2"
abbreviation (input) LINEP_C_ERR_BAD_FRAME :: abi_code where "LINEP_C_ERR_BAD_FRAME \<equiv> - 6"
abbreviation (input) LINEP_C_ERR_BUF_SMALL :: abi_code where "LINEP_C_ERR_BUF_SMALL \<equiv> - 9"

definition make_out :: "'a option \<Rightarrow> 'a \<Rightarrow> abi_code \<times> 'a option" where
  "make_out out v = (case out of None \<Rightarrow> (LINEP_C_ERR_ARG, None) | Some _ \<Rightarrow> (LINEP_C_OK, Some v))"

definition check_in :: "('a \<Rightarrow> bool) \<Rightarrow> 'a option \<Rightarrow> abi_code" where
  "check_in valid p =
     (case p of None \<Rightarrow> LINEP_C_ERR_ARG | Some f \<Rightarrow> if valid f then LINEP_C_OK else LINEP_C_ERR_BAD_FRAME)"

section \<open>Frames\<close>

definition linep_crc8 :: "bytes option \<Rightarrow> u8" where
  "linep_crc8 data = (case data of None \<Rightarrow> 0 | Some d \<Rightarrow> crc8 d)"

definition linep_make_header :: "u8 \<Rightarrow> u16 \<Rightarrow> u32 \<Rightarrow> u32 \<Rightarrow> u32 \<Rightarrow> u16 \<Rightarrow> u8 \<Rightarrow> linep_header option
    \<Rightarrow> abi_code \<times> linep_header option" where
  "linep_make_header ty flags len sq corr worker slot out =
     make_out out (make_header ty flags len sq corr worker slot)"

definition linep_apply_build_time_ext :: "header_build_time_ext \<Rightarrow> linep_header option \<Rightarrow> header_build_time_ext option
    \<Rightarrow> abi_code \<times> linep_header option \<times> header_build_time_ext option" where
  "linep_apply_build_time_ext bt header ext_out =
     (case (header, ext_out) of
        (Some h, Some _) \<Rightarrow> (LINEP_C_OK, Some (apply_build_time_extension h), Some bt)
      | _ \<Rightarrow> (LINEP_C_ERR_ARG, header, ext_out))"

definition linep_validate_header :: "linep_header option \<Rightarrow> abi_code" where
  "linep_validate_header h = check_in validate_header h"

definition linep_make_heartbeat_compact :: "u16 \<Rightarrow> u8 \<Rightarrow> u8 \<Rightarrow> u8 \<Rightarrow> u8 \<Rightarrow> u8 \<Rightarrow> u16 \<Rightarrow> u8 \<Rightarrow> u8 \<Rightarrow> u8 \<Rightarrow> u8 \<Rightarrow> u8
    \<Rightarrow> heartbeat_compact option \<Rightarrow> abi_code \<times> heartbeat_compact option" where
  "linep_make_heartbeat_compact worker slot flags ld depth sq score month day hour minute second out =
     make_out out (make_heartbeat_compact worker slot flags ld depth sq score month day hour minute second)"

definition linep_validate_heartbeat_compact :: "heartbeat_compact option \<Rightarrow> abi_code" where
  "linep_validate_heartbeat_compact f = check_in validate_heartbeat_compact f"

definition linep_make_udp_invite :: "u8 \<Rightarrow> u16 \<Rightarrow> u8 \<Rightarrow> u32 \<Rightarrow> u32 \<Rightarrow> udp_invite_frame option
    \<Rightarrow> abi_code \<times> udp_invite_frame option" where
  "linep_make_udp_invite sq worker slot ttl token out = make_out out (make_udp_invite sq worker slot ttl token)"

definition linep_validate_udp_invite :: "udp_invite_frame option \<Rightarrow> abi_code" where
  "linep_validate_udp_invite f = check_in validate_udp_invite f"

definition linep_make_udp_invite_ack :: "u8 \<Rightarrow> u16 \<Rightarrow> u8 \<Rightarrow> u8 \<Rightarrow> u32 \<Rightarrow> udp_invite_ack_frame option
    \<Rightarrow> abi_code \<times> udp_invite_ack_frame option" where
  "linep_make_udp_invite_ack sq worker slot accepted token out =
     make_out out (make_udp_invite_ack sq worker slot accepted token)"

definition linep_validate_udp_invite_ack :: "udp_invite_ack_frame option \<Rightarrow> abi_code" where
  "linep_validate_udp_invite_ack f = check_in validate_udp_invite_ack f"

definition linep_make_udp_heartbeat_ack :: "u8 \<Rightarrow> u16 \<Rightarrow> u8 \<Rightarrow> u32 \<Rightarrow> udp_heartbeat_ack_frame option
    \<Rightarrow> abi_code \<times> udp_heartbeat_ack_frame option" where
  "linep_make_udp_heartbeat_ack sq worker slot time out = make_out out (make_udp_heartbeat_ack sq worker slot time)"

definition linep_validate_udp_heartbeat_ack :: "udp_heartbeat_ack_frame option \<Rightarrow> abi_code" where
  "linep_validate_udp_heartbeat_ack f = check_in validate_udp_heartbeat_ack f"

section \<open>Task sender and receiver\<close>

text \<open>A handle is its implementation; \<open>alloc\<close> is that there was memory for both.\<close>

definition linep_sender_create :: "bool \<Rightarrow> task_sender option" where
  "linep_sender_create alloc = (if alloc then Some new_task_sender else None)"

definition or_empty :: "bytes option \<Rightarrow> bytes" where
  "or_empty p = (case p of None \<Rightarrow> [] | Some b \<Rightarrow> b)"

text \<open>
  \<open>connect\<close> is \<open>tcp_connect\<close>. The caller's buffer goes in with the bytes it holds, and its capacity
  is what \<open>result_len\<close> points to; the type, identifiers and payload of the call are a \<open>task_call\<close>.
\<close>

definition linep_sender_send_task :: "'w os \<Rightarrow> 'w \<Rightarrow> (string \<Rightarrow> u16 \<Rightarrow> u32 \<Rightarrow> fd option) \<Rightarrow> header_build_time_ext
    \<Rightarrow> task_sender option \<Rightarrow> string option \<Rightarrow> u16 \<Rightarrow> task_call \<Rightarrow> bytes option \<Rightarrow> u32 option \<Rightarrow> u32
    \<Rightarrow> 'w \<times> task_sender option \<times> abi_code \<times> bytes option \<times> u32 option" where
  "linep_sender_send_task os w connect bt sender host port c buf len timeout_ms =
     (case (sender, host, buf, len) of
        (Some t, Some h, Some b, Some cap) \<Rightarrow>
          if cap = 0 then (w, sender, LINEP_C_ERR_BUF_SMALL, buf, len)
          else
            let body_cap = unat (cap - 1);
                (w, t, status, body) = send_task os w (connect h port timeout_ms) bt t c
                  (if body_cap = 0 then None else Some body_cap) in
            if status = rs_timeout then (w, Some t, LINEP_C_ERR_TIMEOUT, buf, len)
            else (w, Some t, LINEP_C_OK, Some (status # body @ drop (1 + length body) b), Some (1 + of_nat (length body)))
      | _ \<Rightarrow> (w, sender, LINEP_C_ERR_ARG, buf, len))"

definition linep_sender_set_sl1_session :: "task_sender option \<Rightarrow> u32 \<Rightarrow> u16 \<Rightarrow> bytes option
    \<Rightarrow> task_sender option \<times> abi_code" where
  "linep_sender_set_sl1_session s session_id key_id key =
     (case s of None \<Rightarrow> (None, LINEP_C_ERR_ARG)
      | Some t \<Rightarrow> (Some (sender_set_sl1 t session_id key_id (or_empty key)), LINEP_C_OK))"

definition linep_sender_clear_sl1_session :: "task_sender option \<Rightarrow> task_sender option" where
  "linep_sender_clear_sl1_session s = map_option sender_clear_sl1 s"

definition linep_receiver_create :: "bool \<Rightarrow> task_receiver option" where
  "linep_receiver_create alloc = (if alloc then Some new_task_receiver else None)"

definition linep_receiver_set_sl1_session :: "task_receiver option \<Rightarrow> u32 \<Rightarrow> u16 \<Rightarrow> bytes option \<Rightarrow> int
    \<Rightarrow> task_receiver option \<times> abi_code" where
  "linep_receiver_set_sl1_session r session_id key_id key require_auth =
     (case r of None \<Rightarrow> (None, LINEP_C_ERR_ARG)
      | Some t \<Rightarrow> (Some (receiver_set_sl1 t session_id key_id (or_empty key) (require_auth \<noteq> 0)), LINEP_C_OK))"

definition linep_receiver_clear_sl1_session :: "task_receiver option \<Rightarrow> task_receiver option" where
  "linep_receiver_clear_sl1_session r = map_option receiver_clear_sl1 r"

section \<open>The security layer\<close>

text \<open>Here 1 is success and 0 failure; a key that is null or empty is refused before any work.\<close>

definition usable_key :: "bytes option \<Rightarrow> bytes option" where
  "usable_key key = (case key of None \<Rightarrow> None | Some k \<Rightarrow> if k = [] then None else Some k)"

definition linep_sl1_compute_mac :: "bytes option \<Rightarrow> linep_header option \<Rightarrow> u32 \<Rightarrow> u16 \<Rightarrow> u32 \<Rightarrow> bytes option
    \<Rightarrow> bytes option \<Rightarrow> bool \<times> bytes option" where
  "linep_sl1_compute_mac key header session_id key_id sq payload out =
     (case (usable_key key, header, out) of
        (Some k, Some h, Some _) \<Rightarrow> (True, Some (sl_compute_sl1_mac k h session_id key_id sq (or_empty payload)))
      | _ \<Rightarrow> (False, out))"

definition linep_sl1_verify_mac :: "bytes option \<Rightarrow> linep_header option \<Rightarrow> header_auth_ext option \<Rightarrow> bytes option \<Rightarrow> bool" where
  "linep_sl1_verify_mac key header ext payload =
     (case (usable_key key, header, ext) of
        (Some k, Some h, Some a) \<Rightarrow> sl_verify_sl1_mac k h a (or_empty payload)
      | _ \<Rightarrow> False)"

definition linep_sl2_negotiate_level :: "u8 \<Rightarrow> u8 \<Rightarrow> u8 \<Rightarrow> u8 option \<Rightarrow> bool \<times> u8 option" where
  "linep_sl2_negotiate_level peer local required out =
     (let (ok, level) = negotiate_v1_level peer local required in (ok, map_option (\<lambda>_. level) out))"

definition linep_sl2_validate_peer_identity :: "peer_identity option \<Rightarrow> u32 \<Rightarrow> bool" where
  "linep_sl2_validate_peer_identity peer domain =
     (case peer of None \<Rightarrow> False | Some p \<Rightarrow> validate_peer_identity p domain)"

definition linep_sl2_derive_session_key :: "bytes option \<Rightarrow> u32 \<Rightarrow> u16 \<Rightarrow> u16 \<Rightarrow> u64 \<Rightarrow> u64 \<Rightarrow> session_key option
    \<Rightarrow> bool \<times> session_key option" where
  "linep_sl2_derive_session_key master session_id key_id node ttl now out =
     (case (usable_key master, out) of
        (Some k, Some _) \<Rightarrow>
          (case derive_session_key k session_id key_id node ttl now of None \<Rightarrow> (False, out) | Some sk \<Rightarrow> (True, Some sk))
      | _ \<Rightarrow> (False, out))"

definition linep_sl2_verify_session_key_freshness :: "session_key option \<Rightarrow> u64 \<Rightarrow> bool" where
  "linep_sl2_verify_session_key_freshness key now =
     (case key of None \<Rightarrow> False | Some k \<Rightarrow> verify_session_key_freshness k now)"

definition linep_sl3_create_cap_token :: "bytes option \<Rightarrow> u32 \<Rightarrow> u64 \<Rightarrow> u64 \<Rightarrow> header_cap_ext option
    \<Rightarrow> bool \<times> header_cap_ext option" where
  "linep_sl3_create_cap_token key session_id caps expires out =
     (case (usable_key key, out) of
        (Some k, Some _) \<Rightarrow> (True, create_cap_token k session_id caps expires)
      | _ \<Rightarrow> (False, out))"

definition linep_sl3_verify_cap_token :: "bytes option \<Rightarrow> header_cap_ext option \<Rightarrow> u32 \<Rightarrow> u64 \<Rightarrow> cap_flags \<Rightarrow> bool" where
  "linep_sl3_verify_cap_token key token session_id now required =
     (case (usable_key key, token) of
        (Some k, Some t) \<Rightarrow> verify_cap_token k t session_id now required
      | _ \<Rightarrow> False)"

text \<open>The engine handle; its providers are shared with the engine itself.\<close>

definition on_engine :: "decision_engine option \<Rightarrow> bool \<Rightarrow> (decision_engine \<Rightarrow> decision_engine)
    \<Rightarrow> decision_engine option \<times> bool" where
  "on_engine engine ok f =
     (case engine of None \<Rightarrow> (None, False) | Some e \<Rightarrow> if ok then (Some (f e), True) else (Some e, False))"

definition linep_sl4_engine_register_peer :: "decision_engine option \<Rightarrow> u16 \<Rightarrow> bytes option \<Rightarrow> decision_engine option \<times> bool" where
  "linep_sl4_engine_register_peer engine node pubkey =
     on_engine engine (pubkey \<noteq> None) (\<lambda>e. e\<lparr>de_identities := map_option (register_peer node pubkey) (de_identities e)\<rparr>)"

definition linep_sl4_engine_register_peer_for_domain :: "decision_engine option \<Rightarrow> u32 \<Rightarrow> u16 \<Rightarrow> bytes option
    \<Rightarrow> decision_engine option \<times> bool" where
  "linep_sl4_engine_register_peer_for_domain engine domain node pubkey =
     on_engine engine (pubkey \<noteq> None)
       (\<lambda>e. e\<lparr>de_identities := map_option (register_peer_for_domain domain node pubkey) (de_identities e)\<rparr>)"

definition linep_sl4_engine_set_policy :: "decision_engine option \<Rightarrow> string option \<Rightarrow> u32 \<Rightarrow> u64 \<Rightarrow> u8
    \<Rightarrow> decision_engine option \<times> bool" where
  "linep_sl4_engine_set_policy engine policy_id revision caps cross =
     on_engine engine (policy_id \<noteq> None)
       (register_policy_v1 \<lparr>gp1_policy_id = the policy_id, gp1_policy_revision = revision,
          gp1_allowed_capabilities = caps, gp1_allow_cross_domain = (cross \<noteq> 0)\<rparr>)"

definition linep_sl4_engine_add_federation :: "decision_engine option \<Rightarrow> u32 \<Rightarrow> u32 \<Rightarrow> u64 \<Rightarrow> u32
    \<Rightarrow> decision_engine option \<times> bool" where
  "linep_sl4_engine_add_federation engine local remote caps revision =
     on_engine engine True
       (\<lambda>e. e\<lparr>de_federation := map_option (add_federation_v1 local remote caps revision) (de_federation e)\<rparr>)"

definition linep_sl4_engine_revoke_federation :: "decision_engine option \<Rightarrow> u32 \<Rightarrow> u32 \<Rightarrow> decision_engine option \<times> bool" where
  "linep_sl4_engine_revoke_federation engine local remote =
     on_engine engine True
       (\<lambda>e. e\<lparr>de_federation := map_option (revoke_federation_v1 local remote) (de_federation e)\<rparr>)"

text \<open>The decision as its number, and \<open>strncpy\<close> with the terminator after it.\<close>

definition decision_code :: "decision_v1 \<Rightarrow> u8" where
  "decision_code d = (case d of Decision_Allow \<Rightarrow> 0 | Decision_Deny \<Rightarrow> 1 | Decision_Indeterminate \<Rightarrow> 2)"

definition copy_reason :: "string \<Rightarrow> bytes option \<Rightarrow> bytes option" where
  "copy_reason reason buf =
     (case buf of None \<Rightarrow> None
      | Some b \<Rightarrow> if b = [] then Some b
          else Some (take (length b - 1) (bytes_of_string reason @ replicate (length b - 1) 0) @ [0]))"

definition linep_sl4_engine_evaluate :: "decision_engine option \<Rightarrow> sl4_request \<Rightarrow> u8 option \<Rightarrow> bytes option
    \<Rightarrow> decision_engine option \<times> bool \<times> u8 option \<times> bytes option" where
  "linep_sl4_engine_evaluate engine q out_decision reason_buf =
     (case engine of None \<Rightarrow> (None, False, out_decision, reason_buf)
      | Some e \<Rightarrow>
          let (e, r, allowed) = sl4_engine_evaluate q e
          in (Some e, allowed, map_option (\<lambda>_. decision_code (dn_decision r)) out_decision,
              copy_reason (dn_reason_code r) reason_buf))"

definition linep_sl4_engine_get_audit_count :: "decision_engine option \<Rightarrow> u32" where
  "linep_sl4_engine_get_audit_count engine =
     (case engine of None \<Rightarrow> 0
      | Some e \<Rightarrow> (case de_audit e of None \<Rightarrow> 0 | Some k \<Rightarrow> of_nat (length (ak_events k))))"

section \<open>What crosses the interface\<close>

text \<open>Every frame that the interface makes is one it accepts.\<close>

lemma abi_frames_accepted:
  "linep_validate_udp_invite (snd (linep_make_udp_invite sq worker slot ttl token (Some i))) = LINEP_C_OK"
  "linep_validate_udp_invite_ack (snd (linep_make_udp_invite_ack sq worker slot acc token (Some a))) = LINEP_C_OK"
  "linep_validate_udp_heartbeat_ack (snd (linep_make_udp_heartbeat_ack sq worker slot time (Some k))) = LINEP_C_OK"
  "len \<le> MAX_PAYLOAD_BYTES \<Longrightarrow>
     linep_validate_header (snd (linep_make_header ty flags len sq32 corr worker slot (Some h))) = LINEP_C_OK"
  "len \<le> MAX_PAYLOAD_BYTES \<Longrightarrow>
     linep_validate_header (fst (snd (linep_apply_build_time_ext bt
       (snd (linep_make_header ty flags len sq32 corr worker slot (Some h))) (Some e)))) = LINEP_C_OK"
  using made_frames_valid
  by (simp_all add: linep_validate_udp_invite_def linep_make_udp_invite_def linep_validate_udp_invite_ack_def
      linep_make_udp_invite_ack_def linep_validate_udp_heartbeat_ack_def linep_make_udp_heartbeat_ack_def
      linep_validate_header_def linep_make_header_def linep_apply_build_time_ext_def make_out_def check_in_def)

lemma receive_result_fits: "receive_result os w s corr cap = (w', status, body) \<Longrightarrow>
    length body \<le> (case cap of None \<Rightarrow> 0 | Some n \<Rightarrow> n)"
  by (auto simp: receive_result_def Let_def split: prod.splits option.splits if_split_asm)

lemma send_task_fits: "send_task os w sock bt t c cap = (w', t', status, body) \<Longrightarrow>
    length body \<le> (case cap of None \<Rightarrow> 0 | Some n \<Rightarrow> n)"
  by (auto simp: send_task_def Let_def split: prod.splits option.splits if_split_asm dest: receive_result_fits)

text \<open>
  C34: the caller's memory. Whatever the network does, a call through the C interface writes only into
  the capacity that the caller announced: the buffer keeps its length, the bytes from the returned
  length on are as they were, the returned length is within the capacity and at least 1, and
  with any other code than success neither the buffer nor the length is touched.
\<close>

theorem abi_call_stays_in_buffer:
  assumes "linep_sender_send_task os w connect bt sender host port c (Some buf) (Some cap) timeout_ms
      = (w', sender', code, buf', len')" and "unat cap \<le> length buf"
  shows "if code = LINEP_C_OK
    then \<exists>status body b. buf' = Some b \<and> len' = Some (1 + of_nat (length body)) \<and> b = status # body @ drop (1 + length body) buf \<and>
      status \<noteq> rs_timeout \<and> length b = length buf \<and> 1 + length body \<le> unat cap
    else buf' = Some buf \<and> len' = Some cap"
proof (cases "sender = None \<or> host = None \<or> cap = 0")
  case True
  then show ?thesis using assms(1) by (auto simp: linep_sender_send_task_def split: option.splits if_split_asm)
next
  case False
  then obtain t h where th: "sender = Some t" "host = Some h" "cap \<noteq> 0" by auto
  let ?cap = "if unat (cap - 1) = 0 then None else Some (unat (cap - 1))"
  obtain v t' status body where s: "send_task os w (connect h port timeout_ms) bt t c ?cap = (v, t', status, body)"
    by (metis prod_cases4)
  have "unat cap = Suc (unat (cap - 1))" using th(3) by (simp add: unat_minus_one) (metis Suc_pred unat_gt_0)
  moreover have "length body \<le> unat (cap - 1)" using send_task_fits [OF s] by (simp split: if_splits)
  ultimately have l: "1 + length body \<le> unat cap" by simp
  show ?thesis
  proof (cases "status = rs_timeout")
    case True
    then show ?thesis using assms(1) th s by (simp add: linep_sender_send_task_def Let_def)
  next
    case False
    then have r: "code = LINEP_C_OK" "buf' = Some (status # body @ drop (1 + length body) buf)"
      "len' = Some (1 + of_nat (length body))"
      using assms(1) th s by (simp_all add: linep_sender_send_task_def Let_def)
    then show ?thesis using l assms(2) False by auto
  qed
qed

text \<open>
  What the caller gets. When the task was written and the worker's whole answer arrives, the buffer
  holds the status and the body of the answer, cut to what the buffer has room for, with the
  code of success; but an answer with status TIMEOUT is the same to the caller as a lost connection.
\<close>

theorem abi_call_returns_answer:
  assumes "connect h port timeout_ms = Some s" and "send_task_frame os w s bt t c = (w1, t', True)"
    and "recv_contract os s pending" and "recv_delivers os s pending"
    and "pending w1 = result_bytes bt' (task_header t c) 0 1 (status # body) @ rest" and "length body < 4194304"
    and "0 < cap" and "unat cap \<le> length buf"
  shows "\<exists>w'. linep_sender_send_task os w connect bt (Some t) (Some h) port c (Some buf) (Some cap) timeout_ms =
    (if status = rs_timeout then (w', Some t', LINEP_C_ERR_TIMEOUT, Some buf, Some cap)
     else let part = take (unat cap - 1) body in
       (w', Some t', LINEP_C_OK, Some (status # part @ drop (1 + length part) buf), Some (1 + of_nat (length part))))"
proof -
  let ?cap = "if unat (cap - 1) = 0 then None else Some (unat (cap - 1))"
  have c: "cap \<noteq> 0" using assms(7) by auto
  then have u: "unat (cap - 1) = unat cap - 1" by (simp add: unat_minus_one)
  obtain w' where r: "receive_result os w1 s (tc_correlation_id c) ?cap =
      (w', status, case ?cap of None \<Rightarrow> [] | Some n \<Rightarrow> take n body)"
    using receives_result [OF assms(3-5) _ assms(6), of "tc_correlation_id c" ?cap] by auto
  have "(case ?cap of None \<Rightarrow> [] | Some n \<Rightarrow> take n body) = take (unat cap - 1) body" using u by simp
  with r have "send_task os w (connect h port timeout_ms) bt t c ?cap = (w', t', status, take (unat cap - 1) body)"
    using assms(1,2) by (simp add: send_task_def)
  then show ?thesis using c
    by (intro exI [of _ w']) (simp add: linep_sender_send_task_def Let_def)
qed

text \<open>
  The reason of a decision. The text never overruns the caller's buffer and always ends in a zero
  byte, and a call without an engine is never an allowance.
\<close>

theorem engine_answer_in_buffer:
  assumes "linep_sl4_engine_evaluate engine q dec (Some buf) = (engine', allowed, dec', reason)" and "buf \<noteq> []"
  shows "\<exists>r. reason = Some r \<and> length r = length buf \<and> (engine \<noteq> None \<longrightarrow> last r = 0) \<and>
    (allowed \<longrightarrow> (\<exists>e. engine = Some e \<and> is_decision_allowed (fst (snd (sl4_engine_evaluate q e))))) \<and>
    (allowed \<and> dec \<noteq> None \<longrightarrow> dec' = Some 0)"
proof (cases engine)
  case (Some e)
  obtain e' r a where v: "sl4_engine_evaluate q e = (e', r, a)" by (rule prod_cases3)
  then have a: "a = is_decision_allowed r" by (auto simp: sl4_engine_evaluate_def Let_def split: prod.splits)
  have "Suc (min n (length buf - Suc 0) + (length buf - Suc n)) = length buf" for n using assms(2) by (cases buf) auto
  then show ?thesis using assms Some v a
    by (auto simp: linep_sl4_engine_evaluate_def Let_def copy_reason_def is_decision_allowed_def decision_code_def)
next
  case None
  then show ?thesis using assms by (auto simp: linep_sl4_engine_evaluate_def)
qed

end
