(* ===== verification/V1_Examples.thy ===== *)
theory V1_Examples
  imports Heartbeat_V1 Connection_Examples Security_V1_Props C_Abi
begin

unbundle bit_operations_syntax

text \<open>
Concrete frames, tasks, queues, schedulers and decision engines of version 0.1, on which its properties apply.
\<close>

section \<open>Frames and tasks on a concrete system\<close>

lemma damaged_v1_frame_refused_witness:
  "\<exists>b. b = header_bytes (make_header mt_task 0 2 3 4 5 6) \<and> validate_header (header_of_bytes b) \<and>
     \<not> validate_header (header_of_bytes (map2 (XOR) b (replicate 8 0 @ [64] @ replicate 15 0)))"
proof -
  let ?b = "header_bytes (make_header mt_task 0 2 3 4 5 6)" and ?e = "replicate 8 0 @ [64] @ replicate 15 0 :: bytes"
  have l: "length ?b = 24" by simp
  have "detectable ?e" and "length ?e = length ?b" by (simp_all add: detectable_def)
  note t = damaged_v1_frame_refused [OF this]
  have v: "validate_header (header_of_bytes ?b)" using made_frames_valid(5) [of 2] by (simp add: word_le_nat_alt)
  show ?thesis using t l v by blast
qed

lemma ex_send_part: "data \<noteq> [] \<Longrightarrow> length data < 2 ^ 31 \<Longrightarrow> send_part ex_os (inp, out) s data = ((inp, out @ data), True)"
proof -
  assume d: "data \<noteq> []" "length data < 2 ^ 31"
  then have "tcp_send_loop ex_os (inp, out) s data (int (length data)) 0 = ((inp, out @ data), int (length data))"
    by (subst tcp_send_loop.simps, simp add: ex_os_def, subst tcp_send_loop.simps, simp)
  then show ?thesis using d by (simp add: send_part_def tcp_send_all_def int_of_size_small)
qed

lemma ex_send_fixed:
  "send_part ex_os (inp, out) s (header_bytes h) = ((inp, out @ header_bytes h), True)"
  "send_part ex_os (inp, out) s (build_time_bytes b) = ((inp, out @ build_time_bytes b), True)"
proof -
  have "length (header_bytes h) = 24" "length (build_time_bytes b) = 6" by simp_all
  moreover from this have "header_bytes h \<noteq> []" "build_time_bytes b \<noteq> []"
    by (metis list.size(3) zero_neq_numeral)+
  ultimately show "send_part ex_os (inp, out) s (header_bytes h) = ((inp, out @ header_bytes h), True)"
    "send_part ex_os (inp, out) s (build_time_bytes b) = ((inp, out @ build_time_bytes b), True)"
    by (simp_all add: ex_send_part)
qed

definition ex_v1_time :: header_build_time_ext where
  "ex_v1_time = \<lparr>bt_year_2d = 26, bt_month = 3, bt_day = 14, bt_hour = 1, bt_minute = 2, bt_second = 3\<rparr>"

definition ex_v1_sender :: task_sender where
  "ex_v1_sender = sender_set_sl1 new_task_sender 77 1 [1, 2, 3]"

definition ex_v1_receiver :: task_receiver where
  "ex_v1_receiver = receiver_set_sl1 new_task_receiver 77 1 [1, 2, 3] True"

definition ex_v1_call :: task_call where
  "ex_v1_call = \<lparr>tc_type = 2, tc_correlation_id = 9, tc_worker_id = 5, tc_slot_id = 1, tc_payload = [104, 105]\<rparr>"

lemma ex_v1_shares: "shares_session ex_v1_sender ex_v1_receiver"
  by (simp add: shares_session_def ex_v1_sender_def ex_v1_receiver_def sender_set_sl1_def receiver_set_sl1_def)

lemma ex_v1_sent:
  "\<exists>w' t'. send_task_frame ex_os ([], []) 4 ex_v1_time ex_v1_sender ex_v1_call = (w', t', True)"
proof -
  have e: "length (task_extensions ex_v1_time ex_v1_sender ex_v1_call) = 32"
    by (simp add: length_task_extensions) (simp add: ex_v1_sender_def sender_set_sl1_def)
  then have "task_extensions ex_v1_time ex_v1_sender ex_v1_call \<noteq> []" by auto
  moreover have "length (task_payload ex_v1_call) = 3" by (simp add: task_payload_def ex_v1_call_def)
  ultimately show ?thesis using e by (simp add: send_task_frame_def ex_send_part ex_send_fixed task_payload_nonempty Let_def)
qed


lemma dispatch_misreads_results_witness:
  "\<exists>w' p. dispatch_receive ex_os (result_bytes ex_v1_time (task_header ex_v1_sender ex_v1_call) 0 1 [0, 105, 104], []) 4
      (Slot_Key 5 1) = (w', Some p) \<and> pr_status p = 26 \<and> pr_payload p = [3, 14]"
  using dispatch_misreads_results [OF ex_os_contracts(2,3), of _ ex_v1_time "task_header ex_v1_sender ex_v1_call" 0 "[105, 104]"
      "[]" 4 "Slot_Key 5 1"] by (force simp: ex_v1_time_def build_time_bytes_def write_u8_def)


section \<open>The queue\<close>

lemma ex_claiming:
  "queue_reachable (new_queue\<lparr>mq_producers := [Claim_Head (7::nat) 0]\<rparr>)"
proof -
  have s: "mq_seq (new_queue :: nat mpsc_queue) ! slot_of 0 = 0"
    by (simp add: new_queue_def slot_of_def upt_rec)
  have q1: "queue_reachable (new_queue\<lparr>mq_producers := [Load_Head (7::nat)]\<rparr>)"
    using queue_next [OF queue_init push_starts [of new_queue 7]] by (simp add: new_queue_def)
  have "queue_reachable (new_queue\<lparr>mq_producers := [Check_Seq (7::nat) 0]\<rparr>)"
    using queue_next [OF q1 push_steps [OF load_head [of "new_queue\<lparr>mq_producers := [Load_Head 7]\<rparr>" 7], of "[]" "[]"]] by (simp add: new_queue_def)
  moreover have "producer_step (new_queue\<lparr>mq_producers := [Check_Seq (7::nat) 0]\<rparr>) (Check_Seq 7 0) Internal
      (new_queue\<lparr>mq_producers := [Check_Seq 7 0]\<rparr>) (Some (Claim_Head 7 0))"
    by (rule seq_equal) (use s in \<open>simp add: seq_diff_def\<close>)
  note push_steps [OF this, of "[]" "[]"]
  ultimately show ?thesis using queue_next by fastforce
qed

lemma bounded_queue_is_fifo_witness:
  "\<exists>q q'. queue_reachable q \<and> queue_step q (Claimed (7::nat)) q' \<and> few_claims q' \<and>
     queue_effect (queued q) (Claimed 7) (queued q') \<and> queued q' = [7]"
proof -
  let ?q = "new_queue\<lparr>mq_producers := [Claim_Head (7::nat) 0]\<rparr>"
  let ?q' = "?q\<lparr>mq_head := 1, mq_claimed := [7], mq_producers := [Write_Value 7 0]\<rparr>"
  have st: "queue_step ?q (Claimed 7) ?q'"
    using push_steps [OF claim_head [of ?q 0 7], of "[]" "[]"] by (simp add: new_queue_def)
  have "few_claims ?q'" by (simp add: few_claims_def new_queue_def)
  from bounded_queue_is_fifo [OF ex_claiming st this] this st ex_claiming show ?thesis
    by (intro exI [of _ ?q] exI [of _ ?q']) (simp add: queued_def new_queue_def)
qed

section \<open>The scheduler\<close>

definition ex_real :: "real float_ops" where
  "ex_real = \<lparr>fl_rat = of_rat, fl_add = (+), fl_sub = (-), fl_mul = (*), fl_div = (/), fl_sqrt = sqrt\<rparr>"

definition ex_slot :: "u16 \<Rightarrow> u8 \<Rightarrow> u8 \<Rightarrow> real slot_state" where
  "ex_slot w sl depth = (new_slot ex_real)\<lparr>ss_worker_id := w, ss_slot_id := sl, ss_alive := True, ss_ready := True,
     ss_queue_depth := depth, ss_last_heartbeat := 1000, ss_conn_state := Conn_Active\<rparr>"

definition ex_slots :: "real slots" where
  "ex_slots = [(Slot_Key 1 0, ex_slot 1 0 4), (Slot_Key 1 1, ex_slot 1 1 0), (Slot_Key 2 0, ex_slot 2 0 2)]"

lemma ex_slot_scores:
  "score_slot ex_real (ex_slot w sl 0) = 39 / 80" "score_slot ex_real (ex_slot w sl 2) = 65 / 80"
  "score_slot ex_real (ex_slot w sl 4) = 91 / 80"
  by (simp_all add: score_slot_def ex_slot_def new_slot_def ex_real_def min_one_def fl_word_def of_rat_divide)

lemma ex_eligible: "depth < 8 \<Longrightarrow> is_eligible (ex_slot w sl depth) 2000 \<and> ss_type (ex_slot w sl depth) = 1"
  by (simp add: is_eligible_def ex_slot_def new_slot_def not_le)

lemma ex_selected: "select_best_slots ex_real insertion_sort ex_slots 1 2000 3 = [Slot_Key 1 1, Slot_Key 2 0]"
  by (simp add: select_best_slots_def ex_slots_def candidates_for_def candidate_of_def ex_slot_scores ex_eligible
      insertion_sort_def candidate_less_def)

lemma selection_takes_the_best_witness:
  "\<exists>sel. select_best_slots ex_real insertion_sort ex_slots 1 2000 3 = sel \<and> length sel = 2 \<and>
     int (length sel) \<le> 3 \<and> distinct (map sk_worker sel)"
proof -
  have "distinct (map fst ex_slots)" by (simp add: ex_slots_def)
  from selection_takes_the_best [OF insertion.comparison_sort_axioms this _ ex_selected] ex_selected show ?thesis by simp
qed

text \<open>A run in which a task is submitted and dispatched to two workers.\<close>

definition ex_submitted :: "(real, nat) scheduler" where
  "ex_submitted = fst (submit 1 [104] 5000 2 (Some 7) True (new_task_scheduler ex_slots))"

lemma ex_submitted_reachable: "scheduler_reachable ex_real insertion_sort ex_slots ex_submitted"
  unfolding ex_submitted_def
  by (rule scheduler_next [OF scheduler_init submits]) (simp add: push_answer_def new_task_scheduler_def)

definition ex_task :: "nat pending_task" where
  "ex_task = \<lparr>pt_correlation_id = 1, pt_type = 1, pt_payload = [104], pt_timeout_ms = 5000, pt_max_attempts = 2,
     pt_attempt_count = 0, pt_callback = Some 7\<rparr>"

lemma ex_dispatched_reachable:
  "\<exists>s. scheduler_reachable ex_real insertion_sort ex_slots s \<and> length (sr_threads s) = 2 \<and>
     sr_submitted s = sr_submitted ex_submitted \<and> sr_calls s = [] \<and> length (sr_shared s) = 1"
proof -
  let ?R = "scheduler_reachable ex_real insertion_sort ex_slots"
  have p: "sr_pending ex_submitted = [ex_task]" "sr_loop ex_submitted = Loop_Off" "\<not> sr_running ex_submitted" "pt_type ex_task = 1"
    "sr_slots ex_submitted = ex_slots" "sr_threads ex_submitted = []" "sr_shared ex_submitted = []" "sr_calls ex_submitted = []"
    by (simp_all add: ex_task_def ex_submitted_def submit_def new_task_scheduler_def Let_def)
  have "map_vals (\<lambda>_ slot. if ss_last_heartbeat slot \<noteq> 0 \<and> ss_last_heartbeat slot + SLOT_HEARTBEAT_TIMEOUT < 2000
      then expire_slot slot else slot) ex_slots = ex_slots"
    by (simp add: ex_slots_def) (simp add: ex_slot_def new_slot_def)
  then have e: "expire_stale 2000 (ex_submitted\<lparr>sr_running := True, sr_loop := Loop_Test\<rparr>)
      = ex_submitted\<lparr>sr_running := True, sr_loop := Loop_Test\<rparr>"
    using p(5) by (cases ex_submitted) (simp add: expire_stale_def)
  define s1 where "s1 = ex_submitted\<lparr>sr_running := True, sr_loop := Loop_Test\<rparr>"
  define s2 where "s2 = (expire_stale 2000 s1)\<lparr>sr_loop := Loop_Drain 2000 []\<rparr>"
  define s3 where "s3 = s2\<lparr>sr_pending := [], sr_loop := Loop_Drain 2000 ([] @ [ex_task])\<rparr>"
  define s4 where "s4 = s3\<lparr>sr_loop := Loop_Dispatch 2000 [ex_task]\<rparr>"
  define s5 where "s5 = (dispatch_task ex_real insertion_sort 2000 ex_task s4)\<lparr>sr_loop := Loop_Dispatch 2000 []\<rparr>"
  have "?R s1" unfolding s1_def by (rule scheduler_next [OF ex_submitted_reachable starts]) (simp_all add: p)
  then have "?R s2" unfolding s2_def by (rule scheduler_next) (rule loop_round, simp_all add: s1_def)
  moreover have s2: "sr_loop s2 = Loop_Drain 2000 []" "sr_pending s2 = [ex_task]" by (simp_all add: s2_def s1_def e p(1))
  ultimately have "?R s3" unfolding s3_def using scheduler_next [OF _ loop_pops] by blast
  then have "?R s4" unfolding s4_def by (rule scheduler_next) (rule loop_drained, simp add: s3_def)
  then have "?R s5" unfolding s5_def by (rule scheduler_next) (rule loop_dispatches, simp add: s4_def)
  moreover have "select_best_slots ex_real insertion_sort (sr_slots s4) (pt_type ex_task) 2000 3 = [Slot_Key 1 1, Slot_Key 2 0]"
    using ex_selected by (simp add: s4_def s3_def s2_def s1_def e p)
  ultimately show ?thesis
    by (intro exI [of _ s5]) (simp add: s5_def dispatch_task_def Let_def s4_def s3_def s2_def s1_def e p)
qed

lemma every_callback_exactly_once_witness:
  "\<exists>s. scheduler_reachable ex_real insertion_sort ex_slots s \<and> length (sr_threads s) = 2 \<and>
     {#(7::nat, 1::u32)#} = called (sr_calls s) + waiting s"
proof -
  obtain s :: "(real, nat) scheduler" where s: "scheduler_reachable ex_real insertion_sort ex_slots s" "length (sr_threads s) = 2"
    "sr_submitted s = sr_submitted ex_submitted" using ex_dispatched_reachable by blast
  have "owed_list (sr_submitted ex_submitted) = {#(7, 1)#}"
    by (simp add: ex_submitted_def submit_def new_task_scheduler_def owed_def Let_def)
  then show ?thesis using every_callback_exactly_once [OF s(1)] s by (intro exI [of _ s]) simp
qed

lemma attempts_are_bounded_witness:
  "\<exists>s :: (real, nat) scheduler. scheduler_reachable ex_real insertion_sort ex_slots s \<and> sr_active s = 2 \<and>
     pt_attempt_count (sh_task (hd (sr_shared s))) \<le> max 1 (pt_max_attempts (sh_task (hd (sr_shared s))))"
proof -
  obtain s :: "(real, nat) scheduler" where s: "scheduler_reachable ex_real insertion_sort ex_slots s" "length (sr_threads s) = 2"
    "length (sr_shared s) = 1" using ex_dispatched_reachable by blast
  then have "hd (sr_shared s) \<in> set (sr_shared s)" by (cases "sr_shared s") auto
  then show ?thesis using attempts_are_bounded [OF s(1)] s by (intro exI [of _ s]) simp
qed

lemma no_dispatch_without_handshake_witness:
  "\<exists>s :: (real, nat) scheduler. scheduler_reachable ex_real insertion_sort [] s \<and> length (sr_pending s) = 1 \<and> sr_threads s = []"
proof -
  define s where "s = (fst (submit 1 [104] 5000 2 (Some 7) True (new_task_scheduler [])) :: (real, nat) scheduler)"
  have r: "scheduler_reachable ex_real insertion_sort [] s" unfolding s_def
    by (rule scheduler_next [OF scheduler_init submits]) (simp add: push_answer_def new_task_scheduler_def)
  have "no_handshake ([] :: real slots)" by (simp add: no_handshake_def)
  from no_dispatch_without_handshake [OF insertion.comparison_sort_axioms this r] r show ?thesis
    by (intro exI [of _ s]) (simp add: s_def submit_def new_task_scheduler_def Let_def)
qed

section \<open>The decision engine\<close>

definition ex_v1_engine :: decision_engine where
  "ex_v1_engine = (sl4_engine_create 1)\<lparr>de_identities :=
     Some (register_peer 5 (Some (replicate 32 9)) (new_identity_provider 1))\<rparr>"

definition ex_v1_context :: decision_context where
  "ex_v1_context = \<lparr>dx_local_peer = \<lparr>pn_trust_domain_id = 1, pn_node_id = 2, pn_pubkey = replicate 32 0, pn_revoked = False\<rparr>,
     dx_remote_peer = \<lparr>pn_trust_domain_id = 1, pn_node_id = 5, pn_pubkey = replicate 32 9, pn_revoked = False\<rparr>,
     dx_trust_domain_id = 1, dx_session_id = 3, dx_key_id = 1, dx_negotiated_sl = 2, dx_requested_cap = 1,
     dx_msg_type = 16, dx_correlation_id = 7, dx_policy_id = ''default-policy'', dx_established_policy_revision = 0,
     dx_timestamp_sec = 1700000000\<rparr>"

lemma ex_key_nonzero: "((OR) (9::u8) ^^ 32) 0 \<noteq> 0"
proof -
  have "((OR) (9::u8) ^^ Suc n) 0 = 9" for n by (induction n) simp_all
  from this [of 31] show ?thesis by (simp del: funpow.simps)
qed

lemma ex_v1_admitted: "admitted ex_v1_engine ex_v1_context"
  by (simp add: admitted_def identity_gate_def ex_v1_engine_def ex_v1_context_def sl4_engine_create_def register_peer_def
      register_peer_for_domain_def new_identity_provider_def is_peer_trusted_def is_node_revoked_def
      is_node_revoked_in_domain_def validate_peer_identity_def new_policy_provider_def default_policy_v1_def holds_caps_def
      ex_key_nonzero)


section \<open>Calls through the C interface\<close>

lemma ex_v1_sent_at:
  "\<exists>out t'. send_task_frame ex_os (inp, []) 4 ex_v1_time ex_v1_sender ex_v1_call = ((inp, out), t', True)"
proof -
  have e: "length (task_extensions ex_v1_time ex_v1_sender ex_v1_call) = 32"
    by (simp add: length_task_extensions) (simp add: ex_v1_sender_def sender_set_sl1_def)
  then have "task_extensions ex_v1_time ex_v1_sender ex_v1_call \<noteq> []" by auto
  moreover have "length (task_payload ex_v1_call) = 3" by (simp add: task_payload_def ex_v1_call_def)
  ultimately show ?thesis using e by (simp add: send_task_frame_def ex_send_part ex_send_fixed task_payload_nonempty Let_def)
qed

text \<open>A worker that answers more than the caller has room for: the body is cut, the code is success.\<close>

lemma abi_call_returns_answer_witness:
  "\<exists>w' t'. linep_sender_send_task ex_os (result_bytes ex_v1_time (task_header ex_v1_sender ex_v1_call) 0 1 [0, 105, 104], [])
      (\<lambda>_ _ _. Some 4) ex_v1_time (Some ex_v1_sender) (Some ''h'') 9000 ex_v1_call (Some [7, 7, 7]) (Some 2) 5000 =
    (w', Some t', LINEP_C_OK, Some [0, 105, 7], Some 2)"
proof -
  let ?r = "result_bytes ex_v1_time (task_header ex_v1_sender ex_v1_call) 0 1 [0, 105, 104]"
  obtain out t' where s: "send_task_frame ex_os (?r, []) 4 ex_v1_time ex_v1_sender ex_v1_call = ((?r, out), t', True)"
    using ex_v1_sent_at by blast
  have "fst (?r, out) = result_bytes ex_v1_time (task_header ex_v1_sender ex_v1_call) 0 1 (0 # [105, 104]) @ []" by simp
  from abi_call_returns_answer [OF _ s ex_os_contracts(2,3) this, of "\<lambda>_ _ _. Some 4" "''h''" 9000 5000 2 "[7, 7, 7]"]
  show ?thesis by auto
qed

lemma abi_call_stays_in_buffer_witness:
  "\<exists>w'. linep_sender_send_task ex_os ([], []) (\<lambda>_ _ _. None) ex_v1_time (Some ex_v1_sender) (Some ''h'') 9000 ex_v1_call
      (Some [7, 7, 7]) (Some 3) 5000 = (w', Some ex_v1_sender, LINEP_C_ERR_TIMEOUT, Some [7, 7, 7], Some 3)"
proof -
  obtain w' s' code buf' len' where c: "linep_sender_send_task ex_os ([], []) (\<lambda>_ _ _. None) ex_v1_time (Some ex_v1_sender)
      (Some ''h'') 9000 ex_v1_call (Some [7, 7, 7]) (Some 3) 5000 = (w', s', code, buf', len')" by (rule prod_cases5)
  have "code = LINEP_C_ERR_TIMEOUT \<and> s' = Some ex_v1_sender"
    using c by (simp add: linep_sender_send_task_def send_task_def Let_def)
  with c abi_call_stays_in_buffer [OF c] show ?thesis by simp
qed

lemma engine_answer_in_buffer_witness:
  "\<exists>r d. linep_sl4_engine_evaluate None q (Some 9) (Some [7, 7]) = (None, False, d, Some r) \<and> length r = 2"
  using engine_answer_in_buffer [of None q "Some 9" "[7, 7]"] by (simp add: linep_sl4_engine_evaluate_def)

end
