(* ===== verification/Spec2Isabelle.thy ===== *)
theory Spec2Isabelle
  imports Control_Plane_Examples Session_Examples Connection_Examples SL_Examples Mock_Examples
    Conformance_Examples Registration_Examples Lease_Examples V1_Examples
begin

text \<open>
  A model of LiNeP v0.2 and v0.1 and of their security layer LiNeP-SL, translated from the C++ sources,
  with the properties that make them correct.

  The program. A router and its nodes exchange UDP control datagrams, by which nodes announce
  themselves, are invited, acknowledge leases and report telemetry; requests, events, controls and
  capabilities travel as length-prefixed envelopes over TCP trunks, on which a session manager keeps the
  lifecycle, order and back-pressure of concurrent streams, and a scheduler shares the trunk among them.
  Frames can be authenticated under the lease (SL1). LiNeP-SL negotiates a security level and a cipher
  suite, authenticates both parties in a handshake (SL2), signs messages of both planes, authorizes
  requests by policy (SL3), governs admission and audit (SL4) and protects group messages. Version 0.1,
  which is still built, sends tasks over one TCP connection each and schedules them over the slots of workers
  that announce themselves by heartbeats.

  Foundations. \<open>Prelude\<close> has the integer and byte types, association lists as the maps of the code,
  and the lemmas that all parts share. \<open>Wire\<close> has the field writers and readers of \<open>envelope_codec\<close>,
  each proved to be an exact codec by the locales it opens: a decoder accepts exactly the encodings, and
  encodings are prefix free; every message codec of the development is built on its interpretations.
  \<open>Sha256\<close> and \<open>SL_Sha256\<close> are the two SHA-256 and HMAC implementations (\<open>core/sha256.cpp\<close> and
  \<open>LiNeP-SL/src/sha256.cpp\<close>), proved to be the padded block function and the RFC 2104 construction, and
  equal to each other.

  Control plane (\<open>control_plane.cpp\<close>). \<open>Control_Datagram\<close> has the datagram codec and its checksum,
  \<open>Control_Plane\<close> the router with its operations and the handler of each message type,
  \<open>Control_Plane_Props\<close> what one datagram can do, \<open>Control_Plane_Invariants\<close> what holds in every
  state that operations can reach, and \<open>Lease_Authority\<close> the interface by which a session asks whether a
  lease is current, interpreted on the router.

  Envelopes (\<open>envelopes.cpp\<close>, \<open>runtime_types.hpp\<close>, \<open>lifecycle.hpp\<close>, \<open>vision\<close>, \<open>decision\<close> and
  \<open>embedding\<close>). \<open>Runtime_Types\<close> and \<open>Payload_Types\<close> have the data types with their validity checks;
  \<open>Envelope_Frame\<close> the frame header, the authentication extension, SL1 signing and SESSION_BIND;
  \<open>Envelopes\<close> and \<open>Event_Envelopes\<close> the other envelopes, with round trips, exactness and bounds.

  Sessions (\<open>session.cpp\<close>). \<open>Session_Manager\<close> has the state and every operation, \<open>Session_Streams\<close>
  the back-pressure invariant, the history of a stream and the controls, \<open>Session_Binding\<close> the binding of
  a session to a lease and the order of authenticated frames, over the interface of \<open>Lease_Authority\<close>.

  Transport (\<open>transport.cpp\<close>, \<open>socket_posix.cpp\<close>). \<open>Stream_Scheduler\<close> has the multiplexer,
  \<open>Scheduler_Props\<close> its invariant and its refinement to one queue per stream, \<open>Connection\<close> the framed
  connection over a socket whose send and receive calls are parameters that answer as POSIX has it, and
  \<open>Connection_Props\<close> its delivery and fail-closed properties, with signing and verification composed.

  Leases and registration (\<open>lease.cpp\<close>, \<open>registration.cpp\<close>, \<open>udp_transport.cpp\<close>). \<open>Udp_Channel\<close> has the
  datagram channel, \<open>Lease_Client\<close> the client that acquires, keeps and uses a lease and the issuer,
  \<open>Lease_Protocol\<close> what each half does by itself, \<open>Lease_Link\<close> a client and an issuer joined by a link that may
  lose datagrams, \<open>Lease_Props\<close> that acquiring ends and binds, and that leases are distinct.
  \<open>Registration_Codec\<close> and \<open>Registration\<close> have the registration message, \<open>Registration_Session\<close> the
  router's side of a worker connection, \<open>Registration_Props\<close> what is admitted over it.

  Mock runtime (\<open>mock_runtime.cpp\<close>). \<open>Mock_Runtime\<close> has the server that puts sessions, connections and the
  router to work: the frame loop of a client and the output threads beside it; \<open>Mock_Runtime_Props\<close> has the
  form of the events it sends and the checks before a worker starts.

  Conformance runner (\<open>conformance.cpp\<close>). \<open>Conformance\<close> has the tests a runtime has to pass, the suites and the
  report; \<open>Conformance_Props\<close> has what a receive loop reads, that the chat test passes on exactly the
  well-formed streams, that the mock runtime sends such a stream, and how a report counts its results.

  Security layer (\<open>LiNeP-SL/src/v0_2\<close>). \<open>Replay_Window\<close> has the bitmap window and the stream tracker,
  with the refinement of the window to a set of numbers. \<open>Security_Contract\<close> has the bindings and the
  authenticator input, with its injectivity, \<open>Negotiation\<close> the offers, the choice of level and suite and
  the transcript, \<open>Security_Session\<close> the session registry and its invariant, \<open>Plane_Authenticator\<close> the
  signing and verification of messages. \<open>SL2_Messages\<close> has the handshake codecs, \<open>SL2_Handshake\<close> the
  handshake as a state machine, \<open>SL2_Run\<close> complete runs of it. \<open>Authorization\<close> and \<open>Governance\<close> are the
  policy engine and the governance engine with its audit chain, \<open>Group_Security\<close> and
  \<open>Group_Security_Props\<close> the reference group provider, its invariant and its message protection.

  Version 0.1 (\<open>core\<close>, \<open>tcp\<close>, \<open>udp\<close>, \<open>scheduler\<close>, \<open>cabi\<close> and \<open>LiNeP-SL/src/sl1.cpp\<close> to \<open>sl4.cpp\<close>).
  \<open>Framing_V1\<close> has the packed frames and their CRC-8, with the damage it detects; \<open>Task_Transport\<close>
  the task sender and receiver, plain and streaming, and \<open>Task_Transport_Props\<close> that a task and its answer
  arrive; \<open>Task_Queue\<close> the lock-free queue, access by access, with its refinement to a bounded list;
  \<open>Slot_Registry\<close> the slots with scoring and selection; \<open>Task_Scheduler\<close> the scheduler with its loop and dispatch
  threads, \<open>Task_Scheduler_Props\<close> its invariants; \<open>Heartbeat_V1\<close> the heartbeat threads and the votes on answers;
  \<open>Security_V1\<close> and \<open>Security_V1_Props\<close> the tags, identities, session keys, tokens and the decision engine;
  \<open>C_Abi\<close> the two C interfaces.

  The theories named \<open>_Examples\<close> hold concrete inputs at which the properties are applied.

  Conventions. A class is a record of its fields and a method a function from the old to the new record,
  with the result beside it; \<open>unordered_map\<close> is an association list with distinct keys; a boolean result
  with an output parameter is an option or a sum, an early return a branch. Machine integers are words of
  their width, so wrap-around is the code's. Floats are IEEE-754 bit patterns. Methods that hold a mutex
  from start to end are atomic steps; where the code works outside its lock (flushing a trunk, passing
  records to sinks, the queue, the dispatch and output threads), the parts are separate steps of a relation, and
  the properties hold for every interleaving. Recursion is structural or bounded by the length of the data, so
  no fuel is needed: the socket loops recurse over the bytes still to be transferred, which is the
  most calls the code makes, and the loops of the lease client over its attempts and the time that polling
  takes. The loop that receives a streamed result and those of the conformance tests may run for ever and are
  partial functions; that they return when the final chunk or the terminal event comes is part of their property. The refinement of the queue is stated for up to
  \<open>2 ^ 31 - 512\<close> pushes, after which the signed difference of positions may be misread.

  Parameters. The clock is an argument of the operations that take the time; the socket calls, OpenSSL,
  the identity verifier, the attestation verifier, the authorizer of registrations, the entropy source, the
  callbacks of workers, the sorting of candidates by \<open>std::sort\<close>, the embedding provider, the time of the build and
  the arithmetic on floats and doubles are arguments of the definitions that use them. What is
  assumed of OpenSSL for a handshake to complete is \<open>openssl_works\<close>: both sides of a
  key agreement get the same secret, signatures of a key pair verify, and key derivation returns as many
  bytes as it is asked for. Sockets are assumed to send and receive as POSIX has it (\<open>send_contract\<close>,
  \<open>recv_contract\<close>), and the sort to permute its input into an order
  without inversions of a strict weak order. Nothing is
  assumed about the strength of SHA-256 or HMAC: where a property rests on it, the collision is the other
  case of the statement.

  What the properties do not say. Several of them record what the code does where that is not what it
  means to do: a forged event blocks its stream, the second handshake of two nodes is refused, the mode of
  a group message is not authenticated, a member that rejoins is never heard; the scheduler of version 0.1
  never makes a slot active, so it dispatches nothing, it reads the build time of a result as its status, and
  its consensus over answers is never reached; one task can be accepted on two connections at once; a
  repeated bind makes the mock runtime sign with numbers it has used; the conformance test of snapshots passes
  on streams without any. Statements about sending say
  nothing of what a network does with the bytes.

  Not modelled: the command line tools, which parse arguments and files and print around the modelled
  library; durations of tests; starting, stopping and joining of threads; the bindings to other languages; the
  platform layer beyond the two socket loops.
\<close>

end
